(* ===== verification/Js.thy ===== *)
theory Js
  imports Complex_Main "HOL-Library.Char_ord" "HOL-Library.List_Lexorder"
begin

text \<open>
  Prelude: the JavaScript values, operators and library functions the AgentFlow sources use, the
  error type their throws become, the loop combinators, and the generic lemmas the components
  share.

  \<^item> A JavaScript value is a \<open>js\<close>. Strings are sequences of code units below 256 (HOL's
    \<open>char\<close>); numbers are the exact rationals with the three non-finite values; objects are
    association lists in enumeration order. \<open>JBuiltin\<close> is a member an ordinary object
    inherits from \<open>Object.prototype\<close>, which a computed property read can return.
  \<^item> Two distinct objects or arrays are never strictly equal (identity), which is what
    \<open>===\<close> gives on values that were parsed from JSON or cloned.
  \<^item> A throw is \<open>Inl\<close>: \<open>Error m\<close> for the sources' own throws and
    \<open>TypeError m\<close> for a property read on \<open>undefined\<close> or \<open>null\<close> or a
    method that does not exist.
  \<^item> The host is a parameter: SHA-256 of node:crypto, the implementation-defined part of
    \<open>Date.parse\<close>, and the shortest round-trip printing of non-integral doubles.
\<close>

section \<open>Values\<close>

datatype jsnum = NaN | PosInf | NegInf | Fin rat

datatype js =
    JUndef
  | JNull
  | JBool bool
  | JNum jsnum
  | JStr string
  | JArr "js list"
  | JObj "(string \<times> js) list"
  | JBuiltin string

datatype jserr = Error string | TypeError string

type_synonym 'a res = "jserr + 'a"

abbreviation fail :: "string \<Rightarrow> 'a res" where
  "fail m \<equiv> Inl (Error m)"

record host =
  sha256 :: "string \<Rightarrow> string"
  legacy_date :: "string \<Rightarrow> int option"
  ftoa :: "rat \<Rightarrow> string"

named_theorems res_simps \<open>unfolding of the error monad and its loops\<close>
named_theorems js_simps \<open>evaluation of the JavaScript operators\<close>

section \<open>The error monad\<close>

definition bnd :: "'a res \<Rightarrow> ('a \<Rightarrow> 'b res) \<Rightarrow> 'b res" where
  "bnd m f = (case m of Inl e \<Rightarrow> Inl e | Inr x \<Rightarrow> f x)"

lemma bnd_simps [simp]: "bnd (Inl e) f = Inl e" "bnd (Inr x) f = f x"
  by (simp_all add: bnd_def)

lemma bnd_Inr [simp]: "bnd m f = Inr y \<longleftrightarrow> (\<exists>x. m = Inr x \<and> f x = Inr y)"
  by (cases m) auto

lemma if_Inl_Inr [res_simps]:
  "(if b then Inl e else m) = Inr y \<longleftrightarrow> \<not> b \<and> m = Inr y"
  "(if b then m else Inl e) = Inr y \<longleftrightarrow> b \<and> m = Inr y"
  by simp_all

lemma bnd_InlE: "bnd m f = Inl e \<Longrightarrow> (m = Inl e \<Longrightarrow> P) \<Longrightarrow> (\<And>x. m = Inr x \<Longrightarrow> f x = Inl e \<Longrightarrow> P) \<Longrightarrow> P"
  by (cases m) auto

lemma bnd_cong [fundef_cong]:
  "m = n \<Longrightarrow> (\<And>x. n = Inr x \<Longrightarrow> f x = g x) \<Longrightarrow> bnd m f = bnd n g"
  by (cases n) (auto simp: bnd_def)

lemma bnd_assoc: "bnd (bnd m f) g = bnd m (\<lambda>x. bnd (f x) g)"
  by (cases m) auto

text \<open>\<open>for (const x of xs) body(x)\<close> where the body only throws or goes on.\<close>

fun for_each :: "('a \<Rightarrow> 'b res) \<Rightarrow> 'a list \<Rightarrow> unit res" where
  "for_each f [] = Inr ()"
| "for_each f (x # xs) = bnd (f x) (\<lambda>_. for_each f xs)"

text \<open>A loop that also updates the state \<open>s\<close>.\<close>

fun for_fold :: "('s \<Rightarrow> 'a \<Rightarrow> 's res) \<Rightarrow> 's \<Rightarrow> 'a list \<Rightarrow> 's res" where
  "for_fold f s [] = Inr s"
| "for_fold f s (x # xs) = bnd (f s x) (\<lambda>s'. for_fold f s' xs)"

text \<open>\<open>xs.some(f)\<close> and \<open>xs.map(f)\<close> where \<open>f\<close> may throw.\<close>

fun some_res :: "('a \<Rightarrow> bool res) \<Rightarrow> 'a list \<Rightarrow> bool res" where
  "some_res f [] = Inr False"
| "some_res f (x # xs) = bnd (f x) (\<lambda>b. if b then Inr True else some_res f xs)"

fun map_res :: "('a \<Rightarrow> 'b res) \<Rightarrow> 'a list \<Rightarrow> 'b list res" where
  "map_res f [] = Inr []"
| "map_res f (x # xs) = bnd (f x) (\<lambda>y. bnd (map_res f xs) (\<lambda>ys. Inr (y # ys)))"

lemma for_each_Inr: "for_each f xs = Inr u \<longleftrightarrow> (\<forall>x\<in>set xs. \<exists>y. f x = Inr y)"
  by (induction xs) auto

lemma for_fold_append: "for_fold f s (xs @ ys) = bnd (for_fold f s xs) (\<lambda>s'. for_fold f s' ys)"
  by (induction xs arbitrary: s) (simp_all add: bnd_assoc)

lemma for_fold_invariant:
  assumes "for_fold f s xs = Inr t" and "P s"
    and "\<And>s x t. x \<in> set xs \<Longrightarrow> P s \<Longrightarrow> f s x = Inr t \<Longrightarrow> P t"
  shows "P t"
  using assms
proof (induction xs arbitrary: s)
  case Nil
  then show ?case by simp
next
  case (Cons x xs)
  from Cons.prems(1) obtain s' where s': "f s x = Inr s'" and rest: "for_fold f s' xs = Inr t"
    by auto
  from Cons.prems(3) [of x s s'] Cons.prems(2) s' have "P s'" by simp
  with rest show ?case using Cons.IH Cons.prems(3) by (meson list.set_intros(2))
qed

lemma some_res_False:
  "some_res f xs = Inr False \<longleftrightarrow> (\<forall>x\<in>set xs. f x = Inr False)"
  by (induction xs) (auto split: if_splits)

lemma some_res_TrueD: "some_res f xs = Inr True \<Longrightarrow> \<exists>x\<in>set xs. f x = Inr True"
  by (induction xs) (auto split: if_splits)

lemma some_res_total:
  "(\<And>x. x \<in> set xs \<Longrightarrow> f x = Inr (P x)) \<Longrightarrow> some_res f xs = Inr (\<exists>x\<in>set xs. P x)"
  by (induction xs) auto

lemma map_res_total: "(\<And>x. x \<in> set xs \<Longrightarrow> f x = Inr (g x)) \<Longrightarrow> map_res f xs = Inr (map g xs)"
  by (induction xs) auto

lemma map_res_Inr_iff: "map_res f xs = Inr ys \<longleftrightarrow> list_all2 (\<lambda>x y. f x = Inr y) xs ys"
proof (induction xs arbitrary: ys)
  case Nil
  show ?case by auto
next
  case (Cons x xs)
  show ?case by (cases ys) (auto simp: Cons.IH)
qed

lemma map_res_elem: "map_res f xs = Inr ys \<Longrightarrow> x \<in> set xs \<Longrightarrow> \<exists>y\<in>set ys. f x = Inr y"
  by (induction xs arbitrary: ys) auto

lemma find_SomeD: "find P xs = Some x \<Longrightarrow> x \<in> set xs \<and> P x"
  by (induction xs) (auto split: if_splits)

section \<open>Operators\<close>

abbreviation JNat :: "nat \<Rightarrow> js" where
  "JNat n \<equiv> JNum (Fin (of_nat n))"

abbreviation JInt :: "int \<Rightarrow> js" where
  "JInt n \<equiv> JNum (Fin (of_int n))"

fun nullish :: "js \<Rightarrow> bool" where
  "nullish JUndef = True"
| "nullish JNull = True"
| "nullish _ = False"

text \<open>\<open>a ?? b\<close>\<close>

definition coal :: "js \<Rightarrow> js \<Rightarrow> js" where
  "coal a b = (if nullish a then b else a)"

fun truthy :: "js \<Rightarrow> bool" where
  "truthy JUndef = False"
| "truthy JNull = False"
| "truthy (JBool b) = b"
| "truthy (JNum n) = (n \<noteq> NaN \<and> n \<noteq> Fin 0)"
| "truthy (JStr s) = (s \<noteq> [])"
| "truthy _ = True"

text \<open>\<open>a === b\<close>\<close>

fun js_eq :: "js \<Rightarrow> js \<Rightarrow> bool" where
  "js_eq JUndef JUndef = True"
| "js_eq JNull JNull = True"
| "js_eq (JBool a) (JBool b) = (a = b)"
| "js_eq (JNum a) (JNum b) = (a = b \<and> a \<noteq> NaN)"
| "js_eq (JStr a) (JStr b) = (a = b)"
| "js_eq (JBuiltin a) (JBuiltin b) = (a = b)"
| "js_eq _ _ = False"

text \<open>\<open>xs.includes(v)\<close> (SameValueZero: it also finds \<open>NaN\<close>).\<close>

definition same_zero :: "js \<Rightarrow> js \<Rightarrow> bool" where
  "same_zero a b = (js_eq a b \<or> (a = JNum NaN \<and> b = JNum NaN))"

definition js_includes :: "js list \<Rightarrow> js \<Rightarrow> bool" where
  "js_includes xs v = list_ex (same_zero v) xs"

text \<open>\<open>['a', 'b'].includes(v)\<close> for an array of string literals.\<close>

definition one_of :: "string list \<Rightarrow> js \<Rightarrow> bool" where
  "one_of ss v = (case v of JStr s \<Rightarrow> s \<in> set ss | _ \<Rightarrow> False)"

fun is_string :: "js \<Rightarrow> bool" where
  "is_string (JStr _) = True"
| "is_string _ = False"

fun is_bool :: "js \<Rightarrow> bool" where
  "is_bool (JBool _) = True"
| "is_bool _ = False"

fun is_array :: "js \<Rightarrow> bool" where
  "is_array (JArr _) = True"
| "is_array _ = False"

text \<open>\<open>typeof v === 'object'\<close> (true of \<open>null\<close>, as in JavaScript)\<close>

fun typeof_object :: "js \<Rightarrow> bool" where
  "typeof_object JNull = True"
| "typeof_object (JArr _) = True"
| "typeof_object (JObj _) = True"
| "typeof_object (JBuiltin k) = (k = ''__proto__'')"
| "typeof_object _ = False"

fun str_of :: "js \<Rightarrow> string" where
  "str_of (JStr s) = s"
| "str_of _ = []"

fun elems :: "js \<Rightarrow> js list" where
  "elems (JArr xs) = xs"
| "elems _ = []"

fun num_of :: "js \<Rightarrow> jsnum" where
  "num_of (JNum n) = n"
| "num_of _ = NaN"

text \<open>Relational operators on numbers: false when either side is \<open>NaN\<close>.\<close>

fun num_less :: "jsnum \<Rightarrow> jsnum \<Rightarrow> bool" where
  "num_less NaN _ = False"
| "num_less _ NaN = False"
| "num_less NegInf b = (b \<noteq> NegInf)"
| "num_less PosInf b = False"
| "num_less (Fin a) (Fin b) = (a < b)"
| "num_less (Fin a) b = (b = PosInf)"

definition num_le :: "jsnum \<Rightarrow> jsnum \<Rightarrow> bool" where
  "num_le a b = (num_less a b \<or> (a = b \<and> a \<noteq> NaN))"

fun is_finite :: "jsnum \<Rightarrow> bool" where
  "is_finite (Fin _) = True"
| "is_finite _ = False"

text \<open>\<open>Number.isFinite(v)\<close>: no coercion.\<close>

definition js_finite :: "js \<Rightarrow> bool" where
  "js_finite v = (case v of JNum n \<Rightarrow> is_finite n | _ \<Rightarrow> False)"

text \<open>\<open>Number.isSafeInteger(v)\<close>\<close>

definition max_safe :: int where
  "max_safe = 9007199254740991"

definition rat_int :: "rat \<Rightarrow> int option" where
  "rat_int r = (let (p, q) = quotient_of r in if q = 1 then Some p else None)"

definition js_int :: "js \<Rightarrow> int option" where
  "js_int v = (case v of JNum (Fin r) \<Rightarrow> rat_int r | _ \<Rightarrow> None)"

definition js_safe_int :: "js \<Rightarrow> bool" where
  "js_safe_int v = (case js_int v of Some n \<Rightarrow> \<bar>n\<bar> \<le> max_safe | None \<Rightarrow> False)"

section \<open>Objects\<close>

text \<open>Names every ordinary object inherits from \<open>Object.prototype\<close>.\<close>

definition proto_names :: "string list" where
  "proto_names = [''constructor'', ''__proto__'', ''hasOwnProperty'', ''isPrototypeOf'',
     ''propertyIsEnumerable'', ''toLocaleString'', ''toString'', ''valueOf'',
     ''__defineGetter__'', ''__defineSetter__'', ''__lookupGetter__'', ''__lookupSetter__'']"

text \<open>A computed read \<open>o[k]\<close> on an ordinary object with own properties \<open>fs\<close>.\<close>

definition obj_get :: "(string \<times> js) list \<Rightarrow> string \<Rightarrow> js" where
  "obj_get fs k = (case map_of fs k of Some v \<Rightarrow> v
     | None \<Rightarrow> if k \<in> set proto_names then JBuiltin k else JUndef)"

text \<open>\<open>v?.k\<close>: a read that gives \<open>undefined\<close> on \<open>undefined\<close> and \<open>null\<close>.\<close>

definition fld :: "js \<Rightarrow> string \<Rightarrow> js" where
  "fld v k = (case v of
       JObj fs \<Rightarrow> obj_get fs k
     | JArr xs \<Rightarrow> if k = ''length'' then JNat (length xs) else obj_get [] k
     | JStr s \<Rightarrow> if k = ''length'' then JNat (length s) else obj_get [] k
     | JUndef \<Rightarrow> JUndef
     | JNull \<Rightarrow> JUndef
     | _ \<Rightarrow> obj_get [] k)"

text \<open>\<open>v.k\<close>: the read that throws on \<open>undefined\<close> and \<open>null\<close>.\<close>

definition dot :: "js \<Rightarrow> string \<Rightarrow> js res" where
  "dot v k = (case v of
       JUndef \<Rightarrow> Inl (TypeError (''Cannot read properties of undefined (reading '' @ [CHR 0x27] @ k @ [CHR 0x27] @ '')''))
     | JNull \<Rightarrow> Inl (TypeError (''Cannot read properties of null (reading '' @ [CHR 0x27] @ k @ [CHR 0x27] @ '')''))
     | _ \<Rightarrow> Inr (fld v k))"

text \<open>\<open>Object.hasOwn(o, k)\<close> and \<open>k in o\<close> for an own-property list.\<close>

definition has_own :: "(string \<times> 'v) list \<Rightarrow> string \<Rightarrow> bool" where
  "has_own fs k = (map_of fs k \<noteq> None)"

text \<open>\<open>o[k] = v\<close>: in place when the property exists, at the end otherwise.\<close>

fun obj_set :: "(string \<times> 'v) list \<Rightarrow> string \<Rightarrow> 'v \<Rightarrow> (string \<times> 'v) list" where
  "obj_set [] k v = [(k, v)]"
| "obj_set ((k', v') # fs) k v = (if k' = k then (k, v) # fs else (k', v') # obj_set fs k v)"

text \<open>\<open>delete o[k]\<close>\<close>

definition obj_del :: "(string \<times> 'v) list \<Rightarrow> string \<Rightarrow> (string \<times> 'v) list" where
  "obj_del fs k = filter (\<lambda>(k', _). k' \<noteq> k) fs"

text \<open>\<open>{ ...a, ...b }\<close>\<close>

definition obj_spread :: "(string \<times> 'v) list \<Rightarrow> (string \<times> 'v) list \<Rightarrow> (string \<times> 'v) list" where
  "obj_spread a b = fold (\<lambda>(k, _) fs. obj_set fs k (the (map_of b k))) b a"

lemma map_of_obj_set [simp]: "map_of (obj_set fs k v) = (map_of fs)(k \<mapsto> v)"
  by (induction fs) (auto simp: fun_eq_iff)

lemma map_of_obj_del [simp]: "map_of (obj_del fs k) = (map_of fs)(k := None)"
  by (induction fs) (auto simp: fun_eq_iff obj_del_def)

lemma has_own_obj_set [simp]: "has_own (obj_set fs k v) k' = (k' = k \<or> has_own fs k')"
  by (simp add: has_own_def)

lemma has_own_obj_del [simp]: "has_own (obj_del fs k) k' = (k' \<noteq> k \<and> has_own fs k')"
  by (simp add: has_own_def)

lemma map_of_fold_set:
  "map_of (fold (\<lambda>(k, _) fs. obj_set fs k (the (m k))) b a) k = (if k \<in> fst ` set b then Some (the (m k)) else map_of a k)"
  by (induction b arbitrary: a) (auto simp: image_iff)

lemma map_of_obj_spread:
  "map_of (obj_spread a b) k = (case map_of b k of Some v \<Rightarrow> Some v | None \<Rightarrow> map_of a k)"
  unfolding obj_spread_def map_of_fold_set
  by (auto simp: map_of_eq_None_iff split: option.split dest: map_of_SomeD intro: rev_image_eqI)

lemma obj_set_new: "k \<notin> fst ` set fs \<Longrightarrow> obj_set fs k v = fs @ [(k, v)]"
  by (induction fs) auto

lemma fold_set_new:
  "distinct (map fst (a @ b)) \<Longrightarrow> (\<And>k v. (k, v) \<in> set b \<Longrightarrow> m k = Some v) \<Longrightarrow>
    fold (\<lambda>(k, _) fs. obj_set fs k (the (m k))) b a = a @ b"
proof (induction b arbitrary: a)
  case (Cons p b)
  obtain k v where p: "p = (k, v)" by (cases p)
  have "obj_set a k v = a @ [(k, v)]" using Cons.prems(1) p by (intro obj_set_new) auto
  moreover have "m k = Some v" using Cons.prems(2) p by simp
  moreover have "fold (\<lambda>(k, _) fs. obj_set fs k (the (m k))) b (a @ [(k, v)]) = (a @ [(k, v)]) @ b"
    by (rule Cons.IH) (use Cons.prems p in auto)
  ultimately show ?case by (simp add: p)
qed simp

lemma obj_spread_new: "distinct (map fst (a @ b)) \<Longrightarrow> obj_spread a b = a @ b"
  unfolding obj_spread_def by (rule fold_set_new) auto

lemma obj_set_last: "k \<notin> fst ` set fs \<Longrightarrow> obj_set (fs @ [(k, x)]) k v = fs @ [(k, v)]"
  by (induction fs) auto

lemma set_obj_set: "set (obj_set fs k v) \<subseteq> insert (k, v) (set fs)"
  by (induction fs) (auto split: if_splits)

lemma keys_obj_set: "fst ` set (obj_set fs k v) = insert k (fst ` set fs)"
proof (induction fs)
  case Nil
  show ?case by simp
next
  case (Cons p fs)
  obtain k' v' where "p = (k', v')" by (cases p)
  with Cons.IH show ?case by (simp add: insert_commute)
qed

lemma distinct_obj_set: "distinct (map fst fs) \<Longrightarrow> distinct (map fst (obj_set fs k v))"
proof (induction fs)
  case Nil
  show ?case by simp
next
  case (Cons p fs)
  obtain k' v' where p: "p = (k', v')" by (cases p)
  have "fst ` set (obj_set fs k v) = insert k (fst ` set fs)" by (rule keys_obj_set)
  with Cons p show ?case by auto
qed

lemma distinct_obj_del: "distinct (map fst fs) \<Longrightarrow> distinct (map fst (obj_del fs k))"
  by (simp add: obj_del_def distinct_map_filter)

section \<open>Strings\<close>

text \<open>White space and line terminators below 256, as \<open>trim\<close> and \<open>\s\<close> take them.\<close>

definition is_space :: "char \<Rightarrow> bool" where
  "is_space c = ((of_char c :: nat) \<in> {9, 10, 11, 12, 13, 32, 160})"

definition js_trim :: "string \<Rightarrow> string" where
  "js_trim s = rev (dropWhile is_space (rev (dropWhile is_space s)))"

fun starts_with :: "string \<Rightarrow> string \<Rightarrow> bool" where
  "starts_with s [] = True"
| "starts_with [] (c # p) = False"
| "starts_with (d # s) (c # p) = (c = d \<and> starts_with s p)"

definition ends_with :: "string \<Rightarrow> string \<Rightarrow> bool" where
  "ends_with s p = starts_with (rev s) (rev p)"

fun str_includes :: "string \<Rightarrow> string \<Rightarrow> bool" where
  "str_includes [] p = (p = [])"
| "str_includes (c # s) p = (starts_with (c # s) p \<or> str_includes s p)"

fun js_join :: "string \<Rightarrow> string list \<Rightarrow> string" where
  "js_join sep [] = []"
| "js_join sep [x] = x"
| "js_join sep (x # y # xs) = x @ sep @ js_join sep (y # xs)"

text \<open>\<open>s.split(c)\<close> for a one-character separator.\<close>

fun split_on :: "char \<Rightarrow> string \<Rightarrow> string list" where
  "split_on c [] = [[]]"
| "split_on c (d # s) =
     (if d = c then [] # split_on c s
      else case split_on c s of [] \<Rightarrow> [[d]] | w # ws \<Rightarrow> (d # w) # ws)"

definition lower_char :: "char \<Rightarrow> char" where
  "lower_char c = (let n = (of_char c :: nat) in
     if (65 \<le> n \<and> n \<le> 90) \<or> (192 \<le> n \<and> n \<le> 222 \<and> n \<noteq> 215) then char_of (n + 32) else c)"

definition js_lower :: "string \<Rightarrow> string" where
  "js_lower s = map lower_char s"

definition is_digit :: "char \<Rightarrow> bool" where
  "is_digit c = (let n = (of_char c :: nat) in 48 \<le> n \<and> n \<le> 57)"

definition is_lower :: "char \<Rightarrow> bool" where
  "is_lower c = (let n = (of_char c :: nat) in 97 \<le> n \<and> n \<le> 122)"

definition is_alnum :: "char \<Rightarrow> bool" where
  "is_alnum c = (let n = (of_char c :: nat) in
     (48 \<le> n \<and> n \<le> 57) \<or> (65 \<le> n \<and> n \<le> 90) \<or> (97 \<le> n \<and> n \<le> 122))"

definition is_hex :: "char \<Rightarrow> bool" where
  "is_hex c = (let n = (of_char c :: nat) in (48 \<le> n \<and> n \<le> 57) \<or> (97 \<le> n \<and> n \<le> 102))"

lemma starts_with_iff: "starts_with s p \<longleftrightarrow> (\<exists>r. s = p @ r)"
  by (induction s p rule: starts_with.induct) auto

lemma starts_with_refl [simp]: "starts_with s s"
  by (simp add: starts_with_iff)

lemma starts_with_trans: "starts_with s p \<Longrightarrow> starts_with p q \<Longrightarrow> starts_with s q"
  by (auto simp: starts_with_iff)

lemma ends_with_iff: "ends_with s p \<longleftrightarrow> (\<exists>r. s = r @ p)"
proof -
  have "ends_with s p \<longleftrightarrow> (\<exists>r. rev s = rev p @ r)"
    by (simp add: ends_with_def starts_with_iff)
  also have "\<dots> \<longleftrightarrow> (\<exists>r. s = r @ p)"
    by (metis rev_append rev_rev_ident)
  finally show ?thesis .
qed

lemma str_includes_iff: "str_includes s p \<longleftrightarrow> (\<exists>a b. s = a @ p @ b)"
proof (induction s)
  case Nil
  show ?case by auto
next
  case (Cons c s)
  have "(\<exists>a b. c # s = a @ p @ b) \<longleftrightarrow> (\<exists>b. c # s = p @ b) \<or> (\<exists>a b. s = a @ p @ b)"
    by (metis append_Cons append_Nil list.exhaust list.inject)
  then show ?case by (simp add: Cons.IH starts_with_iff)
qed

lemma js_trim_empty: "js_trim s = [] \<longleftrightarrow> (\<forall>c\<in>set s. is_space c)"
proof -
  have "js_trim s = [] \<longleftrightarrow> (\<forall>c\<in>set (dropWhile is_space s). is_space c)"
    by (simp add: js_trim_def)
  also have "\<dots> \<longleftrightarrow> dropWhile is_space s = []"
  proof (cases "dropWhile is_space s")
    case Nil
    show ?thesis unfolding Nil by simp
  next
    case (Cons c r)
    then have "\<not> is_space c" by (simp add: dropWhile_eq_Cons_conv)
    with Cons show ?thesis by simp
  qed
  finally show ?thesis by (simp add: dropWhile_eq_Nil_conv)
qed

section \<open>Printing numbers and values\<close>

definition digit_char :: "nat \<Rightarrow> char" where
  "digit_char d = char_of (48 + d)"

fun nat_str :: "nat \<Rightarrow> string" where
  "nat_str n = (if n < 10 then [digit_char n] else nat_str (n div 10) @ [digit_char (n mod 10)])"

declare nat_str.simps [simp del]

definition int_str :: "int \<Rightarrow> string" where
  "int_str n = (if n < 0 then CHR ''-'' # nat_str (nat (- n)) else nat_str (nat n))"

definition num_str :: "host \<Rightarrow> jsnum \<Rightarrow> string" where
  "num_str h n = (case n of
       NaN \<Rightarrow> ''NaN'' | PosInf \<Rightarrow> ''Infinity'' | NegInf \<Rightarrow> ''-Infinity''
     | Fin r \<Rightarrow> (case rat_int r of
          Some i \<Rightarrow> if \<bar>i\<bar> < 10 ^ 21 then int_str i else ftoa h r
        | None \<Rightarrow> ftoa h r))"

text \<open>\<open>String(v)\<close>\<close>

fun js_string :: "host \<Rightarrow> js \<Rightarrow> string" where
  "js_string h JUndef = ''undefined''"
| "js_string h JNull = ''null''"
| "js_string h (JBool b) = (if b then ''true'' else ''false'')"
| "js_string h (JNum n) = num_str h n"
| "js_string h (JStr s) = s"
| "js_string h (JArr xs) = js_join '','' (map (\<lambda>x. if nullish x then [] else js_string h x) xs)"
| "js_string h (JObj fs) = ''[object Object]''"
| "js_string h (JBuiltin k) =
     (if k = ''__proto__'' then ''[object Object]''
      else ''function '' @ (if k = ''constructor'' then ''Object'' else k) @ ''() { [native code] }'')"

text \<open>\<open>/^[a-f0-9]{64}$/.test(v ?? '')\<close>: the argument is coerced to a string.\<close>

definition is_hex64 :: "string \<Rightarrow> bool" where
  "is_hex64 s = (length s = 64 \<and> list_all is_hex s)"

definition digest_test :: "host \<Rightarrow> js \<Rightarrow> bool" where
  "digest_test h v = is_hex64 (js_string h (coal v (JStr [])))"

lemma digest_test_JStr [simp]: "digest_test h (JStr s) = is_hex64 s"
  by (simp add: digest_test_def coal_def)

lemma is_hex64_nonempty: "is_hex64 s \<Longrightarrow> s \<noteq> []"
  by (auto simp: is_hex64_def)

lemma digest_test_nullish: "nullish v \<Longrightarrow> \<not> digest_test h v"
  by (simp add: digest_test_def coal_def is_hex64_def)

section \<open>Dates\<close>

text \<open>
  \<open>Date.parse\<close> is fixed by the language on the date-time string format and
  implementation-defined elsewhere. The form \<open>YYYY-MM-DDTHH:mm:ss.sssZ\<close> that
  \<open>toISOString\<close> writes is computed here for valid calendar dates; every other string goes
  to the host.
\<close>

definition digits_val :: "string \<Rightarrow> int option" where
  "digits_val s = (if s \<noteq> [] \<and> list_all is_digit s
     then Some (foldl (\<lambda>n c. 10 * n + (of_char c - 48)) 0 s) else None)"

definition leap_year :: "int \<Rightarrow> bool" where
  "leap_year y = (y mod 4 = 0 \<and> (y mod 100 \<noteq> 0 \<or> y mod 400 = 0))"

definition month_days :: "int \<Rightarrow> int \<Rightarrow> int" where
  "month_days y m = (if m = 2 then (if leap_year y then 29 else 28)
     else if m \<in> {4, 6, 9, 11} then 30 else 31)"

definition days_from_civil :: "int \<Rightarrow> int \<Rightarrow> int \<Rightarrow> int" where
  "days_from_civil y m d =
     (let y' = (if m \<le> 2 then y - 1 else y); era = y' div 400; yoe = y' - era * 400;
          doy = (153 * (if m > 2 then m - 3 else m + 9) + 2) div 5 + d - 1
      in era * 146097 + (yoe * 365 + yoe div 4 - yoe div 100 + doy) - 719468)"

definition sub_str :: "string \<Rightarrow> nat \<Rightarrow> nat \<Rightarrow> string" where
  "sub_str s i n = take n (drop i s)"

definition iso_ms :: "string \<Rightarrow> int option" where
  "iso_ms s = (if length s = 24 \<and> sub_str s 4 1 = ''-'' \<and> sub_str s 7 1 = ''-''
       \<and> sub_str s 10 1 = ''T'' \<and> sub_str s 13 1 = '':'' \<and> sub_str s 16 1 = '':''
       \<and> sub_str s 19 1 = ''.'' \<and> sub_str s 23 1 = ''Z''
     then (case (digits_val (sub_str s 0 4), digits_val (sub_str s 5 2), digits_val (sub_str s 8 2),
                 digits_val (sub_str s 11 2), digits_val (sub_str s 14 2),
                 digits_val (sub_str s 17 2), digits_val (sub_str s 20 3)) of
         (Some y, Some mo, Some d, Some hh, Some mi, Some se, Some ms) \<Rightarrow>
           if 1 \<le> mo \<and> mo \<le> 12 \<and> 1 \<le> d \<and> d \<le> month_days y mo \<and> hh \<le> 23 \<and> mi \<le> 59 \<and> se \<le> 59
           then Some (((days_from_civil y mo d * 24 + hh) * 60 + mi) * 60000 + se * 1000 + ms)
           else None
       | _ \<Rightarrow> None)
     else None)"

definition date_parse :: "host \<Rightarrow> js \<Rightarrow> jsnum" where
  "date_parse h v = (let s = js_string h v in
     case iso_ms s of Some n \<Rightarrow> Fin (of_int n)
     | None \<Rightarrow> (case legacy_date h s of Some n \<Rightarrow> Fin (of_int n) | None \<Rightarrow> NaN))"

lemma date_parse_cases: "date_parse h v = NaN \<or> (\<exists>n. date_parse h v = Fin (of_int n))"
  by (auto simp: date_parse_def Let_def split: option.splits)

section \<open>Own properties\<close>

text \<open>\<open>Object.entries(v)\<close> (a throw on \<open>undefined\<close> and \<open>null\<close> is left to the caller).\<close>

definition own_props :: "js \<Rightarrow> (string \<times> js) list" where
  "own_props v = (case v of
       JObj fs \<Rightarrow> fs
     | JArr xs \<Rightarrow> zip (map nat_str [0..<length xs]) xs
     | JStr s \<Rightarrow> zip (map nat_str [0..<length s]) (map (\<lambda>c. JStr [c]) s)
     | _ \<Rightarrow> [])"

section \<open>Shared facts\<close>

lemma js_eq_JStr [simp]: "js_eq v (JStr s) \<longleftrightarrow> v = JStr s" "js_eq (JStr s) v \<longleftrightarrow> v = JStr s"
  by (cases v; auto)+

lemma js_eq_JNull [simp]: "js_eq v JNull \<longleftrightarrow> v = JNull" "js_eq JNull v \<longleftrightarrow> v = JNull"
  by (cases v; auto)+

lemma js_eq_JUndef [simp]: "js_eq v JUndef \<longleftrightarrow> v = JUndef" "js_eq JUndef v \<longleftrightarrow> v = JUndef"
  by (cases v; auto)+

lemma js_eq_JBool [simp]: "js_eq v (JBool b) \<longleftrightarrow> v = JBool b" "js_eq (JBool b) v \<longleftrightarrow> v = JBool b"
  by (cases v; auto)+

lemma js_eq_Fin [simp]: "js_eq v (JNum (Fin r)) \<longleftrightarrow> v = JNum (Fin r)" "js_eq (JNum (Fin r)) v \<longleftrightarrow> v = JNum (Fin r)"
  by (cases v; auto)+

lemma js_eq_imp_eq: "js_eq a b \<Longrightarrow> a = b"
  by (induction a b rule: js_eq.induct) auto

lemma js_eq_sym: "js_eq a b = js_eq b a"
  by (induction a b rule: js_eq.induct) auto

lemma one_of_iff: "one_of ss v \<longleftrightarrow> (\<exists>s\<in>set ss. v = JStr s)"
  by (cases v) (auto simp: one_of_def)

lemma truthy_nullish: "truthy v \<Longrightarrow> \<not> nullish v"
  by (cases v) auto

lemma fld_nullish [simp]: "nullish v \<Longrightarrow> fld v k = JUndef"
  by (cases v) (auto simp: fld_def)

lemma fld_own: "fld (JObj fs) k = (case map_of fs k of Some v \<Rightarrow> v | None \<Rightarrow> if k \<in> set proto_names then JBuiltin k else JUndef)"
  by (simp add: fld_def obj_get_def)

lemma dot_Inr: "dot v k = Inr w \<longleftrightarrow> \<not> nullish v \<and> w = fld v k"
  by (cases v) (auto simp: dot_def)

lemma dot_JObj [simp]: "dot (JObj fs) k = Inr (fld (JObj fs) k)"
  by (simp add: dot_def)

lemma same_zero_JStr [simp]: "same_zero (JStr s) v \<longleftrightarrow> v = JStr s" "same_zero v (JStr s) \<longleftrightarrow> v = JStr s"
  by (cases v; auto simp: same_zero_def)+

lemma js_includes_JStr: "js_includes xs (JStr s) \<longleftrightarrow> JStr s \<in> set xs"
  by (induction xs) (auto simp: js_includes_def)

lemma js_includes_in_set: "js_includes xs v \<Longrightarrow> v \<in> set xs"
proof -
  assume "js_includes xs v"
  then obtain x where x: "x \<in> set xs" "same_zero v x"
    by (auto simp: js_includes_def list_ex_iff)
  then have "v = x" by (auto simp: same_zero_def dest: js_eq_imp_eq)
  with x show ?thesis by simp
qed

lemma rat_int_of_int [simp]: "rat_int (of_int n) = Some n"
  by (simp add: rat_int_def quotient_of_int)

lemma rat_int_numerals [simp]:
  "rat_int 0 = Some 0" "rat_int 1 = Some 1" "rat_int (numeral k) = Some (numeral k)"
  "rat_int (of_nat n) = Some (int n)"
  using rat_int_of_int [of 0] rat_int_of_int [of 1] rat_int_of_int [of "numeral k"] rat_int_of_int [of "int n"]
  by simp_all

lemma rat_int_Some: "rat_int r = Some n \<longleftrightarrow> r = of_int n"
proof
  assume "rat_int r = Some n"
  then have "quotient_of r = (n, 1)"
    by (auto simp: rat_int_def split: if_splits prod.splits)
  then have "r = of_int n / of_int 1" by (rule quotient_of_div)
  then show "r = of_int n" by simp
qed simp

lemma js_int_Some: "js_int v = Some n \<longleftrightarrow> v = JInt n"
  by (auto simp: js_int_def rat_int_Some split: js.splits jsnum.splits)

lemmas js_eval = fld_def obj_get_def proto_names_def coal_def one_of_def has_own_def
  js_finite_def js_int_def js_safe_int_def max_safe_def num_le_def

end
