(* ===== verification/Digest.thy ===== *)
theory Digest
  imports Js "HOL-Library.Multiset"
begin

text \<open>
  Sealed records (src/lib/core/record-digest.mjs and src/lib/core/delivery-record.mjs): the
  canonical JSON text, the digest of a record, sealing, and the checks every reader of a sealed
  record runs. The lemmas show that a sealed record is accepted by its reader, that the digest
  does not depend on the order of the fields, and that the canonical text determines the record
  up to that order.
\<close>

section \<open>Canonical text\<close>

text \<open>\<open>JSON.stringify\<close> on a string: the escapes of the JSON grammar.\<close>

definition hex_digit :: "nat \<Rightarrow> char" where
  "hex_digit n = (if n < 10 then char_of (48 + n) else char_of (87 + n))"

definition json_esc :: "char \<Rightarrow> string" where
  "json_esc c = (let n = (of_char c :: nat) in
     if n = 34 then [CHR 0x5C, CHR 0x22]
     else if n = 92 then [CHR 0x5C, CHR 0x5C]
     else if n = 8 then [CHR 0x5C, CHR ''b'']
     else if n = 9 then [CHR 0x5C, CHR ''t'']
     else if n = 10 then [CHR 0x5C, CHR ''n'']
     else if n = 12 then [CHR 0x5C, CHR ''f'']
     else if n = 13 then [CHR 0x5C, CHR ''r'']
     else if n < 32 then CHR 0x5C # ''u00'' @ [hex_digit (n div 16), hex_digit (n mod 16)]
     else [c])"

definition json_quote :: "string \<Rightarrow> string" where
  "json_quote s = CHR 0x22 # concat (map json_esc s) @ [CHR 0x22]"

text \<open>\<open>JSON.stringify\<close> on a number: \<open>null\<close> unless it is finite.\<close>

definition json_num :: "host \<Rightarrow> jsnum \<Rightarrow> string" where
  "json_num h n = (if is_finite n then num_str h n else ''null'')"

text \<open>
  \<open>stableJson\<close>. \<open>None\<close> is the value \<open>undefined\<close> that \<open>JSON.stringify\<close>
  returns for \<open>undefined\<close> and functions: it joins as the empty text in an array and
  interpolates as \<open>undefined\<close> in an object.
\<close>

fun stableJson :: "host \<Rightarrow> js \<Rightarrow> string option" where
  "stableJson h (JArr xs) = Some (''['' @
     js_join '','' (map (\<lambda>x. case stableJson h x of None \<Rightarrow> [] | Some s \<Rightarrow> s) xs) @ '']'')"
| "stableJson h (JObj fs) = Some (''{'' @
     js_join '','' (map (\<lambda>(k, s). json_quote k @ '':'' @ s)
       (sort_key fst
         (map (\<lambda>(k, v). (k, case stableJson h v of None \<Rightarrow> ''undefined'' | Some s \<Rightarrow> s))
           (filter (\<lambda>(k, v). v \<noteq> JUndef) fs)))) @ ''}'')"
| "stableJson h JUndef = None"
| "stableJson h JNull = Some ''null''"
| "stableJson h (JBool b) = Some (if b then ''true'' else ''false'')"
| "stableJson h (JNum n) = Some (json_num h n)"
| "stableJson h (JStr s) = Some (json_quote s)"
| "stableJson h (JBuiltin k) = (if k = ''__proto__'' then Some ''{}'' else None)"

definition stable_text :: "host \<Rightarrow> js \<Rightarrow> string" where
  "stable_text h v = (case stableJson h v of None \<Rightarrow> ''undefined'' | Some s \<Rightarrow> s)"

text \<open>\<open>const { digest, ...payload } = record ?? {}\<close>\<close>

definition digest_payload :: "js \<Rightarrow> (string \<times> js) list" where
  "digest_payload r = obj_del (own_props (coal r (JObj []))) ''digest''"

definition recordDigest :: "host \<Rightarrow> js \<Rightarrow> string" where
  "recordDigest h r = sha256 h (stable_text h (JObj (digest_payload r)))"

definition hasCurrentDigest :: "host \<Rightarrow> js \<Rightarrow> bool" where
  "hasCurrentDigest h r =
     (digest_test h (fld r ''digest'') \<and> js_eq (JStr (recordDigest h r)) (fld r ''digest''))"

section \<open>Sealed delivery records\<close>

definition sealDeliveryRecord :: "host \<Rightarrow> string \<Rightarrow> (string \<times> js) list \<Rightarrow> (string \<times> js) list" where
  "sealDeliveryRecord h ty payload =
     (let record = obj_set (obj_set payload ''version'' (JNat 1)) ''type'' (JStr ty)
      in obj_set record ''digest'' (JStr (recordDigest h (JObj record))))"

definition requireDeliveryRecord :: "host \<Rightarrow> js \<Rightarrow> string \<Rightarrow> js res" where
  "requireDeliveryRecord h r ty =
     (if \<not> js_eq (fld r ''version'') (JNat 1) \<or> \<not> js_eq (fld r ''type'') (JStr ty)
         \<or> \<not> hasCurrentDigest h r
      then fail (''Invalid or stale '' @ ty @ '' record'') else Inr r)"

definition is_text :: "js \<Rightarrow> bool" where
  "is_text v = (case v of JStr s \<Rightarrow> js_trim s \<noteq> [] | _ \<Rightarrow> False)"

definition requireText :: "js \<Rightarrow> string \<Rightarrow> js res" where
  "requireText v name = (if \<not> is_text v then fail (name @ '' is required'') else Inr v)"

definition requireDigest :: "host \<Rightarrow> js \<Rightarrow> string \<Rightarrow> js res" where
  "requireDigest h v name =
     (if \<not> digest_test h v then fail (name @ '' must be a SHA-256 digest'') else Inr v)"

text \<open>\<open>new Set(values).size === values.length\<close>\<close>

fun js_distinct :: "js list \<Rightarrow> bool" where
  "js_distinct [] = True"
| "js_distinct (x # xs) = (\<not> js_includes xs x \<and> js_distinct xs)"

definition requireUnique :: "js \<Rightarrow> string \<Rightarrow> js res" where
  "requireUnique v name =
     (if \<not> is_array v \<or> \<not> js_distinct (elems v)
      then fail (name @ '' must be a unique array'') else Inr v)"

section \<open>Facts about the checks\<close>

lemma requireText_Inr [simp]: "requireText v name = Inr w \<longleftrightarrow> is_text v \<and> w = v"
  by (auto simp: requireText_def)

lemma requireDigest_Inr [simp]: "requireDigest h v name = Inr w \<longleftrightarrow> digest_test h v \<and> w = v"
  by (auto simp: requireDigest_def)

lemma requireUnique_Inr [simp]:
  "requireUnique v name = Inr w \<longleftrightarrow> is_array v \<and> js_distinct (elems v) \<and> w = v"
  by (auto simp: requireUnique_def)

lemma is_text_JStr: "is_text v \<Longrightarrow> \<exists>s. v = JStr s \<and> s \<noteq> []"
  by (auto simp: is_text_def js_trim_def split: js.splits)

lemma fld_version_JObj: "fld v ''version'' = JNum (Fin r) \<Longrightarrow> \<exists>fs. v = JObj fs"
  by (cases v) (auto simp: fld_def obj_get_def split: if_splits)

lemma requireDeliveryRecord_Inr:
  "requireDeliveryRecord h r ty = Inr w \<longleftrightarrow>
     w = r \<and> (\<exists>fs. r = JObj fs) \<and> fld r ''version'' = JNat 1 \<and> fld r ''type'' = JStr ty
       \<and> hasCurrentDigest h r"
  by (auto simp: requireDeliveryRecord_def dest: fld_version_JObj [where r = 1])

lemma hasCurrentDigest_fld:
  "hasCurrentDigest h r \<Longrightarrow> fld r ''digest'' = JStr (recordDigest h r) \<and> is_hex64 (recordDigest h r)"
  by (auto simp: hasCurrentDigest_def)

lemma obj_del_set_same [simp]: "obj_del (obj_set fs k v) k = obj_del fs k"
  by (induction fs) (auto simp: obj_del_def)

lemma digest_payload_seal [simp]:
  "digest_payload (JObj (obj_set fs ''digest'' d)) = digest_payload (JObj fs)"
  by (simp add: digest_payload_def own_props_def coal_def)

lemma recordDigest_seal [simp]:
  "recordDigest h (JObj (obj_set fs ''digest'' d)) = recordDigest h (JObj fs)"
  by (simp add: recordDigest_def)

section \<open>Field order does not matter\<close>

lemma sort_key_fst_perm:
  assumes "mset xs = mset ys" and "distinct (map fst xs)"
  shows "sort_key fst xs = sort_key fst ys"
  by (rule sort_key_inj_key_eq) (use assms in \<open>simp_all add: distinct_map\<close>)

lemma stableJson_perm:
  assumes "mset fs = mset gs" and "distinct (map fst fs)"
  shows "stableJson h (JObj fs) = stableJson h (JObj gs)"
proof -
  let ?g = "\<lambda>(k, v). (k, case stableJson h v of None \<Rightarrow> ''undefined'' | Some s \<Rightarrow> s)"
  let ?P = "\<lambda>(k :: string, v). v \<noteq> JUndef"
  have "mset (map ?g (filter ?P fs)) = mset (map ?g (filter ?P gs))"
    using assms(1) by simp
  moreover have "distinct (map fst (map ?g (filter ?P fs)))"
    using distinct_map_filter [OF assms(2), of ?P] by (simp add: comp_def case_prod_beta')
  ultimately have "sort_key fst (map ?g (filter ?P fs)) = sort_key fst (map ?g (filter ?P gs))"
    by (rule sort_key_fst_perm)
  then show ?thesis by simp
qed

section \<open>The canonical text determines the value\<close>

text \<open>JSON values whose numbers are integers printed in decimal, the values records carry.\<close>

fun plain :: "js \<Rightarrow> bool" where
  "plain JNull = True"
| "plain (JBool b) = True"
| "plain (JNum n) = (case n of Fin r \<Rightarrow>
     (case rat_int r of Some i \<Rightarrow> \<bar>i\<bar> < 10 ^ 21 | None \<Rightarrow> False) | _ \<Rightarrow> False)"
| "plain (JStr s) = True"
| "plain (JArr xs) = (\<forall>x\<in>set xs. plain x)"
| "plain (JObj fs) = (distinct (map fst fs) \<and> (\<forall>p\<in>set fs. plain (snd p)))"
| "plain _ = False"

text \<open>The same value with every object's fields in key order.\<close>

fun canon :: "js \<Rightarrow> js" where
  "canon (JArr xs) = JArr (map canon xs)"
| "canon (JObj fs) = JObj (sort_key fst (map (\<lambda>(k, v). (k, canon v)) fs))"
| "canon v = v"

text \<open>The printer without sorting: \<open>stableJson\<close> is this printer after \<open>canon\<close>.\<close>

fun pr :: "js \<Rightarrow> string" where
  "pr JNull = ''null''"
| "pr (JBool b) = (if b then ''true'' else ''false'')"
| "pr (JNum n) = (case n of Fin r \<Rightarrow> (case rat_int r of Some i \<Rightarrow> int_str i | None \<Rightarrow> []) | _ \<Rightarrow> [])"
| "pr (JStr s) = json_quote s"
| "pr (JArr xs) = CHR ''['' # js_join '','' (map pr xs) @ '']''"
| "pr (JObj fs) = CHR 0x7B # js_join '','' (map (\<lambda>(k, v). json_quote k @ '':'' @ pr v) fs) @ [CHR 0x7D]"
| "pr _ = []"

lemma sort_key_map_snd:
  "sort_key fst (map (\<lambda>(k, v). (k, f v)) fs) = map (\<lambda>(k, v). (k, f v)) (sort_key fst fs)"
proof -
  have ins: "insort_key fst (k, f v) (map (\<lambda>(k, v). (k, f v)) gs)
      = map (\<lambda>(k, v). (k, f v)) (insort_key fst (k, v) gs)" for k v gs
    by (induction gs) auto
  show ?thesis
    by (induction fs) (auto simp: ins)
qed

lemma plain_num_str: "plain (JNum n) \<Longrightarrow> json_num h n = pr (JNum n)"
  by (auto simp: json_num_def num_str_def split: jsnum.splits option.splits)

lemma stableJson_canon: "plain v \<Longrightarrow> stableJson h v = Some (pr (canon v))"
proof (induction v)
  case (JNum n)
  then show ?case by (simp add: plain_num_str del: plain.simps pr.simps)
next
  case (JArr xs)
  then have eq: "map (\<lambda>x. case stableJson h x of None \<Rightarrow> [] | Some s \<Rightarrow> s) xs = map (\<lambda>x. pr (canon x)) xs"
    by simp
  show ?case unfolding stableJson.simps eq by (simp add: comp_def)
next
  case (JObj fs)
  have IH: "\<And>k v. (k, v) \<in> set fs \<Longrightarrow> stableJson h v = Some (pr (canon v)) \<and> v \<noteq> JUndef"
  proof -
    fix k v assume kv: "(k, v) \<in> set fs"
    with JObj.prems have p: "plain v" by auto
    from JObj.IH [OF kv, of v] p have "stableJson h v = Some (pr (canon v))" by simp
    with p show "stableJson h v = Some (pr (canon v)) \<and> v \<noteq> JUndef" by (cases v) auto
  qed
  have keep: "filter (\<lambda>(k, v). v \<noteq> JUndef) fs = fs"
    using IH by (auto simp: filter_id_conv)
  have "map (\<lambda>(k, v). (k, case stableJson h v of None \<Rightarrow> ''undefined'' | Some s \<Rightarrow> s)) fs
      = map (\<lambda>(k, v). (k, pr (canon v))) fs"
    using IH by (auto intro!: map_cong)
  then have eq: "sort_key fst (map (\<lambda>(k, v). (k, case stableJson h v of None \<Rightarrow> ''undefined'' | Some s \<Rightarrow> s)) fs)
      = map (\<lambda>(k, v). (k, pr (canon v))) (sort_key fst fs)"
    by (simp add: sort_key_map_snd)
  show ?case
    unfolding stableJson.simps keep eq unfolding canon.simps sort_key_map_snd pr.simps
    by (simp add: comp_def case_prod_beta')
qed simp_all

lemma plain_canon: "plain v \<Longrightarrow> plain (canon v)"
proof (induction v)
  case (JObj fs)
  have "distinct (map fst (sort_key fst (map (\<lambda>(k, v). (k, canon v)) fs)))"
  proof -
    have "mset (map fst (sort_key fst (map (\<lambda>(k, v). (k, canon v)) fs)))
        = mset (map fst fs)"
      by (simp add: comp_def case_prod_beta' image_mset.compositionality)
    with JObj.prems show ?thesis by (metis mset_eq_imp_distinct_iff plain.simps(6))
  qed
  with JObj show ?case by fastforce
qed auto

subsection \<open>Prefix-free printing\<close>

text \<open>What may follow a printed value inside a text.\<close>

definition sep :: "string \<Rightarrow> bool" where
  "sep r = (r = [] \<or> hd r \<in> {CHR '','', CHR '']'', CHR 0x7D})"

definition num_char :: "char \<Rightarrow> bool" where
  "num_char c = (is_digit c \<or> c = CHR ''-'')"

lemma digit_char_code: "d < 10 \<Longrightarrow> (of_char (digit_char d) :: nat) = 48 + d"
  by (simp add: digit_char_def)

lemma is_digit_digit_char: "d < 10 \<Longrightarrow> is_digit (digit_char d)"
  by (simp add: is_digit_def digit_char_code)

lemma digit_char_inj: "d < 10 \<Longrightarrow> e < 10 \<Longrightarrow> digit_char d = digit_char e \<Longrightarrow> d = e"
  by (metis add_left_cancel digit_char_code)

lemma nat_str_digits: "c \<in> set (nat_str n) \<Longrightarrow> is_digit c"
proof (induction n rule: nat_str.induct)
  case (1 n)
  show ?case
    using "1.prems" "1.IH" by (subst (asm) nat_str.simps) (auto simp: is_digit_digit_char split: if_splits)
qed

lemma nat_str_nonempty: "nat_str n \<noteq> []"
  by (subst nat_str.simps) simp

lemma nat_str_butlast:
  "nat_str n = (if n < 10 then [] else nat_str (n div 10)) @ [digit_char (n mod 10)]"
  by (subst nat_str.simps) simp

lemma nat_str_inj: "nat_str m = nat_str n \<Longrightarrow> m = n"
proof (induction m arbitrary: n rule: less_induct)
  case (less m)
  from less.prems have eq: "(if m < 10 then [] else nat_str (m div 10)) = (if n < 10 then [] else nat_str (n div 10))"
    and last: "digit_char (m mod 10) = digit_char (n mod 10)"
    using nat_str_butlast [of m] nat_str_butlast [of n] by simp_all
  from last have md: "m mod 10 = n mod 10" by (rule digit_char_inj [rotated 2]) simp_all
  have "m div 10 = n div 10"
  proof (cases "m < 10")
    case True
    with eq show ?thesis by (auto simp: nat_str_nonempty nat_str_nonempty [symmetric] split: if_splits)
  next
    case False
    with eq have "\<not> n < 10" "nat_str (m div 10) = nat_str (n div 10)"
      by (auto simp: nat_str_nonempty split: if_splits)
    with False less.IH [of "m div 10" "n div 10"] show ?thesis by simp
  qed
  with md show ?case by (metis div_mult_mod_eq)
qed

lemma int_str_chars: "c \<in> set (int_str i) \<Longrightarrow> num_char c"
  by (auto simp: int_str_def num_char_def dest: nat_str_digits split: if_splits)

lemma int_str_inj: "int_str i = int_str j \<Longrightarrow> i = j"
proof -
  assume eq: "int_str i = int_str j"
  have minus: "nat_str n \<noteq> CHR ''-'' # s" for n s
    using nat_str_digits [of "CHR ''-''" n] by (auto simp: is_digit_def)
  from eq minus minus [symmetric] show ?thesis
    by (auto simp: int_str_def split: if_splits dest: nat_str_inj)
qed

lemma sep_not_num: "sep r \<Longrightarrow> takeWhile num_char r = [] \<and> dropWhile num_char r = r"
  by (cases r) (auto simp: sep_def num_char_def is_digit_def)

lemma int_str_prefix:
  assumes "int_str i @ r = int_str j @ r'" and "sep r" and "sep r'"
  shows "i = j \<and> r = r'"
proof -
  have split: "takeWhile num_char (int_str k @ q) = int_str k" if "sep q" for k q
    using that by (simp add: int_str_chars sep_not_num)
  have "int_str i = int_str j"
    using split [OF assms(2), of i] split [OF assms(3), of j] assms(1) by simp
  with assms(1) show ?thesis by (simp add: int_str_inj)
qed

lemma hex_digit_code: "n < 16 \<Longrightarrow> (of_char (hex_digit n) :: nat) = (if n < 10 then 48 + n else 87 + n)"
  by (simp add: hex_digit_def)

text \<open>A plain character stands for itself; every escape starts with a backslash.\<close>

definition esc_plain :: "char \<Rightarrow> bool" where
  "esc_plain c = (let n = (of_char c :: nat) in 32 \<le> n \<and> n \<noteq> 34 \<and> n \<noteq> 92)"

lemma json_esc_plain: "esc_plain c \<Longrightarrow> json_esc c = [c] \<and> c \<noteq> CHR 0x5C \<and> c \<noteq> CHR 0x22"
  by (auto simp: esc_plain_def json_esc_def Let_def)

lemma json_esc_escape: "\<not> esc_plain c \<Longrightarrow> \<exists>e t. json_esc c = CHR 0x5C # e # t"
  by (auto simp: esc_plain_def json_esc_def Let_def)

text \<open>Reading an escape back: the code of the character and the rest of the text.\<close>

definition hex_val :: "char \<Rightarrow> nat" where
  "hex_val c = (let n = of_char c in if n < 58 then n - 48 else n - 87)"

definition read_esc :: "string \<Rightarrow> nat \<times> string" where
  "read_esc s = (let e = hd s in
     if e = CHR 0x22 then (34, tl s) else if e = CHR 0x5C then (92, tl s)
     else if e = CHR ''b'' then (8, tl s) else if e = CHR ''t'' then (9, tl s)
     else if e = CHR ''n'' then (10, tl s) else if e = CHR ''f'' then (12, tl s)
     else if e = CHR ''r'' then (13, tl s)
     else (16 * hex_val (s ! 3) + hex_val (s ! 4), drop 5 s))"

lemma hex_val_digit: "n < 16 \<Longrightarrow> hex_val (hex_digit n) = n"
  by (simp add: hex_val_def hex_digit_code Let_def)

lemma read_json_esc:
  assumes "\<not> esc_plain c"
  shows "read_esc (tl (json_esc c @ r)) = (of_char c, r)"
proof -
  let ?n = "of_char c :: nat"
  have hex: "16 * hex_val (hex_digit (?n div 16)) + hex_val (hex_digit (?n mod 16)) = ?n" if "?n < 32"
    using that by (simp add: hex_val_digit)
  from assms consider "?n = 34" | "?n = 92" | "?n = 8" | "?n = 9" | "?n = 10" | "?n = 12" | "?n = 13"
    | "?n < 32" "?n \<notin> {8, 9, 10, 12, 13}"
    unfolding esc_plain_def Let_def by fastforce
  then show ?thesis
    by cases (simp_all add: json_esc_def read_esc_def Let_def hex)
qed

lemma json_esc_prefix:
  assumes "json_esc c @ r = json_esc d @ r'"
  shows "c = d \<and> r = r'"
proof (cases "esc_plain c \<or> esc_plain d")
  case True
  have mixed: False if "esc_plain x" "\<not> esc_plain y" "json_esc x @ q = json_esc y @ q'" for x y q q'
    using that json_esc_plain [of x] json_esc_escape [of y] by auto
  from True consider "esc_plain c \<and> esc_plain d" | "esc_plain c \<and> \<not> esc_plain d" | "\<not> esc_plain c \<and> esc_plain d"
    by blast
  then show ?thesis
  proof cases
    case 1
    with assms json_esc_plain [of c] json_esc_plain [of d] show ?thesis by simp
  next
    case 2
    with mixed [of c d] assms show ?thesis by blast
  next
    case 3
    with mixed [of d c] assms [symmetric] show ?thesis by blast
  qed
next
  case False
  then have "read_esc (tl (json_esc c @ r)) = (of_char c, r)"
    and "read_esc (tl (json_esc d @ r')) = (of_char d, r')"
    by (simp_all add: read_json_esc del: tl_append2)
  then have "(of_char c :: nat, r) = (of_char d, r')"
    by (simp only: assms)
  then show ?thesis by simp
qed

lemma json_esc_no_quote: "json_esc c @ r \<noteq> CHR 0x22 # r'"
  using json_esc_plain [of c] json_esc_escape [of c] by (cases "esc_plain c") auto

lemma esc_string_prefix:
  "concat (map json_esc s) @ CHR 0x22 # r = concat (map json_esc t) @ CHR 0x22 # r' \<Longrightarrow> s = t \<and> r = r'"
proof (induction s arbitrary: t)
  case Nil
  show ?case
  proof (cases t)
    case Nil
    with Nil.prems show ?thesis by simp
  next
    case (Cons d t')
    with Nil.prems json_esc_no_quote [of d "concat (map json_esc t') @ CHR 0x22 # r'" r] show ?thesis
      by simp
  qed
next
  case (Cons c s)
  show ?case
  proof (cases t)
    case Nil
    with Cons.prems json_esc_no_quote [of c "concat (map json_esc s) @ CHR 0x22 # r" r'] show ?thesis
      by simp
  next
    case (Cons d t')
    with Cons.prems json_esc_prefix [of c "concat (map json_esc s) @ CHR 0x22 # r" d]
    have "c = d" and "concat (map json_esc s) @ CHR 0x22 # r = concat (map json_esc t') @ CHR 0x22 # r'"
      by auto
    with Cons.IH Cons show ?thesis by blast
  qed
qed

lemma json_quote_prefix: "json_quote s @ r = json_quote t @ r' \<Longrightarrow> s = t \<and> r = r'"
  using esc_string_prefix [of s r t r'] by (simp add: json_quote_def)

subsection \<open>Injectivity\<close>

text \<open>\<open>decodes f x\<close>: text printed for \<open>x\<close> by \<open>f\<close> cannot be read as another value.\<close>

definition decodes :: "('a \<Rightarrow> string) \<Rightarrow> ('a \<Rightarrow> bool) \<Rightarrow> 'a \<Rightarrow> bool" where
  "decodes f P x = (\<forall>y r r'. P y \<longrightarrow> f x @ r = f y @ r' \<longrightarrow> sep r \<longrightarrow> sep r' \<longrightarrow> x = y \<and> r = r')"

lemma decodesD: "decodes f P x \<Longrightarrow> P y \<Longrightarrow> f x @ r = f y @ r' \<Longrightarrow> sep r \<Longrightarrow> sep r' \<Longrightarrow> x = y \<and> r = r'"
  by (auto simp: decodes_def)

lemma js_join_Cons: "js_join s (x # xs) = x @ concat (map (\<lambda>y. s @ y) xs)"
  by (induction xs arbitrary: x) auto

lemma tail_decodes:
  assumes "\<forall>x\<in>set xs. decodes f P x" and "\<forall>y\<in>set ys. P y"
    and "c \<in> {CHR '']'', CHR 0x7D}"
    and "concat (map (\<lambda>y. '','' @ f y) xs) @ c # r = concat (map (\<lambda>y. '','' @ f y) ys) @ c # r'"
  shows "xs = ys \<and> r = r'"
  using assms
proof (induction xs arbitrary: ys)
  case Nil
  then show ?case by (cases ys) auto
next
  case (Cons x xs)
  show ?case
  proof (cases ys)
    case Nil
    with Cons.prems show ?thesis by auto
  next
    case (Cons y ys')
    let ?t = "concat (map (\<lambda>y. '','' @ f y) xs) @ c # r"
    let ?t' = "concat (map (\<lambda>y. '','' @ f y) ys') @ c # r'"
    have "sep ?t" by (cases xs) (use Cons.prems(3) in \<open>auto simp: sep_def\<close>)
    moreover have "sep ?t'" by (cases ys') (use Cons.prems(3) in \<open>auto simp: sep_def\<close>)
    moreover have "f x @ ?t = f y @ ?t'" using Cons.prems(4) Cons by simp
    ultimately have "x = y \<and> ?t = ?t'"
      using Cons.prems(1,2) Cons by (intro decodesD [of f P x y]) auto
    with Cons.IH [of ys'] Cons.prems Cons show ?thesis by simp
  qed
qed

lemma join_decodes:
  assumes dec: "\<forall>x\<in>set xs. decodes f P x" and P: "\<forall>y\<in>set ys. P y"
    and c: "c \<in> {CHR '']'', CHR 0x7D}"
    and first: "\<And>x s. x \<in> set xs \<union> set ys \<Longrightarrow> f x @ s \<noteq> [] \<and> hd (f x @ s) \<noteq> c"
    and eq: "js_join '','' (map f xs) @ c # r = js_join '','' (map f ys) @ c # r'"
  shows "xs = ys \<and> r = r'"
proof (cases xs)
  case Nil
  show ?thesis
  proof (cases ys)
    case Nil
    with \<open>xs = []\<close> eq show ?thesis by simp
  next
    case (Cons y ys')
    let ?s = "concat (map (\<lambda>z. '','' @ z) (map f ys')) @ c # r'"
    have "f y @ ?s = c # r" using eq \<open>xs = []\<close> Cons by (simp add: js_join_Cons)
    then have "hd (f y @ ?s) = c" by (simp only: list.sel)
    with first [of y ?s] Cons show ?thesis by simp
  qed
next
  case (Cons x xs')
  show ?thesis
  proof (cases ys)
    case Nil
    let ?s = "concat (map (\<lambda>z. '','' @ z) (map f xs')) @ c # r"
    have "f x @ ?s = c # r'" using eq Nil Cons by (simp add: js_join_Cons)
    then have "hd (f x @ ?s) = c" by (simp only: list.sel)
    with first [of x ?s] Cons show ?thesis by simp
  next
    case (Cons y ys')
    have "concat (map (\<lambda>y. '','' @ f y) xs) @ c # r = concat (map (\<lambda>y. '','' @ f y) ys) @ c # r'"
      using eq \<open>xs = x # xs'\<close> Cons by (simp add: js_join_Cons comp_def)
    with dec P c show ?thesis by (rule tail_decodes)
  qed
qed

text \<open>The first character of a printed value tells its kind.\<close>

lemma pr_first:
  "plain v \<Longrightarrow> \<exists>c s. pr v = c # s \<and> (case v of
     JNull \<Rightarrow> c = CHR ''n'' | JBool b \<Rightarrow> c = (if b then CHR ''t'' else CHR ''f'') | JNum n \<Rightarrow> num_char c
   | JStr s \<Rightarrow> c = CHR 0x22 | JArr xs \<Rightarrow> c = CHR ''['' | JObj fs \<Rightarrow> c = CHR 0x7B | _ \<Rightarrow> False)"
proof (cases v)
  case (JNum n)
  moreover assume "plain v"
  ultimately obtain i where i: "pr v = int_str i"
    by (auto split: jsnum.splits option.splits)
  have ne: "int_str i \<noteq> []" by (auto simp: int_str_def nat_str_nonempty)
  then obtain c s where "int_str i = c # s" by (cases "int_str i") auto
  then show ?thesis using int_str_chars [of c i] i JNum by auto
qed (auto simp: json_quote_def)

lemma pr_same_kind:
  assumes "plain v" and "plain w" and "pr v @ r = pr w @ r'"
  shows "case v of JNull \<Rightarrow> w = JNull | JBool b \<Rightarrow> w = JBool b | JNum n \<Rightarrow> (\<exists>m. w = JNum m)
     | JStr s \<Rightarrow> (\<exists>t. w = JStr t) | JArr xs \<Rightarrow> (\<exists>ys. w = JArr ys) | JObj fs \<Rightarrow> (\<exists>gs. w = JObj gs)
     | _ \<Rightarrow> False"
proof -
  obtain c s where c: "pr v = c # s" and kv: "case v of
     JNull \<Rightarrow> c = CHR ''n'' | JBool b \<Rightarrow> c = (if b then CHR ''t'' else CHR ''f'') | JNum n \<Rightarrow> num_char c
   | JStr s \<Rightarrow> c = CHR 0x22 | JArr xs \<Rightarrow> c = CHR ''['' | JObj fs \<Rightarrow> c = CHR 0x7B | _ \<Rightarrow> False"
    using pr_first [OF assms(1)] by blast
  obtain d t where d: "pr w = d # t" and kw: "case w of
     JNull \<Rightarrow> d = CHR ''n'' | JBool b \<Rightarrow> d = (if b then CHR ''t'' else CHR ''f'') | JNum n \<Rightarrow> num_char d
   | JStr s \<Rightarrow> d = CHR 0x22 | JArr xs \<Rightarrow> d = CHR ''['' | JObj fs \<Rightarrow> d = CHR 0x7B | _ \<Rightarrow> False"
    using pr_first [OF assms(2)] by blast
  have "c = d" using assms(3) c d by simp
  with kv kw show ?thesis
    by (cases v; cases w) (auto simp: num_char_def is_digit_def split: if_splits)
qed

lemma field_decodes:
  assumes "decodes pr plain v"
  shows "decodes (\<lambda>(k, v). json_quote k @ '':'' @ pr v) (\<lambda>(k, v). plain v) (k, v)"
  unfolding decodes_def
proof (intro allI impI)
  fix y :: "string \<times> js" and r r'
  obtain k' w where y: "y = (k', w)" by (cases y)
  assume w: "case y of (k, v) \<Rightarrow> plain v"
    and eq: "(case (k, v) of (k, v) \<Rightarrow> json_quote k @ '':'' @ pr v) @ r
      = (case y of (k, v) \<Rightarrow> json_quote k @ '':'' @ pr v) @ r'" and "sep r" "sep r'"
  from eq y have "json_quote k @ CHR '':'' # pr v @ r = json_quote k' @ CHR '':'' # pr w @ r'" by simp
  then have "k = k'" and "pr v @ r = pr w @ r'" using json_quote_prefix by blast+
  with decodesD [OF assms, of w r r'] w y \<open>sep r\<close> \<open>sep r'\<close> show "(k, v) = y \<and> r = r'" by simp
qed

lemma pr_decodes: "plain v \<Longrightarrow> decodes pr plain v"
proof (induction v)
  case (JNum n)
  show ?case unfolding decodes_def
  proof (intro allI impI)
    fix w r r' assume w: "plain w" "pr (JNum n) @ r = pr w @ r'" "sep r" "sep r'"
    with pr_same_kind [OF JNum.prems w(1,2)] obtain m where m: "w = JNum m" by auto
    from JNum.prems obtain i where i: "n = Fin (of_int i)" by (auto simp: rat_int_Some split: jsnum.splits option.splits)
    from w m obtain j where j: "m = Fin (of_int j)" by (auto simp: rat_int_Some split: jsnum.splits option.splits)
    from w m i j have "int_str i @ r = int_str j @ r'" by simp
    with int_str_prefix w m i j show "JNum n = w \<and> r = r'" by blast
  qed
next
  case (JStr s)
  show ?case unfolding decodes_def
    using pr_same_kind [of "JStr s"] by (fastforce dest: json_quote_prefix)
next
  case (JArr xs)
  have IH: "\<forall>x\<in>set xs. decodes pr plain x" using JArr by auto
  show ?case unfolding decodes_def
  proof (intro allI impI)
    fix w r r' assume w: "plain w" "pr (JArr xs) @ r = pr w @ r'" "sep r" "sep r'"
    with pr_same_kind [OF JArr.prems w(1,2)] obtain ys where ys: "w = JArr ys" by auto
    have first: "pr x @ s \<noteq> [] \<and> hd (pr x @ s) \<noteq> CHR '']''" if "x \<in> set xs \<union> set ys" for x s
    proof -
      from that JArr.prems w ys have "plain x" by auto
      from pr_first [OF this] show ?thesis
        by (cases x) (auto simp: num_char_def is_digit_def split: if_splits)
    qed
    have "xs = ys \<and> r = r'"
      by (rule join_decodes [where f = pr and P = plain and c = "CHR '']''"])
        (use IH w ys first in auto)
    with ys show "JArr xs = w \<and> r = r'" by simp
  qed
next
  case (JObj fs)
  let ?f = "\<lambda>(k, v). json_quote k @ '':'' @ pr v"
  have IH: "\<forall>p\<in>set fs. decodes ?f (\<lambda>(k, v). plain v) p"
  proof
    fix p assume p: "p \<in> set fs"
    obtain k v where kv: "p = (k, v)" by (cases p)
    from JObj.prems p kv have "plain v" by auto
    with JObj.IH [of p v] p kv have "decodes pr plain v" by simp
    then show "decodes ?f (\<lambda>(k, v). plain v) p" unfolding kv by (rule field_decodes)
  qed
  show ?case unfolding decodes_def
  proof (intro allI impI)
    fix w r r' assume w: "plain w" "pr (JObj fs) @ r = pr w @ r'" "sep r" "sep r'"
    with pr_same_kind [OF JObj.prems w(1,2)] obtain gs where gs: "w = JObj gs" by auto
    have "fs = gs \<and> r = r'"
      by (rule join_decodes [where f = ?f and P = "\<lambda>(k, v). plain v" and c = "CHR 0x7D"])
        (use IH w gs in \<open>auto simp: json_quote_def\<close>)
    with gs show "JObj fs = w \<and> r = r'" by simp
  qed
next
  case JNull
  show ?case unfolding decodes_def using pr_same_kind [of JNull] by fastforce
next
  case (JBool b)
  show ?case unfolding decodes_def using pr_same_kind [of "JBool b"] by fastforce
qed simp_all

lemma stable_text_canon:
  assumes "plain v" and "plain w"
  shows "stable_text h v = stable_text h w \<longleftrightarrow> canon v = canon w"
proof
  assume "stable_text h v = stable_text h w"
  then have "pr (canon v) @ [] = pr (canon w) @ []"
    using assms by (simp add: stable_text_def stableJson_canon)
  with pr_decodes [OF plain_canon [OF assms(1)]] plain_canon [OF assms(2)]
  show "canon v = canon w" by (auto dest!: decodesD simp: sep_def)
qed (use assms in \<open>simp add: stable_text_def stableJson_canon\<close>)

lemma canon_map_of:
  assumes "canon (JObj fs) = canon (JObj gs)" and "distinct (map fst fs)" and "distinct (map fst gs)"
  shows "map_option canon (map_of fs k) = map_option canon (map_of gs k)"
proof -
  let ?c = "map (\<lambda>(k, v). (k, canon v))"
  have m: "map_of (?c fs) k = map_option canon (map_of fs k)" for fs :: "(string \<times> js) list"
    by (induction fs) auto
  have "sort_key fst (?c fs) = sort_key fst (?c gs)" using assms(1) by simp
  then have "set (?c fs) = set (?c gs)" by (metis set_sort)
  moreover have "distinct (map fst (?c fs))" "distinct (map fst (?c gs))"
    using assms(2,3) by (simp_all add: comp_def case_prod_beta)
  ultimately have "map_of (?c fs) = map_of (?c gs)" by (simp only: map_of_inject_set)
  then show ?thesis unfolding m [symmetric] by simp
qed

lemma canon_payload_fld:
  assumes "canon (JObj (digest_payload (JObj fs))) = canon (JObj (digest_payload (JObj gs)))"
    and "plain (JObj (digest_payload (JObj fs)))" and "plain (JObj (digest_payload (JObj gs)))" and "k \<noteq> ''digest''"
  shows "canon (fld (JObj fs) k) = canon (fld (JObj gs) k)"
proof -
  have p: "digest_payload (JObj fs) = obj_del fs ''digest''" for fs
    by (simp add: digest_payload_def own_props_def coal_def)
  from canon_map_of [OF assms(1) [unfolded p], of k] assms(2-4)
  have "map_option canon (map_of fs k) = map_option canon (map_of gs k)" by (simp add: p)
  then show ?thesis by (cases "map_of fs k"; cases "map_of gs k") (simp_all add: fld_own)
qed

lemma plain_payload: "plain (JObj fs) \<Longrightarrow> plain (JObj (digest_payload (JObj fs)))"
proof -
  assume p: "plain (JObj fs)"
  have "distinct (map fst fs) \<Longrightarrow> distinct (map fst (obj_del fs k))" for k by (rule distinct_obj_del)
  moreover have "set (obj_del fs k) \<subseteq> set fs" for k by (auto simp: obj_del_def)
  ultimately show ?thesis using p by (fastforce simp: digest_payload_def own_props_def coal_def)
qed

lemma canon_literal:
  "canon v = JStr s \<longleftrightarrow> v = JStr s" "canon v = JBool b \<longleftrightarrow> v = JBool b"
  "JStr s = canon v \<longleftrightarrow> v = JStr s" "JBool b = canon v \<longleftrightarrow> v = JBool b"
  by (cases v; auto)+

lemma canon_array: "canon v = canon (JArr xs) \<Longrightarrow> \<exists>ys. v = JArr ys \<and> map canon ys = map canon xs"
  by (cases v) auto

section \<open>Properties\<close>

text \<open>A digest function for the witnesses: constant, and of the shape of a SHA-256 digest.\<close>

definition const_host :: host where
  "const_host = \<lparr>sha256 = (\<lambda>_. replicate 64 (CHR ''a'')), legacy_date = (\<lambda>_. None), ftoa = (\<lambda>_. ''0'')\<rparr>"

lemma const_host_hex: "is_hex64 (sha256 const_host s)"
  by (simp add: const_host_def is_hex64_def list_all_iff is_hex_def)

lemma map_of_seal:
  "map_of (sealDeliveryRecord h ty payload) k =
     (if k = ''digest'' then Some (JStr (recordDigest h (JObj (sealDeliveryRecord h ty payload))))
      else if k = ''type'' then Some (JStr ty)
      else if k = ''version'' then Some (JNat 1) else map_of payload k)"
  by (simp add: sealDeliveryRecord_def Let_def)

lemma fld_seal:
  "fld (JObj (sealDeliveryRecord h ty payload)) ''digest''
     = JStr (recordDigest h (JObj (sealDeliveryRecord h ty payload)))"
  "fld (JObj (sealDeliveryRecord h ty payload)) ''type'' = JStr ty"
  "fld (JObj (sealDeliveryRecord h ty payload)) ''version'' = JNat 1"
  by (simp_all add: fld_def obj_get_def map_of_seal)

lemma fld_seal_other:
  "k \<notin> {''digest'', ''type'', ''version''} \<Longrightarrow>
     fld (JObj (sealDeliveryRecord h ty payload)) k = fld (JObj payload) k"
  by (simp add: fld_def obj_get_def map_of_seal)

lemma seal_accepted:
  assumes "\<And>s. is_hex64 (sha256 h s)"
  shows "requireDeliveryRecord h (JObj (sealDeliveryRecord h ty payload)) ty
    = Inr (JObj (sealDeliveryRecord h ty payload))"
  by (simp add: requireDeliveryRecord_def hasCurrentDigest_def fld_seal)
    (simp add: recordDigest_def assms)

text \<open>
  A record sealed by \<open>sealDeliveryRecord\<close> is accepted, unchanged, by
  \<open>requireDeliveryRecord\<close> for the same type and for no other type.
\<close>

theorem seal_then_require:
  assumes "\<And>s. is_hex64 (sha256 h s)"
  shows "requireDeliveryRecord h (JObj (sealDeliveryRecord h ty payload)) ty'
    = (if ty' = ty then Inr (JObj (sealDeliveryRecord h ty payload))
       else fail (''Invalid or stale '' @ ty' @ '' record''))"
proof (cases "ty' = ty")
  case True
  with seal_accepted [OF assms] show ?thesis by simp
next
  case False
  then show ?thesis by (auto simp: requireDeliveryRecord_def fld_seal)
qed

theorem seal_then_require_witness:
  "requireDeliveryRecord const_host (JObj (sealDeliveryRecord const_host ''gate'' [(''a'', JNull)])) ''gate''
    = Inr (JObj (sealDeliveryRecord const_host ''gate'' [(''a'', JNull)]))"
  using seal_then_require [OF const_host_hex, of "''gate''" "[(''a'', JNull)]" "''gate''"] by simp

text \<open>
  C35. Tamper evidence. Two records that both carry their current digest, and carry the same
  digest, hold the same payload up to the order of the fields of their objects, unless the two
  canonical texts are a collision of the hash function. (Payloads of JSON values with integral
  numbers.)
\<close>

theorem digest_binds_payload:
  assumes "hasCurrentDigest h r" and "hasCurrentDigest h r'" and "fld r ''digest'' = fld r' ''digest''"
    and "plain (JObj (digest_payload r))" and "plain (JObj (digest_payload r'))"
    and no_collision: "sha256 h (stable_text h (JObj (digest_payload r)))
        = sha256 h (stable_text h (JObj (digest_payload r')))
      \<longrightarrow> stable_text h (JObj (digest_payload r)) = stable_text h (JObj (digest_payload r'))"
  shows "canon (JObj (digest_payload r)) = canon (JObj (digest_payload r'))"
proof -
  have "recordDigest h r = recordDigest h r'"
    using hasCurrentDigest_fld [OF assms(1)] hasCurrentDigest_fld [OF assms(2)] assms(3) by simp
  with no_collision have "stable_text h (JObj (digest_payload r)) = stable_text h (JObj (digest_payload r'))"
    by (simp add: recordDigest_def)
  with assms(4,5) show ?thesis by (simp add: stable_text_canon)
qed

lemma hasCurrentDigest_seal:
  "(\<And>s. is_hex64 (sha256 h s)) \<Longrightarrow> hasCurrentDigest h (JObj (sealDeliveryRecord h ty payload))"
  using seal_accepted [of h ty payload] by (auto simp: requireDeliveryRecord_Inr)

theorem digest_binds_payload_witness:
  "canon (JObj (digest_payload (JObj (sealDeliveryRecord const_host ''t'' [(''a'', JNull), (''b'', JNat 1)]))))
   = canon (JObj (digest_payload (JObj (sealDeliveryRecord const_host ''t'' [(''b'', JNat 1), (''a'', JNull)]))))"
  by (rule digest_binds_payload [where h = const_host])
    (simp_all add: hasCurrentDigest_seal [OF const_host_hex] fld_seal,
     simp_all add: digest_payload_def sealDeliveryRecord_def own_props_def coal_def obj_del_def
       recordDigest_def const_host_def rat_int_def stable_text_def json_num_def num_str_def)

text \<open>
  The digest of a record is a function of its fields and not of the order in which they
  were written: a permutation of the fields of an object keeps the digest.
\<close>

theorem recordDigest_field_order:
  assumes "mset fs = mset gs" and "distinct (map fst fs)"
  shows "recordDigest h (JObj fs) = recordDigest h (JObj gs)"
proof -
  have "mset (obj_del fs ''digest'') = mset (obj_del gs ''digest'')"
    using assms(1) by (simp add: obj_del_def)
  moreover have "distinct (map fst (obj_del fs ''digest''))"
    using assms(2) by (rule distinct_obj_del)
  ultimately show ?thesis
    using stableJson_perm [of "obj_del fs ''digest''" "obj_del gs ''digest''" h]
    by (simp add: recordDigest_def digest_payload_def own_props_def coal_def stable_text_def)
qed

theorem recordDigest_field_order_witness:
  "recordDigest const_host (JObj [(''b'', JNull), (''a'', JStr ''x'')])
     = recordDigest const_host (JObj [(''a'', JStr ''x''), (''b'', JNull)])"
  by (rule recordDigest_field_order) (simp_all add: add_mset_commute)

end
