(* ===== verification/Vocabulary.thy ===== *)
theory Vocabulary
  imports Digest
begin

text \<open>
  The shared vocabulary (src/lib/sdlc-vocabulary.mjs): roles, transitions, profiles and action
  boundaries, and the lookups over them. The configuration an adopter supplies is an arbitrary
  JavaScript value.
\<close>

section \<open>Constants\<close>

definition ROLE_PASS_STATUSES :: "string list" where
  "ROLE_PASS_STATUSES = [''pass'', ''blocked'', ''returned'', ''skipped'']"

definition core_role :: "nat \<Rightarrow> string \<Rightarrow> string \<Rightarrow> string list \<Rightarrow> js" where
  "core_role phase slug label owns = JObj [(''phase'', JNat phase), (''slug'', JStr slug),
     (''label'', JStr label), (''owns'', JArr (map JStr owns))]"

definition CORE_ROLES :: "js list" where
  "CORE_ROLES = [
     core_role 0 ''product-manager'' ''Product manager / JTBD'' [''goal'', ''job'', ''release-intent''],
     core_role 1 ''analyst'' ''Analyst'' [''requirements'', ''acceptance-criteria'', ''scope-boundary''],
     core_role 2 ''architect'' ''Architect'' [''technical-design'', ''risk'', ''path-selection''],
     core_role 3 ''implementation-planner'' ''Developer planning'' [''implementation-plan'', ''validation-plan''],
     core_role 4 ''developer'' ''Developer'' [''implementation'', ''commit-evidence''],
     core_role 5 ''tester'' ''Tester'' [''validation-evidence'', ''coverage-notes''],
     core_role 6 ''reviewer'' ''Reviewer'' [''review-findings'', ''independence-boundary''],
     core_role 7 ''technical-writer'' ''Technical writer'' [''docs'', ''release-notes'', ''product-language''],
     core_role 8 ''pr-readiness'' ''PR readiness'' [''pr-manifest'', ''merge-readiness'', ''follow-up-status'']]"

definition CORE_SLUGS :: "string list" where
  "CORE_SLUGS = [''product-manager'', ''analyst'', ''architect'', ''implementation-planner'',
     ''developer'', ''tester'', ''reviewer'', ''technical-writer'', ''pr-readiness'']"

definition CANONICAL_TRANSITIONS :: "(string \<times> string) list" where
  "CANONICAL_TRANSITIONS = [
     (''product-manager'', ''analyst''), (''analyst'', ''architect''),
     (''architect'', ''implementation-planner''), (''implementation-planner'', ''developer''),
     (''developer'', ''tester''), (''tester'', ''reviewer''), (''reviewer'', ''technical-writer''),
     (''technical-writer'', ''pr-readiness''), (''developer'', ''implementation-planner''),
     (''reviewer'', ''developer''), (''technical-writer'', ''developer''),
     (''pr-readiness'', ''developer''), (''analyst'', ''product-manager''),
     (''architect'', ''analyst''), (''implementation-planner'', ''analyst''),
     (''developer'', ''analyst'')]"

definition POSTURES :: "string list" where
  "POSTURES = [''advisory'', ''assisted'', ''delegated'', ''autonomous'']"

definition profile_requirement :: "string list \<Rightarrow> string list \<Rightarrow> js" where
  "profile_requirement req opt = JObj [(''required'', JArr (map JStr req)), (''optional'', JArr (map JStr opt))]"

definition DEFAULT_PROFILE_REQUIREMENTS :: "(string \<times> js) list" where
  "DEFAULT_PROFILE_REQUIREMENTS = [
     (''light'', profile_requirement
        [''analyst'', ''implementation-planner'', ''developer'', ''tester'', ''reviewer'', ''pr-readiness'']
        [''product-manager'', ''architect'', ''technical-writer'']),
     (''bounded'', profile_requirement
        [''analyst'', ''implementation-planner'', ''developer'', ''tester'', ''reviewer'', ''pr-readiness'']
        [''product-manager'', ''architect'', ''technical-writer'']),
     (''standard'', profile_requirement
        [''analyst'', ''architect'', ''implementation-planner'', ''developer'', ''tester'', ''reviewer'', ''pr-readiness'']
        [''product-manager'', ''technical-writer'']),
     (''high-assurance'', profile_requirement CORE_SLUGS []),
     (''exploratory'', profile_requirement
        [''product-manager'', ''analyst'', ''architect'', ''reviewer'']
        [''implementation-planner'', ''developer'', ''tester'', ''technical-writer'', ''pr-readiness''])]"

definition ARTIFACT_KINDS :: "string list" where
  "ARTIFACT_KINDS = [''goal'', ''requirement'', ''design'', ''plan'', ''implementation'', ''validation'',
     ''review'', ''release'', ''incident'', ''job'', ''capability-map'', ''other'']"

definition SOURCE_AUTHORITIES :: "string list" where
  "SOURCE_AUTHORITIES = [''authoritative'', ''working-copy'', ''mirror'']"

definition ARTIFACT_RELATIONSHIPS :: "string list" where
  "ARTIFACT_RELATIONSHIPS = [''input'', ''output'', ''supersedes'', ''verifies'', ''implements'', ''observes'']"

definition ACTION_BOUNDARIES :: "string list" where
  "ACTION_BOUNDARIES = [''observe'', ''propose'', ''mutate-worktree'', ''open-pr'', ''external-action'']"

definition DEFAULT_PROFILE_MAXIMUMS :: "(string \<times> string) list" where
  "DEFAULT_PROFILE_MAXIMUMS = [(''light'', ''open-pr''), (''bounded'', ''open-pr''),
     (''standard'', ''open-pr''), (''high-assurance'', ''external-action''), (''exploratory'', ''propose'')]"

section \<open>Reads on untyped configuration\<close>

text \<open>A computed read \<open>v?.[k]\<close> (array and string indices included).\<close>

definition cget :: "js \<Rightarrow> string \<Rightarrow> js" where
  "cget v k = (if nullish v then JUndef
     else if k = ''length'' then fld v k else obj_get (own_props v) k)"

text \<open>\<open>xs.indexOf(v)\<close> on an array, by strict equality; on a string, by substring.\<close>

fun index_from :: "int \<Rightarrow> js list \<Rightarrow> js \<Rightarrow> int" where
  "index_from i [] v = -1"
| "index_from i (x # xs) v = (if js_eq x v then i else index_from (i + 1) xs v)"

fun str_index_from :: "int \<Rightarrow> string \<Rightarrow> string \<Rightarrow> int" where
  "str_index_from i [] p = (if p = [] then i else -1)"
| "str_index_from i (c # s) p = (if starts_with (c # s) p then i else str_index_from (i + 1) s p)"

definition js_indexOf :: "host \<Rightarrow> js \<Rightarrow> js \<Rightarrow> int res" where
  "js_indexOf h xs v = (case xs of
       JArr ys \<Rightarrow> Inr (index_from 0 ys v)
     | JStr s \<Rightarrow> Inr (str_index_from 0 s (js_string h v))
     | _ \<Rightarrow> Inl (TypeError ''indexOf is not a function''))"

text \<open>\<open>xs.includes(v)\<close> on a value that should be an array.\<close>

definition includes_res :: "host \<Rightarrow> js \<Rightarrow> js \<Rightarrow> bool res" where
  "includes_res h xs v = (case xs of
       JArr ys \<Rightarrow> Inr (js_includes ys v)
     | JStr s \<Rightarrow> Inr (str_includes s (js_string h v))
     | _ \<Rightarrow> Inl (TypeError ''includes is not a function''))"

section \<open>The effective vocabulary\<close>

record vocabulary =
  v_roles :: "js list"
  v_profiles :: "string list"
  v_rolePassStatuses :: js
  v_artifactKinds :: js
  v_sourceAuthorities :: js
  v_artifactRelationships :: js
  v_actionBoundaries :: js

abbreviation jstrs :: "string list \<Rightarrow> js" where
  "jstrs ss \<equiv> JArr (map JStr ss)"

definition sdlcVocabulary :: "js \<Rightarrow> vocabulary res" where
  "sdlcVocabulary config =
     bnd (dot config ''vocabulary'') (\<lambda>voc.
     let configured = coal voc (JObj []);
         roles = (if truthy (fld (fld config ''roles'') ''length'') then fld config ''roles'' else JArr CORE_ROLES);
         paths = (if truthy (fld config ''paths'') \<and> own_props (fld config ''paths'') \<noteq> []
                  then own_props (fld config ''paths'') else DEFAULT_PROFILE_REQUIREMENTS)
     in bnd (if is_array roles then map_res (\<lambda>role. dot role ''slug'') (elems roles)
             else Inl (TypeError ''roles.map is not a function'')) (\<lambda>slugs.
        Inr \<lparr>v_roles = slugs, v_profiles = map fst paths,
             v_rolePassStatuses = coal (fld configured ''rolePassStatuses'') (jstrs ROLE_PASS_STATUSES),
             v_artifactKinds = coal (fld configured ''artifactKinds'') (jstrs ARTIFACT_KINDS),
             v_sourceAuthorities = coal (fld configured ''sourceAuthorities'') (jstrs SOURCE_AUTHORITIES),
             v_artifactRelationships = coal (fld configured ''artifactRelationships'') (jstrs ARTIFACT_RELATIONSHIPS),
             v_actionBoundaries = coal (fld configured ''actionBoundaries'') (jstrs ACTION_BOUNDARIES)\<rparr>))"

definition actionBoundaryRank :: "host \<Rightarrow> js \<Rightarrow> js \<Rightarrow> int res" where
  "actionBoundaryRank h boundary config =
     bnd (sdlcVocabulary config) (\<lambda>voc. js_indexOf h (v_actionBoundaries voc) boundary)"

definition actionBoundaryAllows :: "host \<Rightarrow> js \<Rightarrow> js \<Rightarrow> js \<Rightarrow> bool res" where
  "actionBoundaryAllows h parentBoundary childBoundary config =
     bnd (actionBoundaryRank h parentBoundary config) (\<lambda>parentRank.
     bnd (actionBoundaryRank h childBoundary config) (\<lambda>childRank.
     Inr (parentRank \<ge> 0 \<and> childRank \<ge> 0 \<and> childRank \<le> parentRank)))"

text \<open>\<open>item.label?.toLowerCase()\<close> throws on a label that is not a string.\<close>

definition role_matches :: "string \<Rightarrow> js \<Rightarrow> bool res" where
  "role_matches normalized item = bnd (dot item ''slug'') (\<lambda>slug.
     if js_eq slug (JStr normalized) then Inr True
     else let label = fld item ''label'' in
       if nullish label then Inr False
       else case label of JStr l \<Rightarrow> Inr (js_lower l = normalized)
            | _ \<Rightarrow> Inl (TypeError ''item.label?.toLowerCase is not a function''))"

fun find_res :: "('a \<Rightarrow> bool res) \<Rightarrow> 'a list \<Rightarrow> 'a option res" where
  "find_res f [] = Inr None"
| "find_res f (x # xs) = bnd (f x) (\<lambda>b. if b then Inr (Some x) else find_res f xs)"

definition canonicalRole :: "host \<Rightarrow> js \<Rightarrow> js \<Rightarrow> js res" where
  "canonicalRole h role config =
     bnd (dot config ''roles'') (\<lambda>cr.
     let normalized = js_lower (js_trim (js_string h (coal role (JStr []))));
         roles = (if truthy (fld cr ''length'') then cr else JArr CORE_ROLES)
     in if is_array roles
        then bnd (find_res (role_matches normalized) (elems roles)) (\<lambda>m.
             Inr (case m of None \<Rightarrow> JNull | Some item \<Rightarrow> coal (fld item ''slug'') JNull))
        else Inl (TypeError ''find is not a function''))"

definition normalizeRole :: "host \<Rightarrow> js \<Rightarrow> js \<Rightarrow> (string \<times> js) res" where
  "normalizeRole h role config =
     (let input = js_lower (js_trim (js_string h (coal role (JStr []))))
      in bnd (canonicalRole h (JStr input) config) (\<lambda>canonical. Inr (input, canonical)))"

text \<open>Destructuring \<open>[from, to]\<close> of one configured transition.\<close>

definition pair_of :: "js \<Rightarrow> (js \<times> js) res" where
  "pair_of v = (case v of
       JArr xs \<Rightarrow> Inr (case xs of [] \<Rightarrow> (JUndef, JUndef) | [a] \<Rightarrow> (a, JUndef) | a # b # _ \<Rightarrow> (a, b))
     | JStr s \<Rightarrow> Inr (case s of [] \<Rightarrow> (JUndef, JUndef) | [a] \<Rightarrow> (JStr [a], JUndef) | a # b # _ \<Rightarrow> (JStr [a], JStr [b]))
     | _ \<Rightarrow> Inl (TypeError ''not iterable''))"

definition isAllowedTransition :: "js \<Rightarrow> js \<Rightarrow> js \<Rightarrow> bool res" where
  "isAllowedTransition fromRole toRole config =
     bnd (dot config ''transitions'') (\<lambda>ts.
     case coal ts (JArr []) of
       JArr xs \<Rightarrow> some_res (\<lambda>t. bnd (pair_of t) (\<lambda>(f, t). Inr (js_eq f fromRole \<and> js_eq t toRole))) xs
     | _ \<Rightarrow> Inl (TypeError ''some is not a function''))"

section \<open>Ranks of action boundaries\<close>

lemma index_from_ge: "index_from i xs v = -1 \<or> (i \<le> index_from i xs v \<and> index_from i xs v < i + int (length xs))"
  by (induction i xs v rule: index_from.induct) auto

lemma sdlcVocabulary_default [simp]:
  "\<exists>voc. sdlcVocabulary (JObj []) = Inr voc \<and> v_actionBoundaries voc = jstrs ACTION_BOUNDARIES"
  by (simp add: sdlcVocabulary_def dot_def fld_def obj_get_def coal_def CORE_ROLES_def core_role_def
      Let_def proto_names_def)

definition boundary_rank :: "js \<Rightarrow> int" where
  "boundary_rank b = index_from 0 (map JStr ACTION_BOUNDARIES) b"

lemma actionBoundaryRank_default: "actionBoundaryRank h b (JObj []) = Inr (boundary_rank b)"
proof -
  obtain voc where "sdlcVocabulary (JObj []) = Inr voc" "v_actionBoundaries voc = jstrs ACTION_BOUNDARIES"
    using sdlcVocabulary_default by blast
  then show ?thesis by (simp add: actionBoundaryRank_def js_indexOf_def boundary_rank_def)
qed

lemma actionBoundaryAllows_default:
  "actionBoundaryAllows h p c (JObj []) =
     Inr (boundary_rank p \<ge> 0 \<and> boundary_rank c \<ge> 0 \<and> boundary_rank c \<le> boundary_rank p)"
  by (simp add: actionBoundaryAllows_def actionBoundaryRank_default)

lemma boundary_rank_values:
  "boundary_rank (JStr ''observe'') = 0" "boundary_rank (JStr ''propose'') = 1"
  "boundary_rank (JStr ''mutate-worktree'') = 2" "boundary_rank (JStr ''open-pr'') = 3"
  "boundary_rank (JStr ''external-action'') = 4" "boundary_rank JNull = -1" "boundary_rank JUndef = -1"
  by (simp_all add: boundary_rank_def ACTION_BOUNDARIES_def)

lemma boundary_rank_one_of: "boundary_rank b \<ge> 0 \<longleftrightarrow> one_of ACTION_BOUNDARIES b"
  by (auto simp: boundary_rank_def ACTION_BOUNDARIES_def one_of_iff)

end
