(* ===== verification/Artifacts.thy ===== *)
theory Artifacts
  imports Vocabulary
begin

text \<open>
  The runtime platform registry (src/lib/runtime-platforms.mjs), artifact references
  (src/lib/core/artifact-ref.mjs), unit identities and revisions (src/lib/core/unit-identity.mjs,
  src/lib/core/goal-revision.mjs), model families (src/lib/core/model-family.mjs) and review
  attestations (src/lib/core/review-attestation.mjs).
\<close>

section \<open>Runtime platforms\<close>

definition platform :: "string \<Rightarrow> string \<Rightarrow> string \<Rightarrow> bool \<Rightarrow> js" where
  "platform slug name kind routable = JObj [(''slug'', JStr slug), (''displayName'', JStr name),
     (''kind'', JStr kind), (''routable'', JBool routable)]"

definition BUILT_IN_PLATFORMS :: "js list" where
  "BUILT_IN_PLATFORMS = [
     platform ''agy'' ''Agy'' ''agent-runtime'' True,
     platform ''antigravity'' ''Antigravity'' ''harness'' False,
     platform ''chatgpt'' ''ChatGPT'' ''harness'' False,
     platform ''claude'' ''Claude'' ''agent-runtime'' True,
     platform ''codex'' ''Codex'' ''agent-runtime'' True,
     platform ''cowork'' ''Cowork'' ''harness'' False,
     platform ''human'' ''Human'' ''human'' False,
     platform ''grok'' ''Grok'' ''agent-runtime'' True,
     platform ''pi'' ''Pi'' ''agent-runtime'' True]"

text \<open>\<open>/^[a-z][a-z0-9]*(?:-[a-z0-9]+)*$/\<close>\<close>

definition platform_slug :: "string \<Rightarrow> bool" where
  "platform_slug s = (s \<noteq> [] \<and> is_lower (hd s) \<and>
     list_all (\<lambda>part. part \<noteq> [] \<and> list_all (\<lambda>c. is_lower c \<or> is_digit c) part) (split_on (CHR ''-'') s))"

definition isPlainObject :: "js \<Rightarrow> bool" where
  "isPlainObject v = (v \<noteq> JNull \<and> typeof_object v \<and> \<not> is_array v)"

definition platform_errors :: "nat \<Rightarrow> js \<Rightarrow> string list \<Rightarrow> string list \<times> string list" where
  "platform_errors index p slugs =
     (let location = ''runtime platform registry platforms['' @ nat_str index @ '']''
      in if \<not> isPlainObject p then ([location @ '' must be an object''], slugs)
         else let slug = str_of (fld p ''slug'');
                  bad = (\<not> is_string (fld p ''slug'') \<or> \<not> platform_slug slug);
                  dup = (\<not> bad \<and> slug \<in> set slugs)
              in ((if bad then [location @ ''.slug must match /^[a-z][a-z0-9]*(?:-[a-z0-9]+)*$/'']
                   else if dup then [location @ ''.slug duplicates registered platform: '' @ slug] else [])
                  @ (if \<not> is_string (fld p ''displayName'') \<or> js_trim (str_of (fld p ''displayName'')) = []
                     then [location @ ''.displayName must be a non-empty string''] else [])
                  @ (if \<not> one_of [''agent-runtime'', ''harness'', ''human''] (fld p ''kind'')
                     then [location @ ''.kind must be agent-runtime, harness, or human''] else [])
                  @ (if \<not> is_bool (fld p ''routable'') then [location @ ''.routable must be boolean''] else []),
                  if bad \<or> dup then slugs else slug # slugs))"

fun platforms_errors :: "nat \<Rightarrow> js list \<Rightarrow> string list \<Rightarrow> string list" where
  "platforms_errors i [] slugs = []"
| "platforms_errors i (p # ps) slugs =
     (let (errors, slugs') = platform_errors i p slugs in errors @ platforms_errors (Suc i) ps slugs')"

definition validateRuntimePlatformRegistry :: "js \<Rightarrow> string list" where
  "validateRuntimePlatformRegistry registry =
     (if \<not> isPlainObject registry then [''runtime platform registry must be an object'']
      else let e1 = (if \<not> js_eq (fld registry ''version'') (JNat 1)
                     then [''runtime platform registry version must be 1''] else []);
               ps = fld registry ''platforms''
           in if \<not> is_array ps \<or> elems ps = []
              then e1 @ [''runtime platform registry platforms must be a non-empty array'']
              else e1 @ platforms_errors 0 (elems ps) [])"

text \<open>\<open>({ routable } = {}) => routable === true\<close>\<close>

definition routable_true :: "js \<Rightarrow> bool res" where
  "routable_true v = (if v = JUndef then Inr False
     else bnd (dot v ''routable'') (\<lambda>r. Inr (js_eq r (JBool True))))"

definition runtimePlatformRegistry :: "host \<Rightarrow> js \<Rightarrow> js list res" where
  "runtimePlatformRegistry h config =
     (let additions = coal (fld (fld config ''platformRegistry'') ''additionalPlatforms'') (JArr [])
      in if \<not> is_array additions
         then fail ''invalid runtime platform registry: platformRegistry.additionalPlatforms must be an array''
         else bnd (find_res routable_true (elems additions)) (\<lambda>bad.
           case bad of Some a \<Rightarrow>
             fail (''invalid runtime platform registry: project platform '' @
               js_string h (coal (fld a ''slug'') (JStr ''<missing slug>'')) @
               '' must set routable to false; routing adapters remain framework-defined'')
           | None \<Rightarrow>
             (let platforms = BUILT_IN_PLATFORMS @ elems additions;
                  errors = validateRuntimePlatformRegistry
                    (JObj [(''version'', JNat 1), (''platforms'', JArr platforms)])
              in if errors \<noteq> [] then fail (''invalid runtime platform registry: '' @ js_join ''; '' errors)
                 else Inr platforms)))"

definition runtimePlatformSlugs :: "host \<Rightarrow> js \<Rightarrow> js list res" where
  "runtimePlatformSlugs h config =
     bnd (runtimePlatformRegistry h config) (\<lambda>ps. Inr (map (\<lambda>p. fld p ''slug'') ps))"

definition routableRuntimePlatformSlugs :: "host \<Rightarrow> js \<Rightarrow> js list res" where
  "routableRuntimePlatformSlugs h config =
     bnd (runtimePlatformRegistry h config) (\<lambda>ps.
       Inr (map (\<lambda>p. fld p ''slug'') (filter (\<lambda>p. truthy (fld p ''routable'')) ps)))"

definition isRegisteredRuntimePlatform :: "host \<Rightarrow> js \<Rightarrow> js \<Rightarrow> bool res" where
  "isRegisteredRuntimePlatform h slug config =
     bnd (runtimePlatformSlugs h config) (\<lambda>slugs. Inr (js_includes slugs slug))"

definition describeRuntimePlatform :: "host \<Rightarrow> js \<Rightarrow> js \<Rightarrow> js res" where
  "describeRuntimePlatform h slug config =
     bnd (runtimePlatformRegistry h config) (\<lambda>ps.
       Inr (case find (\<lambda>p. js_eq (fld p ''slug'') slug) ps of Some p \<Rightarrow> p | None \<Rightarrow> JNull))"

section \<open>Artifact references\<close>

record report =
  r_errors :: "string list"
  r_warnings :: "string list"

definition ok :: "report \<Rightarrow> bool" where
  "ok r = (r_errors r = [])"

definition requiredString :: "js \<Rightarrow> string \<Rightarrow> string list" where
  "requiredString v field = (if \<not> is_text v then [field @ '' is required''] else [])"

text \<open>\<open>/^(?:data:|javascript:)/i\<close>\<close>

definition embedded_uri :: "string \<Rightarrow> bool" where
  "embedded_uri s = (starts_with (js_lower s) ''data:'' \<or> starts_with (js_lower s) ''javascript:'')"

text \<open>\<open>[?&](?:token|api[_-]?key|secret|password)=\<close>, anywhere in the (lower-cased) text.\<close>

fun secret_query :: "string \<Rightarrow> bool" where
  "secret_query [] = False"
| "secret_query (c # s) =
     ((c \<in> {CHR ''?'', CHR ''&''} \<and>
       list_ex (starts_with s)
         [''token='', ''apikey='', ''api_key='', ''api-key='', ''secret='', ''password=''])
      \<or> secret_query s)"

text \<open>\<open>:\/\/[^/\s]+:[^/@\s]+@\<close>: user information with a password after a scheme.\<close>

fun user_pass :: "string \<Rightarrow> bool" where
  "user_pass [] = False"
| "user_pass (c # s) =
     ((c = CHR '':'' \<and> (let b = takeWhile (\<lambda>d. d \<noteq> CHR ''@'') s in b \<noteq> [] \<and> length b < length s))
      \<or> user_pass s)"

fun uri_password :: "string \<Rightarrow> bool" where
  "uri_password [] = False"
| "uri_password (c # s) =
     ((starts_with (c # s) ''://'' \<and>
       user_pass (tl (takeWhile (\<lambda>d. d \<noteq> CHR ''/'' \<and> \<not> is_space d) (drop 3 (c # s)))))
      \<or> uri_password s)"

definition uri_credentials :: "string \<Rightarrow> bool" where
  "uri_credentials s = (secret_query (js_lower s) \<or> uri_password s)"

definition member_error :: "host \<Rightarrow> js \<Rightarrow> js \<Rightarrow> string \<Rightarrow> string list res" where
  "member_error h v allowed field =
     (if truthy v then bnd (includes_res h allowed v) (\<lambda>b.
        if b then Inr [] else
          (case allowed of JArr xs \<Rightarrow>
             Inr [field @ '' must be one of: '' @ js_join '', '' (map (\<lambda>x. if nullish x then [] else js_string h x) xs)]
           | _ \<Rightarrow> Inl (TypeError ''join is not a function'')))
      else Inr [])"

definition validateArtifactRef :: "host \<Rightarrow> js \<Rightarrow> js \<Rightarrow> report res" where
  "validateArtifactRef h ref0 config =
     (let ref = (if ref0 = JUndef then JObj [] else ref0) in
      bnd (sdlcVocabulary config) (\<lambda>voc.
      bnd (dot ref ''kind'') (\<lambda>kind.
      let uri = js_string h (coal (fld ref ''uri'') (JStr []));
          required = requiredString kind ''kind'' @ requiredString (fld ref ''system'') ''system''
            @ requiredString (fld ref ''uri'') ''uri'' @ requiredString (fld ref ''authority'') ''authority''
            @ requiredString (fld ref ''relationship'') ''relationship''
      in bnd (member_error h kind (v_artifactKinds voc) ''kind'') (\<lambda>e1.
         bnd (member_error h (fld ref ''authority'') (v_sourceAuthorities voc) ''authority'') (\<lambda>e2.
         bnd (member_error h (fld ref ''relationship'') (v_artifactRelationships voc) ''relationship'') (\<lambda>e3.
         Inr \<lparr>r_errors = required @ e1 @ e2 @ e3
                @ (if embedded_uri uri
                   then [''uri must identify an external or repository artifact, not embedded content''] else [])
                @ (if uri_credentials uri
                   then [''uri must not contain credentials or secret query parameters''] else []),
              r_warnings = (if \<not> truthy (fld ref ''revision'') \<and> \<not> truthy (fld ref ''digest'')
                then [''revision or digest should be recorded when the source supports immutable refs'']
                else [])\<rparr>))))))"

text \<open>The per-index reports of \<open>validateArtifactRefs\<close>.\<close>

fun artifact_reports :: "host \<Rightarrow> js \<Rightarrow> nat \<Rightarrow> js list \<Rightarrow> report res" where
  "artifact_reports h config i [] = Inr \<lparr>r_errors = [], r_warnings = []\<rparr>"
| "artifact_reports h config i (ref # refs) =
     bnd (validateArtifactRef h ref config) (\<lambda>r.
     bnd (artifact_reports h config (Suc i) refs) (\<lambda>rest.
     Inr \<lparr>r_errors = map (\<lambda>e. ''artifactRefs['' @ nat_str i @ ''].'' @ e) (r_errors r) @ r_errors rest,
          r_warnings = map (\<lambda>w. ''artifactRefs['' @ nat_str i @ ''].'' @ w) (r_warnings r) @ r_warnings rest\<rparr>))"

definition ref_key :: "host \<Rightarrow> js \<Rightarrow> string" where
  "ref_key h ref = js_string h (fld ref ''kind'') @ '':'' @ js_string h (coal (fld ref ''scope'') (JStr ''default''))"

text \<open>The map \<open>authoritativeByKind\<close>, in insertion order.\<close>

definition count_key :: "(string \<times> nat) list \<Rightarrow> string \<Rightarrow> (string \<times> nat) list" where
  "count_key m k = obj_set m k (case map_of m k of None \<Rightarrow> 1 | Some n \<Rightarrow> Suc n)"

definition validateArtifactRefs :: "host \<Rightarrow> js \<Rightarrow> js \<Rightarrow> report res" where
  "validateArtifactRefs h refs0 config =
     (let refs = (if refs0 = JUndef then JArr [] else refs0) in
      if \<not> is_array refs then Inr \<lparr>r_errors = [''artifact references must be an array''], r_warnings = []\<rparr>
      else bnd (artifact_reports h config 0 (elems refs)) (\<lambda>r.
        bnd (map_res (\<lambda>item. dot item ''authority'') (elems refs)) (\<lambda>_.
        let auths = filter (\<lambda>item. js_eq (fld item ''authority'') (JStr ''authoritative'')) (elems refs);
            counts = foldl count_key [] (map (ref_key h) auths)
        in Inr (r\<lparr>r_errors := r_errors r @
             map (\<lambda>(k, _). ''multiple authoritative artifact references for '' @ k)
               (filter (\<lambda>(_, n). n > 1) counts)\<rparr>))))"

section \<open>Identity, revision, model family\<close>

text \<open>Default parameters apply to \<open>undefined\<close>.\<close>

definition js_default :: "js \<Rightarrow> js \<Rightarrow> js" where
  "js_default v d = (if v = JUndef then d else v)"

definition unitIdentity :: "host \<Rightarrow> js \<Rightarrow> js \<Rightarrow> js \<Rightarrow> string res" where
  "unitIdentity h source0 repo uid =
     (let source = js_default source0 (JStr ''github'') in
      bnd (requireText source ''source'') (\<lambda>_.
      if nullish uid \<or> js_eq uid (JStr []) then fail ''id is required''
      else Inr (js_string h source @ '':'' @ js_string h (if truthy repo then repo else JStr ''unscoped'')
             @ '':'' @ js_string h uid)))"

text \<open>\<open>identity.replace(/[^\w-]/g, '-')\<close>\<close>

definition word_or_dash :: "char \<Rightarrow> bool" where
  "word_or_dash c = (is_alnum c \<or> c = CHR ''_'' \<or> c = CHR ''-'')"

definition unitRunId :: "js \<Rightarrow> string res" where
  "unitRunId identity = bnd (requireText identity ''identity'') (\<lambda>_.
     Inr (map (\<lambda>c. if word_or_dash c then c else CHR ''-'') (str_of identity)))"

definition resolveVerifiedRunId :: "host \<Rightarrow> js \<Rightarrow> js \<Rightarrow> js \<Rightarrow> js \<Rightarrow> (string list + string) res" where
  "resolveVerifiedRunId h source repo uid requestedRunId =
     bnd (unitIdentity h source repo uid) (\<lambda>identity.
     bnd (unitRunId (JStr identity)) (\<lambda>runId.
     if \<not> nullish requestedRunId \<and> \<not> js_eq requestedRunId (JStr runId)
     then Inr (Inl [''runId does not match the unit's derived run'']) else Inr (Inr runId)))"

definition goalRevision :: "host \<Rightarrow> js \<Rightarrow> js \<Rightarrow> js \<Rightarrow> js \<Rightarrow> js \<Rightarrow> string" where
  "goalRevision h repo number title body updatedAt =
     recordDigest h (JObj [(''repo'', repo), (''number'', number), (''title'', title), (''body'', body),
       (''updatedAt'', updatedAt)])"

text \<open>A name followed by a dash or the end of the text.\<close>

definition name_or_dash :: "string \<Rightarrow> string \<Rightarrow> bool" where
  "name_or_dash s p = (starts_with s p \<and> (drop (length p) s = [] \<or> hd (drop (length p) s) = CHR ''-''))"

definition modelFamily :: "host \<Rightarrow> js \<Rightarrow> string" where
  "modelFamily h model =
     (let leaf = last (split_on (CHR ''/'') (js_lower (js_string h (coal model (JStr [])))))
      in if name_or_dash leaf ''claude'' then ''anthropic''
         else if name_or_dash leaf ''gemini'' \<or> name_or_dash leaf ''gemma'' then ''google''
         else if name_or_dash leaf ''grok'' then ''xai''
         else if name_or_dash leaf ''qwen'' \<or> (starts_with leaf ''qwen'' \<and> drop 4 leaf \<noteq> [] \<and> is_digit (hd (drop 4 leaf))) then ''qwen''
         else if name_or_dash leaf ''glm'' then ''zai''
         else if name_or_dash leaf ''deepseek'' then ''deepseek''
         else if starts_with leaf ''gpt-'' \<or> name_or_dash leaf ''codex'' \<or> name_or_dash leaf ''o1''
            \<or> name_or_dash leaf ''o3'' \<or> name_or_dash leaf ''o4'' then ''openai''
         else ''unknown'')"

section \<open>Review attestations\<close>

definition createReviewAttestation :: "js \<Rightarrow> js \<Rightarrow> js \<Rightarrow> js \<Rightarrow> js \<Rightarrow> js \<Rightarrow> js" where
  "createReviewAttestation subject reviewedDigest reviewer decision timestamp findings =
     JObj [(''version'', JNat 1), (''subject'', subject), (''reviewedDigest'', reviewedDigest),
       (''reviewer'', reviewer), (''decision'', decision), (''timestamp'', timestamp),
       (''findings'', js_default findings (JArr []))]"

definition validateReviewAttestation :: "host \<Rightarrow> js \<Rightarrow> js \<Rightarrow> string list" where
  "validateReviewAttestation h att expectedDigest =
     (if \<not> js_eq (fld att ''version'') (JNat 1) then [''version must be 1''] else [])
     @ (if \<not> truthy (fld att ''subject'') then [''subject is required''] else [])
     @ (if \<not> digest_test h (fld att ''reviewedDigest'') then [''reviewedDigest must be a SHA-256 digest''] else [])
     @ (if truthy expectedDigest \<and> \<not> js_eq (fld att ''reviewedDigest'') expectedDigest
        then [''reviewedDigest is stale''] else [])
     @ (if \<not> one_of [''agree'', ''changes-requested'', ''blocked''] (fld att ''decision'')
        then [''decision is invalid''] else [])
     @ (if \<not> truthy (fld (fld att ''reviewer'') ''platform'') then [''reviewer.platform is required''] else [])
     @ (if \<not> truthy (fld (fld att ''reviewer'') ''executor'') then [''reviewer.executor is required''] else [])
     @ (if \<not> one_of [''independent'', ''self-review'', ''human-gate''] (fld (fld att ''reviewer'') ''independence'')
        then [''reviewer.independence is invalid''] else [])
     @ (if \<not> is_array (fld att ''findings'') then [''findings must be an array''] else [])
     @ (if \<not> is_string (fld att ''timestamp'') \<or> \<not> is_finite (date_parse h (fld att ''timestamp''))
        then [''timestamp must be an ISO-8601 instant''] else [])"

section \<open>Facts\<close>

lemma built_in_valid:
  "validateRuntimePlatformRegistry (JObj [(''version'', JNat 1), (''platforms'', JArr BUILT_IN_PLATFORMS)]) = []"
  by code_simp

lemma runtimePlatformRegistry_default [simp]: "runtimePlatformRegistry h (JObj []) = Inr BUILT_IN_PLATFORMS"
  using built_in_valid
  by (simp add: runtimePlatformRegistry_def fld_def obj_get_def proto_names_def coal_def Let_def)

text \<open>In the default registry exactly the platform \<open>human\<close> is of kind \<open>human\<close>.\<close>

lemma describe_human_iff:
  "\<exists>p. describeRuntimePlatform h slug (JObj []) = Inr p \<and> (js_eq (fld p ''kind'') (JStr ''human'') \<longleftrightarrow> slug = JStr ''human'')"
  by (simp add: describeRuntimePlatform_def BUILT_IN_PLATFORMS_def platform_def fld_def obj_get_def
      proto_names_def js_eq_sym [of _ slug])

lemma describe_default_total: "\<exists>p. describeRuntimePlatform h slug (JObj []) = Inr p"
  by (simp add: describeRuntimePlatform_def)

lemma is_text_fld: "is_text (fld v k) \<Longrightarrow> \<not> nullish v"
  by (cases v) (auto simp: is_text_def fld_def)

end
