(* ===== verification/Gate.thy ===== *)
theory Gate
  imports Artifacts
begin

text \<open>
  Human gates (src/lib/core/gate.mjs) and autonomy postures (src/lib/core/posture.mjs). A gate is a
  sealed demand for a human decision about one subject digest; a posture and a change class
  together decide which gate classes apply. The lemmas show what can satisfy a gate, when a
  boundary crossing is derived, that a refrozen contract is accepted as narrowing only when no
  criterion got weaker, and that the effective gating is the stricter of its two sources.
\<close>

section \<open>Gates\<close>

definition adequacyOfIntent :: string where "adequacyOfIntent = ''adequacy-of-intent''"
definition releaseOfCandidate :: string where "releaseOfCandidate = ''release-of-candidate''"
definition agentEscalation :: string where "agentEscalation = ''agent-escalation''"

definition GATE_CLASS_VALUES :: "string list" where
  "GATE_CLASS_VALUES = [adequacyOfIntent, releaseOfCandidate, agentEscalation]"

definition SUBJECT_KINDS :: "string list" where
  "SUBJECT_KINDS = [''goalRevision'', ''admission'', ''candidateDigest'']"

definition ALLOWED_SUBJECT_KINDS :: "string \<Rightarrow> string list" where
  "ALLOWED_SUBJECT_KINDS gc =
     (if gc = adequacyOfIntent then [''goalRevision'', ''admission'']
      else if gc = releaseOfCandidate then [''candidateDigest'']
      else if gc = agentEscalation then [''goalRevision'', ''candidateDigest'']
      else [])"

lemmas gate_class_defs = adequacyOfIntent_def releaseOfCandidate_def agentEscalation_def

definition seal_hint :: "js \<Rightarrow> js res" where
  "seal_hint hint =
     bnd (requireText (fld hint ''id'') ''hint id'') (\<lambda>i.
     bnd (requireText (fld hint ''interpretation'') ''hint interpretation'') (\<lambda>t.
     if \<not> has_own (own_props (coal hint (JObj []))) ''value'' then fail ''hint value is required''
     else Inr (JObj [(''id'', i), (''value'', fld hint ''value''), (''interpretation'', t)])))"

text \<open>The argument object is given by its own properties.\<close>

definition createGate :: "host \<Rightarrow> (string \<times> js) list \<Rightarrow> (string \<times> js) list res" where
  "createGate h args =
     (let arg = fld (JObj args); hints = js_default (arg ''hints'') (JArr []) in
      if has_own args ''phase'' \<or> has_own args ''phaseNumber''
      then fail ''Gates cannot be bound to a phase number''
      else if \<not> one_of GATE_CLASS_VALUES (arg ''gateClass'')
      then fail (''gateClass must be one of: '' @ js_join '', '' GATE_CLASS_VALUES)
      else bnd (requireDigest h (arg ''subjectDigest'') ''subjectDigest'') (\<lambda>_.
        if \<not> one_of SUBJECT_KINDS (arg ''subjectKind'')
        then fail (''subjectKind must be one of: '' @ js_join '', '' SUBJECT_KINDS)
        else if \<not> one_of (ALLOWED_SUBJECT_KINDS (str_of (arg ''gateClass''))) (arg ''subjectKind'')
        then fail (str_of (arg ''gateClass'') @ '' cannot range over '' @ str_of (arg ''subjectKind''))
        else bnd (requireText (arg ''requiredRole'') ''requiredRole'') (\<lambda>_.
          if \<not> is_array hints then fail ''hints must be an array''
          else bnd (map_res seal_hint (elems hints)) (\<lambda>sealedHints.
            Inr (sealDeliveryRecord h ''gate'' [
              (''gateClass'', arg ''gateClass''), (''subjectDigest'', arg ''subjectDigest''),
              (''subjectKind'', arg ''subjectKind''), (''requiredRole'', arg ''requiredRole''),
              (''hints'', JArr sealedHints)])))))"

definition gate_shape :: "js \<Rightarrow> bool" where
  "gate_shape gate = (js_eq (fld gate ''type'') (JStr ''gate'') \<and> js_eq (fld gate ''version'') (JNat 1)
     \<and> one_of SUBJECT_KINDS (fld gate ''subjectKind''))"

definition createGatePendingEvent :: "host \<Rightarrow> js \<Rightarrow> js \<Rightarrow> (string \<times> js) list res" where
  "createGatePendingEvent h gate unitRef =
     (if \<not> gate_shape gate then fail ''createGatePendingEvent requires a sealed gate record''
      else bnd (requireText unitRef ''unitRef'') (\<lambda>_.
        Inr (sealDeliveryRecord h ''gate-pending'' [
          (''gateClass'', fld gate ''gateClass''), (''subjectDigest'', fld gate ''subjectDigest''),
          (''subjectKind'', fld gate ''subjectKind''), (''requiredRole'', fld gate ''requiredRole''),
          (''unitRef'', unitRef)])))"

definition isHumanReviewer :: "host \<Rightarrow> js \<Rightarrow> bool res" where
  "isHumanReviewer h reviewer =
     (if \<not> js_eq (fld reviewer ''independence'') (JStr ''human-gate'') then Inr False
      else bnd (describeRuntimePlatform h (fld reviewer ''platform'') (JObj [])) (\<lambda>p.
        Inr (js_eq (fld p ''kind'') (JStr ''human''))))"

text \<open>\<open>satisfyGate\<close> returns its list of errors: empty is \<open>ok: true\<close>.\<close>

definition satisfyGate :: "host \<Rightarrow> js \<Rightarrow> js \<Rightarrow> string list res" where
  "satisfyGate h gate attestation =
     (if \<not> gate_shape gate then fail ''satisfyGate requires a sealed gate record''
      else if \<not> hasCurrentDigest h gate
      then Inr [''gate seal is invalid: the record was altered after sealing'']
      else let check = validateReviewAttestation h attestation (fld gate ''subjectDigest'') in
        if check \<noteq> [] then Inr check
        else bnd (isHumanReviewer h (fld attestation ''reviewer'')) (\<lambda>human.
          Inr ((if \<not> js_eq (fld attestation ''decision'') (JStr ''agree'')
                then [''decision does not satisfy the gate: only agree opens it''] else [])
               @ (if \<not> human
                  then [''only a human reviewer (independence: human-gate, the registered human platform) satisfies a gate'']
                  else []))))"

section \<open>Derived crossings\<close>

definition crossing :: "string \<Rightarrow> js \<Rightarrow> js" where
  "crossing kind reason = JObj [(''kind'', JStr kind), (''reason'', reason)]"

text \<open>Arguments default to \<open>null\<close> when undefined.\<close>

definition deriveCrossings :: "host \<Rightarrow> js \<Rightarrow> js \<Rightarrow> js \<Rightarrow> js \<Rightarrow> js \<Rightarrow> js list res" where
  "deriveCrossings h eff req budget observation independence =
     bnd (if js_eq eff (JStr ''external-action'') then Inr True
          else if truthy eff \<and> truthy req
          then bnd (actionBoundaryAllows h req eff (JObj [])) (\<lambda>b. Inr (\<not> b)) else Inr False) (\<lambda>widens.
     Inr ((if widens then [crossing ''authority-escalation'' (JStr (''Effective action boundary ''
              @ js_string h (js_default eff JNull) @ '' widens beyond ''
              @ js_string h (coal req (JStr ''the requested boundary'')) @ ''.''))] else [])
          @ (if truthy budget \<and> js_eq (fld budget ''admitted'') (JBool False)
             then [crossing ''budget-exhaustion'' (coal (fld budget ''reason'')
                     (JStr ''Operational budget does not admit the next attempt.''))] else [])
          @ (if truthy observation \<and> js_finite (fld observation ''ageMs'') \<and> js_finite (fld observation ''maxAgeMs'')
                \<and> num_less (num_of (fld observation ''maxAgeMs'')) (num_of (fld observation ''ageMs''))
             then [crossing ''evidence-expiry'' (JStr ''Observation is older than its declared maximum age.'')] else [])
          @ (if truthy independence \<and> js_eq (fld independence ''selfReview'') (JBool True)
                \<and> js_eq (fld independence ''allowsSelfReview'') (JBool False)
             then [crossing ''independence'' (JStr ''Self-review occurred on a path that forbids it.'')] else [])))"

section \<open>Refreezing\<close>

datatype refreeze = Weakening | Narrowing

definition criterion_id :: "js \<Rightarrow> bool" where
  "criterion_id c = (truthy c \<and> is_string (fld c ''id'') \<and> fld c ''id'' \<noteq> JStr [])"

text \<open>\<open>Array.isArray(v) ? v : null\<close>\<close>

definition array_opt :: "js \<Rightarrow> js list option" where
  "array_opt v = (case v of JArr xs \<Rightarrow> Some xs | _ \<Rightarrow> None)"

text \<open>The body of the loop over one previous criterion: whether it is weakened by \<open>next\<close>.\<close>

definition criterion_weakened :: "js \<Rightarrow> js \<Rightarrow> bool" where
  "criterion_weakened previous next =
     (\<not> js_eq (fld previous ''definitionDigest'') (fld next ''definitionDigest'')
      \<or> list_ex (\<lambda>a. \<not> js_includes (elems (fld next ''assertions'')) a) (elems (fld previous ''assertions''))
      \<or> (js_eq (fld previous ''requireImmutable'') (JBool True) \<and> \<not> js_eq (fld next ''requireImmutable'') (JBool True))
      \<or> (js_finite (fld previous ''maxAgeMs'') \<and>
          (\<not> js_finite (fld next ''maxAgeMs'') \<or> num_less (num_of (fld previous ''maxAgeMs'')) (num_of (fld next ''maxAgeMs''))))
      \<or> (case (array_opt (fld previous ''allowedOrigins''), array_opt (fld next ''allowedOrigins'')) of
           (None, None) \<Rightarrow> False
         | (Some po, Some no) \<Rightarrow> list_ex (\<lambda>o'. \<not> js_includes po o') no
         | _ \<Rightarrow> True))"

fun refreeze_loop :: "(string \<times> js) list \<Rightarrow> js list \<Rightarrow> refreeze" where
  "refreeze_loop nextById [] = Narrowing"
| "refreeze_loop nextById (previous # rest) =
     (if \<not> criterion_id previous then Weakening
      else case map_of nextById (str_of (fld previous ''id'')) of
        None \<Rightarrow> Weakening
      | Some next \<Rightarrow> if criterion_weakened previous next then Weakening else refreeze_loop nextById rest)"

definition resolveRefreeze :: "js \<Rightarrow> js \<Rightarrow> refreeze" where
  "resolveRefreeze previousCriteria nextCriteria =
     (if \<not> is_array previousCriteria \<or> \<not> is_array nextCriteria then Weakening
      else if list_ex (\<lambda>c. \<not> criterion_id c) (elems nextCriteria) then Weakening
      else refreeze_loop (foldl (\<lambda>m c. obj_set m (str_of (fld c ''id'')) c) [] (elems nextCriteria))
             (elems previousCriteria))"

section \<open>Postures\<close>

record posture_rule =
  pr_posture :: string
  pr_maxBoundary :: string
  pr_requiresHumanFor :: "string list"
  pr_allowsSelfReview :: bool
  pr_adequacyGranularity :: string
  pr_budgetCeiling :: rat
  pr_evidenceExpiryToleranceMs :: int

definition POSTURE_TABLE :: "(string \<times> posture_rule) list" where
  "POSTURE_TABLE = [
     (''advisory'', \<lparr>pr_posture = ''advisory'', pr_maxBoundary = ''propose'',
        pr_requiresHumanFor = [adequacyOfIntent, releaseOfCandidate], pr_allowsSelfReview = False,
        pr_adequacyGranularity = ''per-criterion'', pr_budgetCeiling = 1/2, pr_evidenceExpiryToleranceMs = 0\<rparr>),
     (''assisted'', \<lparr>pr_posture = ''assisted'', pr_maxBoundary = ''open-pr'',
        pr_requiresHumanFor = [adequacyOfIntent, releaseOfCandidate], pr_allowsSelfReview = True,
        pr_adequacyGranularity = ''per-criterion'', pr_budgetCeiling = 1, pr_evidenceExpiryToleranceMs = 0\<rparr>),
     (''delegated'', \<lparr>pr_posture = ''delegated'', pr_maxBoundary = ''open-pr'',
        pr_requiresHumanFor = [adequacyOfIntent], pr_allowsSelfReview = True,
        pr_adequacyGranularity = ''per-contract'', pr_budgetCeiling = 3/2, pr_evidenceExpiryToleranceMs = 0\<rparr>),
     (''autonomous'', \<lparr>pr_posture = ''autonomous'', pr_maxBoundary = ''external-action'',
        pr_requiresHumanFor = [adequacyOfIntent], pr_allowsSelfReview = True,
        pr_adequacyGranularity = ''per-contract'', pr_budgetCeiling = 2, pr_evidenceExpiryToleranceMs = 0\<rparr>)]"

definition resolvePostureName :: "host \<Rightarrow> js \<Rightarrow> string res" where
  "resolvePostureName h posture =
     (if nullish posture \<or> js_eq posture (JStr []) then Inr ''assisted''
      else if \<not> one_of POSTURES posture then fail (''Unknown posture: '' @ js_string h posture)
      else Inr (str_of posture))"

record class_floor =
  cf_maxBoundary :: js
  cf_allowsSelfReview :: bool
  cf_requiresHumanApproval :: bool

definition changeClassFloor :: "host \<Rightarrow> js \<Rightarrow> js \<Rightarrow> class_floor res" where
  "changeClassFloor h changeClass config =
     (let key = js_string h changeClass;
          pathConfig = cget (fld config ''paths'') key;
          maxBoundary = cget (fld (fld config ''actionPolicy'') ''profileMaximums'') key
      in if \<not> truthy pathConfig then fail (''Unknown change class: '' @ key)
         else if \<not> truthy maxBoundary then fail (''No configured max boundary for change class: '' @ key)
         else Inr \<lparr>cf_maxBoundary = maxBoundary,
                   cf_allowsSelfReview = (\<not> js_eq (fld pathConfig ''allowsSelfReview'') (JBool False)),
                   cf_requiresHumanApproval = js_eq (fld pathConfig ''requiresHumanApproval'') (JBool True)\<rparr>)"

definition stricterBoundary :: "host \<Rightarrow> js \<Rightarrow> js \<Rightarrow> js \<Rightarrow> js res" where
  "stricterBoundary h left right config =
     bnd (actionBoundaryRank h left config) (\<lambda>leftRank.
     bnd (actionBoundaryRank h right config) (\<lambda>rightRank.
     Inr (if leftRank < 0 then right else if rightRank < 0 then left
          else if leftRank \<le> rightRank then left else right)))"

record effective =
  e_posture :: string
  e_changeClass :: js
  e_maxBoundary :: js
  e_allowsSelfReview :: bool
  e_humanGateClasses :: "string list"
  e_adequacyGranularity :: string
  e_budgetCeiling :: rat
  e_evidenceExpiryToleranceMs :: int

definition resolvePosture :: "host \<Rightarrow> js \<Rightarrow> js \<Rightarrow> js \<Rightarrow> effective res" where
  "resolvePosture h posture changeClass config =
     bnd (resolvePostureName h posture) (\<lambda>postureName.
     let rule = the (map_of POSTURE_TABLE postureName) in
     bnd (changeClassFloor h changeClass config) (\<lambda>floor.
     bnd (stricterBoundary h (JStr (pr_maxBoundary rule)) (cf_maxBoundary floor) config) (\<lambda>maxBoundary.
     let releaseRequiresHuman =
           (releaseOfCandidate \<in> set (pr_requiresHumanFor rule) \<or> cf_requiresHumanApproval floor)
     in Inr \<lparr>e_posture = postureName, e_changeClass = changeClass, e_maxBoundary = maxBoundary,
             e_allowsSelfReview = (pr_allowsSelfReview rule \<and> cf_allowsSelfReview floor),
             e_humanGateClasses = [adequacyOfIntent]
               @ (if releaseRequiresHuman then [releaseOfCandidate] else []) @ [agentEscalation],
             e_adequacyGranularity = pr_adequacyGranularity rule,
             e_budgetCeiling = pr_budgetCeiling rule,
             e_evidenceExpiryToleranceMs = pr_evidenceExpiryToleranceMs rule\<rparr>)))"

definition requiredHumanGateClasses :: "host \<Rightarrow> js \<Rightarrow> js \<Rightarrow> js \<Rightarrow> js \<Rightarrow> string list res" where
  "requiredHumanGateClasses h posture changeClass config crossings =
     bnd (resolvePosture h posture changeClass config) (\<lambda>effective.
     let classes = set (e_humanGateClasses effective)
           \<union> (if is_array crossings \<and> elems crossings \<noteq> [] then {agentEscalation} else {})
     in Inr (filter (\<lambda>gc. gc \<in> classes) GATE_CLASS_VALUES))"

definition posturesList :: "posture_rule list" where
  "posturesList = map (\<lambda>name. the (map_of POSTURE_TABLE name)) POSTURES"

section \<open>What satisfies a gate\<close>

lemma isHumanReviewer_eq:
  "isHumanReviewer h r = Inr (fld r ''independence'' = JStr ''human-gate'' \<and> fld r ''platform'' = JStr ''human'')"
proof -
  obtain p where "describeRuntimePlatform h (fld r ''platform'') (JObj []) = Inr p"
    and "js_eq (fld p ''kind'') (JStr ''human'') \<longleftrightarrow> fld r ''platform'' = JStr ''human''"
    using describe_human_iff by blast
  then show ?thesis by (simp add: isHumanReviewer_def)
qed

definition sample_digest :: string where
  "sample_digest = replicate 64 (CHR ''b'')"

definition sample_gate_args :: "js \<Rightarrow> (string \<times> js) list" where
  "sample_gate_args hints = [(''gateClass'', JStr adequacyOfIntent), (''subjectDigest'', JStr sample_digest),
     (''subjectKind'', JStr ''goalRevision''), (''requiredRole'', JStr ''requester''), (''hints'', hints)]"

definition sample_attestation :: js where
  "sample_attestation = createReviewAttestation (JStr ''goal'') (JStr sample_digest)
     (JObj [(''platform'', JStr ''human''), (''executor'', JStr ''ana''), (''independence'', JStr ''human-gate'')])
     (JStr ''agree'') (JStr ''2026-01-02T03:04:05.678Z'') JUndef"

lemma sample_digest_hex: "is_hex64 sample_digest"
  by (simp add: sample_digest_def is_hex64_def list_all_iff is_hex_def)

lemma sample_gate_ok:
  "\<exists>hs. createGate const_host (sample_gate_args (JArr xs)) = bnd (map_res seal_hint xs) (\<lambda>hs.
     Inr (sealDeliveryRecord const_host ''gate'' [(''gateClass'', JStr adequacyOfIntent),
       (''subjectDigest'', JStr sample_digest), (''subjectKind'', JStr ''goalRevision''),
       (''requiredRole'', JStr ''requester''), (''hints'', JArr hs)]))"
  using sample_digest_hex
  by (simp add: createGate_def sample_gate_args_def fld_def obj_get_def js_default_def has_own_def
      one_of_def GATE_CLASS_VALUES_def SUBJECT_KINDS_def ALLOWED_SUBJECT_KINDS_def gate_class_defs
      requireDigest_def requireText_def is_text_def js_trim_def is_space_def Let_def)

lemma createGate_sealed:
  assumes "createGate h args = Inr g"
  obtains hs where "g = sealDeliveryRecord h ''gate'' [
      (''gateClass'', fld (JObj args) ''gateClass''), (''subjectDigest'', fld (JObj args) ''subjectDigest''),
      (''subjectKind'', fld (JObj args) ''subjectKind''), (''requiredRole'', fld (JObj args) ''requiredRole''),
      (''hints'', JArr hs)]"
    and "digest_test h (fld (JObj args) ''subjectDigest'')"
    and "one_of GATE_CLASS_VALUES (fld (JObj args) ''gateClass'')"
    and "one_of (ALLOWED_SUBJECT_KINDS (str_of (fld (JObj args) ''gateClass''))) (fld (JObj args) ''subjectKind'')"
    and "one_of SUBJECT_KINDS (fld (JObj args) ''subjectKind'')"
    and "\<not> has_own args ''phase''" and "\<not> has_own args ''phaseNumber''"
  using assms by (auto simp: createGate_def Let_def split: if_splits)

lemma satisfy_tests: "satisfyGate h gate att = Inr [] \<longleftrightarrow>
     gate_shape gate \<and> hasCurrentDigest h gate
     \<and> validateReviewAttestation h att (fld gate ''subjectDigest'') = [] \<and> fld att ''decision'' = JStr ''agree''
     \<and> fld (fld att ''reviewer'') ''independence'' = JStr ''human-gate'' \<and> fld (fld att ''reviewer'') ''platform'' = JStr ''human''"
  by (auto simp: satisfyGate_def isHumanReviewer_eq Let_def)

lemma digest_test_truthy: "digest_test h v \<Longrightarrow> truthy v"
proof -
  have "length (num_str h NaN) \<noteq> 64" "length (num_str h (Fin 0)) \<noteq> 64"
    by (simp_all add: num_str_def rat_int_def int_str_def nat_str.simps)
  then show "digest_test h v \<Longrightarrow> truthy v"
    by (cases v) (auto simp: digest_test_def coal_def is_hex64_def split: if_splits)
qed

lemma altered_refused:
  assumes "satisfyGate h (JObj g') att = Inr []" and "hasCurrentDigest h (JObj g)" and "plain (JObj g)" and "plain (JObj g')"
    and "fld (JObj g') ''digest'' = fld (JObj g) ''digest''" and "k \<noteq> ''digest''"
    and no_collision: "sha256 h (stable_text h (JObj (digest_payload (JObj g)))) = sha256 h (stable_text h (JObj (digest_payload (JObj g'))))
      \<longrightarrow> stable_text h (JObj (digest_payload (JObj g))) = stable_text h (JObj (digest_payload (JObj g')))"
  shows "canon (fld (JObj g') k) = canon (fld (JObj g) k)"
proof -
  have "hasCurrentDigest h (JObj g')" using assms(1) by (simp add: satisfy_tests)
  then have "recordDigest h (JObj g) = recordDigest h (JObj g')"
    using hasCurrentDigest_fld assms(2,5) by fastforce
  with no_collision have "stable_text h (JObj (digest_payload (JObj g))) = stable_text h (JObj (digest_payload (JObj g')))"
    by (simp add: recordDigest_def)
  then have "canon (JObj (digest_payload (JObj g))) = canon (JObj (digest_payload (JObj g')))"
    by (simp only: stable_text_canon [OF plain_payload [OF assms(3)] plain_payload [OF assms(4)]])
  from canon_payload_fld [OF this plain_payload [OF assms(3)] plain_payload [OF assms(4)] assms(6)] show ?thesis by simp
qed

text \<open>
  C25. What opens a created gate. A gate that \<open>createGate\<close> returned is opened by exactly the
  attestations in which a human, as the human gate on the registered human platform and with a named
  executor, reviewed the digest the gate was created for and agreed, with a subject, findings and the
  instant of the review; whatever the gate's class, role and hints. And no record that carries the
  gate's digest with any other content is opened by anything (records of JSON values whose texts do
  not collide under the hash).
\<close>

theorem gate_opening:
  assumes "createGate h args = Inr g" and "\<And>s. is_hex64 (sha256 h s)"
  shows "(satisfyGate h (JObj g) att = Inr [] \<longleftrightarrow>
      js_eq (fld att ''reviewedDigest'') (fld (JObj args) ''subjectDigest'') \<and> fld att ''decision'' = JStr ''agree''
      \<and> fld (fld att ''reviewer'') ''independence'' = JStr ''human-gate'' \<and> fld (fld att ''reviewer'') ''platform'' = JStr ''human''
      \<and> truthy (fld (fld att ''reviewer'') ''executor'')
      \<and> fld att ''version'' = JNat 1 \<and> truthy (fld att ''subject'') \<and> (\<exists>xs. fld att ''findings'' = JArr xs)
      \<and> (\<exists>t ms. fld att ''timestamp'' = JStr t \<and> date_parse h (JStr t) = Fin ms))
    \<and> (\<forall>g' k att'. plain (JObj g) \<and> plain (JObj g') \<and> fld (JObj g') ''digest'' = fld (JObj g) ''digest'' \<and> k \<noteq> ''digest''
        \<and> canon (fld (JObj g') k) \<noteq> canon (fld (JObj g) k)
        \<and> (sha256 h (stable_text h (JObj (digest_payload (JObj g)))) = sha256 h (stable_text h (JObj (digest_payload (JObj g'))))
            \<longrightarrow> stable_text h (JObj (digest_payload (JObj g))) = stable_text h (JObj (digest_payload (JObj g'))))
        \<longrightarrow> satisfyGate h (JObj g') att' \<noteq> Inr [])"
proof -
  obtain hs where g: "g = sealDeliveryRecord h ''gate'' [
      (''gateClass'', fld (JObj args) ''gateClass''), (''subjectDigest'', fld (JObj args) ''subjectDigest''),
      (''subjectKind'', fld (JObj args) ''subjectKind''), (''requiredRole'', fld (JObj args) ''requiredRole''),
      (''hints'', JArr hs)]"
    and d: "digest_test h (fld (JObj args) ''subjectDigest'')" and k: "one_of SUBJECT_KINDS (fld (JObj args) ''subjectKind'')"
    using assms(1) by (rule createGate_sealed)
  have f: "fld (JObj g) ''subjectDigest'' = fld (JObj args) ''subjectDigest''" "fld (JObj g) ''subjectKind'' = fld (JObj args) ''subjectKind''"
    unfolding g by (simp_all add: fld_seal_other) (simp_all add: fld_def obj_get_def)
  have shape: "gate_shape (JObj g)" using f(2) k by (simp add: gate_shape_def g fld_seal)
  have cur: "hasCurrentDigest h (JObj g)" unfolding g by (rule hasCurrentDigest_seal) (rule assms(2))
  have stamp: "(is_string v \<and> is_finite (date_parse h v)) = (\<exists>t ms. v = JStr t \<and> date_parse h (JStr t) = Fin ms)" for v
    by (cases v; cases "date_parse h v") auto
  have arr: "is_array v = (\<exists>xs. v = JArr xs)" for v by (cases v) auto
  have same: "js_eq (fld att ''reviewedDigest'') (fld (JObj args) ''subjectDigest'') \<Longrightarrow> digest_test h (fld att ''reviewedDigest'')"
    using d by (auto dest: js_eq_imp_eq)
  have one: "js_eq v (JNat 1) = (v = JNat 1)" for v by (auto dest: js_eq_imp_eq)
  have "satisfyGate h (JObj g) att = Inr [] \<longleftrightarrow>
      js_eq (fld att ''reviewedDigest'') (fld (JObj args) ''subjectDigest'') \<and> fld att ''decision'' = JStr ''agree''
      \<and> fld (fld att ''reviewer'') ''independence'' = JStr ''human-gate'' \<and> fld (fld att ''reviewer'') ''platform'' = JStr ''human''
      \<and> truthy (fld (fld att ''reviewer'') ''executor'')
      \<and> fld att ''version'' = JNat 1 \<and> truthy (fld att ''subject'') \<and> (\<exists>xs. fld att ''findings'' = JArr xs)
      \<and> (\<exists>t ms. fld att ''timestamp'' = JStr t \<and> date_parse h (JStr t) = Fin ms)"
    unfolding satisfy_tests validateReviewAttestation_def f(1) stamp [symmetric] arr [symmetric] one [symmetric]
    using shape cur digest_test_truthy [OF d] same by (auto simp: one_of_def)
  then show ?thesis using altered_refused [OF _ cur] by blast
qed

theorem gate_opening_witness:
  "\<exists>g. createGate const_host (sample_gate_args (JArr [])) = Inr g
    \<and> satisfyGate const_host (JObj g) sample_attestation = Inr []"
proof -
  let ?g = "sealDeliveryRecord const_host ''gate'' [(''gateClass'', JStr adequacyOfIntent),
       (''subjectDigest'', JStr sample_digest), (''subjectKind'', JStr ''goalRevision''),
       (''requiredRole'', JStr ''requester''), (''hints'', JArr [])]"
  have c: "createGate const_host (sample_gate_args (JArr [])) = Inr ?g"
    using sample_gate_ok [of "[]"] by simp
  have iso: "iso_ms ''2026-01-02T03:04:05.678Z'' = Some 1767323045678" by code_simp
  from gate_opening [OF c const_host_hex, THEN conjunct1]
  have "satisfyGate const_host (JObj ?g) sample_attestation = Inr []"
    using iso by (simp add: sample_attestation_def createReviewAttestation_def sample_gate_args_def fld_def obj_get_def js_default_def
        date_parse_def)
  with c show ?thesis by blast
qed

text \<open>
  Hints are advisory. Two gates created from arguments that agree on everything but the hints
  are opened by the same attestations.
\<close>

theorem hints_never_decide:
  assumes "\<And>s. is_hex64 (sha256 h s)"
    and "createGate h args = Inr g" and "createGate h args' = Inr g'"
    and "\<And>k. k \<noteq> ''hints'' \<Longrightarrow> fld (JObj args) k = fld (JObj args') k"
  shows "satisfyGate h (JObj g) att = satisfyGate h (JObj g') att"
proof -
  obtain hs where g: "g = sealDeliveryRecord h ''gate'' [
      (''gateClass'', fld (JObj args) ''gateClass''), (''subjectDigest'', fld (JObj args) ''subjectDigest''),
      (''subjectKind'', fld (JObj args) ''subjectKind''), (''requiredRole'', fld (JObj args) ''requiredRole''),
      (''hints'', JArr hs)]"
    using assms(2) by (rule createGate_sealed)
  obtain hs' where g': "g' = sealDeliveryRecord h ''gate'' [
      (''gateClass'', fld (JObj args') ''gateClass''), (''subjectDigest'', fld (JObj args') ''subjectDigest''),
      (''subjectKind'', fld (JObj args') ''subjectKind''), (''requiredRole'', fld (JObj args') ''requiredRole''),
      (''hints'', JArr hs')]"
    using assms(3) by (rule createGate_sealed)
  have same: "fld (JObj g) ''subjectKind'' = fld (JObj g') ''subjectKind''"
    "fld (JObj g) ''subjectDigest'' = fld (JObj g') ''subjectDigest''"
    unfolding g g' using assms(4) by (simp_all add: fld_seal_other) (simp_all add: fld_def obj_get_def)
  have "gate_shape (JObj g) = gate_shape (JObj g')"
    using same by (simp add: gate_shape_def g g' fld_seal)
  moreover have "hasCurrentDigest h (JObj g)" "hasCurrentDigest h (JObj g')"
    using assms(1) by (simp_all add: g g' hasCurrentDigest_seal)
  ultimately show ?thesis using same by (simp add: satisfyGate_def)
qed

theorem hints_never_decide_witness:
  "\<exists>g g'. createGate const_host (sample_gate_args (JArr [])) = Inr g
    \<and> createGate const_host (sample_gate_args (JArr [JObj [(''id'', JStr ''risk''),
        (''interpretation'', JStr ''low''), (''value'', JNat 3)]])) = Inr g'
    \<and> satisfyGate const_host (JObj g) JNull = satisfyGate const_host (JObj g') JNull"
proof -
  let ?h = "[JObj [(''id'', JStr ''risk''), (''interpretation'', JStr ''low''), (''value'', JNat 3)]]"
  obtain g where g: "createGate const_host (sample_gate_args (JArr [])) = Inr g"
    using sample_gate_ok [of "[]"] by auto
  have "map_res seal_hint ?h = Inr [JObj [(''id'', JStr ''risk''), (''value'', JNat 3), (''interpretation'', JStr ''low'')]]"
    by (simp add: seal_hint_def fld_def obj_get_def requireText_def is_text_def js_trim_def is_space_def
        has_own_def own_props_def coal_def)
  then obtain g' where g': "createGate const_host (sample_gate_args (JArr ?h)) = Inr g'"
    using sample_gate_ok [of ?h] by auto
  have "satisfyGate const_host (JObj g) JNull = satisfyGate const_host (JObj g') JNull"
    by (rule hints_never_decide [OF const_host_hex g g'])
      (simp add: sample_gate_args_def fld_def obj_get_def)
  with g g' show ?thesis by blast
qed

section \<open>Crossings\<close>

text \<open>
  The derived crossings never fail to be computed, and an authority escalation is among them
  exactly when the effective boundary is \<open>external-action\<close> or both boundaries are given and
  the requested one does not rank at least as high as the effective one. No profile or posture
  takes part.
\<close>

theorem authority_escalation_iff:
  "\<exists>cs. deriveCrossings h eff req budget obs ind = Inr cs \<and>
     ((\<exists>c\<in>set cs. fld c ''kind'' = JStr ''authority-escalation'') \<longleftrightarrow>
        eff = JStr ''external-action'' \<or>
        (truthy eff \<and> truthy req \<and>
          \<not> (0 \<le> boundary_rank eff \<and> 0 \<le> boundary_rank req \<and> boundary_rank eff \<le> boundary_rank req)))"
proof -
  have kind: "fld (crossing k r) ''kind'' = JStr k" for k r
    by (simp add: crossing_def fld_def obj_get_def)
  have one: "(\<exists>c\<in>set (if b then [crossing k r] else []). fld c ''kind'' = v) \<longleftrightarrow> b \<and> v = JStr k" for b k r v
    by (auto simp: kind)
  let ?W = "eff = JStr ''external-action'' \<or> (truthy eff \<and> truthy req \<and>
    \<not> (0 \<le> boundary_rank eff \<and> 0 \<le> boundary_rank req \<and> boundary_rank eff \<le> boundary_rank req))"
  have widens: "(if js_eq eff (JStr ''external-action'') then Inr True
      else if truthy eff \<and> truthy req
      then bnd (actionBoundaryAllows h req eff (JObj [])) (\<lambda>b. Inr (\<not> b)) else Inr False) = Inr ?W"
    by (auto simp: actionBoundaryAllows_default)
  show ?thesis
    unfolding deriveCrossings_def widens bnd_simps set_append bex_Un
    by (rule exI, rule conjI, rule refl) (simp only: set_append bex_Un one, simp)
qed

theorem authority_escalation_iff_witness:
  "\<exists>cs. deriveCrossings const_host (JStr ''open-pr'') (JStr ''propose'') JNull JNull JNull = Inr cs \<and>
     (\<exists>c\<in>set cs. fld c ''kind'' = JStr ''authority-escalation'')"
  using authority_escalation_iff [of const_host "JStr ''open-pr''" "JStr ''propose''" JNull JNull JNull]
  by (auto simp: boundary_rank_values)

section \<open>Refreezing a contract\<close>

lemma foldl_obj_set_from:
  "map_of (foldl (\<lambda>m c. obj_set m (f c) c) m0 cs) k = Some x \<Longrightarrow>
     map_of m0 k = Some x \<or> (x \<in> set cs \<and> f x = k)"
proof (induction cs arbitrary: m0)
  case Nil
  then show ?case by simp
next
  case (Cons c cs)
  then show ?case by (fastforce split: if_splits)
qed

lemma foldl_obj_set_dom:
  "c \<in> set cs \<Longrightarrow> \<exists>x. map_of (foldl (\<lambda>m c. obj_set m (f c) c) m0 cs) (f c) = Some x"
proof -
  have keep: "map_of m k \<noteq> None \<Longrightarrow> map_of (foldl (\<lambda>m c. obj_set m (f c) c) m ds) k \<noteq> None" for m k ds
    by (induction ds arbitrary: m) auto
  show "c \<in> set cs \<Longrightarrow> ?thesis"
  proof (induction cs arbitrary: m0)
    case (Cons d ds)
    then show ?case using keep [of "obj_set m0 (f c) c" "f c" ds] by auto
  qed simp
qed

definition by_id :: "js list \<Rightarrow> (string \<times> js) list" where
  "by_id cs = foldl (\<lambda>m c. obj_set m (str_of (fld c ''id'')) c) [] cs"

lemma refreeze_loop_Narrowing:
  "refreeze_loop m ps = Narrowing \<longleftrightarrow> (\<forall>p\<in>set ps. criterion_id p \<and>
     (\<exists>n. map_of m (str_of (fld p ''id'')) = Some n \<and> \<not> criterion_weakened p n))"
  by (induction ps) (auto split: option.splits)

lemma resolveRefreeze_Narrowing:
  "resolveRefreeze (JArr ps) (JArr ns) = Narrowing \<longleftrightarrow>
     (\<forall>c\<in>set ns. criterion_id c) \<and> (\<forall>p\<in>set ps. criterion_id p \<and>
       (\<exists>n. map_of (by_id ns) (str_of (fld p ''id'')) = Some n \<and> \<not> criterion_weakened p n))"
  by (auto simp: resolveRefreeze_def refreeze_loop_Narrowing by_id_def list_ex_iff)

lemma js_includes_trans_subset:
  assumes "list_all (\<lambda>a. js_includes ys a) xs" and "list_all (\<lambda>a. js_includes zs a) ys"
  shows "list_all (\<lambda>a. js_includes zs a) xs"
  using assms js_includes_in_set by (fastforce simp: list_all_iff)

lemma num_less_trans_not: "\<not> num_less (Fin a) (Fin b) \<Longrightarrow> \<not> num_less (Fin b) (Fin c) \<Longrightarrow> \<not> num_less (Fin a) (Fin c)"
  by auto

definition kept_assertions :: "js \<Rightarrow> js \<Rightarrow> bool" where
  "kept_assertions p n = list_all (\<lambda>a. js_includes (elems (fld n ''assertions'')) a) (elems (fld p ''assertions''))"

definition kept_age :: "js \<Rightarrow> js \<Rightarrow> bool" where
  "kept_age p n = (js_finite (fld p ''maxAgeMs'') \<longrightarrow>
     js_finite (fld n ''maxAgeMs'') \<and> \<not> num_less (num_of (fld p ''maxAgeMs'')) (num_of (fld n ''maxAgeMs'')))"

definition kept_origins :: "js \<Rightarrow> js \<Rightarrow> bool" where
  "kept_origins p n = (case (array_opt (fld p ''allowedOrigins''), array_opt (fld n ''allowedOrigins'')) of
     (None, None) \<Rightarrow> True | (Some po, Some no) \<Rightarrow> list_all (\<lambda>o'. js_includes po o') no | _ \<Rightarrow> False)"

lemma criterion_weakened_alt:
  "\<not> criterion_weakened p n \<longleftrightarrow> js_eq (fld p ''definitionDigest'') (fld n ''definitionDigest'')
     \<and> kept_assertions p n
     \<and> (js_eq (fld p ''requireImmutable'') (JBool True) \<longrightarrow> js_eq (fld n ''requireImmutable'') (JBool True))
     \<and> kept_age p n \<and> kept_origins p n"
  by (auto simp: criterion_weakened_def kept_assertions_def kept_age_def kept_origins_def list_ex_iff list_all_iff
      split: option.splits)

lemma js_eq_trans: "js_eq a b \<Longrightarrow> js_eq b c \<Longrightarrow> js_eq a c"
  by (auto dest: js_eq_imp_eq)

lemma kept_trans:
  "kept_assertions a b \<Longrightarrow> kept_assertions b c \<Longrightarrow> kept_assertions a c"
  "kept_age a b \<Longrightarrow> kept_age b c \<Longrightarrow> kept_age a c"
  "kept_origins a b \<Longrightarrow> kept_origins b c \<Longrightarrow> kept_origins a c"
proof -
  show "kept_assertions a b \<Longrightarrow> kept_assertions b c \<Longrightarrow> kept_assertions a c"
    unfolding kept_assertions_def by (rule js_includes_trans_subset)
  have fin: "js_finite v \<longleftrightarrow> (\<exists>r. v = JNum (Fin r))" for v
    by (cases v) (auto simp: js_finite_def elim: is_finite.elims)
  show "kept_age a b \<Longrightarrow> kept_age b c \<Longrightarrow> kept_age a c"
    unfolding kept_age_def fin using num_less_trans_not by fastforce
  show "kept_origins a b \<Longrightarrow> kept_origins b c \<Longrightarrow> kept_origins a c"
    by (auto simp: kept_origins_def split: option.splits intro: js_includes_trans_subset)
qed

lemma not_weakened_trans: "\<not> criterion_weakened a b \<Longrightarrow> \<not> criterion_weakened b c \<Longrightarrow> \<not> criterion_weakened a c"
  unfolding criterion_weakened_alt by (blast intro: js_eq_trans kept_trans)

text \<open>
  A refreeze is reported as narrowing only when every criterion of the previous contract is
  still there under its id, with the same definition digest, all of its assertions, immutability
  if it was required, an age bound that is no longer, and no new evidence origin.
\<close>

theorem narrowing_keeps_criteria:
  assumes "resolveRefreeze (JArr ps) (JArr ns) = Narrowing" and "p \<in> set ps"
  shows "\<exists>n\<in>set ns. str_of (fld n ''id'') = str_of (fld p ''id'')
    \<and> js_eq (fld p ''definitionDigest'') (fld n ''definitionDigest'')
    \<and> (\<forall>a\<in>set (elems (fld p ''assertions'')). a \<in> set (elems (fld n ''assertions'')))
    \<and> (fld p ''requireImmutable'' = JBool True \<longrightarrow> fld n ''requireImmutable'' = JBool True)
    \<and> kept_age p n \<and> kept_origins p n"
proof -
  from assms obtain n where n: "map_of (by_id ns) (str_of (fld p ''id'')) = Some n" "\<not> criterion_weakened p n"
    by (auto simp: resolveRefreeze_Narrowing)
  from n(1) have "n \<in> set ns \<and> str_of (fld n ''id'') = str_of (fld p ''id'')"
    unfolding by_id_def by (auto dest!: foldl_obj_set_from)
  with n(2) show ?thesis
    by (auto simp: criterion_weakened_alt kept_assertions_def list_all_iff dest: js_includes_in_set intro!: bexI [of _ n])
qed

definition sample_criterion :: "nat \<Rightarrow> js" where
  "sample_criterion age = JObj [(''id'', JStr ''ac-1''), (''definitionDigest'', JStr sample_digest),
     (''assertions'', JArr [JStr ''unit'']), (''maxAgeMs'', JNat age)]"

lemma sample_narrowing:
  "resolveRefreeze (JArr [sample_criterion 5]) (JArr [sample_criterion 4]) = Narrowing"
  by (simp add: resolveRefreeze_def sample_criterion_def criterion_id_def criterion_weakened_def fld_def
      obj_get_def proto_names_def array_opt_def js_finite_def js_includes_def)

theorem narrowing_keeps_criteria_witness:
  "\<exists>n\<in>set [sample_criterion 4]. kept_age (sample_criterion 5) n"
  using narrowing_keeps_criteria [OF sample_narrowing, of "sample_criterion 5"] by auto

text \<open>
  Narrowing is transitive: a sequence of refreezes that were each accepted as narrowing cannot
  amount to a weakening of the first contract.
\<close>

theorem narrowing_transitive:
  assumes "resolveRefreeze (JArr as) (JArr bs) = Narrowing" and "resolveRefreeze (JArr bs) (JArr cs) = Narrowing"
  shows "resolveRefreeze (JArr as) (JArr cs) = Narrowing"
  unfolding resolveRefreeze_Narrowing
proof (intro conjI ballI)
  fix c assume "c \<in> set cs"
  with assms(2) show "criterion_id c" by (auto simp: resolveRefreeze_Narrowing)
next
  fix a assume a: "a \<in> set as"
  from assms(1) a show "criterion_id a" by (auto simp: resolveRefreeze_Narrowing)
  from assms(1) a obtain b where b: "map_of (by_id bs) (str_of (fld a ''id'')) = Some b" "\<not> criterion_weakened a b"
    by (auto simp: resolveRefreeze_Narrowing)
  then have "b \<in> set bs \<and> str_of (fld b ''id'') = str_of (fld a ''id'')"
    unfolding by_id_def by (auto dest!: foldl_obj_set_from)
  with assms(2) obtain c where "map_of (by_id cs) (str_of (fld a ''id'')) = Some c" "\<not> criterion_weakened b c"
    by (fastforce simp: resolveRefreeze_Narrowing)
  with b show "\<exists>c. map_of (by_id cs) (str_of (fld a ''id'')) = Some c \<and> \<not> criterion_weakened a c"
    using not_weakened_trans by blast
qed

theorem narrowing_transitive_witness:
  "resolveRefreeze (JArr [sample_criterion 5]) (JArr [sample_criterion 4]) = Narrowing"
  by (rule narrowing_transitive [OF _ sample_narrowing])
    (simp add: resolveRefreeze_def sample_criterion_def criterion_id_def criterion_weakened_def fld_def
      obj_get_def proto_names_def array_opt_def js_finite_def js_includes_def)

section \<open>Postures\<close>

lemma resolvePosture_InrD:
  assumes "resolvePosture h posture changeClass config = Inr e"
  obtains name fl where "resolvePostureName h posture = Inr name" "changeClassFloor h changeClass config = Inr fl"
    "stricterBoundary h (JStr (pr_maxBoundary (the (map_of POSTURE_TABLE name)))) (cf_maxBoundary fl) config
       = Inr (e_maxBoundary e)"
    "e_allowsSelfReview e = (pr_allowsSelfReview (the (map_of POSTURE_TABLE name)) \<and> cf_allowsSelfReview fl)"
    "e_humanGateClasses e = [adequacyOfIntent]
       @ (if releaseOfCandidate \<in> set (pr_requiresHumanFor (the (map_of POSTURE_TABLE name))) \<or> cf_requiresHumanApproval fl
          then [releaseOfCandidate] else []) @ [agentEscalation]"
  using assms by (auto simp: resolvePosture_def Let_def)

lemma stricterBoundary_rank:
  assumes "stricterBoundary h l r config = Inr b"
    and "actionBoundaryRank h l config = Inr lr" and "actionBoundaryRank h r config = Inr rr"
  shows "actionBoundaryRank h b config = Inr (if lr < 0 then rr else if rr < 0 then lr else min lr rr)"
  using assms by (auto simp: stricterBoundary_def split: if_splits)

text \<open>
  The effective gating is the stricter of the posture and the change class: its boundary ranks
  as the lower of the two, self-review is allowed only when both allow it, intent freeze and
  agent escalation always need a human, and a release does whenever either source says so.
\<close>

theorem effective_gating_stricter:
  assumes "resolvePosture h posture changeClass config = Inr e"
    and "resolvePostureName h posture = Inr name" and "changeClassFloor h changeClass config = Inr fl"
    and "actionBoundaryRank h (JStr (pr_maxBoundary (the (map_of POSTURE_TABLE name)))) config = Inr lr" and "0 \<le> lr"
    and "actionBoundaryRank h (cf_maxBoundary fl) config = Inr rr" and "0 \<le> rr"
  shows "actionBoundaryRank h (e_maxBoundary e) config = Inr (min lr rr)
    \<and> (e_allowsSelfReview e \<longrightarrow> cf_allowsSelfReview fl \<and> name \<noteq> ''advisory'')
    \<and> {adequacyOfIntent, agentEscalation} \<subseteq> set (e_humanGateClasses e)
    \<and> (cf_requiresHumanApproval fl \<or> name \<in> {''advisory'', ''assisted''}
         \<longrightarrow> releaseOfCandidate \<in> set (e_humanGateClasses e))"
proof -
  from assms(1) obtain bd where b: "stricterBoundary h (JStr (pr_maxBoundary (the (map_of POSTURE_TABLE name)))) (cf_maxBoundary fl) config
       = Inr (e_maxBoundary e)"
    and s: "e_allowsSelfReview e = (pr_allowsSelfReview (the (map_of POSTURE_TABLE name)) \<and> cf_allowsSelfReview fl)"
    and g: "e_humanGateClasses e = [adequacyOfIntent]
       @ (if releaseOfCandidate \<in> set (pr_requiresHumanFor (the (map_of POSTURE_TABLE name))) \<or> cf_requiresHumanApproval fl
          then [releaseOfCandidate] else []) @ [agentEscalation]"
    by (rule resolvePosture_InrD) (use assms(2,3) in auto)
  have "\<not> pr_allowsSelfReview (the (map_of POSTURE_TABLE ''advisory''))" by (simp add: POSTURE_TABLE_def)
  moreover have "name \<in> {''advisory'', ''assisted''} \<Longrightarrow> releaseOfCandidate \<in> set (pr_requiresHumanFor (the (map_of POSTURE_TABLE name)))"
    by (auto simp: POSTURE_TABLE_def gate_class_defs)
  ultimately show ?thesis
    using stricterBoundary_rank [OF b assms(4,6)] assms(5,7) s g by auto
qed

definition sample_config :: js where
  "sample_config = JObj [
     (''paths'', JObj [(''bounded'', JObj [(''requiresHumanApproval'', JBool False)]),
        (''high-assurance'', JObj [(''requiresHumanApproval'', JBool True), (''allowsSelfReview'', JBool False)])]),
     (''actionPolicy'', JObj [(''profileMaximums'',
        JObj [(''bounded'', JStr ''open-pr''), (''high-assurance'', JStr ''external-action'')])])]"

lemma sample_config_rank: "actionBoundaryRank h b sample_config = Inr (boundary_rank b)"
  by (simp add: actionBoundaryRank_def sdlcVocabulary_def sample_config_def fld_def obj_get_def proto_names_def
      coal_def CORE_ROLES_def core_role_def own_props_def Let_def js_indexOf_def boundary_rank_def)

lemma sample_floor:
  "changeClassFloor h (JStr ''high-assurance'') sample_config
     = Inr \<lparr>cf_maxBoundary = JStr ''external-action'', cf_allowsSelfReview = False, cf_requiresHumanApproval = True\<rparr>"
  by (simp add: changeClassFloor_def sample_config_def fld_def obj_get_def proto_names_def cget_def own_props_def Let_def)

theorem effective_gating_stricter_witness:
  "\<exists>e. resolvePosture const_host (JStr ''delegated'') (JStr ''high-assurance'') sample_config = Inr e
     \<and> actionBoundaryRank const_host (e_maxBoundary e) sample_config = Inr 3
     \<and> releaseOfCandidate \<in> set (e_humanGateClasses e)"
proof -
  have n: "resolvePostureName const_host (JStr ''delegated'') = Inr ''delegated''"
    by (simp add: resolvePostureName_def one_of_def POSTURES_def)
  have r: "pr_maxBoundary (the (map_of POSTURE_TABLE ''delegated'')) = ''open-pr''"
    by (simp add: POSTURE_TABLE_def)
  obtain e where e: "resolvePosture const_host (JStr ''delegated'') (JStr ''high-assurance'') sample_config = Inr e"
    by (simp add: resolvePosture_def n sample_floor stricterBoundary_def sample_config_rank Let_def)
  show ?thesis
    using effective_gating_stricter [OF e n sample_floor, of 3 4] e
    by (auto simp: sample_config_rank boundary_rank_values r)
qed

text \<open>
  Derived crossings never remove or replace a gate class the posture demands: the required
  human gate classes are the effective posture's own list, whatever crossings are passed.
\<close>

theorem required_gate_classes_eq:
  "requiredHumanGateClasses h posture changeClass config crossings =
     bnd (resolvePosture h posture changeClass config) (\<lambda>e. Inr (e_humanGateClasses e))"
proof (cases "resolvePosture h posture changeClass config")
  case (Inl err)
  then show ?thesis by (simp add: requiredHumanGateClasses_def)
next
  case (Inr e)
  have "filter (\<lambda>gc. gc \<in> set (e_humanGateClasses e) \<union>
      (if is_array crossings \<and> elems crossings \<noteq> [] then {agentEscalation} else {})) GATE_CLASS_VALUES
      = e_humanGateClasses e"
    using Inr by (rule resolvePosture_InrD) (auto simp: GATE_CLASS_VALUES_def gate_class_defs)
  with Inr show ?thesis by (simp add: requiredHumanGateClasses_def Let_def)
qed

text \<open>
  The guard on unknown change classes is not total: a change class that names a member every
  object inherits, such as \<open>constructor\<close>, passes it for every configuration whose paths and
  profile maximums are objects without that key, and gets a floor that neither forbids
  self-review nor asks for human approval.
\<close>

theorem inherited_change_class_accepted:
  assumes "fld config ''paths'' = JObj ps" and "fld (fld config ''actionPolicy'') ''profileMaximums'' = JObj ms"
    and "map_of ps ''constructor'' = None" and "map_of ms ''constructor'' = None"
  shows "changeClassFloor h (JStr ''constructor'') config
    = Inr \<lparr>cf_maxBoundary = JBuiltin ''constructor'', cf_allowsSelfReview = True, cf_requiresHumanApproval = False\<rparr>"
  using assms
  by (simp add: changeClassFloor_def cget_def own_props_def obj_get_def proto_names_def fld_def Let_def)

theorem inherited_change_class_accepted_witness:
  "changeClassFloor const_host (JStr ''constructor'') sample_config
    = Inr \<lparr>cf_maxBoundary = JBuiltin ''constructor'', cf_allowsSelfReview = True, cf_requiresHumanApproval = False\<rparr>"
  by (rule inherited_change_class_accepted) (simp_all add: sample_config_def fld_def obj_get_def, simp_all)

end
