(* ===== verification/Altitude.thy ===== *)
theory Altitude
  imports Gate
begin

text \<open>
  Work altitudes (src/lib/core/work-altitude.mjs): goals, capabilities and specs, the sections
  their written records need, and the rules that decide whether a record may open under its
  parent. Consent is only ever a sealed gate a human satisfied, bound to the digest of what the
  person agreed to.
\<close>

section \<open>Kinds and sections\<close>

definition WORK_KINDS :: "string list" where
  "WORK_KINDS = [''goal'', ''capability'', ''spec'']"

definition KIND_SECTIONS :: "string \<Rightarrow> string list" where
  "KIND_SECTIONS kind =
     (if kind = ''goal'' then [''Job'', ''Outcome'', ''Release intent'', ''Split judgment'']
      else if kind = ''capability'' then [''Part'', ''Depends on'', ''Acceptance boundary'', ''Excludes'']
      else if kind = ''spec'' then [''Implementation unit'', ''Acceptance'']
      else [])"

text \<open>\<open>/^## Implementation\b/m\<close>: at the start of a line, not followed by a word character.\<close>

definition line_break :: "char \<Rightarrow> bool" where
  "line_break c = (c = CHR 0x0A \<or> c = CHR 0x0D)"

definition implementation_head :: "string \<Rightarrow> bool" where
  "implementation_head s = (starts_with s ''## Implementation'' \<and>
     (case drop (length ''## Implementation'') s of [] \<Rightarrow> True | c # _ \<Rightarrow> \<not> (is_alnum c \<or> c = CHR ''_'')))"

fun implementation_line :: "bool \<Rightarrow> string \<Rightarrow> bool" where
  "implementation_line at_start [] = False"
| "implementation_line at_start (c # s) =
     ((at_start \<and> implementation_head (c # s)) \<or> implementation_line (line_break c) s)"

text \<open>
  The kind is a string or absent. \<open>KIND_SECTIONS[kind]\<close> on an inherited member name is not
  iterable.
\<close>

definition kindBodyErrors :: "host \<Rightarrow> string option \<Rightarrow> js \<Rightarrow> string list res" where
  "kindBodyErrors h kind body0 =
     (let body = js_string h (js_default body0 (JStr [])) in
      case kind of
        None \<Rightarrow> Inr []
      | Some k \<Rightarrow>
          if k = [] \<or> \<not> str_includes body ''**Kind:**'' then Inr []
          else if k \<in> set proto_names then Inl (TypeError ''KIND_SECTIONS[kind] is not iterable'')
          else Inr (map (\<lambda>section. ''missing ## '' @ section)
                 (filter (\<lambda>section. \<not> str_includes body (''## '' @ section)) (KIND_SECTIONS k))
               @ (if k = ''goal'' \<and> implementation_line True body then [''a goal states no implementation''] else [])))"

definition LEGACY_KIND :: string where
  "LEGACY_KIND = ''legacy''"

definition PARENT_KIND :: "string \<Rightarrow> string option" where
  "PARENT_KIND kind = (if kind = ''capability'' then Some ''goal'' else if kind = ''spec'' then Some ''capability'' else None)"

definition workKind :: "host \<Rightarrow> js \<Rightarrow> string res" where
  "workKind h record =
     (let kind = fld record ''kind'' in
      if nullish kind then Inr LEGACY_KIND
      else if \<not> one_of WORK_KINDS kind
      then fail (''Unknown work kind: '' @ js_string h kind @ ''. Expected one of: '' @ js_join '', '' WORK_KINDS)
      else Inr (str_of kind))"

definition requiresPersonReview :: "host \<Rightarrow> js \<Rightarrow> bool res" where
  "requiresPersonReview h record =
     bnd (workKind h record) (\<lambda>kind.
     Inr (kind = ''capability'' \<and> js_eq (fld record ''changeClass'') (JStr ''high-assurance'')))"

definition admissionDigest :: "host \<Rightarrow> js \<Rightarrow> js \<Rightarrow> string" where
  "admissionDigest h goalRev changeClass =
     recordDigest h (JObj [(''goalRevision'', goalRev), (''changeClass'', js_default changeClass JNull)])"

section \<open>Consent\<close>

definition consentErrors :: "host \<Rightarrow> js \<Rightarrow> js \<Rightarrow> string list res" where
  "consentErrors h consent subjectDigest =
     (let gate = fld consent ''gate'' in
      if \<not> truthy gate then Inr [''no sealed gate was given'']
      else if \<not> js_eq (fld gate ''gateClass'') (JStr adequacyOfIntent)
      then Inr [''the gate is '' @ js_string h (fld gate ''gateClass'') @ '', not '' @ adequacyOfIntent]
      else if \<not> js_eq (fld gate ''subjectDigest'') subjectDigest
      then Inr [''the gate is bound to a different subject'']
      else satisfyGate h gate (fld consent ''attestation''))"

definition requireConsent :: "host \<Rightarrow> js \<Rightarrow> js \<Rightarrow> string \<Rightarrow> unit res" where
  "requireConsent h consent subjectDigest what =
     bnd (consentErrors h consent subjectDigest) (\<lambda>errors.
     if errors \<noteq> [] then fail (what @ '': '' @ js_join ''; '' errors) else Inr ())"

section \<open>Opening a record\<close>

record opened =
  o_kind :: string
  o_parentKind :: "string option"
  o_admission :: "js option"

definition open_capability :: "host \<Rightarrow> js \<Rightarrow> js \<Rightarrow> js \<Rightarrow> opened res" where
  "open_capability h record parent consent =
     (let goalRev = fld parent ''goalSubject'' in
      if \<not> digest_test h goalRev
      then fail ''A capability requires its parent goal subject; read the parent through a medium''
      else bnd (requireConsent h consent (JStr (admissionDigest h goalRev (fld record ''changeClass'')))
          ''A capability requires a person to accept its parent goal at this change class'') (\<lambda>_.
        Inr \<lparr>o_kind = ''capability'', o_parentKind = Some ''goal'',
             o_admission = Some (JObj [(''goalRevision'', goalRev), (''gate'', fld consent ''gate''),
               (''attestation'', fld consent ''attestation'')])\<rparr>))"

definition open_spec :: "host \<Rightarrow> js \<Rightarrow> js \<Rightarrow> opened res" where
  "open_spec h parent consent =
     (let admission = fld parent ''admission'';
          opened = \<lparr>o_kind = ''spec'', o_parentKind = Some ''capability'', o_admission = None\<rparr> in
      bnd (requireConsent h admission
          (JStr (admissionDigest h (fld admission ''goalRevision'') (fld parent ''changeClass'')))
          ''A spec requires a capability whose stored change class a person admitted'') (\<lambda>_.
      bnd (requiresPersonReview h parent) (\<lambda>review.
      let stored = fld (fld admission ''gate'') ''digest'';
          given = fld (fld consent ''gate'') ''digest'' in
      if \<not> review
      then (if \<not> truthy consent \<or> js_eq given stored
            then fail ''A standard spec does not open on a stored admission. The person accepts this capability''
            else bnd (requireConsent h consent (fld parent ''revision'')
                ''A standard spec requires the person to accept this capability'') (\<lambda>_. Inr opened))
      else (if truthy given \<and> js_eq given stored
            then fail ''A spec under a high-assurance capability requires its review, not its admission''
            else bnd (requireConsent h consent (fld parent ''goalSubject'')
                ''A spec under a high-assurance capability requires its review'') (\<lambda>_. Inr opened)))))"

definition validateOpen :: "host \<Rightarrow> js \<Rightarrow> js \<Rightarrow> js \<Rightarrow> opened res" where
  "validateOpen h record parent consent =
     bnd (workKind h record) (\<lambda>kind.
     if kind = LEGACY_KIND then Inr \<lparr>o_kind = kind, o_parentKind = None, o_admission = None\<rparr>
     else case PARENT_KIND kind of
       None \<Rightarrow> if truthy parent then fail ''A goal has no parent''
               else Inr \<lparr>o_kind = kind, o_parentKind = None, o_admission = None\<rparr>
     | Some parentKind \<Rightarrow>
         if \<not> truthy parent then fail (''A '' @ kind @ '' requires a parent '' @ parentKind)
         else bnd (workKind h parent) (\<lambda>actual.
           if actual \<noteq> parentKind
           then fail (''A '' @ kind @ '' requires a parent '' @ parentKind @ '', not a '' @ actual @ '' record'')
           else if kind = ''capability'' then open_capability h record parent consent
           else open_spec h parent consent))"

section \<open>Facts\<close>

definition consented :: "host \<Rightarrow> js \<Rightarrow> js \<Rightarrow> bool" where
  "consented h consent subject =
     (let gate = fld consent ''gate''; att = fld consent ''attestation'' in
      fld gate ''gateClass'' = JStr adequacyOfIntent \<and> js_eq (fld gate ''subjectDigest'') subject
      \<and> satisfyGate h gate att = Inr [])"

lemma requireConsent_Inr: "requireConsent h consent subject what = Inr u \<longleftrightarrow> consented h consent subject"
proof -
  have "fld gate ''gateClass'' = JStr adequacyOfIntent \<Longrightarrow> truthy gate" for gate
    by (cases gate) (auto simp: fld_def obj_get_def split: if_splits)
  then show ?thesis
    by (auto simp: requireConsent_def consentErrors_def consented_def Let_def)
qed

lemma consented_human:
  assumes "consented h consent subject"
  shows "fld (fld consent ''attestation'') ''decision'' = JStr ''agree''
    \<and> fld (fld (fld consent ''attestation'') ''reviewer'') ''platform'' = JStr ''human''
    \<and> hasCurrentDigest h (fld consent ''gate'') \<and> js_eq (fld (fld consent ''gate'') ''subjectDigest'') subject"
proof -
  from assms have "satisfyGate h (fld consent ''gate'') (fld consent ''attestation'') = Inr []"
    and "js_eq (fld (fld consent ''gate'') ''subjectDigest'') subject"
    by (auto simp: consented_def Let_def)
  then show ?thesis
    by (auto simp: satisfyGate_def isHumanReviewer_eq Let_def split: if_splits)
qed

lemma open_spec_Inr:
  "open_spec h parent consent = Inr r \<Longrightarrow>
     consented h (fld parent ''admission'')
       (JStr (admissionDigest h (fld (fld parent ''admission'') ''goalRevision'') (fld parent ''changeClass'')))
     \<and> \<not> (truthy (fld (fld consent ''gate'') ''digest'') \<and>
          js_eq (fld (fld consent ''gate'') ''digest'') (fld (fld (fld parent ''admission'') ''gate'') ''digest''))
     \<and> (requiresPersonReview h parent = Inr True \<and> consented h consent (fld parent ''goalSubject'')
        \<or> requiresPersonReview h parent = Inr False \<and> consented h consent (fld parent ''revision''))"
  by (auto simp: open_spec_def Let_def requireConsent_Inr split: if_splits)

lemma workKind_capability: "workKind h r = Inr ''capability'' \<longleftrightarrow> fld r ''kind'' = JStr ''capability''"
  by (auto simp: workKind_def LEGACY_KIND_def WORK_KINDS_def one_of_iff Let_def)

lemma workKind_cases: "workKind h r = Inr k \<Longrightarrow> k \<in> {''legacy'', ''goal'', ''capability'', ''spec''}"
  by (auto simp: workKind_def LEGACY_KIND_def WORK_KINDS_def one_of_iff Let_def split: if_splits)

text \<open>
  A spec opens only under a capability whose stored change class a human admitted, and only on
  a second human consent, with another gate than the admission's, bound to the capability itself:
  to its review subject when it is high-assurance, to its revision otherwise.
\<close>

theorem spec_needs_second_consent:
  assumes "validateOpen h record parent consent = Inr r" and "o_kind r = ''spec''"
  shows "fld parent ''kind'' = JStr ''capability''
    \<and> consented h (fld parent ''admission'')
        (JStr (admissionDigest h (fld (fld parent ''admission'') ''goalRevision'') (fld parent ''changeClass'')))
    \<and> fld (fld consent ''gate'') ''digest'' \<noteq> fld (fld (fld parent ''admission'') ''gate'') ''digest''
    \<and> (if fld parent ''changeClass'' = JStr ''high-assurance'' then consented h consent (fld parent ''goalSubject'')
       else consented h consent (fld parent ''revision''))"
proof -
  from assms(1) obtain kind where k: "workKind h record = Inr kind" by (auto simp: validateOpen_def)
  with assms have spec: "kind = ''spec''"
    using workKind_cases [OF k]
    by (auto simp: validateOpen_def PARENT_KIND_def LEGACY_KIND_def open_capability_def Let_def split: if_splits)
  with assms(1) k have p: "workKind h parent = Inr ''capability''" and o: "open_spec h parent consent = Inr r"
    by (auto simp: validateOpen_def PARENT_KIND_def LEGACY_KIND_def split: if_splits)
  have kind: "fld parent ''kind'' = JStr ''capability''" using p by (simp add: workKind_capability)
  have review: "requiresPersonReview h parent = Inr (fld parent ''changeClass'' = JStr ''high-assurance'')"
    using p by (simp add: requiresPersonReview_def)
  note facts = open_spec_Inr [OF o]
  have second: "if fld parent ''changeClass'' = JStr ''high-assurance'' then consented h consent (fld parent ''goalSubject'')
       else consented h consent (fld parent ''revision'')"
    using facts review by auto
  then obtain subj where "consented h consent subj" by (auto split: if_splits)
  from consented_human [OF this] obtain d where d: "fld (fld consent ''gate'') ''digest'' = JStr d" "is_hex64 d"
    using hasCurrentDigest_fld by blast
  then have "fld (fld consent ''gate'') ''digest'' \<noteq> fld (fld (fld parent ''admission'') ''gate'') ''digest''"
    using facts by (auto dest: is_hex64_nonempty)
  with kind facts second show ?thesis by simp
qed

section \<open>A witness\<close>

text \<open>A hash that gives one chosen text another digest than every other text.\<close>

definition pick_host :: "string \<Rightarrow> host" where
  "pick_host t = \<lparr>sha256 = (\<lambda>s. replicate 64 (if s = t then CHR ''b'' else CHR ''a'')),
     legacy_date = (\<lambda>_. None), ftoa = (\<lambda>_. ''0'')\<rparr>"

lemma pick_host_hex: "is_hex64 (sha256 (pick_host t) s)"
  by (simp add: pick_host_def is_hex64_def list_all_iff is_hex_def)

definition consent_gate :: "string \<Rightarrow> string \<Rightarrow> (string \<times> js) list" where
  "consent_gate role subject = [(''gateClass'', JStr adequacyOfIntent), (''subjectDigest'', JStr subject),
     (''subjectKind'', JStr ''admission''), (''requiredRole'', JStr role)]"

definition sample_consent :: "host \<Rightarrow> string \<Rightarrow> string \<Rightarrow> (string \<times> js) list" where
  "sample_consent h role subject = [
     (''gate'', JObj (sealDeliveryRecord h ''gate'' (consent_gate role subject))),
     (''attestation'', createReviewAttestation (JStr ''capability'') (JStr subject)
        (JObj [(''platform'', JStr ''human''), (''executor'', JStr ''ana''), (''independence'', JStr ''human-gate'')])
        (JStr ''agree'') (JStr ''2026-01-02T03:04:05.678Z'') JUndef)]"

lemma sample_consented:
  assumes hex: "\<And>s. is_hex64 (sha256 h s)" and "is_hex64 subject"
    and "fld c ''gate'' = fld (JObj (sample_consent h role subject)) ''gate''"
    and "fld c ''attestation'' = fld (JObj (sample_consent h role subject)) ''attestation''"
  shows "consented h c (JStr subject)"
proof -
  let ?g = "JObj (sealDeliveryRecord h ''gate'' (consent_gate role subject))"
  have f: "fld ?g ''gateClass'' = JStr adequacyOfIntent" "fld ?g ''subjectDigest'' = JStr subject"
    "fld ?g ''subjectKind'' = JStr ''admission''"
    by (simp_all add: fld_seal_other) (simp_all add: fld_def obj_get_def consent_gate_def)
  have "gate_shape ?g" by (simp add: gate_shape_def fld_seal f one_of_def SUBJECT_KINDS_def)
  moreover have "hasCurrentDigest h ?g" using hex by (rule hasCurrentDigest_seal)
  moreover have "iso_ms ''2026-01-02T03:04:05.678Z'' = Some 1767323045678" by code_simp
  moreover from this have att: "validateReviewAttestation h (fld (JObj (sample_consent h role subject)) ''attestation'') (JStr subject) = []"
    "fld (fld (JObj (sample_consent h role subject)) ''attestation'') ''decision'' = JStr ''agree''"
    "fld (fld (fld (JObj (sample_consent h role subject)) ''attestation'') ''reviewer'') ''independence'' = JStr ''human-gate''"
    "fld (fld (fld (JObj (sample_consent h role subject)) ''attestation'') ''reviewer'') ''platform'' = JStr ''human''"
    using assms(2)
    by (simp_all add: sample_consent_def createReviewAttestation_def fld_def obj_get_def
        validateReviewAttestation_def js_default_def one_of_def date_parse_def Let_def)
  ultimately have "satisfyGate h ?g (fld (JObj (sample_consent h role subject)) ''attestation'') = Inr []"
    by (simp add: satisfyGate_def isHumanReviewer_eq f att Let_def)
  with assms(3,4) f show ?thesis
    by (simp add: consented_def Let_def) (simp add: sample_consent_def fld_def obj_get_def)
qed

definition sample_capability :: "host \<Rightarrow> js" where
  "sample_capability h = JObj [(''kind'', JStr ''capability''), (''changeClass'', JStr ''standard''),
     (''revision'', JStr sample_digest),
     (''admission'', JObj ((''goalRevision'', JStr sample_digest)
        # sample_consent h ''requester'' (admissionDigest h (JStr sample_digest) (JStr ''standard''))))]"

definition second_text :: string where
  "second_text = pr (canon (JObj (consent_gate ''pm'' sample_digest @ [(''version'', JNat 1), (''type'', JStr ''gate'')])))"

abbreviation wit_host :: host where
  "wit_host \<equiv> pick_host second_text"

lemma gate_payload:
  "digest_payload (JObj (sealDeliveryRecord h ''gate'' (consent_gate role subject)))
     = consent_gate role subject @ [(''version'', JNat 1), (''type'', JStr ''gate'')]"
  by (simp add: sealDeliveryRecord_def digest_payload_def own_props_def coal_def obj_del_def consent_gate_def Let_def)

lemma plain_gate_payload: "plain (JObj (consent_gate role subject @ [(''version'', JNat 1), (''type'', JStr ''gate'')]))"
  using rat_int_of_int [of 1] by (simp add: consent_gate_def)

lemma stable_text_plain: "plain v \<Longrightarrow> stable_text h v = pr (canon v)"
  by (simp add: stable_text_def stableJson_canon)

lemma canon_fields:
  assumes "canon (JObj fs) = canon (JObj gs)" and "(k, v) \<in> set fs"
  shows "(k, canon v) \<in> (\<lambda>(k, v). (k, canon v)) ` set gs"
proof -
  have "set (sort_key fst (map (\<lambda>(k, v). (k, canon v)) fs)) = set (sort_key fst (map (\<lambda>(k, v). (k, canon v)) gs))"
    using arg_cong [OF assms(1), of "\<lambda>v. case v of JObj hs \<Rightarrow> set hs | _ \<Rightarrow> {}"]
    by (simp only: canon.simps js.case)
  then have "set (map (\<lambda>(k, v). (k, canon v)) fs) = set (map (\<lambda>(k, v). (k, canon v)) gs)"
    by (simp only: set_sort)
  then show ?thesis using assms(2) by (metis (mono_tags, lifting) case_prod_conv image_eqI list.set_map)
qed

lemma gate_digest:
  "recordDigest wit_host (JObj (sealDeliveryRecord h ''gate'' (consent_gate role subject)))
    = replicate 64 (if role = ''pm'' \<and> subject = sample_digest then CHR ''b'' else CHR ''a'')"
proof -
  let ?p = "\<lambda>role subject. JObj (consent_gate role subject @ [(''version'', JNat 1), (''type'', JStr ''gate'')])"
  have "stable_text wit_host (?p role subject) = second_text
      \<longleftrightarrow> stable_text wit_host (?p role subject) = stable_text wit_host (?p ''pm'' sample_digest)"
    by (simp only: second_text_def stable_text_plain [OF plain_gate_payload])
  also have "\<dots> \<longleftrightarrow> canon (?p role subject) = canon (?p ''pm'' sample_digest)"
    by (rule stable_text_canon) (rule plain_gate_payload)+
  also have "\<dots> \<longleftrightarrow> role = ''pm'' \<and> subject = sample_digest"
  proof
    assume "canon (?p role subject) = canon (?p ''pm'' sample_digest)"
    from canon_fields [OF this, of "''requiredRole''" "JStr role"] canon_fields [OF this, of "''subjectDigest''" "JStr subject"]
    show "role = ''pm'' \<and> subject = sample_digest"
      by (simp add: consent_gate_def)
  qed simp
  finally show ?thesis
    by (simp add: recordDigest_def gate_payload pick_host_def)
qed

theorem spec_needs_second_consent_witness:
  "\<exists>r. validateOpen wit_host (JObj [(''kind'', JStr ''spec'')]) (sample_capability wit_host)
      (JObj (sample_consent wit_host ''pm'' sample_digest)) = Inr r
    \<and> consented wit_host (JObj (sample_consent wit_host ''pm'' sample_digest)) (JStr sample_digest)"
proof -
  let ?c = "JObj (sample_consent wit_host ''pm'' sample_digest)" and ?p = "sample_capability wit_host"
  have adm: "is_hex64 (admissionDigest wit_host (JStr sample_digest) (JStr ''standard''))"
    by (simp add: admissionDigest_def recordDigest_def pick_host_hex)
  have fp: "fld ?p ''kind'' = JStr ''capability''" "fld ?p ''changeClass'' = JStr ''standard''"
    "fld ?p ''revision'' = JStr sample_digest" "truthy ?p"
    "fld (fld ?p ''admission'') ''goalRevision'' = JStr sample_digest"
    "fld (fld ?p ''admission'') ''gate'' = JObj (sealDeliveryRecord wit_host ''gate''
       (consent_gate ''requester'' (admissionDigest wit_host (JStr sample_digest) (JStr ''standard''))))"
    by (simp_all add: sample_capability_def fld_def obj_get_def sample_consent_def)
  have c1: "consented wit_host (fld ?p ''admission'') (JStr (admissionDigest wit_host (JStr sample_digest) (JStr ''standard'')))"
    by (rule sample_consented [where role = "''requester''"])
      (use pick_host_hex adm in \<open>simp_all add: sample_capability_def fld_def obj_get_def sample_consent_def\<close>)
  have c2: "consented wit_host ?c (JStr sample_digest)"
    by (rule sample_consented [where role = "''pm''"]) (use pick_host_hex sample_digest_hex in simp_all)
  have gc: "fld ?c ''gate'' = JObj (sealDeliveryRecord wit_host ''gate'' (consent_gate ''pm'' sample_digest))" "truthy ?c"
    by (simp_all add: sample_consent_def fld_def obj_get_def)
  have wk: "workKind wit_host (JObj [(''kind'', JStr ''spec'')]) = Inr ''spec''"
    "workKind wit_host ?p = Inr ''capability''"
    by (simp_all add: workKind_capability fp) (simp add: workKind_def fld_def obj_get_def one_of_def WORK_KINDS_def)
  have rc: "requireConsent wit_host (fld ?p ''admission'') (JStr (admissionDigest wit_host (JStr sample_digest) (JStr ''standard''))) w = Inr ()"
    "requireConsent wit_host ?c (JStr sample_digest) w = Inr ()" for w
    using c1 c2 by (simp_all add: requireConsent_Inr)
  have "open_spec wit_host ?p ?c = Inr \<lparr>o_kind = ''spec'', o_parentKind = Some ''capability'', o_admission = None\<rparr>"
    by (simp add: open_spec_def fp gc rc requiresPersonReview_def wk Let_def fld_seal gate_digest)
  then have v: "validateOpen wit_host (JObj [(''kind'', JStr ''spec'')]) ?p ?c
      = Inr \<lparr>o_kind = ''spec'', o_parentKind = Some ''capability'', o_admission = None\<rparr>"
    by (simp add: validateOpen_def wk PARENT_KIND_def LEGACY_KIND_def fp)
  show ?thesis
    using spec_needs_second_consent [OF v] v by (simp add: fp)
qed

end
