(* ===== verification/PhaseGraph.thy ===== *)
theory PhaseGraph
  imports Artifacts
begin

text \<open>
  The SDLC phase machine (src/lib/core/phase-graph.mjs). A medium stores a log of transitions;
  \<open>validateTransition\<close> decides whether the next one may be appended. The inductive predicate
  \<open>phase_log\<close> is the set of logs that grow only through it; its invariants are that no phase
  is jumped over, that no return is taken more often than the limit, and that a log is never stuck.
\<close>

section \<open>The phase table\<close>

record phase_spec =
  ps_phase :: int
  ps_role :: string
  ps_seats :: "string list"

definition PHASES :: "phase_spec list" where
  "PHASES = [
     \<lparr>ps_phase = 0, ps_role = ''product-manager'', ps_seats = [''pm.manager'']\<rparr>,
     \<lparr>ps_phase = 1, ps_role = ''analyst'', ps_seats = [''pm.analyst'']\<rparr>,
     \<lparr>ps_phase = 2, ps_role = ''architect'', ps_seats = [''orch.arch'']\<rparr>,
     \<lparr>ps_phase = 3, ps_role = ''implementation-planner'', ps_seats = [''orch.arch'']\<rparr>,
     \<lparr>ps_phase = 4, ps_role = ''developer'', ps_seats = [''dev.build-jr'', ''dev.build'', ''dev.build-sr'']\<rparr>,
     \<lparr>ps_phase = 5, ps_role = ''tester'', ps_seats = [''dev.qa'']\<rparr>,
     \<lparr>ps_phase = 6, ps_role = ''reviewer'', ps_seats = [''rev.review'']\<rparr>,
     \<lparr>ps_phase = 7, ps_role = ''technical-writer'', ps_seats = [''orch.arch'']\<rparr>,
     \<lparr>ps_phase = 8, ps_role = ''pr-readiness'', ps_seats = [''orch.arch'']\<rparr>]"

definition FORWARD :: "int \<Rightarrow> int list" where
  "FORWARD p = (if 0 \<le> p \<and> p \<le> 7 then [p + 1] else [])"

definition RETURNS :: "int \<Rightarrow> int list" where
  "RETURNS p = (if p = 1 then [0] else if p = 2 then [1] else if p = 3 then [1]
     else if p = 4 then [3, 1] else if p = 6 then [4] else if p = 7 then [4]
     else if p = 8 then [4] else [])"

definition MAX_RETURN_CYCLES :: nat where
  "MAX_RETURN_CYCLES = 2"

definition DEFAULT_HOT_FILE_DENYLIST :: "string list" where
  "DEFAULT_HOT_FILE_DENYLIST = [''Cargo.lock'', ''Cargo.toml'', ''package-lock.json'', ''pnpm-lock.yaml'',
     ''yarn.lock'', ''migrations/'', ''schema/'']"

definition phaseSpec :: "int \<Rightarrow> phase_spec res" where
  "phaseSpec phase = (case find (\<lambda>item. ps_phase item = phase) PHASES of
     Some spec \<Rightarrow> Inr spec | None \<Rightarrow> fail (''Unknown phase: '' @ int_str phase))"

definition seatsFor :: "int \<Rightarrow> string list res" where
  "seatsFor phase = bnd (phaseSpec phase) (\<lambda>spec. Inr (ps_seats spec))"

record resolved_seat =
  rs_role :: string
  rs_seat :: string
  rs_qualifier :: "string option"

definition seat_qualifier :: "string \<Rightarrow> string option" where
  "seat_qualifier seat = (if seat = ''dev.build-jr'' then Some ''junior''
     else if seat = ''dev.build-sr'' then Some ''senior''
     else if seat = ''dev.build'' then Some ''standard'' else None)"

definition resolveRoleAndSeat :: "host \<Rightarrow> int \<Rightarrow> js \<Rightarrow> js \<Rightarrow> resolved_seat res" where
  "resolveRoleAndSeat h phase seat0 role0 =
     (let seat = js_default seat0 JNull; role = js_default role0 JNull in
      bnd (phaseSpec phase) (\<lambda>spec.
      bnd (seatsFor phase) (\<lambda>allowedSeats.
      if truthy seat \<and> one_of allowedSeats seat
      then Inr \<lparr>rs_role = ps_role spec, rs_seat = str_of seat, rs_qualifier = seat_qualifier (str_of seat)\<rparr>
      else if js_eq role (JStr (ps_role spec)) \<or> js_eq seat (JStr (ps_role spec))
      then Inr \<lparr>rs_role = ps_role spec, rs_seat = hd allowedSeats, rs_qualifier = None\<rparr>
      else fail (''Seat '' @ js_string h (coal seat role) @ '' does not own phase '' @ int_str phase
             @ '' ('' @ ps_role spec @ '')''))))"

section \<open>Transitions and returns\<close>

record transition =
  t_phase :: int
  t_status :: string
  t_reason :: "string option"
  t_idempotencyKey :: "string option"
  t_uri :: "string option"

definition reason_text :: "string option \<Rightarrow> string" where
  "reason_text r = (case r of None \<Rightarrow> [] | Some s \<Rightarrow> s)"

text \<open>\<open>/return to phase (\d+)/i\<close>: the number of the leftmost match.\<close>

fun return_match :: "string \<Rightarrow> int option" where
  "return_match [] = None"
| "return_match (c # s) =
     (let ds = takeWhile is_digit (drop (length ''return to phase '') (c # s)) in
      if starts_with (c # s) ''return to phase '' \<and> ds \<noteq> [] then digits_val ds else return_match s)"

definition oracle_correction :: "string \<Rightarrow> bool" where
  "oracle_correction s = str_includes (js_lower s) ''oracle:correction''"

text \<open>The phase a skip of \<open>phase\<close> with this reason names as its return target.\<close>

definition named_target :: "int \<Rightarrow> string option \<Rightarrow> int option" where
  "named_target phase reason =
     (case return_match (js_lower (reason_text reason)) of
        Some n \<Rightarrow> Some n
      | None \<Rightarrow> if phase = 4 \<and> oracle_correction (reason_text reason) then Some 3 else None)"

definition countReturnCycles :: "transition list \<Rightarrow> int \<Rightarrow> int \<Rightarrow> nat" where
  "countReturnCycles transitions fromPhase toPhase =
     length (filter (\<lambda>t. t_phase t = fromPhase \<and> t_status t = ''skipped''
       \<and> named_target (t_phase t) (t_reason t) = Some toPhase) transitions)"

definition applied :: "transition \<Rightarrow> bool" where
  "applied t = (t_status t = ''pass'' \<or> t_status t = ''skipped'')"

definition latestApplied :: "transition list \<Rightarrow> transition option" where
  "latestApplied transitions =
     (let ap = filter applied transitions in if ap = [] then None else Some (last ap))"

definition currentPhase :: "transition list \<Rightarrow> int option" where
  "currentPhase transitions = map_option t_phase (latestApplied transitions)"

definition namedReturn :: "transition \<Rightarrow> int option" where
  "namedReturn t =
     (if t_status t \<noteq> ''skipped'' then None
      else case named_target (t_phase t) (t_reason t) of
        Some n \<Rightarrow> if n \<in> set (RETURNS (t_phase t)) then Some n else None
      | None \<Rightarrow> None)"

definition allowedNext :: "transition list \<Rightarrow> int list" where
  "allowedNext transitions =
     (case latestApplied transitions of
        None \<Rightarrow> [0]
      | Some latest \<Rightarrow>
          (case namedReturn latest of
             Some back \<Rightarrow>
               if countReturnCycles transitions (t_phase latest) back > MAX_RETURN_CYCLES then [] else [back]
           | None \<Rightarrow> FORWARD (t_phase latest) @ RETURNS (t_phase latest)))"

section \<open>Validation\<close>

record request =
  q_phase :: js
  q_status :: js
  q_seat :: js
  q_role :: js
  q_reason :: "string option"
  q_touchedFiles :: js
  q_expectedPrevious :: js
  q_baseSha :: js
  q_candidateSha :: js
  q_oracleDigest :: js
  q_hotFileDenylist :: js
  q_activeHotFiles :: js

text \<open>\<open>/(^|\/)tests\/(?:.*\/)?oracles\//\<close>\<close>

fun oracle_path :: "bool \<Rightarrow> string \<Rightarrow> bool" where
  "oracle_path at_start [] = False"
| "oracle_path at_start (c # s) =
     ((at_start \<and> starts_with (c # s) ''tests/'' \<and>
        (let r = drop (length ''tests/'') (c # s) in
         starts_with r ''oracles/''
         \<or> str_includes (takeWhile (\<lambda>d. d \<noteq> CHR 0x0A \<and> d \<noteq> CHR 0x0D) r) ''/oracles/''))
      \<or> oracle_path (c = CHR ''/'') s)"

definition opt_js :: "string option \<Rightarrow> js" where
  "opt_js v = (case v of None \<Rightarrow> JNull | Some s \<Rightarrow> JStr s)"

definition phase_text :: "int option \<Rightarrow> string" where
  "phase_text p = (case p of None \<Rightarrow> ''no transitions'' | Some n \<Rightarrow> ''phase '' @ int_str n)"

text \<open>The id the latest applied transition is known by, \<open>'none'\<close> for an empty log.\<close>

definition actual_previous :: "transition list \<Rightarrow> js" where
  "actual_previous transitions =
     (case latestApplied transitions of None \<Rightarrow> JStr ''none''
      | Some latest \<Rightarrow> coal (opt_js (t_idempotencyKey latest)) (opt_js (t_uri latest)))"

definition touches_hot :: "host \<Rightarrow> js \<Rightarrow> js list \<Rightarrow> bool res" where
  "touches_hot h denylist0 files =
     (let denylist = coal denylist0 (jstrs DEFAULT_HOT_FILE_DENYLIST) in
      some_res (\<lambda>f. case denylist of
        JArr ds \<Rightarrow> Inr (list_ex (\<lambda>d. ends_with (js_string h f) (js_string h d)
            \<or> str_includes (js_string h f) (js_string h d)) ds)
      | _ \<Rightarrow> Inl (TypeError ''denylist.some is not a function'')) files)"

definition transition_result :: "host \<Rightarrow> request \<Rightarrow> int \<Rightarrow> resolved_seat \<Rightarrow> (string \<times> js) list res" where
  "transition_result h q phase resolved =
     (let reason = reason_text (q_reason q);
          base = [(''phase'', JInt phase), (''role'', JStr (rs_role resolved)), (''seat'', JStr (rs_seat resolved)),
            (''status'', q_status q), (''reason'', opt_js (q_reason q))]
          @ (if rs_qualifier resolved \<noteq> None \<and> q_role q \<noteq> JUndef
             then [(''qualifier'', opt_js (rs_qualifier resolved))] else [])
          @ (if phase = 4 \<and> js_eq (q_status q) (JStr ''skipped'') \<and> oracle_correction reason
             then [(''oracleCorrection'', JBool True)] else [])
          @ (if q_baseSha q \<noteq> JUndef then [(''baseSha'', q_baseSha q)] else [])
          @ (if q_candidateSha q \<noteq> JUndef then [(''candidateSha'', q_candidateSha q)] else [])
          @ (if q_oracleDigest q \<noteq> JUndef then [(''oracleDigest'', q_oracleDigest q)] else [])
      in case q_touchedFiles q of
        JArr files \<Rightarrow> bnd (touches_hot h (q_hotFileDenylist q) files) (\<lambda>touchesHot.
          let activeOverlap = (is_array (q_activeHotFiles q) \<and> elems (q_activeHotFiles q) \<noteq> [])
          in Inr (base @ [(''serializationStatus'',
               JStr (if touchesHot \<and> activeOverlap then ''SERIALIZED'' else ''PARALLEL_OK''))]))
      | _ \<Rightarrow> Inr base)"

definition validateTransition :: "host \<Rightarrow> transition list \<Rightarrow> request \<Rightarrow> (string \<times> js) list res" where
  "validateTransition h transitions q =
     (if \<not> one_of [''pass'', ''skipped''] (q_status q) then fail ''A transition status must be pass or skipped''
      else case js_int (q_phase q) of
        None \<Rightarrow> fail ''A transition phase must be an integer from 0 to 8''
      | Some phase \<Rightarrow>
        if phase < 0 \<or> phase > 8 then fail ''A transition phase must be an integer from 0 to 8''
        else let skipped = js_eq (q_status q) (JStr ''skipped'');
                 reason = reason_text (q_reason q);
                 targetReturn = (if skipped then named_target phase (q_reason q) else None);
                 cycles = (case targetReturn of None \<Rightarrow> 0 | Some t \<Rightarrow> countReturnCycles transitions phase t)
        in if skipped \<and> js_trim reason = [] then fail ''A skipped phase requires a reason''
        else if targetReturn \<noteq> None \<and> cycles \<ge> MAX_RETURN_CYCLES
        then fail (''Return cycle limit reached: phase '' @ int_str phase @ '' has already returned to phase ''
               @ int_str (the targetReturn) @ '' '' @ nat_str cycles @ '' times (maximum: ''
               @ nat_str MAX_RETURN_CYCLES @ ''). Human escalation required.'')
        else if phase \<notin> set (allowedNext transitions)
        then fail (''Phase '' @ int_str phase @ '' is not allowed after '' @ phase_text (currentPhase transitions)
               @ ''. Allowed: '' @ (if allowedNext transitions = [] then ''none''
                                   else js_join '', '' (map int_str (allowedNext transitions))))
        else bnd (phaseSpec phase) (\<lambda>spec.
          bnd (resolveRoleAndSeat h phase (q_seat q) (q_role q)) (\<lambda>resolved.
          if \<not> nullish (q_expectedPrevious q) \<and> \<not> js_eq (actual_previous transitions) (q_expectedPrevious q)
          then fail (''Transition monotonicity violation: expected previousTransitionId ''
                 @ js_string h (q_expectedPrevious q) @ '', got '' @ js_string h (actual_previous transitions))
          else if ps_role spec = ''developer'' \<and> js_eq (q_status q) (JStr ''pass'') \<and> is_array (q_touchedFiles q)
              \<and> list_ex (\<lambda>f. oracle_path True (js_string h f)) (elems (q_touchedFiles q))
          then fail ''Developer role cannot modify oracle files under tests/oracles/**''
          else transition_result h q phase resolved)))"

section \<open>The log as a state machine\<close>

text \<open>The stored transition of an accepted request; the medium adds the key and the address.\<close>

definition stored :: "request \<Rightarrow> int \<Rightarrow> string option \<Rightarrow> string option \<Rightarrow> transition" where
  "stored q phase key uri = \<lparr>t_phase = phase, t_status = str_of (q_status q), t_reason = q_reason q,
     t_idempotencyKey = key, t_uri = uri\<rparr>"

inductive phase_log :: "host \<Rightarrow> transition list \<Rightarrow> bool" for h where
  empty: "phase_log h []"
| append: "phase_log h ts \<Longrightarrow> validateTransition h ts q = Inr r \<Longrightarrow> js_int (q_phase q) = Some phase \<Longrightarrow>
     phase_log h (ts @ [stored q phase key uri])"

inductive_cases phase_log_snoc: "phase_log h (ts @ [t])"

section \<open>What an accepted request satisfies\<close>

lemma phaseSpec_Inr: "phaseSpec p = Inr spec \<Longrightarrow> spec \<in> set PHASES \<and> ps_phase spec = p"
  by (auto simp: phaseSpec_def find_Some_iff split: option.splits)

lemma phaseSpec_total: "0 \<le> p \<Longrightarrow> p \<le> 8 \<Longrightarrow> \<exists>spec. phaseSpec p = Inr spec"
proof -
  assume "0 \<le> p" "p \<le> 8"
  then have "p \<in> {0, 1, 2, 3, 4, 5, 6, 7, 8}" by auto
  then show ?thesis by (auto simp: phaseSpec_def PHASES_def)
qed

lemma PHASES_seats: "spec \<in> set PHASES \<Longrightarrow> ps_seats spec \<noteq> [] \<and> [] \<notin> set (ps_seats spec)"
  by (auto simp: PHASES_def)

lemma resolveRoleAndSeat_Inr:
  assumes "resolveRoleAndSeat h p seat role = Inr rs"
  shows "\<exists>spec. phaseSpec p = Inr spec \<and> rs_role rs = ps_role spec \<and> rs_seat rs \<in> set (ps_seats spec)"
proof -
  from assms obtain spec where spec: "phaseSpec p = Inr spec" and "rs_role rs = ps_role spec"
    and "rs_seat rs \<in> set (ps_seats spec) \<or> rs_seat rs = hd (ps_seats spec)"
    by (auto simp: resolveRoleAndSeat_def seatsFor_def one_of_iff Let_def split: if_splits)
  with PHASES_seats phaseSpec_Inr [OF spec] show ?thesis by auto
qed

lemma transition_result_fields:
  assumes "transition_result h q p rs = Inr r"
  shows "map_of r ''phase'' = Some (JInt p) \<and> map_of r ''role'' = Some (JStr (rs_role rs))
    \<and> map_of r ''seat'' = Some (JStr (rs_seat rs)) \<and> map_of r ''status'' = Some (q_status q)"
  using assms by (cases "q_touchedFiles q") (auto simp: transition_result_def Let_def)

lemma validateTransition_Inr:
  assumes "validateTransition h ts q = Inr r"
  obtains p spec rs where "js_int (q_phase q) = Some p" "0 \<le> p" "p \<le> 8" "p \<in> set (allowedNext ts)"
    "one_of [''pass'', ''skipped''] (q_status q)"
    "\<And>t. q_status q = JStr ''skipped'' \<Longrightarrow> named_target p (q_reason q) = Some t \<Longrightarrow> countReturnCycles ts p t < 2"
    "phaseSpec p = Inr spec" "resolveRoleAndSeat h p (q_seat q) (q_role q) = Inr rs"
    "\<not> (ps_role spec = ''developer'' \<and> q_status q = JStr ''pass'' \<and> is_array (q_touchedFiles q)
        \<and> list_ex (\<lambda>f. oracle_path True (js_string h f)) (elems (q_touchedFiles q)))"
    "transition_result h q p rs = Inr r"
proof -
  from assms obtain p where p: "js_int (q_phase q) = Some p"
    by (auto simp: validateTransition_def split: if_splits option.splits)
  let ?t = "if js_eq (q_status q) (JStr ''skipped'') then named_target p (q_reason q) else None"
  from assms p have g: "one_of [''pass'', ''skipped''] (q_status q)" "0 \<le> p" "p \<le> 8" "p \<in> set (allowedNext ts)"
    "\<not> (?t \<noteq> None \<and> (case ?t of None \<Rightarrow> 0 | Some t \<Rightarrow> countReturnCycles ts p t) \<ge> MAX_RETURN_CYCLES)"
    by (simp_all add: validateTransition_def Let_def split: if_splits)
  from assms p g obtain spec rs where "phaseSpec p = Inr spec" "resolveRoleAndSeat h p (q_seat q) (q_role q) = Inr rs"
    "\<not> (ps_role spec = ''developer'' \<and> q_status q = JStr ''pass'' \<and> is_array (q_touchedFiles q)
        \<and> list_ex (\<lambda>f. oracle_path True (js_string h f)) (elems (q_touchedFiles q)))"
    "transition_result h q p rs = Inr r"
    by (simp add: validateTransition_def Let_def split: if_splits) blast+
  moreover have "countReturnCycles ts p t < 2" if "q_status q = JStr ''skipped''" "named_target p (q_reason q) = Some t" for t
    using g(5) that by (simp add: MAX_RETURN_CYCLES_def)
  ultimately show ?thesis using p g(1-4) that [of p spec rs] by blast
qed

text \<open>
  An accepted transition names a phase the graph allows next, is written by a seat that owns
  that phase under that phase's role, and, when the developer passes, touches no oracle file.
\<close>

theorem accepted_transition_sound:
  assumes "validateTransition h ts q = Inr r"
  shows "\<exists>p spec seat. js_int (q_phase q) = Some p \<and> p \<in> set (allowedNext ts)
    \<and> spec \<in> set PHASES \<and> ps_phase spec = p \<and> seat \<in> set (ps_seats spec)
    \<and> map_of r ''phase'' = Some (JInt p) \<and> map_of r ''role'' = Some (JStr (ps_role spec))
    \<and> map_of r ''seat'' = Some (JStr seat)
    \<and> (p = 4 \<and> q_status q = JStr ''pass'' \<longrightarrow>
        (\<forall>f\<in>set (elems (q_touchedFiles q)). \<not> oracle_path True (js_string h f)))"
  using assms
proof (rule validateTransition_Inr)
  fix p spec rs
  assume p: "js_int (q_phase q) = Some p" "p \<in> set (allowedNext ts)" and spec: "phaseSpec p = Inr spec"
    and rs: "resolveRoleAndSeat h p (q_seat q) (q_role q) = Inr rs"
    and dev: "\<not> (ps_role spec = ''developer'' \<and> q_status q = JStr ''pass'' \<and> is_array (q_touchedFiles q)
        \<and> list_ex (\<lambda>f. oracle_path True (js_string h f)) (elems (q_touchedFiles q)))"
    and r: "transition_result h q p rs = Inr r"
  have "spec \<in> set PHASES" "ps_phase spec = p" using phaseSpec_Inr [OF spec] by auto
  moreover have "rs_role rs = ps_role spec" "rs_seat rs \<in> set (ps_seats spec)"
    using resolveRoleAndSeat_Inr [OF rs] spec by auto
  moreover have "p = 4 \<Longrightarrow> ps_role spec = ''developer''"
    using spec by (auto simp: phaseSpec_def PHASES_def)
  moreover have "\<not> is_array v \<Longrightarrow> elems v = []" for v by (cases v) auto
  ultimately show ?thesis
    using p dev transition_result_fields [OF r]
    by (intro exI [of _ p] exI [of _ spec] exI [of _ "rs_seat rs"]) (auto simp: list_ex_iff)
qed

definition first_request :: request where
  "first_request = \<lparr>q_phase = JInt 0, q_status = JStr ''pass'', q_seat = JStr ''pm.manager'', q_role = JUndef,
     q_reason = None, q_touchedFiles = JUndef, q_expectedPrevious = JUndef, q_baseSha = JUndef,
     q_candidateSha = JUndef, q_oracleDigest = JUndef, q_hotFileDenylist = JUndef, q_activeHotFiles = JUndef\<rparr>"

lemma first_request_accepted: "\<exists>r. validateTransition h [] first_request = Inr r"
  using rat_int_of_int [of 0]
  by (simp add: validateTransition_def first_request_def one_of_def js_int_def allowedNext_def latestApplied_def
      phaseSpec_def PHASES_def resolveRoleAndSeat_def seatsFor_def js_default_def transition_result_def Let_def)

theorem accepted_transition_sound_witness:
  "\<exists>r p. validateTransition const_host [] first_request = Inr r \<and> p \<in> set (allowedNext [])
     \<and> map_of r ''phase'' = Some (JInt p)"
proof -
  obtain r where r: "validateTransition const_host [] first_request = Inr r"
    using first_request_accepted by blast
  from accepted_transition_sound [OF r] r show ?thesis by blast
qed

section \<open>Invariants of the log\<close>

lemma latestApplied_snoc: "latestApplied (ts @ [t]) = (if applied t then Some t else latestApplied ts)"
  by (simp add: latestApplied_def Let_def)

lemma latestApplied_in: "latestApplied ts = Some t \<Longrightarrow> t \<in> set ts"
proof -
  assume "latestApplied ts = Some t"
  then have "filter applied ts \<noteq> []" "t = last (filter applied ts)"
    by (auto simp: latestApplied_def Let_def split: if_splits)
  then have "t \<in> set (filter applied ts)" by (metis last_in_set)
  then show ?thesis by simp
qed

lemma countReturnCycles_snoc:
  "countReturnCycles (ts @ [t]) a b = countReturnCycles ts a b
     + (if t_phase t = a \<and> t_status t = ''skipped'' \<and> named_target (t_phase t) (t_reason t) = Some b then 1 else 0)"
  by (auto simp: countReturnCycles_def)

lemma RETURNS_below: "q \<in> set (RETURNS p) \<Longrightarrow> 0 \<le> q \<and> q < p"
  by (auto simp: RETURNS_def split: if_splits)

lemma namedReturn_Some: "namedReturn t = Some b \<Longrightarrow> b \<in> set (RETURNS (t_phase t))
    \<and> t_status t = ''skipped'' \<and> named_target (t_phase t) (t_reason t) = Some b"
  by (auto simp: namedReturn_def split: if_splits option.splits)

lemma allowedNext_cases:
  assumes "p \<in> set (allowedNext ts)"
  shows "(latestApplied ts = None \<and> p = 0) \<or>
    (\<exists>t\<in>set ts. latestApplied ts = Some t \<and> (p = t_phase t + 1 \<and> 0 \<le> t_phase t \<and> t_phase t \<le> 7 \<or> p \<in> set (RETURNS (t_phase t))))"
  using assms latestApplied_in [of ts]
  by (auto simp: allowedNext_def FORWARD_def dest: namedReturn_Some split: option.splits if_splits)

text \<open>
  C31. No phase is jumped over: in every log that grew through \<open>validateTransition\<close>, a
  transition of phase \<open>n\<close> is there only together with transitions of all phases from 0 to
  \<open>n\<close>, and every phase lies between 0 and 8.
\<close>

theorem no_phase_skipped:
  assumes "phase_log h ts" and "t \<in> set ts" and "0 \<le> k" and "k \<le> t_phase t"
  shows "t_phase t \<le> 8 \<and> (\<exists>t'\<in>set ts. t_phase t' = k)"
  using assms
proof (induction arbitrary: t k rule: phase_log.induct)
  case empty
  then show ?case by simp
next
  case (append ts q r phase key uri)
  let ?n = "stored q phase key uri"
  have ok: "phase \<in> set (allowedNext ts)" "phase \<le> 8"
    using append.hyps(2) by (rule validateTransition_Inr, use append.hyps(3) in simp)+
  show ?case
  proof (cases "t \<in> set ts")
    case True
    with append.IH [OF True append.prems(2,3)] show ?thesis by auto
  next
    case False
    with append.prems(1) have t: "t = ?n" by simp
    show ?thesis
    proof (cases "k = phase")
      case True
      with t ok show ?thesis by (auto simp: stored_def)
    next
      case kp: False
      with append.prems(3) t have less: "k < phase" by (simp add: stored_def)
      with append.prems(2) ok allowedNext_cases [OF ok(1)] obtain u where "u \<in> set ts" "k \<le> t_phase u"
        using RETURNS_below by fastforce
      with append.IH [of u k] append.prems(2) ok t show ?thesis by (auto simp: stored_def)
    qed
  qed
qed

lemma first_log: "phase_log h [stored first_request 0 None None]"
proof -
  obtain r where "validateTransition h [] first_request = Inr r" using first_request_accepted by blast
  from phase_log.append [OF phase_log.empty this, of 0 None None] show ?thesis
    by (simp add: first_request_def js_int_def del: of_nat_0)
qed

theorem no_phase_skipped_witness:
  "\<exists>t'\<in>set [stored first_request 0 None None]. t_phase t' = 0"
  using no_phase_skipped [OF first_log [of const_host], of "stored first_request 0 None None" 0]
  by (simp add: stored_def)

lemma phase_log_count:
  assumes "phase_log h ts"
  shows "countReturnCycles ts a b \<le> 2"
  using assms
proof (induction rule: phase_log.induct)
  case empty
  show ?case by (simp add: countReturnCycles_def)
next
  case (append ts q r phase key uri)
  have "q_status q = JStr ''skipped'' \<Longrightarrow> named_target phase (q_reason q) = Some t \<Longrightarrow> countReturnCycles ts phase t < 2"
    and "one_of [''pass'', ''skipped''] (q_status q)" for t
    using append.hyps(2) by (rule validateTransition_Inr, use append.hyps(3) in simp)+
  with append.IH show ?case
    by (auto simp: countReturnCycles_snoc stored_def one_of_iff)
qed

lemma phase_log_range:
  assumes "phase_log h ts" and "t \<in> set ts"
  shows "0 \<le> t_phase t \<and> t_phase t \<le> 8"
  using assms
proof (induction rule: phase_log.induct)
  case (append ts q r phase key uri)
  have "0 \<le> phase \<and> phase \<le> 8"
    using append.hyps(2) by (rule validateTransition_Inr) (use append.hyps(3) in simp)
  with append show ?case by (auto simp: stored_def)
qed simp

lemma phase_log_latest: "phase_log h ts \<Longrightarrow> ts \<noteq> [] \<Longrightarrow> latestApplied ts = Some (last ts)"
proof (induction rule: phase_log.induct)
  case (append ts q r phase key uri)
  have "one_of [''pass'', ''skipped''] (q_status q)" using append.hyps(2) by (rule validateTransition_Inr)
  then have "applied (stored q phase key uri)" by (auto simp: applied_def stored_def one_of_iff)
  then show ?case by (simp add: latestApplied_snoc)
qed simp

text \<open>One step of a log: to the phase a defect names, or else along the graph.\<close>

definition follows :: "transition \<Rightarrow> transition \<Rightarrow> bool" where
  "follows t t' \<longleftrightarrow> (case namedReturn t of
       Some b \<Rightarrow> t_phase t' = b
     | None \<Rightarrow> t_phase t' = t_phase t + 1 \<or> t_phase t' \<in> set (RETURNS (t_phase t)))"

lemma allowed_follows:
  assumes "latestApplied ts = Some t" and "t_phase t' \<in> set (allowedNext ts)"
  shows "follows t t'"
  using assms by (auto simp: allowedNext_def follows_def FORWARD_def split: option.splits if_splits)

lemma phase_log_follows: "phase_log h ts \<Longrightarrow> Suc i < length ts \<Longrightarrow> follows (ts ! i) (ts ! Suc i)"
proof (induction rule: phase_log.induct)
  case (append ts q r phase key uri)
  show ?case
  proof (cases "Suc i < length ts")
    case True
    with append.IH show ?thesis by (simp add: nth_append)
  next
    case False
    with append.prems have i: "Suc i = length ts" by simp
    then have ne: "ts \<noteq> []" by auto
    have "phase \<in> set (allowedNext ts)"
      using append.hyps(2) by (rule validateTransition_Inr) (use append.hyps(3) in simp)
    then have "follows (last ts) (stored q phase key uri)"
      by (intro allowed_follows [OF phase_log_latest [OF append.hyps(1) ne]]) (simp add: stored_def)
    moreover have "i = length ts - 1" "i < length ts" using i by simp_all
    ultimately show ?thesis using i ne by (simp add: nth_append last_conv_nth)
  qed
qed simp

text \<open>
  C24. Defects come back to the phase they name, a limited number of times. In every log that grew
  through \<open>validateTransition\<close>, a skip of one phase that names the same return is recorded at most
  \<open>MAX_RETURN_CYCLES\<close> times; the entry after a skip that names a legal return is of the phase it names;
  and every other step goes one phase forward or along the return table. (A step back along the table
  after a pass, naming nothing, is not counted: \<open>unnamed_returns\<close>.)
\<close>

theorem return_limit:
  assumes "phase_log h ts"
  shows "length (filter (\<lambda>t. t_phase t = a \<and> t_status t = ''skipped'' \<and> named_target a (t_reason t) = Some b) ts) \<le> MAX_RETURN_CYCLES
    \<and> (\<forall>i. Suc i < length ts \<longrightarrow> (case namedReturn (ts ! i) of
          Some c \<Rightarrow> t_phase (ts ! Suc i) = c
        | None \<Rightarrow> t_phase (ts ! Suc i) = t_phase (ts ! i) + 1 \<or> t_phase (ts ! Suc i) \<in> set (RETURNS (t_phase (ts ! i)))))"
proof -
  have "countReturnCycles ts a b = length (filter (\<lambda>t. t_phase t = a \<and> t_status t = ''skipped'' \<and> named_target a (t_reason t) = Some b) ts)"
    unfolding countReturnCycles_def by (rule arg_cong [of _ _ length], rule filter_cong) auto
  with phase_log_count [OF assms, of a b] phase_log_follows [OF assms] show ?thesis
    by (simp add: MAX_RETURN_CYCLES_def follows_def)
qed

lemma allowedNext_range:
  assumes "phase_log h ts" and "p \<in> set (allowedNext ts)"
  shows "0 \<le> p \<and> p \<le> 8"
  using allowedNext_cases [OF assms(2)] phase_log_range [OF assms(1)] RETURNS_below by fastforce

lemma allowedNext_nonempty:
  assumes "phase_log h ts"
  shows "allowedNext ts \<noteq> []"
proof (cases "latestApplied ts")
  case None
  then show ?thesis by (simp add: allowedNext_def)
next
  case (Some t)
  have "FORWARD (t_phase t) @ RETURNS (t_phase t) \<noteq> []"
    using phase_log_range [OF assms latestApplied_in [OF Some]] by (auto simp: FORWARD_def RETURNS_def)
  moreover have "\<not> countReturnCycles ts (t_phase t) b > MAX_RETURN_CYCLES" for b
    using phase_log_count [OF assms] by (simp add: MAX_RETURN_CYCLES_def not_less)
  ultimately show ?thesis using Some by (simp add: allowedNext_def split: option.split)
qed

lemma pass_accepted:
  assumes "0 \<le> p" and "p \<le> 8" and "p \<in> set (allowedNext ts)"
  shows "\<exists>r seat. validateTransition h ts (first_request\<lparr>q_phase := JInt p, q_seat := JStr seat\<rparr>) = Inr r"
proof -
  obtain spec where spec: "phaseSpec p = Inr spec" using phaseSpec_total assms by blast
  let ?seat = "hd (ps_seats spec)"
  have "?seat \<noteq> []" "?seat \<in> set (ps_seats spec)"
    using PHASES_seats phaseSpec_Inr [OF spec] by (metis hd_in_set)+
  then obtain rs where "resolveRoleAndSeat h p (JStr ?seat) JUndef = Inr rs"
    using spec by (simp add: resolveRoleAndSeat_def seatsFor_def one_of_def js_default_def)
  then have "\<exists>r. validateTransition h ts (first_request\<lparr>q_phase := JInt p, q_seat := JStr ?seat\<rparr>) = Inr r"
    using assms spec
    by (simp add: validateTransition_def first_request_def one_of_def js_int_def transition_result_def Let_def)
  then show ?thesis by blast
qed

text \<open>A log with a defect: the analyst sends the work back, and the product manager takes it up again.\<close>

definition defect_request :: request where
  "defect_request = first_request\<lparr>q_phase := JInt 1, q_status := JStr ''skipped'', q_seat := JStr ''pm.analyst'',
     q_reason := Some ''return to phase 0''\<rparr>"

definition defect_log :: "transition list" where
  "defect_log = [stored first_request 0 None None, stored defect_request 1 None None, stored first_request 0 None None]"

lemma defect_named: "named_target 1 (Some ''return to phase 0'') = Some 0"
  by (simp add: named_target_def reason_text_def js_lower_def lower_char_def is_digit_def digits_val_def)

lemma defect_logged: "phase_log const_host defect_log"
proof -
  have l: "latestApplied [stored first_request 0 None None] = Some (stored first_request 0 None None)"
    "latestApplied [stored first_request 0 None None, stored defect_request 1 None None] = Some (stored defect_request 1 None None)"
    by (simp_all add: latestApplied_def applied_def stored_def first_request_def defect_request_def)
  have n: "namedReturn (stored first_request 0 None None) = None" "namedReturn (stored defect_request 1 None None) = Some 0"
    by (simp_all add: namedReturn_def stored_def first_request_def defect_request_def defect_named RETURNS_def)
  have c: "countReturnCycles [stored first_request 0 None None] 1 0 = 0"
    "countReturnCycles [stored first_request 0 None None, stored defect_request 1 None None] 1 0 = 1"
    by (simp_all add: countReturnCycles_def stored_def first_request_def defect_request_def defect_named)
  have a: "allowedNext [stored first_request 0 None None] = [1]"
    "allowedNext [stored first_request 0 None None, stored defect_request 1 None None] = [0]"
  proof -
    have p: "t_phase (stored q k key uri) = k" for q k key uri by (simp add: stored_def)
    show "allowedNext [stored first_request 0 None None] = [1]"
      "allowedNext [stored first_request 0 None None, stored defect_request 1 None None] = [0]"
      unfolding allowedNext_def l n option.case p c by (simp_all add: MAX_RETURN_CYCLES_def FORWARD_def RETURNS_def)
  qed
  have t: "js_trim ''return to phase 0'' \<noteq> []" by (simp add: js_trim_def is_space_def)
  have "\<exists>r. validateTransition const_host [stored first_request 0 None None] defect_request = Inr r"
    using a(1) c(1) t rat_int_of_int [of 1]
    by (simp add: validateTransition_def defect_request_def first_request_def one_of_def js_int_def reason_text_def defect_named
        MAX_RETURN_CYCLES_def phaseSpec_def PHASES_def resolveRoleAndSeat_def seatsFor_def js_default_def transition_result_def Let_def)
  then have "phase_log const_host [stored first_request 0 None None, stored defect_request 1 None None]"
    using phase_log.append [OF first_log [of const_host], of defect_request _ 1 None None]
    by (auto simp: defect_request_def js_int_def)
  moreover have "\<exists>r. validateTransition const_host [stored first_request 0 None None, stored defect_request 1 None None] first_request = Inr r"
    using a(2) rat_int_of_int [of 0]
    by (simp add: validateTransition_def first_request_def one_of_def js_int_def phaseSpec_def PHASES_def resolveRoleAndSeat_def
        seatsFor_def js_default_def transition_result_def Let_def)
  ultimately show ?thesis
    using phase_log.append [of const_host "[stored first_request 0 None None, stored defect_request 1 None None]" first_request _ 0 None None]
    by (auto simp: defect_log_def first_request_def js_int_def)
qed

theorem return_limit_witness:
  "namedReturn (defect_log ! 1) = Some 0 \<and> t_phase (defect_log ! 2) = 0
    \<and> length (filter (\<lambda>t. t_phase t = 1 \<and> t_status t = ''skipped'' \<and> named_target 1 (t_reason t) = Some 0) defect_log) = 1"
proof -
  have n: "namedReturn (defect_log ! 1) = Some 0"
    by (simp add: defect_log_def namedReturn_def stored_def first_request_def defect_request_def defect_named RETURNS_def)
  moreover have "t_phase (defect_log ! 2) = 0"
    using return_limit [OF defect_logged, THEN conjunct2, rule_format, of 1] n by (simp add: defect_log_def numeral_2_eq_2)
  ultimately show ?thesis
    by (simp add: defect_log_def stored_def first_request_def defect_request_def defect_named)
qed

text \<open>Steps back that name nothing: any number of them, none of them counted.\<close>

definition steps_back :: "transition list \<Rightarrow> int \<Rightarrow> int \<Rightarrow> nat" where
  "steps_back ts p q = length (filter (\<lambda>(t, u). t_phase t = p \<and> t_phase u = q) (zip ts (tl ts)))"

lemma zip_tl_snoc: "xs \<noteq> [] \<Longrightarrow> zip (xs @ [u]) (tl (xs @ [u])) = zip xs (tl xs) @ [(last xs, u)]"
  by (induction xs) (auto simp: neq_Nil_conv split: if_splits)

lemma pass_logged:
  assumes "phase_log h ts" and "p \<in> set (allowedNext ts)" and "0 \<le> p" and "p \<le> 8"
  shows "\<exists>u. phase_log h (ts @ [u]) \<and> t_phase u = p \<and> t_status u = ''pass''"
proof -
  obtain r seat where "validateTransition h ts (first_request\<lparr>q_phase := JInt p, q_seat := JStr seat\<rparr>) = Inr r"
    using pass_accepted [OF assms(3,4,2)] by blast
  from phase_log.append [OF assms(1) this, of p None None] show ?thesis
    by (intro exI [of _ "stored (first_request\<lparr>q_phase := JInt p, q_seat := JStr seat\<rparr>) p None None"])
      (simp add: stored_def first_request_def js_int_def)
qed

lemma unnamed_returns:
  "\<exists>ts. phase_log h ts \<and> (\<forall>a b. countReturnCycles ts a b = 0) \<and> steps_back ts 1 0 = n \<and> ts \<noteq> [] \<and> t_phase (last ts) = 0 \<and> t_status (last ts) = ''pass''"
proof (induction n)
  case 0
  show ?case
    by (rule exI [of _ "[stored first_request 0 None None]"], intro conjI first_log)
      (simp_all add: countReturnCycles_def steps_back_def stored_def first_request_def)
next
  case (Suc n)
  then obtain ts where ts: "phase_log h ts" "\<forall>a b. countReturnCycles ts a b = 0" "steps_back ts 1 0 = n" "ts \<noteq> []"
    "t_phase (last ts) = 0" "t_status (last ts) = ''pass''" by blast
  have "1 \<in> set (allowedNext ts)"
    using phase_log_latest [OF ts(1,4)] ts(5,6) by (simp add: allowedNext_def namedReturn_def FORWARD_def)
  from pass_logged [OF ts(1) this] obtain u where u: "phase_log h (ts @ [u])" "t_phase u = 1" "t_status u = ''pass''" by auto
  have "0 \<in> set (allowedNext (ts @ [u]))"
    using phase_log_latest [OF u(1)] u(2,3) by (simp add: allowedNext_def namedReturn_def RETURNS_def)
  from pass_logged [OF u(1) this] obtain v where v: "phase_log h ((ts @ [u]) @ [v])" "t_phase v = 0" "t_status v = ''pass''" by auto
  have "steps_back ((ts @ [u]) @ [v]) 1 0 = Suc n"
    using ts(3,5) u(2) v(2) unfolding steps_back_def
    by (subst zip_tl_snoc, simp, subst zip_tl_snoc [OF ts(4)], simp)
  moreover have "\<forall>a b. countReturnCycles ((ts @ [u]) @ [v]) a b = 0"
    using ts(2) u(3) v(3) unfolding countReturnCycles_snoc by simp
  ultimately show ?case using v by (intro exI [of _ "(ts @ [u]) @ [v]"]) simp
qed

text \<open>
  C32. A log is never stuck: some phase is always allowed next, and passing any allowed phase from
  one of its seats, with no previous id claimed and no files reported, is accepted.
\<close>

theorem log_progress:
  assumes "phase_log h ts"
  shows "allowedNext ts \<noteq> [] \<and> (\<forall>p\<in>set (allowedNext ts). \<exists>r seat. validateTransition h ts
      (first_request\<lparr>q_phase := JInt p, q_seat := JStr seat\<rparr>) = Inr r)"
  using allowedNext_nonempty [OF assms] allowedNext_range [OF assms] pass_accepted by blast

theorem log_progress_witness:
  "\<exists>r seat. validateTransition const_host [stored first_request 0 None None]
      (first_request\<lparr>q_phase := JInt 1, q_seat := JStr seat\<rparr>) = Inr r"
proof -
  have "1 \<in> set (allowedNext [stored first_request 0 None None])"
    by (simp add: allowedNext_def latestApplied_def applied_def stored_def first_request_def namedReturn_def FORWARD_def)
  with log_progress [OF first_log [of const_host]] show ?thesis by blast
qed

end
