(* ===== verification/ProcessState.thy ===== *)
theory ProcessState
  imports PhaseGraph
begin

text \<open>
  The visible process state (src/lib/core/process-state.mjs): a projection of the phase log and
  one integration fact, the board that groups items by it, and the checks that keep the four
  states fixed.
\<close>

record process_state =
  st_id :: string
  st_name :: string
  st_label :: string

definition PROCESS_STATES :: "process_state list" where
  "PROCESS_STATES = [
     \<lparr>st_id = ''backlog'', st_name = ''Backlog'', st_label = ''state:backlog''\<rparr>,
     \<lparr>st_id = ''readiness'', st_name = ''Readiness'', st_label = ''state:readiness''\<rparr>,
     \<lparr>st_id = ''wip'', st_name = ''WIP'', st_label = ''state:wip''\<rparr>,
     \<lparr>st_id = ''delivered'', st_name = ''Delivered'', st_label = ''state:delivered''\<rparr>]"

definition PROCESS_STATE_IDS :: "string list" where
  "PROCESS_STATE_IDS = map st_id PROCESS_STATES"

definition PROCESS_STATE_LABELS :: "string list" where
  "PROCESS_STATE_LABELS = map st_label PROCESS_STATES"

definition FIXED :: string where
  "FIXED = js_join '', '' (map st_name PROCESS_STATES)"

definition processStateSpec :: "string \<Rightarrow> process_state option" where
  "processStateSpec i = find (\<lambda>state. st_id state = i) PROCESS_STATES"

definition returnTarget :: "transition \<Rightarrow> int option" where
  "returnTarget t = (if t_status t \<noteq> ''skipped'' then None else return_match (js_lower (reason_text (t_reason t))))"

definition projectProcessState :: "transition list \<Rightarrow> js \<Rightarrow> js \<Rightarrow> string option" where
  "projectProcessState transitions integration isClosed =
     (if truthy integration then Some ''delivered''
      else if truthy isClosed then None
      else case latestApplied transitions of
        None \<Rightarrow> Some ''backlog''
      | Some latest \<Rightarrow>
          let back = returnTarget latest in
          if back = Some 0 \<or> back = Some 1 then Some ''backlog''
          else if t_phase latest = 0 then Some ''backlog''
          else if t_phase latest = 1
          then Some (if t_status latest = ''pass'' \<and> back = None then ''readiness'' else ''backlog'')
          else Some ''wip'')"

record item =
  i_id :: js
  i_title :: js
  i_uri :: js
  i_transitions :: "transition list"
  i_integration :: js
  i_closed :: js
  i_closeReason :: js

record entry =
  e_id :: js
  e_title :: js
  e_uri :: js

definition item_entry :: "item \<Rightarrow> entry" where
  "item_entry it = \<lparr>e_id = i_id it, e_title = coal (i_title it) (JStr []), e_uri = coal (i_uri it) JNull\<rparr>"

definition item_state :: "item \<Rightarrow> string option" where
  "item_state it = projectProcessState (i_transitions it) (i_integration it) (i_closed it)"

record board =
  b_groups :: "(process_state \<times> entry list) list"
  b_excluded :: "(entry \<times> js) list"

text \<open>\<open>groups.find((group) => group.id === state).items.push(entry)\<close>\<close>

fun push_group :: "(process_state \<times> entry list) list \<Rightarrow> string \<Rightarrow> entry \<Rightarrow> (process_state \<times> entry list) list" where
  "push_group [] state e = []"
| "push_group ((st, items) # gs) state e =
     (if st_id st = state then (st, items @ [e]) # gs else (st, items) # push_group gs state e)"

definition board_step :: "board \<Rightarrow> item \<Rightarrow> board" where
  "board_step b it = (case item_state it of
       None \<Rightarrow> b\<lparr>b_excluded := b_excluded b @ [(item_entry it, coal (i_closeReason it) JNull)]\<rparr>
     | Some state \<Rightarrow> b\<lparr>b_groups := push_group (b_groups b) state (item_entry it)\<rparr>)"

definition buildBoard :: "item list \<Rightarrow> board" where
  "buildBoard items = foldl board_step \<lparr>b_groups = map (\<lambda>state. (state, [])) PROCESS_STATES, b_excluded = []\<rparr> items"

definition renderBoard :: "host \<Rightarrow> board \<Rightarrow> string" where
  "renderBoard h b = js_join [CHR 0x0A]
     (concat (map (\<lambda>(st, items). (st_name st @ '' ('' @ nat_str (length items) @ '')'')
          # map (\<lambda>e. ''  '' @ js_string h (e_id e) @ ''  '' @ js_string h (e_title e)) items) (b_groups b))
      @ [''Not on the board: '' @ nat_str (length (b_excluded b)) @ '' closed without an integration fact''])"

text \<open>\<open>.replace(/^state:/, '')\<close>\<close>

definition strip_state :: "string \<Rightarrow> string" where
  "strip_state s = (if starts_with s ''state:'' then drop 6 s else s)"

definition validateProcessStateVocabulary :: "host \<Rightarrow> js \<Rightarrow> string \<Rightarrow> string list" where
  "validateProcessStateVocabulary h declared field =
     (if declared = JUndef then []
      else let values = (if is_array declared then elems declared else [declared]);
               normalized = map (\<lambda>v. strip_state (js_lower (js_trim (js_string h (coal v (JStr [])))))) values
           in if length normalized = length PROCESS_STATE_IDS \<and> distinct normalized
                 \<and> list_all (\<lambda>v. v \<in> set PROCESS_STATE_IDS) normalized then []
              else [field @ '' cannot add or rename a process state; the fixed states are '' @ FIXED])"

definition validateStateLabels :: "js list \<Rightarrow> string \<Rightarrow> string list" where
  "validateStateLabels labels field =
     (let unknown = filter (\<lambda>l. is_string l \<and> starts_with (str_of l) ''state:'' \<and> str_of l \<notin> set PROCESS_STATE_LABELS) labels
      in if unknown = [] then []
         else [field @ '' declares '' @ js_join '', '' (map str_of unknown)
           @ ''; a process state cannot be added or renamed, the fixed states are '' @ FIXED])"

section \<open>Facts\<close>

lemma projectProcessState_ids: "projectProcessState ts i c = Some s \<Longrightarrow> s \<in> set PROCESS_STATE_IDS"
  by (auto simp: projectProcessState_def PROCESS_STATE_IDS_def PROCESS_STATES_def Let_def split: if_splits option.splits)

lemma push_group_map:
  assumes "distinct (map st_id sts)"
  shows "push_group (map (\<lambda>st. (st, f st)) sts) s e = map (\<lambda>st. (st, if st_id st = s then f st @ [e] else f st)) sts"
  using assms by (induction sts) (auto simp: rev_image_eqI)

lemma board_groups:
  "b_groups (foldl board_step \<lparr>b_groups = map (\<lambda>state. (state, f state)) PROCESS_STATES, b_excluded = ex\<rparr> items)
     = map (\<lambda>state. (state, f state @ map item_entry (filter (\<lambda>it. item_state it = Some (st_id state)) items))) PROCESS_STATES"
  "b_excluded (foldl board_step \<lparr>b_groups = map (\<lambda>state. (state, f state)) PROCESS_STATES, b_excluded = ex\<rparr> items)
     = ex @ map (\<lambda>it. (item_entry it, coal (i_closeReason it) JNull)) (filter (\<lambda>it. item_state it = None) items)"
proof (induction items arbitrary: f ex)
  case (Cons it items)
  have d: "distinct (map st_id PROCESS_STATES)" by (simp add: PROCESS_STATES_def)
  {
    case 1
    show ?case
    proof (cases "item_state it")
      case None
      then show ?thesis using Cons(1) [of f] by (simp add: board_step_def)
    next
      case (Some s)
      then show ?thesis
        using Cons(1) [of "\<lambda>st. if st_id st = s then f st @ [item_entry it] else f st"]
        by (simp add: board_step_def push_group_map [OF d])
    qed
  next
    case 2
    show ?case
    proof (cases "item_state it")
      case None
      then show ?thesis using Cons(2) [of f] by (simp add: board_step_def)
    next
      case (Some s)
      then show ?thesis
        using Cons(2) [of "\<lambda>st. if st_id st = s then f st @ [item_entry it] else f st"]
        by (simp add: board_step_def push_group_map [OF d])
    qed
  }
qed simp_all

text \<open>
  The board built item by item is the board given by filtering: each of the four groups, in
  fixed order, holds the entries of exactly the items that project to its state, in item order,
  the excluded list holds the others, and no item is lost or shown twice.
\<close>

theorem buildBoard_spec:
  "b_groups (buildBoard items) = map (\<lambda>state. (state,
      map item_entry (filter (\<lambda>it. item_state it = Some (st_id state)) items))) PROCESS_STATES
   \<and> b_excluded (buildBoard items)
      = map (\<lambda>it. (item_entry it, coal (i_closeReason it) JNull)) (filter (\<lambda>it. item_state it = None) items)
   \<and> sum_list (map (\<lambda>(_, es). length es) (b_groups (buildBoard items))) + length (b_excluded (buildBoard items))
      = length items"
proof (intro conjI)
  show g: "b_groups (buildBoard items) = map (\<lambda>state. (state,
      map item_entry (filter (\<lambda>it. item_state it = Some (st_id state)) items))) PROCESS_STATES"
    using board_groups(1) [of "\<lambda>_. []" "[]" items] by (simp add: buildBoard_def)
  show x: "b_excluded (buildBoard items)
      = map (\<lambda>it. (item_entry it, coal (i_closeReason it) JNull)) (filter (\<lambda>it. item_state it = None) items)"
    using board_groups(2) [of "\<lambda>_. []" "[]" items] by (simp add: buildBoard_def)
  have "sum_list (map (\<lambda>st. length (filter (\<lambda>it. item_state it = Some (st_id st)) items)) PROCESS_STATES)
      + length (filter (\<lambda>it. item_state it = None) items) = length items"
  proof (induction items)
    case (Cons it items)
    show ?case
    proof (cases "item_state it")
      case (Some s)
      then have "s \<in> set PROCESS_STATE_IDS" using projectProcessState_ids by (auto simp: item_state_def)
      with Some Cons.IH show ?thesis by (auto simp: PROCESS_STATE_IDS_def PROCESS_STATES_def)
    qed (use Cons.IH in \<open>simp add: PROCESS_STATES_def\<close>)
  qed (simp add: PROCESS_STATES_def)
  then show "sum_list (map (\<lambda>(_, es). length es) (b_groups (buildBoard items))) + length (b_excluded (buildBoard items))
      = length items"
    by (simp add: g x comp_def)
qed

end
