(* ===== verification/RunTypes.thy ===== *)
theory RunTypes
  imports Artifacts
begin

text \<open>
  The state of one delivery run as src/lib/core/run-state.mjs builds it, shared by the components
  that read it. A field that the code only copies from event payloads is a JavaScript value; a
  property the code deletes or has not set yet is \<open>JUndef\<close>. \<open>openRework\<close> and
  \<open>operations\<close> are ordinary objects (a computed read may find an inherited member),
  \<open>grants\<close> and \<open>admissions\<close> are objects without a prototype.
\<close>

datatype run_status = Active | Paused | Blocked | Completed | Cancelled

fun status_name :: "run_status \<Rightarrow> string" where
  "status_name Active = ''active''"
| "status_name Paused = ''paused''"
| "status_name Blocked = ''blocked''"
| "status_name Completed = ''completed''"
| "status_name Cancelled = ''cancelled''"

text \<open>The two counters of \<open>budgetUsed\<close> and \<open>budgetReserved\<close>.\<close>

record budget =
  attempts :: int
  externalEffects :: int

record grant =
  envelope :: js
  g_revision :: js
  g_active :: bool
  g_revocationEpoch :: nat
  budgetUsed :: budget
  budgetReserved :: budget

record run_state =
  runId :: js
  goalRef :: js
  profile :: js
  boundary :: js
  authorityProtocol :: js
  owner :: js
  writer :: js
  budget_config :: js
  budgetAdmission :: js
  generation :: nat
  status :: run_status
  phase :: nat
  candidateDigest :: js
  observations :: "js list"
  openRework :: "(string \<times> js) list"
  operations :: "(string \<times> js) list"
  history :: "js list"
  revision :: js
  grants :: "(string \<times> grant) list"
  admissions :: "(string \<times> js) list"
  delegationPolicy :: js
  safetyUsed :: nat
  safetyRecords :: "js list"
  revocationEpoch :: nat
  oraclePin :: js
  oracleDigest :: js
  contract :: js
  contractSourceRevision :: js
  reason :: js
  oracleAssuranceRequired :: bool
  oracleCustody :: js
  oraclePackage :: js
  oraclePackageDeveloper :: js
  oracleRuntimeEvidence :: js

text \<open>An instant the way the sources test one: \<open>Number.isFinite(Date.parse(v))\<close>.\<close>

definition is_instant :: "host \<Rightarrow> js \<Rightarrow> bool" where
  "is_instant h v = is_finite (date_parse h v)"

text \<open>\<open>Number.isSafeInteger(v) && v >= 0\<close>\<close>

definition safe_counter :: "js \<Rightarrow> bool" where
  "safe_counter v = (js_safe_int v \<and> (case js_int v of Some n \<Rightarrow> 0 \<le> n | None \<Rightarrow> False))"

definition err_message :: "jserr \<Rightarrow> string" where
  "err_message e = (case e of Error m \<Rightarrow> m | TypeError m \<Rightarrow> m)"

text \<open>The elements a \<open>for ... of\<close> loop visits.\<close>

definition js_iter :: "js \<Rightarrow> js list res" where
  "js_iter v = (case v of JArr xs \<Rightarrow> Inr xs | JStr s \<Rightarrow> Inr (map (\<lambda>c. JStr [c]) s)
     | _ \<Rightarrow> Inl (TypeError ''not iterable''))"

end
