(* ===== verification/Observation.thy ===== *)
theory Observation
  imports RunTypes
begin

text \<open>
  Verification observations (src/lib/core/verification-observation.mjs): the identity of a candidate,
  the shape of an observation, and the resolution that says whether it satisfies a policy.
\<close>

definition OBSERVATION_ORIGINS :: "string list" where
  "OBSERVATION_ORIGINS = [''collector-observed'', ''external-resolved'', ''agent-reported'', ''human-attested'']"

definition OBSERVATION_OUTCOMES :: "string list" where
  "OBSERVATION_OUTCOMES = [''pass'', ''fail'', ''blocked'', ''not-run'', ''unknown'']"

definition createCandidateIdentity :: "host \<Rightarrow> js \<Rightarrow> js \<Rightarrow> (string \<times> js) list res" where
  "createCandidateIdentity h inputs context' =
     (if \<not> truthy inputs \<or> is_array inputs \<or> \<not> typeof_object inputs \<or> own_props inputs = []
      then fail ''Candidate requires explicit inputs''
      else bnd (for_each (\<lambda>(path, hash). bnd (requireText (JStr path) ''input path'') (\<lambda>_.
               requireDigest h hash (''input '' @ path))) (own_props inputs)) (\<lambda>_.
        Inr (sealDeliveryRecord h ''candidate-identity''
          [(''inputs'', inputs), (''context'', js_default context' (JObj []))])))"

text \<open>The body of the \<open>try\<close> block of \<open>validateObservation\<close>.\<close>

definition check_observation :: "host \<Rightarrow> js \<Rightarrow> unit res" where
  "check_observation h obs =
     bnd (requireDeliveryRecord h obs ''verification-observation'') (\<lambda>_.
     bnd (for_each (\<lambda>field. requireText (fld obs field) field)
       [''id'', ''invocationId'', ''criterionId'', ''producer'']) (\<lambda>_.
     bnd (requireDigest h (fld obs ''candidateDigest'') ''candidateDigest'') (\<lambda>_.
     bnd (requireDigest h (fld obs ''definitionDigest'') ''definitionDigest'') (\<lambda>_.
     bnd (if \<not> js_eq (fld obs ''executionContextDigest'') JUndef
          then requireDigest h (fld obs ''executionContextDigest'') ''executionContextDigest'' else Inr JUndef) (\<lambda>_.
     if \<not> one_of OBSERVATION_ORIGINS (fld obs ''origin'') then fail ''Invalid observation origin''
     else if \<not> one_of OBSERVATION_OUTCOMES (fld obs ''outcome'') then fail ''Invalid observation outcome''
     else if \<not> one_of [''immutable'', ''cooperative'', ''unknown''] (fld obs ''isolation'') then fail ''Invalid isolation''
     else let start = date_parse h (fld obs ''startedAt''); finish = date_parse h (fld obs ''completedAt'') in
       if \<not> is_finite start \<or> \<not> is_finite finish \<or> num_less finish start then fail ''Invalid observation interval''
       else if \<not> is_array (fld obs ''assertions'') then fail ''assertions must be an array''
       else bnd (map_res (\<lambda>item. bnd (dot item ''id'') (\<lambda>i. requireText i ''assertion id'')) (elems (fld obs ''assertions''))) (\<lambda>ids.
         bnd (requireUnique (JArr ids) ''assertion IDs'') (\<lambda>_.
         for_each (\<lambda>a. if \<not> one_of OBSERVATION_OUTCOMES (fld a ''outcome'')
             then fail ''Invalid assertion outcome'' else Inr ()) (elems (fld obs ''assertions'')))))))))"

definition validateObservation :: "host \<Rightarrow> js \<Rightarrow> string list" where
  "validateObservation h obs = (case check_observation h obs of Inl e \<Rightarrow> [err_message e] | Inr _ \<Rightarrow> [])"

text \<open>\<open>new Map(assertions.map((item) => [item.id, item.outcome])).get(id)\<close>: the last entry wins.\<close>

definition assertion_outcome :: "js list \<Rightarrow> js \<Rightarrow> js" where
  "assertion_outcome assertions i = (case find (\<lambda>a. same_zero i (fld a ''id'')) (rev assertions) of
     Some a \<Rightarrow> fld a ''outcome'' | None \<Rightarrow> JUndef)"

text \<open>\<open>Date.parse(now) - Date.parse(then)\<close>\<close>

definition date_diff :: "jsnum \<Rightarrow> jsnum \<Rightarrow> jsnum" where
  "date_diff a b = (case (a, b) of (Fin x, Fin y) \<Rightarrow> Fin (x - y) | _ \<Rightarrow> NaN)"

record policy =
  allowedOrigins :: js
  requireImmutable :: js
  maxAgeMs :: "jsnum option"
  sourceVerified :: js

definition resolution :: "host \<Rightarrow> js \<Rightarrow> js \<Rightarrow> js \<Rightarrow> string list \<Rightarrow> js \<Rightarrow> (string \<times> js) list" where
  "resolution h obs cand defn errors now =
     sealDeliveryRecord h ''verification-resolution'' [
       (''observationDigest'', coal (fld obs ''digest'') JNull), (''candidateDigest'', cand),
       (''definitionDigest'', defn), (''status'', JStr (if errors \<noteq> [] then ''blocked'' else ''pass'')),
       (''errors'', JArr (map JStr errors)), (''resolvedAt'', now)]"

definition verify_errors :: "host \<Rightarrow> js \<Rightarrow> js \<Rightarrow> js \<Rightarrow> js \<Rightarrow> policy \<Rightarrow> js \<Rightarrow> string list res" where
  "verify_errors h obs cand defn required pol now =
     bnd (includes_res h (js_default (allowedOrigins pol) (jstrs [''collector-observed'', ''external-resolved'']))
         (fld obs ''origin'')) (\<lambda>origin_ok.
     let age = date_diff (date_parse h now) (date_parse h (fld obs ''completedAt'')) in
     Inr ((if elems required = [] then [''At least one required assertion is necessary''] else [])
       @ (if \<not> truthy (sourceVerified pol) then [''Observation source was not resolved''] else [])
       @ (if \<not> js_eq (fld obs ''candidateDigest'') cand then [''Candidate changed''] else [])
       @ (if \<not> js_eq (fld obs ''definitionDigest'') defn then [''Check definition changed''] else [])
       @ (if \<not> origin_ok then [''Observation origin does not satisfy policy''] else [])
       @ (if truthy (requireImmutable pol) \<and> \<not> js_eq (fld obs ''isolation'') (JStr ''immutable'')
          then [''Immutable execution required''] else [])
       @ (if \<not> js_eq (fld obs ''outcome'') (JStr ''pass'') then [''Observation did not pass''] else [])
       @ map (\<lambda>i. ''Assertion '' @ js_string h i @ '' did not pass'')
           (filter (\<lambda>i. \<not> js_eq (assertion_outcome (elems (fld obs ''assertions'')) i) (JStr ''pass'')) (elems required))
       @ (if \<not> is_finite age \<or> num_less age (Fin 0)
             \<or> (case maxAgeMs pol of None \<Rightarrow> False | Some m \<Rightarrow> num_less m age)
          then [''Observation freshness unavailable or expired''] else [])))"

definition verifyObservation :: "host \<Rightarrow> js \<Rightarrow> js \<Rightarrow> js \<Rightarrow> js \<Rightarrow> policy \<Rightarrow> js \<Rightarrow> (string \<times> js) list res" where
  "verifyObservation h obs cand defn required pol now =
     (let errors = validateObservation h obs in
      if errors \<noteq> [] then Inr (resolution h obs cand defn errors now)
      else bnd (requireUnique required ''requiredAssertions'') (\<lambda>_.
        bnd (verify_errors h obs cand defn required pol now) (\<lambda>errors'.
        Inr (resolution h obs cand defn errors' now))))"

section \<open>Facts\<close>

lemma resolution_status:
  "fld (JObj (resolution h obs cand defn errors now)) ''status'' = JStr (if errors \<noteq> [] then ''blocked'' else ''pass'')"
  by (simp add: resolution_def fld_seal_other) (simp add: fld_def obj_get_def)

lemma check_observation_ids:
  assumes "check_observation h obs = Inr ()"
  shows "fld obs ''type'' = JStr ''verification-observation'' \<and> hasCurrentDigest h obs"
  using assms by (auto simp: check_observation_def requireDeliveryRecord_Inr split: if_splits)

lemma assertion_outcome_in:
  assumes "assertion_outcome as i = JStr s"
  shows "\<exists>a\<in>set as. fld a ''id'' = i \<and> fld a ''outcome'' = JStr s"
proof -
  from assms obtain a where a: "find (\<lambda>a. same_zero i (fld a ''id'')) (rev as) = Some a" "fld a ''outcome'' = JStr s"
    by (auto simp: assertion_outcome_def split: option.splits)
  from find_SomeD [OF a(1)] have "a \<in> set as" "same_zero i (fld a ''id'')" by simp_all
  then have "i = fld a ''id''" by (auto simp: same_zero_def dest: js_eq_imp_eq)
  with \<open>a \<in> set as\<close> a(2) show ?thesis by auto
qed

text \<open>
  A resolution with status \<open>pass\<close> is only given for an observation whose seal is current,
  that was made for exactly this candidate and this check definition, whose outcome is
  \<open>pass\<close>, in which every required assertion (at least one) passed, whose source was
  resolved, and that was completed no later than now and within the maximum age.
\<close>

theorem resolution_pass_sound:
  assumes "verifyObservation h obs cand defn required pol now = Inr r" and "fld (JObj r) ''status'' = JStr ''pass''"
  shows "hasCurrentDigest h obs \<and> js_eq (fld obs ''candidateDigest'') cand \<and> js_eq (fld obs ''definitionDigest'') defn
    \<and> fld obs ''outcome'' = JStr ''pass'' \<and> truthy (sourceVerified pol)
    \<and> elems required \<noteq> []
    \<and> (\<forall>i\<in>set (elems required). \<exists>a\<in>set (elems (fld obs ''assertions'')). fld a ''id'' = i \<and> fld a ''outcome'' = JStr ''pass'')
    \<and> (truthy (requireImmutable pol) \<longrightarrow> fld obs ''isolation'' = JStr ''immutable'')
    \<and> (\<exists>age. date_diff (date_parse h now) (date_parse h (fld obs ''completedAt'')) = Fin age \<and> 0 \<le> age
        \<and> (\<forall>m. maxAgeMs pol = Some m \<longrightarrow> \<not> num_less m (Fin age)))"
proof -
  from assms have c: "check_observation h obs = Inr ()" and v: "verify_errors h obs cand defn required pol now = Inr []"
    by (auto simp: verifyObservation_def validateObservation_def resolution_status Let_def
        split: if_splits sum.splits)
  let ?age = "date_diff (date_parse h now) (date_parse h (fld obs ''completedAt''))"
  from v have f: "js_eq (fld obs ''candidateDigest'') cand" "js_eq (fld obs ''definitionDigest'') defn"
      "fld obs ''outcome'' = JStr ''pass''" "truthy (sourceVerified pol)" "elems required \<noteq> []"
      "truthy (requireImmutable pol) \<longrightarrow> fld obs ''isolation'' = JStr ''immutable''"
      "is_finite ?age" "\<not> num_less ?age (Fin 0)" "\<And>m. maxAgeMs pol = Some m \<Longrightarrow> \<not> num_less m ?age"
    and req: "\<forall>i\<in>set (elems required). assertion_outcome (elems (fld obs ''assertions'')) i = JStr ''pass''"
    by (auto simp: verify_errors_def Let_def filter_empty_conv split: if_splits option.splits)
  from f(7) obtain a where "?age = Fin a" by (cases ?age) auto
  with f(8,9) have "\<exists>age. ?age = Fin age \<and> 0 \<le> age \<and> (\<forall>m. maxAgeMs pol = Some m \<longrightarrow> \<not> num_less m (Fin age))"
    by auto
  with f(1-6) req assertion_outcome_in check_observation_ids [OF c] show ?thesis by fastforce
qed

definition sample_observation :: "(string \<times> js) list" where
  "sample_observation = sealDeliveryRecord const_host ''verification-observation'' [
     (''id'', JStr ''o1''), (''invocationId'', JStr ''i1''), (''criterionId'', JStr ''ac-1''), (''producer'', JStr ''ci''),
     (''candidateDigest'', JStr (sha256 const_host [])), (''definitionDigest'', JStr (sha256 const_host [])),
     (''origin'', JStr ''collector-observed''), (''outcome'', JStr ''pass''), (''isolation'', JStr ''immutable''),
     (''startedAt'', JStr ''2026-01-02T03:04:05.678Z''), (''completedAt'', JStr ''2026-01-02T03:04:06.000Z''),
     (''assertions'', JArr [JObj [(''id'', JStr ''unit''), (''outcome'', JStr ''pass'')]])]"

definition sample_policy :: policy where
  "sample_policy = \<lparr>allowedOrigins = JUndef, requireImmutable = JBool True, maxAgeMs = Some (Fin 60000), sourceVerified = JBool True\<rparr>"

theorem resolution_pass_sound_witness:
  "\<exists>r. verifyObservation const_host (JObj sample_observation) (JStr (sha256 const_host [])) (JStr (sha256 const_host []))
      (JArr [JStr ''unit'']) sample_policy (JStr ''2026-01-02T03:04:07.000Z'') = Inr r
    \<and> fld (JObj r) ''status'' = JStr ''pass'' \<and> fld (JObj sample_observation) ''outcome'' = JStr ''pass''"
proof -
  let ?o = "JObj sample_observation"
  have iso: "iso_ms ''2026-01-02T03:04:05.678Z'' = Some 1767323045678"
    "iso_ms ''2026-01-02T03:04:06.000Z'' = Some 1767323046000" "iso_ms ''2026-01-02T03:04:07.000Z'' = Some 1767323047000"
    by code_simp+
  have r: "requireDeliveryRecord const_host ?o ''verification-observation'' = Inr ?o"
    unfolding sample_observation_def by (rule seal_accepted) (rule const_host_hex)
  have f: "fld ?o ''id'' = JStr ''o1''" "fld ?o ''invocationId'' = JStr ''i1''" "fld ?o ''criterionId'' = JStr ''ac-1''"
    "fld ?o ''producer'' = JStr ''ci''" "fld ?o ''candidateDigest'' = JStr (sha256 const_host [])"
    "fld ?o ''definitionDigest'' = JStr (sha256 const_host [])" "fld ?o ''executionContextDigest'' = JUndef"
    "fld ?o ''origin'' = JStr ''collector-observed''" "fld ?o ''outcome'' = JStr ''pass''"
    "fld ?o ''isolation'' = JStr ''immutable''" "fld ?o ''startedAt'' = JStr ''2026-01-02T03:04:05.678Z''"
    "fld ?o ''completedAt'' = JStr ''2026-01-02T03:04:06.000Z''"
    "fld ?o ''assertions'' = JArr [JObj [(''id'', JStr ''unit''), (''outcome'', JStr ''pass'')]]"
    by (simp_all add: sample_observation_def fld_seal_other) (simp_all add: fld_def obj_get_def proto_names_def)
  have a: "fld (JObj [(''id'', JStr ''unit''), (''outcome'', JStr ''pass'')]) ''id'' = JStr ''unit''"
    "fld (JObj [(''id'', JStr ''unit''), (''outcome'', JStr ''pass'')]) ''outcome'' = JStr ''pass''"
    by (simp_all add: fld_def obj_get_def)
  have t: "is_text (JStr ''o1'')" "is_text (JStr ''i1'')" "is_text (JStr ''ac-1'')" "is_text (JStr ''ci'')" "is_text (JStr ''unit'')"
    by (simp_all add: is_text_def js_trim_def is_space_def)
  have c: "check_observation const_host ?o = Inr ()"
    by (simp add: check_observation_def r f a t requireText_def requireDigest_def const_host_hex
        one_of_def OBSERVATION_ORIGINS_def OBSERVATION_OUTCOMES_def date_parse_def iso requireUnique_def js_includes_def Let_def)
  have v: "verify_errors const_host ?o (JStr (sha256 const_host [])) (JStr (sha256 const_host []))
      (JArr [JStr ''unit'']) sample_policy (JStr ''2026-01-02T03:04:07.000Z'') = Inr []"
    by (simp add: verify_errors_def f a sample_policy_def js_default_def includes_res_def js_includes_def
        assertion_outcome_def date_parse_def iso date_diff_def Let_def)
  obtain r where r: "verifyObservation const_host ?o (JStr (sha256 const_host [])) (JStr (sha256 const_host []))
      (JArr [JStr ''unit'']) sample_policy (JStr ''2026-01-02T03:04:07.000Z'') = Inr r" "fld (JObj r) ''status'' = JStr ''pass''"
    by (simp add: verifyObservation_def validateObservation_def c v resolution_status js_includes_def)
  from resolution_pass_sound [OF r] r show ?thesis by blast
qed

end
