(* ===== verification/Oracle.thy ===== *)
theory Oracle
  imports RunTypes
begin

text \<open>
  Oracle packages and custody (src/lib/core/oracle-package.mjs, src/lib/core/oracle-custody.mjs) and
  host intent consent (src/lib/core/intent-consent.mjs): the sealed requests and receipts that later
  events of a run are checked against.
\<close>

section \<open>Oracle packages\<close>

definition ORACLE_PROOF_GROUPS :: "string list" where
  "ORACLE_PROOF_GROUPS = [''calibration'', ''nativeBaseline'', ''build'']"

definition createOraclePackageRequest :: "host \<Rightarrow> run_state \<Rightarrow> js \<Rightarrow> js \<Rightarrow> js \<Rightarrow> js \<Rightarrow> (string \<times> js) list res" where
  "createOraclePackageRequest h st sourceRevision oracleDig proposal stage =
     (if \<not> truthy proposal \<or> \<not> one_of [''pin'', ''developer''] stage
      then fail ''Oracle package proposal and valid stage required''
      else bnd (requireDigest h oracleDig ''oracleDigest'') (\<lambda>_.
        bnd (requireDigest h (fld proposal ''manifestDigest'') ''manifestDigest'') (\<lambda>_.
        Inr (sealDeliveryRecord h ''oracle-package-request'' [
          (''runId'', runId st), (''goalRef'', goalRef st), (''runRevision'', revision st),
          (''sourceRevision'', sourceRevision), (''generation'', JNat (generation st)),
          (''revocationEpoch'', JNat (revocationEpoch st)),
          (''candidateDigest'', coal (candidateDigest st) JNull), (''oracleDigest'', oracleDig),
          (''stage'', stage), (''proposal'', proposal)]))))"

definition requireOraclePackageRequest :: "host \<Rightarrow> js \<Rightarrow> js res" where
  "requireOraclePackageRequest h request =
     bnd (requireDeliveryRecord h request ''oracle-package-request'') (\<lambda>_.
     bnd (for_each (\<lambda>key. requireText (fld request key) key) [''runId'', ''goalRef'', ''sourceRevision'']) (\<lambda>_.
     bnd (for_each (\<lambda>key. requireDigest h (fld request key) key) [''runRevision'', ''oracleDigest'']) (\<lambda>_.
     bnd (requireDigest h (fld (fld request ''proposal'') ''manifestDigest'') ''manifestDigest'') (\<lambda>_.
     bnd (if \<not> js_eq (fld request ''candidateDigest'') JNull
          then requireDigest h (fld request ''candidateDigest'') ''candidateDigest'' else Inr JNull) (\<lambda>_.
     if \<not> one_of [''pin'', ''developer''] (fld request ''stage'')
        \<or> \<not> safe_counter (fld request ''generation'') \<or> \<not> safe_counter (fld request ''revocationEpoch'')
     then fail ''Invalid oracle package native binding'' else Inr request)))))"

text \<open>One iteration of the loop over the proof groups, with the three sets of identities seen.\<close>

definition proof_group_step :: "host \<Rightarrow> js \<Rightarrow> js list \<times> js list \<times> js list \<Rightarrow> string \<Rightarrow> (js list \<times> js list \<times> js list) res" where
  "proof_group_step h receipt seen grp = (case seen of (obs, defs, crits) \<Rightarrow>
     bnd (map_res (\<lambda>p. dot p ''group'') (elems (fld receipt ''proofs''))) (\<lambda>_.
     case filter (\<lambda>p. js_eq (fld p ''group'') (JStr grp)) (elems (fld receipt ''proofs'')) of
       [proof'] \<Rightarrow>
         (let res = fld proof' ''resolution''; od = fld proof' ''observationDigest'';
              dd = fld res ''definitionDigest''; ci = fld proof' ''criterionId'' in
          bnd (requireText ci ''proof criterionId'') (\<lambda>_.
          bnd (requireDigest h od ''proof observationDigest'') (\<lambda>_.
          bnd (requireDigest h (fld proof' ''executionContextDigest'') ''proof executionContextDigest'') (\<lambda>_.
          if js_includes obs od \<or> js_includes defs dd \<or> js_includes crits ci
             \<or> \<not> js_eq od (fld res ''observationDigest'')
          then fail ''Oracle proof groups reuse another group identity''
          else bnd (requireDeliveryRecord h res ''verification-resolution'') (\<lambda>_.
            bnd (requireDigest h dd ''proof definitionDigest'') (\<lambda>_.
            if \<not> js_eq (fld res ''status'') (JStr ''pass'')
               \<or> \<not> js_eq (fld res ''candidateDigest'') (fld receipt ''packageCandidateDigest'')
            then fail ''Oracle package proof did not pass for current package''
            else Inr (od # obs, dd # defs, ci # crits)))))))
     | _ \<Rightarrow> fail ''Oracle package proof group missing or duplicated''))"

definition requireOraclePackageReceipt :: "host \<Rightarrow> js \<Rightarrow> js \<Rightarrow> js res" where
  "requireOraclePackageReceipt h receipt request =
     bnd (requireOraclePackageRequest h request) (\<lambda>_.
     bnd (requireDeliveryRecord h receipt ''oracle-package-receipt'') (\<lambda>_.
     if \<not> js_eq (fld receipt ''requestDigest'') (fld request ''digest'')
        \<or> \<not> js_eq (fld receipt ''oracleDigest'') (fld request ''oracleDigest'')
        \<or> \<not> js_eq (fld receipt ''manifestDigest'') (fld (fld request ''proposal'') ''manifestDigest'')
        \<or> \<not> js_eq (fld receipt ''candidateExecutionVerified'') (JBool False)
     then fail ''Oracle package receipt does not bind current request or falsely claims candidate execution''
     else bnd (requireDigest h (fld receipt ''packageCandidateDigest'') ''packageCandidateDigest'') (\<lambda>_.
       bnd (requireText (fld receipt ''runtimeCriterionId'') ''runtimeCriterionId'') (\<lambda>_.
       if \<not> is_array (fld receipt ''artifactIdentities'') \<or> elems (fld receipt ''artifactIdentities'') = []
       then fail ''Oracle artifact identities required''
       else if \<not> is_array (fld receipt ''proofs'') \<or> length (elems (fld receipt ''proofs'')) \<noteq> length ORACLE_PROOF_GROUPS
       then fail ''Oracle package proof groups incomplete''
       else bnd (for_fold (proof_group_step h receipt) ([], [], []) ORACLE_PROOF_GROUPS) (\<lambda>_. Inr receipt)))))"

definition oraclePackageCandidate :: "js \<Rightarrow> run_state \<Rightarrow> js res" where
  "oraclePackageCandidate policy st =
     bnd (dot policy ''candidate'') (\<lambda>candidate.
     Inr (JObj (obj_set (own_props candidate) ''context''
       (JObj (obj_set (own_props (fld candidate ''context'')) ''oracleRun''
         (JObj [(''runId'', runId st), (''goalRef'', goalRef st), (''generation'', JNat (generation st)),
           (''revocationEpoch'', JNat (revocationEpoch st))]))))))"

definition oraclePackageProofIdentity :: "js \<Rightarrow> js res" where
  "oraclePackageProofIdentity receipt =
     (if \<not> is_array (fld receipt ''proofs'') then Inl (TypeError ''receipt.proofs.map is not a function'')
      else bnd (map_res (\<lambda>p. bnd (dot p ''group'') (\<lambda>g.
             bnd (dot (fld p ''resolution'') ''definitionDigest'') (\<lambda>dd.
             Inr (JObj [(''group'', g), (''criterionId'', fld p ''criterionId''),
               (''observationDigest'', fld p ''observationDigest''), (''definitionDigest'', dd),
               (''executionContextDigest'', fld p ''executionContextDigest'')])))) (elems (fld receipt ''proofs''))) (\<lambda>proofs.
        Inr (JObj [(''oracleDigest'', fld receipt ''oracleDigest''), (''manifestDigest'', fld receipt ''manifestDigest''),
          (''packageCandidateDigest'', fld receipt ''packageCandidateDigest''),
          (''artifactIdentities'', fld receipt ''artifactIdentities''), (''proofs'', JArr proofs)])))"

section \<open>Oracle custody\<close>

definition requireRef :: "host \<Rightarrow> js \<Rightarrow> string \<Rightarrow> unit res" where
  "requireRef h ref name =
     bnd (validateArtifactRef h ref (JObj [])) (\<lambda>report.
     if \<not> ok report then fail (''Oracle custody '' @ name @ '' requires a versioned ArtifactRef with digest'')
     else if \<not> truthy (fld ref ''revision'') \<or> \<not> digest_test h (fld ref ''digest'')
     then fail (''Oracle custody '' @ name @ '' requires a versioned ArtifactRef with digest'')
     else Inr ())"

definition requireOracleCustodyRequest :: "host \<Rightarrow> js \<Rightarrow> js res" where
  "requireOracleCustodyRequest h request =
     bnd (requireDeliveryRecord h request ''oracle-custody-request'') (\<lambda>_.
     bnd (for_each (\<lambda>field. requireText (fld request field) field)
       [''runId'', ''goalRef'', ''sourceRevision'', ''identity'']) (\<lambda>_.
     bnd (for_each (\<lambda>field. requireDigest h (fld request field) field) [''runRevision'', ''oracleDigest'']) (\<lambda>_.
     bnd (for_each (\<lambda>field. if \<not> safe_counter (fld request field)
         then fail (''Oracle custody '' @ field @ '' must retain a non-negative native counter'') else Inr ())
       [''generation'', ''revocationEpoch'']) (\<lambda>_.
     if \<not> one_of [''historical-author'', ''prospective-assignment''] (fld request ''mode'')
     then fail ''Oracle custody mode must distinguish historical author from prospective assignment''
     else bnd (if \<not> js_eq (fld request ''candidateDigest'') JNull
          then requireDigest h (fld request ''candidateDigest'') ''candidateDigest'' else Inr JNull) (\<lambda>_.
     bnd (requireRef h (fld request ''assignmentRef'') ''assignmentRef'') (\<lambda>_.
     bnd (requireRef h (fld request ''manifestRef'') ''manifestRef'') (\<lambda>_.
     if \<not> js_eq (fld (fld request ''assignmentRef'') ''authority'') (JStr ''authoritative'')
     then fail ''Oracle custody assignment must identify its authoritative source''
     else if \<not> truthy (fld (fld request ''evidenceRefs'') ''length'')
     then fail ''Oracle custody requires evidence references''
     else bnd (js_iter (fld request ''evidenceRefs'')) (\<lambda>refs.
     bnd (for_each (\<lambda>ref. requireRef h ref ''evidenceRef'') refs) (\<lambda>_.
     bnd (describeRuntimePlatform h (fld (fld request ''provenance'') ''platform'') (JObj [])) (\<lambda>p.
     if \<not> truthy p then fail ''Oracle custody requires registered execution provenance''
     else bnd (requireText (fld (fld request ''provenance'') ''executor'') ''provenance.executor'') (\<lambda>_.
     Inr request)))))))))))"

definition createOracleCustodyRequest :: "host \<Rightarrow> run_state \<Rightarrow> js \<Rightarrow> js \<Rightarrow> js res" where
  "createOracleCustodyRequest h st sourceRevision proposal =
     (if \<not> truthy (oracleDigest st) \<or> \<not> truthy (oraclePin st)
         \<or> \<not> js_eq (fld (oraclePin st) ''oracleDigest'') (oracleDigest st)
      then fail ''Existing exact oracle pin digest required for custody''
      else bnd (dot proposal ''oracleDigest'') (\<lambda>d.
        if \<not> js_eq d (oracleDigest st)
        then fail ''Oracle custody proposal digest differs from existing pin''
        else requireOracleCustodyRequest h (JObj (sealDeliveryRecord h ''oracle-custody-request'' [
          (''runId'', runId st), (''goalRef'', goalRef st), (''runRevision'', revision st),
          (''sourceRevision'', sourceRevision), (''generation'', JNat (generation st)),
          (''revocationEpoch'', JNat (revocationEpoch st)),
          (''candidateDigest'', coal (candidateDigest st) JNull), (''oracleDigest'', oracleDigest st),
          (''mode'', fld proposal ''mode''), (''identity'', fld proposal ''identity''),
          (''assignmentRef'', fld proposal ''assignmentRef''), (''manifestRef'', fld proposal ''manifestRef''),
          (''evidenceRefs'', fld proposal ''evidenceRefs''), (''provenance'', fld proposal ''provenance'')]))))"

definition createOracleCustodyReceipt :: "host \<Rightarrow> js \<Rightarrow> js \<Rightarrow> js \<Rightarrow> (string \<times> js) list res" where
  "createOracleCustodyReceipt h request verifier verifiedAt =
     bnd (requireOracleCustodyRequest h request) (\<lambda>_.
     bnd (requireText verifier ''verifier'') (\<lambda>_.
     if \<not> is_instant h verifiedAt then fail ''Oracle custody verification instant required''
     else let field = fld request in
       Inr (sealDeliveryRecord h ''oracle-custody-receipt'' [
         (''requestDigest'', field ''digest''), (''runId'', field ''runId''), (''goalRef'', field ''goalRef''),
         (''runRevision'', field ''runRevision''), (''sourceRevision'', field ''sourceRevision''),
         (''generation'', field ''generation''), (''revocationEpoch'', field ''revocationEpoch''),
         (''oracleDigest'', field ''oracleDigest''), (''candidateDigest'', field ''candidateDigest''),
         (''mode'', field ''mode''), (''identity'', field ''identity''),
         (''authorIdentity'', if js_eq (field ''mode'') (JStr ''historical-author'') then field ''identity'' else JNull),
         (''assigneeIdentity'', if js_eq (field ''mode'') (JStr ''prospective-assignment'') then field ''identity'' else JNull),
         (''assignmentRef'', field ''assignmentRef''), (''manifestRef'', field ''manifestRef''),
         (''evidenceRefs'', field ''evidenceRefs''), (''provenance'', field ''provenance''),
         (''verifier'', verifier), (''verifiedAt'', verifiedAt)])))"

definition requireOracleCustodyReceipt :: "host \<Rightarrow> js \<Rightarrow> js \<Rightarrow> js res" where
  "requireOracleCustodyReceipt h receipt request =
     bnd (requireOracleCustodyRequest h request) (\<lambda>_.
     bnd (requireDeliveryRecord h receipt ''oracle-custody-receipt'') (\<lambda>_.
     bnd (createOracleCustodyReceipt h request (fld receipt ''verifier'') (fld receipt ''verifiedAt'')) (\<lambda>expected.
     if \<not> js_eq (fld (JObj expected) ''digest'') (fld receipt ''digest'')
     then fail ''Oracle custody receipt does not bind exact source request'' else Inr receipt)))"

section \<open>Host intent consent\<close>

definition instant :: "host \<Rightarrow> js \<Rightarrow> bool" where
  "instant h v = (is_string v \<and> is_instant h v)"

definition createIntentConsentRequest :: "host \<Rightarrow> run_state \<Rightarrow> js \<Rightarrow> js \<Rightarrow> js \<Rightarrow> (string \<times> js) list res" where
  "createIntentConsentRequest h st planDigest scope platformConfig =
     (if \<not> truthy (contract st) \<or> \<not> truthy (contractSourceRevision st) \<or> phase st \<noteq> 0
      then fail ''Frozen phase-zero intent required''
      else bnd (requireDigest h planDigest ''planDigest'') (\<lambda>_.
        if \<not> truthy scope \<or> \<not> is_array (fld scope ''checks'') \<or> elems (fld scope ''checks'') = []
           \<or> \<not> is_array (fld scope ''destinations'') \<or> elems (fld scope ''destinations'') = []
           \<or> \<not> truthy (fld scope ''businessBoundary'') \<or> \<not> has_own (own_props scope) ''budget''
           \<or> \<not> has_own (own_props scope) ''expiry''
        then fail ''Complete host intent scope required''
        else bnd (requireText (fld (contract st) ''goalRevision'') ''goalRevision'') (\<lambda>gr.
          bnd (runtimePlatformRegistry h (js_default platformConfig (JObj []))) (\<lambda>platforms.
          Inr (sealDeliveryRecord h ''intent-consent-request'' [
            (''gateClass'', JStr ''adequacy-of-intent''), (''runId'', runId st), (''runRevision'', revision st),
            (''generation'', JNat (generation st)), (''goalRef'', goalRef st), (''goalRevision'', gr),
            (''contractSourceRevision'', contractSourceRevision st),
            (''contractDigest'', JStr (recordDigest h (contract st))), (''planDigest'', planDigest),
            (''profile'', profile st),
            (''observerRuntimes'', JArr (map (\<lambda>p. fld p ''slug'')
               (filter (\<lambda>p. \<not> js_eq (fld p ''kind'') (JStr ''human'')) platforms))),
            (''scope'', scope)])))))"

definition createHostIntentConsent ::
    "host \<Rightarrow> js \<Rightarrow> js \<Rightarrow> js \<Rightarrow> js \<Rightarrow> js \<Rightarrow> js \<Rightarrow> js \<Rightarrow> js \<Rightarrow> js \<Rightarrow> (string \<times> js) list res" where
  "createHostIntentConsent h request decision observerRuntime sessionDigest turnDigest evidenceDigest
      decisionRef observedAt expiresAt =
     bnd (requireDeliveryRecord h request ''intent-consent-request'') (\<lambda>_.
     Inr (sealDeliveryRecord h ''host-intent-consent'' [
       (''requestDigest'', fld request ''digest''), (''gateClass'', fld request ''gateClass''),
       (''runId'', fld request ''runId''), (''decision'', decision),
       (''assurance'', JStr ''agent-observed-local-cooperative''), (''observerRuntime'', observerRuntime),
       (''sessionDigest'', sessionDigest), (''turnDigest'', turnDigest), (''evidenceDigest'', evidenceDigest),
       (''decisionRef'', decisionRef), (''observedAt'', observedAt), (''expiresAt'', expiresAt)]))"

definition verifyHostIntentConsent :: "host \<Rightarrow> js \<Rightarrow> js \<Rightarrow> js \<Rightarrow> js res" where
  "verifyHostIntentConsent h request consent now =
     bnd (requireDeliveryRecord h request ''intent-consent-request'') (\<lambda>_.
     bnd (requireDeliveryRecord h consent ''host-intent-consent'') (\<lambda>_.
     if \<not> js_eq (fld consent ''decision'') (JStr ''agree'')
        \<or> \<not> js_eq (fld consent ''requestDigest'') (fld request ''digest'')
        \<or> \<not> js_eq (fld consent ''gateClass'') (JStr ''adequacy-of-intent'')
        \<or> \<not> js_eq (fld consent ''runId'') (fld request ''runId'')
        \<or> \<not> js_eq (fld consent ''assurance'') (JStr ''agent-observed-local-cooperative'')
        \<or> \<not> is_array (fld request ''observerRuntimes'')
        \<or> \<not> js_includes (elems (fld request ''observerRuntimes'')) (fld consent ''observerRuntime'')
        \<or> \<not> digest_test h (fld consent ''sessionDigest'') \<or> \<not> digest_test h (fld consent ''turnDigest'')
        \<or> \<not> digest_test h (fld consent ''evidenceDigest'') \<or> \<not> digest_test h (fld consent ''decisionRef'')
        \<or> \<not> instant h (fld consent ''observedAt'') \<or> \<not> instant h (fld consent ''expiresAt'')
        \<or> num_le (date_parse h (fld consent ''expiresAt'')) (date_parse h (fld consent ''observedAt''))
        \<or> num_less (date_parse h now) (date_parse h (fld consent ''observedAt''))
        \<or> num_le (date_parse h (fld consent ''expiresAt'')) (date_parse h now)
     then fail ''Host intent consent is absent, stale or mismatched'' else Inr consent))"

end
