(* ===== verification/Json.thy ===== *)
theory Json
  imports Digest
begin

text \<open>
  JSON text as the sources write it with \<open>JSON.stringify\<close>: fields in their own order,
  \<open>undefined\<close> and functions left out of objects and written as \<open>null\<close> in arrays.
  \<open>stored\<close> is the value a reader gets back from that text with \<open>JSON.parse\<close>.
\<close>

section \<open>Writing\<close>

fun json_text :: "host \<Rightarrow> js \<Rightarrow> string option" where
  "json_text h (JArr xs) = Some (''['' @
     js_join '','' (map (\<lambda>x. case json_text h x of None \<Rightarrow> ''null'' | Some s \<Rightarrow> s) xs) @ '']'')"
| "json_text h (JObj fs) = Some (''{'' @
     js_join '','' (concat (map (\<lambda>(k, v). case json_text h v of None \<Rightarrow> [] | Some s \<Rightarrow> [json_quote k @ '':'' @ s]) fs)) @ ''}'')"
| "json_text h JUndef = None"
| "json_text h JNull = Some ''null''"
| "json_text h (JBool b) = Some (if b then ''true'' else ''false'')"
| "json_text h (JNum n) = Some (json_num h n)"
| "json_text h (JStr s) = Some (json_quote s)"
| "json_text h (JBuiltin k) = (if k = ''__proto__'' then Some ''{}'' else None)"

section \<open>Reading back\<close>

fun stored :: "js \<Rightarrow> js option" where
  "stored (JArr xs) = Some (JArr (map (\<lambda>x. case stored x of None \<Rightarrow> JNull | Some y \<Rightarrow> y) xs))"
| "stored (JObj fs) = Some (JObj (concat (map (\<lambda>(k, v). case stored v of None \<Rightarrow> [] | Some y \<Rightarrow> [(k, y)]) fs)))"
| "stored JUndef = None"
| "stored JNull = Some JNull"
| "stored (JBool b) = Some (JBool b)"
| "stored (JNum n) = Some (if is_finite n then JNum n else JNull)"
| "stored (JStr s) = Some (JStr s)"
| "stored (JBuiltin k) = (if k = ''__proto__'' then Some (JObj []) else None)"

lemma stored_stored: "stored v = Some w \<Longrightarrow> stored w = Some w"
proof (induction v arbitrary: w)
  case (JArr xs)
  have "stored (case stored x of None \<Rightarrow> JNull | Some y \<Rightarrow> y) = Some (case stored x of None \<Rightarrow> JNull | Some y \<Rightarrow> y)"
    if "x \<in> set xs" for x
    using JArr.IH [OF that] by (auto split: option.split)
  then have "map (\<lambda>x. case stored x of None \<Rightarrow> JNull | Some y \<Rightarrow> y) (map (\<lambda>x. case stored x of None \<Rightarrow> JNull | Some y \<Rightarrow> y) xs)
      = map (\<lambda>x. case stored x of None \<Rightarrow> JNull | Some y \<Rightarrow> y) xs"
    by simp
  then show ?case using JArr.prems by auto
next
  case (JObj fs)
  let ?f = "\<lambda>(k, v). case stored v of None \<Rightarrow> [] | Some y \<Rightarrow> [(k, y)]"
  have "concat (map ?f (concat (map ?f fs))) = concat (map ?f fs)"
    using JObj.IH
  proof (induction fs)
    case Nil
    show ?case by simp
  next
    case (Cons p fs)
    obtain k v where p: "p = (k, v)" by (cases p)
    have "concat (map ?f (concat (map ?f fs))) = concat (map ?f fs)"
      by (rule Cons.IH) (use Cons.prems in auto)
    moreover have "concat (map ?f (?f p)) = ?f p"
      using Cons.prems [of p v] by (auto simp: p split: option.split)
    ultimately show ?case by simp
  qed
  then show ?case using JObj.prems by auto
qed (auto split: if_splits)

lemma stored_JObj_map_of:
  "stored (JObj fs) = Some (JObj gs) \<Longrightarrow> distinct (map fst fs) \<Longrightarrow> map_of gs k = Option.bind (map_of fs k) stored"
proof (induction fs arbitrary: gs)
  case Nil
  then show ?case by simp
next
  case (Cons p fs)
  obtain k' v where p: "p = (k', v)" by (cases p)
  let ?gs = "concat (map (\<lambda>(k, v). case stored v of None \<Rightarrow> [] | Some y \<Rightarrow> [(k, y)]) fs)"
  have ih: "map_of ?gs k = Option.bind (map_of fs k) stored"
    by (rule Cons.IH) (use Cons.prems in auto)
  have "k' \<notin> set (map fst fs)" using Cons.prems(2) p by simp
  then have none: "map_of fs k' = None" by (simp add: map_of_eq_None_iff)
  from Cons.prems(1) have "gs = (case stored v of None \<Rightarrow> [] | Some y \<Rightarrow> [(k', y)]) @ ?gs" by (simp add: p)
  with ih none show ?case by (auto simp: p map_add_def split: option.split)
qed

end
