(* ===== verification/Delegation.thy ===== *)
theory Delegation
  imports Oracle Json
begin

text \<open>
  Delegation grants (src/lib/core/delegation-grant.mjs): the policy and request validators, path
  scopes, the walk up the ancestors of a grant, the admission of an operation under a grant, and
  the four event kinds that change the delegation part of a run's state.
\<close>

section \<open>Actions and lexical checks\<close>

text \<open>The map \<open>ACTIONS\<close>: whether an action has an external effect.\<close>

definition ACTIONS :: "(string \<times> bool) list" where
  "ACTIONS = [(''edit'', False), (''commit'', False), (''push'', True), (''pr:create'', True),
     (''pr:update'', True), (''merge'', True), (''rig:mutate'', True), (''queue:create'', True)]"

definition ACTION_BOUNDARY :: "(string \<times> string) list" where
  "ACTION_BOUNDARY = [(''edit'', ''mutate-worktree''), (''commit'', ''mutate-worktree''), (''push'', ''open-pr''),
     (''pr:create'', ''open-pr''), (''pr:update'', ''open-pr''), (''merge'', ''external-action''),
     (''rig:mutate'', ''external-action''), (''queue:create'', ''external-action'')]"

definition is_action :: "js \<Rightarrow> bool" where
  "is_action v = one_of (map fst ACTIONS) v"

text \<open>\<open>ACTIONS.get(action)\<close>, read as a condition.\<close>

definition external :: "js \<Rightarrow> bool" where
  "external v = (map_of ACTIONS (str_of v) = Some True \<and> is_string v)"

definition key_char :: "char \<Rightarrow> bool" where
  "key_char c = (is_alnum c \<or> c \<in> {CHR '':'', CHR ''.'', CHR ''_'', CHR ''-''})"

definition safeKey :: "js \<Rightarrow> bool" where
  "safeKey v = (case v of
     JStr s \<Rightarrow> s \<noteq> [] \<and> is_alnum (hd s) \<and> length s \<le> 200 \<and> list_all key_char (tl s)
       \<and> s \<notin> {''__proto__'', ''prototype'', ''constructor''}
   | _ \<Rightarrow> False)"

definition bad_path_char :: "char \<Rightarrow> bool" where
  "bad_path_char c = (c \<in> {CHR 0x5C, CHR '':'', CHR ''*'', CHR ''?''} \<or> (of_char c :: nat) < 32)"

definition safe_part :: "string \<Rightarrow> bool" where
  "safe_part part = (part \<noteq> [] \<and> part \<noteq> ''.'' \<and> part \<noteq> ''..'' \<and> last part \<notin> {CHR ''.'', CHR '' ''})"

definition safePath :: "js \<Rightarrow> bool" where
  "safePath v = (case v of
     JStr s \<Rightarrow> s \<noteq> [] \<and> \<not> list_ex bad_path_char s \<and> list_all safe_part (split_on (CHR ''/'') s)
   | _ \<Rightarrow> False)"

definition chk_text :: "js \<Rightarrow> string \<Rightarrow> unit res" where
  "chk_text v name = (if \<not> is_text v then fail (''Invalid '' @ name) else Inr ())"

definition chk_digest :: "host \<Rightarrow> js \<Rightarrow> string \<Rightarrow> unit res" where
  "chk_digest h v name = (if \<not> digest_test h v then fail (''Invalid '' @ name @ '' digest'') else Inr ())"

definition chk_integer :: "js \<Rightarrow> string \<Rightarrow> int \<Rightarrow> unit res" where
  "chk_integer v name mn =
     (if \<not> js_safe_int v \<or> (case js_int v of Some n \<Rightarrow> n < mn | None \<Rightarrow> True)
      then fail (''Invalid '' @ name) else Inr ())"

definition is_strings :: "js \<Rightarrow> bool" where
  "is_strings v = (is_array v \<and> list_all (\<lambda>x. is_string x \<and> x \<noteq> JStr []) (elems v) \<and> js_distinct (elems v))"

definition chk_strings :: "js \<Rightarrow> string \<Rightarrow> unit res" where
  "chk_strings v name = (if \<not> is_strings v then fail (''Invalid '' @ name) else Inr ())"

definition timestamp :: "host \<Rightarrow> js \<Rightarrow> jsnum res" where
  "timestamp h v = (if \<not> is_string v \<or> \<not> is_instant h v then fail ''Invalid timestamp'' else Inr (date_parse h v))"

text \<open>The function \<open>json\<close>: finite JSON values without unsafe keys.\<close>

fun chk_json :: "js \<Rightarrow> unit res" where
  "chk_json JNull = Inr ()"
| "chk_json (JStr s) = Inr ()"
| "chk_json (JBool b) = Inr ()"
| "chk_json (JNum n) = (if is_finite n then Inr () else fail ''Operation must contain finite JSON values'')"
| "chk_json (JArr xs) = for_each (\<lambda>r. r) (map chk_json xs)"
| "chk_json (JObj fs) = for_each (\<lambda>r. r)
     (map (\<lambda>(k, v). if k \<in> {''__proto__'', ''constructor'', ''prototype''} then fail ''Unsafe object key'' else chk_json v) fs)"
| "chk_json _ = fail ''Operation must contain finite JSON values''"

section \<open>Policy and requests\<close>

definition check_issuer :: "js list \<Rightarrow> js \<Rightarrow> js list res" where
  "check_issuer ids issuer =
     bnd (dot issuer ''id'') (\<lambda>i.
     if \<not> safeKey i \<or> js_includes ids i then fail ''Invalid or duplicate configured issuer''
     else bnd (chk_text (fld issuer ''origin'') ''issuer origin'') (\<lambda>_.
       bnd (chk_text (fld issuer ''authorityRef'') ''authority reference'') (\<lambda>_.
       if \<not> js_eq (fld issuer ''mode'') (JStr ''local-cooperative'')
       then fail ''UNSUPPORTED: no qualified trusted-host binding''
       else bnd (chk_strings (fld issuer ''allowedActions'') ''issuer actions'') (\<lambda>_.
         if elems (fld issuer ''allowedActions'') = [] \<or> list_ex (\<lambda>a. \<not> is_action a) (elems (fld issuer ''allowedActions''))
         then fail ''Invalid issuer actions''
         else if \<not> is_bool (fld issuer ''allowThroughMerge'') then fail ''Explicit through-merge policy required''
         else Inr (i # ids)))))"

definition validateDelegationPolicy :: "js \<Rightarrow> unit res" where
  "validateDelegationPolicy policy =
     bnd (chk_json policy) (\<lambda>_.
     if \<not> js_eq (fld policy ''version'') (JNat 1) \<or> \<not> is_array (fld policy ''issuers'') \<or> elems (fld policy ''issuers'') = []
     then fail ''Configured issuer policy required''
     else bnd (for_fold check_issuer [] (elems (fld policy ''issuers''))) (\<lambda>_.
       bnd (chk_strings (fld policy ''requiredChecks'') ''required checks'') (\<lambda>_.
       if \<not> one_of [''automated'', ''human''] (fld policy ''reviewPolicy'') then fail ''Invalid review policy''
       else if \<not> js_eq (fld policy ''materiality'') (JStr ''fixed-scope-v1'') then fail ''Unsupported materiality predicate''
       else if \<not> is_bool (fld policy ''allowSubdelegation'') then fail ''Explicit subdelegation policy required''
       else bnd (chk_integer (fld policy ''safetyReserve'') ''safety reserve'' 1) (\<lambda>_.
         if num_less (Fin 100) (num_of (fld policy ''safetyReserve'')) then fail ''Safety reserve must be bounded at 100''
         else if has_own (own_props policy) ''hardCeiling'' then fail ''UNSUPPORTED: no enforcing hard-ceiling provider''
         else Inr ()))))"

definition GRANT_FIELDS :: "string list" where
  "GRANT_FIELDS = [''issuerMode'', ''issuerBinding'', ''planDigest'', ''policyDigest'', ''repository'', ''base'',
     ''delegate'', ''allowedPaths'', ''allowedActions'', ''capabilities'', ''requiredChecks'', ''reviewPolicy'',
     ''materiality'', ''allowSubdelegation'', ''maxAttempts'', ''maxExternalEffects'', ''expiry'']"

definition grantRequestDigest :: "host \<Rightarrow> js \<Rightarrow> string" where
  "grantRequestDigest h request = recordDigest h (JObj [(''intent'', JObj (obj_del (own_props request) ''issuerBinding''))])"

text \<open>\<open>p.endsWith('/*') ? p.slice(0, -2) : p\<close>\<close>

definition pattern_base :: "string \<Rightarrow> string" where
  "pattern_base p = (if ends_with p ''/*'' then take (length p - 2) p else p)"

definition issuer_mismatch :: "host \<Rightarrow> js \<Rightarrow> js option \<Rightarrow> bool" where
  "issuer_mismatch h request issuer =
     (let binding = fld request ''issuerBinding'' in
      case issuer of None \<Rightarrow> True
      | Some i \<Rightarrow> \<not> js_eq (fld binding ''type'') (JStr ''delegation-issuance'')
          \<or> \<not> js_eq (fld binding ''mode'') (fld i ''mode'') \<or> \<not> js_eq (fld binding ''origin'') (fld i ''origin'')
          \<or> \<not> js_eq (fld binding ''authorityRef'') (fld i ''authorityRef'')
          \<or> \<not> js_eq (fld binding ''policyDigest'') (fld request ''policyDigest'')
          \<or> \<not> js_eq (fld binding ''requestDigest'') (JStr (grantRequestDigest h request)))"

definition find_issuer :: "js \<Rightarrow> js \<Rightarrow> js option" where
  "find_issuer policy request =
     find (\<lambda>i. js_eq (fld i ''id'') (fld (fld request ''issuerBinding'') ''issuerId'')) (elems (fld policy ''issuers''))"

text \<open>The checks of \<open>validateGrantRequest\<close> on the actions and capabilities.\<close>

definition check_actions :: "js \<Rightarrow> js \<Rightarrow> unit res" where
  "check_actions request issuer =
     (let acts = elems (fld request ''allowedActions''); caps = elems (fld request ''capabilities'');
          allowed = elems (fld issuer ''allowedActions'') in
      if acts = [] \<or> list_ex (\<lambda>a. \<not> is_action a \<or> \<not> js_includes allowed a \<or> \<not> js_includes caps a) acts
         \<or> list_ex (\<lambda>c. \<not> js_includes allowed c) caps
      then fail ''Unsupported action or capability''
      else if js_includes acts (JStr ''merge'') \<and> \<not> truthy (fld issuer ''allowThroughMerge'')
      then fail ''Through-merge cooperative policy denied''
      else Inr ())"

text \<open>The checks of \<open>validateGrantRequest\<close> on paths, checks, review and subdelegation.\<close>

definition check_scope :: "js \<Rightarrow> js \<Rightarrow> unit res" where
  "check_scope request policy =
     bnd (chk_strings (fld request ''allowedPaths'') ''allowed paths'') (\<lambda>_.
     if elems (fld request ''allowedPaths'') = []
        \<or> list_ex (\<lambda>p. \<not> safePath (JStr (pattern_base (str_of p)))) (elems (fld request ''allowedPaths''))
     then fail ''Invalid allowed path pattern''
     else bnd (chk_strings (fld request ''requiredChecks'') ''required checks'') (\<lambda>_.
       if list_ex (\<lambda>c. \<not> js_includes (elems (fld request ''requiredChecks'')) c) (elems (fld policy ''requiredChecks''))
          \<or> (js_eq (fld policy ''reviewPolicy'') (JStr ''human'') \<and> \<not> js_eq (fld request ''reviewPolicy'') (JStr ''human''))
          \<or> \<not> one_of [''automated'', ''human''] (fld request ''reviewPolicy'')
          \<or> \<not> js_eq (fld request ''materiality'') (fld policy ''materiality'')
       then fail ''Grant weakens configured checks or review policy''
       else if \<not> is_bool (fld request ''allowSubdelegation'')
          \<or> (truthy (fld request ''allowSubdelegation'') \<and> \<not> truthy (fld policy ''allowSubdelegation''))
       then fail ''Invalid subdelegation authority'' else Inr ()))"

definition validateGrantRequest :: "host \<Rightarrow> js \<Rightarrow> js \<Rightarrow> js \<Rightarrow> unit res" where
  "validateGrantRequest h request atTime policy =
     bnd (chk_json request) (\<lambda>_.
     bnd (validateDelegationPolicy policy) (\<lambda>_.
     bnd (dot request ''issuerMode'') (\<lambda>mode.
     if \<not> js_eq mode (JStr ''local-cooperative'') then fail ''UNSUPPORTED: issuer assurance''
     else if has_own (own_props request) ''hardCeiling'' then fail ''UNSUPPORTED: no enforcing hard-ceiling provider''
     else if list_ex (\<lambda>(k, _). k \<notin> set GRANT_FIELDS) (own_props request) then fail ''Unknown grant request field''
     else bnd (chk_digest h (fld request ''planDigest'') ''plan'') (\<lambda>_.
       bnd (chk_digest h (fld request ''policyDigest'') ''policy'') (\<lambda>_.
       if \<not> js_eq (fld request ''policyDigest'') (JStr (recordDigest h policy)) then fail ''Configured policy digest mismatch''
       else bnd (for_each (\<lambda>name. chk_text (fld request name) name) [''repository'', ''base'', ''delegate'']) (\<lambda>_.
         let issuer = find_issuer policy request in
         if issuer_mismatch h request issuer then fail ''Unconfigured or mismatched issuer binding''
         else bnd (chk_text (fld (fld request ''issuerBinding'') ''decisionRef'') ''explicit host approval reference'') (\<lambda>_.
           bnd (chk_strings (fld request ''allowedActions'') ''allowed actions'') (\<lambda>_.
           bnd (chk_strings (fld request ''capabilities'') ''capabilities'') (\<lambda>_.
           bnd (check_actions request (the issuer)) (\<lambda>_.
           bnd (check_scope request policy) (\<lambda>_.
           bnd (chk_integer (fld request ''maxAttempts'') ''maxAttempts'' 1) (\<lambda>_.
           bnd (chk_integer (fld request ''maxExternalEffects'') ''maxExternalEffects'' 0) (\<lambda>_.
           bnd (timestamp h (fld request ''expiry'')) (\<lambda>e.
           bnd (timestamp h atTime) (\<lambda>n.
           if num_le e n then fail ''Grant expiry must be in the future'' else Inr ())))))))))))))))"

section \<open>Scopes\<close>

definition pathMatches :: "js \<Rightarrow> js list \<Rightarrow> bool" where
  "pathMatches path patterns = (safePath path \<and>
     list_ex (\<lambda>p. if ends_with (str_of p) ''/*'' then starts_with (str_of path) (take (length (str_of p) - 1) (str_of p))
                  else js_eq p path) patterns)"

definition patternSubset :: "string \<Rightarrow> string \<Rightarrow> bool" where
  "patternSubset child parent = (child = parent \<or>
     (ends_with parent ''/*'' \<and> starts_with child (take (length parent - 1) parent)))"

section \<open>Ancestors\<close>

text \<open>The loop of \<open>grantAncestors\<close>: the set \<open>seen\<close> grows, so it ends.\<close>

function ancestors_loop :: "host \<Rightarrow> (string \<times> grant) list \<Rightarrow> js \<Rightarrow> string list \<Rightarrow> js \<Rightarrow> grant list res" where
  "ancestors_loop h gs atTime seen i =
     (if js_eq i JNull then Inr []
      else if \<not> safeKey i \<or> str_of i \<in> set seen then fail ''Invalid or cyclic grant ancestry''
      else case map_of gs (str_of i) of
        None \<Rightarrow> fail ''Missing grant ancestor''
      | Some current \<Rightarrow>
          if \<not> g_active current then fail ''REVOKED: grant or ancestor revoked''
          else bnd (dot (fld (envelope current) ''binding'') ''expiry'') (\<lambda>expiry.
            bnd (timestamp h expiry) (\<lambda>e.
            bnd (timestamp h atTime) (\<lambda>n.
            if num_le e n then fail ''EXPIRED: grant or ancestor expired''
            else bnd (ancestors_loop h gs atTime (str_of i # seen) (fld (envelope current) ''parentId'')) (\<lambda>rest.
              Inr (current # rest))))))"
  by pat_completeness auto
termination
proof (relation "measure (\<lambda>(h, gs, atTime, seen, i). card (set (map fst gs) - set seen))", goal_cases)
  case 1
  show ?case by simp
next
  case (2 h gs atTime seen i current expiry e n)
  then have "str_of i \<in> set (map fst gs)"
    by (metis domI dom_map_of_conv_image_fst set_map)
  with 2 have "str_of i \<in> set (map fst gs) - set seen" by simp
  then have "set (map fst gs) - set (str_of i # seen) \<subset> set (map fst gs) - set seen" by auto
  then show ?case by (simp add: psubset_card_mono del: set_map)
qed

declare ancestors_loop.simps [simp del]

definition grantAncestors :: "host \<Rightarrow> js \<Rightarrow> run_state \<Rightarrow> js \<Rightarrow> grant list res" where
  "grantAncestors h env st atTime = ancestors_loop h (grants st) atTime [] (fld env ''id'')"

section \<open>Child grants\<close>

text \<open>\<open>request[k].some((x) => !b[k].includes(x))\<close>\<close>

definition widens :: "host \<Rightarrow> js \<Rightarrow> js \<Rightarrow> bool res" where
  "widens h child parent = (case child of
     JArr xs \<Rightarrow> some_res (\<lambda>x. bnd (includes_res h parent x) (\<lambda>i. Inr (\<not> i))) xs
   | _ \<Rightarrow> Inl (TypeError ''some is not a function''))"

definition paths_widen :: "js \<Rightarrow> js \<Rightarrow> bool" where
  "paths_widen child parent =
     list_ex (\<lambda>p. \<not> list_ex (\<lambda>q. patternSubset (str_of p) (str_of q)) (elems parent)) (elems child)"

definition validateChild :: "host \<Rightarrow> js \<Rightarrow> js \<Rightarrow> unit res" where
  "validateChild h request parent =
     bnd (dot (fld parent ''binding'') ''allowSubdelegation'') (\<lambda>sub.
     let b = fld parent ''binding'' in
     if \<not> truthy sub then fail ''Parent prohibits subdelegation''
     else bnd (for_each (\<lambda>k. if \<not> js_eq (fld request k) (fld b k) then fail (''Child grant '' @ k @ '' must match parent'') else Inr ())
         [''planDigest'', ''policyDigest'', ''repository'', ''base'', ''delegate'', ''materiality'']) (\<lambda>_.
     bnd (for_each (\<lambda>k. bnd (widens h (fld request k) (fld b k)) (\<lambda>w. if w then fail (''Child widens '' @ k) else Inr ()))
         [''allowedActions'', ''capabilities'']) (\<lambda>_.
     if paths_widen (fld request ''allowedPaths'') (fld b ''allowedPaths'') then fail ''Child widens allowedPaths''
     else bnd (widens h (fld b ''requiredChecks'') (fld request ''requiredChecks'')) (\<lambda>w.
       if w \<or> (js_eq (fld b ''reviewPolicy'') (JStr ''human'') \<and> \<not> js_eq (fld request ''reviewPolicy'') (JStr ''human''))
       then fail ''Child weakens checks/review''
       else bnd (timestamp h (fld request ''expiry'')) (\<lambda>ce.
         bnd (timestamp h (fld b ''expiry'')) (\<lambda>pe.
         if num_less pe ce then fail ''Child outlives parent''
         else if num_less (num_of (fld b ''maxAttempts'')) (num_of (fld request ''maxAttempts''))
            \<or> num_less (num_of (fld b ''maxExternalEffects'')) (num_of (fld request ''maxExternalEffects''))
         then fail ''Child exceeds parent budget'' else Inr ()))))))"

definition issueGrant :: "host \<Rightarrow> js \<Rightarrow> js \<Rightarrow> js \<Rightarrow> js \<Rightarrow> js \<Rightarrow> js \<Rightarrow> js res" where
  "issueGrant h request actor parent atTime policy i =
     bnd (validateGrantRequest h request atTime policy) (\<lambda>_.
     if \<not> safeKey i then fail ''Invalid grant id''
     else bnd (if truthy parent
         then (if \<not> truthy (fld parent ''id'') \<or> \<not> safeKey (fld parent ''id'') \<or> \<not> truthy (fld parent ''binding'')
               then fail ''Invalid parent grant envelope'' else validateChild h request parent)
         else Inr ()) (\<lambda>_.
       bnd (chk_text actor ''issuer actor'') (\<lambda>_.
       Inr (JObj [(''id'', i), (''issuedAt'', atTime), (''issuerActor'', actor), (''binding'', request),
         (''parentId'', coal (fld parent ''id'') JNull)]))))"

section \<open>Operations\<close>

definition OPERATION_FIELDS :: "string list" where
  "OPERATION_FIELDS = [''id'', ''planDigest'', ''policyDigest'', ''repository'', ''base'', ''delegate'', ''action'',
     ''paths'', ''capabilities'', ''candidateDigest'', ''workspaceDigest'', ''checks'', ''review'', ''arguments'']"

definition normalizeOperation :: "host \<Rightarrow> js \<Rightarrow> js res" where
  "normalizeOperation h operation =
     bnd (chk_json operation) (\<lambda>_.
     if nullish operation then Inl (TypeError ''Cannot convert undefined or null to object'')
     else if list_ex (\<lambda>(k, _). k \<notin> set OPERATION_FIELDS) (own_props operation) then fail ''Unknown operation field''
     else if \<not> safeKey (fld operation ''id'') \<or> \<not> is_action (fld operation ''action'')
     then fail ''Invalid operation identity or action''
     else bnd (for_each (\<lambda>k. chk_digest h (fld operation k) k)
         [''planDigest'', ''policyDigest'', ''candidateDigest'', ''workspaceDigest'']) (\<lambda>_.
       bnd (for_each (\<lambda>k. chk_text (fld operation k) k) [''repository'', ''base'', ''delegate'']) (\<lambda>_.
       bnd (chk_strings (fld operation ''paths'') ''operation paths'') (\<lambda>_.
       bnd (chk_strings (fld operation ''capabilities'') ''operation capabilities'') (\<lambda>_.
       if elems (fld operation ''paths'') = [] \<or> list_ex (\<lambda>p. \<not> safePath p) (elems (fld operation ''paths''))
       then fail ''Invalid operation path''
       else if \<not> is_array (fld operation ''checks'') \<or> \<not> truthy (fld operation ''review'')
          \<or> \<not> truthy (fld operation ''arguments'') \<or> is_array (fld operation ''arguments'')
       then fail ''Operation requires checks, review and arguments''
       else Inr operation)))))"

definition operationDigest :: "host \<Rightarrow> js \<Rightarrow> string res" where
  "operationDigest h operation =
     bnd (normalizeOperation h operation) (\<lambda>op. Inr (recordDigest h (JObj [(''operation'', op)])))"

definition verifyDelegationDecision :: "host \<Rightarrow> js \<Rightarrow> string \<Rightarrow> grant \<Rightarrow> run_state \<Rightarrow> unit res" where
  "verifyDelegationDecision h decision ty g st =
     bnd (dot (fld (envelope g) ''binding'') ''issuerBinding'') (\<lambda>binding.
     if \<not> js_eq (fld decision ''type'') (JStr ty)
        \<or> \<not> js_eq (fld decision ''grantId'') (fld (envelope g) ''id'')
        \<or> \<not> js_eq (fld decision ''grantRevision'') (g_revision g)
        \<or> \<not> js_eq (fld decision ''policyDigest'') (JStr (recordDigest h (delegationPolicy st)))
     then fail ''Typed independently resolved delegation decision required''
     else bnd (some_res (\<lambda>k. bnd (dot binding k) (\<lambda>bk. Inr (\<not> js_eq (fld decision k) bk)))
         [''issuerId'', ''mode'', ''origin'', ''authorityRef'']) (\<lambda>differs.
       if differs \<or> \<not> is_text (fld decision ''decisionRef'')
       then fail ''Typed independently resolved delegation decision required'' else Inr ()))"

text \<open>\<open>b.requiredChecks.some((name) => !op.checks.some((c) => ...))\<close>\<close>

definition check_missing :: "js \<Rightarrow> js \<Rightarrow> bool res" where
  "check_missing b op =
     some_res (\<lambda>name.
       bnd (some_res (\<lambda>c. bnd (dot c ''name'') (\<lambda>n. Inr (js_eq n name
              \<and> js_eq (fld c ''outcome'') (JStr ''pass'')
              \<and> js_eq (fld c ''candidateDigest'') (fld op ''candidateDigest''))))
            (elems (fld op ''checks''))) (\<lambda>found. Inr (\<not> found)))
       (elems (fld b ''requiredChecks''))"

text \<open>The scope part of \<open>resolveGrant\<close>: binding, candidate, actions, paths, checks and review.\<close>

definition in_scope :: "host \<Rightarrow> run_state \<Rightarrow> js \<Rightarrow> js \<Rightarrow> unit res" where
  "in_scope h st b op =
     bnd (for_each (\<lambda>k. if \<not> js_eq (fld op k) (fld b k) then fail (''SCOPE: '' @ k @ '' mismatch'') else Inr ())
       [''planDigest'', ''policyDigest'', ''repository'', ''base'', ''delegate'']) (\<lambda>_.
     if \<not> js_eq (candidateDigest st) (fld op ''candidateDigest'') then fail ''Stale candidate''
     else if \<not> js_includes (elems (fld b ''allowedActions'')) (fld op ''action'')
        \<or> \<not> js_includes (elems (fld op ''capabilities'')) (fld op ''action'')
        \<or> list_ex (\<lambda>c. \<not> js_includes (elems (fld b ''capabilities'')) c) (elems (fld op ''capabilities''))
     then fail ''SCOPE: action/capability mismatch''
     else if list_ex (\<lambda>p. \<not> pathMatches p (elems (fld b ''allowedPaths''))) (elems (fld op ''paths''))
     then fail ''SCOPE: path mismatch''
     else bnd (check_missing b op) (\<lambda>missing.
       if missing then fail ''Required exact-candidate check missing''
       else let review = fld op ''review'' in
         if \<not> js_eq (fld review ''outcome'') (JStr ''pass'')
            \<or> \<not> js_eq (fld review ''policy'') (fld b ''reviewPolicy'')
            \<or> \<not> js_eq (fld review ''candidateDigest'') (fld op ''candidateDigest'')
         then fail ''Required exact-candidate review missing'' else Inr ()))"

text \<open>The integer a validated limit holds.\<close>

definition int_of :: "js \<Rightarrow> int" where
  "int_of v = (case js_int v of Some n \<Rightarrow> n | None \<Rightarrow> 0)"

definition resolve_checks :: "host \<Rightarrow> js \<Rightarrow> run_state \<Rightarrow> js \<Rightarrow> js \<Rightarrow> (js \<times> string) res" where
  "resolve_checks h presented st operation atTime =
     bnd (dot presented ''id'') (\<lambda>i.
     case map_of (grants st) (js_string h i) of
       None \<Rightarrow> fail ''Unknown or tampered grant''
     | Some g \<Rightarrow>
         if recordDigest h (JObj [(''envelope'', presented)]) \<noteq> recordDigest h (JObj [(''envelope'', envelope g)])
         then fail ''Unknown or tampered grant''
         else let b = fld (envelope g) ''binding'' in
           bnd (validateGrantRequest h b (fld (envelope g) ''issuedAt'') (delegationPolicy st)) (\<lambda>_.
           bnd (grantAncestors h (envelope g) st atTime) (\<lambda>_.
           bnd (normalizeOperation h operation) (\<lambda>op.
           bnd (in_scope h st b op) (\<lambda>_.
           if int_of (fld b ''maxAttempts'') \<le> attempts (budgetUsed g) + attempts (budgetReserved g)
           then fail ''BUDGET: attempts exhausted''
           else if external (fld op ''action'')
              \<and> int_of (fld b ''maxExternalEffects'') \<le> externalEffects (budgetUsed g) + externalEffects (budgetReserved g)
           then fail ''BUDGET: external effects exhausted''
           else bnd (operationDigest h op) (\<lambda>d. Inr (op, d)))))))"

text \<open>The result object of \<open>resolveGrant\<close>: admitted with the operation, or refused with a reason.\<close>

datatype resolution = Admitted js string | Refused string

definition resolveGrant :: "host \<Rightarrow> js \<Rightarrow> run_state \<Rightarrow> js \<Rightarrow> js \<Rightarrow> resolution" where
  "resolveGrant h presented st operation atTime =
     (case resolve_checks h presented st operation atTime of
        Inr (op, d) \<Rightarrow> Admitted op d
      | Inl e \<Rightarrow> Refused (err_message e))"

section \<open>Events\<close>

text \<open>The length of a text in UTF-8.\<close>

definition byte_length :: "string \<Rightarrow> nat" where
  "byte_length s = sum_list (map (\<lambda>c. if (of_char c :: nat) < 128 then 1 else 2) s)"

definition ENVELOPE_FIELDS :: "string list" where
  "ENVELOPE_FIELDS = [''id'', ''issuedAt'', ''issuerActor'', ''binding'', ''parentId'']"

definition no_budget :: budget where
  "no_budget = \<lparr>attempts = 0, externalEffects = 0\<rparr>"

text \<open>The loop over the two counters: check the remaining budget of the parent, then reserve.\<close>

definition reserve :: "grant \<Rightarrow> js \<Rightarrow> grant res" where
  "reserve parent binding =
     (let pb = fld (envelope parent) ''binding''; used = budgetUsed parent; res = budgetReserved parent;
          a = int_of (fld binding ''maxAttempts''); x = int_of (fld binding ''maxExternalEffects'') in
      if int_of (fld pb ''maxAttempts'') < attempts used + attempts res + a
         \<or> int_of (fld pb ''maxExternalEffects'') < externalEffects used + externalEffects res + x
      then fail ''Child exceeds remaining parent budget''
      else Inr (parent\<lparr>budgetReserved := \<lparr>attempts = attempts res + a, externalEffects = externalEffects res + x\<rparr>\<rparr>))"

definition reserve_parent :: "host \<Rightarrow> run_state \<Rightarrow> js \<Rightarrow> js \<Rightarrow> (string \<times> grant) list res" where
  "reserve_parent h st env timestamp' =
     (let pid = fld env ''parentId'' in
      if js_eq pid JNull then Inr (grants st)
      else if \<not> safeKey pid then fail ''Invalid parent grant ID''
      else case map_of (grants st) (str_of pid) of
        None \<Rightarrow> fail ''Unknown parent grant''
      | Some parent \<Rightarrow>
          bnd (grantAncestors h (envelope parent) st timestamp') (\<lambda>_.
          bnd (validateChild h (fld env ''binding'') (envelope parent)) (\<lambda>_.
          bnd (reserve parent (fld env ''binding'')) (\<lambda>parent'.
          Inr (obj_set (grants st) (str_of pid) parent')))))"

definition grant_issued :: "host \<Rightarrow> run_state \<Rightarrow> js \<Rightarrow> run_state res" where
  "grant_issued h st event =
     bnd (dot (fld event ''payload'') ''grant'') (\<lambda>env.
     if \<not> truthy env \<or> \<not> safeKey (fld env ''id'') \<or> has_own (grants st) (str_of (fld env ''id''))
     then fail ''Invalid or duplicate grant ID''
     else if list_ex (\<lambda>(k, _). k \<notin> set ENVELOPE_FIELDS) (own_props env) then fail ''Unknown grant envelope field''
     else if \<not> js_eq (fld env ''issuedAt'') (fld event ''timestamp'') then fail ''Grant issuance timestamp mismatch''
     else bnd (chk_text (fld env ''issuerActor'') ''issuer actor'') (\<lambda>_.
       bnd (validateGrantRequest h (fld env ''binding'') (fld event ''timestamp'') (delegationPolicy st)) (\<lambda>_.
       bnd (reserve_parent h st env (fld event ''timestamp'')) (\<lambda>gs.
       Inr (st\<lparr>grants := obj_set gs (str_of (fld env ''id''))
         \<lparr>envelope = env, g_revision = fld event ''digest'', g_active = True, g_revocationEpoch = 0,
          budgetUsed = no_budget, budgetReserved = no_budget\<rparr>\<rparr>)))))"

definition grant_revoked :: "host \<Rightarrow> run_state \<Rightarrow> js \<Rightarrow> run_state res" where
  "grant_revoked h st event =
     bnd (dot (fld event ''payload'') ''id'') (\<lambda>i.
     if \<not> safeKey i then fail ''Grant not found''
     else case map_of (grants st) (str_of i) of
       None \<Rightarrow> fail ''Grant not found''
     | Some g \<Rightarrow>
         bnd (chk_text (fld (fld event ''payload'') ''reason'') ''revocation reason'') (\<lambda>_.
         if \<not> g_active g then fail ''Grant already revoked''
         else let epoch = revocationEpoch st + 1 in
           Inr (st\<lparr>grants := obj_set (grants st) (str_of i) (g\<lparr>g_active := False, g_revocationEpoch := epoch\<rparr>),
             revocationEpoch := epoch\<rparr>)))"

text \<open>\<open>g.budgetUsed.attempts++; if (ACTIONS.get(op.action)) g.budgetUsed.externalEffects++\<close>\<close>

definition spend :: "grant \<Rightarrow> js \<Rightarrow> grant" where
  "spend g action = g\<lparr>budgetUsed := \<lparr>attempts = attempts (budgetUsed g) + 1,
     externalEffects = externalEffects (budgetUsed g) + (if external action then 1 else 0)\<rparr>\<rparr>"

definition operation_admitted :: "host \<Rightarrow> run_state \<Rightarrow> js \<Rightarrow> run_state res" where
  "operation_admitted h st event =
     (let p = fld event ''payload'' in
     bnd (dot p ''grantId'') (\<lambda>gid.
     case map_of (grants st) (js_string h gid) of
       None \<Rightarrow> fail ''Grant not found''
     | Some g \<Rightarrow>
         if \<not> js_eq (fld p ''runRevision'') (revision st) \<or> \<not> js_eq (fld p ''generation'') (JNat (generation st))
            \<or> \<not> js_eq (fld p ''writer'') (owner st)
         then fail ''Admission writer/run mismatch''
         else if \<not> js_eq (fld p ''grantRevision'') (g_revision g) \<or> \<not> js_eq (fld p ''grantEpoch'') (JNat (g_revocationEpoch g))
         then fail ''Admission grant revision/epoch mismatch''
         else bnd (normalizeOperation h (fld p ''operation'')) (\<lambda>op.
           bnd (operationDigest h op) (\<lambda>computed.
           if \<not> js_eq (fld p ''operationDigest'') (JStr computed) then fail ''Operation digest mismatch''
           else bnd (verifyDelegationDecision h (fld p ''authorization'') ''delegation-resolution'' g st) (\<lambda>_.
             if \<not> js_eq (fld (fld p ''authorization'') ''operationDigest'') (JStr computed)
                \<or> \<not> js_eq (fld (fld p ''authorization'') ''delegate'') (fld op ''delegate'')
             then fail ''Resolution operation binding mismatch''
             else if has_own (admissions st) (str_of (fld op ''id''))
             then fail ''Operation ID already admitted; reconcile existing admission''
             else case resolveGrant h (envelope g) st op (fld event ''timestamp'') of
               Refused r \<Rightarrow> fail (''Admission rejected: '' @ r)
             | Admitted op' d \<Rightarrow>
                 Inr (st\<lparr>grants := obj_set (grants st) (js_string h gid) (spend g (fld op ''action'')),
                   admissions := obj_set (admissions st) (str_of (fld op ''id''))
                     (JObj [(''grantId'', gid), (''operation'', op), (''operationDigest'', JStr computed),
                       (''eventId'', fld event ''id''), (''eventDigest'', fld event ''digest''),
                       (''state'', JStr ''admitted'')])\<rparr>))))))"

text \<open>The reconciliation of a pending operation inside \<open>delegation-safety\<close>.\<close>

definition unresolved :: "js \<Rightarrow> bool" where
  "unresolved op = (\<not> one_of [''confirmed'', ''failed''] (fld op ''state''))"

definition reconcile_outcome :: "host \<Rightarrow> run_state \<Rightarrow> js \<Rightarrow> (string \<times> js) list res" where
  "reconcile_outcome h st p =
     (let key = js_string h (fld p ''operationId''); outcome = fld p ''outcome'';
          admitted = (case map_of (admissions st) key of Some a \<Rightarrow> a | None \<Rightarrow> JUndef);
          prior = obj_get (operations st) key in
      if \<not> js_eq (fld p ''kind'') (JStr ''reconcile'') \<or> \<not> truthy prior \<or> \<not> unresolved prior
      then fail ''Reconciliation requires a pending operation''
      else if \<not> js_eq (fld outcome ''verified'') (JBool True)
         \<or> \<not> one_of [''confirmed'', ''failed''] (fld outcome ''state'')
         \<or> \<not> js_eq (fld outcome ''operationId'') (fld p ''operationId'')
         \<or> \<not> js_eq (fld outcome ''payloadDigest'') (fld admitted ''operationDigest'')
         \<or> \<not> js_eq (fld outcome ''candidateDigest'') (fld (fld admitted ''operation'') ''candidateDigest'')
         \<or> \<not> is_text (fld outcome ''sourceRevision'')
      then fail ''Reconciliation requires exact authoritative operation evidence''
      else Inr (obj_set (operations st) key
        (JObj (obj_set (obj_set (own_props prior) ''state'' (fld outcome ''state'')) ''reconciliation'' outcome))))"

definition delegation_safety :: "host \<Rightarrow> run_state \<Rightarrow> js \<Rightarrow> run_state res" where
  "delegation_safety h st event =
     (let p = fld event ''payload'' in
     bnd (dot p ''kind'') (\<lambda>kind.
     let terminal = (js_eq kind (JStr ''reconcile'') \<and> \<not> js_eq (fld p ''outcome'') JUndef) in
     if \<not> truthy (delegationPolicy st) then fail ''Delegation policy required''
     else if \<not> terminal \<and> num_le (num_of (fld (delegationPolicy st) ''safetyReserve'')) (Fin (of_nat (safetyUsed st)))
     then fail ''Safety reserve exhausted''
     else if list_ex (\<lambda>(k, _). k \<notin> {''id'', ''kind'', ''reason'', ''operationId'', ''outcome''}) (own_props p)
        \<or> \<not> safeKey (fld p ''id'') \<or> \<not> one_of [''checkpoint'', ''reconcile''] kind
     then fail ''Invalid safety operation''
     else bnd (chk_text (fld p ''reason'') ''safety reason'') (\<lambda>_.
       if 2048 < byte_length (case json_text h p of None \<Rightarrow> ''undefined'' | Some s \<Rightarrow> s)
       then fail ''Safety checkpoint exceeds bounded capacity''
       else if js_eq kind (JStr ''reconcile'') \<and> \<not> has_own (admissions st) (js_string h (fld p ''operationId''))
       then fail ''Safety reconciliation requires prior admission''
       else bnd (if js_eq (fld p ''outcome'') JUndef then Inr (operations st) else reconcile_outcome h st p) (\<lambda>ops.
         if list_ex (\<lambda>r. js_eq (fld r ''id'') (fld p ''id'')) (safetyRecords st) then fail ''Duplicate safety record''
         else Inr (st\<lparr>operations := ops, safetyUsed := safetyUsed st + 1, safetyRecords := safetyRecords st @ [p]\<rparr>)))))"

text \<open>\<open>None\<close> is the result \<open>false\<close>: not a delegation event.\<close>

definition reduceDelegationEvent :: "host \<Rightarrow> run_state \<Rightarrow> js \<Rightarrow> run_state option res" where
  "reduceDelegationEvent h st event =
     (let kind = fld event ''kind'' in
      if js_eq kind (JStr ''grant-issued'') then bnd (grant_issued h st event) (\<lambda>s. Inr (Some s))
      else if js_eq kind (JStr ''grant-revoked'') then bnd (grant_revoked h st event) (\<lambda>s. Inr (Some s))
      else if js_eq kind (JStr ''operation-admitted'') then bnd (operation_admitted h st event) (\<lambda>s. Inr (Some s))
      else if js_eq kind (JStr ''delegation-safety'') then bnd (delegation_safety h st event) (\<lambda>s. Inr (Some s))
      else Inr None)"

end
