(* ===== verification/RunState.thy ===== *)
theory RunState
  imports Delegation
begin

text \<open>
  The run reducer (src/lib/core/run-state.mjs): a delivery run is the fold of its sealed events.
  Every event kind is one handler; \<open>reduce_event\<close> is the body of the loop of \<open>reduceRun\<close>
  (record checks, duplicates, the hash chain, the guards, the handler, the invalidation of stale
  oracle evidence and the new revision). The two projections of the state follow.
\<close>

section \<open>Constants and construction of events\<close>

definition RUN_ROLES :: "string list" where
  "RUN_ROLES = [''product-manager'', ''analyst'', ''architect'', ''implementation-planner'', ''developer'',
     ''tester'', ''reviewer'', ''technical-writer'', ''pr-readiness'']"

definition RUN_EVENT_TYPES :: "string list" where
  "RUN_EVENT_TYPES = [''started'', ''contract-frozen'', ''oracle-pinned'', ''oracle-custody-recorded'', ''candidate'',
     ''observation'', ''budget-admission'', ''advanced'', ''returned'', ''rework-resolved'', ''paused'', ''blocked'',
     ''resumed'', ''operation'', ''completed'', ''cancelled'', ''checkpoint'', ''grant-issued'', ''grant-revoked'',
     ''operation-admitted'', ''delegation-safety'']"

definition boundaryOrder :: "string list" where
  "boundaryOrder = [''observe'', ''propose'', ''mutate-worktree'', ''open-pr'', ''external-action'']"

text \<open>The arguments of \<open>createRunEvent\<close>; \<open>now\<close> is the clock reading the default timestamp takes.\<close>

definition createRunEvent :: "host \<Rightarrow> string \<Rightarrow> js \<Rightarrow> js \<Rightarrow> js \<Rightarrow> js \<Rightarrow> js \<Rightarrow> js \<Rightarrow> js \<Rightarrow> (string \<times> js) list" where
  "createRunEvent h now run i previousDigest gen kind payload timestamp' =
     sealDeliveryRecord h ''run-event'' [(''runId'', run), (''id'', i),
       (''previousDigest'', js_default previousDigest JNull), (''generation'', js_default gen (JNat 0)),
       (''kind'', kind), (''payload'', js_default payload (JObj [])),
       (''timestamp'', js_default timestamp' (JStr now))]"

section \<open>Starting a run\<close>

definition start_run :: "js \<Rightarrow> run_state res" where
  "start_run event =
     (let p = fld event ''payload'' in
      if \<not> js_eq (fld event ''kind'') (JStr ''started'') \<or> \<not> js_eq (fld event ''generation'') (JNat 0)
      then fail ''Run must start at generation zero''
      else bnd (dot p ''profile'') (\<lambda>prof.
        if \<not> one_of [''bounded'', ''standard'', ''high-assurance'', ''exploratory''] prof then fail ''Invalid profile''
        else if \<not> one_of boundaryOrder (fld p ''boundary'') then fail ''Invalid action boundary''
        else bnd (requireText (fld p ''goalRef'') ''goalRef'') (\<lambda>_.
          bnd (requireText (fld p ''owner'') ''owner'') (\<lambda>_.
          bnd (if truthy (fld p ''delegationPolicy'') then validateDelegationPolicy (fld p ''delegationPolicy'') else Inr ()) (\<lambda>_.
          Inr \<lparr>runId = fld event ''runId'', goalRef = fld p ''goalRef'', profile = prof, boundary = fld p ''boundary'',
            authorityProtocol = coal (fld p ''authorityProtocol'') (JStr ''legacy''), owner = fld p ''owner'',
            writer = coal (fld p ''writer'') JNull, budget_config = coal (fld p ''budget'') JNull,
            budgetAdmission = JNull, generation = 0, status = Active, phase = 0, candidateDigest = JNull,
            observations = [], openRework = [], operations = [], history = [], revision = JNull, grants = [],
            admissions = [],
            delegationPolicy = (if truthy (fld p ''delegationPolicy'') then fld p ''delegationPolicy'' else JNull),
            safetyUsed = 0, safetyRecords = [], revocationEpoch = 0, oraclePin = JNull, oracleDigest = JNull,
            contract = JUndef, contractSourceRevision = JUndef, reason = JUndef, oracleAssuranceRequired = False,
            oracleCustody = JUndef, oraclePackage = JUndef, oraclePackageDeveloper = JUndef,
            oracleRuntimeEvidence = JUndef\<rparr>)))))"

section \<open>Guards before the handlers\<close>

definition terminal :: "run_state \<Rightarrow> bool" where
  "terminal st = (status st \<in> {Completed, Cancelled})"

definition inactive_kinds :: "string list" where
  "inactive_kinds = [''checkpoint'', ''resumed'', ''operation'', ''cancelled'', ''delegation-safety'', ''grant-revoked'']"

definition event_guards :: "run_state \<Rightarrow> js \<Rightarrow> run_state res" where
  "event_guards st event =
     (let p = fld event ''payload''; kind = fld event ''kind''; isop = js_eq kind (JStr ''operation'') in
      if \<not> js_eq (fld event ''runId'') (runId st) \<or> \<not> js_eq (fld event ''generation'') (JNat (generation st))
      then fail ''Run identity or writer generation changed''
      else bnd (if terminal st
           then (if \<not> isop then fail ''Terminal run cannot be changed''
                 else bnd (dot p ''kind'') (\<lambda>k.
                   if \<not> js_eq k (JStr ''issue-projection'') then fail ''Terminal run cannot be changed'' else Inr ()))
           else Inr ()) (\<lambda>_.
        if status st \<noteq> Active \<and> \<not> one_of inactive_kinds kind then fail ''Paused or blocked run requires recovery''
        else bnd (if status st \<in> {Paused, Blocked} \<and> isop
             then bnd (dot p (if status st = Paused then ''kind'' else ''state'')) (\<lambda>k.
               if \<not> (status st = Paused \<and> js_eq k (JStr ''provider-safe-stop''))
                  \<and> \<not> one_of [''confirmed'', ''failed'', ''unknown''] (fld p ''state'')
               then fail ''Inactive runs may only reconcile operations'' else Inr ())
             else Inr ()) (\<lambda>_.
          bnd (dot p ''oracleAssuranceRequired'') (\<lambda>required.
          Inr (if js_eq required (JBool True) \<and> one_of [''contract-frozen'', ''oracle-pinned''] kind
               then st\<lparr>oracleAssuranceRequired := True\<rparr> else st)))))"

section \<open>Contract, oracle and evidence events\<close>

text \<open>\<open>Object.values(state.oracleCustody).some((receipt) => receipt.oracleDigest !== digest)\<close>, then \<open>delete\<close>.\<close>

definition drop_foreign_custody :: "js \<Rightarrow> run_state \<Rightarrow> run_state" where
  "drop_foreign_custody d st =
     (if truthy (oracleCustody st)
         \<and> list_ex (\<lambda>(_, r). \<not> js_eq (fld r ''oracleDigest'') d) (own_props (oracleCustody st))
      then st\<lparr>oracleCustody := JUndef\<rparr> else st)"

definition default_pin :: "js \<Rightarrow> js \<Rightarrow> js" where
  "default_pin d seat = JObj [(''type'', JStr ''oracle-pin''), (''phase'', JNat 3), (''oracleDigest'', d),
     (''pinnedBefore'', seat)]"

text \<open>The block that several events share: a digest, when there is one, replaces the pin.\<close>

definition pin_digest :: "host \<Rightarrow> js \<Rightarrow> js \<Rightarrow> run_state \<Rightarrow> run_state res" where
  "pin_digest h d pin st =
     (if truthy d then
        bnd (requireDigest h d ''oracle digest'') (\<lambda>_.
        Inr ((drop_foreign_custody d st)\<lparr>oracleDigest := d, oraclePin := coal pin (default_pin d (JStr ''dev.build''))\<rparr>))
      else Inr st)"

definition contract_frozen :: "host \<Rightarrow> run_state \<Rightarrow> js \<Rightarrow> run_state res" where
  "contract_frozen h st event =
     (let p = fld event ''payload''; c = fld p ''contract''; criteria = fld c ''criteria'' in
      if \<not> truthy (fld criteria ''length'') \<or> \<not> truthy (fld p ''sourceRevision'')
      then fail ''Contract requires criteria and source revision''
      else if \<not> is_array criteria then Inl (TypeError ''p.contract.criteria.map is not a function'')
      else bnd (map_res (\<lambda>x. bnd (dot x ''id'') (\<lambda>i. requireText i ''criterion id'')) (elems criteria)) (\<lambda>ids.
        if \<not> js_distinct ids then fail ''Duplicate acceptance criterion''
        else let st' = st\<lparr>contract := c, contractSourceRevision := fld p ''sourceRevision'', observations := []\<rparr> in
          if truthy (fld p ''oracleDigest'') \<or> truthy (fld c ''oracleDigest'') \<or> truthy (fld p ''oraclePin'')
             \<or> truthy (fld c ''oraclePin'')
          then pin_digest h
            (coal (fld p ''oracleDigest'') (coal (fld c ''oracleDigest'')
              (coal (fld (fld p ''oraclePin'') ''oracleDigest'') (fld (fld c ''oraclePin'') ''oracleDigest''))))
            (coal (fld p ''oraclePin'') (fld c ''oraclePin'')) st'
          else Inr st'))"

definition oracle_pinned :: "host \<Rightarrow> run_state \<Rightarrow> js \<Rightarrow> run_state res" where
  "oracle_pinned h st event =
     (let p = fld event ''payload''; d = coal (fld p ''digest'') (coal (fld p ''oracleDigest'') (fld (fld p ''pin'') ''oracleDigest''));
          package = fld p ''oraclePackage'' in
      bnd (requireDigest h d ''oracle digest'') (\<lambda>_.
      let st1 = (drop_foreign_custody d st)\<lparr>oracleDigest := d\<rparr> in
      bnd (if truthy package then
             bnd (requireOraclePackageRequest h (fld package ''request'')) (\<lambda>request.
             bnd (requireOraclePackageReceipt h (fld package ''receipt'') request) (\<lambda>receipt.
             if \<not> js_eq (fld request ''runId'') (runId st) \<or> \<not> js_eq (fld request ''goalRef'') (goalRef st)
                \<or> \<not> js_eq (fld request ''candidateDigest'') (coal (candidateDigest st) JNull)
                \<or> \<not> js_eq (fld request ''runRevision'') (fld event ''previousDigest'')
                \<or> \<not> js_eq (fld request ''generation'') (JNat (generation st))
                \<or> \<not> js_eq (fld request ''revocationEpoch'') (JNat (revocationEpoch st))
                \<or> \<not> js_eq (fld request ''stage'') (JStr ''pin'') \<or> \<not> js_eq (fld receipt ''oracleDigest'') d
             then fail ''Oracle package proof is stale for native pin''
             else Inr (st1\<lparr>oraclePackage := package, oracleAssuranceRequired := True\<rparr>)))
           else Inr st1) (\<lambda>st2.
      Inr (st2\<lparr>oraclePin := coal (fld p ''pin'') (default_pin d (coal (fld p ''seat'') (JStr ''dev.build'')))\<rparr>))))"

definition oracle_custody_recorded :: "host \<Rightarrow> run_state \<Rightarrow> js \<Rightarrow> run_state res" where
  "oracle_custody_recorded h st event =
     (let p = fld event ''payload'' in
      bnd (requireOracleCustodyRequest h (fld p ''request'')) (\<lambda>request.
      bnd (requireOracleCustodyReceipt h (fld p ''receipt'') request) (\<lambda>receipt.
      if \<not> js_eq (fld request ''runId'') (runId st) \<or> \<not> js_eq (fld request ''goalRef'') (goalRef st)
         \<or> \<not> js_eq (fld request ''runRevision'') (fld event ''previousDigest'')
         \<or> \<not> js_eq (fld request ''generation'') (JNat (generation st))
         \<or> \<not> js_eq (fld request ''revocationEpoch'') (JNat (revocationEpoch st))
         \<or> \<not> js_eq (fld request ''oracleDigest'') (oracleDigest st)
         \<or> \<not> js_eq (fld request ''candidateDigest'') (coal (candidateDigest st) JNull)
      then fail ''Oracle custody request is stale for current source state''
      else Inr (st\<lparr>oracleCustody := JObj (obj_set (own_props (oracleCustody st))
        (if js_eq (fld request ''mode'') (JStr ''historical-author'') then ''author'' else ''assignment'') receipt)\<rparr>))))"

definition candidate_event :: "host \<Rightarrow> run_state \<Rightarrow> js \<Rightarrow> run_state res" where
  "candidate_event h st event =
     (let d = fld (fld event ''payload'') ''digest'' in
      bnd (requireDigest h d ''candidate digest'') (\<lambda>_.
      Inr ((if truthy (oracleCustody st) \<and> \<not> js_eq (candidateDigest st) d then st\<lparr>oracleCustody := JUndef\<rparr> else st)
        \<lparr>candidateDigest := d, observations := []\<rparr>)))"

definition observation_event :: "host \<Rightarrow> run_state \<Rightarrow> js \<Rightarrow> run_state res" where
  "observation_event h st event =
     (let obs = fld (fld event ''payload'') ''observation'' in
      bnd (requireDeliveryRecord h obs ''verification-observation'') (\<lambda>_.
      if \<not> js_eq (fld obs ''candidateDigest'') (candidateDigest st) then fail ''Observation belongs to stale candidate''
      else Inr (st\<lparr>observations := observations st @ [obs]\<rparr>)))"

definition budget_admission_event :: "run_state \<Rightarrow> js \<Rightarrow> run_state res" where
  "budget_admission_event st event =
     (let p = fld event ''payload'' in
      if \<not> truthy (budget_config st) \<or> \<not> is_bool (fld (fld p ''result'') ''admitted'')
         \<or> \<not> is_bool (fld (fld p ''result'') ''known'')
      then fail ''Budget admission requires a configured budget and explicit result''
      else Inr (st\<lparr>budgetAdmission := JObj (obj_set (own_props p) ''observedAt'' (fld event ''timestamp''))\<rparr>))"

section \<open>Advancing, returning and rework\<close>

definition pending :: "run_state \<Rightarrow> bool" where
  "pending st = list_ex (\<lambda>(_, op). unresolved op) (operations st)"

text \<open>The comparison of a verified intent request with the run it is used for.\<close>

definition intent_binds :: "host \<Rightarrow> run_state \<Rightarrow> js \<Rightarrow> unit res" where
  "intent_binds h st event =
     (let p = fld event ''payload''; ir = fld p ''intentRequest'';
          stale = ''Intent consent does not bind this phase advance'' in
      if \<not> js_eq (fld ir ''runId'') (runId st) \<or> \<not> js_eq (fld ir ''runRevision'') (fld event ''previousDigest'')
         \<or> \<not> js_eq (fld ir ''generation'') (JNat (generation st)) \<or> \<not> js_eq (fld ir ''goalRef'') (goalRef st)
         \<or> \<not> js_eq (fld ir ''goalRevision'') (fld (contract st) ''goalRevision'')
         \<or> \<not> js_eq (fld ir ''contractSourceRevision'') (contractSourceRevision st)
         \<or> \<not> js_eq (fld ir ''contractDigest'') (JStr (recordDigest h (contract st)))
         \<or> \<not> js_eq (fld ir ''profile'') (profile st)
      then fail stale
      else bnd (dot (fld ir ''scope'') ''businessBoundary'') (\<lambda>bb.
        if \<not> js_eq bb (boundary st)
           \<or> recordDigest h (fld (fld ir ''scope'') ''budget'') \<noteq> recordDigest h (budget_config st)
           \<or> \<not> js_eq (fld ir ''planDigest'') (fld p ''planDigest'')
        then fail stale else Inr ()))"

text \<open>The runtime evidence an assured run shows when it leaves the developer or the tester phase.\<close>

definition runtime_evidence :: "run_state \<Rightarrow> js \<Rightarrow> run_state res" where
  "runtime_evidence st proof' =
     (let stale = ''Actual candidate runtime evidence required; calibration cannot satisfy execution'' in
      if \<not> truthy proof' \<or> \<not> js_eq (fld proof' ''candidateDigest'') (candidateDigest st)
         \<or> \<not> js_eq (fld proof' ''oracleDigest'') (oracleDigest st)
         \<or> \<not> js_eq (fld proof' ''manifestDigest'') (fld (fld (oraclePackage st) ''receipt'') ''manifestDigest'')
         \<or> \<not> js_eq (fld proof' ''generation'') (JNat (generation st))
         \<or> \<not> js_eq (fld proof' ''revocationEpoch'') (JNat (revocationEpoch st))
      then fail stale
      else bnd (some_res (\<lambda>obs.
             if \<not> js_eq (fld obs ''digest'') (fld proof' ''observationDigest'') then Inr False
             else bnd (dot (oraclePackage st) ''receipt'') (\<lambda>r. bnd (dot r ''runtimeCriterionId'') (\<lambda>c.
               Inr (js_eq (fld obs ''criterionId'') c \<and> js_eq (fld obs ''outcome'') (JStr ''pass'')
                 \<and> js_eq (fld obs ''candidateDigest'') (candidateDigest st))))) (observations st)) (\<lambda>found.
        if \<not> found then fail stale else Inr (st\<lparr>oracleRuntimeEvidence := proof'\<rparr>)))"

definition developer_proof :: "host \<Rightarrow> run_state \<Rightarrow> js \<Rightarrow> js \<Rightarrow> run_state res" where
  "developer_proof h st event verified =
     (let request = fld verified ''request''; stale = ''Oracle developer package proof is stale'' in
      bnd (requireOraclePackageReceipt h (fld verified ''receipt'') request) (\<lambda>_.
      if \<not> js_eq (fld request ''stage'') (JStr ''developer'')
         \<or> \<not> js_eq (fld request ''runRevision'') (fld event ''previousDigest'')
         \<or> \<not> js_eq (fld request ''runId'') (runId st) \<or> \<not> js_eq (fld request ''goalRef'') (goalRef st)
         \<or> \<not> js_eq (fld request ''candidateDigest'') (coal (candidateDigest st) JNull)
         \<or> \<not> js_eq (fld request ''generation'') (JNat (generation st))
         \<or> \<not> js_eq (fld request ''revocationEpoch'') (JNat (revocationEpoch st))
         \<or> \<not> truthy (oraclePackage st)
      then fail stale
      else bnd (oraclePackageProofIdentity (fld verified ''receipt'')) (\<lambda>a.
        bnd (oraclePackageProofIdentity (fld (oraclePackage st) ''receipt'')) (\<lambda>b.
        if recordDigest h a \<noteq> recordDigest h b then fail stale
        else Inr (st\<lparr>oraclePackageDeveloper := verified\<rparr>)))))"

definition advanced :: "host \<Rightarrow> run_state \<Rightarrow> js \<Rightarrow> run_state res" where
  "advanced h st event =
     (let p = fld event ''payload'' in
      if status st \<noteq> Active \<or> openRework st \<noteq> [] then fail ''Run blocked by state or rework''
      else if pending st then fail ''Unresolved external operation''
      else if \<not> js_eq (fld p ''from'') (JNat (phase st)) \<or> \<not> js_eq (fld p ''to'') (JNat (phase st + 1)) \<or> 8 < phase st + 1
      then fail ''Invalid phase advancement''
      else bnd (requireDigest h (fld p ''acceptanceDigest'') ''acceptanceDigest'') (\<lambda>_.
      if \<not> js_eq (fld p ''candidateDigest'') (candidateDigest st) then fail ''Acceptance candidate changed''
      else bnd (if phase st = 0 \<and> js_eq (authorityProtocol st) (JStr ''host-intent-v1'')
           then bnd (verifyHostIntentConsent h (fld p ''intentRequest'') (fld p ''intentConsent'') (fld event ''timestamp'')) (\<lambda>_.
             intent_binds h st event)
           else Inr ()) (\<lambda>_.
      bnd (if truthy (fld p ''oracleDigest'') \<or> truthy (fld p ''oraclePin'')
           then pin_digest h (coal (fld p ''oracleDigest'') (fld (fld p ''oraclePin'') ''oracleDigest'')) (fld p ''oraclePin'') st
           else Inr st) (\<lambda>st1.
      if oracleAssuranceRequired st1 \<and> phase st1 = 3 \<and> \<not> truthy (fld p ''oraclePackageVerification'')
      then fail ''Assured oracle developer proof required''
      else bnd (if oracleAssuranceRequired st1 \<and> phase st1 \<in> {4, 5}
           then runtime_evidence st1 (fld p ''oracleRuntimeEvidence'') else Inr st1) (\<lambda>st2.
      bnd (if truthy (fld p ''oraclePackageVerification'')
           then developer_proof h st2 event (fld p ''oraclePackageVerification'') else Inr st2) (\<lambda>st3.
      Inr (st3\<lparr>phase := phase st + 1, contract := JNull, contractSourceRevision := JNull\<rparr>)))))))"

definition return_target :: "nat \<Rightarrow> nat option" where
  "return_target ph = (if ph = 4 then Some 3 else if ph \<in> {6, 7, 8} then Some 4 else None)"

definition open_finding :: "(string \<times> js) list \<Rightarrow> js \<Rightarrow> (string \<times> js) list res" where
  "open_finding rework finding =
     bnd (dot finding ''id'') (\<lambda>i.
     bnd (requireText i ''finding id'') (\<lambda>_.
     bnd (requireText (fld finding ''requiredChange'') ''required change'') (\<lambda>_.
     if truthy (obj_get rework (str_of i)) then fail ''Duplicate open finding''
     else Inr (obj_set rework (str_of i) finding))))"

definition returned :: "run_state \<Rightarrow> js \<Rightarrow> run_state res" where
  "returned st event =
     (let p = fld event ''payload'' in
      case return_target (phase st) of
        None \<Rightarrow> fail ''Invalid rework return''
      | Some target \<Rightarrow>
          if \<not> js_eq (fld p ''to'') (JNat target) \<or> \<not> truthy (fld (fld p ''findings'') ''length'')
          then fail ''Invalid rework return''
          else bnd (js_iter (fld p ''findings'')) (\<lambda>fs.
            bnd (for_fold open_finding (openRework st) fs) (\<lambda>rework.
            Inr (st\<lparr>openRework := rework, phase := target, contract := JNull, contractSourceRevision := JNull\<rparr>))))"

definition rework_resolved :: "host \<Rightarrow> run_state \<Rightarrow> js \<Rightarrow> run_state res" where
  "rework_resolved h st event =
     (let p = fld event ''payload''; key = js_string h (fld p ''id'') in
      if \<not> truthy (obj_get (openRework st) key) \<or> \<not> truthy (fld (fld p ''observationDigests'') ''length'')
      then fail ''Rework resolution requires current evidence''
      else bnd (js_iter (fld p ''observationDigests'')) (\<lambda>ds.
        bnd (for_each (\<lambda>d. if \<not> list_ex (\<lambda>obs. js_eq (fld obs ''digest'') d \<and> js_eq (fld obs ''outcome'') (JStr ''pass'')) (observations st)
            then fail ''Missing passing rework observation'' else Inr ()) ds) (\<lambda>_.
        Inr (st\<lparr>openRework := obj_del (openRework st) key\<rparr>))))"

section \<open>Suspension, recovery, operations and the end of a run\<close>

definition suspend :: "run_status \<Rightarrow> run_state \<Rightarrow> js \<Rightarrow> run_state res" where
  "suspend s st event =
     bnd (requireText (fld (fld event ''payload'') ''reason'') ''reason'') (\<lambda>r.
     Inr (st\<lparr>status := s, reason := r\<rparr>))"

fun index_of :: "string list \<Rightarrow> js \<Rightarrow> nat option" where
  "index_of [] v = None"
| "index_of (s # ss) v = (if js_eq v (JStr s) then Some 0 else map_option Suc (index_of ss v))"

definition resumed :: "run_state \<Rightarrow> js \<Rightarrow> run_state res" where
  "resumed st event =
     (let p = fld event ''payload'' in
      if status st \<notin> {Paused, Blocked, Active} \<or> \<not> js_eq (fld p ''previousOwnerStopped'') (JBool True)
      then fail ''Prior writer must be confirmed stopped''
      else case index_of boundaryOrder (fld p ''boundary'') of
        None \<Rightarrow> fail ''Resume cannot widen authority''
      | Some next \<Rightarrow>
          if (case index_of boundaryOrder (boundary st) of None \<Rightarrow> True | Some cur \<Rightarrow> cur < next)
          then fail ''Resume cannot widen authority''
          else if pending st then fail ''Reconcile operations before resume''
          else bnd (requireText (fld p ''owner'') ''new owner'') (\<lambda>_.
            let st1 = st\<lparr>owner := fld p ''owner'', generation := generation st + 1, boundary := fld p ''boundary'',
                  status := Active, reason := JUndef\<rparr>;
                st2 = (if truthy (fld p ''invalidateCandidate'')
                  then st1\<lparr>oracleCustody := JUndef, candidateDigest := JNull, observations := []\<rparr> else st1)
            in Inr (st2\<lparr>writer := coal (fld p ''writer'') JNull\<rparr>)))"

text \<open>The table \<open>transitions\<close> of the \<open>operation\<close> event.\<close>

definition transitions :: "run_state \<Rightarrow> js \<Rightarrow> (string \<times> js) list" where
  "transitions st p =
     [(''planned'', JArr ([JStr ''submitted'', JStr ''failed'']
        @ (if has_own (admissions st) (str_of (fld p ''id'')) then [JStr ''unknown''] else [])
        @ (if js_eq (fld (fld p ''reconciliation'') ''state'') (JStr ''confirmed'') then [JStr ''confirmed''] else []))),
      (''submitted'', JArr [JStr ''confirmed'', JStr ''unknown'', JStr ''failed'']),
      (''unknown'', JArr [JStr ''confirmed'', JStr ''failed'']),
      (''confirmed'', JArr []), (''failed'', JArr [])]"

definition operation_event :: "host \<Rightarrow> run_state \<Rightarrow> js \<Rightarrow> run_state res" where
  "operation_event h st event =
     (let p = fld event ''payload'' in
      bnd (requireText (fld p ''id'') ''operation id'') (\<lambda>_.
      bnd (requireDigest h (fld p ''payloadDigest'') ''operation payload digest'') (\<lambda>_.
      let prior = obj_get (operations st) (str_of (fld p ''id'')) in
      bnd (if \<not> truthy prior
           then (if \<not> js_eq (fld p ''state'') (JStr ''planned'') then fail ''Operation intent must be durable first'' else Inr ())
           else if \<not> js_eq (fld p ''payloadDigest'') (fld prior ''payloadDigest'')
           then fail ''Invalid operation transition or changed payload''
           else let next = obj_get (transitions st p) (js_string h (fld prior ''state'')) in
             bnd (if nullish next then Inr False else includes_res h next (fld p ''state'')) (\<lambda>allowed.
             if \<not> allowed then fail ''Invalid operation transition or changed payload'' else Inr ())) (\<lambda>_.
      Inr (st\<lparr>operations := obj_set (operations st) (str_of (fld p ''id''))
        (JObj (obj_spread (own_props prior) (own_props p)))\<rparr>)))))"

text \<open>The runtime evidence of an assured run is still about the current candidate, oracle and epoch.\<close>

definition evidence_current :: "run_state \<Rightarrow> bool" where
  "evidence_current st = (let e = oracleRuntimeEvidence st in
     js_eq (fld e ''candidateDigest'') (candidateDigest st) \<and> js_eq (fld e ''oracleDigest'') (oracleDigest st)
     \<and> js_eq (fld e ''generation'') (JNat (generation st)) \<and> js_eq (fld e ''revocationEpoch'') (JNat (revocationEpoch st)))"

definition completed :: "host \<Rightarrow> run_state \<Rightarrow> js \<Rightarrow> run_state res" where
  "completed h st event =
     (let p = fld event ''payload'' in
      if oracleAssuranceRequired st \<and> (\<not> truthy (oracleRuntimeEvidence st) \<or> \<not> evidence_current st
         \<or> \<not> js_eq (fld (oracleRuntimeEvidence st) ''manifestDigest'') (fld (fld (oraclePackage st) ''receipt'') ''manifestDigest''))
      then fail ''Current assured candidate runtime evidence required for completion''
      else if phase st \<noteq> 8 \<or> status st \<noteq> Active \<or> openRework st \<noteq> [] \<or> pending st then fail ''Run is not complete''
      else bnd (requireDigest h (fld p ''acceptanceDigest'') ''final acceptance'') (\<lambda>_.
        if \<not> js_eq (fld p ''candidateDigest'') (candidateDigest st) then fail ''Final acceptance candidate changed''
        else Inr (st\<lparr>status := Completed\<rparr>)))"

definition cancelled :: "run_state \<Rightarrow> run_state res" where
  "cancelled st = (if pending st then fail ''Reconcile before cancellation'' else Inr (st\<lparr>status := Cancelled\<rparr>))"

section \<open>The reducer\<close>

definition handle_event :: "host \<Rightarrow> run_state \<Rightarrow> js \<Rightarrow> run_state res" where
  "handle_event h st event =
     (let is = (\<lambda>k. js_eq (fld event ''kind'') (JStr k)) in
      if is ''contract-frozen'' then contract_frozen h st event
      else if is ''oracle-pinned'' then oracle_pinned h st event
      else if is ''oracle-custody-recorded'' then oracle_custody_recorded h st event
      else if is ''candidate'' then candidate_event h st event
      else if is ''observation'' then observation_event h st event
      else if is ''budget-admission'' then budget_admission_event st event
      else if is ''advanced'' then advanced h st event
      else if is ''returned'' then returned st event
      else if is ''rework-resolved'' then rework_resolved h st event
      else if is ''paused'' then suspend Paused st event
      else if is ''blocked'' then suspend Blocked st event
      else if is ''resumed'' then resumed st event
      else if is ''operation'' then operation_event h st event
      else if is ''completed'' then completed h st event
      else if is ''cancelled'' then cancelled st
      else bnd (reduceDelegationEvent h st event) (\<lambda>handled.
        case handled of Some st' \<Rightarrow> Inr st'
        | None \<Rightarrow> if is ''checkpoint'' then Inr st
            else fail (''Unsupported run event: '' @ js_string h (fld event ''kind''))))"

text \<open>The end of the loop body: stale oracle evidence is dropped, the event becomes the revision.\<close>

definition drop_stale :: "run_state \<Rightarrow> run_state" where
  "drop_stale st =
     (let st1 = (if truthy (oracleRuntimeEvidence st) \<and> \<not> evidence_current st
            then st\<lparr>oracleRuntimeEvidence := JUndef\<rparr> else st);
          st2 = (if truthy (oraclePackage st1) \<and> \<not> js_eq (fld (fld (oraclePackage st1) ''receipt'') ''oracleDigest'') (oracleDigest st1)
            then st1\<lparr>oraclePackage := JUndef\<rparr> else st1)
      in if truthy (oracleCustody st2) \<and> list_ex (\<lambda>(_, r). \<not> js_eq (fld r ''generation'') (JNat (generation st2))
              \<or> \<not> js_eq (fld r ''revocationEpoch'') (JNat (revocationEpoch st2))) (own_props (oracleCustody st2))
         then st2\<lparr>oracleCustody := JUndef\<rparr> else st2)"

definition settle :: "run_state \<Rightarrow> js \<Rightarrow> run_state" where
  "settle st event =
     (let st1 = drop_stale st;
          st2 = (if js_eq (fld event ''kind'') (JStr ''started'')
              \<and> js_eq (fld (fld event ''payload'') ''oracleAssuranceRequired'') (JBool True)
            then st1\<lparr>oracleAssuranceRequired := True\<rparr> else st1)
      in st2\<lparr>revision := fld event ''digest'',
        history := history st2 @ [JObj [(''id'', fld event ''id''), (''kind'', fld event ''kind''),
          (''timestamp'', fld event ''timestamp''), (''digest'', fld event ''digest'')]]\<rparr>)"

definition apply_event :: "host \<Rightarrow> run_state option \<Rightarrow> js \<Rightarrow> run_state res" where
  "apply_event h so event =
     (if \<not> js_eq (case so of None \<Rightarrow> JNull | Some st \<Rightarrow> coal (revision st) JNull) (fld event ''previousDigest'')
      then fail ''Stale event parent''
      else bnd (case so of None \<Rightarrow> start_run event
           | Some st \<Rightarrow> bnd (event_guards st event) (\<lambda>st1. handle_event h st1 event)) (\<lambda>st'.
        Inr (settle st' event)))"

type_synonym run_log = "run_state option \<times> (string \<times> js) list"

definition reduce_event :: "host \<Rightarrow> run_log \<Rightarrow> js \<Rightarrow> run_log res" where
  "reduce_event h lg event = (case lg of (so, seen) \<Rightarrow>
     bnd (requireDeliveryRecord h event ''run-event'') (\<lambda>_.
     bnd (requireText (fld event ''id'') ''event id'') (\<lambda>_.
     bnd (requireText (fld event ''runId'') ''runId'') (\<lambda>_.
     if \<not> is_instant h (fld event ''timestamp'') then fail ''Invalid event timestamp''
     else case map_of seen (str_of (fld event ''id'')) of
       Some d \<Rightarrow> if \<not> js_eq d (fld event ''digest'') then fail ''Conflicting duplicate event'' else Inr (so, seen)
     | None \<Rightarrow> bnd (apply_event h so event) (\<lambda>st'.
         Inr (Some st', (str_of (fld event ''id''), fld event ''digest'') # seen))))))"

definition reduceRun :: "host \<Rightarrow> js list \<Rightarrow> run_state option res" where
  "reduceRun h events = bnd (for_fold (reduce_event h) (None, []) events) (\<lambda>(so, _). Inr so)"

section \<open>Projections\<close>

definition role_of :: "run_state \<Rightarrow> js" where
  "role_of st = (if phase st < length RUN_ROLES then JStr (RUN_ROLES ! phase st) else JUndef)"

text \<open>\<open>state.observations.findLast(...)\<close> for one criterion, and its evidence entry.\<close>

definition criterion_evidence :: "run_state \<Rightarrow> js \<Rightarrow> js" where
  "criterion_evidence st criterion =
     (let obs = (case find (\<lambda>item. js_eq (fld item ''criterionId'') (fld criterion ''id'')
              \<and> js_eq (fld item ''definitionDigest'') (fld criterion ''definitionDigest'')
              \<and> js_eq (fld item ''candidateDigest'') (candidateDigest st)) (rev (observations st)) of
            Some x \<Rightarrow> x | None \<Rightarrow> JUndef)
      in JObj [(''criterionId'', fld criterion ''id''), (''observationDigest'', coal (fld obs ''digest'') JNull),
        (''observedOutcome'', coal (fld obs ''outcome'') (JStr ''missing'')),
        (''acceptance'', JStr ''requires-source-resolution'')])"

definition next_action :: "run_state \<Rightarrow> string" where
  "next_action st =
     (if pending st then ''reconcile-operations''
      else if terminal st then ''none''
      else if status st \<noteq> Active then ''inspect-recovery''
      else if openRework st \<noteq> [] then ''resolve-rework''
      else if \<not> truthy (contract st) then ''freeze-contract''
      else if \<not> truthy (candidateDigest st) then ''collect-evidence''
      else ''verify-and-advance'')"

definition pending_ops :: "run_state \<Rightarrow> js list" where
  "pending_ops st = filter unresolved (map snd (operations st))"

definition projectRunStatus :: "run_state option \<Rightarrow> js \<Rightarrow> js \<Rightarrow> js" where
  "projectRunStatus so durable observedAt = (case so of
     None \<Rightarrow> JObj [(''version'', JNat 1), (''status'', JStr ''absent''), (''durable'', durable), (''observedAt'', observedAt)]
   | Some st \<Rightarrow> JObj [(''version'', JNat 1), (''runId'', runId st), (''status'', JStr (status_name (status st))),
       (''role'', role_of st), (''candidateDigest'', candidateDigest st), (''owner'', owner st),
       (''generation'', JNat (generation st)), (''boundary'', boundary st),
       (''budget'', JObj [(''configuration'', budget_config st), (''lastAdmission'', budgetAdmission st),
          (''usageKnown'', JBool (js_eq (fld (budgetAdmission st) ''usageKnown'') (JBool True)))]),
       (''openRework'', JArr (map snd (openRework st))), (''pendingOperations'', JArr (pending_ops st)),
       (''evidence'', JArr (map (criterion_evidence st) (elems (fld (contract st) ''criteria'')))),
       (''durable'', durable), (''revision'', revision st), (''observedAt'', observedAt),
       (''projectionStatus'', JStr (if list_ex (\<lambda>op. js_eq (fld op ''kind'') (JStr ''issue-projection'')) (pending_ops st)
          then ''pending'' else ''settled'')),
       (''nextAction'', JStr (next_action st))])"

definition projectRunContext :: "host \<Rightarrow> run_state option \<Rightarrow> js res" where
  "projectRunContext h so = (case so of
     None \<Rightarrow> fail ''Run does not exist''
   | Some st \<Rightarrow> Inr (JObj [(''version'', JNat 1), (''runId'', runId st), (''goalRef'', goalRef st),
       (''revision'', revision st), (''role'', role_of st), (''owner'', owner st),
       (''generation'', JNat (generation st)), (''boundary'', boundary st), (''candidateDigest'', candidateDigest st),
       (''contract'', coal (contract st) JNull), (''openRework'', JArr (map snd (openRework st))),
       (''pendingOperationIds'', JArr (map (\<lambda>op. fld op ''id'') (pending_ops st))),
       (''authorityReferences'', JArr [JStr ''AGENTS.md'', JStr ''docs/agent-workflow.md'', JStr ''docs/issue-standards.md'']),
       (''roleReference'', JStr (''roles/'' @ js_string h (role_of st) @ ''/ROLE.md''))]))"

end
