(* ===== verification/Grants.thy ===== *)
theory Grants
  imports Delegation
begin

text \<open>
  What the delegation events of Delegation.thy guarantee. The books of the grants balance: what a
  grant has used and what it has reserved for its children stay within its limits, and a
  reservation is exactly the sum of the limits of the children. So a whole tree of grants spends
  at most what its roots were issued.
\<close>

section \<open>Association lists\<close>

lemma has_own_iff: "has_own fs k \<longleftrightarrow> k \<in> fst ` set fs"
  by (simp add: has_own_def map_of_eq_None_iff)

lemma sum_obj_set:
  fixes f :: "string \<times> 'v \<Rightarrow> int"
  assumes "map_of fs k = Some v" and "distinct (map fst fs)"
  shows "sum_list (map f (obj_set fs k w)) = sum_list (map f fs) - f (k, v) + f (k, w)"
  using assms by (induction fs) (auto split: if_splits)

lemma length_obj_set_new: "\<not> has_own fs k \<Longrightarrow> length (obj_set fs k v) = length fs + 1"
  by (simp add: has_own_iff obj_set_new)

section \<open>Counters\<close>

text \<open>The two counters of a grant, each with the name of its limit.\<close>

type_synonym counter = "(budget \<Rightarrow> int) \<times> string"

definition counters :: "counter list" where
  "counters = [(attempts, ''maxAttempts''), (externalEffects, ''maxExternalEffects'')]"

abbreviation binding :: "grant \<Rightarrow> js" where
  "binding g \<equiv> fld (envelope g) ''binding''"

abbreviation parent_id :: "grant \<Rightarrow> js" where
  "parent_id g \<equiv> fld (envelope g) ''parentId''"

definition limit :: "counter \<Rightarrow> grant \<Rightarrow> int" where
  "limit c g = int_of (fld (binding g) (snd c))"

definition used :: "counter \<Rightarrow> grant \<Rightarrow> int" where
  "used c g = fst c (budgetUsed g)"

definition reserved :: "counter \<Rightarrow> grant \<Rightarrow> int" where
  "reserved c g = fst c (budgetReserved g)"

text \<open>The limits of the children of the grant \<open>k\<close>, and of the grants without a parent.\<close>

definition child_limits :: "counter \<Rightarrow> (string \<times> grant) list \<Rightarrow> string \<Rightarrow> int" where
  "child_limits c gs k = sum_list (map (\<lambda>(_, g). if parent_id g = JStr k then limit c g else 0) gs)"

definition root_limits :: "counter \<Rightarrow> (string \<times> grant) list \<Rightarrow> int" where
  "root_limits c gs = sum_list (map (\<lambda>(_, g). if parent_id g = JNull then limit c g else 0) gs)"

definition total_used :: "counter \<Rightarrow> (string \<times> grant) list \<Rightarrow> int" where
  "total_used c gs = sum_list (map (\<lambda>(_, g). used c g) gs)"

definition balanced :: "(string \<times> grant) list \<Rightarrow> counter \<Rightarrow> string \<times> grant \<Rightarrow> bool" where
  "balanced gs c = (\<lambda>(k, g). 0 \<le> used c g \<and> reserved c g = child_limits c gs k \<and> used c g + reserved c g \<le> limit c g)"

definition linked :: "(string \<times> grant) list \<Rightarrow> string \<times> grant \<Rightarrow> bool" where
  "linked gs = (\<lambda>(k, g). fld (envelope g) ''id'' = JStr k \<and>
     (case parent_id g of JNull \<Rightarrow> True | JStr p \<Rightarrow> has_own gs p | _ \<Rightarrow> False))"

text \<open>The books of a run: the invariant of its grants and admissions.\<close>

definition grants_ok :: "(string \<times> grant) list \<Rightarrow> bool" where
  "grants_ok gs \<longleftrightarrow> distinct (map fst gs) \<and> list_all (linked gs) gs
     \<and> list_all (\<lambda>c. list_all (balanced gs c) gs) counters"

definition books_ok :: "run_state \<Rightarrow> bool" where
  "books_ok st \<longleftrightarrow> grants_ok (grants st)
     \<and> int (length (admissions st)) = total_used (attempts, ''maxAttempts'') (grants st)"

lemma grants_ok_iff:
  "grants_ok gs \<longleftrightarrow> distinct (map fst gs) \<and> (\<forall>k g. map_of gs k = Some g \<longrightarrow>
     linked gs (k, g) \<and> (\<forall>c\<in>set counters. balanced gs c (k, g)))"
proof (cases "distinct (map fst gs)")
  case True
  then have "list_all P gs \<longleftrightarrow> (\<forall>k g. map_of gs k = Some g \<longrightarrow> P (k, g))" for P
    by (auto simp: list_all_iff)
  with True show ?thesis by (auto simp: grants_ok_def list_all_iff [of _ counters])
qed (simp add: grants_ok_def)

lemma grants_okD:
  assumes "grants_ok gs" and "map_of gs k = Some g"
  shows "fld (envelope g) ''id'' = JStr k"
    and "parent_id g = JNull \<or> (\<exists>p. parent_id g = JStr p \<and> has_own gs p)"
    and "c \<in> set counters \<Longrightarrow> balanced gs c (k, g)"
proof -
  from assms have l: "linked gs (k, g)" and b: "\<forall>c\<in>set counters. balanced gs c (k, g)"
    by (auto simp: grants_ok_iff)
  from l show "fld (envelope g) ''id'' = JStr k" by (simp add: linked_def)
  from l show "parent_id g = JNull \<or> (\<exists>p. parent_id g = JStr p \<and> has_own gs p)"
    by (cases "parent_id g") (auto simp: linked_def)
  show "c \<in> set counters \<Longrightarrow> balanced gs c (k, g)" using b by blast
qed

lemma child_limits_update:
  assumes "distinct (map fst gs)" and "map_of gs k = Some g" and "envelope g' = envelope g"
  shows "child_limits c (obj_set gs k g') = child_limits c gs"
  using assms by (simp add: child_limits_def sum_obj_set limit_def fun_eq_iff)

lemma child_limits_new:
  assumes "\<not> has_own gs k"
  shows "child_limits c (obj_set gs k g) k' = child_limits c gs k' + (if parent_id g = JStr k' then limit c g else 0)"
  using assms by (simp add: child_limits_def obj_set_new has_own_iff)

lemma child_limits_none:
  assumes "grants_ok gs" and "\<not> has_own gs k"
  shows "child_limits c gs k = 0"
proof -
  have "parent_id g \<noteq> JStr k" if "(k', g) \<in> set gs" for k' g
  proof -
    have "map_of gs k' = Some g" using that assms(1) by (simp add: grants_ok_def)
    from grants_okD(2) [OF assms(1) this] assms(2) show ?thesis by auto
  qed
  then have "map (\<lambda>(_, g). if parent_id g = JStr k then limit c g else 0) gs = map (\<lambda>_. 0) gs"
    by (auto simp: map_eq_conv)
  then show ?thesis unfolding child_limits_def by (simp only: sum_list_0)
qed

text \<open>A grant keeps its envelope and its reservations and spends within its limits.\<close>

lemma grants_ok_spend:
  assumes ok: "grants_ok gs" and k: "map_of gs k = Some g" and env: "envelope g' = envelope g"
    and c: "\<And>c. c \<in> set counters \<Longrightarrow> 0 \<le> used c g' \<and> reserved c g' = reserved c g \<and> used c g' + reserved c g \<le> limit c g"
  shows "grants_ok (obj_set gs k g')"
proof -
  have d: "distinct (map fst gs)" using ok by (simp add: grants_ok_def)
  have keys: "has_own (obj_set gs k g') = has_own gs"
    using k by (auto simp: has_own_def fun_eq_iff)
  have lim: "limit c g' = limit c g" for c by (simp add: limit_def env)
  have "linked (obj_set gs k g') = linked gs" unfolding linked_def keys ..
  moreover have "balanced (obj_set gs k g') c x = balanced gs c x" for c x
    using child_limits_update [OF d k env] by (simp add: balanced_def)
  moreover have "linked gs (k, g')" using grants_okD(1,2) [OF ok k] by (auto simp: linked_def env)
  moreover have "balanced gs c (k, g')" if "c \<in> set counters" for c
    using c [OF that] grants_okD(3) [OF ok k that] by (simp add: balanced_def lim)
  ultimately show ?thesis using ok
    by (auto simp: grants_ok_iff distinct_obj_set split: if_splits)
qed

text \<open>A parent reserves what a new child may spend.\<close>

lemma grants_ok_child:
  assumes ok: "grants_ok gs" and p: "map_of gs pk = Some pg" and i: "\<not> has_own gs i"
    and env: "envelope pg' = envelope pg" and g: "fld (envelope g) ''id'' = JStr i" "parent_id g = JStr pk"
    and c: "\<And>c. c \<in> set counters \<Longrightarrow> used c pg' = used c pg \<and> reserved c pg' = reserved c pg + limit c g
       \<and> used c pg' + reserved c pg' \<le> limit c pg \<and> used c g = 0 \<and> reserved c g = 0 \<and> 0 \<le> limit c g"
  shows "grants_ok (obj_set (obj_set gs pk pg') i g)"
proof -
  let ?gs = "obj_set gs pk pg'"
  have d: "distinct (map fst gs)" using ok by (simp add: grants_ok_def)
  have pk: "has_own gs pk" using p by (simp add: has_own_def)
  have i': "\<not> has_own ?gs i" and ne: "i \<noteq> pk" using i pk by auto
  have cl: "child_limits c (obj_set ?gs i g) k = child_limits c gs k + (if k = pk then limit c g else 0)" for c k
    using child_limits_new [OF i', of c g] child_limits_update [OF d p env, of c] g by simp
  have lim: "limit c pg' = limit c pg" for c by (simp add: limit_def env)
  have "linked gs x \<Longrightarrow> linked (obj_set ?gs i g) x" for x
    by (auto simp: linked_def split: js.splits)
  moreover have "linked (obj_set ?gs i g) (i, g)" using g pk by (simp add: linked_def)
  moreover have "linked gs (pk, pg')" using grants_okD(1,2) [OF ok p] by (auto simp: linked_def env)
  moreover have "balanced gs c x \<Longrightarrow> fst x \<noteq> pk \<Longrightarrow> balanced (obj_set ?gs i g) c x" for c x
    by (auto simp: balanced_def cl)
  moreover have "balanced (obj_set ?gs i g) c (pk, pg')" if "c \<in> set counters" for c
    using c [OF that] grants_okD(3) [OF ok p that] by (simp add: balanced_def cl lim)
  moreover have "balanced (obj_set ?gs i g) c (i, g)" if "c \<in> set counters" for c
    using c [OF that] ne child_limits_none [OF ok i] by (simp add: balanced_def cl)
  ultimately show ?thesis using ok
    by (auto simp: grants_ok_iff distinct_obj_set split: if_splits)
qed

lemma grants_ok_root:
  assumes ok: "grants_ok gs" and i: "\<not> has_own gs i"
    and g: "fld (envelope g) ''id'' = JStr i" "parent_id g = JNull"
    and c: "\<And>c. c \<in> set counters \<Longrightarrow> used c g = 0 \<and> reserved c g = 0 \<and> 0 \<le> limit c g"
  shows "grants_ok (obj_set gs i g)"
proof -
  have d: "distinct (map fst gs)" using ok by (simp add: grants_ok_def)
  have cl: "child_limits c (obj_set gs i g) k = child_limits c gs k" for c k
    using child_limits_new [OF i] g by simp
  have "linked gs x \<Longrightarrow> linked (obj_set gs i g) x" for x
    by (auto simp: linked_def split: js.splits)
  moreover have "linked (obj_set gs i g) (i, g)" using g by (simp add: linked_def)
  moreover have "balanced (obj_set gs i g) c x = balanced gs c x" for c x by (simp add: balanced_def cl)
  moreover have "balanced gs c (i, g)" if "c \<in> set counters" for c
    using c [OF that] child_limits_none [OF ok i] by (simp add: balanced_def)
  ultimately show ?thesis using ok
    by (auto simp: grants_ok_iff distinct_obj_set split: if_splits)
qed

section \<open>What the validators establish\<close>

lemma chk_integer_Inr: "chk_integer v name mn = Inr u \<Longrightarrow> \<exists>n. v = JInt n \<and> mn \<le> n"
  by (auto simp: chk_integer_def js_int_Some split: if_splits option.splits)

lemma int_of_JInt [simp]: "int_of (JInt n) = n"
  by (simp add: int_of_def js_int_def)

lemma validateGrantRequest_limits:
  assumes "validateGrantRequest h r t pol = Inr u"
  shows "1 \<le> int_of (fld r ''maxAttempts'')" and "0 \<le> int_of (fld r ''maxExternalEffects'')"
proof -
  from assms have "chk_integer (fld r ''maxAttempts'') ''maxAttempts'' 1 = Inr ()"
      "chk_integer (fld r ''maxExternalEffects'') ''maxExternalEffects'' 0 = Inr ()"
    by (auto simp: validateGrantRequest_def Let_def split: if_splits)
  then show "1 \<le> int_of (fld r ''maxAttempts'')" "0 \<le> int_of (fld r ''maxExternalEffects'')"
    by (auto dest!: chk_integer_Inr)
qed

lemma safeKey_JStr: "safeKey v \<Longrightarrow> \<exists>s. v = JStr s \<and> s \<noteq> []"
  by (auto simp: safeKey_def split: js.splits)

section \<open>The four handlers\<close>

lemma grant_issued_Inr:
  assumes "grant_issued h st ev = Inr st'"
  obtains env gs i where "env = fld (fld ev ''payload'') ''grant''" and "fld env ''id'' = JStr i"
    and "\<not> has_own (grants st) i"
    and "validateGrantRequest h (fld env ''binding'') (fld ev ''timestamp'') (delegationPolicy st) = Inr ()"
    and "reserve_parent h st env (fld ev ''timestamp'') = Inr gs"
    and "st' = st\<lparr>grants := obj_set gs i \<lparr>envelope = env, g_revision = fld ev ''digest'', g_active = True,
       g_revocationEpoch = 0, budgetUsed = no_budget, budgetReserved = no_budget\<rparr>\<rparr>"
  using assms
  by (auto simp: grant_issued_def dot_Inr split: if_splits dest!: safeKey_JStr)

lemma grant_revoked_Inr:
  assumes "grant_revoked h st ev = Inr st'"
  obtains k g where "fld (fld ev ''payload'') ''id'' = JStr k" and "map_of (grants st) k = Some g" and "g_active g"
    and "st' = st\<lparr>grants := obj_set (grants st) k (g\<lparr>g_active := False, g_revocationEpoch := revocationEpoch st + 1\<rparr>),
       revocationEpoch := revocationEpoch st + 1\<rparr>"
  using assms
  by (auto simp: grant_revoked_def dot_Inr Let_def split: if_splits option.splits dest!: safeKey_JStr)

lemma resolveGrant_Admitted:
  "resolveGrant h env st op t = Admitted op' d \<longleftrightarrow> resolve_checks h env st op t = Inr (op', d)"
  by (auto simp: resolveGrant_def split: sum.splits prod.splits)

lemma normalizeOperation_id: "normalizeOperation h op = Inr op' \<Longrightarrow> op' = op"
  by (auto simp: normalizeOperation_def split: if_splits)

lemma operation_admitted_Inr:
  assumes "operation_admitted h st ev = Inr st'"
  shows "\<exists>g d r. let p = fld ev ''payload''; gid = js_string h (fld p ''grantId''); op = fld p ''operation'' in
     map_of (grants st) gid = Some g \<and> normalizeOperation h op = Inr op
     \<and> operationDigest h op = Inr d \<and> \<not> has_own (admissions st) (str_of (fld op ''id''))
     \<and> resolve_checks h (envelope g) st op (fld ev ''timestamp'') = Inr r
     \<and> verifyDelegationDecision h (fld p ''authorization'') ''delegation-resolution'' g st = Inr ()
     \<and> st' = st\<lparr>grants := obj_set (grants st) gid (spend g (fld op ''action'')),
       admissions := obj_set (admissions st) (str_of (fld op ''id''))
         (JObj [(''grantId'', fld p ''grantId''), (''operation'', op), (''operationDigest'', JStr d),
           (''eventId'', fld ev ''id''), (''eventDigest'', fld ev ''digest''), (''state'', JStr ''admitted'')])\<rparr>"
proof -
  define p where "p = fld ev ''payload''"
  from assms obtain g where g: "map_of (grants st) (js_string h (fld p ''grantId'')) = Some g"
    by (auto simp: operation_admitted_def Let_def dot_Inr p_def split: option.splits)
  from assms g obtain op d where op: "normalizeOperation h (fld p ''operation'') = Inr op" and d: "operationDigest h op = Inr d"
    by (auto simp: operation_admitted_def Let_def dot_Inr p_def split: if_split_asm)
  have op_eq: "op = fld p ''operation''" using op by (rule normalizeOperation_id)
  show ?thesis using assms g op d op_eq
    by (auto simp: operation_admitted_def Let_def dot_Inr p_def [symmetric] resolveGrant_Admitted
        split: if_split_asm resolution.split_asm)
qed

lemma operation_admitted_E:
  assumes "operation_admitted h st ev = Inr st'" and "p = fld ev ''payload''"
    and "gid = js_string h (fld p ''grantId'')" and "op = fld p ''operation''"
  obtains g d r where "map_of (grants st) gid = Some g" and "normalizeOperation h op = Inr op"
    and "operationDigest h op = Inr d" and "\<not> has_own (admissions st) (str_of (fld op ''id''))"
    and "resolve_checks h (envelope g) st op (fld ev ''timestamp'') = Inr r"
    and "verifyDelegationDecision h (fld p ''authorization'') ''delegation-resolution'' g st = Inr ()"
    and "st' = st\<lparr>grants := obj_set (grants st) gid (spend g (fld op ''action'')),
       admissions := obj_set (admissions st) (str_of (fld op ''id''))
         (JObj [(''grantId'', fld p ''grantId''), (''operation'', op), (''operationDigest'', JStr d),
           (''eventId'', fld ev ''id''), (''eventDigest'', fld ev ''digest''), (''state'', JStr ''admitted'')])\<rparr>"
  using operation_admitted_Inr [OF assms(1)] that
  unfolding Let_def assms(2) [symmetric] assms(3) [symmetric] assms(4) [symmetric] by blast

lemma delegation_safety_Inr:
  assumes "delegation_safety h st ev = Inr st'"
  obtains ops where "st' = st\<lparr>operations := ops, safetyUsed := safetyUsed st + 1,
      safetyRecords := safetyRecords st @ [fld ev ''payload'']\<rparr>"
    and "fld (fld ev ''payload'') ''outcome'' = JUndef \<and> ops = operations st
       \<or> fld (fld ev ''payload'') ''outcome'' \<noteq> JUndef \<and> reconcile_outcome h st (fld ev ''payload'') = Inr ops"
  using assms
  by (auto simp: delegation_safety_def Let_def split: if_splits)

section \<open>The books stay balanced\<close>

lemma all_counters: "(\<forall>c\<in>set counters. P c) \<longleftrightarrow> P (attempts, ''maxAttempts'') \<and> P (externalEffects, ''maxExternalEffects'')"
  by (simp add: counters_def)

lemmas ledger_defs = used_def reserved_def limit_def no_budget_def spend_def

lemma reserve_Inr:
  assumes "reserve pg b = Inr pg'"
  shows "envelope pg' = envelope pg" and "c \<in> set counters \<Longrightarrow>
     used c pg' = used c pg \<and> reserved c pg' = reserved c pg + int_of (fld b (snd c)) \<and> used c pg' + reserved c pg' \<le> limit c pg"
  using assms by (auto simp: reserve_def Let_def ledger_defs counters_def split: if_splits)

lemma total_used_update:
  assumes "distinct (map fst gs)" and "map_of gs k = Some g"
  shows "total_used c (obj_set gs k g') = total_used c gs - used c g + used c g'"
  using sum_obj_set [OF assms(2,1), of "\<lambda>(_, g). used c g"] by (simp add: total_used_def)

lemma total_used_new:
  assumes "\<not> has_own gs k"
  shows "total_used c (obj_set gs k g) = total_used c gs + used c g"
  using assms by (simp add: total_used_def obj_set_new has_own_iff)

lemma reserve_parent_cases:
  assumes "reserve_parent h st env t = Inr gs"
  obtains "fld env ''parentId'' = JNull" and "gs = grants st"
  | pk pg pg' where "fld env ''parentId'' = JStr pk" and "map_of (grants st) pk = Some pg"
      and "\<exists>as. grantAncestors h (envelope pg) st t = Inr as"
      and "validateChild h (fld env ''binding'') (envelope pg) = Inr ()"
      and "reserve pg (fld env ''binding'') = Inr pg'" and "gs = obj_set (grants st) pk pg'"
  using assms
  by (auto simp: reserve_parent_def Let_def split: if_splits option.splits dest!: safeKey_JStr)

lemma grant_issued_books:
  assumes ok: "books_ok st" and ev: "grant_issued h st ev = Inr st'"
  shows "books_ok st'"
proof -
  from ev obtain env gs i where env: "env = fld (fld ev ''payload'') ''grant''" "fld env ''id'' = JStr i"
    and i: "\<not> has_own (grants st) i"
    and v: "validateGrantRequest h (fld env ''binding'') (fld ev ''timestamp'') (delegationPolicy st) = Inr ()"
    and r: "reserve_parent h st env (fld ev ''timestamp'') = Inr gs"
    and st': "st' = st\<lparr>grants := obj_set gs i \<lparr>envelope = env, g_revision = fld ev ''digest'', g_active = True,
       g_revocationEpoch = 0, budgetUsed = no_budget, budgetReserved = no_budget\<rparr>\<rparr>"
    by (rule grant_issued_Inr)
  define g where "g = \<lparr>envelope = env, g_revision = fld ev ''digest'', g_active = True,
       g_revocationEpoch = 0, budgetUsed = no_budget, budgetReserved = no_budget\<rparr>"
  have g: "fld (envelope g) ''id'' = JStr i" "c \<in> set counters \<Longrightarrow> used c g = 0 \<and> reserved c g = 0 \<and> 0 \<le> limit c g" for c
    using env validateGrantRequest_limits [OF v] by (auto simp: g_def ledger_defs counters_def)
  have ok': "grants_ok (grants st)" "distinct (map fst (grants st))"
    using ok by (simp_all add: books_ok_def grants_ok_def)
  from r show ?thesis
  proof (cases rule: reserve_parent_cases)
    case 1
    have "grants_ok (obj_set (grants st) i g)"
      by (rule grants_ok_root [OF ok'(1) i g(1)]) (use 1 g(2) in \<open>simp_all add: g_def\<close>)
    then show ?thesis using ok i g(2)
      by (simp add: books_ok_def st' 1 g_def [symmetric] total_used_new counters_def)
  next
    case (2 pk pg pg')
    note rv = reserve_Inr [OF 2(5)]
    have lim: "limit c g = int_of (fld (fld env ''binding'') (snd c))" for c by (simp add: g_def limit_def)
    have "parent_id g = JStr pk" using 2(1) by (simp add: g_def)
    then have "grants_ok (obj_set (obj_set (grants st) pk pg') i g)"
    proof (rule grants_ok_child [OF ok'(1) 2(2) i rv(1) g(1)])
      show "used c pg' = used c pg \<and> reserved c pg' = reserved c pg + limit c g \<and> used c pg' + reserved c pg' \<le> limit c pg
          \<and> used c g = 0 \<and> reserved c g = 0 \<and> 0 \<le> limit c g" if "c \<in> set counters" for c
        using rv(2) [OF that] g(2) [OF that] lim by metis
    qed
    moreover have "\<not> has_own (obj_set (grants st) pk pg') i" using i 2(2) by (auto simp: has_own_def)
    ultimately show ?thesis using ok g(2) rv(2)
      by (simp add: books_ok_def st' 2(6) g_def [symmetric] total_used_new total_used_update [OF ok'(2) 2(2)] counters_def)
  qed
qed

lemma grant_revoked_books:
  assumes ok: "books_ok st" and ev: "grant_revoked h st ev = Inr st'"
  shows "books_ok st'"
proof -
  from ev obtain k g where k: "map_of (grants st) k = Some g"
    and st': "st' = st\<lparr>grants := obj_set (grants st) k (g\<lparr>g_active := False, g_revocationEpoch := revocationEpoch st + 1\<rparr>),
       revocationEpoch := revocationEpoch st + 1\<rparr>"
    by (rule grant_revoked_Inr)
  have ok': "grants_ok (grants st)" "distinct (map fst (grants st))"
    using ok by (simp_all add: books_ok_def grants_ok_def)
  have "grants_ok (obj_set (grants st) k (g\<lparr>g_active := False, g_revocationEpoch := revocationEpoch st + 1\<rparr>))"
    by (rule grants_ok_spend [OF ok'(1) k])
      (use grants_okD(3) [OF ok'(1) k] in \<open>auto simp: balanced_def used_def reserved_def\<close>)
  then show ?thesis using ok
    by (simp add: books_ok_def st' total_used_update [OF ok'(2) k] used_def)
qed

text \<open>What the budget guards of \<open>resolveGrant\<close> leave.\<close>

lemma resolve_checks_budget:
  assumes "resolve_checks h env st op t = Inr r" and "map_of (grants st) (js_string h (fld env ''id'')) = Some g"
  shows "used (attempts, ''maxAttempts'') g + reserved (attempts, ''maxAttempts'') g < limit (attempts, ''maxAttempts'') g"
    and "external (fld op ''action'') \<Longrightarrow>
      used (externalEffects, ''maxExternalEffects'') g + reserved (externalEffects, ''maxExternalEffects'') g
        < limit (externalEffects, ''maxExternalEffects'') g"
  using assms
  by (auto simp: resolve_checks_def Let_def dot_Inr ledger_defs dest: normalizeOperation_id split: if_splits)

lemma operation_admitted_books:
  assumes ok: "books_ok st" and ev: "operation_admitted h st ev = Inr st'"
  shows "books_ok st'"
proof -
  define p where "p = fld ev ''payload''"
  define gid where "gid = js_string h (fld p ''grantId'')"
  define op where "op = fld p ''operation''"
  from ev p_def gid_def op_def obtain g d r where k: "map_of (grants st) gid = Some g"
    and new: "\<not> has_own (admissions st) (str_of (fld op ''id''))"
    and r: "resolve_checks h (envelope g) st op (fld ev ''timestamp'') = Inr r"
    and eq: "st' = st\<lparr>grants := obj_set (grants st) gid (spend g (fld op ''action'')),
       admissions := obj_set (admissions st) (str_of (fld op ''id''))
         (JObj [(''grantId'', fld p ''grantId''), (''operation'', op), (''operationDigest'', JStr d),
           (''eventId'', fld ev ''id''), (''eventDigest'', fld ev ''digest''), (''state'', JStr ''admitted'')])\<rparr>"
    by (rule operation_admitted_E)
  have st': "grants st' = obj_set (grants st) gid (spend g (fld op ''action''))"
      "length (admissions st') = length (admissions st) + 1"
    using new by (simp_all add: eq length_obj_set_new)
  have ok': "grants_ok (grants st)" "distinct (map fst (grants st))"
    using ok by (simp_all add: books_ok_def grants_ok_def)
  have "fld (envelope g) ''id'' = JStr gid" using grants_okD(1) [OF ok'(1) k] .
  then have b: "used (attempts, ''maxAttempts'') g + reserved (attempts, ''maxAttempts'') g < limit (attempts, ''maxAttempts'') g"
      "external (fld op ''action'') \<Longrightarrow>
      used (externalEffects, ''maxExternalEffects'') g + reserved (externalEffects, ''maxExternalEffects'') g
        < limit (externalEffects, ''maxExternalEffects'') g"
    using resolve_checks_budget [OF r] k by auto
  have "\<forall>c\<in>set counters. 0 \<le> used c (spend g (fld op ''action'')) \<and> reserved c (spend g (fld op ''action'')) = reserved c g
      \<and> used c (spend g (fld op ''action'')) + reserved c g \<le> limit c g"
    unfolding all_counters
  proof
    have "balanced (grants st) (attempts, ''maxAttempts'') (gid, g)"
      by (rule grants_okD(3) [OF ok'(1) k]) (simp add: counters_def)
    with b(1) show "0 \<le> used (attempts, ''maxAttempts'') (spend g (fld op ''action''))
        \<and> reserved (attempts, ''maxAttempts'') (spend g (fld op ''action'')) = reserved (attempts, ''maxAttempts'') g
        \<and> used (attempts, ''maxAttempts'') (spend g (fld op ''action'')) + reserved (attempts, ''maxAttempts'') g
          \<le> limit (attempts, ''maxAttempts'') g"
      by (simp add: balanced_def used_def reserved_def spend_def)
    have "balanced (grants st) (externalEffects, ''maxExternalEffects'') (gid, g)"
      by (rule grants_okD(3) [OF ok'(1) k]) (simp add: counters_def)
    with b(2) show "0 \<le> used (externalEffects, ''maxExternalEffects'') (spend g (fld op ''action''))
        \<and> reserved (externalEffects, ''maxExternalEffects'') (spend g (fld op ''action'')) = reserved (externalEffects, ''maxExternalEffects'') g
        \<and> used (externalEffects, ''maxExternalEffects'') (spend g (fld op ''action'')) + reserved (externalEffects, ''maxExternalEffects'') g
          \<le> limit (externalEffects, ''maxExternalEffects'') g"
      by (cases "external (fld op ''action'')") (simp_all add: balanced_def used_def reserved_def spend_def)
  qed
  then have "grants_ok (grants st')" unfolding st'(1)
    by (intro grants_ok_spend [OF ok'(1) k]) (auto simp: spend_def)
  then show ?thesis using ok
    by (simp add: books_ok_def st' total_used_update [OF ok'(2) k]) (simp add: used_def spend_def)
qed

lemma delegation_safety_books:
  assumes "books_ok st" and "delegation_safety h st ev = Inr st'"
  shows "books_ok st'"
  using assms by (auto simp: books_ok_def elim!: delegation_safety_Inr)

lemma reduceDelegationEvent_books:
  assumes "books_ok st" and "reduceDelegationEvent h st ev = Inr (Some st')"
  shows "books_ok st'"
  using assms
  by (auto simp: reduceDelegationEvent_def Let_def split: if_splits
      intro: grant_issued_books grant_revoked_books operation_admitted_books delegation_safety_books)

section \<open>A whole tree of grants spends at most what its roots allow\<close>

lemma sum_list_swap:
  fixes f :: "'a \<Rightarrow> 'b \<Rightarrow> int"
  shows "sum_list (map (\<lambda>x. sum_list (map (f x) ys)) xs) = sum_list (map (\<lambda>y. sum_list (map (\<lambda>x. f x y) xs)) ys)"
  by (induction xs) (simp_all add: sum_list_addf)

lemma sum_key_match:
  fixes n :: int
  assumes "distinct (map fst gs)"
  shows "sum_list (map (\<lambda>(k, _). if v = JStr k then n else 0) gs) = (if \<exists>p. v = JStr p \<and> has_own gs p then n else 0)"
  using assms by (induction gs) (auto simp: has_own_iff image_iff)

lemma reserved_total:
  assumes ok: "grants_ok gs"
  shows "sum_list (map (\<lambda>(k, _). child_limits c gs k) gs) + root_limits c gs = sum_list (map (\<lambda>(_, g). limit c g) gs)"
proof -
  have d: "distinct (map fst gs)" using ok by (simp add: grants_ok_def)
  have eq: "(if \<exists>p. parent_id g = JStr p \<and> has_own gs p then limit c g else 0) + (if parent_id g = JNull then limit c g else 0) = limit c g"
    if "(k, g) \<in> set gs" for k g
    using grants_okD(2) [OF ok, of k g] that d by auto
  have "sum_list (map (\<lambda>(k, _). child_limits c gs k) gs)
      = sum_list (map (\<lambda>(_, g). sum_list (map (\<lambda>(k, _). if parent_id g = JStr k then limit c g else 0) gs)) gs)"
    unfolding child_limits_def using sum_list_swap [of "\<lambda>x y. if parent_id (snd y) = JStr (fst x) then limit c (snd y) else 0" gs gs]
    by (simp add: case_prod_beta')
  also have "\<dots> = sum_list (map (\<lambda>(_, g). if \<exists>p. parent_id g = JStr p \<and> has_own gs p then limit c g else 0) gs)"
    by (simp only: sum_key_match [OF d])
  finally have "sum_list (map (\<lambda>(k, _). child_limits c gs k) gs) + root_limits c gs
      = sum_list (map (\<lambda>(_, g). (if \<exists>p. parent_id g = JStr p \<and> has_own gs p then limit c g else 0)
          + (if parent_id g = JNull then limit c g else 0)) gs)"
    by (simp add: root_limits_def sum_list_addf case_prod_beta')
  also have "\<dots> = sum_list (map (\<lambda>(_, g). limit c g) gs)"
    by (intro arg_cong [of _ _ sum_list] map_cong refl) (auto simp: eq simp del: split_paired_Ex)
  finally show ?thesis .
qed

lemma total_used_le_roots:
  assumes ok: "grants_ok gs" and c: "c \<in> set counters"
  shows "total_used c gs \<le> root_limits c gs"
proof -
  have d: "distinct (map fst gs)" using ok by (simp add: grants_ok_def)
  have "used c g + child_limits c gs k \<le> limit c g" if "(k, g) \<in> set gs" for k g
  proof -
    have "map_of gs k = Some g" using that d by simp
    from grants_okD(3) [OF ok this c] show ?thesis by (simp add: balanced_def)
  qed
  then have "sum_list (map (\<lambda>(k, g). used c g + child_limits c gs k) gs) \<le> sum_list (map (\<lambda>(_, g). limit c g) gs)"
    by (intro sum_list_mono) auto
  moreover have "sum_list (map (\<lambda>(k, g). used c g + child_limits c gs k) gs)
      = total_used c gs + sum_list (map (\<lambda>(k, _). child_limits c gs k) gs)"
    by (simp add: total_used_def sum_list_addf case_prod_beta')
  ultimately show ?thesis using reserved_total [OF ok, of c] by linarith
qed

end
