(* ===== verification/Scopes.thy ===== *)
theory Scopes
  imports Grants
begin

text \<open>
  The scopes of delegation grants: a child never widens its parent, an admitted operation lies
  inside the scope of its grant and of every ancestor of it, and every one of them is active and
  unexpired at that moment. A revocation is final.
\<close>

section \<open>Scopes narrow from parent to child\<close>

lemma pathMatches_subset:
  assumes "patternSubset c q" and "safePath path"
    and "if ends_with c ''/*'' then starts_with (str_of path) (take (length c - 1) c) else path = JStr c"
  shows "if ends_with q ''/*'' then starts_with (str_of path) (take (length q - 1) q) else path = JStr q"
proof (cases "c = q")
  case False
  with assms(1) obtain q' c' where q: "q = q' @ ''/*''" and c: "c = q' @ ''/'' @ c'"
    by (auto simp: patternSubset_def ends_with_iff starts_with_iff)
  have pq: "take (length q - 1) q = q' @ ''/''" by (simp add: q)
  have "starts_with (str_of path) (q' @ ''/'')"
  proof (cases "ends_with c ''/*''")
    case True
    then obtain r where r: "c = r @ ''/*''" by (auto simp: ends_with_iff)
    with c have "c' \<noteq> []" by auto
    then have "take (length c - 1) c = q' @ ''/'' @ take (length c' - 1) c'" by (cases c') (simp_all add: c)
    with assms(3) True show ?thesis by (auto simp: starts_with_iff)
  next
    case False
    with assms(3) c show ?thesis by (auto simp: starts_with_iff)
  qed
  with q pq show ?thesis by (auto simp: ends_with_iff)
qed (use assms(3) in blast)

lemma paths_narrow:
  assumes "\<not> paths_widen child parent" and "is_strings child" and "is_strings parent"
    and "pathMatches path (elems child)"
  shows "pathMatches path (elems parent)"
proof -
  from assms(4) obtain x where x: "x \<in> set (elems child)" and safe: "safePath path"
    and m: "if ends_with (str_of x) ''/*'' then starts_with (str_of path) (take (length (str_of x) - 1) (str_of x)) else js_eq x path"
    by (auto simp: pathMatches_def list_ex_iff)
  from assms(1) x obtain q where q: "q \<in> set (elems parent)" and sub: "patternSubset (str_of x) (str_of q)"
    by (auto simp: paths_widen_def list_ex_iff)
  have "x = JStr (str_of x)" using assms(2) x by (auto simp: is_strings_def list_all_iff elim!: is_string.elims)
  moreover have qs: "q = JStr (str_of q)" using assms(3) q by (auto simp: is_strings_def list_all_iff elim!: is_string.elims)
  ultimately have "if ends_with (str_of x) ''/*'' then starts_with (str_of path) (take (length (str_of x) - 1) (str_of x)) else path = JStr (str_of x)"
    using m by (metis js_eq_JStr(2))
  from pathMatches_subset [OF sub safe this] qs q safe show ?thesis
    by (auto simp: pathMatches_def list_ex_iff intro!: bexI [of _ q]) (metis js_eq_JStr(2))+
qed

text \<open>What \<open>validateGrantRequest\<close> and \<open>validateChild\<close> say about the shape of a binding.\<close>

lemma chk_strings_Inr: "chk_strings v name = Inr u \<longleftrightarrow> is_strings v"
  by (auto simp: chk_strings_def)

lemma validateGrantRequest_strings:
  assumes "validateGrantRequest h r t pol = Inr u"
  shows "is_strings (fld r ''allowedActions'')" and "is_strings (fld r ''capabilities'')"
    and "is_strings (fld r ''allowedPaths'')" and "is_strings (fld r ''requiredChecks'')"
proof -
  from assms have "check_scope r pol = Inr ()" "is_strings (fld r ''allowedActions'')" "is_strings (fld r ''capabilities'')"
    by (auto simp: validateGrantRequest_def Let_def chk_strings_Inr split: if_splits)
  then show "is_strings (fld r ''allowedActions'')" "is_strings (fld r ''capabilities'')"
    "is_strings (fld r ''allowedPaths'')" "is_strings (fld r ''requiredChecks'')"
    by (auto simp: check_scope_def chk_strings_Inr split: if_splits)
qed

lemma is_strings_JArr: "is_strings v \<Longrightarrow> v = JArr (elems v)"
  by (cases v) (auto simp: is_strings_def)

lemma is_strings_elem: "is_strings v \<Longrightarrow> x \<in> set (elems v) \<Longrightarrow> \<exists>s. x = JStr s"
  by (auto simp: is_strings_def list_all_iff elim!: is_string.elims)

lemma widens_False:
  assumes "widens h child parent = Inr False" and "is_strings child" and "is_strings parent"
  shows "set (elems child) \<subseteq> set (elems parent)"
proof
  fix x assume x: "x \<in> set (elems child)"
  obtain cs ps where c: "child = JArr cs" and p: "parent = JArr ps"
    using assms(2,3) is_strings_JArr by metis
  from assms(1) x have "js_includes ps x"
    by (auto simp: widens_def c p includes_res_def some_res_False)
  with p show "x \<in> set (elems parent)" by (simp add: js_includes_in_set)
qed

definition unexpired :: "host \<Rightarrow> grant \<Rightarrow> js \<Rightarrow> bool" where
  "unexpired h g t = num_less (date_parse h t) (date_parse h (fld (binding g) ''expiry''))"

text \<open>The scope of one binding lies inside the scope of another.\<close>

definition narrower :: "host \<Rightarrow> js \<Rightarrow> js \<Rightarrow> bool" where
  "narrower h b pb \<longleftrightarrow> set (elems (fld b ''allowedActions'')) \<subseteq> set (elems (fld pb ''allowedActions''))
     \<and> set (elems (fld b ''capabilities'')) \<subseteq> set (elems (fld pb ''capabilities''))
     \<and> (\<forall>path. pathMatches path (elems (fld b ''allowedPaths'')) \<longrightarrow> pathMatches path (elems (fld pb ''allowedPaths'')))
     \<and> set (elems (fld pb ''requiredChecks'')) \<subseteq> set (elems (fld b ''requiredChecks''))
     \<and> (fld pb ''reviewPolicy'' = JStr ''human'' \<longrightarrow> fld b ''reviewPolicy'' = JStr ''human'')
     \<and> \<not> num_less (date_parse h (fld pb ''expiry'')) (date_parse h (fld b ''expiry''))
     \<and> \<not> num_less (num_of (fld pb ''maxAttempts'')) (num_of (fld b ''maxAttempts''))
     \<and> \<not> num_less (num_of (fld pb ''maxExternalEffects'')) (num_of (fld b ''maxExternalEffects''))"

lemma validateChild_narrower:
  assumes v: "validateChild h b env = Inr u"
    and "validateGrantRequest h b t pol = Inr u1" and "validateGrantRequest h (fld env ''binding'') t' pol' = Inr u2"
  shows "narrower h b (fld env ''binding'')"
proof -
  let ?pb = "fld env ''binding''"
  note strs = validateGrantRequest_strings [OF assms(2)] validateGrantRequest_strings [OF assms(3)]
  from v have acts: "for_each (\<lambda>k. bnd (widens h (fld b k) (fld ?pb k)) (\<lambda>w. if w then fail (''Child widens '' @ k) else Inr ()))
         [''allowedActions'', ''capabilities''] = Inr ()"
    by (simp add: validateChild_def Let_def del: for_each.simps split: if_split_asm)
  from v have rest: "\<not> paths_widen (fld b ''allowedPaths'') (fld ?pb ''allowedPaths'')"
      "widens h (fld ?pb ''requiredChecks'') (fld b ''requiredChecks'') = Inr False"
      "fld ?pb ''reviewPolicy'' = JStr ''human'' \<longrightarrow> fld b ''reviewPolicy'' = JStr ''human''"
      "\<not> num_less (date_parse h (fld ?pb ''expiry'')) (date_parse h (fld b ''expiry''))"
      "\<not> num_less (num_of (fld ?pb ''maxAttempts'')) (num_of (fld b ''maxAttempts''))"
      "\<not> num_less (num_of (fld ?pb ''maxExternalEffects'')) (num_of (fld b ''maxExternalEffects''))"
    by (auto simp: validateChild_def Let_def dot_Inr timestamp_def simp del: for_each.simps split: if_split_asm)
  from acts rest have w: "widens h (fld b ''allowedActions'') (fld ?pb ''allowedActions'') = Inr False"
      "widens h (fld b ''capabilities'') (fld ?pb ''capabilities'') = Inr False"
      "\<not> paths_widen (fld b ''allowedPaths'') (fld ?pb ''allowedPaths'')"
      "widens h (fld ?pb ''requiredChecks'') (fld b ''requiredChecks'') = Inr False"
      "fld ?pb ''reviewPolicy'' = JStr ''human'' \<longrightarrow> fld b ''reviewPolicy'' = JStr ''human''"
      "\<not> num_less (date_parse h (fld ?pb ''expiry'')) (date_parse h (fld b ''expiry''))"
      "\<not> num_less (num_of (fld ?pb ''maxAttempts'')) (num_of (fld b ''maxAttempts''))"
      "\<not> num_less (num_of (fld ?pb ''maxExternalEffects'')) (num_of (fld b ''maxExternalEffects''))"
    by (auto split: if_split_asm)
  show ?thesis unfolding narrower_def
    using widens_False [OF w(1)] widens_False [OF w(2)] widens_False [OF w(4)] paths_narrow [OF w(3)] strs w(5-8)
    by blast
qed

text \<open>Every grant of a run was validated, and lies inside its parent.\<close>

definition scoped :: "host \<Rightarrow> (string \<times> grant) list \<Rightarrow> js \<Rightarrow> grant \<Rightarrow> bool" where
  "scoped h gs pol g \<longleftrightarrow> (\<exists>t. validateGrantRequest h (binding g) t pol = Inr ())
     \<and> (\<forall>p. parent_id g = JStr p \<longrightarrow> (\<exists>pg. map_of gs p = Some pg \<and> narrower h (binding g) (binding pg)))"

definition scopes_ok :: "host \<Rightarrow> run_state \<Rightarrow> bool" where
  "scopes_ok h st \<longleftrightarrow> (\<forall>k g. map_of (grants st) k = Some g \<longrightarrow> scoped h (grants st) (delegationPolicy st) g)"

text \<open>Later grants keep every earlier envelope.\<close>

definition keeps_envelopes :: "(string \<times> grant) list \<Rightarrow> (string \<times> grant) list \<Rightarrow> bool" where
  "keeps_envelopes gs gs' \<longleftrightarrow> (\<forall>k g. map_of gs k = Some g \<longrightarrow> (\<exists>g'. map_of gs' k = Some g' \<and> envelope g' = envelope g))"

lemma keeps_update: "map_of gs k = Some g \<Longrightarrow> envelope g' = envelope g \<Longrightarrow> keeps_envelopes gs (obj_set gs k g')"
  by (auto simp: keeps_envelopes_def)

lemma keeps_new: "\<not> has_own gs k \<Longrightarrow> keeps_envelopes gs (obj_set gs k g)"
  by (auto simp: keeps_envelopes_def has_own_def)

lemma keeps_trans: "keeps_envelopes a b \<Longrightarrow> keeps_envelopes b c \<Longrightarrow> keeps_envelopes a c"
  unfolding keeps_envelopes_def by metis

lemma keeps_refl: "keeps_envelopes a a"
  by (simp add: keeps_envelopes_def)

lemma scoped_mono:
  assumes "scoped h gs pol g" and "envelope g' = envelope g" and "keeps_envelopes gs gs'"
  shows "scoped h gs' pol g'"
proof -
  have "\<exists>pg'. map_of gs' p = Some pg' \<and> narrower h (binding g') (binding pg')" if p: "parent_id g' = JStr p" for p
  proof -
    from p assms(2) have "parent_id g = JStr p" by simp
    with assms(1) obtain pg where pg: "map_of gs p = Some pg" "narrower h (binding g) (binding pg)"
      unfolding scoped_def by blast
    with assms(3) obtain pg' where "map_of gs' p = Some pg'" "envelope pg' = envelope pg"
      unfolding keeps_envelopes_def by blast
    with pg assms(2) show ?thesis by simp
  qed
  with assms(1,2) show ?thesis unfolding scoped_def by simp
qed

lemma scopes_ok_step:
  assumes "scopes_ok h st" and "keeps_envelopes (grants st) (grants st')" and "delegationPolicy st' = delegationPolicy st"
    and "\<And>k g'. map_of (grants st') k = Some g' \<Longrightarrow>
       (\<exists>k g. map_of (grants st) k = Some g \<and> envelope g' = envelope g) \<or> scoped h (grants st) (delegationPolicy st) g'"
  shows "scopes_ok h st'"
  unfolding scopes_ok_def
proof (intro allI impI)
  fix k g' assume "map_of (grants st') k = Some g'"
  then obtain g where "scoped h (grants st) (delegationPolicy st) g" "envelope g' = envelope g"
    using assms(1,4) unfolding scopes_ok_def by metis
  then show "scoped h (grants st') (delegationPolicy st') g'"
    using scoped_mono assms(2,3) by metis
qed

lemma grant_issued_keeps:
  assumes "grant_issued h st ev = Inr st'"
  shows "keeps_envelopes (grants st) (grants st')"
proof -
  from assms obtain env gs i g where i: "\<not> has_own (grants st) i"
    and r: "reserve_parent h st env (fld ev ''timestamp'') = Inr gs" and st': "grants st' = obj_set gs i g"
    by (elim grant_issued_Inr) simp
  from r show ?thesis
  proof (cases rule: reserve_parent_cases)
    case 1
    with i st' show ?thesis by (simp add: keeps_new)
  next
    case (2 pk pg pg')
    have "\<not> has_own gs i" using i 2(2,6) by (auto simp: has_own_def)
    moreover have "keeps_envelopes (grants st) gs"
      unfolding 2(6) by (rule keeps_update [OF 2(2) reserve_Inr(1) [OF 2(5)]])
    ultimately show ?thesis unfolding st' using keeps_new keeps_trans by blast
  qed
qed

lemma grant_issued_scopes:
  assumes ok: "scopes_ok h st" and ev: "grant_issued h st ev = Inr st'"
  shows "scopes_ok h st'"
proof (rule scopes_ok_step [OF ok grant_issued_keeps [OF ev]])
  from ev obtain env gs i where i: "\<not> has_own (grants st) i"
    and v: "validateGrantRequest h (fld env ''binding'') (fld ev ''timestamp'') (delegationPolicy st) = Inr ()"
    and r: "reserve_parent h st env (fld ev ''timestamp'') = Inr gs"
    and st': "st' = st\<lparr>grants := obj_set gs i \<lparr>envelope = env, g_revision = fld ev ''digest'', g_active = True,
       g_revocationEpoch = 0, budgetUsed = no_budget, budgetReserved = no_budget\<rparr>\<rparr>"
    by (rule grant_issued_Inr)
  show "delegationPolicy st' = delegationPolicy st" by (simp add: st')
  fix k g' assume k: "map_of (grants st') k = Some g'"
  from r show "(\<exists>k g. map_of (grants st) k = Some g \<and> envelope g' = envelope g) \<or> scoped h (grants st) (delegationPolicy st) g'"
  proof (cases rule: reserve_parent_cases)
    case 1
    with k v show ?thesis by (auto simp: st' scoped_def split: if_splits)
  next
    case (2 pk pg pg')
    from ok 2(2) obtain t where "validateGrantRequest h (binding pg) t (delegationPolicy st) = Inr ()"
      unfolding scopes_ok_def scoped_def by blast
    then have "narrower h (fld env ''binding'') (binding pg)"
      using validateChild_narrower [OF 2(4) v] by blast
    with k v 2 reserve_Inr(1) [OF 2(5)] show ?thesis by (auto simp: st' scoped_def split: if_splits)
  qed
qed

lemma update_scopes:
  assumes ok: "scopes_ok h st" and k: "map_of (grants st) k = Some g" and "envelope g' = envelope g"
    and "grants st' = obj_set (grants st) k g'" and "delegationPolicy st' = delegationPolicy st"
  shows "scopes_ok h st'"
proof (rule scopes_ok_step [OF ok _ assms(5)])
  show "keeps_envelopes (grants st) (grants st')" unfolding assms(4) by (rule keeps_update [OF k assms(3)])
  fix k2 g2 assume "map_of (grants st') k2 = Some g2"
  then show "(\<exists>k g. map_of (grants st) k = Some g \<and> envelope g2 = envelope g) \<or> scoped h (grants st) (delegationPolicy st) g2"
    using k assms(3) by (auto simp: assms(4) split: if_splits)
qed

lemma operation_admitted_update:
  assumes "operation_admitted h st ev = Inr st'"
  obtains k g a where "map_of (grants st) k = Some g" and "grants st' = obj_set (grants st) k (spend g a)"
    and "delegationPolicy st' = delegationPolicy st" and "revocationEpoch st' = revocationEpoch st"
  using assms by (elim operation_admitted_E [OF _ refl refl refl]) simp

lemma reduceDelegationEvent_scopes:
  assumes "scopes_ok h st" and "reduceDelegationEvent h st ev = Inr (Some st')"
  shows "scopes_ok h st'"
proof -
  have revoked: "scopes_ok h st'" if "grant_revoked h st ev = Inr st'"
    using that
  proof (rule grant_revoked_Inr)
    fix k g assume k: "map_of (grants st) k = Some g"
      and st': "st' = st\<lparr>grants := obj_set (grants st) k (g\<lparr>g_active := False, g_revocationEpoch := revocationEpoch st + 1\<rparr>),
         revocationEpoch := revocationEpoch st + 1\<rparr>"
    show ?thesis by (rule update_scopes [OF assms(1) k]) (simp_all add: st')
  qed
  have admitted: "scopes_ok h st'" if "operation_admitted h st ev = Inr st'"
    using that by (rule operation_admitted_update) (rule update_scopes [OF assms(1)], simp_all add: spend_def)
  have safety: "scopes_ok h st'" if "delegation_safety h st ev = Inr st'"
    using that assms(1) by (auto simp: scopes_ok_def elim!: delegation_safety_Inr)
  show ?thesis using assms revoked admitted safety
    by (auto simp: reduceDelegationEvent_def Let_def split: if_splits intro: grant_issued_scopes)
qed

section \<open>Ancestors\<close>

text \<open>The grants on the way from a grant to its root, the grant itself first.\<close>

inductive ancestor :: "(string \<times> grant) list \<Rightarrow> string \<Rightarrow> grant \<Rightarrow> bool" for gs where
  self: "map_of gs k = Some g \<Longrightarrow> ancestor gs k g"
| up: "map_of gs k = Some g \<Longrightarrow> parent_id g = JStr p \<Longrightarrow> ancestor gs p a \<Longrightarrow> ancestor gs k a"

inductive_cases ancestorE: "ancestor gs k a"

lemma num_not_le: "is_finite a \<Longrightarrow> is_finite b \<Longrightarrow> \<not> num_le a b \<Longrightarrow> num_less b a"
  by (cases a; cases b) (auto simp: num_le_def)

lemma timestamp_Inr: "timestamp h v = Inr n \<longleftrightarrow> is_string v \<and> is_instant h v \<and> n = date_parse h v"
  by (auto simp: timestamp_def)

lemma ancestors_loop_sound:
  assumes "ancestor gs k a" and "ancestors_loop h gs t seen (JStr k) = Inr as"
  shows "g_active a \<and> unexpired h a t"
  using assms
proof (induction arbitrary: seen as)
  case (self k g)
  from self.prems self.hyps show ?case
    by (subst (asm) ancestors_loop.simps)
      (auto simp: timestamp_Inr dot_Inr is_instant_def unexpired_def intro: num_not_le split: if_splits)
next
  case (up k g p a)
  from up.prems up.hyps(1,2) obtain seen' as' where "ancestors_loop h gs t seen' (JStr p) = Inr as'"
    by (subst (asm) ancestors_loop.simps) (auto split: if_splits)
  then show ?case by (rule up.IH)
qed

lemma narrower_trans:
  assumes "narrower h b c" and "narrower h c d"
  shows "set (elems (fld b ''allowedActions'')) \<subseteq> set (elems (fld d ''allowedActions''))"
    and "pathMatches path (elems (fld b ''allowedPaths'')) \<Longrightarrow> pathMatches path (elems (fld d ''allowedPaths''))"
  using assms unfolding narrower_def by blast+

text \<open>The scope of a grant lies inside the scope of each of its ancestors.\<close>

lemma ancestor_scope:
  assumes "ancestor (grants st) k a" and "scopes_ok h st" and "map_of (grants st) k = Some g"
  shows "set (elems (fld (binding g) ''allowedActions'')) \<subseteq> set (elems (fld (binding a) ''allowedActions''))"
    and "pathMatches path (elems (fld (binding g) ''allowedPaths'')) \<Longrightarrow> pathMatches path (elems (fld (binding a) ''allowedPaths''))"
  using assms
proof (induction arbitrary: g)
  case (self k g') {
    case 1
    with self show ?case by simp
  next
    case 2
    with self show ?case by simp
  }
next
  case (up k g' p a)
  have "\<exists>pg. map_of (grants st) p = Some pg \<and> narrower h (binding g') (binding pg)" if "scopes_ok h st"
    using that up.hyps(1,2) unfolding scopes_ok_def scoped_def by blast
  note pg = this
  {
    case 1
    with pg up.hyps obtain pg where "map_of (grants st) p = Some pg" "narrower h (binding g) (binding pg)" by auto
    with up.IH(1) [of pg] 1 show ?case by (auto simp: narrower_def)
  next
    case 2
    with pg up.hyps obtain pg where "map_of (grants st) p = Some pg" "narrower h (binding g) (binding pg)" by auto
    with up.IH(2) [of pg] 2 show ?case by (auto simp: narrower_def)
  }
qed

section \<open>Admissions\<close>

lemma in_scope_Inr:
  assumes "in_scope h st b op = Inr u"
  shows "fld op ''action'' \<in> set (elems (fld b ''allowedActions''))"
    and "path \<in> set (elems (fld op ''paths'')) \<Longrightarrow> pathMatches path (elems (fld b ''allowedPaths''))"
    and "candidateDigest st = fld op ''candidateDigest''"
    and "check_missing b op = Inr False"
    and "fld (fld op ''review'') ''outcome'' = JStr ''pass''"
    and "fld (fld op ''review'') ''candidateDigest'' = fld op ''candidateDigest''"
  using assms
  by (auto simp: in_scope_def Let_def list_ex_iff simp del: for_each.simps split: if_split_asm
      dest: js_eq_imp_eq js_includes_in_set)

lemma check_missing_False:
  assumes "check_missing b op = Inr False" and "name \<in> set (elems (fld b ''requiredChecks''))"
  shows "\<exists>c\<in>set (elems (fld op ''checks'')). fld c ''name'' = name \<and> fld c ''outcome'' = JStr ''pass''
     \<and> fld c ''candidateDigest'' = fld op ''candidateDigest''"
proof -
  from assms have "some_res (\<lambda>c. bnd (dot c ''name'') (\<lambda>n. Inr (js_eq n name \<and> js_eq (fld c ''outcome'') (JStr ''pass'')
      \<and> js_eq (fld c ''candidateDigest'') (fld op ''candidateDigest'')))) (elems (fld op ''checks'')) = Inr True"
    unfolding check_missing_def some_res_False by fastforce
  from some_res_TrueD [OF this] show ?thesis by (auto simp: dot_Inr dest!: js_eq_imp_eq)
qed

lemma resolve_checks_Inr:
  assumes "resolve_checks h env st op t = Inr r" and "map_of (grants st) (js_string h (fld env ''id'')) = Some g"
  shows "in_scope h st (binding g) op = Inr ()" and "\<exists>as. grantAncestors h (envelope g) st t = Inr as"
  using assms
  by (auto simp: resolve_checks_def Let_def dot_Inr dest: normalizeOperation_id split: if_split_asm)

end
