(* ===== verification/EventLog.thy ===== *)
theory EventLog
  imports Js
begin

text \<open>
  The interface of an event-sourced component: a step function that accepts or refuses one event,
  a start state and an invariant its steps keep. What every replay of a log then satisfies is
  proved once here and used through the interpretations on the reducers of the development.
\<close>

locale event_log =
  fixes step :: "'s \<Rightarrow> 'e \<Rightarrow> 's res"
    and start :: 's
    and inv :: "'s \<Rightarrow> bool"
  assumes start_inv: "inv start"
    and step_inv: "inv s \<Longrightarrow> step s e = Inr t \<Longrightarrow> inv t"
begin

lemma replay_inv_from: "for_fold step s es = Inr t \<Longrightarrow> inv s \<Longrightarrow> inv t"
  by (rule for_fold_invariant) (auto intro: step_inv)

lemma replay_inv: "for_fold step start es = Inr s \<Longrightarrow> inv s"
  using replay_inv_from start_inv by blast

lemma replay_prefix:
  assumes "for_fold step start (es @ fs) = Inr t"
  obtains s where "for_fold step start es = Inr s" and "inv s" and "for_fold step s fs = Inr t"
  using assms by (auto simp: for_fold_append intro: replay_inv)

lemma replay_last:
  assumes "for_fold step start (es @ [e]) = Inr t"
  obtains s where "for_fold step start es = Inr s" and "inv s" and "step s e = Inr t"
  using assms by (auto elim!: replay_prefix)

end

text \<open>A log whose states only grow in an order: no later event undoes what an earlier one settled.\<close>

locale ordered_log = event_log +
  fixes le :: "'a \<Rightarrow> 'a \<Rightarrow> bool"
  assumes le_refl: "le s s"
    and le_trans: "le s t \<Longrightarrow> le t u \<Longrightarrow> le s u"
    and step_le: "inv s \<Longrightarrow> step s e = Inr t \<Longrightarrow> le s t"
begin

lemma replay_le_from: "for_fold step s es = Inr t \<Longrightarrow> inv s \<Longrightarrow> le s t"
proof (induction es arbitrary: s)
  case Nil
  then show ?case by (simp add: le_refl)
next
  case (Cons e es)
  then obtain u where "step s e = Inr u" "for_fold step u es = Inr t" by auto
  with Cons show ?case using step_le step_inv le_trans by blast
qed

lemma replay_le: "for_fold step start es = Inr s \<Longrightarrow> for_fold step start (es @ fs) = Inr t \<Longrightarrow> le s t"
  by (auto simp: for_fold_append intro: replay_le_from replay_inv)

end

text \<open>
  A log that recognises what it has seen: a known input changes nothing, an accepted input is
  known afterwards, and nothing known is forgotten. Redelivery then has no effect.
\<close>

locale idempotent_log =
  fixes step :: "'s \<Rightarrow> 'e \<Rightarrow> 's res"
    and known :: "'s \<Rightarrow> 'e \<Rightarrow> bool"
  assumes known_step: "known s e \<Longrightarrow> step s e = Inr s"
    and step_known: "step s e = Inr t \<Longrightarrow> known t e"
    and known_kept: "known s e \<Longrightarrow> step s e' = Inr t \<Longrightarrow> known t e"
begin

lemma replay_known_from: "for_fold step s es = Inr t \<Longrightarrow> known s e \<Longrightarrow> known t e"
  by (rule for_fold_invariant [where P = "\<lambda>s. known s e"]) (auto intro: known_kept)

lemma replay_known: "for_fold step s es = Inr t \<Longrightarrow> e \<in> set es \<Longrightarrow> known t e"
proof (induction es arbitrary: s)
  case Nil
  then show ?case by simp
next
  case (Cons x es)
  then obtain u where u: "step s x = Inr u" "for_fold step u es = Inr t" by auto
  show ?case
  proof (cases "e = x")
    case True
    with u show ?thesis using step_known replay_known_from by blast
  next
    case False
    with Cons u show ?thesis by simp
  qed
qed

lemma replay_redelivery:
  "for_fold step s es = Inr t \<Longrightarrow> e \<in> set es \<Longrightarrow> for_fold step s (es @ e # fs) = for_fold step s (es @ fs)"
  using replay_known [of s es t e] by (simp add: for_fold_append known_step)

end

end
