(* ===== verification/Runs.thy ===== *)
theory Runs
  imports RunState Scopes EventLog
begin

text \<open>
  What the run reducer guarantees on every log it accepts. The abstract control machine
  \<open>control_step\<close> is the contract of the reducer: phase, status, writer generation, action
  boundary, open rework and pending operations move only along its rules, and every accepted
  event is one of its steps. The invariants of the reducer are stated through the event-log
  interface and its interpretations.
\<close>

lemma if_eqE: "(if b then x else y) = z \<Longrightarrow> (b \<Longrightarrow> x = z \<Longrightarrow> P) \<Longrightarrow> (\<not> b \<Longrightarrow> y = z \<Longrightarrow> P) \<Longrightarrow> P"
  by (simp split: if_split_asm)

section \<open>Which part of the state each handler changes\<close>

definition delegation_part :: "run_state \<Rightarrow> (string \<times> grant) list \<times> (string \<times> js) list \<times> js \<times> nat \<times> nat \<times> js list" where
  "delegation_part st = (grants st, admissions st, delegationPolicy st, revocationEpoch st, safetyUsed st, safetyRecords st)"

definition control_part :: "run_state \<Rightarrow> js \<times> nat \<times> run_status \<times> nat \<times> (string \<times> js) list \<times> (string \<times> js) list" where
  "control_part st = (boundary st, generation st, status st, phase st, openRework st, operations st)"

definition identity_part :: "run_state \<Rightarrow> js \<times> js \<times> js \<times> js" where
  "identity_part st = (runId st, goalRef st, profile st, authorityProtocol st)"

definition log_part :: "run_state \<Rightarrow> js \<times> js list" where
  "log_part st = (revision st, history st)"

lemmas parts = delegation_part_def control_part_def identity_part_def log_part_def

text \<open>Nothing but the evidence a run holds changed.\<close>

definition same_frame :: "run_state \<Rightarrow> run_state \<Rightarrow> bool" where
  "same_frame st st' \<longleftrightarrow> delegation_part st' = delegation_part st \<and> control_part st' = control_part st
     \<and> identity_part st' = identity_part st \<and> log_part st' = log_part st
     \<and> (oracleAssuranceRequired st \<longrightarrow> oracleAssuranceRequired st')"

lemma same_frame_refl [simp]: "same_frame st st"
  by (simp add: same_frame_def)

lemma same_frame_trans: "same_frame a b \<Longrightarrow> same_frame b c \<Longrightarrow> same_frame a c"
  by (auto simp: same_frame_def)

lemma drop_foreign_custody_frame: "same_frame st (drop_foreign_custody d st)"
  by (simp add: drop_foreign_custody_def same_frame_def parts)

lemma pin_digest_frame: "pin_digest h d pin st = Inr st' \<Longrightarrow> same_frame st st'"
  by (auto simp: pin_digest_def drop_foreign_custody_def same_frame_def parts split: if_splits)

lemma event_guards_frame: "event_guards st ev = Inr st' \<Longrightarrow> same_frame st st'"
  by (clarsimp simp: event_guards_def Let_def if_Inl_Inr same_frame_def parts)

lemma contract_frozen_frame:
  assumes "contract_frozen h st ev = Inr st'" shows "same_frame st st'"
proof -
  from assms obtain c r d pin where "st' = st\<lparr>contract := c, contractSourceRevision := r, observations := []\<rparr>
      \<or> pin_digest h d pin (st\<lparr>contract := c, contractSourceRevision := r, observations := []\<rparr>) = Inr st'"
    by (auto simp: contract_frozen_def Let_def split: if_split_asm)
  moreover have "same_frame st (st\<lparr>contract := c, contractSourceRevision := r, observations := []\<rparr>)"
    by (simp add: same_frame_def parts)
  ultimately show ?thesis using pin_digest_frame same_frame_trans by blast
qed

lemma oracle_pinned_frame:
  assumes "oracle_pinned h st ev = Inr st'" shows "same_frame st st'"
proof -
  define st1 where "st1 d = (drop_foreign_custody d st)\<lparr>oracleDigest := d\<rparr>" for d
  have f: "same_frame st (st1 d)" for d
    by (simp add: st1_def drop_foreign_custody_def same_frame_def parts)
  from assms obtain d st2 pin where st2: "st2 = st1 d \<or> (\<exists>p. st2 = (st1 d)\<lparr>oraclePackage := p, oracleAssuranceRequired := True\<rparr>)"
    and st': "st' = st2\<lparr>oraclePin := pin\<rparr>"
    unfolding oracle_pinned_def Let_def bnd_Inr if_Inl_Inr Inr_inject st1_def [symmetric]
    by (elim exE conjE if_eqE) (simp_all only: bnd_Inr if_Inl_Inr Inr_inject, blast+)
  show ?thesis using f [of d] st2 by (auto simp: st' same_frame_def parts)
qed

lemma oracle_custody_frame: "oracle_custody_recorded h st ev = Inr st' \<Longrightarrow> same_frame st st'"
  by (clarsimp simp: oracle_custody_recorded_def Let_def if_Inl_Inr same_frame_def parts)

lemma candidate_frame: "candidate_event h st ev = Inr st' \<Longrightarrow> same_frame st st'"
  by (clarsimp simp: candidate_event_def Let_def if_Inl_Inr same_frame_def parts split: if_split_asm)

lemma observation_frame: "observation_event h st ev = Inr st' \<Longrightarrow> same_frame st st'"
  by (clarsimp simp: observation_event_def Let_def if_Inl_Inr same_frame_def parts split: if_split_asm)

lemma budget_admission_frame: "budget_admission_event st ev = Inr st' \<Longrightarrow> same_frame st st'"
  by (clarsimp simp: budget_admission_event_def Let_def if_Inl_Inr same_frame_def parts split: if_split_asm)

lemma runtime_evidence_frame: "runtime_evidence st p = Inr st' \<Longrightarrow> same_frame st st'"
  by (clarsimp simp: runtime_evidence_def Let_def if_Inl_Inr same_frame_def parts split: if_split_asm)

lemma developer_proof_frame: "developer_proof h st ev v = Inr st' \<Longrightarrow> same_frame st st'"
  by (clarsimp simp: developer_proof_def Let_def if_Inl_Inr same_frame_def parts split: if_split_asm)

lemma drop_stale_frame: "same_frame st (drop_stale st)"
  by (simp add: drop_stale_def Let_def same_frame_def parts)

lemma advanced_Inr:
  assumes "advanced h st ev = Inr st'"
  obtains st3 where "same_frame st st3" and "st' = st3\<lparr>phase := phase st + 1, contract := JNull, contractSourceRevision := JNull\<rparr>"
    and "status st = Active" and "openRework st = []" and "\<not> pending st" and "phase st < 8"
    and "fld (fld ev ''payload'') ''candidateDigest'' = candidateDigest st"
proof -
  from assms have g: "status st = Active" "openRework st = []" "\<not> pending st" "phase st < 8"
      "fld (fld ev ''payload'') ''candidateDigest'' = candidateDigest st"
    unfolding advanced_def Let_def bnd_Inr if_Inl_Inr Inr_inject
    by (simp_all only: de_Morgan_disj not_not) (use js_eq_imp_eq in auto)
  let ?p = "fld ev ''payload''"
  from assms obtain st1 st2 st3 where
      "(if truthy (fld ?p ''oracleDigest'') \<or> truthy (fld ?p ''oraclePin'')
        then pin_digest h (coal (fld ?p ''oracleDigest'') (fld (fld ?p ''oraclePin'') ''oracleDigest'')) (fld ?p ''oraclePin'') st
        else Inr st) = Inr st1"
      "(if oracleAssuranceRequired st1 \<and> phase st1 \<in> {4, 5}
        then runtime_evidence st1 (fld ?p ''oracleRuntimeEvidence'') else Inr st1) = Inr st2"
      "(if truthy (fld ?p ''oraclePackageVerification'')
        then developer_proof h st2 ev (fld ?p ''oraclePackageVerification'') else Inr st2) = Inr st3"
    and st': "st' = st3\<lparr>phase := phase st + 1, contract := JNull, contractSourceRevision := JNull\<rparr>"
    unfolding advanced_def Let_def bnd_Inr if_Inl_Inr Inr_inject by blast
  then have st1: "st1 = st \<or> (\<exists>d pin. pin_digest h d pin st = Inr st1)"
    and st2: "st2 = st1 \<or> (\<exists>p. runtime_evidence st1 p = Inr st2)"
    and st3: "st3 = st2 \<or> (\<exists>v. developer_proof h st2 ev v = Inr st3)"
    by (auto split: if_split_asm)
  have "same_frame st st1" using st1 pin_digest_frame by auto
  moreover have "same_frame st1 st2" using st2 runtime_evidence_frame by auto
  moreover have "same_frame st2 st3" using st3 developer_proof_frame by auto
  ultimately have "same_frame st st3" using same_frame_trans by blast
  with st' g that show thesis by blast
qed

lemma obj_set_nonempty: "obj_set fs k v \<noteq> []"
  by (cases fs) (auto split: if_splits)

lemma open_finding_nonempty: "open_finding r x = Inr r' \<Longrightarrow> r' \<noteq> []"
  by (auto simp: open_finding_def if_Inl_Inr obj_set_nonempty)

lemma returned_Inr:
  assumes "returned st ev = Inr st'"
  obtains t rework where "return_target (phase st) = Some t" and "rework \<noteq> []"
    and "st' = st\<lparr>openRework := rework, phase := t, contract := JNull, contractSourceRevision := JNull\<rparr>"
proof -
  let ?fs = "fld (fld ev ''payload'') ''findings''"
  from assms obtain t fs rework where t: "return_target (phase st) = Some t" and len: "truthy (fld ?fs ''length'')"
    and it: "js_iter ?fs = Inr fs" and fold: "for_fold open_finding (openRework st) fs = Inr rework"
    and st': "st' = st\<lparr>openRework := rework, phase := t, contract := JNull, contractSourceRevision := JNull\<rparr>"
    by (clarsimp simp: returned_def Let_def if_Inl_Inr split: option.splits)
  have "fs \<noteq> []" using len it by (auto simp: js_iter_def fld_def split: js.splits)
  then obtain x xs where fs: "fs = x # xs" by (cases fs) auto
  from fold fs obtain r where r: "open_finding (openRework st) x = Inr r" "for_fold open_finding r xs = Inr rework" by auto
  from r(2) open_finding_nonempty [OF r(1)] have "rework \<noteq> []"
    by (rule for_fold_invariant) (rule open_finding_nonempty)
  with t st' that show thesis by blast
qed

lemma resumed_Inr:
  assumes "resumed st ev = Inr st'"
  obtains b b' where "\<not> pending st" and "index_of boundaryOrder (boundary st) = Some b"
    and "index_of boundaryOrder (boundary st') = Some b'" and "b' \<le> b"
    and "generation st' = generation st + 1" and "status st' = Active" and "phase st' = phase st"
    and "openRework st' = openRework st" and "operations st' = operations st"
    and "delegation_part st' = delegation_part st" and "identity_part st' = identity_part st"
    and "log_part st' = log_part st" and "oracleAssuranceRequired st' = oracleAssuranceRequired st"
proof -
  let ?p = "fld ev ''payload''"
  define st1 where "st1 = st\<lparr>owner := fld ?p ''owner'', generation := generation st + 1, boundary := fld ?p ''boundary'',
    status := Active, reason := JUndef\<rparr>"
  define st2 where "st2 = (if truthy (fld ?p ''invalidateCandidate'')
    then st1\<lparr>oracleCustody := JUndef, candidateDigest := JNull, observations := []\<rparr> else st1)"
  from assms obtain b b' where b: "index_of boundaryOrder (boundary st) = Some b"
    "index_of boundaryOrder (fld ?p ''boundary'') = Some b'" "b' \<le> b" "\<not> pending st"
    and st': "st' = st2\<lparr>writer := coal (fld ?p ''writer'') JNull\<rparr>"
    unfolding resumed_def Let_def st1_def [symmetric] st2_def [symmetric]
    by (auto simp: if_Inl_Inr split: option.split_asm)
  have "boundary st' = fld ?p ''boundary''" "generation st' = generation st + 1" "status st' = Active" "phase st' = phase st"
    "openRework st' = openRework st" "operations st' = operations st" "delegation_part st' = delegation_part st"
    "identity_part st' = identity_part st" "log_part st' = log_part st" "oracleAssuranceRequired st' = oracleAssuranceRequired st"
    by (simp_all add: st' st2_def st1_def parts)
  with b that show thesis by metis
qed

section \<open>The abstract control machine\<close>

record control =
  c_phase :: nat
  c_status :: run_status
  c_generation :: nat
  c_boundary :: nat
  c_rework :: bool
  c_pending :: bool

definition control_of :: "run_state \<Rightarrow> control" where
  "control_of st = \<lparr>c_phase = phase st, c_status = status st, c_generation = generation st,
     c_boundary = (case index_of boundaryOrder (boundary st) of Some b \<Rightarrow> b | None \<Rightarrow> 0),
     c_rework = (openRework st \<noteq> []), c_pending = pending st\<rparr>"

definition live :: "control \<Rightarrow> bool" where
  "live c = (c_status c \<in> {Active, Paused, Blocked})"

definition work_kinds :: "string list" where
  "work_kinds = [''contract-frozen'', ''oracle-pinned'', ''oracle-custody-recorded'', ''candidate'', ''observation'',
     ''budget-admission'', ''grant-issued'', ''operation-admitted'']"

definition remark_kinds :: "string list" where
  "remark_kinds = [''checkpoint'', ''grant-revoked'']"

inductive control_step :: "string \<Rightarrow> control \<Rightarrow> control \<Rightarrow> bool" where
  work: "c_status c = Active \<Longrightarrow> k \<in> set work_kinds \<Longrightarrow> control_step k c c"
| remark: "live c \<Longrightarrow> k \<in> set remark_kinds \<Longrightarrow> control_step k c c"
| advance: "c_status c = Active \<Longrightarrow> \<not> c_rework c \<Longrightarrow> \<not> c_pending c \<Longrightarrow> c_phase c < 8 \<Longrightarrow>
    control_step ''advanced'' c (c\<lparr>c_phase := c_phase c + 1\<rparr>)"
| send_back: "c_status c = Active \<Longrightarrow> return_target (c_phase c) = Some t \<Longrightarrow>
    control_step ''returned'' c (c\<lparr>c_phase := t, c_rework := True\<rparr>)"
| resolve: "c_status c = Active \<Longrightarrow> (b \<longrightarrow> c_rework c) \<Longrightarrow> control_step ''rework-resolved'' c (c\<lparr>c_rework := b\<rparr>)"
| pause: "c_status c = Active \<Longrightarrow> control_step ''paused'' c (c\<lparr>c_status := Paused\<rparr>)"
| block: "c_status c = Active \<Longrightarrow> control_step ''blocked'' c (c\<lparr>c_status := Blocked\<rparr>)"
| resume: "live c \<Longrightarrow> \<not> c_pending c \<Longrightarrow> b \<le> c_boundary c \<Longrightarrow>
    control_step ''resumed'' c (c\<lparr>c_status := Active, c_generation := c_generation c + 1, c_boundary := b\<rparr>)"
| operate: "control_step ''operation'' c (c\<lparr>c_pending := b\<rparr>)"
| safety: "live c \<Longrightarrow> (b \<longrightarrow> c_pending c) \<Longrightarrow> control_step ''delegation-safety'' c (c\<lparr>c_pending := b\<rparr>)"
| complete: "c_status c = Active \<Longrightarrow> c_phase c = 8 \<Longrightarrow> \<not> c_rework c \<Longrightarrow> \<not> c_pending c \<Longrightarrow>
    control_step ''completed'' c (c\<lparr>c_status := Completed\<rparr>)"
| cancel: "live c \<Longrightarrow> \<not> c_pending c \<Longrightarrow> control_step ''cancelled'' c (c\<lparr>c_status := Cancelled\<rparr>)"

inductive_cases control_stepE: "control_step k c c'"

text \<open>What the guards let through.\<close>

lemma event_guards_kind:
  assumes "event_guards st ev = Inr st1"
  shows "status st = Active \<or> one_of inactive_kinds (fld ev ''kind'')"
    and "terminal st \<Longrightarrow> fld ev ''kind'' = JStr ''operation''"
    and "fld ev ''generation'' = JNat (generation st)" and "fld ev ''runId'' = runId st"
  using assms by (auto simp: event_guards_def Let_def if_Inl_Inr split: if_split_asm dest: js_eq_imp_eq)

lemma not_terminal: "\<not> terminal st \<longleftrightarrow> live (control_of st)"
  by (cases "status st") (auto simp: terminal_def live_def control_of_def)

lemma same_frame_control: "same_frame st st' \<Longrightarrow> control_of st' = control_of st"
  by (simp add: same_frame_def parts control_of_def pending_def)

lemma settle_control: "control_of (settle st ev) = control_of st"
proof -
  have "control_of (settle st ev) = control_of (drop_stale st)"
    by (simp add: settle_def Let_def control_of_def pending_def)
  also have "\<dots> = control_of st" by (rule same_frame_control [OF drop_stale_frame])
  finally show ?thesis .
qed

text \<open>The delegation handlers leave phase, status, generation, boundary and rework alone.\<close>

definition deleg_frame :: "run_state \<Rightarrow> run_state \<Rightarrow> bool" where
  "deleg_frame st st' \<longleftrightarrow> boundary st' = boundary st \<and> generation st' = generation st \<and> status st' = status st
     \<and> phase st' = phase st \<and> openRework st' = openRework st \<and> identity_part st' = identity_part st
     \<and> log_part st' = log_part st \<and> oracleAssuranceRequired st' = oracleAssuranceRequired st"

lemma grant_issued_frame: "grant_issued h st ev = Inr st' \<Longrightarrow> deleg_frame st st' \<and> operations st' = operations st"
  by (elim grant_issued_Inr) (simp add: deleg_frame_def parts)

lemma grant_revoked_frame: "grant_revoked h st ev = Inr st' \<Longrightarrow> deleg_frame st st' \<and> operations st' = operations st"
  by (elim grant_revoked_Inr) (simp add: deleg_frame_def parts)

lemma operation_admitted_frame: "operation_admitted h st ev = Inr st' \<Longrightarrow> deleg_frame st st' \<and> operations st' = operations st"
  by (elim operation_admitted_E [OF _ refl refl refl]) (simp add: deleg_frame_def parts)

lemma delegation_safety_frame:
  "delegation_safety h st ev = Inr st' \<Longrightarrow>
    deleg_frame st st' \<and> (operations st' = operations st \<or> reconcile_outcome h st (fld ev ''payload'') = Inr (operations st'))"
  by (elim delegation_safety_Inr) (auto simp: deleg_frame_def parts)

lemma reduceDelegationEvent_cases:
  assumes "reduceDelegationEvent h st ev = Inr (Some st')"
  obtains "fld ev ''kind'' = JStr ''grant-issued''" and "grant_issued h st ev = Inr st'"
  | "fld ev ''kind'' = JStr ''grant-revoked''" and "grant_revoked h st ev = Inr st'"
  | "fld ev ''kind'' = JStr ''operation-admitted''" and "operation_admitted h st ev = Inr st'"
  | "fld ev ''kind'' = JStr ''delegation-safety''" and "delegation_safety h st ev = Inr st'"
  using assms by (auto simp: reduceDelegationEvent_def Let_def split: if_splits)

text \<open>A reconciliation resolves one operation and touches no other.\<close>

lemma list_ex_obj_set:
  assumes "list_ex (\<lambda>(_, op). P op) (obj_set fs k v)" and "\<not> P v"
  shows "list_ex (\<lambda>(_, op). P op) fs"
  using assms set_obj_set [of fs k v] by (auto simp: list_ex_iff)

lemma reconcile_outcome_Inr:
  assumes "reconcile_outcome h st p = Inr ops"
  obtains key op where "ops = obj_set (operations st) key (JObj op)" and "key = js_string h (fld p ''operationId'')"
    and "op = obj_set (obj_set (own_props (obj_get (operations st) key)) ''state'' (fld (fld p ''outcome'') ''state''))
        ''reconciliation'' (fld p ''outcome'')"
    and "one_of [''confirmed'', ''failed''] (fld (fld p ''outcome'') ''state'')"
    and "unresolved (obj_get (operations st) key)" and "truthy (obj_get (operations st) key)"
proof -
  from assms show thesis
    unfolding reconcile_outcome_def Let_def if_Inl_Inr Inr_inject using that by simp
qed

lemma fld_obj_set [simp]: "fld (JObj (obj_set fs k v)) k' = (if k' = k then v else fld (JObj fs) k')"
  by (simp add: fld_def obj_get_def)

lemma reconcile_pending:
  assumes "reconcile_outcome h st p = Inr (operations st')" and "pending st'"
  shows "pending st"
proof -
  from assms(1) obtain key op where o: "operations st' = obj_set (operations st) key (JObj op)"
    and "op = obj_set (obj_set (own_props (obj_get (operations st) key)) ''state'' (fld (fld p ''outcome'') ''state''))
        ''reconciliation'' (fld p ''outcome'')"
    and "one_of [''confirmed'', ''failed''] (fld (fld p ''outcome'') ''state'')"
    by (rule reconcile_outcome_Inr)
  then have "\<not> unresolved (JObj op)" by (simp add: unresolved_def)
  with assms(2) show ?thesis unfolding pending_def o by (rule list_ex_obj_set)
qed

lemma handle_event_cases:
  assumes "handle_event h st ev = Inr st'"
  obtains "fld ev ''kind'' = JStr ''contract-frozen''" and "contract_frozen h st ev = Inr st'"
  | "fld ev ''kind'' = JStr ''oracle-pinned''" and "oracle_pinned h st ev = Inr st'"
  | "fld ev ''kind'' = JStr ''oracle-custody-recorded''" and "oracle_custody_recorded h st ev = Inr st'"
  | "fld ev ''kind'' = JStr ''candidate''" and "candidate_event h st ev = Inr st'"
  | "fld ev ''kind'' = JStr ''observation''" and "observation_event h st ev = Inr st'"
  | "fld ev ''kind'' = JStr ''budget-admission''" and "budget_admission_event st ev = Inr st'"
  | "fld ev ''kind'' = JStr ''advanced''" and "advanced h st ev = Inr st'"
  | "fld ev ''kind'' = JStr ''returned''" and "returned st ev = Inr st'"
  | "fld ev ''kind'' = JStr ''rework-resolved''" and "rework_resolved h st ev = Inr st'"
  | "fld ev ''kind'' = JStr ''paused''" and "suspend Paused st ev = Inr st'"
  | "fld ev ''kind'' = JStr ''blocked''" and "suspend Blocked st ev = Inr st'"
  | "fld ev ''kind'' = JStr ''resumed''" and "resumed st ev = Inr st'"
  | "fld ev ''kind'' = JStr ''operation''" and "operation_event h st ev = Inr st'"
  | "fld ev ''kind'' = JStr ''completed''" and "completed h st ev = Inr st'"
  | "fld ev ''kind'' = JStr ''cancelled''" and "cancelled st = Inr st'"
  | "reduceDelegationEvent h st ev = Inr (Some st')"
  | "fld ev ''kind'' = JStr ''checkpoint''" and "st' = st"
proof -
  have last: "reduceDelegationEvent h st ev = Inr (Some st') \<or> fld ev ''kind'' = JStr ''checkpoint'' \<and> st' = st"
    if "bnd (reduceDelegationEvent h st ev) (\<lambda>handled. case handled of Some st' \<Rightarrow> Inr st'
        | None \<Rightarrow> if fld ev ''kind'' = JStr ''checkpoint'' then Inr st
            else fail (''Unsupported run event: '' @ js_string h (fld ev ''kind''))) = Inr st'"
    using that by (auto split: option.split_asm if_split_asm)
  show thesis
    by (insert assms, unfold handle_event_def Let_def js_eq_JStr)
      ((elim if_eqE; (rule that, assumption, assumption)?), use last that(16,17) in blast)
qed

text \<open>Every accepted event is a step of the abstract machine.\<close>

lemma handle_event_refines:
  assumes g: "event_guards st ev = Inr st1" and hd: "handle_event h st1 ev = Inr st'"
  obtains (step) k where "fld ev ''kind'' = JStr k" and "control_step k (control_of st) (control_of st')"
proof -
  have frame: "same_frame st st1" using g by (rule event_guards_frame)
  have c1: "control_of st1 = control_of st" using frame by (rule same_frame_control)
  have act: "c_status (control_of st1) = Active" if "fld ev ''kind'' = JStr k" "k \<notin> set inactive_kinds" for k
  proof -
    have "status st = Active" using event_guards_kind(1) [OF g] that by (simp add: one_of_def)
    then show ?thesis by (simp add: c1) (simp add: control_of_def)
  qed
  have live: "live (control_of st1)" if "fld ev ''kind'' \<noteq> JStr ''operation''"
    using event_guards_kind(2) [OF g] that not_terminal c1 by auto
  have same: "control_step k (control_of st1) (control_of st')"
    if "same_frame st1 st'" "fld ev ''kind'' = JStr k" "k \<in> set work_kinds" "k \<notin> set inactive_kinds" for k
    using same_frame_control [OF that(1)] act [OF that(2,4)] that(3) by (simp add: control_step.work)
  have kinds: "set work_kinds \<inter> set inactive_kinds = {}" by (simp add: work_kinds_def inactive_kinds_def)
  have evidence: "thesis" if "same_frame st1 st'" "fld ev ''kind'' = JStr k" "k \<in> set work_kinds" for k
  proof -
    have "k \<notin> set inactive_kinds" using that(3) kinds by blast
    from same [OF that this] show thesis using that(2) c1 step by simp
  qed
  from hd show thesis
  proof (cases rule: handle_event_cases)
    case 1
    then show ?thesis by (intro evidence [OF contract_frozen_frame]) (auto simp: work_kinds_def)
  next
    case 2
    then show ?thesis by (intro evidence [OF oracle_pinned_frame]) (auto simp: work_kinds_def)
  next
    case 3
    then show ?thesis by (intro evidence [OF oracle_custody_frame]) (auto simp: work_kinds_def)
  next
    case 4
    then show ?thesis by (intro evidence [OF candidate_frame]) (auto simp: work_kinds_def)
  next
    case 5
    then show ?thesis by (intro evidence [OF observation_frame]) (auto simp: work_kinds_def)
  next
    case 6
    then show ?thesis by (intro evidence [OF budget_admission_frame]) (auto simp: work_kinds_def)
  next
    case 7
    then obtain st3 where "same_frame st1 st3" "status st1 = Active" "openRework st1 = []" "\<not> pending st1" "phase st1 < 8"
      and st': "st' = st3\<lparr>phase := phase st1 + 1, contract := JNull, contractSourceRevision := JNull\<rparr>"
      by (elim advanced_Inr)
    then have "control_of st' = (control_of st1)\<lparr>c_phase := c_phase (control_of st1) + 1\<rparr>"
      by (simp add: control_of_def pending_def same_frame_def parts)
    moreover have "control_step ''advanced'' (control_of st1) ((control_of st1)\<lparr>c_phase := c_phase (control_of st1) + 1\<rparr>)"
      by (rule control_step.advance) (use \<open>status st1 = Active\<close> \<open>openRework st1 = []\<close> \<open>\<not> pending st1\<close> \<open>phase st1 < 8\<close> in \<open>simp_all add: control_of_def\<close>)
    ultimately show ?thesis using 7 step c1 by simp
  next
    case 8
    from 8(2) obtain t rework where t: "return_target (phase st1) = Some t" and r: "rework \<noteq> []"
      and st': "st' = st1\<lparr>openRework := rework, phase := t, contract := JNull, contractSourceRevision := JNull\<rparr>"
      by (elim returned_Inr)
    have "control_step ''returned'' (control_of st1) ((control_of st1)\<lparr>c_phase := t, c_rework := True\<rparr>)"
      by (rule control_step.send_back) (use act [OF 8(1)] t in \<open>simp_all add: inactive_kinds_def control_of_def\<close>)
    moreover have "control_of st' = (control_of st1)\<lparr>c_phase := t, c_rework := True\<rparr>"
      using r by (simp add: st' control_of_def pending_def)
    ultimately show ?thesis using 8 step c1 by simp
  next
    case 9
    from 9(2) obtain k where st': "st' = st1\<lparr>openRework := obj_del (openRework st1) k\<rparr>"
      by (clarsimp simp: rework_resolved_def Let_def if_Inl_Inr)
    have "control_step ''rework-resolved'' (control_of st1) ((control_of st1)\<lparr>c_rework := c_rework (control_of st')\<rparr>)"
      by (rule control_step.resolve) (use act [OF 9(1)] in \<open>auto simp: inactive_kinds_def control_of_def st' obj_del_def\<close>)
    moreover have "control_of st' = (control_of st1)\<lparr>c_rework := c_rework (control_of st')\<rparr>"
      by (simp add: st' control_of_def pending_def)
    ultimately show ?thesis using 9 step c1 by simp
  next
    case 10
    then have "control_of st' = (control_of st1)\<lparr>c_status := Paused\<rparr>"
      by (auto simp: suspend_def control_of_def pending_def)
    with 10 show ?thesis using step c1 act [OF 10(1)] control_step.pause by (simp add: inactive_kinds_def)
  next
    case 11
    then have "control_of st' = (control_of st1)\<lparr>c_status := Blocked\<rparr>"
      by (auto simp: suspend_def control_of_def pending_def)
    with 11 show ?thesis using step c1 act [OF 11(1)] control_step.block by (simp add: inactive_kinds_def)
  next
    case 12
    from 12(2) obtain b b' where b: "\<not> pending st1" "index_of boundaryOrder (boundary st1) = Some b"
      "index_of boundaryOrder (boundary st') = Some b'" "b' \<le> b" "generation st' = generation st1 + 1" "status st' = Active"
      "phase st' = phase st1" "openRework st' = openRework st1" "operations st' = operations st1"
      by (elim resumed_Inr)
    then have "control_of st' = (control_of st1)\<lparr>c_status := Active, c_generation := c_generation (control_of st1) + 1, c_boundary := b'\<rparr>"
      by (simp add: control_of_def pending_def)
    moreover have "control_step ''resumed'' (control_of st1)
        ((control_of st1)\<lparr>c_status := Active, c_generation := c_generation (control_of st1) + 1, c_boundary := b'\<rparr>)"
      by (rule control_step.resume) (use live 12(1) b in \<open>simp_all add: control_of_def\<close>)
    ultimately show ?thesis using 12 step c1 by simp
  next
    case 13
    from 13(2) obtain k op where st': "st' = st1\<lparr>operations := obj_set (operations st1) k op\<rparr>"
      by (clarsimp simp: operation_event_def Let_def)
    have "control_of st' = (control_of st1)\<lparr>c_pending := c_pending (control_of st')\<rparr>"
      by (simp add: st' control_of_def)
    with 13 show ?thesis using step c1 control_step.operate by metis
  next
    case 14
    from 14(2) have c: "phase st1 = 8" "status st1 = Active" "openRework st1 = []" "\<not> pending st1" "st' = st1\<lparr>status := Completed\<rparr>"
      by (auto simp: completed_def Let_def if_Inl_Inr)
    have "control_step ''completed'' (control_of st1) ((control_of st1)\<lparr>c_status := Completed\<rparr>)"
      by (rule control_step.complete) (use c in \<open>simp_all add: control_of_def\<close>)
    moreover have "control_of st' = (control_of st1)\<lparr>c_status := Completed\<rparr>" by (simp add: c control_of_def pending_def)
    ultimately show ?thesis using 14 step c1 by simp
  next
    case 15
    from 15(2) have c: "\<not> pending st1" "st' = st1\<lparr>status := Cancelled\<rparr>" by (auto simp: cancelled_def if_Inl_Inr)
    have "control_step ''cancelled'' (control_of st1) ((control_of st1)\<lparr>c_status := Cancelled\<rparr>)"
      by (rule control_step.cancel) (use c live 15(1) in \<open>simp_all add: control_of_def\<close>)
    moreover have "control_of st' = (control_of st1)\<lparr>c_status := Cancelled\<rparr>" by (simp add: c control_of_def pending_def)
    ultimately show ?thesis using 15 step c1 by simp
  next
    case 16
    then show ?thesis
    proof (cases rule: reduceDelegationEvent_cases)
      case 1
      then have "control_of st' = control_of st1" using grant_issued_frame by (simp add: deleg_frame_def control_of_def pending_def)
      with 1 show ?thesis using step c1 act [OF 1(1)] control_step.work by (simp add: inactive_kinds_def work_kinds_def)
    next
      case 2
      then have "control_of st' = control_of st1" using grant_revoked_frame by (simp add: deleg_frame_def control_of_def pending_def)
      with 2 show ?thesis using step c1 live control_step.remark by (simp add: remark_kinds_def)
    next
      case 3
      then have "control_of st' = control_of st1" using operation_admitted_frame by (simp add: deleg_frame_def control_of_def pending_def)
      with 3 show ?thesis using step c1 act [OF 3(1)] control_step.work by (simp add: inactive_kinds_def work_kinds_def)
    next
      case 4
      note f = delegation_safety_frame [OF 4(2)]
      then have "pending st' \<longrightarrow> pending st1" using reconcile_pending by (auto simp: pending_def)
      moreover have "control_of st' = (control_of st1)\<lparr>c_pending := pending st'\<rparr>"
        using f by (simp add: deleg_frame_def control_of_def)
      moreover have "c_pending (control_of st1) = pending st1" by (simp add: control_of_def)
      ultimately show ?thesis using 4 step c1 live control_step.safety by simp
    qed
  next
    case 17
    then show ?thesis using step c1 live control_step.remark by (simp add: remark_kinds_def)
  qed
qed

end
