(* ===== verification/RunSafety.thy ===== *)
theory RunSafety
  imports Runs
begin

text \<open>
  The invariant of a run and the order in which its states grow, proved for every event kind and
  lifted to whole logs through the interpretation of the event-log interface on the reducer.
\<close>

section \<open>Grants only grow\<close>

text \<open>A later state keeps every grant and its envelope; a revoked grant stays revoked and spends no more.\<close>

definition grant_le :: "grant \<Rightarrow> grant \<Rightarrow> bool" where
  "grant_le g g' \<longleftrightarrow> envelope g' = envelope g \<and> (\<not> g_active g \<longrightarrow> \<not> g_active g' \<and> budgetUsed g' = budgetUsed g)"

definition grants_le :: "(string \<times> grant) list \<Rightarrow> (string \<times> grant) list \<Rightarrow> bool" where
  "grants_le gs gs' \<longleftrightarrow> (\<forall>k g. map_of gs k = Some g \<longrightarrow> (\<exists>g'. map_of gs' k = Some g' \<and> grant_le g g'))"

definition map_le_on :: "(string \<times> js) list \<Rightarrow> (string \<times> js) list \<Rightarrow> bool" where
  "map_le_on m m' \<longleftrightarrow> (\<forall>k v. map_of m k = Some v \<longrightarrow> map_of m' k = Some v)"

lemma grant_le_refl: "grant_le g g"
  by (simp add: grant_le_def)

lemma grant_le_trans: "grant_le a b \<Longrightarrow> grant_le b c \<Longrightarrow> grant_le a c"
  by (auto simp: grant_le_def)

lemma grants_le_refl: "grants_le gs gs"
  by (auto simp: grants_le_def grant_le_refl)

lemma grants_le_trans: "grants_le a b \<Longrightarrow> grants_le b c \<Longrightarrow> grants_le a c"
  unfolding grants_le_def using grant_le_trans by metis

lemma grants_le_update: "map_of gs k = Some g \<Longrightarrow> grant_le g g' \<Longrightarrow> grants_le gs (obj_set gs k g')"
  by (auto simp: grants_le_def grant_le_refl)

lemma grants_le_new: "\<not> has_own gs k \<Longrightarrow> grants_le gs (obj_set gs k g)"
  by (auto simp: grants_le_def grant_le_refl has_own_def)

lemma map_le_on_new: "\<not> has_own m k \<Longrightarrow> map_le_on m (obj_set m k v)"
  by (auto simp: map_le_on_def has_own_def)

text \<open>The part of the order a delegation event moves.\<close>

definition deleg_le :: "run_state \<Rightarrow> run_state \<Rightarrow> bool" where
  "deleg_le st st' \<longleftrightarrow> grants_le (grants st) (grants st') \<and> map_le_on (admissions st) (admissions st')
     \<and> delegationPolicy st' = delegationPolicy st \<and> revocationEpoch st \<le> revocationEpoch st'"

lemma deleg_le_same: "delegation_part st' = delegation_part st \<Longrightarrow> deleg_le st st'"
  by (simp add: delegation_part_def deleg_le_def grants_le_refl map_le_on_def)

lemma deleg_le_trans: "deleg_le a b \<Longrightarrow> deleg_le b c \<Longrightarrow> deleg_le a c"
  using grants_le_trans by (auto simp: deleg_le_def map_le_on_def)

lemma grant_issued_le:
  assumes "grant_issued h st ev = Inr st'"
  shows "deleg_le st st'"
proof -
  from assms obtain env gs i g where i: "\<not> has_own (grants st) i"
    and r: "reserve_parent h st env (fld ev ''timestamp'') = Inr gs" and st': "st' = st\<lparr>grants := obj_set gs i g\<rparr>"
    by (elim grant_issued_Inr) simp
  from r have "grants_le (grants st) (obj_set gs i g)"
  proof (cases rule: reserve_parent_cases)
    case 1
    with i show ?thesis by (simp add: grants_le_new)
  next
    case (2 pk pg pg')
    have "\<not> has_own gs i" using i 2(2,6) by (auto simp: has_own_def)
    moreover have "grant_le pg pg'" using 2(5) by (auto simp: reserve_def Let_def if_Inl_Inr grant_le_def)
    then have "grants_le (grants st) gs" unfolding 2(6) by (rule grants_le_update [OF 2(2)])
    ultimately show ?thesis using grants_le_new grants_le_trans by blast
  qed
  then show ?thesis by (simp add: deleg_le_def st' map_le_on_def)
qed

lemma grant_revoked_le:
  assumes "grant_revoked h st ev = Inr st'"
  shows "deleg_le st st'"
  using assms
  by (elim grant_revoked_Inr) (auto simp: deleg_le_def map_le_on_def grant_le_def intro!: grants_le_update)

lemma admitted_grant_active:
  assumes "grants_ok (grants st)" and "map_of (grants st) gid = Some g"
    and "resolve_checks h (envelope g) st op t = Inr r" and "ancestor (grants st) gid a"
  shows "g_active a \<and> unexpired h a t"
proof -
  have i: "fld (envelope g) ''id'' = JStr gid" using grants_okD(1) [OF assms(1,2)] .
  with resolve_checks_Inr(2) [OF assms(3)] assms(2) obtain as where
    "ancestors_loop h (grants st) t [] (JStr gid) = Inr as" by (auto simp: grantAncestors_def)
  from ancestors_loop_sound [OF assms(4) this] show ?thesis .
qed

lemma operation_admitted_le:
  assumes "books_ok st" and "operation_admitted h st ev = Inr st'"
  shows "deleg_le st st'"
proof -
  define p where "p = fld ev ''payload''"
  define gid where "gid = js_string h (fld p ''grantId'')"
  define op where "op = fld p ''operation''"
  from assms(2) p_def gid_def op_def obtain g d r where g: "map_of (grants st) gid = Some g"
    and new: "\<not> has_own (admissions st) (str_of (fld op ''id''))"
    and r: "resolve_checks h (envelope g) st op (fld ev ''timestamp'') = Inr r"
    and st': "st' = st\<lparr>grants := obj_set (grants st) gid (spend g (fld op ''action'')),
       admissions := obj_set (admissions st) (str_of (fld op ''id''))
         (JObj [(''grantId'', fld p ''grantId''), (''operation'', op), (''operationDigest'', JStr d),
           (''eventId'', fld ev ''id''), (''eventDigest'', fld ev ''digest''), (''state'', JStr ''admitted'')])\<rparr>"
    by (rule operation_admitted_E)
  have "grants_ok (grants st)" using assms(1) by (simp add: books_ok_def)
  from admitted_grant_active [OF this g r ancestor.self [OF g]] have "grant_le g (spend g (fld op ''action''))"
    by (simp add: grant_le_def spend_def)
  then show ?thesis using g new by (simp add: deleg_le_def st' grants_le_update map_le_on_new)
qed

lemma reduceDelegationEvent_le:
  assumes "books_ok st" and "reduceDelegationEvent h st ev = Inr (Some st')"
  shows "deleg_le st st'"
  using assms(2)
proof (cases rule: reduceDelegationEvent_cases)
  case 4
  then show ?thesis by (elim delegation_safety_Inr) (simp add: deleg_le_def grants_le_refl map_le_on_def)
qed (use assms(1) in \<open>auto intro: grant_issued_le grant_revoked_le operation_admitted_le\<close>)

section \<open>Operations\<close>

text \<open>Operations are objects; an operation keeps its payload digest, and a resolved one its state.\<close>

fun is_obj :: "js \<Rightarrow> bool" where
  "is_obj (JObj _) = True"
| "is_obj _ = False"

definition ops_ok :: "(string \<times> js) list \<Rightarrow> bool" where
  "ops_ok ops = list_all (\<lambda>(_, op). is_obj op) ops"

definition op_le :: "js \<Rightarrow> js \<Rightarrow> bool" where
  "op_le op op' \<longleftrightarrow> fld op' ''payloadDigest'' = fld op ''payloadDigest''
     \<and> (\<not> unresolved op \<longrightarrow> fld op' ''state'' = fld op ''state'')"

definition ops_le :: "(string \<times> js) list \<Rightarrow> (string \<times> js) list \<Rightarrow> bool" where
  "ops_le ops ops' \<longleftrightarrow> (\<forall>k op. map_of ops k = Some op \<longrightarrow> (\<exists>op'. map_of ops' k = Some op' \<and> op_le op op'))"

lemma ops_le_refl: "ops_le ops ops"
  by (auto simp: ops_le_def op_le_def)

lemma op_le_trans: "op_le a b \<Longrightarrow> op_le b c \<Longrightarrow> op_le a c"
  by (auto simp: op_le_def unresolved_def)

lemma ops_le_trans: "ops_le a b \<Longrightarrow> ops_le b c \<Longrightarrow> ops_le a c"
  unfolding ops_le_def using op_le_trans by metis

lemma ops_le_set:
  assumes "\<And>op. map_of ops k = Some op \<Longrightarrow> op_le op op'"
  shows "ops_le ops (obj_set ops k op')"
  using assms by (auto simp: ops_le_def op_le_def)

lemma ops_ok_set: "ops_ok ops \<Longrightarrow> ops_ok (obj_set ops k (JObj fs))"
  using set_obj_set [of ops k "JObj fs"] by (auto simp: ops_ok_def list_all_iff)

lemma obj_get_own: "map_of ops k = Some op \<Longrightarrow> obj_get ops k = op"
  by (simp add: obj_get_def)

lemma is_obj_iff: "is_obj v \<longleftrightarrow> (\<exists>fs. v = JObj fs)"
  by (cases v) auto

lemma reconcile_le:
  assumes ok: "ops_ok (operations st)" and "reconcile_outcome h st p = Inr ops"
  shows "ops_le (operations st) ops \<and> ops_ok ops"
proof -
  from assms(2) obtain key op where ops: "ops = obj_set (operations st) key (JObj op)"
    and op: "op = obj_set (obj_set (own_props (obj_get (operations st) key)) ''state'' (fld (fld p ''outcome'') ''state''))
        ''reconciliation'' (fld p ''outcome'')"
    and u: "unresolved (obj_get (operations st) key)"
    by (rule reconcile_outcome_Inr)
  have "op_le x (JObj op)" if "map_of (operations st) key = Some x" for x
  proof -
    from that ok obtain fs where "x = JObj fs" by (auto simp: ops_ok_def list_all_iff is_obj_iff dest!: map_of_SomeD)
    with that u show ?thesis by (simp add: op_le_def op obj_get_own own_props_def)
  qed
  then have "ops_le (operations st) ops" unfolding ops by (rule ops_le_set)
  with ok ops ops_ok_set show ?thesis by blast
qed

lemma operation_event_Inr:
  assumes "operation_event h st ev = Inr st'"
  obtains p k where "p = fld ev ''payload''" and "fld p ''id'' = JStr k" and "digest_test h (fld p ''payloadDigest'')"
    and "st' = st\<lparr>operations := obj_set (operations st) k (JObj (obj_spread (own_props (obj_get (operations st) k)) (own_props p)))\<rparr>"
    and "\<not> truthy (obj_get (operations st) k) \<Longrightarrow> fld p ''state'' = JStr ''planned''"
    and "truthy (obj_get (operations st) k) \<Longrightarrow> js_eq (fld p ''payloadDigest'') (fld (obj_get (operations st) k) ''payloadDigest'')
       \<and> (\<exists>xs. obj_get (transitions st p) (js_string h (fld (obj_get (operations st) k) ''state'')) = JArr xs \<and> js_includes xs (fld p ''state''))"
proof -
  define p where "p = fld ev ''payload''"
  from assms obtain k where k: "fld p ''id'' = JStr k" by (auto simp: operation_event_def Let_def p_def dest: is_text_JStr)
  have arr: "\<exists>xs. obj_get (transitions st p) s = JArr xs" if "\<not> nullish (obj_get (transitions st p) s)"
      "includes_res h (obj_get (transitions st p) s) v = Inr b" for s v b
    using that by (auto simp: obj_get_def transitions_def includes_res_def split: if_splits)
  show thesis
  proof (rule that [OF p_def k])
    show "digest_test h (fld p ''payloadDigest'')" using assms by (auto simp: operation_event_def Let_def p_def)
    show "st' = st\<lparr>operations := obj_set (operations st) k (JObj (obj_spread (own_props (obj_get (operations st) k)) (own_props p)))\<rparr>"
      using assms k by (auto simp: operation_event_def Let_def p_def)
    show "fld p ''state'' = JStr ''planned''" if "\<not> truthy (obj_get (operations st) k)"
      using assms k that by (auto simp: operation_event_def Let_def p_def if_Inl_Inr)
    show "js_eq (fld p ''payloadDigest'') (fld (obj_get (operations st) k) ''payloadDigest'')
       \<and> (\<exists>xs. obj_get (transitions st p) (js_string h (fld (obj_get (operations st) k) ''state'')) = JArr xs \<and> js_includes xs (fld p ''state''))"
      if "truthy (obj_get (operations st) k)"
    proof -
      let ?next = "obj_get (transitions st p) (js_string h (fld (obj_get (operations st) k) ''state''))"
      from assms k that have "js_eq (fld p ''payloadDigest'') (fld (obj_get (operations st) k) ''payloadDigest'')"
        and n: "\<not> nullish ?next" "includes_res h ?next (fld p ''state'') = Inr True"
        by (auto simp: operation_event_def Let_def p_def [symmetric] if_Inl_Inr split: if_split_asm)
      moreover from arr [OF n] n obtain xs where "?next = JArr xs" "js_includes xs (fld p ''state'')"
        by (auto simp: includes_res_def)
      ultimately show ?thesis by blast
    qed
  qed
qed

lemma fld_own_prop:
  assumes "fld p k = v" and "v \<noteq> JUndef" and "k \<notin> set proto_names" and "k \<noteq> ''length''"
  shows "\<exists>fs. p = JObj fs \<and> map_of fs k = Some v"
  using assms by (cases p) (auto simp: fld_def obj_get_def split: option.splits if_splits)

lemma fld_spread:
  "map_of b k = Some v \<Longrightarrow> fld (JObj (obj_spread a b)) k = v"
  by (simp add: fld_def obj_get_def map_of_obj_spread)

lemma operation_event_le:
  assumes ok: "ops_ok (operations st)" and "operation_event h st ev = Inr st'"
  shows "ops_le (operations st) (operations st') \<and> ops_ok (operations st')"
proof -
  from assms(2) obtain p k where k: "fld p ''id'' = JStr k" and d: "digest_test h (fld p ''payloadDigest'')"
    and st': "st' = st\<lparr>operations := obj_set (operations st) k (JObj (obj_spread (own_props (obj_get (operations st) k)) (own_props p)))\<rparr>"
    and tr: "truthy (obj_get (operations st) k) \<Longrightarrow> js_eq (fld p ''payloadDigest'') (fld (obj_get (operations st) k) ''payloadDigest'')
       \<and> (\<exists>xs. obj_get (transitions st p) (js_string h (fld (obj_get (operations st) k) ''state'')) = JArr xs \<and> js_includes xs (fld p ''state''))"
    by (rule operation_event_Inr) blast
  have "fld p ''payloadDigest'' \<noteq> JUndef" using d by (auto simp: digest_test_nullish)
  then obtain fs where fs: "p = JObj fs" "map_of fs ''payloadDigest'' = Some (fld p ''payloadDigest'')"
    using fld_own_prop [of p "''payloadDigest''" "fld p ''payloadDigest''"] by (auto simp: proto_names_def)
  have "op_le op (JObj (obj_spread (own_props (obj_get (operations st) k)) (own_props p)))"
    if op: "map_of (operations st) k = Some op" for op
  proof -
    from op ok have "truthy op" by (auto simp: ops_ok_def list_all_iff is_obj_iff dest!: map_of_SomeD)
    with tr obj_get_own [OF op] obtain xs where eq: "fld p ''payloadDigest'' = fld op ''payloadDigest''"
      and xs: "obj_get (transitions st p) (js_string h (fld op ''state'')) = JArr xs" "js_includes xs (fld p ''state'')"
      by (auto dest: js_eq_imp_eq)
    have "unresolved op"
    proof (rule ccontr)
      assume "\<not> unresolved op"
      then have "fld op ''state'' = JStr ''confirmed'' \<or> fld op ''state'' = JStr ''failed''"
        by (auto simp: unresolved_def one_of_iff)
      with xs show False by (auto simp: transitions_def obj_get_def js_includes_def)
    qed
    then show ?thesis using fs eq by (simp add: op_le_def own_props_def fld_spread)
  qed
  then have "ops_le (operations st) (operations st')" unfolding st' by (simp add: ops_le_set)
  moreover have "ops_ok (operations st')" using ok by (simp add: st' ops_ok_set)
  ultimately show ?thesis by blast
qed

section \<open>The invariant of a run\<close>

definition run_inv :: "host \<Rightarrow> run_state \<Rightarrow> bool" where
  "run_inv h st \<longleftrightarrow> books_ok st \<and> scopes_ok h st \<and> ops_ok (operations st) \<and> phase st \<le> 8
     \<and> (\<exists>b. index_of boundaryOrder (boundary st) = Some b) \<and> safetyUsed st = length (safetyRecords st)
     \<and> (status st = Completed \<longrightarrow> phase st = 8 \<and> openRework st = []
         \<and> (oracleAssuranceRequired st \<longrightarrow> truthy (oracleRuntimeEvidence st) \<and> evidence_current st))"

text \<open>How a run grows: what no later event undoes.\<close>

definition run_le :: "run_state \<Rightarrow> run_state \<Rightarrow> bool" where
  "run_le st st' \<longleftrightarrow> identity_part st' = identity_part st \<and> deleg_le st st' \<and> ops_le (operations st) (operations st')
     \<and> generation st \<le> generation st' \<and> c_boundary (control_of st') \<le> c_boundary (control_of st)
     \<and> (oracleAssuranceRequired st \<longrightarrow> oracleAssuranceRequired st')
     \<and> (terminal st \<longrightarrow> status st' = status st \<and> phase st' = phase st \<and> candidateDigest st' = candidateDigest st)
     \<and> (\<exists>ext. history st' = history st @ ext)"

lemma run_le_refl: "run_le st st"
  by (simp add: run_le_def deleg_le_same ops_le_refl)

lemma run_le_trans:
  assumes "run_le a b" and "run_le b c"
  shows "run_le a c"
proof -
  have "deleg_le a c" using assms deleg_le_trans unfolding run_le_def by blast
  moreover have "ops_le (operations a) (operations c)" using assms ops_le_trans unfolding run_le_def by blast
  moreover have "\<exists>ext. history c = history a @ ext" using assms unfolding run_le_def by (metis append.assoc)
  ultimately show ?thesis using assms unfolding run_le_def by (auto simp: terminal_def)
qed

lemma books_ok_cong: "delegation_part st' = delegation_part st \<Longrightarrow> books_ok st' = books_ok st"
  by (simp add: delegation_part_def books_ok_def)

lemma scopes_ok_cong: "delegation_part st' = delegation_part st \<Longrightarrow> scopes_ok h st' = scopes_ok h st"
  by (simp add: delegation_part_def scopes_ok_def)

text \<open>Handlers that leave the delegation part and the operations alone, or change them by the two lemmas above.\<close>

lemma handle_event_ledger:
  assumes inv: "books_ok st" "scopes_ok h st" "ops_ok (operations st)" "safetyUsed st = length (safetyRecords st)"
    and hd: "handle_event h st ev = Inr st'"
  shows "books_ok st' \<and> scopes_ok h st' \<and> ops_ok (operations st') \<and> safetyUsed st' = length (safetyRecords st')
     \<and> deleg_le st st' \<and> ops_le (operations st) (operations st') \<and> identity_part st' = identity_part st
     \<and> log_part st' = log_part st \<and> (oracleAssuranceRequired st \<longrightarrow> oracleAssuranceRequired st')
     \<and> (boundary st' = boundary st \<or> (\<exists>b. index_of boundaryOrder (boundary st') = Some b))"
proof -
  have keep: ?thesis if "delegation_part st' = delegation_part st" "operations st' = operations st"
      "boundary st' = boundary st \<or> (\<exists>b. index_of boundaryOrder (boundary st') = Some b)"
      "identity_part st' = identity_part st" "log_part st' = log_part st"
      "oracleAssuranceRequired st \<longrightarrow> oracleAssuranceRequired st'"
    using that inv books_ok_cong [OF that(1)] scopes_ok_cong [OF that(1)] deleg_le_same [OF that(1)] ops_le_refl
    by (simp add: delegation_part_def)
  have frame: ?thesis if "same_frame st st'"
    by (rule keep) (use that in \<open>auto simp: same_frame_def control_part_def\<close>)
  from hd show ?thesis
  proof (cases rule: handle_event_cases)
    case 7
    then show ?thesis by (elim advanced_Inr) (rule keep, auto simp: same_frame_def parts)
  next
    case 8
    then show ?thesis by (elim returned_Inr) (rule keep, simp_all add: parts)
  next
    case 9
    from 9(2) obtain k where "st' = st\<lparr>openRework := obj_del (openRework st) k\<rparr>" by (clarsimp simp: rework_resolved_def Let_def if_Inl_Inr)
    then show ?thesis by (intro keep) (simp_all add: parts)
  next
    case 12
    then show ?thesis by (elim resumed_Inr) (rule keep, simp_all)
  next
    case 13
    from 13(2) obtain ops where "st' = st\<lparr>operations := ops\<rparr>" by (elim operation_event_Inr)
    moreover from operation_event_le [OF inv(3) 13(2)] have "ops_le (operations st) (operations st') \<and> ops_ok (operations st')" .
    ultimately show ?thesis using inv by (simp add: parts books_ok_def scopes_ok_def deleg_le_same)
  next
    case 14
    then have "st' = st\<lparr>status := Completed\<rparr>" by (simp add: completed_def Let_def if_Inl_Inr)
    then show ?thesis by (intro keep) (simp_all add: parts)
  next
    case 15
    then show ?thesis by (intro keep) (auto simp: cancelled_def if_Inl_Inr parts)
  next
    case 16
    note f = reduceDelegationEvent_books [OF inv(1) 16] reduceDelegationEvent_scopes [OF inv(2) 16] reduceDelegationEvent_le [OF inv(1) 16]
    from 16 show ?thesis
    proof (cases rule: reduceDelegationEvent_cases)
      case 1
      then show ?thesis using f grant_issued_frame [OF 1(2)] inv ops_le_refl
        by (auto simp: deleg_frame_def elim!: grant_issued_Inr)
    next
      case 2
      then show ?thesis using f grant_revoked_frame [OF 2(2)] inv ops_le_refl
        by (auto simp: deleg_frame_def elim!: grant_revoked_Inr)
    next
      case 3
      have "safetyUsed st' = safetyUsed st" "safetyRecords st' = safetyRecords st"
        by (rule operation_admitted_E [OF 3(2) refl refl refl], simp)+
      then show ?thesis using f operation_admitted_frame [OF 3(2)] inv ops_le_refl by (simp add: deleg_frame_def)
    next
      case 4
      have "safetyUsed st' = length (safetyRecords st')" using 4(2) inv(4) by (elim delegation_safety_Inr) simp
      moreover have "ops_le (operations st) (operations st') \<and> ops_ok (operations st')"
        using delegation_safety_frame [OF 4(2)] reconcile_le inv(3) ops_le_refl by auto
      ultimately show ?thesis using f delegation_safety_frame [OF 4(2)] by (simp add: deleg_frame_def)
    qed
  next
    case 10
    then show ?thesis by (intro keep) (auto simp: suspend_def parts)
  next
    case 11
    then show ?thesis by (intro keep) (auto simp: suspend_def parts)
  qed (rule frame, (erule contract_frozen_frame oracle_pinned_frame oracle_custody_frame candidate_frame
      observation_frame budget_admission_frame | simp))+
qed

section \<open>Every accepted event keeps the invariant and grows the run\<close>

lemma control_step_phase: "control_step k c c' \<Longrightarrow> c_phase c \<le> 8 \<Longrightarrow> c_phase c' \<le> 8"
  by (erule control_step.cases) (auto simp: return_target_def split: if_splits)

lemma control_step_mono:
  assumes "control_step k c c'"
  shows "c_generation c \<le> c_generation c'" and "c_boundary c' \<le> c_boundary c"
    and "\<not> live c \<Longrightarrow> k = ''operation'' \<and> c_status c' = c_status c \<and> c_phase c' = c_phase c"
    and "c_status c' = Completed \<Longrightarrow> k = ''completed'' \<or> c_status c = Completed"
  using assms by (auto simp: live_def elim!: control_step.cases)

lemma drop_stale_evidence:
  assumes "truthy (oracleRuntimeEvidence st)" and "evidence_current st"
  shows "truthy (oracleRuntimeEvidence (settle st ev)) \<and> evidence_current (settle st ev)"
  using assms by (simp add: settle_def drop_stale_def Let_def evidence_current_def)

lemma settle_parts:
  shows "delegation_part (settle st ev) = delegation_part st" and "identity_part (settle st ev) = identity_part st"
    and "operations (settle st ev) = operations st" and "boundary (settle st ev) = boundary st"
    and "status (settle st ev) = status st" and "phase (settle st ev) = phase st" and "openRework (settle st ev) = openRework st"
    and "generation (settle st ev) = generation st" and "candidateDigest (settle st ev) = candidateDigest st"
    and "oracleAssuranceRequired st \<Longrightarrow> oracleAssuranceRequired (settle st ev)"
    and "fld ev ''kind'' \<noteq> JStr ''started'' \<Longrightarrow> oracleAssuranceRequired (settle st ev) = oracleAssuranceRequired st"
    and "\<exists>x. history (settle st ev) = history st @ [x]" and "revision (settle st ev) = fld ev ''digest''"
  by (simp_all add: settle_def drop_stale_def Let_def parts)

lemma completed_evidence:
  assumes "completed h st ev = Inr st'"
  shows "phase st' = 8 \<and> openRework st' = [] \<and> (oracleAssuranceRequired st' \<longrightarrow> truthy (oracleRuntimeEvidence st') \<and> evidence_current st')"
  using assms by (auto simp: completed_def Let_def if_Inl_Inr evidence_current_def)

lemma handle_event_completed:
  assumes hd: "handle_event h st ev = Inr st'" and k: "fld ev ''kind'' = JStr ''completed''"
  shows "completed h st ev = Inr st'"
  using hd k by (simp add: handle_event_def)

lemma handle_event_operation:
  assumes hd: "handle_event h st ev = Inr st'" and k: "fld ev ''kind'' = JStr ''operation''"
  obtains ops where "st' = st\<lparr>operations := ops\<rparr>"
proof -
  have "operation_event h st ev = Inr st'" using hd k by (simp add: handle_event_def)
  then show thesis using that by (elim operation_event_Inr)
qed

lemma event_guards_operation:
  assumes "event_guards st ev = Inr st1" and "fld ev ''kind'' = JStr ''operation''"
  shows "st1 = st"
  using assms by (auto simp: event_guards_def Let_def if_Inl_Inr one_of_def)

lemma apply_event_step:
  assumes inv: "run_inv h st" and ev: "apply_event h (Some st) ev = Inr st''"
  shows "run_inv h st'' \<and> run_le st st'' \<and> (\<exists>k. fld ev ''kind'' = JStr k \<and> control_step k (control_of st) (control_of st''))"
proof -
  from ev obtain st1 st' where g: "event_guards st ev = Inr st1" and hd: "handle_event h st1 ev = Inr st'"
    and st'': "st'' = settle st' ev"
    by (auto simp: apply_event_def if_Inl_Inr)
  from g hd obtain k where k: "fld ev ''kind'' = JStr k" and cs: "control_step k (control_of st) (control_of st')"
    by (rule handle_event_refines)
  have fr: "same_frame st st1" using g by (rule event_guards_frame)
  then have p1: "delegation_part st1 = delegation_part st" "operations st1 = operations st" "identity_part st1 = identity_part st"
      "boundary st1 = boundary st" "log_part st1 = log_part st" "oracleAssuranceRequired st \<longrightarrow> oracleAssuranceRequired st1"
    by (auto simp: same_frame_def control_part_def)
  have "books_ok st1" "scopes_ok h st1" "ops_ok (operations st1)" "safetyUsed st1 = length (safetyRecords st1)"
    using inv p1 books_ok_cong [OF p1(1)] scopes_ok_cong [OF p1(1)] by (auto simp: run_inv_def delegation_part_def)
  note L = handle_event_ledger [OF this hd]
  note S = settle_parts [where st = st' and ev = ev]
  have cs'': "control_step k (control_of st) (control_of st'')" using cs by (simp add: st'' settle_control)
  note M = control_step_mono [OF cs]
  have phase8: "phase st' \<le> 8" using control_step_phase [OF cs] inv by (simp add: run_inv_def control_of_def)
  have deleg: "deleg_le st st''" using L deleg_le_trans [OF deleg_le_same [OF p1(1)]] deleg_le_trans [OF _ deleg_le_same [OF S(1)]]
    by (metis st'')
  have op_keep: "st1 = st \<and> (\<exists>ops. st' = st\<lparr>operations := ops\<rparr>)" if "k = ''operation''"
    using handle_event_operation [OF hd] event_guards_operation [OF g] k that by metis
  have comp: "phase st'' = 8 \<and> openRework st'' = []
      \<and> (oracleAssuranceRequired st'' \<longrightarrow> truthy (oracleRuntimeEvidence st'') \<and> evidence_current st'')" if "status st'' = Completed"
  proof -
    have ns: "fld ev ''kind'' \<noteq> JStr ''started''" if "k = ''completed'' \<or> k = ''operation''" using k that by auto
    have base: "phase st' = 8 \<and> openRework st' = [] \<and> (oracleAssuranceRequired st' \<longrightarrow> truthy (oracleRuntimeEvidence st') \<and> evidence_current st')
        \<and> (k = ''completed'' \<or> k = ''operation'')"
    proof -
      from \<open>status st'' = Completed\<close> have "k = ''completed'' \<or> status st = Completed"
        using M(4) by (simp add: st'' S control_of_def)
      then show ?thesis
      proof
        assume "k = ''completed''"
        with handle_event_completed [OF hd] k completed_evidence show ?thesis by blast
      next
        assume c: "status st = Completed"
        then have "k = ''operation''" using M(3) not_terminal [of st] by (simp add: terminal_def)
        with op_keep obtain ops where "st' = st\<lparr>operations := ops\<rparr>" by blast
        with c inv \<open>k = ''operation''\<close> show ?thesis by (simp add: run_inv_def evidence_current_def)
      qed
    qed
    then show ?thesis using drop_stale_evidence [of st' ev] ns S(11) by (simp add: st'' S(6,7))
  qed
  have inv'': "run_inv h st''"
    unfolding run_inv_def
  proof (intro conjI impI)
    show "books_ok st''" "scopes_ok h st''" using L books_ok_cong [OF S(1)] scopes_ok_cong [OF S(1)] by (simp_all add: st'')
    show "ops_ok (operations st'')" using L by (simp add: st'' S)
    show "phase st'' \<le> 8" using phase8 by (simp add: st'' S)
    show "\<exists>b. index_of boundaryOrder (boundary st'') = Some b" using L p1(4) inv by (auto simp: st'' S run_inv_def)
    show "safetyUsed st'' = length (safetyRecords st'')" using L S(1) by (simp add: st'' delegation_part_def)
  qed (use comp in blast)+
  have "\<exists>ext. history st'' = history st @ ext" using S(12) L p1(5) by (auto simp: st'' log_part_def)
  moreover have "terminal st \<longrightarrow> status st'' = status st \<and> phase st'' = phase st \<and> candidateDigest st'' = candidateDigest st"
  proof
    assume "terminal st"
    then have "k = ''operation''" using M(3) not_terminal [of st] by simp
    with op_keep obtain ops where "st' = st\<lparr>operations := ops\<rparr>" by blast
    then show "status st'' = status st \<and> phase st'' = phase st \<and> candidateDigest st'' = candidateDigest st" by (simp add: st'' settle_parts)
  qed
  moreover have "generation st \<le> generation st''" using M(1) by (simp add: st'' S control_of_def)
  moreover have "c_boundary (control_of st'') \<le> c_boundary (control_of st)" using M(2) by (simp add: st'' settle_control)
  moreover have "identity_part st'' = identity_part st" using L p1(3) by (simp add: st'' S)
  moreover have "ops_le (operations st) (operations st'')" using L p1(2) by (simp add: st'' S)
  moreover have "oracleAssuranceRequired st \<longrightarrow> oracleAssuranceRequired st''" using L p1(6) S(10) by (auto simp: st'')
  ultimately have "run_le st st''" using deleg by (simp add: run_le_def)
  with inv'' cs'' k show ?thesis by blast
qed

lemma index_of_one_of: "one_of ss v \<Longrightarrow> \<exists>i. index_of ss v = Some i"
  by (induction ss) (auto simp: one_of_iff)

lemma start_run_inv:
  assumes "start_run ev = Inr st"
  shows "run_inv h (settle st ev)" and "control_of (settle st ev) = \<lparr>c_phase = 0, c_status = Active, c_generation = 0,
     c_boundary = c_boundary (control_of st), c_rework = False, c_pending = False\<rparr>"
proof -
  from assms have st: "grants st = []" "admissions st = []" "operations st = []" "openRework st = []" "phase st = 0"
      "status st = Active" "generation st = 0" "safetyUsed st = 0" "safetyRecords st = []"
      "one_of boundaryOrder (boundary st)"
    by (auto simp: start_run_def Let_def if_Inl_Inr)
  have "books_ok st" by (simp add: books_ok_def grants_ok_def st total_used_def counters_def)
  moreover have "scopes_ok h st" by (simp add: scopes_ok_def st)
  ultimately show "run_inv h (settle st ev)"
    using st index_of_one_of books_ok_cong [OF settle_parts(1)] scopes_ok_cong [OF settle_parts(1)]
      settle_parts(1) [where st = st and ev = ev]
    by (simp add: run_inv_def settle_parts ops_ok_def delegation_part_def)
  show "control_of (settle st ev) = \<lparr>c_phase = 0, c_status = Active, c_generation = 0,
     c_boundary = c_boundary (control_of st), c_rework = False, c_pending = False\<rparr>"
    unfolding settle_control by (simp add: control_of_def st pending_def)
qed

section \<open>Whole logs\<close>

definition log_inv :: "host \<Rightarrow> run_log \<Rightarrow> bool" where
  "log_inv h lg = (case lg of (None, seen) \<Rightarrow> seen = [] | (Some st, seen) \<Rightarrow> run_inv h st)"

definition log_le :: "run_log \<Rightarrow> run_log \<Rightarrow> bool" where
  "log_le lg lg' \<longleftrightarrow> map_le_on (snd lg) (snd lg')
     \<and> (case fst lg of None \<Rightarrow> True | Some st \<Rightarrow> (case fst lg' of None \<Rightarrow> False | Some st' \<Rightarrow> run_le st st'))"

lemma reduce_event_cases:
  assumes "reduce_event h (so, seen) ev = Inr lg"
  obtains (duplicate) d where "map_of seen (str_of (fld ev ''id'')) = Some d" and "js_eq d (fld ev ''digest'')" and "lg = (so, seen)"
  | (new) st' where "map_of seen (str_of (fld ev ''id'')) = None" and "apply_event h so ev = Inr st'"
      and "lg = (Some st', (str_of (fld ev ''id''), fld ev ''digest'') # seen)"
  using assms by (auto simp: reduce_event_def if_Inl_Inr split: option.split_asm)

lemma apply_event_new:
  assumes "apply_event h so ev = Inr st'" and "log_inv h (so, seen)"
  shows "run_inv h st'" and "case so of None \<Rightarrow> True | Some st \<Rightarrow> run_le st st'"
proof -
  show "run_inv h st'"
  proof (cases so)
    case None
    with assms(1) show ?thesis by (auto simp: apply_event_def if_Inl_Inr intro: start_run_inv(1))
  next
    case (Some st)
    with assms show ?thesis using apply_event_step by (simp add: log_inv_def)
  qed
  show "case so of None \<Rightarrow> True | Some st \<Rightarrow> run_le st st'"
    using assms apply_event_step by (auto simp: log_inv_def split: option.split)
qed

lemma reduce_event_inv: "log_inv h lg \<Longrightarrow> reduce_event h lg ev = Inr lg' \<Longrightarrow> log_inv h lg'"
  by (cases lg) (auto elim!: reduce_event_cases dest: apply_event_new(1) simp: log_inv_def)

lemma reduce_event_le:
  assumes "log_inv h lg" and "reduce_event h lg ev = Inr lg'"
  shows "log_le lg lg'"
proof -
  obtain so seen where lg: "lg = (so, seen)" by (cases lg)
  from assms(2) [unfolded lg] show ?thesis
  proof (cases rule: reduce_event_cases)
    case (duplicate d)
    then show ?thesis by (auto simp: lg log_le_def map_le_on_def run_le_refl split: option.split)
  next
    case (new st')
    then show ?thesis using apply_event_new(2) [OF new(2)] assms(1)
      by (auto simp: lg log_le_def map_le_on_def split: option.split_asm option.split)
  qed
qed

lemma log_le_trans: "log_le a b \<Longrightarrow> log_le b c \<Longrightarrow> log_le a c"
  unfolding log_le_def map_le_on_def
  by (auto split: option.split_asm option.split intro: run_le_trans)

interpretation runs: ordered_log "reduce_event h" "(None, [])" "log_inv h" log_le for h
proof
  show "log_inv h (None, [])" by (simp add: log_inv_def)
  show "log_inv h s \<Longrightarrow> reduce_event h s e = Inr t \<Longrightarrow> log_inv h t" for s e t by (rule reduce_event_inv)
  show "log_le s s" for s by (auto simp: log_le_def map_le_on_def run_le_refl split: option.split)
  show "log_le s t \<Longrightarrow> log_le t u \<Longrightarrow> log_le s u" for s t u by (rule log_le_trans)
  show "log_inv h s \<Longrightarrow> reduce_event h s e = Inr t \<Longrightarrow> log_le s t" for s e t by (rule reduce_event_le)
qed

lemma reduceRun_log: "reduceRun h es = Inr so \<longleftrightarrow> (\<exists>seen. for_fold (reduce_event h) (None, []) es = Inr (so, seen))"
  by (auto simp: reduceRun_def)

lemma reduceRun_inv:
  assumes "reduceRun h es = Inr (Some st)" shows "run_inv h st"
proof -
  from assms obtain seen where "for_fold (reduce_event h) (None, []) es = Inr (Some st, seen)" by (auto simp: reduceRun_log)
  from runs.replay_inv [OF this] show ?thesis by (simp add: log_inv_def)
qed

lemma reduceRun_le: "reduceRun h es = Inr (Some st) \<Longrightarrow> reduceRun h (es @ fs) = Inr (Some st') \<Longrightarrow> run_le st st'"
  using runs.replay_le by (fastforce simp: reduceRun_log log_le_def)

lemma reduceRun_snoc:
  assumes "reduceRun h es = Inr (Some st)" and "reduceRun h (es @ [e]) = Inr (Some st')"
  obtains (duplicate) "st' = st" | (new) "apply_event h (Some st) e = Inr st'"
  using assms
  by (auto simp: reduceRun_log for_fold_append elim!: reduce_event_cases)

end
