(* ===== verification/SampleRun.thy ===== *)
theory SampleRun
  imports RunSafety
begin

text \<open>
  A concrete run the witnesses use: a run is started with a delegation policy, a candidate is
  recorded, a grant is issued and an operation is admitted under it. Its digests come from the
  constant digest function of \<open>const_host\<close>.
\<close>

definition run_digest :: string where
  "run_digest = replicate 64 (CHR ''a'')"

abbreviation D :: js where
  "D \<equiv> JStr run_digest"

abbreviation T0 :: js where
  "T0 \<equiv> JStr ''2026-01-01T00:00:00.000Z''"

lemma recordDigest_const [simp]: "recordDigest const_host r = run_digest"
  by (simp add: recordDigest_def const_host_def run_digest_def)

lemma run_digest_hex [simp]: "is_hex64 run_digest"
  by (simp add: run_digest_def is_hex64_def list_all_iff is_hex_def)

definition sample_event :: "string \<Rightarrow> js \<Rightarrow> string \<Rightarrow> js \<Rightarrow> js" where
  "sample_event i prev kind payload =
     JObj (createRunEvent const_host [] (JStr ''run-1'') (JStr i) prev (JNat 0) (JStr kind) payload T0)"

lemma fld_sample [simp]:
  "fld (sample_event i prev kind p) ''id'' = JStr i" "fld (sample_event i prev kind p) ''runId'' = JStr ''run-1''"
  "prev \<noteq> JUndef \<Longrightarrow> fld (sample_event i prev kind p) ''previousDigest'' = prev"
  "fld (sample_event i prev kind p) ''generation'' = JNat 0"
  "fld (sample_event i prev kind p) ''kind'' = JStr kind"
  "p \<noteq> JUndef \<Longrightarrow> fld (sample_event i prev kind p) ''payload'' = p"
  "fld (sample_event i prev kind p) ''timestamp'' = T0"
  "fld (sample_event i prev kind p) ''digest'' = D"
  by (simp_all add: sample_event_def createRunEvent_def fld_seal fld_seal_other js_default_def)
    (simp_all add: fld_def obj_get_def)

lemma T0_value: "date_parse const_host T0 = Fin 1767225600000"
  by (simp add: date_parse_def iso_ms_def sub_str_def digits_val_def is_digit_def days_from_civil_def month_days_def leap_year_def)

lemma sample_valid: "requireDeliveryRecord const_host (sample_event i prev kind p) ''run-event'' = Inr (sample_event i prev kind p)"
  unfolding sample_event_def createRunEvent_def by (rule seal_accepted [OF const_host_hex])

lemma reduce_sample:
  assumes "is_text (JStr i)" and "map_of seen i = None"
  shows "reduce_event const_host (so, seen) (sample_event i prev kind p)
    = bnd (apply_event const_host so (sample_event i prev kind p)) (\<lambda>st'. Inr (Some st', (i, D) # seen))"
  using assms by (simp add: reduce_event_def sample_valid requireText_def is_text_def is_instant_def T0_value js_trim_def is_space_def)

section \<open>The policy, the grant and the operation\<close>

definition run_policy :: js where
  "run_policy = JObj [(''version'', JNat 1),
     (''issuers'', JArr [JObj [(''id'', JStr ''iss''), (''origin'', JStr ''host''), (''authorityRef'', JStr ''ref''),
        (''mode'', JStr ''local-cooperative''), (''allowedActions'', JArr [JStr ''edit'']), (''allowThroughMerge'', JBool False)]]),
     (''requiredChecks'', JArr [JStr ''ci'']), (''reviewPolicy'', JStr ''automated''),
     (''materiality'', JStr ''fixed-scope-v1''), (''allowSubdelegation'', JBool True), (''safetyReserve'', JNat 3)]"

definition sample_request :: js where
  "sample_request = JObj [(''issuerMode'', JStr ''local-cooperative''),
     (''issuerBinding'', JObj [(''type'', JStr ''delegation-issuance''), (''issuerId'', JStr ''iss''), (''mode'', JStr ''local-cooperative''),
        (''origin'', JStr ''host''), (''authorityRef'', JStr ''ref''), (''policyDigest'', D), (''requestDigest'', D),
        (''decisionRef'', JStr ''ok'')]),
     (''planDigest'', D), (''policyDigest'', D), (''repository'', JStr ''repo''), (''base'', JStr ''main''),
     (''delegate'', JStr ''dev''), (''allowedPaths'', JArr [JStr ''src/*'']), (''allowedActions'', JArr [JStr ''edit'']),
     (''capabilities'', JArr [JStr ''edit'']), (''requiredChecks'', JArr [JStr ''ci'']), (''reviewPolicy'', JStr ''automated''),
     (''materiality'', JStr ''fixed-scope-v1''), (''allowSubdelegation'', JBool True), (''maxAttempts'', JNat 2),
     (''maxExternalEffects'', JNat 0), (''expiry'', JStr ''2026-02-01T00:00:00.000Z'')]"

definition sample_op :: js where
  "sample_op = JObj [(''id'', JStr ''op1''), (''planDigest'', D), (''policyDigest'', D), (''repository'', JStr ''repo''),
     (''base'', JStr ''main''), (''delegate'', JStr ''dev''), (''action'', JStr ''edit''), (''paths'', JArr [JStr ''src/a'']),
     (''capabilities'', JArr [JStr ''edit'']), (''candidateDigest'', D), (''workspaceDigest'', D),
     (''checks'', JArr [JObj [(''name'', JStr ''ci''), (''outcome'', JStr ''pass''), (''candidateDigest'', D)]]),
     (''review'', JObj [(''outcome'', JStr ''pass''), (''policy'', JStr ''automated''), (''candidateDigest'', D)]),
     (''arguments'', JObj [])]"

lemma fld_JObj: "fld (JObj fs) k = obj_get fs k"
  by (simp add: fld_def)

lemmas eval_js = fld_JObj obj_get_def proto_names_def own_props_def chk_text_def is_text_def js_trim_def is_space_def
  chk_strings_def is_strings_def js_includes_def one_of_def safeKey_def is_alnum_def key_char_def is_action_def ACTIONS_def
  has_own_def

lemma run_policy_ok [simp]: "validateDelegationPolicy run_policy = Inr ()"
  by (simp add: validateDelegationPolicy_def run_policy_def check_issuer_def eval_js chk_integer_def js_safe_int_def
      js_int_def max_safe_def)

lemma expiry_value: "date_parse const_host (JStr ''2026-02-01T00:00:00.000Z'') = Fin 1769904000000"
  by (simp add: date_parse_def iso_ms_def sub_str_def digits_val_def is_digit_def days_from_civil_def month_days_def leap_year_def)

lemma timestamps [simp]: "timestamp const_host T0 = Inr (Fin 1767225600000)"
  "timestamp const_host (JStr ''2026-02-01T00:00:00.000Z'') = Inr (Fin 1769904000000)"
  by (simp_all add: timestamp_def is_instant_def T0_value expiry_value)

lemma sample_request_ok [simp]: "validateGrantRequest const_host sample_request T0 run_policy = Inr ()"
proof -
  have flds: "fld run_policy ''issuers'' = JArr [JObj [(''id'', JStr ''iss''), (''origin'', JStr ''host''), (''authorityRef'', JStr ''ref''),
        (''mode'', JStr ''local-cooperative''), (''allowedActions'', JArr [JStr ''edit'']), (''allowThroughMerge'', JBool False)]]"
    "fld run_policy ''requiredChecks'' = JArr [JStr ''ci'']" "fld run_policy ''reviewPolicy'' = JStr ''automated''"
    "fld run_policy ''materiality'' = JStr ''fixed-scope-v1''" "fld run_policy ''allowSubdelegation'' = JBool True"
    by (simp_all add: run_policy_def fld_def obj_get_def)
  have json: "chk_json sample_request = Inr ()" by (simp add: sample_request_def)
  show ?thesis
    by (simp add: validateGrantRequest_def json Let_def)
      (simp add: sample_request_def GRANT_FIELDS_def find_issuer_def flds issuer_mismatch_def grantRequestDigest_def check_actions_def
        check_scope_def pattern_base_def ends_with_def safePath_def safe_part_def bad_path_char_def chk_digest_def
        chk_integer_def js_safe_int_def js_int_def max_safe_def num_le_def eval_js,
       rule exI [of _ "Fin 1769904000000"], simp)
qed

lemma sample_op_ok [simp]: "normalizeOperation const_host sample_op = Inr sample_op"
  by (simp add: normalizeOperation_def sample_op_def OPERATION_FIELDS_def chk_digest_def safePath_def safe_part_def
      bad_path_char_def eval_js)

lemma sample_op_digest [simp]: "operationDigest const_host sample_op = Inr run_digest"
  by (simp add: operationDigest_def)

section \<open>The run\<close>

definition e_start :: js where
  "e_start = sample_event ''e1'' JNull ''started'' (JObj [(''profile'', JStr ''standard''), (''boundary'', JStr ''open-pr''),
     (''goalRef'', JStr ''goal''), (''owner'', JStr ''own''), (''delegationPolicy'', run_policy)])"

definition e_candidate :: js where
  "e_candidate = sample_event ''e2'' D ''candidate'' (JObj [(''digest'', D)])"

definition sample_envelope :: js where
  "sample_envelope = JObj [(''id'', JStr ''g1''), (''issuedAt'', T0), (''issuerActor'', JStr ''own''),
     (''binding'', sample_request), (''parentId'', JNull)]"

definition e_grant :: js where
  "e_grant = sample_event ''e3'' D ''grant-issued'' (JObj [(''grant'', sample_envelope)])"

definition sample_decision :: js where
  "sample_decision = JObj [(''type'', JStr ''delegation-resolution''), (''grantId'', JStr ''g1''), (''grantRevision'', D),
     (''policyDigest'', D), (''issuerId'', JStr ''iss''), (''mode'', JStr ''local-cooperative''), (''origin'', JStr ''host''),
     (''authorityRef'', JStr ''ref''), (''decisionRef'', JStr ''ok''), (''operationDigest'', D), (''delegate'', JStr ''dev'')]"

definition e_admit :: js where
  "e_admit = sample_event ''e4'' D ''operation-admitted'' (JObj [(''grantId'', JStr ''g1''), (''runRevision'', D),
     (''generation'', JNat 0), (''writer'', JStr ''own''), (''grantRevision'', D), (''grantEpoch'', JNat 0),
     (''operation'', sample_op), (''operationDigest'', D), (''authorization'', sample_decision)])"

lemma ids_text [simp]: "is_text (JStr ''e1'')" "is_text (JStr ''e2'')" "is_text (JStr ''e3'')" "is_text (JStr ''e4'')" "is_text (JStr ''e5'')"
  by (simp_all add: is_text_def js_trim_def is_space_def)

definition st_start :: run_state where
  "st_start = \<lparr>runId = JStr ''run-1'', goalRef = JStr ''goal'', profile = JStr ''standard'', boundary = JStr ''open-pr'',
     authorityProtocol = JStr ''legacy'', owner = JStr ''own'', writer = JNull, budget_config = JNull, budgetAdmission = JNull,
     generation = 0, status = Active, phase = 0, candidateDigest = JNull, observations = [], openRework = [], operations = [],
     history = [JObj [(''id'', JStr ''e1''), (''kind'', JStr ''started''), (''timestamp'', T0), (''digest'', D)]],
     revision = D, grants = [], admissions = [], delegationPolicy = run_policy, safetyUsed = 0, safetyRecords = [],
     revocationEpoch = 0, oraclePin = JNull, oracleDigest = JNull, contract = JUndef, contractSourceRevision = JUndef,
     reason = JUndef, oracleAssuranceRequired = False, oracleCustody = JUndef, oraclePackage = JUndef,
     oraclePackageDeveloper = JUndef, oracleRuntimeEvidence = JUndef\<rparr>"

definition note_event :: "string \<Rightarrow> string \<Rightarrow> run_state \<Rightarrow> run_state" where
  "note_event i kind st = st\<lparr>history := history st @ [JObj [(''id'', JStr i), (''kind'', JStr kind), (''timestamp'', T0), (''digest'', D)]]\<rparr>"

lemma apply_start: "apply_event const_host None e_start = Inr st_start"
  by (simp add: apply_event_def start_run_def e_start_def eval_js boundaryOrder_def requireText_def coal_def settle_def
      drop_stale_def st_start_def Let_def) (simp add: run_policy_def)

definition st_candidate :: run_state where
  "st_candidate = note_event ''e2'' ''candidate'' (st_start\<lparr>candidateDigest := D\<rparr>)"

lemmas eval_guards = event_guards_def Let_def terminal_def one_of_def handle_event_def settle_def drop_stale_def note_event_def

lemma apply_candidate: "apply_event const_host (Some st_start) e_candidate = Inr st_candidate"
  by (simp add: apply_event_def e_candidate_def eval_guards candidate_event_def requireDigest_def fld_JObj obj_get_def
      st_start_def st_candidate_def coal_def)

definition sample_grant :: grant where
  "sample_grant = \<lparr>envelope = sample_envelope, g_revision = D, g_active = True, g_revocationEpoch = 0,
     budgetUsed = no_budget, budgetReserved = no_budget\<rparr>"

definition st_grant :: run_state where
  "st_grant = note_event ''e3'' ''grant-issued'' (st_candidate\<lparr>grants := [(''g1'', sample_grant)]\<rparr>)"

lemma envelope_flds [simp]: "fld sample_envelope ''id'' = JStr ''g1''" "fld sample_envelope ''issuedAt'' = T0"
    "fld sample_envelope ''issuerActor'' = JStr ''own''" "fld sample_envelope ''binding'' = sample_request"
    "fld sample_envelope ''parentId'' = JNull" "truthy sample_envelope"
    "list_ex (\<lambda>(k, _). k \<notin> set ENVELOPE_FIELDS) (own_props sample_envelope) = False"
  by (simp_all add: sample_envelope_def fld_JObj obj_get_def own_props_def ENVELOPE_FIELDS_def)

lemma keys_ok [simp]: "safeKey (JStr ''g1'')" "safeKey (JStr ''op1'')"
  by (simp_all add: safeKey_def is_alnum_def key_char_def)

lemma grant_step: "grants st = [] \<Longrightarrow> delegationPolicy st = run_policy \<Longrightarrow> grant_issued const_host st e_grant = Inr (st\<lparr>grants := [(''g1'', sample_grant)]\<rparr>)"
  by (simp add: grant_issued_def e_grant_def fld_JObj obj_get_def has_own_def reserve_parent_def chk_text_def is_text_def
      js_trim_def is_space_def Let_def sample_grant_def)

lemma apply_grant: "apply_event const_host (Some st_candidate) e_grant = Inr st_grant"
proof -
  have "handle_event const_host st_candidate e_grant = Inr (st_candidate\<lparr>grants := [(''g1'', sample_grant)]\<rparr>)"
    by (simp add: handle_event_def e_grant_def reduceDelegationEvent_def Let_def grant_step [unfolded e_grant_def]
        st_candidate_def st_start_def note_event_def)
  moreover have "event_guards st_candidate e_grant = Inr st_candidate"
    by (simp add: e_grant_def eval_guards fld_JObj obj_get_def st_candidate_def st_start_def)
  ultimately show ?thesis
    by (simp add: apply_event_def) (simp add: e_grant_def settle_def drop_stale_def Let_def note_event_def st_grant_def
        st_candidate_def st_start_def coal_def)
qed

definition sample_admission :: js where
  "sample_admission = JObj [(''grantId'', JStr ''g1''), (''operation'', sample_op), (''operationDigest'', D),
     (''eventId'', JStr ''e4''), (''eventDigest'', D), (''state'', JStr ''admitted'')]"

definition st_admit :: run_state where
  "st_admit = note_event ''e4'' ''operation-admitted'' (st_grant\<lparr>
     grants := [(''g1'', spend sample_grant (JStr ''edit''))], admissions := [(''op1'', sample_admission)]\<rparr>)"

lemma sample_ancestors [simp]:
  assumes "grants st = [(''g1'', sample_grant)]"
  shows "grantAncestors const_host sample_envelope st T0 = Inr [sample_grant]"
proof -
  have "fld sample_request ''expiry'' = JStr ''2026-02-01T00:00:00.000Z''" "nullish sample_request = False"
    by (simp_all add: sample_request_def fld_JObj obj_get_def)
  then show ?thesis using assms
    by (simp add: grantAncestors_def ancestors_loop.simps [of _ _ _ "[]"] ancestors_loop.simps [of _ _ _ _ JNull]
        sample_grant_def dot_def num_le_def del: bnd_Inr split: js.split) (simp add: sample_request_def del: bnd_Inr)
qed

lemma sample_in_scope [simp]:
  assumes "candidateDigest st = D"
  shows "in_scope const_host st sample_request sample_op = Inr ()"
  using assms
  by (simp add: in_scope_def sample_request_def sample_op_def eval_js Let_def check_missing_def pathMatches_def safePath_def
      safe_part_def bad_path_char_def ends_with_def)

lemma sample_resolve [simp]:
  assumes "grants st = [(''g1'', sample_grant)]" and "candidateDigest st = D" and "delegationPolicy st = run_policy"
  shows "resolve_checks const_host sample_envelope st sample_op T0 = Inr (sample_op, run_digest)"
proof -
  have "fld sample_request ''maxAttempts'' = JNat 2" "external (fld sample_op ''action'') = False"
    by (simp_all add: sample_request_def sample_op_def fld_JObj obj_get_def external_def ACTIONS_def)
  moreover have "dot sample_envelope ''id'' = Inr (JStr ''g1'')" by (simp add: sample_envelope_def fld_JObj obj_get_def)
  moreover have "envelope sample_grant = sample_envelope" by (simp add: sample_grant_def)
  moreover have "grantAncestors const_host sample_envelope st T0 = Inr [sample_grant]" using assms by simp
  ultimately show ?thesis using assms
    by (simp add: resolve_checks_def Let_def sample_grant_def no_budget_def int_of_def js_int_def)
qed

lemma sample_decision_ok [simp]:
  "verifyDelegationDecision const_host sample_decision ''delegation-resolution'' sample_grant st = Inr ()"
  by (simp add: verifyDelegationDecision_def sample_grant_def del: bnd_Inr)
    (simp add: sample_decision_def sample_request_def eval_js del: bnd_Inr)

lemma admit_flds [simp]: "fld sample_op ''id'' = JStr ''op1''" "fld sample_op ''action'' = JStr ''edit''" "fld sample_op ''delegate'' = JStr ''dev''"
    "fld sample_decision ''operationDigest'' = D" "fld sample_decision ''delegate'' = JStr ''dev''"
  by (simp_all add: sample_op_def sample_decision_def fld_JObj obj_get_def)

lemma admit_step:
  assumes "grants st = [(''g1'', sample_grant)]" and "candidateDigest st = D" and "delegationPolicy st = run_policy"
    and "revision st = D" and "generation st = 0" and "owner st = JStr ''own''" and "admissions st = []"
  shows "operation_admitted const_host st e_admit = Inr (st\<lparr>grants := [(''g1'', spend sample_grant (JStr ''edit''))],
      admissions := [(''op1'', sample_admission)]\<rparr>)"
proof -
  have "envelope sample_grant = sample_envelope" "g_revision sample_grant = D" "g_revocationEpoch sample_grant = 0"
    by (simp_all add: sample_grant_def)
  moreover have "resolveGrant const_host sample_envelope st sample_op T0 = Admitted sample_op run_digest"
    using assms by (simp add: resolveGrant_def)
  ultimately show ?thesis using assms
    by (simp add: operation_admitted_def e_admit_def fld_JObj obj_get_def has_own_def Let_def sample_admission_def)
qed

lemma apply_admit: "apply_event const_host (Some st_grant) e_admit = Inr st_admit"
proof -
  have "handle_event const_host st_grant e_admit = Inr (st_grant\<lparr>grants := [(''g1'', spend sample_grant (JStr ''edit''))],
      admissions := [(''op1'', sample_admission)]\<rparr>)"
    using admit_step [of st_grant, unfolded e_admit_def]
    by (simp add: handle_event_def e_admit_def reduceDelegationEvent_def Let_def
        st_grant_def st_candidate_def st_start_def note_event_def)
  moreover have "event_guards st_grant e_admit = Inr st_grant"
    by (simp add: e_admit_def eval_guards fld_JObj obj_get_def st_grant_def st_candidate_def st_start_def)
  ultimately show ?thesis
    by (simp add: apply_event_def) (simp add: e_admit_def settle_def drop_stale_def Let_def note_event_def st_admit_def st_grant_def
        st_candidate_def st_start_def coal_def)
qed

lemma sample_run:
  "reduceRun const_host [e_start] = Inr (Some st_start)"
  "reduceRun const_host [e_start, e_candidate, e_grant] = Inr (Some st_grant)"
  "reduceRun const_host [e_start, e_candidate, e_grant, e_admit] = Inr (Some st_admit)"
  using apply_start apply_candidate apply_grant apply_admit
  by (simp_all add: reduceRun_def e_start_def e_candidate_def e_grant_def e_admit_def reduce_sample)

end
