(* ===== verification/RunProps.thy ===== *)
theory RunProps
  imports SampleRun
begin

text \<open>
  The properties of the run reducer on every log it accepts: replay and the hash chain, the
  refinement of the abstract control machine, what is final, the budgets and scopes of
  delegation, and what the end of a run requires.
\<close>

lemma for_fold_snoc: "for_fold f s xs = Inr t \<Longrightarrow> for_fold f s (xs @ [x]) = f t x"
  by (cases "f t x") (simp_all add: for_fold_append)

section \<open>Events a log has seen\<close>

abbreviation event_id :: "js \<Rightarrow> string" where
  "event_id e \<equiv> str_of (fld e ''id'')"

text \<open>An event that passes the record checks at the top of the loop.\<close>

definition valid_event :: "host \<Rightarrow> js \<Rightarrow> bool" where
  "valid_event h e \<longleftrightarrow> requireDeliveryRecord h e ''run-event'' = Inr e \<and> is_text (fld e ''id'') \<and> is_text (fld e ''runId'')
     \<and> is_instant h (fld e ''timestamp'')"

lemma requireDeliveryRecord_same: "requireDeliveryRecord h e ty = Inr r \<Longrightarrow> r = e"
  by (simp add: requireDeliveryRecord_Inr)

lemma reduce_event_valid: "reduce_event h lg e = Inr lg' \<Longrightarrow> valid_event h e"
  by (cases lg) (auto simp: reduce_event_def valid_event_def if_Inl_Inr dest: requireDeliveryRecord_same)

lemma reduce_valid_event:
  assumes "valid_event h e"
  shows "reduce_event h (so, seen) e = (case map_of seen (event_id e) of
      Some d \<Rightarrow> if \<not> js_eq d (fld e ''digest'') then fail ''Conflicting duplicate event'' else Inr (so, seen)
    | None \<Rightarrow> bnd (apply_event h so e) (\<lambda>st'. Inr (Some st', (event_id e, fld e ''digest'') # seen)))"
  using assms by (simp add: reduce_event_def valid_event_def requireText_def)

lemma valid_event_digest: "valid_event h e \<Longrightarrow> \<exists>d. fld e ''digest'' = JStr d"
  by (auto simp: valid_event_def requireDeliveryRecord_Inr dest: hasCurrentDigest_fld)

lemma seen_events:
  assumes "for_fold (reduce_event h) (None, []) es = Inr (so, seen)"
  shows "fst ` set seen = event_id ` set es" and "e \<in> set es \<Longrightarrow> valid_event h e \<and> map_of seen (event_id e) = Some (fld e ''digest'')"
  using assms
proof (induction es arbitrary: so seen rule: rev_induct)
  case Nil
  { case 1 then show ?case by simp next case 2 then show ?case by simp }
next
  case (snoc x es)
  have step: "\<exists>so1 seen1. for_fold (reduce_event h) (None, []) es = Inr (so1, seen1) \<and> reduce_event h (so1, seen1) x = Inr (so, seen)"
    if "for_fold (reduce_event h) (None, []) (es @ [x]) = Inr (so, seen)" for so seen
    using that by (auto simp: for_fold_append)
  { case 1
    from step [OF 1] obtain so1 seen1 where s: "for_fold (reduce_event h) (None, []) es = Inr (so1, seen1)"
      "reduce_event h (so1, seen1) x = Inr (so, seen)" by blast
    from s(2) show ?case
    proof (cases rule: reduce_event_cases)
      case (duplicate d)
      then have "event_id x \<in> fst ` set seen1" by (metis domI dom_map_of_conv_image_fst)
      with duplicate snoc.IH(1) [OF s(1)] show ?thesis by auto
    next
      case (new st')
      with snoc.IH(1) [OF s(1)] show ?thesis by simp
    qed
  next
    case 2
    from step [OF 2(2)] obtain so1 seen1 where s: "for_fold (reduce_event h) (None, []) es = Inr (so1, seen1)"
      "reduce_event h (so1, seen1) x = Inr (so, seen)" by blast
    have vx: "valid_event h x" using s(2) by (rule reduce_event_valid)
    from s(2) show ?case
    proof (cases rule: reduce_event_cases)
      case (duplicate d)
      then have "d = fld x ''digest''" by (simp add: js_eq_imp_eq)
      with duplicate snoc.IH(2) [OF _ s(1)] vx 2(1) show ?thesis by auto
    next
      case (new st')
      with snoc.IH(2) [OF _ s(1)] vx 2(1) show ?thesis by auto
    qed
  }
qed

lemma revision_is_digest:
  assumes "for_fold (reduce_event h) (None, []) es = Inr (Some st, seen)"
  shows "\<exists>d. revision st = JStr d"
proof -
  let ?P = "\<lambda>lg. case fst lg of None \<Rightarrow> True | Some st \<Rightarrow> \<exists>d. revision st = JStr d"
  have "?P (Some st, seen)"
    using assms
  proof (rule for_fold_invariant)
    fix lg e lg' assume p: "?P lg" and r: "reduce_event h lg e = Inr lg'"
    obtain so sn where lg: "lg = (so, sn)" by (cases lg)
    from r [unfolded lg] show "?P lg'"
    proof (cases rule: reduce_event_cases)
      case (duplicate d)
      with p lg show ?thesis by simp
    next
      case (new st')
      have "revision st' = fld e ''digest''" using new(2) by (auto simp: apply_event_def if_Inl_Inr settle_parts)
      with new(3) valid_event_digest [OF reduce_event_valid [OF r]] show ?thesis by simp
    qed
  qed simp
  then show ?thesis by simp
qed

section \<open>Replay\<close>

text \<open>
  C28. Replay is idempotent: an event a log already holds may be delivered again anywhere later
  without any effect on the run.
\<close>

theorem duplicate_events_ignored:
  assumes "reduceRun h es = Inr so" and "e \<in> set es"
  shows "reduceRun h (es @ e # fs) = reduceRun h (es @ fs)"
proof -
  from assms(1) obtain seen where s: "for_fold (reduce_event h) (None, []) es = Inr (so, seen)"
    by (auto simp: reduceRun_log)
  from seen_events(2) [OF s assms(2)] valid_event_digest [of h e]
  have "reduce_event h (so, seen) e = Inr (so, seen)" by (auto simp: reduce_valid_event)
  then show ?thesis by (simp add: reduceRun_def for_fold_append s)
qed

theorem duplicate_events_ignored_witness:
  "reduceRun const_host ([e_start, e_candidate, e_grant] @ e_candidate # [e_admit]) = Inr (Some st_admit)"
  using duplicate_events_ignored [OF sample_run(2), of e_candidate "[e_admit]"] sample_run(3) by simp

text \<open>
  C29. A second event with the identity of an earlier one but another digest is refused, whatever
  follows it: history cannot be rewritten under an old identity.
\<close>

theorem conflicting_duplicate_refused:
  assumes "reduceRun h es = Inr so" and "e \<in> set es" and "valid_event h e'"
    and "fld e' ''id'' = fld e ''id''" and "fld e' ''digest'' \<noteq> fld e ''digest''"
  shows "reduceRun h (es @ e' # fs) = fail ''Conflicting duplicate event''"
proof -
  from assms(1) obtain seen where s: "for_fold (reduce_event h) (None, []) es = Inr (so, seen)"
    by (auto simp: reduceRun_log)
  have "reduce_event h (so, seen) e' = fail ''Conflicting duplicate event''"
    using seen_events(2) [OF s assms(2)] assms(3-5) by (auto simp: reduce_valid_event dest: js_eq_imp_eq)
  then show ?thesis by (simp add: reduceRun_def for_fold_append s)
qed

text \<open>Two start events with the same identity and different digests, under a host that tells them apart.\<close>

definition start_fields :: "nat \<Rightarrow> (string \<times> js) list" where
  "start_fields g = [(''runId'', JStr ''run-1''), (''id'', JStr ''e1''), (''previousDigest'', JNull), (''generation'', JNat g),
     (''kind'', JStr ''started''), (''payload'', JObj [(''profile'', JStr ''standard''), (''boundary'', JStr ''open-pr''),
     (''goalRef'', JStr ''goal''), (''owner'', JStr ''own'')]), (''timestamp'', T0)]"

definition two_host :: host where
  "two_host = const_host\<lparr>sha256 := (\<lambda>s. replicate 64 (if s = stable_text const_host (JObj (digest_payload (JObj (obj_set (obj_set
     (start_fields 7) ''version'' (JNat 1)) ''type'' (JStr ''run-event''))))) then CHR ''b'' else CHR ''a''))\<rparr>"

definition start_of :: "nat \<Rightarrow> js" where
  "start_of g = JObj (sealDeliveryRecord two_host ''run-event'' (start_fields g))"

lemma two_host_hex: "is_hex64 (sha256 two_host s)"
  by (simp add: two_host_def is_hex64_def list_all_iff is_hex_def)

lemma start_of_flds:
  "fld (start_of g) ''id'' = JStr ''e1''" "fld (start_of g) ''runId'' = JStr ''run-1''" "fld (start_of g) ''timestamp'' = T0"
  "fld (start_of g) ''generation'' = JNat g" "fld (start_of g) ''kind'' = JStr ''started''" "fld (start_of g) ''previousDigest'' = JNull"
  "fld (start_of g) ''payload'' = JObj [(''profile'', JStr ''standard''), (''boundary'', JStr ''open-pr''), (''goalRef'', JStr ''goal''), (''owner'', JStr ''own'')]"
  by (simp_all add: start_of_def fld_seal_other) (simp_all add: start_fields_def fld_JObj obj_get_def)

lemma start_of_valid: "valid_event two_host (start_of g)"
proof -
  have eq: "legacy_date two_host = legacy_date const_host" by (simp add: two_host_def)
  have "date_parse two_host T0 = date_parse const_host T0" unfolding date_parse_def eq js_string.simps ..
  then show ?thesis
    using seal_accepted [OF two_host_hex, of "''run-event''" "start_fields g"]
    by (simp add: valid_event_def start_of_flds is_instant_def T0_value is_text_def js_trim_def is_space_def) (simp add: start_of_def)
qed

lemmas eval_text = start_fields_def digest_payload_def own_props_def coal_def obj_del_def stable_text_def json_num_def num_str_def
  int_str_def nat_str.simps digit_char_def

lemma start_texts:
  "stable_text h (JObj (digest_payload (JObj (obj_set (obj_set (start_fields 7) ''version'' (JNat 1)) ''type'' (JStr ''run-event'')))))
    = stable_text h' (JObj (digest_payload (JObj (obj_set (obj_set (start_fields 7) ''version'' (JNat 1)) ''type'' (JStr ''run-event'')))))"
  "stable_text h (JObj (digest_payload (JObj (obj_set (obj_set (start_fields 0) ''version'' (JNat 1)) ''type'' (JStr ''run-event'')))))
    \<noteq> stable_text h' (JObj (digest_payload (JObj (obj_set (obj_set (start_fields 7) ''version'' (JNat 1)) ''type'' (JStr ''run-event'')))))"
  by (simp_all add: eval_text)

lemma start_of_digest:
  "fld (start_of g) ''digest'' = JStr (sha256 two_host (stable_text two_host (JObj (digest_payload (JObj (obj_set (obj_set
     (start_fields g) ''version'' (JNat 1)) ''type'' (JStr ''run-event'')))))))"
  by (simp add: start_of_def sealDeliveryRecord_def Let_def fld_JObj obj_get_def recordDigest_def)

lemma start_of_digests: "fld (start_of 7) ''digest'' \<noteq> fld (start_of 0) ''digest''"
proof -
  have "sha256 two_host s = replicate 64 (if s = stable_text const_host (JObj (digest_payload (JObj (obj_set (obj_set
     (start_fields 7) ''version'' (JNat 1)) ''type'' (JStr ''run-event''))))) then CHR ''b'' else CHR ''a'')" for s
    by (simp add: two_host_def)
  then show ?thesis using start_texts [of two_host const_host]
    by (simp add: start_of_digest numeral_eq_Suc)
qed

theorem conflicting_duplicate_refused_witness:
  "reduceRun two_host ([start_of 0] @ start_of 7 # []) = fail ''Conflicting duplicate event''"
proof -
  have "\<exists>st. apply_event two_host None (start_of 0) = Inr st"
    by (simp add: apply_event_def start_run_def start_of_flds eval_js boundaryOrder_def requireText_def Let_def)
  then obtain so where "reduceRun two_host [start_of 0] = Inr so"
    by (auto simp: reduceRun_def reduce_valid_event [OF start_of_valid])
  then show ?thesis
    by (rule conflicting_duplicate_refused [where e = "start_of 0"]) (simp_all add: start_of_valid start_of_flds start_of_digests)
qed

lemma apply_event_revision:
  assumes "apply_event h so e = Inr st'"
  shows "revision st' = fld e ''digest''"
    and "fld e ''previousDigest'' = (case so of None \<Rightarrow> JNull | Some st \<Rightarrow> coal (revision st) JNull)"
proof -
  show "revision st' = fld e ''digest''" using assms by (auto simp: apply_event_def if_Inl_Inr settle_parts)
  show "fld e ''previousDigest'' = (case so of None \<Rightarrow> JNull | Some st \<Rightarrow> coal (revision st) JNull)"
    using assms by (auto simp: apply_event_def if_Inl_Inr dest: js_eq_imp_eq)
qed

text \<open>
  C33. The events of an accepted log form a hash chain: without redeliveries, every event names
  the digest of the event before it, the first names \<open>null\<close>, and the revision of the run is the
  digest of the last event.
\<close>

theorem hash_chain:
  assumes "reduceRun h es = Inr so" and "distinct (map event_id es)"
  shows "(\<forall>i. i < length es \<longrightarrow> fld (es ! i) ''previousDigest'' = (if i = 0 then JNull else fld (es ! (i - 1)) ''digest''))
    \<and> (case so of None \<Rightarrow> es = [] | Some st \<Rightarrow> es \<noteq> [] \<and> revision st = fld (last es) ''digest'')"
  using assms
proof (induction es arbitrary: so rule: rev_induct)
  case Nil
  then show ?case by (simp add: reduceRun_def)
next
  case (snoc x es)
  from snoc.prems(1) obtain seen2 where "for_fold (reduce_event h) (None, []) (es @ [x]) = Inr (so, seen2)"
    by (auto simp: reduceRun_log)
  then obtain so1 seen1 where s: "for_fold (reduce_event h) (None, []) es = Inr (so1, seen1)"
    "reduce_event h (so1, seen1) x = Inr (so, seen2)" by (auto simp: for_fold_append)
  have "reduceRun h es = Inr so1" using s(1) by (auto simp: reduceRun_log)
  with snoc.IH snoc.prems(2) have IH: "\<forall>i. i < length es \<longrightarrow> fld (es ! i) ''previousDigest'' = (if i = 0 then JNull else fld (es ! (i - 1)) ''digest'')"
    "case so1 of None \<Rightarrow> es = [] | Some st \<Rightarrow> es \<noteq> [] \<and> revision st = fld (last es) ''digest''" by simp_all
  have "map_of seen1 (event_id x) = None"
    using seen_events(1) [OF s(1)] snoc.prems(2) by (simp add: map_of_eq_None_iff)
  with s(2) obtain st' where st': "apply_event h so1 x = Inr st'" "so = Some st'"
    by (auto elim!: reduce_event_cases)
  note R = apply_event_revision [OF st'(1)]
  have prev: "fld x ''previousDigest'' = (if es = [] then JNull else fld (last es) ''digest'')"
  proof (cases so1)
    case None
    with IH(2) R(2) show ?thesis by simp
  next
    case (Some st)
    with IH(2) have "es \<noteq> []" "revision st = fld (last es) ''digest''" by simp_all
    moreover have "valid_event h (last es)" using seen_events(2) [OF s(1)] \<open>es \<noteq> []\<close> by simp
    ultimately show ?thesis using R(2) Some valid_event_digest [of h "last es"] by (auto simp: coal_def)
  qed
  show ?case using IH(1) prev R(1) st'(2)
    by (auto simp: nth_append last_conv_nth less_Suc_eq)
qed

theorem hash_chain_witness:
  "fld e_candidate ''previousDigest'' = fld e_start ''digest'' \<and> revision st_grant = fld e_grant ''digest''"
  using hash_chain [OF sample_run(2)] by (auto simp: e_start_def e_candidate_def e_grant_def dest: spec [of _ 1])

section \<open>The control machine\<close>

text \<open>
  C1. Refinement: whatever event a run accepts next is either the redelivery of an old one, which
  leaves the run as it is, or one step of the abstract control machine on phase, status, writer
  generation, action boundary, open rework and pending operations.
\<close>

theorem run_refines_control:
  assumes "reduceRun h es = Inr (Some st)" and "reduceRun h (es @ [e]) = Inr (Some st')"
  shows "st' = st \<or> (\<exists>k. fld e ''kind'' = JStr k \<and> control_step k (control_of st) (control_of st'))"
  using assms
proof (cases rule: reduceRun_snoc)
  case duplicate
  then show ?thesis by simp
next
  case new
  with reduceRun_inv [OF assms(1)] apply_event_step show ?thesis by blast
qed

theorem run_refines_control_witness:
  "st_admit = st_grant \<or> (\<exists>k. fld e_admit ''kind'' = JStr k \<and> control_step k (control_of st_grant) (control_of st_admit))"
  by (rule run_refines_control [of const_host "[e_start, e_candidate, e_grant]"]) (simp_all add: sample_run)

text \<open>
  C34. Authority only shrinks and the record only grows: later in the same log a run keeps its
  identity, goal, profile and authority protocol, its writer generation never falls, its action
  boundary never widens, an assurance requirement is never lifted, and the history is extended.
\<close>

theorem run_authority_monotone:
  assumes "reduceRun h es = Inr (Some st)" and "reduceRun h (es @ fs) = Inr (Some st')"
  shows "identity_part st' = identity_part st \<and> generation st \<le> generation st'
    \<and> c_boundary (control_of st') \<le> c_boundary (control_of st)
    \<and> (oracleAssuranceRequired st \<longrightarrow> oracleAssuranceRequired st') \<and> (\<exists>ext. history st' = history st @ ext)"
  using reduceRun_le [OF assms] by (simp add: run_le_def)

theorem run_authority_monotone_witness:
  "identity_part st_admit = identity_part st_start \<and> generation st_start \<le> generation st_admit
     \<and> c_boundary (control_of st_admit) \<le> c_boundary (control_of st_start) \<and> (\<exists>ext. history st_admit = history st_start @ ext)"
  using run_authority_monotone [OF sample_run(1), of "[e_candidate, e_grant, e_admit]" st_admit] sample_run(3) by simp

text \<open>What is final in a terminal run, and the only event it still accepts.\<close>

definition final_part :: "run_state \<Rightarrow> run_status \<times> nat \<times> nat \<times> js \<times> js \<times> (string \<times> js) list \<times> js list" where
  "final_part st = (status st, phase st, generation st, boundary st, candidateDigest st, openRework st, observations st)"

definition issue_projection :: "js \<Rightarrow> bool" where
  "issue_projection e \<longleftrightarrow> fld e ''kind'' = JStr ''operation'' \<and> fld (fld e ''payload'') ''kind'' = JStr ''issue-projection''"

lemma final_part_settle: "final_part (settle st e) = final_part st"
  by (simp add: final_part_def settle_def drop_stale_def Let_def)

lemma terminal_step:
  assumes "terminal st" and "apply_event h (Some st) e = Inr st'"
  shows "final_part st' = final_part st \<and> delegation_part st' = delegation_part st \<and> issue_projection e"
proof -
  from assms(2) obtain st1 st2 where g: "event_guards st e = Inr st1" and hd: "handle_event h st1 e = Inr st2"
    and st': "st' = settle st2 e" by (auto simp: apply_event_def if_Inl_Inr)
  have proj: "issue_projection e"
    using g assms(1) by (auto simp: event_guards_def Let_def if_Inl_Inr dot_Inr issue_projection_def dest: js_eq_imp_eq)
  then have "st1 = st" using event_guards_operation [OF g] by (simp add: issue_projection_def)
  with proj hd obtain ops where "st2 = st\<lparr>operations := ops\<rparr>"
    using handle_event_operation [OF hd] by (auto simp: issue_projection_def)
  then show ?thesis using proj
    by (simp add: st' final_part_settle settle_parts) (simp add: final_part_def delegation_part_def)
qed

lemma reduceRun_last:
  assumes "reduceRun h (es @ [e]) = Inr (Some st')" and "reduceRun h es = Inr (Some st)"
  shows "event_id e \<in> event_id ` set es \<and> st' = st \<or> apply_event h (Some st) e = Inr st'"
proof -
  from assms(2) obtain seen where s: "for_fold (reduce_event h) (None, []) es = Inr (Some st, seen)" by (auto simp: reduceRun_log)
  with assms(1) obtain seen' where "reduce_event h (Some st, seen) e = Inr (Some st', seen')"
    by (auto simp: reduceRun_log for_fold_append)
  then show ?thesis
  proof (cases rule: reduce_event_cases)
    case (duplicate d)
    then have "event_id e \<in> fst ` set seen" by (metis domI dom_map_of_conv_image_fst)
    with duplicate seen_events(1) [OF s] show ?thesis by simp
  qed simp
qed

lemma reduceRun_init:
  assumes "reduceRun h (es @ fs) = Inr so"
  shows "\<exists>so1. reduceRun h es = Inr so1"
  using assms by (auto simp: reduceRun_log for_fold_append)

lemma reduceRun_grows:
  assumes "reduceRun h es = Inr (Some st)" and "reduceRun h (es @ fs) = Inr so"
  shows "\<exists>st'. so = Some st'"
  using assms runs.replay_le by (fastforce simp: reduceRun_log log_le_def split: option.split_asm)

text \<open>
  C26. A completed or cancelled run is final: whatever is appended to its log, its status, phase,
  writer generation, action boundary, candidate, open rework and observations, its grants,
  admissions and safety records stay as they are, and every appended event either redelivers an
  event identity of the log or comes with an operation event of kind \<open>issue-projection\<close>.
\<close>

theorem terminal_run_final:
  assumes "reduceRun h es = Inr (Some st)" and "terminal st" and "reduceRun h (es @ fs) = Inr (Some st')"
  shows "final_part st' = final_part st \<and> delegation_part st' = delegation_part st
    \<and> (\<forall>f \<in> set fs. event_id f \<in> event_id ` set es \<or> (\<exists>g \<in> set fs. event_id g = event_id f \<and> issue_projection g))"
  using assms(3)
proof (induction fs arbitrary: st' rule: rev_induct)
  case Nil
  with assms(1) show ?case by simp
next
  case (snoc x fs)
  from snoc.prems have p: "reduceRun h ((es @ fs) @ [x]) = Inr (Some st')" by simp
  from reduceRun_init [OF p] reduceRun_grows [OF assms(1)] obtain st1 where
    s1: "reduceRun h (es @ fs) = Inr (Some st1)" by blast
  note IH = snoc.IH [OF s1]
  then have t: "terminal st1" using assms(2) by (simp add: terminal_def final_part_def)
  from reduceRun_last [OF p s1] show ?case
  proof
    assume "event_id x \<in> event_id ` set (es @ fs) \<and> st' = st1"
    with IH show ?thesis by auto
  next
    assume "apply_event h (Some st1) x = Inr st'"
    from terminal_step [OF t this] IH show ?thesis by auto
  qed
qed

definition e_cancel :: js where
  "e_cancel = sample_event ''e5'' D ''cancelled'' (JObj [])"

definition st_cancel :: run_state where
  "st_cancel = note_event ''e5'' ''cancelled'' (st_start\<lparr>status := Cancelled\<rparr>)"

lemma sample_cancel: "reduceRun const_host [e_start, e_cancel] = Inr (Some st_cancel)"
proof -
  have "apply_event const_host (Some st_start) e_cancel = Inr st_cancel"
    by (simp add: apply_event_def e_cancel_def eval_guards cancelled_def pending_def fld_JObj obj_get_def
        inactive_kinds_def st_start_def st_cancel_def coal_def)
  with apply_start show ?thesis by (simp add: reduceRun_def e_start_def e_cancel_def reduce_sample)
qed

definition e_project :: js where
  "e_project = sample_event ''e6'' D ''operation'' (JObj [(''id'', JStr ''op9''), (''kind'', JStr ''issue-projection''),
     (''payloadDigest'', D), (''state'', JStr ''planned'')])"

lemma sample_projection:
  "\<exists>st. reduceRun const_host ([e_start, e_cancel] @ [e_project]) = Inr (Some st) \<and> operations st \<noteq> []"
proof -
  have flds: "status st_cancel = Cancelled" "operations st_cancel = []" "runId st_cancel = JStr ''run-1''" "generation st_cancel = 0"
      "revision st_cancel = D"
    by (simp_all add: st_cancel_def st_start_def note_event_def)
  have ev: "fld (fld e_project ''payload'') ''id'' = JStr ''op9''" "fld (fld e_project ''payload'') ''kind'' = JStr ''issue-projection''"
      "fld (fld e_project ''payload'') ''payloadDigest'' = D" "fld (fld e_project ''payload'') ''state'' = JStr ''planned''"
      "fld (fld e_project ''payload'') ''oracleAssuranceRequired'' = JUndef" "\<not> nullish (fld e_project ''payload'')"
      "fld e_project ''kind'' = JStr ''operation''" "fld e_project ''runId'' = JStr ''run-1''" "fld e_project ''generation'' = JNat 0"
      "fld e_project ''previousDigest'' = D"
    by (simp_all add: e_project_def fld_JObj obj_get_def proto_names_def)
  have "event_guards st_cancel e_project = Inr st_cancel"
    by (simp add: event_guards_def Let_def terminal_def flds ev dot_Inr one_of_def inactive_kinds_def)
  moreover have "operation_event const_host st_cancel e_project = Inr (st_cancel\<lparr>operations := [(''op9'',
      JObj (obj_spread (own_props JUndef) (own_props (fld e_project ''payload''))))]\<rparr>)"
    by (simp add: operation_event_def Let_def flds ev requireText_def is_text_def js_trim_def is_space_def obj_get_def proto_names_def)
  then have "handle_event const_host st_cancel e_project = Inr (st_cancel\<lparr>operations := [(''op9'',
      JObj (obj_spread (own_props JUndef) (own_props (fld e_project ''payload''))))]\<rparr>)"
    by (simp add: handle_event_def ev)
  ultimately have "\<exists>st. apply_event const_host (Some st_cancel) e_project = Inr st \<and> operations st \<noteq> []"
    by (simp add: apply_event_def flds ev coal_def settle_parts)
  then obtain st where st: "apply_event const_host (Some st_cancel) e_project = Inr st" "operations st \<noteq> []" by blast
  have "apply_event const_host (Some st_start) e_cancel = Inr st_cancel"
    by (simp add: apply_event_def e_cancel_def eval_guards cancelled_def pending_def fld_JObj obj_get_def
        inactive_kinds_def st_start_def st_cancel_def coal_def)
  with apply_start have c: "for_fold (reduce_event const_host) (None, []) [e_start, e_cancel] = Inr (Some st_cancel, [(''e5'', D), (''e1'', D)])"
    by (simp add: e_start_def e_cancel_def reduce_sample)
  have "reduce_event const_host (Some st_cancel, [(''e5'', D), (''e1'', D)]) e_project
      = Inr (Some st, [(''e6'', D), (''e5'', D), (''e1'', D)])"
    unfolding e_project_def
    by (subst reduce_sample) (use st(1) in \<open>simp_all add: e_project_def is_text_def js_trim_def is_space_def\<close>)
  with for_fold_snoc [OF c, of e_project] st(2) show ?thesis unfolding reduceRun_log by auto
qed

theorem terminal_run_final_witness:
  "\<exists>st. reduceRun const_host ([e_start, e_cancel] @ [e_project]) = Inr (Some st) \<and> operations st \<noteq> [] \<and> status st = Cancelled
     \<and> boundary st = JStr ''open-pr''"
proof -
  from sample_projection obtain st where st: "reduceRun const_host ([e_start, e_cancel] @ [e_project]) = Inr (Some st)"
    "operations st \<noteq> []" by blast
  have "terminal st_cancel" by (simp add: terminal_def st_cancel_def note_event_def)
  from terminal_run_final [OF sample_cancel this st(1)] have "final_part st = final_part st_cancel" by blast
  then have "status st = Cancelled" "boundary st = JStr ''open-pr''"
    by (simp_all add: final_part_def st_cancel_def note_event_def st_start_def)
  with st show ?thesis by blast
qed

lemma completing_step:
  assumes "apply_event h (Some st) e = Inr st'" and "run_inv h st" and "status st' = Completed" and "status st \<noteq> Completed"
  shows "fld e ''kind'' = JStr ''completed'' \<and> status st = Active \<and> phase st = 8 \<and> openRework st = [] \<and> \<not> pending st
    \<and> digest_test h (fld (fld e ''payload'') ''acceptanceDigest'')
    \<and> fld (fld e ''payload'') ''candidateDigest'' = candidateDigest st \<and> candidateDigest st' = candidateDigest st
    \<and> (oracleAssuranceRequired st \<longrightarrow> truthy (oracleRuntimeEvidence st) \<and> evidence_current st
      \<and> fld (oracleRuntimeEvidence st) ''manifestDigest'' = fld (fld (oraclePackage st) ''receipt'') ''manifestDigest'')"
proof -
  from assms(1) obtain st1 st2 where g: "event_guards st e = Inr st1" and hd: "handle_event h st1 e = Inr st2"
    and st': "st' = settle st2 e" by (auto simp: apply_event_def if_Inl_Inr)
  from apply_event_step [OF assms(2,1)] obtain k where k: "fld e ''kind'' = JStr k" "control_step k (control_of st) (control_of st')"
    by blast
  have kind: "fld e ''kind'' = JStr ''completed''"
    using control_step_mono(4) [OF k(2)] k(1) assms(3,4) by (auto simp: control_of_def)
  have "st1 = st" using g kind by (auto simp: event_guards_def Let_def if_Inl_Inr one_of_def)
  with handle_event_completed [OF hd kind] have c: "completed h st e = Inr st2" by simp
  then show ?thesis unfolding completed_def Let_def bnd_Inr if_Inl_Inr st' settle_parts
    using kind by (auto simp: requireDigest_def if_Inl_Inr dest: js_eq_imp_eq)
qed

lemma completion_found:
  assumes "reduceRun h es = Inr (Some st)" and "status st = Completed"
  shows "\<exists>pre e post st0 st1. es = pre @ e # post \<and> reduceRun h pre = Inr (Some st0) \<and> apply_event h (Some st0) e = Inr st1
    \<and> status st0 \<noteq> Completed \<and> status st1 = Completed \<and> candidateDigest st = candidateDigest st1"
  using assms
proof (induction es arbitrary: st rule: rev_induct)
  case Nil
  then show ?case by (simp add: reduceRun_def)
next
  case (snoc x es)
  from reduceRun_init [OF snoc.prems(1)] obtain so where so: "reduceRun h es = Inr so" by blast
  show ?case
  proof (cases so)
    case None
    with so snoc.prems have "\<exists>seen. apply_event h None x = Inr st"
      by (auto simp: reduceRun_log for_fold_append elim!: reduce_event_cases)
    with snoc.prems(2) show ?thesis by (auto simp: apply_event_def if_Inl_Inr settle_parts start_run_def Let_def)
  next
    case (Some st1)
    with so have r: "reduceRun h es = Inr (Some st1)" by simp
    have found: ?thesis if "status st1 = Completed" "candidateDigest st = candidateDigest st1"
    proof -
      from snoc.IH [OF r that(1)] obtain pre e post st0 st2 where "es = pre @ e # post" "reduceRun h pre = Inr (Some st0)"
        "apply_event h (Some st0) e = Inr st2" "status st0 \<noteq> Completed" "status st2 = Completed"
        "candidateDigest st1 = candidateDigest st2" by blast
      then show ?thesis using that(2)
        by (intro exI [of _ pre] exI [of _ e] exI [of _ "post @ [x]"] exI [of _ st0] exI [of _ st2]) simp
    qed
    from reduceRun_last [OF snoc.prems(1) r] show ?thesis
    proof
      assume "event_id x \<in> event_id ` set es \<and> st = st1"
      with snoc.prems(2) show ?thesis by (intro found) simp_all
    next
      assume a: "apply_event h (Some st1) x = Inr st"
      show ?thesis
      proof (cases "status st1 = Completed")
        case True
        with terminal_step [OF _ a] show ?thesis by (intro found) (simp_all add: terminal_def final_part_def)
      next
        case False
        then show ?thesis using a r snoc.prems(2)
          by (intro exI [of _ es] exI [of _ x] exI [of _ "[]"] exI [of _ st1] exI [of _ st]) simp
      qed
    qed
  qed
qed

text \<open>
  C27. A completed run was complete: some event of its log is the completion, and the run before
  that event was active, in the last phase, without open rework and without pending operations;
  the event carries a final acceptance digest and names the run's candidate, which is still its
  candidate now, and when oracle assurance was required the run held runtime evidence for its
  current candidate, oracle, writer generation and revocation epoch and for the manifest of its
  oracle package. The completed run itself is in the last phase, has no open rework and, when
  assurance is required, holds current evidence.
\<close>

theorem completed_run_sound:
  assumes "reduceRun h es = Inr (Some st)" and "status st = Completed"
  shows "(\<exists>pre e post st0. es = pre @ e # post \<and> reduceRun h pre = Inr (Some st0)
      \<and> fld e ''kind'' = JStr ''completed'' \<and> status st0 = Active \<and> phase st0 = 8 \<and> openRework st0 = [] \<and> \<not> pending st0
      \<and> digest_test h (fld (fld e ''payload'') ''acceptanceDigest'')
      \<and> fld (fld e ''payload'') ''candidateDigest'' = candidateDigest st0 \<and> candidateDigest st = candidateDigest st0
      \<and> (oracleAssuranceRequired st0 \<longrightarrow> truthy (oracleRuntimeEvidence st0) \<and> evidence_current st0
        \<and> fld (oracleRuntimeEvidence st0) ''manifestDigest'' = fld (fld (oraclePackage st0) ''receipt'') ''manifestDigest''))
    \<and> phase st = 8 \<and> openRework st = []
    \<and> (oracleAssuranceRequired st \<longrightarrow> truthy (oracleRuntimeEvidence st) \<and> evidence_current st)"
proof -
  from completion_found [OF assms] obtain pre e post st0 st1 where es: "es = pre @ e # post" and r: "reduceRun h pre = Inr (Some st0)"
    and a: "apply_event h (Some st0) e = Inr st1" and s: "status st0 \<noteq> Completed" "status st1 = Completed"
    and c: "candidateDigest st = candidateDigest st1" by blast
  note C = completing_step [OF a reduceRun_inv [OF r] s(2,1)]
  moreover have "phase st = 8 \<and> openRework st = []
      \<and> (oracleAssuranceRequired st \<longrightarrow> truthy (oracleRuntimeEvidence st) \<and> evidence_current st)"
    using reduceRun_inv [OF assms(1)] assms(2) by (simp add: run_inv_def)
  ultimately show ?thesis using es r c by (intro conjI exI [of _ pre] exI [of _ e] exI [of _ post] exI [of _ st0]) auto
qed

text \<open>A run that advances through all phases: \<open>adv n\<close> moves from phase \<open>n\<close> to the next.\<close>

definition adv_id :: "nat \<Rightarrow> string" where
  "adv_id n = replicate (Suc n) (CHR ''x'')"

definition adv :: "nat \<Rightarrow> js" where
  "adv n = sample_event (adv_id n) D ''advanced'' (JObj [(''from'', JNat n), (''to'', JNat (n + 1)), (''acceptanceDigest'', D),
     (''candidateDigest'', JNull)])"

definition e_done :: js where
  "e_done = sample_event ''e5'' D ''completed'' (JObj [(''acceptanceDigest'', D), (''candidateDigest'', JNull)])"

definition plain_active :: "nat \<Rightarrow> run_state \<Rightarrow> bool" where
  "plain_active n st \<longleftrightarrow> phase st = n \<and> status st = Active \<and> openRework st = [] \<and> operations st = [] \<and> candidateDigest st = JNull
     \<and> revision st = D \<and> runId st = JStr ''run-1'' \<and> generation st = 0 \<and> authorityProtocol st = JStr ''legacy''
     \<and> \<not> oracleAssuranceRequired st \<and> oracleRuntimeEvidence st = JUndef \<and> oraclePackage st = JUndef \<and> oracleCustody st = JUndef"

lemma adv_step:
  assumes "plain_active n st" and "n < 8"
  shows "\<exists>st'. apply_event const_host (Some st) (adv n) = Inr st' \<and> plain_active (Suc n) st'"
  using assms
  by (simp add: plain_active_def apply_event_def adv_def eval_guards advanced_def pending_def requireDigest_def fld_JObj obj_get_def
      proto_names_def coal_def)

lemma adv_run:
  "n \<le> 8 \<Longrightarrow> \<exists>st seen. for_fold (reduce_event const_host) (None, []) (e_start # map adv [0..<n]) = Inr (Some st, seen)
     \<and> plain_active n st \<and> (\<forall>k\<in>fst ` set seen. k = ''e1'' \<or> (\<exists>i<n. k = adv_id i))"
proof (induction n)
  case 0
  have "reduce_event const_host (None, []) e_start = Inr (Some st_start, [(''e1'', D)])"
    using apply_start by (simp add: e_start_def reduce_sample)
  then show ?case by (simp add: plain_active_def st_start_def)
next
  case (Suc n)
  then obtain st seen where s: "for_fold (reduce_event const_host) (None, []) (e_start # map adv [0..<n]) = Inr (Some st, seen)"
    "plain_active n st" "\<forall>k\<in>fst ` set seen. k = ''e1'' \<or> (\<exists>i<n. k = adv_id i)" by auto
  from adv_step [OF s(2)] Suc.prems obtain st' where st': "apply_event const_host (Some st) (adv n) = Inr st'" "plain_active (Suc n) st'"
    by auto
  have "adv_id n \<notin> fst ` set seen" using s(3) by (fastforce simp: adv_id_def)
  moreover have "is_text (JStr (adv_id n))" by (simp add: is_text_def js_trim_empty adv_id_def is_space_def)
  ultimately have "reduce_event const_host (Some st, seen) (adv n) = Inr (Some st', (adv_id n, D) # seen)"
    using st'(1) unfolding adv_def by (simp add: reduce_sample map_of_eq_None_iff)
  then have "for_fold (reduce_event const_host) (None, []) (e_start # map adv [0..<Suc n]) = Inr (Some st', (adv_id n, D) # seen)"
    using for_fold_snoc [OF s(1), of "adv n"] by simp
  moreover have "\<forall>k\<in>fst ` set ((adv_id n, D) # seen). k = ''e1'' \<or> (\<exists>i<Suc n. k = adv_id i)"
    using s(3) by (auto simp: less_Suc_eq)
  ultimately show ?case using st'(2) by blast
qed

lemma completed_sample: "\<exists>st. reduceRun const_host ((e_start # map adv [0..<8]) @ [e_done]) = Inr (Some st) \<and> status st = Completed"
proof -
  from adv_run [of 8] obtain st seen where s: "for_fold (reduce_event const_host) (None, []) (e_start # map adv [0..<8]) = Inr (Some st, seen)"
    "plain_active 8 st" "\<forall>k\<in>fst ` set seen. k = ''e1'' \<or> (\<exists>i<8. k = adv_id i)" by auto
  have "''e5'' \<notin> fst ` set seen" using s(3) by (fastforce simp: adv_id_def)
  moreover have "\<exists>st'. apply_event const_host (Some st) e_done = Inr st' \<and> status st' = Completed"
    using s(2) by (simp add: plain_active_def apply_event_def e_done_def eval_guards completed_def pending_def requireDigest_def
        fld_JObj obj_get_def proto_names_def coal_def)
  ultimately have "\<exists>st' seen'. reduce_event const_host (Some st, seen) e_done = Inr (Some st', seen') \<and> status st' = Completed"
    unfolding e_done_def by (auto simp: reduce_sample map_of_eq_None_iff)
  then obtain st' seen' where "reduce_event const_host (Some st, seen) e_done = Inr (Some st', seen')" "status st' = Completed" by blast
  then show ?thesis using for_fold_snoc [OF s(1), of e_done] unfolding reduceRun_log by metis
qed

theorem completed_run_sound_witness:
  "\<exists>st. reduceRun const_host ((e_start # map adv [0..<8]) @ [e_done]) = Inr (Some st) \<and> status st = Completed \<and> phase st = 8
     \<and> (\<exists>e \<in> set ((e_start # map adv [0..<8]) @ [e_done]). fld e ''kind'' = JStr ''completed''
       \<and> fld (fld e ''payload'') ''candidateDigest'' = candidateDigest st)"
proof -
  from completed_sample obtain st where st: "reduceRun const_host ((e_start # map adv [0..<8]) @ [e_done]) = Inr (Some st)"
    "status st = Completed" by blast
  from completed_run_sound [OF this] obtain pre e post where "(e_start # map adv [0..<8]) @ [e_done] = pre @ e # post"
    "fld e ''kind'' = JStr ''completed''" "fld (fld e ''payload'') ''candidateDigest'' = candidateDigest st" "phase st = 8"
    by auto
  with st show ?thesis by (intro exI [of _ st] conjI bexI [of _ e]) simp_all
qed

section \<open>Delegation over whole runs\<close>

text \<open>
  C2. The budget of a run's delegation: on every accepted log and for both counters, no grant has
  used and reserved more than its limit, what it reserved is the sum of the limits of its
  children, and all grants together have used at most what the grants without a parent allow.
\<close>

theorem delegation_budget:
  assumes "reduceRun h es = Inr (Some st)" and "c \<in> set counters"
  shows "total_used c (grants st) \<le> root_limits c (grants st)
    \<and> (\<forall>k g. map_of (grants st) k = Some g \<longrightarrow> used c g + reserved c g \<le> limit c g
         \<and> reserved c g = child_limits c (grants st) k)"
proof -
  have ok: "grants_ok (grants st)" using reduceRun_inv [OF assms(1)] by (simp add: run_inv_def books_ok_def)
  have "used c g + reserved c g \<le> limit c g \<and> reserved c g = child_limits c (grants st) k"
    if "map_of (grants st) k = Some g" for k g
    using grants_okD(3) [OF ok that assms(2)] unfolding balanced_def by simp
  with total_used_le_roots [OF ok assms(2)] show ?thesis by blast
qed

theorem delegation_budget_witness:
  "total_used (attempts, ''maxAttempts'') (grants st_admit) \<le> root_limits (attempts, ''maxAttempts'') (grants st_admit)"
  using delegation_budget [OF sample_run(3), of "(attempts, ''maxAttempts'')"] by (simp add: counters_def)

text \<open>
  Admissions are counted: the number of operations a run has admitted is the number of
  attempts its grants have used, so it never exceeds the attempts the root grants allow.
\<close>

theorem admissions_bounded:
  assumes "reduceRun h es = Inr (Some st)"
  shows "int (length (admissions st)) = total_used (attempts, ''maxAttempts'') (grants st)
    \<and> int (length (admissions st)) \<le> root_limits (attempts, ''maxAttempts'') (grants st)"
proof -
  have ok: "books_ok st" using reduceRun_inv [OF assms] by (simp add: run_inv_def)
  then have "total_used (attempts, ''maxAttempts'') (grants st) \<le> root_limits (attempts, ''maxAttempts'') (grants st)"
    by (intro total_used_le_roots) (simp_all add: books_ok_def counters_def)
  with ok show ?thesis by (simp add: books_ok_def)
qed

theorem admissions_bounded_witness:
  "int (length (admissions st_admit)) = 1 \<and> 1 \<le> root_limits (attempts, ''maxAttempts'') (grants st_admit)"
  using admissions_bounded [OF sample_run(3)] by (simp add: st_admit_def note_event_def)

text \<open>
  C3. Admission respects the whole chain of delegation: when a run accepts a new admission, its
  grant exists, and that grant and each of its ancestors is active and unexpired at that moment,
  allows the action, and covers every path; the operation is about the current candidate, with a
  passing review of it and a passing run of every required check on it.
\<close>

theorem admitted_operation_in_scope:
  assumes "reduceRun h es = Inr (Some st)" and "reduceRun h (es @ [e]) = Inr (Some st')" and "st' \<noteq> st"
    and "fld e ''kind'' = JStr ''operation-admitted''"
    and "p = fld e ''payload''" and "gid = js_string h (fld p ''grantId'')" and "op = fld p ''operation''"
  shows "\<exists>g. map_of (grants st) gid = Some g
    \<and> (\<forall>a. ancestor (grants st) gid a \<longrightarrow> g_active a \<and> unexpired h a (fld e ''timestamp'')
         \<and> fld op ''action'' \<in> set (elems (fld (binding a) ''allowedActions''))
         \<and> (\<forall>path \<in> set (elems (fld op ''paths'')). pathMatches path (elems (fld (binding a) ''allowedPaths''))))
    \<and> fld op ''candidateDigest'' = candidateDigest st \<and> fld (fld op ''review'') ''outcome'' = JStr ''pass''
    \<and> (\<forall>name \<in> set (elems (fld (binding g) ''requiredChecks'')). \<exists>c \<in> set (elems (fld op ''checks'')).
         fld c ''name'' = name \<and> fld c ''outcome'' = JStr ''pass'' \<and> fld c ''candidateDigest'' = candidateDigest st)"
proof -
  have inv: "run_inv h st" using assms(1) by (rule reduceRun_inv)
  have "apply_event h (Some st) e = Inr st'" by (rule reduceRun_snoc [OF assms(1,2)]) (use assms(3) in auto)
  then obtain st1 st2 where g: "event_guards st e = Inr st1" and hd: "handle_event h st1 e = Inr st2"
    by (auto simp: apply_event_def if_Inl_Inr)
  have "st1 = st" using g assms(4) by (auto simp: event_guards_def Let_def if_Inl_Inr one_of_def)
  with hd assms(4) have adm: "operation_admitted h st e = Inr st2" by (auto simp: handle_event_def reduceDelegationEvent_def)
  from adm assms(5-7) obtain g d r where g: "map_of (grants st) gid = Some g"
    and r: "resolve_checks h (envelope g) st op (fld e ''timestamp'') = Inr r"
    by (rule operation_admitted_E)
  have ok: "grants_ok (grants st)" and sc: "scopes_ok h st" using inv by (simp_all add: run_inv_def books_ok_def)
  have "fld (envelope g) ''id'' = JStr gid" using grants_okD(1) [OF ok g] .
  then have scope: "in_scope h st (binding g) op = Inr ()" using resolve_checks_Inr(1) [OF r] g by simp
  note S = in_scope_Inr [OF scope]
  have "g_active a \<and> unexpired h a (fld e ''timestamp'') \<and> fld op ''action'' \<in> set (elems (fld (binding a) ''allowedActions''))
      \<and> (\<forall>path \<in> set (elems (fld op ''paths'')). pathMatches path (elems (fld (binding a) ''allowedPaths'')))"
    if "ancestor (grants st) gid a" for a
    using admitted_grant_active [OF ok g r that] ancestor_scope [OF that sc g] S(1,2) by blast
  moreover have "\<exists>c \<in> set (elems (fld op ''checks'')). fld c ''name'' = name \<and> fld c ''outcome'' = JStr ''pass''
      \<and> fld c ''candidateDigest'' = candidateDigest st" if "name \<in> set (elems (fld (binding g) ''requiredChecks''))" for name
    using check_missing_False [OF S(4) that] S(3) by simp
  ultimately show ?thesis using g S(3,5) by auto
qed

lemma admit_differs: "st_admit \<noteq> st_grant"
proof -
  have "admissions st_admit \<noteq> admissions st_grant"
    by (simp add: st_admit_def st_grant_def st_candidate_def st_start_def note_event_def)
  then show ?thesis by auto
qed

theorem admitted_operation_in_scope_witness:
  "\<exists>g. map_of (grants st_grant) ''g1'' = Some g \<and> (\<forall>a. ancestor (grants st_grant) ''g1'' a \<longrightarrow> g_active a)"
proof -
  have "fld e_admit ''kind'' = JStr ''operation-admitted''" "js_string const_host (fld (fld e_admit ''payload'') ''grantId'') = ''g1''"
    by (simp_all add: e_admit_def fld_JObj obj_get_def)
  with admitted_operation_in_scope [OF sample_run(2) _ admit_differs, of e_admit, OF _ _ refl refl refl] sample_run(3)
  show ?thesis by (simp del: map_of.simps) blast
qed

text \<open>
  Revocation is final: a grant that is revoked in a run stays in it, with the same envelope,
  stays revoked, and never spends again.
\<close>

theorem revocation_final:
  assumes "reduceRun h es = Inr (Some st)" and "map_of (grants st) k = Some g" and "\<not> g_active g"
    and "reduceRun h (es @ fs) = Inr (Some st')"
  shows "\<exists>g'. map_of (grants st') k = Some g' \<and> envelope g' = envelope g \<and> \<not> g_active g' \<and> budgetUsed g' = budgetUsed g"
  using reduceRun_le [OF assms(1,4)] assms(2,3) unfolding run_le_def deleg_le_def grants_le_def grant_le_def by blast

definition e_revoke :: js where
  "e_revoke = sample_event ''e5'' D ''grant-revoked'' (JObj [(''id'', JStr ''g1''), (''reason'', JStr ''stop'')])"

lemma revoke_step: "\<exists>st. reduceRun const_host ([e_start, e_candidate, e_grant] @ [e_revoke]) = Inr (Some st)
    \<and> map_of (grants st) ''g1'' = Some (sample_grant\<lparr>g_active := False, g_revocationEpoch := 1\<rparr>)"
proof -
  have "event_guards st_grant e_revoke = Inr st_grant"
    by (simp add: e_revoke_def eval_guards fld_JObj obj_get_def st_grant_def st_candidate_def st_start_def)
  moreover have "\<exists>st2. handle_event const_host st_grant e_revoke = Inr st2
      \<and> map_of (grants st2) ''g1'' = Some (sample_grant\<lparr>g_active := False, g_revocationEpoch := 1\<rparr>)"
    by (simp add: handle_event_def e_revoke_def reduceDelegationEvent_def grant_revoked_def fld_JObj obj_get_def chk_text_def
        is_text_def js_trim_def is_space_def st_grant_def st_candidate_def st_start_def note_event_def sample_grant_def Let_def)
  moreover have "revision st_grant = D" by (simp add: st_grant_def st_candidate_def st_start_def note_event_def)
  ultimately have "\<exists>st. apply_event const_host (Some st_grant) e_revoke = Inr st
      \<and> map_of (grants st) ''g1'' = Some (sample_grant\<lparr>g_active := False, g_revocationEpoch := 1\<rparr>)"
    using settle_parts(1) by (fastforce simp: apply_event_def e_revoke_def coal_def delegation_part_def)
  then obtain st where a: "apply_event const_host (Some st_grant) e_revoke = Inr st"
    and g: "map_of (grants st) ''g1'' = Some (sample_grant\<lparr>g_active := False, g_revocationEpoch := 1\<rparr>)" by blast
  have "for_fold (reduce_event const_host) (None, []) [e_start, e_candidate, e_grant] = Inr (Some st_grant, [(''e3'', D), (''e2'', D), (''e1'', D)])"
    using apply_start apply_candidate apply_grant by (simp add: e_start_def e_candidate_def e_grant_def reduce_sample)
  from for_fold_snoc [OF this, of e_revoke] a have "reduceRun const_host ([e_start, e_candidate, e_grant] @ [e_revoke]) = Inr (Some st)"
    by (simp add: reduceRun_def) (simp add: e_revoke_def reduce_sample)
  with g show ?thesis by blast
qed

theorem revocation_final_witness:
  "\<exists>st g'. reduceRun const_host (([e_start, e_candidate, e_grant] @ [e_revoke]) @ []) = Inr (Some st)
     \<and> map_of (grants st) ''g1'' = Some g' \<and> \<not> g_active g' \<and> budgetUsed g' = no_budget"
proof -
  from revoke_step obtain st where st: "reduceRun const_host ([e_start, e_candidate, e_grant] @ [e_revoke]) = Inr (Some st)"
    "map_of (grants st) ''g1'' = Some (sample_grant\<lparr>g_active := False, g_revocationEpoch := 1\<rparr>)" by blast
  from revocation_final [OF st, of "[]" st] st(1) show ?thesis by (auto simp: sample_grant_def)
qed

text \<open>
  Operations are durable: later in the log every operation is still there with the payload
  digest it was planned with, and one that was confirmed or failed keeps that state.
\<close>

theorem operations_durable:
  assumes "reduceRun h es = Inr (Some st)" and "map_of (operations st) k = Some op"
    and "reduceRun h (es @ fs) = Inr (Some st')"
  shows "\<exists>op'. map_of (operations st') k = Some op' \<and> fld op' ''payloadDigest'' = fld op ''payloadDigest''
    \<and> (\<not> unresolved op \<longrightarrow> fld op' ''state'' = fld op ''state'')"
  using reduceRun_le [OF assms(1,3)] assms(2) unfolding run_le_def ops_le_def op_le_def by blast

definition e_plan :: js where
  "e_plan = sample_event ''e2'' D ''operation'' (JObj [(''id'', JStr ''o1''), (''payloadDigest'', D), (''state'', JStr ''planned'')])"

definition st_plan :: run_state where
  "st_plan = note_event ''e2'' ''operation'' (st_start\<lparr>operations :=
     [(''o1'', JObj [(''id'', JStr ''o1''), (''payloadDigest'', D), (''state'', JStr ''planned'')])]\<rparr>)"

lemma sample_plan: "reduceRun const_host [e_start, e_plan] = Inr (Some st_plan)"
proof -
  have "apply_event const_host (Some st_start) e_plan = Inr st_plan"
    by (simp add: apply_event_def e_plan_def eval_guards operation_event_def requireText_def requireDigest_def is_text_def js_trim_def
        is_space_def fld_JObj obj_get_def proto_names_def own_props_def obj_spread_def inactive_kinds_def st_start_def st_plan_def coal_def)
  with apply_start show ?thesis by (simp add: reduceRun_def e_start_def e_plan_def reduce_sample)
qed

theorem operations_durable_witness:
  "\<exists>op'. map_of (operations st_plan) ''o1'' = Some op' \<and> fld op' ''payloadDigest'' = D"
proof -
  have o: "map_of (operations st_plan) ''o1'' = Some (JObj [(''id'', JStr ''o1''), (''payloadDigest'', D), (''state'', JStr ''planned'')])"
    by (simp add: st_plan_def note_event_def)
  show ?thesis using operations_durable [OF sample_plan o, of "[]" st_plan] sample_plan by (auto simp: fld_JObj obj_get_def)
qed

text \<open>
  Whether a run can still be cancelled shows in its status projection: for a run that is not
  terminal, a well-formed fresh \<open>cancelled\<close> event is accepted exactly when the projection lists
  no pending operation.
\<close>

theorem cancel_iff_nothing_pending:
  assumes "reduceRun h es = Inr (Some st)" and "\<not> terminal st"
    and "valid_event h e" and "event_id e \<notin> event_id ` set es"
    and "fld e ''kind'' = JStr ''cancelled''" and "fld e ''previousDigest'' = revision st" and "fld e ''generation'' = JNat (generation st)"
    and "js_eq (fld e ''runId'') (runId st)" and "\<not> nullish (fld e ''payload'')"
  shows "(\<exists>st'. reduceRun h (es @ [e]) = Inr (Some st'))
    \<longleftrightarrow> fld (projectRunStatus (Some st) durable at_time) ''pendingOperations'' = JArr []"
proof -
  from assms(1) obtain seen where s: "for_fold (reduce_event h) (None, []) es = Inr (Some st, seen)" by (auto simp: reduceRun_log)
  have new: "map_of seen (event_id e) = None" using seen_events(1) [OF s] assms(4) by (simp add: map_of_eq_None_iff)
  have "\<not> nullish (revision st) \<and> js_eq (revision st) (revision st)" using revision_is_digest [OF s] by auto
  then have rev: "js_eq (coal (revision st) JNull) (fld e ''previousDigest'')" by (simp add: coal_def assms(6))
  have g: "event_guards st e = Inr st"
    using assms(2,5,7,8,9) by (auto simp: event_guards_def Let_def one_of_def inactive_kinds_def dot_Inr dot_def split: js.split)
  have "(\<exists>st'. reduceRun h (es @ [e]) = Inr (Some st')) \<longleftrightarrow> \<not> pending st"
    using rev g new assms(5)
    by (auto simp: reduceRun_def for_fold_append s reduce_valid_event [OF assms(3)] apply_event_def handle_event_def cancelled_def)
  also have "\<dots> \<longleftrightarrow> pending_ops st = []"
    by (auto simp: pending_def pending_ops_def list_ex_iff filter_empty_conv)
  also have "\<dots> \<longleftrightarrow> fld (projectRunStatus (Some st) durable at_time) ''pendingOperations'' = JArr []"
    by (simp add: projectRunStatus_def fld_JObj obj_get_def)
  finally show ?thesis .
qed

theorem cancel_iff_nothing_pending_witness:
  "\<not> (\<exists>st'. reduceRun const_host ([e_start, e_plan] @ [e_cancel]) = Inr (Some st'))"
proof -
  have "valid_event const_host e_cancel"
    by (simp add: valid_event_def e_cancel_def sample_valid is_instant_def T0_value is_text_def js_trim_def is_space_def)
  moreover have "event_id e_cancel \<notin> event_id ` set [e_start, e_plan]" by (simp add: e_cancel_def e_start_def e_plan_def)
  moreover have "fld e_cancel ''kind'' = JStr ''cancelled''" "fld e_cancel ''previousDigest'' = revision st_plan"
    "fld e_cancel ''generation'' = JNat (generation st_plan)" "js_eq (fld e_cancel ''runId'') (runId st_plan)"
    "\<not> nullish (fld e_cancel ''payload'')" "\<not> terminal st_plan"
    by (simp_all add: e_cancel_def st_plan_def st_start_def note_event_def terminal_def)
  moreover have "fld (projectRunStatus (Some st_plan) (JBool True) T0) ''pendingOperations'' \<noteq> JArr []"
    by (simp add: projectRunStatus_def fld_JObj obj_get_def pending_ops_def st_plan_def note_event_def unresolved_def one_of_def)
  ultimately show ?thesis using cancel_iff_nothing_pending [OF sample_plan] by blast
qed

section \<open>Consent and rework\<close>

lemma advanced_consent:
  assumes "advanced h st e = Inr st'" and "phase st = 0" and "authorityProtocol st = JStr ''host-intent-v1''"
  shows "(\<exists>c. verifyHostIntentConsent h (fld (fld e ''payload'') ''intentRequest'') (fld (fld e ''payload'') ''intentConsent'')
       (fld e ''timestamp'') = Inr c) \<and> intent_binds h st e = Inr ()"
  using assms unfolding advanced_def Let_def bnd_Inr if_Inl_Inr Inr_inject
  by (elim conjE exE) (auto simp: bnd_Inr)

lemma num_not_less: "is_finite a \<Longrightarrow> is_finite b \<Longrightarrow> \<not> num_less a b \<Longrightarrow> num_le b a"
  by (cases a; cases b) (auto simp: num_le_def)

lemma verifyHostIntentConsent_Inr:
  assumes "verifyHostIntentConsent h req con now = Inr c"
  shows "hasCurrentDigest h req" and "hasCurrentDigest h con" and "fld con ''decision'' = JStr ''agree''"
    and "fld con ''requestDigest'' = fld req ''digest''" and "fld con ''runId'' = fld req ''runId''"
    and "instant h (fld con ''expiresAt'')" and "instant h (fld con ''observedAt'')"
    and "\<not> num_less (date_parse h now) (date_parse h (fld con ''observedAt''))"
    and "\<not> num_le (date_parse h (fld con ''expiresAt'')) (date_parse h now)"
  using assms unfolding verifyHostIntentConsent_def bnd_Inr if_Inl_Inr
  by (auto simp: requireDeliveryRecord_Inr dest: js_eq_imp_eq)

lemma intent_binds_Inr:
  assumes "intent_binds h st e = Inr u" and "req = fld (fld e ''payload'') ''intentRequest''"
  shows "fld req ''runId'' = runId st" and "fld req ''runRevision'' = fld e ''previousDigest''"
    and "fld req ''generation'' = JNat (generation st)" and "fld req ''goalRef'' = goalRef st"
    and "fld req ''contractDigest'' = JStr (recordDigest h (contract st))"
    and "fld (fld req ''scope'') ''businessBoundary'' = boundary st"
  using assms unfolding intent_binds_def Let_def bnd_Inr if_Inl_Inr
  by (auto simp: dot_Inr dest: js_eq_imp_eq)

lemma leaves_phase_zero:
  assumes "reduceRun h es = Inr (Some st)" and "reduceRun h (es @ [e]) = Inr (Some st')" and "phase st = 0" and "phase st' \<noteq> 0"
  obtains st2 where "advanced h st e = Inr st2" and "valid_event h e" and "fld e ''previousDigest'' = revision st"
proof -
  have a: "apply_event h (Some st) e = Inr st'" by (rule reduceRun_snoc [OF assms(1,2)]) (use assms(3,4) in auto)
  from apply_event_step [OF reduceRun_inv [OF assms(1)] a] obtain k where k: "fld e ''kind'' = JStr k"
    "control_step k (control_of st) (control_of st')" by blast
  have "k = ''advanced''" using k(2) assms(3,4) by (auto simp: control_of_def return_target_def elim!: control_step.cases)
  with k have kind: "fld e ''kind'' = JStr ''advanced''" by simp
  from a obtain st1 st2 where g: "event_guards st e = Inr st1" and hd: "handle_event h st1 e = Inr st2"
    by (auto simp: apply_event_def if_Inl_Inr)
  have "st1 = st" using g kind by (auto simp: event_guards_def Let_def if_Inl_Inr one_of_def)
  with hd kind have adv: "advanced h st e = Inr st2" by (simp add: handle_event_def)
  from assms(1) obtain seen where s: "for_fold (reduce_event h) (None, []) es = Inr (Some st, seen)" by (auto simp: reduceRun_log)
  from assms(2) for_fold_snoc [OF s, of e] have v: "valid_event h e" by (auto simp: reduceRun_log dest: reduce_event_valid)
  have "fld e ''previousDigest'' = revision st"
    using apply_event_revision(2) [OF a] revision_is_digest [OF s] by (auto simp: coal_def)
  with adv v that show thesis by blast
qed

text \<open>
  C30. Under the protocol \<open>host-intent-v1\<close> a run leaves its first phase only with a current host
  consent: the consent agrees to exactly the request shown, it was observed no later than the event
  and has not expired at its time, and that request binds this run, its revision and generation, its goal, the
  digest of its frozen contract and its action boundary.
\<close>

theorem intent_consent_required:
  assumes "reduceRun h es = Inr (Some st)" and "reduceRun h (es @ [e]) = Inr (Some st')"
    and "phase st = 0" and "phase st' \<noteq> 0" and "authorityProtocol st = JStr ''host-intent-v1''"
    and "req = fld (fld e ''payload'') ''intentRequest''" and "con = fld (fld e ''payload'') ''intentConsent''"
  shows "hasCurrentDigest h req \<and> hasCurrentDigest h con \<and> fld con ''decision'' = JStr ''agree''
    \<and> fld con ''requestDigest'' = fld req ''digest''
    \<and> num_le (date_parse h (fld con ''observedAt'')) (date_parse h (fld e ''timestamp''))
    \<and> num_less (date_parse h (fld e ''timestamp'')) (date_parse h (fld con ''expiresAt''))
    \<and> fld req ''runId'' = runId st \<and> fld req ''runRevision'' = revision st \<and> fld req ''generation'' = JNat (generation st)
    \<and> fld req ''goalRef'' = goalRef st \<and> fld req ''contractDigest'' = JStr (recordDigest h (contract st))
    \<and> fld (fld req ''scope'') ''businessBoundary'' = boundary st"
proof -
  from assms(1-4) obtain st2 where adv: "advanced h st e = Inr st2" and v: "valid_event h e"
    and prev: "fld e ''previousDigest'' = revision st" by (rule leaves_phase_zero)
  from advanced_consent [OF adv assms(3,5)] obtain c where
    c: "verifyHostIntentConsent h req con (fld e ''timestamp'') = Inr c" and b: "intent_binds h st e = Inr ()"
    unfolding assms(6,7) by blast
  note C = verifyHostIntentConsent_Inr [OF c] and B = intent_binds_Inr [OF b assms(6)]
  have "num_less (date_parse h (fld e ''timestamp'')) (date_parse h (fld con ''expiresAt''))"
    by (rule num_not_le) (use C(6,9) v in \<open>auto simp: instant_def is_instant_def valid_event_def\<close>)
  moreover have "num_le (date_parse h (fld con ''observedAt'')) (date_parse h (fld e ''timestamp''))"
    by (rule num_not_less) (use C(7,8) v in \<open>auto simp: instant_def is_instant_def valid_event_def\<close>)
  ultimately show ?thesis using C(1-5) B prev by simp
qed

definition i_start :: js where
  "i_start = sample_event ''e1'' JNull ''started'' (JObj [(''profile'', JStr ''standard''), (''boundary'', JStr ''open-pr''),
     (''goalRef'', JStr ''goal''), (''owner'', JStr ''own''), (''authorityProtocol'', JStr ''host-intent-v1'')])"

definition i_request :: js where
  "i_request = JObj (sealDeliveryRecord const_host ''intent-consent-request'' [(''runId'', JStr ''run-1''), (''runRevision'', D),
     (''generation'', JNat 0), (''goalRef'', JStr ''goal''), (''contractDigest'', D), (''profile'', JStr ''standard''),
     (''observerRuntimes'', JArr [JStr ''codex'']), (''scope'', JObj [(''businessBoundary'', JStr ''open-pr'')])])"

definition i_consent :: js where
  "i_consent = JObj (sealDeliveryRecord const_host ''host-intent-consent'' [(''requestDigest'', D),
     (''gateClass'', JStr ''adequacy-of-intent''), (''runId'', JStr ''run-1''), (''decision'', JStr ''agree''),
     (''assurance'', JStr ''agent-observed-local-cooperative''), (''observerRuntime'', JStr ''codex''), (''sessionDigest'', D),
     (''turnDigest'', D), (''evidenceDigest'', D), (''decisionRef'', D), (''observedAt'', T0),
     (''expiresAt'', JStr ''2026-02-01T00:00:00.000Z'')])"

definition i_advance :: js where
  "i_advance = sample_event ''e2'' D ''advanced'' (JObj [(''from'', JNat 0), (''to'', JNat 1), (''acceptanceDigest'', D),
     (''candidateDigest'', JNull), (''intentRequest'', i_request), (''intentConsent'', i_consent)])"

definition i_state :: run_state where
  "i_state = st_start\<lparr>authorityProtocol := JStr ''host-intent-v1'', delegationPolicy := JNull\<rparr>"

lemma i_started: "reduce_event const_host (None, []) i_start = Inr (Some i_state, [(''e1'', D)])"
proof -
  have "apply_event const_host None i_start = Inr i_state"
    by (simp add: apply_event_def start_run_def i_start_def eval_js boundaryOrder_def requireText_def coal_def settle_def
        drop_stale_def i_state_def st_start_def Let_def)
  then show ?thesis by (simp add: i_start_def reduce_sample)
qed

lemma i_flds: "fld i_request ''digest'' = D" "fld i_request ''runId'' = JStr ''run-1''" "fld i_request ''runRevision'' = D"
  "fld i_request ''generation'' = JNat 0" "fld i_request ''goalRef'' = JStr ''goal''" "fld i_request ''contractDigest'' = D"
  "fld i_request ''profile'' = JStr ''standard''" "fld i_request ''observerRuntimes'' = JArr [JStr ''codex'']"
  "fld i_request ''scope'' = JObj [(''businessBoundary'', JStr ''open-pr'')]" "fld i_request ''goalRevision'' = JUndef"
  "fld i_request ''contractSourceRevision'' = JUndef" "fld i_request ''planDigest'' = JUndef"
  "fld i_consent ''requestDigest'' = D" "fld i_consent ''gateClass'' = JStr ''adequacy-of-intent''" "fld i_consent ''runId'' = JStr ''run-1''"
  "fld i_consent ''decision'' = JStr ''agree''" "fld i_consent ''assurance'' = JStr ''agent-observed-local-cooperative''"
  "fld i_consent ''observerRuntime'' = JStr ''codex''" "fld i_consent ''sessionDigest'' = D" "fld i_consent ''turnDigest'' = D"
  "fld i_consent ''evidenceDigest'' = D" "fld i_consent ''decisionRef'' = D" "fld i_consent ''observedAt'' = T0"
  "fld i_consent ''expiresAt'' = JStr ''2026-02-01T00:00:00.000Z''"
  by (simp_all add: i_request_def i_consent_def fld_seal fld_seal_other) (simp_all add: fld_JObj obj_get_def proto_names_def)

lemma i_verified: "verifyHostIntentConsent const_host i_request i_consent T0 = Inr i_consent"
proof -
  have "requireDeliveryRecord const_host i_request ''intent-consent-request'' = Inr i_request"
    unfolding i_request_def by (rule seal_accepted [OF const_host_hex])
  moreover have "requireDeliveryRecord const_host i_consent ''host-intent-consent'' = Inr i_consent"
    unfolding i_consent_def by (rule seal_accepted [OF const_host_hex])
  ultimately show ?thesis
    by (simp add: verifyHostIntentConsent_def i_flds instant_def is_instant_def T0_value expiry_value num_le_def js_includes_def)
qed

lemma i_advanced: "\<exists>st. apply_event const_host (Some i_state) i_advance = Inr st \<and> phase st = 1"
proof -
  have "event_guards i_state i_advance = Inr i_state"
    by (simp add: i_advance_def eval_guards fld_JObj obj_get_def i_state_def st_start_def)
  moreover have "intent_binds const_host i_state i_advance = Inr ()"
    by (simp add: intent_binds_def i_advance_def fld_JObj obj_get_def proto_names_def i_flds i_state_def st_start_def Let_def)
  then have "\<exists>st. handle_event const_host i_state i_advance = Inr st \<and> phase st = 1"
    by (simp add: handle_event_def i_advance_def advanced_def pending_def requireDigest_def fld_JObj obj_get_def proto_names_def i_verified
        i_state_def st_start_def Let_def)
  ultimately show ?thesis
    by (auto simp: apply_event_def settle_parts) (simp add: i_state_def st_start_def coal_def i_advance_def)
qed

theorem intent_consent_required_witness:
  "\<exists>st'. reduceRun const_host ([i_start] @ [i_advance]) = Inr (Some st') \<and> phase st' = 1 \<and> fld i_consent ''decision'' = JStr ''agree''
     \<and> fld i_request ''contractDigest'' = JStr (recordDigest const_host (contract i_state))"
proof -
  from i_advanced obtain st' where st': "apply_event const_host (Some i_state) i_advance = Inr st'" "phase st' = 1" by blast
  have r1: "reduceRun const_host [i_start] = Inr (Some i_state)" by (simp add: reduceRun_def i_started)
  have r2: "reduceRun const_host ([i_start] @ [i_advance]) = Inr (Some st')"
    using st'(1) by (simp add: reduceRun_def i_started) (simp add: i_advance_def reduce_sample)
  have "phase i_state = 0" "authorityProtocol i_state = JStr ''host-intent-v1''" by (simp_all add: i_state_def st_start_def)
  moreover have "i_request = fld (fld i_advance ''payload'') ''intentRequest''" "i_consent = fld (fld i_advance ''payload'') ''intentConsent''"
    by (simp_all add: i_advance_def fld_JObj obj_get_def)
  ultimately show ?thesis using intent_consent_required [OF r1 r2] st'(2) r2 by auto
qed

text \<open>
  A resolution can name a finding that was never opened: the open findings are kept in an
  ordinary object and looked up by a computed read, so an identity that ordinary objects inherit,
  such as \<open>toString\<close>, passes the check, given any passing observation, and resolves nothing.
\<close>

theorem inherited_rework_id_accepted:
  assumes "k \<in> set proto_names" and "map_of (openRework st) k = None"
    and "obs \<in> set (observations st)" and "fld obs ''digest'' = JStr d" and "fld obs ''outcome'' = JStr ''pass''"
  shows "rework_resolved h st (JObj [(''payload'', JObj [(''id'', JStr k), (''observationDigests'', JArr [JStr d])])]) = Inr st"
proof -
  have "obj_del (openRework st) k = openRework st"
    using assms(2) by (auto simp: obj_del_def map_of_eq_None_iff image_iff intro!: filter_True)
  moreover have "truthy (obj_get (openRework st) k)" using assms(1,2) by (simp add: obj_get_def)
  moreover have "list_ex (\<lambda>obs. fld obs ''digest'' = JStr d \<and> fld obs ''outcome'' = JStr ''pass'') (observations st)"
    using assms(3-5) by (auto simp: list_ex_iff)
  moreover have "fld (JObj [(''payload'', p)]) ''payload'' = p" "fld (JObj [(''id'', v), (''observationDigests'', w)]) ''id'' = v"
    "fld (JObj [(''id'', v), (''observationDigests'', w)]) ''observationDigests'' = w" "fld (JArr [x]) ''length'' = JNat 1" for p v w x
    by (simp_all add: fld_def obj_get_def)
  ultimately show ?thesis by (simp add: rework_resolved_def Let_def js_iter_def)
qed

theorem inherited_rework_id_accepted_witness:
  "rework_resolved const_host (st_start\<lparr>observations := [JObj [(''digest'', D), (''outcome'', JStr ''pass'')]]\<rparr>)
     (JObj [(''payload'', JObj [(''id'', JStr ''toString''), (''observationDigests'', JArr [D])])])
   = Inr (st_start\<lparr>observations := [JObj [(''digest'', D), (''outcome'', JStr ''pass'')]]\<rparr>)"
  by (rule inherited_rework_id_accepted [where obs = "JObj [(''digest'', D), (''outcome'', JStr ''pass'')]"])
    (simp_all add: proto_names_def st_start_def fld_JObj obj_get_def)

end
