(* ===== verification/Policy.thy ===== *)
theory Policy
  imports Json RunTypes EventLog
begin

text \<open>
  Delivery policy (src/lib/core/delivery-policy.mjs): the effective policy of a project, the
  acceptance contract, journey coverage, the normalisation of provider usage counters, budget
  admission and the resolution of lifecycle evidence.
\<close>

section \<open>The effective policy\<close>

definition fixed :: "(string \<times> js) list" where
  "fixed = [(''contractVersion'', JNat 2), (''sourceAcknowledgmentRequired'', JBool True),
     (''unknownWriterBlocksRecovery'', JBool True), (''admissionBudgetRejectsUnknownUsage'', JBool True)]"

definition DETERMINISTIC :: "string list" where
  "DETERMINISTIC = [''collector-observed'', ''external-resolved'']"

definition policy_defaults :: "(string \<times> js) list" where
  "policy_defaults = fixed @ [(''deterministicOrigins'', jstrs DETERMINISTIC),
     (''requiredJourneyCoverage'', JBool False), (''budgetMaxima'', JObj []),
     (''oracleAssurance'', JObj [(''required'', JBool False)])]"

text \<open>One entry of \<open>budgetMaxima\<close>: the operational budget must enforce it.\<close>

definition check_maximum :: "js \<Rightarrow> string \<times> js \<Rightarrow> unit res" where
  "check_maximum budget entry = (let (unit, maximum) = entry in
     if unit = [] \<or> \<not> js_finite maximum \<or> num_less (num_of maximum) (Fin 0) then fail ''Invalid budget maximum''
     else if \<not> truthy budget \<or> \<not> js_eq (fld budget ''unit'') (JStr unit)
        \<or> js_eq (fld budget ''level'') (JStr ''advisory'') \<or> \<not> js_finite (fld budget ''limit'')
        \<or> num_less (num_of maximum) (num_of (fld budget ''limit''))
     then fail ''Operational budget does not enforce the domain maximum'' else Inr ())"

definition resolveDeliveryPolicy :: "js \<Rightarrow> js \<Rightarrow> (string \<times> js) list res" where
  "resolveDeliveryPolicy config0 budget =
     (let config = js_default config0 (JObj []) in
      bnd (for_each (\<lambda>(key, val). bnd (dot config key) (\<lambda>v.
             if v \<noteq> JUndef \<and> \<not> js_eq v val then fail (''Unsupported delivery policy: '' @ key) else Inr ())) fixed) (\<lambda>_.
      let policy = obj_spread policy_defaults (own_props config);
          get = fld (JObj policy) in
      if \<not> is_array (get ''deterministicOrigins'') \<or> elems (get ''deterministicOrigins'') = []
         \<or> list_ex (\<lambda>origin. \<not> one_of DETERMINISTIC origin) (elems (get ''deterministicOrigins''))
      then fail ''Invalid deterministic origins policy''
      else if \<not> is_bool (get ''requiredJourneyCoverage'') \<or> \<not> truthy (get ''budgetMaxima'')
         \<or> \<not> typeof_object (get ''budgetMaxima'') \<or> is_array (get ''budgetMaxima'')
      then fail ''Invalid delivery policy''
      else if \<not> truthy (get ''oracleAssurance'') \<or> \<not> is_bool (fld (get ''oracleAssurance'') ''required'')
      then fail ''Invalid oracle assurance policy''
      else bnd (for_each (check_maximum budget) (own_props (get ''budgetMaxima''))) (\<lambda>_. Inr policy)))"

section \<open>The acceptance contract\<close>

definition check_criterion :: "host \<Rightarrow> js \<Rightarrow> unit res" where
  "check_criterion h c =
     bnd (dot c ''definitionDigest'') (\<lambda>d.
     bnd (requireDigest h d ''definitionDigest'') (\<lambda>_.
     bnd (requireUnique (fld c ''assertions'') ''assertions'') (\<lambda>a.
     if elems a = [] \<or> list_ex (\<lambda>x. \<not> is_string x \<or> x = JStr []) (elems a)
     then fail ''Explicit assertions required''
     else let origins = fld c ''allowedOrigins''; age = fld c ''maxAgeMs'' in
       bnd (if \<not> truthy origins then Inr False
            else if \<not> truthy (fld origins ''length'') then Inr True
            else case origins of
                JArr os \<Rightarrow> Inr (list_ex (\<lambda>origin. \<not> one_of DETERMINISTIC origin) os)
              | _ \<Rightarrow> Inl (TypeError ''c.allowedOrigins.some is not a function'')) (\<lambda>bad.
       if bad then fail ''Deterministic criteria require observed evidence''
       else if age \<noteq> JUndef \<and> (\<not> js_finite age \<or> num_less (num_of age) (Fin 0))
       then fail ''Invalid evidence lifetime'' else Inr ()))))"

definition check_contract :: "host \<Rightarrow> js \<Rightarrow> unit res" where
  "check_contract h c =
     (if \<not> js_eq (fld c ''version'') (JNat 2) then fail ''Delivery acceptance requires contract version 2''
      else bnd (requireText (fld c ''goalRevision'') ''goalRevision'') (\<lambda>_.
        let criteria = fld c ''criteria'' in
        if \<not> is_array criteria \<or> elems criteria = [] then fail ''Acceptance criteria required''
        else bnd (map_res (\<lambda>c. bnd (dot c ''id'') (\<lambda>i. requireText i ''criterion id'')) (elems criteria)) (\<lambda>ids.
          bnd (requireUnique (JArr ids) ''criteria'') (\<lambda>_. for_each (check_criterion h) (elems criteria)))))"

text \<open>The errors of \<open>{ ok, errors }\<close>; \<open>ok\<close> is that there are none.\<close>

definition validateDeliveryContract :: "host \<Rightarrow> js \<Rightarrow> string list" where
  "validateDeliveryContract h c =
     (case check_contract h c of Inl e \<Rightarrow> [err_message e] | Inr _ \<Rightarrow> [])"

section \<open>Journey coverage\<close>

record journey_row =
  j_id :: js
  j_required :: bool
  j_criteria :: "js list"
  j_missing :: "js list"
  j_verified :: bool
  j_accepted :: bool
  j_deployed :: bool

record coverage =
  v_candidate :: js
  v_rows :: "journey_row list"
  v_status :: string

definition arr_map :: "string \<Rightarrow> js \<Rightarrow> js list res" where
  "arr_map what v = (case v of JArr xs \<Rightarrow> Inr xs | _ \<Rightarrow> Inl (TypeError (what @ '' is not a function'')))"

definition criterion_passed :: "js \<Rightarrow> js \<Rightarrow> js \<Rightarrow> bool res" where
  "criterion_passed candidate i obs =
     bnd (dot obs ''criterionId'') (\<lambda>c. Inr (js_eq c i \<and> js_eq (fld obs ''candidateDigest'') candidate
       \<and> js_eq (fld (fld obs ''resolution'') ''status'') (JStr ''pass'')))"

fun filter_res :: "('a \<Rightarrow> bool res) \<Rightarrow> 'a list \<Rightarrow> 'a list res" where
  "filter_res f [] = Inr []"
| "filter_res f (x # xs) = bnd (f x) (\<lambda>b. bnd (filter_res f xs) (\<lambda>ys. Inr (if b then x # ys else ys)))"

definition coverage_row :: "js list \<Rightarrow> js \<Rightarrow> js \<Rightarrow> js \<Rightarrow> js \<Rightarrow> js \<Rightarrow> journey_row res" where
  "coverage_row ids obs candidate accepted deployment journey =
     (let criteria = fld journey ''criteria'' in
      if \<not> truthy (fld criteria ''length'') then fail ''Journey requires criterion references''
      else bnd (arr_map ''journey.criteria.filter'' criteria) (\<lambda>cs.
        bnd (filter_res (\<lambda>i. if \<not> js_includes ids i then Inr True
               else bnd (arr_map ''observations.some'' obs) (\<lambda>os.
                 bnd (some_res (criterion_passed candidate i) os) (\<lambda>b. Inr (\<not> b)))) cs) (\<lambda>missing.
        Inr \<lparr>j_id = fld journey ''id'', j_required = (fld journey ''required'' \<noteq> JBool False),
             j_criteria = cs, j_missing = missing, j_verified = (missing = []),
             j_accepted = (missing = [] \<and> js_eq candidate accepted),
             j_deployed = (missing = [] \<and> js_eq (fld deployment ''candidateDigest'') candidate
               \<and> js_eq (fld deployment ''outcome'') (JStr ''pass''))\<rparr>)))"

definition journeyCoverage :: "js \<Rightarrow> js \<Rightarrow> js \<Rightarrow> js \<Rightarrow> js \<Rightarrow> js \<Rightarrow> coverage res" where
  "journeyCoverage journeys criteria obs candidate accepted deployment =
     bnd (arr_map ''criteria.map'' (js_default criteria (JArr []))) (\<lambda>cs.
     bnd (map_res (\<lambda>c. dot c ''id'') cs) (\<lambda>ids.
     bnd (requireUnique (JArr ids) ''criteria'') (\<lambda>_.
     bnd (arr_map ''journeys.map'' (js_default journeys (JArr []))) (\<lambda>js.
     bnd (map_res (\<lambda>j. bnd (dot j ''id'') (\<lambda>i. requireText i ''journey id'')) js) (\<lambda>jids.
     bnd (requireUnique (JArr jids) ''journeys'') (\<lambda>_.
     bnd (map_res (coverage_row ids (js_default obs (JArr [])) candidate
            (js_default accepted JNull) (js_default deployment JNull)) js) (\<lambda>rows.
     Inr \<lparr>v_candidate = candidate, v_rows = rows,
          v_status = (if list_ex (\<lambda>r. j_required r \<and> \<not> j_verified r) rows then ''blocked'' else ''pass'')\<rparr>)))))))"

section \<open>Usage counters\<close>

record usage =
  u_seen :: "(string \<times> string) list"
  u_latest :: "(string \<times> rat) list"
  u_totals :: "(string \<times> rat) list"
  u_unknown :: "string list"

definition lookup0 :: "(string \<times> rat) list \<Rightarrow> string \<Rightarrow> rat" where
  "lookup0 m k = (case map_of m k of Some v \<Rightarrow> v | None \<Rightarrow> 0)"

definition js_rat :: "js \<Rightarrow> rat" where
  "js_rat v = (case v of JNum (Fin r) \<Rightarrow> r | _ \<Rightarrow> 0)"

text \<open>One counter of a measurement. A checked value is a finite number.\<close>

definition count_unit :: "string \<Rightarrow> string \<Rightarrow> js \<Rightarrow> usage \<Rightarrow> string \<times> js \<Rightarrow> usage res" where
  "count_unit provider epoch mode u entry = (let (unit, val) = entry in
     if \<not> js_finite val \<or> num_less (num_of val) (Fin 0) then fail ''Invalid usage counter''
     else let scope = provider @ '':'' @ epoch @ '':'' @ unit; previous = lookup0 (u_latest u) scope;
              cumulative = js_eq mode (JStr ''cumulative'') in
       if cumulative \<and> js_rat val < previous then fail ''Counter reset requires a new epoch''
       else if \<not> one_of [''cumulative'', ''delta''] mode then fail ''Invalid usage mode''
       else let delta = (if cumulative then js_rat val - previous else js_rat val);
                total = provider @ '':'' @ unit in
         Inr (u\<lparr>u_totals := obj_set (u_totals u) total (lookup0 (u_totals u) total + delta),
                u_latest := obj_set (u_latest u) scope (js_rat val)\<rparr>))"

definition measurement_key :: "js \<Rightarrow> string" where
  "measurement_key m = str_of (fld m ''provider'') @ '':'' @ str_of (fld m ''id'')"

definition serialized :: "host \<Rightarrow> js \<Rightarrow> string" where
  "serialized h m = (case json_text h m of Some s \<Rightarrow> s | None \<Rightarrow> [])"

definition take_measurement :: "host \<Rightarrow> usage \<Rightarrow> js \<Rightarrow> usage res" where
  "take_measurement h u m =
     bnd (dot m ''id'') (\<lambda>i. bnd (requireText i ''measurement id'') (\<lambda>_.
     bnd (requireText (fld m ''provider'') ''provider'') (\<lambda>_.
     bnd (requireText (fld m ''epoch'') ''measurement epoch'') (\<lambda>_.
     let key = measurement_key m in
     case map_of (u_seen u) key of
       Some text \<Rightarrow> if text \<noteq> serialized h m then fail ''Conflicting usage measurement'' else Inr u
     | None \<Rightarrow>
         (let u1 = u\<lparr>u_seen := obj_set (u_seen u) key (serialized h m)\<rparr> in
          if \<not> truthy (fld m ''counters'') \<or> \<not> js_eq (fld m ''available'') (JBool True)
          then Inr (u1\<lparr>u_unknown := u_unknown u1 @ [key]\<rparr>)
          else for_fold (count_unit (str_of (fld m ''provider'')) (str_of (fld m ''epoch'')) (fld m ''mode''))
                 u1 (own_props (fld m ''counters'')))))))"

definition no_usage :: usage where
  "no_usage = \<lparr>u_seen = [], u_latest = [], u_totals = [], u_unknown = []\<rparr>"

text \<open>The final state of the loop; \<open>measurementCount\<close> is the number of its \<open>u_seen\<close> entries.\<close>

definition normalizeUsage :: "host \<Rightarrow> js \<Rightarrow> usage res" where
  "normalizeUsage h measurements = bnd (js_iter measurements) (for_fold (take_measurement h) no_usage)"

section \<open>Budget admission\<close>

record admission =
  a_admitted :: bool
  a_exceeded :: "bool option"
  a_known :: bool
  a_enforceable :: bool
  a_level :: js
  a_nextAction :: string
  a_reason :: string

definition budgetAdmission :: "js \<Rightarrow> js \<Rightarrow> js \<Rightarrow> js \<Rightarrow> admission res" where
  "budgetAdmission budget used estimatedNext providerCanStop =
     (let level = fld budget ''level''; limit = fld budget ''limit'' in
      if \<not> one_of [''advisory'', ''admission-enforced'', ''provider-enforced''] level
         \<or> \<not> js_finite limit \<or> num_less (num_of limit) (Fin 0)
      then fail ''Invalid budget''
      else let known = (js_finite used \<and> \<not> num_less (num_of used) (Fin 0)
                 \<and> js_finite estimatedNext \<and> \<not> num_less (num_of estimatedNext) (Fin 0));
               exceeded = (if known then Some (js_rat limit < js_rat used + js_rat estimatedNext) else None);
               enforceable = (level \<noteq> JStr ''provider-enforced'' \<or> truthy (js_default providerCanStop (JBool False)));
               admitted = (level = JStr ''advisory'' \<or> (known \<and> exceeded = Some False \<and> enforceable))
           in Inr \<lparr>a_admitted = admitted, a_exceeded = exceeded, a_known = known, a_enforceable = enforceable,
                a_level = level,
                a_nextAction = (if admitted then ''continue'' else ''safe-stop-reconcile-checkpoint''),
                a_reason = (if \<not> known then ''Usage or next-attempt bound unknown''
                  else if \<not> enforceable then ''Provider cannot enforce cancellation''
                  else if exceeded = Some True then ''Budget exhausted'' else ''Within budget'')\<rparr>)"

section \<open>Lifecycle evidence\<close>

definition lifecycle_kinds :: "string list" where
  "lifecycle_kinds = [''merge'', ''checks'', ''tag'', ''release'', ''deployment'', ''rollback'']"

definition lifecycle_match :: "js \<Rightarrow> js \<Rightarrow> js \<Rightarrow> js \<Rightarrow> bool res" where
  "lifecycle_match kind target candidate obs =
     bnd (dot obs ''kind'') (\<lambda>k. Inr (js_eq k kind \<and> js_eq (fld obs ''target'') target
       \<and> js_eq (fld obs ''candidateDigest'') candidate))"

definition lifecycle_valid :: "js \<Rightarrow> js \<Rightarrow> js \<Rightarrow> js \<Rightarrow> bool" where
  "lifecycle_valid channel exercised maxAge obs =
     (js_eq (fld obs ''sourceVerified'') (JBool True) \<and> js_eq (fld obs ''outcome'') (JStr ''pass'')
      \<and> (channel = JStr ''any'' \<or> js_eq (fld obs ''prerelease'') (JBool (channel = JStr ''prerelease'')))
      \<and> (\<not> truthy exercised \<or> js_eq (fld obs ''exercised'') (JBool True))
      \<and> js_finite (fld obs ''ageMs'') \<and> \<not> num_less (num_of (fld obs ''ageMs'')) (Fin 0)
      \<and> (maxAge = JUndef \<or> num_le (num_of (fld obs ''ageMs'')) (num_of maxAge)))"

definition lifecycle_result :: "js \<Rightarrow> js \<Rightarrow> js \<Rightarrow> js res" where
  "lifecycle_result candidate obs0 req =
     bnd (dot req ''kind'') (\<lambda>kind.
     let target = fld req ''target''; maxAge = fld req ''maxAgeMs'';
         exercised = js_default (fld req ''exercised'') (JBool False);
         channel = js_default (fld req ''channel'') (JStr ''any'') in
     if \<not> one_of lifecycle_kinds kind then fail ''Invalid lifecycle kind''
     else if \<not> one_of [''any'', ''stable'', ''prerelease''] channel
        \<or> (kind \<noteq> JStr ''release'' \<and> channel \<noteq> JStr ''any'')
     then fail ''Invalid lifecycle release channel''
     else if maxAge \<noteq> JUndef \<and> (\<not> js_finite maxAge \<or> num_less (num_of maxAge) (Fin 0))
     then fail ''Invalid lifecycle evidence lifetime''
     else bnd (arr_map ''observations.filter'' obs0) (\<lambda>os.
       bnd (filter_res (lifecycle_match kind target candidate) os) (\<lambda>candidates.
       let valid = filter (lifecycle_valid channel exercised maxAge) candidates;
           pass = (valid \<noteq> [] \<and> \<not> list_ex (\<lambda>obs. js_eq (fld obs ''unresolved'') (JBool True)) candidates)
       in Inr (JObj [(''kind'', kind), (''target'', target), (''channel'', channel),
            (''status'', JStr (if pass then ''pass'' else ''blocked'')),
            (''observationIds'', JArr (map (\<lambda>obs. fld obs ''id'') valid))]))))"

definition resolveLifecycle :: "host \<Rightarrow> js \<Rightarrow> js \<Rightarrow> js \<Rightarrow> (string \<times> js) list res" where
  "resolveLifecycle h candidate obs required =
     bnd (arr_map ''required.map'' (js_default required (JArr []))) (\<lambda>rs.
     bnd (map_res (lifecycle_result candidate (js_default obs (JArr []))) rs) (\<lambda>results.
     Inr (sealDeliveryRecord h ''lifecycle-resolution'' [
       (''candidateDigest'', candidate), (''results'', JArr results),
       (''status'', JStr (if list_all (\<lambda>r. js_eq (fld r ''status'') (JStr ''pass'')) results
          then ''pass'' else ''blocked''))])))"

section \<open>Facts about the policy\<close>

lemma map_of_policy_defaults:
  "(k, v) \<in> set fixed \<Longrightarrow> map_of policy_defaults k = Some v"
proof (rule map_of_is_SomeI)
  show "distinct (map fst policy_defaults)" by (simp add: policy_defaults_def fixed_def)
qed (simp add: policy_defaults_def)

lemma fixed_not_proto: "(k, v) \<in> set fixed \<Longrightarrow> k \<notin> set proto_names"
  by (auto simp: fixed_def proto_names_def)

lemma check_maximum_Inr:
  "check_maximum budget (unit, maximum) = Inr u \<longleftrightarrow>
     unit \<noteq> [] \<and> (\<exists>m l. maximum = JNum (Fin m) \<and> 0 \<le> m \<and> fld budget ''limit'' = JNum (Fin l) \<and> l \<le> m)
     \<and> truthy budget \<and> fld budget ''unit'' = JStr unit \<and> fld budget ''level'' \<noteq> JStr ''advisory''"
proof -
  have fin: "js_finite v \<longleftrightarrow> (\<exists>r. v = JNum (Fin r))" for v
    by (auto simp: js_finite_def split: js.splits elim: is_finite.elims)
  show ?thesis by (auto simp: check_maximum_def if_Inl_Inr fin)
qed

lemma resolveDeliveryPolicy_Inr:
  assumes "resolveDeliveryPolicy (JObj cs) budget = Inr p"
  shows "p = obj_spread policy_defaults cs"
    and "(k, v) \<in> set fixed \<Longrightarrow> map_of cs k \<in> {None, Some JUndef, Some v}"
    and "list_all (one_of DETERMINISTIC) (elems (fld (JObj p) ''deterministicOrigins''))"
    and "e \<in> set (own_props (fld (JObj p) ''budgetMaxima'')) \<Longrightarrow> check_maximum budget e = Inr ()"
proof -
  note D = assms [unfolded resolveDeliveryPolicy_def Let_def bnd_Inr if_Inl_Inr Inr_inject js_default_def]
  show p: "p = obj_spread policy_defaults cs"
    using D by (auto simp: own_props_def)
  show "list_all (one_of DETERMINISTIC) (elems (fld (JObj p) ''deterministicOrigins''))"
    using D by (auto simp: own_props_def p list_ex_iff list_all_iff)
  show "check_maximum budget e = Inr ()" if "e \<in> set (own_props (fld (JObj p) ''budgetMaxima''))"
    using D that by (auto simp: own_props_def p for_each_Inr)
  show "map_of cs k \<in> {None, Some JUndef, Some v}" if kv: "(k, v) \<in> set fixed"
  proof -
    have "\<not> (fld (JObj cs) k \<noteq> JUndef \<and> \<not> js_eq (fld (JObj cs) k) v)"
      using D kv by (auto simp: for_each_Inr if_Inl_Inr dest: bspec)
    then have "fld (JObj cs) k = JUndef \<or> fld (JObj cs) k = v" by (auto dest: js_eq_imp_eq)
    then show ?thesis
      using fixed_not_proto [OF kv] by (auto simp: fld_def obj_get_def split: option.splits)
  qed
qed

text \<open>
  An adopter's configuration cannot relax the delivery policy: whatever a configuration
  without explicitly undefined settings says, the fixed settings keep their values, only observed
  or externally resolved evidence counts as deterministic, and every configured maximum is
  enforced by the operational budget, which has that unit, is not advisory and does not exceed it.
\<close>

theorem policy_floor_kept:
  assumes "resolveDeliveryPolicy (JObj cs) budget = Inr p" and "JUndef \<notin> snd ` set cs"
  shows "(\<forall>(k, v) \<in> set fixed. fld (JObj p) k = v)
    \<and> (\<forall>origin \<in> set (elems (fld (JObj p) ''deterministicOrigins'')). one_of [''collector-observed'', ''external-resolved''] origin)
    \<and> (\<forall>(unit, maximum) \<in> set (own_props (fld (JObj p) ''budgetMaxima'')).
         fld budget ''unit'' = JStr unit \<and> fld budget ''level'' \<noteq> JStr ''advisory''
         \<and> (\<exists>m l. maximum = JNum (Fin m) \<and> fld budget ''limit'' = JNum (Fin l) \<and> l \<le> m))"
proof (intro conjI ballI)
  fix e assume e: "e \<in> set fixed"
  obtain k v where kv: "e = (k, v)" by (cases e)
  have "map_of cs k \<noteq> Some JUndef" using assms(2) by (auto dest!: map_of_SomeD intro: rev_image_eqI)
  then have "map_of p k = Some v"
    using resolveDeliveryPolicy_Inr(1,2) [OF assms(1)] e map_of_policy_defaults
    by (fastforce simp: kv map_of_obj_spread split: option.split)
  then show "case e of (k, v) \<Rightarrow> fld (JObj p) k = v" by (simp add: kv fld_def obj_get_def)
next
  fix origin assume "origin \<in> set (elems (fld (JObj p) ''deterministicOrigins''))"
  then show "one_of [''collector-observed'', ''external-resolved''] origin"
    using resolveDeliveryPolicy_Inr(3) [OF assms(1)] by (auto simp: list_all_iff DETERMINISTIC_def)
next
  fix e assume "e \<in> set (own_props (fld (JObj p) ''budgetMaxima''))"
  from resolveDeliveryPolicy_Inr(4) [OF assms(1) this]
  show "case e of (unit, maximum) \<Rightarrow> fld budget ''unit'' = JStr unit \<and> fld budget ''level'' \<noteq> JStr ''advisory''
         \<and> (\<exists>m l. maximum = JNum (Fin m) \<and> fld budget ''limit'' = JNum (Fin l) \<and> l \<le> m)"
    by (cases e) (auto simp: check_maximum_Inr)
qed

definition policy_budget :: js where
  "policy_budget = JObj [(''unit'', JStr ''usd''), (''level'', JStr ''admission-enforced''), (''limit'', JNat 5)]"

definition policy_config :: "(string \<times> js) list" where
  "policy_config = [(''contractVersion'', JNat 2), (''budgetMaxima'', JObj [(''usd'', JNat 7)])]"

lemmas policy_eval = resolveDeliveryPolicy_def js_default_def fixed_def policy_defaults_def DETERMINISTIC_def
  obj_spread_def own_props_def check_maximum_def fld_def obj_get_def proto_names_def one_of_def js_finite_def

lemma sample_policy:
  "resolveDeliveryPolicy (JObj policy_config) policy_budget = Inr (obj_spread policy_defaults policy_config)"
  by (simp add: policy_eval policy_config_def policy_budget_def)

theorem policy_floor_kept_witness:
  "fld (JObj (obj_spread policy_defaults policy_config)) ''unknownWriterBlocksRecovery'' = JBool True"
  using policy_floor_kept [OF sample_policy] by (simp add: policy_config_def fixed_def)

text \<open>
  The guard of the fixed settings has a gap: a configuration object that holds one of them as
  an explicit \<open>undefined\<close> passes it, and the spread then overwrites the fixed value.
\<close>

theorem undefined_setting_unfixes:
  "\<exists>p. resolveDeliveryPolicy (JObj [(''unknownWriterBlocksRecovery'', JUndef)]) budget = Inr p
     \<and> fld (JObj p) ''unknownWriterBlocksRecovery'' = JUndef"
  by (simp add: policy_eval)

section \<open>Facts about coverage\<close>

lemma filter_res_Inr:
  assumes "filter_res f xs = Inr ys"
  shows "set ys \<subseteq> set xs" and "x \<in> set xs \<Longrightarrow> x \<in> set ys \<or> f x = Inr False"
    and "\<forall>y\<in>set ys. f y = Inr True"
  using assms by (induction xs arbitrary: ys) (auto split: if_splits)

lemma criterion_passed_True:
  "criterion_passed cand i obs = Inr True \<longleftrightarrow> \<not> nullish obs \<and> js_eq (fld obs ''criterionId'') i
     \<and> js_eq (fld obs ''candidateDigest'') cand \<and> fld (fld obs ''resolution'') ''status'' = JStr ''pass''"
  by (auto simp: criterion_passed_def dot_Inr)

lemma coverage_row_verified:
  assumes "coverage_row ids obs cand acc dep j = Inr r" and "j_verified r" and "i \<in> set (j_criteria r)"
  shows "js_includes ids i \<and> (\<exists>x\<in>set (elems obs). criterion_passed cand i x = Inr True)"
proof -
  from assms(1) obtain cs missing where
      f: "filter_res (\<lambda>i. if \<not> js_includes ids i then Inr True
           else bnd (arr_map ''observations.some'' obs) (\<lambda>os. bnd (some_res (criterion_passed cand i) os) (\<lambda>b. Inr (\<not> b)))) cs
         = Inr missing"
    and r: "j_criteria r = cs" "j_verified r = (missing = [])"
    unfolding coverage_row_def Let_def bnd_Inr if_Inl_Inr Inr_inject by auto
  from assms(2,3) r have "missing = []" "i \<in> set cs" by simp_all
  with filter_res_Inr(2) [OF f, of i] show ?thesis
    by (auto simp: arr_map_def dest: some_res_TrueD split: if_splits js.splits)
qed

lemma coverage_row_accepted:
  "coverage_row ids obs cand acc dep j = Inr r \<Longrightarrow> (j_accepted r \<longrightarrow> j_verified r \<and> js_eq cand acc) \<and> (j_deployed r \<longrightarrow> j_verified r)"
  unfolding coverage_row_def Let_def bnd_Inr if_Inl_Inr Inr_inject by auto

lemma journeyCoverage_Inr:
  assumes "journeyCoverage journeys criteria obs cand acc dep = Inr c"
  obtains ids js where "list_all2 (\<lambda>j r. coverage_row ids (js_default obs (JArr [])) cand (js_default acc JNull) (js_default dep JNull) j = Inr r) js (v_rows c)"
    and "v_status c = (if list_ex (\<lambda>r. j_required r \<and> \<not> j_verified r) (v_rows c) then ''blocked'' else ''pass'')"
    and "js = elems (js_default journeys (JArr []))"
    and "ids = map (\<lambda>c. fld c ''id'') (elems (js_default criteria (JArr [])))"
proof -
  from assms obtain cs ids js rows where c: "arr_map ''criteria.map'' (js_default criteria (JArr [])) = Inr cs"
    and ids: "map_res (\<lambda>c. dot c ''id'') cs = Inr ids"
    and js: "arr_map ''journeys.map'' (js_default journeys (JArr [])) = Inr js"
    and rows: "map_res (coverage_row ids (js_default obs (JArr [])) cand (js_default acc JNull) (js_default dep JNull)) js = Inr rows"
    and res: "c = \<lparr>v_candidate = cand, v_rows = rows,
          v_status = (if list_ex (\<lambda>r. j_required r \<and> \<not> j_verified r) rows then ''blocked'' else ''pass'')\<rparr>"
    unfolding journeyCoverage_def bnd_Inr Inr_inject by blast
  have "list_all2 (\<lambda>x y. y = fld x ''id'') cs ids"
    using ids by (simp add: map_res_Inr_iff dot_Inr list_all2_mono)
  then have i: "ids = map (\<lambda>c. fld c ''id'') cs"
    by (simp add: list_all2_conv_all_nth nth_equalityI)
  show thesis
    by (rule that [of ids js])
      (use rows res c js i in \<open>auto simp: map_res_Inr_iff arr_map_def split: js.splits\<close>)
qed

text \<open>
  Coverage is evidence: when journey coverage passes, every criterion of every required
  journey is a criterion of the contract and has an observation that was made for it on exactly
  this candidate and resolved to \<open>pass\<close>.
\<close>

theorem coverage_pass_sound:
  assumes "journeyCoverage journeys criteria (JArr obs) cand acc dep = Inr c" and "v_status c = ''pass''"
    and "r \<in> set (v_rows c)" and "j_required r" and "i \<in> set (j_criteria r)"
  shows "js_includes (map (\<lambda>c. fld c ''id'') (elems (js_default criteria (JArr [])))) i
    \<and> (\<exists>x\<in>set obs. js_eq (fld x ''criterionId'') i \<and> js_eq (fld x ''candidateDigest'') cand
         \<and> fld (fld x ''resolution'') ''status'' = JStr ''pass'')"
proof -
  from assms(1) obtain ids js where
      all: "list_all2 (\<lambda>j r. coverage_row ids (js_default (JArr obs) (JArr [])) cand (js_default acc JNull) (js_default dep JNull) j = Inr r) js (v_rows c)"
    and st: "v_status c = (if list_ex (\<lambda>r. j_required r \<and> \<not> j_verified r) (v_rows c) then ''blocked'' else ''pass'')"
    and ids: "ids = map (\<lambda>c. fld c ''id'') (elems (js_default criteria (JArr [])))"
    by (rule journeyCoverage_Inr)
  from st assms(2-4) have v: "j_verified r" by (auto simp: list_ex_iff split: if_splits)
  from all assms(3) obtain j where "coverage_row ids (js_default (JArr obs) (JArr [])) cand (js_default acc JNull) (js_default dep JNull) j = Inr r"
    by (auto simp: list_all2_conv_all_nth in_set_conv_nth)
  from coverage_row_verified [OF this v assms(5)] show ?thesis
    by (auto simp: ids js_default_def criterion_passed_True)
qed

definition sample_journey :: js where
  "sample_journey = JObj [(''id'', JStr ''login''), (''criteria'', JArr [JStr ''c1''])]"

definition sample_passed :: js where
  "sample_passed = JObj [(''criterionId'', JStr ''c1''), (''candidateDigest'', JStr ''d''),
     (''resolution'', JObj [(''status'', JStr ''pass'')])]"

theorem coverage_pass_sound_witness:
  "\<exists>c. journeyCoverage (JArr [sample_journey]) (JArr [JObj [(''id'', JStr ''c1'')]]) (JArr [sample_passed])
      (JStr ''d'') JNull JNull = Inr c \<and> v_status c = ''pass''
     \<and> (\<exists>x\<in>set [sample_passed]. fld x ''criterionId'' = JStr ''c1'')"
proof -
  let ?r = "\<lparr>j_id = JStr ''login'', j_required = True, j_criteria = [JStr ''c1''], j_missing = [], j_verified = True,
      j_accepted = False, j_deployed = False\<rparr>"
  let ?c = "\<lparr>v_candidate = JStr ''d'', v_rows = [?r], v_status = ''pass''\<rparr>"
  have c: "journeyCoverage (JArr [sample_journey]) (JArr [JObj [(''id'', JStr ''c1'')]]) (JArr [sample_passed])
      (JStr ''d'') JNull JNull = Inr ?c"
    by (simp add: journeyCoverage_def coverage_row_def js_default_def arr_map_def sample_journey_def sample_passed_def
        criterion_passed_def fld_def obj_get_def proto_names_def js_includes_def requireUnique_def requireText_def is_text_def
        js_trim_def is_space_def dot_def del: bnd_Inr)
  show ?thesis
    using coverage_pass_sound [OF c, of ?r "JStr ''c1''"] c by auto
qed

section \<open>Facts about usage\<close>

definition well_measured :: "js \<Rightarrow> bool" where
  "well_measured m \<longleftrightarrow> \<not> nullish m \<and> is_text (fld m ''id'') \<and> is_text (fld m ''provider'') \<and> is_text (fld m ''epoch'')"

definition measured :: "host \<Rightarrow> usage \<Rightarrow> js \<Rightarrow> bool" where
  "measured h u m \<longleftrightarrow> well_measured m \<and> map_of (u_seen u) (measurement_key m) = Some (serialized h m)"

lemma count_unit_seen: "count_unit p e md u x = Inr u' \<Longrightarrow> u_seen u' = u_seen u"
  by (cases x) (auto simp: count_unit_def Let_def if_Inl_Inr)

lemma count_units_seen: "for_fold (count_unit p e md) u xs = Inr u' \<Longrightarrow> u_seen u' = u_seen u"
  by (rule for_fold_invariant [where P = "\<lambda>v. u_seen v = u_seen u"]) (auto dest: count_unit_seen)

lemma take_measurement_cases [consumes 1, case_names known unknown counted]:
  assumes "take_measurement h u m = Inr u'"
  obtains "well_measured m" "map_of (u_seen u) (measurement_key m) = Some (serialized h m)" "u' = u"
  | "well_measured m" "map_of (u_seen u) (measurement_key m) = None"
    "u' = u\<lparr>u_seen := obj_set (u_seen u) (measurement_key m) (serialized h m), u_unknown := u_unknown u @ [measurement_key m]\<rparr>"
  | "well_measured m" "map_of (u_seen u) (measurement_key m) = None" "truthy (fld m ''counters'')"
    "for_fold (count_unit (str_of (fld m ''provider'')) (str_of (fld m ''epoch'')) (fld m ''mode''))
       (u\<lparr>u_seen := obj_set (u_seen u) (measurement_key m) (serialized h m)\<rparr>) (own_props (fld m ''counters'')) = Inr u'"
  using assms that
  by (auto simp: take_measurement_def Let_def dot_Inr well_measured_def split: option.splits if_splits)

interpretation meter: idempotent_log "take_measurement h" "measured h" for h
proof
  show "take_measurement h s e = Inr s" if "measured h s e" for s e
    using that by (auto simp: measured_def well_measured_def take_measurement_def dot_Inr Let_def requireText_def dot_def
        split: js.splits)
  show "measured h t e" if "take_measurement h s e = Inr t" for s e t
    using that by (cases rule: take_measurement_cases) (auto simp: measured_def dest!: count_units_seen)
  show "measured h t e" if "measured h s e" and "take_measurement h s e' = Inr t" for s e e' t
    using that(2,1) by (cases rule: take_measurement_cases) (auto simp: measured_def dest!: count_units_seen)
qed

text \<open>
  Usage is counted once: a measurement delivered again anywhere later changes nothing.
\<close>

theorem usage_redelivery_ignored:
  assumes "normalizeUsage h (JArr ms) = Inr u" and "m \<in> set ms"
  shows "normalizeUsage h (JArr (ms @ m # ns)) = normalizeUsage h (JArr (ms @ ns))"
  using meter.replay_redelivery [of h no_usage ms u m ns] assms by (simp add: normalizeUsage_def js_iter_def)

definition sum_where :: "(string \<Rightarrow> bool) \<Rightarrow> (string \<times> rat) list \<Rightarrow> rat" where
  "sum_where P m = sum_list (map snd (filter (\<lambda>(k, _). P k) m))"

lemma sum_where_set: "sum_where P (obj_set m k v) = sum_where P m + (if P k then v - lookup0 m k else 0)"
  by (induction m) (auto simp: sum_where_def lookup0_def)

lemma lookup0_set: "lookup0 (obj_set m k v) k' = (if k' = k then v else lookup0 m k')"
  by (simp add: lookup0_def)

text \<open>The name of the total a scope \<open>provider:epoch:unit\<close> belongs to.\<close>

definition total_of :: "string \<Rightarrow> string" where
  "total_of s = (let p = takeWhile (\<lambda>c. c \<noteq> CHR '':'') s
     in p @ dropWhile (\<lambda>c. c \<noteq> CHR '':'') (drop (Suc (length p)) s))"

definition no_colon :: "js \<Rightarrow> bool" where
  "no_colon v = (CHR '':'' \<notin> set (str_of v))"

lemma total_of_scope:
  assumes "CHR '':'' \<notin> set p" and "CHR '':'' \<notin> set e"
  shows "total_of (p @ '':'' @ e @ '':'' @ u) = p @ '':'' @ u"
proof -
  have "takeWhile (\<lambda>c. c \<noteq> CHR '':'') (p @ '':'' @ e @ '':'' @ u) = p"
    using assms(1) by (auto simp: takeWhile_append)
  moreover have "dropWhile (\<lambda>c. c \<noteq> CHR '':'') (e @ '':'' @ u) = '':'' @ u"
    using assms(2) by (auto simp: dropWhile_append)
  ultimately show ?thesis by (simp add: total_of_def)
qed

definition conserved :: "usage \<Rightarrow> bool" where
  "conserved u \<longleftrightarrow> (\<forall>k. lookup0 (u_totals u) k = sum_where (\<lambda>s. total_of s = k) (u_latest u))"

lemma count_unit_conserved:
  assumes "count_unit p e (JStr ''cumulative'') u x = Inr u'" and "conserved u"
    and "CHR '':'' \<notin> set p" and "CHR '':'' \<notin> set e"
  shows "conserved u'"
proof -
  obtain unit val where x: "x = (unit, val)" by (cases x)
  let ?s = "p @ '':'' @ e @ '':'' @ unit" and ?t = "p @ '':'' @ unit"
  from assms(1) have u': "u' = u\<lparr>u_totals := obj_set (u_totals u) ?t (lookup0 (u_totals u) ?t + (js_rat val - lookup0 (u_latest u) ?s)),
      u_latest := obj_set (u_latest u) ?s (js_rat val)\<rparr>"
    by (auto simp: count_unit_def x Let_def if_Inl_Inr)
  have "total_of ?s = ?t" by (rule total_of_scope [OF assms(3,4)])
  then show ?thesis using assms(2) unfolding conserved_def u' by (simp add: lookup0_set sum_where_set)
qed

text \<open>
  Cumulative counters are not counted twice: when all measurements are cumulative and no
  provider or epoch name holds a colon, each total is the sum of the last readings of its epochs.
\<close>

theorem cumulative_usage_conserved:
  assumes "normalizeUsage h (JArr ms) = Inr u"
    and "\<forall>m\<in>set ms. fld m ''mode'' = JStr ''cumulative'' \<and> no_colon (fld m ''provider'') \<and> no_colon (fld m ''epoch'')"
  shows "lookup0 (u_totals u) k = sum_where (\<lambda>scope. total_of scope = k) (u_latest u)"
proof -
  have fold: "for_fold (take_measurement h) no_usage ms = Inr u"
    using assms(1) by (simp add: normalizeUsage_def js_iter_def)
  have "conserved u"
  proof (rule for_fold_invariant [OF fold])
    show "conserved no_usage" by (simp add: conserved_def no_usage_def lookup0_def sum_where_def)
    fix s m t assume m: "m \<in> set ms" and s: "conserved s" and step: "take_measurement h s m = Inr t"
    from step show "conserved t"
    proof (cases rule: take_measurement_cases)
      case counted
      have "conserved (s\<lparr>u_seen := obj_set (u_seen s) (measurement_key m) (serialized h m)\<rparr>)"
        using s by (simp add: conserved_def)
      with counted(4) show ?thesis
        by (rule for_fold_invariant) (use assms(2) m in \<open>auto simp: no_colon_def intro: count_unit_conserved\<close>)
    qed (use s in \<open>auto simp: conserved_def\<close>)
  qed
  then show ?thesis by (simp add: conserved_def)
qed

definition sample_reading :: "string \<Rightarrow> string \<Rightarrow> nat \<Rightarrow> js" where
  "sample_reading i e n = JObj [(''id'', JStr i), (''provider'', JStr ''codex''), (''epoch'', JStr e), (''mode'', JStr ''cumulative''),
     (''available'', JBool True), (''counters'', JObj [(''tokens'', JNat n)])]"

definition sample_usage :: usage where
  "sample_usage = \<lparr>u_seen = map (\<lambda>m. (measurement_key m, serialized const_host m))
       [sample_reading ''a'' ''e1'' 5, sample_reading ''b'' ''e1'' 9, sample_reading ''c'' ''e2'' 4],
     u_latest = [(''codex:e1:tokens'', 9), (''codex:e2:tokens'', 4)], u_totals = [(''codex:tokens'', 13)], u_unknown = []\<rparr>"

lemma sample_usage:
  "normalizeUsage const_host (JArr [sample_reading ''a'' ''e1'' 5, sample_reading ''b'' ''e1'' 9, sample_reading ''c'' ''e2'' 4])
     = Inr sample_usage"
  by (simp add: normalizeUsage_def js_iter_def take_measurement_def sample_reading_def sample_usage_def no_usage_def
      fld_def obj_get_def requireText_def is_text_def js_trim_def is_space_def measurement_key_def own_props_def
      count_unit_def lookup0_def js_rat_def one_of_def js_finite_def Let_def del: bnd_Inr)

theorem usage_redelivery_ignored_witness:
  "normalizeUsage const_host (JArr ([sample_reading ''a'' ''e1'' 5, sample_reading ''b'' ''e1'' 9, sample_reading ''c'' ''e2'' 4]
     @ [sample_reading ''a'' ''e1'' 5])) = Inr sample_usage"
  using usage_redelivery_ignored [OF sample_usage, of "sample_reading ''a'' ''e1'' 5" "[]"] sample_usage by simp

theorem cumulative_usage_conserved_witness:
  "lookup0 (u_totals sample_usage) ''codex:tokens'' = sum_where (\<lambda>scope. total_of scope = ''codex:tokens'') (u_latest sample_usage)
     \<and> lookup0 (u_totals sample_usage) ''codex:tokens'' = 13"
  using cumulative_usage_conserved [OF sample_usage, of "''codex:tokens''"]
  by (simp add: sample_reading_def fld_def obj_get_def no_colon_def) (simp add: sample_usage_def lookup0_def)

section \<open>Facts about budgets\<close>

text \<open>
  What the admission of one attempt under an enforced budget says: use and estimate are known, they
  stay within the limit together, and under a provider-enforced budget the provider can stop.
\<close>

lemma budgetAdmission_enforced:
  assumes "budgetAdmission budget (JNum (Fin r)) (JNum (Fin est)) stop = Inr a" and "a_admitted a"
    and "fld budget ''level'' \<noteq> JStr ''advisory''"
  shows "\<exists>l. fld budget ''limit'' = JNum (Fin l) \<and> r + est \<le> l \<and> 0 \<le> r \<and> 0 \<le> est
    \<and> (fld budget ''level'' = JStr ''provider-enforced'' \<longrightarrow> truthy (js_default stop (JBool False)))"
proof -
  have fin: "js_finite v \<longleftrightarrow> (\<exists>r. v = JNum (Fin r))" for v
    by (auto simp: js_finite_def split: js.splits elim: is_finite.elims)
  from assms show ?thesis by (auto simp: budgetAdmission_def Let_def if_Inl_Inr fin js_rat_def split: if_splits)
qed

section \<open>Facts about the lifecycle\<close>

lemma lifecycle_result_pass:
  assumes "lifecycle_result cand obs0 req = Inr r" and "fld r ''status'' = JStr ''pass''"
  shows "\<exists>obs\<in>set (elems obs0). js_eq (fld obs ''kind'') (fld req ''kind'') \<and> js_eq (fld obs ''target'') (fld req ''target'')
      \<and> js_eq (fld obs ''candidateDigest'') cand
      \<and> lifecycle_valid (js_default (fld req ''channel'') (JStr ''any'')) (js_default (fld req ''exercised'') (JBool False))
          (fld req ''maxAgeMs'') obs"
    and "obs \<in> set (elems obs0) \<Longrightarrow> js_eq (fld obs ''kind'') (fld req ''kind'') \<Longrightarrow> js_eq (fld obs ''target'') (fld req ''target'')
      \<Longrightarrow> js_eq (fld obs ''candidateDigest'') cand \<Longrightarrow> fld obs ''unresolved'' \<noteq> JBool True"
proof -
  let ?match = "lifecycle_match (fld req ''kind'') (fld req ''target'') cand"
  let ?valid = "lifecycle_valid (js_default (fld req ''channel'') (JStr ''any'')) (js_default (fld req ''exercised'') (JBool False))
          (fld req ''maxAgeMs'')"
  from assms(1) obtain os cs where os: "arr_map ''observations.filter'' obs0 = Inr os" and cs: "filter_res ?match os = Inr cs"
    and r: "fld r ''status'' = JStr (if filter ?valid cs \<noteq> [] \<and> \<not> list_ex (\<lambda>obs. js_eq (fld obs ''unresolved'') (JBool True)) cs
              then ''pass'' else ''blocked'')"
    unfolding lifecycle_result_def Let_def bnd_Inr if_Inl_Inr Inr_inject dot_Inr
    by (auto simp: fld_def obj_get_def)
  have e: "elems obs0 = os" using os by (auto simp: arr_map_def split: js.splits)
  from r assms(2) have v: "filter ?valid cs \<noteq> []" and u: "\<forall>obs\<in>set cs. fld obs ''unresolved'' \<noteq> JBool True"
    by (auto simp: list_ex_iff split: if_splits)
  from v obtain ob where "ob \<in> set cs" "?valid ob" by (auto simp: filter_empty_conv)
  with filter_res_Inr(1,3) [OF cs] show "\<exists>obs\<in>set (elems obs0). js_eq (fld obs ''kind'') (fld req ''kind'') \<and> js_eq (fld obs ''target'') (fld req ''target'')
      \<and> js_eq (fld obs ''candidateDigest'') cand \<and> ?valid obs"
    by (intro bexI [of _ ob]) (auto simp: e lifecycle_match_def dot_Inr)
  show "fld obs ''unresolved'' \<noteq> JBool True" if "obs \<in> set (elems obs0)" "js_eq (fld obs ''kind'') (fld req ''kind'')"
      "js_eq (fld obs ''target'') (fld req ''target'')" "js_eq (fld obs ''candidateDigest'') cand"
    using filter_res_Inr(2) [OF cs, of obs] u that by (auto simp: e lifecycle_match_def dot_Inr)
qed

text \<open>
  A lifecycle resolution passes only on evidence: for every required step there is a verified,
  passing observation of that kind and target on exactly this candidate, within the required age,
  exercised and on the required channel when that is asked for, and no observation of that step is
  unresolved, so a later pass does not hide an unresolved failure.
\<close>

theorem lifecycle_pass_sound:
  assumes "resolveLifecycle h cand (JArr obs) (JArr reqs) = Inr res" and "fld (JObj res) ''status'' = JStr ''pass''"
    and "req \<in> set reqs"
  shows "(\<exists>o1\<in>set obs. js_eq (fld o1 ''kind'') (fld req ''kind'') \<and> js_eq (fld o1 ''target'') (fld req ''target'')
      \<and> js_eq (fld o1 ''candidateDigest'') cand
      \<and> lifecycle_valid (js_default (fld req ''channel'') (JStr ''any'')) (js_default (fld req ''exercised'') (JBool False))
          (fld req ''maxAgeMs'') o1)
    \<and> (\<forall>o1\<in>set obs. js_eq (fld o1 ''kind'') (fld req ''kind'') \<and> js_eq (fld o1 ''target'') (fld req ''target'')
      \<and> js_eq (fld o1 ''candidateDigest'') cand \<longrightarrow> fld o1 ''unresolved'' \<noteq> JBool True)"
proof -
  from assms(1) obtain results where rs: "map_res (lifecycle_result cand (JArr obs)) reqs = Inr results"
    and res: "res = sealDeliveryRecord h ''lifecycle-resolution'' [(''candidateDigest'', cand), (''results'', JArr results),
       (''status'', JStr (if list_all (\<lambda>r. js_eq (fld r ''status'') (JStr ''pass'')) results then ''pass'' else ''blocked''))]"
    by (auto simp: resolveLifecycle_def arr_map_def js_default_def)
  have "fld (JObj res) ''status'' = JStr (if list_all (\<lambda>r. js_eq (fld r ''status'') (JStr ''pass'')) results then ''pass'' else ''blocked'')"
    unfolding res by (simp add: fld_seal_other) (simp add: fld_def obj_get_def)
  with assms(2) have all: "\<forall>r\<in>set results. fld r ''status'' = JStr ''pass''"
    by (auto simp: list_all_iff split: if_splits)
  from rs assms(3) obtain r where "lifecycle_result cand (JArr obs) req = Inr r" "r \<in> set results"
    by (blast dest: map_res_elem)
  with all lifecycle_result_pass [of cand "JArr obs" req r] show ?thesis by auto
qed

definition sample_release :: js where
  "sample_release = JObj [(''id'', JStr ''o1''), (''kind'', JStr ''release''), (''target'', JStr ''main''),
     (''candidateDigest'', JStr ''d''), (''sourceVerified'', JBool True), (''outcome'', JStr ''pass''),
     (''prerelease'', JBool False), (''ageMs'', JNat 10)]"

definition sample_required :: js where
  "sample_required = JObj [(''kind'', JStr ''release''), (''target'', JStr ''main''), (''channel'', JStr ''stable''), (''maxAgeMs'', JNat 60)]"

theorem lifecycle_pass_sound_witness:
  "\<exists>res. resolveLifecycle const_host (JStr ''d'') (JArr [sample_release]) (JArr [sample_required]) = Inr res
     \<and> fld (JObj res) ''status'' = JStr ''pass'' \<and> fld sample_release ''unresolved'' \<noteq> JBool True"
proof -
  let ?r = "JObj [(''kind'', JStr ''release''), (''target'', JStr ''main''), (''channel'', JStr ''stable''),
      (''status'', JStr ''pass''), (''observationIds'', JArr [JStr ''o1''])]"
  let ?res = "sealDeliveryRecord const_host ''lifecycle-resolution'' [(''candidateDigest'', JStr ''d''),
      (''results'', JArr [?r]), (''status'', JStr ''pass'')]"
  have ev: "lifecycle_result (JStr ''d'') (JArr [sample_release]) sample_required = Inr ?r"
    by (simp add: lifecycle_result_def sample_release_def sample_required_def lifecycle_match_def lifecycle_valid_def arr_map_def
        js_default_def lifecycle_kinds_def fld_def obj_get_def proto_names_def one_of_def js_finite_def num_le_def Let_def dot_def
        del: bnd_Inr)
  have p: "fld ?r ''status'' = JStr ''pass''" by (simp add: fld_def obj_get_def)
  have r: "resolveLifecycle const_host (JStr ''d'') (JArr [sample_release]) (JArr [sample_required]) = Inr ?res"
    by (simp add: resolveLifecycle_def arr_map_def js_default_def ev p del: bnd_Inr)
  have s: "fld (JObj ?res) ''status'' = JStr ''pass''"
    by (simp add: fld_seal_other) (simp add: fld_def obj_get_def)
  have "fld sample_release ''unresolved'' \<noteq> JBool True"
    using lifecycle_pass_sound [OF r s, of sample_required]
    by (simp add: sample_release_def sample_required_def fld_def obj_get_def proto_names_def)
  with r s show ?thesis by blast
qed

end
