(* ===== verification/Execution.thy ===== *)
theory Execution
  imports RunTypes
begin

text \<open>
  Execution intents (src/lib/core/execution-intent.mjs) and execution receipts
  (src/lib/core/execution-receipt.mjs). The validators collect error messages; a report is valid when
  there are none. Four-eyes independence compares the model families and capability tiers of the
  builder and the reviewer of a change.
\<close>

section \<open>Intents\<close>

definition EXECUTION_INTENTS :: "string list" where
  "EXECUTION_INTENTS = [''plan-before-edit'', ''delegated-work'', ''parallel-fanout'', ''isolated-workspace'',
     ''background-execution'', ''structured-result'', ''bounded-loop'', ''workflow-orchestration'']"

definition TOOL_PERMISSIONS :: "string list" where
  "TOOL_PERMISSIONS = [''read'', ''shell'', ''edit'', ''network'', ''external-write'', ''deploy'']"

definition CONTROL_REQUIREMENTS :: "string list" where
  "CONTROL_REQUIREMENTS = [''sandbox'', ''branch-protection'', ''human-approval'', ''credential-isolation'',
     ''network-policy'', ''single-writer'', ''review-independence'', ''authority-may-only-narrow'']"

definition INTENT_IMPLEMENTATIONS :: "string list" where
  "INTENT_IMPLEMENTATIONS = [''native'', ''plugin'', ''adapter'', ''emulated'', ''manual'']"

definition INTENT_FIDELITIES :: "string list" where
  "INTENT_FIDELITIES = [''full'', ''partial'', ''degraded'']"

definition INTENT_EVIDENCE_LEVELS :: "string list" where
  "INTENT_EVIDENCE_LEVELS = [''probed'', ''contract-tested'', ''self-declared'']"

definition INTENT_STATUSES :: "string list" where
  "INTENT_STATUSES = [''satisfied'', ''degraded'', ''skipped'', ''blocked'']"

text \<open>\<open>[...new Set(xs)]\<close>: the first occurrence of every value.\<close>

definition js_dedup :: "js list \<Rightarrow> js list" where
  "js_dedup xs = foldl (\<lambda>acc x. if js_includes acc x then acc else acc @ [x]) [] xs"

text \<open>The elements \<open>new Set(v)\<close> takes; \<open>null\<close> counts as no elements.\<close>

definition set_items :: "js \<Rightarrow> js list res" where
  "set_items v = (if v = JNull then Inr [] else js_iter v)"

text \<open>\<open>list(value)\<close> of the source.\<close>

definition as_list :: "js \<Rightarrow> js list" where
  "as_list v = (case v of JArr xs \<Rightarrow> xs | _ \<Rightarrow> if truthy v then [v] else [])"

text \<open>\<open>{ ...value }\<close> gives an empty object on \<open>undefined\<close> and \<open>null\<close>.\<close>

definition normalizeIntentRequirement :: "js \<Rightarrow> js" where
  "normalizeIntentRequirement v =
     (let r = JObj (case v of JStr s \<Rightarrow> [(''id'', v)] | _ \<Rightarrow> own_props v) in
      JObj [(''id'', fld r ''id''), (''required'', JBool (fld r ''required'' \<noteq> JBool False)),
        (''fallback'', coal (fld r ''fallback'') JNull), (''parameters'', coal (fld r ''parameters'') (JObj []))])"

definition createExecutionIntent :: "js \<Rightarrow> js \<Rightarrow> js \<Rightarrow> js \<Rightarrow> js \<Rightarrow> js res" where
  "createExecutionIntent subject requirements controls requiredFacets limits =
     (case js_default requirements (JArr []) of
        JArr rs \<Rightarrow>
          bnd (set_items (js_default controls (jstrs [''single-writer'', ''authority-may-only-narrow'']))) (\<lambda>cs.
          bnd (set_items (js_default requiredFacets (jstrs [''execution'', ''evidence'']))) (\<lambda>fs.
          Inr (JObj [(''version'', JNat 1), (''subject'', js_default subject JNull),
            (''requirements'', JArr (map normalizeIntentRequirement rs)),
            (''controls'', JArr (js_dedup cs)), (''requiredFacets'', JArr (js_dedup fs)),
            (''limits'', JObj (own_props (js_default limits (JObj []))))])))
      | _ \<Rightarrow> Inl (TypeError ''requirements.map is not a function''))"

fun requirement_errors :: "host \<Rightarrow> nat \<Rightarrow> js list \<Rightarrow> js list \<Rightarrow> string list" where
  "requirement_errors h i seen [] = []"
| "requirement_errors h i seen (r # rs) =
     (let prefix = ''requirements['' @ nat_str i @ '']''; rid = fld r ''id''; ps = fld r ''parameters'' in
      (if \<not> one_of EXECUTION_INTENTS rid
       then [prefix @ ''.id is unsupported: '' @ js_string h (coal rid (JStr []))] else [])
      @ (if js_includes seen rid then [prefix @ ''.id must be unique''] else [])
      @ (if \<not> is_bool (fld r ''required'') then [prefix @ ''.required must be boolean''] else [])
      @ (if \<not> truthy ps \<or> \<not> typeof_object ps then [prefix @ ''.parameters must be an object''] else [])
      @ requirement_errors h (Suc i) (rid # seen) rs)"

definition entries :: "string \<Rightarrow> js \<Rightarrow> js list res" where
  "entries what v = (case v of JArr xs \<Rightarrow> Inr xs | _ \<Rightarrow> Inl (TypeError (what @ ''.entries is not a function'')))"

definition validateExecutionIntent :: "host \<Rightarrow> js \<Rightarrow> string list res" where
  "validateExecutionIntent h intent =
     bnd (entries ''intent.requirements'' (coal (fld intent ''requirements'') (JArr []))) (\<lambda>rs.
     bnd (js_iter (coal (fld intent ''controls'') (JArr []))) (\<lambda>cs.
     Inr ((if \<not> js_eq (fld intent ''version'') (JNat 1) then [''version must be 1''] else [])
       @ (if \<not> is_array (fld intent ''requirements'') then [''requirements must be an array''] else [])
       @ requirement_errors h 0 [] rs
       @ (if \<not> is_array (fld intent ''controls'') then [''controls must be an array''] else [])
       @ map (\<lambda>c. ''unsupported control: '' @ js_string h c) (filter (\<lambda>c. \<not> one_of CONTROL_REQUIREMENTS c) cs)
       @ (if \<not> is_array (fld intent ''requiredFacets'') then [''requiredFacets must be an array''] else []))))"

definition namespace_fields :: "(string \<times> string list) list" where
  "namespace_fields = [(''requiredExecutionIntents'', EXECUTION_INTENTS), (''requiredToolPermissions'', TOOL_PERMISSIONS),
     (''controlRequirements'', CONTROL_REQUIREMENTS)]"

definition validateRequirementNamespaces :: "host \<Rightarrow> js \<Rightarrow> string list res" where
  "validateRequirementNamespaces h requirements0 =
     (let requirements = js_default requirements0 (JObj []) in
      bnd (map_res (\<lambda>(field, allowed). bnd (dot requirements field) (\<lambda>v.
        Inr (map (\<lambda>x. field @ '' contains unsupported value: '' @ js_string h x)
          (filter (\<lambda>x. \<not> one_of allowed x) (as_list v))))) namespace_fields) (\<lambda>errors. Inr (concat errors)))"

definition bounded_loop_errors :: "string \<Rightarrow> js \<Rightarrow> string list" where
  "bounded_loop_errors prefix item =
     (let ps = fld item ''parameters'' in
      (if (case js_int (fld ps ''maxIterations'') of None \<Rightarrow> True | Some n \<Rightarrow> n < 1)
       then [prefix @ '' bounded-loop must record maxIterations >= 1''] else [])
      @ (if \<not> is_array (fld ps ''stopConditions'') \<or> elems (fld ps ''stopConditions'') = []
         then [prefix @ '' bounded-loop must record stopConditions''] else []))"

definition evidence_item_errors :: "nat \<Rightarrow> js \<Rightarrow> string list" where
  "evidence_item_errors i item =
     (let prefix = ''executionIntentsUsed['' @ nat_str i @ '']'';
          optional = (\<lambda>field allowed. if truthy (fld item field) \<and> \<not> one_of allowed (fld item field)
            then [prefix @ ''.'' @ field @ '' is invalid''] else []) in
      (if \<not> one_of EXECUTION_INTENTS (fld item ''id'') then [prefix @ ''.id is unsupported''] else [])
      @ (if \<not> one_of INTENT_STATUSES (fld item ''status'') then [prefix @ ''.status is invalid''] else [])
      @ optional ''implementation'' INTENT_IMPLEMENTATIONS
      @ optional ''fidelity'' INTENT_FIDELITIES
      @ optional ''evidence'' INTENT_EVIDENCE_LEVELS
      @ (if fld item ''id'' = JStr ''bounded-loop'' then bounded_loop_errors prefix item else [])
      @ (if fld item ''id'' = JStr ''plan-before-edit'' \<and> truthy (fld item ''required'') \<and> \<not> truthy (fld item ''artifact'')
         then [prefix @ '' required plan-before-edit must record an artifact''] else []))"

definition validateExecutionIntentEvidence :: "js \<Rightarrow> string list res" where
  "validateExecutionIntentEvidence evidence =
     bnd (dot (js_default evidence (JObj [])) ''executionIntentsUsed'') (\<lambda>used.
     Inr ((if \<not> is_array used then [''executionIntentsUsed must be an array''] else [])
       @ concat (map (\<lambda>(i, item). evidence_item_errors i item) (enumerate 0 (elems used)))))"

section \<open>Four eyes\<close>

definition MODEL_FAMILIES :: "string list" where
  "MODEL_FAMILIES = [''anthropic'', ''openai'', ''google'', ''xai'', ''qwen'', ''zai'', ''deepseek'']"

definition CAPABILITY_TIER_RANK :: "(string \<times> js) list" where
  "CAPABILITY_TIER_RANK = [(''lightweight'', JNat 0), (''balanced'', JNat 1), (''deep-reasoning'', JNat 2), (''architect-lead'', JNat 3)]"

definition inferModelFamily :: "host \<Rightarrow> js \<Rightarrow> string" where
  "inferModelFamily h receipt =
     (let inferred = modelFamily h (fld (fld receipt ''actual'') ''model'');
          explicit = fld (fld receipt ''actual'') ''providerFamily'' in
      if explicit \<noteq> JUndef
      then if \<not> one_of MODEL_FAMILIES explicit \<or> (inferred \<noteq> ''unknown'' \<and> \<not> js_eq (JStr inferred) explicit)
           then ''unknown'' else str_of explicit
      else inferred)"

text \<open>
  \<open>CAPABILITY_TIER_RANK[tier] ?? 1\<close>. The table is an ordinary object: a tier named like an
  inherited member reads that member.
\<close>

definition tier_rank :: "host \<Rightarrow> js \<Rightarrow> js" where
  "tier_rank h tier = coal (obj_get CAPABILITY_TIER_RANK (js_string h tier)) (JNat 1)"

text \<open>\<open>a < b\<close> on two ranks: two inherited members compare by their text, one of them with a number never.\<close>

fun rank_less :: "host \<Rightarrow> js \<Rightarrow> js \<Rightarrow> bool" where
  "rank_less h (JNum a) (JNum b) = num_less a b"
| "rank_less h (JBuiltin a) (JBuiltin b) = (js_string h (JBuiltin a) < js_string h (JBuiltin b))"
| "rank_less h _ _ = False"

record four_eyes =
  fe_errors :: "string list"
  fe_builderFamily :: string
  fe_reviewerFamily :: string
  fe_builderTier :: js
  fe_reviewerTier :: js

definition validateFourEyesIndependence :: "host \<Rightarrow> js \<Rightarrow> js \<Rightarrow> four_eyes" where
  "validateFourEyesIndependence h builder reviewer =
     (let bf = inferModelFamily h builder; rf = inferModelFamily h reviewer;
          bt = coal (fld (fld builder ''metadata'') ''capabilityTier'') (JStr ''balanced'');
          rt = coal (fld (fld reviewer ''metadata'') ''capabilityTier'') (JStr ''deep-reasoning'');
          errors = (if \<not> truthy builder \<or> \<not> truthy reviewer
            then [''both builderReceipt and reviewerReceipt are required'']
            else (if bf = ''unknown'' \<or> rf = ''unknown''
                  then [''Four-Eyes independence requires verified canonical model families''] else [])
              @ (if bf = rf then [''Four-Eyes independence violation: reviewer family ('' @ rf
                  @ '') matches builder family ('' @ bf @ '')''] else [])
              @ (if rank_less h (tier_rank h rt) (tier_rank h bt)
                 then [''Four-Eyes tier violation: reviewer tier ('' @ js_string h rt
                  @ '') is below builder tier ('' @ js_string h bt @ '')''] else []))
      in \<lparr>fe_errors = errors, fe_builderFamily = bf, fe_reviewerFamily = rf, fe_builderTier = bt, fe_reviewerTier = rt\<rparr>)"

section \<open>Receipts\<close>

definition createExecutionReceipt :: "js \<Rightarrow> js res" where
  "createExecutionReceipt args0 =
     (let args = js_default args0 (JObj []);
          arg = fld args; obj = (\<lambda>k. js_default (arg k) (JObj [])); arr = (\<lambda>k. js_default (arg k) (JArr []));
          binding = arg ''binding''; actual = obj ''actual'';
          bound = (\<lambda>k. coal (fld binding k) JNull) in
      if nullish args then Inl (TypeError ''Cannot destructure'')
      else bnd (dot actual ''platform'') (\<lambda>pf.
        Inr (JObj [(''version'', JNat 1), (''subject'', arg ''subject''), (''status'', arg ''status''),
          (''startedAt'', arg ''startedAt''), (''completedAt'', arg ''completedAt''),
          (''provider'', bound ''provider''), (''executionTarget'', bound ''executionTarget''),
          (''transport'', bound ''transport''), (''delegationBoundary'', bound ''delegationBoundary''),
          (''collaborationMode'', coal (fld (arg ''intent'') ''mode'') JNull),
          (''degraded'', coal (fld binding ''degraded'') (JBool False)),
          (''requestDigest'', arg ''requestDigest''), (''planDigest'', arg ''planDigest''),
          (''actual'', JObj ([(''platform'', coal pf (bound ''provider'')),
             (''target'', coal (fld actual ''target'') (bound ''executionTarget'')),
             (''transport'', coal (fld actual ''transport'') (bound ''transport'')),
             (''model'', coal (fld actual ''model'') JNull)]
             @ (if fld actual ''providerFamily'' \<noteq> JUndef then [(''providerFamily'', fld actual ''providerFamily'')] else []))),
          (''boundaries'', obj ''boundaries''), (''revision'', obj ''revision''), (''writerLease'', obj ''writerLease''),
          (''timing'', JObj (obj_spread [(''startedAt'', arg ''startedAt''), (''completedAt'', arg ''completedAt'')]
             (own_props (obj ''timing'')))),
          (''digests'', obj ''digests''), (''executionIntentSource'', obj ''executionIntentSource''),
          (''cleanup'', obj ''cleanup''), (''disclosure'', obj ''disclosure''), (''redaction'', obj ''redaction''),
          (''inputRefs'', arr ''inputRefs''), (''outputRefs'', arr ''outputRefs''), (''validationRefs'', arr ''validationRefs''),
          (''metadata'', obj ''metadata'')])))"

definition nonEmptyString :: "js \<Rightarrow> bool" where
  "nonEmptyString v = (is_string v \<and> v \<noteq> JStr [])"

definition stringArray :: "js \<Rightarrow> bool" where
  "stringArray v = (is_array v \<and> list_all is_string (elems v))"

text \<open>\<open>/^[a-f0-9]{64}$/i.test(v ?? '')\<close>\<close>

definition sha_test :: "host \<Rightarrow> js \<Rightarrow> bool" where
  "sha_test h v = is_hex64 (js_lower (js_string h (coal v (JStr []))))"

abbreviation check :: "bool \<Rightarrow> string \<Rightarrow> string list" where
  "check bad message \<equiv> (if bad then [message] else [])"

definition boundary_errors :: "host \<Rightarrow> js \<Rightarrow> js \<Rightarrow> string \<Rightarrow> string list res" where
  "boundary_errors h config boundaries field =
     (let v = fld boundaries field; nullable = field \<in> {''effective'', ''enforced'', ''observed''};
          bad = [''boundaries.'' @ field @ '' is not a canonical action boundary''] in
      if \<not> has_own (own_props (coal boundaries (JObj []))) field
      then Inr [''boundaries.'' @ field @ '' is required'']
      else if v = JNull then Inr (if nullable then [] else bad)
      else bnd (sdlcVocabulary config) (\<lambda>voc. bnd (includes_res h (v_actionBoundaries voc) v) (\<lambda>b.
        Inr (if b then [] else bad))))"

definition revision_errors :: "js \<Rightarrow> string \<Rightarrow> string list" where
  "revision_errors rv field =
     (let v = fld rv field in
      if \<not> has_own (own_props (coal rv (JObj []))) field then [''revision.'' @ field @ '' is required'']
      else check (v \<noteq> JNull \<and> \<not> nonEmptyString v) (''revision.'' @ field @ '' must be a non-empty string or null''))"

definition ref_errors :: "host \<Rightarrow> js \<Rightarrow> js \<Rightarrow> string \<Rightarrow> string list res" where
  "ref_errors h config receipt field =
     (case fld receipt field of
        JArr refs \<Rightarrow> bnd (map_res (\<lambda>(i, ref). bnd (validateArtifactRef h ref config) (\<lambda>result.
            Inr (check (\<not> ok result) (field @ ''['' @ nat_str i @ '']: '' @ js_join ''; '' (r_errors result)))))
          (enumerate 0 refs)) (\<lambda>es. Inr (concat es))
      | _ \<Rightarrow> Inr [field @ '' must be an array''])"

definition head_errors :: "host \<Rightarrow> js \<Rightarrow> string list" where
  "head_errors h receipt =
     check (\<not> js_eq (fld receipt ''version'') (JNat 1)) ''version must be 1''
     @ check (\<not> nonEmptyString (fld receipt ''subject'')) ''subject is required''
     @ check (\<not> one_of [''pass'', ''failed'', ''blocked'', ''cancelled''] (fld receipt ''status'')) ''status is invalid''
     @ concat (map (\<lambda>f. check (\<not> sha_test h (fld receipt f)) (f @ '' must be a sha256 digest'')) [''requestDigest'', ''planDigest''])
     @ concat (map (\<lambda>f. check (\<not> nonEmptyString (fld (fld receipt ''actual'') f)) (''actual.'' @ f @ '' is required''))
         [''platform'', ''target'', ''transport''])
     @ (let model = fld (fld receipt ''actual'') ''model'' in
        if \<not> has_own (own_props (coal (fld receipt ''actual'') (JObj []))) ''model'' then [''actual.model is required'']
        else check (model \<noteq> JNull \<and> \<not> is_string model) ''actual.model must be a string or null'')"

definition body_errors :: "host \<Rightarrow> js \<Rightarrow> string list" where
  "body_errors h receipt =
     (let lease = fld receipt ''writerLease''; timing = fld receipt ''timing''; source = fld receipt ''executionIntentSource'';
          cleanup = fld receipt ''cleanup''; disclosure = fld receipt ''disclosure''; redaction = fld receipt ''redaction'' in
      concat (map (revision_errors (fld receipt ''revision'')) [''source'', ''workspaceFingerprint''])
      @ concat (map (\<lambda>f. check (\<not> nonEmptyString (fld lease f)) (''writerLease.'' @ f @ '' is required'')) [''id'', ''owner''])
      @ check (\<not> one_of [''held'', ''released'', ''reconciled''] (fld lease ''status'')) ''writerLease.status is invalid''
      @ concat (map (\<lambda>f. check (\<not> truthy (fld timing f) \<or> date_parse h (fld timing f) = NaN)
          (''timing.'' @ f @ '' must be a date-time'')) [''startedAt'', ''completedAt''])
      @ check (case js_int (fld timing ''timeoutMs'') of None \<Rightarrow> True | Some n \<Rightarrow> n < 0)
          ''timing.timeoutMs must be a non-negative integer''
      @ check (\<not> is_bool (fld timing ''cancelled'')) ''timing.cancelled must be boolean''
      @ concat (map (\<lambda>f. check (\<not> sha_test h (fld (fld receipt ''digests'') f)) (''digests.'' @ f @ '' must be a sha256 digest''))
          [''artifacts'', ''changes'', ''output''])
      @ check (\<not> nonEmptyString (fld source ''provider'')) ''executionIntentSource.provider is required''
      @ check (\<not> stringArray (fld source ''declared'')) ''executionIntentSource.declared must be an array of strings''
      @ check (\<not> is_array (fld source ''resolutions'')) ''executionIntentSource.resolutions must be an array''
      @ check (\<not> one_of [''clean'', ''partial'', ''failed'', ''not-required''] (fld cleanup ''status'')) ''cleanup.status is invalid''
      @ check (\<not> stringArray (fld cleanup ''actions'')) ''cleanup.actions must be an array of strings''
      @ check (\<not> is_bool (fld disclosure ''authorized'')) ''disclosure.authorized must be boolean''
      @ check (\<not> is_string (fld disclosure ''scope'')) ''disclosure.scope is required''
      @ check (\<not> is_bool (fld redaction ''applied'')) ''redaction.applied must be boolean''
      @ check (\<not> nonEmptyString (fld redaction ''policy'')) ''redaction.policy is required'')"

definition validateExecutionReceipt :: "host \<Rightarrow> js \<Rightarrow> js \<Rightarrow> string list res" where
  "validateExecutionReceipt h receipt config0 =
     (let config = js_default config0 (JObj []); builder = fld (fld receipt ''metadata'') ''builderReceipt'' in
      bnd (map_res (boundary_errors h config (fld receipt ''boundaries''))
        [''requested'', ''effective'', ''enforced'', ''observed'', ''declared'']) (\<lambda>bs.
      bnd (map_res (ref_errors h config receipt) [''inputRefs'', ''outputRefs'', ''validationRefs'']) (\<lambda>rs.
      Inr (head_errors h receipt @ concat bs @ body_errors h receipt @ concat rs
        @ (if truthy builder then fe_errors (validateFourEyesIndependence h builder receipt) else [])))))"

section \<open>Facts about intents\<close>

lemma js_dedup_snoc: "js_dedup (xs @ [x]) = (if js_includes (js_dedup xs) x then js_dedup xs else js_dedup xs @ [x])"
  by (simp add: js_dedup_def)

lemma set_js_dedup: "set (js_dedup xs) = set xs"
proof (induction xs rule: rev_induct)
  case Nil
  show ?case by (simp add: js_dedup_def)
next
  case (snoc x xs)
  then show ?case using js_includes_in_set [of "js_dedup xs" x] by (auto simp: js_dedup_snoc)
qed

lemma normalized_required_bool: "is_bool (fld (normalizeIntentRequirement v) ''required'')"
  by (simp add: normalizeIntentRequirement_def Let_def fld_def obj_get_def)

text \<open>A requirement the validator accepts, up to uniqueness.\<close>

definition supported :: "js \<Rightarrow> bool" where
  "supported r \<longleftrightarrow> one_of EXECUTION_INTENTS (fld r ''id'') \<and> is_bool (fld r ''required'')
     \<and> truthy (fld r ''parameters'') \<and> typeof_object (fld r ''parameters'')"

lemma requirement_errors_Nil:
  "requirement_errors h i seen rs = [] \<longleftrightarrow> (\<forall>r\<in>set rs. supported r \<and> fld r ''id'' \<notin> set seen) \<and> distinct (map (\<lambda>r. fld r ''id'') rs)"
proof (induction rs arbitrary: i seen)
  case Nil
  show ?case by simp
next
  case (Cons r rs)
  have inc: "one_of EXECUTION_INTENTS (fld r ''id'') \<Longrightarrow> js_includes seen (fld r ''id'') \<longleftrightarrow> fld r ''id'' \<in> set seen"
    by (auto simp: one_of_iff js_includes_JStr)
  have im: "fld r ''id'' \<notin> (\<lambda>r. fld r ''id'') ` set rs \<longleftrightarrow> (\<forall>ra\<in>set rs. fld ra ''id'' \<noteq> fld r ''id'')" by (metis (no_types, lifting) image_iff)
  show ?case using inc unfolding list.map distinct.simps set_map im by (auto simp: Let_def Cons.IH supported_def)
qed

lemma validateExecutionIntent_Nil:
  "validateExecutionIntent h i = Inr [] \<longleftrightarrow> fld i ''version'' = JNat 1 \<and> is_array (fld i ''requirements'')
     \<and> (\<forall>r\<in>set (elems (fld i ''requirements'')). supported r) \<and> distinct (map (\<lambda>r. fld r ''id'') (elems (fld i ''requirements'')))
     \<and> is_array (fld i ''controls'') \<and> (\<forall>c\<in>set (elems (fld i ''controls'')). one_of CONTROL_REQUIREMENTS c)
     \<and> is_array (fld i ''requiredFacets'')"
proof -
  have arr: "is_array v \<longleftrightarrow> (\<exists>xs. v = JArr xs)" for v by (cases v) auto
  show ?thesis
    by (auto simp: validateExecutionIntent_def requirement_errors_Nil arr coal_def entries_def js_iter_def filter_empty_conv
        split: if_splits)
qed

text \<open>
  Creating an intent and validating it agree: a created intent is valid exactly when the
  requirements name distinct known intents with object parameters and the controls are known, for
  requirements given by name or as objects, and whatever the subject, facets and limits are.
\<close>

theorem created_intent_valid:
  assumes "createExecutionIntent subject (JArr rs) controls facets limits = Inr i"
    and "set_items (js_default controls (jstrs [''single-writer'', ''authority-may-only-narrow''])) = Inr cs"
  shows "validateExecutionIntent h i = Inr [] \<longleftrightarrow>
    (\<forall>r\<in>set rs. one_of EXECUTION_INTENTS (fld (normalizeIntentRequirement r) ''id'')
       \<and> truthy (fld (normalizeIntentRequirement r) ''parameters'') \<and> typeof_object (fld (normalizeIntentRequirement r) ''parameters''))
    \<and> distinct (map (\<lambda>r. fld (normalizeIntentRequirement r) ''id'') rs) \<and> (\<forall>c\<in>set cs. one_of CONTROL_REQUIREMENTS c)"
proof -
  have d: "js_default (JArr rs) (JArr []) = JArr rs" by (simp add: js_default_def)
  from assms obtain fs lim where i: "i = JObj [(''version'', JNat 1), (''subject'', js_default subject JNull),
      (''requirements'', JArr (map normalizeIntentRequirement rs)), (''controls'', JArr (js_dedup cs)),
      (''requiredFacets'', JArr (js_dedup fs)), (''limits'', lim)]"
    by (auto simp: createExecutionIntent_def d)
  show ?thesis
    by (simp add: i validateExecutionIntent_Nil fld_own supported_def set_js_dedup o_def normalized_required_bool)
qed

theorem created_intent_valid_witness:
  "\<exists>i. createExecutionIntent JUndef (JArr [JStr ''delegated-work'', JStr ''bounded-loop'']) JUndef JUndef JUndef = Inr i
     \<and> validateExecutionIntent const_host i = Inr []"
proof -
  have e: "\<exists>i. createExecutionIntent JUndef (JArr [JStr ''delegated-work'', JStr ''bounded-loop'']) JUndef JUndef JUndef = Inr i"
    by (simp add: createExecutionIntent_def js_default_def set_items_def js_iter_def)
  then obtain i where i: "createExecutionIntent JUndef (JArr [JStr ''delegated-work'', JStr ''bounded-loop'']) JUndef JUndef JUndef = Inr i"
    by blast
  have c: "set_items (js_default JUndef (jstrs [''single-writer'', ''authority-may-only-narrow'']))
      = Inr [JStr ''single-writer'', JStr ''authority-may-only-narrow'']"
    by (simp add: set_items_def js_default_def js_iter_def)
  have "validateExecutionIntent const_host i = Inr []"
    unfolding created_intent_valid [OF i c]
    by (simp add: normalizeIntentRequirement_def Let_def fld_def obj_get_def one_of_def EXECUTION_INTENTS_def CONTROL_REQUIREMENTS_def
        coal_def proto_names_def)
  with i show ?thesis by blast
qed

section \<open>Facts about four eyes\<close>

lemma modelFamily_known: "modelFamily h m = ''unknown'' \<or> modelFamily h m \<in> set MODEL_FAMILIES"
  by (simp add: modelFamily_def Let_def MODEL_FAMILIES_def)

lemma inferModelFamily_known: "inferModelFamily h r = ''unknown'' \<or> inferModelFamily h r \<in> set MODEL_FAMILIES"
  using modelFamily_known by (auto simp: inferModelFamily_def Let_def one_of_iff)

lemma validateExecutionReceipt_four_eyes:
  "validateExecutionReceipt h r config = Inr [] \<Longrightarrow> truthy (fld (fld r ''metadata'') ''builderReceipt'')
     \<Longrightarrow> fe_errors (validateFourEyesIndependence h (fld (fld r ''metadata'') ''builderReceipt'') r) = []"
  by (auto simp: validateExecutionReceipt_def Let_def)

text \<open>The tier a receipt claims, with the default of its side.\<close>

definition claimed_tier :: "string \<Rightarrow> js \<Rightarrow> js" where
  "claimed_tier d receipt = coal (fld (fld receipt ''metadata'') ''capabilityTier'') (JStr d)"

lemma four_eyes_errors_Nil:
  assumes "truthy b" and "truthy r"
  shows "fe_errors (validateFourEyesIndependence h b r) = [] \<longleftrightarrow>
    inferModelFamily h b \<noteq> ''unknown'' \<and> inferModelFamily h r \<noteq> ''unknown'' \<and> inferModelFamily h b \<noteq> inferModelFamily h r
    \<and> \<not> rank_less h (tier_rank h (claimed_tier ''deep-reasoning'' r)) (tier_rank h (claimed_tier ''balanced'' b))"
  using assms by (simp add: validateFourEyesIndependence_def Let_def claimed_tier_def)

text \<open>The seniority a tier name stands for; names outside the table count as balanced.\<close>

definition seniority :: "string \<Rightarrow> nat" where
  "seniority k = (if k = ''architect-lead'' then 3 else if k = ''deep-reasoning'' then 2 else if k = ''lightweight'' then 0 else 1)"

lemma tier_rank_seniority:
  "js_string h t \<notin> set proto_names \<Longrightarrow> tier_rank h t = JNat (seniority (js_string h t))"
  by (auto simp: tier_rank_def obj_get_def coal_def CAPABILITY_TIER_RANK_def seniority_def)

text \<open>
  C38. A valid receipt that names a builder's receipt has four eyes: the builder's and the reviewer's
  model families are both known and differ, whatever tiers they claim. Unless one of the two claimed
  tiers is named like a member every object inherits (\<open>constructor\<close>, \<open>toString\<close>, ...), the reviewer
  is also at least as senior as the builder, a name outside the table counting as balanced and a
  missing one as balanced for the builder and deep reasoning for the reviewer.
\<close>

theorem four_eyes_sound:
  assumes "validateExecutionReceipt h r config = Inr []" and "b = fld (fld r ''metadata'') ''builderReceipt''" and "truthy b"
  shows "inferModelFamily h b \<in> set MODEL_FAMILIES \<and> inferModelFamily h r \<in> set MODEL_FAMILIES
    \<and> inferModelFamily h b \<noteq> inferModelFamily h r
    \<and> (js_string h (claimed_tier ''deep-reasoning'' r) \<notin> set proto_names \<and> js_string h (claimed_tier ''balanced'' b) \<notin> set proto_names
       \<longrightarrow> seniority (js_string h (claimed_tier ''balanced'' b)) \<le> seniority (js_string h (claimed_tier ''deep-reasoning'' r)))"
proof -
  have "truthy r" using assms(2,3) by (cases r) (auto simp: fld_def obj_get_def proto_names_def)
  with validateExecutionReceipt_four_eyes [OF assms(1)] assms(2,3)
  have "inferModelFamily h b \<noteq> ''unknown'' \<and> inferModelFamily h r \<noteq> ''unknown'' \<and> inferModelFamily h b \<noteq> inferModelFamily h r
    \<and> \<not> rank_less h (tier_rank h (claimed_tier ''deep-reasoning'' r)) (tier_rank h (claimed_tier ''balanced'' b))"
    by (simp add: four_eyes_errors_Nil)
  with inferModelFamily_known [of h b] inferModelFamily_known [of h r] show ?thesis by (auto simp: tier_rank_seniority)
qed

definition sample_builder :: js where
  "sample_builder = JObj [(''actual'', JObj [(''model'', JStr ''claude-4'')]), (''metadata'', JObj [(''capabilityTier'', JStr ''balanced'')])]"

definition sample_hex :: js where
  "sample_hex = JStr (replicate 64 (CHR ''a''))"

definition sample_receipt :: js where
  "sample_receipt = JObj [(''version'', JNat 1), (''subject'', JStr ''s''), (''status'', JStr ''pass''),
     (''requestDigest'', sample_hex), (''planDigest'', sample_hex),
     (''actual'', JObj [(''platform'', JStr ''codex''), (''target'', JStr ''local''), (''transport'', JStr ''cli''), (''model'', JStr ''gpt-5'')]),
     (''boundaries'', JObj [(''requested'', JStr ''propose''), (''effective'', JNull), (''enforced'', JNull), (''observed'', JNull), (''declared'', JStr ''propose'')]),
     (''revision'', JObj [(''source'', JNull), (''workspaceFingerprint'', JNull)]),
     (''writerLease'', JObj [(''id'', JStr ''l''), (''owner'', JStr ''o''), (''status'', JStr ''held'')]),
     (''timing'', JObj [(''startedAt'', JStr ''2026-01-01T00:00:00.000Z''), (''completedAt'', JStr ''2026-01-01T00:00:01.000Z''), (''timeoutMs'', JNat 0), (''cancelled'', JBool False)]),
     (''digests'', JObj [(''artifacts'', sample_hex), (''changes'', sample_hex), (''output'', sample_hex)]),
     (''executionIntentSource'', JObj [(''provider'', JStr ''codex''), (''declared'', JArr []), (''resolutions'', JArr [])]),
     (''cleanup'', JObj [(''status'', JStr ''clean''), (''actions'', JArr [])]),
     (''disclosure'', JObj [(''authorized'', JBool True), (''scope'', JStr ''run'')]),
     (''redaction'', JObj [(''applied'', JBool False), (''policy'', JStr ''none'')]),
     (''inputRefs'', JArr []), (''outputRefs'', JArr []), (''validationRefs'', JArr []),
     (''metadata'', JObj [(''builderReceipt'', sample_builder), (''capabilityTier'', JStr ''architect-lead'')])]"

lemma sample_sha: "sha_test h sample_hex"
  by (simp add: sha_test_def sample_hex_def coal_def is_hex64_def js_lower_def lower_char_def list_all_iff is_hex_def)

lemma sample_boundaries:
  "boundary_errors const_host (JObj []) (fld sample_receipt ''boundaries'') f = Inr []"
  if "f \<in> {''requested'', ''effective'', ''enforced'', ''observed'', ''declared''}"
proof -
  obtain voc where "sdlcVocabulary (JObj []) = Inr voc" "v_actionBoundaries voc = jstrs ACTION_BOUNDARIES"
    using sdlcVocabulary_default by blast
  then show ?thesis using that
    by (auto simp: boundary_errors_def sample_receipt_def fld_own has_own_def own_props_def coal_def includes_res_def
        js_includes_def ACTION_BOUNDARIES_def)
qed

lemma sample_receipt_families:
  "inferModelFamily const_host sample_builder = ''anthropic''" "inferModelFamily const_host sample_receipt = ''openai''"
  by (simp_all add: inferModelFamily_def sample_builder_def sample_receipt_def fld_own proto_names_def modelFamily_def coal_def
      js_lower_def lower_char_def name_or_dash_def Let_def)

lemma sample_receipt_tiers:
  "tier_rank h (claimed_tier ''deep-reasoning'' sample_receipt) = JNat 3" "tier_rank h (claimed_tier ''balanced'' sample_builder) = JNat 1"
  by (simp_all add: tier_rank_def claimed_tier_def sample_receipt_def sample_builder_def fld_own coal_def obj_get_def CAPABILITY_TIER_RANK_def)

lemma sample_dates:
  "date_parse const_host (JStr ''2026-01-01T00:00:00.000Z'') \<noteq> NaN" "date_parse const_host (JStr ''2026-01-01T00:00:01.000Z'') \<noteq> NaN"
  by (simp_all add: date_parse_def iso_ms_def sub_str_def digits_val_def is_digit_def month_days_def)

lemma sample_receipt_head: "head_errors const_host sample_receipt = []"
  by (simp add: head_errors_def sample_receipt_def fld_own sample_sha nonEmptyString_def one_of_def has_own_def own_props_def coal_def Let_def)

lemma sample_receipt_body: "body_errors const_host sample_receipt = []"
  by (simp add: body_errors_def sample_receipt_def fld_own sample_sha nonEmptyString_def stringArray_def one_of_def
      has_own_def own_props_def coal_def revision_errors_def sample_dates js_int_def Let_def)

lemma sample_receipt_valid: "validateExecutionReceipt const_host sample_receipt JUndef = Inr []"
proof -
  have b: "fld (fld sample_receipt ''metadata'') ''builderReceipt'' = sample_builder" by (simp add: sample_receipt_def fld_own)
  have t: "truthy sample_builder" "truthy sample_receipt" by (simp_all add: sample_builder_def sample_receipt_def)
  have f: "fe_errors (validateFourEyesIndependence const_host sample_builder sample_receipt) = []"
    by (simp add: four_eyes_errors_Nil t sample_receipt_families sample_receipt_tiers)
  have r: "ref_errors const_host (JObj []) sample_receipt k = Inr []" if "k \<in> {''inputRefs'', ''outputRefs'', ''validationRefs''}" for k
    using that by (auto simp: ref_errors_def sample_receipt_def fld_own)
  show ?thesis
    by (simp add: validateExecutionReceipt_def js_default_def b t f r sample_boundaries sample_receipt_head sample_receipt_body del: bnd_Inr)
qed

theorem four_eyes_sound_witness:
  "inferModelFamily const_host sample_builder \<in> set MODEL_FAMILIES
     \<and> inferModelFamily const_host sample_builder \<noteq> inferModelFamily const_host sample_receipt
     \<and> seniority (js_string const_host (claimed_tier ''balanced'' sample_builder))
       \<le> seniority (js_string const_host (claimed_tier ''deep-reasoning'' sample_receipt))"
proof -
  have b: "sample_builder = fld (fld sample_receipt ''metadata'') ''builderReceipt''" by (simp add: sample_receipt_def fld_own)
  have t: "truthy sample_builder" by (simp add: sample_builder_def)
  have "claimed_tier ''deep-reasoning'' sample_receipt = JStr ''architect-lead''" "claimed_tier ''balanced'' sample_builder = JStr ''balanced''"
    by (simp_all add: claimed_tier_def sample_receipt_def sample_builder_def fld_own coal_def)
  with four_eyes_sound [OF sample_receipt_valid b t] show ?thesis by (simp add: proto_names_def)
qed

text \<open>
  The tier check can be bypassed: a reviewer whose tier is named like a member every object
  inherits is never reported as ranking below a builder that claims a tier of the table.
\<close>

theorem inherited_tier_passes:
  assumes "k \<in> set proto_names" and "js_string h bt \<notin> set proto_names"
  shows "\<not> rank_less h (tier_rank h (JStr k)) (tier_rank h bt)"
proof -
  have "tier_rank h (JStr k) = JBuiltin k"
    using assms(1) by (auto simp: tier_rank_def obj_get_def proto_names_def coal_def CAPABILITY_TIER_RANK_def)
  moreover have "\<exists>n. tier_rank h bt = JNum n"
    using assms(2) by (auto simp: tier_rank_def obj_get_def coal_def CAPABILITY_TIER_RANK_def)
  ultimately show ?thesis by auto
qed

theorem inherited_tier_passes_witness: "\<not> rank_less const_host (tier_rank const_host (JStr ''constructor'')) (JNat 3)"
proof -
  have "tier_rank const_host (JStr ''architect-lead'') = JNat 3"
    by (simp add: tier_rank_def obj_get_def coal_def CAPABILITY_TIER_RANK_def)
  then show ?thesis
    using inherited_tier_passes [of "''constructor''" const_host "JStr ''architect-lead''"] by (simp add: proto_names_def)
qed

end
