(* ===== verification/Merge.thy ===== *)
theory Merge
  imports Execution
begin

text \<open>
  Structural merge of harness settings (src/lib/structural-merge.mjs): the merge of a settings
  object with the object the framework wants to add, the check of the settings manifest and the
  choice of harnesses. The manifest that is read from disk is an argument; reading and writing the
  settings files is not modelled.
\<close>

section \<open>The merge\<close>

text \<open>
  \<open>out[key] = value\<close> on an ordinary object: assigning \<open>__proto__\<close> changes the prototype,
  not an own property.
\<close>

definition obj_assign :: "(string \<times> js) list \<Rightarrow> string \<Rightarrow> js \<Rightarrow> (string \<times> js) list" where
  "obj_assign fs k v = (if k = ''__proto__'' then fs else obj_set fs k v)"

fun clone :: "js \<Rightarrow> js" where
  "clone (JObj fs) = JObj (map (\<lambda>(k, v). (k, clone v)) fs)"
| "clone v = v"

fun deepMerge :: "js \<Rightarrow> js \<Rightarrow> js"
  and merge_entries :: "(string \<times> js) list \<Rightarrow> (string \<times> js) list \<Rightarrow> (string \<times> js) list" where
  "deepMerge base (JArr ps) =
     (case base of JArr bs \<Rightarrow> JArr (js_dedup (bs @ ps)) | JUndef \<Rightarrow> JArr ps | _ \<Rightarrow> JArr (js_dedup ps))"
| "deepMerge base (JObj ps) =
     (if base = JUndef then clone (JObj ps)
      else JObj (merge_entries (if isPlainObject base then own_props base else []) ps))"
| "deepMerge base patch = patch"
| "merge_entries out [] = out"
| "merge_entries out ((k, v) # ps) = merge_entries (obj_assign out k (deepMerge (obj_get out k) v)) ps"

section \<open>The manifest\<close>

definition SETTINGS_HARNESSES :: "string list" where
  "SETTINGS_HARNESSES = [''claude-code'', ''agy'', ''codex'', ''pi'']"

record finding =
  f_severity :: string
  f_code :: string
  f_message :: string

definition plugin_drift :: "host \<Rightarrow> js list \<Rightarrow> string \<Rightarrow> js \<Rightarrow> finding list res" where
  "plugin_drift h plugins harness spec =
     bnd (find_res (\<lambda>item. bnd (dot item ''harness'') (\<lambda>x. Inr (js_eq x (JStr harness)))) plugins) (\<lambda>plugin.
     case plugin of None \<Rightarrow> Inr []
     | Some p \<Rightarrow>
         bnd (if nullish (fld p ''settings'') then Inr False else includes_res h (fld p ''settings'') (fld spec ''path'')) (\<lambda>listed.
         Inr (if truthy p \<and> \<not> listed then [\<lparr>f_severity = ''blocker'', f_code = ''settings.plugin-path-drift'',
           f_message = harness @ '' settings path '' @ js_string h (fld spec ''path'') @ '' missing from plugin manifest''\<rparr>] else [])))"

definition harness_findings :: "host \<Rightarrow> js \<Rightarrow> js list \<Rightarrow> string \<Rightarrow> finding list res" where
  "harness_findings h manifest plugins harness =
     (let spec = fld (fld manifest ''settings'') harness; m = fld spec ''merge'' in
      bnd (plugin_drift h plugins harness spec) (\<lambda>drift.
      Inr ((if \<not> truthy spec then [\<lparr>f_severity = ''blocker'', f_code = ''settings.harness'', f_message = ''missing '' @ harness\<rparr>] else [])
        @ (if truthy spec \<and> (\<not> truthy (fld spec ''path'') \<or> \<not> truthy m \<or> \<not> typeof_object m \<or> is_array m)
           then [\<lparr>f_severity = ''blocker'', f_code = ''settings.shape'',
             f_message = harness @ '' requires path and object merge''\<rparr>] else [])
        @ drift)))"

definition validateSettingsManifest :: "host \<Rightarrow> js \<Rightarrow> js list \<Rightarrow> (bool \<times> finding list) res" where
  "validateSettingsManifest h manifest plugins =
     bnd (dot manifest ''version'') (\<lambda>version.
     bnd (map_res (harness_findings h manifest plugins) SETTINGS_HARNESSES) (\<lambda>fss.
     let findings = (if \<not> js_eq version (JNat 1)
           then [\<lparr>f_severity = ''blocker'', f_code = ''settings.version'', f_message = ''version must be 1''\<rparr>] else []) @ concat fss
     in Inr (list_all (\<lambda>f. f_severity f \<notin> {''blocker'', ''high''}) findings, findings)))"

definition resolveHarnesses :: "host \<Rightarrow> js \<Rightarrow> string list" where
  "resolveHarnesses h harness =
     (if harness = JStr ''all'' then SETTINGS_HARNESSES
      else filter (\<lambda>s. s \<noteq> []) (map js_trim (split_on (CHR '','') (js_string h harness))))"

section \<open>Facts about the merge\<close>

text \<open>A patch whose arrays are lists of distinct simple values, as settings are.\<close>

fun simple :: "js \<Rightarrow> bool" where
  "simple (JArr xs) = False"
| "simple (JObj fs) = False"
| "simple (JBuiltin k) = False"
| "simple v = True"

fun settings_like :: "js \<Rightarrow> bool" where
  "settings_like (JArr xs) = (list_all simple xs \<and> js_distinct xs)"
| "settings_like (JObj fs) = (distinct (map fst fs) \<and> list_all (\<lambda>(k, v). k \<notin> set proto_names \<and> settings_like v) fs)"
| "settings_like JUndef = False"
| "settings_like (JBuiltin k) = False"
| "settings_like v = True"

lemma simple_same_zero: "simple x \<Longrightarrow> same_zero x x"
  by (cases x) (auto simp: same_zero_def)

lemma js_includes_self: "simple x \<Longrightarrow> js_includes xs x \<longleftrightarrow> x \<in> set xs"
  using js_includes_in_set [of xs x] simple_same_zero [of x] by (auto simp: js_includes_def list_ex_iff)

definition add_new :: "js list \<Rightarrow> js \<Rightarrow> js list" where
  "add_new acc x = (if js_includes acc x then acc else acc @ [x])"

lemma js_dedup_foldl: "js_dedup xs = foldl add_new [] xs"
  by (simp add: js_dedup_def add_new_def [abs_def])

lemma foldl_add_new_known: "list_all simple xs \<Longrightarrow> set xs \<subseteq> set acc \<Longrightarrow> foldl add_new acc xs = acc"
  by (induction xs) (auto simp: add_new_def js_includes_self)

lemma foldl_add_new_set: "set (foldl add_new acc xs) = set acc \<union> set xs"
proof (induction xs arbitrary: acc)
  case Nil
  show ?case by simp
next
  case (Cons x xs)
  have "x \<in> set (add_new acc x) \<and> set (add_new acc x) = insert x (set acc)"
    using js_includes_in_set [of acc x] by (auto simp: add_new_def)
  then show ?case by (simp add: Cons.IH)
qed

text \<open>A list in which no element is found before itself is kept as it is.\<close>

fun fresh_list :: "js list \<Rightarrow> js list \<Rightarrow> bool" where
  "fresh_list acc [] = True"
| "fresh_list acc (x # xs) = (\<not> js_includes acc x \<and> fresh_list (acc @ [x]) xs)"

lemma fresh_foldl: "fresh_list acc xs \<Longrightarrow> foldl add_new acc xs = acc @ xs"
  by (induction xs arbitrary: acc) (auto simp: add_new_def)

lemma fresh_snoc: "fresh_list acc (xs @ [x]) \<longleftrightarrow> fresh_list acc xs \<and> \<not> js_includes (acc @ xs) x"
  by (induction xs arbitrary: acc) auto

lemma fresh_dedup: "fresh_list [] (js_dedup xs)"
proof (induction xs rule: rev_induct)
  case Nil
  show ?case by (simp add: js_dedup_def)
next
  case (snoc x xs)
  then show ?case by (auto simp: js_dedup_snoc fresh_snoc)
qed

lemma js_dedup_again: "list_all simple ps \<Longrightarrow> js_dedup (js_dedup (bs @ ps) @ ps) = js_dedup (bs @ ps)"
proof -
  assume s: "list_all simple ps"
  have "js_dedup (js_dedup (bs @ ps) @ ps) = foldl add_new (foldl add_new [] (js_dedup (bs @ ps))) ps"
    by (simp add: js_dedup_foldl)
  also have "foldl add_new [] (js_dedup (bs @ ps)) = js_dedup (bs @ ps)" using fresh_foldl [OF fresh_dedup] by simp
  also have "foldl add_new (js_dedup (bs @ ps)) ps = js_dedup (bs @ ps)"
    by (rule foldl_add_new_known [OF s]) (simp add: set_js_dedup)
  finally show ?thesis .
qed

lemma js_dedup_distinct: "list_all simple ps \<Longrightarrow> js_distinct ps \<Longrightarrow> fresh_list [] ps"
proof -
  have "fresh_list acc ps" if "list_all simple ps" "js_distinct ps" "set acc \<inter> set ps = {}" for acc
    using that
  proof (induction ps arbitrary: acc)
    case (Cons x xs)
    then show ?case by (simp add: js_includes_self disjoint_iff) blast
  qed simp
  then show "list_all simple ps \<Longrightarrow> js_distinct ps \<Longrightarrow> fresh_list [] ps" by simp
qed

lemma js_dedup_same: "list_all simple ps \<Longrightarrow> js_distinct ps \<Longrightarrow> js_dedup (ps @ ps) = ps"
  using fresh_foldl [OF js_dedup_distinct] foldl_add_new_known [of ps ps] by (simp add: js_dedup_foldl)

lemma obj_set_same: "map_of fs k = Some v \<Longrightarrow> obj_set fs k v = fs"
  by (induction fs) (auto split: if_splits)

lemma isPlainObject_JObj [simp]: "isPlainObject (JObj fs)"
  by (simp add: isPlainObject_def)

lemma merge_entries_lookup:
  "distinct (map fst ps) \<Longrightarrow> \<forall>(k, v)\<in>set ps. k \<notin> set proto_names \<Longrightarrow>
     map_of (merge_entries fs ps) k = (case map_of ps k of None \<Rightarrow> map_of fs k | Some v \<Rightarrow> Some (deepMerge (obj_get fs k) v))"
proof (induction ps arbitrary: fs)
  case Nil
  show ?case by simp
next
  case (Cons p ps)
  obtain k' v' where p: "p = (k', v')" by (cases p)
  have np: "k' \<noteq> ''__proto__''" using Cons.prems(2) by (auto simp: p proto_names_def)
  let ?fs = "obj_set fs k' (deepMerge (obj_get fs k') v')"
  have ih: "map_of (merge_entries ?fs ps) k = (case map_of ps k of None \<Rightarrow> map_of ?fs k | Some v \<Rightarrow> Some (deepMerge (obj_get ?fs k) v))"
    by (rule Cons.IH) (use Cons.prems in auto)
  have "map_of ps k' = None" using Cons.prems(1) by (simp add: p map_of_eq_None_iff)
  then show ?case using ih np by (cases "k = k'") (auto simp: p obj_assign_def obj_get_def split: option.split)
qed

lemma merge_entries_fixed:
  "(\<And>k v. (k, v) \<in> set ps \<Longrightarrow> \<exists>w. map_of fs k = Some w \<and> deepMerge w v = w) \<Longrightarrow> merge_entries fs ps = fs"
proof (induction ps)
  case Nil
  show ?case by simp
next
  case (Cons p ps)
  obtain k v where p: "p = (k, v)" by (cases p)
  from Cons.prems [of k v] obtain w where w: "map_of fs k = Some w" "deepMerge w v = w" by (auto simp: p)
  then have "obj_assign fs k (deepMerge (obj_get fs k) v) = fs" by (simp add: obj_assign_def obj_get_def obj_set_same)
  with Cons show ?case by (simp add: p)
qed

lemma settings_fields:
  assumes "settings_like (JObj ps)"
  shows "distinct (map fst ps)" and "\<forall>(k, v)\<in>set ps. k \<notin> set proto_names" and "(k, v) \<in> set ps \<Longrightarrow> settings_like v"
    and "(k, v) \<in> set ps \<Longrightarrow> map_of ps k = Some v"
  using assms by (auto simp: list_all_iff)

lemma deepMerge_clone: "settings_like p \<Longrightarrow> deepMerge (clone p) p = clone p"
proof (induction p)
  case (JArr xs)
  then show ?case by (simp add: js_dedup_same)
next
  case (JObj ps)
  note S = settings_fields [OF JObj.prems]
  have "merge_entries (map (\<lambda>(k, v). (k, clone v)) ps) ps = map (\<lambda>(k, v). (k, clone v)) ps"
  proof (rule merge_entries_fixed)
    fix k v assume kv: "(k, v) \<in> set ps"
    have "map_of (map (\<lambda>(k, v). (k, clone v)) ps) k = Some (clone v)" using S(4) [OF kv] by (simp add: map_of_map)
    moreover have "deepMerge (clone v) v = clone v" using JObj.IH [OF kv] S(3) [OF kv] by simp
    ultimately show "\<exists>w. map_of (map (\<lambda>(k, v). (k, clone v)) ps) k = Some w \<and> deepMerge w v = w" by blast
  qed
  then show ?case by (simp add: own_props_def)
qed simp_all

text \<open>
  Merging settings is idempotent: applying the same patch again changes nothing, whatever the
  file held before, for patches whose arrays are lists of distinct simple values.
\<close>

theorem merge_idempotent: "settings_like p \<Longrightarrow> deepMerge (deepMerge base p) p = deepMerge base p"
proof (induction p arbitrary: base)
  case (JArr ps)
  then show ?case using js_dedup_again [of ps "[]"] by (cases base) (simp_all add: js_dedup_again js_dedup_same)
next
  case (JObj ps)
  note S = settings_fields [OF JObj.prems]
  show ?case
  proof (cases "base = JUndef")
    case True
    then show ?thesis using deepMerge_clone [OF JObj.prems] by simp
  next
    case False
    define fs where "fs = (if isPlainObject base then own_props base else [])"
    have "merge_entries (merge_entries fs ps) ps = merge_entries fs ps"
    proof (rule merge_entries_fixed)
      fix k v assume kv: "(k, v) \<in> set ps"
      have "map_of (merge_entries fs ps) k = Some (deepMerge (obj_get fs k) v)"
        using merge_entries_lookup [OF S(1,2), of fs k] S(4) [OF kv] by simp
      with JObj.IH [OF kv _ S(3) [OF kv]] show "\<exists>w. map_of (merge_entries fs ps) k = Some w \<and> deepMerge w v = w" by auto
    qed
    with False show ?thesis by (simp add: fs_def own_props_def [of "JObj _"])
  qed
qed simp_all

text \<open>
  The merge keeps what it is not told to change: the result has exactly the keys of the file and
  of the patch, a key outside the patch keeps its value, and a key of the patch holds the merge of
  both values.
\<close>

theorem merge_keeps_settings:
  assumes "settings_like (JObj ps)"
  shows "\<exists>out. deepMerge (JObj fs) (JObj ps) = JObj out \<and> (\<forall>k. map_of out k =
    (case map_of ps k of None \<Rightarrow> map_of fs k | Some v \<Rightarrow> Some (deepMerge (obj_get fs k) v)))"
  using merge_entries_lookup [OF settings_fields(1,2) [OF assms]] by (simp add: own_props_def)

definition sample_patch :: "(string \<times> js) list" where
  "sample_patch = [(''hooks'', JArr [JStr ''a'', JStr ''b'']), (''env'', JObj [(''X'', JNat 1)])]"

lemma sample_patch_like: "settings_like (JObj sample_patch)"
  by (simp add: sample_patch_def proto_names_def js_includes_def)

theorem merge_idempotent_witness:
  "deepMerge (deepMerge (JObj [(''hooks'', JArr [JStr ''b''])]) (JObj sample_patch)) (JObj sample_patch)
    = JObj [(''hooks'', JArr [JStr ''b'', JStr ''a'']), (''env'', JObj [(''X'', JNat 1)])]"
  unfolding merge_idempotent [OF sample_patch_like]
  by (simp add: sample_patch_def own_props_def obj_get_def obj_assign_def js_dedup_def js_includes_def proto_names_def)

theorem merge_keeps_settings_witness:
  "\<exists>out. deepMerge (JObj [(''mine'', JNat 7)]) (JObj sample_patch) = JObj out \<and> map_of out ''mine'' = Some (JNat 7)"
proof -
  obtain out where out: "deepMerge (JObj [(''mine'', JNat 7)]) (JObj sample_patch) = JObj out"
    "\<forall>k. map_of out k = (case map_of sample_patch k of None \<Rightarrow> map_of [(''mine'', JNat 7)] k
       | Some v \<Rightarrow> Some (deepMerge (obj_get [(''mine'', JNat 7)] k) v))"
    using merge_keeps_settings [OF sample_patch_like, of "[(''mine'', JNat 7)]"] by blast
  from out(2) have "map_of out ''mine'' = Some (JNat 7)" by (simp add: sample_patch_def)
  with out(1) show ?thesis by blast
qed

text \<open>
  Arrays of objects are different: two objects are never the same element of a set, so every
  merge of such a patch appends its objects once more.
\<close>

theorem object_arrays_grow:
  "deepMerge (JArr xs) (JArr [JObj fs]) = JArr (js_dedup xs @ [JObj fs])"
  by (simp add: js_dedup_snoc js_includes_def same_zero_def list_ex_iff)


end
