(* ===== verification/Dates.thy ===== *)
theory Dates
  imports Digest
begin

text \<open>
  \<open>Date.prototype.toISOString\<close>: the calendar date of a day count, the text of an instant in
  the years 0 to 9999 and the proof that \<open>Date.parse\<close> reads that instant back.
\<close>

section \<open>The calendar date of a day\<close>

text \<open>Year, month and day of the day \<open>z\<close> since 1970-01-01, by cycles of 400, 100, 4 and 1 years from March.\<close>

definition year_day :: "int \<Rightarrow> int \<times> int" where
  "year_day doe =
     (let q = min 3 (doe div 36524); r = doe - 36524 * q; k = r div 1461; s = r - 1461 * k; y = min 3 (s div 365)
      in (100 * q + 4 * k + y, s - 365 * y))"

definition month_day :: "int \<Rightarrow> int \<times> int" where
  "month_day doy =
     (let mp = (5 * doy + 2) div 153
      in (if mp < 10 then mp + 3 else mp - 9, doy - (153 * mp + 2) div 5 + 1))"

definition civil_from_days :: "int \<Rightarrow> int \<times> int \<times> int" where
  "civil_from_days z =
     (let n = z + 719468; (yoe, doy) = year_day (n mod 146097); (m, d) = month_day doy
      in (yoe + 400 * (n div 146097) + (if m \<le> 2 then 1 else 0), m, d))"

section \<open>Printing an instant\<close>

definition dgt :: "int \<Rightarrow> char" where
  "dgt n = digit_char (nat (n mod 10))"

definition pad2 :: "int \<Rightarrow> string" where
  "pad2 n = [dgt (n div 10), dgt n]"

definition pad3 :: "int \<Rightarrow> string" where
  "pad3 n = [dgt (n div 100), dgt (n div 10), dgt n]"

definition pad4 :: "int \<Rightarrow> string" where
  "pad4 n = [dgt (n div 1000), dgt (n div 100), dgt (n div 10), dgt n]"

definition pad6 :: "int \<Rightarrow> string" where
  "pad6 n = pad3 (n div 1000) @ pad3 n"

definition iso_year :: "int \<Rightarrow> int" where
  "iso_year ms = fst (civil_from_days (ms div 86400000))"

definition iso_text :: "int \<Rightarrow> string" where
  "iso_text ms =
     (let (y, m, d) = civil_from_days (ms div 86400000); t = ms mod 86400000;
          year = (if 0 \<le> y \<and> y \<le> 9999 then pad4 y else (if y < 0 then ''-'' else ''+'') @ pad6 \<bar>y\<bar>)
      in year @ ''-'' @ pad2 m @ ''-'' @ pad2 d @ ''T'' @ pad2 (t div 3600000) @ '':'' @ pad2 (t div 60000 mod 60)
         @ '':'' @ pad2 (t div 1000 mod 60) @ ''.'' @ pad3 (t mod 1000) @ ''Z'')"

text \<open>The integral part of a time value, and the range outside which a date is invalid.\<close>

definition time_clip :: "rat \<Rightarrow> int option" where
  "time_clip r = (let n = (if r < 0 then - \<lfloor>- r\<rfloor> else \<lfloor>r\<rfloor>) in if \<bar>n\<bar> \<le> 8640000000000000 then Some n else None)"

definition toISOString :: "rat \<Rightarrow> string res" where
  "toISOString r = (case time_clip r of Some n \<Rightarrow> Inr (iso_text n) | None \<Rightarrow> fail ''Invalid time value'')"

section \<open>The date is right\<close>

lemma capped_div:
  fixes n s c :: int
  assumes "0 < n" and "s - n * min c (s div n) = n"
  shows "min c (s div n) = c"
proof (rule ccontr)
  assume "min c (s div n) \<noteq> c"
  then have "min c (s div n) = s div n" by (auto simp: min_def)
  then have "s mod n = n" using assms(2) by (simp add: minus_mult_div_eq_mod)
  with assms(1) pos_mod_bound [of n s] show False by simp
qed

lemma year_day_bounds:
  assumes "0 \<le> doe" and "doe < 146097" and "year_day doe = (yoe, doy)"
  shows "0 \<le> yoe" and "yoe \<le> 399" and "0 \<le> doy" and "doy \<le> 365"
    and "doe = 365 * yoe + yoe div 4 - yoe div 100 + doy"
    and "doy = 365 \<Longrightarrow> yoe mod 4 = 3 \<and> (yoe mod 100 \<noteq> 99 \<or> yoe = 399)"
proof -
  define q where "q = min 3 (doe div 36524)"
  define r where "r = doe - 36524 * q"
  define k where "k = r div 1461"
  define s where "s = r - 1461 * k"
  define y where "y = min 3 (s div 365)"
  have yd: "yoe = 100 * q + 4 * k + y" "doy = s - 365 * y"
    using assms(3) by (simp_all add: year_day_def Let_def q_def r_def k_def s_def y_def)
  have q: "0 \<le> q" "q \<le> 3" using assms(1) by (auto simp: q_def)
  have r: "0 \<le> r" "r \<le> 36524" using assms(1,2) unfolding r_def q_def by (auto simp: min_def)
  have r3: "q = 3" if "r = 36524" using capped_div [of 36524 doe 3] that by (simp add: q_def r_def)
  have k: "0 \<le> k" "k \<le> 24" using r by (auto simp: k_def)
  have s: "0 \<le> s" "s \<le> 1460" "r = 1461 * k + s" using r by (auto simp: s_def k_def)
  have y: "0 \<le> y" "y \<le> 3" using s by (auto simp: y_def)
  have sy: "0 \<le> s - 365 * y" "s - 365 * y \<le> 365" using s unfolding y_def by (auto simp: min_def)
  have sy3: "y = 3 \<and> s = 1460" if "s - 365 * y = 365" using capped_div [of 365 s 3] that by (simp add: y_def)
  have d4: "yoe div 4 = 25 * q + k" and d100: "yoe div 100 = q" using q k y by (auto simp: yd)
  show "0 \<le> yoe" "yoe \<le> 399" using q k y by (auto simp: yd)
  show "0 \<le> doy" "doy \<le> 365" using sy by (simp_all add: yd)
  show "doe = 365 * yoe + yoe div 4 - yoe div 100 + doy"
    using d4 d100 s(3) by (simp add: yd r_def)
  show "yoe mod 4 = 3 \<and> (yoe mod 100 \<noteq> 99 \<or> yoe = 399)" if "doy = 365"
  proof -
    have ys: "y = 3" "s = 1460" using sy3 that by (simp_all add: yd)
    have "k = 24 \<Longrightarrow> q = 3" using r3 s(3) ys by simp
    moreover have "yoe = 3 + 4 * (25 * q + k)" using ys by (simp add: yd)
    then have "yoe mod 4 = 3" by (simp only: mod_mult_self2) simp
    moreover have "yoe mod 100 \<noteq> 99" if "k \<noteq> 24"
    proof -
      have "yoe = (4 * k + 3) + 100 * q" using ys by (simp add: yd)
      then have "yoe mod 100 = (4 * k + 3) mod 100" by (simp only: mod_mult_self2)
      also have "\<dots> = 4 * k + 3" using k that by simp
      finally show ?thesis using k that by simp
    qed
    ultimately show ?thesis using ys by (cases "k = 24") (auto simp: yd)
  qed
qed

lemma month_day_bounds:
  assumes "0 \<le> doy" and "doy \<le> 365" and "month_day doy = (m, d)"
  shows "1 \<le> m \<and> m \<le> 12 \<and> 1 \<le> d" and "m \<noteq> 2 \<Longrightarrow> d \<le> month_days y m" and "m = 2 \<Longrightarrow> d = doy - 336"
    and "(153 * (if m > 2 then m - 3 else m + 9) + 2) div 5 + d - 1 = doy"
proof -
  define mp where "mp = (5 * doy + 2) div 153"
  have mp: "153 * mp \<le> 5 * doy + 2" "5 * doy + 2 < 153 * mp + 153" "0 \<le> mp" "mp \<le> 11"
    using assms(1,2) by (auto simp: mp_def)
  have md: "m = (if mp < 10 then mp + 3 else mp - 9)" "d = doy - (153 * mp + 2) div 5 + 1"
    using assms(3) by (auto simp: month_day_def Let_def mp_def)
  from mp(3,4) have "mp \<in> {0, 1, 2, 3, 4, 5, 6, 7, 8, 9, 10, 11}" by (simp only: insert_iff empty_iff) presburger
  then show "1 \<le> m \<and> m \<le> 12 \<and> 1 \<le> d" and "m \<noteq> 2 \<Longrightarrow> d \<le> month_days y m" and "m = 2 \<Longrightarrow> d = doy - 336"
    and "(153 * (if m > 2 then m - 3 else m + 9) + 2) div 5 + d - 1 = doy"
    using mp(1,2) assms(1,2) unfolding md month_days_def by (elim insertE emptyE; simp)+
qed

lemma leap_shift:
  fixes yoe e :: int
  assumes "yoe mod 4 = 3" and "yoe mod 100 \<noteq> 99 \<or> yoe = 399"
  shows "leap_year (yoe + 400 * e + 1)"
proof -
  have r: "(yoe + 400 * e + 1) mod 4 = (yoe mod 4 + 1) mod 4" "(yoe + 400 * e + 1) mod 100 = (yoe mod 100 + 1) mod 100"
      "(yoe + 400 * e + 1) mod 400 = (yoe + 1) mod 400"
    using mod_mult_self2 [of "yoe + 1" 4 "100 * e"] mod_mult_self2 [of "yoe + 1" 100 "4 * e"] mod_mult_self2 [of "yoe + 1" 400 e]
    by (simp_all add: algebra_simps mod_simps)
  have "(yoe + 400 * e + 1) mod 4 = 0" using assms(1) by (simp add: r)
  moreover have "(yoe + 400 * e + 1) mod 100 \<noteq> 0" if "yoe mod 100 \<noteq> 99"
  proof -
    have "0 \<le> yoe mod 100" "yoe mod 100 < 100" by simp_all
    with that have "0 < yoe mod 100 + 1" "yoe mod 100 + 1 < 100" by linarith+
    then show ?thesis by (simp add: r)
  qed
  moreover have "(yoe + 400 * e + 1) mod 400 = 0" if "yoe = 399" using that by (simp add: r)
  ultimately show ?thesis using assms(2) unfolding leap_year_def by auto
qed

lemma civil_round_trip:
  assumes "civil_from_days z = (y, m, d)"
  shows "days_from_civil y m d = z" and "1 \<le> m \<and> m \<le> 12 \<and> 1 \<le> d \<and> d \<le> month_days y m"
proof -
  define n where "n = z + 719468"
  obtain yoe doy where yd: "year_day (n mod 146097) = (yoe, doy)" by fastforce
  obtain m' d' where md: "month_day doy = (m', d')" by fastforce
  from assms yd md have m: "m = m'" "d = d'" and y: "y = yoe + 400 * (n div 146097) + (if m \<le> 2 then 1 else 0)"
    by (auto simp: civil_from_days_def Let_def n_def)
  have b: "0 \<le> n mod 146097" "n mod 146097 < 146097" by simp_all
  note Y = year_day_bounds [OF b yd] and M = month_day_bounds [OF year_day_bounds(3,4) [OF b yd] md]
  have era: "(yoe + 400 * (n div 146097)) div 400 = n div 146097" using Y(1,2) by simp
  have "days_from_civil y m d = n div 146097 * 146097 + (yoe * 365 + yoe div 4 - yoe div 100 + doy) - 719468"
    using M(4) by (simp add: days_from_civil_def Let_def y m era)
  also have "\<dots> = n div 146097 * 146097 + n mod 146097 - 719468" using Y(5) by simp
  also have "\<dots> = z" by (simp add: n_def)
  finally show "days_from_civil y m d = z" .
  have "d \<le> month_days y m" if "m = 2"
  proof (cases "doy = 365")
    case True
    with Y(6) have "yoe mod 4 = 3" "yoe mod 100 \<noteq> 99 \<or> yoe = 399" by simp_all
    then have "leap_year (yoe + 400 * (n div 146097) + 1)" by (rule leap_shift)
    with M(3) True that m y show ?thesis by (simp add: month_days_def)
  next
    case False
    with M(3) Y(4) that m show ?thesis by (simp add: month_days_def)
  qed
  with M(1,2) m show "1 \<le> m \<and> m \<le> 12 \<and> 1 \<le> d \<and> d \<le> month_days y m" by blast
qed

section \<open>Reading the text back\<close>

lemma of_char_dgt: "(of_char (dgt n) :: int) = 48 + n mod 10"
proof -
  have "(of_char (dgt n) :: nat) = 48 + nat (n mod 10)" by (simp add: dgt_def digit_char_code nat_less_iff)
  then have "int (of_char (dgt n)) = 48 + n mod 10" by simp
  then show ?thesis by (metis of_nat_of_char)
qed

lemma is_digit_dgt [simp]: "is_digit (dgt n)"
  by (simp add: dgt_def is_digit_digit_char nat_less_iff)

lemma pad_value:
  "digits_val (pad2 n) = Some (10 * (n div 10 mod 10) + n mod 10)"
  "digits_val (pad3 n) = Some (10 * (10 * (n div 100 mod 10) + n div 10 mod 10) + n mod 10)"
  "digits_val (pad4 n) = Some (10 * (10 * (10 * (n div 1000 mod 10) + n div 100 mod 10) + n div 10 mod 10) + n mod 10)"
  by (simp_all add: digits_val_def pad2_def pad3_def pad4_def of_char_dgt)

lemma two_digits: "0 \<le> n \<Longrightarrow> n \<le> 99 \<Longrightarrow> 10 * (n div 10 mod 10) + n mod 10 = (n :: int)"
proof -
  assume "0 \<le> n" "n \<le> 99"
  then have "0 \<le> n div 10" "n div 10 < 10" by auto
  then have "n div 10 mod 10 = n div 10" by (rule mod_pos_pos_trivial)
  then show ?thesis by simp
qed

lemma three_digits: "0 \<le> n \<Longrightarrow> n \<le> 999 \<Longrightarrow> 10 * (10 * (n div 100 mod 10) + n div 10 mod 10) + n mod 10 = (n :: int)"
proof -
  assume "0 \<le> n" "n \<le> 999"
  then have "10 * (n div 10 div 10 mod 10) + n div 10 mod 10 = n div 10" by (intro two_digits) auto
  moreover have "n div 10 div 10 = n div 100" by (simp add: zdiv_zmult2_eq [symmetric])
  ultimately have "10 * (n div 100 mod 10) + n div 10 mod 10 = n div 10" by (simp only:)
  then show ?thesis by (simp only: mult_div_mod_eq)
qed

lemma four_digits:
  "0 \<le> n \<Longrightarrow> n \<le> 9999 \<Longrightarrow> 10 * (10 * (10 * (n div 1000 mod 10) + n div 100 mod 10) + n div 10 mod 10) + n mod 10 = (n :: int)"
proof -
  assume "0 \<le> n" "n \<le> 9999"
  then have "10 * (10 * (n div 10 div 100 mod 10) + n div 10 div 10 mod 10) + n div 10 mod 10 = n div 10" by (intro three_digits) auto
  moreover have "n div 10 div 10 = n div 100" "n div 10 div 100 = n div 1000" by (simp_all add: zdiv_zmult2_eq [symmetric])
  ultimately have "10 * (10 * (n div 1000 mod 10) + n div 100 mod 10) + n div 10 mod 10 = n div 10" by (simp only:)
  then show ?thesis by (simp only: mult_div_mod_eq)
qed

lemma digits_val_pad:
  "0 \<le> n \<Longrightarrow> n \<le> 99 \<Longrightarrow> digits_val (pad2 n) = Some n"
  "0 \<le> n \<Longrightarrow> n \<le> 999 \<Longrightarrow> digits_val (pad3 n) = Some n"
  "0 \<le> n \<Longrightarrow> n \<le> 9999 \<Longrightarrow> digits_val (pad4 n) = Some n"
  by (simp_all only: pad_value two_digits three_digits four_digits)

lemma pad_lengths: "length (pad2 n) = 2" "length (pad3 n) = 3" "length (pad4 n) = 4"
  by (simp_all add: pad2_def pad3_def pad4_def)

lemma iso_ms_parts:
  assumes "digits_val ys = Some y" and "digits_val mos = Some mo" and "digits_val ds = Some d"
    and "digits_val hs = Some hh" and "digits_val mis = Some mi" and "digits_val ss = Some se" and "digits_val mss = Some ms"
    and "length ys = 4" and "length mos = 2" and "length ds = 2" and "length hs = 2" and "length mis = 2" and "length ss = 2"
    and "length mss = 3"
    and "1 \<le> mo" "mo \<le> 12" "1 \<le> d" "d \<le> month_days y mo" "hh \<le> 23" "mi \<le> 59" "se \<le> 59"
  shows "iso_ms (ys @ ''-'' @ mos @ ''-'' @ ds @ ''T'' @ hs @ '':'' @ mis @ '':'' @ ss @ ''.'' @ mss @ ''Z'')
    = Some (((days_from_civil y mo d * 24 + hh) * 60 + mi) * 60000 + se * 1000 + ms)"
proof -
  obtain y1 y2 y3 y4 where "ys = [y1, y2, y3, y4]" using assms(8) by (auto simp: numeral_eq_Suc length_Suc_conv)
  moreover obtain m1 m2 where "mos = [m1, m2]" using assms(9) by (auto simp: numeral_eq_Suc length_Suc_conv)
  moreover obtain d1 d2 where "ds = [d1, d2]" using assms(10) by (auto simp: numeral_eq_Suc length_Suc_conv)
  moreover obtain h1 h2 where "hs = [h1, h2]" using assms(11) by (auto simp: numeral_eq_Suc length_Suc_conv)
  moreover obtain i1 i2 where "mis = [i1, i2]" using assms(12) by (auto simp: numeral_eq_Suc length_Suc_conv)
  moreover obtain s1 s2 where "ss = [s1, s2]" using assms(13) by (auto simp: numeral_eq_Suc length_Suc_conv)
  moreover obtain t1 t2 t3 where "mss = [t1, t2, t3]" using assms(14) by (auto simp: numeral_eq_Suc length_Suc_conv)
  ultimately show ?thesis using assms(1-7,15-) by (simp add: iso_ms_def sub_str_def)
qed

lemma day_time:
  fixes t :: int
  shows "(t div 3600000 * 60 + t div 60000 mod 60) * 60000 + t div 1000 mod 60 * 1000 + t mod 1000 = t"
proof -
  define a where "a = t div 1000"
  define b where "b = a div 60"
  have d: "t div 60000 = b" "t div 3600000 = b div 60"
    by (simp_all add: a_def b_def zdiv_zmult2_eq [symmetric])
  have "(b div 60 * 60 + b mod 60) * 60000 + a mod 60 * 1000 + t mod 1000 = (b * 60 + a mod 60) * 1000 + t mod 1000"
    by simp
  also have "b * 60 + a mod 60 = a" by (simp add: b_def)
  also have "a * 1000 + t mod 1000 = t" by (simp add: a_def)
  finally show ?thesis by (simp add: d a_def [symmetric])
qed

lemma ms_sum:
  fixes A B C D n t z :: int
  assumes "(A * 60 + B) * 60000 + C * 1000 + D = t" and "86400000 * z + t = n"
  shows "((z * 24 + A) * 60 + B) * 60000 + C * 1000 + D = n"
  using assms by (simp add: algebra_simps)

text \<open>An instant of the years 0 to 9999 is read back from its text.\<close>

lemma iso_round_trip:
  assumes "0 \<le> iso_year n" and "iso_year n \<le> 9999"
  shows "iso_ms (iso_text n) = Some n"
proof -
  obtain y m d where c: "civil_from_days (n div 86400000) = (y, m, d)" by (cases "civil_from_days (n div 86400000)") auto
  from assms c have y: "0 \<le> y" "y \<le> 9999" by (simp_all add: iso_year_def)
  define t where "t = n mod 86400000"
  have t: "0 \<le> t" "t < 86400000" by (simp_all add: t_def)
  note C = civil_round_trip [OF c]
  have d99: "d \<le> 99" using C(2) by (auto simp: month_days_def split: if_splits)
  have h: "0 \<le> t div 3600000" "t div 3600000 \<le> 23" using t by auto
  have mi: "0 \<le> t div 60000 mod 60" "t div 60000 mod 60 \<le> 59" using pos_mod_bound [of 60 "t div 60000"] by simp_all
  have se: "0 \<le> t div 1000 mod 60" "t div 1000 mod 60 \<le> 59" using pos_mod_bound [of 60 "t div 1000"] by simp_all
  have ms: "0 \<le> t mod 1000" "t mod 1000 \<le> 999" using pos_mod_bound [of 1000 t] by simp_all
  have m: "0 \<le> m" "m \<le> 99" "0 \<le> d" and md: "1 \<le> m" "m \<le> 12" "1 \<le> d" "d \<le> month_days y m" using C(2) by auto
  have v: "digits_val (pad4 y) = Some y" "digits_val (pad2 m) = Some m" "digits_val (pad2 d) = Some d"
      "digits_val (pad2 (t div 3600000)) = Some (t div 3600000)" "digits_val (pad2 (t div 60000 mod 60)) = Some (t div 60000 mod 60)"
      "digits_val (pad2 (t div 1000 mod 60)) = Some (t div 1000 mod 60)" "digits_val (pad3 (t mod 1000)) = Some (t mod 1000)"
    by (rule digits_val_pad(3) [OF y] digits_val_pad(1) [OF m(1,2)] digits_val_pad(1) [OF m(3) d99]
        digits_val_pad(1) [OF h(1) order_trans [OF h(2)]] digits_val_pad(1) [OF mi(1) order_trans [OF mi(2)]]
        digits_val_pad(1) [OF se(1) order_trans [OF se(2)]] digits_val_pad(2) [OF ms]; simp)+
  have shape: "iso_text n = pad4 y @ ''-'' @ pad2 m @ ''-'' @ pad2 d @ ''T'' @ pad2 (t div 3600000) @ '':'' @ pad2 (t div 60000 mod 60)
      @ '':'' @ pad2 (t div 1000 mod 60) @ ''.'' @ pad3 (t mod 1000) @ ''Z''"
    using y unfolding iso_text_def c t_def Let_def by simp
  have "iso_ms (iso_text n) = Some (((days_from_civil y m d * 24 + t div 3600000) * 60 + t div 60000 mod 60) * 60000
      + t div 1000 mod 60 * 1000 + t mod 1000)"
    unfolding shape by (rule iso_ms_parts [OF v pad_lengths(3) pad_lengths(1) pad_lengths(1) pad_lengths(1) pad_lengths(1)
        pad_lengths(1) pad_lengths(2) md h(2) mi(2) se(2)])
  moreover have "((days_from_civil y m d * 24 + t div 3600000) * 60 + t div 60000 mod 60) * 60000
      + t div 1000 mod 60 * 1000 + t mod 1000 = n"
    unfolding C(1) by (rule ms_sum [OF day_time [of t]]) (simp add: t_def)
  ultimately show ?thesis by simp
qed

end
