(* ===== verification/Seats.thy ===== *)
theory Seats
  imports Json Dates RunTypes
begin

text \<open>
  Seat leases (src/lib/core/seat-lease.mjs) and seat claims (src/lib/core/seat-claim.mjs). The lease
  files of one target directory are a finite map from file names to their parsed content, where
  \<open>None\<close> is a file that is not JSON. A lease is advisory and expires; a transition may name a
  seat only when the caller's session maps to it or holds an unexpired lease of it.
\<close>

section \<open>Time and names\<close>

text \<open>
  \<open>resolveNowMs\<close>: a usable \<open>now\<close> argument wins over the clock. (A \<open>Date\<close>
  argument is passed as its number.)
\<close>

definition resolveNowMs :: "host \<Rightarrow> int \<Rightarrow> js \<Rightarrow> rat" where
  "resolveNowMs h clock now = (case now of
       JNum (Fin r) \<Rightarrow> r
     | JStr s \<Rightarrow> if js_trim s \<noteq> [] then (case date_parse h now of Fin r \<Rightarrow> r | _ \<Rightarrow> of_int clock) else of_int clock
     | _ \<Rightarrow> of_int clock)"

definition normalizeSeatId :: "host \<Rightarrow> js \<Rightarrow> string res" where
  "normalizeSeatId h seat =
     (if \<not> is_text seat then fail ''A non-empty seat identifier is required''
      else let trimmed = js_trim (str_of seat) in
        if list_ex is_space trimmed \<or> str_includes trimmed ''..'' \<or> str_includes trimmed ''/'' \<or> str_includes trimmed [CHR 0x5C]
        then fail (''Invalid seat identifier: '' @ js_string h seat) else Inr trimmed)"

text \<open>The file of a seat inside \<open>.agentflow/seats\<close> of the target directory.\<close>

definition seatLeasePath :: "host \<Rightarrow> js \<Rightarrow> js \<Rightarrow> string res" where
  "seatLeasePath h targetDir seat =
     (if \<not> truthy targetDir then fail ''targetDir is required for seat lease operations''
      else bnd (normalizeSeatId h seat) (\<lambda>n. Inr (n @ ''.json'')))"

type_synonym seat_files = "(string \<times> js option) list"

section \<open>Reading a lease\<close>

definition lease_expired :: "host \<Rightarrow> rat \<Rightarrow> js \<Rightarrow> bool" where
  "lease_expired h nowMs record = (case date_parse h (fld record ''expiresAt'') of Fin e \<Rightarrow> e \<le> nowMs | _ \<Rightarrow> True)"

definition readSeatLease :: "host \<Rightarrow> int \<Rightarrow> seat_files \<Rightarrow> js \<Rightarrow> js \<Rightarrow> js \<Rightarrow> bool \<Rightarrow> js res" where
  "readSeatLease h clock files targetDir seat now inspect =
     (if \<not> truthy targetDir \<or> \<not> truthy seat then Inr JNull
      else case seatLeasePath h targetDir seat of
        Inl _ \<Rightarrow> Inr JNull
      | Inr path \<Rightarrow>
          (case map_of files path of
             None \<Rightarrow> Inr JNull
           | Some None \<Rightarrow> Inr JNull
           | Some (Some record) \<Rightarrow>
               if nullish record then Inl (TypeError ''Cannot read properties of null (reading expiresAt)'')
               else let expired = lease_expired h (resolveNowMs h clock now) record in
                 Inr (if expired \<and> \<not> inspect then JNull
                      else JObj (obj_spread (own_props record) [(''expired'', JBool expired)]))))"

definition listSeatLeases :: "host \<Rightarrow> int \<Rightarrow> seat_files \<Rightarrow> js \<Rightarrow> js \<Rightarrow> bool \<Rightarrow> js list res" where
  "listSeatLeases h clock files targetDir now includeExpired =
     (if \<not> truthy targetDir then Inr []
      else let names = sort (filter (\<lambda>n. ends_with n ''.json'') (remdups (map fst files))) in
        bnd (map_res (\<lambda>n. readSeatLease h clock files targetDir (JStr (take (length n - 5) n)) now True) names) (\<lambda>leases.
        Inr (filter (\<lambda>l. truthy l \<and> (fld l ''expired'' \<noteq> JBool True \<or> includeExpired)) leases)))"

section \<open>Claiming and releasing a lease\<close>

record claim_args =
  ca_seat :: js
  ca_session :: js
  ca_platform :: js
  ca_desired :: js
  ca_observed :: js
  ca_worktree :: js
  ca_ttl :: js
  ca_force :: bool
  ca_supervisory :: js
  ca_now :: js

definition lease_record :: "string \<Rightarrow> string \<Rightarrow> claim_args \<Rightarrow> js \<Rightarrow> string \<Rightarrow> string \<Rightarrow> (string \<times> js) list" where
  "lease_record seat session a ttl claimedAt expiresAt =
     [(''version'', JNat 1), (''seat'', JStr seat), (''occupantSession'', JStr session),
      (''platform'', if truthy (js_default (ca_platform a) (JStr ''local-cli'')) then js_default (ca_platform a) (JStr ''local-cli'')
         else JStr ''local-cli''),
      (''desired'', coal (ca_desired a) JNull), (''observed'', coal (ca_observed a) JNull),
      (''worktree'', coal (ca_worktree a) JNull), (''ttlSeconds'', ttl),
      (''claimedAt'', JStr claimedAt), (''expiresAt'', JStr expiresAt)]"

definition effective_ttl :: "js \<Rightarrow> rat" where
  "effective_ttl v = (case v of JNum (Fin r) \<Rightarrow> if 0 < r then r else 3600 | _ \<Rightarrow> 3600)"

text \<open>
  A claim reads the lease file and decides, and only then writes it: \<open>claim_check\<close> is
  everything up to the refusal of a foreign lease, \<open>claim_write\<close> the rest. No lock joins the
  two, so another process may run between them. What is written is the JSON text of the record: a
  reader gets \<open>stored\<close> of it.
\<close>

definition claim_check :: "host \<Rightarrow> int \<Rightarrow> seat_files \<Rightarrow> js \<Rightarrow> claim_args \<Rightarrow> string res" where
  "claim_check h clock files targetDir a =
     (if \<not> truthy targetDir then fail ''targetDir is required''
      else bnd (normalizeSeatId h (ca_seat a)) (\<lambda>seat.
        if \<not> is_text (ca_session a) then fail ''occupantSession is required to claim a seat lease''
        else if starts_with seat ''steer.'' \<and> ca_supervisory a \<noteq> JBool True
        then fail (''Supervisory seat '' @ seat
          @ '' cannot be self-leased without explicit supervisory authorization (allowSupervisory: true)'')
        else let session = js_trim (str_of (ca_session a)) in
          bnd (readSeatLease h clock files targetDir (JStr seat) (ca_now a) True) (\<lambda>existing.
          if truthy existing \<and> \<not> truthy (fld existing ''expired'') \<and> \<not> js_eq (fld existing ''occupantSession'') (JStr session) \<and> \<not> ca_force a
          then fail (''Seat '' @ seat @ '' is already leased by '' @ js_string h (fld existing ''occupantSession''))
          else Inr seat)))"

definition claim_write :: "host \<Rightarrow> int \<Rightarrow> seat_files \<Rightarrow> js \<Rightarrow> claim_args \<Rightarrow> string \<Rightarrow> (seat_files \<times> js) res" where
  "claim_write h clock files targetDir a seat =
     (let session = js_trim (str_of (ca_session a)); ttl = effective_ttl (ca_ttl a); nowMs = resolveNowMs h clock (ca_now a) in
      bnd (toISOString nowMs) (\<lambda>claimedAt.
      bnd (toISOString (nowMs + ttl * 1000)) (\<lambda>expiresAt.
      bnd (seatLeasePath h targetDir (JStr seat)) (\<lambda>path.
      let record = lease_record seat session a (JNum (Fin ttl)) claimedAt expiresAt in
      Inr (obj_set files path (stored (JObj record)),
           JObj (obj_spread record [(''expired'', JBool False), (''leasePath'', JStr path)]))))))"

definition claimSeatLease :: "host \<Rightarrow> int \<Rightarrow> seat_files \<Rightarrow> js \<Rightarrow> claim_args \<Rightarrow> (seat_files \<times> js) res" where
  "claimSeatLease h clock files targetDir a =
     bnd (claim_check h clock files targetDir a) (claim_write h clock files targetDir a)"

text \<open>
  A release likewise looks first (\<open>release_check\<close>: \<open>None\<close> when there is no file, otherwise the
  normalised seat and the lease it read) and unlinks afterwards; unlinking a file that has gone
  meanwhile throws. The session is compared only when one is named: a release that names no
  session deletes anyone's lease.
\<close>

definition release_check :: "host \<Rightarrow> int \<Rightarrow> seat_files \<Rightarrow> js \<Rightarrow> js \<Rightarrow> js \<Rightarrow> js \<Rightarrow> (string \<times> js option) res" where
  "release_check h clock files targetDir seat0 session now =
     (if \<not> truthy targetDir then fail ''targetDir is required''
      else bnd (normalizeSeatId h seat0) (\<lambda>seat.
        bnd (seatLeasePath h targetDir (JStr seat)) (\<lambda>path.
        if map_of files path = None then Inr (seat, None)
        else bnd (readSeatLease h clock files targetDir (JStr seat) now True) (\<lambda>existing.
          bnd (if truthy session \<and> truthy existing \<and> \<not> truthy (fld existing ''expired'')
               then (case session of JStr s \<Rightarrow> Inr (\<not> js_eq (fld existing ''occupantSession'') (JStr (js_trim s)))
                     | _ \<Rightarrow> Inl (TypeError ''occupantSession.trim is not a function''))
               else Inr False) (\<lambda>foreign.
          if foreign
          then fail (''Session '' @ js_string h session @ '' cannot release seat '' @ seat @ '' leased by ''
            @ js_string h (fld existing ''occupantSession''))
          else Inr (seat, Some existing))))))"

definition release_unlink :: "host \<Rightarrow> seat_files \<Rightarrow> js \<Rightarrow> string \<Rightarrow> js option \<Rightarrow> (seat_files \<times> js) res" where
  "release_unlink h files targetDir seat found = (case found of
       None \<Rightarrow> Inr (files, JObj [(''released'', JBool False), (''seat'', JStr seat), (''reason'', JStr ''not_found'')])
     | Some existing \<Rightarrow> bnd (seatLeasePath h targetDir (JStr seat)) (\<lambda>path.
         if map_of files path = None then fail ''ENOENT: no such file or directory, unlink''
         else Inr (obj_del files path, JObj [(''released'', JBool True), (''seat'', JStr seat),
           (''previousOccupant'', coal (fld existing ''occupantSession'') JNull)])))"

definition releaseSeatLease :: "host \<Rightarrow> int \<Rightarrow> seat_files \<Rightarrow> js \<Rightarrow> js \<Rightarrow> js \<Rightarrow> js \<Rightarrow> (seat_files \<times> js) res" where
  "releaseSeatLease h clock files targetDir seat0 session now =
     bnd (release_check h clock files targetDir seat0 session now) (\<lambda>(seat, found).
       release_unlink h files targetDir seat found)"

section \<open>Who may write a transition\<close>

text \<open>\<open>/^([^@\s]+)@([^@\s]+)$/\<close> on the trimmed name; the first hyphen of the logical name becomes a dot.\<close>

fun first_dot :: "string \<Rightarrow> string" where
  "first_dot [] = []"
| "first_dot (c # s) = (if c = CHR ''-'' then CHR ''.'' # s else c # first_dot s)"

definition callerSeat :: "js \<Rightarrow> js" where
  "callerSeat v = (case v of
       JStr s0 \<Rightarrow> (let s = js_trim s0 in
         case split_on (CHR ''@'') s of
           [logical, rig] \<Rightarrow> if logical \<noteq> [] \<and> rig \<noteq> [] \<and> \<not> list_ex is_space s
             then JObj [(''session'', JStr s), (''seat'', JStr (first_dot logical)), (''rig'', JStr rig)] else JNull
         | _ \<Rightarrow> JNull)
     | _ \<Rightarrow> JNull)"

text \<open>The caller and the raw session name of one argument that may be a caller object or a session name.\<close>

definition caller_of :: "js \<Rightarrow> js \<times> js" where
  "caller_of v = (if truthy v \<and> typeof_object v then (v, JNull)
     else case v of JStr s \<Rightarrow> (callerSeat v, JStr (js_trim s)) | _ \<Rightarrow> (JNull, JNull))"

definition named_form :: "js \<Rightarrow> string \<Rightarrow> bool" where
  "named_form v k = (truthy v \<and> typeof_object v \<and> (has_own (own_props v) k \<or> has_own (own_props v) ''caller''))"

record claim_input =
  ci_seat :: js
  ci_caller :: js
  ci_session :: js
  ci_options :: js

definition read_claim :: "js \<Rightarrow> js \<Rightarrow> js \<Rightarrow> claim_input" where
  "read_claim first second third =
     (if named_form first ''seat''
      then let c = fld first ''caller'';
               (caller, session) = (if (truthy c \<and> typeof_object c) \<or> is_string c then caller_of c
                 else if is_string (fld first ''session'') then caller_of (fld first ''session'') else (JNull, JNull))
           in \<lparr>ci_seat = fld first ''seat'', ci_caller = caller, ci_session = session,
               ci_options = JObj (obj_spread (own_props first) (own_props (if truthy second then second else JObj [])))\<rparr>
      else let (caller, session) = caller_of first; opts = js_default third (JObj [])
           in \<lparr>ci_seat = second, ci_caller = caller, ci_session = session, ci_options = (if truthy opts then opts else JObj [])\<rparr>)"

record seat_claim =
  sc_verified :: bool
  sc_rig :: js
  sc_lease :: bool

definition claimSeat :: "host \<Rightarrow> int \<Rightarrow> (js \<Rightarrow> seat_files) \<Rightarrow> js \<Rightarrow> js \<Rightarrow> js \<Rightarrow> seat_claim res" where
  "claimSeat h clock disk first second third =
     (let i = read_claim first second third; c = ci_caller i; seat = ci_seat i; dir = fld (ci_options i) ''targetDir'' in
      if truthy c
      then if \<not> js_eq (fld c ''seat'') seat
           then fail (''Session '' @ js_string h (fld c ''session'') @ '' holds seat '' @ js_string h (fld c ''seat'')
             @ '' and cannot append a transition as seat '' @ js_string h seat)
           else Inr \<lparr>sc_verified = True, sc_rig = fld c ''rig'', sc_lease = False\<rparr>
      else let unverified = \<lparr>sc_verified = False, sc_rig = JNull, sc_lease = False\<rparr> in
        if truthy dir \<and> truthy (ci_session i)
        then bnd (readSeatLease h clock (disk dir) dir seat (fld (ci_options i) ''now'') False) (\<lambda>lease.
          Inr (if truthy lease \<and> \<not> truthy (fld lease ''expired'') \<and> js_eq (fld lease ''occupantSession'') (ci_session i)
               then \<lparr>sc_verified = True, sc_rig = (if truthy (fld lease ''platform'') then fld lease ''platform'' else JStr ''local-lease''),
                 sc_lease = True\<rparr>
               else unverified))
        else Inr unverified)"

definition claimExisting :: "host \<Rightarrow> js \<Rightarrow> js \<Rightarrow> unit res" where
  "claimExisting h first second =
     (let (existing, caller) = (if named_form first ''existing''
          then (fld first ''existing'', if truthy (fld first ''caller'') \<and> typeof_object (fld first ''caller'')
            then fld first ''caller'' else callerSeat (fld first ''caller''))
          else (first, if truthy second \<and> typeof_object second then second else callerSeat second)) in
      if \<not> truthy caller \<or> \<not> truthy existing then Inr ()
      else if \<not> js_eq (fld existing ''seat'') (fld caller ''seat'')
         \<or> (truthy (fld existing ''seatRig'') \<and> \<not> js_eq (fld existing ''seatRig'') (fld caller ''rig''))
      then fail (''Session '' @ js_string h (fld caller ''session'') @ '' cannot reuse key ''
        @ js_string h (fld existing ''idempotencyKey'') @ '', which seat '' @ js_string h (fld existing ''seat'') @ '' recorded'')
      else Inr ())"

section \<open>Facts about seats\<close>

lemma trim_no_space: "\<not> list_ex is_space s \<Longrightarrow> js_trim s = s"
proof -
  assume "\<not> list_ex is_space s"
  then have n: "\<forall>c\<in>set s. \<not> is_space c" by (auto simp: list_ex_iff)
  have d: "dropWhile is_space xs = xs" if "\<forall>c\<in>set xs. \<not> is_space c" for xs
    using that by (cases xs) auto
  from n d [of s] d [of "rev s"] show ?thesis by (simp add: js_trim_def)
qed

lemma normalizeSeatId_again:
  assumes "normalizeSeatId h v = Inr seat"
  shows "normalizeSeatId h (JStr seat) = Inr seat" and "seat \<noteq> []"
proof -
  from assms have s: "seat = js_trim (str_of v)" "seat \<noteq> []" and ok: "\<not> list_ex is_space seat"
      "\<not> str_includes seat ''..''" "\<not> str_includes seat ''/''" "\<not> str_includes seat [CHR 0x5C]"
    by (auto simp: normalizeSeatId_def Let_def if_Inl_Inr is_text_def split: js.splits)
  show "normalizeSeatId h (JStr seat) = Inr seat"
    using ok s(2) by (simp add: normalizeSeatId_def is_text_def trim_no_space)
  show "seat \<noteq> []" by (rule s(2))
qed

lemma seatLeasePath_of:
  "truthy dir \<Longrightarrow> normalizeSeatId h v = Inr seat \<Longrightarrow> seatLeasePath h dir v = Inr (seat @ ''.json'')"
  by (simp add: seatLeasePath_def)

lemma seat_truthy: "normalizeSeatId h v = Inr seat \<Longrightarrow> truthy v"
  by (cases v) (auto simp: normalizeSeatId_def is_text_def js_trim_def split: if_splits)

text \<open>A file that holds the lease of \<open>who\<close> until the instant \<open>e\<close>.\<close>

definition holds_lease :: "host \<Rightarrow> seat_files \<Rightarrow> string \<Rightarrow> string \<Rightarrow> int \<Rightarrow> bool" where
  "holds_lease h files seat who e \<longleftrightarrow> (\<exists>fs. map_of files (seat @ ''.json'') = Some (Some (JObj fs))
     \<and> map_of fs ''occupantSession'' = Some (JStr who) \<and> date_parse h (fld (JObj fs) ''expiresAt'') = Fin (of_int e))"

lemma read_held:
  assumes "holds_lease h files seat who e" and "truthy dir" and "normalizeSeatId h v = Inr seat"
    and "resolveNowMs h clock now < of_int e"
  shows "\<exists>lease. readSeatLease h clock files dir v now insp = Inr (JObj lease) \<and> fld (JObj lease) ''occupantSession'' = JStr who
    \<and> fld (JObj lease) ''expired'' = JBool False"
proof -
  from assms(1) obtain fs where fs: "map_of files (seat @ ''.json'') = Some (Some (JObj fs))"
      "map_of fs ''occupantSession'' = Some (JStr who)" "date_parse h (fld (JObj fs) ''expiresAt'') = Fin (of_int e)"
    by (auto simp: holds_lease_def)
  have "\<not> lease_expired h (resolveNowMs h clock now) (JObj fs)" using fs(3) assms(4) by (simp add: lease_expired_def)
  then show ?thesis
    using fs(1,2) assms(2) seat_truthy [OF assms(3)]
    by (simp add: readSeatLease_def seatLeasePath_of [OF assms(2,3)] fld_own map_of_obj_spread own_props_def Let_def)
qed

lemma claim_check_Inr:
  assumes "claim_check h clock files dir a = Inr seat"
  shows "truthy dir" and "normalizeSeatId h (ca_seat a) = Inr seat"
    and "readSeatLease h clock files dir (JStr seat) (ca_now a) True = Inr ex \<Longrightarrow> truthy ex \<Longrightarrow> \<not> truthy (fld ex ''expired'')
        \<Longrightarrow> fld ex ''occupantSession'' = JStr (js_trim (str_of (ca_session a))) \<or> ca_force a"
  using assms by (auto simp: claim_check_def if_Inl_Inr Let_def)

lemma claim_write_Inr:
  assumes "claim_write h clock files dir a seat = Inr (g, r)" and "truthy dir" and "normalizeSeatId h v = Inr seat"
  shows "\<exists>c ts. toISOString (resolveNowMs h clock (ca_now a) + effective_ttl (ca_ttl a) * 1000) = Inr ts
    \<and> g = obj_set files (seat @ ''.json'') (stored (JObj
        (lease_record seat (js_trim (str_of (ca_session a))) a (JNum (Fin (effective_ttl (ca_ttl a)))) c ts)))"
proof -
  have p: "seatLeasePath h dir (JStr seat) = Inr (seat @ ''.json'')"
    by (rule seatLeasePath_of [OF assms(2) normalizeSeatId_again(1) [OF assms(3)]])
  show ?thesis using assms(1) unfolding claim_write_def Let_def bnd_Inr p by auto
qed

lemma claimed_lease_held:
  assumes "claim_write h clock files dir a seat = Inr (g, r)" and "truthy dir" and "normalizeSeatId h (ca_seat a) = Inr seat"
    and "time_clip (resolveNowMs h clock (ca_now a) + effective_ttl (ca_ttl a) * 1000) = Some e"
    and "0 \<le> iso_year e" and "iso_year e \<le> 9999"
  shows "holds_lease h g seat (js_trim (str_of (ca_session a))) e"
proof -
  from claim_write_Inr [OF assms(1-3)] obtain ts c
    where ts: "toISOString (resolveNowMs h clock (ca_now a) + effective_ttl (ca_ttl a) * 1000) = Inr ts"
    and f: "g = obj_set files (seat @ ''.json'') (stored (JObj
        (lease_record seat (js_trim (str_of (ca_session a))) a (JNum (Fin (effective_ttl (ca_ttl a)))) c ts)))"
    by blast
  have t: "ts = iso_text e" using ts assms(4) by (simp add: toISOString_def)
  define rec where "rec = lease_record seat (js_trim (str_of (ca_session a))) a (JNum (Fin (effective_ttl (ca_ttl a)))) c ts"
  obtain gs where gs: "stored (JObj rec) = Some (JObj gs)" by simp
  have d: "distinct (map fst rec)" by (simp add: rec_def lease_record_def)
  have "map_of gs ''occupantSession'' = Some (JStr (js_trim (str_of (ca_session a))))" "map_of gs ''expiresAt'' = Some (JStr (iso_text e))"
    using stored_JObj_map_of [OF gs d] by (simp_all add: rec_def lease_record_def t)
  moreover have "date_parse h (JStr (iso_text e)) = Fin (of_int e)"
    by (simp add: date_parse_def iso_round_trip [OF assms(5,6)])
  ultimately show ?thesis using f gs by (simp add: holds_lease_def rec_def fld_own)
qed

section \<open>Mutual exclusion\<close>

text \<open>
  Several processes run over one directory. A call is in flight once it has passed its check and
  until it has touched the file, and any number of steps of other calls may lie between. A state
  is the files and the calls in flight.
\<close>

datatype in_flight =
    Claiming claim_args string
  | Releasing string "js option"

primrec flight_seat :: "in_flight \<Rightarrow> string" where
  "flight_seat (Claiming a seat) = seat"
| "flight_seat (Releasing seat found) = seat"

type_synonym lease_state = "seat_files \<times> in_flight list"

text \<open>
  One step of a session other than \<open>who\<close>, up to the instant \<open>t\<close>: a claim without force or a
  release that names its session passes its check, or writes what it decided. A forced claim and a
  release that names no session are the two calls the code lets through against a live lease
  (\<open>nameless_release_deletes\<close>), and are no step of this relation.
\<close>

inductive others_step :: "host \<Rightarrow> js \<Rightarrow> string \<Rightarrow> rat \<Rightarrow> lease_state \<Rightarrow> lease_state \<Rightarrow> bool" for h dir who t where
  claim_begins: "claim_check h clock f dir a = Inr seat \<Longrightarrow> \<not> ca_force a \<Longrightarrow> js_trim (str_of (ca_session a)) \<noteq> who
    \<Longrightarrow> resolveNowMs h clock (ca_now a) \<le> t \<Longrightarrow> others_step h dir who t (f, fl) (f, Claiming a seat # fl)"
| claim_ends: "Claiming a seat \<in> set fl \<Longrightarrow> truthy dir \<Longrightarrow> normalizeSeatId h (ca_seat a) = Inr seat
    \<Longrightarrow> claim_write h clock f dir a seat = Inr (g, r) \<Longrightarrow> others_step h dir who t (f, fl) (g, remove1 (Claiming a seat) fl)"
| release_begins: "release_check h clock f dir v session now = Inr (seat, found) \<Longrightarrow> truthy session
    \<Longrightarrow> (\<And>s. session = JStr s \<Longrightarrow> js_trim s \<noteq> who) \<Longrightarrow> resolveNowMs h clock now \<le> t
    \<Longrightarrow> others_step h dir who t (f, fl) (f, Releasing seat found # fl)"
| release_ends: "Releasing seat found \<in> set fl \<Longrightarrow> truthy dir \<Longrightarrow> normalizeSeatId h v = Inr seat
    \<Longrightarrow> release_unlink h f dir seat found = Inr (g, r) \<Longrightarrow> others_step h dir who t (f, fl) (g, remove1 (Releasing seat found) fl)"

inductive_cases others_stepE: "others_step h dir who t s s'"

text \<open>A call in flight that would leave the lease alone: it is about another seat, or has nothing to delete.\<close>

primrec harmless :: "string \<Rightarrow> in_flight \<Rightarrow> bool" where
  "harmless seat (Claiming a seat') = (seat' \<noteq> seat)"
| "harmless seat (Releasing seat' found) = (seat' \<noteq> seat \<or> found = None)"

definition lease_safe :: "host \<Rightarrow> string \<Rightarrow> string \<Rightarrow> int \<Rightarrow> lease_state \<Rightarrow> bool" where
  "lease_safe h seat who e s \<longleftrightarrow> holds_lease h (fst s) seat who e \<and> list_all (harmless seat) (snd s)"

lemma check_refused:
  assumes "holds_lease h f seat who e" and "claim_check h clock f dir a = Inr seat'" and "\<not> ca_force a"
    and "js_trim (str_of (ca_session a)) \<noteq> who" and "resolveNowMs h clock (ca_now a) < of_int e"
  shows "seat' \<noteq> seat"
proof
  note c = claim_check_Inr [OF assms(2)]
  assume "seat' = seat"
  with read_held [OF assms(1) c(1) _ assms(5), of "JStr seat" True] normalizeSeatId_again [OF c(2)]
  obtain l where "readSeatLease h clock f dir (JStr seat') (ca_now a) True = Inr (JObj l)"
    "fld (JObj l) ''occupantSession'' = JStr who" "fld (JObj l) ''expired'' = JBool False" by auto
  with c(3) [of "JObj l"] assms(3,4) show False by simp
qed

lemma release_refused:
  assumes "holds_lease h f seat who e" and "release_check h clock f dir v session now = Inr (seat', found)" and "truthy session"
    and "\<And>s. session = JStr s \<Longrightarrow> js_trim s \<noteq> who" and "resolveNowMs h clock now < of_int e"
  shows "seat' \<noteq> seat"
proof
  assume s: "seat' = seat"
  from assms(2) have dir: "truthy dir" and n: "normalizeSeatId h v = Inr seat'"
    by (auto simp: release_check_def if_Inl_Inr split: if_splits)
  note n' = normalizeSeatId_again(1) [OF n]
  have p: "seatLeasePath h dir (JStr seat') = Inr (seat' @ ''.json'')" by (rule seatLeasePath_of [OF dir n'])
  from read_held [OF assms(1) dir _ assms(5), of "JStr seat'" True] n' s
  obtain l where "readSeatLease h clock f dir (JStr seat') now True = Inr (JObj l)"
    "fld (JObj l) ''occupantSession'' = JStr who" "fld (JObj l) ''expired'' = JBool False" by auto
  with assms(1-4) n p s show False
    by (auto simp: release_check_def dir holds_lease_def split: if_splits js.splits)
qed

lemma step_keeps_lease:
  assumes "others_step h dir who t s s'" and "lease_safe h seat who e s" and "t < of_int e"
  shows "lease_safe h seat who e s'"
  using assms(1)
proof (cases rule: others_step.cases)
  case (claim_begins clock f a seat' fl)
  with check_refused [of h f seat who e clock dir a seat'] assms(2,3) show ?thesis by (auto simp: lease_safe_def)
next
  case (claim_ends a seat' fl clock f g r)
  from claim_ends(3) assms(2) claim_ends(1) have "seat' \<noteq> seat" by (auto simp: lease_safe_def list_all_iff)
  moreover from claim_write_Inr [OF claim_ends(6,4,5)] obtain x where "g = obj_set f (seat' @ ''.json'') x" by blast
  ultimately show ?thesis using claim_ends(1,2) assms(2) notin_set_remove1
    by (auto simp: lease_safe_def holds_lease_def list_all_iff)
next
  case (release_begins clock f v session now seat' found fl)
  with release_refused [of h f seat who e clock dir v session now seat' found] assms(2,3)
  show ?thesis by (auto simp: lease_safe_def)
next
  case (release_ends seat' found fl v f g r)
  have p: "seatLeasePath h dir (JStr seat') = Inr (seat' @ ''.json'')"
    by (rule seatLeasePath_of [OF release_ends(4) normalizeSeatId_again(1) [OF release_ends(5)]])
  from release_ends(3) assms(2) release_ends(1) have "seat' \<noteq> seat \<or> found = None"
    by (auto simp: lease_safe_def list_all_iff)
  then have "holds_lease h g seat who e"
    using release_ends(1,6) assms(2) p
    by (auto simp: release_unlink_def lease_safe_def holds_lease_def if_Inl_Inr split: option.splits if_splits)
  then show ?thesis using release_ends(1,2) assms(2) notin_set_remove1 by (auto simp: lease_safe_def list_all_iff)
qed

lemma others_keep_lease:
  assumes "(others_step h dir who t)\<^sup>*\<^sup>* s s'" and "lease_safe h seat who e s" and "t < of_int e"
  shows "lease_safe h seat who e s'"
  using assms(1,2) by (induction rule: rtranclp_induct) (auto intro: step_keeps_lease [OF _ _ assms(3)])

text \<open>
  C4. Mutual exclusion of seats: once a session has claimed a seat and no other call on the seat is
  past its check, then, however other sessions interleave unforced claims and releases naming
  their session before the lease expires, every reader still sees that session as the occupant,
  and an unforced claim of the seat by any other session is refused.
\<close>

theorem lease_mutual_exclusion:
  assumes "claimSeatLease h clock files dir a = Inr (f, r)" and "normalizeSeatId h (ca_seat a) = Inr seat"
    and "list_all (harmless seat) fl"
    and "time_clip (resolveNowMs h clock (ca_now a) + effective_ttl (ca_ttl a) * 1000) = Some e"
    and "0 \<le> iso_year e" and "iso_year e \<le> 9999"
    and "(others_step h dir (js_trim (str_of (ca_session a))) t)\<^sup>*\<^sup>* (f, fl) (g, fl')" and "t < of_int e"
    and "resolveNowMs h clock2 now \<le> t"
  shows "(\<exists>lease. readSeatLease h clock2 g dir (ca_seat a) now False = Inr lease
      \<and> fld lease ''occupantSession'' = JStr (js_trim (str_of (ca_session a))) \<and> fld lease ''expired'' = JBool False)
    \<and> (\<forall>b. ca_seat b = ca_seat a \<and> ca_now b = now \<and> \<not> ca_force b \<and> js_trim (str_of (ca_session b)) \<noteq> js_trim (str_of (ca_session a))
         \<longrightarrow> (\<exists>err. claimSeatLease h clock2 g dir b = Inl err))"
proof -
  let ?who = "js_trim (str_of (ca_session a))"
  from assms(1,2) have dir: "truthy dir" and w: "claim_write h clock files dir a seat = Inr (f, r)"
    by (auto simp: claimSeatLease_def dest: claim_check_Inr(1,2))
  have "lease_safe h seat ?who e (f, fl)"
    using claimed_lease_held [OF w dir assms(2,4-6)] assms(3) by (simp add: lease_safe_def)
  from others_keep_lease [OF assms(7) this assms(8)] have l: "holds_lease h g seat ?who e" by (simp add: lease_safe_def)
  have lt: "resolveNowMs h clock2 now < of_int e" using assms(8,9) by simp
  have "\<exists>err. claimSeatLease h clock2 g dir b = Inl err"
    if b: "ca_seat b = ca_seat a" "ca_now b = now" "\<not> ca_force b" "js_trim (str_of (ca_session b)) \<noteq> ?who" for b
  proof (cases "claim_check h clock2 g dir b")
    case (Inr seat')
    from claim_check_Inr(2) [OF Inr] b(1) assms(2) check_refused [OF l Inr b(3,4)] b(2) lt show ?thesis by simp
  qed (simp add: claimSeatLease_def)
  moreover from read_held [OF l dir assms(2) lt, of False]
  have "\<exists>lease. readSeatLease h clock2 g dir (ca_seat a) now False = Inr lease
      \<and> fld lease ''occupantSession'' = JStr ?who \<and> fld lease ''expired'' = JBool False" by blast
  ultimately show ?thesis by blast
qed

definition sample_claim :: "string \<Rightarrow> string \<Rightarrow> claim_args" where
  "sample_claim seat session = \<lparr>ca_seat = JStr seat, ca_session = JStr session, ca_platform = JUndef, ca_desired = JUndef,
     ca_observed = JUndef, ca_worktree = JUndef, ca_ttl = JUndef, ca_force = False, ca_supervisory = JUndef, ca_now = JNum (Fin 0)\<rparr>"

lemma sample_clip: "time_clip 0 = Some 0" "time_clip 3600000 = Some 3600000"
  by (simp_all add: time_clip_def)

lemma sample_iso_year: "iso_year 3600000 = 1970"
  by (simp add: iso_year_def civil_from_days_def year_day_def month_day_def min_def)

lemma sample_now: "resolveNowMs const_host 0 (JNum (Fin 0)) = 0"
  by (simp add: resolveNowMs_def)

lemma sample_seat: "normalizeSeatId h (JStr ''dev.qa'') = Inr ''dev.qa''" "normalizeSeatId h (JStr ''dev.app'') = Inr ''dev.app''"
  by (simp_all add: normalizeSeatId_def is_text_def js_trim_def is_space_def)

lemma sample_check:
  assumes "seat \<in> {''dev.qa'', ''dev.app''}" and "session \<in> {''s1'', ''s2''}" and "map_of files (seat @ ''.json'') = None"
  shows "claim_check const_host 0 files (JStr ''/w'') (sample_claim seat session) = Inr seat"
proof -
  have n: "normalizeSeatId const_host (JStr seat) = Inr seat" using assms(1) sample_seat by auto
  have r: "readSeatLease const_host 0 files (JStr ''/w'') (JStr seat) (JNum (Fin 0)) True = Inr JNull"
    using assms(1,3) by (simp add: readSeatLease_def seatLeasePath_of [OF _ n])
  have t: "is_text (JStr session)" using assms(2) by (auto simp: is_text_def js_trim_def is_space_def)
  have s: "\<not> starts_with seat ''steer.''" using assms(1) by auto
  show ?thesis using s by (simp add: claim_check_def sample_claim_def n t r Let_def)
qed

lemma sample_write:
  assumes "seat \<in> {''dev.qa'', ''dev.app''}"
  shows "\<exists>f r. claim_write const_host 0 files (JStr ''/w'') (sample_claim seat session) seat = Inr (f, r)"
proof -
  have n: "normalizeSeatId const_host (JStr seat) = Inr seat" using assms sample_seat by auto
  show ?thesis
    by (simp add: claim_write_def sample_claim_def sample_now effective_ttl_def toISOString_def sample_clip
        seatLeasePath_of [OF _ n] Let_def del: bnd_Inr stored.simps)
qed

text \<open>
  The two calls that get past a live lease, and the race the missing lock allows: both sessions
  pass the check of the empty directory, both calls succeed, and the second write is what remains.
\<close>

lemma nameless_release_deletes:
  assumes "holds_lease h f seat who e" and "truthy dir" and "normalizeSeatId h v = Inr seat" and "resolveNowMs h clock now < of_int e"
  shows "\<exists>r. releaseSeatLease h clock f dir v JUndef now = Inr (obj_del f (seat @ ''.json''), r)"
proof -
  note n = normalizeSeatId_again(1) [OF assms(3)]
  have p: "seatLeasePath h dir (JStr seat) = Inr (seat @ ''.json'')" by (rule seatLeasePath_of [OF assms(2) n])
  have m: "\<exists>y. map_of f (seat @ ''.json'') = Some y" using assms(1) by (auto simp: holds_lease_def)
  from read_held [OF assms(1,2) n assms(4), of True] m show ?thesis
    by (auto simp: releaseSeatLease_def release_check_def release_unlink_def assms(2,3) p)
qed

lemma claim_race:
  "\<exists>f r g r2. claim_check const_host 0 [] (JStr ''/w'') (sample_claim ''dev.qa'' ''s1'') = Inr ''dev.qa''
    \<and> claim_check const_host 0 [] (JStr ''/w'') (sample_claim ''dev.qa'' ''s2'') = Inr ''dev.qa''
    \<and> claim_write const_host 0 [] (JStr ''/w'') (sample_claim ''dev.qa'' ''s1'') ''dev.qa'' = Inr (f, r)
    \<and> claim_write const_host 0 f (JStr ''/w'') (sample_claim ''dev.qa'' ''s2'') ''dev.qa'' = Inr (g, r2)
    \<and> holds_lease const_host g ''dev.qa'' ''s2'' 3600000"
proof -
  obtain f r where f: "claim_write const_host 0 [] (JStr ''/w'') (sample_claim ''dev.qa'' ''s1'') ''dev.qa'' = Inr (f, r)"
    using sample_write [of "''dev.qa''" "[]" "''s1''"] by auto
  obtain g r2 where g: "claim_write const_host 0 f (JStr ''/w'') (sample_claim ''dev.qa'' ''s2'') ''dev.qa'' = Inr (g, r2)"
    using sample_write [of "''dev.qa''" f "''s2''"] by auto
  have "js_trim ''s2'' = ''s2''" by (simp add: js_trim_def is_space_def)
  with claimed_lease_held [OF g, of 3600000] have "holds_lease const_host g ''dev.qa'' ''s2'' 3600000"
    by (simp add: sample_claim_def sample_seat sample_now effective_ttl_def sample_clip sample_iso_year)
  with f g show ?thesis by (simp add: sample_check)
qed

theorem lease_mutual_exclusion_witness:
  "\<exists>f r g r2. claimSeatLease const_host 0 [] (JStr ''/w'') (sample_claim ''dev.qa'' ''s1'') = Inr (f, r)
     \<and> claimSeatLease const_host 0 f (JStr ''/w'') (sample_claim ''dev.app'' ''s2'') = Inr (g, r2)
     \<and> (\<exists>err. claimSeatLease const_host 0 g (JStr ''/w'') (sample_claim ''dev.qa'' ''s2'') = Inl err)"
proof -
  let ?a = "sample_claim ''dev.app'' ''s2''"
  obtain f r where f: "claimSeatLease const_host 0 [] (JStr ''/w'') (sample_claim ''dev.qa'' ''s1'') = Inr (f, r)"
    using sample_write [of "''dev.qa''" "[]" "''s1''"] by (auto simp: claimSeatLease_def sample_check)
  then have w: "claim_write const_host 0 [] (JStr ''/w'') (sample_claim ''dev.qa'' ''s1'') ''dev.qa'' = Inr (f, r)"
    by (simp add: claimSeatLease_def sample_check)
  have "map_of f ''dev.app.json'' = None"
    using claim_write_Inr [OF w, of "JStr ''dev.qa''"] by (auto simp: sample_seat)
  then have c: "claim_check const_host 0 f (JStr ''/w'') ?a = Inr ''dev.app''" by (simp add: sample_check)
  obtain g r2 where g: "claim_write const_host 0 f (JStr ''/w'') ?a ''dev.app'' = Inr (g, r2)"
    using sample_write [of "''dev.app''" f "''s2''"] by auto
  have tr: "js_trim ''s1'' = ''s1''" "js_trim ''s2'' = ''s2''" by (simp_all add: js_trim_def is_space_def)
  have b: "others_step const_host (JStr ''/w'') ''s1'' 0 (f, []) (f, [Claiming ?a ''dev.app''])"
    by (rule others_step.claim_begins [OF c]) (simp_all add: sample_claim_def tr sample_now)
  have "others_step const_host (JStr ''/w'') ''s1'' 0 (f, [Claiming ?a ''dev.app''])
      (g, remove1 (Claiming ?a ''dev.app'') [Claiming ?a ''dev.app''])"
    by (rule others_step.claim_ends [OF _ _ _ g]) (simp_all add: sample_claim_def sample_seat)
  with b have o: "(others_step const_host (JStr ''/w'') ''s1'' 0)\<^sup>*\<^sup>* (f, []) (g, [])"
    by (auto intro: converse_rtranclp_into_rtranclp)
  have "\<exists>err. claimSeatLease const_host 0 g (JStr ''/w'') (sample_claim ''dev.qa'' ''s2'') = Inl err"
    using lease_mutual_exclusion [OF f, of "''dev.qa''" "[]" 3600000 0 g "[]" 0 "JNum (Fin 0)"] o sample_iso_year sample_clip
    by (simp add: sample_claim_def sample_now effective_ttl_def tr sample_seat)
  with f c g show ?thesis by (auto simp: claimSeatLease_def)
qed

end
