(* ===== verification/Dispatch.thy ===== *)
theory Dispatch
  imports Seats
begin

text \<open>
  Transition envelopes (src/lib/core/dispatch.mjs, with the enumerations of
  src/lib/core/seat-prime.mjs): one seat hands work to another by writing an envelope into the
  receiver's inbox, and to a rig queue when one is active. The inboxes of a target directory are a
  finite map from the path below \<open>.agentflow/inbox\<close> to the parsed content of the file. An
  envelope is written before the rig is asked, so \<open>dispatchEnvelope\<close> returns the inboxes
  beside its result or error.
\<close>

section \<open>Outcomes\<close>

definition OUTCOME_ENUM :: "string list" where
  "OUTCOME_ENUM = [''delivered'', ''no_change'', ''feasible_work_remains_same_worker'', ''concrete_blocker'',
     ''unknown_outcome'', ''repeated_failure'']"

definition QUEUE_ACTION_ENUM :: "string list" where
  "QUEUE_ACTION_ENUM = [''close'', ''handoff'', ''keep_open'']"

definition DOMAIN_STATUS_ENUM :: "string list" where
  "DOMAIN_STATUS_ENUM = [''in_progress'', ''slice_complete'', ''goal_complete'']"

definition LEGACY_DECISION_ENUM :: "string list" where
  "LEGACY_DECISION_ENUM = [''pass'', ''blocked'', ''returned'', ''skipped'']"

definition LEGACY_TO_OUTCOME :: "(string \<times> string) list" where
  "LEGACY_TO_OUTCOME = [(''pass'', ''delivered''), (''blocked'', ''concrete_blocker''),
     (''returned'', ''feasible_work_remains_same_worker''), (''skipped'', ''no_change'')]"

definition envelope_char :: "char \<Rightarrow> bool" where
  "envelope_char c = (is_alnum c \<or> c \<in> {CHR ''.'', CHR ''_'', CHR ''-''})"

definition validateEnvelopeId :: "host \<Rightarrow> js \<Rightarrow> string res" where
  "validateEnvelopeId h v =
     (if is_text v \<and> list_all envelope_char (str_of v) \<and> \<not> str_includes (str_of v) ''..'' then Inr (str_of v)
      else fail (''Invalid envelope id '' @ [CHR 0x22] @ js_string h v @ [CHR 0x22]
        @ ''. Must match /^[A-Za-z0-9._-]+$/ with no path traversal.''))"

text \<open>The two parts of \<open>normalizeOutcome\<close>: the outcome and the recorded decision.\<close>

definition normalizeOutcome :: "host \<Rightarrow> js \<Rightarrow> js \<Rightarrow> (string \<times> string) res" where
  "normalizeOutcome h outcome0 decision =
     (if truthy outcome0
      then if \<not> one_of OUTCOME_ENUM outcome0
        then fail (''Invalid outcome '' @ [CHR 0x22] @ js_string h outcome0 @ [CHR 0x22] @ ''. Expected one of: '' @ js_join '', '' OUTCOME_ENUM)
        else Inr (str_of outcome0, if one_of (LEGACY_DECISION_ENUM @ OUTCOME_ENUM) decision then str_of decision else str_of outcome0)
      else if truthy decision
      then if one_of OUTCOME_ENUM decision then Inr (str_of decision, str_of decision)
        else if one_of LEGACY_DECISION_ENUM decision then Inr (the (map_of LEGACY_TO_OUTCOME (str_of decision)), str_of decision)
        else fail (''Invalid decision '' @ [CHR 0x22] @ js_string h decision @ [CHR 0x22] @ ''. Expected one of: ''
          @ js_join '', '' (LEGACY_DECISION_ENUM @ OUTCOME_ENUM))
      else fail ''Either outcome or decision is required to dispatch a transition envelope'')"

definition next_action_of :: "js \<Rightarrow> string \<Rightarrow> (string \<times> js) list res" where
  "next_action_of worker out =
     (let act = (\<lambda>a seat. Inr [(''action'', JStr a), (''targetSeat'', seat)]) in
      if out = ''feasible_work_remains_same_worker'' then act ''redispatch_same_worker'' worker
      else if out = ''delivered''
      then Inr [(''action'', JStr ''fanout_qa_and_review''), (''targetSeats'', jstrs [''dev.qa'', ''rev.review'']),
        (''targetSeat'', JStr ''dev.qa'')]
      else if out = ''concrete_blocker'' then act ''escalate_coordinator'' (JStr ''orch.arch'')
      else if out = ''unknown_outcome'' then act ''reconcile_state'' (JStr ''orch.arch'')
      else if out = ''repeated_failure'' then act ''trip_circuit_breaker'' (JStr ''steer.lead'')
      else if out = ''no_change'' then act ''close_slice'' (JStr ''orch.arch'')
      else fail (''Unhandled outcome: '' @ out))"

definition resolveNextCoordinatorAction :: "host \<Rightarrow> js \<Rightarrow> (string \<times> js) list res" where
  "resolveNextCoordinatorAction h env =
     bnd (dot env ''outcome'') (\<lambda>o0.
     bnd (normalizeOutcome h o0 (fld env ''decision'')) (\<lambda>(out, _).
     next_action_of (coal (fld env ''from'') (coal (fld env ''fromRole'') JNull)) out))"

section \<open>Guards of a dispatch\<close>

definition isDeliverySeat :: "string \<Rightarrow> bool" where
  "isDeliverySeat seat = (starts_with seat ''orch.'' \<or> starts_with seat ''dev.'' \<or> starts_with seat ''rev.'')"

text \<open>
  The two busy files of the target directory, each absent, unparsable or parsed.
\<close>

fun busy_in :: "js option list \<Rightarrow> bool" where
  "busy_in [] = False"
| "busy_in (None # fs) = True"
| "busy_in (Some v # fs) =
     ((truthy v \<and> (js_eq (fld v ''busy'') (JBool True) \<or> js_eq (fld v ''active'') (JBool True))) \<or> busy_in fs)"

definition isBusyHoldActive :: "(string \<times> js option) list \<Rightarrow> js \<Rightarrow> bool" where
  "isBusyHoldActive files explicit = (case explicit of
       JBool b \<Rightarrow> b
     | _ \<Rightarrow> busy_in (List.map_filter (map_of files) [''.agentflow/handoff/busy.json'', ''.agentflow/busy.json'']))"

record dispatch_args =
  da_id :: js
  da_to :: js
  da_from :: js
  da_outcome :: js
  da_decision :: js
  da_queueAction :: js
  da_domainStatus :: js
  da_summary :: js
  da_issueRef :: js
  da_sliceId :: js
  da_closes :: js
  da_result :: js
  da_callerVerified :: js
  da_callerSession :: js
  da_busyHold :: js
  da_openrigActive :: js
  da_rigRunner :: "(js list \<Rightarrow> js \<Rightarrow> js res) option"
  da_now :: js

text \<open>
  What a dispatch reads of its surroundings: the clock, the environment variables, the busy files
  and the \<open>rig\<close> program it starts when no runner was passed.
\<close>

record surroundings =
  sr_clock :: int
  sr_env :: "string \<Rightarrow> string option"
  sr_busy :: "(string \<times> js option) list"
  sr_spawn :: "js list \<Rightarrow> js \<Rightarrow> js res"

definition env_set :: "surroundings \<Rightarrow> string \<Rightarrow> bool" where
  "env_set w k = (case sr_env w k of Some s \<Rightarrow> s \<noteq> [] | None \<Rightarrow> False)"

text \<open>Who may declare a goal complete.\<close>

definition check_goal_complete :: "surroundings \<Rightarrow> string \<Rightarrow> js \<Rightarrow> js \<Rightarrow> unit res" where
  "check_goal_complete w from verified session =
     (if from \<noteq> ''steer.lead'' \<and> from \<noteq> ''human''
      then fail (''Seat '' @ from @ '' cannot declare domainStatus='' @ [CHR 0x22] @ ''goal_complete'' @ [CHR 0x22] @ ''; only steer.lead or human holds goal completion authority'')
      else let parsed = (if truthy session then callerSeat session else JNull);
               supervisory = (js_eq (fld parsed ''seat'') (JStr ''steer.lead'')
                 \<or> sr_env w ''AGENTFLOW_SUPERVISORY_VERIFIED'' = Some ''1'')
        in if js_eq verified (JBool False) \<or> (\<not> js_eq session JNull \<and> \<not> truthy verified \<and> \<not> supervisory)
           then fail (''Unverified caller cannot declare domainStatus='' @ [CHR 0x22] @ ''goal_complete'' @ [CHR 0x22] @ ''; supervisory caller verification is required'')
           else Inr ())"

definition dispatch_time :: "host \<Rightarrow> int \<Rightarrow> js \<Rightarrow> string res" where
  "dispatch_time h clock now =
     (let iso = (\<lambda>n. case n of Fin r \<Rightarrow> toISOString r | _ \<Rightarrow> fail ''Invalid time value'') in
      case now of
        JStr s \<Rightarrow> if js_trim s \<noteq> [] then iso (date_parse h now) else toISOString (of_int clock)
      | JNum n \<Rightarrow> iso n
      | _ \<Rightarrow> toISOString (of_int clock))"

section \<open>The envelope\<close>

definition dashes :: "string \<Rightarrow> string" where
  "dashes s = map (\<lambda>c. if c = CHR '':'' \<or> c = CHR ''.'' then CHR ''-'' else c) s"

text \<open>The arguments after their checks.\<close>

record dispatch_plan =
  dp_to :: string
  dp_from :: string
  dp_outcome :: string
  dp_decision :: string
  dp_queueAction :: string
  dp_domainStatus :: string
  dp_time :: string
  dp_id :: string
  dp_next :: "(string \<times> js) list"

definition envelope_digest :: "host \<Rightarrow> string \<Rightarrow> string \<Rightarrow> string \<Rightarrow> string \<Rightarrow> string \<Rightarrow> js \<Rightarrow> js \<Rightarrow> js \<Rightarrow> string \<Rightarrow> string" where
  "envelope_digest h to from out qa ds summary slice issue time' =
     take 10 (sha256 h (the (json_text h (JObj [(''to'', JStr to), (''from'', JStr from), (''outcome'', JStr out),
       (''queueAction'', JStr qa), (''domainStatus'', JStr ds), (''summary'', summary), (''sliceId'', slice),
       (''issueRef'', issue), (''timestamp'', JStr time')]))))"

definition plan_dispatch :: "host \<Rightarrow> surroundings \<Rightarrow> js \<Rightarrow> dispatch_args \<Rightarrow> dispatch_plan res" where
  "plan_dispatch h w targetDir a =
     (if \<not> truthy targetDir then fail ''targetDir is required for dispatchEnvelope''
      else bnd (normalizeSeatId h (da_to a)) (\<lambda>to.
        bnd (normalizeSeatId h (da_from a)) (\<lambda>from.
        bnd (if nullish (da_id a) then Inr [] else validateEnvelopeId h (da_id a)) (\<lambda>_.
        bnd (normalizeOutcome h (da_outcome a) (da_decision a)) (\<lambda>(out, decision).
        let qa = js_default (da_queueAction a) (JStr ''handoff''); ds = js_default (da_domainStatus a) (JStr ''in_progress'');
            summary = js_default (da_summary a) (JStr []); issue = js_default (da_issueRef a) JNull;
            slice = js_default (da_sliceId a) JNull in
        if \<not> one_of QUEUE_ACTION_ENUM qa
        then fail (''Invalid queueAction '' @ [CHR 0x22] @ js_string h qa @ [CHR 0x22] @ ''. Expected one of: '' @ js_join '', '' QUEUE_ACTION_ENUM)
        else if \<not> one_of DOMAIN_STATUS_ENUM ds
        then fail (''Invalid domainStatus '' @ [CHR 0x22] @ js_string h ds @ [CHR 0x22] @ ''. Expected one of: '' @ js_join '', '' DOMAIN_STATUS_ENUM)
        else if starts_with from ''pm.'' \<and> isDeliverySeat to \<and> isBusyHoldActive (sr_busy w) (da_busyHold a)
        then fail (''Product seat '' @ from @ '' cannot dispatch directly to delivery seat '' @ to
          @ '' while delivery squad busy hold is active; use agentflow-sdlc handoff deliver'')
        else bnd (if ds = JStr ''goal_complete''
               then check_goal_complete w from (da_callerVerified a) (js_default (da_callerSession a) JNull) else Inr ()) (\<lambda>_.
          bnd (dispatch_time h (sr_clock w) (da_now a)) (\<lambda>time'.
          let dg = envelope_digest h to from out (str_of qa) (str_of ds) summary slice issue time' in
          bnd (if truthy (da_id a) then validateEnvelopeId h (da_id a) else Inr (dashes time' @ ''-'' @ dg)) (\<lambda>i.
          bnd (resolveNextCoordinatorAction h (JObj [(''from'', JStr from), (''to'', JStr to), (''outcome'', JStr out),
                 (''decision'', JStr decision)])) (\<lambda>nextAction.
          Inr \<lparr>dp_to = to, dp_from = from, dp_outcome = out, dp_decision = decision, dp_queueAction = str_of qa,
            dp_domainStatus = str_of ds, dp_time = time', dp_id = i, dp_next = nextAction\<rparr>)))))))))"

definition summary_of :: "dispatch_plan \<Rightarrow> js \<Rightarrow> js" where
  "summary_of p summary = (if truthy summary then summary
     else JStr (dp_from p @ '' -> '' @ dp_to p @ '' ('' @ dp_outcome p @ '')''))"

definition envelope_record :: "dispatch_plan \<Rightarrow> dispatch_args \<Rightarrow> (string \<times> js) list" where
  "envelope_record p a =
     (let summary = summary_of p (js_default (da_summary a) (JStr [])); res = js_default (da_result a) (JObj []) in
      [(''version'', JNat 1), (''id'', JStr (dp_id p)), (''subject'', summary), (''summary'', summary),
       (''from'', JStr (dp_from p)), (''to'', JStr (dp_to p)), (''fromRole'', JStr (dp_from p)), (''toRole'', JStr (dp_to p)),
       (''outcome'', JStr (dp_outcome p)), (''decision'', JStr (dp_decision p)), (''queueAction'', JStr (dp_queueAction p)),
       (''domainStatus'', JStr (dp_domainStatus p)), (''issueRef'', coal (da_issueRef a) JNull), (''sliceId'', coal (da_sliceId a) JNull)]
      @ (if truthy (da_closes a) then [(''closesEnvelopeId'', da_closes a)] else [])
      @ [(''result'', if truthy res \<and> typeof_object res then res else JObj []),
         (''nextAction'', JObj (dp_next p)), (''timestamp'', JStr (dp_time p))])"

text \<open>The path of the envelope below the inbox directory; \<open>join\<close> drops a seat named by a single dot.\<close>

definition inbox_path :: "string \<Rightarrow> string \<Rightarrow> string" where
  "inbox_path seat i = (if seat = ''.'' then [] else seat @ ''/'') @ i @ ''.json''"

type_synonym inboxes = "(string \<times> js option) list"

datatype dispatch_mode = OpenRig | InboxFallback

record dispatch_result =
  dr_mode :: dispatch_mode
  dr_rigFailed :: bool
  dr_id :: string
  dr_envelope :: js
  dr_path :: string
  dr_rig :: "(js list \<times> js) option"
  dr_resume :: string
  dr_next :: js

definition rig_active :: "surroundings \<Rightarrow> dispatch_args \<Rightarrow> bool" where
  "rig_active w a = (case js_default (da_openrigActive a) JNull of
       JBool b \<Rightarrow> b
     | _ \<Rightarrow> da_rigRunner a \<noteq> None \<or> env_set w ''OPENRIG_SESSION_NAME'' \<or> env_set w ''OPENRIG_NODE_ID'')"

definition rig_failed :: "js \<Rightarrow> bool" where
  "rig_failed r = (truthy r \<and> (js_eq (fld r ''ok'') (JBool False)
     \<or> (case fld r ''status'' of JNum n \<Rightarrow> n \<noteq> Fin 0 | _ \<Rightarrow> False) \<or> truthy (fld r ''error'')))"

definition rig_args :: "dispatch_plan \<Rightarrow> js \<Rightarrow> js list" where
  "rig_args p summary = [JStr ''queue'', JStr (if dp_queueAction p = ''handoff'' then ''handoff'' else ''create''),
     JStr ''--destination'', JStr (dp_to p), JStr ''--summary'', summary, JStr ''--outcome'', JStr (dp_outcome p)]"

definition dispatchEnvelope :: "host \<Rightarrow> surroundings \<Rightarrow> inboxes \<Rightarrow> js \<Rightarrow> dispatch_args \<Rightarrow> inboxes \<times> dispatch_result res" where
  "dispatchEnvelope h w inbox targetDir a =
     (case plan_dispatch h w targetDir a of
        Inl e \<Rightarrow> (inbox, Inl e)
      | Inr p \<Rightarrow>
          let env = JObj (envelope_record p a); path = inbox_path (dp_to p) (dp_id p);
              inbox' = obj_set inbox path (stored env);
              made = \<lparr>dr_mode = InboxFallback, dr_rigFailed = False, dr_id = dp_id p, dr_envelope = env, dr_path = path,
                dr_rig = None, dr_resume = ''agentflow-sdlc seat prime '' @ dp_to p, dr_next = JObj (dp_next p)\<rparr>
          in if rig_active w a
             then let args = rig_args p (fld env ''summary'') in
               (inbox', bnd (case da_rigRunner a of Some run \<Rightarrow> run args env | None \<Rightarrow> sr_spawn w args env) (\<lambda>r.
                 Inr (if rig_failed r then made\<lparr>dr_rigFailed := True, dr_rig := Some (args, r)\<rparr>
                      else made\<lparr>dr_mode := OpenRig, dr_rig := Some (args, r)\<rparr>)))
             else (inbox', Inr made))"

section \<open>Names that stay inside an inbox\<close>

definition plain_name :: "string \<Rightarrow> bool" where
  "plain_name s \<longleftrightarrow> s \<noteq> [] \<and> CHR ''/'' \<notin> set s \<and> CHR 0x5C \<notin> set s \<and> \<not> str_includes s ''..''"

lemma is_digit_range: "is_digit c \<Longrightarrow> c \<noteq> CHR ''/'' \<and> c \<noteq> CHR 0x5C \<and> c \<noteq> CHR ''.''"
  by (auto simp: is_digit_def Let_def)

lemma no_dots: "CHR ''.'' \<notin> set s \<Longrightarrow> \<not> str_includes s ''..''"
  by (auto simp: str_includes_iff)

lemma dashes_set: "c \<in> set (dashes s) \<Longrightarrow> c \<noteq> CHR ''.'' \<and> (c = CHR ''-'' \<or> c \<in> set s)"
  by (auto simp: dashes_def split: if_splits)

lemma pad_chars: "c \<in> set (pad2 n) \<Longrightarrow> is_digit c" "c \<in> set (pad3 n) \<Longrightarrow> is_digit c"
  "c \<in> set (pad4 n) \<Longrightarrow> is_digit c" "c \<in> set (pad6 n) \<Longrightarrow> is_digit c"
  by (auto simp: pad2_def pad3_def pad4_def pad6_def)

lemma iso_text_chars: "c \<in> set (iso_text n) \<Longrightarrow> is_digit c \<or> c \<in> set ''-+T:.Z''"
proof -
  obtain y m d where civil: "civil_from_days (n div 86400000) = (y, m, d)" by (cases "civil_from_days (n div 86400000)")
  assume "c \<in> set (iso_text n)"
  then show ?thesis unfolding iso_text_def Let_def civil prod.case set_append Un_iff
    by (elim disjE) (simp_all add: pad_chars split: if_splits, auto dest: pad_chars)
qed

lemma toISOString_chars: "toISOString r = Inr s \<Longrightarrow> c \<in> set s \<Longrightarrow> is_digit c \<or> c \<in> set ''-+T:.Z''"
  using iso_text_chars by (auto simp: toISOString_def split: option.splits)

lemma dispatch_time_chars:
  "dispatch_time h clock now = Inr t \<Longrightarrow> c \<in> set t \<Longrightarrow> is_digit c \<or> c \<in> set ''-+T:.Z''"
  unfolding dispatch_time_def Let_def
  by (cases now) (auto dest: toISOString_chars split: if_splits jsnum.splits)

lemma generated_id_plain:
  assumes "dispatch_time h clock now = Inr t" and "\<forall>c\<in>set d. is_hex c"
  shows "plain_name (dashes t @ ''-'' @ d)"
proof -
  let ?s = "dashes t @ ''-'' @ d"
  have hex: "is_hex c \<Longrightarrow> c \<noteq> CHR ''/'' \<and> c \<noteq> CHR 0x5C \<and> c \<noteq> CHR ''.''" for c
    by (auto simp: is_hex_def Let_def)
  have "c \<noteq> CHR ''/'' \<and> c \<noteq> CHR 0x5C \<and> c \<noteq> CHR ''.''" if "c \<in> set ?s" for c
  proof (cases "c \<in> set (dashes t)")
    case True
    then show ?thesis using dashes_set [OF True] dispatch_time_chars [OF assms(1), of c] is_digit_range [of c] by auto
  next
    case False
    then show ?thesis using that hex assms(2) by auto
  qed
  then show ?thesis using no_dots [of ?s] by (auto simp: plain_name_def)
qed

lemma given_id_plain: "validateEnvelopeId h v = Inr i \<Longrightarrow> plain_name i"
proof -
  assume "validateEnvelopeId h v = Inr i"
  then have i: "list_all envelope_char i" "\<not> str_includes i ''..''" "i \<noteq> []"
    by (auto simp: validateEnvelopeId_def is_text_def js_trim_def split: if_splits js.splits)
  have "\<not> envelope_char (CHR ''/'')" "\<not> envelope_char (CHR 0x5C)"
    by (simp_all add: envelope_char_def is_alnum_def)
  with i(1) have "CHR ''/'' \<notin> set i" "CHR 0x5C \<notin> set i" by (auto simp: list_all_iff)
  with i show ?thesis by (simp add: plain_name_def)
qed

lemma seat_plain: "normalizeSeatId h v = Inr seat \<Longrightarrow> plain_name seat"
  by (auto simp: normalizeSeatId_def Let_def plain_name_def is_text_def str_includes_iff in_set_conv_decomp
      split: if_splits js.splits)

section \<open>What a dispatch may do\<close>

lemma plan_dispatch_Inr:
  assumes "plan_dispatch h w targetDir a = Inr p"
  shows "normalizeSeatId h (da_to a) = Inr (dp_to p)" and "normalizeSeatId h (da_from a) = Inr (dp_from p)"
    and "one_of DOMAIN_STATUS_ENUM (JStr (dp_domainStatus p))"
    and "js_default (da_domainStatus a) (JStr ''in_progress'') = JStr (dp_domainStatus p)"
    and "\<not> (starts_with (dp_from p) ''pm.'' \<and> isDeliverySeat (dp_to p) \<and> isBusyHoldActive (sr_busy w) (da_busyHold a))"
    and "dp_domainStatus p = ''goal_complete'' \<Longrightarrow>
      check_goal_complete w (dp_from p) (da_callerVerified a) (js_default (da_callerSession a) JNull) = Inr ()"
    and "dispatch_time h (sr_clock w) (da_now a) = Inr (dp_time p)"
    and "validateEnvelopeId h (da_id a) = Inr (dp_id p)
      \<or> (\<exists>s. dp_id p = dashes (dp_time p) @ ''-'' @ take 10 (sha256 h s))"
proof -
  let ?ds = "js_default (da_domainStatus a) (JStr ''in_progress'')"
  let ?qa = "js_default (da_queueAction a) (JStr ''handoff'')"
  from assms obtain x y out u t i n where
    p: "\<lparr>dp_to = x, dp_from = y, dp_outcome = fst out, dp_decision = snd out, dp_queueAction = str_of ?qa,
        dp_domainStatus = str_of ?ds, dp_time = t, dp_id = i, dp_next = n\<rparr> = p"
    and x: "normalizeSeatId h (da_to a) = Inr x" and y: "normalizeSeatId h (da_from a) = Inr y"
    and one: "\<not> \<not> one_of DOMAIN_STATUS_ENUM ?ds"
    and hold: "\<not> (starts_with y ''pm.'' \<and> isDeliverySeat x \<and> isBusyHoldActive (sr_busy w) (da_busyHold a))"
    and authority: "(if ?ds = JStr ''goal_complete''
      then check_goal_complete w y (da_callerVerified a) (js_default (da_callerSession a) JNull) else Inr ()) = Inr u"
    and t: "dispatch_time h (sr_clock w) (da_now a) = Inr t"
    and i: "(if truthy (da_id a) then validateEnvelopeId h (da_id a)
        else Inr (dashes t @ ''-'' @ envelope_digest h x y (fst out) (str_of ?qa) (str_of ?ds)
          (js_default (da_summary a) (JStr [])) (js_default (da_sliceId a) JNull) (js_default (da_issueRef a) JNull) t)) = Inr i"
    unfolding plan_dispatch_def Let_def case_prod_beta bnd_Inr if_Inl_Inr sum.inject by (elim exE conjE) (rule that)
  have seats: "normalizeSeatId h (da_to a) = Inr (dp_to p)" "normalizeSeatId h (da_from a) = Inr (dp_from p)"
    and ds: "one_of DOMAIN_STATUS_ENUM ?ds" "dp_domainStatus p = str_of ?ds"
    and busy: "\<not> (starts_with (dp_from p) ''pm.'' \<and> isDeliverySeat (dp_to p) \<and> isBusyHoldActive (sr_busy w) (da_busyHold a))"
    and time: "dispatch_time h (sr_clock w) (da_now a) = Inr (dp_time p)"
    using x y one hold t p by auto
  have goal: "(if ?ds = JStr ''goal_complete''
      then check_goal_complete w (dp_from p) (da_callerVerified a) (js_default (da_callerSession a) JNull) else Inr ()) = Inr u"
    and ident: "\<exists>s. (if truthy (da_id a) then validateEnvelopeId h (da_id a)
        else Inr (dashes (dp_time p) @ ''-'' @ take 10 (sha256 h s))) = Inr (dp_id p)"
    using authority i p unfolding envelope_digest_def by auto
  from ds have d: "js_default (da_domainStatus a) (JStr ''in_progress'') = JStr (dp_domainStatus p)"
    by (auto simp: one_of_def split: js.splits)
  show "normalizeSeatId h (da_to a) = Inr (dp_to p)" "normalizeSeatId h (da_from a) = Inr (dp_from p)"
    "\<not> (starts_with (dp_from p) ''pm.'' \<and> isDeliverySeat (dp_to p) \<and> isBusyHoldActive (sr_busy w) (da_busyHold a))"
    "dispatch_time h (sr_clock w) (da_now a) = Inr (dp_time p)"
    by (fact seats busy time)+
  show "js_default (da_domainStatus a) (JStr ''in_progress'') = JStr (dp_domainStatus p)" by (rule d)
  show "one_of DOMAIN_STATUS_ENUM (JStr (dp_domainStatus p))" using ds(1) by (simp add: d)
  show "validateEnvelopeId h (da_id a) = Inr (dp_id p)
      \<or> (\<exists>s. dp_id p = dashes (dp_time p) @ ''-'' @ take 10 (sha256 h s))"
    using ident by (cases "truthy (da_id a)") (auto simp: eq_commute [of _ "dp_id p"])
  show "check_goal_complete w (dp_from p) (da_callerVerified a) (js_default (da_callerSession a) JNull) = Inr ()"
    if "dp_domainStatus p = ''goal_complete''"
    using goal that by (simp add: d)
qed

lemma dispatch_cases:
  assumes "dispatchEnvelope h w inbox targetDir a = (inbox', r)"
  obtains e where "plan_dispatch h w targetDir a = Inl e" and "inbox' = inbox" and "r = Inl e"
  | p where "plan_dispatch h w targetDir a = Inr p"
    and "inbox' = obj_set inbox (inbox_path (dp_to p) (dp_id p)) (stored (JObj (envelope_record p a)))"
    and "\<And>d. r = Inr d \<Longrightarrow> dr_path d = inbox_path (dp_to p) (dp_id p) \<and> dr_envelope d = JObj (envelope_record p a)
      \<and> (dr_mode d = OpenRig \<longrightarrow> rig_active w a) \<and> (rig_active w a \<longrightarrow> dr_mode d = OpenRig \<or> dr_rigFailed d)"
proof (cases "plan_dispatch h w targetDir a")
  case (Inl e)
  show thesis by (rule that(1) [OF Inl]) (use assms Inl in \<open>simp_all add: dispatchEnvelope_def\<close>)
next
  case (Inr p)
  show thesis
  proof (rule that(2) [OF Inr])
    show "inbox' = obj_set inbox (inbox_path (dp_to p) (dp_id p)) (stored (JObj (envelope_record p a)))"
      using assms Inr by (simp add: dispatchEnvelope_def Let_def split: if_splits)
    fix d
    assume "r = Inr d"
    then show "dr_path d = inbox_path (dp_to p) (dp_id p) \<and> dr_envelope d = JObj (envelope_record p a)
      \<and> (dr_mode d = OpenRig \<longrightarrow> rig_active w a) \<and> (rig_active w a \<longrightarrow> dr_mode d = OpenRig \<or> dr_rigFailed d)"
      using assms Inr by (auto simp: dispatchEnvelope_def Let_def split: if_splits)
  qed
qed

lemma check_goal_complete_Inr:
  assumes "check_goal_complete w from verified session = Inr ()"
  shows "from \<in> {''steer.lead'', ''human''}" and "verified \<noteq> JBool False"
    and "session = JNull \<or> truthy verified \<or> fld (callerSeat session) ''seat'' = JStr ''steer.lead''
      \<or> sr_env w ''AGENTFLOW_SUPERVISORY_VERIFIED'' = Some ''1''"
  using assms by (auto simp: check_goal_complete_def Let_def if_Inl_Inr split: if_splits)

text \<open>
  C40. Goal completion: an envelope that declares a goal complete comes from the lead or a human seat,
  never from a caller that was found unverified, and a caller that names its session is verified,
  holds the lead seat by that name or runs in a supervised environment. Every other dispatch of
  that status is refused and leaves all inboxes as they were.
\<close>

theorem goal_complete_authority:
  assumes "dispatchEnvelope h w inbox targetDir a = (inbox', r)" and "da_domainStatus a = JStr ''goal_complete''"
  shows "(inbox' = inbox \<and> (\<exists>e. r = Inl e))
    \<or> ((\<exists>from\<in>{''steer.lead'', ''human''}. normalizeSeatId h (da_from a) = Inr from) \<and> da_callerVerified a \<noteq> JBool False
       \<and> (nullish (da_callerSession a) \<or> truthy (da_callerVerified a)
          \<or> fld (callerSeat (da_callerSession a)) ''seat'' = JStr ''steer.lead''
          \<or> sr_env w ''AGENTFLOW_SUPERVISORY_VERIFIED'' = Some ''1''))"
proof -
  from assms(1) show ?thesis
  proof (cases rule: dispatch_cases)
    case (2 p)
    note P = plan_dispatch_Inr [OF 2(1)]
    from P(4) assms(2) have "dp_domainStatus p = ''goal_complete''" by (simp add: js_default_def)
    note G = check_goal_complete_Inr [OF P(6) [OF this]]
    have "js_default (da_callerSession a) JNull = da_callerSession a \<or> nullish (da_callerSession a)"
      by (auto simp: js_default_def)
    with G P(2) show ?thesis by auto
  qed auto
qed

text \<open>
  The verification of the caller is only asked for when a session or a failed verification is
  passed: a call with neither declares a goal complete on the name of its seat alone.
\<close>

lemma anonymous_goal_complete: "check_goal_complete w ''human'' JUndef JNull = Inr ()"
  by (simp add: check_goal_complete_def)

text \<open>
  A product seat reaches no delivery seat while the delivery squad holds: the dispatch is refused.
\<close>

lemma busy_hold_respected:
  assumes "normalizeSeatId h (da_from a) = Inr from" and "starts_with from ''pm.''"
    and "normalizeSeatId h (da_to a) = Inr to" and "isDeliverySeat to" and "isBusyHoldActive (sr_busy w) (da_busyHold a)"
  shows "\<exists>e. dispatchEnvelope h w inbox targetDir a = (inbox, Inl e)"
proof (cases "plan_dispatch h w targetDir a")
  case (Inl e)
  then show ?thesis by (simp add: dispatchEnvelope_def)
next
  case (Inr p)
  from plan_dispatch_Inr(1,2,5) [OF Inr] assms show ?thesis by simp
qed

text \<open>
  Confinement: a dispatch writes at most one file, in the inbox of the seat it is addressed to and
  under a name that cannot leave it; every other file keeps its content. The file holds the
  envelope the caller gets back, as JSON keeps it.
\<close>

theorem dispatch_confined:
  assumes "dispatchEnvelope h w inbox targetDir a = (inbox', r)" and "\<And>s. is_hex64 (sha256 h s)"
  shows "inbox' = inbox \<and> (\<exists>e. r = Inl e)
    \<or> (\<exists>seat i. normalizeSeatId h (da_to a) = Inr seat \<and> plain_name seat \<and> plain_name i
        \<and> (\<forall>k. k \<noteq> inbox_path seat i \<longrightarrow> map_of inbox' k = map_of inbox k)
        \<and> (\<exists>env. map_of inbox' (inbox_path seat i) = Some (Some env) \<and> fld env ''to'' = JStr seat \<and> fld env ''id'' = JStr i
           \<and> (\<forall>d. r = Inr d \<longrightarrow> dr_path d = inbox_path seat i \<and> stored (dr_envelope d) = Some env)))"
proof -
  from assms(1) show ?thesis
  proof (cases rule: dispatch_cases)
    case (2 p)
    note P = plan_dispatch_Inr [OF 2(1)]
    have "\<forall>c\<in>set (take 10 (sha256 h s)). is_hex c" for s
      using assms(2) [of s] by (auto simp: is_hex64_def list_all_iff dest: in_set_takeD)
    then have plain: "plain_name (dp_id p)"
      using P(8) given_id_plain generated_id_plain [OF P(7)] by metis
    let ?fs = "envelope_record p a"
    obtain gs where gs: "stored (JObj ?fs) = Some (JObj gs)" by simp
    have "distinct (map fst ?fs)" by (simp add: envelope_record_def Let_def)
    note lookup = stored_JObj_map_of [OF gs this]
    have "map_of gs ''to'' = Some (JStr (dp_to p))" "map_of gs ''id'' = Some (JStr (dp_id p))"
      unfolding lookup by (simp_all add: envelope_record_def Let_def)
    then have "fld (JObj gs) ''to'' = JStr (dp_to p)" "fld (JObj gs) ''id'' = JStr (dp_id p)"
      by (simp_all add: fld_def obj_get_def)
    with 2(2,3) gs P(1) plain seat_plain [OF P(1)] show ?thesis
      by (intro disjI2 exI [of _ "dp_to p"] exI [of _ "dp_id p"] conjI exI [of _ "JObj gs"]) auto
  qed auto
qed

section \<open>A sample dispatch\<close>

definition sample_dispatch :: dispatch_args where
  "sample_dispatch = \<lparr>da_id = JStr ''e1'', da_to = JStr ''dev.qa'', da_from = JStr ''steer.lead'', da_outcome = JStr ''delivered'',
     da_decision = JUndef, da_queueAction = JUndef, da_domainStatus = JStr ''goal_complete'', da_summary = JUndef,
     da_issueRef = JUndef, da_sliceId = JUndef, da_closes = JUndef, da_result = JUndef, da_callerVerified = JBool True,
     da_callerSession = JUndef, da_busyHold = JUndef, da_openrigActive = JUndef, da_rigRunner = None, da_now = JNum (Fin 0)\<rparr>"

definition sample_surroundings :: surroundings where
  "sample_surroundings = \<lparr>sr_clock = 0, sr_env = (\<lambda>_. None), sr_busy = [], sr_spawn = (\<lambda>_ _. Inr JUndef)\<rparr>"

lemma sample_names: "normalizeSeatId h (JStr ''steer.lead'') = Inr ''steer.lead''" "validateEnvelopeId h (JStr ''e1'') = Inr ''e1''"
  by (simp_all add: normalizeSeatId_def validateEnvelopeId_def is_text_def js_trim_def is_space_def envelope_char_def is_alnum_def)

lemma sample_action: "resolveNextCoordinatorAction const_host (JObj [(''from'', JStr ''steer.lead''), (''to'', JStr ''dev.qa''),
    (''outcome'', JStr ''delivered''), (''decision'', JStr ''delivered'')])
  = Inr [(''action'', JStr ''fanout_qa_and_review''), (''targetSeats'', jstrs [''dev.qa'', ''rev.review'']), (''targetSeat'', JStr ''dev.qa'')]"
  by (simp add: resolveNextCoordinatorAction_def next_action_of_def normalizeOutcome_def OUTCOME_ENUM_def LEGACY_DECISION_ENUM_def
      one_of_def dot_def fld_def obj_get_def del: bnd_Inr)

lemma sample_planned: "\<exists>p. plan_dispatch const_host sample_surroundings (JStr ''/w'') sample_dispatch = Inr p"
  by (simp add: plan_dispatch_def sample_dispatch_def sample_surroundings_def sample_names sample_seat sample_action js_default_def
      normalizeOutcome_def check_goal_complete_def dispatch_time_def toISOString_def sample_clip
      OUTCOME_ENUM_def LEGACY_DECISION_ENUM_def QUEUE_ACTION_ENUM_def DOMAIN_STATUS_ENUM_def one_of_def Let_def del: bnd_Inr)

lemma sample_dispatched:
  obtains inbox' d where "dispatchEnvelope const_host sample_surroundings [] (JStr ''/w'') sample_dispatch = (inbox', Inr d)"
    and "inbox' \<noteq> []"
proof -
  obtain p where "plan_dispatch const_host sample_surroundings (JStr ''/w'') sample_dispatch = Inr p"
    using sample_planned by blast
  moreover have "\<not> rig_active sample_surroundings sample_dispatch"
    by (simp add: rig_active_def env_set_def sample_surroundings_def sample_dispatch_def js_default_def)
  ultimately show thesis using that by (simp add: dispatchEnvelope_def Let_def)
qed

theorem goal_complete_authority_witness:
  "\<exists>inbox' d. dispatchEnvelope const_host sample_surroundings [] (JStr ''/w'') sample_dispatch = (inbox', Inr d)
     \<and> (\<exists>from\<in>{''steer.lead'', ''human''}. normalizeSeatId const_host (da_from sample_dispatch) = Inr from)"
proof -
  obtain inbox' d where d: "dispatchEnvelope const_host sample_surroundings [] (JStr ''/w'') sample_dispatch = (inbox', Inr d)"
    using sample_dispatched by blast
  from goal_complete_authority [OF d] d show ?thesis by (auto simp: sample_dispatch_def)
qed

theorem dispatch_confined_witness:
  "\<exists>inbox' d i. dispatchEnvelope const_host sample_surroundings [] (JStr ''/w'') sample_dispatch = (inbox', Inr d)
     \<and> plain_name i \<and> dr_path d = inbox_path ''dev.qa'' i \<and> map_of inbox' (dr_path d) \<noteq> None"
proof -
  obtain inbox' d where d: "dispatchEnvelope const_host sample_surroundings [] (JStr ''/w'') sample_dispatch = (inbox', Inr d)"
    using sample_dispatched by blast
  have "normalizeSeatId const_host (da_to sample_dispatch) = Inr ''dev.qa''" by (simp add: sample_dispatch_def sample_seat)
  with dispatch_confined [OF d const_host_hex] d show ?thesis by auto
qed

end
