(* ===== verification/Binding.thy ===== *)
theory Binding
  imports Execution
begin

text \<open>
  Provider bindings (src/lib/core/provider-binding.mjs): the checks of a provider descriptor, the
  resolution of the required intents against what a provider supports, and the choice of the
  provider a piece of work is bound to. A provider is the object a registry holds; its methods are
  functions, which are \<open>JBuiltin\<close> values. What its \<open>inspect()\<close> member returns is the
  parameter \<open>inspect\<close>.
\<close>

section \<open>Numbers from values\<close>

text \<open>
  \<open>ToNumber\<close> for relational operators, with decimal text read exactly.
\<close>

definition dec_digits :: "string \<Rightarrow> rat option" where
  "dec_digits s = (if s = [] then Some 0 else map_option of_int (digits_val s))"

definition dec_mantissa :: "string \<Rightarrow> rat option" where
  "dec_mantissa s = (case split_on (CHR ''.'') s of
       [a] \<Rightarrow> if a = [] then None else dec_digits a
     | [a, b] \<Rightarrow> if a = [] \<and> b = [] then None
         else (case (dec_digits a, dec_digits b) of (Some x, Some y) \<Rightarrow> Some (x + y / 10 ^ length b) | _ \<Rightarrow> None)
     | _ \<Rightarrow> None)"

definition signed :: "(string \<Rightarrow> 'a option) \<Rightarrow> ('a \<Rightarrow> 'a) \<Rightarrow> string \<Rightarrow> 'a option" where
  "signed f neg s = (case s of [] \<Rightarrow> f s | c # r \<Rightarrow>
     if c = CHR ''-'' then map_option neg (f r) else if c = CHR ''+'' then f r else f s)"

definition dec_number :: "string \<Rightarrow> rat option" where
  "dec_number s = (case split_on (CHR ''e'') (js_lower s) of
       [m] \<Rightarrow> dec_mantissa m
     | [m, e] \<Rightarrow> (case (dec_mantissa m, signed digits_val uminus e) of
         (Some x, Some k) \<Rightarrow> Some (if k < 0 then x / 10 ^ nat (- k) else x * 10 ^ nat k) | _ \<Rightarrow> None)
     | _ \<Rightarrow> None)"

definition str_number :: "string \<Rightarrow> jsnum" where
  "str_number s0 = (let s = js_trim s0 in
     if s = [] then Fin 0 else if s \<in> {''Infinity'', ''+Infinity''} then PosInf else if s = ''-Infinity'' then NegInf
     else case signed dec_number uminus s of Some r \<Rightarrow> Fin r | None \<Rightarrow> NaN)"

definition to_number :: "host \<Rightarrow> js \<Rightarrow> jsnum" where
  "to_number h v = (case v of JUndef \<Rightarrow> NaN | JNull \<Rightarrow> Fin 0 | JBool b \<Rightarrow> Fin (if b then 1 else 0) | JNum n \<Rightarrow> n
     | _ \<Rightarrow> str_number (js_string h v))"

section \<open>Descriptors\<close>

definition PROVIDER_FACETS :: "string list" where
  "PROVIDER_FACETS = [''inventory'', ''project-adapters'', ''execution'', ''workspace'', ''evidence'', ''lifecycle'']"

definition PROVIDER_AVAILABILITY :: "string list" where
  "PROVIDER_AVAILABILITY = [''available'', ''unavailable'', ''unknown'', ''configured'', ''manual'']"

definition FACET_OPERATIONS :: "(string \<times> js) list" where
  "FACET_OPERATIONS = [(''inventory'', JStr ''inventory''), (''project-adapters'', JStr ''projectAdapters''),
     (''execution'', JStr ''execute''), (''workspace'', JStr ''workspace''), (''evidence'', JStr ''evidence''),
     (''lifecycle'', JStr ''lifecycle'')]"

text \<open>\<open>typeof v === 'function'\<close>\<close>

definition is_function :: "js \<Rightarrow> bool" where
  "is_function v = (case v of JBuiltin k \<Rightarrow> k \<noteq> ''__proto__'' | _ \<Rightarrow> False)"

fun support_errors :: "string \<Rightarrow> nat \<Rightarrow> js list \<Rightarrow> js list \<Rightarrow> string list" where
  "support_errors prefix i seen [] = []"
| "support_errors prefix i seen (item # items) =
     (let p = prefix @ ''['' @ nat_str i @ '']''; limits = fld item ''limits'' in
      check (\<not> one_of EXECUTION_INTENTS (fld item ''id'')) (p @ ''.id is unsupported'')
      @ check (js_includes seen (fld item ''id'')) (p @ ''.id must be unique'')
      @ check (\<not> one_of INTENT_IMPLEMENTATIONS (fld item ''implementation'')) (p @ ''.implementation is invalid'')
      @ check (\<not> one_of INTENT_FIDELITIES (fld item ''fidelity'')) (p @ ''.fidelity is invalid'')
      @ check (\<not> one_of INTENT_EVIDENCE_LEVELS (fld item ''evidence'')) (p @ ''.evidence is invalid'')
      @ check (limits \<noteq> JUndef \<and> (\<not> truthy limits \<or> \<not> typeof_object limits)) (p @ ''.limits must be an object'')
      @ support_errors prefix (Suc i) (fld item ''id'' # seen) items)"

definition validateIntentSupport :: "js \<Rightarrow> string \<Rightarrow> string list" where
  "validateIntentSupport items prefix =
     (if \<not> is_array items then [prefix @ '' must be an array''] else support_errors prefix 0 [] (elems items))"

definition facet_errors :: "host \<Rightarrow> js \<Rightarrow> js \<Rightarrow> string list" where
  "facet_errors h provider facet =
     (let operation = js_string h (obj_get FACET_OPERATIONS (js_string h facet)) in
      check (\<not> one_of PROVIDER_FACETS facet) (''unsupported provider facet: '' @ js_string h facet)
      @ check (\<not> is_function (fld (fld provider ''operations'') operation))
          (''provider facet '' @ js_string h facet @ '' requires operations.'' @ operation @ ''()''))"

definition execution_errors :: "js \<Rightarrow> string list" where
  "execution_errors provider =
     check (\<not> truthy (fld provider ''platform'')) ''execution provider platform identity is required''
     @ concat (map (\<lambda>m. check (\<not> is_function (fld provider m)) (''execution provider requires '' @ m @ ''()''))
         [''plan'', ''execute'', ''status'', ''cancel'', ''cleanup'', ''receipt''])"

definition validateProviderDescriptor :: "host \<Rightarrow> js \<Rightarrow> string list res" where
  "validateProviderDescriptor h provider =
     (let facets = fld provider ''facets'' in
      bnd (js_iter (coal facets (JArr []))) (\<lambda>fs.
      bnd (if nullish facets then Inr False else includes_res h facets (JStr ''execution'')) (\<lambda>executes.
      Inr (check (\<not> js_eq (fld provider ''version'') (JNat 1)) ''provider version must be 1''
        @ check (\<not> truthy (fld provider ''id'')) ''provider id is required''
        @ check (\<not> truthy (fld provider ''providerVersion'')) ''providerVersion is required''
        @ check (\<not> js_eq (fld (fld provider ''spiRange'') ''min'') (JNat 1)
            \<or> num_less (to_number h (fld (fld provider ''spiRange'') ''max'')) (Fin 1)) ''provider SPI range must include version 1''
        @ check (\<not> is_array facets) ''provider facets must be an array''
        @ concat (map (facet_errors h provider) fs)
        @ validateIntentSupport (fld provider ''intentSupport'') ''provider intentSupport''
        @ (if executes then execution_errors provider else [])
        @ concat (map (\<lambda>f. check (\<not> is_array (fld provider f)) (f @ '' must be an array'')) [''targets'', ''transports'', ''osSupport''])
        @ check (\<not> truthy (fld (fld provider ''trust'') ''source'')) ''provider trust source is required''
        @ check (\<not> truthy (fld (fld provider ''compatibility'') ''agentflow'')) ''provider compatibility is required''
        @ check (\<not> is_function (fld provider ''inspect'')) ''provider inspect() is required''))))"

section \<open>Resolving the intents\<close>

definition requirementsFrom :: "js \<Rightarrow> js list" where
  "requirementsFrom intent =
     (case fld (fld intent ''execution'') ''requirements'' of JArr rs \<Rightarrow> rs | _ \<Rightarrow> elems (fld intent ''requirements''))"

definition facetsFrom :: "js \<Rightarrow> js list" where
  "facetsFrom intent =
     (case fld (fld intent ''execution'') ''requiredFacets'' of JArr fs \<Rightarrow> fs
      | _ \<Rightarrow> (case fld intent ''requiredFacets'' of JArr fs \<Rightarrow> fs | _ \<Rightarrow> [JStr ''execution'', JStr ''evidence'']))"

text \<open>\<open>intentSupportMap(items).get(id)\<close>: the last item with that id.\<close>

definition support_get :: "js list \<Rightarrow> js \<Rightarrow> js" where
  "support_get items i = (case find (\<lambda>item. same_zero (fld item ''id'') i) (rev items) of Some item \<Rightarrow> item | None \<Rightarrow> JUndef)"

definition first_of :: "js \<Rightarrow> js" where
  "first_of v = (case v of JArr (x # _) \<Rightarrow> x | JStr (c # _) \<Rightarrow> JStr [c] | _ \<Rightarrow> JUndef)"

definition found_support :: "js list \<Rightarrow> js \<Rightarrow> js" where
  "found_support support requirement =
     (let observed = support_get support (fld requirement ''id'');
          minimum = fld (fld requirement ''parameters'') ''minimumFidelity'' in
      if truthy minimum \<and> \<not> js_eq (fld observed ''fidelity'') minimum then JNull else observed)"

definition resolve_intent :: "host \<Rightarrow> js list \<Rightarrow> js \<Rightarrow> js \<Rightarrow> js res" where
  "resolve_intent h support fallback requirement =
     bnd (dot requirement ''id'') (\<lambda>_.
     let found = found_support support requirement;
         req = own_props requirement;
         allowed = coal (fld fallback ''modes'') (JArr []) in
     if truthy found then Inr (JObj (obj_spread (obj_spread req (own_props found)) [(''status'', JStr ''satisfied'')]))
     else bnd (includes_res h allowed (fld requirement ''fallback'')) (\<lambda>listed.
       let mode = (if listed then fld requirement ''fallback'' else coal (first_of allowed) JNull) in
       if \<not> truthy (fld requirement ''required'')
       then Inr (JObj (obj_spread req [(''status'', JStr ''skipped''), (''reason'', JStr ''optional intent is unavailable'')]))
       else if truthy (fld fallback ''allowed'') \<and> truthy mode
       then Inr (JObj (obj_spread req [
         (''implementation'', JStr (if mode = JStr ''manual'' then ''manual'' else ''emulated'')),
         (''fidelity'', JStr ''degraded''), (''evidence'', JStr ''contract-tested''), (''status'', JStr ''degraded''),
         (''fallback'', mode),
         (''reason'', JStr (''required intent is unavailable; using explicit '' @ js_string h mode @ '' fallback''))]))
       else Inr (JObj (obj_spread req [(''status'', JStr ''blocked''), (''reason'', JStr ''required intent is unavailable'')]))))"

definition resolveIntents :: "host \<Rightarrow> js list \<Rightarrow> js list \<Rightarrow> js \<Rightarrow> js list res" where
  "resolveIntents h requirements support fallback = map_res (resolve_intent h support fallback) requirements"

section \<open>Bindings\<close>

definition blockedBinding :: "string \<Rightarrow> js list \<Rightarrow> js" where
  "blockedBinding why tried = JObj [(''version'', JNat 1), (''status'', JStr ''blocked''), (''provider'', JNull),
     (''platform'', JNull), (''facets'', JArr []), (''intentResolutions'', JArr []), (''executionTarget'', JNull),
     (''transport'', JNull), (''delegationBoundary'', JNull), (''availability'', JStr ''unavailable''),
     (''degraded'', JBool False), (''reason'', JStr why), (''attempts'', JArr tried), (''metadata'', JObj [])]"

definition validateProviderBinding :: "js \<Rightarrow> string list" where
  "validateProviderBinding binding =
     check (\<not> js_eq (fld binding ''version'') (JNat 1)) ''version must be 1''
     @ check (\<not> one_of [''bound'', ''degraded'', ''blocked''] (fld binding ''status'')) ''status is invalid''
     @ check (\<not> one_of PROVIDER_AVAILABILITY (fld binding ''availability'')) ''availability is invalid''
     @ check (\<not> is_array (fld binding ''facets'')) ''facets must be an array''
     @ check (\<not> is_array (fld binding ''intentResolutions'')) ''intentResolutions must be an array''
     @ check (if fld binding ''status'' = JStr ''blocked'' then fld binding ''platform'' \<noteq> JNull
              else \<not> truthy (fld binding ''platform''))
         ''platform must identify the bound executor, or be null when blocked''"

definition finalizeBinding :: "js \<Rightarrow> js res" where
  "finalizeBinding binding = (let errors = validateProviderBinding binding in
     if errors \<noteq> [] then fail (''invalid provider binding: '' @ js_join ''; '' errors) else Inr binding)"

text \<open>What became of one provider: refused with an attempt to record, or a candidate.\<close>

datatype outcome = Refused js | Candidate js bool "js list \<Rightarrow> js"

definition unavailable :: "js \<Rightarrow> string \<Rightarrow> js" where
  "unavailable provider why = JObj [(''provider'', coal (fld provider ''id'') (JStr ''unknown'')),
     (''availability'', JStr ''unavailable''), (''reason'', JStr why)]"

definition weak_resolution :: "js \<Rightarrow> bool" where
  "weak_resolution item = (fld item ''status'' = JStr ''degraded''
     \<or> (fld item ''status'' = JStr ''satisfied'' \<and> fld item ''fidelity'' \<noteq> JStr ''full''))"

definition candidate_binding :: "js \<Rightarrow> js \<Rightarrow> js list \<Rightarrow> bool \<Rightarrow> js list \<Rightarrow> js" where
  "candidate_binding provider inspected resolutions degraded tried =
     JObj [(''version'', JNat 1), (''status'', JStr (if degraded then ''degraded'' else ''bound'')),
       (''provider'', fld provider ''id''),
       (''platform'', coal (fld inspected ''platform'') (coal (fld provider ''platform'') JNull)),
       (''facets'', fld provider ''facets''), (''intentResolutions'', JArr resolutions),
       (''executionTarget'', coal (fld inspected ''executionTarget'') JNull),
       (''transport'', coal (fld inspected ''transport'') JNull),
       (''delegationBoundary'', coal (fld inspected ''delegationBoundary'') JNull),
       (''availability'', fld inspected ''availability''), (''degraded'', JBool degraded),
       (''reason'', if degraded then JStr ''provider bound with explicit semantic fallback'' else fld inspected ''reason''),
       (''attempts'', JArr tried), (''metadata'', coal (fld inspected ''metadata'') (JObj []))]"

definition js_texts :: "host \<Rightarrow> js list \<Rightarrow> string list" where
  "js_texts h xs = map (\<lambda>x. if nullish x then [] else js_string h x) xs"

definition try_provider :: "host \<Rightarrow> (js \<Rightarrow> js res) \<Rightarrow> js \<Rightarrow> js \<Rightarrow> outcome res" where
  "try_provider h inspect intent provider =
     bnd (validateProviderDescriptor h provider) (\<lambda>errors.
     if errors \<noteq> [] then Inr (Refused (unavailable provider (js_join ''; '' errors)))
     else let missing = filter (\<lambda>f. \<not> js_includes (elems (fld provider ''facets'')) f) (facetsFrom intent) in
       if missing \<noteq> [] then Inr (Refused (unavailable provider (''missing facets: '' @ js_join '', '' (js_texts h missing))))
       else bnd (inspect provider) (\<lambda>inspected.
         bnd (dot inspected ''intentSupport'') (\<lambda>claimed.
         let support = coal claimed (fld provider ''intentSupport'');
             bad = validateIntentSupport support ''inspected intentSupport'' in
         if bad \<noteq> [] then Inr (Refused (unavailable provider (js_join ''; '' bad)))
         else bnd (resolveIntents h (requirementsFrom intent) (elems support) (fld intent ''fallback'')) (\<lambda>resolutions.
           let attempt = JObj [(''provider'', fld provider ''id''),
                 (''platform'', coal (fld inspected ''platform'') (coal (fld provider ''platform'') JNull)),
                 (''availability'', fld inspected ''availability''), (''reason'', fld inspected ''reason''),
                 (''intentResolutions'', JArr resolutions)];
               degraded = (fld provider ''id'' = JStr ''manual'' \<or> list_ex weak_resolution resolutions) in
           Inr (if \<not> one_of [''available'', ''configured'', ''manual''] (fld inspected ''availability'')
                   \<or> list_ex (\<lambda>item. fld item ''status'' = JStr ''blocked'') resolutions
                then Refused attempt
                else Candidate attempt degraded (candidate_binding provider inspected resolutions degraded))))))"

text \<open>
  The loop over the providers: \<open>Inl b\<close> is a binding returned from inside the loop,
  \<open>Inr\<close> the attempts and the first degraded candidate when it ends.
\<close>

fun bind_loop :: "host \<Rightarrow> (js \<Rightarrow> js res) \<Rightarrow> js \<Rightarrow> js \<Rightarrow> js list \<Rightarrow> js option \<Rightarrow> js list
    \<Rightarrow> (js + js list \<times> js option) res" where
  "bind_loop h inspect intent preferred tried fallen [] = Inr (Inr (tried, fallen))"
| "bind_loop h inspect intent preferred tried fallen (provider # ps) =
     bnd (dot provider ''id'') (\<lambda>pid.
     if pid = JStr ''manual'' \<and> \<not> truthy preferred then bind_loop h inspect intent preferred tried fallen ps
     else bnd (try_provider h inspect intent provider) (\<lambda>r.
       case r of
         Refused attempt \<Rightarrow> bind_loop h inspect intent preferred (tried @ [attempt]) fallen ps
       | Candidate attempt degraded binding \<Rightarrow>
           if degraded \<and> \<not> truthy preferred
           then bind_loop h inspect intent preferred (tried @ [attempt])
             (case fallen of None \<Rightarrow> Some (binding (tried @ [attempt])) | Some b \<Rightarrow> Some b) ps
           else bnd (finalizeBinding (binding (tried @ [attempt]))) (\<lambda>b. Inr (Inl b))))"

definition is_provider :: "js \<Rightarrow> js \<Rightarrow> bool res" where
  "is_provider pid provider = bnd (dot provider ''id'') (\<lambda>i. Inr (js_eq i pid))"

function bindProvider :: "host \<Rightarrow> (js \<Rightarrow> js res) \<Rightarrow> js \<Rightarrow> js list \<Rightarrow> js \<Rightarrow> js res" where
  "bindProvider h inspect intent providers preferred =
     (if \<not> js_eq (fld intent ''version'') (JNat 1) then fail ''CollaborationIntent version 1 is required''
      else bnd (if truthy preferred then find_res (is_provider preferred) providers else Inr None) (\<lambda>named.
        if truthy preferred \<and> named = None
        then Inr (blockedBinding (''explicit provider '' @ js_string h preferred @ '' is not registered'') [])
        else bnd (bind_loop h inspect intent preferred [] None (case named of Some p \<Rightarrow> [p] | None \<Rightarrow> providers)) (\<lambda>r.
          case r of Inl b \<Rightarrow> Inr b
          | Inr (tried, Some b) \<Rightarrow> finalizeBinding (JObj (obj_spread (own_props b) [(''attempts'', JArr tried)]))
          | Inr (tried, None) \<Rightarrow>
              let blocked = finalizeBinding (blockedBinding
                (if truthy preferred then ''explicit provider '' @ js_string h preferred
                   @ '' did not satisfy the intent; substitution is forbidden''
                 else ''no provider satisfied the required facets and execution intents'') tried) in
              if truthy (fld (fld intent ''fallback'') ''allowed'') \<and> \<not> truthy preferred
              then bnd (find_res (is_provider (JStr ''manual'')) providers) (\<lambda>manual.
                case manual of Some m \<Rightarrow> bindProvider h inspect intent [m] (JStr ''manual'') | None \<Rightarrow> blocked)
              else blocked)))"
  by pat_completeness auto
termination
  by (relation "measure (\<lambda>(h, inspect, intent, providers, preferred). if truthy preferred then 0 else 1)") auto

declare bindProvider.simps [simp del]

section \<open>Facts about bindings\<close>

lemma finalizeBinding_Inr [simp]: "finalizeBinding b = Inr b' \<longleftrightarrow> validateProviderBinding b = [] \<and> b' = b"
  by (auto simp: finalizeBinding_def Let_def)

lemma blockedBinding_valid: "validateProviderBinding (blockedBinding why tried) = []"
  by (simp add: validateProviderBinding_def blockedBinding_def fld_own one_of_def PROVIDER_AVAILABILITY_def)

lemma find_res_Some: "find_res f xs = Inr (Some x) \<Longrightarrow> x \<in> set xs \<and> f x = Inr True"
  by (induction xs) (auto split: if_splits)

lemma is_provider_True: "is_provider pid p = Inr True \<longleftrightarrow> \<not> nullish p \<and> js_eq (fld p ''id'') pid"
  by (auto simp: is_provider_def dot_Inr)

text \<open>A binding that \<open>provider\<close> gave after passing every check.\<close>

definition accepted_by :: "host \<Rightarrow> (js \<Rightarrow> js res) \<Rightarrow> js \<Rightarrow> js \<Rightarrow> bool \<Rightarrow> js \<Rightarrow> bool" where
  "accepted_by h inspect intent provider degraded b \<longleftrightarrow>
     (\<exists>attempt f tried. try_provider h inspect intent provider = Inr (Candidate attempt degraded f) \<and> b = f tried)"

lemma bind_loop_cases:
  assumes "bind_loop h inspect intent preferred tried fallen ps = Inr r"
  shows "(\<exists>b. r = Inl b \<and> validateProviderBinding b = [] \<and>
            (\<exists>p\<in>set ps. \<exists>d. accepted_by h inspect intent p d b \<and> (d \<longrightarrow> truthy preferred)))
       \<or> (\<exists>tried' fallen'. r = Inr (tried', fallen') \<and>
            (fallen' = fallen \<or> (\<exists>b. fallen' = Some b \<and> \<not> truthy preferred \<and> (\<exists>p\<in>set ps. accepted_by h inspect intent p True b))))"
  using assms
proof (induction ps arbitrary: tried fallen)
  case Nil
  then show ?case by auto
next
  case (Cons p ps)
  show ?case
  proof (cases "fld p ''id'' = JStr ''manual'' \<and> \<not> truthy preferred")
    case True
    with Cons.prems have "bind_loop h inspect intent preferred tried fallen ps = Inr r" by (auto simp: dot_Inr)
    from Cons.IH [OF this] show ?thesis by auto
  next
    case False
    with Cons.prems obtain t where t: "try_provider h inspect intent p = Inr t" and
      k: "(case t of Refused a \<Rightarrow> bind_loop h inspect intent preferred (tried @ [a]) fallen ps
         | Candidate a d f \<Rightarrow> if d \<and> \<not> truthy preferred
           then bind_loop h inspect intent preferred (tried @ [a]) (case fallen of None \<Rightarrow> Some (f (tried @ [a])) | Some b \<Rightarrow> Some b) ps
           else bnd (finalizeBinding (f (tried @ [a]))) (\<lambda>b. Inr (Inl b))) = Inr r"
      by (auto simp: dot_Inr)
    show ?thesis
    proof (cases t)
      case (Refused a)
      with k Cons.IH [of "tried @ [a]" fallen] show ?thesis by auto
    next
      case (Candidate a d f)
      then have acc: "accepted_by h inspect intent p d (f us)" for us using t by (auto simp: accepted_by_def)
      show ?thesis
      proof (cases "d \<and> \<not> truthy preferred")
        case True
        with k Candidate Cons.IH [of "tried @ [a]" "case fallen of None \<Rightarrow> Some (f (tried @ [a])) | Some b \<Rightarrow> Some b"] acc
        show ?thesis by (auto split: option.splits)
      next
        case False
        with k Candidate have "r = Inl (f (tried @ [a]))" "validateProviderBinding (f (tried @ [a])) = []" by auto
        with False acc show ?thesis by auto
      qed
    qed
  qed
qed

text \<open>
  Every way a binding can come about: blocked, or from a provider of the list that passed the
  checks, with the attempts possibly completed afterwards.
\<close>

definition explained :: "host \<Rightarrow> (js \<Rightarrow> js res) \<Rightarrow> js \<Rightarrow> js list \<Rightarrow> js \<Rightarrow> js \<Rightarrow> bool" where
  "explained h inspect intent ps preferred b \<longleftrightarrow> validateProviderBinding b = [] \<and>
     ((\<exists>why tried. b = blockedBinding why tried)
      \<or> (\<exists>p\<in>set ps. \<exists>d b0. accepted_by h inspect intent p d b0 \<and> (\<forall>k. k \<noteq> ''attempts'' \<longrightarrow> fld b k = fld b0 k)
            \<and> (truthy preferred \<longrightarrow> js_eq (fld p ''id'') preferred)))"

lemma explained_blocked: "explained h inspect intent ps preferred (blockedBinding why tried)"
  using blockedBinding_valid by (auto simp: explained_def)

lemma accepted_by_JObj: "accepted_by h inspect intent p d b \<Longrightarrow> \<exists>fs. b = JObj fs"
  by (auto simp: accepted_by_def try_provider_def Let_def candidate_binding_def split: if_splits)

lemma fld_with_attempts:
  "accepted_by h inspect intent p d b \<Longrightarrow> k \<noteq> ''attempts'' \<Longrightarrow> fld (JObj (obj_spread (own_props b) [(''attempts'', v)])) k = fld b k"
  by (drule accepted_by_JObj) (auto simp: fld_own map_of_obj_spread own_props_def)

lemma bindProvider_cases [consumes 1, case_names unregistered returned degraded manual blocked]:
  assumes "bindProvider h inspect intent ps preferred = Inr b"
  obtains why where "b = blockedBinding why []"
  | named where "(if truthy preferred then find_res (is_provider preferred) ps else Inr None) = Inr named"
      "truthy preferred \<Longrightarrow> named \<noteq> None"
      "bind_loop h inspect intent preferred [] None (case named of Some p \<Rightarrow> [p] | None \<Rightarrow> ps) = Inr (Inl b)"
  | named tried b0 where "(if truthy preferred then find_res (is_provider preferred) ps else Inr None) = Inr named"
      "truthy preferred \<Longrightarrow> named \<noteq> None"
      "bind_loop h inspect intent preferred [] None (case named of Some p \<Rightarrow> [p] | None \<Rightarrow> ps) = Inr (Inr (tried, Some b0))"
      "b = JObj (obj_spread (own_props b0) [(''attempts'', JArr tried)])" "validateProviderBinding b = []"
  | m where "\<not> truthy preferred" "find_res (is_provider (JStr ''manual'')) ps = Inr (Some m)"
      "bindProvider h inspect intent [m] (JStr ''manual'') = Inr b"
  | why tried where "b = blockedBinding why tried"
proof -
  from assms [unfolded bindProvider.simps [of h inspect intent ps preferred] bnd_Inr if_Inl_Inr]
  obtain named where n: "(if truthy preferred then find_res (is_provider preferred) ps else Inr None) = Inr named"
    and rest: "(if truthy preferred \<and> named = None
        then Inr (blockedBinding (''explicit provider '' @ js_string h preferred @ '' is not registered'') [])
        else bnd (bind_loop h inspect intent preferred [] None (case named of Some p \<Rightarrow> [p] | None \<Rightarrow> ps)) (\<lambda>r.
          case r of Inl b \<Rightarrow> Inr b
          | Inr (tried, Some b) \<Rightarrow> finalizeBinding (JObj (obj_spread (own_props b) [(''attempts'', JArr tried)]))
          | Inr (tried, None) \<Rightarrow>
              let blocked = finalizeBinding (blockedBinding
                (if truthy preferred then ''explicit provider '' @ js_string h preferred
                   @ '' did not satisfy the intent; substitution is forbidden''
                 else ''no provider satisfied the required facets and execution intents'') tried) in
              if truthy (fld (fld intent ''fallback'') ''allowed'') \<and> \<not> truthy preferred
              then bnd (find_res (is_provider (JStr ''manual'')) ps) (\<lambda>manual.
                case manual of Some m \<Rightarrow> bindProvider h inspect intent [m] (JStr ''manual'') | None \<Rightarrow> blocked)
              else blocked)) = Inr b"
    by blast
  show thesis
  proof (cases "truthy preferred \<and> named = None")
    case True
    with rest have "\<exists>why. b = blockedBinding why []" by auto
    with that(1) show thesis by blast
  next
    case False
    with rest obtain r where r: "bind_loop h inspect intent preferred [] None (case named of Some p \<Rightarrow> [p] | None \<Rightarrow> ps) = Inr r"
      by auto
    show thesis
    proof (cases r)
      case (Inl b')
      with False rest r have "b' = b" by auto
      with Inl False n r that(2) show thesis by blast
    next
      case (Inr p)
      obtain tried f where p: "p = (tried, f)" by (cases p)
      show thesis
      proof (cases f)
        case (Some b0)
        with False rest r Inr p have "validateProviderBinding b = []" "b = JObj (obj_spread (own_props b0) [(''attempts'', JArr tried)])"
          by auto
        with Some False n r Inr p that(3) show thesis by blast
      next
        case None
        show thesis
        proof (cases "truthy (fld (fld intent ''fallback'') ''allowed'') \<and> \<not> truthy preferred
            \<and> find_res (is_provider (JStr ''manual'')) ps \<noteq> Inr None")
          case True
          with False rest r Inr p None obtain m where "find_res (is_provider (JStr ''manual'')) ps = Inr (Some m)"
              "bindProvider h inspect intent [m] (JStr ''manual'') = Inr b"
            by (auto simp: Let_def split: option.splits)
          with True that(4) show thesis by blast
        next
          case False': False
          with False rest r Inr p None that(5) show thesis by (auto simp: Let_def split: if_splits)
        qed
      qed
    qed
  qed
qed

lemma loop_explained:
  assumes n: "(if truthy preferred then find_res (is_provider preferred) ps else Inr None) = Inr named"
    and some: "truthy preferred \<Longrightarrow> named \<noteq> None"
    and p: "p \<in> set (case named of Some p \<Rightarrow> [p] | None \<Rightarrow> ps)"
  shows "p \<in> set ps" and "truthy preferred \<Longrightarrow> js_eq (fld p ''id'') preferred"
proof -
  show "js_eq (fld p ''id'') preferred" if "truthy preferred"
    using that n some p find_res_Some [of "is_provider preferred" ps p] by (auto simp: is_provider_True)
  show "p \<in> set ps"
    using n p find_res_Some [of "is_provider preferred" ps p] by (cases "truthy preferred"; cases named) auto
qed

lemma explained_manual:
  assumes "explained h inspect intent [m] (JStr ''manual'') b" and "m \<in> set ps" and "\<not> truthy preferred"
  shows "explained h inspect intent ps preferred b"
proof (cases "\<exists>why tried. b = blockedBinding why tried")
  case True
  then show ?thesis using explained_blocked by blast
next
  case False
  with assms(1) obtain p d b0 where p: "p \<in> set [m]" and acc: "accepted_by h inspect intent p d b0"
      "\<forall>k. k \<noteq> ''attempts'' \<longrightarrow> fld b k = fld b0 k" "validateProviderBinding b = []"
    unfolding explained_def by blast
  from p assms(2) have "p \<in> set ps" by simp
  with acc assms(3) show ?thesis unfolding explained_def by blast
qed

lemma bindProvider_explained: "bindProvider h inspect intent ps preferred = Inr b \<Longrightarrow> explained h inspect intent ps preferred b"
proof -
  have once: "explained h inspect intent ps preferred b"
    if "bindProvider h inspect intent ps preferred = Inr b"
      and rec: "\<And>m. \<not> truthy preferred \<Longrightarrow> m \<in> set ps \<Longrightarrow> bindProvider h inspect intent [m] (JStr ''manual'') = Inr b
        \<Longrightarrow> explained h inspect intent [m] (JStr ''manual'') b" for ps preferred
    using that(1)
  proof (cases rule: bindProvider_cases)
    case (returned named)
    from bind_loop_cases [OF returned(3)] obtain p d where p: "p \<in> set (case named of Some p \<Rightarrow> [p] | None \<Rightarrow> ps)"
      and "accepted_by h inspect intent p d b" "validateProviderBinding b = []" by auto
    with loop_explained [OF returned(1,2) p] show ?thesis unfolding explained_def by blast
  next
    case (degraded named tried b0)
    from bind_loop_cases [OF degraded(3)] obtain p where p: "p \<in> set (case named of Some p \<Rightarrow> [p] | None \<Rightarrow> ps)"
      and a: "accepted_by h inspect intent p True b0" by auto
    have "\<forall>k. k \<noteq> ''attempts'' \<longrightarrow> fld b k = fld b0 k" using fld_with_attempts [OF a] by (simp add: degraded(4))
    with a degraded(5) loop_explained [OF degraded(1,2) p] show ?thesis unfolding explained_def by blast
  next
    case (manual m)
    from find_res_Some [OF manual(2)] have m: "m \<in> set ps" by blast
    from rec [OF manual(1) m manual(3)] m manual(1) show ?thesis by (rule explained_manual)
  qed (simp_all add: explained_blocked)
  show "bindProvider h inspect intent ps preferred = Inr b \<Longrightarrow> explained h inspect intent ps preferred b"
    by (rule once) (auto intro: once)
qed

section \<open>What a binding promises\<close>

lemma accepted_by_facts:
  assumes "accepted_by h inspect intent p d b"
  obtains inspected support rs tried where "inspect p = Inr inspected" and "b = candidate_binding p inspected rs d tried"
    and "validateProviderDescriptor h p = Inr []"
    and "\<forall>f\<in>set (facetsFrom intent). js_includes (elems (fld p ''facets'')) f"
    and "support = coal (fld inspected ''intentSupport'') (fld p ''intentSupport'')"
    and "validateIntentSupport support ''inspected intentSupport'' = []"
    and "resolveIntents h (requirementsFrom intent) (elems support) (fld intent ''fallback'') = Inr rs"
    and "\<forall>r\<in>set rs. fld r ''status'' \<noteq> JStr ''blocked''"
    and "d = (fld p ''id'' = JStr ''manual'' \<or> list_ex weak_resolution rs)"
proof -
  from assms obtain a f tried where "try_provider h inspect intent p = Inr (Candidate a d f)" and b: "b = f tried"
    unfolding accepted_by_def by blast
  then obtain inspected rs where "inspect p = Inr inspected" "f = candidate_binding p inspected rs d"
      "validateProviderDescriptor h p = Inr []" "\<forall>f\<in>set (facetsFrom intent). js_includes (elems (fld p ''facets'')) f"
      "validateIntentSupport (coal (fld inspected ''intentSupport'') (fld p ''intentSupport'')) ''inspected intentSupport'' = []"
      "resolveIntents h (requirementsFrom intent) (elems (coal (fld inspected ''intentSupport'') (fld p ''intentSupport''))) (fld intent ''fallback'') = Inr rs"
      "\<forall>r\<in>set rs. fld r ''status'' \<noteq> JStr ''blocked''" "d = (fld p ''id'' = JStr ''manual'' \<or> list_ex weak_resolution rs)"
    unfolding try_provider_def Let_def bnd_Inr
    by (auto simp: dot_Inr filter_empty_conv list_ex_iff split: if_splits)
  with b that show thesis by blast
qed

lemma candidate_binding_fields:
  "fld (candidate_binding p ins rs d tried) ''provider'' = fld p ''id''"
  "fld (candidate_binding p ins rs d tried) ''status'' = JStr (if d then ''degraded'' else ''bound'')"
  "fld (candidate_binding p ins rs d tried) ''intentResolutions'' = JArr rs"
  by (simp_all add: candidate_binding_def fld_own)

lemma support_errors_Nil:
  "support_errors prefix i seen items = [] \<Longrightarrow> item \<in> set items \<Longrightarrow> one_of EXECUTION_INTENTS (fld item ''id'') \<and> one_of INTENT_FIDELITIES (fld item ''fidelity'')"
  by (induction items arbitrary: i seen) (auto simp: Let_def split: if_splits)

lemma support_get_found:
  assumes "validateIntentSupport support prefix = []" and "truthy (support_get (elems support) i)"
  shows "\<exists>fs v. support_get (elems support) i = JObj fs \<and> JObj fs \<in> set (elems support) \<and> map_of fs ''fidelity'' = Some v
    \<and> same_zero (fld (JObj fs) ''id'') i"
proof -
  let ?g = "support_get (elems support) i"
  from assms(2) have f: "find (\<lambda>item. same_zero (fld item ''id'') i) (rev (elems support)) = Some ?g"
    by (auto simp: support_get_def split: option.splits)
  then have g: "?g \<in> set (elems support)" "same_zero (fld ?g ''id'') i" by (auto dest: find_SomeD)
  from assms(1) have "support_errors prefix 0 [] (elems support) = []" by (simp add: validateIntentSupport_def split: if_splits)
  from support_errors_Nil [OF this g(1)] have o: "one_of EXECUTION_INTENTS (fld ?g ''id'')" "one_of INTENT_FIDELITIES (fld ?g ''fidelity'')"
    by simp_all
  then obtain fs where fs: "?g = JObj fs" by (cases ?g) (auto simp: one_of_def fld_def obj_get_def proto_names_def)
  with o(2) have "\<exists>v. map_of fs ''fidelity'' = Some v" by (cases "map_of fs ''fidelity''") (auto simp: fld_own one_of_def proto_names_def)
  with fs g show ?thesis by auto
qed

lemma resolve_intent_forms:
  assumes "resolve_intent h support fb req = Inr r" and "truthy (fld req ''required'')"
  shows "if truthy (found_support support req)
    then r = JObj (obj_spread (obj_spread (own_props req) (own_props (found_support support req))) [(''status'', JStr ''satisfied'')])
    else fld r ''status'' \<in> {JStr ''degraded'', JStr ''blocked''}"
proof -
  have st: "map_of gs ''status'' = Some v \<Longrightarrow> fld (JObj (obj_spread fs gs)) ''status'' = v" for fs gs v
    by (simp add: fld_own map_of_obj_spread)
  show ?thesis
    using assms unfolding resolve_intent_def Let_def bnd_Inr
    by (cases "truthy (found_support support req)") (auto simp: st split: if_split_asm)
qed

lemma resolve_intent_required:
  assumes "resolve_intent h (elems support) fb req = Inr r" and "truthy (fld req ''required'')"
    and "validateIntentSupport support prefix = []"
    and "fld r ''status'' \<noteq> JStr ''blocked''" and "\<not> weak_resolution r"
  shows "\<exists>item\<in>set (elems support). same_zero (fld item ''id'') (fld req ''id'') \<and> fld item ''fidelity'' = JStr ''full''"
proof -
  let ?g = "support_get (elems support) (fld req ''id'')"
  note forms = resolve_intent_forms [OF assms(1,2)]
  with assms(4,5) have t: "truthy (found_support (elems support) req)"
    by (auto simp: weak_resolution_def split: if_splits)
  then have g: "found_support (elems support) req = ?g" "truthy ?g"
    by (auto simp: found_support_def Let_def split: if_splits)
  from support_get_found [OF assms(3) g(2)] obtain fs v where fs: "?g = JObj fs" "JObj fs \<in> set (elems support)"
      "map_of fs ''fidelity'' = Some v" "same_zero (fld (JObj fs) ''id'') (fld req ''id'')" by blast
  from forms t g(1) fs(1) have r: "r = JObj (obj_spread (obj_spread (own_props req) fs) [(''status'', JStr ''satisfied'')])"
    by (simp add: own_props_def)
  have "fld r ''status'' = JStr ''satisfied''" "fld r ''fidelity'' = v"
    using fs(3) by (simp_all add: r fld_own map_of_obj_spread)
  with assms(5) have "v = JStr ''full''" by (simp add: weak_resolution_def)
  with fs show ?thesis by (intro bexI [of _ "JObj fs"]) (simp_all add: fld_own)
qed

text \<open>
  C37. A binding is never a disguise: every binding that is returned is well formed, and it names no
  executor platform exactly when it is blocked.
\<close>

theorem binding_well_formed:
  assumes "bindProvider h inspect intent ps preferred = Inr b"
  shows "validateProviderBinding b = [] \<and> (fld b ''platform'' = JNull \<longleftrightarrow> fld b ''status'' = JStr ''blocked'')"
proof -
  have v: "validateProviderBinding b = []" using bindProvider_explained [OF assms] by (simp add: explained_def)
  then show ?thesis by (auto simp: validateProviderBinding_def split: if_splits)
qed

text \<open>
  An explicit choice of provider is never substituted: the binding names exactly the preferred
  provider, or it is blocked and names none.
\<close>

theorem no_substitution:
  assumes "bindProvider h inspect intent ps preferred = Inr b" and "truthy preferred"
  shows "js_eq (fld b ''provider'') preferred \<or> (fld b ''status'' = JStr ''blocked'' \<and> fld b ''provider'' = JNull)"
proof -
  have e: "explained h inspect intent ps preferred b" by (rule bindProvider_explained [OF assms(1)])
  show ?thesis
  proof (cases "\<exists>why tried. b = blockedBinding why tried")
    case True
    then show ?thesis by (auto simp: blockedBinding_def fld_own)
  next
    case False
    with e assms(2) obtain p d b0 where acc: "accepted_by h inspect intent p d b0" and eq: "js_eq (fld p ''id'') preferred"
      and same: "\<forall>k. k \<noteq> ''attempts'' \<longrightarrow> fld b k = fld b0 k"
      unfolding explained_def by blast
    from acc obtain ins rs tried where "b0 = candidate_binding p ins rs d tried" by (rule accepted_by_facts)
    with same eq show ?thesis by (simp add: candidate_binding_fields)
  qed
qed

text \<open>
  C36. A binding with status \<open>bound\<close> means what it says: it comes from a registered provider
  other than the manual one whose descriptor is valid, which declares every required facet, and
  which supports every required intent at full fidelity.
\<close>

theorem bound_sound:
  assumes "bindProvider h inspect intent ps preferred = Inr b" and "fld b ''status'' = JStr ''bound''"
  shows "\<exists>p\<in>set ps. \<exists>inspected. fld b ''provider'' = fld p ''id'' \<and> fld p ''id'' \<noteq> JStr ''manual''
    \<and> validateProviderDescriptor h p = Inr [] \<and> inspect p = Inr inspected
    \<and> (\<forall>f\<in>set (facetsFrom intent). js_includes (elems (fld p ''facets'')) f)
    \<and> (\<forall>req\<in>set (requirementsFrom intent). truthy (fld req ''required'') \<longrightarrow>
        (\<exists>item\<in>set (elems (coal (fld inspected ''intentSupport'') (fld p ''intentSupport''))).
           same_zero (fld item ''id'') (fld req ''id'') \<and> fld item ''fidelity'' = JStr ''full''))"
proof -
  have "b \<noteq> blockedBinding why tried" for why tried using assms(2) by (auto simp: blockedBinding_def fld_own)
  with bindProvider_explained [OF assms(1)] obtain p d b0 where p: "p \<in> set ps" and acc: "accepted_by h inspect intent p d b0"
    and same: "\<forall>k. k \<noteq> ''attempts'' \<longrightarrow> fld b k = fld b0 k"
    unfolding explained_def by blast
  from acc obtain ins support rs tried where ins: "inspect p = Inr ins" and b0: "b0 = candidate_binding p ins rs d tried"
    and desc: "validateProviderDescriptor h p = Inr []"
    and facets: "\<forall>f\<in>set (facetsFrom intent). js_includes (elems (fld p ''facets'')) f"
    and support: "support = coal (fld ins ''intentSupport'') (fld p ''intentSupport'')"
    and ok: "validateIntentSupport support ''inspected intentSupport'' = []"
    and rs: "resolveIntents h (requirementsFrom intent) (elems support) (fld intent ''fallback'') = Inr rs"
    and nb: "\<forall>r\<in>set rs. fld r ''status'' \<noteq> JStr ''blocked''"
    and d: "d = (fld p ''id'' = JStr ''manual'' \<or> list_ex weak_resolution rs)"
    by (rule accepted_by_facts)
  have "fld b ''status'' = fld b0 ''status''" "fld b ''provider'' = fld b0 ''provider''" using same by auto
  with assms(2) b0 have nd: "\<not> d" and prov: "fld b ''provider'' = fld p ''id''"
    by (auto simp: candidate_binding_fields split: if_splits)
  have full: "\<exists>item\<in>set (elems support). same_zero (fld item ''id'') (fld req ''id'') \<and> fld item ''fidelity'' = JStr ''full''"
    if req: "req \<in> set (requirementsFrom intent)" "truthy (fld req ''required'')" for req
  proof -
    from rs req(1) obtain r where r: "resolve_intent h (elems support) (fld intent ''fallback'') req = Inr r" "r \<in> set rs"
      unfolding resolveIntents_def by (blast dest: map_res_elem)
    from r nb nd d have "fld r ''status'' \<noteq> JStr ''blocked''" "\<not> weak_resolution r" by (auto simp: list_ex_iff)
    from resolve_intent_required [OF r(1) req(2) ok this] show ?thesis .
  qed
  have "fld p ''id'' \<noteq> JStr ''manual''" using nd d by simp
  moreover have "\<forall>req\<in>set (requirementsFrom intent). truthy (fld req ''required'') \<longrightarrow>
      (\<exists>item\<in>set (elems (coal (fld ins ''intentSupport'') (fld p ''intentSupport''))).
         same_zero (fld item ''id'') (fld req ''id'') \<and> fld item ''fidelity'' = JStr ''full'')"
    using full by (simp only: support) blast
  ultimately show ?thesis using p prov desc ins facets by (intro bexI [OF _ p] exI [of _ ins]) simp
qed

section \<open>A sample binding\<close>

definition callable :: js where
  "callable = JBuiltin ''callable''"

definition sample_support :: js where
  "sample_support = JArr [JObj [(''id'', JStr ''delegated-work''), (''implementation'', JStr ''native''), (''fidelity'', JStr ''full''), (''evidence'', JStr ''probed'')]]"

definition sample_provider :: js where
  "sample_provider = JObj [(''version'', JNat 1), (''id'', JStr ''codex''), (''providerVersion'', JStr ''1''), (''platform'', JStr ''codex''),
     (''spiRange'', JObj [(''min'', JNat 1), (''max'', JNat 1)]), (''facets'', JArr [JStr ''execution'', JStr ''evidence'']),
     (''operations'', JObj [(''execute'', callable), (''evidence'', callable)]), (''intentSupport'', sample_support),
     (''plan'', callable), (''execute'', callable), (''status'', callable), (''cancel'', callable), (''cleanup'', callable), (''receipt'', callable),
     (''targets'', JArr []), (''transports'', JArr []), (''osSupport'', JArr []), (''trust'', JObj [(''source'', JStr ''built-in'')]),
     (''compatibility'', JObj [(''agentflow'', JStr ''1'')]), (''inspect'', callable)]"

definition sample_inspect :: "js \<Rightarrow> js res" where
  "sample_inspect p = Inr (JObj [(''availability'', JStr ''available''), (''reason'', JStr ''ready'')])"

definition sample_intent :: js where
  "sample_intent = JObj [(''version'', JNat 1), (''requirements'', JArr [JObj [(''id'', JStr ''delegated-work''), (''required'', JBool True)]])]"

lemma sample_descriptor: "validateProviderDescriptor const_host sample_provider = Inr []"
  by (simp add: validateProviderDescriptor_def sample_provider_def sample_support_def callable_def fld_own coal_def js_iter_def includes_res_def
      js_includes_def facet_errors_def FACET_OPERATIONS_def PROVIDER_FACETS_def obj_get_def is_function_def validateIntentSupport_def
      one_of_def EXECUTION_INTENTS_def INTENT_IMPLEMENTATIONS_def INTENT_FIDELITIES_def INTENT_EVIDENCE_LEVELS_def execution_errors_def
      to_number_def proto_names_def del: bnd_Inr)

definition sample_resolution :: js where
  "sample_resolution = JObj [(''id'', JStr ''delegated-work''), (''required'', JBool True), (''implementation'', JStr ''native''),
     (''fidelity'', JStr ''full''), (''evidence'', JStr ''probed''), (''status'', JStr ''satisfied'')]"

lemma sample_resolved:
  "resolve_intent const_host (elems sample_support) JUndef (JObj [(''id'', JStr ''delegated-work''), (''required'', JBool True)]) = Inr sample_resolution"
  by (simp add: resolve_intent_def found_support_def support_get_def sample_support_def fld_own proto_names_def own_props_def obj_spread_def
      sample_resolution_def dot_def del: bnd_Inr)

definition sample_attempt :: js where
  "sample_attempt = JObj [(''provider'', JStr ''codex''), (''platform'', JStr ''codex''), (''availability'', JStr ''available''),
     (''reason'', JStr ''ready''), (''intentResolutions'', JArr [sample_resolution])]"

definition sample_binding :: js where
  "sample_binding = candidate_binding sample_provider (JObj [(''availability'', JStr ''available''), (''reason'', JStr ''ready'')])
     [sample_resolution] False [sample_attempt]"

lemma sample_fields:
  "facetsFrom sample_intent = [JStr ''execution'', JStr ''evidence'']"
  "requirementsFrom sample_intent = [JObj [(''id'', JStr ''delegated-work''), (''required'', JBool True)]]"
  "fld sample_intent ''fallback'' = JUndef" "fld sample_intent ''version'' = JNat 1"
  "fld sample_provider ''facets'' = JArr [JStr ''execution'', JStr ''evidence'']" "fld sample_provider ''intentSupport'' = sample_support"
  "fld sample_provider ''id'' = JStr ''codex''" "fld sample_provider ''platform'' = JStr ''codex''" "\<not> nullish sample_provider"
  by (simp_all add: facetsFrom_def requirementsFrom_def sample_intent_def sample_provider_def fld_own proto_names_def)

lemma sample_support_ok: "validateIntentSupport sample_support prefix = []"
  by (simp add: validateIntentSupport_def sample_support_def fld_own one_of_def EXECUTION_INTENTS_def INTENT_IMPLEMENTATIONS_def
      INTENT_FIDELITIES_def INTENT_EVIDENCE_LEVELS_def js_includes_def proto_names_def)

lemma sample_try:
  "try_provider const_host sample_inspect sample_intent sample_provider = Inr (Candidate sample_attempt False
     (candidate_binding sample_provider (JObj [(''availability'', JStr ''available''), (''reason'', JStr ''ready'')]) [sample_resolution] False))"
proof -
  have w: "\<not> weak_resolution sample_resolution" "fld sample_resolution ''status'' \<noteq> JStr ''blocked''"
    by (simp_all add: weak_resolution_def sample_resolution_def fld_own)
  have i: "fld (JObj [(''availability'', JStr ''available''), (''reason'', JStr ''ready'')]) ''intentSupport'' = JUndef"
      "fld (JObj [(''availability'', JStr ''available''), (''reason'', JStr ''ready'')]) ''platform'' = JUndef"
      "fld (JObj [(''availability'', JStr ''available''), (''reason'', JStr ''ready'')]) ''availability'' = JStr ''available''"
      "fld (JObj [(''availability'', JStr ''available''), (''reason'', JStr ''ready'')]) ''reason'' = JStr ''ready''"
    by (simp_all add: fld_own proto_names_def)
  show ?thesis
    by (simp add: try_provider_def sample_descriptor sample_inspect_def i sample_fields coal_def sample_support_ok resolveIntents_def
        sample_resolved w one_of_def js_includes_def sample_attempt_def del: bnd_Inr)
qed

lemma sample_bound: "bindProvider const_host sample_inspect sample_intent [sample_provider] (JStr ''codex'') = Inr sample_binding"
proof -
  have v: "finalizeBinding sample_binding = Inr sample_binding"
    by (simp add: sample_binding_def candidate_binding_def validateProviderBinding_def fld_own one_of_def PROVIDER_AVAILABILITY_def
        sample_provider_def coal_def proto_names_def)
  have d: "dot sample_provider ''id'' = Inr (JStr ''codex'')"
    by (simp add: dot_Inr sample_fields)
  show ?thesis
    by (subst bindProvider.simps)
      (simp add: sample_fields is_provider_def d sample_try v [unfolded sample_binding_def] sample_binding_def
        del: bnd_Inr finalizeBinding_Inr)
qed

theorem binding_well_formed_witness:
  "validateProviderBinding sample_binding = [] \<and> fld sample_binding ''platform'' \<noteq> JNull"
  using binding_well_formed [OF sample_bound] by (simp add: sample_binding_def candidate_binding_fields)

theorem no_substitution_witness: "fld sample_binding ''provider'' = JStr ''codex''"
  using no_substitution [OF sample_bound] by (simp add: sample_binding_def candidate_binding_fields)

theorem bound_sound_witness: "\<exists>item\<in>set (elems sample_support). fld item ''fidelity'' = JStr ''full''"
proof -
  have "fld sample_binding ''status'' = JStr ''bound''" by (simp add: sample_binding_def candidate_binding_fields)
  from bound_sound [OF sample_bound this] show ?thesis
    by (auto simp: sample_fields sample_inspect_def coal_def fld_own proto_names_def)
qed

end
