(* ===== verification/JsonParse.thy ===== *)
theory JsonParse
  imports Json
begin

text \<open>
  \<open>JSON.parse\<close> and the indented form of \<open>JSON.stringify\<close>: a recursive-descent reader of JSON text, with the proof that it reads back what
  \<open>JSON.stringify\<close> writes. The reader counts down fuel; twice the length of the text is always
  enough, so the value does not depend on the fuel. Numbers are read exactly. A Unicode escape of a
  code unit above 255 lies outside the string model and is refused.
\<close>

section \<open>Tokens\<close>

definition json_space :: "char \<Rightarrow> bool" where
  "json_space c = ((of_char c :: nat) \<in> {9, 10, 13, 32})"

definition skip_ws :: "string \<Rightarrow> string" where
  "skip_ws s = dropWhile json_space s"

definition hex_code :: "char \<Rightarrow> nat option" where
  "hex_code c = (let n = (of_char c :: nat) in
     if 48 \<le> n \<and> n \<le> 57 then Some (n - 48) else if 97 \<le> n \<and> n \<le> 102 then Some (n - 87)
     else if 65 \<le> n \<and> n \<le> 70 then Some (n - 55) else None)"

definition unicode_char :: "char \<Rightarrow> char \<Rightarrow> char \<Rightarrow> char \<Rightarrow> char option" where
  "unicode_char a b c d = (case (hex_code a, hex_code b, hex_code c, hex_code d) of
       (Some w, Some x, Some y, Some z) \<Rightarrow> if w = 0 \<and> x = 0 then Some (char_of (16 * y + z)) else None
     | _ \<Rightarrow> None)"

definition simple_escape :: "char \<Rightarrow> char option" where
  "simple_escape e = map_of [(CHR 0x22, CHR 0x22), (CHR 0x5C, CHR 0x5C), (CHR ''/'', CHR ''/''), (CHR ''b'', CHR 0x08),
     (CHR ''f'', CHR 0x0C), (CHR ''n'', CHR 0x0A), (CHR ''r'', CHR 0x0D),
     (CHR ''t'', CHR 0x09)] e"

text \<open>The characters of a string after its opening quote, and the text after its closing one.\<close>

fun read_string :: "string \<Rightarrow> (string \<times> string) option" where
  "read_string [] = None"
| "read_string (c # s) =
     (if c = CHR 0x22 then Some ([], s)
      else if c = CHR 0x5C
      then (case s of
          [] \<Rightarrow> None
        | e # r \<Rightarrow>
            if e = CHR ''u''
            then (case r of
                w # x # y # z # r' \<Rightarrow>
                  (case unicode_char w x y z of None \<Rightarrow> None
                   | Some d \<Rightarrow> map_option (\<lambda>(t, q). (d # t, q)) (read_string r'))
              | _ \<Rightarrow> None)
            else (case simple_escape e of None \<Rightarrow> None
                  | Some d \<Rightarrow> map_option (\<lambda>(t, q). (d # t, q)) (read_string r)))
      else if (of_char c :: nat) < 32 then None
      else map_option (\<lambda>(t, q). (c # t, q)) (read_string s))"

text \<open>A number token: no character of a number may follow a number, so the longest run is the token.\<close>

definition number_char :: "char \<Rightarrow> bool" where
  "number_char c = (is_digit c \<or> c \<in> {CHR ''-'', CHR ''+'', CHR ''.'', CHR ''e'', CHR ''E''})"

definition json_integer :: "string \<Rightarrow> rat option" where
  "json_integer s = (if length s > 1 \<and> hd s = CHR ''0'' then None else map_option of_int (digits_val s))"

definition json_decimal :: "string \<Rightarrow> rat option" where
  "json_decimal s = (case split_on (CHR ''.'') s of
       [a] \<Rightarrow> json_integer a
     | [a, b] \<Rightarrow> (case (json_integer a, digits_val b) of (Some x, Some y) \<Rightarrow> Some (x + of_int y / 10 ^ length b) | _ \<Rightarrow> None)
     | _ \<Rightarrow> None)"

definition json_exponent :: "string \<Rightarrow> int option" where
  "json_exponent s = (case s of [] \<Rightarrow> None | c # r \<Rightarrow>
     if c = CHR ''-'' then map_option uminus (digits_val r) else if c = CHR ''+'' then digits_val r else digits_val s)"

definition json_unsigned :: "string \<Rightarrow> rat option" where
  "json_unsigned s = (case split_on (CHR ''e'') (map (\<lambda>c. if c = CHR ''E'' then CHR ''e'' else c) s) of
       [m] \<Rightarrow> json_decimal m
     | [m, e] \<Rightarrow> (case (json_decimal m, json_exponent e) of
         (Some x, Some k) \<Rightarrow> Some (if k < 0 then x / 10 ^ nat (- k) else x * 10 ^ nat k) | _ \<Rightarrow> None)
     | _ \<Rightarrow> None)"

definition json_number :: "string \<Rightarrow> rat option" where
  "json_number s = (case s of [] \<Rightarrow> None | c # r \<Rightarrow> if c = CHR ''-'' then map_option uminus (json_unsigned r) else json_unsigned s)"

definition read_literal :: "string \<Rightarrow> (js \<times> string) option" where
  "read_literal s =
     (if starts_with s ''true'' then Some (JBool True, drop 4 s)
      else if starts_with s ''false'' then Some (JBool False, drop 5 s)
      else if starts_with s ''null'' then Some (JNull, drop 4 s)
      else map_option (\<lambda>r. (JNum (Fin r), dropWhile number_char s)) (json_number (takeWhile number_char s)))"

section \<open>The reader\<close>

text \<open>A repeated key keeps its first place and takes its last value.\<close>

definition object_of :: "(string \<times> js) list \<Rightarrow> js" where
  "object_of fs = JObj (foldl (\<lambda>o0 (k, v). obj_set o0 k v) [] fs)"

fun read_value :: "nat \<Rightarrow> string \<Rightarrow> (js \<times> string) option"
and read_items :: "nat \<Rightarrow> string \<Rightarrow> (js list \<times> string) option"
and read_members :: "nat \<Rightarrow> string \<Rightarrow> ((string \<times> js) list \<times> string) option" where
  "read_value 0 s = None"
| "read_value (Suc n) s =
     (case skip_ws s of
        [] \<Rightarrow> None
      | c # r \<Rightarrow>
          if c = CHR 0x22 then map_option (\<lambda>(t, q). (JStr t, q)) (read_string r)
          else if c = CHR ''[''
          then (if starts_with (skip_ws r) '']'' then Some (JArr [], tl (skip_ws r))
                else map_option (\<lambda>(xs, q). (JArr xs, q)) (read_items n r))
          else if c = CHR 0x7B
          then (if starts_with (skip_ws r) [CHR 0x7D] then Some (JObj [], tl (skip_ws r))
                else map_option (\<lambda>(fs, q). (object_of fs, q)) (read_members n r))
          else read_literal (c # r))"
| "read_items 0 s = None"
| "read_items (Suc n) s =
     (case read_value n s of
        None \<Rightarrow> None
      | Some (v, r) \<Rightarrow>
          if starts_with (skip_ws r) '','' then map_option (\<lambda>(vs, q). (v # vs, q)) (read_items n (tl (skip_ws r)))
          else if starts_with (skip_ws r) '']'' then Some ([v], tl (skip_ws r))
          else None)"
| "read_members 0 s = None"
| "read_members (Suc n) s =
     (if \<not> starts_with (skip_ws s) [CHR 0x22] then None
      else case read_string (tl (skip_ws s)) of
        None \<Rightarrow> None
      | Some (k, r) \<Rightarrow>
          if \<not> starts_with (skip_ws r) '':'' then None
          else case read_value n (tl (skip_ws r)) of
            None \<Rightarrow> None
          | Some (v, q) \<Rightarrow>
              if starts_with (skip_ws q) '','' then map_option (\<lambda>(fs, z). ((k, v) # fs, z)) (read_members n (tl (skip_ws q)))
              else if starts_with (skip_ws q) [CHR 0x7D] then Some ([(k, v)], tl (skip_ws q))
              else None)"

definition json_parse :: "string \<Rightarrow> js option" where
  "json_parse s = (case read_value (2 * length s + 2) s of
       Some (v, r) \<Rightarrow> if skip_ws r = [] then Some v else None
     | None \<Rightarrow> None)"

section \<open>Indented text\<close>

text \<open>\<open>JSON.stringify(value, null, gap)\<close>: without a gap the text of \<open>json_text\<close>.\<close>

definition new_line :: "string \<Rightarrow> string \<Rightarrow> string" where
  "new_line gap ind = (if gap = [] then [] else CHR 0x0A # ind)"

definition bracketed :: "string \<Rightarrow> string \<Rightarrow> char \<Rightarrow> char \<Rightarrow> string list \<Rightarrow> string" where
  "bracketed gap ind a b ts =
     (if ts = [] then [a, b]
      else a # new_line gap (ind @ gap) @ js_join (CHR '','' # new_line gap (ind @ gap)) ts @ new_line gap ind @ [b])"

definition key_gap :: "string \<Rightarrow> string" where
  "key_gap gap = (if gap = [] then [] else '' '')"

fun json_write :: "host \<Rightarrow> string \<Rightarrow> string \<Rightarrow> js \<Rightarrow> string option" where
  "json_write h gap ind (JArr xs) = Some (bracketed gap ind (CHR ''['') (CHR '']'')
     (map (\<lambda>x. case json_write h gap (ind @ gap) x of None \<Rightarrow> ''null'' | Some s \<Rightarrow> s) xs))"
| "json_write h gap ind (JObj fs) = Some (bracketed gap ind (CHR 0x7B) (CHR 0x7D)
     (concat (map (\<lambda>(k, v). case json_write h gap (ind @ gap) v of None \<Rightarrow> []
        | Some s \<Rightarrow> [json_quote k @ '':'' @ key_gap gap @ s]) fs)))"
| "json_write h gap ind JUndef = None"
| "json_write h gap ind JNull = Some ''null''"
| "json_write h gap ind (JBool b) = Some (if b then ''true'' else ''false'')"
| "json_write h gap ind (JNum n) = Some (json_num h n)"
| "json_write h gap ind (JStr s) = Some (json_quote s)"
| "json_write h gap ind (JBuiltin k) = (if k = ''__proto__'' then Some ''{}'' else None)"

section \<open>The fuel is enough\<close>

lemma skip_ws_length: "length (skip_ws s) \<le> length s"
  by (simp add: skip_ws_def length_dropWhile_le)

lemma tl_skip_ws_shorter: "starts_with (skip_ws s) [c] \<Longrightarrow> length (tl (skip_ws s)) < length s"
  using skip_ws_length [of s] by (cases "skip_ws s") auto

lemma read_string_shorter: "read_string s = Some (t, r) \<Longrightarrow> length r < length s"
proof (induction s arbitrary: t r rule: read_string.induct)
  case (2 c s)
  then show ?case
    by (auto split: if_splits option.splits list.splits) (fastforce dest: less_imp_le)+
qed simp

lemma read_literal_shorter: "read_literal s = Some (v, r) \<Longrightarrow> length r < length s"
proof -
  assume lit: "read_literal s = Some (v, r)"
  have "length (dropWhile number_char s) < length s" if "json_number (takeWhile number_char s) = Some x" for x
  proof -
    from that have "takeWhile number_char s \<noteq> []" by (auto simp: json_number_def)
    then show ?thesis by (cases s) (auto simp: length_dropWhile_le less_Suc_eq_le split: if_splits)
  qed
  then show ?thesis using lit
    by (auto simp: read_literal_def starts_with_iff split: if_splits)
qed

lemma reads_shorter:
  "read_value n s = Some (v, r) \<Longrightarrow> length r < length s"
  "read_items n s = Some (xs, r) \<Longrightarrow> length r < length s"
  "read_members n s = Some (fs, r) \<Longrightarrow> length r < length s"
proof (induction n s and n s and n s arbitrary: v r and xs r and fs r rule: read_value_read_items_read_members.induct)
  case (2 n s)
  obtain c q where q: "skip_ws s = c # q" using 2(3) by (cases "skip_ws s") auto
  then have len: "length q < length s" using skip_ws_length [of s] by simp
  show ?case
    using 2 q len tl_skip_ws_shorter [of q] read_literal_shorter [of "c # q" v r] read_string_shorter [of q]
    by (auto split: if_splits) (fastforce dest: less_trans)+
next
  case (4 n s)
  then show ?case
    by (auto split: option.splits if_splits) (fastforce dest: tl_skip_ws_shorter less_trans)+
next
  case (6 n s)
  then show ?case
    by (auto split: option.splits if_splits) (fastforce dest: tl_skip_ws_shorter read_string_shorter less_trans)+
qed simp_all

text \<open>One step more of fuel changes nothing once the fuel covers the text.\<close>

lemma reads_stable:
  "2 * length s < n \<Longrightarrow> read_value (Suc n) s = read_value n s"
  "2 * length s + 1 < n \<Longrightarrow> read_items (Suc n) s = read_items n s"
  "2 * length s + 1 < n \<Longrightarrow> read_members (Suc n) s = read_members n s"
proof (induction n s and n s and n s rule: read_value_read_items_read_members.induct)
  case (2 n s)
  show ?case
  proof (cases "skip_ws s")
    case (Cons c q)
    then have "length q < length s" using skip_ws_length [of s] by simp
    with 2(3) have "2 * length q + 1 < n" by simp
    with 2(1,2) [OF Cons] Cons have
      "c = CHR ''['' \<Longrightarrow> \<not> starts_with (skip_ws q) '']'' \<Longrightarrow> read_items (Suc n) q = read_items n q"
      "c = CHR 0x7B \<Longrightarrow> \<not> starts_with (skip_ws q) [CHR 0x7D] \<Longrightarrow> read_members (Suc n) q = read_members n q"
      by simp_all
    then show ?thesis by (subst (1 2) read_value.simps) (simp add: Cons del: read_items.simps read_members.simps)
  qed simp
next
  case (4 n s)
  have v: "read_value (Suc n) s = read_value n s" using 4 by simp
  show ?case
  proof (cases "read_value n s")
    case (Some p)
    obtain x r where p: "p = (x, r)" by (cases p)
    have "read_items (Suc n) (tl (skip_ws r)) = read_items n (tl (skip_ws r))" if "starts_with (skip_ws r) '',''"
      using 4(2) [OF Some p [symmetric] that] 4(3) reads_shorter(1) [OF Some [unfolded p]] tl_skip_ws_shorter [OF that] by simp
    then show ?thesis by (subst (1 2) read_items.simps) (simp add: v Some p del: read_value.simps read_items.simps)
  qed (subst (1 2) read_items.simps, simp add: v del: read_value.simps read_items.simps)
next
  case (6 n s)
  show ?case
  proof (cases "starts_with (skip_ws s) [CHR 0x22]")
    case True
    show ?thesis
    proof (cases "read_string (tl (skip_ws s))")
      case (Some p)
      obtain k r where p: "p = (k, r)" by (cases p)
      have r: "length r < length s" using read_string_shorter [OF Some [unfolded p]] tl_skip_ws_shorter [OF True] by simp
      show ?thesis
      proof (cases "starts_with (skip_ws r) '':''")
        case colon: True
        have v: "read_value (Suc n) (tl (skip_ws r)) = read_value n (tl (skip_ws r))"
          using 6(1) [OF _ Some p [symmetric]] True colon 6(3) r tl_skip_ws_shorter [OF colon] by simp
        have m: "read_members (Suc n) (tl (skip_ws q)) = read_members n (tl (skip_ws q))"
          if "read_value n (tl (skip_ws r)) = Some (x, q)" "starts_with (skip_ws q) '',''" for x q
          using 6(2) [OF _ Some p [symmetric] _ that(1) refl that(2)] True colon 6(3) r tl_skip_ws_shorter [OF colon]
            reads_shorter(1) [OF that(1)] tl_skip_ws_shorter [OF that(2)] by simp
        show ?thesis
          by (subst (1 2) read_members.simps)
            (simp add: True Some p colon v m del: read_value.simps read_members.simps split: option.split)
      qed (simp add: True Some p)
    qed (simp add: True)
  qed simp
qed simp_all

lemma read_value_fuel: "2 * length s < m \<Longrightarrow> m \<le> n \<Longrightarrow> read_value n s = read_value m s"
proof (induction n)
  case (Suc n)
  then show ?case using reads_stable(1) [of s n] by (cases "m = Suc n") auto
qed simp

section \<open>Reading back what was written\<close>

lemma hex_code_digit: "n < 16 \<Longrightarrow> hex_code (hex_digit n) = Some n"
  by (simp add: hex_code_def hex_digit_code Let_def)

lemma read_esc_char: "read_string (json_esc c @ q) = map_option (\<lambda>(t, z). (c # t, z)) (read_string q)"
proof (cases "esc_plain c")
  case True
  then show ?thesis using json_esc_plain [OF True] by (simp add: esc_plain_def Let_def)
next
  case False
  let ?n = "of_char c :: nat"
  have code: "c = d" if "?n = of_char d" for d using that by simp
  from False consider "?n = 34" | "?n = 92" | "?n = 8" | "?n = 9" | "?n = 10" | "?n = 12" | "?n = 13"
    | "?n < 32" "?n \<notin> {8, 9, 10, 12, 13}"
    unfolding esc_plain_def Let_def by fastforce
  then show ?thesis
  proof cases
    case 8
    then have "json_esc c = CHR 0x5C # ''u00'' @ [hex_digit (?n div 16), hex_digit (?n mod 16)]"
      by (simp add: json_esc_def Let_def)
    moreover have "unicode_char (CHR ''0'') (CHR ''0'') (hex_digit (?n div 16)) (hex_digit (?n mod 16)) = Some c"
      using 8(1) by (simp add: unicode_char_def hex_code_digit) (simp add: hex_code_def)
    ultimately show ?thesis by simp
  qed (use code [of "CHR 0x22"] code [of "CHR 0x5C"] code [of "CHR 0x08"] code [of "CHR 0x09"] code [of "CHR 0x0A"]
      code [of "CHR 0x0C"] code [of "CHR 0x0D"] in \<open>simp_all add: json_esc_def Let_def simple_escape_def\<close>)
qed

lemma read_string_json: "read_string (concat (map json_esc s) @ CHR 0x22 # r) = Some (s, r)"
proof (induction s)
  case (Cons c s)
  then show ?case using read_esc_char [of c "concat (map json_esc s) @ CHR 0x22 # r"] by simp
qed simp

lemma split_on_none: "c \<notin> set s \<Longrightarrow> split_on c s = [s]"
  by (induction s) auto

lemma nat_str_head: "hd (nat_str n) = CHR ''0'' \<Longrightarrow> length (nat_str n) = 1"
proof (induction n rule: nat_str.induct)
  case (1 n)
  show ?case
  proof (cases "n < 10")
    case False
    then have n: "nat_str n = nat_str (n div 10) @ [digit_char (n mod 10)]" by (subst nat_str.simps) simp
    have "hd (nat_str n) = hd (nat_str (n div 10))" unfolding n by (simp add: nat_str_nonempty)
    with 1 False have "length (nat_str (n div 10)) = 1" "hd (nat_str (n div 10)) = CHR ''0''" by simp_all
    moreover have "n div 10 \<noteq> 0" using False by simp
    ultimately have "nat_str (n div 10) = [digit_char (n div 10)] \<and> n div 10 < 10"
      by (subst (asm) (1) nat_str.simps, subst nat_str.simps) (auto simp: nat_str_nonempty split: if_splits)
    then have "digit_char (n div 10) = CHR ''0''" "n div 10 < 10" using \<open>hd (nat_str (n div 10)) = CHR ''0''\<close> by auto
    then have "(of_char (CHR ''0'') :: nat) = 48 + n div 10" using digit_char_code [of "n div 10"] by metis
    then show ?thesis using \<open>n div 10 \<noteq> 0\<close> by simp
  qed (subst nat_str.simps, simp)
qed

lemma digits_val_nat_str: "digits_val (nat_str n) = Some (int n)"
proof -
  have digits: "list_all is_digit (nat_str n)" for n by (auto simp: list_all_iff dest: nat_str_digits)
  have "foldl (\<lambda>a c. 10 * a + (of_char c - 48)) 0 (nat_str n) = int n"
  proof (induction n rule: nat_str.induct)
    case (1 n)
    have d: "(of_char (digit_char (n mod 10)) :: int) = 48 + int (n mod 10)"
      using digit_char_code [of "n mod 10"] by (metis mod_less_divisor of_nat_add of_nat_numeral of_nat_of_char zero_less_numeral)
    show ?case
    proof (cases "n < 10")
      case True
      then show ?thesis using d by (subst nat_str.simps) simp
    next
      case False
      have "10 * int (n div 10) + int (n mod 10) = int n" by (metis div_mult_mod_eq mult.commute of_nat_add of_nat_mult of_nat_numeral)
      with False 1 d show ?thesis by (subst nat_str.simps) simp
    qed
  qed
  then show ?thesis using digits nat_str_nonempty by (simp add: digits_val_def)
qed

lemma json_unsigned_nat: "json_unsigned (nat_str n) = Some (of_nat n)"
proof -
  have ne: "c \<notin> set (nat_str n)" if "\<not> is_digit c" for c using that nat_str_digits [of c n] by blast
  have "map (\<lambda>c. if c = CHR ''E'' then CHR ''e'' else c) (nat_str n) = nat_str n"
    using ne [of "CHR ''E''"] by (auto simp: is_digit_def intro: map_idI)
  moreover have "CHR ''e'' \<notin> set (nat_str n)" "CHR ''.'' \<notin> set (nat_str n)" using ne by (simp_all add: is_digit_def)
  moreover have "json_integer (nat_str n) = Some (of_nat n)"
    using nat_str_head [of n] by (auto simp: json_integer_def digits_val_nat_str)
  ultimately show ?thesis by (simp add: json_unsigned_def json_decimal_def split_on_none)
qed

lemma json_number_int: "json_number (int_str i) = Some (of_int i)"
proof (cases "i < 0")
  case True
  then show ?thesis by (simp add: json_number_def int_str_def json_unsigned_nat)
next
  case False
  obtain c r where s: "nat_str (nat i) = c # r" by (cases "nat_str (nat i)") (auto simp: nat_str_nonempty)
  then have "c \<noteq> CHR ''-''" using nat_str_digits [of "CHR ''-''" "nat i"] by (auto simp: is_digit_def)
  with False s json_unsigned_nat [of "nat i"] show ?thesis by (simp add: json_number_def int_str_def)
qed

text \<open>What may follow a value: the end of the text, a separator or space.\<close>

definition ends :: "string \<Rightarrow> bool" where
  "ends r = (sep r \<or> (r \<noteq> [] \<and> json_space (hd r)))"

definition white :: "string \<Rightarrow> bool" where
  "white w = list_all json_space w"

text \<open>The text \<open>t\<close> is read as the value \<open>v\<close>, wherever it stands.\<close>

definition denotes :: "string \<Rightarrow> js \<Rightarrow> bool" where
  "denotes t v = (\<forall>r n. ends r \<longrightarrow> 2 * length (t @ r) < n \<longrightarrow> read_value n (t @ r) = Some (v, r))"

lemma denotesD: "denotes t v \<Longrightarrow> ends r \<Longrightarrow> 2 * length (t @ r) < n \<Longrightarrow> read_value n (t @ r) = Some (v, r)"
  unfolding denotes_def by blast

lemma ends_cases: "ends r \<Longrightarrow> r = [] \<or> hd r \<in> {CHR '','', CHR '']'', CHR 0x7D, CHR 0x09, CHR 0x0A, CHR 0x0D, CHR '' ''}"
proof -
  assume "ends r"
  moreover have "c = CHR 0x09 \<or> c = CHR 0x0A \<or> c = CHR 0x0D \<or> c = CHR '' ''" if "json_space c" for c
  proof -
    have code: "c = d" if "(of_char c :: nat) = of_char d" for d using that by simp
    from that show ?thesis
      using code [of "CHR 0x09"] code [of "CHR 0x0A"] code [of "CHR 0x0D"] code [of "CHR '' ''"] by (auto simp: json_space_def)
  qed
  ultimately show ?thesis by (auto simp: ends_def sep_def)
qed

lemma ends_Cons [simp]: "ends (CHR '','' # r)" "ends (CHR '']'' # r)" "ends (CHR 0x7D # r)" "ends []"
  by (simp_all add: ends_def sep_def)

lemma ends_white: "white w \<Longrightarrow> ends r \<Longrightarrow> ends (w @ r)"
  by (cases w) (auto simp: ends_def white_def)

lemma skip_ws_Cons: "\<not> json_space c \<Longrightarrow> skip_ws (c # s) = c # s"
  by (simp add: skip_ws_def)

lemma skip_ws_white: "white w \<Longrightarrow> skip_ws (w @ s) = skip_ws s"
  by (induction w) (auto simp: white_def skip_ws_def)

lemma read_white:
  assumes "white w"
  shows "read_value n (w @ s) = read_value n s" "read_items n (w @ s) = read_items n s" "read_members n (w @ s) = read_members n s"
proof -
  have v: "read_value n (w @ s) = read_value n s" for n
    by (cases n) (simp_all add: skip_ws_white [OF assms] del: read_items.simps read_members.simps)
  show "read_value n (w @ s) = read_value n s" "read_items n (w @ s) = read_items n s" "read_members n (w @ s) = read_members n s"
    using v by (cases n; simp add: skip_ws_white [OF assms] del: read_value.simps)+
qed

lemma denotes_literals: "denotes ''null'' JNull" "denotes ''true'' (JBool True)" "denotes ''false'' (JBool False)"
  unfolding denotes_def by (auto simp: skip_ws_def json_space_def read_literal_def gr0_conv_Suc dest!: gr0_implies_Suc [OF le_less_trans [OF le0]])

lemma denotes_string: "denotes (json_quote s) (JStr s)"
  unfolding denotes_def
  by (auto simp: json_quote_def skip_ws_def json_space_def read_string_json dest!: gr0_implies_Suc [OF le_less_trans [OF le0]])

lemma read_literal_int:
  assumes "ends r"
  shows "read_literal (int_str i @ r) = Some (JNum (Fin (of_int i)), r)"
proof -
  obtain c t where t: "int_str i = c # t" "num_char c"
    using int_str_chars [of "hd (int_str i)" i] by (cases "int_str i") (auto simp: int_str_def nat_str_nonempty split: if_splits)
  then have no: "\<not> starts_with (int_str i @ r) (d # p)" if "\<not> num_char d" for d p using that by auto
  have num: "number_char d" if "d \<in> set (int_str i)" for d
    using int_str_chars [OF that] by (auto simp: num_char_def number_char_def)
  have "takeWhile number_char r = []" "dropWhile number_char r = r"
    using ends_cases [OF assms] by (cases r; auto simp: number_char_def is_digit_def)+
  then have "takeWhile number_char (int_str i @ r) = int_str i" "dropWhile number_char (int_str i @ r) = r"
    using num by (simp_all add: takeWhile_append dropWhile_append)
  then show ?thesis
    unfolding read_literal_def using no [of "CHR ''t''"] no [of "CHR ''f''"] no [of "CHR ''n''"]
    by (simp add: num_char_def is_digit_def json_number_int)
qed

lemma denotes_int: "denotes (int_str i) (JNum (Fin (of_int i)))"
  unfolding denotes_def
proof (intro allI impI)
  fix r n assume r: "ends r" and n: "2 * length (int_str i @ r) < n"
  obtain c t where t: "int_str i = c # t" "num_char c"
    using int_str_chars [of "hd (int_str i)" i] by (cases "int_str i") (auto simp: int_str_def nat_str_nonempty split: if_splits)
  have "c \<notin> {CHR 0x22, CHR ''['', CHR 0x7B}" "\<not> json_space c"
    using t(2) by (auto simp: num_char_def is_digit_def json_space_def)
  with read_literal_int [OF r, of i] n t(1) show "read_value n (int_str i @ r) = Some (JNum (Fin (of_int i)), r)"
    by (cases n) (simp_all add: skip_ws_Cons)
qed

section \<open>JSON text survives storage\<close>

lemma json_text_None: "json_text h v = None \<longleftrightarrow> stored v = None"
  by (cases v) auto

lemma json_text_stored: "stored v = Some w \<Longrightarrow> json_text h w = json_text h v"
proof (induction v arbitrary: w)
  case (JArr xs)
  let ?kept = "\<lambda>x. case stored x of None \<Rightarrow> JNull | Some y \<Rightarrow> y"
  let ?t = "\<lambda>x. case json_text h x of None \<Rightarrow> ''null'' | Some s \<Rightarrow> s"
  have "?t (?kept x) = ?t x" if "x \<in> set xs" for x
    by (cases "stored x") (simp_all add: JArr.IH [OF that] json_text_None [THEN iffD2])
  then have "map ?t (map ?kept xs) = map ?t xs" unfolding map_map comp_def by (rule map_cong [OF refl])
  moreover have "w = JArr (map ?kept xs)" using JArr.prems by simp
  ultimately show ?case by (simp only: json_text.simps)
next
  case (JObj fs)
  let ?kept = "\<lambda>(k, v). case stored v of None \<Rightarrow> [] | Some y \<Rightarrow> [(k, y)]"
  let ?t = "\<lambda>(k, v). case json_text h v of None \<Rightarrow> [] | Some s \<Rightarrow> [json_quote k @ '':'' @ s]"
  have "concat (map ?t (?kept p)) = ?t p" if "p \<in> set fs" for p
  proof -
    obtain k x where p: "p = (k, x)" by (cases p)
    show ?thesis using JObj.IH [OF that, of x] by (cases "stored x") (simp_all add: p json_text_None [THEN iffD2])
  qed
  then have "concat (map ?t (concat (map ?kept fs))) = concat (map ?t fs)"
    by (induction fs) auto
  moreover have "w = JObj (concat (map ?kept fs))" using JObj.prems by simp
  ultimately show ?case by (simp only: json_text.simps)
qed (auto simp: json_num_def split: if_splits)

text \<open>On plain values the text determines the value.\<close>

lemma concat_singletons: "(\<And>p. p \<in> set xs \<Longrightarrow> f p = [g p]) \<Longrightarrow> concat (map f xs) = map g xs"
  by (induction xs) auto

lemma json_text_plain: "plain v \<Longrightarrow> json_text h v = Some (pr v)"
proof (induction v)
  case (JNum n)
  then show ?case by (simp add: plain_num_str del: plain.simps pr.simps)
next
  case (JArr xs)
  then have "map (\<lambda>x. case json_text h x of None \<Rightarrow> ''null'' | Some s \<Rightarrow> s) xs = map pr xs" by simp
  then show ?case by (simp only: json_text.simps pr.simps) simp
next
  case (JObj fs)
  have "(case json_text h x of None \<Rightarrow> [] | Some s \<Rightarrow> [json_quote k @ '':'' @ s]) = [json_quote k @ '':'' @ pr x]"
    if "(k, x) \<in> set fs" for k x
    using JObj.IH [OF that, of x] JObj.prems that by auto
  then have "concat (map (\<lambda>(k, v). case json_text h v of None \<Rightarrow> [] | Some s \<Rightarrow> [json_quote k @ '':'' @ s]) fs)
      = map (\<lambda>(k, v). json_quote k @ '':'' @ pr v) fs"
    by (intro concat_singletons) auto
  then show ?case by (simp only: json_text.simps pr.simps) simp
qed auto

lemma pr_inj: "plain v \<Longrightarrow> plain w \<Longrightarrow> pr v = pr w \<Longrightarrow> v = w"
  using decodesD [OF pr_decodes, of v w "[]" "[]"] by (simp add: sep_def)

section \<open>Lists of values and of members\<close>

lemma read_items_denotes:
  assumes "list_all2 denotes ts vs" and "ts \<noteq> []" and "white w" and "white w'"
    and "2 * length (js_join (CHR '','' # w) ts @ w' @ CHR '']'' # r) + 1 < n"
  shows "read_items n (js_join (CHR '','' # w) ts @ w' @ CHR '']'' # r) = Some (vs, r)"
  using assms
proof (induction ts vs arbitrary: n rule: list_all2_induct)
  case (Cons t ts v vs)
  obtain m where n: "n = Suc m" using Cons.prems(4) by (cases n) auto
  show ?case
  proof (cases ts)
    case Nil
    have "read_value m (t @ w' @ CHR '']'' # r) = Some (v, w' @ CHR '']'' # r)"
      by (rule denotesD [OF Cons.hyps(1)]) (use Cons.prems Nil n in \<open>simp_all add: ends_white\<close>)
    then show ?thesis using Cons.hyps(2) Cons.prems(3)
      by (simp add: Nil n skip_ws_white skip_ws_Cons json_space_def del: read_value.simps)
  next
    case (Cons u us)
    let ?q = "js_join (CHR '','' # w) ts @ w' @ CHR '']'' # r"
    have j: "js_join (CHR '','' # w) (t # ts) @ w' @ CHR '']'' # r = t @ CHR '','' # w @ ?q" by (simp add: Cons)
    note len = Cons.prems(4) [unfolded j n]
    have "read_value m (t @ CHR '','' # w @ ?q) = Some (v, CHR '','' # w @ ?q)"
      by (rule denotesD [OF Cons.hyps(1)]) (use len in simp_all)
    moreover have "read_items m ?q = Some (vs, r)" by (rule Cons.IH) (use Cons.prems Cons len in auto)
    ultimately show ?thesis unfolding j n
      by (simp add: skip_ws_Cons json_space_def read_white(2) [OF Cons.prems(2)] del: read_value.simps)
  qed
qed simp

text \<open>A member \<open>(k, t)\<close> is written with its key quoted, a colon and some space.\<close>

definition member_text :: "string \<Rightarrow> string \<times> string \<Rightarrow> string" where
  "member_text w p = json_quote (fst p) @ CHR '':'' # w @ snd p"

lemma read_member:
  assumes "denotes t v" and "white w" and "ends r" and "2 * length (member_text w (k, t) @ r) + 1 < Suc n"
  shows "read_members (Suc n) (member_text w (k, t) @ r) =
    (if starts_with (skip_ws r) '','' then map_option (\<lambda>(fs, z). ((k, v) # fs, z)) (read_members n (tl (skip_ws r)))
     else if starts_with (skip_ws r) [CHR 0x7D] then Some ([(k, v)], tl (skip_ws r)) else None)"
proof -
  let ?s = "member_text w (k, t) @ r"
  have s: "?s = CHR 0x22 # concat (map json_esc k) @ CHR 0x22 # CHR '':'' # w @ t @ r"
    by (simp add: member_text_def json_quote_def)
  have key: "read_string (tl ?s) = Some (k, CHR '':'' # w @ t @ r)" unfolding s by (simp add: read_string_json)
  have sk: "skip_ws ?s = ?s" "starts_with ?s [CHR 0x22]" unfolding s by (simp_all add: skip_ws_def json_space_def)
  have "read_value n (t @ r) = Some (v, r)" by (rule denotesD [OF assms(1,3)]) (use assms(4) s in simp)
  then have "read_value n (w @ t @ r) = Some (v, r)" by (simp add: read_white(1) [OF assms(2)])
  then show ?thesis
    by (subst read_members.simps) (simp add: sk key skip_ws_Cons json_space_def del: read_value.simps read_members.simps)
qed

lemma read_members_denotes:
  assumes "list_all2 (\<lambda>p q. fst p = fst q \<and> denotes (snd p) (snd q)) ps fs" and "ps \<noteq> []" and "white w" and "white w'" and "white c"
    and "2 * length (js_join (CHR '','' # w) (map (member_text c) ps) @ w' @ CHR 0x7D # r) + 1 < n"
  shows "read_members n (js_join (CHR '','' # w) (map (member_text c) ps) @ w' @ CHR 0x7D # r) = Some (fs, r)"
  using assms
proof (induction ps fs arbitrary: n rule: list_all2_induct)
  case (Cons p ps f fs)
  obtain k t where p: "p = (k, t)" by (cases p)
  obtain v where f: "f = (k, v)" and d: "denotes t v" using Cons.hyps(1) p by (cases f) auto
  obtain m where n: "n = Suc m" using Cons.prems(5) by (cases n) auto
  show ?case
  proof (cases ps)
    case Nil
    show ?thesis
      using Cons.hyps(2) Cons.prems(3,5) read_member [OF d Cons.prems(4), of "w' @ CHR 0x7D # r" k m]
      by (simp add: Nil n p f ends_white skip_ws_white skip_ws_Cons json_space_def del: read_members.simps)
  next
    case (Cons u us)
    let ?q = "js_join (CHR '','' # w) (map (member_text c) ps) @ w' @ CHR 0x7D # r"
    have j: "js_join (CHR '','' # w) (map (member_text c) (p # ps)) @ w' @ CHR 0x7D # r = member_text c (k, t) @ CHR '','' # w @ ?q"
      by (simp add: Cons p)
    note len = Cons.prems(5) [unfolded j n]
    have "read_members m ?q = Some (fs, r)" by (rule Cons.IH) (use Cons.prems Cons len in auto)
    then show ?thesis unfolding j n
      using read_member [OF d Cons.prems(4), of "CHR '','' # w @ ?q" k m] len
      by (simp add: f skip_ws_Cons json_space_def read_white(3) [OF Cons.prems(2)] del: read_members.simps)
  qed
qed simp

lemma object_of_distinct: "distinct (map fst fs) \<Longrightarrow> object_of fs = JObj fs"
proof -
  have "foldl (\<lambda>o0 (k, v). obj_set o0 k v) gs fs = gs @ fs" if "distinct (map fst (gs @ fs))" for gs
    using that
  proof (induction fs arbitrary: gs)
    case (Cons p fs)
    obtain k v where p: "p = (k, v)" by (cases p)
    have "obj_set gs k v = gs @ [(k, v)]" using Cons.prems p by (intro obj_set_new) auto
    then show ?case using Cons.IH [of "gs @ [(k, v)]"] Cons.prems p by simp
  qed simp
  then show "distinct (map fst fs) \<Longrightarrow> object_of fs = JObj fs" by (simp add: object_of_def)
qed

section \<open>Written values are read back\<close>

lemma bracketed_compact: "bracketed [] ind a b ts = a # js_join '','' ts @ [b]"
  by (simp add: bracketed_def new_line_def)

lemma json_write_compact: "json_write h [] [] v = json_text h v"
proof (induction v)
  case (JArr xs)
  then have "map (\<lambda>x. case json_write h [] [] x of None \<Rightarrow> ''null'' | Some s \<Rightarrow> s) xs
    = map (\<lambda>x. case json_text h x of None \<Rightarrow> ''null'' | Some s \<Rightarrow> s) xs" by simp
  then show ?case by (simp only: json_write.simps json_text.simps bracketed_compact append_Nil) simp
next
  case (JObj fs)
  let ?w = "\<lambda>(k, v). case json_write h [] [] v of None \<Rightarrow> [] | Some s \<Rightarrow> [json_quote k @ '':'' @ key_gap [] @ s]"
  let ?t = "\<lambda>(k, v). case json_text h v of None \<Rightarrow> [] | Some s \<Rightarrow> [json_quote k @ '':'' @ s]"
  have "map ?w fs = map ?t fs" using JObj by (intro map_cong) (auto simp: key_gap_def split: option.split)
  then show ?case by (simp only: json_write.simps json_text.simps bracketed_compact append_Nil) simp
qed simp_all

lemma white_append: "white (a @ b) \<longleftrightarrow> white a \<and> white b"
  by (simp add: white_def)

lemma white_new_line: "white ind \<Longrightarrow> white (new_line gap ind)"
  by (simp add: white_def new_line_def json_space_def)

lemma read_items_not_closed: "read_items n s = Some p \<Longrightarrow> \<not> starts_with (skip_ws s) '']''"
proof
  assume items: "read_items n s = Some p" and "starts_with (skip_ws s) '']''"
  then obtain r where r: "skip_ws s = CHR '']'' # r" by (cases "skip_ws s") auto
  have "read_value m s = None" for m
    by (cases m) (simp_all add: r read_literal_def number_char_def is_digit_def json_number_def)
  then show False using items by (cases n) auto
qed

lemma read_members_not_closed: "read_members n s = Some p \<Longrightarrow> \<not> starts_with (skip_ws s) [CHR 0x7D]"
  by (cases n; cases "skip_ws s") (auto split: if_splits)

lemma denotes_array:
  assumes "list_all2 denotes ts vs" and "white ind" and "white gap"
  shows "denotes (bracketed gap ind (CHR ''['') (CHR '']'') ts) (JArr vs)"
proof (cases "ts = []")
  case True
  then show ?thesis using assms(1) unfolding denotes_def
    by (auto simp: bracketed_def skip_ws_def json_space_def dest!: gr0_implies_Suc [OF le_less_trans [OF le0]])
next
  case False
  let ?i = "new_line gap (ind @ gap)" and ?o = "new_line gap ind"
  have w: "white ?i" "white ?o" using assms(2,3) by (simp_all add: white_new_line white_append)
  obtain t us where t: "ts = t # us" using False by (cases ts) auto
  show ?thesis unfolding denotes_def
  proof (intro allI impI)
    fix r n assume r: "ends r" and n: "2 * length (bracketed gap ind (CHR ''['') (CHR '']'') ts @ r) < n"
    let ?q = "js_join (CHR '','' # ?i) ts @ ?o @ CHR '']'' # r"
    obtain m where m: "n = Suc m" using n by (cases n) auto
    have q: "bracketed gap ind (CHR ''['') (CHR '']'') ts @ r = CHR ''['' # ?i @ ?q" using False by (simp add: bracketed_def)
    have items: "read_items m ?q = Some (vs, r)"
      by (rule read_items_denotes [OF assms(1) False w]) (use n q m in simp)
    then have "\<not> starts_with (skip_ws ?q) '']''"
      using read_items_not_closed by blast
    then show "read_value n (bracketed gap ind (CHR ''['') (CHR '']'') ts @ r) = Some (JArr vs, r)"
      unfolding q m using items by (simp add: skip_ws_Cons json_space_def skip_ws_white [OF w(1)] read_white(2) [OF w(1)] del: read_items.simps)
  qed
qed

lemma denotes_object:
  assumes "list_all2 (\<lambda>p q. fst p = fst q \<and> denotes (snd p) (snd q)) ps fs" and "white ind" and "white gap" and "white c"
    and "distinct (map fst fs)"
  shows "denotes (bracketed gap ind (CHR 0x7B) (CHR 0x7D) (map (member_text c) ps)) (JObj fs)"
proof (cases "ps = []")
  case True
  then show ?thesis using assms(1) unfolding denotes_def
    by (auto simp: bracketed_def skip_ws_def json_space_def dest!: gr0_implies_Suc [OF le_less_trans [OF le0]])
next
  case False
  let ?i = "new_line gap (ind @ gap)" and ?o = "new_line gap ind"
  have w: "white ?i" "white ?o" using assms(2,3) by (simp_all add: white_new_line white_append)
  show ?thesis unfolding denotes_def
  proof (intro allI impI)
    fix r n assume r: "ends r" and n: "2 * length (bracketed gap ind (CHR 0x7B) (CHR 0x7D) (map (member_text c) ps) @ r) < n"
    let ?q = "js_join (CHR '','' # ?i) (map (member_text c) ps) @ ?o @ CHR 0x7D # r"
    obtain m where m: "n = Suc m" using n by (cases n) auto
    have q: "bracketed gap ind (CHR 0x7B) (CHR 0x7D) (map (member_text c) ps) @ r = CHR 0x7B # ?i @ ?q"
      using False by (simp add: bracketed_def)
    have members: "read_members m ?q = Some (fs, r)"
      by (rule read_members_denotes [OF assms(1) False w assms(4)]) (use n q m in simp)
    then have "\<not> starts_with (skip_ws ?q) [CHR 0x7D]" by (rule read_members_not_closed)
    then show "read_value n (bracketed gap ind (CHR 0x7B) (CHR 0x7D) (map (member_text c) ps) @ r) = Some (JObj fs, r)"
      unfolding q m using members
      by (simp add: skip_ws_Cons json_space_def skip_ws_white [OF w(1)] read_white(3) [OF w(1)] object_of_distinct [OF assms(5)]
        del: read_members.simps)
  qed
qed

lemma json_write_None: "json_write h gap ind v = None \<longleftrightarrow> stored v = None"
  by (cases v) auto

lemma json_write_denotes:
  assumes "white gap"
  shows "stored v = Some w \<Longrightarrow> plain w \<Longrightarrow> white ind \<Longrightarrow> \<exists>t. json_write h gap ind v = Some t \<and> denotes t w"
proof (induction v arbitrary: w ind)
  case (JNum n)
  show ?case
  proof (cases "is_finite n")
    case True
    then obtain i where "n = Fin (of_int i)" "json_num h n = int_str i"
      using JNum plain_num_str [of n h] by (cases n) (auto simp: rat_int_Some split: option.splits)
    then show ?thesis using JNum.prems(1) denotes_int [of i] by auto
  qed (use JNum.prems in \<open>simp add: json_num_def denotes_literals\<close>)
next
  case (JArr xs)
  let ?t = "\<lambda>x. case json_write h gap (ind @ gap) x of None \<Rightarrow> ''null'' | Some s \<Rightarrow> s"
  let ?v = "\<lambda>x. case stored x of None \<Rightarrow> JNull | Some y \<Rightarrow> y"
  have "white (ind @ gap)" using JArr.prems assms by (simp add: white_def)
  then have "denotes (?t x) (?v x)" if "x \<in> set xs" for x
    using JArr.IH [OF that, of "?v x" "ind @ gap"] JArr.prems(1,2) that
    by (cases "stored x") (force simp: denotes_literals json_write_None [THEN iffD2])+
  then have "list_all2 denotes (map ?t xs) (map ?v xs)" by (simp add: list_all2_conv_all_nth)
  from denotes_array [OF this JArr.prems(3) assms] show ?case using JArr.prems(1) by simp
next
  case (JObj fs)
  let ?t = "\<lambda>(k, v). case json_write h gap (ind @ gap) v of None \<Rightarrow> [] | Some s \<Rightarrow> [(k, s)]"
  let ?v = "\<lambda>(k, v). case stored v of None \<Rightarrow> [] | Some y \<Rightarrow> [(k, y)]"
  let ?ok = "list_all2 (\<lambda>p q. fst p = fst q \<and> denotes (snd p) (snd q))"
  have w: "w = JObj (concat (map ?v fs))" using JObj.prems(1) by simp
  have ind: "white (ind @ gap)" using JObj.prems assms by (simp add: white_def)
  have "?ok (?t p) (?v p)" if "p \<in> set fs" for p
  proof (cases "stored (snd p)")
    case (Some y)
    have "plain y" using JObj.prems(2) that Some unfolding w by (cases p) force
    with JObj.IH [OF that, of "snd p" y "ind @ gap"] ind Some show ?thesis by (cases p) auto
  qed (cases p, simp add: json_write_None [THEN iffD2])
  then have "?ok (concat (map ?t fs)) (concat (map ?v fs))" by (induction fs) (auto intro: list_all2_appendI)
  moreover have "white (key_gap gap)" by (simp add: white_def key_gap_def json_space_def)
  moreover have "distinct (map fst (concat (map ?v fs)))" using JObj.prems(2) unfolding w by simp
  ultimately have "denotes (bracketed gap ind (CHR 0x7B) (CHR 0x7D) (map (member_text (key_gap gap)) (concat (map ?t fs)))) w"
    unfolding w by (intro denotes_object) (simp_all add: JObj.prems(3) assms)
  moreover have "map (member_text (key_gap gap)) (concat (map ?t fs)) = concat (map (\<lambda>(k, v). case json_write h gap (ind @ gap) v of None \<Rightarrow> []
        | Some s \<Rightarrow> [json_quote k @ '':'' @ key_gap gap @ s]) fs)"
    by (induction fs) (auto simp: member_text_def split: option.split)
  ultimately show ?case by simp
qed (use denotes_object [of "[]" "[]" "[]" "[]" "[]"] in \<open>auto simp: denotes_literals denotes_string bracketed_def white_def split: if_splits\<close>)

lemma written_read_back:
  assumes "stored v = Some w" and "plain w" and "white gap" and "white trail"
  shows "\<exists>t. json_write h gap [] v = Some t \<and> json_parse (t @ trail) = Some w"
proof -
  obtain t where t: "json_write h gap [] v = Some t" "denotes t w"
    using json_write_denotes [OF assms(3,1,2), of "[]" h] by (auto simp: white_def)
  have "read_value (2 * length (t @ trail) + 2) (t @ trail) = Some (w, trail)"
    by (rule denotesD [OF t(2)]) (use ends_white [OF assms(4), of "[]"] in simp_all)
  then show ?thesis using t(1) skip_ws_white [OF assms(4), of "[]"] by (simp add: json_parse_def skip_ws_def)
qed

end
