(* ===== verification/SourceAdapter.thy ===== *)
theory SourceAdapter
  imports Binding JsonParse
begin

text \<open>
  Source adapters (src/lib/core/source-adapter.mjs): the checks of an adapter object, the plan of a
  mutation with its confirmation token, the check of a confirmed plan and the receipt. The token is
  the hash of the JSON text of the plan in the order of its fields.
\<close>

section \<open>Adapters\<close>

definition SOURCE_CAPABILITIES :: "string list" where
  "SOURCE_CAPABILITIES = [''read-artifacts'', ''read-lifecycle'', ''mutate-comments'', ''mutate-artifacts'', ''mutate-lifecycle'']"

text \<open>\<open>adapter?.capabilities?.some((item) => item.startsWith('mutate-'))\<close>\<close>

definition mutates :: "js \<Rightarrow> bool res" where
  "mutates caps = (case caps of
       JArr xs \<Rightarrow> some_res (\<lambda>c. case c of JStr s \<Rightarrow> Inr (starts_with s ''mutate-'')
         | _ \<Rightarrow> Inl (TypeError ''item.startsWith is not a function'')) xs
     | _ \<Rightarrow> if nullish caps then Inr False else Inl (TypeError ''adapter?.capabilities?.some is not a function''))"

definition validateSourceAdapter :: "host \<Rightarrow> js \<Rightarrow> string list res" where
  "validateSourceAdapter h adapter =
     bnd (js_iter (coal (fld adapter ''capabilities'') (JArr []))) (\<lambda>caps.
     bnd (mutates (fld adapter ''capabilities'')) (\<lambda>m.
     Inr ((if fld adapter ''version'' \<noteq> JNat 1 then [''source adapter version must be 1''] else [])
       @ (if \<not> truthy (fld adapter ''id'') then [''source adapter id is required''] else [])
       @ (if \<not> is_array (fld adapter ''capabilities'') then [''source adapter capabilities must be an array''] else [])
       @ map (\<lambda>c. ''unsupported source capability: '' @ js_string h c) (filter (\<lambda>c. \<not> one_of SOURCE_CAPABILITIES c) caps)
       @ (if \<not> is_function (fld adapter ''readArtifact'') then [''readArtifact() is required''] else [])
       @ (if m then map (\<lambda>f. f @ ''() is required for mutation'')
            (filter (\<lambda>f. \<not> is_function (fld adapter f)) [''previewMutation'', ''applyMutation'', ''flushReceipt'']) else []))))"

text \<open>\<open>adapter.capabilities.includes(capability)\<close>, on an array or on a string.\<close>

definition provides :: "host \<Rightarrow> js \<Rightarrow> js \<Rightarrow> bool res" where
  "provides h caps capability = (case caps of
       JArr xs \<Rightarrow> Inr (js_includes xs capability)
     | JStr s \<Rightarrow> Inr (str_includes s (js_string h capability))
     | _ \<Rightarrow> bnd (dot caps ''includes'') (\<lambda>_. Inl (TypeError ''adapter.capabilities.includes is not a function'')))"

definition requireSourceMutation :: "host \<Rightarrow> js \<Rightarrow> js \<Rightarrow> js \<Rightarrow> unit res" where
  "requireSourceMutation h adapter capability boundary' =
     bnd (dot adapter ''capabilities'') (\<lambda>caps.
     bnd (provides h caps capability) (\<lambda>b.
     if \<not> b then fail (''source adapter '' @ js_string h (fld adapter ''id'') @ '' does not provide '' @ js_string h capability)
     else if \<not> one_of [''open-pr'', ''external-action''] (fld boundary' ''effective'')
     then fail (js_string h capability @ '' requires an open-pr or external-action boundary'')
     else Inr ()))"

section \<open>Plans and receipts\<close>

definition json_digest :: "host \<Rightarrow> (string \<times> js) list \<Rightarrow> string" where
  "json_digest h fs = sha256 h (the (json_text h (JObj fs)))"

record plan_args =
  pa_scope :: js
  pa_capability :: js
  pa_operation :: js
  pa_parameters :: js
  pa_boundary :: js
  pa_expected :: js
  pa_key :: js

definition plan_base :: "js \<Rightarrow> plan_args \<Rightarrow> (string \<times> js) list" where
  "plan_base adapter a = [(''version'', JNat 1), (''adapter'', fld adapter ''id''), (''scope'', pa_scope a),
     (''capability'', pa_capability a), (''operation'', pa_operation a), (''parameters'', pa_parameters a),
     (''actionBoundary'', pa_boundary a), (''expectedRevision'', pa_expected a), (''idempotencyKey'', pa_key a)]"

definition createSourceMutationPlan :: "host \<Rightarrow> js \<Rightarrow> plan_args \<Rightarrow> (string \<times> js) list res" where
  "createSourceMutationPlan h adapter a =
     bnd (requireSourceMutation h adapter (pa_capability a) (pa_boundary a)) (\<lambda>_.
     if \<not> truthy (pa_operation a) \<or> \<not> truthy (pa_key a) then fail ''operation and idempotencyKey are required''
     else if \<not> truthy (pa_expected a) then fail ''source mutation preview requires an expected revision''
     else Inr (plan_base adapter a @ [(''token'', JStr (json_digest h (plan_base adapter a)))]))"

definition validateSourceMutationPlan :: "host \<Rightarrow> js \<Rightarrow> js \<Rightarrow> js \<Rightarrow> unit res" where
  "validateSourceMutationPlan h plan adapter confirm =
     bnd (if fld plan ''version'' \<noteq> JNat 1 then Inr True
          else bnd (dot adapter ''id'') (\<lambda>i. Inr (\<not> js_eq (fld plan ''adapter'') i))) (\<lambda>other.
     if other then fail ''source mutation plan does not match the adapter''
     else let token = fld plan ''token''; base = obj_del (own_props plan) ''token'' in
       if \<not> js_eq confirm token \<or> \<not> js_eq (JStr (json_digest h base)) token
       then fail ''source mutation confirmation or plan digest is invalid''
       else requireSourceMutation h adapter (fld plan ''capability'') (fld plan ''actionBoundary''))"

definition createSourceMutationReceipt :: "host \<Rightarrow> js \<Rightarrow> js \<Rightarrow> js \<Rightarrow> (string \<times> js) list res" where
  "createSourceMutationReceipt h plan result observed =
     bnd (dot plan ''adapter'') (\<lambda>adapter.
     let base = [(''version'', JNat 1), (''adapter'', adapter), (''scope'', fld plan ''scope''),
           (''operation'', fld plan ''operation''), (''planToken'', fld plan ''token''),
           (''idempotencyKey'', fld plan ''idempotencyKey''), (''expectedRevision'', fld plan ''expectedRevision''),
           (''observedRevision'', observed), (''result'', result), (''status'', JStr ''applied'')]
     in Inr (base @ [(''receiptToken'', JStr (json_digest h base))]))"

definition sourceMutationIdempotencyKey :: "host \<Rightarrow> js \<Rightarrow> js \<Rightarrow> string" where
  "sourceMutationIdempotencyKey h operation parameters =
     json_digest h [(''operation'', operation), (''parameters'', parameters)]"

section \<open>Confirmed mutations\<close>

lemma requireSourceMutation_Inr:
  "requireSourceMutation h adapter c b = Inr () \<longleftrightarrow> \<not> nullish adapter \<and> provides h (fld adapter ''capabilities'') c = Inr True
     \<and> fld b ''effective'' \<in> {JStr ''open-pr'', JStr ''external-action''}"
proof -
  have "one_of [''open-pr'', ''external-action''] v \<longleftrightarrow> v \<in> {JStr ''open-pr'', JStr ''external-action''}" for v
    by (cases v) (auto simp: one_of_def)
  then have b: "one_of [''open-pr'', ''external-action''] (fld b ''effective'')
    \<longleftrightarrow> fld b ''effective'' \<in> {JStr ''open-pr'', JStr ''external-action''}" .
  define ok where "ok \<longleftrightarrow> fld b ''effective'' \<in> {JStr ''open-pr'', JStr ''external-action''}"
  show ?thesis
    unfolding requireSourceMutation_def bnd_Inr if_Inl_Inr b dot_Inr ok_def [symmetric] by auto
qed

lemma validateSourceMutationPlan_Inr:
  assumes "validateSourceMutationPlan h plan adapter confirm = Inr ()"
  shows "js_eq (fld plan ''adapter'') (fld adapter ''id'')" and "confirm = JStr (json_digest h (obj_del (own_props plan) ''token''))"
    and "requireSourceMutation h adapter (fld plan ''capability'') (fld plan ''actionBoundary'') = Inr ()"
  using assms unfolding validateSourceMutationPlan_def Let_def bnd_Inr if_Inl_Inr
  by (auto simp: dot_Inr split: if_splits)

text \<open>
  A confirmation releases one plan: two plans accepted under the same confirmation have the same
  fields, unless the hash collides, and what is released is a capability the adapter provides, at
  a boundary that allows outside effects, on the adapter the plan was made for.
\<close>

theorem confirmation_binds_plan:
  assumes "validateSourceMutationPlan h (JObj p) adapter confirm = Inr ()"
    and "validateSourceMutationPlan h (JObj q) adapter' confirm = Inr ()"
    and "plain (JObj p)" and "plain (JObj q)"
    and no_collision: "json_digest h (obj_del p ''token'') = json_digest h (obj_del q ''token'')
      \<longrightarrow> json_text h (JObj (obj_del p ''token'')) = json_text h (JObj (obj_del q ''token''))"
  shows "obj_del p ''token'' = obj_del q ''token'' \<and> fld (JObj p) ''adapter'' = fld adapter ''id''
    \<and> provides h (fld adapter ''capabilities'') (fld (JObj p) ''capability'') = Inr True
    \<and> fld (fld (JObj p) ''actionBoundary'') ''effective'' \<in> {JStr ''open-pr'', JStr ''external-action''}"
proof (intro conjI)
  note P = validateSourceMutationPlan_Inr [OF assms(1)] and Q = validateSourceMutationPlan_Inr [OF assms(2)]
  have plain: "plain (JObj (obj_del fs k))" if "plain (JObj fs)" for fs k
    using that distinct_obj_del [of fs k] by (auto simp: obj_del_def)
  from P(2) Q(2) no_collision have "json_text h (JObj (obj_del p ''token'')) = json_text h (JObj (obj_del q ''token''))"
    by (simp add: own_props_def)
  then have "pr (JObj (obj_del p ''token'')) = pr (JObj (obj_del q ''token''))"
    using json_text_plain [OF plain [OF assms(3)], of h "''token''"] json_text_plain [OF plain [OF assms(4)], of h "''token''"] by simp
  from pr_inj [OF plain [OF assms(3)] plain [OF assms(4)] this]
  show "obj_del p ''token'' = obj_del q ''token''" by simp
  show "fld (JObj p) ''adapter'' = fld adapter ''id''" using P(1) by (rule js_eq_imp_eq)
  show "provides h (fld adapter ''capabilities'') (fld (JObj p) ''capability'') = Inr True"
    "fld (fld (JObj p) ''actionBoundary'') ''effective'' \<in> {JStr ''open-pr'', JStr ''external-action''}"
    using P(3) unfolding requireSourceMutation_Inr by blast+
qed

text \<open>
  A plan that was written to a file as JSON and read back is released by its own token and by
  nothing else.
\<close>

theorem mutation_plan_round_trip:
  assumes "createSourceMutationPlan h adapter a = Inr plan" and "stored (JObj plan) = Some plan'"
    and "fld adapter ''id'' = JStr i" and "pa_capability a = JStr c" and "pa_boundary a = JObj b" and "distinct (map fst b)"
  shows "validateSourceMutationPlan h plan' adapter confirm =
    (if confirm = JStr (json_digest h (plan_base adapter a)) then Inr ()
     else fail ''source mutation confirmation or plan digest is invalid'')"
proof -
  let ?base = "plan_base adapter a"
  let ?t = "JStr (json_digest h ?base)"
  let ?kept = "\<lambda>(k, v). case stored v of None \<Rightarrow> [] | Some y \<Rightarrow> [(k, y)]"
  from assms(1) have plan: "plan = ?base @ [(''token'', ?t)]"
    and need: "requireSourceMutation h adapter (pa_capability a) (pa_boundary a) = Inr ()"
    by (auto simp: createSourceMutationPlan_def if_Inl_Inr)
  define gs where "gs = concat (map ?kept ?base)"
  have gs: "stored (JObj ?base) = Some (JObj gs)" by (simp add: gs_def)
  have plan': "plan' = JObj (gs @ [(''token'', ?t)])" using assms(2) by (simp add: plan gs_def)
  have keys: "distinct (map fst ?base)" "''token'' \<notin> set (map fst ?base)" by (simp_all add: plan_base_def)
  note lookup = stored_JObj_map_of [OF gs keys(1)]
  have "map_of gs ''token'' = None" unfolding lookup by (simp add: plan_base_def)
  then have "''token'' \<notin> fst ` set gs" by (simp add: map_of_eq_None_iff)
  then have del: "obj_del (gs @ [(''token'', ?t)]) ''token'' = gs"
    by (auto simp: obj_del_def filter_id_conv image_iff)
  have dig: "json_digest h gs = json_digest h ?base" unfolding json_digest_def json_text_stored [OF gs] ..
  obtain b' where b': "stored (JObj b) = Some (JObj b')" by simp
  have f: "fld plan' k = (case Option.bind (map_of ?base k) stored of Some v \<Rightarrow> v | None \<Rightarrow> if k = ''token'' then ?t else JUndef)"
    if "k \<notin> set proto_names" for k
    using that lookup [of k] by (auto simp: plan' fld_def obj_get_def map_add_def split: option.split)
  have flds: "fld plan' ''version'' = JNat 1" "fld plan' ''adapter'' = JStr i" "fld plan' ''capability'' = JStr c"
    "fld plan' ''actionBoundary'' = JObj b'" "fld plan' ''token'' = ?t"
    using b' by (subst f; simp add: plan_base_def proto_names_def assms)+
  have "fld (JObj b') ''effective'' = fld (JObj b) ''effective''"
    using need stored_JObj_map_of [OF b' assms(6), of "''effective''"] unfolding requireSourceMutation_Inr assms(5)
    by (auto simp: fld_def obj_get_def proto_names_def split: option.splits)
  then have "requireSourceMutation h adapter (JStr c) (JObj b') = Inr ()"
    using need by (simp add: requireSourceMutation_Inr assms)
  moreover have "dot adapter ''id'' = Inr (JStr i)" using need assms(3) by (simp add: requireSourceMutation_Inr dot_Inr)
  ultimately show ?thesis
    unfolding validateSourceMutationPlan_def flds Let_def by (cases confirm) (auto simp: plan' own_props_def del dig)
qed

section \<open>A sample mutation\<close>

definition sample_adapter :: js where
  "sample_adapter = JObj [(''id'', JStr ''github''), (''capabilities'', jstrs [''mutate-comments''])]"

definition sample_mutation :: plan_args where
  "sample_mutation = \<lparr>pa_scope = JStr ''o/r'', pa_capability = JStr ''mutate-comments'', pa_operation = JStr ''comment'',
     pa_parameters = JObj [(''body'', JStr ''hi'')], pa_boundary = JObj [(''effective'', JStr ''open-pr'')],
     pa_expected = JStr ''r1'', pa_key = JStr ''k1''\<rparr>"

lemma sample_adapter_flds: "fld sample_adapter ''id'' = JStr ''github''" "\<not> nullish sample_adapter"
  "provides h (fld sample_adapter ''capabilities'') (JStr ''mutate-comments'') = Inr True"
  by (simp_all add: sample_adapter_def fld_def obj_get_def provides_def js_includes_def)

lemma sample_plan_created:
  "createSourceMutationPlan const_host sample_adapter sample_mutation
   = Inr (plan_base sample_adapter sample_mutation @ [(''token'', JStr (json_digest const_host (plan_base sample_adapter sample_mutation)))])"
proof -
  have "requireSourceMutation const_host sample_adapter (pa_capability sample_mutation) (pa_boundary sample_mutation) = Inr ()"
    by (simp add: requireSourceMutation_Inr sample_mutation_def sample_adapter_flds) (simp add: fld_def obj_get_def)
  then show ?thesis by (simp add: createSourceMutationPlan_def sample_mutation_def)
qed

theorem mutation_plan_round_trip_witness:
  "\<exists>plan plan'. createSourceMutationPlan const_host sample_adapter sample_mutation = Inr plan \<and> stored (JObj plan) = Some plan'
     \<and> validateSourceMutationPlan const_host plan' sample_adapter (JStr (json_digest const_host (plan_base sample_adapter sample_mutation))) = Inr ()
     \<and> (\<exists>e. validateSourceMutationPlan const_host plan' sample_adapter JNull = Inl e)"
proof -
  obtain plan where plan: "createSourceMutationPlan const_host sample_adapter sample_mutation = Inr plan"
    using sample_plan_created by blast
  obtain plan' where plan': "stored (JObj plan) = Some plan'" by simp
  note V = mutation_plan_round_trip [OF plan plan' sample_adapter_flds(1), of "''mutate-comments''" "[(''effective'', JStr ''open-pr'')]"]
  from V plan plan' show ?thesis by (auto simp: sample_mutation_def)
qed

theorem confirmation_binds_plan_witness:
  "let base = plan_base sample_adapter sample_mutation; token = JStr (json_digest const_host base) in
     obj_del (base @ [(''token'', token)]) ''token'' = obj_del ((''token'', token) # base) ''token''
     \<and> provides const_host (fld sample_adapter ''capabilities'') (fld (JObj (base @ [(''token'', token)])) ''capability'') = Inr True"
proof -
  let ?base = "plan_base sample_adapter sample_mutation"
  let ?t = "JStr (json_digest const_host ?base)"
  have base: "?base = [(''version'', JNat 1), (''adapter'', JStr ''github''), (''scope'', JStr ''o/r''),
      (''capability'', JStr ''mutate-comments''), (''operation'', JStr ''comment''), (''parameters'', JObj [(''body'', JStr ''hi'')]),
      (''actionBoundary'', JObj [(''effective'', JStr ''open-pr'')]), (''expectedRevision'', JStr ''r1''), (''idempotencyKey'', JStr ''k1'')]"
    by (simp add: plan_base_def sample_mutation_def sample_adapter_flds)
  have req: "requireSourceMutation const_host sample_adapter (JStr ''mutate-comments'') (JObj [(''effective'', JStr ''open-pr'')]) = Inr ()"
    by (simp add: requireSourceMutation_Inr sample_adapter_flds) (simp add: fld_def obj_get_def)
  have id: "dot sample_adapter ''id'' = Inr (JStr ''github'')" by (simp add: dot_Inr sample_adapter_flds)
  have del: "obj_del (?base @ [(''token'', ?t)]) ''token'' = ?base" "obj_del ((''token'', ?t) # ?base) ''token'' = ?base"
    unfolding base by (simp_all add: obj_del_def)
  have ok: "validateSourceMutationPlan const_host (JObj fs) sample_adapter ?t = Inr ()"
    if "obj_del fs ''token'' = ?base" and "map_of fs = map_of (?base @ [(''token'', ?t)])" for fs
  proof -
    have "fld (JObj fs) k = fld (JObj (?base @ [(''token'', ?t)])) k" for k using that(2) by (simp add: fld_def obj_get_def)
    then show ?thesis unfolding validateSourceMutationPlan_def Let_def own_props_def js.case that(1)
      by (simp add: id, simp add: base fld_def obj_get_def req)
  qed
  have maps: "map_of ((''token'', ?t) # ?base) = map_of (?base @ [(''token'', ?t)])"
    unfolding base by (auto simp: fun_eq_iff)
  have pl: "plain (JObj (?base @ [(''token'', ?t)]))" "plain (JObj ((''token'', ?t) # ?base))"
    unfolding base by (simp_all add: rat_int_def)
  note B = confirmation_binds_plan [OF ok [OF del(1) refl] ok [OF del(2) maps] pl]
  show ?thesis unfolding Let_def using B unfolding del by simp
qed

end
