(* ===== verification/Collaboration.thy ===== *)
theory Collaboration
  imports Execution
begin

text \<open>
  Collaboration intents (src/lib/core/collaboration-intent.mjs): how many agents and humans a piece
  of work gets. A requested mode is replaced by the human-gated one on sensitive work, and surfaces
  of high consequence get the strongest capability tier. The intent carries an execution intent
  that a provider is later bound to.
\<close>

section \<open>Policy\<close>

definition CAPABILITY_TIERS :: "string list" where
  "CAPABILITY_TIERS = [''lightweight'', ''balanced'', ''deep-reasoning'', ''architect-lead'']"

text \<open>\<open>CONSEQUENCE_SURFACE_RE.test(s)\<close>: any of the words, in any case, anywhere.\<close>

definition consequence_words :: "string list" where
  "consequence_words = [''storage'', ''lock'', ''locking'', ''alias'', ''aliasing'', ''security'', ''auth'', ''crypto'',
     ''migration'', ''schema'', ''persistence'', ''toctou'']"

definition consequence_surface :: "string \<Rightarrow> bool" where
  "consequence_surface s = list_ex (str_includes (js_lower s)) consequence_words"

definition COLLABORATION_MODES :: "string list" where
  "COLLABORATION_MODES = [''auto-minimal'', ''single-agent'', ''advisory'', ''sparring'', ''council'', ''parallel-discovery'',
     ''spike'', ''human-gated'']"

definition SENSITIVE_SURFACES :: "string list" where
  "SENSITIVE_SURFACES = [''security'', ''auth'', ''data'', ''infra'', ''billing'']"

definition COUNCIL_HELPERS :: "string list" where
  "COUNCIL_HELPERS = [''risk-scout'', ''implementation-strategist'', ''testability-scout'', ''docs-impact-scout'']"

definition DISCOVERY_HELPERS :: "string list" where
  "DISCOVERY_HELPERS = [''requirements-scout'', ''architecture-scout'']"

definition split_list :: "host \<Rightarrow> js \<Rightarrow> js list" where
  "split_list h v = (case v of JArr xs \<Rightarrow> xs
     | _ \<Rightarrow> if \<not> truthy v then []
            else map JStr (filter (\<lambda>s. s \<noteq> []) (map js_trim (split_on (CHR '','') (js_string h v)))))"

definition bad_strings :: "js \<Rightarrow> bool" where
  "bad_strings v = (v \<noteq> JUndef \<and> (\<not> is_array v \<or> list_ex (\<lambda>x. \<not> is_string x \<or> \<not> truthy x) (elems v)))"

definition bad_limit :: "js \<Rightarrow> bool" where
  "bad_limit v = (v \<noteq> JUndef \<and> (case js_int v of None \<Rightarrow> True | Some n \<Rightarrow> n < 1))"

definition validateCollaborationPolicy :: "js \<Rightarrow> string list res" where
  "validateCollaborationPolicy policy0 =
     (let policy = js_default policy0 (JObj []) in
      bnd (dot policy ''sensitiveSurfaces'') (\<lambda>_.
      Inr (map (\<lambda>f. f @ '' must be an array of non-empty strings'') (filter (\<lambda>f. bad_strings (fld policy f))
             [''sensitiveSurfaces'', ''councilHelpers'', ''discoveryHelpers'', ''fallbackModes''])
         @ map (\<lambda>f. f @ '' must be a positive integer'') (filter (\<lambda>f. bad_limit (fld policy f)) [''maxDelegates'', ''maxDepth'', ''maxIterations''])
         @ (if is_array (fld policy ''fallbackModes'')
              \<and> list_ex (\<lambda>x. \<not> one_of [''sequential'', ''manual''] x) (elems (fld policy ''fallbackModes''))
            then [''fallbackModes contains an unsupported fallback''] else []))))"

section \<open>Choosing a mode\<close>

definition sensitive_work :: "js \<Rightarrow> js list \<Rightarrow> js \<Rightarrow> bool" where
  "sensitive_work prof surfaces policy = (prof = JStr ''high-assurance''
     \<or> list_ex (js_includes (map JStr SENSITIVE_SURFACES @ elems (fld policy ''sensitiveSurfaces''))) surfaces)"

text \<open>The choice for \<open>auto-minimal\<close>.\<close>

definition minimal_mode :: "js \<Rightarrow> string" where
  "minimal_mode o0 =
     (let flag = (\<lambda>k. truthy (js_default (fld o0 k) (JBool False))); is = (\<lambda>k d v. js_default (fld o0 k) (JStr d) = JStr v) in
      if flag ''isolatedSpike'' then ''spike''
      else if flag ''broadDiscovery'' \<or> is ''effort'' ''medium'' ''high'' then ''parallel-discovery''
      else if is ''uncertainty'' ''medium'' ''high'' \<or> is ''risk'' ''medium'' ''high'' then ''council''
      else if is ''profile'' ''standard'' ''standard'' \<or> is ''risk'' ''medium'' ''medium'' \<or> is ''uncertainty'' ''medium'' ''medium''
      then ''advisory''
      else ''single-agent'')"

definition selectCollaborationMode :: "host \<Rightarrow> js \<Rightarrow> string res" where
  "selectCollaborationMode h options0 =
     (let o0 = js_default options0 (JObj []); opt = (\<lambda>k d. js_default (fld o0 k) d);
          requested = opt ''requestedMode'' (JStr ''auto-minimal''); policy = opt ''policy'' (JObj []) in
      bnd (dot o0 ''requestedMode'') (\<lambda>_.
      bnd (validateCollaborationPolicy policy) (\<lambda>errors.
      if errors \<noteq> [] then fail (''invalid collaboration policy: '' @ js_join ''; '' errors)
      else if \<not> one_of COLLABORATION_MODES requested
      then fail (''collaboration mode must be one of: '' @ js_join '', '' COLLABORATION_MODES)
      else Inr (if sensitive_work (opt ''profile'' (JStr ''standard'')) (split_list h (opt ''changeSurface'' (JArr []))) policy
        then ''human-gated''
        else if requested \<noteq> JStr ''auto-minimal'' then str_of requested else minimal_mode o0))))"

definition rolesForMode :: "string \<Rightarrow> js \<Rightarrow> js" where
  "rolesForMode mode policy =
     (if mode = ''advisory'' then jstrs [''risk-scout'']
      else if mode = ''sparring'' then jstrs [''adversarial-reviewer'']
      else if mode = ''council'' then coal (fld policy ''councilHelpers'') (jstrs COUNCIL_HELPERS)
      else if mode = ''parallel-discovery'' then coal (fld policy ''discoveryHelpers'') (jstrs DISCOVERY_HELPERS)
      else if mode = ''spike'' then jstrs [''spike-implementer'']
      else if mode = ''human-gated'' then jstrs [''human-reviewer'']
      else JArr [])"

definition reasonForMode :: "string \<Rightarrow> string" where
  "reasonForMode mode =
     (if mode = ''single-agent'' then ''low uncertainty and low coordination value; single-agent path is sufficient''
      else if mode = ''advisory'' then ''standard or medium-risk work benefits from one focused read-only second opinion''
      else if mode = ''sparring''
      then ''pre-implementation contract specification benefits from iterative adversarial verification before code''
      else if mode = ''council'' then ''high uncertainty or risk warrants role-local scout perspectives before synthesis''
      else if mode = ''parallel-discovery'' then ''broad/high-effort scope warrants bounded read-only discovery fanout''
      else if mode = ''spike'' then ''implementation uncertainty warrants an isolated experiment before integration''
      else if mode = ''human-gated'' then ''sensitive or high-assurance surface requires human authority''
      else ''auto-minimal collaboration selection'')"

section \<open>Creating an intent\<close>

definition grandfathered :: "js \<Rightarrow> bool" where
  "grandfathered options = (case js_int (fld options ''currentPhase'') of Some n \<Rightarrow> 4 \<le> n | None \<Rightarrow> False)"

definition matches_consequence :: "host \<Rightarrow> js \<Rightarrow> bool" where
  "matches_consequence h options = (\<not> grandfathered options \<and> (fld options ''profile'' = JStr ''high-assurance''
     \<or> list_ex (\<lambda>s. consequence_surface (js_string h s))
         (split_list h (fld options ''changeSurface'') @ split_list h (fld options ''touchSurface'') @ split_list h (fld options ''riskTags''))))"

definition capability_tier :: "bool \<Rightarrow> string \<Rightarrow> js \<Rightarrow> js" where
  "capability_tier consequence mode options =
     (let wanted = fld options ''capabilityTier''; light = one_of [''bounded'', ''light''] (fld options ''profile'') in
      if \<not> consequence \<and> one_of CAPABILITY_TIERS wanted then wanted
      else if consequence \<or> mode = ''council'' \<or> mode = ''human-gated'' then JStr ''architect-lead''
      else if mode = ''sparring'' \<or> fld options ''risk'' = JStr ''high'' then JStr ''deep-reasoning''
      else if mode = ''single-agent'' \<and> light \<and> fld options ''risk'' = JStr ''low'' then JStr ''lightweight''
      else coal wanted (JStr ''balanced''))"

definition need :: "string \<Rightarrow> bool \<Rightarrow> (string \<times> js) list \<Rightarrow> js" where
  "need i required rest = JObj ([(''id'', JStr i), (''required'', JBool required)] @ rest)"

definition mode_requirements :: "string \<Rightarrow> js list" where
  "mode_requirements mode =
     (let sequential = [(''fallback'', JStr ''sequential'')]; full = [(''parameters'', JObj [(''minimumFidelity'', JStr ''full'')])] in
      [need ''workflow-orchestration'' True sequential]
      @ (if mode \<in> {''advisory'', ''council'', ''sparring''} then [need ''delegated-work'' True sequential] else [])
      @ (if mode = ''parallel-discovery'' then [need ''delegated-work'' True sequential, need ''parallel-fanout'' True sequential] else [])
      @ (if mode = ''spike'' then [need ''delegated-work'' True full, need ''isolated-workspace'' True full] else [])
      @ (if mode = ''human-gated'' then [need ''structured-result'' False []] else []))"

definition intent_controls :: "js \<Rightarrow> js list" where
  "intent_controls options = map JStr ([''single-writer'', ''authority-may-only-narrow'']
     @ (if fld options ''profile'' = JStr ''high-assurance'' then [''review-independence'', ''human-approval''] else []))"

definition intent_limits :: "string \<Rightarrow> js \<Rightarrow> js \<Rightarrow> js \<Rightarrow> js" where
  "intent_limits mode roles options policy =
     (let lim = (\<lambda>k d. coal (fld options k) (coal (fld policy k) d)) in
      JObj [(''maxDelegates'', lim ''maxDelegates'' (if mode = ''council'' then fld roles ''length''
               else if mode = ''parallel-discovery'' then JNat 2 else JNat 1)),
            (''maxDepth'', lim ''maxDepth'' (JNat 1)), (''maxIterations'', lim ''maxIterations'' (JNat 3))])"

definition validateCollaborationIntent :: "host \<Rightarrow> js \<Rightarrow> string list res" where
  "validateCollaborationIntent h intent =
     bnd (validateExecutionIntent h (fld intent ''execution'')) (\<lambda>errors.
     Inr ((if \<not> js_eq (fld intent ''version'') (JNat 1) then [''version must be 1''] else [])
       @ (if \<not> one_of COLLABORATION_MODES (fld intent ''mode'') then [''mode is not supported''] else [])
       @ (if fld intent ''capabilityTier'' \<noteq> JUndef \<and> \<not> one_of CAPABILITY_TIERS (fld intent ''capabilityTier'')
          then [''capabilityTier is not supported''] else [])
       @ (if fld intent ''writerPolicy'' \<noteq> JStr ''single-writer'' then [''writerPolicy must be single-writer''] else [])
       @ (if \<not> is_array (fld intent ''participantRoles'') then [''participantRoles must be an array''] else [])
       @ map (\<lambda>e. ''execution.'' @ e) errors))"

definition collaboration_record :: "host \<Rightarrow> js \<Rightarrow> js \<Rightarrow> string \<Rightarrow> js \<Rightarrow> (string \<times> js) list" where
  "collaboration_record h options policy mode execution =
     (let opt = (\<lambda>k d. coal (fld options k) d); roles = rolesForMode mode policy in
      [(''version'', JNat 1), (''issueNumber'', opt ''issueNumber'' JNull), (''mode'', JStr mode),
       (''reason'', JStr (reasonForMode mode)), (''profile'', opt ''profile'' (JStr ''standard'')),
       (''risk'', opt ''risk'' (JStr ''medium'')), (''effort'', opt ''effort'' (JStr ''medium'')),
       (''uncertainty'', opt ''uncertainty'' (JStr ''medium'')),
       (''capabilityTier'', capability_tier (matches_consequence h options) mode options),
       (''consequenceFloor'', JStr (if grandfathered options then ''grandfathered''
          else if matches_consequence h options then ''high-consequence'' else ''standard'')),
       (''changeSurface'', JArr (split_list h (fld options ''changeSurface''))),
       (''touchSurface'', JArr (split_list h (fld options ''touchSurface''))),
       (''dependsOn'', JArr (split_list h (fld options ''dependsOn''))),
       (''participantRoles'', roles), (''writerPolicy'', JStr ''single-writer''), (''humanGate'', JBool (mode = ''human-gated'')),
       (''synthesisRequired'', JBool (num_less (Fin 0) (num_of (fld roles ''length'')))), (''execution'', execution),
       (''fallback'', JObj [(''allowed'', JBool (mode \<noteq> ''human-gated'' \<and> mode \<noteq> ''spike'')),
          (''modes'', if mode = ''single-agent'' then jstrs [''manual'']
             else coal (fld policy ''fallbackModes'') (jstrs [''sequential'', ''manual'']))])])"

definition createCollaborationIntent :: "host \<Rightarrow> js \<Rightarrow> (string \<times> js) list res" where
  "createCollaborationIntent h options0 =
     (let options = js_default options0 (JObj []) in
      bnd (dot options ''changeSurface'') (\<lambda>cs.
      if matches_consequence h options \<and> truthy (fld options ''enforceConsequenceFloor'')
         \<and> (one_of [''bounded'', ''light''] (fld options ''profile'') \<or> fld options ''capabilityTier'' = JStr ''lightweight'')
      then fail ''Consequence floor violation: storage/locking/aliasing/security surfaces cannot use bounded or lightweight tier''
      else bnd (selectCollaborationMode h (JObj (obj_spread (own_props options) [(''changeSurface'', JArr (split_list h cs))]))) (\<lambda>mode.
        let policy = coal (fld options ''policy'') (JObj []) in
        bnd (validateCollaborationPolicy policy) (\<lambda>errors.
        if errors \<noteq> [] then fail (''invalid collaboration policy: '' @ js_join ''; '' errors)
        else bnd (if truthy (fld options ''issueNumber'')
              then bnd (unitIdentity h JUndef (fld options ''repo'') (fld options ''issueNumber'')) (\<lambda>u. Inr (JStr u)) else Inr JNull) (\<lambda>subject.
          bnd (createExecutionIntent subject (JArr (mode_requirements mode)) (JArr (intent_controls options)) JUndef
                (intent_limits mode (rolesForMode mode policy) options policy)) (\<lambda>execution.
          let intent = collaboration_record h options policy mode execution in
          bnd (validateCollaborationIntent h (JObj intent)) (\<lambda>found.
          if found \<noteq> [] then fail (''invalid collaboration intent: '' @ js_join ''; '' found) else Inr intent)))))))"

section \<open>The floors of an intent\<close>

text \<open>The requirements and controls the code writes down always form a valid execution intent.\<close>

lemma mode_requirements_valid: "requirement_errors h 0 [] (map normalizeIntentRequirement (mode_requirements mode)) = []"
  by (simp add: mode_requirements_def need_def normalizeIntentRequirement_def Let_def fld_def obj_get_def own_props_def coal_def
      one_of_def EXECUTION_INTENTS_def js_includes_def same_zero_def proto_names_def)

lemma controls_valid: "c \<in> set (js_dedup (intent_controls options)) \<Longrightarrow> one_of CONTROL_REQUIREMENTS c"
  unfolding set_js_dedup intent_controls_def by (auto simp: one_of_def CONTROL_REQUIREMENTS_def split: if_splits)

lemma execution_created:
  "\<exists>e. createExecutionIntent subject (JArr (mode_requirements mode)) (JArr (intent_controls options)) JUndef limits = Inr e
     \<and> validateExecutionIntent h e = Inr []"
proof -
  let ?e = "JObj [(''version'', JNat 1), (''subject'', js_default subject JNull),
      (''requirements'', JArr (map normalizeIntentRequirement (mode_requirements mode))),
      (''controls'', JArr (js_dedup (intent_controls options))), (''requiredFacets'', JArr (js_dedup (map JStr [''execution'', ''evidence'']))),
      (''limits'', JObj (own_props (js_default limits (JObj []))))]"
  have "createExecutionIntent subject (JArr (mode_requirements mode)) (JArr (intent_controls options)) JUndef limits = Inr ?e"
    by (simp add: createExecutionIntent_def js_default_def set_items_def js_iter_def)
  moreover have "validateExecutionIntent h ?e = Inr []"
  proof -
    have "filter (\<lambda>c. \<not> one_of CONTROL_REQUIREMENTS c) (js_dedup (intent_controls options)) = []"
      using controls_valid by (auto simp: filter_empty_conv)
    then show ?thesis
      by (simp add: validateExecutionIntent_def fld_def obj_get_def coal_def entries_def js_iter_def mode_requirements_valid del: bnd_Inr)
  qed
  ultimately show ?thesis by blast
qed

lemma selected_mode:
  assumes "selectCollaborationMode h (JObj fs) = Inr mode"
  shows "one_of COLLABORATION_MODES (JStr mode)"
    and "sensitive_work (js_default (fld (JObj fs) ''profile'') (JStr ''standard''))
      (split_list h (js_default (fld (JObj fs) ''changeSurface'') (JArr []))) (js_default (fld (JObj fs) ''policy'') (JObj []))
      \<Longrightarrow> mode = ''human-gated''"
    and "fld (JObj fs) ''policy'' \<noteq> JNull"
proof -
  let ?r = "js_default (fld (JObj fs) ''requestedMode'') (JStr ''auto-minimal'')"
  let ?p = "js_default (fld (JObj fs) ''policy'') (JObj [])"
  let ?s = "sensitive_work (js_default (fld (JObj fs) ''profile'') (JStr ''standard''))
      (split_list h (js_default (fld (JObj fs) ''changeSurface'') (JArr []))) ?p"
  have o: "js_default (JObj fs) (JObj []) = JObj fs" by (simp add: js_default_def)
  from assms obtain e where pol: "validateCollaborationPolicy ?p = Inr e" and one: "one_of COLLABORATION_MODES ?r"
    and mode: "mode = (if ?s then ''human-gated'' else if ?r \<noteq> JStr ''auto-minimal'' then str_of ?r else minimal_mode (JObj fs))"
    unfolding selectCollaborationMode_def Let_def o bnd_Inr if_Inl_Inr sum.inject by blast
  have min: "minimal_mode (JObj fs) \<in> {''spike'', ''parallel-discovery'', ''council'', ''advisory'', ''single-agent''}"
    by (simp add: minimal_mode_def Let_def)
  show "one_of COLLABORATION_MODES (JStr mode)"
  proof (cases "?s \<or> ?r = JStr ''auto-minimal''")
    case True
    then have "mode \<in> {''human-gated'', ''spike'', ''parallel-discovery'', ''council'', ''advisory'', ''single-agent''}"
      using mode min by (simp split: if_splits)
    then show ?thesis by (auto simp: one_of_def COLLABORATION_MODES_def)
  next
    case False
    with mode one show ?thesis by (auto simp: one_of_def split: js.splits)
  qed
  show "fld (JObj fs) ''policy'' \<noteq> JNull"
    using pol by (auto simp: validateCollaborationPolicy_def js_default_def dot_def Let_def)
  show "mode = ''human-gated''" if ?s using mode that by simp
qed

lemma fld_collaboration:
  defines "r \<equiv> \<lambda>h options policy mode execution. JObj (collaboration_record h options policy mode execution)"
  shows "fld (r h options policy mode execution) ''version'' = JNat 1"
    and "fld (r h options policy mode execution) ''mode'' = JStr mode"
    and "fld (r h options policy mode execution) ''capabilityTier'' = capability_tier (matches_consequence h options) mode options"
    and "fld (r h options policy mode execution) ''writerPolicy'' = JStr ''single-writer''"
    and "fld (r h options policy mode execution) ''participantRoles'' = rolesForMode mode policy"
    and "fld (r h options policy mode execution) ''humanGate'' = JBool (mode = ''human-gated'')"
    and "fld (r h options policy mode execution) ''execution'' = execution"
    and "fld (fld (r h options policy mode execution) ''fallback'') ''allowed'' = JBool (mode \<noteq> ''human-gated'' \<and> mode \<noteq> ''spike'')"
  by (simp_all add: r_def collaboration_record_def Let_def fld_def obj_get_def)

lemma capability_tier_cases:
  "capability_tier True mode options = JStr ''architect-lead''"
  "capability_tier c mode options \<noteq> JUndef"
proof -
  show "capability_tier True mode options = JStr ''architect-lead''" by (simp add: capability_tier_def Let_def)
  have "coal (fld options ''capabilityTier'') (JStr ''balanced'') \<noteq> JUndef" by (auto simp: coal_def)
  moreover have "one_of CAPABILITY_TIERS v \<Longrightarrow> v \<noteq> JUndef" for v by (auto simp: one_of_def)
  ultimately show "capability_tier c mode options \<noteq> JUndef" by (simp add: capability_tier_def Let_def)
qed

lemma sensitive_default:
  assumes "sensitive_work p surfaces q"
  shows "sensitive_work (js_default p (JStr ''standard'')) surfaces (js_default q (JObj []))"
proof -
  have "elems (fld (js_default q (JObj [])) k) = elems (fld q k)" for k
    by (simp add: js_default_def fld_def obj_get_def)
  moreover have "p = JStr ''high-assurance'' \<Longrightarrow> js_default p (JStr ''standard'') = p" by (simp add: js_default_def)
  ultimately show ?thesis using assms unfolding sensitive_work_def by auto
qed

text \<open>The surfaces handed on to the choice of the mode are the listed ones.\<close>

lemma selected_sensitive:
  assumes "selectCollaborationMode h (JObj (obj_spread os [(''changeSurface'', JArr surfaces)])) = Inr mode"
    and "sensitive_work (js_default (fld (JObj os) ''profile'') (JStr ''standard'')) surfaces
      (js_default (fld (JObj os) ''policy'') (JObj []))"
  shows "mode = ''human-gated''"
proof -
  let ?fs = "obj_spread os [(''changeSurface'', JArr surfaces)]"
  have "fld (JObj ?fs) k = fld (JObj os) k" if "k \<noteq> ''changeSurface''" for k
    using that by (simp add: fld_def obj_get_def map_of_obj_spread)
  then have same: "fld (JObj ?fs) ''profile'' = fld (JObj os) ''profile''" "fld (JObj ?fs) ''policy'' = fld (JObj os) ''policy''"
    by simp_all
  have "fld (JObj ?fs) ''changeSurface'' = JArr surfaces" by (simp add: fld_def obj_get_def map_of_obj_spread)
  then show ?thesis using selected_mode(2) [OF assms(1), unfolded same] assms(2)
    by (simp add: js_default_def [of "JArr _"] split_list_def [of h "JArr _"])
qed

text \<open>The steps a successful creation went through.\<close>

lemma createCollaborationIntent_Inr:
  assumes "createCollaborationIntent h (JObj os) = Inr intent"
  obtains mode subject execution where
    "selectCollaborationMode h (JObj (obj_spread os [(''changeSurface'', JArr (split_list h (fld (JObj os) ''changeSurface'')))])) = Inr mode"
    and "createExecutionIntent subject (JArr (mode_requirements mode)) (JArr (intent_controls (JObj os))) JUndef
        (intent_limits mode (rolesForMode mode (coal (fld (JObj os) ''policy'') (JObj []))) (JObj os) (coal (fld (JObj os) ''policy'') (JObj [])))
      = Inr execution"
    and "validateCollaborationIntent h (JObj intent) = Inr []"
    and "collaboration_record h (JObj os) (coal (fld (JObj os) ''policy'') (JObj [])) mode execution = intent"
proof -
  let ?o = "JObj os"
  let ?p = "coal (fld ?o ''policy'') (JObj [])"
  have def: "js_default ?o (JObj []) = ?o" "own_props ?o = os" by (simp_all add: js_default_def own_props_def)
  from assms obtain cs mode errors subject execution found where s: "cs = fld ?o ''changeSurface''"
    "selectCollaborationMode h (JObj (obj_spread os [(''changeSurface'', JArr (split_list h cs))])) = Inr mode"
    "createExecutionIntent subject (JArr (mode_requirements mode)) (JArr (intent_controls ?o)) JUndef
      (intent_limits mode (rolesForMode mode ?p) ?o ?p) = Inr execution"
    "validateCollaborationIntent h (JObj (collaboration_record h ?o ?p mode execution)) = Inr found" "\<not> found \<noteq> []"
    "collaboration_record h ?o ?p mode execution = intent"
    unfolding createCollaborationIntent_def Let_def def dot_Inr bnd_Inr if_Inl_Inr sum.inject by (elim exE conjE) (rule that)
  show thesis by (rule that [of mode subject execution]) (use s in simp_all)
qed

text \<open>
  The floors of a created intent: work on a sensitive surface or of high assurance waits for a
  human and allows no fallback whatever mode was asked for; a surface of high consequence gets the
  strongest tier whatever tier was asked for; the tier is one of the known ones, there is a single
  writer and the execution intent it carries is valid.
\<close>

theorem collaboration_floor:
  assumes "createCollaborationIntent h (JObj os) = Inr intent"
  shows "(sensitive_work (fld (JObj os) ''profile'') (split_list h (fld (JObj os) ''changeSurface'')) (fld (JObj os) ''policy'')
        \<longrightarrow> fld (JObj intent) ''mode'' = JStr ''human-gated'' \<and> fld (JObj intent) ''humanGate'' = JBool True
          \<and> fld (fld (JObj intent) ''fallback'') ''allowed'' = JBool False)
    \<and> (matches_consequence h (JObj os) \<longrightarrow> fld (JObj intent) ''capabilityTier'' = JStr ''architect-lead'')
    \<and> one_of CAPABILITY_TIERS (fld (JObj intent) ''capabilityTier'')
    \<and> fld (JObj intent) ''writerPolicy'' = JStr ''single-writer''
    \<and> validateExecutionIntent h (fld (JObj intent) ''execution'') = Inr []"
proof (intro conjI impI)
  let ?o = "JObj os"
  let ?surfaces = "split_list h (fld ?o ''changeSurface'')"
  let ?fs = "obj_spread os [(''changeSurface'', JArr ?surfaces)]"
  let ?p = "coal (fld ?o ''policy'') (JObj [])"
  obtain mode subject execution where mode: "selectCollaborationMode h (JObj ?fs) = Inr mode"
    and ex: "createExecutionIntent subject (JArr (mode_requirements mode)) (JArr (intent_controls ?o)) JUndef
        (intent_limits mode (rolesForMode mode ?p) ?o ?p) = Inr execution"
    and valid: "validateCollaborationIntent h (JObj intent) = Inr []"
    and intent: "collaboration_record h ?o ?p mode execution = intent"
    using createCollaborationIntent_Inr [OF assms] .
  note F = fld_collaboration [of h ?o ?p mode execution, unfolded intent]
  show "fld (JObj intent) ''capabilityTier'' = JStr ''architect-lead''" if "matches_consequence h ?o"
    unfolding F using that by (simp add: capability_tier_cases)
  show "fld (JObj intent) ''writerPolicy'' = JStr ''single-writer''" by (rule F)
  show "one_of CAPABILITY_TIERS (fld (JObj intent) ''capabilityTier'')"
  proof (rule ccontr)
    assume bad: "\<not> one_of CAPABILITY_TIERS (fld (JObj intent) ''capabilityTier'')"
    have "fld (JObj intent) ''capabilityTier'' \<noteq> JUndef" unfolding F by (rule capability_tier_cases)
    with bad valid show False unfolding validateCollaborationIntent_def bnd_Inr sum.inject by simp
  qed
  show "validateExecutionIntent h (fld (JObj intent) ''execution'') = Inr []"
    using execution_created [of subject mode ?o "intent_limits mode (rolesForMode mode ?p) ?o ?p" h] ex by (simp add: F)
  assume "sensitive_work (fld ?o ''profile'') ?surfaces (fld ?o ''policy'')"
  from sensitive_default [OF this] have "mode = ''human-gated''" by (rule selected_sensitive [OF mode])
  then show "fld (JObj intent) ''mode'' = JStr ''human-gated''" "fld (JObj intent) ''humanGate'' = JBool True"
    "fld (fld (JObj intent) ''fallback'') ''allowed'' = JBool False" by (simp_all add: F)
qed

definition sample_options :: "(string \<times> js) list" where
  "sample_options = [(''requestedMode'', JStr ''single-agent''), (''changeSurface'', JArr [JStr ''auth'']), (''capabilityTier'', JStr ''balanced'')]"

lemma sample_option_flds:
  "fld (JObj sample_options) ''changeSurface'' = JArr [JStr ''auth'']" "fld (JObj sample_options) ''policy'' = JUndef"
  "fld (JObj sample_options) ''profile'' = JUndef" "fld (JObj sample_options) ''currentPhase'' = JUndef"
  "fld (JObj sample_options) ''enforceConsequenceFloor'' = JUndef" "fld (JObj sample_options) ''issueNumber'' = JUndef"
  "fld (JObj sample_options) ''requestedMode'' = JStr ''single-agent''"
  by (simp_all add: sample_options_def fld_def obj_get_def proto_names_def)

lemma sample_policy_ok: "validateCollaborationPolicy (JObj []) = Inr []"
  by (simp add: validateCollaborationPolicy_def js_default_def dot_def bad_strings_def bad_limit_def fld_def obj_get_def proto_names_def)

lemma sample_sensitive: "sensitive_work JUndef [JStr ''auth''] JUndef"
  by (simp add: sensitive_work_def SENSITIVE_SURFACES_def js_includes_def same_zero_def)

lemma sample_consequence: "matches_consequence h (JObj sample_options)"
proof -
  have "consequence_surface ''auth''"
    by (simp add: consequence_surface_def consequence_words_def js_lower_def lower_char_def Let_def)
  then show ?thesis
    by (simp add: matches_consequence_def grandfathered_def sample_option_flds js_int_def split_list_def)
qed

lemma sample_collaboration: "\<exists>intent. createCollaborationIntent h (JObj sample_options) = Inr intent"
proof -
  let ?o = "JObj sample_options"
  let ?fs = "obj_spread sample_options [(''changeSurface'', JArr [JStr ''auth''])]"
  have fs: "?fs = sample_options" by (simp add: sample_options_def obj_spread_def)
  have "selectCollaborationMode h ?o = Inr ''human-gated''"
    using sensitive_default [OF sample_sensitive]
    by (simp add: selectCollaborationMode_def js_default_def [of ?o] sample_option_flds js_default_def [of JUndef] js_default_def [of "JStr _"]
        js_default_def [of "JArr _"] sample_policy_ok one_of_def COLLABORATION_MODES_def split_list_def dot_Inr Let_def)
  moreover obtain e where e: "createExecutionIntent JNull (JArr (mode_requirements ''human-gated'')) (JArr (intent_controls ?o)) JUndef
      (intent_limits ''human-gated'' (rolesForMode ''human-gated'' (JObj [])) ?o (JObj [])) = Inr e" "validateExecutionIntent h e = Inr []"
    using execution_created by blast
  moreover have "validateCollaborationIntent h (JObj (collaboration_record h ?o (JObj []) ''human-gated'' e)) = Inr []"
    by (simp add: validateCollaborationIntent_def fld_collaboration e(2) one_of_def COLLABORATION_MODES_def sample_consequence
        capability_tier_cases(1) CAPABILITY_TIERS_def rolesForMode_def)
  ultimately show ?thesis
    by (simp add: createCollaborationIntent_def js_default_def [of ?o] own_props_def sample_option_flds fs split_list_def coal_def
        sample_policy_ok dot_Inr Let_def)
qed

theorem collaboration_floor_witness:
  "\<exists>intent. createCollaborationIntent const_host (JObj sample_options) = Inr intent
     \<and> fld (JObj intent) ''mode'' = JStr ''human-gated'' \<and> fld (JObj intent) ''capabilityTier'' = JStr ''architect-lead''"
proof -
  obtain intent where i: "createCollaborationIntent const_host (JObj sample_options) = Inr intent"
    using sample_collaboration by blast
  from collaboration_floor [OF i] i show ?thesis
    by (simp add: sample_option_flds split_list_def sample_sensitive sample_consequence)
qed

end
