(* ===== verification/Clone.thy ===== *)
theory Clone
  imports Digest
begin

text \<open>
  \<open>structuredClone\<close>: functions are refused, everything else is copied; the clone of
  \<open>Object.prototype\<close> is an empty object. JSON values are their own copies.
\<close>

fun has_function :: "js \<Rightarrow> bool" where
  "has_function (JArr xs) = list_ex has_function xs"
| "has_function (JObj fs) = list_ex (\<lambda>(k, v). has_function v) fs"
| "has_function (JBuiltin k) = (k \<noteq> ''__proto__'')"
| "has_function v = False"

fun copied :: "js \<Rightarrow> js" where
  "copied (JArr xs) = JArr (map copied xs)"
| "copied (JObj fs) = JObj (map (\<lambda>(k, v). (k, copied v)) fs)"
| "copied (JBuiltin k) = JObj []"
| "copied v = v"

definition structured_clone :: "js \<Rightarrow> js res" where
  "structured_clone v = (if has_function v then fail ''DataCloneError'' else Inr (copied v))"

lemma plain_copied: "plain v \<Longrightarrow> copied v = v \<and> \<not> has_function v"
proof (induction v)
  case (JArr xs)
  then show ?case by (auto simp: list_ex_iff intro: map_idI)
next
  case (JObj fs)
  have "(k, copied v) = (k, v) \<and> \<not> has_function v" if "(k, v) \<in> set fs" for k v
    using JObj that by fastforce
  then show ?case by (auto simp: list_ex_iff intro!: map_idI)
qed auto

lemma plain_clone: "plain v \<Longrightarrow> structured_clone v = Inr v"
  by (simp add: structured_clone_def plain_copied)

end
