(* ===== verification/RunStore.thy ===== *)
theory RunStore
  imports RunProps JsonParse Clone
begin

text \<open>
  The stores of a run's events (src/lib/sources/run-store.mjs). A store keeps one log the reducer
  accepts and adds an event only for a caller that names the revision of the log it extends. The memory
  store does so in one step. The file store works through a lock file, a staged copy and a rename; its
  system of processes may interleave, fail and stop at every operation on the file system.
\<close>

section \<open>Appending to a log\<close>

text \<open>\<open>reduceRun(events)?.revision ?? null\<close>\<close>

definition head_revision :: "run_state option \<Rightarrow> js" where
  "head_revision so = (case so of None \<Rightarrow> JNull | Some st \<Rightarrow> coal (revision st) JNull)"

record snapshot =
  snap_events :: js
  snap_revision :: js

text \<open>
  The decision both stores take: \<open>None\<close> when the event is already there, else the longer log.
\<close>

definition check_append :: "host \<Rightarrow> js list \<Rightarrow> js res \<Rightarrow> js \<Rightarrow> js \<Rightarrow> js list option res" where
  "check_append h events rv event expected =
     (if events \<noteq> [] \<and> nullish event then Inl (TypeError ''Cannot read properties of undefined (reading id)'')
      else case find (\<lambda>item. js_eq (fld item ''id'') (fld event ''id'')) events of
        Some old \<Rightarrow> if \<not> js_eq (fld old ''digest'') (fld event ''digest'') then fail ''Conflicting event'' else Inr None
      | None \<Rightarrow> bnd rv (\<lambda>r. if \<not> js_eq r expected then fail ''Source revision conflict''
          else bnd (reduceRun h (events @ [event])) (\<lambda>_. Inr (Some (events @ [event])))))"

section \<open>The memory store\<close>

record mem_store =
  records :: "js list"
  mem_durable :: bool

definition createMemoryRunStore :: "bool \<Rightarrow> mem_store" where
  "createMemoryRunStore d = \<lparr>records = [], mem_durable = d\<rparr>"

definition memory_revision :: "host \<Rightarrow> mem_store \<Rightarrow> js res" where
  "memory_revision h s = bnd (reduceRun h (records s)) (\<lambda>so. Inr (head_revision so))"

definition memory_read :: "host \<Rightarrow> mem_store \<Rightarrow> snapshot res" where
  "memory_read h s = bnd (structured_clone (JArr (records s))) (\<lambda>es.
     bnd (memory_revision h s) (\<lambda>r. Inr \<lparr>snap_events = es, snap_revision = r\<rparr>))"

definition memory_append :: "host \<Rightarrow> mem_store \<Rightarrow> js \<Rightarrow> js \<Rightarrow> mem_store \<times> snapshot res" where
  "memory_append h s event expected = (case check_append h (records s) (memory_revision h s) event expected of
       Inl e \<Rightarrow> (s, Inl e)
     | Inr None \<Rightarrow> (s, memory_read h s)
     | Inr (Some _) \<Rightarrow> (case structured_clone event of
         Inl e \<Rightarrow> (s, Inl e)
       | Inr c \<Rightarrow> let s' = s\<lparr>records := records s @ [c]\<rparr> in (s', memory_read h s')))"

section \<open>The file store\<close>

text \<open>\<open>/^[a-zA-Z0-9_-]{1,100}$/\<close>\<close>

definition run_id_char :: "char \<Rightarrow> bool" where
  "run_id_char c = (let n = (of_char c :: nat) in (65 \<le> n \<and> n \<le> 90) \<or> (97 \<le> n \<and> n \<le> 122) \<or> (48 \<le> n \<and> n \<le> 57) \<or> n = 45 \<or> n = 95)"

definition run_id_ok :: "host \<Rightarrow> js \<Rightarrow> bool" where
  "run_id_ok h v = (let s = js_string h (coal v (JStr [])) in list_all run_id_char s \<and> 1 \<le> length s \<and> length s \<le> 100)"

definition createFileRunStore :: "host \<Rightarrow> js \<Rightarrow> string res" where
  "createFileRunStore h run =
     (if \<not> run_id_ok h run then fail ''Invalid runId'' else Inr (''.agent-runs/runs/'' @ js_string h run @ ''/events.json''))"

text \<open>The files of one run: its log, its lock with the process that made it, and the staged copies.\<close>

record run_dir =
  log_file :: "string option"
  lock_file :: "nat option"
  staged_file :: "nat \<Rightarrow> string option"

definition file_value :: "run_dir \<Rightarrow> js res" where
  "file_value d = (case log_file d of None \<Rightarrow> Inr (JArr [])
     | Some t \<Rightarrow> (case json_parse t of Some v \<Rightarrow> Inr v | None \<Rightarrow> fail ''SyntaxError''))"

definition file_read :: "host \<Rightarrow> run_dir \<Rightarrow> snapshot res" where
  "file_read h d = bnd (file_value d) (\<lambda>v. bnd (js_iter v) (\<lambda>es. bnd (reduceRun h es) (\<lambda>so.
     Inr \<lparr>snap_events = v, snap_revision = head_revision so\<rparr>)))"

text \<open>\<open>JSON.stringify(events, null, 2) + '\n'\<close>\<close>

definition log_text :: "host \<Rightarrow> js list \<Rightarrow> string" where
  "log_text h es = the (json_write h ''  '' [] (JArr es)) @ [CHR 0x0A]"

text \<open>What an append does with the log once it holds the lock: a result, or a log to write.\<close>

definition file_decide :: "host \<Rightarrow> run_dir \<Rightarrow> js \<Rightarrow> js \<Rightarrow> (snapshot + js list) res" where
  "file_decide h d event expected = bnd (file_read h d) (\<lambda>current. case snap_events current of
       JArr es \<Rightarrow> bnd (check_append h es (Inr (snap_revision current)) event expected) (\<lambda>o0.
         case o0 of None \<Rightarrow> Inr (Inl current) | Some events \<Rightarrow> Inr (Inr events))
     | _ \<Rightarrow> Inl (TypeError ''current.events.find is not a function''))"

definition file_append :: "host \<Rightarrow> run_dir \<Rightarrow> js \<Rightarrow> js \<Rightarrow> run_dir \<times> snapshot res" where
  "file_append h d event expected =
     (if lock_file d \<noteq> None then (d, fail ''EEXIST'')
      else if nullish event then (d, Inl (TypeError ''Cannot read properties of undefined (reading generation)''))
      else case file_decide h d event expected of
        Inl e \<Rightarrow> (d, Inl e)
      | Inr (Inl current) \<Rightarrow> (d, Inr current)
      | Inr (Inr events) \<Rightarrow> let d' = d\<lparr>log_file := Some (log_text h events)\<rparr> in (d', file_read h d'))"

section \<open>Processes on one directory\<close>

text \<open>
  Where a process stands in its append: before the lock, with the lock, with the lock described, with a
  log to stage, with the staged log to rename, after the rename, and in \<open>finally\<close> with its outcome.
\<close>

datatype point =
    Start
  | Locked
  | Owned
  | Staging "js list"
  | Renaming "js list"
  | Rereading
  | Closing "snapshot res"
  | Unstaging "snapshot res"
  | Finished "snapshot res"
  | Stopped

fun advance :: "host \<Rightarrow> nat \<Rightarrow> js \<Rightarrow> js \<Rightarrow> point \<Rightarrow> run_dir \<Rightarrow> point \<times> run_dir" where
  "advance h p event expected Start d =
     (if lock_file d \<noteq> None then (Finished (fail ''EEXIST''), d) else (Locked, d\<lparr>lock_file := Some p\<rparr>))"
| "advance h p event expected Locked d =
     (if nullish event then (Closing (Inl (TypeError ''Cannot read properties of undefined (reading generation)'')), d) else (Owned, d))"
| "advance h p event expected Owned d = (case file_decide h d event expected of
       Inl e \<Rightarrow> (Closing (Inl e), d) | Inr (Inl current) \<Rightarrow> (Closing (Inr current), d) | Inr (Inr events) \<Rightarrow> (Staging events, d))"
| "advance h p event expected (Staging events) d =
     (Renaming events, d\<lparr>staged_file := (staged_file d)(p := Some (log_text h events))\<rparr>)"
| "advance h p event expected (Renaming events) d =
     (Rereading, d\<lparr>log_file := staged_file d p, staged_file := (staged_file d)(p := None)\<rparr>)"
| "advance h p event expected Rereading d = (Closing (file_read h d), d)"
| "advance h p event expected (Closing r) d = (Unstaging r, d\<lparr>lock_file := None\<rparr>)"
| "advance h p event expected (Unstaging r) d = (Finished r, d\<lparr>staged_file := (staged_file d)(p := None)\<rparr>)"
| "advance h p event expected c d = (c, d)"

text \<open>
  An operation that throws: before the lock it ends the append, in the body it leads to \<open>finally\<close>, in
  \<open>finally\<close> it ends the append there. A failed write may leave any text in the staged file.
\<close>

fun faulted :: "nat \<Rightarrow> jserr \<Rightarrow> string option \<Rightarrow> point \<Rightarrow> run_dir \<Rightarrow> point \<times> run_dir" where
  "faulted p e junk Start d = (Finished (Inl e), d)"
| "faulted p e junk (Staging events) d = (Closing (Inl e), d\<lparr>staged_file := (staged_file d)(p := junk)\<rparr>)"
| "faulted p e junk (Closing r) d = (Finished (Inl e), d)"
| "faulted p e junk (Unstaging r) d = (Finished (Inl e), d)"
| "faulted p e junk (Finished r) d = (Finished r, d)"
| "faulted p e junk Stopped d = (Stopped, d)"
| "faulted p e junk c d = (Closing (Inl e), d)"

record store_sys =
  points :: "nat \<Rightarrow> point"
  dir :: run_dir

inductive store_step :: "host \<Rightarrow> (nat \<Rightarrow> js \<times> js) \<Rightarrow> store_sys \<Rightarrow> store_sys \<Rightarrow> bool" for h reqs where
  proceed: "advance h p (fst (reqs p)) (snd (reqs p)) (points s p) (dir s) = (c, d)
    \<Longrightarrow> store_step h reqs s \<lparr>points = (points s)(p := c), dir = d\<rparr>"
| throw: "faulted p e junk (points s p) (dir s) = (c, d) \<Longrightarrow> store_step h reqs s \<lparr>points = (points s)(p := c), dir = d\<rparr>"
| stop: "(\<And>r. points s p \<noteq> Finished r) \<Longrightarrow> store_step h reqs s \<lparr>points = (points s)(p := Stopped), dir = dir s\<rparr>"

inductive_cases store_stepE: "store_step h reqs s t"

section \<open>What a store promises\<close>

definition accepted :: "host \<Rightarrow> js list \<Rightarrow> bool" where
  "accepted h es \<longleftrightarrow> (\<exists>so. reduceRun h es = Inr so)"

definition holds :: "js list \<Rightarrow> js \<Rightarrow> bool" where
  "holds es e \<longleftrightarrow> (\<exists>old\<in>set es. fld old ''id'' = fld e ''id'' \<and> fld old ''digest'' = fld e ''digest'')"

text \<open>The one change a store makes: the event goes to the end of the log whose revision was expected.\<close>

definition cas_append :: "host \<Rightarrow> js list \<Rightarrow> js \<Rightarrow> js \<Rightarrow> js list \<Rightarrow> bool" where
  "cas_append h es e x es' \<longleftrightarrow> es' = es @ [e] \<and> (\<forall>old\<in>set es. fld old ''id'' \<noteq> fld e ''id'')
     \<and> (\<exists>so so'. reduceRun h es = Inr so \<and> head_revision so = x \<and> reduceRun h es' = Inr so')"

lemma reduceRun_valid: "reduceRun h es = Inr so \<Longrightarrow> e \<in> set es \<Longrightarrow> valid_event h e"
  using seen_events(2) by (auto simp: reduceRun_log)

lemma valid_event_id: "valid_event h e \<Longrightarrow> \<exists>i. fld e ''id'' = JStr i"
  by (cases "fld e ''id''") (auto simp: valid_event_def is_text_def)

lemma head_revision_JStr: "reduceRun h es = Inr so \<Longrightarrow> head_revision so = JNull \<or> (\<exists>d. head_revision so = JStr d)"
  using revision_is_digest [of h es] by (cases so) (force simp: reduceRun_log head_revision_def coal_def)+

lemma check_append_Some:
  assumes "reduceRun h es = Inr so" and "check_append h es (Inr (head_revision so)) e x = Inr (Some es')"
  shows "cas_append h es e x es'"
proof -
  from assms(2) have new: "find (\<lambda>item. js_eq (fld item ''id'') (fld e ''id'')) es = None"
    and x: "js_eq (head_revision so) x" and es': "es' = es @ [e]" and so': "\<exists>so'. reduceRun h es' = Inr so'"
    by (auto simp: check_append_def if_Inl_Inr split: option.splits if_splits)
  have "fld old ''id'' \<noteq> fld e ''id''" if "old \<in> set es" for old
    using new that valid_event_id [OF reduceRun_valid [OF assms(1) that]] by (auto simp: find_None_iff)
  with assms(1) es' so' js_eq_imp_eq [OF x] show ?thesis unfolding cas_append_def by blast
qed

lemma check_append_None:
  assumes "check_append h es r e x = Inr None"
  shows "holds es e"
proof -
  obtain old where f: "find (\<lambda>item. js_eq (fld item ''id'') (fld e ''id'')) es = Some old"
    and d: "js_eq (fld old ''digest'') (fld e ''digest'')"
    using assms by (auto simp: check_append_def if_Inl_Inr split: option.splits if_splits)
  from find_SomeD [OF f] js_eq_imp_eq [OF d] show ?thesis unfolding holds_def by (blast dest: js_eq_imp_eq)
qed

lemma check_append_complete:
  assumes "cas_append h es e x es'" and "reduceRun h es = Inr so"
  shows "check_append h es (Inr (head_revision so)) e x = Inr (Some es')"
proof -
  obtain so' where es': "es' = es @ [e]" "reduceRun h (es @ [e]) = Inr so'" and x: "head_revision so = x"
    using assms unfolding cas_append_def by auto
  have "\<not> nullish e" using valid_event_id [OF reduceRun_valid [OF es'(2), of e]] by (auto dest: fld_nullish)
  moreover have "find (\<lambda>item. js_eq (fld item ''id'') (fld e ''id'')) es = None"
    using assms(1) unfolding cas_append_def find_None_iff by (auto dest: js_eq_imp_eq)
  moreover have "js_eq x x" using head_revision_JStr [OF assms(2)] x by auto
  ultimately show ?thesis using es' x by (simp add: check_append_def)
qed

text \<open>The revision after an append is the digest of the event, whose link to the log is the revision before.\<close>

lemma cas_append_revision:
  assumes "cas_append h es e x es'"
  shows "\<exists>so'. reduceRun h es' = Inr so' \<and> head_revision so' = fld e ''digest'' \<and> fld e ''previousDigest'' = x"
proof -
  obtain so so' where es': "es' = es @ [e]" "\<forall>old\<in>set es. fld old ''id'' \<noteq> fld e ''id''"
    and r: "reduceRun h es = Inr so" "head_revision so = x" "reduceRun h (es @ [e]) = Inr so'"
    using assms unfolding cas_append_def by auto
  obtain seen where s: "for_fold (reduce_event h) (None, []) es = Inr (so, seen)" using r(1) by (auto simp: reduceRun_log)
  with r(3) obtain seen' where s': "reduce_event h (so, seen) e = Inr (so', seen')" by (auto simp: reduceRun_log for_fold_append)
  have v: "valid_event h e" using s' by (rule reduce_event_valid)
  have "event_id e \<notin> fst ` set seen"
    using es'(2) valid_event_id [OF v] valid_event_id [OF reduceRun_valid [OF r(1)]]
    unfolding seen_events(1) [OF s] by (force simp: image_iff)
  then have "map_of seen (event_id e) = None" by (simp add: map_of_eq_None_iff)
  with s' obtain st' where st': "apply_event h so e = Inr st'" "so' = Some st'"
    by (auto elim!: reduce_event_cases)
  show ?thesis
    using apply_event_revision [OF st'(1)] st'(2) r es'(1) valid_event_digest [OF v]
    by (auto simp: head_revision_def coal_def)
qed

text \<open>
  The interface of a store: its log is accepted, an append adds its event or nothing, what it returns
  is the log it leaves with the event in it, and an append that names the revision succeeds.
\<close>

locale run_store =
  fixes h :: host
    and content :: "'s \<Rightarrow> js list"
    and good :: "'s \<Rightarrow> bool"
    and append :: "'s \<Rightarrow> js \<Rightarrow> js \<Rightarrow> 's \<times> snapshot res"
  assumes good_accepted: "good s \<Longrightarrow> accepted h (content s)"
    and append_good: "good s \<Longrightarrow> plain e \<Longrightarrow> good (fst (append s e x))"
    and append_change: "good s \<Longrightarrow> plain e \<Longrightarrow> content (fst (append s e x)) = content s
      \<or> cas_append h (content s) e x (content (fst (append s e x)))"
    and append_result: "good s \<Longrightarrow> plain e \<Longrightarrow> snd (append s e x) = Inr snap
      \<Longrightarrow> snap_events snap = JArr (content (fst (append s e x))) \<and> holds (content (fst (append s e x))) e"
    and append_succeeds: "good s \<Longrightarrow> plain e \<Longrightarrow> cas_append h (content s) e x es
      \<Longrightarrow> content (fst (append s e x)) = es \<and> (\<exists>snap. snd (append s e x) = Inr snap)"
begin

text \<open>The states of the store under a sequence of requests, from any number of clients.\<close>

fun served :: "'s \<Rightarrow> (js \<times> js) list \<Rightarrow> 's" where
  "served s [] = s"
| "served s ((e, x) # qs) = served (fst (append s e x)) qs"

lemma served_good: "good s \<Longrightarrow> \<forall>(e, x)\<in>set qs. plain e \<Longrightarrow> good (served s qs)"
  by (induction s qs rule: served.induct) (auto intro: append_good)

lemma append_extends: "good s \<Longrightarrow> plain e \<Longrightarrow> \<exists>fs. content (fst (append s e x)) = content s @ fs"
  using append_change [of s e x] by (auto simp: cas_append_def)

lemma served_extends: "good s \<Longrightarrow> \<forall>(e, x)\<in>set qs. plain e \<Longrightarrow> \<exists>fs. content (served s qs) = content s @ fs"
proof (induction s qs rule: served.induct)
  case (2 s e x qs)
  then obtain fs where "content (served (fst (append s e x)) qs) = content (fst (append s e x)) @ fs"
    using append_good by fastforce
  with append_extends [of s e x] 2(2,3) show ?case by auto
qed simp

lemma acknowledged_kept:
  assumes "good s" and "plain e" and "\<forall>(e, x)\<in>set qs. plain e" and "snd (append s e x) = Inr snap"
  shows "accepted h (content (served s ((e, x) # qs))) \<and> holds (content (served s ((e, x) # qs))) e"
proof -
  have g: "good (fst (append s e x))" by (rule append_good [OF assms(1,2)])
  obtain fs where "content (served (fst (append s e x)) qs) = content (fst (append s e x)) @ fs"
    using served_extends [OF g assms(3)] by blast
  with append_result [OF assms(1,2,4)] good_accepted [OF served_good [OF g assms(3)]] show ?thesis by (auto simp: holds_def)
qed

text \<open>The next log is a function of the log, the event and the expected revision, the same for every store.\<close>

lemma append_exact:
  assumes "good s" and "plain e"
  shows "content (fst (append s e x)) = (if cas_append h (content s) e x (content s @ [e]) then content s @ [e] else content s)"
  using append_change [OF assms, of x] append_succeeds [OF assms, of x] by (auto simp: cas_append_def)

text \<open>A caller that was told the revision of a log someone has extended since is refused.\<close>

lemma stale_refused:
  assumes "good s" and "plain e" and "reduceRun h (content s) = Inr so" and "head_revision so \<noteq> x"
  shows "content (fst (append s e x)) = content s"
  using append_change [OF assms(1,2), of x] assms(3,4) by (auto simp: cas_append_def)

end

section \<open>The memory store keeps the promise\<close>

definition memory_good :: "host \<Rightarrow> mem_store \<Rightarrow> bool" where
  "memory_good h s \<longleftrightarrow> accepted h (records s) \<and> (\<forall>e\<in>set (records s). plain e)"

lemma memory_read_good:
  "memory_good h s \<Longrightarrow> \<exists>so. reduceRun h (records s) = Inr so \<and> memory_read h s = Inr \<lparr>snap_events = JArr (records s), snap_revision = head_revision so\<rparr>"
  using plain_clone [of "JArr (records s)"] by (auto simp: memory_good_def accepted_def memory_read_def memory_revision_def)

lemma memory_append_cases:
  assumes "memory_good h s" and "plain e"
  obtains (same) "fst (memory_append h s e x) = s" and "\<And>snap. snd (memory_append h s e x) = Inr snap \<Longrightarrow>
      holds (records s) e \<and> snap_events snap = JArr (records s)" and "\<And>es. \<not> cas_append h (records s) e x es"
  | (added) snap where "cas_append h (records s) e x (records s @ [e])" and "fst (memory_append h s e x) = s\<lparr>records := records s @ [e]\<rparr>"
      and "memory_good h (s\<lparr>records := records s @ [e]\<rparr>)"
      and "snd (memory_append h s e x) = Inr snap" and "snap_events snap = JArr (records s @ [e])"
proof -
  obtain so where so: "reduceRun h (records s) = Inr so"
    and rd: "memory_read h s = Inr \<lparr>snap_events = JArr (records s), snap_revision = head_revision so\<rparr>"
    using memory_read_good [OF assms(1)] by blast
  have rv: "memory_revision h s = Inr (head_revision so)" by (simp add: memory_revision_def so)
  let ?c = "check_append h (records s) (Inr (head_revision so)) e x"
  consider (err) er where "?c = Inl er" | (dup) "?c = Inr None" | (new) es' where "?c = Inr (Some es')"
    by (cases ?c) (auto simp: option.split_sel)
  then show thesis
  proof cases
    case err
    then show ?thesis using check_append_complete [OF _ so, of e x] by (intro same) (auto simp: memory_append_def rv)
  next
    case dup
    then show ?thesis using check_append_complete [OF _ so, of e x] check_append_None [OF dup] rd
      by (intro same) (auto simp: memory_append_def rv)
  next
    case new
    let ?s = "s\<lparr>records := records s @ [e]\<rparr>"
    have cas: "cas_append h (records s) e x (records s @ [e])"
      using check_append_Some [OF so new] by (auto simp: cas_append_def)
    have g: "memory_good h ?s" using cas assms by (auto simp: memory_good_def accepted_def cas_append_def)
    obtain so' where "memory_read h ?s = Inr \<lparr>snap_events = JArr (records s @ [e]), snap_revision = head_revision so'\<rparr>"
      using memory_read_good [OF g] by auto
    with new show ?thesis using plain_clone [OF assms(2)] 
      by (intro added [OF cas _ g, of "\<lparr>snap_events = JArr (records s @ [e]), snap_revision = head_revision so'\<rparr>"])
        (simp_all add: memory_append_def rv Let_def)
  qed
qed

interpretation memory: run_store h records "memory_good h" "memory_append h" for h
proof
  fix s e x snap es
  assume s: "memory_good h s"
  show "accepted h (records s)" using s by (simp add: memory_good_def)
  assume e: "plain e"
  show "memory_good h (fst (memory_append h s e x))"
    using s by (cases rule: memory_append_cases [OF s e, of x]) simp_all
  show "records (fst (memory_append h s e x)) = records s \<or> cas_append h (records s) e x (records (fst (memory_append h s e x)))"
    by (cases rule: memory_append_cases [OF s e, of x]) simp_all
  show "snap_events snap = JArr (records (fst (memory_append h s e x))) \<and> holds (records (fst (memory_append h s e x))) e"
    if "snd (memory_append h s e x) = Inr snap"
    using that by (cases rule: memory_append_cases [OF s e, of x]) (auto simp: holds_def)
  show "records (fst (memory_append h s e x)) = es \<and> (\<exists>snap. snd (memory_append h s e x) = Inr snap)"
    if "cas_append h (records s) e x es"
    using that by (cases rule: memory_append_cases [OF s e, of x]) (auto simp: cas_append_def)
qed

section \<open>The file store keeps the promise\<close>

definition file_log :: "run_dir \<Rightarrow> js list" where
  "file_log d = (case file_value d of Inr (JArr es) \<Rightarrow> es | _ \<Rightarrow> [])"

definition log_good :: "host \<Rightarrow> run_dir \<Rightarrow> bool" where
  "log_good h d \<longleftrightarrow> file_value d = Inr (JArr (file_log d)) \<and> accepted h (file_log d) \<and> (\<forall>e\<in>set (file_log d). plain e)"

definition dir_good :: "host \<Rightarrow> run_dir \<Rightarrow> bool" where
  "dir_good h d \<longleftrightarrow> log_good h d \<and> lock_file d = None"

lemma plain_stored: "plain v \<Longrightarrow> stored v = Some v"
proof (induction v)
  case (JNum n)
  then show ?case by (cases n) auto
next
  case (JArr xs)
  then show ?case by (auto intro: map_idI)
next
  case (JObj fs)
  have "concat (map (\<lambda>(k, v). case stored v of None \<Rightarrow> [] | Some y \<Rightarrow> [(k, y)]) fs) = map id fs"
    by (rule concat_singletons) (use JObj in fastforce)
  then show ?case by simp
qed auto

lemma log_text_parse: "\<forall>e\<in>set es. plain e \<Longrightarrow> json_parse (log_text h es) = Some (JArr es)"
  using written_read_back [OF plain_stored, of "JArr es" "''  ''" "[CHR 0x0A]" h]
  by (auto simp: log_text_def white_def json_space_def)

lemma log_text_value: "\<forall>e\<in>set es. plain e \<Longrightarrow> log_file d = Some (log_text h es) \<Longrightarrow> file_value d = Inr (JArr es) \<and> file_log d = es"
  by (simp add: file_value_def file_log_def log_text_parse)

lemma log_good_cong: "log_file d' = log_file d \<Longrightarrow> log_good h d' = log_good h d \<and> file_log d' = file_log d"
  by (simp add: log_good_def file_log_def file_value_def)

lemma file_read_good:
  assumes "log_good h d"
  shows "\<exists>so. reduceRun h (file_log d) = Inr so \<and> file_read h d = Inr \<lparr>snap_events = JArr (file_log d), snap_revision = head_revision so\<rparr>"
  using assms by (auto simp: log_good_def accepted_def file_read_def js_iter_def)

lemma file_decide_cases:
  assumes "log_good h d"
  obtains (refused) er where "file_decide h d e x = Inl er" and "\<And>es. \<not> cas_append h (file_log d) e x es"
  | (known) snap where "file_decide h d e x = Inr (Inl snap)" and "snap_events snap = JArr (file_log d)" and "holds (file_log d) e"
      and "\<And>es. \<not> cas_append h (file_log d) e x es"
  | (new) "file_decide h d e x = Inr (Inr (file_log d @ [e]))" and "cas_append h (file_log d) e x (file_log d @ [e])"
proof -
  obtain so where so: "reduceRun h (file_log d) = Inr so"
    and rd: "file_read h d = Inr \<lparr>snap_events = JArr (file_log d), snap_revision = head_revision so\<rparr>"
    using file_read_good [OF assms] by blast
  let ?c = "check_append h (file_log d) (Inr (head_revision so)) e x"
  have dec: "file_decide h d e x = bnd ?c (\<lambda>o0. case o0 of None \<Rightarrow> Inr (Inl \<lparr>snap_events = JArr (file_log d), snap_revision = head_revision so\<rparr>)
      | Some events \<Rightarrow> Inr (Inr events))" by (simp add: file_decide_def rd del: bnd_Inr)
  consider (err) er where "?c = Inl er" | (dup) "?c = Inr None" | (add) es' where "?c = Inr (Some es')"
    by (cases ?c) (auto simp: option.split_sel)
  then show thesis
  proof cases
    case err
    then show ?thesis using check_append_complete [OF _ so, of e x] dec by (intro refused) auto
  next
    case dup
    then show ?thesis using check_append_complete [OF _ so, of e x] check_append_None [OF dup] dec
      by (intro known [of "\<lparr>snap_events = JArr (file_log d), snap_revision = head_revision so\<rparr>"]) auto
  next
    case add
    have "cas_append h (file_log d) e x es'" by (rule check_append_Some [OF so add])
    moreover from this have "es' = file_log d @ [e]" by (simp add: cas_append_def)
    ultimately show ?thesis using add dec by (intro new) auto
  qed
qed

lemma cas_log_good:
  assumes "log_good h d" and "plain e" and "cas_append h (file_log d) e x es" and "log_file d' = Some (log_text h es)"
  shows "log_good h d' \<and> file_log d' = es"
proof -
  have "es = file_log d @ [e]" "accepted h es" using assms(3) by (auto simp: cas_append_def accepted_def)
  moreover have "\<forall>e\<in>set es. plain e" using assms(1,2) calculation(1) by (auto simp: log_good_def)
  ultimately show ?thesis using log_text_value [OF _ assms(4)] by (simp add: log_good_def)
qed

lemma file_append_cases:
  assumes "dir_good h d" and "plain e"
  obtains (same) "fst (file_append h d e x) = d" and "\<And>snap. snd (file_append h d e x) = Inr snap \<Longrightarrow>
      holds (file_log d) e \<and> snap_events snap = JArr (file_log d)" and "\<And>es. \<not> cas_append h (file_log d) e x es"
  | (added) d' snap where "cas_append h (file_log d) e x (file_log d')" and "fst (file_append h d e x) = d'" and "dir_good h d'"
      and "snd (file_append h d e x) = Inr snap" and "snap_events snap = JArr (file_log d')" and "file_log d' = file_log d @ [e]"
proof -
  have g: "log_good h d" "lock_file d = None" using assms(1) by (simp_all add: dir_good_def)
  have n: "\<not> nullish e" if "cas_append h (file_log d) e x es" for es
    using that valid_event_id [OF reduceRun_valid, of h es _ e] by (auto simp: cas_append_def dest: fld_nullish)
  show thesis
  proof (cases "nullish e")
    case True
    then show ?thesis using n g by (intro same) (auto simp: file_append_def)
  next
    case False
    show ?thesis
    proof (rule file_decide_cases [OF g(1), of e x], goal_cases refused known new)
      case (refused er)
      then show ?thesis using g False by (intro same) (auto simp: file_append_def)
    next
      case (known snap)
      then show ?thesis using g False by (intro same) (auto simp: file_append_def)
    next
      case new
      let ?d = "d\<lparr>log_file := Some (log_text h (file_log d @ [e]))\<rparr>"
      have d': "log_good h ?d" "file_log ?d = file_log d @ [e]" using cas_log_good [OF g(1) assms(2) new(2), of ?d] by simp_all
      obtain so where "file_read h ?d = Inr \<lparr>snap_events = JArr (file_log ?d), snap_revision = head_revision so\<rparr>"
        using file_read_good [OF d'(1)] by blast
      with new g False d' show ?thesis
        by (intro added [of ?d "\<lparr>snap_events = JArr (file_log ?d), snap_revision = head_revision so\<rparr>"])
          (simp_all add: file_append_def Let_def dir_good_def)
    qed
  qed
qed

interpretation files: run_store h file_log "dir_good h" "file_append h" for h
proof
  fix d e x snap es
  assume d: "dir_good h d"
  show "accepted h (file_log d)" using d by (simp add: dir_good_def log_good_def)
  assume e: "plain e"
  show "dir_good h (fst (file_append h d e x))"
    using d by (cases rule: file_append_cases [OF d e, of x]) simp_all
  show "file_log (fst (file_append h d e x)) = file_log d \<or> cas_append h (file_log d) e x (file_log (fst (file_append h d e x)))"
    by (cases rule: file_append_cases [OF d e, of x]) simp_all
  show "snap_events snap = JArr (file_log (fst (file_append h d e x))) \<and> holds (file_log (fst (file_append h d e x))) e"
    if "snd (file_append h d e x) = Inr snap"
    using that by (cases rule: file_append_cases [OF d e, of x]) (auto simp: holds_def)
  show "file_log (fst (file_append h d e x)) = es \<and> (\<exists>snap. snd (file_append h d e x) = Inr snap)"
    if "cas_append h (file_log d) e x es"
    using that by (cases rule: file_append_cases [OF d e, of x]) (auto simp: cas_append_def)
qed

text \<open>
  C7. The file store does what the memory store does: from the same log, any sequence of requests leaves the
  same log.
\<close>

theorem file_store_as_memory_store:
  assumes "memory_good h s" and "dir_good h d" and "file_log d = records s" and "\<forall>(e, x)\<in>set qs. plain e"
  shows "file_log (files.served h d qs) = records (memory.served h s qs)"
  using assms
proof (induction qs arbitrary: s d)
  case (Cons q qs)
  obtain e x where q: "q = (e, x)" by (cases q)
  with Cons.prems have e: "plain e" by simp
  show ?case unfolding q files.served.simps memory.served.simps
  proof (rule Cons.IH)
    show "memory_good h (fst (memory_append h s e x))" by (rule memory.append_good [OF Cons.prems(1) e])
    show "dir_good h (fst (file_append h d e x))" by (rule files.append_good [OF Cons.prems(2) e])
    show "file_log (fst (file_append h d e x)) = records (fst (memory_append h s e x))"
      by (simp add: files.append_exact [OF Cons.prems(2) e] memory.append_exact [OF Cons.prems(1) e] Cons.prems(3))
  qed (use Cons.prems(4) in auto)
qed simp

section \<open>Interleaved appends\<close>

definition acknowledged :: "js list \<Rightarrow> js \<Rightarrow> snapshot res \<Rightarrow> bool" where
  "acknowledged es e r \<longleftrightarrow> (case r of Inl _ \<Rightarrow> True | Inr _ \<Rightarrow> holds es e)"

fun process_ok :: "host \<Rightarrow> run_dir \<Rightarrow> js \<Rightarrow> js \<Rightarrow> nat \<Rightarrow> point \<Rightarrow> bool" where
  "process_ok h d e x p Locked = (lock_file d = Some p)"
| "process_ok h d e x p Owned = (lock_file d = Some p)"
| "process_ok h d e x p (Staging es) = (lock_file d = Some p \<and> cas_append h (file_log d) e x es)"
| "process_ok h d e x p (Renaming es) =
     (lock_file d = Some p \<and> cas_append h (file_log d) e x es \<and> staged_file d p = Some (log_text h es))"
| "process_ok h d e x p Rereading = (lock_file d = Some p \<and> holds (file_log d) e)"
| "process_ok h d e x p (Closing r) = (lock_file d = Some p \<and> acknowledged (file_log d) e r)"
| "process_ok h d e x p (Unstaging r) = acknowledged (file_log d) e r"
| "process_ok h d e x p (Finished r) = acknowledged (file_log d) e r"
| "process_ok h d e x p c = True"

definition sys_ok :: "host \<Rightarrow> (nat \<Rightarrow> js \<times> js) \<Rightarrow> store_sys \<Rightarrow> bool" where
  "sys_ok h reqs s \<longleftrightarrow> log_good h (dir s) \<and> (\<forall>p. process_ok h (dir s) (fst (reqs p)) (snd (reqs p)) p (points s p))"

text \<open>What a step of one process may do to the directory the others see.\<close>

definition leaves_others :: "nat \<Rightarrow> run_dir \<Rightarrow> run_dir \<Rightarrow> bool" where
  "leaves_others p d d' \<longleftrightarrow> (\<forall>q. q \<noteq> p \<longrightarrow> staged_file d' q = staged_file d q)
     \<and> (lock_file d' = lock_file d \<or> (lock_file d = None \<and> lock_file d' = Some p) \<or> (lock_file d = Some p \<and> lock_file d' = None))
     \<and> (file_log d' = file_log d \<or> (lock_file d = Some p \<and> set (file_log d) \<subseteq> set (file_log d')))"

lemma acknowledged_mono: "acknowledged es e r \<Longrightarrow> set es \<subseteq> set es' \<Longrightarrow> acknowledged es' e r"
  by (auto simp: acknowledged_def holds_def split: sum.splits)

lemma process_ok_frame:
  assumes "leaves_others p d d'" and "q \<noteq> p" and "process_ok h d e x q c"
  shows "process_ok h d' e x q c"
  using assms by (cases c) (auto simp: leaves_others_def intro: acknowledged_mono)

lemma advance_ok:
  assumes "log_good h d" and "plain e" and "process_ok h d e x p c" and "advance h p e x c d = (c', d')"
  shows "log_good h d' \<and> process_ok h d' e x p c' \<and> leaves_others p d d'
    \<and> (file_log d' = file_log d \<or> cas_append h (file_log d) e x (file_log d'))"
proof -
  have same: "?thesis" if "log_file d' = log_file d" and "process_ok h d' e x p c'"
    and "lock_file d' = lock_file d \<or> (lock_file d = None \<and> lock_file d' = Some p) \<or> (lock_file d = Some p \<and> lock_file d' = None)"
    and "\<forall>q. q \<noteq> p \<longrightarrow> staged_file d' q = staged_file d q"
    using that assms(1) log_good_cong [OF that(1)] by (simp add: leaves_others_def)
  note cong = log_good_cong [of d' d, THEN conjunct2]
  show ?thesis
  proof (cases c)
    case Owned
    show ?thesis
      by (rule same; cases rule: file_decide_cases [OF assms(1), of e x]; use assms(3,4) Owned in \<open>auto simp: acknowledged_def\<close>)
  next
    case (Renaming es)
    have d': "d' = d\<lparr>log_file := Some (log_text h es), staged_file := (staged_file d)(p := None)\<rparr>" and c': "c' = Rereading"
      and cas: "cas_append h (file_log d) e x es" and lk: "lock_file d = Some p" using assms(3,4) Renaming by auto
    have g: "log_good h d'" "file_log d' = es" using cas_log_good [OF assms(1,2) cas, of d'] by (simp_all add: d')
    have "set (file_log d) \<subseteq> set es" "holds es e" using cas by (auto simp: cas_append_def holds_def)
    with g cas lk c' show ?thesis by (simp add: leaves_others_def) (simp add: d')
  next
    case Rereading
    show ?thesis by (rule same; use assms(3,4) Rereading in \<open>auto simp: acknowledged_def split: sum.split\<close>)
  next
    case (Staging es)
    have "file_log d' = file_log d" by (rule cong) (use assms(4) Staging in auto)
    then show ?thesis by (intro same; use assms(3,4) Staging in auto)
  next
    case (Closing r)
    have "file_log d' = file_log d" by (rule cong) (use assms(4) Closing in auto)
    then show ?thesis by (intro same; use assms(3,4) Closing in auto)
  next
    case (Unstaging r)
    have "file_log d' = file_log d" by (rule cong) (use assms(4) Unstaging in auto)
    then show ?thesis by (intro same; use assms(3,4) Unstaging in auto)
  qed (rule same; use assms(3,4) in \<open>auto simp: acknowledged_def split: if_splits\<close>)+
qed

lemma faulted_ok:
  assumes "log_good h d" and "process_ok h d e x p c" and "faulted p er junk c d = (c', d')"
  shows "log_good h d' \<and> process_ok h d' e x p c' \<and> leaves_others p d d' \<and> file_log d' = file_log d"
proof -
  have "log_file d' = log_file d" using assms(3) by (cases c) auto
  from log_good_cong [OF this, of h] have g: "log_good h d'" "file_log d' = file_log d" using assms(1) by simp_all
  moreover have "leaves_others p d d'" using assms(3) g(2) by (cases c) (auto simp: leaves_others_def)
  moreover have "process_ok h d' e x p c'" using assms(2,3) g(2) by (cases c) (auto simp: acknowledged_def)
  ultimately show ?thesis by simp
qed

text \<open>Every step of the system keeps the invariant and changes the log only as an append in one step would.\<close>

lemma store_step_ok:
  assumes "store_step h reqs s t" and "sys_ok h reqs s" and "\<And>p. plain (fst (reqs p))"
  shows "sys_ok h reqs t \<and> (file_log (dir t) = file_log (dir s)
    \<or> (\<exists>p. cas_append h (file_log (dir s)) (fst (reqs p)) (snd (reqs p)) (file_log (dir t))))"
proof -
  have own: "process_ok h (dir s) (fst (reqs p)) (snd (reqs p)) p (points s p)" and g: "log_good h (dir s)" for p
    using assms(2) by (auto simp: sys_ok_def)
  have ok: "sys_ok h reqs \<lparr>points = (points s)(p := c), dir = d\<rparr>"
    if "log_good h d" "process_ok h d (fst (reqs p)) (snd (reqs p)) p c" "leaves_others p (dir s) d" for p c d
    using that process_ok_frame [OF that(3)] own by (auto simp: sys_ok_def)
  from assms(1) show ?thesis
  proof cases
    case (proceed p c d)
    with advance_ok [OF g assms(3) own proceed(2)] ok show ?thesis by auto
  next
    case (throw p e junk c d)
    with faulted_ok [OF g own throw(2)] ok show ?thesis by auto
  next
    case (stop p)
    with ok [of "dir s" p Stopped] g show ?thesis by (auto simp: leaves_others_def)
  qed
qed

text \<open>A log that grows by appends, each admitted at the revision its caller expected.\<close>

inductive grown :: "host \<Rightarrow> (nat \<Rightarrow> js \<times> js) \<Rightarrow> js list \<Rightarrow> js list \<Rightarrow> bool" for h reqs es where
  grown_refl: "grown h reqs es es"
| grown_step: "grown h reqs es fs \<Longrightarrow> cas_append h fs (fst (reqs p)) (snd (reqs p)) gs \<Longrightarrow> grown h reqs es gs"

lemma store_steps_ok:
  assumes "(store_step h reqs)\<^sup>*\<^sup>* s t" and "sys_ok h reqs s" and "\<And>p. plain (fst (reqs p))"
  shows "sys_ok h reqs t \<and> grown h reqs (file_log (dir s)) (file_log (dir t))"
  using assms(1)
proof (induction rule: rtranclp_induct)
  case base
  then show ?case using assms(2) by (simp add: grown_refl)
next
  case (step t u)
  with store_step_ok [OF step(2) _ assms(3)] show ?case by (metis grown_step)
qed

section \<open>One process alone\<close>

text \<open>Undisturbed, the eight operations of a process are the append in one step.\<close>

lemma append_alone:
  assumes "lock_file d = None" and "staged_file d p = None"
  shows "((\<lambda>(c, d). advance h p e x c d) ^^ 8) (Start, d) = (Finished (snd (file_append h d e x)), fst (file_append h d e x))"
proof -
  have un: "(staged_file d)(p := None) = staged_file d" using assms(2) by (simp add: fun_upd_idem)
  have d: "d\<lparr>lock_file := None\<rparr> = d" "d\<lparr>staged_file := (staged_file d)(p := None)\<rparr> = d" using assms un by simp_all
  have val: "file_value (d\<lparr>lock_file := l, staged_file := f\<rparr>) = file_value d" "file_value (d\<lparr>lock_file := l\<rparr>) = file_value d" for l f
    by (simp_all add: file_value_def)
  have same: "file_decide h (d\<lparr>lock_file := l\<rparr>) e x = file_decide h d e x" for l
    by (simp add: file_decide_def file_read_def val)
  have reread: "file_read h (d\<lparr>lock_file := l, log_file := t\<rparr>) = file_read h (d\<lparr>log_file := t\<rparr>)" for t l
    by (simp add: file_read_def file_value_def)
  note n = numeral_eq_Suc
  show ?thesis
  proof (cases "file_decide h d e x")
    case (Inl er)
    then show ?thesis using assms d un by (simp add: n file_append_def same)
  next
    case (Inr o0)
    then show ?thesis using assms d un
      by (cases o0) (auto simp: n file_append_def same reread Let_def)
  qed
qed

lemma steps_of_one:
  "((\<lambda>(c, d). advance h p (fst (reqs p)) (snd (reqs p)) c d) ^^ n) (points s p, dir s) = (c, d)
   \<Longrightarrow> (store_step h reqs)\<^sup>*\<^sup>* s \<lparr>points = (points s)(p := c), dir = d\<rparr>"
proof (induction n arbitrary: c d)
  case 0
  then have "\<lparr>points = (points s)(p := c), dir = d\<rparr> = s" by (cases s) auto
  then show ?case by (simp only: rtranclp.rtrancl_refl)
next
  case (Suc n)
  obtain c1 d1 where n: "((\<lambda>(c, d). advance h p (fst (reqs p)) (snd (reqs p)) c d) ^^ n) (points s p, dir s) = (c1, d1)"
    by (cases "((\<lambda>(c, d). advance h p (fst (reqs p)) (snd (reqs p)) c d) ^^ n) (points s p, dir s)")
  let ?t = "\<lparr>points = (points s)(p := c1), dir = d1\<rparr>"
  have "advance h p (fst (reqs p)) (snd (reqs p)) c1 d1 = (c, d)" using Suc.prems n by simp
  then have "store_step h reqs ?t \<lparr>points = (points ?t)(p := c), dir = d\<rparr>" by (intro proceed) simp
  then have "store_step h reqs ?t \<lparr>points = (points s)(p := c), dir = d\<rparr>" by simp
  with Suc.IH [OF n] show ?case by (rule rtranclp.rtrancl_into_rtrancl)
qed

section \<open>Properties of the file store\<close>

fun in_body :: "point \<Rightarrow> bool" where
  "in_body Start = False" | "in_body (Unstaging r) = False" | "in_body (Finished r) = False" | "in_body Stopped = False"
| "in_body c = True"

definition fresh_sys :: "run_dir \<Rightarrow> store_sys" where
  "fresh_sys d = \<lparr>points = \<lambda>_. Start, dir = d\<rparr>"

lemma fresh_ok: "log_good h d \<Longrightarrow> sys_ok h reqs (fresh_sys d)"
  by (simp add: fresh_sys_def sys_ok_def)

text \<open>
  C5. Any number of processes append to one run through its directory, in any interleaving of their
  operations on the file system, any of which may throw, and any of them may stop for good anywhere.
  The log on disk is always one the reducer accepts, it grew only by appends that named the revision
  of the log they extended, at most one process is between taking and releasing the lock, and an event
  whose append returned is in the log.
\<close>

theorem concurrent_appends:
  assumes "(store_step h reqs)\<^sup>*\<^sup>* (fresh_sys d) t" and "log_good h d" and "\<And>p. plain (fst (reqs p))"
  shows "accepted h (file_log (dir t)) \<and> grown h reqs (file_log d) (file_log (dir t))
    \<and> (\<forall>p q. in_body (points t p) \<and> in_body (points t q) \<longrightarrow> p = q)
    \<and> (\<forall>p snap. points t p = Finished (Inr snap) \<longrightarrow> holds (file_log (dir t)) (fst (reqs p)))"
proof -
  have ok: "sys_ok h reqs t" and gr: "grown h reqs (file_log d) (file_log (dir t))"
    using store_steps_ok [OF assms(1) fresh_ok [OF assms(2)] assms(3)] by (simp_all add: fresh_sys_def)
  have own: "process_ok h (dir t) (fst (reqs p)) (snd (reqs p)) p (points t p)" for p using ok by (simp add: sys_ok_def)
  have lock: "lock_file (dir t) = Some p" if "in_body (points t p)" for p using own [of p] that by (cases "points t p") auto
  have "holds (file_log (dir t)) (fst (reqs p))" if "points t p = Finished (Inr snap)" for p snap
    using own [of p] that by (simp add: acknowledged_def)
  moreover have "p = q" if "in_body (points t p)" "in_body (points t q)" for p q using lock [OF that(1)] lock [OF that(2)] by simp
  ultimately show ?thesis using gr ok by (auto simp: sys_ok_def log_good_def)
qed

definition linked :: "host \<Rightarrow> js list \<Rightarrow> bool" where
  "linked h es \<longleftrightarrow> distinct (map (\<lambda>e. fld e ''id'') es)
     \<and> (\<forall>i<length es. fld (es ! i) ''previousDigest'' = (if i = 0 then JNull else fld (es ! (i - 1)) ''digest''))
     \<and> (\<exists>so. reduceRun h es = Inr so \<and> head_revision so = (if es = [] then JNull else fld (last es) ''digest''))"

lemma linked_Nil: "linked h []"
  by (simp add: linked_def reduceRun_def head_revision_def)

lemma linked_append:
  assumes "linked h es" and "cas_append h es e x es'"
  shows "linked h es'"
proof -
  obtain so so' where c: "es' = es @ [e]" "\<forall>old\<in>set es. fld old ''id'' \<noteq> fld e ''id''" "reduceRun h es = Inr so" "head_revision so = x"
    using assms(2) unfolding cas_append_def by auto
  obtain so' where r: "reduceRun h es' = Inr so'" "head_revision so' = fld e ''digest''" "fld e ''previousDigest'' = x"
    using cas_append_revision [OF assms(2)] by blast
  have "x = (if es = [] then JNull else fld (last es) ''digest'')" using assms(1) c(3,4) by (auto simp: linked_def)
  with assms(1) c(1,2) r show ?thesis by (auto simp: linked_def nth_append last_conv_nth less_Suc_eq)
qed

lemma grown_linked: "grown h reqs es fs \<Longrightarrow> linked h es \<Longrightarrow> linked h fs"
  by (induction rule: grown.induct) (auto intro: linked_append)

lemma linked_no_fork:
  assumes "linked h es" and "\<forall>a\<in>set es. \<forall>b\<in>set es. fld a ''digest'' = fld b ''digest'' \<longrightarrow> fld a ''id'' = fld b ''id''"
    and "i < length es" and "j < length es" and "fld (es ! i) ''previousDigest'' = fld (es ! j) ''previousDigest''"
  shows "i = j"
proof -
  have prev: "fld (es ! k) ''previousDigest'' = (if k = 0 then JNull else fld (es ! (k - 1)) ''digest'')" if "k < length es" for k
    using assms(1) that by (simp add: linked_def)
  obtain so where "reduceRun h es = Inr so" using assms(1) by (auto simp: linked_def)
  then have dig: "\<exists>d. fld (es ! k) ''digest'' = JStr d" if "k < length es" for k
    by (rule valid_event_digest [OF reduceRun_valid]) (use that in simp_all)
  have ids: "fld (es ! k) ''id'' = fld (es ! l) ''id'' \<longleftrightarrow> k = l" if "k < length es" "l < length es" for k l
    using assms(1) that nth_eq_iff_index_eq [of "map (\<lambda>e. fld e ''id'') es" k l] by (simp add: linked_def)
  have same: "k = l" if "k < length es" "l < length es" "fld (es ! k) ''digest'' = fld (es ! l) ''digest''" for k l
    using assms(2) that ids [OF that(1,2)] nth_mem [of k es] nth_mem [of l es] by blast
  show ?thesis
    using assms(3-5) prev [of i] prev [of j] dig [of "i - 1"] dig [of "j - 1"] same [of "i - 1" "j - 1"]
    by (cases i; cases j) auto
qed

text \<open>
  C6. Concurrent writers never fork a run: of two different events made for the same predecessor at most
  one gets into the log, as long as no two of its events have the same hash.
\<close>

theorem no_fork:
  assumes "(store_step h reqs)\<^sup>*\<^sup>* (fresh_sys d) t" and "log_file d = None" and "\<And>p. plain (fst (reqs p))"
    and no_collision: "\<forall>a\<in>set (file_log (dir t)). \<forall>b\<in>set (file_log (dir t)). fld a ''digest'' = fld b ''digest'' \<longrightarrow> fld a ''id'' = fld b ''id''"
    and "a \<in> set (file_log (dir t))" and "b \<in> set (file_log (dir t))" and "fld a ''previousDigest'' = fld b ''previousDigest''"
  shows "a = b"
proof -
  have d: "log_good h d" "file_log d = []"
    using assms(2) by (simp_all add: log_good_def file_log_def file_value_def accepted_def reduceRun_def)
  have "grown h reqs [] (file_log (dir t))" using store_steps_ok [OF assms(1) fresh_ok [OF d(1)] assms(3)] d(2) by (simp add: fresh_sys_def)
  note no_fork' = linked_no_fork [OF grown_linked [OF this linked_Nil] assms(4)]
  obtain i j where "i < length (file_log (dir t))" "a = file_log (dir t) ! i" "j < length (file_log (dir t))" "b = file_log (dir t) ! j"
    using assms(5,6) by (auto simp: in_set_conv_nth)
  with no_fork' [of i j] assms(7) show ?thesis by simp
qed

section \<open>A sample store\<close>

definition empty_dir :: run_dir where
  "empty_dir = \<lparr>log_file = None, lock_file = None, staged_file = \<lambda>_. None\<rparr>"

definition sample_reqs :: "nat \<Rightarrow> js \<times> js" where
  "sample_reqs p = (e_start, JNull)"

lemma empty_dir_good: "dir_good h empty_dir" "file_log empty_dir = []"
  by (simp_all add: dir_good_def log_good_def file_log_def file_value_def accepted_def reduceRun_def empty_dir_def)

lemma e_start_plain: "plain e_start"
  unfolding e_start_def sample_event_def createRunEvent_def sealDeliveryRecord_def
  by (simp add: run_policy_def js_default_def Let_def rat_int_def)

lemma e_candidate_plain: "plain e_candidate"
  unfolding e_candidate_def sample_event_def createRunEvent_def sealDeliveryRecord_def
  by (simp add: js_default_def Let_def rat_int_def)

lemma first_append: "cas_append const_host [] e_start JNull [e_start]"
  using sample_run(1) by (simp add: cas_append_def) (simp add: reduceRun_def head_revision_def)

lemma sample_steps:
  "\<exists>t snap. (store_step const_host sample_reqs)\<^sup>*\<^sup>* (fresh_sys empty_dir) t \<and> points t 0 = Finished (Inr snap) \<and> file_log (dir t) = [e_start]"
proof -
  note F = files.append_succeeds [OF empty_dir_good(1) e_start_plain, unfolded empty_dir_good(2), OF first_append]
  then obtain snap where r: "snd (file_append const_host empty_dir e_start JNull) = Inr snap" by blast
  let ?t = "\<lparr>points = (points (fresh_sys empty_dir))(0 := Finished (Inr snap)), dir = fst (file_append const_host empty_dir e_start JNull)\<rparr>"
  have "(store_step const_host sample_reqs)\<^sup>*\<^sup>* (fresh_sys empty_dir) ?t"
    by (rule steps_of_one [where n = 8], unfold sample_reqs_def fst_conv snd_conv)
      (use append_alone [of empty_dir 0 const_host e_start JNull] r in \<open>simp add: fresh_sys_def empty_dir_def\<close>)
  then show ?thesis using F by (intro exI [of _ ?t] exI [of _ snap]) simp
qed

theorem concurrent_appends_witness:
  "\<exists>t snap. (store_step const_host sample_reqs)\<^sup>*\<^sup>* (fresh_sys empty_dir) t \<and> points t 0 = Finished (Inr snap)
     \<and> accepted const_host (file_log (dir t)) \<and> holds (file_log (dir t)) e_start"
proof -
  obtain t snap where t: "(store_step const_host sample_reqs)\<^sup>*\<^sup>* (fresh_sys empty_dir) t" "points t 0 = Finished (Inr snap)"
    using sample_steps by blast
  have "log_good const_host empty_dir" using empty_dir_good(1) by (simp add: dir_good_def)
  from concurrent_appends [OF t(1) this] t e_start_plain show ?thesis by (force simp: sample_reqs_def)
qed

theorem no_fork_witness:
  "\<exists>t. (store_step const_host sample_reqs)\<^sup>*\<^sup>* (fresh_sys empty_dir) t
     \<and> (\<exists>a\<in>set (file_log (dir t)). \<forall>b\<in>set (file_log (dir t)). fld a ''previousDigest'' = fld b ''previousDigest'' \<longrightarrow> a = b)"
proof -
  obtain t snap where t: "(store_step const_host sample_reqs)\<^sup>*\<^sup>* (fresh_sys empty_dir) t" "file_log (dir t) = [e_start]"
    using sample_steps by blast
  have "e_start = b" if "b \<in> set (file_log (dir t))" "fld e_start ''previousDigest'' = fld b ''previousDigest''" for b
    by (rule no_fork [OF t(1) _ _ _ _ that]) (use t(2) e_start_plain in \<open>simp_all add: empty_dir_def sample_reqs_def\<close>)
  with t show ?thesis by auto
qed

theorem file_store_as_memory_store_witness:
  "file_log (files.served const_host empty_dir [(e_start, JNull), (e_candidate, JNull)])
   = records (memory.served const_host (createMemoryRunStore False) [(e_start, JNull), (e_candidate, JNull)])"
  by (rule file_store_as_memory_store)
    (simp_all add: empty_dir_good e_start_plain e_candidate_plain createMemoryRunStore_def memory_good_def accepted_def reduceRun_def)

end
