(* ===== verification/GitHubStore.thy ===== *)
theory GitHubStore
  imports RunStore Binding
begin

text \<open>
  The run store on a branch of a GitHub repository (src/lib/sources/github-run-store.mjs). The client
  that sends the requests is a parameter: a function of the state of the world and a request that
  gives the next state and the reply, or the status of the error it throws. The store keeps one cached
  snapshot, keyed by the commit it was read at.
\<close>

section \<open>Requests\<close>

datatype verb = Get | Post | Patch

record gh_request =
  rq_verb :: verb
  rq_path :: string
  rq_body :: js

type_synonym 'w client = "'w \<Rightarrow> gh_request \<Rightarrow> 'w \<times> (js + js)"

text \<open>An error of the code itself, or one of the client with its \<open>status\<close>; \<open>admissionOutcome\<close> is a mark on it.\<close>

datatype cause = Thrown jserr | Remote js

record store_error =
  err_cause :: cause
  not_committed :: bool

record 'w gh_state =
  world :: 'w
  cached :: "(string \<times> string) option"

type_synonym ('w, 'a) gh = "'w gh_state \<Rightarrow> 'w gh_state \<times> (store_error + 'a)"

definition gh_bind :: "('w, 'a) gh \<Rightarrow> ('a \<Rightarrow> ('w, 'b) gh) \<Rightarrow> ('w, 'b) gh" where
  "gh_bind m f = (\<lambda>s. case m s of (t, Inl e) \<Rightarrow> (t, Inl e) | (t, Inr x) \<Rightarrow> f x t)"

text \<open>\<open>try { ... } catch (e) { ... }\<close> with the rest of the body in both branches.\<close>

definition gh_try :: "('w, 'a) gh \<Rightarrow> (store_error \<Rightarrow> ('w, 'b) gh) \<Rightarrow> ('a \<Rightarrow> ('w, 'b) gh) \<Rightarrow> ('w, 'b) gh" where
  "gh_try m f g = (\<lambda>s. case m s of (t, Inl e) \<Rightarrow> f e t | (t, Inr x) \<Rightarrow> g x t)"

definition gh_throw :: "store_error \<Rightarrow> ('w, 'a) gh" where
  "gh_throw e = (\<lambda>s. (s, Inl e))"

definition gh_return :: "'a \<Rightarrow> ('w, 'a) gh" where
  "gh_return x = (\<lambda>s. (s, Inr x))"

definition gh_raise :: "jserr \<Rightarrow> ('w, 'a) gh" where
  "gh_raise e = (\<lambda>s. (s, Inl \<lparr>err_cause = Thrown e, not_committed = False\<rparr>))"

abbreviation gh_fail :: "string \<Rightarrow> ('w, 'a) gh" where
  "gh_fail m \<equiv> gh_raise (Error m)"

definition gh_lift :: "'a res \<Rightarrow> ('w, 'a) gh" where
  "gh_lift r = (case r of Inl e \<Rightarrow> gh_raise e | Inr x \<Rightarrow> gh_return x)"

definition ask :: "'w client \<Rightarrow> gh_request \<Rightarrow> ('w, js) gh" where
  "ask client q = (\<lambda>s. case client (world s) q of
       (w, Inl status') \<Rightarrow> (s\<lparr>world := w\<rparr>, Inl \<lparr>err_cause = Remote status', not_committed = False\<rparr>)
     | (w, Inr v) \<Rightarrow> (s\<lparr>world := w\<rparr>, Inr v))"

definition get_of :: "string \<Rightarrow> gh_request" where
  "get_of p = \<lparr>rq_verb = Get, rq_path = p, rq_body = JUndef\<rparr>"

section \<open>Blobs\<close>

definition sextet :: "char \<Rightarrow> nat option" where
  "sextet c = (let n = (of_char c :: nat) in
     if 65 \<le> n \<and> n \<le> 90 then Some (n - 65) else if 97 \<le> n \<and> n \<le> 122 then Some (n - 71)
     else if 48 \<le> n \<and> n \<le> 57 then Some (n + 4) else if n = 43 \<or> n = 45 then Some 62
     else if n = 47 \<or> n = 95 then Some 63 else None)"

fun sextet_bytes :: "nat list \<Rightarrow> nat list" where
  "sextet_bytes (a # b # c # d # r) = (4 * a + b div 16) # (16 * (b mod 16) + c div 4) # (64 * (c mod 4) + d) # sextet_bytes r"
| "sextet_bytes [a, b, c] = [4 * a + b div 16, 16 * (b mod 16) + c div 4]"
| "sextet_bytes [a, b] = [4 * a + b div 16]"
| "sextet_bytes _ = []"

text \<open>\<open>Buffer.from(s, 'base64')\<close>: characters outside the alphabet are skipped, padding ends the text.\<close>

definition base64_bytes :: "string \<Rightarrow> nat list" where
  "base64_bytes s = sextet_bytes (List.map_filter sextet (takeWhile (\<lambda>c. c \<noteq> CHR ''='') s))"

text \<open>\<open>toString('utf8')\<close>; a code point above 255 lies outside the string model.\<close>

fun utf8_text :: "nat list \<Rightarrow> string option" where
  "utf8_text [] = Some []"
| "utf8_text (b # r) =
     (if b < 128 then map_option (\<lambda>t. char_of b # t) (utf8_text r)
      else case r of
        c # r' \<Rightarrow> if (b = 194 \<or> b = 195) \<and> 128 \<le> c \<and> c < 192
          then map_option (\<lambda>t. char_of (64 * (b - 192) + (c - 128)) # t) (utf8_text r') else None
      | [] \<Rightarrow> None)"

definition parsed :: "string \<Rightarrow> js res" where
  "parsed s = (case json_parse s of Some v \<Rightarrow> Inr v | None \<Rightarrow> fail ''SyntaxError'')"

definition blob_text :: "js \<Rightarrow> string res" where
  "blob_text content = (case content of
       JStr s \<Rightarrow> (case utf8_text (base64_bytes (filter (\<lambda>c. c \<noteq> CHR 0x0A) s)) of
         Some t \<Rightarrow> Inr t | None \<Rightarrow> fail ''text outside the string model'')
     | _ \<Rightarrow> bnd (dot content ''replaceAll'') (\<lambda>_. Inl (TypeError ''blob.content.replaceAll is not a function'')))"

section \<open>The store and its coordination branch\<close>

record gh_config =
  cf_repo :: js
  cf_run :: js
  cf_branch :: string
  cf_boundary :: js
  cf_confirm :: js
  cf_cache :: int

definition path_char :: "char \<Rightarrow> bool" where
  "path_char c = (run_id_char c \<or> c = CHR ''.'')"

text \<open>\<open>/^[\w.-]+\/[\w.-]+$/\<close>, \<open>/^[\w/-]+$/\<close> and \<open>/^[\w-]{1,100}$/\<close>\<close>

definition repo_ok :: "string \<Rightarrow> bool" where
  "repo_ok s = (case split_on (CHR ''/'') s of [a, b] \<Rightarrow> a \<noteq> [] \<and> b \<noteq> [] \<and> list_all path_char a \<and> list_all path_char b | _ \<Rightarrow> False)"

definition branch_ok :: "string \<Rightarrow> bool" where
  "branch_ok s = (s \<noteq> [] \<and> list_all (\<lambda>c. run_id_char c \<or> c = CHR ''/'') s)"

definition createGitHubRunStore :: "host \<Rightarrow> js \<Rightarrow> js \<Rightarrow> js \<Rightarrow> js \<Rightarrow> js \<Rightarrow> js \<Rightarrow> gh_config res" where
  "createGitHubRunStore h repo run branch0 bound confirm cacheBytes0 =
     (let cacheBytes = js_default cacheBytes0 (JInt 2097152); branch = js_string h (js_default branch0 (JStr ''agentflow-state'')) in
      case js_int cacheBytes of
        None \<Rightarrow> fail ''Invalid immutable read cache capacity''
      | Some n \<Rightarrow>
          if n < 0 \<or> 2097152 < n then fail ''Invalid immutable read cache capacity''
          else if \<not> repo_ok (js_string h (coal repo (JStr []))) \<or> \<not> run_id_ok h run \<or> \<not> branch_ok branch
          then fail ''Invalid GitHub run store identity''
          else Inr \<lparr>cf_repo = repo, cf_run = run, cf_branch = branch, cf_boundary = bound, cf_confirm = confirm, cf_cache = n\<rparr>)"

definition prefix_of :: "host \<Rightarrow> gh_config \<Rightarrow> string" where
  "prefix_of h cf = ''/repos/'' @ js_string h (cf_repo cf)"

definition file_path :: "host \<Rightarrow> gh_config \<Rightarrow> string" where
  "file_path h cf = ''runs/'' @ js_string h (cf_run cf) @ ''.json''"

definition gh_write :: "'w client \<Rightarrow> gh_config \<Rightarrow> string \<Rightarrow> js \<Rightarrow> verb \<Rightarrow> ('w, js) gh" where
  "gh_write client cf p b v =
     (if \<not> js_eq (cf_boundary cf) (JStr ''external-action'')
      then gh_fail ''Coordination writes require external-action authority''
      else ask client \<lparr>rq_verb = v, rq_path = p, rq_body = b\<rparr>)"

definition picked :: "string list \<Rightarrow> js \<Rightarrow> js res" where
  "picked ks v = (if nullish v then Inl (TypeError ''Cannot destructure'') else Inr (JObj (map (\<lambda>k. (k, fld v k)) ks)))"

definition planGitHubCoordination :: "host \<Rightarrow> 'w client \<Rightarrow> js \<Rightarrow> string \<Rightarrow> ('w, (string \<times> js) list) gh" where
  "planGitHubCoordination h client repo branch =
     (let rp = ''/repos/'' @ js_string h repo in
      if \<not> repo_ok (js_string h repo) \<or> \<not> branch_ok branch then gh_fail ''Invalid coordination destination''
      else gh_bind (ask client (get_of rp)) (\<lambda>repository.
        gh_bind (gh_lift (dot repository ''default_branch'')) (\<lambda>main.
        gh_bind (ask client (get_of (rp @ ''/git/ref/heads/'' @ js_string h main))) (\<lambda>baseline.
        gh_bind (ask client (get_of (rp @ ''/rulesets?includes_parents=true&per_page=100''))) (\<lambda>rulesets.
        gh_bind (ask client (get_of (rp @ ''/actions/workflows?per_page=100''))) (\<lambda>workflows.
        gh_bind (if \<not> is_array rulesets \<or> length (elems rulesets) \<ge> 100 then gh_return True
           else gh_lift (bnd (dot workflows ''workflows'') (\<lambda>ws.
             Inr (\<not> is_array ws \<or> num_less (Fin 100) (to_number h (fld workflows ''total_count'')))))) (\<lambda>incomplete.
        if incomplete then gh_fail ''Coordination preflight is incomplete''
        else gh_bind (gh_lift (bnd (dot baseline ''object'') (\<lambda>ob. dot ob ''sha''))) (\<lambda>base.
          gh_bind (gh_lift (map_res (picked [''id'', ''enforcement'', ''source'', ''updated_at'']) (elems rulesets))) (\<lambda>rs.
          gh_bind (gh_lift (map_res (picked [''id'', ''path'', ''state'', ''updated_at'']) (elems (fld workflows ''workflows'')))) (\<lambda>ws.
          gh_return (sealDeliveryRecord h ''coordination-setup-plan''
            [(''repo'', repo), (''branch'', JStr branch), (''baseline'', base), (''defaultBranch'', main),
             (''contentsPermission'', JStr (if js_eq (fld (fld repository ''permissions'') ''push'') (JBool True)
                then ''declared-available'' else ''unknown'')),
             (''rulesets'', JArr rs), (''workflows'', JArr ws),
             (''requiredReview'', jstrs [''Inspect applicable repository rules'',
                ''Inspect workflows and external automation for coordination-ref effects'',
                ''Authorize contents writes to this exact branch'']),
             (''mutation'', JStr (''Create state-only refs/heads/'' @ branch))])))))))))))"

section \<open>Reading\<close>

text \<open>\<open>/^runs\/[\w-]+\.json$/\<close>\<close>

definition run_file_name :: "string \<Rightarrow> bool" where
  "run_file_name s = (starts_with s ''runs/'' \<and> ends_with (drop 5 s) ''.json'' \<and> 5 < length (drop 5 s)
     \<and> list_all run_id_char (take (length s - 10) (drop 5 s)))"

definition managed_entry :: "host \<Rightarrow> js \<Rightarrow> bool res" where
  "managed_entry h entry = bnd (dot entry ''path'') (\<lambda>p.
     Inr ((js_eq p (JStr ''runs'') \<and> js_eq (fld entry ''type'') (JStr ''tree'') \<and> js_eq (fld entry ''mode'') (JStr ''040000''))
       \<or> (js_eq (fld entry ''type'') (JStr ''blob'') \<and> js_eq (fld entry ''mode'') (JStr ''100644'') \<and> run_file_name (js_string h p))))"

text \<open>The entries of the tree, when every one of them belongs to the store.\<close>

definition tree_entries :: "host \<Rightarrow> js \<Rightarrow> js list res" where
  "tree_entries h tree = bnd (dot tree ''truncated'') (\<lambda>tr.
     if truthy tr then fail ''Coordination tree truncated''
     else case fld tree ''tree'' of
       JArr es \<Rightarrow> bnd (some_res (\<lambda>e. bnd (managed_entry h e) (\<lambda>b. Inr (\<not> b))) es) (\<lambda>foreign.
         if foreign then fail ''Coordination branch contains unmanaged data'' else Inr es)
     | _ \<Rightarrow> fail ''Coordination branch contains unmanaged data'')"

definition blob_events :: "host \<Rightarrow> js \<Rightarrow> js res" where
  "blob_events h blob = bnd (dot blob ''encoding'') (\<lambda>enc.
     if \<not> js_eq enc (JStr ''base64'') \<or> num_less (Fin 1048576) (to_number h (fld blob ''size''))
     then fail ''Invalid or oversized run record''
     else bnd (blob_text (fld blob ''content'')) parsed)"

text \<open>Replaying what was read: the snapshot the store returns.\<close>

definition replayed :: "host \<Rightarrow> gh_config \<Rightarrow> js \<Rightarrow> string \<Rightarrow> js \<Rightarrow> js res" where
  "replayed h cf events sourceRevision treeSha = bnd (js_iter events) (\<lambda>es. bnd (reduceRun h es) (\<lambda>so.
     if (case so of Some st \<Rightarrow> \<not> js_eq (runId st) (cf_run cf) | None \<Rightarrow> False) then fail ''Stored run identity mismatch''
     else Inr (JObj [(''events'', events), (''revision'', head_revision so), (''sourceRevision'', JStr sourceRevision),
       (''treeSha'', treeSha)])))"

text \<open>\<open>/^[a-f0-9]{40}(?:[a-f0-9]{24})?$/\<close>\<close>

definition is_commit_id :: "string \<Rightarrow> bool" where
  "is_commit_id s = ((length s = 40 \<or> length s = 64) \<and> list_all is_hex s)"

definition remember :: "host \<Rightarrow> gh_config \<Rightarrow> string \<Rightarrow> js \<Rightarrow> ('w, unit) gh" where
  "remember h cf sourceRevision result = (\<lambda>s.
     (if is_commit_id sourceRevision \<and> int (byte_length (the (json_text h result))) \<le> cf_cache cf
      then s\<lparr>cached := Some (sourceRevision, the (json_text h result))\<rparr> else s, Inr ()))"

definition fetch_run :: "host \<Rightarrow> 'w client \<Rightarrow> gh_config \<Rightarrow> bool \<Rightarrow> string \<Rightarrow> ('w, js) gh" where
  "fetch_run h client cf cache sourceRevision =
     (let git = prefix_of h cf @ ''/git'' in
      gh_bind (ask client (get_of (git @ ''/commits/'' @ sourceRevision))) (\<lambda>commit.
      gh_bind (gh_lift (bnd (dot commit ''tree'') (\<lambda>t. dot t ''sha''))) (\<lambda>treeSha.
      gh_bind (ask client (get_of (git @ ''/trees/'' @ js_string h treeSha @ ''?recursive=1''))) (\<lambda>tree.
      gh_bind (gh_lift (tree_entries h tree)) (\<lambda>entries.
      gh_bind (case find (\<lambda>item. js_eq (fld item ''path'') (JStr (file_path h cf))) entries of
          None \<Rightarrow> gh_return (JArr [])
        | Some entry \<Rightarrow> gh_bind (ask client (get_of (git @ ''/blobs/'' @ js_string h (fld entry ''sha'')))) (\<lambda>blob.
            gh_lift (blob_events h blob))) (\<lambda>events.
      gh_bind (gh_lift (replayed h cf events sourceRevision treeSha)) (\<lambda>result.
      gh_bind (if cache then remember h cf sourceRevision result else gh_return ()) (\<lambda>_.
      gh_return result))))))))"

definition no_run :: js where
  "no_run = JObj [(''events'', JArr []), (''revision'', JNull), (''sourceRevision'', JNull)]"

definition forgetting :: "('w, 'a) gh \<Rightarrow> ('w, 'a) gh" where
  "forgetting m = (\<lambda>s. m (s\<lparr>cached := None\<rparr>))"

definition read_at :: "host \<Rightarrow> 'w client \<Rightarrow> gh_config \<Rightarrow> bool \<Rightarrow> string \<Rightarrow> ('w, js) gh" where
  "read_at h client cf cache sha = (\<lambda>s. case cached s of
       Some (sr, text) \<Rightarrow> if cache \<and> sr = sha then gh_lift (parsed text) s else forgetting (fetch_run h client cf cache sha) s
     | None \<Rightarrow> fetch_run h client cf cache sha s)"

definition nonempty_text :: "js \<Rightarrow> string option" where
  "nonempty_text v = (case v of JStr s \<Rightarrow> if s = [] then None else Some s | _ \<Rightarrow> None)"

definition gh_read :: "host \<Rightarrow> 'w client \<Rightarrow> gh_config \<Rightarrow> bool \<Rightarrow> ('w, js) gh" where
  "gh_read h client cf cache =
     gh_try (ask client (get_of (prefix_of h cf @ ''/git/ref/heads/'' @ cf_branch cf)))
       (\<lambda>e. forgetting (if err_cause e = Remote (JNat 404) then gh_return no_run else gh_throw e))
       (\<lambda>ref. case nonempty_text (fld (fld ref ''object'') ''sha'') of
          Some sha \<Rightarrow> read_at h client cf cache sha
        | None \<Rightarrow> forgetting (gh_fail ''Missing coordination revision''))"

section \<open>Appending\<close>

definition has_event :: "js \<Rightarrow> js \<Rightarrow> bool res" where
  "has_event snap event = (case fld snap ''events'' of
       JArr es \<Rightarrow> Inr (list_ex (\<lambda>item. js_eq (fld item ''id'') (fld event ''id'') \<and> js_eq (fld item ''digest'') (fld event ''digest'')) es)
     | _ \<Rightarrow> Inl (TypeError ''events.some is not a function''))"

text \<open>Room kept free for the remaining safety checkpoints, 4 KiB each.\<close>

definition size_limit :: "host \<Rightarrow> run_state option \<Rightarrow> jsnum" where
  "size_limit h so = (case so of
       None \<Rightarrow> Fin 1048576
     | Some st \<Rightarrow> if \<not> truthy (delegationPolicy st) then Fin 1048576
         else (case to_number h (fld (delegationPolicy st) ''safetyReserve'') of
             Fin r \<Rightarrow> Fin (1048576 - max 0 (r - of_nat (safetyUsed st)) * 4096)
           | PosInf \<Rightarrow> NegInf | NegInf \<Rightarrow> Fin 1048576 | NaN \<Rightarrow> NaN))"

text \<open>The content of the run file with the event, its commit and the update of the branch.\<close>

definition stage_commit :: "host \<Rightarrow> 'w client \<Rightarrow> gh_config \<Rightarrow> js \<Rightarrow> js \<Rightarrow> string \<Rightarrow> ('w, js) gh" where
  "stage_commit h client cf current event content =
     (let git = prefix_of h cf @ ''/git''; tsha = fld current ''treeSha''; sr = fld current ''sourceRevision'' in
      gh_bind (gh_write client cf (git @ ''/blobs'') (JObj [(''content'', JStr content), (''encoding'', JStr ''utf-8'')]) Post) (\<lambda>blob.
      gh_bind (gh_lift (dot blob ''sha'')) (\<lambda>bsha.
      gh_bind (gh_write client cf (git @ ''/trees'') (JObj ((if truthy tsha then [(''base_tree'', tsha)] else [])
         @ [(''tree'', JArr [JObj [(''path'', JStr (file_path h cf)), (''mode'', JStr ''100644''), (''type'', JStr ''blob''),
              (''sha'', bsha)]])])) Post) (\<lambda>tree.
      gh_bind (gh_lift (dot tree ''sha'')) (\<lambda>nsha.
      gh_write client cf (git @ ''/commits'') (JObj [(''message'', JStr (''Agentflow '' @ js_string h (cf_run cf) @ '': ''
           @ js_string h (fld event ''kind''))), (''tree'', nsha), (''parents'', JArr (if truthy sr then [sr] else []))]) Post)))))"

definition move_branch :: "host \<Rightarrow> 'w client \<Rightarrow> gh_config \<Rightarrow> js \<Rightarrow> js \<Rightarrow> ('w, js) gh" where
  "move_branch h client cf current commit = gh_bind (gh_lift (dot commit ''sha'')) (\<lambda>csha.
     if truthy (fld current ''sourceRevision'')
      then gh_write client cf (prefix_of h cf @ ''/git/refs/heads/'' @ cf_branch cf) (JObj [(''sha'', csha), (''force'', JBool False)]) Patch
      else gh_write client cf (prefix_of h cf @ ''/git/refs'')
        (JObj [(''ref'', JStr (''refs/heads/'' @ cf_branch cf)), (''sha'', csha)]) Post)"

definition marked :: "store_error \<Rightarrow> store_error" where
  "marked e = (case err_cause e of
       Remote status' \<Rightarrow> if js_includes [JNat 409, JNat 422] status' then e\<lparr>not_committed := True\<rparr> else e
     | Thrown _ \<Rightarrow> e)"

text \<open>A refused update is read back before the append gives up; an accepted one is confirmed.\<close>

definition settle_update :: "host \<Rightarrow> 'w client \<Rightarrow> gh_config \<Rightarrow> js \<Rightarrow> js \<Rightarrow> js \<Rightarrow> ('w, js) gh" where
  "settle_update h client cf current event commit =
     gh_try (move_branch h client cf current commit)
       (\<lambda>e. gh_bind (gh_read h client cf False) (\<lambda>reconciled.
         gh_bind (gh_lift (has_event reconciled event)) (\<lambda>b.
         if b then gh_return reconciled else gh_throw (marked e))))
       (\<lambda>_. gh_bind (gh_read h client cf False) (\<lambda>confirmed.
         gh_bind (gh_lift (has_event confirmed event)) (\<lambda>b.
         if b then gh_return confirmed else gh_fail ''Coordination outcome unknown'')))"

definition gh_setup :: "host \<Rightarrow> 'w client \<Rightarrow> gh_config \<Rightarrow> js \<Rightarrow> ('w, unit) gh" where
  "gh_setup h client cf current =
     (if truthy (fld current ''sourceRevision'') then gh_return ()
      else gh_bind (planGitHubCoordination h client (cf_repo cf) (cf_branch cf)) (\<lambda>plan.
        if \<not> js_eq (cf_confirm cf) (fld (JObj plan) ''digest'')
        then gh_fail ''Explicit current coordination setup confirmation required'' else gh_return ()))"

definition gh_commit :: "host \<Rightarrow> 'w client \<Rightarrow> gh_config \<Rightarrow> js \<Rightarrow> js list \<Rightarrow> js \<Rightarrow> ('w, js) gh" where
  "gh_commit h client cf current es event =
     gh_bind (gh_lift (reduceRun h (es @ [event]))) (\<lambda>proposed.
     let content = the (json_text h (JArr (es @ [event]))) in
     if num_less (size_limit h proposed) (Fin (of_nat (byte_length content))) then gh_fail ''Run exceeds bounded record size''
     else gh_bind (gh_setup h client cf current) (\<lambda>_.
       gh_bind (stage_commit h client cf current event content) (\<lambda>commit.
       settle_update h client cf current event commit)))"

definition gh_append :: "host \<Rightarrow> 'w client \<Rightarrow> gh_config \<Rightarrow> js \<Rightarrow> js \<Rightarrow> ('w, js) gh" where
  "gh_append h client cf event expected =
     gh_bind (gh_lift (requireDeliveryRecord h event ''run-event'')) (\<lambda>_.
     if \<not> js_eq (fld event ''runId'') (cf_run cf) then gh_fail ''Run identity mismatch''
     else gh_bind (gh_read h client cf True) (\<lambda>current.
       case fld current ''events'' of
         JArr es \<Rightarrow>
           (case find (\<lambda>item. js_eq (fld item ''id'') (fld event ''id'')) es of
              Some prior \<Rightarrow> if \<not> js_eq (fld prior ''digest'') (fld event ''digest'') then gh_fail ''Conflicting event''
                else gh_return current
            | None \<Rightarrow>
                if \<not> js_eq (fld current ''revision'') expected
                then gh_throw \<lparr>err_cause = Thrown (Error ''Source revision conflict''), not_committed = True\<rparr>
                else gh_commit h client cf current es event)
       | _ \<Rightarrow> gh_raise (TypeError ''current.events.find is not a function'')))"

section \<open>Successful runs of the monad\<close>

lemma gh_bind_Inr: "gh_bind m f s = (t, Inr y) \<longleftrightarrow> (\<exists>s1 x. m s = (s1, Inr x) \<and> f x s1 = (t, Inr y))"
  by (auto simp: gh_bind_def split: prod.splits sum.splits)

lemma gh_try_Inr: "gh_try m f g s = (t, Inr y) \<longleftrightarrow>
    (\<exists>s1 e. m s = (s1, Inl e) \<and> f e s1 = (t, Inr y)) \<or> (\<exists>s1 x. m s = (s1, Inr x) \<and> g x s1 = (t, Inr y))"
  by (auto simp: gh_try_def split: prod.splits sum.splits)

lemma gh_throw_Inr: "gh_throw e s \<noteq> (t, Inr y)"
  by (simp add: gh_throw_def)

lemma gh_return_Inr: "gh_return x s = (t, Inr y) \<longleftrightarrow> t = s \<and> y = x"
  by (auto simp: gh_return_def)

lemma gh_raise_Inr: "gh_raise e s \<noteq> (t, Inr y)"
  by (simp add: gh_raise_def)

lemma gh_lift_Inr: "gh_lift r s = (t, Inr y) \<longleftrightarrow> t = s \<and> r = Inr y"
  by (auto simp: gh_lift_def gh_return_def gh_raise_def split: sum.splits)

lemmas gh_Inr = gh_bind_Inr gh_try_Inr gh_throw_Inr gh_return_Inr gh_raise_Inr gh_lift_Inr

section \<open>What a snapshot holds\<close>

definition snapshot_ok :: "host \<Rightarrow> gh_config \<Rightarrow> js \<Rightarrow> bool" where
  "snapshot_ok h cf snap \<longleftrightarrow> (\<exists>es so. js_iter (fld snap ''events'') = Inr es \<and> reduceRun h es = Inr so
     \<and> (\<forall>st. so = Some st \<longrightarrow> runId st = cf_run cf) \<and> fld snap ''revision'' = head_revision so)"

lemma replayed_ok: "replayed h cf events sr tsha = Inr snap \<Longrightarrow> snapshot_ok h cf snap"
proof -
  assume "replayed h cf events sr tsha = Inr snap"
  then obtain es so where es: "js_iter events = Inr es" "reduceRun h es = Inr so" "\<And>st. so = Some st \<Longrightarrow> js_eq (runId st) (cf_run cf)"
    and snap: "snap = JObj [(''events'', events), (''revision'', head_revision so), (''sourceRevision'', JStr sr), (''treeSha'', tsha)]"
    by (auto simp: replayed_def if_Inl_Inr split: option.splits)
  have "fld snap ''events'' = events" "fld snap ''revision'' = head_revision so"
    by (simp_all add: snap fld_def obj_get_def)
  with es show ?thesis unfolding snapshot_ok_def by (blast intro: js_eq_imp_eq)
qed

lemma has_event_holds: "has_event snap event = Inr True \<Longrightarrow> \<exists>es. fld snap ''events'' = JArr es \<and> holds es event"
  by (fastforce simp: has_event_def holds_def list_ex_iff split: js.splits dest: js_eq_imp_eq)

lemma ask_get_cong: "(\<And>w q. rq_verb q = Get \<Longrightarrow> c1 w q = c2 w q) \<Longrightarrow> ask c1 (get_of p) = ask c2 (get_of p)"
  by (simp add: ask_def get_of_def fun_eq_iff)

text \<open>
  C10. Without the external-action boundary the store sends nothing but reads: what an append does and returns
  does not depend on how the source answers any writing request.
\<close>

theorem no_write_without_authority:
  assumes "cf_boundary cf \<noteq> JStr ''external-action''" and "\<And>w q. rq_verb q = Get \<Longrightarrow> c1 w q = c2 w q"
  shows "gh_append h c1 cf event expected = gh_append h c2 cf event expected"
proof -
  have get: "ask c1 (get_of p) = ask c2 (get_of p)" for p by (rule ask_get_cong) (rule assms(2))
  have wr: "gh_write c1 cf p b v = gh_write c2 cf p b v" for p b v
    using assms(1) by (auto simp: gh_write_def dest: js_eq_imp_eq)
  have fetch: "fetch_run h c1 cf cache sr = fetch_run h c2 cf cache sr" for cache sr
    unfolding fetch_run_def get ..
  have rd: "gh_read h c1 cf cache = gh_read h c2 cf cache" for cache
    unfolding gh_read_def read_at_def fetch get ..
  have move: "move_branch h c1 cf current csha = move_branch h c2 cf current csha" for current csha
    unfolding move_branch_def wr ..
  have commit: "gh_commit h c1 cf current es event = gh_commit h c2 cf current es event" for current es
    unfolding gh_commit_def gh_setup_def planGitHubCoordination_def stage_commit_def settle_update_def move get wr rd ..
  show ?thesis unfolding gh_append_def rd commit ..
qed

section \<open>The order of the writes\<close>

text \<open>The client with a record of what was sent and answered.\<close>

type_synonym wire = "(gh_request \<times> (js + js)) list"

definition logged :: "'w client \<Rightarrow> ('w \<times> wire) client" where
  "logged client wl q = (case client (fst wl) q of (w, r) \<Rightarrow> ((w, snd wl @ [(q, r)]), r))"

definition writes :: "wire \<Rightarrow> wire" where
  "writes l = filter (\<lambda>(q, r). rq_verb q \<noteq> Get) l"

definition sends :: "('w \<times> wire, 'a) gh \<Rightarrow> (wire \<Rightarrow> store_error + 'a \<Rightarrow> bool) \<Rightarrow> bool" where
  "sends m R \<longleftrightarrow> (\<forall>s t r. m s = (t, r) \<longrightarrow> (\<exists>l. snd (world t) = snd (world s) @ l \<and> R (writes l) r))"

definition unmarked :: "store_error + 'a \<Rightarrow> bool" where
  "unmarked r \<longleftrightarrow> (\<forall>e. r = Inl e \<longrightarrow> \<not> not_committed e)"

abbreviation sig :: "gh_request \<times> (js + js) \<Rightarrow> verb \<times> string" where
  "sig x \<equiv> (rq_verb (fst x), rq_path (fst x))"

text \<open>The writes of \<open>m\<close> are the requests \<open>ps\<close> in order, all of them if it returns, and its errors carry no mark.\<close>

definition writing :: "(verb \<times> string) list \<Rightarrow> ('w \<times> wire, 'a) gh \<Rightarrow> bool" where
  "writing ps m \<longleftrightarrow> sends m (\<lambda>l r. (\<exists>k. map sig l = take k ps) \<and> ((\<exists>x. r = Inr x) \<longrightarrow> map sig l = ps) \<and> unmarked r)"

lemma writes_append: "writes (a @ b) = writes a @ writes b"
  by (simp add: writes_def)

lemma sends_try:
  assumes "sends m R" and "\<And>e l. R l (Inl e) \<Longrightarrow> sends (f e) (\<lambda>l' r. S (l @ l') r)"
    and "\<And>x l. R l (Inr x) \<Longrightarrow> sends (g x) (\<lambda>l' r. S (l @ l') r)"
  shows "sends (gh_try m f g) S"
  unfolding sends_def
proof (intro allI impI)
  fix s t r assume run: "gh_try m f g s = (t, r)"
  obtain u q where u: "m s = (u, q)" by (cases "m s")
  then obtain l where l: "snd (world u) = snd (world s) @ l" "R (writes l) q" using assms(1) unfolding sends_def by blast
  define k where "k = (case q of Inl e \<Rightarrow> f e | Inr x \<Rightarrow> g x)"
  have "k u = (t, r)" using run u by (simp add: gh_try_def k_def split: sum.splits)
  moreover have "sends k (\<lambda>l' r. S (writes l @ l') r)" using assms(2,3) l(2) by (auto simp: k_def split: sum.split)
  ultimately obtain l' where "snd (world t) = snd (world u) @ l'" "S (writes l @ writes l') r" unfolding sends_def by blast
  with l(1) show "\<exists>l. snd (world t) = snd (world s) @ l \<and> S (writes l) r"
    by (intro exI [of _ "l @ l'"]) (simp add: writes_append)
qed

lemma sends_throw: "S [] (Inl e) \<Longrightarrow> sends (gh_throw e) S"
  unfolding sends_def gh_throw_def by (auto simp: writes_def intro: exI [of _ "[]"])

lemma sends_bind:
  assumes "sends m R" and "\<And>e l. R l (Inl e) \<Longrightarrow> S l (Inl e)" and "\<And>x l. R l (Inr x) \<Longrightarrow> sends (f x) (\<lambda>l' r. S (l @ l') r)"
  shows "sends (gh_bind m f) S"
proof -
  have "gh_bind m f = gh_try m gh_throw f" by (simp add: gh_bind_def gh_try_def gh_throw_def fun_eq_iff)
  then show ?thesis using assms by (auto intro!: sends_try [OF assms(1)] sends_throw)
qed

lemma sends_weaken: "sends m R \<Longrightarrow> (\<And>l r. R l r \<Longrightarrow> S l r) \<Longrightarrow> sends m S"
  unfolding sends_def by blast

lemma sends_still: "(\<And>s. snd (world (fst (m s))) = snd (world s) \<and> unmarked (snd (m s))) \<Longrightarrow> writing [] m"
  unfolding writing_def sends_def
proof (intro allI impI)
  fix s t r assume st: "\<And>s. snd (world (fst (m s))) = snd (world s) \<and> unmarked (snd (m s))" and "m s = (t, r)"
  with st [of s] show "\<exists>l. snd (world t) = snd (world s) @ l \<and> (\<exists>k. map sig (writes l) = take k [])
      \<and> ((\<exists>x. r = Inr x) \<longrightarrow> map sig (writes l) = []) \<and> unmarked r"
    by (intro exI [of _ "[]"]) (simp add: writes_def)
qed

lemma writing_simple [intro, simp]:
  "writing [] (gh_return x)" "writing [] (gh_raise e)" "writing [] (gh_lift r)" "writing [] (remember h cf sr v)"
  by (rule sends_still; simp add: gh_return_def gh_raise_def gh_lift_def remember_def unmarked_def split: sum.split)+

lemma ask_sends: "sends (ask (logged client) q) (\<lambda>l r.
    (\<exists>st. l = writes [(q, Inl st)] \<and> r = Inl \<lparr>err_cause = Remote st, not_committed = False\<rparr>) \<or> (\<exists>v. l = writes [(q, Inr v)] \<and> r = Inr v))"
  unfolding sends_def
proof (intro allI impI)
  fix s t r assume run: "ask (logged client) q s = (t, r)"
  obtain w rep where c: "client (fst (world s)) q = (w, rep)" by (cases "client (fst (world s)) q")
  with run show "\<exists>l. snd (world t) = snd (world s) @ l \<and> ((\<exists>st. writes l = writes [(q, Inl st)] \<and> r = Inl \<lparr>err_cause = Remote st, not_committed = False\<rparr>)
      \<or> (\<exists>v. writes l = writes [(q, Inr v)] \<and> r = Inr v))"
    by (intro exI [of _ "[(q, rep)]"]) (cases rep, auto simp: ask_def logged_def)
qed

lemma writing_get [intro, simp]: "writing [] (ask (logged client) (get_of p))"
  unfolding writing_def
  by (rule sends_weaken [OF ask_sends]) (auto simp: writes_def get_of_def unmarked_def)

lemma writing_write [intro]:
  fixes client :: "'w client"
  assumes v: "v \<noteq> Get"
  shows "writing [(v, p)] (gh_write (logged client) cf p b v)"
proof -
  have "writing [(v, p)] (ask (logged client) \<lparr>rq_verb = v, rq_path = p, rq_body = b\<rparr>)"
    unfolding writing_def
    by (rule sends_weaken [OF ask_sends]) (use v in \<open>auto simp: writes_def unmarked_def intro: exI [of _ 1]\<close>)
  moreover have "writing [(v, p)] (gh_fail x :: ('w \<times> wire, js) gh)" for x
    unfolding writing_def gh_raise_def gh_throw_def [symmetric] by (rule sends_throw) (auto simp: unmarked_def intro: exI [of _ 0])
  ultimately show ?thesis by (simp add: gh_write_def)
qed

lemma take_min_append: "take (min k (length ps)) (ps @ qs) = take k ps"
  by (simp add: min_def)

lemma take_past: "take (length ps + k) (ps @ qs) = ps @ take k qs"
  by simp

lemma writing_bind:
  fixes m :: "('w \<times> wire, 'x) gh" and f :: "'x \<Rightarrow> ('w \<times> wire, 'y) gh"
  assumes "writing ps m" and "\<And>x. writing qs (f x)"
  shows "writing (ps @ qs) (gh_bind m f)"
  unfolding writing_def
proof (rule sends_bind [OF assms(1) [unfolded writing_def]])
  fix e l assume R: "(\<exists>k. map sig l = take k ps) \<and> ((\<exists>x. Inl e = Inr x) \<longrightarrow> map sig l = ps) \<and> unmarked (Inl e)"
  then obtain k where k: "map sig l = take k ps" by blast
  then have "map sig l = take (min k (length ps)) (ps @ qs)" by (simp only: take_min_append)
  moreover have "\<not> not_committed e" using R by (simp add: unmarked_def)
  ultimately show "(\<exists>k. map sig l = take k (ps @ qs)) \<and> ((\<exists>x. Inl e = Inr x) \<longrightarrow> map sig l = ps @ qs) \<and> unmarked (Inl e)"
    unfolding unmarked_def by blast
next
  fix x :: 'x and l assume "(\<exists>k. map sig l = take k ps) \<and> ((\<exists>y. Inr x = Inr y) \<longrightarrow> map sig l = ps) \<and> unmarked (Inr x)"
  then have l: "map sig l = ps" by simp
  show "sends (f x) (\<lambda>l' r. (\<exists>k. map sig (l @ l') = take k (ps @ qs)) \<and> ((\<exists>x. r = Inr x) \<longrightarrow> map sig (l @ l') = ps @ qs) \<and> unmarked r)"
  proof (rule sends_weaken [OF assms(2) [unfolded writing_def]])
    fix l' r assume R: "(\<exists>k. map sig l' = take k qs) \<and> ((\<exists>x. r = Inr x) \<longrightarrow> map sig l' = qs) \<and> unmarked r"
    then obtain k where "map sig l' = take k qs" by blast
    with l have "map sig (l @ l') = take (length ps + k) (ps @ qs)" by simp
    with R l show "(\<exists>k. map sig (l @ l') = take k (ps @ qs)) \<and> ((\<exists>x. r = Inr x) \<longrightarrow> map sig (l @ l') = ps @ qs) \<and> unmarked r"
      by (metis map_append)
  qed
qed

lemmas quiet_bind = writing_bind [of "[]" _ "[]", simplified]

lemma quiet_try:
  assumes "writing [] m" and "\<And>e. \<not> not_committed e \<Longrightarrow> writing [] (f e)" and "\<And>x. writing [] (g x)"
  shows "writing [] (gh_try m f g)"
  unfolding writing_def
  by (rule sends_try [OF assms(1) [unfolded writing_def]])
    (use assms(2,3) in \<open>auto simp: writing_def unmarked_def elim!: sends_weaken\<close>)

lemma quiet_forgetting: "writing [] m \<Longrightarrow> writing [] (forgetting m)"
  unfolding writing_def sends_def forgetting_def by fastforce

lemma quiet_throw: "\<not> not_committed e \<Longrightarrow> writing [] (gh_throw e)"
  unfolding writing_def by (rule sends_throw) (simp add: unmarked_def)

lemma writing_pointwise:
  assumes "\<And>s. \<exists>m. f s = m s \<and> writing ps m"
  shows "writing ps f"
  unfolding writing_def sends_def
proof (intro allI impI)
  fix s t r assume run: "f s = (t, r)"
  obtain m where m: "f s = m s" "writing ps m" using assms by blast
  from m(2) [unfolded writing_def sends_def, rule_format, of s t r] m(1) run
  show "\<exists>l. snd (world t) = snd (world s) @ l \<and> (\<exists>k. map sig (writes l) = take k ps)
      \<and> ((\<exists>x. r = Inr x) \<longrightarrow> map sig (writes l) = ps) \<and> unmarked r" by simp
qed

lemma fetch_quiet: "writing [] (fetch_run h (logged client) cf cache sr)"
  unfolding fetch_run_def Let_def by (intro quiet_bind) (auto split: option.split intro: quiet_bind)

lemma read_at_quiet: "writing [] (read_at h (logged client) cf cache sha)"
proof -
  let ?f = "fetch_run h (logged client) cf cache sha"
  have "\<exists>m. read_at h (logged client) cf cache sha s = m s \<and> writing [] m" for s
  proof (cases "cached s")
    case (Some p)
    then show ?thesis
      by (intro exI [of _ "if cache \<and> fst p = sha then gh_lift (parsed (snd p)) else forgetting ?f"])
        (simp add: read_at_def case_prod_beta fetch_quiet quiet_forgetting)
  qed (auto simp: read_at_def fetch_quiet)
  then show ?thesis by (rule writing_pointwise)
qed

lemma gh_read_quiet: "writing [] (gh_read h (logged client) cf cache)"
  unfolding gh_read_def
proof (rule quiet_try [OF writing_get])
  fix e :: store_error assume "\<not> not_committed e"
  then show "writing [] (forgetting (if err_cause e = Remote (JNat 404) then gh_return no_run else gh_throw e))"
    by (intro quiet_forgetting) (simp add: quiet_throw)
next
  fix ref
  show "writing [] (case nonempty_text (fld (fld ref ''object'') ''sha'') of None \<Rightarrow> forgetting (gh_fail ''Missing coordination revision'')
      | Some sha \<Rightarrow> read_at h (logged client) cf cache sha)"
    by (cases "nonempty_text (fld (fld ref ''object'') ''sha'')") (simp_all add: read_at_quiet quiet_forgetting)
qed

lemma setup_quiet: "writing [] (gh_setup h (logged client) cf current)"
  unfolding gh_setup_def planGitHubCoordination_def Let_def by (simp add: quiet_bind)

lemma stage_commit_writing:
  "writing [(Post, prefix_of h cf @ ''/git/blobs''), (Post, prefix_of h cf @ ''/git/trees''), (Post, prefix_of h cf @ ''/git/commits'')]
     (stage_commit h (logged client) cf current event content)"
proof -
  let ?p = "\<lambda>x. (Post, prefix_of h cf @ ''/git'' @ x)"
  have "writing ([?p ''/blobs''] @ [] @ [?p ''/trees''] @ [] @ [?p ''/commits'']) (stage_commit h (logged client) cf current event content)"
    unfolding stage_commit_def Let_def append_assoc by (intro writing_bind writing_write writing_simple) simp_all
  then show ?thesis by simp
qed

text \<open>The outcome of an append and the writes it sent.\<close>

definition update_sig :: "host \<Rightarrow> gh_config \<Rightarrow> js \<Rightarrow> verb \<times> string" where
  "update_sig h cf current = (if truthy (fld current ''sourceRevision'')
     then (Patch, prefix_of h cf @ ''/git/refs/heads/'' @ cf_branch cf) else (Post, prefix_of h cf @ ''/git/refs''))"

definition refused_update :: "wire \<Rightarrow> bool" where
  "refused_update l \<longleftrightarrow> (\<exists>q st. l \<noteq> [] \<and> last l = (q, Inl st) \<and> st \<in> {JNat 409, JNat 422})"

lemma move_branch_sends:
  fixes client :: "'w client"
  shows "sends (move_branch h (logged client) cf current commit) (\<lambda>l r.
    (l = [] \<and> (\<exists>e. r = Inl \<lparr>err_cause = Thrown e, not_committed = False\<rparr>))
    \<or> (\<exists>q rep. l = [(q, rep)] \<and> sig (q, rep) = update_sig h cf current
      \<and> (\<forall>e. r = Inl e \<longrightarrow> (\<exists>st. rep = Inl st \<and> e = \<lparr>err_cause = Remote st, not_committed = False\<rparr>))))"
    (is "sends _ ?R")
proof -
  have one: "sends (gh_write (logged client) cf p b v) ?R" if "v \<noteq> Get" "(v, p) = update_sig h cf current" for v p b
  proof (cases "js_eq (cf_boundary cf) (JStr ''external-action'')")
    case True
    then have "gh_write (logged client) cf p b v = ask (logged client) \<lparr>rq_verb = v, rq_path = p, rq_body = b\<rparr>" by (simp add: gh_write_def)
    with that show ?thesis by (auto simp: writes_def intro!: sends_weaken [OF ask_sends])
  next
    case False
    then have "gh_write (logged client) cf p b v = gh_throw \<lparr>err_cause = Thrown (Error ''Coordination writes require external-action authority''), not_committed = False\<rparr>"
      by (simp add: gh_write_def gh_raise_def gh_throw_def)
    then show ?thesis by (auto intro!: sends_throw)
  qed
  show ?thesis
  proof (cases "dot commit ''sha''")
    case (Inl e)
    then have "move_branch h (logged client) cf current commit = gh_throw \<lparr>err_cause = Thrown e, not_committed = False\<rparr>"
      by (simp add: move_branch_def gh_lift_def gh_raise_def gh_bind_def gh_throw_def)
    then show ?thesis by (auto intro!: sends_throw)
  next
    case (Inr csha)
    then have mv: "move_branch h (logged client) cf current commit = (if truthy (fld current ''sourceRevision'')
        then gh_write (logged client) cf (prefix_of h cf @ ''/git/refs/heads/'' @ cf_branch cf) (JObj [(''sha'', csha), (''force'', JBool False)]) Patch
        else gh_write (logged client) cf (prefix_of h cf @ ''/git/refs'') (JObj [(''ref'', JStr (''refs/heads/'' @ cf_branch cf)), (''sha'', csha)]) Post)"
      by (simp add: move_branch_def gh_lift_def gh_return_def gh_bind_def)
    show ?thesis
    proof (cases "truthy (fld current ''sourceRevision'')")
      case True
      then show ?thesis unfolding mv by (simp only: if_True) (rule one, simp_all add: update_sig_def)
    next
      case False
      then show ?thesis unfolding mv by (simp only: if_False) (rule one, simp_all add: update_sig_def)
    qed
  qed
qed

lemma marked_iff: "not_committed (marked e) \<longleftrightarrow> not_committed e \<or> (\<exists>st. err_cause e = Remote st \<and> st \<in> {JNat 409, JNat 422})"
proof -
  have "js_includes [JNat 409, JNat 422] st \<longleftrightarrow> st \<in> {JNat 409, JNat 422}" for st
    by (cases st) (auto simp: js_includes_def same_zero_def)
  then show ?thesis by (auto simp: marked_def split: cause.split)
qed

lemma settle_update_sends:
  "sends (settle_update h (logged client) cf current event csha) (\<lambda>l r.
     (\<exists>k. map sig l = take k [update_sig h cf current]) \<and> (\<forall>e. r = Inl e \<longrightarrow> not_committed e \<longrightarrow> length l = 1 \<and> refused_update l))"
    (is "sends _ ?S")
proof -
  have quiet: "sends m (\<lambda>l' r. ?S (l @ l') r)" if "writing [] m" and "\<exists>k. map sig l = take k [update_sig h cf current]" for l m
    using that(1) unfolding writing_def by (rule sends_weaken) (use that(2) in \<open>auto simp: unmarked_def\<close>)
  show ?thesis
    unfolding settle_update_def
  proof (rule sends_try [OF move_branch_sends])
    fix e l assume R: "(l = [] \<and> (\<exists>x. Inl e = Inl \<lparr>err_cause = Thrown x, not_committed = False\<rparr>))
      \<or> (\<exists>q rep. l = [(q, rep)] \<and> sig (q, rep) = update_sig h cf current
        \<and> (\<forall>x. Inl e = Inl x \<longrightarrow> (\<exists>st. rep = Inl st \<and> x = \<lparr>err_cause = Remote st, not_committed = False\<rparr>)))"
    then have k: "\<exists>k. map sig l = take k [update_sig h cf current]" by (auto intro: exI [of _ 0] exI [of _ 1])
    have thrown: "sends (gh_throw (marked e)) (\<lambda>l' r. ?S (l @ l') r)"
      by (rule sends_throw) (use R k in \<open>auto simp: marked_iff refused_update_def\<close>)
    show "sends (gh_bind (gh_read h (logged client) cf False) (\<lambda>reconciled.
        gh_bind (gh_lift (has_event reconciled event)) (\<lambda>b. if b then gh_return reconciled else gh_throw (marked e)))) (\<lambda>l' r. ?S (l @ l') r)"
    proof (rule sends_bind [OF gh_read_quiet [unfolded writing_def]])
      show "?S (l @ l') (Inl x)" if "(\<exists>k. map sig l' = take k []) \<and> ((\<exists>y. Inl x = Inr y) \<longrightarrow> map sig l' = []) \<and> unmarked (Inl x)" for x l'
        using that k by (auto simp: unmarked_def)
      show "sends (gh_bind (gh_lift (has_event v event)) (\<lambda>b. if b then gh_return v else gh_throw (marked e))) (\<lambda>l'' r. ?S (l @ l' @ l'') r)"
        if "(\<exists>k. map sig l' = take k []) \<and> ((\<exists>y. Inr v = Inr y) \<longrightarrow> map sig l' = []) \<and> unmarked (Inr v)" for v l'
        using that thrown k by (cases "has_event v event") (auto simp: gh_lift_def gh_bind_def gh_return_def gh_throw_def gh_raise_def sends_def)
    qed
  next
    fix x l assume R: "(l = [] \<and> (\<exists>e. Inr x = Inl \<lparr>err_cause = Thrown e, not_committed = False\<rparr>))
      \<or> (\<exists>q rep. l = [(q, rep)] \<and> sig (q, rep) = update_sig h cf current
        \<and> (\<forall>e. Inr x = Inl e \<longrightarrow> (\<exists>st. rep = Inl st \<and> e = \<lparr>err_cause = Remote st, not_committed = False\<rparr>)))"
    show "sends (gh_bind (gh_read h (logged client) cf False) (\<lambda>confirmed. gh_bind (gh_lift (has_event confirmed event)) (\<lambda>b.
        if b then gh_return confirmed else gh_fail ''Coordination outcome unknown''))) (\<lambda>l' r. ?S (l @ l') r)"
      by (rule quiet) (use R in \<open>auto intro!: quiet_bind gh_read_quiet intro: exI [of _ 1]\<close>)
  qed
qed

definition write_plan :: "host \<Rightarrow> gh_config \<Rightarrow> js \<Rightarrow> (verb \<times> string) list" where
  "write_plan h cf current = [(Post, prefix_of h cf @ ''/git/blobs''), (Post, prefix_of h cf @ ''/git/trees''),
     (Post, prefix_of h cf @ ''/git/commits''), update_sig h cf current]"

text \<open>What an append has sent: a beginning of the plan; and when its error says that nothing was committed, nothing or the refused update.\<close>

definition disciplined :: "host \<Rightarrow> gh_config \<Rightarrow> wire \<Rightarrow> store_error + js \<Rightarrow> bool" where
  "disciplined h cf l r \<longleftrightarrow> (\<exists>k current. map sig l = take k (write_plan h cf current))
     \<and> (\<forall>e. r = Inl e \<longrightarrow> not_committed e \<longrightarrow> l = [] \<or> (length l = 4 \<and> refused_update l))"

lemma disciplined_Nil: "unmarked r \<Longrightarrow> disciplined h cf [] r"
  by (auto simp: disciplined_def unmarked_def intro: exI [of _ 0])

lemma quiet_disciplined:
  assumes "writing [] m"
  shows "sends m (disciplined h cf)"
  by (rule sends_weaken [OF assms [unfolded writing_def]]) (simp add: disciplined_Nil)

lemma quiet_then:
  fixes m :: "('w \<times> wire, 'x) gh"
  assumes "writing [] m" and "\<And>x. sends (f x) (disciplined h cf)"
  shows "sends (gh_bind m f) (disciplined h cf)"
proof (rule sends_bind [OF assms(1) [unfolded writing_def]])
  show "disciplined h cf l (Inl e)" if "(\<exists>k. map sig l = take k []) \<and> ((\<exists>x. Inl e = Inr x) \<longrightarrow> map sig l = []) \<and> unmarked (Inl e :: store_error + 'x)" for e l
    using that by (auto simp: unmarked_def intro!: disciplined_Nil)
  show "sends (f x) (\<lambda>l'. disciplined h cf (l @ l'))"
    if "(\<exists>k. map sig l = take k []) \<and> ((\<exists>y. Inr x = Inr y) \<longrightarrow> map sig l = []) \<and> unmarked (Inr x :: store_error + 'x)" for x l
    using that assms(2) by simp
qed

lemma stage_then_settle:
  "sends (gh_bind (stage_commit h (logged client) cf current event content) (settle_update h (logged client) cf current event)) (disciplined h cf)"
proof (rule sends_bind [OF stage_commit_writing [unfolded writing_def]])
  let ?ps = "[(Post, prefix_of h cf @ ''/git/blobs''), (Post, prefix_of h cf @ ''/git/trees''), (Post, prefix_of h cf @ ''/git/commits'')]"
  have plan: "write_plan h cf current = ?ps @ [update_sig h cf current]" by (simp add: write_plan_def)
  fix l :: wire
  { fix e assume R: "(\<exists>k. map sig l = take k ?ps) \<and> ((\<exists>x. Inl e = Inr x) \<longrightarrow> map sig l = ?ps) \<and> unmarked (Inl e)"
    then obtain k where "map sig l = take k ?ps" by blast
    then have "map sig l = take (min k (length ?ps)) (write_plan h cf current)" unfolding plan by (simp only: take_min_append)
    with R show "disciplined h cf l (Inl e)" by (auto simp: disciplined_def unmarked_def) }
  { fix x :: js assume "(\<exists>k. map sig l = take k ?ps) \<and> ((\<exists>y. Inr x = Inr y) \<longrightarrow> map sig l = ?ps) \<and> unmarked (Inr x)"
    then have l: "map sig l = ?ps" by simp
    have "length (map sig l) = 3" unfolding l by simp
    then have len: "length l = 3" by simp
    show "sends (settle_update h (logged client) cf current event x) (\<lambda>l' r. disciplined h cf (l @ l') r)"
    proof (rule sends_weaken [OF settle_update_sends])
      fix l' and r :: "store_error + js" assume R: "(\<exists>k. map sig l' = take k [update_sig h cf current])
        \<and> (\<forall>e. r = Inl e \<longrightarrow> not_committed e \<longrightarrow> length l' = 1 \<and> refused_update l')"
      then obtain k where "map sig l' = take k [update_sig h cf current]" by blast
      with l have "map sig (l @ l') = take (length ?ps + k) (write_plan h cf current)"
        unfolding plan map_append by (simp only: take_past)
      moreover have "refused_update (l @ l')" if "refused_update l'" using that by (auto simp: refused_update_def)
      ultimately show "disciplined h cf (l @ l') r" using R len unfolding disciplined_def by (auto simp del: map_append)
    qed }
qed

lemma gh_append_disciplined: "sends (gh_append h (logged client) cf event expected) (disciplined h cf)"
proof -
  have commit: "sends (gh_commit h (logged client) cf current es event) (disciplined h cf)" for current es
    unfolding gh_commit_def Let_def
    by (intro quiet_then writing_simple) (auto intro: quiet_disciplined intro!: quiet_then setup_quiet stage_then_settle)
  have conflict: "sends (gh_throw \<lparr>err_cause = c, not_committed = True\<rparr>) (disciplined h cf)" for c
    by (rule sends_throw) (auto simp: disciplined_def intro: exI [of _ 0])
  have raise: "sends (gh_raise e) (disciplined h cf)" for e by (rule quiet_disciplined) simp
  have return: "sends (gh_return x) (disciplined h cf)" for x by (rule quiet_disciplined) simp
  show ?thesis
    unfolding gh_append_def
    by (intro quiet_then writing_simple)
      (auto intro!: quiet_then gh_read_quiet commit conflict raise return split: js.split option.split)
qed

text \<open>
  C9. The writes of an append come in one order, blob, tree, commit, branch update, each at most once: an
  update that may have succeeded is never sent again. An error that says nothing was committed comes
  before any write, or after the source refused the branch update with 409 or 422.
\<close>

theorem write_discipline:
  assumes "gh_append h (logged client) cf event expected \<lparr>world = (w, []), cached = c\<rparr> = (t, r)"
  shows "(\<exists>k current. map sig (writes (snd (world t))) = take k (write_plan h cf current))
    \<and> (\<forall>e. r = Inl e \<and> not_committed e \<longrightarrow> writes (snd (world t)) = []
        \<or> (length (writes (snd (world t))) = 4 \<and> refused_update (writes (snd (world t)))))"
proof -
  obtain l where "snd (world t) = l" "disciplined h cf (writes l) r"
    using gh_append_disciplined [unfolded sends_def, rule_format, OF assms] by auto
  then show ?thesis by (auto simp: disciplined_def)
qed

section \<open>A sample source\<close>

text \<open>A source that loses the race: the branch is where the cache says until the update, which it refuses.\<close>

definition sample_sha :: string where
  "sample_sha = replicate 40 (CHR ''a'')"

definition race_client :: "bool client" where
  "race_client moved q = (case rq_verb q of
       Get \<Rightarrow> (moved, if moved then Inl (JNat 404) else Inr (JObj [(''object'', JObj [(''sha'', JStr sample_sha)])]))
     | Post \<Rightarrow> (moved, Inr (JObj [(''sha'', JStr ''new'')]))
     | Patch \<Rightarrow> (True, Inl (JNat 409)))"

definition sample_config :: gh_config where
  "sample_config = \<lparr>cf_repo = JStr ''o/r'', cf_run = JStr ''run-1'', cf_branch = ''agentflow-state'',
     cf_boundary = JStr ''external-action'', cf_confirm = JNull, cf_cache = 2097152\<rparr>"

definition sample_snapshot :: "js list \<Rightarrow> js \<Rightarrow> js" where
  "sample_snapshot es rv = JObj [(''events'', JArr es), (''revision'', rv), (''sourceRevision'', JStr sample_sha), (''treeSha'', JStr ''t'')]"

definition sample_cache :: "js list \<Rightarrow> js \<Rightarrow> (string \<times> string) option" where
  "sample_cache es rv = Some (sample_sha, the (json_text const_host (sample_snapshot es rv)))"

lemma sample_parsed:
  assumes "\<forall>e\<in>set es. plain e" and "plain rv"
  shows "parsed (the (json_text const_host (sample_snapshot es rv))) = Inr (sample_snapshot es rv)"
proof -
  have "plain (sample_snapshot es rv)" using assms by (simp add: sample_snapshot_def)
  from written_read_back [OF plain_stored [OF this] this, of "[]" "[]" const_host] show ?thesis
    by (auto simp: json_write_compact white_def parsed_def)
qed

lemma snapshot_flds: "fld (sample_snapshot es rv) ''events'' = JArr es" "fld (sample_snapshot es rv) ''revision'' = rv"
  "fld (sample_snapshot es rv) ''sourceRevision'' = JStr sample_sha"
  by (simp_all add: sample_snapshot_def fld_def obj_get_def)

lemma ref_sha: "nonempty_text (fld (fld (JObj [(''object'', JObj [(''sha'', JStr sample_sha)])]) ''object'') ''sha'') = Some sample_sha"
  by (simp add: fld_def obj_get_def nonempty_text_def sample_sha_def)

lemma sample_read:
  assumes "\<forall>e\<in>set es. plain e" and "plain rv"
  shows "gh_read const_host (logged race_client) sample_config True \<lparr>world = (False, l), cached = sample_cache es rv\<rparr>
    = (\<lparr>world = (False, l @ [(get_of (prefix_of const_host sample_config @ ''/git/ref/heads/agentflow-state''),
         Inr (JObj [(''object'', JObj [(''sha'', JStr sample_sha)])]))]), cached = sample_cache es rv\<rparr>, Inr (sample_snapshot es rv))"
  by (simp add: gh_read_def gh_try_def ask_def logged_def race_client_def get_of_def ref_sha read_at_def sample_cache_def
      sample_parsed [OF assms] gh_lift_def gh_return_def) (simp add: sample_config_def)

lemma sample_lost:
  "gh_read const_host (logged race_client) sample_config False \<lparr>world = (True, l), cached = c\<rparr>
   = (\<lparr>world = (True, l @ [(get_of (prefix_of const_host sample_config @ ''/git/ref/heads/agentflow-state''), Inl (JNat 404))]), cached = None\<rparr>,
      Inr no_run)"
  by (simp add: gh_read_def gh_try_def ask_def logged_def race_client_def get_of_def forgetting_def gh_return_def) (simp add: sample_config_def)

lemma e_start_run: "requireDeliveryRecord const_host e_start ''run-event'' = Inr e_start" "fld e_start ''runId'' = JStr ''run-1''"
  by (simp_all add: e_start_def sample_valid)

lemma byte_length_bound: "byte_length s \<le> 2 * length s"
  by (induction s) (auto simp: byte_length_def)

lemma sample_size: "length (the (json_text const_host (JArr [e_start]))) \<le> 5000"
  unfolding e_start_def sample_event_def createRunEvent_def sealDeliveryRecord_def
  by (simp add: run_policy_def js_default_def Let_def rat_int_def json_quote_def json_esc_def json_num_def num_str_def run_digest_def)
    (simp add: int_str_def nat_str.simps)

lemma sample_commit_size:
  "reduceRun const_host [e_start] = Inr (Some st_start)"
  "\<not> num_less (size_limit const_host (Some st_start)) (Fin (of_nat (byte_length (the (json_text const_host (JArr [e_start]))))))"
proof -
  show "reduceRun const_host [e_start] = Inr (Some st_start)" by (rule sample_run(1))
  let ?n = "byte_length (the (json_text const_host (JArr [e_start])))"
  have n: "?n \<le> 10000" using byte_length_bound [of "the (json_text const_host (JArr [e_start]))"] sample_size by linarith
  have "size_limit const_host (Some st_start) = Fin (1048576 - 12288)"
    by (simp add: size_limit_def st_start_def run_policy_def fld_def obj_get_def to_number_def)
  then show "\<not> num_less (size_limit const_host (Some st_start)) (Fin (of_nat ?n))" using n by simp
qed

text \<open>The append of the first event against that source: four writes, the last refused, and nothing committed.\<close>

lemma sample_post: "gh_write (logged race_client) sample_config p b Post s = (s\<lparr>world := (fst (world s), snd (world s)
    @ [(\<lparr>rq_verb = Post, rq_path = p, rq_body = b\<rparr>, Inr (JObj [(''sha'', JStr ''new'')]))])\<rparr>, Inr (JObj [(''sha'', JStr ''new'')]))"
  by (simp add: gh_write_def sample_config_def ask_def logged_def race_client_def)

lemma sample_patch: "gh_write (logged race_client) sample_config p b Patch s = (s\<lparr>world := (True, snd (world s)
    @ [(\<lparr>rq_verb = Patch, rq_path = p, rq_body = b\<rparr>, Inl (JNat 409))])\<rparr>, Inl \<lparr>err_cause = Remote (JNat 409), not_committed = False\<rparr>)"
  by (simp add: gh_write_def sample_config_def ask_def logged_def race_client_def)

lemma sample_known: "truthy (fld (sample_snapshot es rv) ''sourceRevision'')"
  by (simp add: snapshot_flds sample_sha_def)

lemma sample_settle:
  "\<exists>t. settle_update const_host (logged race_client) sample_config (sample_snapshot [] JNull) e_start (JObj [(''sha'', JStr ''new'')]) s
     = (t, Inl \<lparr>err_cause = Remote (JNat 409), not_committed = True\<rparr>)"
proof -
  have lost: "\<exists>t. gh_read const_host (logged race_client) sample_config False s = (t, Inr no_run)" if "fst (world s) = True" for s
    using sample_lost [of "snd (world s)" "cached s"] that by (cases s) auto
  have absent: "has_event no_run e_start = Inr False" by (simp add: has_event_def no_run_def fld_def obj_get_def)
  have mark: "marked \<lparr>err_cause = Remote (JNat 409), not_committed = False\<rparr> = \<lparr>err_cause = Remote (JNat 409), not_committed = True\<rparr>"
    by (simp add: marked_def js_includes_def same_zero_def)
  have sha: "fld (JObj [(''sha'', JStr ''new'')]) ''sha'' = JStr ''new''" by (simp add: fld_def obj_get_def)
  obtain u where u: "move_branch const_host (logged race_client) sample_config (sample_snapshot [] JNull) (JObj [(''sha'', JStr ''new'')]) s
      = (u, Inl \<lparr>err_cause = Remote (JNat 409), not_committed = False\<rparr>)" "fst (world u) = True"
    by (auto simp: move_branch_def gh_bind_def gh_lift_def gh_return_def sha sample_known sample_patch)
  obtain v where "gh_read const_host (logged race_client) sample_config False u = (v, Inr no_run)" using lost [OF u(2)] by blast
  with u show ?thesis by (simp add: settle_update_def gh_try_def gh_bind_def absent gh_lift_def gh_return_def gh_throw_def mark [simplified])
qed

lemma sample_race:
  "\<exists>t. gh_append const_host (logged race_client) sample_config e_start JNull \<lparr>world = (False, []), cached = sample_cache [] JNull\<rparr>
     = (t, Inl \<lparr>err_cause = Remote (JNat 409), not_committed = True\<rparr>)"
proof -
  let ?snap = "sample_snapshot [] JNull"
  have sha: "fld (JObj [(''sha'', JStr ''new'')]) ''sha'' = JStr ''new''" by (simp add: fld_def obj_get_def)
  have stage: "\<exists>t. stage_commit const_host (logged race_client) sample_config ?snap e_start content s = (t, Inr (JObj [(''sha'', JStr ''new'')]))" for content s
    unfolding stage_commit_def Let_def by (simp add: gh_bind_def sample_post gh_lift_def gh_return_def sha)
  have commit: "\<exists>t. gh_commit const_host (logged race_client) sample_config ?snap [] e_start s
      = (t, Inl \<lparr>err_cause = Remote (JNat 409), not_committed = True\<rparr>)" for s
  proof -
    obtain u where "stage_commit const_host (logged race_client) sample_config ?snap e_start (the (json_text const_host (JArr [e_start]))) s
        = (u, Inr (JObj [(''sha'', JStr ''new'')]))" using stage by blast
    with sample_settle [of u] sample_commit_size show ?thesis
      by (simp add: gh_commit_def Let_def gh_bind_def gh_lift_def gh_return_def gh_setup_def sample_known del: json_text.simps)
  qed
  have run: "cf_run sample_config = JStr ''run-1''" by (simp add: sample_config_def)
  show ?thesis
    using commit by (simp add: gh_append_def gh_bind_def gh_lift_def gh_return_def e_start_run snapshot_flds sample_read run)
qed

theorem write_discipline_witness:
  "\<exists>t e. gh_append const_host (logged race_client) sample_config e_start JNull \<lparr>world = (False, []), cached = sample_cache [] JNull\<rparr> = (t, Inl e)
     \<and> not_committed e \<and> (writes (snd (world t)) = [] \<or> (length (writes (snd (world t))) = 4 \<and> refused_update (writes (snd (world t)))))"
proof -
  obtain t where t: "gh_append const_host (logged race_client) sample_config e_start JNull \<lparr>world = (False, []), cached = sample_cache [] JNull\<rparr>
      = (t, Inl \<lparr>err_cause = Remote (JNat 409), not_committed = True\<rparr>)" using sample_race by blast
  from write_discipline [OF t] t show ?thesis by auto
qed

definition silent_client :: "bool client" where
  "silent_client moved q = (if rq_verb q = Get then race_client moved q else (moved, Inl JNull))"

theorem no_write_without_authority_witness:
  "gh_append const_host race_client (sample_config\<lparr>cf_boundary := JStr ''observe''\<rparr>) e_start JNull
   = gh_append const_host silent_client (sample_config\<lparr>cf_boundary := JStr ''observe''\<rparr>) e_start JNull"
  by (rule no_write_without_authority) (simp_all add: silent_client_def)

end
