(* ===== verification/GitHubSource.thy ===== *)
theory GitHubSource
  imports GitHubStore
begin

text \<open>
  What a snapshot returned by the branch store (src/lib/sources/github-run-store.mjs) has to do with
  the source: every snapshot is computed from answers the client gave, and the cached one from answers
  given earlier in the same session. A session is the store from its creation on, used any number
  of times while other parties change the repository.
\<close>

section \<open>Answers\<close>

definition answered :: "wire \<Rightarrow> string \<Rightarrow> js \<Rightarrow> bool" where
  "answered l p v \<longleftrightarrow> (get_of p, Inr v) \<in> set l"

text \<open>The branch was reported to be at the commit \<open>sha\<close>.\<close>

definition branch_at :: "host \<Rightarrow> gh_config \<Rightarrow> wire \<Rightarrow> string \<Rightarrow> bool" where
  "branch_at h cf l sha \<longleftrightarrow> (\<exists>ref. answered l (prefix_of h cf @ ''/git/ref/heads/'' @ cf_branch cf) ref
     \<and> nonempty_text (fld (fld ref ''object'') ''sha'') = Some sha)"

text \<open>The content of the run file below the entries of a tree, as answered.\<close>

definition file_answered :: "host \<Rightarrow> gh_config \<Rightarrow> wire \<Rightarrow> js list \<Rightarrow> js \<Rightarrow> bool" where
  "file_answered h cf l files events \<longleftrightarrow>
     (case find (\<lambda>item. js_eq (fld item ''path'') (JStr (file_path h cf))) files of
        None \<Rightarrow> events = JArr []
      | Some entry \<Rightarrow> \<exists>blob. answered l (prefix_of h cf @ ''/git/blobs/'' @ js_string h (fld entry ''sha'')) blob
          \<and> blob_events h blob = Inr events)"

text \<open>\<open>snap\<close> is what the answers say the run is at the commit \<open>sha\<close>.\<close>

definition source_snapshot :: "host \<Rightarrow> gh_config \<Rightarrow> wire \<Rightarrow> string \<Rightarrow> js \<Rightarrow> bool" where
  "source_snapshot h cf l sha snap \<longleftrightarrow> (\<exists>commit tsha tree files events.
     answered l (prefix_of h cf @ ''/git/commits/'' @ sha) commit \<and> bnd (dot commit ''tree'') (\<lambda>t. dot t ''sha'') = Inr tsha
     \<and> answered l (prefix_of h cf @ ''/git/trees/'' @ js_string h tsha @ ''?recursive=1'') tree \<and> tree_entries h tree = Inr files
     \<and> file_answered h cf l files events \<and> replayed h cf events sha tsha = Inr snap)"

lemma answered_mono: "answered l p v \<Longrightarrow> set l \<subseteq> set l' \<Longrightarrow> answered l' p v"
  by (auto simp: answered_def)

lemma file_answered_mono: "file_answered h cf l es events \<Longrightarrow> set l \<subseteq> set l' \<Longrightarrow> file_answered h cf l' es events"
  by (auto simp: file_answered_def split: option.splits intro: answered_mono)

lemma source_snapshot_mono:
  assumes "source_snapshot h cf l sha snap" and sub: "set l \<subseteq> set l'"
  shows "source_snapshot h cf l' sha snap"
proof -
  from assms(1) obtain commit tsha tree es events
    where a: "answered l (prefix_of h cf @ ''/git/commits/'' @ sha) commit" "bnd (dot commit ''tree'') (\<lambda>t. dot t ''sha'') = Inr tsha"
      "answered l (prefix_of h cf @ ''/git/trees/'' @ js_string h tsha @ ''?recursive=1'') tree" "tree_entries h tree = Inr es"
      "file_answered h cf l es events" "replayed h cf events sha tsha = Inr snap"
    unfolding source_snapshot_def by (elim exE conjE) (rule that)
  show ?thesis
    unfolding source_snapshot_def
    by (rule exI [of _ commit], rule exI [of _ tsha], rule exI [of _ tree], rule exI [of _ es], rule exI [of _ events])
      (intro conjI a(2,4,6) answered_mono [OF a(1) sub] answered_mono [OF a(3) sub] file_answered_mono [OF a(5) sub])
qed

section \<open>The cache holds what the source answered\<close>

text \<open>\<open>m\<close> only lengthens the record of answers and keeps the cache.\<close>

definition calm :: "('w \<times> wire, 'a) gh \<Rightarrow> bool" where
  "calm m \<longleftrightarrow> (\<forall>s t r. m s = (t, r) \<longrightarrow> cached t = cached s \<and> (\<exists>l. snd (world t) = snd (world s) @ l))"

definition cache_true :: "host \<Rightarrow> gh_config \<Rightarrow> ('w \<times> wire) gh_state \<Rightarrow> bool" where
  "cache_true h cf s \<longleftrightarrow> (\<forall>sha tx. cached s = Some (sha, tx) \<longrightarrow>
     (\<exists>result. source_snapshot h cf (snd (world s)) sha result \<and> tx = the (json_text h result)))"

definition keeps :: "host \<Rightarrow> gh_config \<Rightarrow> ('w \<times> wire, 'a) gh \<Rightarrow> bool" where
  "keeps h cf m \<longleftrightarrow> (\<forall>s t r. m s = (t, r) \<longrightarrow> cache_true h cf s \<longrightarrow> cache_true h cf t \<and> (\<exists>l. snd (world t) = snd (world s) @ l))"

lemma cache_true_longer:
  assumes "cache_true h cf s" and "cached t = cached s" and "snd (world t) = snd (world s) @ l"
  shows "cache_true h cf t"
proof -
  have "source_snapshot h cf (snd (world t)) sha v" if "source_snapshot h cf (snd (world s)) sha v" for sha v
    by (rule source_snapshot_mono [OF that]) (simp add: assms(3))
  then show ?thesis using assms(1,2) unfolding cache_true_def by simp blast
qed

lemma calm_keeps: "calm m \<Longrightarrow> keeps h cf m"
  unfolding calm_def keeps_def by (fastforce intro: cache_true_longer)

lemma calm_simple [intro, simp]:
  "calm (gh_return x)" "calm (gh_raise e)" "calm (gh_throw er)" "calm (gh_lift r)"
  by (auto simp: calm_def gh_return_def gh_raise_def gh_throw_def gh_lift_def split: sum.splits)

lemma calm_ask [intro, simp]: "calm (ask (logged client) q)"
  by (auto simp: calm_def ask_def logged_def split: prod.splits sum.splits)

lemma calm_write [intro, simp]: "calm (gh_write (logged client) cf p b v)"
  by (simp add: gh_write_def)

lemma calm_bind [intro]:
  assumes "calm m" and "\<And>x. calm (f x)"
  shows "calm (gh_bind m f)"
  unfolding calm_def
proof (intro allI impI)
  fix s t r assume run: "gh_bind m f s = (t, r)"
  obtain u q where u: "m s = (u, q)" by (cases "m s")
  with assms(1) obtain l where l: "cached u = cached s" "snd (world u) = snd (world s) @ l" unfolding calm_def by blast
  show "cached t = cached s \<and> (\<exists>l. snd (world t) = snd (world s) @ l)"
  proof (cases q)
    case (Inr x)
    with run u have "f x u = (t, r)" by (simp add: gh_bind_def)
    with assms(2) [of x] obtain l' where "cached t = cached u" "snd (world t) = snd (world u) @ l'" unfolding calm_def by blast
    with l show ?thesis by simp
  qed (use run u l in \<open>simp add: gh_bind_def\<close>)
qed

lemma keeps_try [intro]:
  assumes "keeps h cf m" and "\<And>e. keeps h cf (f e)" and "\<And>x. keeps h cf (g x)"
  shows "keeps h cf (gh_try m f g)"
  unfolding keeps_def
proof (intro allI impI)
  fix s t r assume run: "gh_try m f g s = (t, r)" and ok: "cache_true h cf s"
  obtain u q where u: "m s = (u, q)" by (cases "m s")
  with assms(1) ok obtain l where l: "cache_true h cf u" "snd (world u) = snd (world s) @ l" unfolding keeps_def by blast
  define k where "k = (case q of Inl e \<Rightarrow> f e | Inr x \<Rightarrow> g x)"
  have "keeps h cf k" using assms(2,3) by (simp add: k_def split: sum.split)
  moreover have "k u = (t, r)" using run u by (simp add: gh_try_def k_def split: sum.splits)
  ultimately obtain l' where "cache_true h cf t" "snd (world t) = snd (world u) @ l'" using l(1) unfolding keeps_def by blast
  with l show "cache_true h cf t \<and> (\<exists>l. snd (world t) = snd (world s) @ l)" by simp
qed

lemma keeps_gh_bind [intro]:
  assumes "keeps h cf m" and "\<And>x. keeps h cf (f x)"
  shows "keeps h cf (gh_bind m f)"
proof -
  have "gh_bind m f = gh_try m gh_throw f" by (simp add: gh_bind_def gh_try_def gh_throw_def fun_eq_iff)
  then show ?thesis using keeps_try [OF assms(1) calm_keeps [OF calm_simple(3)] assms(2)] by simp
qed

lemma keeps_forgetting [intro]: "keeps h cf m \<Longrightarrow> keeps h cf (forgetting m)"
  unfolding keeps_def
proof (intro allI impI)
  fix s t r assume k: "\<forall>s t r. m s = (t, r) \<longrightarrow> cache_true h cf s \<longrightarrow> cache_true h cf t \<and> (\<exists>l. snd (world t) = snd (world s) @ l)"
    and run: "forgetting m s = (t, r)"
  have "cache_true h cf (s\<lparr>cached := None\<rparr>)" by (simp add: cache_true_def)
  with k run show "cache_true h cf t \<and> (\<exists>l. snd (world t) = snd (world s) @ l)" by (fastforce simp: forgetting_def)
qed

lemma ask_Inr: "ask (logged client) (get_of p) s = (t, Inr v)
    \<Longrightarrow> cached t = cached s \<and> snd (world t) = snd (world s) @ [(get_of p, Inr v)]"
  by (auto simp: ask_def logged_def split: prod.splits sum.splits)

lemma ask_ext: "calm m \<Longrightarrow> m s = (t, r) \<Longrightarrow> \<exists>l. snd (world t) = snd (world s) @ l"
  unfolding calm_def by blast

text \<open>The part of a fetch before the snapshot is remembered.\<close>

definition fetched :: "host \<Rightarrow> 'w client \<Rightarrow> gh_config \<Rightarrow> string \<Rightarrow> ('w, js) gh" where
  "fetched h client cf sha = fetch_run h client cf False sha"

lemma gh_bind_assoc: "gh_bind (gh_bind m f) g = gh_bind m (\<lambda>x. gh_bind (f x) g)"
  by (auto simp: gh_bind_def fun_eq_iff split: prod.splits sum.splits)

lemma gh_bind_return: "gh_bind (gh_return x) f = f x"
  by (simp add: gh_bind_def gh_return_def)

lemma fetch_split: "fetch_run h client cf cache sha = gh_bind (fetched h client cf sha) (\<lambda>result.
    gh_bind (if cache then remember h cf sha result else gh_return ()) (\<lambda>_. gh_return result))"
  unfolding fetch_run_def fetched_def Let_def if_False gh_bind_assoc gh_bind_return ..

lemma calm_fetched: "calm (fetched h (logged client) cf sha)"
  unfolding fetched_def fetch_run_def Let_def by (intro calm_bind) (auto split: option.split)

lemma fetched_answers:
  assumes "fetched h (logged client) cf sha s = (t, Inr snap)"
  shows "\<exists>l. snd (world t) = snd (world s) @ l \<and> source_snapshot h cf l sha snap"
proof -
  let ?git = "prefix_of h cf @ ''/git''"
  let ?find = "find (\<lambda>item. js_eq (fld item ''path'') (JStr (file_path h cf)))"
  from assms obtain s1 s2 s3 commit tsha tree files events
    where c: "ask (logged client) (get_of (?git @ ''/commits/'' @ sha)) s = (s1, Inr commit)"
    and ts: "bnd (dot commit ''tree'') (\<lambda>t. dot t ''sha'') = Inr tsha"
    and tr: "ask (logged client) (get_of (?git @ ''/trees/'' @ js_string h tsha @ ''?recursive=1'')) s1 = (s2, Inr tree)"
    and es: "tree_entries h tree = Inr files"
    and ev: "(case ?find files of None \<Rightarrow> gh_return (JArr [])
        | Some entry \<Rightarrow> gh_bind (ask (logged client) (get_of (?git @ ''/blobs/'' @ js_string h (fld entry ''sha'')))) (\<lambda>blob.
            gh_lift (blob_events h blob))) s2 = (s3, Inr events)"
    and rp: "replayed h cf events sha tsha = Inr snap" and t: "t = s3"
    unfolding fetched_def fetch_run_def Let_def by (auto simp: gh_Inr)
  have l2: "snd (world s2) = snd (world s) @ [(get_of (?git @ ''/commits/'' @ sha), Inr commit),
      (get_of (?git @ ''/trees/'' @ js_string h tsha @ ''?recursive=1''), Inr tree)]"
    using ask_Inr [OF c] ask_Inr [OF tr] by simp
  obtain l3 where l3: "snd (world s3) = snd (world s2) @ l3" and f: "file_answered h cf l3 files events"
  proof (cases "?find files")
    case None
    with ev that [of "[]"] show ?thesis by (simp add: gh_Inr file_answered_def)
  next
    case (Some entry)
    with ev obtain blob where b: "ask (logged client) (get_of (?git @ ''/blobs/'' @ js_string h (fld entry ''sha''))) s2 = (s3, Inr blob)"
      and be: "blob_events h blob = Inr events" by (auto simp: gh_Inr)
    show ?thesis
      by (rule that [of "[(get_of (?git @ ''/blobs/'' @ js_string h (fld entry ''sha'')), Inr blob)]"])
        (use ask_Inr [OF b] be Some in \<open>auto simp: file_answered_def answered_def\<close>)
  qed
  define c where "c = (get_of (?git @ ''/commits/'' @ sha), Inr commit :: js + js)"
  define d where "d = (get_of (?git @ ''/trees/'' @ js_string h tsha @ ''?recursive=1''), Inr tree :: js + js)"
  have "answered (c # d # l3) (?git @ ''/commits/'' @ sha) commit"
    "answered (c # d # l3) (?git @ ''/trees/'' @ js_string h tsha @ ''?recursive=1'') tree"
    by (simp_all add: answered_def c_def d_def)
  moreover have "file_answered h cf (c # d # l3) files events"
    using f by (auto simp: file_answered_def answered_def split: option.splits)
  ultimately have "source_snapshot h cf (c # d # l3) sha snap"
    unfolding source_snapshot_def append_assoc using ts es rp by (simp only: append.append_Cons append.append_Nil append_assoc) blast
  moreover have "snd (world t) = snd (world s) @ c # d # l3" using l2 l3 t by (simp add: c_def d_def)
  ultimately show ?thesis by blast
qed

lemma keeps_fetch: "keeps h cf (fetch_run h (logged client) cf cache sha)"
  unfolding keeps_def
proof (intro allI impI)
  fix s t r assume run: "fetch_run h (logged client) cf cache sha s = (t, r)" and ok: "cache_true h cf s"
  obtain u q where u: "fetched h (logged client) cf sha s = (u, q)" by (cases "fetched h (logged client) cf sha s")
  with calm_fetched [of h client cf sha] obtain l where l: "snd (world u) = snd (world s) @ l" "cached u = cached s" unfolding calm_def by blast
  then have oku: "cache_true h cf u" by (rule cache_true_longer [OF ok, rotated])
  show "cache_true h cf t \<and> (\<exists>l. snd (world t) = snd (world s) @ l)"
  proof (cases q)
    case (Inl e)
    with run u oku l show ?thesis by (simp add: fetch_split gh_bind_def)
  next
    case (Inr snap)
    from fetched_answers [OF u [unfolded Inr]] l have src: "source_snapshot h cf (snd (world u)) sha snap"
      by (auto intro: source_snapshot_mono)
    from run u Inr have "t = u \<or> t = u\<lparr>cached := Some (sha, the (json_text h snap))\<rparr>"
      by (auto simp: fetch_split gh_bind_def gh_return_def remember_def split: if_splits)
    with oku src l(1) show ?thesis by (auto simp: cache_true_def)
  qed
qed

lemma keeps_read_at: "keeps h cf (read_at h (logged client) cf cache sha)"
proof -
  let ?f = "fetch_run h (logged client) cf cache sha"
  have "\<exists>m. read_at h (logged client) cf cache sha s = m s \<and> keeps h cf m" for s
  proof (cases "cached s")
    case (Some p)
    then show ?thesis
      by (intro exI [of _ "if cache \<and> fst p = sha then gh_lift (parsed (snd p)) else forgetting ?f"])
        (simp add: read_at_def case_prod_beta keeps_fetch keeps_forgetting calm_keeps)
  qed (auto simp: read_at_def keeps_fetch)
  then show ?thesis unfolding keeps_def by metis
qed

lemma read_at_Inr:
  assumes "read_at h client cf cache sha u = (t, Inr snap)"
  shows "(\<exists>tx. cache \<and> cached u = Some (sha, tx) \<and> parsed tx = Inr snap \<and> t = u)
    \<or> (\<exists>v. world v = world u \<and> fetch_run h client cf cache sha v = (t, Inr snap))"
proof (cases "cached u")
  case (Some p)
  obtain a tx where p: "p = (a, tx)" by (cases p)
  show ?thesis
  proof (cases "cache \<and> a = sha")
    case True
    with assms Some p show ?thesis by (simp add: read_at_def gh_lift_Inr)
  next
    case False
    with assms Some p have "fetch_run h client cf cache sha (u\<lparr>cached := None\<rparr>) = (t, Inr snap)"
      by (auto simp: read_at_def forgetting_def)
    then show ?thesis by (intro disjI2 exI [of _ "u\<lparr>cached := None\<rparr>"]) simp
  qed
qed (use assms in \<open>auto simp: read_at_def\<close>)

lemma keeps_gh_read: "keeps h cf (gh_read h (logged client) cf cache)"
  unfolding gh_read_def
proof (intro keeps_try calm_keeps [OF calm_ask])
  fix e :: store_error
  show "keeps h cf (forgetting (if err_cause e = Remote (JNat 404) then gh_return no_run else gh_throw e))"
    by (intro keeps_forgetting calm_keeps) simp
next
  fix ref
  show "keeps h cf (case nonempty_text (fld (fld ref ''object'') ''sha'') of None \<Rightarrow> forgetting (gh_fail ''Missing coordination revision'')
      | Some sha \<Rightarrow> read_at h (logged client) cf cache sha)"
    by (auto simp: keeps_read_at intro!: keeps_forgetting intro: calm_keeps split: option.split)
qed

lemma calm_setup: "calm (gh_setup h (logged client) cf current)"
  unfolding gh_setup_def planGitHubCoordination_def Let_def by (auto intro!: calm_bind)

lemma calm_stage: "calm (stage_commit h (logged client) cf current event content)"
  unfolding stage_commit_def Let_def by (intro calm_bind calm_write calm_simple)

lemma calm_move: "calm (move_branch h (logged client) cf current commit)"
  unfolding move_branch_def by (intro calm_bind) auto

lemma keeps_settle: "keeps h cf (settle_update h (logged client) cf current event commit)"
  unfolding settle_update_def
  by (intro keeps_try keeps_gh_bind keeps_gh_read calm_keeps [OF calm_move] calm_keeps [OF calm_simple(4)]) (auto intro: calm_keeps)

lemma keeps_commit: "keeps h cf (gh_commit h (logged client) cf current es event)"
  unfolding gh_commit_def Let_def
  by (intro keeps_gh_bind calm_keeps [OF calm_simple(4)]) (auto intro!: calm_keeps [OF calm_setup] calm_keeps [OF calm_stage] keeps_settle intro: calm_keeps)

lemma keeps_raise: "keeps h cf (gh_raise e)" "keeps h cf (gh_throw er)" "keeps h cf (gh_return x)" "keeps h cf (gh_lift r)"
  by (intro calm_keeps calm_simple)+

lemma keeps_append: "keeps h cf (gh_append h (logged client) cf event expected)"
  unfolding gh_append_def
  by (intro keeps_gh_bind) (auto intro!: keeps_raise keeps_gh_bind keeps_gh_read keeps_commit split: js.split option.split)

section \<open>Sessions\<close>

text \<open>
  The store since \<open>createGitHubRunStore\<close>, with the record of all its requests: reads and appends with
  any outcome, and changes of the repository by others.
\<close>

inductive gh_session :: "host \<Rightarrow> 'w client \<Rightarrow> gh_config \<Rightarrow> ('w \<times> wire) gh_state \<Rightarrow> bool" for h client cf where
  created: "gh_session h client cf \<lparr>world = (w, []), cached = None\<rparr>"
| others: "gh_session h client cf \<lparr>world = (w, l), cached = c\<rparr> \<Longrightarrow> gh_session h client cf \<lparr>world = (w', l), cached = c\<rparr>"
| reads: "gh_session h client cf s \<Longrightarrow> gh_read h (logged client) cf cache s = (t, r) \<Longrightarrow> gh_session h client cf t"
| appends: "gh_session h client cf s \<Longrightarrow> gh_append h (logged client) cf event expected s = (t, r) \<Longrightarrow> gh_session h client cf t"

lemma session_cache: "gh_session h client cf s \<Longrightarrow> cache_true h cf s"
proof (induction rule: gh_session.induct)
  case (created w)
  show ?case by (simp add: cache_true_def)
next
  case (others w l c w')
  then show ?case by (simp add: cache_true_def)
next
  case (reads s cache t r)
  then show ?case using keeps_gh_read unfolding keeps_def by blast
next
  case (appends s event expected t r)
  then show ?case using keeps_append unfolding keeps_def by blast
qed

section \<open>What a read returns\<close>

lemma gh_read_fresh:
  assumes "gh_read h (logged client) cf False s = (t, Inr snap)" and "snap \<noteq> no_run"
  shows "\<exists>l sha. snd (world t) = snd (world s) @ l \<and> branch_at h cf l sha \<and> source_snapshot h cf l sha snap"
proof -
  let ?ref = "get_of (prefix_of h cf @ ''/git/ref/heads/'' @ cf_branch cf)"
  from assms obtain u ref sha where u: "ask (logged client) ?ref s = (u, Inr ref)"
    and sha: "nonempty_text (fld (fld ref ''object'') ''sha'') = Some sha" and rd: "read_at h (logged client) cf False sha u = (t, Inr snap)"
    by (auto simp: gh_read_def gh_Inr forgetting_def split: option.splits if_splits)
  from read_at_Inr [OF rd] obtain v where v: "world v = world u" "fetched h (logged client) cf sha v = (t, Inr snap)"
    unfolding fetched_def by blast
  from fetched_answers [OF v(2)] obtain l where l: "snd (world t) = snd (world u) @ l" "source_snapshot h cf l sha snap" using v(1) by auto
  then have "source_snapshot h cf ((?ref, Inr ref) # l) sha snap" by (auto intro: source_snapshot_mono)
  then show ?thesis using ask_Inr [OF u] l(1) sha
    by (intro exI [of _ "(?ref, Inr ref) # l"] exI [of _ sha]) (auto simp: branch_at_def answered_def)
qed

lemma gh_read_cached:
  assumes "gh_read h (logged client) cf cache s = (t, Inr snap)" and "cache_true h cf s" and "snap \<noteq> no_run"
  shows "\<exists>l sha result. snd (world t) = snd (world s) @ l \<and> branch_at h cf l sha \<and> source_snapshot h cf (snd (world t)) sha result
    \<and> (snap = result \<or> parsed (the (json_text h result)) = Inr snap)"
proof -
  let ?ref = "get_of (prefix_of h cf @ ''/git/ref/heads/'' @ cf_branch cf)"
  from assms(1,3) obtain u ref sha where u: "ask (logged client) ?ref s = (u, Inr ref)"
    and sha: "nonempty_text (fld (fld ref ''object'') ''sha'') = Some sha" and rd: "read_at h (logged client) cf cache sha u = (t, Inr snap)"
    by (auto simp: gh_read_def gh_Inr forgetting_def split: option.splits if_splits)
  note a = ask_Inr [OF u]
  then have oku: "cache_true h cf u" by (blast intro: cache_true_longer [OF assms(2)])
  have here: "branch_at h cf ((?ref, Inr ref) # l) sha" for l using sha by (auto simp: branch_at_def answered_def)
  from rd consider (hit) tx where "cached u = Some (sha, tx)" "parsed tx = Inr snap" "t = u"
    | (miss) v where "world v = world u" "fetch_run h (logged client) cf cache sha v = (t, Inr snap)"
    using read_at_Inr by blast
  then show ?thesis
  proof cases
    case hit
    with oku show ?thesis using a here [of "[]"] unfolding cache_true_def by (metis append.right_neutral)
  next
    case miss
    then obtain x where f: "fetched h (logged client) cf sha v = (x, Inr snap)" and x: "snd (world t) = snd (world x)"
      by (auto simp: fetch_split gh_Inr remember_def split: if_splits)
    from fetched_answers [OF f] obtain l where l: "snd (world x) = snd (world u) @ l" "source_snapshot h cf l sha snap" using miss by auto
    then have "source_snapshot h cf (snd (world t)) sha snap" using x by (auto intro: source_snapshot_mono)
    then show ?thesis using a here [of l] l(1) x by (intro exI [of _ "(?ref, Inr ref) # l"] exI [of _ sha] exI [of _ snap]) simp
  qed
qed

section \<open>What an append returns\<close>

lemma no_run_event: "has_event no_run event \<noteq> Inr True"
  by (simp add: has_event_def no_run_def fld_def obj_get_def)

lemma gh_read_no_writes:
  assumes "gh_read h (logged client) cf cache s = (t, r)" and "snd (world t) = snd (world s) @ l"
  shows "writes l = []"
  using gh_read_quiet [of h client cf cache, unfolded writing_def sends_def, rule_format, OF assms(1)] assms(2) by auto

text \<open>
  What a snapshot owes to the answers of one append: they end in a part without writes, in which the branch
  was reported at a commit, and the snapshot is what the answers say the run is there: those of the
  same part, or, when nothing was written, those of the session, by way of the cache.
\<close>

definition read_back :: "host \<Rightarrow> gh_config \<Rightarrow> wire \<Rightarrow> wire \<Rightarrow> js \<Rightarrow> bool" where
  "read_back h cf earlier new snap \<longleftrightarrow> (\<exists>before l sha. new = before @ l \<and> writes l = [] \<and> branch_at h cf l sha
     \<and> (source_snapshot h cf l sha snap
       \<or> (writes new = [] \<and> (\<exists>result. source_snapshot h cf (earlier @ new) sha result
            \<and> (snap = result \<or> parsed (the (json_text h result)) = Inr snap)))))"

lemma settle_read_back:
  assumes "settle_update h (logged client) cf current event commit s = (t, Inr snap)"
  shows "\<exists>before l sha. snd (world t) = snd (world s) @ before @ l \<and> writes l = [] \<and> branch_at h cf l sha
    \<and> source_snapshot h cf l sha snap \<and> has_event snap event = Inr True"
proof -
  obtain u q where u: "move_branch h (logged client) cf current commit s = (u, q)"
    by (cases "move_branch h (logged client) cf current commit s")
  from assms u have rd: "gh_read h (logged client) cf False u = (t, Inr snap)" and ev: "has_event snap event = Inr True"
    by (auto simp: settle_update_def gh_try_def gh_Inr split: sum.splits if_splits)
  from ev no_run_event have "snap \<noteq> no_run" by blast
  from gh_read_fresh [OF rd this] obtain l sha
    where l: "snd (world t) = snd (world u) @ l" "branch_at h cf l sha" "source_snapshot h cf l sha snap" by blast
  obtain before where "snd (world u) = snd (world s) @ before" using u calm_move unfolding calm_def by blast
  with l gh_read_no_writes [OF rd l(1)] ev show ?thesis by fastforce
qed

lemma commit_read_back:
  assumes "gh_commit h (logged client) cf current es event s = (t, Inr snap)"
  shows "\<exists>before l sha. snd (world t) = snd (world s) @ before @ l \<and> writes l = [] \<and> branch_at h cf l sha
    \<and> source_snapshot h cf l sha snap \<and> has_event snap event = Inr True"
proof -
  from assms obtain s2 s3 content commit where "gh_setup h (logged client) cf current s = (s2, Inr ())"
    and "stage_commit h (logged client) cf current event content s2 = (s3, Inr commit)"
    and st: "settle_update h (logged client) cf current event commit s3 = (t, Inr snap)"
    unfolding gh_commit_def Let_def by (auto simp: gh_Inr split: if_splits)
  then obtain b where "snd (world s3) = snd (world s) @ b"
    using calm_setup calm_stage unfolding calm_def by (metis append.assoc)
  with settle_read_back [OF st] show ?thesis by (metis append.assoc)
qed

lemma source_snapshot_ok: "source_snapshot h cf l sha snap \<Longrightarrow> snapshot_ok h cf snap \<and> fld snap ''sourceRevision'' = JStr sha"
proof -
  assume "source_snapshot h cf l sha snap"
  then obtain events tsha where r: "replayed h cf events sha tsha = Inr snap" unfolding source_snapshot_def by blast
  then have "fld snap ''sourceRevision'' = JStr sha"
    by (auto simp: replayed_def if_Inl_Inr fld_def obj_get_def split: option.splits)
  with replayed_ok [OF r] show ?thesis by blast
qed

text \<open>
  C8. An append to the coordination branch that returns gives a snapshot read from the source, at the commit
  the branch was reported at after the last write of the append: it has the event, and its log is one
  the reducer accepts, of the run of the store, with the revision of its head. When the event was
  there already, nothing is written, and the snapshot may also be the JSON copy the session remembers
  of what the source answered about that commit.
\<close>

theorem gh_append_confirmed:
  assumes "gh_session h client cf s" and "gh_append h (logged client) cf event expected s = (t, Inr snap)"
  shows "\<exists>new es. snd (world t) = snd (world s) @ new \<and> read_back h cf (snd (world s)) new snap
    \<and> fld snap ''events'' = JArr es \<and> holds es event
    \<and> (\<exists>result. snapshot_ok h cf result \<and> (snap = result \<or> writes new = [] \<and> parsed (the (json_text h result)) = Inr snap))"
proof -
  from assms(2) obtain s1 current where rd: "gh_read h (logged client) cf True s = (s1, Inr current)"
    and rest: "(case fld current ''events'' of
         JArr es \<Rightarrow>
           (case find (\<lambda>item. js_eq (fld item ''id'') (fld event ''id'')) es of
              Some prior \<Rightarrow> if \<not> js_eq (fld prior ''digest'') (fld event ''digest'') then gh_fail ''Conflicting event''
                else gh_return current
            | None \<Rightarrow>
                if \<not> js_eq (fld current ''revision'') expected
                then gh_throw \<lparr>err_cause = Thrown (Error ''Source revision conflict''), not_committed = True\<rparr>
                else gh_commit h (logged client) cf current es event)
       | _ \<Rightarrow> gh_raise (TypeError ''current.events.find is not a function'')) s1 = (t, Inr snap)"
    by (auto simp: gh_append_def gh_Inr split: if_splits)
  obtain b where b: "snd (world s1) = snd (world s) @ b"
    using keeps_gh_read rd session_cache [OF assms(1)] unfolding keeps_def by blast
  obtain es where es: "fld current ''events'' = JArr es" using rest by (cases "fld current ''events''") (auto simp: gh_raise_Inr)
  show ?thesis
  proof (cases "find (\<lambda>item. js_eq (fld item ''id'') (fld event ''id'')) es")
    case (Some prior)
    with rest es have t: "snap = current" "t = s1" and d: "js_eq (fld prior ''digest'') (fld event ''digest'')"
      by (auto simp: gh_Inr split: if_splits)
    from Some have m: "prior \<in> set es" "js_eq (fld prior ''id'') (fld event ''id'')" by (auto dest: find_SomeD)
    then have hold: "holds es event" using d by (auto simp: holds_def dest: js_eq_imp_eq)
    have "current \<noteq> no_run" using es m(1) by (auto simp: no_run_def fld_def obj_get_def)
    from gh_read_cached [OF rd session_cache [OF assms(1)] this] obtain l sha result
      where l: "snd (world s1) = snd (world s) @ l" "branch_at h cf l sha" "source_snapshot h cf (snd (world s1)) sha result"
      and r: "current = result \<or> parsed (the (json_text h result)) = Inr current" by blast
    have w: "writes l = []" by (rule gh_read_no_writes [OF rd l(1)])
    have "read_back h cf (snd (world s)) l snap"
      unfolding read_back_def using l r w t(1) by (intro exI [of _ "[]"] exI [of _ l] exI [of _ sha]) auto
    with l(1) w es hold r source_snapshot_ok [OF l(3)] show ?thesis unfolding t by blast
  next
    case None
    with rest es have c: "gh_commit h (logged client) cf current es event s1 = (t, Inr snap)" by (auto simp: gh_throw_Inr split: if_splits)
    from commit_read_back [OF c] obtain before l sha where l: "snd (world t) = snd (world s1) @ before @ l" "writes l = []"
      "branch_at h cf l sha" "source_snapshot h cf l sha snap" "has_event snap event = Inr True" by blast
    have "read_back h cf (snd (world s)) (b @ before @ l) snap"
      unfolding read_back_def using l by (intro exI [of _ "b @ before"] exI [of _ l] exI [of _ sha]) simp
    moreover have "snd (world t) = snd (world s) @ b @ before @ l" using l(1) b by simp
    ultimately show ?thesis using source_snapshot_ok [OF l(4)] has_event_holds [OF l(5)] by blast
  qed
qed

section \<open>A sample source that accepts the update\<close>

definition sextet_char :: "nat \<Rightarrow> char" where
  "sextet_char n = (if n < 26 then char_of (n + 65) else if n < 52 then char_of (n + 71) else if n < 62 then char_of (n - 4)
     else if n = 62 then CHR ''+'' else CHR ''/'')"

lemma sextet_chars:
  assumes "n < 64"
  shows "sextet (sextet_char n) = Some n" and "sextet_char n \<noteq> CHR ''=''" and "sextet_char n \<noteq> CHR 0x0A"
proof -
  have "(of_char (sextet_char n) :: nat) = (if n < 26 then n + 65 else if n < 52 then n + 71 else if n < 62 then n - 4
      else if n = 62 then 43 else 47)"
    using assms by (simp add: sextet_char_def)
  then show s: "sextet (sextet_char n) = Some n" using assms by (auto simp: sextet_def Let_def split: if_splits)
  have "sextet (CHR ''='') = None" "sextet (CHR 0x0A) = None" by (simp_all add: sextet_def)
  with s show "sextet_char n \<noteq> CHR ''=''" "sextet_char n \<noteq> CHR 0x0A" by auto
qed

fun sextets :: "nat list \<Rightarrow> nat list" where
  "sextets (x # y # z # r) = (x div 4) # (16 * (x mod 4) + y div 16) # (4 * (y mod 16) + z div 64) # (z mod 64) # sextets r"
| "sextets _ = []"

lemma sextets_bytes: "length bs mod 3 = 0 \<Longrightarrow> \<forall>b\<in>set bs. b < 128 \<Longrightarrow> sextet_bytes (sextets bs) = bs \<and> (\<forall>n\<in>set (sextets bs). n < 64)"
proof (induction bs rule: sextets.induct)
  case (1 x y z r)
  have b: "x < 128" "y < 128" "z < 128" using 1(3) by simp_all
  have small: "y div 16 < 16" "z div 64 < 4" "x mod 4 < 4" "y mod 16 < 16" using b by auto
  have "(16 * (x mod 4) + y div 16) div 16 = x mod 4" "(16 * (x mod 4) + y div 16) mod 16 = y div 16"
    "(4 * (y mod 16) + z div 64) div 4 = y mod 16" "(4 * (y mod 16) + z div 64) mod 4 = z div 64"
    using small by simp_all
  moreover have "16 * (x mod 4) + y div 16 < 64" "4 * (y mod 16) + z div 64 < 64" "x div 4 < 64" "z mod 64 < 64"
    using small b by linarith+
  moreover have "length r mod 3 = 0" using 1(2) by (simp add: mod_Suc split: if_splits)
  ultimately show ?case using 1(1,3) by simp
qed (simp_all add: mod_Suc)

definition base64_of :: "string \<Rightarrow> string" where
  "base64_of s = map sextet_char (sextets (map of_char s))"

lemma base64_of_text:
  assumes "length s mod 3 = 0" and "\<forall>c\<in>set s. (of_char c :: nat) < 128"
  shows "blob_text (JStr (base64_of s)) = Inr s"
proof -
  let ?ns = "sextets (map of_char s)"
  have ns: "sextet_bytes ?ns = map of_char s" "\<forall>n\<in>set ?ns. n < 64" using sextets_bytes [of "map of_char s"] assms by auto
  have skip: "filter (\<lambda>c. c \<noteq> CHR 0x0A) (map sextet_char xs) = map sextet_char xs"
    "takeWhile (\<lambda>c. c \<noteq> CHR ''='') (map sextet_char xs) = map sextet_char xs" "List.map_filter sextet (map sextet_char xs) = xs"
    if "\<forall>n\<in>set xs. n < 64" for xs
    using that by (induction xs) (auto simp: sextet_chars)
  have "utf8_text (map of_char s) = Some s" using assms(2) by (induction s) auto
  then show ?thesis by (simp add: blob_text_def base64_of_def base64_bytes_def skip [OF ns(2)] ns(1))
qed

text \<open>The content of the run file after the update, with space after it up to a multiple of three characters.\<close>

definition sample_content :: string where
  "sample_content = (let t = the (json_text const_host (JArr [e_start])) in t @ replicate (3 - length t mod 3) (CHR '' ''))"

lemma sample_ascii: "\<forall>c\<in>set sample_content. (of_char c :: nat) < 128"
proof -
  have "list_all (\<lambda>c. (of_char c :: nat) < 128) (the (json_text const_host (JArr [e_start])))"
    unfolding e_start_def sample_event_def createRunEvent_def sealDeliveryRecord_def
    by (simp add: run_policy_def js_default_def Let_def rat_int_def json_quote_def json_esc_def json_num_def num_str_def run_digest_def)
      (simp add: int_str_def nat_str.simps digit_char_def list_all_iff)
  then show ?thesis by (auto simp: sample_content_def Let_def list_all_iff)
qed

lemma sample_blob: "bnd (blob_text (JStr (base64_of sample_content))) parsed = Inr (JArr [e_start])"
proof -
  let ?t = "the (json_text const_host (JArr [e_start]))"
  have "length sample_content mod 3 = 0" by (simp add: sample_content_def Let_def) presburger
  from base64_of_text [OF this sample_ascii] have b: "blob_text (JStr (base64_of sample_content)) = Inr sample_content" .
  have "plain (JArr [e_start])" by (simp add: e_start_plain)
  moreover from written_read_back [OF plain_stored [OF this] this, of "[]" "replicate (3 - length ?t mod 3) (CHR '' '')" const_host]
  have "json_parse sample_content = Some (JArr [e_start])"
    by (auto simp: sample_content_def Let_def json_write_compact white_def json_space_def list_all_iff simp del: json_text.simps json_write.simps)
  ultimately show ?thesis using b by (simp add: parsed_def)
qed

definition honest_ref :: "bool \<Rightarrow> string" where
  "honest_ref moved = (if moved then ''c2'' else ''c1'')"

definition honest_reply :: "bool \<Rightarrow> string \<Rightarrow> js" where
  "honest_reply moved p = the (map_of
     [(''/repos/o/r/git/ref/heads/agentflow-state'', JObj [(''object'', JObj [(''sha'', JStr (honest_ref moved))])]),
      (''/repos/o/r/git/commits/c1'', JObj [(''tree'', JObj [(''sha'', JStr ''t1'')])]),
      (''/repos/o/r/git/commits/c2'', JObj [(''tree'', JObj [(''sha'', JStr ''t2'')])]),
      (''/repos/o/r/git/trees/t1?recursive=1'', JObj [(''truncated'', JBool False), (''tree'', JArr [])]),
      (''/repos/o/r/git/trees/t2?recursive=1'', JObj [(''truncated'', JBool False), (''tree'', JArr [JObj [(''path'', JStr ''runs/run-1.json''),
         (''mode'', JStr ''100644''), (''type'', JStr ''blob''), (''sha'', JStr ''b'')]])]),
      (''/repos/o/r/git/blobs/b'', JObj [(''encoding'', JStr ''base64''), (''size'', JNat 900), (''content'', JStr (base64_of sample_content))])] p)"

definition honest_client :: "bool client" where
  "honest_client moved q = (case rq_verb q of
       Get \<Rightarrow> (moved, Inr (honest_reply moved (rq_path q)))
     | Post \<Rightarrow> (moved, Inr (JObj [(''sha'', JStr ''new'')]))
     | Patch \<Rightarrow> (True, Inr (JObj [])))"

definition honest_view :: "bool \<Rightarrow> js" where
  "honest_view moved = JObj [(''events'', JArr (if moved then [e_start] else [])), (''revision'', if moved then D else JNull),
     (''sourceRevision'', JStr (honest_ref moved)), (''treeSha'', JStr (if moved then ''t2'' else ''t1''))]"

lemma honest_ask: "ask (logged honest_client) (get_of p) s
    = (s\<lparr>world := (fst (world s), snd (world s) @ [(get_of p, Inr (honest_reply (fst (world s)) p))])\<rparr>, Inr (honest_reply (fst (world s)) p))"
  by (simp add: ask_def logged_def honest_client_def get_of_def)

lemma honest_paths: "prefix_of const_host sample_config = ''/repos/o/r''" "cf_branch sample_config = ''agentflow-state''"
  "file_path const_host sample_config = ''runs/run-1.json''"
  by (simp_all add: prefix_of_def file_path_def sample_config_def)

lemma honest_answers:
  "bnd (dot (honest_reply m ''/repos/o/r/git/commits/c1'') ''tree'') (\<lambda>t. dot t ''sha'') = Inr (JStr ''t1'')"
  "bnd (dot (honest_reply m ''/repos/o/r/git/commits/c2'') ''tree'') (\<lambda>t. dot t ''sha'') = Inr (JStr ''t2'')"
  "tree_entries const_host (honest_reply m ''/repos/o/r/git/trees/t1?recursive=1'') = Inr []"
  "tree_entries const_host (honest_reply m ''/repos/o/r/git/trees/t2?recursive=1'') = Inr [JObj [(''path'', JStr ''runs/run-1.json''),
     (''mode'', JStr ''100644''), (''type'', JStr ''blob''), (''sha'', JStr ''b'')]]"
  by (simp_all add: tree_entries_def honest_reply_def dot_def fld_def obj_get_def managed_entry_def run_file_name_def run_id_char_def ends_with_def)

lemma honest_blob: "blob_events const_host (honest_reply m ''/repos/o/r/git/blobs/b'') = Inr (JArr [e_start])"
  using sample_blob by (simp add: blob_events_def honest_reply_def dot_def fld_def obj_get_def to_number_def)

lemma honest_replay: "replayed const_host sample_config (JArr (if m then [e_start] else [])) (honest_ref m) (JStr (if m then ''t2'' else ''t1''))
    = Inr (honest_view m)"
proof -
  have "reduceRun const_host [] = Inr None" by (simp add: reduceRun_def)
  moreover have "reduceRun const_host [e_start] = Inr (Some st_start)" by (rule sample_run(1))
  ultimately show ?thesis
    by (cases m) (simp_all add: replayed_def js_iter_def head_revision_def honest_view_def st_start_def sample_config_def coal_def)
qed

lemma honest_fetch:
  assumes "cached s = None"
  shows "\<exists>t. fetch_run const_host (logged honest_client) sample_config cache (honest_ref (fst (world s))) s = (t, Inr (honest_view (fst (world s))))
    \<and> fst (world t) = fst (world s) \<and> cached t = None"
proof -
  have small: "\<not> is_commit_id ''c1''" "\<not> is_commit_id ''c2''" by (simp_all add: is_commit_id_def)
  note ev = fetch_run_def Let_def gh_bind_def honest_ask honest_paths honest_ref_def honest_answers gh_lift_def gh_return_def
  show ?thesis
  proof (cases "fst (world s)")
    case True
    note r = honest_replay [of True, unfolded honest_ref_def, simplified]
    from True show ?thesis using assms by (simp add: ev honest_blob fld_def obj_get_def r remember_def small)
  next
    case False
    note r = honest_replay [of False, unfolded honest_ref_def, simplified]
    from False show ?thesis using assms by (simp add: ev r remember_def small)
  qed
qed

lemma honest_read:
  assumes "cached s = None"
  shows "\<exists>t. gh_read const_host (logged honest_client) sample_config cache s = (t, Inr (honest_view (fst (world s))))
    \<and> fst (world t) = fst (world s) \<and> cached t = None"
proof -
  let ?p = "prefix_of const_host sample_config @ ''/git/ref/heads/'' @ cf_branch sample_config"
  obtain u where u: "ask (logged honest_client) (get_of ?p) s = (u, Inr (honest_reply (fst (world s)) ?p))" "fst (world u) = fst (world s)" "cached u = None"
    using assms by (simp add: honest_ask)
  have "nonempty_text (fld (fld (honest_reply m ?p) ''object'') ''sha'') = Some (honest_ref m)" for m
    by (simp add: honest_paths honest_reply_def honest_ref_def fld_def obj_get_def nonempty_text_def)
  with u honest_fetch [OF u(3), of cache] show ?thesis by (simp add: gh_read_def gh_try_def read_at_def)
qed

lemma honest_flds: "fld (honest_view m) ''events'' = JArr (if m then [e_start] else [])" "fld (honest_view m) ''revision'' = (if m then D else JNull)"
  "truthy (fld (honest_view m) ''sourceRevision'')"
  by (simp_all add: honest_view_def honest_ref_def fld_def obj_get_def)

lemma honest_post: "gh_write (logged honest_client) sample_config p b Post s = (s\<lparr>world := (fst (world s), snd (world s)
    @ [(\<lparr>rq_verb = Post, rq_path = p, rq_body = b\<rparr>, Inr (JObj [(''sha'', JStr ''new'')]))])\<rparr>, Inr (JObj [(''sha'', JStr ''new'')]))"
  by (simp add: gh_write_def sample_config_def ask_def logged_def honest_client_def)

lemma honest_patch: "gh_write (logged honest_client) sample_config p b Patch s = (s\<lparr>world := (True, snd (world s)
    @ [(\<lparr>rq_verb = Patch, rq_path = p, rq_body = b\<rparr>, Inr (JObj []))])\<rparr>, Inr (JObj []))"
  by (simp add: gh_write_def sample_config_def ask_def logged_def honest_client_def)

lemma honest_settle:
  assumes "cached s = None"
  shows "\<exists>t. settle_update const_host (logged honest_client) sample_config (honest_view m) e_start (JObj [(''sha'', JStr ''new'')]) s = (t, Inr (honest_view True))"
proof -
  have sha: "fld (JObj [(''sha'', JStr ''new'')]) ''sha'' = JStr ''new''" by (simp add: fld_def obj_get_def)
  obtain u where u: "move_branch const_host (logged honest_client) sample_config (honest_view m) (JObj [(''sha'', JStr ''new'')]) s = (u, Inr (JObj []))"
    "fst (world u) = True" "cached u = None"
    using assms by (simp add: move_branch_def gh_bind_def gh_lift_def gh_return_def sha honest_flds honest_patch)
  from honest_read [OF u(3), of False] u(2)
  obtain v where "gh_read const_host (logged honest_client) sample_config False u = (v, Inr (honest_view True))" by auto
  moreover have "has_event (honest_view True) e_start = Inr True" by (simp add: has_event_def honest_flds) (simp add: e_start_def)
  ultimately show ?thesis using u(1) by (simp add: settle_update_def gh_try_def gh_bind_def gh_lift_def gh_return_def)
qed

lemma honest_append:
  "\<exists>t. gh_append const_host (logged honest_client) sample_config e_start JNull \<lparr>world = (False, []), cached = None\<rparr> = (t, Inr (honest_view True))"
proof -
  have sha: "fld (JObj [(''sha'', JStr ''new'')]) ''sha'' = JStr ''new''" by (simp add: fld_def obj_get_def)
  have stage: "\<exists>t. stage_commit const_host (logged honest_client) sample_config cur e_start c s = (t, Inr (JObj [(''sha'', JStr ''new'')])) \<and> cached t = cached s"
    for cur c s unfolding stage_commit_def Let_def by (simp add: gh_bind_def honest_post gh_lift_def gh_return_def sha)
  have commit: "\<exists>t. gh_commit const_host (logged honest_client) sample_config (honest_view False) [] e_start s = (t, Inr (honest_view True))"
    if c: "cached s = None" for s
  proof -
    obtain u where "stage_commit const_host (logged honest_client) sample_config (honest_view False) e_start (the (json_text const_host (JArr [e_start]))) s
        = (u, Inr (JObj [(''sha'', JStr ''new'')]))" "cached u = None" using stage c by metis
    with honest_settle [of u False] sample_commit_size honest_flds(3) [of False] show ?thesis
      by (simp add: gh_commit_def Let_def gh_bind_def gh_lift_def gh_return_def gh_setup_def del: json_text.simps)
  qed
  have run: "cf_run sample_config = JStr ''run-1''" by (simp add: sample_config_def)
  obtain u where u: "gh_read const_host (logged honest_client) sample_config True \<lparr>world = (False, []), cached = None\<rparr> = (u, Inr (honest_view False))"
    "cached u = None" using honest_read [of "\<lparr>world = (False, []), cached = None\<rparr>" True] by auto
  from commit [OF u(2)] u(1) show ?thesis
    by (simp add: gh_append_def gh_bind_def gh_lift_def gh_return_def e_start_run honest_flds run)
qed

theorem gh_append_confirmed_witness:
  "\<exists>t new es. gh_append const_host (logged honest_client) sample_config e_start JNull \<lparr>world = (False, []), cached = None\<rparr> = (t, Inr (honest_view True))
     \<and> snd (world t) = new \<and> read_back const_host sample_config [] new (honest_view True)
     \<and> fld (honest_view True) ''events'' = JArr es \<and> holds es e_start"
proof -
  obtain t where t: "gh_append const_host (logged honest_client) sample_config e_start JNull \<lparr>world = (False, []), cached = None\<rparr> = (t, Inr (honest_view True))"
    using honest_append by blast
  from gh_append_confirmed [OF gh_session.created t] t show ?thesis by auto
qed

end
