(* ===== verification/RoleCollaboration.thy ===== *)
theory RoleCollaboration
  imports Collaboration Binding Clone Json
begin

text \<open>
  The records two roles exchange over a handed-over piece of work (src/lib/core/role-collaboration.mjs):
  the acceptance contract of the owner, the receipt of the deliverer, the council of advisers, and
  the deterministic report that holds a delivery against its contract. A validator returns the list
  of its errors; the report is a sealed record. What follows a report is in \<open>RoleAdvance\<close>.
\<close>

section \<open>Constants and sealing\<close>

definition COLLABORATION_CLASSES :: "string list" where
  "COLLABORATION_CLASSES = [''linear'', ''bilateral'', ''council'', ''human-gated'']"

definition ACCEPTANCE_STATES :: "string list" where
  "ACCEPTANCE_STATES = [''accepted'', ''accepted-with-conditions'', ''rework-required'', ''rejected'']"

definition CRITERION_SEVERITIES :: "string list" where
  "CRITERION_SEVERITIES = [''blocking'', ''advisory'']"

definition SEMANTIC_FINDING_STATUSES :: "string list" where
  "SEMANTIC_FINDING_STATUSES = [''pass'', ''fail'', ''observation'', ''unverified'']"

definition DEFAULT_MAX_REWORK_ROUNDS :: int where
  "DEFAULT_MAX_REWORK_ROUNDS = 2"

definition default_council_seats :: "js list" where
  "default_council_seats = map (\<lambda>(r, f). JObj [(''role'', JStr r), (''focus'', JStr f), (''required'', JBool True)])
     [(''agentflow:architect'', ''architecture and system boundaries''),
      (''agentflow:developer'', ''implementation feasibility''),
      (''agentflow:tester'', ''testability and failure evidence''),
      (''agentflow:reviewer'', ''risk and maintainability'')]"

text \<open>The object a function destructures: \<open>{ ... } = {}\<close>.\<close>

definition destructured :: "js \<Rightarrow> js res" where
  "destructured a = (if a = JUndef then Inr (JObj []) else if a = JNull then Inl (TypeError ''Cannot destructure null'') else Inr a)"

definition seal :: "host \<Rightarrow> string \<Rightarrow> (string \<times> js) list \<Rightarrow> js res" where
  "seal h ty payload = bnd (structured_clone (JObj payload)) (\<lambda>c.
     let r = obj_set (obj_spread [(''version'', JNat 1), (''type'', JStr ty)] (own_props c)) ''digest'' (JStr [])
     in Inr (JObj (obj_set r ''digest'' (JStr (recordDigest h (JObj r))))))"

definition listed :: "js \<Rightarrow> js list" where
  "listed v = (case v of JArr xs \<Rightarrow> xs | _ \<Rightarrow> if truthy v then [v] else [])"

section \<open>Validators shared by the records\<close>

fun seat_errors :: "nat \<Rightarrow> js list \<Rightarrow> string list" where
  "seat_errors i [] = []"
| "seat_errors i (seat # seats) =
     (if \<not> truthy (fld seat ''role'') \<or> \<not> truthy (fld seat ''focus'') \<or> \<not> is_bool (fld seat ''required'')
      then [''councilSeats['' @ nat_str i @ ''] must define role, focus, and required''] else [])
     @ seat_errors (Suc i) seats"

definition validateRoleCollaborationPolicy :: "js \<Rightarrow> string list res" where
  "validateRoleCollaborationPolicy policy0 =
     (let policy = js_default policy0 (JObj []); seats = fld policy ''councilSeats'' in
      bnd (dot policy ''sensitiveSurfaces'') (\<lambda>surfaces.
      Inr ((if bad_strings surfaces then [''sensitiveSurfaces must be an array of non-empty strings''] else [])
         @ map (\<lambda>f. f @ '' must be a positive integer'') (filter (\<lambda>f. bad_limit (fld policy f))
             [''councilDomainThreshold'', ''bilateralDomainThreshold'', ''maxReworkRounds''])
         @ map (\<lambda>f. f @ '' must be boolean'') (filter (\<lambda>f. fld policy f \<noteq> JUndef \<and> \<not> is_bool (fld policy f))
             [''councilOnPublicContract'', ''councilOnMigration''])
         @ (if seats = JUndef then []
            else if \<not> is_array seats \<or> elems seats = [] then [''councilSeats must be a non-empty array'']
            else seat_errors 0 (elems seats)))))"

definition assertRoleCollaborationPolicy :: "js \<Rightarrow> unit res" where
  "assertRoleCollaborationPolicy policy = bnd (validateRoleCollaborationPolicy policy) (\<lambda>errors.
     if errors \<noteq> [] then fail (''invalid role collaboration policy: '' @ js_join ''; '' errors) else Inr ())"

definition validateSealed :: "host \<Rightarrow> js \<Rightarrow> string \<Rightarrow> string list" where
  "validateSealed h r ty =
     (if \<not> js_eq (fld r ''version'') (JNat 1) then [''version must be 1''] else [])
     @ (if fld r ''type'' \<noteq> JStr ty then [''type must be '' @ ty] else [])
     @ (if \<not> hasCurrentDigest h r then [''digest is missing or stale''] else [])"

fun indexed_ref_errors :: "host \<Rightarrow> js \<Rightarrow> string \<Rightarrow> nat \<Rightarrow> js list \<Rightarrow> string list res" where
  "indexed_ref_errors h config field i [] = Inr []"
| "indexed_ref_errors h config field i (ref # refs) =
     bnd (validateArtifactRef h ref config) (\<lambda>result.
     bnd (indexed_ref_errors h config field (Suc i) refs) (\<lambda>rest.
     Inr ((if r_errors result \<noteq> [] then [field @ ''['' @ nat_str i @ '']: '' @ js_join ''; '' (r_errors result)] else []) @ rest)))"

definition validateRefs :: "host \<Rightarrow> js \<Rightarrow> string \<Rightarrow> js \<Rightarrow> string list res" where
  "validateRefs h refs field config =
     (case refs of JArr xs \<Rightarrow> indexed_ref_errors h config field 0 xs | _ \<Rightarrow> Inr [field @ '' must be an array''])"

text \<open>\<open>typeof v === 'string' && v\<close>\<close>

definition filled :: "js \<Rightarrow> bool" where
  "filled v = (is_string v \<and> truthy v)"

definition missing_fields :: "js \<Rightarrow> string list \<Rightarrow> string list" where
  "missing_fields r names = map (\<lambda>f. f @ '' is required'') (filter (\<lambda>f. \<not> filled (fld r f)) names)"

section \<open>How much collaboration a change needs\<close>

record work_facts =
  wf_profile :: js
  wf_risk :: js
  wf_uncertainty :: js
  wf_surfaces :: "js list"
  wf_domains :: "js list"
  wf_public :: bool
  wf_migration :: bool
  wf_reversible :: bool
  wf_evidence :: bool

definition policy_surfaces :: "js \<Rightarrow> js list" where
  "policy_surfaces policy = map JStr [''security'', ''auth'', ''data'', ''infra'', ''billing''] @ elems (fld policy ''sensitiveSurfaces'')"

definition threshold :: "js \<Rightarrow> string \<Rightarrow> int \<Rightarrow> int" where
  "threshold policy k d = (case js_int (fld policy k) of Some n \<Rightarrow> n | None \<Rightarrow> d)"

text \<open>The triggers of the three classes above the linear one.\<close>

definition human_triggers :: "js \<Rightarrow> work_facts \<Rightarrow> string list" where
  "human_triggers policy w =
     (if wf_profile w = JStr ''high-assurance'' then [''high-assurance-profile''] else [])
     @ (if list_ex (js_includes (policy_surfaces policy)) (wf_surfaces w) then [''sensitive-surface''] else [])
     @ (if \<not> wf_reversible w then [''irreversible-change''] else [])"

definition council_triggers :: "js \<Rightarrow> work_facts \<Rightarrow> string list" where
  "council_triggers policy w =
     (let on = (\<lambda>k. truthy (coal (fld policy k) (JBool True))) in
      (if wf_public w \<and> on ''councilOnPublicContract'' then [''public-contract''] else [])
      @ (if wf_migration w \<and> on ''councilOnMigration'' then [''migration''] else [])
      @ (if threshold policy ''councilDomainThreshold'' 3 \<le> int (length (wf_domains w)) then [''cross-domain''] else [])
      @ (if wf_risk w = JStr ''high'' then [''high-risk''] else [])
      @ (if wf_uncertainty w = JStr ''high'' then [''high-uncertainty''] else []))"

definition bilateral_triggers :: "js \<Rightarrow> work_facts \<Rightarrow> string list" where
  "bilateral_triggers policy w =
     (if wf_risk w = JStr ''medium'' then [''medium-risk''] else [])
     @ (if wf_uncertainty w = JStr ''medium'' then [''medium-uncertainty''] else [])
     @ (if \<not> wf_evidence w then [''incomplete-evidence''] else [])
     @ (if threshold policy ''bilateralDomainThreshold'' 2 \<le> int (length (wf_domains w)) then [''multi-domain''] else [])"

definition work_facts_of :: "js \<Rightarrow> work_facts" where
  "work_facts_of a =
     (let opt = (\<lambda>k d. js_default (fld a k) d); flag = (\<lambda>k d. truthy (opt k (JBool d))) in
      \<lparr>wf_profile = opt ''profile'' (JStr ''standard''), wf_risk = opt ''risk'' (JStr ''medium''),
       wf_uncertainty = opt ''uncertainty'' (JStr ''medium''), wf_surfaces = listed (opt ''changeSurface'' (JArr [])),
       wf_domains = listed (opt ''domains'' (JArr [])), wf_public = flag ''publicContract'' False,
       wf_migration = flag ''migration'' False, wf_reversible = flag ''reversible'' True, wf_evidence = flag ''evidenceComplete'' True\<rparr>)"

definition classify :: "js \<Rightarrow> work_facts \<Rightarrow> string \<times> string list" where
  "classify policy w =
     (if human_triggers policy w \<noteq> [] then (''human-gated'', human_triggers policy w)
      else if council_triggers policy w \<noteq> [] then (''council'', council_triggers policy w)
      else if bilateral_triggers policy w \<noteq> [] then (''bilateral'', bilateral_triggers policy w)
      else (''linear'', [''bounded-change'']))"

definition classifyRoleCollaboration :: "js \<Rightarrow> (string \<times> string list) res" where
  "classifyRoleCollaboration a0 = bnd (destructured a0) (\<lambda>a.
     let policy = js_default (fld a ''policy'') (JObj []) in
     bnd (assertRoleCollaborationPolicy policy) (\<lambda>_. Inr (classify policy (work_facts_of a))))"

text \<open>\<open>new Map()\<close> with its \<open>set\<close> and \<open>get\<close>, in insertion order.\<close>

fun js_map_set :: "(js \<times> 'v) list \<Rightarrow> js \<Rightarrow> 'v \<Rightarrow> (js \<times> 'v) list" where
  "js_map_set [] k v = [(k, v)]"
| "js_map_set ((k', v') # m) k v = (if same_zero k k' then (k', v) # m else (k', v') # js_map_set m k v)"

fun js_map_get :: "(js \<times> js) list \<Rightarrow> js \<Rightarrow> js" where
  "js_map_get [] k = JUndef"
| "js_map_get ((k', v') # m) k = (if same_zero k k' then v' else js_map_get m k)"

definition js_map_of :: "string \<Rightarrow> js list \<Rightarrow> (js \<times> js) list res" where
  "js_map_of key xs = for_fold (\<lambda>m x. bnd (dot x key) (\<lambda>k. Inr (js_map_set m k x))) [] xs"

definition selectCouncilSeats :: "js \<Rightarrow> js list res" where
  "selectCouncilSeats a0 = bnd (destructured a0) (\<lambda>a.
     let policy = js_default (fld a ''policy'') (JObj []);
         seat = (\<lambda>r f q. JObj [(''role'', r), (''focus'', f), (''required'', q)]);
         add = (\<lambda>m (r, f, q). if js_eq r (fld a ''ownerRole'') then m else js_map_set m r (seat r f q)) in
     bnd (assertRoleCollaborationPolicy policy) (\<lambda>_.
     bnd (js_iter (coal (fld policy ''councilSeats'') (JArr default_council_seats))) (\<lambda>seats.
     Inr (map snd (foldl add []
       (map (\<lambda>s. (fld s ''role'', fld s ''focus'', coal (fld s ''required'') (JBool True))) seats
        @ (if truthy (js_default (fld a ''publicContract'') (JBool False))
           then [(JStr ''agentflow:analyst'', JStr ''requirements and contract semantics'', JBool True)] else [])
        @ (if js_includes (listed (js_default (fld a ''changeSurface'') (JArr []))) (JStr ''docs'')
           then [(JStr ''agentflow:technical-writer'', JStr ''documentation and onboarding impact'', JBool False)] else [])))))))"

section \<open>The acceptance contract\<close>

definition createAcceptanceContract :: "host \<Rightarrow> js \<Rightarrow> js res" where
  "createAcceptanceContract h a0 = bnd (destructured a0) (\<lambda>a.
     let arg = fld a; opt = (\<lambda>k d. js_default (fld a k) d) in
     seal h ''acceptance-contract''
       [(''id'', arg ''id''), (''subject'', arg ''subject''), (''ownerRole'', arg ''ownerRole''),
        (''deliveryRole'', arg ''deliveryRole''), (''collaborationClass'', opt ''collaborationClass'' (JStr ''bilateral'')),
        (''candidateDigest'', arg ''candidateDigest''), (''criteria'', opt ''criteria'' (JArr [])),
        (''councilPolicy'', opt ''councilPolicy'' (JObj [(''required'', JBool False), (''seats'', JArr []),
           (''decisionOwner'', arg ''ownerRole'')])),
        (''controls'', opt ''controls'' (jstrs [''authority-may-only-narrow'']))])"

fun criteria_errors :: "nat \<Rightarrow> js list \<Rightarrow> js list \<Rightarrow> string list" where
  "criteria_errors i ids [] = []"
| "criteria_errors i ids (c # cs) =
     (let msg = (\<lambda>t. ''criteria['' @ nat_str i @ '']'' @ t) in
      (if \<not> truthy (fld c ''id'') \<or> js_includes ids (fld c ''id'') then [msg ''.id must be unique''] else [])
      @ (if \<not> one_of [''deterministic'', ''semantic''] (fld c ''verification'') then [msg ''.verification is invalid''] else [])
      @ (if \<not> is_bool (fld c ''required'') then [msg ''.required must be boolean''] else [])
      @ (if fld c ''severity'' \<noteq> JUndef \<and> \<not> one_of CRITERION_SEVERITIES (fld c ''severity'') then [msg ''.severity is invalid''] else [])
      @ (if \<not> truthy (fld c ''description'') then [msg ''.description is required''] else [])
      @ criteria_errors (Suc i) (fld c ''id'' # ids) cs)"

definition council_policy_errors :: "js \<Rightarrow> string list res" where
  "council_policy_errors ct =
     (let cp = fld ct ''councilPolicy'' in
      if \<not> truthy (fld cp ''required'') then Inr []
      else bnd (validateRoleCollaborationPolicy (JObj [(''councilSeats'', fld cp ''seats'')])) (\<lambda>errors.
        bnd (entries ''councilPolicy.seats'' (coal (fld cp ''seats'') (JArr []))) (\<lambda>seats.
        bnd (some_res (\<lambda>seat. bnd (dot seat ''role'') (\<lambda>r. Inr (js_eq r (fld ct ''ownerRole'')))) seats) (\<lambda>seated.
        Inr (errors @ (if seated then [''the accountable owner cannot occupy an advisory council seat''] else []))))))"

definition validateAcceptanceContract :: "host \<Rightarrow> js \<Rightarrow> string list res" where
  "validateAcceptanceContract h ct =
     bnd (entries ''criteria'' (coal (fld ct ''criteria'') (JArr []))) (\<lambda>criteria.
     bnd (council_policy_errors ct) (\<lambda>council.
     Inr (validateSealed h ct ''acceptance-contract''
       @ missing_fields ct [''id'', ''subject'', ''ownerRole'', ''deliveryRole'', ''candidateDigest'']
       @ (if \<not> one_of COLLABORATION_CLASSES (fld ct ''collaborationClass'') then [''collaborationClass is invalid''] else [])
       @ (if \<not> is_array (fld ct ''criteria'') \<or> criteria = [] then [''criteria must be a non-empty array''] else [])
       @ criteria_errors 0 [] criteria
       @ (if one_of [''council'', ''human-gated''] (fld ct ''collaborationClass'') \<and> \<not> truthy (fld (fld ct ''councilPolicy'') ''required'')
          then [''councilPolicy.required must be true for council and human-gated work''] else [])
       @ council
       @ (if \<not> js_eq (fld (fld ct ''councilPolicy'') ''decisionOwner'') (fld ct ''ownerRole'')
          then [''council decisionOwner must be the handover owner''] else []))))"

section \<open>The delivery receipt\<close>

definition createDeliveryReceipt :: "host \<Rightarrow> js \<Rightarrow> js res" where
  "createDeliveryReceipt h a0 = bnd (destructured a0) (\<lambda>a.
     let arg = fld a; opt = (\<lambda>k d. js_default (fld a k) d) in
     seal h ''delivery-receipt''
       [(''id'', arg ''id''), (''handoffDigest'', arg ''handoffDigest''), (''contractDigest'', arg ''contractDigest''),
        (''producerRole'', arg ''producerRole''), (''status'', opt ''status'' (JStr ''submitted'')),
        (''candidateDigest'', arg ''candidateDigest''), (''criteriaResults'', opt ''criteriaResults'' (JArr [])),
        (''evidenceRefs'', opt ''evidenceRefs'' (JArr [])), (''deviations'', opt ''deviations'' (JArr [])),
        (''executionReceiptDigest'', opt ''executionReceiptDigest'' JNull), (''provenance'', arg ''provenance'')])"

fun result_errors :: "host \<Rightarrow> js \<Rightarrow> nat \<Rightarrow> js list \<Rightarrow> js list \<Rightarrow> string list res" where
  "result_errors h config i ids [] = Inr []"
| "result_errors h config i ids (r # rs) =
     (let msg = (\<lambda>t. ''criteriaResults['' @ nat_str i @ '']'' @ t); cid = fld r ''criterionId'' in
      bnd (validateRefs h (coal (fld r ''evidenceRefs'') (JArr [])) (msg ''.evidenceRefs'') config) (\<lambda>refs.
      bnd (result_errors h config (Suc i) (cid # ids) rs) (\<lambda>rest.
      Inr ((if \<not> truthy cid then [msg ''.criterionId is required''] else [])
        @ (if js_includes ids cid then [''criteriaResults must have unique criterionIds''] else [])
        @ (if \<not> one_of [''pass'', ''fail'', ''not-applicable''] (fld r ''status'') then [msg ''.status is invalid''] else [])
        @ refs @ rest))))"

definition validateDeliveryReceipt :: "host \<Rightarrow> js \<Rightarrow> js \<Rightarrow> string list res" where
  "validateDeliveryReceipt h receipt config =
     bnd (entries ''criteriaResults'' (coal (fld receipt ''criteriaResults'') (JArr []))) (\<lambda>results.
     bnd (result_errors h config 0 [] results) (\<lambda>found.
     bnd (validateRefs h (fld receipt ''evidenceRefs'') ''evidenceRefs'' config) (\<lambda>refs.
     Inr (validateSealed h receipt ''delivery-receipt''
       @ missing_fields receipt [''id'', ''handoffDigest'', ''contractDigest'', ''producerRole'', ''candidateDigest'']
       @ (if \<not> one_of [''submitted'', ''blocked''] (fld receipt ''status'') then [''status is invalid''] else [])
       @ (if \<not> is_array (fld receipt ''criteriaResults'') then [''criteriaResults must be an array''] else [])
       @ found @ refs
       @ (if \<not> truthy (fld receipt ''provenance'') \<or> \<not> typeof_object (fld receipt ''provenance'')
          then [''provenance is required''] else [])))))"

section \<open>The records of a council\<close>

definition createCouncilRequest :: "host \<Rightarrow> js \<Rightarrow> js res" where
  "createCouncilRequest h a0 = bnd (destructured a0) (\<lambda>a.
     seal h ''council-request''
       [(''id'', fld a ''id''), (''subject'', fld a ''subject''), (''ownerRole'', fld a ''ownerRole''),
        (''question'', fld a ''question''), (''evidenceDigest'', fld a ''evidenceDigest''),
        (''seats'', js_default (fld a ''seats'') (JArr [])),
        (''decisionPolicy'', js_default (fld a ''decisionPolicy'') (JStr ''owner-decides-objections-resolved''))])"

definition createCouncilAdvice :: "host \<Rightarrow> js \<Rightarrow> js res" where
  "createCouncilAdvice h a0 = bnd (destructured a0) (\<lambda>a.
     let opt = (\<lambda>k d. js_default (fld a k) d) in
     seal h ''council-advice''
       [(''id'', fld a ''id''), (''requestDigest'', fld a ''requestDigest''), (''role'', fld a ''role''),
        (''position'', fld a ''position''), (''evidenceRefs'', opt ''evidenceRefs'' (JArr [])),
        (''objections'', opt ''objections'' (JArr [])), (''confidence'', opt ''confidence'' (JStr ''medium'')),
        (''outsideScope'', opt ''outsideScope'' (JArr []))])"

definition unresolved_disposition :: "js \<Rightarrow> bool res" where
  "unresolved_disposition d = bnd (dot d ''blocking'') (\<lambda>b.
     Inr (truthy b \<and> \<not> one_of [''accepted'', ''rejected-with-reason'', ''deferred-with-owner''] (fld d ''disposition'')))"

definition createCouncilSynthesis :: "host \<Rightarrow> js \<Rightarrow> js res" where
  "createCouncilSynthesis h a0 = bnd (destructured a0) (\<lambda>a.
     let ds = js_default (fld a ''objectionDispositions'') (JArr []) in
     bnd (entries ''objectionDispositions'' ds) (\<lambda>items.
     bnd (map_res unresolved_disposition items) (\<lambda>unresolved.
     seal h ''council-synthesis''
       [(''id'', fld a ''id''), (''requestDigest'', fld a ''requestDigest''), (''ownerRole'', fld a ''ownerRole''),
        (''adviceDigests'', js_default (fld a ''adviceDigests'') (JArr [])), (''decision'', fld a ''decision''),
        (''objectionDispositions'', ds),
        (''status'', JStr (if list_ex id unresolved then ''blocked'' else ''complete''))])))"

text \<open>The request's seats, and that no two of them have a role in common.\<close>

definition request_errors :: "js \<Rightarrow> string list res" where
  "request_errors r =
     (let seats = fld r ''seats'' in
      bnd (validateRoleCollaborationPolicy (JObj [(''councilSeats'', seats)])) (\<lambda>policy.
      bnd (entries ''seats'' (coal seats (JArr []))) (\<lambda>items.
      bnd (map_res (\<lambda>s. dot s ''role'') items) (\<lambda>roles.
      Inr ((if \<not> truthy (fld r ''ownerRole'') \<or> \<not> truthy (fld r ''question'') \<or> \<not> truthy (fld r ''evidenceDigest'')
            then [''request is incomplete''] else [])
        @ (if \<not> is_array seats \<or> items = [] then [''seats must be non-empty''] else [])
        @ policy
        @ (if \<not> js_eq (JNat (length (js_dedup roles))) (fld seats ''length'')
           then [''council seats must have unique roles''] else []))))))"

definition objection_errors :: "js \<Rightarrow> string list res" where
  "objection_errors ob = bnd (dot ob ''id'') (\<lambda>i.
     Inr (if \<not> truthy i \<or> \<not> truthy (fld ob ''description'') \<or> \<not> is_bool (fld ob ''blocking'')
          then [''each objection requires id, description, and blocking''] else []))"

definition advice_errors :: "host \<Rightarrow> js \<Rightarrow> js \<Rightarrow> string list res" where
  "advice_errors h r config =
     bnd (validateRefs h (fld r ''evidenceRefs'') ''evidenceRefs'' config) (\<lambda>refs.
     bnd (js_iter (coal (fld r ''objections'') (JArr []))) (\<lambda>items.
     bnd (map_res objection_errors items) (\<lambda>found.
     Inr ((if \<not> truthy (fld r ''requestDigest'') \<or> \<not> truthy (fld r ''role'') \<or> \<not> truthy (fld r ''position'')
           then [''advice is incomplete''] else [])
       @ (if \<not> one_of [''low'', ''medium'', ''high''] (fld r ''confidence'') then [''confidence is invalid''] else [])
       @ refs
       @ (if \<not> is_array (fld r ''objections'') then [''objections must be an array''] else [])
       @ concat found))))"

definition synthesis_errors :: "js \<Rightarrow> string list" where
  "synthesis_errors r =
     (if \<not> truthy (fld r ''requestDigest'') \<or> \<not> truthy (fld r ''ownerRole'') \<or> \<not> truthy (fld r ''decision'')
      then [''synthesis is incomplete''] else [])
     @ (if \<not> one_of [''complete'', ''blocked''] (fld r ''status'') then [''synthesis status is invalid''] else [])"

text \<open>The record is validated against its own type: only \<open>NaN\<close> differs from itself.\<close>

definition validateCouncilRecord :: "host \<Rightarrow> js \<Rightarrow> js \<Rightarrow> string list res" where
  "validateCouncilRecord h r config =
     (let type = fld r ''type'' in
      bnd (if type = JStr ''council-request'' then request_errors r
           else if type = JStr ''council-advice'' then advice_errors h r config
           else if type = JStr ''council-synthesis'' then Inr (synthesis_errors r) else Inr []) (\<lambda>found.
      Inr ((if \<not> js_eq (fld r ''version'') (JNat 1) then [''version must be 1''] else [])
        @ (if type = JNum NaN then [''type must be NaN''] else [])
        @ (if \<not> hasCurrentDigest h r then [''digest is missing or stale''] else [])
        @ (if \<not> truthy (fld r ''id'') then [''id is required''] else [])
        @ (if \<not> one_of [''council-request'', ''council-advice'', ''council-synthesis''] type
           then [''type is not a council record''] else [])
        @ found)))"

section \<open>Checking a council\<close>

text \<open>\<open>xs.sort()\<close>: by the text of the items, \<open>undefined\<close> last.\<close>

definition js_sort :: "host \<Rightarrow> js list \<Rightarrow> js list" where
  "js_sort h xs = sort_key (js_string h) (filter (\<lambda>x. x \<noteq> JUndef) xs) @ filter (\<lambda>x. x = JUndef) xs"

definition disposed :: "js \<Rightarrow> js \<Rightarrow> js list \<Rightarrow> bool" where
  "disposed item ob ds =
     (case filter (\<lambda>e. js_eq (fld e ''adviceDigest'') (fld item ''digest'') \<and> js_eq (fld e ''objectionId'') (fld ob ''id'')) ds of
        [d] \<Rightarrow> one_of [''accepted'', ''rejected-with-reason''] (fld d ''disposition'') \<and> truthy (fld d ''reason'')
      | _ \<Rightarrow> False)"

definition check_objection :: "host \<Rightarrow> js \<Rightarrow> js \<Rightarrow> js \<Rightarrow> string list res" where
  "check_objection h dispositions item ob = bnd (dot ob ''blocking'') (\<lambda>b.
     if \<not> truthy b then Inr []
     else bnd (entries ''dispositions'' dispositions) (\<lambda>ds.
       if list_ex nullish ds then Inl (TypeError ''Cannot read properties of null'')
       else Inr (if disposed item ob ds then []
         else [''unresolved blocking objection: '' @ js_string h (fld item ''role'') @ ''/'' @ js_string h (fld ob ''id'')])))"

definition check_advice :: "host \<Rightarrow> js \<Rightarrow> js \<Rightarrow> js \<Rightarrow> (js \<times> js) list \<Rightarrow> js \<Rightarrow> (string list \<times> js list) \<Rightarrow> js
    \<Rightarrow> (string list \<times> js list) res" where
  "check_advice h config request ct requested dispositions st item =
     (case st of (errors, seen) \<Rightarrow>
      bnd (validateCouncilRecord h item config) (\<lambda>bad.
      bnd (dot item ''role'') (\<lambda>who.
      bnd (js_iter (coal (fld item ''objections'') (JArr []))) (\<lambda>obs.
      bnd (map_res (check_objection h dispositions item) obs) (\<lambda>open.
      Inr (errors
        @ (if bad \<noteq> [] then [''council advice is invalid''] else [])
        @ (if \<not> js_eq (fld item ''requestDigest'') (fld request ''digest'') then [''advice request binding is stale''] else [])
        @ (if \<not> list_ex (\<lambda>p. same_zero who (fst p)) requested \<or> js_eq who (fld ct ''ownerRole'')
           then [''unrequested council role: '' @ js_string h who] else [])
        @ (if js_includes seen who then [''duplicate council advice: '' @ js_string h who] else [])
        @ concat open, who # seen))))))"

definition seat_missing :: "(js \<times> js) list \<Rightarrow> js \<Rightarrow> bool res" where
  "seat_missing requested seat = bnd (dot seat ''required'') (\<lambda>q.
     Inr (truthy q \<and> fld (js_map_get requested (fld seat ''role'')) ''required'' \<noteq> JBool True))"

definition missing_seats :: "host \<Rightarrow> (js \<times> js) list \<Rightarrow> js list \<Rightarrow> string list res" where
  "missing_seats h requested seats = bnd (map_res (\<lambda>s. bnd (seat_missing requested s) (\<lambda>m.
       Inr (if m then [''required contract seat is missing: '' @ js_string h (fld s ''role'')] else []))) seats)
     (\<lambda>es. Inr (concat es))"

text \<open>The errors that need no loop: validity, ownership and what each record is bound to.\<close>

definition council_binding_errors :: "bool \<Rightarrow> bool \<Rightarrow> js \<Rightarrow> js \<Rightarrow> js \<Rightarrow> js \<Rightarrow> string list" where
  "council_binding_errors request_valid synthesis_valid request synthesis ct dv =
     (let differ = (\<lambda>a b. \<not> js_eq a b) in
      (if \<not> request_valid then [''council request is invalid''] else [])
      @ (if \<not> synthesis_valid then [''council synthesis is invalid''] else [])
      @ (if differ (fld request ''ownerRole'') (fld ct ''ownerRole'') \<or> differ (fld synthesis ''ownerRole'') (fld ct ''ownerRole'')
         then [''council owner must be the handover owner''] else [])
      @ (if differ (fld request ''subject'') (fld ct ''subject'') \<or> differ (fld request ''evidenceDigest'') (fld dv ''digest'')
         then [''council request must bind the current subject and delivery''] else [])
      @ (if differ (fld synthesis ''requestDigest'') (fld request ''digest'') then [''synthesis request binding is stale''] else [])
      @ (if fld synthesis ''status'' \<noteq> JStr ''complete'' then [''council synthesis is not complete''] else []))"

definition advice_missing :: "host \<Rightarrow> js list \<Rightarrow> js list \<Rightarrow> string list" where
  "advice_missing h seen seats = map (\<lambda>s. ''missing council advice: '' @ js_string h (fld s ''role''))
     (filter (\<lambda>s. truthy (fld s ''required'') \<and> \<not> js_includes seen (fld s ''role'')) seats)"

definition same_advice :: "host \<Rightarrow> js list \<Rightarrow> js list \<Rightarrow> bool" where
  "same_advice h advice recorded =
     (json_text h (JArr (js_sort h (map (\<lambda>i. fld i ''digest'') advice))) = json_text h (JArr (js_sort h recorded)))"

definition verifyCouncil :: "host \<Rightarrow> js \<Rightarrow> string list res" where
  "verifyCouncil h a0 = bnd (destructured a0) (\<lambda>a.
     let request = fld a ''request''; synthesis = fld a ''synthesis''; ct = fld a ''contract''; config = fld a ''config'' in
     bnd (validateCouncilRecord h request config) (\<lambda>bad_request.
     bnd (validateCouncilRecord h synthesis config) (\<lambda>bad_synthesis.
     bnd (entries ''seats'' (coal (fld request ''seats'') (JArr []))) (\<lambda>seats.
     bnd (js_map_of ''role'' seats) (\<lambda>requested.
     bnd (js_iter (coal (fld (fld ct ''councilPolicy'') ''seats'') (JArr []))) (\<lambda>wanted.
     bnd (missing_seats h requested wanted) (\<lambda>missing.
     bnd (entries ''advice'' (js_default (fld a ''advice'') (JArr []))) (\<lambda>advice.
     bnd (for_fold (check_advice h config request ct requested (coal (fld synthesis ''objectionDispositions'') (JArr [])))
            ([], []) advice) (\<lambda>(given, seen).
     bnd (js_iter (coal (fld synthesis ''adviceDigests'') (JArr []))) (\<lambda>recorded.
     Inr (council_binding_errors (bad_request = []) (bad_synthesis = []) request synthesis ct (fld a ''delivery'')
       @ missing @ given @ advice_missing h seen seats
       @ (if \<not> same_advice h advice recorded then [''synthesis must bind exactly the supplied advice records''] else []))))))))))))"

section \<open>The deterministic report\<close>

definition report_check :: "string \<Rightarrow> bool \<Rightarrow> string \<Rightarrow> js" where
  "report_check i pass why = JObj [(''id'', JStr i), (''status'', JStr (if pass then ''pass'' else ''fail'')), (''reason'', JStr why)]"

definition binding_checks :: "host \<Rightarrow> js \<Rightarrow> js \<Rightarrow> js \<Rightarrow> bool \<Rightarrow> bool \<Rightarrow> js list" where
  "binding_checks h ho ct dv ct_valid dv_valid =
     [report_check ''handoff-valid'' (hasCurrentDigest h ho \<and> fld ho ''state'' = JStr ''issued'')
        ''handoff must be current, immutable, and issued'',
      report_check ''handoff-contract'' (js_eq (fld (fld ho ''acceptanceContract'') ''digest'') (fld ct ''digest'')
          \<and> js_eq (fld ho ''subject'') (fld ct ''subject'') \<and> js_eq (fld ho ''fromRole'') (fld ct ''ownerRole'')
          \<and> js_eq (fld ho ''toRole'') (fld ct ''deliveryRole''))
        ''handoff must bind the acceptance contract and role ownership'',
      report_check ''contract-valid'' ct_valid ''acceptance contract must be valid'',
      report_check ''delivery-valid'' (dv_valid \<and> fld dv ''status'' = JStr ''submitted'') ''delivery receipt must be valid'',
      report_check ''handoff-binding'' (js_eq (fld dv ''handoffDigest'') (fld ho ''digest'')) ''delivery must bind the handoff'',
      report_check ''contract-binding'' (js_eq (fld dv ''contractDigest'') (fld ct ''digest'')) ''delivery must bind the contract'',
      report_check ''role-binding'' (js_eq (fld dv ''producerRole'') (fld ct ''deliveryRole'')) ''producer must match deliveryRole'',
      report_check ''candidate-binding'' (js_eq (fld dv ''candidateDigest'') (fld ct ''candidateDigest'')) ''candidate digest must match'']"

definition needs_check :: "js \<Rightarrow> bool" where
  "needs_check c = (truthy (fld c ''required'') \<and> fld c ''verification'' = JStr ''deterministic''
     \<and> fld c ''severity'' \<noteq> JStr ''advisory'')"

definition result_passes :: "host \<Rightarrow> js \<Rightarrow> bool" where
  "result_passes h r = (fld r ''status'' = JStr ''pass''
     \<and> num_less (Fin 0) (to_number h (coal (fld (fld r ''evidenceRefs'') ''length'') (JNat 0))))"

definition criterion_check :: "host \<Rightarrow> (js \<times> js) list \<Rightarrow> js \<Rightarrow> js list res" where
  "criterion_check h results c = bnd (dot c ''required'') (\<lambda>_.
     Inr (if \<not> needs_check c then []
       else [report_check (''criterion:'' @ js_string h (fld c ''id'')) (result_passes h (js_map_get results (fld c ''id'')))
              ''required deterministic criterion must pass with evidence'']))"

definition semantic_criteria :: "js list \<Rightarrow> js list" where
  "semantic_criteria criteria =
     filter (\<lambda>c. truthy (fld c ''required'') \<and> fld c ''verification'' = JStr ''semantic'') criteria"

definition is_advisory :: "js \<Rightarrow> bool" where
  "is_advisory c = (fld c ''severity'' = JStr ''advisory'')"

definition check_passes :: "js \<Rightarrow> bool" where
  "check_passes c = (fld c ''status'' = JStr ''pass'')"

definition report_fields :: "js \<Rightarrow> js \<Rightarrow> js \<Rightarrow> js \<Rightarrow> js list \<Rightarrow> js list \<Rightarrow> (string \<times> js) list" where
  "report_fields ho ct dv synthesis checks criteria =
     (let semantic = semantic_criteria criteria; ids = (\<lambda>cs. JArr (map (\<lambda>c. fld c ''id'') cs)) in
      [(''handoffDigest'', coal (fld ho ''digest'') JNull), (''contractDigest'', coal (fld ct ''digest'') JNull),
       (''deliveryDigest'', coal (fld dv ''digest'') JNull), (''ownerRole'', coal (fld ct ''ownerRole'') JNull),
       (''candidateDigest'', coal (fld dv ''candidateDigest'') JNull),
       (''humanApprovalRequired'', JBool (fld ct ''collaborationClass'' = JStr ''human-gated'')),
       (''councilSynthesisDigest'', if truthy (fld (fld ct ''councilPolicy'') ''required'') then coal (fld synthesis ''digest'') JNull
          else JNull),
       (''status'', JStr (if list_all check_passes checks then (if semantic \<noteq> [] then ''semantic-review-required'' else ''pass'')
          else ''fail'')),
       (''checks'', JArr checks), (''semanticCriteria'', ids (filter (\<lambda>c. \<not> is_advisory c) semantic)),
       (''advisorySemanticCriteria'', ids (filter is_advisory semantic))])"

definition council_outcome :: "host \<Rightarrow> js \<Rightarrow> js \<Rightarrow> js \<Rightarrow> string list res" where
  "council_outcome h a ct dv =
     (if truthy (fld (fld ct ''councilPolicy'') ''required'')
      then verifyCouncil h (JObj [(''request'', js_default (fld a ''councilRequest'') JNull),
        (''advice'', js_default (fld a ''councilAdvice'') (JArr [])),
        (''synthesis'', js_default (fld a ''councilSynthesis'') JNull), (''contract'', ct), (''delivery'', dv),
        (''config'', fld a ''config'')])
      else Inr [])"

definition verifyRoleDelivery :: "host \<Rightarrow> js \<Rightarrow> js res" where
  "verifyRoleDelivery h a0 = bnd (destructured a0) (\<lambda>a.
     let ho = fld a ''handoff''; ct = fld a ''contract''; dv = fld a ''delivery'' in
     bnd (validateAcceptanceContract h ct) (\<lambda>ct_errors.
     bnd (validateDeliveryReceipt h dv (fld a ''config'')) (\<lambda>dv_errors.
     bnd (entries ''criteriaResults'' (coal (fld dv ''criteriaResults'') (JArr []))) (\<lambda>items.
     bnd (js_map_of ''criterionId'' items) (\<lambda>results.
     bnd (entries ''criteria'' (coal (fld ct ''criteria'') (JArr []))) (\<lambda>criteria.
     bnd (map_res (criterion_check h results) criteria) (\<lambda>found.
     bnd (council_outcome h a ct dv) (\<lambda>council.
     let checks = binding_checks h ho ct dv (ct_errors = []) (dv_errors = []) @ concat found
           @ [report_check ''council'' (council = []) (if js_join ''; '' council = [] then
                ''required council evidence is complete and current'' else js_join ''; '' council)] in
     seal h ''delivery-verification''
       (report_fields ho ct dv (js_default (fld a ''councilSynthesis'') JNull) checks criteria)))))))))"

section \<open>Sealed records\<close>

lemma map_of_copied: "map_of (map (\<lambda>(k, v). (k, copied v)) fs) k = map_option copied (map_of fs k)"
  by (induction fs) auto

text \<open>A field of a sealed record is the copy of the field that was given.\<close>

lemma seal_Inr:
  assumes "seal h ty fs = Inr r"
  obtains gs where "r = JObj gs" and "\<not> has_function (JObj fs)"
    and "\<And>k. map_of gs k = (if k = ''digest'' then Some (JStr (recordDigest h r))
       else case map_of fs k of Some v \<Rightarrow> Some (copied v)
         | None \<Rightarrow> if k = ''version'' then Some (JNat 1) else if k = ''type'' then Some (JStr ty) else None)"
proof -
  let ?b = "obj_set (obj_spread [(''version'', JNat 1), (''type'', JStr ty)] (map (\<lambda>(k, v). (k, copied v)) fs)) ''digest'' (JStr [])"
  let ?gs = "obj_set ?b ''digest'' (JStr (recordDigest h (JObj ?b)))"
  have r: "r = JObj ?gs" and nf: "\<not> has_function (JObj fs)"
    using assms by (auto simp: seal_def structured_clone_def own_props_def Let_def split: if_splits)
  have same: "recordDigest h r = recordDigest h (JObj ?b)"
    unfolding r by (simp add: recordDigest_def digest_payload_def own_props_def coal_def)
  show thesis
  proof (rule that [OF r nf])
    fix k
    show "map_of ?gs k = (if k = ''digest'' then Some (JStr (recordDigest h r))
       else case map_of fs k of Some v \<Rightarrow> Some (copied v)
         | None \<Rightarrow> if k = ''version'' then Some (JNat 1) else if k = ''type'' then Some (JStr ty) else None)"
      unfolding same map_of_obj_set map_of_obj_spread map_of_copied by (cases "map_of fs k") simp_all
  qed
qed

lemma fld_sealed:
  assumes "seal h ty fs = Inr r" and "k \<noteq> ''digest''" and "map_of fs k = Some v"
  shows "fld r k = copied v"
proof (rule seal_Inr [OF assms(1)], goal_cases)
  case (1 gs)
  then show ?case using assms(2,3) by (simp add: fld_own)
qed

lemma sealed_identity:
  assumes "seal h ty fs = Inr r" and "map_of fs ''version'' = None" and "map_of fs ''type'' = None"
  shows "fld r ''version'' = JNat 1" and "fld r ''type'' = JStr ty" and "fld r ''digest'' = JStr (recordDigest h r)"
proof -
  have own: "fld r k = (if k = ''digest'' then JStr (recordDigest h r) else if k = ''version'' then JNat 1 else JStr ty)"
    if "k \<in> {''version'', ''type'', ''digest''}" for k
  proof (rule seal_Inr [OF assms(1)], goal_cases)
    case (1 gs)
    then show ?case using assms(2,3) that by (auto simp: fld_own)
  qed
  show "fld r ''version'' = JNat 1" "fld r ''type'' = JStr ty" "fld r ''digest'' = JStr (recordDigest h r)"
    by (simp_all add: own)
qed

lemma sealed_valid:
  assumes "seal h ty fs = Inr r" and "map_of fs ''version'' = None" and "map_of fs ''type'' = None"
    and "is_hex64 (recordDigest h r)"
  shows "validateSealed h r ty = []"
  using sealed_identity [OF assms(1-3)] assms(4) by (simp add: validateSealed_def hasCurrentDigest_def)

section \<open>Keyed records\<close>

lemma same_zero_imp_eq: "same_zero a b \<Longrightarrow> a = b"
  by (auto simp: same_zero_def dest: js_eq_imp_eq)

lemma set_js_map_set: "p \<in> set (js_map_set m k v) \<Longrightarrow> p \<in> set m \<or> p = (k, v)"
  by (induction m) (auto split: if_splits dest: same_zero_imp_eq)

lemma js_map_get_found: "js_map_get m k \<noteq> JUndef \<Longrightarrow> (k, js_map_get m k) \<in> set m"
proof (induction m)
  case (Cons p m)
  then show ?case by (cases p) (auto split: if_splits dest: same_zero_imp_eq)
qed simp

text \<open>A map made by \<open>new Map(xs.map((x) => [x.key, x]))\<close> only pairs a key with a record that has it.\<close>

lemma js_map_of_in:
  assumes "js_map_of key xs = Inr m" and "(k, v) \<in> set m"
  shows "v \<in> set xs \<and> k = fld v key"
proof -
  have "\<forall>(k, v)\<in>set m. v \<in> set xs \<and> k = fld v key"
    by (rule for_fold_invariant [OF assms(1) [unfolded js_map_of_def]]) (auto simp: dot_Inr dest!: set_js_map_set)
  with assms(2) show ?thesis by auto
qed

section \<open>A council that counts\<close>

lemma missing_seats_Nil:
  assumes "missing_seats h requested seats = Inr []" and "s \<in> set seats" and "truthy (fld s ''required'')"
  shows "(fld s ''role'', js_map_get requested (fld s ''role'')) \<in> set requested
    \<and> fld (js_map_get requested (fld s ''role'')) ''required'' = JBool True"
proof -
  from assms(1) obtain es where es: "map_res (\<lambda>s. bnd (seat_missing requested s) (\<lambda>m.
       Inr (if m then [''required contract seat is missing: '' @ js_string h (fld s ''role'')] else []))) seats = Inr es" "concat es = []"
    by (auto simp: missing_seats_def)
  from map_res_elem [OF es(1) assms(2)] es(2) have "seat_missing requested s = Inr False"
    by (auto split: if_splits)
  then have "fld (js_map_get requested (fld s ''role'')) ''required'' = JBool True"
    using assms(3) by (auto simp: seat_missing_def dot_Inr)
  moreover from this have "js_map_get requested (fld s ''role'') \<noteq> JUndef" by (auto simp: fld_def)
  ultimately show ?thesis using js_map_get_found by blast
qed

text \<open>What the loop over the advice has established of an item once no error was found.\<close>

definition objections_resolved :: "js \<Rightarrow> js \<Rightarrow> bool" where
  "objections_resolved dispositions item =
     (case js_iter (coal (fld item ''objections'') (JArr [])) of
        Inr obs \<Rightarrow> list_all (\<lambda>ob. truthy (fld ob ''blocking'') \<longrightarrow> disposed item ob (elems dispositions)) obs
      | Inl _ \<Rightarrow> False)"

definition advice_bound :: "host \<Rightarrow> js \<Rightarrow> js \<Rightarrow> js \<Rightarrow> js \<Rightarrow> bool" where
  "advice_bound h config request ct item =
     (validateCouncilRecord h item config = Inr [] \<and> js_eq (fld item ''requestDigest'') (fld request ''digest'')
      \<and> \<not> js_eq (fld item ''role'') (fld ct ''ownerRole''))"

lemma check_objection_Nil:
  assumes "check_objection h dispositions item ob = Inr []" and "truthy (fld ob ''blocking'')"
  shows "disposed item ob (elems dispositions)"
  using assms by (auto simp: check_objection_def dot_Inr entries_def split: if_splits js.splits)

lemma check_advice_Nil:
  assumes "check_advice h config request ct requested dispositions (es, seen) item = Inr ([], seen')"
  shows "es = [] \<and> seen' = fld item ''role'' # seen \<and> \<not> js_includes seen (fld item ''role'')
    \<and> advice_bound h config request ct item \<and> objections_resolved dispositions item
    \<and> (\<exists>p\<in>set requested. fst p = fld item ''role'')"
proof -
  from assms obtain bad obs opn where o: "validateCouncilRecord h item config = Inr bad"
    "js_iter (coal (fld item ''objections'') (JArr [])) = Inr obs"
    "map_res (check_objection h dispositions item) obs = Inr opn" "concat opn = []" "es = []" "bad = []"
    "js_eq (fld item ''requestDigest'') (fld request ''digest'')" "seen' = fld item ''role'' # seen"
    "list_ex (\<lambda>p. same_zero (fld item ''role'') (fst p)) requested" "\<not> js_eq (fld item ''role'') (fld ct ''ownerRole'')"
    "\<not> js_includes seen (fld item ''role'')"
    by (auto simp: check_advice_def dot_Inr split: if_splits)
  have "list_all (\<lambda>ob. truthy (fld ob ''blocking'') \<longrightarrow> disposed item ob (elems dispositions)) obs"
    using map_res_elem [OF o(3)] o(4) check_objection_Nil by (fastforce simp: list_all_iff)
  with o show ?thesis
    by (force simp: advice_bound_def objections_resolved_def list_ex_iff dest: same_zero_imp_eq)
qed

lemma advice_loop:
  assumes "for_fold (check_advice h config request ct requested dispositions) (es, seen) items = Inr ([], seen')"
  shows "es = [] \<and> seen' = rev (map (\<lambda>i. fld i ''role'') items) @ seen \<and> (js_distinct seen \<longrightarrow> js_distinct seen')
    \<and> (\<forall>i\<in>set items. advice_bound h config request ct i \<and> objections_resolved dispositions i
        \<and> (\<exists>p\<in>set requested. fst p = fld i ''role''))"
  using assms
proof (induction items arbitrary: es seen)
  case (Cons i items)
  then obtain es' seen1 where st: "check_advice h config request ct requested dispositions (es, seen) i = Inr (es', seen1)"
    and rest: "for_fold (check_advice h config request ct requested dispositions) (es', seen1) items = Inr ([], seen')" by auto
  from Cons.IH [OF rest] have "es' = []" by blast
  from check_advice_Nil [OF st [unfolded this]] Cons.IH [OF rest] show ?case by auto
qed simp

lemma js_distinct_append: "js_distinct (xs @ [x]) \<longleftrightarrow> js_distinct xs \<and> list_all (\<lambda>y. \<not> same_zero y x) xs"
  by (induction xs) (auto simp: js_includes_def)

lemma js_distinct_rev: "js_distinct (rev xs) = js_distinct xs"
  by (induction xs) (auto simp: js_distinct_append js_includes_def list_ex_iff list_all_iff same_zero_def js_eq_sym)

text \<open>
  C15. A council that was found in order decides nothing alone and hides nothing: every piece of advice
  is a valid record bound to the request, from a requested seat that is not the accountable owner,
  with at most one per role; every seat the contract requires was requested as required and has
  given advice; and every blocking objection has exactly one disposition, which accepts or rejects
  it with a reason.
\<close>

theorem council_sound:
  assumes "verifyCouncil h (JObj fs) = Inr []"
    and "js_default (fld (JObj fs) ''advice'') (JArr []) = JArr advice"
    and "js_iter (coal (fld (fld (fld (JObj fs) ''contract'') ''councilPolicy'') ''seats'') (JArr [])) = Inr wanted"
  shows "js_distinct (map (\<lambda>i. fld i ''role'') advice)
    \<and> (\<forall>i\<in>set advice.
        advice_bound h (fld (JObj fs) ''config'') (fld (JObj fs) ''request'') (fld (JObj fs) ''contract'') i
        \<and> objections_resolved (coal (fld (fld (JObj fs) ''synthesis'') ''objectionDispositions'') (JArr [])) i
        \<and> (\<exists>s\<in>set (elems (fld (fld (JObj fs) ''request'') ''seats'')). fld s ''role'' = fld i ''role''))
    \<and> (\<forall>s\<in>set wanted. truthy (fld s ''required'') \<longrightarrow> (\<exists>i\<in>set advice. fld i ''role'' = fld s ''role''))
    \<and> fld (fld (JObj fs) ''synthesis'') ''status'' = JStr ''complete''"
proof -
  let ?a = "JObj fs"
  let ?rq = "fld ?a ''request''" and ?sy = "fld ?a ''synthesis''" and ?ct = "fld ?a ''contract''"
  have d: "destructured ?a = Inr ?a" by (simp add: destructured_def)
  from assms obtain seats requested seen rv sv where o:
    "entries ''seats'' (coal (fld ?rq ''seats'') (JArr [])) = Inr seats" "js_map_of ''role'' seats = Inr requested"
    "missing_seats h requested wanted = Inr []"
    "for_fold (check_advice h (fld ?a ''config'') ?rq ?ct requested (coal (fld ?sy ''objectionDispositions'') (JArr []))) ([], []) advice
      = Inr ([], seen)"
    "advice_missing h seen seats = []" "council_binding_errors rv sv ?rq ?sy ?ct (fld ?a ''delivery'') = []"
    unfolding verifyCouncil_def Let_def d bnd_simps bnd_Inr entries_def [of "''advice''"]
    by (auto split: prod.splits)
  have seats: "seats = elems (fld ?rq ''seats'')"
    using o(1) by (cases "fld ?rq ''seats''") (auto simp: entries_def coal_def)
  note loop = advice_loop [OF o(4)]
  have asked: "\<exists>s\<in>set seats. fld s ''role'' = k \<and> s = v" if "(k, v) \<in> set requested" for k v
    using js_map_of_in [OF o(2) that] by blast
  have given: "\<exists>i\<in>set advice. fld i ''role'' = fld s ''role''" if s: "s \<in> set wanted" "truthy (fld s ''required'')" for s
  proof -
    from missing_seats_Nil [OF o(3) s] asked obtain v where v: "v \<in> set seats" "fld v ''role'' = fld s ''role''"
      "truthy (fld v ''required'')" by fastforce
    with o(5) have "js_includes seen (fld v ''role'')" by (auto simp: advice_missing_def filter_empty_conv)
    from js_includes_in_set [OF this] loop v show ?thesis by auto
  qed
  show ?thesis
  proof (intro conjI ballI impI)
    have "js_distinct (rev (map (\<lambda>i. fld i ''role'') advice))" using loop by (elim conjE) simp
    then show "js_distinct (map (\<lambda>i. fld i ''role'') advice)" by (simp only: js_distinct_rev)
    show "fld ?sy ''status'' = JStr ''complete''"
      using o(6) by (simp add: council_binding_errors_def Let_def split: if_splits)
  next
    fix i assume "i \<in> set advice"
    with loop show "advice_bound h (fld ?a ''config'') ?rq ?ct i"
      "objections_resolved (coal (fld ?sy ''objectionDispositions'') (JArr [])) i"
      "\<exists>s\<in>set (elems (fld ?rq ''seats'')). fld s ''role'' = fld i ''role''"
      using asked seats by force+
  next
    fix s assume "s \<in> set wanted" and "truthy (fld s ''required'')"
    then show "\<exists>i\<in>set advice. fld i ''role'' = fld s ''role''" by (rule given)
  qed
qed

definition sample_record :: "string \<Rightarrow> (string \<times> js) list \<Rightarrow> js" where
  "sample_record ty fs = JObj ([(''version'', JNat 1), (''type'', JStr ty), (''digest'', sample_hex), (''id'', JStr ''r'')] @ fs)"

definition sample_seat :: js where
  "sample_seat = JObj [(''role'', JStr ''architect''), (''focus'', JStr ''boundaries''), (''required'', JBool True)]"

definition sample_seats :: js where
  "sample_seats = JArr [sample_seat]"

definition sample_advice :: js where
  "sample_advice = sample_record ''council-advice'' [(''requestDigest'', sample_hex), (''role'', JStr ''architect''),
     (''position'', JStr ''for''), (''confidence'', JStr ''high''), (''evidenceRefs'', JArr []),
     (''objections'', JArr [JObj [(''id'', JStr ''o''), (''description'', JStr ''risk''), (''blocking'', JBool True)]])]"

definition sample_dispositions :: js where
  "sample_dispositions = JArr [JObj [(''adviceDigest'', sample_hex), (''objectionId'', JStr ''o''), (''disposition'', JStr ''accepted''),
     (''reason'', JStr ''mitigated'')]]"

definition sample_council :: "(string \<times> js) list" where
  "sample_council =
     [(''request'', sample_record ''council-request'' [(''ownerRole'', JStr ''pm''), (''question'', JStr ''q''),
         (''evidenceDigest'', sample_hex), (''subject'', JStr ''s''), (''seats'', sample_seats)]),
      (''synthesis'', sample_record ''council-synthesis'' [(''requestDigest'', sample_hex), (''ownerRole'', JStr ''pm''),
         (''decision'', JStr ''go''), (''status'', JStr ''complete''), (''adviceDigests'', JArr [sample_hex]),
         (''objectionDispositions'', sample_dispositions)]),
      (''contract'', JObj [(''ownerRole'', JStr ''pm''), (''subject'', JStr ''s''),
         (''councilPolicy'', JObj [(''required'', JBool True), (''seats'', sample_seats)])]),
      (''delivery'', JObj [(''digest'', sample_hex)]), (''advice'', JArr [sample_advice])]"

lemma sample_record_current: "hasCurrentDigest const_host (sample_record ty fs)"
proof -
  have "is_hex64 (replicate 64 (CHR ''a''))" by (simp add: is_hex64_def list_all_iff is_hex_def)
  then show ?thesis
    by (simp add: hasCurrentDigest_def sample_record_def sample_hex_def fld_own recordDigest_def const_host_def)
qed

lemma sample_record_flds:
  "fld (sample_record ty fs) ''version'' = JNat 1" "fld (sample_record ty fs) ''type'' = JStr ty"
  "fld (sample_record ty fs) ''digest'' = sample_hex" "fld (sample_record ty fs) ''id'' = JStr ''r''"
  "k \<notin> {''version'', ''type'', ''digest'', ''id''} \<Longrightarrow> fld (sample_record ty fs) k = fld (JObj fs) k"
  by (simp_all add: sample_record_def fld_own)

lemma sample_seats_ok: "validateRoleCollaborationPolicy (JObj [(''councilSeats'', sample_seats)]) = Inr []"
  by (simp add: validateRoleCollaborationPolicy_def sample_seats_def sample_seat_def js_default_def bad_strings_def bad_limit_def fld_own proto_names_def)

lemma sample_records_valid:
  "validateCouncilRecord const_host (fld (JObj sample_council) ''request'') JUndef = Inr []"
  "validateCouncilRecord const_host (fld (JObj sample_council) ''synthesis'') JUndef = Inr []"
  "validateCouncilRecord const_host sample_advice JUndef = Inr []"
  by (simp_all add: validateCouncilRecord_def sample_council_def sample_advice_def sample_record_flds sample_record_current
      request_errors_def synthesis_errors_def advice_errors_def one_of_def fld_own sample_seats_ok del: bnd_Inr)
    (simp_all add: sample_seats_def sample_seat_def entries_def coal_def sample_hex_def fld_own js_dedup_def validateRefs_def js_iter_def objection_errors_def
      js_includes_def fld_def obj_get_def)

lemma sample_council_flds:
  "fld (JObj sample_council) ''config'' = JUndef" "fld (JObj sample_council) ''advice'' = JArr [sample_advice]"
  "fld (fld (JObj sample_council) ''request'') ''seats'' = sample_seats"
  "fld (fld (JObj sample_council) ''request'') ''digest'' = sample_hex"
  "fld (fld (JObj sample_council) ''contract'') ''ownerRole'' = JStr ''pm''"
  "fld (fld (fld (JObj sample_council) ''contract'') ''councilPolicy'') ''seats'' = sample_seats"
  "fld (fld (JObj sample_council) ''synthesis'') ''adviceDigests'' = JArr [sample_hex]"
  "fld (fld (JObj sample_council) ''synthesis'') ''objectionDispositions'' = sample_dispositions"
  "fld sample_advice ''digest'' = sample_hex" "fld sample_advice ''requestDigest'' = sample_hex"
  "fld sample_advice ''role'' = JStr ''architect''"
  "fld sample_advice ''objections'' = JArr [JObj [(''id'', JStr ''o''), (''description'', JStr ''risk''), (''blocking'', JBool True)]]"
  by (simp_all add: sample_council_def sample_advice_def sample_record_flds fld_own proto_names_def)

lemma sample_council_bound:
  "council_binding_errors True True (fld (JObj sample_council) ''request'') (fld (JObj sample_council) ''synthesis'')
     (fld (JObj sample_council) ''contract'') (fld (JObj sample_council) ''delivery'') = []"
  by (simp add: council_binding_errors_def sample_council_def sample_record_flds fld_own sample_hex_def)

lemma sample_objection: "check_objection const_host sample_dispositions sample_advice
    (JObj [(''id'', JStr ''o''), (''description'', JStr ''risk''), (''blocking'', JBool True)]) = Inr []"
  by (simp add: check_objection_def sample_council_flds entries_def disposed_def sample_dispositions_def)
    (simp add: fld_own sample_hex_def one_of_def)

lemma coal_array: "coal (JArr xs) d = JArr xs" "coal sample_dispositions d = sample_dispositions"
  by (simp_all add: coal_def sample_dispositions_def)

lemma sample_council_advice:
  "check_advice const_host JUndef (fld (JObj sample_council) ''request'') (fld (JObj sample_council) ''contract'')
     [(JStr ''architect'', v)] sample_dispositions ([], []) sample_advice = Inr ([], [JStr ''architect''])"
proof -
  have "dot sample_advice ''role'' = Inr (JStr ''architect'')"
    by (simp add: sample_council_flds dot_Inr) (simp add: sample_advice_def sample_record_def)
  then show ?thesis
    by (simp add: check_advice_def sample_records_valid js_includes_def sample_council_flds coal_array js_iter_def sample_objection
        sample_hex_def del: bnd_Inr)
qed

lemma sample_council_ok: "verifyCouncil const_host (JObj sample_council) = Inr []"
proof -
  have s: "js_map_of ''role'' [sample_seat] = Inr [(JStr ''architect'', sample_seat)]"
    "missing_seats const_host [(JStr ''architect'', sample_seat)] [sample_seat] = Inr []"
    "advice_missing const_host [JStr ''architect''] [sample_seat] = []"
    by (simp_all add: js_map_of_def missing_seats_def seat_missing_def advice_missing_def sample_seat_def fld_own js_includes_def)
  have c: "entries n (JArr xs) = Inr xs" "js_iter (JArr xs) = Inr xs" "js_default (JArr xs) d = JArr xs" for xs d n
    by (simp_all add: entries_def js_iter_def js_default_def)
  show ?thesis
    by (simp add: verifyCouncil_def destructured_def Let_def sample_records_valid sample_council_bound sample_council_flds
        sample_seats_def c s coal_array sample_council_advice same_advice_def del: bnd_Inr)
qed

theorem council_sound_witness:
  "\<exists>i\<in>set [sample_advice]. fld i ''role'' = JStr ''architect''"
  using council_sound [OF sample_council_ok, of "[sample_advice]" "[sample_seat]"]
  by (simp add: sample_council_flds js_default_def sample_seats_def coal_array js_iter_def sample_seat_def fld_own)

section \<open>More risk, more collaboration\<close>

definition class_rank :: "string \<Rightarrow> nat" where
  "class_rank c = (if c = ''linear'' then 0 else if c = ''bilateral'' then 1 else if c = ''council'' then 2 else 3)"

definition level :: "js \<Rightarrow> nat" where
  "level v = (if v = JStr ''high'' then 2 else if v = JStr ''medium'' then 1 else 0)"

text \<open>\<open>w'\<close> is at least as risky as \<open>w\<close> in every respect.\<close>

definition riskier :: "work_facts \<Rightarrow> work_facts \<Rightarrow> bool" where
  "riskier w w' =
     ((wf_profile w = JStr ''high-assurance'' \<longrightarrow> wf_profile w' = JStr ''high-assurance'')
      \<and> level (wf_risk w) \<le> level (wf_risk w') \<and> level (wf_uncertainty w) \<le> level (wf_uncertainty w')
      \<and> set (wf_surfaces w) \<subseteq> set (wf_surfaces w') \<and> length (wf_domains w) \<le> length (wf_domains w')
      \<and> (wf_public w \<longrightarrow> wf_public w') \<and> (wf_migration w \<longrightarrow> wf_migration w')
      \<and> (wf_reversible w' \<longrightarrow> wf_reversible w) \<and> (wf_evidence w' \<longrightarrow> wf_evidence w))"

lemma human_triggers_mono: "riskier w w' \<Longrightarrow> human_triggers p w \<noteq> [] \<Longrightarrow> human_triggers p w' \<noteq> []"
  by (auto simp: riskier_def human_triggers_def list_ex_iff split: if_splits)

lemma council_triggers_mono: "riskier w w' \<Longrightarrow> council_triggers p w \<noteq> [] \<Longrightarrow> council_triggers p w' \<noteq> []"
  by (auto simp: riskier_def council_triggers_def level_def Let_def split: if_splits)

lemma bilateral_triggers_mono:
  "riskier w w' \<Longrightarrow> bilateral_triggers p w \<noteq> [] \<Longrightarrow> bilateral_triggers p w' \<noteq> [] \<or> council_triggers p w' \<noteq> []"
  by (auto simp: riskier_def bilateral_triggers_def council_triggers_def level_def Let_def split: if_splits)

lemma class_rank_classify:
  "class_rank (fst (classify p w)) = (if human_triggers p w \<noteq> [] then 3 else if council_triggers p w \<noteq> [] then 2
     else if bilateral_triggers p w \<noteq> [] then 1 else 0)"
  by (simp add: classify_def class_rank_def)

text \<open>
  C16. More risk never gets less collaboration. Of two pieces of work classified under one policy, the
  one that is at least as risky in every respect gets a class at least as strong; work of high
  assurance, on a sensitive surface or irreversible is human-gated whatever else is said of it.
\<close>

theorem classification_monotone:
  assumes "classifyRoleCollaboration (JObj a) = Inr (c, t)" and "classifyRoleCollaboration (JObj b) = Inr (c', t')"
    and "js_default (fld (JObj a) ''policy'') (JObj []) = js_default (fld (JObj b) ''policy'') (JObj [])"
    and "riskier (work_facts_of (JObj a)) (work_facts_of (JObj b))"
  shows "class_rank c \<le> class_rank c' \<and> c \<in> set COLLABORATION_CLASSES \<and> t \<noteq> []
    \<and> (c = ''human-gated'' \<longleftrightarrow> human_triggers (js_default (fld (JObj a) ''policy'') (JObj [])) (work_facts_of (JObj a)) \<noteq> [])"
proof -
  let ?p = "js_default (fld (JObj a) ''policy'') (JObj [])"
  have c: "classify ?p (work_facts_of (JObj a)) = (c, t)" "classify ?p (work_facts_of (JObj b)) = (c', t')"
    using assms(1-3) by (auto simp: classifyRoleCollaboration_def destructured_def Let_def)
  have "class_rank (fst (classify ?p (work_facts_of (JObj a)))) \<le> class_rank (fst (classify ?p (work_facts_of (JObj b))))"
    unfolding class_rank_classify
    using human_triggers_mono [OF assms(4), of ?p] council_triggers_mono [OF assms(4), of ?p] bilateral_triggers_mono [OF assms(4), of ?p]
    by auto
  with c show ?thesis
    by (auto simp: classify_def COLLABORATION_CLASSES_def split: if_splits)
qed

theorem classification_monotone_witness:
  "\<exists>t t'. classifyRoleCollaboration (JObj [(''risk'', JStr ''low''), (''uncertainty'', JStr ''low'')]) = Inr (''linear'', t)
     \<and> classifyRoleCollaboration (JObj [(''risk'', JStr ''low''), (''uncertainty'', JStr ''low''), (''changeSurface'', JArr [JStr ''auth''])])
       = Inr (''human-gated'', t') \<and> class_rank ''linear'' \<le> class_rank ''human-gated''"
proof -
  let ?a = "[(''risk'', JStr ''low''), (''uncertainty'', JStr ''low'')]"
  let ?b = "[(''risk'', JStr ''low''), (''uncertainty'', JStr ''low''), (''changeSurface'', JArr [JStr ''auth''])]"
  have ok: "assertRoleCollaborationPolicy (JObj []) = Inr ()"
    by (simp add: assertRoleCollaborationPolicy_def validateRoleCollaborationPolicy_def js_default_def bad_strings_def bad_limit_def fld_own
        proto_names_def)
  have p: "fld (JObj ?a) ''policy'' = JUndef" "fld (JObj ?b) ''policy'' = JUndef" by (simp_all add: fld_own proto_names_def)
  have w: "work_facts_of (JObj ?a) = \<lparr>wf_profile = JStr ''standard'', wf_risk = JStr ''low'', wf_uncertainty = JStr ''low'', wf_surfaces = [],
      wf_domains = [], wf_public = False, wf_migration = False, wf_reversible = True, wf_evidence = True\<rparr>"
    "work_facts_of (JObj ?b) = \<lparr>wf_profile = JStr ''standard'', wf_risk = JStr ''low'', wf_uncertainty = JStr ''low'',
      wf_surfaces = [JStr ''auth''], wf_domains = [], wf_public = False, wf_migration = False, wf_reversible = True, wf_evidence = True\<rparr>"
    by (simp_all add: work_facts_of_def Let_def fld_own proto_names_def js_default_def listed_def)
  have e: "fld (JObj []) k = JUndef" if "k \<notin> set proto_names" for k using that by (simp add: fld_own)
  have c: "classifyRoleCollaboration (JObj ?a) = Inr (''linear'', [''bounded-change''])"
    "classifyRoleCollaboration (JObj ?b) = Inr (''human-gated'', [''sensitive-surface''])"
    by (simp_all add: classifyRoleCollaboration_def destructured_def p js_default_def ok w classify_def human_triggers_def council_triggers_def
        bilateral_triggers_def threshold_def js_int_def e proto_names_def policy_surfaces_def js_includes_def Let_def)
  from classification_monotone [OF c] show ?thesis
    unfolding c by (auto simp: p w riskier_def)
qed

end
