(* ===== verification/OracleDir.thy ===== *)
theory OracleDir
  imports Digest
begin

text \<open>
  The digest of an oracle directory (\<open>computeOracleDigest\<close> of src/lib/verification/workspace.mjs):
  the regular files of the tree \<open>tests/oracles\<close>, sorted by path, each with its length and its
  bytes. The directory is a tree of entries in the order the file system lists them. The hash of
  bytes is a parameter. The digest does not depend on the listing order and determines the files.
\<close>

section \<open>The directory and its digest\<close>

datatype dirent = Dir "(string \<times> dirent) list" | Plain string | Link | Special

text \<open>The walk: the path of every regular file below \<open>path\<close>, with its bytes.\<close>

fun walk :: "string list \<Rightarrow> (string \<times> dirent) list \<Rightarrow> (string list \<times> string) list res" where
  "walk path [] = Inr []"
| "walk path ((n, Link) # es) = fail ''Symlinks not permitted in oracle directory''"
| "walk path ((n, Dir sub) # es) = bnd (walk (path @ [n]) sub) (\<lambda>a. bnd (walk path es) (\<lambda>b. Inr (a @ b)))"
| "walk path ((n, Plain bytes) # es) = bnd (walk path es) (\<lambda>b. Inr ((path @ [n], bytes) # b))"
| "walk path ((n, Special) # es) = walk path es"

definition full_name :: "string list \<Rightarrow> string" where
  "full_name path = js_join ''/'' path"

text \<open>\<open>relative(targetDir, file).replaceAll('\\', '/')\<close>\<close>

definition rel_name :: "string list \<Rightarrow> string" where
  "rel_name path = map (\<lambda>c. if c = CHR 0x5C then CHR ''/'' else c) (full_name path)"

text \<open>The bytes a text is hashed as.\<close>

definition utf8_char :: "char \<Rightarrow> string" where
  "utf8_char c = (let n = (of_char c :: nat) in if n < 128 then [c] else [char_of (192 + n div 64), char_of (128 + n mod 64)])"

definition utf8_bytes :: "string \<Rightarrow> string" where
  "utf8_bytes s = concat (map utf8_char s)"

definition file_bytes :: "string list \<times> string \<Rightarrow> string" where
  "file_bytes f = utf8_bytes (rel_name (fst f) @ [CHR 0x00] @ nat_str (length (snd f)) @ [CHR 0x00]) @ snd f"

definition oracle_text :: "(string list \<times> string) list \<Rightarrow> string" where
  "oracle_text files = concat (map file_bytes (sort_key (\<lambda>f. full_name (fst f)) files))"

definition computeOracleDigest :: "(string \<Rightarrow> string) \<Rightarrow> dirent option \<Rightarrow> js res" where
  "computeOracleDigest sha entry =
     (case entry of
        Some (Dir es) \<Rightarrow> bnd (walk [] es) (\<lambda>files.
          Inr (if files = [] then JNull else JStr (sha (oracle_text files))))
      | _ \<Rightarrow> Inr JNull)"

lemma computeOracleDigest_Inr:
  assumes "computeOracleDigest sha entry = Inr v"
  shows "v = JNull \<or> (\<exists>es files. entry = Some (Dir es) \<and> walk [] es = Inr files \<and> files \<noteq> [] \<and> v = JStr (sha (oracle_text files)))"
proof (cases entry)
  case (Some e)
  with assms show ?thesis by (cases e) (auto simp: computeOracleDigest_def split: if_splits)
qed (use assms in \<open>simp add: computeOracleDigest_def\<close>)

section \<open>The files of a tree\<close>

text \<open>Names the file system can list: not empty, no slash, no NUL and, here, no backslash.\<close>

definition file_name :: "string \<Rightarrow> bool" where
  "file_name n = (n \<noteq> [] \<and> set n \<inter> {CHR ''/'', CHR 0x00, CHR 0x5C} = {})"

fun named :: "(string \<times> dirent) list \<Rightarrow> bool" where
  "named [] = True"
| "named ((n, Dir sub) # es) = (file_name n \<and> named sub \<and> n \<notin> fst ` set es \<and> named es)"
| "named ((n, _) # es) = (file_name n \<and> n \<notin> fst ` set es \<and> named es)"

lemma walk_files:
  "walk path es = Inr files \<Longrightarrow> named es \<Longrightarrow> f \<in> set files \<Longrightarrow>
    \<exists>n q. fst f = path @ n # q \<and> n \<in> fst ` set es \<and> list_all file_name (n # q)"
proof (induction path es arbitrary: files f rule: walk.induct)
  case (3 path n sub es)
  from "3.prems"(1) obtain a b where ab: "walk (path @ [n]) sub = Inr a" "walk path es = Inr b" "files = a @ b" by auto
  show ?case
  proof (cases "f \<in> set a")
    case True
    from "3.IH"(1) [OF ab(1) _ True] "3.prems"(2) obtain m q where "fst f = (path @ [n]) @ m # q" "list_all file_name (m # q)" by auto
    with "3.prems"(2) show ?thesis by (intro exI [of _ n] exI [of _ "m # q"]) simp
  next
    case False
    with ab "3.prems"(3) have "f \<in> set b" by simp
    from "3.IH"(2) [OF ab(1,2) _ this] "3.prems"(2) obtain m q
      where "fst f = path @ m # q" "m \<in> fst ` set es" "list_all file_name (m # q)" by auto
    then show ?thesis by (intro exI [of _ m] exI [of _ q]) simp
  qed
next
  case (4 path n bytes es)
  from "4.prems"(1) obtain b where b: "walk path es = Inr b" "files = (path @ [n], bytes) # b" by auto
  show ?case
  proof (cases "f = (path @ [n], bytes)")
    case True
    with "4.prems"(2) show ?thesis by (intro exI [of _ n] exI [of _ "[]"]) simp
  next
    case False
    with b "4.prems"(3) have "f \<in> set b" by simp
    from "4.IH" [OF b(1) _ this] "4.prems"(2) obtain m q
      where "fst f = path @ m # q" "m \<in> fst ` set es" "list_all file_name (m # q)" by auto
    then show ?thesis by (intro exI [of _ m] exI [of _ q]) simp
  qed
next
  case (5 path n es)
  from "5.IH" [OF _ _ "5.prems"(3)] "5.prems"(1,2) obtain m q
    where "fst f = path @ m # q" "m \<in> fst ` set es" "list_all file_name (m # q)" by auto
  then show ?case by (intro exI [of _ m] exI [of _ q]) simp
qed simp_all

lemma walk_distinct: "walk path es = Inr files \<Longrightarrow> named es \<Longrightarrow> distinct (map fst files)"
proof (induction path es arbitrary: files rule: walk.induct)
  case (3 path n sub es)
  from "3.prems"(1) obtain a b where ab: "walk (path @ [n]) sub = Inr a" "walk path es = Inr b" "files = a @ b" by auto
  have "False" if fg: "f \<in> set a" "g \<in> set b" "fst f = fst g" for f g
  proof -
    from walk_files [OF ab(1) _ fg(1)] "3.prems"(2) obtain m q where "fst f = (path @ [n]) @ m # q" by auto
    moreover from walk_files [OF ab(2) _ fg(2)] "3.prems"(2) obtain k r where "fst g = path @ k # r" "k \<in> fst ` set es" by auto
    ultimately show False using fg(3) "3.prems"(2) by auto
  qed
  then have "fst ` set a \<inter> fst ` set b = {}" by blast
  with "3.IH" ab "3.prems"(2) show ?case by simp
next
  case (4 path n bytes es)
  from "4.prems"(1) obtain b where b: "walk path es = Inr b" "files = (path @ [n], bytes) # b" by auto
  have "path @ [n] \<noteq> fst f" if "f \<in> set b" for f
    using walk_files [OF b(1) _ that] "4.prems"(2) by force
  then have "path @ [n] \<notin> fst ` set b" by blast
  with "4.IH" b "4.prems"(2) show ?case by simp
qed auto

section \<open>The text of a path determines it\<close>

lemma split_on_append: "c \<notin> set a \<Longrightarrow> split_on c (a @ c # s) = a # split_on c s"
  by (induction a) auto

lemma split_on_free: "c \<notin> set a \<Longrightarrow> split_on c a = [a]"
  by (induction a) auto

lemma split_full_name: "p \<noteq> [] \<Longrightarrow> list_all file_name p \<Longrightarrow> split_on (CHR ''/'') (full_name p) = p"
proof (induction p rule: induct_list012)
  case (3 x y zs)
  then show ?case by (simp add: full_name_def file_name_def split_on_append)
qed (simp_all add: full_name_def file_name_def split_on_free)

lemma full_name_inj: "p \<noteq> [] \<Longrightarrow> q \<noteq> [] \<Longrightarrow> list_all file_name p \<Longrightarrow> list_all file_name q \<Longrightarrow> full_name p = full_name q \<Longrightarrow> p = q"
  by (metis split_full_name)

lemma set_full_name: "list_all file_name p \<Longrightarrow> set (full_name p) \<inter> {CHR 0x00, CHR 0x5C} = {}"
proof (induction p rule: induct_list012)
  case (3 x y zs)
  then have "set (full_name (y # zs)) \<inter> {CHR 0x00, CHR 0x5C} = {}" "set x \<inter> {CHR 0x00, CHR 0x5C} = {}"
    by (auto simp: file_name_def)
  then show ?case by (auto simp: full_name_def)
qed (auto simp: full_name_def file_name_def)

lemma rel_name_same: "list_all file_name p \<Longrightarrow> rel_name p = full_name p"
  using set_full_name [of p] unfolding rel_name_def by (intro map_idI) auto

section \<open>The bytes of a file determine it\<close>

lemma utf8_char_cases:
  obtains "(of_char c :: nat) < 128" and "utf8_char c = [c]"
  | a b where "192 \<le> a" and "a < 196" and "b < 64" and "(of_char c :: nat) = 64 * (a - 192) + b"
      and "utf8_char c = [char_of a, char_of (128 + b)]"
proof (cases "(of_char c :: nat) < 128")
  case True
  then show thesis by (rule that(1)) (simp add: utf8_char_def True)
next
  case False
  have "(of_char c :: nat) < 4 * 64" using nat_of_char_less_256 [of c] by simp
  then have "(of_char c :: nat) div 64 < 4" by (rule less_mult_imp_div_less)
  then show thesis
    by (intro that(2) [of "192 + of_char c div 64" "of_char c mod 64"]) (use False in \<open>simp_all add: utf8_char_def Let_def\<close>)
qed

lemma char_of_nat_eq: "(char_of a :: char) = char_of b \<Longrightarrow> a < 256 \<Longrightarrow> b < 256 \<Longrightarrow> a = (b :: nat)"
  by (metis mod_less of_char_of)

lemma utf8_char_inj:
  assumes "utf8_char c @ r = utf8_char d @ t"
  shows "c = d \<and> r = t"
proof (cases rule: utf8_char_cases [of c])
  case 1
  with assms show ?thesis
    by (cases rule: utf8_char_cases [of d]) auto
next
  case (2 a b)
  note c = 2
  show ?thesis
  proof (cases rule: utf8_char_cases [of d])
    case 1
    with c assms show ?thesis by auto
  next
    case (2 a' b')
    with c assms have "(char_of a :: char) = char_of a'" "(char_of (128 + b) :: char) = char_of (128 + b')" "r = t" by auto
    with c 2 have "a = a'" "b = b'" "r = t" by (auto dest!: char_of_nat_eq)
    with c 2 have "(of_char c :: nat) = of_char d" by simp
    with \<open>r = t\<close> show ?thesis by simp
  qed
qed

lemma utf8_bytes_inj: "utf8_bytes a = utf8_bytes b \<Longrightarrow> a = b"
proof (induction a arbitrary: b)
  case Nil
  then show ?case by (cases b) (auto simp: utf8_bytes_def utf8_char_def Let_def split: if_splits)
next
  case (Cons c a)
  then obtain d b' where b: "b = d # b'" by (cases b) (auto simp: utf8_bytes_def utf8_char_def Let_def split: if_splits)
  with Cons.prems have "utf8_char c @ utf8_bytes a = utf8_char d @ utf8_bytes b'" by (simp add: utf8_bytes_def)
  from utf8_char_inj [OF this] Cons.IH b show ?case by blast
qed

lemma utf8_bytes_append: "utf8_bytes (a @ b) = utf8_bytes a @ utf8_bytes b"
  by (simp add: utf8_bytes_def)

lemma utf8_NUL: "CHR 0x00 \<notin> set a \<Longrightarrow> CHR 0x00 \<notin> set (utf8_bytes a)"
proof (induction a)
  case (Cons c a)
  have "CHR 0x00 \<notin> set (utf8_char c)"
    by (cases rule: utf8_char_cases [of c]) (use Cons.prems in \<open>auto dest!: arg_cong [where f = "of_char :: char \<Rightarrow> nat"]\<close>)
  with Cons show ?case by (simp add: utf8_bytes_def)
qed (simp add: utf8_bytes_def)

lemma utf8_digits: "utf8_bytes (nat_str n) = nat_str n"
proof -
  have "utf8_char c = [c]" if "c \<in> set (nat_str n)" for c
    using nat_str_digits [OF that] by (simp add: is_digit_def utf8_char_def Let_def)
  then have "map utf8_char (nat_str n) = map (\<lambda>c. [c]) (nat_str n)" by simp
  then show ?thesis by (simp only: utf8_bytes_def concat_map_singleton list.map_ident)
qed

lemma before_mark: "c \<notin> set a \<Longrightarrow> c \<notin> set b \<Longrightarrow> a @ c # r = b @ c # t \<Longrightarrow> a = b \<and> r = t"
proof (induction a arbitrary: b)
  case Nil
  then show ?case by (cases b) auto
next
  case (Cons x a)
  then show ?case by (cases b) auto
qed

text \<open>A record of the digest's text: name, NUL, length, NUL, and as many bytes.\<close>

lemma file_bytes_parts:
  assumes "list_all file_name (fst f)"
  shows "file_bytes f = utf8_bytes (full_name (fst f)) @ CHR 0x00 # nat_str (length (snd f)) @ CHR 0x00 # snd f"
    and "CHR 0x00 \<notin> set (utf8_bytes (full_name (fst f)))"
proof -
  have "utf8_bytes [CHR 0x00] = [CHR 0x00]" by (simp add: utf8_bytes_def utf8_char_def)
  then show "file_bytes f = utf8_bytes (full_name (fst f)) @ CHR 0x00 # nat_str (length (snd f)) @ CHR 0x00 # snd f"
    unfolding file_bytes_def rel_name_same [OF assms] utf8_bytes_append utf8_digits append_assoc by simp
  show "CHR 0x00 \<notin> set (utf8_bytes (full_name (fst f)))"
    using set_full_name [OF assms] by (intro utf8_NUL) auto
qed

definition well_named :: "(string list \<times> string) list \<Rightarrow> bool" where
  "well_named files = (\<forall>f\<in>set files. fst f \<noteq> [] \<and> list_all file_name (fst f))"

lemma file_bytes_decode:
  assumes "fst f \<noteq> []" and "list_all file_name (fst f)" and "fst g \<noteq> []" and "list_all file_name (fst g)"
    and "file_bytes f @ r = file_bytes g @ t"
  shows "f = g \<and> r = t"
proof -
  have no: "CHR 0x00 \<notin> set (nat_str n)" for n
    using nat_str_digits [of "CHR 0x00" n] by (auto simp: is_digit_def)
  have "utf8_bytes (full_name (fst f)) @ CHR 0x00 # (nat_str (length (snd f)) @ CHR 0x00 # snd f @ r)
      = utf8_bytes (full_name (fst g)) @ CHR 0x00 # (nat_str (length (snd g)) @ CHR 0x00 # snd g @ t)"
    using assms(5) unfolding file_bytes_parts(1) [OF assms(2)] file_bytes_parts(1) [OF assms(4)] by simp
  from before_mark [OF file_bytes_parts(2) [OF assms(2)] file_bytes_parts(2) [OF assms(4)] this]
  have name: "full_name (fst f) = full_name (fst g)"
    and "nat_str (length (snd f)) @ CHR 0x00 # (snd f @ r) = nat_str (length (snd g)) @ CHR 0x00 # (snd g @ t)"
    using utf8_bytes_inj by auto
  from before_mark [OF no no this(2)] have "length (snd f) = length (snd g)" "snd f @ r = snd g @ t"
    using nat_str_inj by auto
  then have "snd f = snd g \<and> r = t" by simp
  with full_name_inj [OF assms(1,3,2,4) name] show ?thesis by (simp add: prod_eq_iff)
qed

lemma file_bytes_nonempty: "file_bytes f \<noteq> []"
  by (simp add: file_bytes_def utf8_bytes_def utf8_char_def)

lemma all_bytes_decode:
  "well_named fs \<Longrightarrow> well_named gs \<Longrightarrow> concat (map file_bytes fs) = concat (map file_bytes gs) \<Longrightarrow> fs = gs"
proof (induction fs arbitrary: gs)
  case Nil
  then show ?case by (cases gs) (auto simp: file_bytes_nonempty)
next
  case (Cons f fs)
  then obtain g gs' where g: "gs = g # gs'" by (cases gs) (auto simp: file_bytes_nonempty)
  with Cons.prems have "file_bytes f @ concat (map file_bytes fs) = file_bytes g @ concat (map file_bytes gs')"
    "fst f \<noteq> []" "list_all file_name (fst f)" "fst g \<noteq> []" "list_all file_name (fst g)" "well_named fs" "well_named gs'"
    by (auto simp: well_named_def)
  with file_bytes_decode Cons.IH g show ?case by blast
qed

section \<open>The digest is the set of the files\<close>

lemma walked_well_named: "walk [] es = Inr files \<Longrightarrow> named es \<Longrightarrow> well_named files"
  using walk_files [of "[]" es files] by (fastforce simp: well_named_def)

lemma sorted_files_eq:
  assumes "well_named fs" and "well_named gs" and "distinct (map fst fs)" and "distinct (map fst gs)"
  shows "sort_key (\<lambda>f. full_name (fst f)) fs = sort_key (\<lambda>f. full_name (fst f)) gs \<longleftrightarrow> mset fs = mset gs"
proof
  assume "mset fs = mset gs"
  moreover have "inj_on (\<lambda>f. full_name (fst f)) (set fs)"
  proof (rule inj_onI)
    fix f g assume fg: "f \<in> set fs" "g \<in> set fs" "full_name (fst f) = full_name (fst g)"
    with assms(1) have "fst f = fst g" unfolding well_named_def using full_name_inj by blast
    with fg assms(3) show "f = g" by (metis distinct_map inj_onD)
  qed
  ultimately show "sort_key (\<lambda>f. full_name (fst f)) fs = sort_key (\<lambda>f. full_name (fst f)) gs"
    by (intro sort_key_inj_key_eq) auto
next
  assume "sort_key (\<lambda>f. full_name (fst f)) fs = sort_key (\<lambda>f. full_name (fst f)) gs"
  then show "mset fs = mset gs" by (metis mset_sort)
qed

text \<open>
  C39. The digest of an oracle directory is its set of files: two directories without links, with names
  without backslashes (which the code would turn into slashes), have the same digest exactly when they hold the same regular files, with the same paths and bytes, in whatever
  order the file system lists them, unless the two texts are a collision of the hash function.
\<close>

theorem oracle_digest_binds_files:
  assumes "named a" and "named b" and "walk [] a = Inr fa" and "walk [] b = Inr fb"
    and no_collision: "sha (oracle_text fa) = sha (oracle_text fb) \<longrightarrow> oracle_text fa = oracle_text fb"
  shows "computeOracleDigest sha (Some (Dir a)) = computeOracleDigest sha (Some (Dir b)) \<longleftrightarrow> mset fa = mset fb"
proof -
  have "computeOracleDigest sha (Some (Dir a)) = computeOracleDigest sha (Some (Dir b))
      \<longleftrightarrow> (fa = [] \<and> fb = []) \<or> (fa \<noteq> [] \<and> fb \<noteq> [] \<and> oracle_text fa = oracle_text fb)"
    using assms(3,4) no_collision by (auto simp: computeOracleDigest_def)
  also have "\<dots> \<longleftrightarrow> mset fa = mset fb"
  proof -
    note wn = walked_well_named [OF assms(3,1)] walked_well_named [OF assms(4,2)]
    have "oracle_text fa = oracle_text fb
        \<longleftrightarrow> sort_key (\<lambda>f. full_name (fst f)) fa = sort_key (\<lambda>f. full_name (fst f)) fb"
      using wn by (auto simp: oracle_text_def well_named_def intro!: all_bytes_decode [unfolded well_named_def])
    also have "\<dots> \<longleftrightarrow> mset fa = mset fb"
      by (rule sorted_files_eq [OF wn walk_distinct [OF assms(3,1)] walk_distinct [OF assms(4,2)]])
    finally show ?thesis by (metis mset_zero_iff)
  qed
  finally show ?thesis .
qed

theorem oracle_digest_binds_files_witness:
  "computeOracleDigest (\<lambda>_. ''d'') (Some (Dir [(''a'', Plain ''x''), (''b'', Dir [(''c'', Plain ''y'')])]))
     = computeOracleDigest (\<lambda>_. ''d'') (Some (Dir [(''b'', Dir [(''c'', Plain ''y'')]), (''a'', Plain ''x'')]))"
  by (rule iffD2 [OF oracle_digest_binds_files [where fa = "[([''a''], ''x''), ([''b'', ''c''], ''y'')]"
        and fb = "[([''b'', ''c''], ''y''), ([''a''], ''x'')]"]])
    (simp_all add: file_name_def oracle_text_def full_name_def add_mset_commute)

end
