(* ===== verification/RoleAdvance.thy ===== *)
theory RoleAdvance
  imports RoleCollaboration OracleDir
begin

text \<open>
  What follows the deterministic report (src/lib/core/role-collaboration.mjs): the owner's
  acceptance decision, the rework ledger with its circuit breaker and fencing token, the unfreezing
  of a ledger by the steering plane, and the check that lets the work advance to its next phase.
\<close>

section \<open>Pinning the oracles\<close>

definition BUILDER_SEATS :: "string list" where
  "BUILDER_SEATS = [''dev.build'', ''dev.build-jr'', ''dev.build-sr'']"

definition pinOracleDigest :: "host \<Rightarrow> js \<Rightarrow> js \<Rightarrow> js res" where
  "pinOracleDigest h digest phs =
     (if \<not> js_eq phs (JNat 3) then fail ''oracle digest is pinned in phase 3''
      else if \<not> digest_test h digest then fail ''oracle digest must be a sha256 hex digest''
      else Inr (JObj [(''type'', JStr ''oracle-pin''), (''phase'', JNat 3), (''oracleDigest'', digest),
        (''pinnedBefore'', JStr ''dev.build'')]))"

definition verifyOraclePin :: "host \<Rightarrow> js \<Rightarrow> js \<Rightarrow> js \<Rightarrow> string list" where
  "verifyOraclePin h pin seat expected =
     (if \<not> one_of BUILDER_SEATS seat then []
      else if js_eq (fld pin ''phase'') (JNat 3) \<and> digest_test h (fld pin ''oracleDigest'')
      then (if expected = JNull then [''oracle directory tests/oracles is missing or empty'']
        else if expected \<noteq> JUndef \<and> \<not> js_eq (fld pin ''oracleDigest'') expected
        then [''oracle pin digest '' @ js_string h (fld pin ''oracleDigest'') @ '' does not match expected digest '' @ js_string h expected]
        else [])
      else [''phase 3 must pin an oracle digest before dev.build starts''])"

section \<open>The acceptance decision\<close>

definition accepting :: "js \<Rightarrow> bool" where
  "accepting d = one_of [''accepted'', ''accepted-with-conditions''] (fld d ''state'')"

text \<open>The report's own verdict: its status and its checks. The loop over the checks throws on \<open>null\<close>.\<close>

definition report_accepts :: "js \<Rightarrow> bool res" where
  "report_accepts rep =
     (if \<not> one_of [''pass'', ''semantic-review-required''] (fld rep ''status'') \<or> \<not> is_array (fld rep ''checks'') then Inr False
      else bnd (some_res (\<lambda>c. bnd (dot c ''status'') (\<lambda>s. Inr (s \<noteq> JStr ''pass''))) (elems (fld rep ''checks''))) (\<lambda>bad. Inr (\<not> bad)))"

text \<open>A blocking semantic criterion has exactly one finding, which passes and says why.\<close>

definition criterion_found :: "js \<Rightarrow> js \<Rightarrow> bool res" where
  "criterion_found findings cid = bnd (entries ''findings'' findings) (\<lambda>fs.
     if list_ex nullish fs then Inl (TypeError ''Cannot read properties of null (reading criterionId)'')
     else Inr (case filter (\<lambda>f. js_eq (fld f ''criterionId'') cid) fs of
         [f] \<Rightarrow> fld f ''status'' = JStr ''pass'' \<and> truthy (fld f ''reason'')
       | _ \<Rightarrow> False))"

definition finding_errors :: "host \<Rightarrow> js list \<Rightarrow> js \<Rightarrow> string list" where
  "finding_errors h advisory f =
     (if \<not> one_of SEMANTIC_FINDING_STATUSES (fld f ''status'')
      then [''semantic finding status is invalid: '' @ js_string h (fld f ''status'')] else [])
     @ (if \<not> truthy (fld f ''reason'') then [''semantic finding requires a reason: '' @ js_string h (fld f ''criterionId'')] else [])
     @ (if js_includes advisory (fld f ''criterionId'') \<and> \<not> one_of [''pass'', ''observation'', ''unverified''] (fld f ''status'')
        then [''advisory finding for '' @ js_string h (fld f ''criterionId'') @ '' must be pass, observation, or unverified''] else [])"

definition blocking_failed :: "js list \<Rightarrow> js list \<Rightarrow> bool" where
  "blocking_failed advisory findings =
     list_ex (\<lambda>f. \<not> js_includes advisory (fld f ''criterionId'') \<and> fld f ''status'' \<noteq> JStr ''pass'') findings"

definition semantic_errors :: "host \<Rightarrow> js \<Rightarrow> js \<Rightarrow> string list res" where
  "semantic_errors h d rep =
     (let findings = coal (fld d ''semanticFindings'') (JArr []) in
      bnd (js_iter (coal (fld rep ''semanticCriteria'') (JArr []))) (\<lambda>cids.
      bnd (map_res (criterion_found findings) cids) (\<lambda>found.
      bnd (js_iter (coal (fld rep ''advisorySemanticCriteria'') (JArr []))) (\<lambda>advisory.
      bnd (js_iter findings) (\<lambda>fs.
      Inr (map (\<lambda>(cid, _). ''semantic criterion requires one passing finding with reason: '' @ js_string h cid)
             (filter (\<lambda>(_, ok). \<not> ok) (zip cids found))
         @ concat (map (finding_errors h advisory) fs)
         @ (if blocking_failed advisory fs then [''all semantic findings must pass''] else [])))))))"

text \<open>The evidence a human-gated acceptance needs, bound to the delivery.\<close>

definition human_approved :: "host \<Rightarrow> js \<Rightarrow> bool res" where
  "human_approved h d =
     (let ap = fld d ''humanApproval'' in
      if fld ap ''approved'' \<noteq> JBool True \<or> \<not> truthy (fld ap ''actor'') \<or> fld ap ''actorType'' \<noteq> JStr ''human''
         \<or> \<not> js_eq (fld ap ''deliveryDigest'') (fld d ''deliveryDigest'') then Inr False
      else bnd (validateArtifactRef h (fld ap ''evidenceRef'') JUndef) (\<lambda>r. Inr (r_errors r = [])))"

definition acceptance_errors :: "host \<Rightarrow> js \<Rightarrow> string list res" where
  "acceptance_errors h d =
     (let rep = fld d ''deterministicReport'' in
      if \<not> accepting d then Inr []
      else bnd (report_accepts rep) (\<lambda>passes.
        bnd (semantic_errors h d rep) (\<lambda>semantic.
        bnd (if truthy (fld rep ''humanApprovalRequired'') then human_approved h d else Inr True) (\<lambda>approved.
        Inr ((if \<not> passes then [''acceptance requires a passing deterministic report''] else [])
          @ semantic
          @ (if \<not> approved then [''human-gated acceptance requires delivery-bound human approval evidence''] else []))))))"

definition DECISION_BINDINGS :: "string list" where
  "DECISION_BINDINGS = [''handoffDigest'', ''contractDigest'', ''deliveryDigest'', ''councilSynthesisDigest'']"

definition validateAcceptanceDecision :: "host \<Rightarrow> js \<Rightarrow> string list res" where
  "validateAcceptanceDecision h d =
     (let rep = fld d ''deterministicReport'' in
      bnd (acceptance_errors h d) (\<lambda>found.
      Inr (validateSealed h d ''acceptance-decision''
        @ (if \<not> one_of ACCEPTANCE_STATES (fld d ''state'') then [''state is invalid''] else [])
        @ (if \<not> truthy (fld d ''decidedByRole'') then [''decidedByRole is required''] else [])
        @ (if \<not> hasCurrentDigest h rep \<or> fld rep ''type'' \<noteq> JStr ''delivery-verification''
           then [''deterministic report must be current and sealed''] else [])
        @ map (\<lambda>f. f @ '' must match the deterministic report'') (filter (\<lambda>f. \<not> js_eq (fld d f) (fld rep f)) DECISION_BINDINGS)
        @ (if \<not> js_eq (fld d ''decidedByRole'') (fld rep ''ownerRole'') then [''only the handover owner may decide''] else [])
        @ found
        @ (if fld d ''state'' = JStr ''accepted-with-conditions'' \<and> \<not> truthy (fld (coal (fld d ''conditions'') (JArr [])) ''length'')
           then [''accepted-with-conditions requires conditions''] else []))))"

definition createAcceptanceDecision :: "host \<Rightarrow> js \<Rightarrow> js res" where
  "createAcceptanceDecision h a0 = bnd (destructured a0) (\<lambda>a.
     let ho = fld a ''handoff''; ct = js_default (fld a ''contract'') (fld ho ''acceptanceContract''); dv = fld a ''delivery'';
         opt = (\<lambda>k d. js_default (fld a k) d); given = opt ''deterministicReport'' JUndef in
     if \<not> truthy ho \<or> \<not> truthy ct \<or> \<not> truthy dv
     then fail ''acceptance decisions require the source handoff, contract, and delivery''
     else bnd (verifyRoleDelivery h (JObj [(''handoff'', ho), (''contract'', ct), (''delivery'', dv),
         (''councilRequest'', opt ''councilRequest'' JNull), (''councilAdvice'', opt ''councilAdvice'' (JArr [])),
         (''councilSynthesis'', opt ''councilSynthesis'' JNull)])) (\<lambda>verified.
     if truthy given \<and> (\<not> hasCurrentDigest h given \<or> \<not> js_eq (fld given ''digest'') (fld verified ''digest''))
     then fail ''deterministic report does not match recomputed source evidence''
     else bnd (seal h ''acceptance-decision''
         [(''id'', fld a ''id''), (''handoffDigest'', coal (fld a ''handoffDigest'') (fld ho ''digest'')),
          (''contractDigest'', coal (fld a ''contractDigest'') (fld ct ''digest'')),
          (''deliveryDigest'', coal (fld a ''deliveryDigest'') (fld dv ''digest'')),
          (''decidedByRole'', fld a ''decidedByRole''), (''state'', fld a ''state''), (''deterministicReport'', verified),
          (''semanticFindings'', opt ''semanticFindings'' (JArr [])),
          (''councilSynthesisDigest'', coal (fld a ''councilSynthesisDigest'') (fld verified ''councilSynthesisDigest'')),
          (''conditions'', opt ''conditions'' (JArr [])), (''humanApproval'', opt ''humanApproval'' JNull),
          (''provenance'', fld a ''provenance'')]) (\<lambda>decision.
     bnd (validateAcceptanceDecision h decision) (\<lambda>errors.
     if errors \<noteq> [] then fail (js_join ''; '' errors) else Inr decision))))"

section \<open>The rework ledger\<close>

text \<open>\<open>Number.isInteger(ledger?.k) ? ledger.k : 0\<close>\<close>

definition int_field :: "js \<Rightarrow> string \<Rightarrow> int" where
  "int_field v k = (case js_int (fld v k) of Some n \<Rightarrow> n | None \<Rightarrow> 0)"

text \<open>
  \<open>n + 1\<close> on numbers: exact up to 2 ^ 53, beyond it the nearest number of 53 significant bits,
  the even one of two equally near.
\<close>

fun bit_count :: "nat \<Rightarrow> nat" where
  "bit_count n = (if n = 0 then 0 else Suc (bit_count (n div 2)))"

declare bit_count.simps [simp del]

definition succ_num :: "int \<Rightarrow> int" where
  "succ_num n = (let m = n + 1; a = nat \<bar>m\<bar> in
     if a \<le> 2 ^ 53 then m
     else let u = 2 ^ (bit_count a - 53); q = a div u; r = a mod u in
       sgn m * int ((if u < 2 * r \<or> (2 * r = u \<and> odd q) then q + 1 else q) * u))"

definition deriveReworkRound :: "js \<Rightarrow> int" where
  "deriveReworkRound ledger0 =
     (let ledger = js_default ledger0 (JObj []) in
      succ_num (max (int_field ledger ''currentRound'') (int (length (elems (fld ledger ''rounds''))))))"

definition is_frozen :: "js \<Rightarrow> bool" where
  "is_frozen ledger = (fld ledger ''frozen'' = JBool True)"

text \<open>The frozen ledger and the packet that leaves the seam.\<close>

definition tripLedgerBreaker :: "host \<Rightarrow> js \<Rightarrow> (js \<times> js) res" where
  "tripLedgerBreaker h ledger0 =
     (let ledger = js_default ledger0 (JObj []); token = succ_num (int_field ledger ''fencingToken'') in
      bnd (structured_clone (coal ledger (JObj []))) (\<lambda>c.
      bnd (seal h ''reverse-seam-packet'' [(''triggerCondition'', JStr ''rework-exhausted''), (''fencingToken'', JInt token),
          (''round'', JInt (deriveReworkRound ledger)), (''targetIdentityDigest'', coal (fld ledger ''targetIdentityDigest'') JNull)])
        (\<lambda>packet. Inr (JObj (obj_spread (own_props c) [(''frozen'', JBool True), (''fencingToken'', JInt token)]), packet))))"

text \<open>
  A request is refused by a throw; the throw of a tripped breaker carries the frozen ledger and the
  packet.
\<close>

datatype rework_outcome = ReworkRequested js | BreakerTripped js js

definition rejectClientRound :: "js \<Rightarrow> js \<Rightarrow> unit res" where
  "rejectClientRound round0 iteration =
     (if round0 \<noteq> JUndef \<or> iteration \<noteq> JUndef then fail ''client-provided rework round is rejected'' else Inr ())"

definition createReworkRequest :: "host \<Rightarrow> js \<Rightarrow> rework_outcome res" where
  "createReworkRequest h a0 = bnd (destructured a0) (\<lambda>a.
     let ledger = fld a ''ledger'' in
     bnd (rejectClientRound (fld a ''round'') (fld a ''iteration'')) (\<lambda>_.
     if is_frozen ledger then fail ''rework is rejected on a frozen ledger''
     else if DEFAULT_MAX_REWORK_ROUNDS < deriveReworkRound ledger
     then bnd (tripLedgerBreaker h ledger) (\<lambda>(frozen, packet). Inr (BreakerTripped frozen packet))
     else bnd (seal h ''rework-request''
       [(''id'', fld a ''id''), (''acceptanceDecisionDigest'', fld a ''acceptanceDecisionDigest''),
        (''ownerRole'', fld a ''ownerRole''), (''deliveryRole'', fld a ''deliveryRole''),
        (''failedCriteria'', js_default (fld a ''failedCriteria'') (JArr [])),
        (''requiredChanges'', js_default (fld a ''requiredChanges'') (JArr [])),
        (''evidenceDigest'', fld a ''evidenceDigest''), (''round'', JInt (deriveReworkRound ledger))])
       (\<lambda>r. Inr (ReworkRequested r))))"

definition validateReworkRequest :: "host \<Rightarrow> js \<Rightarrow> string list" where
  "validateReworkRequest h request =
     (let n = coal (fld request ''round'') (fld request ''iteration'') in
      validateSealed h request ''rework-request''
      @ (if \<not> truthy (fld request ''acceptanceDecisionDigest'') \<or> \<not> truthy (fld request ''ownerRole'')
            \<or> \<not> truthy (fld request ''deliveryRole'') then [''rework request identity is incomplete''] else [])
      @ (if \<not> is_array (fld request ''requiredChanges'') \<or> elems (fld request ''requiredChanges'') = []
         then [''requiredChanges must be non-empty''] else [])
      @ (if n = JUndef then []
         else case js_int n of
           Some i \<Rightarrow> if i < 1 then [''round must be a positive integer'']
             else if DEFAULT_MAX_REWORK_ROUNDS < i then [''rework round '' @ js_string h n @ '' is past the circuit breaker''] else []
         | None \<Rightarrow> [''round must be a positive integer'']))"

section \<open>Unfreezing\<close>

definition UNFREEZE_RESOLUTIONS :: "string list" where
  "UNFREEZE_RESOLUTIONS = [''re-scope'', ''slice-split'', ''person-waiver'', ''abandonment'']"

definition AUTHORIZED_UNFREEZE_ACTORS :: "string list" where
  "AUTHORIZED_UNFREEZE_ACTORS = [''steer.lead'', ''steer.po'']"

text \<open>\<open>[a-zA-Z0-9_.-]\<close>\<close>

definition name_char :: "char \<Rightarrow> bool" where
  "name_char c = (is_alnum c \<or> c \<in> set ''_.-'')"

text \<open>\<open>/^prefix[a-zA-Z0-9_.-]+$/i\<close>\<close>

definition named_after :: "string \<Rightarrow> string \<Rightarrow> bool" where
  "named_after prefix s = (starts_with (js_lower s) prefix \<and> length prefix < length s \<and> list_all name_char (drop (length prefix) s))"

definition isAuthorizedUnfreezeActor :: "js \<Rightarrow> bool" where
  "isAuthorizedUnfreezeActor actor =
     (case actor of JStr s \<Rightarrow> let t = js_trim s in
        t \<noteq> [] \<and> (t \<in> set AUTHORIZED_UNFREEZE_ACTORS \<or> named_after ''steer-lead@'' t \<or> named_after ''steer-po@'' t
          \<or> named_after ''human:'' t)
      | _ \<Rightarrow> False)"

text \<open>\<open>/^(dev|pm|rev)-[a-zA-Z0-9_.-]+@/i\<close>: the class has no \<open>@\<close>.\<close>

definition rig_member :: "string \<Rightarrow> string \<Rightarrow> bool" where
  "rig_member prefix s = (starts_with s prefix \<and>
     (let rest = drop (length prefix) s; name = takeWhile name_char rest in
      name \<noteq> [] \<and> starts_with (drop (length name) rest) ''@''))"

definition isInRigSeat :: "js \<Rightarrow> bool" where
  "isInRigSeat actor =
     (case actor of JStr s \<Rightarrow> let t = js_lower (js_trim s) in
        list_ex (starts_with t) [''dev.'', ''pm.'', ''rev.''] \<or> starts_with t ''orch.arch''
        \<or> list_ex (\<lambda>p. rig_member p t) [''dev-'', ''pm-'', ''rev-''] \<or> starts_with t ''orch-arch@''
      | _ \<Rightarrow> False)"

definition is_human_actor :: "js \<Rightarrow> bool" where
  "is_human_actor actor = (case actor of JStr s \<Rightarrow> named_after ''human:'' (js_trim s) | _ \<Rightarrow> False)"

definition actor_errors :: "js \<Rightarrow> string list" where
  "actor_errors actor =
     (if \<not> is_text actor then [''actor is required'']
      else if isInRigSeat actor
      then [''in-rig execution seat '' @ [CHR 0x22] @ str_of actor @ [CHR 0x22]
              @ '' cannot author an unfreeze resolution; steering plane only'']
      else if \<not> isAuthorizedUnfreezeActor actor
      then [''actor '' @ [CHR 0x22] @ str_of actor @ [CHR 0x22]
              @ '' is not an authorized steering identity (steer.lead, steer-lead@<rig>, or human:<login>)'']
      else [])"

definition validateUnfreezeResolution :: "host \<Rightarrow> js \<Rightarrow> string list" where
  "validateUnfreezeResolution h r =
     validateSealed h r ''unfreeze-resolution''
     @ (if \<not> one_of UNFREEZE_RESOLUTIONS (fld r ''resolution'')
        then [''resolution must be re-scope, slice-split, person-waiver, or abandonment''] else [])
     @ actor_errors (fld r ''actor'')
     @ (if one_of [''person-waiver'', ''abandonment''] (fld r ''resolution'') \<and> \<not> is_text (fld r ''humanApproval'')
          \<and> \<not> is_text (fld r ''approvalRef'') \<and> \<not> is_human_actor (fld r ''actor'')
        then [str_of (fld r ''resolution'') @ '' requires an explicit human authorization reference (humanApproval)''] else [])
     @ (if \<not> is_text (fld r ''rationale'') then [''rationale is required''] else [])
     @ (if (case js_int (fld r ''fencingToken'') of None \<Rightarrow> True | Some n \<Rightarrow> n < 1)
        then [''fencingToken must be the next positive epoch token''] else [])"

definition createUnfreezeResolution :: "host \<Rightarrow> js \<Rightarrow> js res" where
  "createUnfreezeResolution h a0 = bnd (destructured a0) (\<lambda>a.
     let given = filter (\<lambda>(_, v). v \<noteq> JUndef) [(''humanApproval'', fld a ''humanApproval''), (''approvalRef'', fld a ''approvalRef'')] in
     bnd (seal h ''unfreeze-resolution'' ([(''resolution'', fld a ''resolution''), (''actor'', fld a ''actor''),
         (''rationale'', fld a ''rationale''), (''fencingToken'', fld a ''fencingToken'')] @ given)) (\<lambda>r.
     if validateUnfreezeResolution h r \<noteq> [] then fail (js_join ''; '' (validateUnfreezeResolution h r)) else Inr r))"

definition unfreezeLedger :: "host \<Rightarrow> js \<Rightarrow> js \<Rightarrow> js res" where
  "unfreezeLedger h ledger r =
     (let errors = validateUnfreezeResolution h r; epoch = succ_num (int_field ledger ''fencingToken'') in
      if \<not> is_frozen ledger then fail ''ledger is not frozen''
      else if errors \<noteq> [] then fail (''signed unfreeze resolution is required; '' @ js_join ''; '' errors)
      else if \<not> js_eq (fld r ''fencingToken'') (JInt epoch)
      then fail ''signed resolution fencingToken must be the next epoch token before the fence is cleared''
      else bnd (structured_clone ledger) (\<lambda>c.
        Inr (JObj (obj_spread (own_props c) [(''frozen'', JBool False), (''fencingToken'', JInt epoch),
          (''unfreezeResolutionDigest'', fld r ''digest'')]))))"

section \<open>Advancing to the next phase\<close>

definition ACCEPT_AND_REGISTER_SURFACES :: "string list" where
  "ACCEPT_AND_REGISTER_SURFACES = [''auth'', ''crypto'', ''migration'', ''billing'']"

text \<open>\<open>GITHUB_FOLLOW_UP_ISSUE.test(s)\<close>: no part of the expression matches a slash but the slashes written.\<close>

definition follow_up_issue :: "string \<Rightarrow> bool" where
  "follow_up_issue s = (case split_on (CHR ''/'') s of
      [p0, p1, p2, p3, p4, p5, p6] \<Rightarrow>
        p0 = ''https:'' \<and> p1 = [] \<and> p2 = ''github.com'' \<and> p3 \<noteq> [] \<and> list_all name_char p3
        \<and> p4 \<noteq> [] \<and> list_all name_char p4 \<and> p5 = ''issues'' \<and> p6 \<noteq> [] \<and> list_all is_digit p6
    | _ \<Rightarrow> False)"

definition initiallyBlocker :: "js \<Rightarrow> bool" where
  "initiallyBlocker f = one_of [''blocker'', ''[B] Blocker''] (coal (fld f ''initialSeverity'') (fld f ''severity''))"

definition registered_condition :: "host \<Rightarrow> js \<Rightarrow> bool" where
  "registered_condition h c =
     follow_up_issue (js_string h (coal (if is_string c then c else fld c ''issueUrl'') (JStr [])))"

definition acceptAndRegisterErrors :: "host \<Rightarrow> js \<Rightarrow> js \<Rightarrow> js \<Rightarrow> string list" where
  "acceptAndRegisterErrors h d ledger changeSurface =
     (let found = fld ledger ''findingsLedger''; conditions = elems (fld d ''conditions'') in
      (if is_frozen ledger then [''accept_and_register is rejected while the circuit breaker is tripped''] else [])
      @ (if \<not> truthy found \<or> \<not> typeof_object found
         then [''accept_and_register requires the findings ledger to prove no initial blocker'']
         else if list_ex initiallyBlocker (map snd (own_props found))
         then [''accept_and_register is rejected because a finding was initially logged as [B] Blocker''] else [])
      @ (if list_ex (one_of ACCEPT_AND_REGISTER_SURFACES) (listed (js_default changeSurface (JArr [])))
         then [''accept_and_register is rejected on a sensitive surface''] else [])
      @ (if conditions = [] \<or> list_ex (\<lambda>c. \<not> registered_condition h c) conditions
         then [''accept_and_register requires an idempotent GitHub follow-up issue URL on every condition''] else []))"

text \<open>The work enters the developer role: said so by the caller, or derived from the sources.\<close>

definition entering_developer :: "js \<Rightarrow> js \<Rightarrow> bool" where
  "entering_developer options sources =
     (let dev = JStr ''agentflow:developer''; dv = fld sources ''delivery''; ct = fld sources ''contract''; ho = fld sources ''handoff'';
          said = fld options ''isEnteringDeveloper'' in
      if said \<noteq> JUndef then truthy said
      else \<not> (fld dv ''producerRole'' = dev \<or> fld dv ''role'' = dev)
        \<and> (fld ct ''deliveryRole'' = dev \<or> fld ho ''toRole'' = dev \<or> js_eq (fld ct ''phase'') (JNat 3) \<or> js_eq (fld ho ''phase'') (JNat 3)))"

definition tagged_control :: "string \<Rightarrow> js list \<Rightarrow> js" where
  "tagged_control tag controls =
     (case find (\<lambda>c. is_string c \<and> starts_with (str_of c) tag) controls of
        Some c \<Rightarrow> JStr (drop (length tag) (str_of c)) | None \<Rightarrow> JUndef)"

definition contract_oracle_digest :: "js \<Rightarrow> js res" where
  "contract_oracle_digest sources =
     (let ct = fld sources ''contract''; own = coal (fld ct ''oracleDigest'') (fld (fld sources ''handoff'') ''oracleDigest'') in
      if \<not> nullish own then Inr own
      else bnd (entries ''controls'' (coal (fld ct ''controls'') (JArr []))) (\<lambda>controls.
        Inr (coal (tagged_control ''oracle-digest:'' controls) (coal (tagged_control ''oracle-pin:'' controls) JNull))))"

definition token_errors :: "js \<Rightarrow> js \<Rightarrow> string list" where
  "token_errors ledger authored =
     (case (js_int (fld ledger ''fencingToken''), js_int (fld authored ''fencingToken'')) of
        (Some current, Some seen) \<Rightarrow> if truthy ledger \<and> truthy authored \<and> seen < current
          then [''commit or transition authored after the fencing token is rejected''] else []
      | _ \<Rightarrow> [])"

definition given_pin :: "js \<Rightarrow> js" where
  "given_pin options = coal (fld options ''pin'') (coal (fld options ''oraclePin'') JNull)"

text \<open>The pin in force: the one given, or one made of the bound digest; that may throw.\<close>

definition resolved_pin :: "host \<Rightarrow> js \<Rightarrow> js \<Rightarrow> js res" where
  "resolved_pin h options bound =
     (let digest = coal bound (coal (fld options ''oracleDigest'') JNull) in
      if \<not> truthy (given_pin options) \<and> truthy digest then pinOracleDigest h digest (JNat 3) else Inr (given_pin options))"

definition pin_of :: "js \<Rightarrow> js res \<Rightarrow> js" where
  "pin_of options pinned = (case pinned of Inr p \<Rightarrow> p | Inl _ \<Rightarrow> given_pin options)"

definition binding_errors :: "host \<Rightarrow> js \<Rightarrow> bool \<Rightarrow> js \<Rightarrow> string list" where
  "binding_errors h options entering bound =
     (let seat = fld options ''seat''; digest = fld options ''oracleDigest''; pin = given_pin options in
      (if entering \<and> truthy seat \<and> \<not> one_of BUILDER_SEATS seat
       then [''entering developer role requires a builder seat (got '' @ js_string h seat @ '')''] else [])
      @ (if truthy digest \<and> truthy bound \<and> \<not> js_eq digest bound
         then [''caller oracleDigest contradicts contract oracle digest''] else [])
      @ (if truthy pin \<and> truthy bound \<and> \<not> js_eq (fld pin ''oracleDigest'') bound
         then [''caller-supplied oracle pin digest contradicts contract oracle digest''] else [])
      @ (case resolved_pin h options bound of Inl e \<Rightarrow> [err_message e] | Inr _ \<Rightarrow> []))"

definition builder_pin_errors :: "host \<Rightarrow> (js \<Rightarrow> js res) \<Rightarrow> js \<Rightarrow> bool \<Rightarrow> js \<Rightarrow> string list res" where
  "builder_pin_errors h computeDigest options entering pin =
     (let target = coal (fld options ''seat'') (if entering then JStr ''dev.build'' else JNull); given = fld options ''expectedDigest'' in
      if entering \<and> truthy target \<and> one_of BUILDER_SEATS target
      then bnd (if given \<noteq> JUndef then Inr given else computeDigest (fld options ''packageRoot''))
        (\<lambda>expected. Inr (verifyOraclePin h pin target expected))
      else Inr [])"

definition oracle_errors :: "host \<Rightarrow> (js \<Rightarrow> js res) \<Rightarrow> js \<Rightarrow> js \<Rightarrow> string list res" where
  "oracle_errors h computeDigest options sources =
     (let entering = entering_developer options sources in
      bnd (contract_oracle_digest sources) (\<lambda>bound.
      bnd (builder_pin_errors h computeDigest options entering (pin_of options (resolved_pin h options bound))) (\<lambda>found.
      Inr (binding_errors h options entering bound @ found))))"

definition ADVANCE_NAMES :: "string list" where
  "ADVANCE_NAMES = [''decision'', ''openReworkRequests'', ''ledger'', ''commit'', ''transition'', ''changeSurface'', ''options'']"

text \<open>\<open>...sources\<close>: the arguments without the named ones.\<close>

definition advance_sources :: "js \<Rightarrow> js" where
  "advance_sources a = JObj (filter (\<lambda>(k, _). k \<notin> set ADVANCE_NAMES) (own_props a))"

definition registered_errors :: "host \<Rightarrow> js \<Rightarrow> js \<Rightarrow> js \<Rightarrow> js \<Rightarrow> string list res" where
  "registered_errors h d ledger changeSurface options =
     (if fld d ''state'' \<noteq> JStr ''accepted-with-conditions'' then Inr []
      else bnd (dot changeSurface ''length'') (\<lambda>n.
        bnd (if truthy n then Inr changeSurface else dot options ''changeSurface'') (\<lambda>surface.
        Inr (acceptAndRegisterErrors h d ledger surface))))"

definition verifyRoleAdvance :: "host \<Rightarrow> (js \<Rightarrow> js res) \<Rightarrow> js \<Rightarrow> (string list \<times> js) res" where
  "verifyRoleAdvance h computeDigest a0 = bnd (destructured a0) (\<lambda>a.
     let d = fld a ''decision''; ledger = fld a ''ledger''; open = fld a ''openReworkRequests''; sources = advance_sources a;
         options = js_default (fld a ''options'') (JObj []);
         authored = coal (fld a ''commit'') (coal (fld a ''transition'') JNull) in
     bnd (validateAcceptanceDecision h d) (\<lambda>invalid.
     bnd (verifyRoleDelivery h sources) (\<lambda>report.
     bnd (registered_errors h d ledger (js_default (fld a ''changeSurface'') (JArr [])) options) (\<lambda>registered.
     bnd (dot options ''isEnteringDeveloper'') (\<lambda>_.
     bnd (oracle_errors h computeDigest options sources) (\<lambda>oracle.
     Inr (invalid
       @ (if \<not> js_eq (fld (fld d ''deterministicReport'') ''digest'') (fld report ''digest'')
          then [''acceptance is stale for the current source evidence''] else [])
       @ (if \<not> accepting d then [''phase advancement requires unconditional owner acceptance''] else [])
       @ registered
       @ (if \<not> is_array open \<or> elems open \<noteq> [] then [''phase advancement is blocked by unresolved rework''] else [])
       @ (if is_frozen ledger then [''phase advancement is rejected on a frozen ledger''] else [])
       @ token_errors ledger authored
       @ oracle, report)))))))"

section \<open>What a passing report says\<close>

text \<open>The meaning of a report that does not fail, over the records it was computed from.\<close>

definition delivery_holds :: "host \<Rightarrow> js \<Rightarrow> bool" where
  "delivery_holds h a =
     (let ho = fld a ''handoff''; ct = fld a ''contract''; dv = fld a ''delivery'' in
      hasCurrentDigest h ho \<and> fld ho ''state'' = JStr ''issued''
      \<and> js_eq (fld (fld ho ''acceptanceContract'') ''digest'') (fld ct ''digest'')
      \<and> js_eq (fld ho ''fromRole'') (fld ct ''ownerRole'') \<and> js_eq (fld ho ''toRole'') (fld ct ''deliveryRole'')
      \<and> validateAcceptanceContract h ct = Inr [] \<and> validateDeliveryReceipt h dv (fld a ''config'') = Inr []
      \<and> fld dv ''status'' = JStr ''submitted''
      \<and> js_eq (fld dv ''handoffDigest'') (fld ho ''digest'') \<and> js_eq (fld dv ''contractDigest'') (fld ct ''digest'')
      \<and> js_eq (fld dv ''producerRole'') (fld ct ''deliveryRole'')
      \<and> js_eq (fld dv ''candidateDigest'') (fld ct ''candidateDigest'')
      \<and> list_all (\<lambda>c. needs_check c \<longrightarrow>
          list_ex (\<lambda>r. fld r ''criterionId'' = fld c ''id'' \<and> result_passes h r) (elems (fld dv ''criteriaResults'')))
          (elems (fld ct ''criteria''))
      \<and> council_outcome h a ct dv = Inr [])"

lemma report_check_passes [simp]: "check_passes (report_check i b t) = b"
  by (simp add: check_passes_def report_check_def fld_own)

lemma elems_coal [simp]: "elems (coal v (JArr [])) = elems v"
  by (cases v) (simp_all add: coal_def)

lemma entries_elems: "entries n v = Inr xs \<Longrightarrow> xs = elems v"
  by (cases v) (simp_all add: entries_def)

text \<open>What the computation of a report went through.\<close>

lemma verifyRoleDelivery_Inr:
  assumes "verifyRoleDelivery h (JObj fs) = Inr rep"
  obtains ct_errors dv_errors results found council where
    "validateAcceptanceContract h (fld (JObj fs) ''contract'') = Inr ct_errors"
    "validateDeliveryReceipt h (fld (JObj fs) ''delivery'') (fld (JObj fs) ''config'') = Inr dv_errors"
    "js_map_of ''criterionId'' (elems (fld (fld (JObj fs) ''delivery'') ''criteriaResults'')) = Inr results"
    "map_res (criterion_check h results) (elems (fld (fld (JObj fs) ''contract'') ''criteria'')) = Inr found"
    "council_outcome h (JObj fs) (fld (JObj fs) ''contract'') (fld (JObj fs) ''delivery'') = Inr council"
    "seal h ''delivery-verification'' (report_fields (fld (JObj fs) ''handoff'') (fld (JObj fs) ''contract'') (fld (JObj fs) ''delivery'')
       (js_default (fld (JObj fs) ''councilSynthesis'') JNull)
       (binding_checks h (fld (JObj fs) ''handoff'') (fld (JObj fs) ''contract'') (fld (JObj fs) ''delivery'') (ct_errors = []) (dv_errors = [])
         @ concat found @ [report_check ''council'' (council = []) (if js_join ''; '' council = [] then
             ''required council evidence is complete and current'' else js_join ''; '' council)])
       (elems (fld (fld (JObj fs) ''contract'') ''criteria''))) = Inr rep"
proof -
  have d: "destructured (JObj fs) = Inr (JObj fs)" by (simp add: destructured_def)
  from assms obtain ct_errors dv_errors items results criteria found council where o:
    "validateAcceptanceContract h (fld (JObj fs) ''contract'') = Inr ct_errors"
    "validateDeliveryReceipt h (fld (JObj fs) ''delivery'') (fld (JObj fs) ''config'') = Inr dv_errors"
    "entries ''criteriaResults'' (coal (fld (fld (JObj fs) ''delivery'') ''criteriaResults'') (JArr [])) = Inr items"
    "js_map_of ''criterionId'' items = Inr results"
    "entries ''criteria'' (coal (fld (fld (JObj fs) ''contract'') ''criteria'') (JArr [])) = Inr criteria"
    "map_res (criterion_check h results) criteria = Inr found"
    "council_outcome h (JObj fs) (fld (JObj fs) ''contract'') (fld (JObj fs) ''delivery'') = Inr council"
    "seal h ''delivery-verification'' (report_fields (fld (JObj fs) ''handoff'') (fld (JObj fs) ''contract'') (fld (JObj fs) ''delivery'')
       (js_default (fld (JObj fs) ''councilSynthesis'') JNull)
       (binding_checks h (fld (JObj fs) ''handoff'') (fld (JObj fs) ''contract'') (fld (JObj fs) ''delivery'') (ct_errors = []) (dv_errors = [])
         @ concat found @ [report_check ''council'' (council = []) (if js_join ''; '' council = [] then
             ''required council evidence is complete and current'' else js_join ''; '' council)]) criteria) = Inr rep"
    unfolding verifyRoleDelivery_def Let_def d bnd_simps bnd_Inr by (elim exE conjE) (rule that)
  show thesis by (rule that [of ct_errors dv_errors results found council]) (use o entries_elems [OF o(3)] entries_elems [OF o(5)] in simp_all)
qed

lemma copied_checks: "copied (report_check i b t) = report_check i b t"
  by (simp add: report_check_def)

lemma report_status:
  assumes "seal h ty (report_fields ho ct dv sy checks criteria) = Inr rep"
  shows "fld rep ''status'' = JStr (if list_all check_passes checks then (if semantic_criteria criteria \<noteq> [] then ''semantic-review-required''
      else ''pass'') else ''fail'')"
    and "fld rep ''humanApprovalRequired'' = JBool (fld ct ''collaborationClass'' = JStr ''human-gated'')"
    and "fld rep ''semanticCriteria'' = JArr (map (\<lambda>c. copied (fld c ''id'')) (filter (\<lambda>c. \<not> is_advisory c) (semantic_criteria criteria)))"
  using fld_sealed [OF assms] by (simp_all add: report_fields_def Let_def)

lemma delivery_report_sound:
  assumes "verifyRoleDelivery h (JObj fs) = Inr rep" and "fld rep ''status'' \<noteq> JStr ''fail''"
  shows "delivery_holds h (JObj fs)"
proof -
  let ?ho = "fld (JObj fs) ''handoff''" and ?ct = "fld (JObj fs) ''contract''" and ?dv = "fld (JObj fs) ''delivery''"
  obtain ct_errors dv_errors results found council where v:
    "validateAcceptanceContract h ?ct = Inr ct_errors" "validateDeliveryReceipt h ?dv (fld (JObj fs) ''config'') = Inr dv_errors"
    "js_map_of ''criterionId'' (elems (fld ?dv ''criteriaResults'')) = Inr results"
    "map_res (criterion_check h results) (elems (fld ?ct ''criteria'')) = Inr found"
    "council_outcome h (JObj fs) ?ct ?dv = Inr council"
    "seal h ''delivery-verification'' (report_fields ?ho ?ct ?dv (js_default (fld (JObj fs) ''councilSynthesis'') JNull)
       (binding_checks h ?ho ?ct ?dv (ct_errors = []) (dv_errors = [])
         @ concat found @ [report_check ''council'' (council = []) (if js_join ''; '' council = [] then
             ''required council evidence is complete and current'' else js_join ''; '' council)]) (elems (fld ?ct ''criteria''))) = Inr rep"
    using verifyRoleDelivery_Inr [OF assms(1)] .
  have all: "list_all check_passes (binding_checks h ?ho ?ct ?dv (ct_errors = []) (dv_errors = []))" "list_all check_passes (concat found)"
    "council = []"
    using assms(2) report_status(1) [OF v(6)] by (simp_all split: if_splits)
  have "list_ex (\<lambda>r. fld r ''criterionId'' = fld c ''id'' \<and> result_passes h r) (elems (fld ?dv ''criteriaResults''))"
    if c: "c \<in> set (elems (fld ?ct ''criteria''))" "needs_check c" for c
  proof -
    let ?r = "js_map_get results (fld c ''id'')"
    from map_res_elem [OF v(4) c(1)] all(2) c(2) have pass: "result_passes h ?r"
      by (auto simp: criterion_check_def list_all_iff)
    then have "?r \<noteq> JUndef" by (auto simp: result_passes_def)
    from js_map_of_in [OF v(3) js_map_get_found [OF this]]
    have r: "?r \<in> set (elems (fld ?dv ''criteriaResults''))" "fld ?r ''criterionId'' = fld c ''id''" by simp_all
    show ?thesis unfolding list_ex_iff by (rule bexI [OF _ r(1)]) (simp only: r(2) pass)
  qed
  then show ?thesis
    using all v(1,2,5) by (simp add: delivery_holds_def Let_def binding_checks_def list_all_iff)
qed

section \<open>Equal digests, equal fields\<close>

declare canon_literal [simp]

lemma fld_type_JObj: "fld v ''type'' = JStr s \<Longrightarrow> \<exists>fs. v = JObj fs"
  by (cases v) (auto simp: fld_def obj_get_def split: if_splits)

section \<open>A decision that counts\<close>

lemma validateAcceptanceDecision_Nil:
  assumes "validateAcceptanceDecision h d = Inr []" and "accepting d"
  shows "hasCurrentDigest h (fld d ''deterministicReport'')"
    and "fld (fld d ''deterministicReport'') ''type'' = JStr ''delivery-verification''"
    and "one_of [''pass'', ''semantic-review-required''] (fld (fld d ''deterministicReport'') ''status'')"
    and "semantic_errors h d (fld d ''deterministicReport'') = Inr []"
    and "truthy (fld (fld d ''deterministicReport'') ''humanApprovalRequired'') \<Longrightarrow> human_approved h d = Inr True"
proof -
  from assms(1) obtain found where f: "acceptance_errors h d = Inr found" "found = []"
    "hasCurrentDigest h (fld d ''deterministicReport'')"
    "fld (fld d ''deterministicReport'') ''type'' = JStr ''delivery-verification''"
    by (auto simp: validateAcceptanceDecision_def Let_def split: if_splits)
  then obtain passes approved where p: "report_accepts (fld d ''deterministicReport'') = Inr passes" "passes"
    "semantic_errors h d (fld d ''deterministicReport'') = Inr []" "approved"
    "(if truthy (fld (fld d ''deterministicReport'') ''humanApprovalRequired'') then human_approved h d else Inr True) = Inr approved"
    using assms(2) by (auto simp: acceptance_errors_def Let_def split: if_splits)
  show "hasCurrentDigest h (fld d ''deterministicReport'')"
    "fld (fld d ''deterministicReport'') ''type'' = JStr ''delivery-verification''"
    "semantic_errors h d (fld d ''deterministicReport'') = Inr []" using f p by simp_all
  show "one_of [''pass'', ''semantic-review-required''] (fld (fld d ''deterministicReport'') ''status'')"
    using p(1,2) by (auto simp: report_accepts_def split: if_splits)
  show "human_approved h d = Inr True" if "truthy (fld (fld d ''deterministicReport'') ''humanApprovalRequired'')"
    using p(4,5) that by simp
qed

lemma semantic_errors_Nil:
  assumes "semantic_errors h d rep = Inr []" and "JStr i \<in> set (elems (fld rep ''semanticCriteria''))"
  shows "\<exists>f\<in>set (elems (fld d ''semanticFindings'')). fld f ''criterionId'' = JStr i \<and> fld f ''status'' = JStr ''pass''
    \<and> truthy (fld f ''reason'')"
proof -
  let ?fs = "coal (fld d ''semanticFindings'') (JArr [])"
  from assms(1) obtain cids found where c: "js_iter (coal (fld rep ''semanticCriteria'') (JArr [])) = Inr cids"
    "map_res (criterion_found ?fs) cids = Inr found" "filter (\<lambda>(_, ok). \<not> ok) (zip cids found) = []"
    by (auto simp: semantic_errors_def Let_def)
  have cids: "cids = elems (fld rep ''semanticCriteria'')"
    using c(1) assms(2) by (cases "fld rep ''semanticCriteria''") (auto simp: coal_def js_iter_def)
  have two: "list_all2 (\<lambda>x y. criterion_found ?fs x = Inr y) cids found" using c(2) by (simp add: map_res_Inr_iff)
  obtain n where n: "n < length cids" "cids ! n = JStr i" using assms(2) cids by (metis in_set_conv_nth)
  with two have nf: "n < length found" "criterion_found ?fs (JStr i) = Inr (found ! n)"
    by (auto simp: list_all2_conv_all_nth)
  with n have "(JStr i, found ! n) \<in> set (zip cids found)" by (metis in_set_zip fst_conv snd_conv)
  with c(3) have "found ! n" by (auto simp: filter_empty_conv)
  with nf obtain fs f where f: "entries ''findings'' ?fs = Inr fs" "filter (\<lambda>f. js_eq (fld f ''criterionId'') (JStr i)) fs = [f]"
    "fld f ''status'' = JStr ''pass''" "truthy (fld f ''reason'')"
    by (auto simp: criterion_found_def split: if_splits list.splits)
  from f(2) have "f \<in> set fs" "fld f ''criterionId'' = JStr i"
    by (metis filter_eq_ConsD js_eq_JStr(1) in_set_conv_decomp)+
  with f entries_elems [OF f(1)] show ?thesis by auto
qed

section \<open>Advancing\<close>

lemma advance_sources_fld: "k \<notin> set ADVANCE_NAMES \<Longrightarrow> fld (advance_sources (JObj fs)) k = fld (JObj fs) k"
proof -
  assume k: "k \<notin> set ADVANCE_NAMES"
  have "map_of (filter (\<lambda>(k, _). k \<notin> set ADVANCE_NAMES) fs) k = map_of fs k"
    using k by (induction fs) auto
  then show ?thesis by (simp add: advance_sources_def own_props_def fld_own)
qed

lemma verifyRoleAdvance_Nil:
  assumes "verifyRoleAdvance h cd (JObj fs) = Inr ([], rep)"
  shows "validateAcceptanceDecision h (fld (JObj fs) ''decision'') = Inr []"
    and "verifyRoleDelivery h (advance_sources (JObj fs)) = Inr rep"
    and "js_eq (fld (fld (fld (JObj fs) ''decision'') ''deterministicReport'') ''digest'') (fld rep ''digest'')"
    and "accepting (fld (JObj fs) ''decision'')"
    and "fld (JObj fs) ''openReworkRequests'' = JArr []" and "\<not> is_frozen (fld (JObj fs) ''ledger'')"
    and "token_errors (fld (JObj fs) ''ledger'') (coal (fld (JObj fs) ''commit'') (coal (fld (JObj fs) ''transition'') JNull)) = []"
    and "registered_errors h (fld (JObj fs) ''decision'') (fld (JObj fs) ''ledger'')
      (js_default (fld (JObj fs) ''changeSurface'') (JArr [])) (js_default (fld (JObj fs) ''options'') (JObj [])) = Inr []"
    and "oracle_errors h cd (js_default (fld (JObj fs) ''options'') (JObj [])) (advance_sources (JObj fs)) = Inr []"
proof -
  have d: "destructured (JObj fs) = Inr (JObj fs)" by (simp add: destructured_def)
  have arr: "is_array v \<Longrightarrow> elems v = [] \<Longrightarrow> v = JArr []" for v by (cases v) simp_all
  show "validateAcceptanceDecision h (fld (JObj fs) ''decision'') = Inr []"
    "verifyRoleDelivery h (advance_sources (JObj fs)) = Inr rep"
    "js_eq (fld (fld (fld (JObj fs) ''decision'') ''deterministicReport'') ''digest'') (fld rep ''digest'')"
    "accepting (fld (JObj fs) ''decision'')"
    "fld (JObj fs) ''openReworkRequests'' = JArr []" "\<not> is_frozen (fld (JObj fs) ''ledger'')"
    "token_errors (fld (JObj fs) ''ledger'') (coal (fld (JObj fs) ''commit'') (coal (fld (JObj fs) ''transition'') JNull)) = []"
    "registered_errors h (fld (JObj fs) ''decision'') (fld (JObj fs) ''ledger'')
      (js_default (fld (JObj fs) ''changeSurface'') (JArr [])) (js_default (fld (JObj fs) ''options'') (JObj [])) = Inr []"
    "oracle_errors h cd (js_default (fld (JObj fs) ''options'') (JObj [])) (advance_sources (JObj fs)) = Inr []"
    using assms unfolding verifyRoleAdvance_def Let_def d bnd_simps bnd_Inr
    by (auto simp: arr split: if_splits)
qed

text \<open>The recorded report and the one computed now are the same, field by field.\<close>

lemma recorded_report:
  assumes "verifyRoleDelivery h (JObj as) = Inr rep" and "hasCurrentDigest h drep" and "js_eq (fld drep ''digest'') (fld rep ''digest'')"
    and "fld drep ''type'' = JStr t" and "plain (JObj (digest_payload drep))" and "plain (JObj (digest_payload rep))"
    and "sha256 h (stable_text h (JObj (digest_payload drep))) = sha256 h (stable_text h (JObj (digest_payload rep)))
      \<longrightarrow> stable_text h (JObj (digest_payload drep)) = stable_text h (JObj (digest_payload rep))"
    and "k \<noteq> ''digest''"
  shows "canon (fld drep k) = canon (fld rep k)"
proof -
  obtain ho ct dv sy checks criteria where s: "seal h ''delivery-verification'' (report_fields ho ct dv sy checks criteria) = Inr rep"
    using verifyRoleDelivery_Inr [OF assms(1)] by metis
  then obtain gs where gs: "rep = JObj gs" using seal_Inr by metis
  obtain ds where ds: "drep = JObj ds" using fld_type_JObj [OF assms(4)] by blast
  have "fld rep ''digest'' = JStr (recordDigest h rep)"
    by (rule sealed_identity(3) [OF s]) (simp_all add: report_fields_def Let_def)
  with assms(2,3) hasCurrentDigest_fld have "recordDigest h drep = recordDigest h rep" by (metis js_eq_JStr(1) js.inject(3))
  with assms(5-7) have "canon (JObj (digest_payload drep)) = canon (JObj (digest_payload rep))"
    by (metis recordDigest_def stable_text_canon)
  then show ?thesis using canon_payload_fld assms(5,6,8) unfolding gs ds by blast
qed

lemma registered_errors_Nil:
  assumes "registered_errors h d ledger surface options = Inr []" and "fld d ''state'' = JStr ''accepted-with-conditions''"
  shows "elems (fld d ''conditions'') \<noteq> [] \<and> (\<forall>c\<in>set (elems (fld d ''conditions'')). registered_condition h c)
    \<and> (\<forall>f\<in>set (map snd (own_props (fld ledger ''findingsLedger''))). \<not> initiallyBlocker f)"
  using assms by (auto simp: registered_errors_def acceptAndRegisterErrors_def Let_def list_ex_iff split: if_splits)

lemma accepting_cases: "accepting d \<Longrightarrow> fld d ''state'' = JStr ''accepted'' \<or> fld d ''state'' = JStr ''accepted-with-conditions''"
  by (auto simp: accepting_def one_of_iff)

text \<open>
  C11. A phase advances only on evidence that still holds. When the check finds no error, the recorded
  decision is valid and was computed from the same evidence as now; the delivery holds against its
  contract, council included; no rework is open and the ledger is not frozen; every required
  blocking semantic criterion has a finding that passes with a reason; human-gated work has a human
  approval bound to the delivery; and an acceptance with conditions has a follow-up issue on each
  of them and no finding that started as a blocker. (The two reports are JSON values and their
  texts are not a collision of the hash function.)
\<close>

theorem role_advance_sound:
  assumes "verifyRoleAdvance h cd (JObj fs) = Inr ([], rep)"
    and "plain (JObj (digest_payload (fld (fld (JObj fs) ''decision'') ''deterministicReport'')))" and "plain (JObj (digest_payload rep))"
    and no_collision: "sha256 h (stable_text h (JObj (digest_payload (fld (fld (JObj fs) ''decision'') ''deterministicReport''))))
        = sha256 h (stable_text h (JObj (digest_payload rep)))
      \<longrightarrow> stable_text h (JObj (digest_payload (fld (fld (JObj fs) ''decision'') ''deterministicReport'')))
        = stable_text h (JObj (digest_payload rep))"
  shows "validateAcceptanceDecision h (fld (JObj fs) ''decision'') = Inr []
    \<and> delivery_holds h (advance_sources (JObj fs))
    \<and> fld (JObj fs) ''openReworkRequests'' = JArr [] \<and> \<not> is_frozen (fld (JObj fs) ''ledger'')
    \<and> (\<forall>c\<in>set (semantic_criteria (elems (fld (fld (JObj fs) ''contract'') ''criteria''))). \<forall>i.
        \<not> is_advisory c \<and> fld c ''id'' = JStr i \<longrightarrow>
        (\<exists>f\<in>set (elems (fld (fld (JObj fs) ''decision'') ''semanticFindings'')).
          fld f ''criterionId'' = JStr i \<and> fld f ''status'' = JStr ''pass'' \<and> truthy (fld f ''reason'')))
    \<and> (fld (fld (JObj fs) ''contract'') ''collaborationClass'' = JStr ''human-gated''
        \<longrightarrow> human_approved h (fld (JObj fs) ''decision'') = Inr True)
    \<and> (fld (fld (JObj fs) ''decision'') ''state'' = JStr ''accepted-with-conditions'' \<longrightarrow>
        elems (fld (fld (JObj fs) ''decision'') ''conditions'') \<noteq> []
        \<and> (\<forall>c\<in>set (elems (fld (fld (JObj fs) ''decision'') ''conditions'')). registered_condition h c)
        \<and> (\<forall>f\<in>set (map snd (own_props (fld (fld (JObj fs) ''ledger'') ''findingsLedger''))). \<not> initiallyBlocker f))"
proof -
  let ?d = "fld (JObj fs) ''decision''" and ?ct = "fld (JObj fs) ''contract''"
  let ?dr = "fld ?d ''deterministicReport''"
  note v = verifyRoleAdvance_Nil [OF assms(1)]
  note dv = validateAcceptanceDecision_Nil [OF v(1,4)]
  obtain as where as: "advance_sources (JObj fs) = JObj as" by (simp add: advance_sources_def)
  have ct: "fld (JObj as) ''contract'' = ?ct"
    unfolding as [symmetric] by (rule advance_sources_fld) (simp add: ADVANCE_NAMES_def)
  obtain ho dl sy checks where s: "seal h ''delivery-verification'' (report_fields ho ?ct dl sy checks (elems (fld ?ct ''criteria''))) = Inr rep"
    using verifyRoleDelivery_Inr [OF v(2) [unfolded as]] unfolding ct by metis
  note r = report_status [OF s]
  note same = recorded_report [OF v(2) [unfolded as] dv(1) v(3) dv(2) assms(2,3) no_collision]
  have "fld rep ''status'' \<noteq> JStr ''fail''"
  proof -
    from dv(3) obtain t where t: "fld ?dr ''status'' = JStr t" "t \<noteq> ''fail''" by (auto simp: one_of_iff)
    with same [of "''status''"] have "canon (fld rep ''status'') = JStr t" by simp
    with t show ?thesis by simp
  qed
  then have holds: "delivery_holds h (advance_sources (JObj fs))"
    using delivery_report_sound [OF v(2) [unfolded as]] as by simp
  have semantic: "\<exists>f\<in>set (elems (fld ?d ''semanticFindings'')). fld f ''criterionId'' = JStr i \<and> fld f ''status'' = JStr ''pass''
      \<and> truthy (fld f ''reason'')"
    if "c \<in> set (semantic_criteria (elems (fld ?ct ''criteria'')))" "\<not> is_advisory c \<and> fld c ''id'' = JStr i" for c i
  proof -
    let ?ids = "map (\<lambda>c. copied (fld c ''id'')) (filter (\<lambda>c. \<not> is_advisory c) (semantic_criteria (elems (fld ?ct ''criteria''))))"
    have "JStr i \<in> set ?ids" using that by force
    moreover obtain ys where ys: "fld ?dr ''semanticCriteria'' = JArr ys" "map canon ys = map canon ?ids"
      using canon_array [OF same [of "''semanticCriteria''", unfolded r(3)]] by blast
    ultimately have "canon (JStr i) \<in> set (map canon ys)" unfolding ys(2) set_map by blast
    then have "JStr i \<in> set (elems (fld ?dr ''semanticCriteria''))" by (auto simp: ys(1))
    then show ?thesis by (rule semantic_errors_Nil [OF dv(4)])
  qed
  have human: "human_approved h ?d = Inr True" if "fld ?ct ''collaborationClass'' = JStr ''human-gated''"
    using dv(5) same [of "''humanApprovalRequired''"] r(2) that by simp
  show ?thesis
    using v(1,5,6) holds semantic human registered_errors_Nil [OF v(8)] by blast
qed

definition sample_contract :: js where
  "sample_contract = sample_record ''acceptance-contract'' [(''subject'', JStr ''s''), (''ownerRole'', JStr ''pm''), (''deliveryRole'', JStr ''dev''),
     (''candidateDigest'', sample_hex), (''collaborationClass'', JStr ''bilateral''),
     (''criteria'', JArr [JObj [(''id'', JStr ''c''), (''verification'', JStr ''semantic''), (''required'', JBool True), (''description'', JStr ''reads well'')]]),
     (''councilPolicy'', JObj [(''decisionOwner'', JStr ''pm'')])]"

definition sample_delivery :: js where
  "sample_delivery = sample_record ''delivery-receipt'' [(''handoffDigest'', sample_hex), (''contractDigest'', sample_hex),
     (''producerRole'', JStr ''dev''), (''candidateDigest'', sample_hex), (''status'', JStr ''submitted''), (''criteriaResults'', JArr []),
     (''evidenceRefs'', JArr []), (''provenance'', JObj [])]"

definition sample_handoff :: js where
  "sample_handoff = sample_record ''role-handoff'' [(''state'', JStr ''issued''), (''acceptanceContract'', sample_contract), (''subject'', JStr ''s''),
     (''fromRole'', JStr ''pm''), (''toRole'', JStr ''dev'')]"

definition sample_sources :: "(string \<times> js) list" where
  "sample_sources = [(''handoff'', sample_handoff), (''contract'', sample_contract), (''delivery'', sample_delivery)]"

definition sample_report_body :: "(string \<times> js) list" where
  "sample_report_body = report_fields sample_handoff sample_contract sample_delivery JNull
     (binding_checks const_host sample_handoff sample_contract sample_delivery True True
       @ [report_check ''council'' True ''required council evidence is complete and current'']) (elems (fld sample_contract ''criteria''))"

lemma sample_contract_flds:
  "fld sample_contract ''criteria'' = JArr [JObj [(''id'', JStr ''c''), (''verification'', JStr ''semantic''), (''required'', JBool True),
     (''description'', JStr ''reads well'')]]"
  "fld (fld sample_contract ''councilPolicy'') ''required'' = JUndef" "fld sample_delivery ''criteriaResults'' = JArr []"
  by (simp_all add: sample_contract_def sample_delivery_def sample_record_flds fld_own proto_names_def)

lemma filled_JStr [simp]: "filled (JStr s) = (s \<noteq> [])"
  by (simp add: filled_def)

lemma sample_contract_sealed: "validateSealed const_host sample_contract ''acceptance-contract'' = []"
  by (simp add: validateSealed_def sample_contract_def sample_record_flds sample_record_current)

lemma sample_contract_named: "filled (fld sample_contract k)" if "k \<in> {''id'', ''subject'', ''ownerRole'', ''deliveryRole'', ''candidateDigest''}"
  using that by (auto simp: sample_contract_def sample_record_flds fld_own filled_def sample_hex_def)

lemma sample_contract_class: "fld sample_contract ''collaborationClass'' = JStr ''bilateral''" "fld sample_contract ''ownerRole'' = JStr ''pm''"
  "fld (fld sample_contract ''councilPolicy'') ''decisionOwner'' = JStr ''pm''"
  by (simp_all add: sample_contract_def sample_record_flds fld_own)

lemma sample_criteria_ok: "criteria_errors 0 [] (elems (fld sample_contract ''criteria'')) = []"
  by (simp add: sample_contract_flds fld_own js_includes_def one_of_def proto_names_def)

lemma sample_contract_valid: "validateAcceptanceContract const_host sample_contract = Inr []"
proof -
  obtain cs where cs: "fld sample_contract ''criteria'' = JArr cs" "cs \<noteq> []" by (simp add: sample_contract_flds)
  show ?thesis using sample_criteria_ok
    by (simp add: validateAcceptanceContract_def council_policy_errors_def sample_contract_flds(2) entries_def coal_array cs
        sample_contract_sealed missing_fields_def sample_contract_named sample_contract_class one_of_def COLLABORATION_CLASSES_def)
qed

lemma sample_delivery_valid: "validateDeliveryReceipt const_host sample_delivery JUndef = Inr []"
  by (simp add: validateDeliveryReceipt_def sample_contract_flds entries_def coal_def)
    (simp add: sample_delivery_def sample_record_flds sample_record_current validateSealed_def missing_fields_def filled_def fld_own one_of_def
      validateRefs_def sample_hex_def)


lemma sample_verified: "verifyRoleDelivery const_host (JObj sample_sources) = seal const_host ''delivery-verification'' sample_report_body"
proof -
  have f: "fld (JObj sample_sources) ''handoff'' = sample_handoff" "fld (JObj sample_sources) ''contract'' = sample_contract"
    "fld (JObj sample_sources) ''delivery'' = sample_delivery" "fld (JObj sample_sources) ''config'' = JUndef"
    "fld (JObj sample_sources) ''councilSynthesis'' = JUndef"
    by (simp_all add: sample_sources_def fld_own proto_names_def)
  obtain cs where cs: "fld sample_contract ''criteria'' = JArr cs" by (simp add: sample_contract_flds)
  have c: "map_res (criterion_check const_host []) cs = Inr [[]]"
    using cs by (simp add: sample_contract_flds) (auto simp: criterion_check_def needs_check_def fld_own)
  have d: "destructured (JObj sample_sources) = Inr (JObj sample_sources)" by (simp add: destructured_def)
  have e: "entries n (JArr xs) = Inr xs" "js_map_of k [] = Inr []" "js_default JUndef v = v" for n xs k v
    by (simp_all add: entries_def js_map_of_def js_default_def)
  show ?thesis
    by (simp add: verifyRoleDelivery_def d f sample_contract_valid sample_delivery_valid council_outcome_def sample_contract_flds(2,3) cs c e
        coal_array sample_report_body_def del: bnd_Inr)
qed

text \<open>A record sealed from a JSON value holds that value.\<close>

lemma seal_plain:
  assumes "plain (JObj fs)" and "fst ` set fs \<inter> {''version'', ''type'', ''digest''} = {}"
  obtains r where "seal h ty fs = Inr r" and "digest_payload r = [(''version'', JNat 1), (''type'', JStr ty)] @ fs"
proof -
  define b where "b = [(''version'', JNat 1), (''type'', JStr ty)] @ fs"
  have d: "distinct (map fst b)" "''digest'' \<notin> fst ` set b" using assms by (auto simp: b_def)
  have "obj_spread [(''version'', JNat 1), (''type'', JStr ty)] fs = b"
    using obj_spread_new d(1) unfolding b_def by blast
  then have sealed: "seal h ty fs = Inr (JObj (b @ [(''digest'', JStr (recordDigest h (JObj (b @ [(''digest'', JStr [])]))))]))"
    by (simp only: seal_def plain_clone [OF assms(1)] bnd_simps own_props_def js.case Let_def obj_set_new [OF d(2)] obj_set_last [OF d(2)])
  have "digest_payload (JObj (b @ [(''digest'', v)])) = b" for v
    using d(2) by (force simp: digest_payload_def own_props_def coal_def obj_del_def filter_id_conv)
  then show thesis by (rule that [OF sealed, folded b_def])
qed

lemma sample_flds:
  "fld sample_contract ''digest'' = sample_hex" "fld sample_contract ''subject'' = JStr ''s''" "fld sample_contract ''deliveryRole'' = JStr ''dev''"
  "fld sample_contract ''candidateDigest'' = sample_hex"
  "fld sample_delivery ''digest'' = sample_hex" "fld sample_delivery ''handoffDigest'' = sample_hex" "fld sample_delivery ''contractDigest'' = sample_hex"
  "fld sample_delivery ''producerRole'' = JStr ''dev''" "fld sample_delivery ''candidateDigest'' = sample_hex"
  "fld sample_delivery ''status'' = JStr ''submitted''"
  "fld sample_handoff ''digest'' = sample_hex" "fld sample_handoff ''state'' = JStr ''issued''" "fld sample_handoff ''acceptanceContract'' = sample_contract"
  "fld sample_handoff ''subject'' = JStr ''s''" "fld sample_handoff ''fromRole'' = JStr ''pm''" "fld sample_handoff ''toRole'' = JStr ''dev''"
  "hasCurrentDigest const_host sample_handoff" "js_eq sample_hex sample_hex" "coal sample_hex v = sample_hex"
  by (simp_all add: sample_contract_def sample_delivery_def sample_handoff_def sample_record_flds sample_record_current fld_own)
    (simp_all add: sample_hex_def coal_def)

lemma coal_text: "coal (JStr s) d = JStr s" "coal JUndef d = d" "coal JNull d = d"
  by (simp_all add: coal_def)

definition sample_checks :: "js list" where
  "sample_checks = binding_checks const_host sample_handoff sample_contract sample_delivery True True
       @ [report_check ''council'' True ''required council evidence is complete and current'']"

lemma sample_checks_pass: "list_all check_passes sample_checks"
  by (simp add: sample_checks_def binding_checks_def sample_flds sample_contract_class)

lemma sample_body:
  "sample_report_body = [(''handoffDigest'', sample_hex), (''contractDigest'', sample_hex), (''deliveryDigest'', sample_hex),
     (''ownerRole'', JStr ''pm''), (''candidateDigest'', sample_hex), (''humanApprovalRequired'', JBool False),
     (''councilSynthesisDigest'', JNull), (''status'', JStr ''semantic-review-required''), (''checks'', JArr sample_checks),
     (''semanticCriteria'', JArr [JStr ''c'']), (''advisorySemanticCriteria'', JArr [])]"
proof -
  have "semantic_criteria (elems (fld sample_contract ''criteria'')) = elems (fld sample_contract ''criteria'')"
    by (simp add: sample_contract_flds semantic_criteria_def fld_own)
  then show ?thesis
    using sample_checks_pass
    by (simp add: sample_report_body_def sample_checks_def [symmetric] report_fields_def sample_flds sample_contract_class sample_contract_flds
        coal_text is_advisory_def fld_own proto_names_def)
qed

lemma sample_body_plain: "plain (JObj sample_report_body)" "fst ` set sample_report_body \<inter> {''version'', ''type'', ''digest''} = {}"
proof -
  have "plain (report_check i b t)" for i b t by (simp add: report_check_def)
  then have "list_all plain sample_checks" by (simp add: sample_checks_def binding_checks_def)
  then show "plain (JObj sample_report_body)" by (simp add: sample_body sample_hex_def list_all_iff)
qed (simp add: sample_body)

definition sample_decision :: "js \<Rightarrow> js" where
  "sample_decision rep = sample_record ''acceptance-decision'' [(''decidedByRole'', JStr ''pm''), (''state'', JStr ''accepted''),
     (''handoffDigest'', sample_hex), (''contractDigest'', sample_hex), (''deliveryDigest'', sample_hex), (''councilSynthesisDigest'', JNull),
     (''semanticFindings'', JArr [JObj [(''criterionId'', JStr ''c''), (''status'', JStr ''pass''), (''reason'', JStr ''clear'')]]),
     (''deterministicReport'', rep)]"

definition sample_advance :: "js \<Rightarrow> js \<Rightarrow> (string \<times> js) list" where
  "sample_advance options rep =
     sample_sources @ [(''decision'', sample_decision rep), (''openReworkRequests'', JArr []), (''options'', options)]"

lemma sample_report_flds:
  assumes "seal const_host ''delivery-verification'' sample_report_body = Inr rep"
  shows "fld rep ''status'' = JStr ''semantic-review-required''" "fld rep ''humanApprovalRequired'' = JBool False"
    "fld rep ''semanticCriteria'' = JArr [JStr ''c'']" "fld rep ''advisorySemanticCriteria'' = JArr []"
    "fld rep ''ownerRole'' = JStr ''pm''" "fld rep ''councilSynthesisDigest'' = JNull"
    "fld rep ''handoffDigest'' = sample_hex" "fld rep ''contractDigest'' = sample_hex" "fld rep ''deliveryDigest'' = sample_hex"
    "fld rep ''checks'' = JArr sample_checks"
proof -
  have "copied sample_hex = sample_hex" by (simp add: sample_hex_def)
  moreover have "copied (JArr sample_checks) = JArr sample_checks"
    using sample_body_plain(1) plain_copied [of "JArr sample_checks"] by (simp add: sample_body)
  moreover have "copied (JArr [JStr ''c'']) = JArr [JStr ''c'']" "copied (JArr []) = JArr []" by simp_all
  ultimately show "fld rep ''status'' = JStr ''semantic-review-required''" "fld rep ''humanApprovalRequired'' = JBool False"
    "fld rep ''semanticCriteria'' = JArr [JStr ''c'']" "fld rep ''advisorySemanticCriteria'' = JArr []"
    "fld rep ''ownerRole'' = JStr ''pm''" "fld rep ''councilSynthesisDigest'' = JNull"
    "fld rep ''handoffDigest'' = sample_hex" "fld rep ''contractDigest'' = sample_hex" "fld rep ''deliveryDigest'' = sample_hex"
    "fld rep ''checks'' = JArr sample_checks"
    using fld_sealed [OF assms] by (simp_all add: sample_body del: copied.simps(1))
qed

lemma sample_decision_flds:
  "fld (sample_decision rep) ''deterministicReport'' = rep" "fld (sample_decision rep) ''state'' = JStr ''accepted''"
  "fld (sample_decision rep) ''decidedByRole'' = JStr ''pm''" "fld (sample_decision rep) ''councilSynthesisDigest'' = JNull"
  "fld (sample_decision rep) ''handoffDigest'' = sample_hex" "fld (sample_decision rep) ''contractDigest'' = sample_hex"
  "fld (sample_decision rep) ''deliveryDigest'' = sample_hex" "fld (sample_decision rep) ''conditions'' = JUndef"
  "fld (sample_decision rep) ''semanticFindings'' = JArr [JObj [(''criterionId'', JStr ''c''), (''status'', JStr ''pass''), (''reason'', JStr ''clear'')]]"
  by (simp_all add: sample_decision_def sample_record_flds fld_own proto_names_def)

lemma sample_decision_valid:
  assumes "seal const_host ''delivery-verification'' sample_report_body = Inr rep"
  shows "validateAcceptanceDecision const_host (sample_decision rep) = Inr []"
proof -
  note r = sample_report_flds [OF assms]
  have v: "fld rep ''version'' = JNat 1" "fld rep ''type'' = JStr ''delivery-verification''" "fld rep ''digest'' = JStr (recordDigest const_host rep)"
    by (rule sealed_identity [OF assms]; simp add: sample_body)+
  have cur: "hasCurrentDigest const_host rep"
    using const_host_hex by (simp add: hasCurrentDigest_def v(3)) (simp add: recordDigest_def)
  have one: "some_res (\<lambda>c. bnd (dot c ''status'') (\<lambda>s. Inr (s \<noteq> JStr ''pass''))) sample_checks = Inr False"
    unfolding some_res_False
  proof
    fix c assume c: "c \<in> set sample_checks"
    then have "check_passes c" using sample_checks_pass by (simp add: list_all_iff)
    then show "bnd (dot c ''status'') (\<lambda>s. Inr (s \<noteq> JStr ''pass'')) = Inr False"
      by (cases c) (auto simp: check_passes_def dot_def fld_def)
  qed
  have accepts: "report_accepts rep = Inr True" by (simp add: report_accepts_def r one one_of_def del: bnd_Inr)
  have "semantic_errors const_host (sample_decision rep) rep = Inr []"
    by (simp add: semantic_errors_def r sample_decision_flds coal_array js_iter_def criterion_found_def entries_def finding_errors_def
        blocking_failed_def js_includes_def del: bnd_Inr)
      (simp add: fld_own one_of_def SEMANTIC_FINDING_STATUSES_def)
  then have "acceptance_errors const_host (sample_decision rep) = Inr []"
    by (simp add: acceptance_errors_def sample_decision_flds accepts r)
  moreover have "validateSealed const_host (sample_decision rep) ''acceptance-decision'' = []"
    by (simp add: validateSealed_def sample_decision_def sample_record_flds sample_record_current)
  ultimately show ?thesis
    by (simp add: validateAcceptanceDecision_def sample_decision_flds cur v r one_of_def ACCEPTANCE_STATES_def DECISION_BINDINGS_def sample_flds)
qed

lemma sample_oracle_digest: "contract_oracle_digest (JObj sample_sources) = Inr JNull"
proof -
  have "fld (JObj sample_sources) ''contract'' = sample_contract" "fld (JObj sample_sources) ''handoff'' = sample_handoff"
    by (simp_all add: sample_sources_def fld_own)
  moreover have "fld sample_contract ''oracleDigest'' = JUndef" "fld sample_handoff ''oracleDigest'' = JUndef"
    "fld sample_contract ''controls'' = JUndef"
    by (simp_all add: sample_contract_def sample_handoff_def sample_record_flds fld_own proto_names_def)
  ultimately show ?thesis by (simp add: contract_oracle_digest_def coal_text entries_def tagged_control_def del: bnd_Inr)
qed

lemma sample_not_entering: "\<not> entering_developer (JObj []) (JObj sample_sources)"
proof -
  have "fld (JObj sample_sources) ''contract'' = sample_contract" "fld (JObj sample_sources) ''handoff'' = sample_handoff"
    "fld (JObj sample_sources) ''delivery'' = sample_delivery"
    by (simp_all add: sample_sources_def fld_own)
  moreover have "fld sample_contract ''phase'' = JUndef" "fld sample_handoff ''phase'' = JUndef" "fld sample_delivery ''role'' = JUndef"
    by (simp_all add: sample_contract_def sample_handoff_def sample_delivery_def sample_record_flds fld_own proto_names_def)
  ultimately show ?thesis by (simp add: entering_developer_def sample_flds fld_own proto_names_def)
qed

lemma sample_no_options: "oracle_errors const_host cd (JObj []) (JObj sample_sources) = Inr []"
  by (simp add: oracle_errors_def sample_oracle_digest sample_not_entering binding_errors_def builder_pin_errors_def given_pin_def
      resolved_pin_def fld_own proto_names_def coal_text Let_def del: bnd_Inr)

lemma sample_advanced:
  assumes "seal const_host ''delivery-verification'' sample_report_body = Inr rep"
    and "oracle_errors const_host cd (JObj os) (JObj sample_sources) = Inr []"
  shows "verifyRoleAdvance const_host cd (JObj (sample_advance (JObj os) rep)) = Inr ([], rep)"
proof -
  let ?a = "JObj (sample_advance (JObj os) rep)"
  have f: "fld ?a ''decision'' = sample_decision rep" "fld ?a ''openReworkRequests'' = JArr []" "fld ?a ''options'' = JObj os"
    "fld ?a ''ledger'' = JUndef" "fld ?a ''commit'' = JUndef" "fld ?a ''transition'' = JUndef" "fld ?a ''changeSurface'' = JUndef"
    by (simp_all add: sample_advance_def sample_sources_def fld_own proto_names_def)
  have src: "advance_sources ?a = JObj sample_sources"
    by (simp add: advance_sources_def own_props_def sample_advance_def sample_sources_def ADVANCE_NAMES_def)
  have v: "fld rep ''digest'' = JStr (recordDigest const_host rep)"
    by (rule sealed_identity [OF assms(1)]; simp add: sample_body)
  show ?thesis
    using sample_verified assms(1)
    by (simp add: verifyRoleAdvance_def destructured_def f src sample_decision_valid [OF assms(1)] registered_errors_def sample_decision_flds
        js_default_def assms(2) v accepting_def one_of_def is_frozen_def token_errors_def js_int_def del: bnd_Inr)
qed

theorem role_advance_sound_witness:
  "\<exists>rep. verifyRoleAdvance const_host (\<lambda>_. Inr JNull) (JObj (sample_advance (JObj []) rep)) = Inr ([], rep)
     \<and> delivery_holds const_host (advance_sources (JObj (sample_advance (JObj []) rep)))"
proof -
  obtain rep where rep: "seal const_host ''delivery-verification'' sample_report_body = Inr rep"
    "digest_payload rep = [(''version'', JNat 1), (''type'', JStr ''delivery-verification'')] @ sample_report_body"
    using seal_plain [OF sample_body_plain] by blast
  have p: "plain (JObj (digest_payload rep))"
    using sample_body_plain unfolding rep(2) by (auto simp: rat_int_def)
  have d: "fld (fld (JObj (sample_advance (JObj []) rep)) ''decision'') ''deterministicReport'' = rep"
    by (simp add: sample_advance_def sample_sources_def fld_own sample_decision_flds)
  note adv = sample_advanced [OF rep(1) sample_no_options, of "\<lambda>_. Inr JNull"]
  from role_advance_sound [OF adv] p adv show ?thesis unfolding d by blast
qed

section \<open>The breaker and the fence\<close>

lemma bit_count_upper: "n < 2 ^ bit_count n"
proof (induction n rule: bit_count.induct)
  case (1 n)
  show ?case
  proof (cases "n = 0")
    case False
    with 1 have "n div 2 < 2 ^ bit_count (n div 2)" by simp
    then have "n < 2 * 2 ^ bit_count (n div 2)" by linarith
    with False show ?thesis by (subst bit_count.simps) simp
  qed simp
qed

lemma bit_count_lower: "0 < n \<Longrightarrow> 2 ^ (bit_count n - 1) \<le> n"
proof (induction n rule: bit_count.induct)
  case (1 n)
  have b: "bit_count n = Suc (bit_count (n div 2))" using 1(2) by (subst bit_count.simps) simp
  show ?case
  proof (cases "n div 2 = 0")
    case True
    have "bit_count 0 = 0" by (subst bit_count.simps) simp
    with True b 1(2) show ?thesis by simp
  next
    case False
    with 1 have "2 ^ (bit_count (n div 2) - 1) \<le> n div 2" by simp
    moreover have "0 < bit_count (n div 2)" using False by (subst bit_count.simps) simp
    then have "bit_count n - 1 = Suc (bit_count (n div 2) - 1)" using b by simp
    ultimately show ?thesis by simp
  qed
qed

lemma succ_num_exact: "\<bar>n\<bar> < 2 ^ 53 \<Longrightarrow> succ_num n = n + 1"
  by (auto simp: succ_num_def Let_def)

lemma succ_num_large:
  assumes "2 ^ 53 \<le> n"
  shows "2 ^ 53 \<le> succ_num n"
proof -
  define a where "a = nat \<bar>n + 1\<bar>"
  have big: "2 ^ 53 < a" using assms by (simp add: a_def)
  have "2 ^ 53 < (2::nat) ^ bit_count a" using big bit_count_upper [of a] by linarith
  then have bits: "53 < bit_count a" by (metis nat_power_less_imp_less zero_less_numeral)
  define u :: nat where "u = 2 ^ (bit_count a - 53)"
  have "(2::nat) ^ 52 * u = 2 ^ (52 + (bit_count a - 53))" unfolding u_def power_add ..
  then have "(2::nat) ^ 52 * u = 2 ^ (bit_count a - 1)" using bits by simp
  then have "2 ^ 52 * u \<le> a" using bit_count_lower [of a] big by simp
  then have q: "2 ^ 52 \<le> a div u" by (simp add: u_def less_eq_div_iff_mult_less_eq)
  have u2: "2 \<le> u" using bits self_le_power [of "2::nat" "bit_count a - 53"] by (simp add: u_def)
  have "2 ^ 53 \<le> (if u < 2 * (a mod u) \<or> (2 * (a mod u) = u \<and> odd (a div u)) then a div u + 1 else a div u) * u" (is "_ \<le> ?q * u")
    using mult_le_mono [of "2 ^ 52" ?q 2 u] q u2 by simp
  then have "2 ^ 53 \<le> int (?q * u)" by (metis of_nat_le_iff of_nat_numeral of_nat_power)
  moreover have "sgn (n + 1) = 1" using assms by simp
  moreover have "succ_num n = sgn (n + 1) * int (?q * u)"
    unfolding succ_num_def Let_def a_def [symmetric] u_def [symmetric] using big by simp
  ultimately show ?thesis by simp
qed

lemma succ_num_neg: "n < 0 \<Longrightarrow> succ_num n \<le> 0"
  by (auto simp: succ_num_def Let_def sgn_if)

text \<open>A token that is not beyond 2 ^ 53 came from one that is a safe integer.\<close>

lemma succ_num_safe: "succ_num n < 2 ^ 53 \<Longrightarrow> 1 \<le> succ_num n \<Longrightarrow> 0 \<le> n \<and> n < 2 ^ 53 - 1 \<and> succ_num n = n + 1"
  using succ_num_neg [of n] succ_num_large [of n] succ_num_exact [of n] by (cases "n < 0"; cases "2 ^ 53 \<le> n") auto

lemma succ_num_pos: "0 \<le> n \<Longrightarrow> 1 \<le> succ_num n"
  using succ_num_exact [of n] succ_num_large [of n] by (cases "n < 2 ^ 53") auto

text \<open>Beyond the safe integers the successor can be the number itself.\<close>

lemma succ_num_stuck: "succ_num (2 ^ 53) = 2 ^ 53"
  by (simp add: succ_num_def Let_def bit_count.simps)

lemma spread_flds:
  "fld (JObj (obj_spread fs gs)) k = (case map_of gs k of Some v \<Rightarrow> v | None \<Rightarrow> fld (JObj fs) k)"
  by (simp add: fld_own map_of_obj_spread split: option.split)

lemma tripLedgerBreaker_Inr:
  assumes "tripLedgerBreaker h ledger = Inr (l, p)"
  shows "is_frozen l \<and> int_field l ''fencingToken'' = succ_num (int_field ledger ''fencingToken'') \<and> truthy l"
proof -
  have "int_field (js_default ledger (JObj [])) k = int_field ledger k" if "k \<notin> set proto_names" for k
    using that by (simp add: js_default_def int_field_def fld_own)
  then have t: "int_field (js_default ledger (JObj [])) ''fencingToken'' = int_field ledger ''fencingToken''"
    by (simp add: proto_names_def)
  define n where "n = succ_num (int_field ledger ''fencingToken'')"
  from assms obtain fs where "l = JObj (obj_spread fs [(''frozen'', JBool True), (''fencingToken'', JInt n)])"
    unfolding tripLedgerBreaker_def Let_def t n_def [symmetric] by auto
  then show ?thesis unfolding n_def [symmetric] by (simp add: is_frozen_def int_field_def spread_flds js_int_def)
qed

lemma unfreezeLedger_Inr:
  assumes "unfreezeLedger h l r = Inr l'"
  shows "is_frozen l \<and> validateUnfreezeResolution h r = [] \<and> fld r ''fencingToken'' = JInt (succ_num (int_field l ''fencingToken''))
    \<and> \<not> is_frozen l' \<and> int_field l' ''fencingToken'' = succ_num (int_field l ''fencingToken'')
    \<and> fld l' ''unfreezeResolutionDigest'' = fld r ''digest'' \<and> truthy l'"
proof -
  define n where "n = succ_num (int_field l ''fencingToken'')"
  from assms obtain fs where "l' = JObj (obj_spread fs [(''frozen'', JBool False), (''fencingToken'', JInt n),
      (''unfreezeResolutionDigest'', fld r ''digest'')])" "is_frozen l" "validateUnfreezeResolution h r = []" "fld r ''fencingToken'' = JInt n"
    unfolding unfreezeLedger_def Let_def n_def [symmetric] by (auto split: if_splits)
  then show ?thesis unfolding n_def [symmetric] by (simp add: is_frozen_def int_field_def spread_flds js_int_def)
qed

lemma createReworkRequest_Inr:
  assumes "createReworkRequest h (JObj fs) = Inr out"
  shows "\<not> is_frozen (fld (JObj fs) ''ledger'') \<and> (case out of
      ReworkRequested r \<Rightarrow> deriveReworkRound (fld (JObj fs) ''ledger'') \<le> 2
        \<and> fld r ''round'' = JInt (deriveReworkRound (fld (JObj fs) ''ledger''))
    | BreakerTripped l p \<Rightarrow> 2 < deriveReworkRound (fld (JObj fs) ''ledger'') \<and> tripLedgerBreaker h (fld (JObj fs) ''ledger'') = Inr (l, p))"
proof (cases out)
  case (ReworkRequested r)
  let ?body = "[(''id'', fld (JObj fs) ''id''), (''acceptanceDecisionDigest'', fld (JObj fs) ''acceptanceDecisionDigest''),
        (''ownerRole'', fld (JObj fs) ''ownerRole''), (''deliveryRole'', fld (JObj fs) ''deliveryRole''),
        (''failedCriteria'', js_default (fld (JObj fs) ''failedCriteria'') (JArr [])),
        (''requiredChanges'', js_default (fld (JObj fs) ''requiredChanges'') (JArr [])),
        (''evidenceDigest'', fld (JObj fs) ''evidenceDigest''), (''round'', JInt (deriveReworkRound (fld (JObj fs) ''ledger'')))]"
  from assms ReworkRequested have "\<not> is_frozen (fld (JObj fs) ''ledger'')" "deriveReworkRound (fld (JObj fs) ''ledger'') \<le> 2"
    "seal h ''rework-request'' ?body = Inr r"
    by (auto simp: createReworkRequest_def destructured_def Let_def DEFAULT_MAX_REWORK_ROUNDS_def split: if_splits prod.splits)
  with fld_sealed [of h "''rework-request''" ?body r "''round''"] ReworkRequested show ?thesis by simp
next
  case (BreakerTripped l p)
  with assms show ?thesis
    by (auto simp: createReworkRequest_def destructured_def Let_def DEFAULT_MAX_REWORK_ROUNDS_def split: if_splits prod.splits)
qed

lemma frozen_refused: "is_frozen l \<Longrightarrow> map_of fs ''ledger'' = Some l \<Longrightarrow> createReworkRequest h (JObj fs) \<noteq> Inr out"
  using createReworkRequest_Inr [of h fs out] by (auto simp: fld_own)

text \<open>
  C13. The circuit breaker. The limit is the constant of the code, two rounds: the policy value
  \<open>maxReworkRounds\<close> is not read here. A request is only made for a round within the limit of a ledger
  that is not frozen, and it carries the round the ledger derives. Beyond the limit the request
  trips the breaker instead: the ledger it throws is frozen, its fencing token is the next one, and
  no request on it is accepted.
\<close>

theorem rework_bounded:
  assumes "createReworkRequest h (JObj fs) = Inr out"
  shows "\<not> is_frozen (fld (JObj fs) ''ledger'') \<and> (case out of
      ReworkRequested r \<Rightarrow> deriveReworkRound (fld (JObj fs) ''ledger'') \<in> {1..DEFAULT_MAX_REWORK_ROUNDS}
        \<and> fld r ''round'' = JInt (deriveReworkRound (fld (JObj fs) ''ledger''))
    | BreakerTripped l p \<Rightarrow> DEFAULT_MAX_REWORK_ROUNDS < deriveReworkRound (fld (JObj fs) ''ledger'') \<and> is_frozen l
        \<and> int_field l ''fencingToken'' = succ_num (int_field (fld (JObj fs) ''ledger'') ''fencingToken'')
        \<and> (\<forall>gs out. map_of gs ''ledger'' = Some l \<longrightarrow> createReworkRequest h (JObj gs) \<noteq> Inr out))"
proof -
  have pos: "1 \<le> deriveReworkRound v" for v by (simp add: deriveReworkRound_def Let_def succ_num_pos)
  show ?thesis
  proof (cases out)
    case (ReworkRequested r)
    with createReworkRequest_Inr [OF assms] pos [of "fld (JObj fs) ''ledger''"] show ?thesis by (simp add: DEFAULT_MAX_REWORK_ROUNDS_def)
  next
    case (BreakerTripped l p)
    with createReworkRequest_Inr [OF assms]
    have t: "tripLedgerBreaker h (fld (JObj fs) ''ledger'') = Inr (l, p)" "DEFAULT_MAX_REWORK_ROUNDS < deriveReworkRound (fld (JObj fs) ''ledger'')"
      "\<not> is_frozen (fld (JObj fs) ''ledger'')" by (auto simp: DEFAULT_MAX_REWORK_ROUNDS_def)
    from tripLedgerBreaker_Inr [OF t(1)]
    have l: "is_frozen l" "int_field l ''fencingToken'' = succ_num (int_field (fld (JObj fs) ''ledger'') ''fencingToken'')" by simp_all
    show ?thesis unfolding BreakerTripped rework_outcome.case
      using t(2,3) l frozen_refused [OF l(1)] by blast
  qed
qed

definition spent_ledger :: js where
  "spent_ledger = JObj [(''rounds'', JArr [JNull, JNull]), (''fencingToken'', JInt 4)]"

lemma spent_ledger_trips:
  "\<exists>l p. createReworkRequest const_host (JObj [(''ledger'', spent_ledger)]) = Inr (BreakerTripped l p)"
proof -
  let ?body = "[(''triggerCondition'', JStr ''rework-exhausted''), (''fencingToken'', JInt 5), (''round'', JInt 3), (''targetIdentityDigest'', JNull)]"
  have "plain (JObj ?body)" "fst ` set ?body \<inter> {''version'', ''type'', ''digest''} = {}" by simp_all
  from seal_plain [OF this] obtain p where p: "seal const_host ''reverse-seam-packet'' ?body = Inr p" by metis
  have r: "deriveReworkRound spent_ledger = 3"
    by (simp add: deriveReworkRound_def spent_ledger_def js_default_def int_field_def fld_own js_int_def proto_names_def succ_num_exact)
  have t: "int_field spent_ledger ''fencingToken'' = 4"
    by (simp add: spent_ledger_def int_field_def fld_own js_int_def)
  have "fld spent_ledger ''targetIdentityDigest'' = JUndef" by (simp add: spent_ledger_def fld_own proto_names_def)
  then have "\<exists>l. tripLedgerBreaker const_host spent_ledger = Inr (l, p)"
    using p r t by (simp add: tripLedgerBreaker_def js_default_def spent_ledger_def structured_clone_def coal_def succ_num_exact)
  then show ?thesis
    using r by (auto simp: createReworkRequest_def destructured_def fld_own proto_names_def rejectClientRound_def is_frozen_def spent_ledger_def
        DEFAULT_MAX_REWORK_ROUNDS_def)
qed

theorem rework_bounded_witness:
  "\<exists>l p. createReworkRequest const_host (JObj [(''ledger'', spent_ledger)]) = Inr (BreakerTripped l p) \<and> is_frozen l"
proof -
  obtain l p where t: "createReworkRequest const_host (JObj [(''ledger'', spent_ledger)]) = Inr (BreakerTripped l p)"
    using spent_ledger_trips by blast
  with rework_bounded [OF t] show ?thesis by auto
qed

text \<open>
  What may happen to a ledger: a request that trips its breaker, an unfreezing, or any other edit that
  leaves the token as it is.
\<close>

inductive ledger_step :: "host \<Rightarrow> js \<Rightarrow> js \<Rightarrow> bool" for h where
  trip: "createReworkRequest h (JObj fs) = Inr (BreakerTripped l' p) \<Longrightarrow> ledger_step h (fld (JObj fs) ''ledger'') l'"
| unfreeze: "unfreezeLedger h l r = Inr l' \<Longrightarrow> ledger_step h l l'"
| edit: "int_field l' ''fencingToken'' = int_field l ''fencingToken'' \<Longrightarrow> ledger_step h l l'"

inductive_cases ledger_stepE: "ledger_step h l l'"

lemma ledger_step_token:
  "ledger_step h l l' \<Longrightarrow> int_field l' ''fencingToken'' \<in> {int_field l ''fencingToken'', succ_num (int_field l ''fencingToken'')}"
proof (induction rule: ledger_step.induct)
  case (trip fs l' p)
  then have "tripLedgerBreaker h (fld (JObj fs) ''ledger'') = Inr (l', p)" using createReworkRequest_Inr by fastforce
  from tripLedgerBreaker_Inr [OF this] show ?case by simp
next
  case (unfreeze l r l')
  from unfreezeLedger_Inr [OF unfreeze] show ?case by simp
qed simp

lemma ledger_steps_token:
  assumes "(ledger_step h)\<^sup>*\<^sup>* l l'" and "0 \<le> int_field l ''fencingToken''"
  shows "int_field l ''fencingToken'' \<le> int_field l' ''fencingToken'' \<or> 2 ^ 53 \<le> int_field l' ''fencingToken''"
  using assms(1)
proof (induction rule: rtranclp_induct)
  case (step m n)
  from ledger_step_token [OF step(2)] show ?case
  proof (elim insertE emptyE)
    assume n: "int_field n ''fencingToken'' = succ_num (int_field m ''fencingToken'')"
    show ?thesis
    proof (cases "int_field m ''fencingToken'' < 2 ^ 53")
      case True
      with step(3) assms(2) succ_num_exact [of "int_field m ''fencingToken''"] n show ?thesis by simp
    next
      case False
      with succ_num_large [of "int_field m ''fencingToken''"] n show ?thesis by simp
    qed
  qed (use step(3) in simp)
qed simp

lemma resolution_authority:
  assumes "validateUnfreezeResolution h r = []"
  shows "isAuthorizedUnfreezeActor (fld r ''actor'') \<and> \<not> isInRigSeat (fld r ''actor'')
    \<and> (one_of [''person-waiver'', ''abandonment''] (fld r ''resolution'') \<longrightarrow>
        is_text (fld r ''humanApproval'') \<or> is_text (fld r ''approvalRef'') \<or> is_human_actor (fld r ''actor''))"
  using assms by (auto simp: validateUnfreezeResolution_def actor_errors_def split: if_splits)

lemma resolution_token: "validateUnfreezeResolution h r = [] \<Longrightarrow> fld r ''fencingToken'' = JInt n \<Longrightarrow> 1 \<le> n"
  by (simp add: validateUnfreezeResolution_def js_int_def split: if_splits)

text \<open>
  C12. The fence. An unfreezing takes a resolution of the next epoch by an identity the code authorizes
  (the lead's, the product owner's or a human's) that holds no seat in the rig, and a waiver or an
  abandonment names a human authorization. Let the ledger then be tripped, unfrozen and otherwise
  edited any number of times, without an edit of the token: as long as the token is a safe integer the
  resolution cannot be used again, and work authored under an earlier token is rejected.
\<close>

theorem unfreeze_fenced:
  assumes "unfreezeLedger h l r = Inr l'" and "(ledger_step h)\<^sup>*\<^sup>* l' m" and "int_field m ''fencingToken'' < 2 ^ 53"
  shows "isAuthorizedUnfreezeActor (fld r ''actor'') \<and> \<not> isInRigSeat (fld r ''actor'')
    \<and> (one_of [''person-waiver'', ''abandonment''] (fld r ''resolution'') \<longrightarrow>
        is_text (fld r ''humanApproval'') \<or> is_text (fld r ''approvalRef'') \<or> is_human_actor (fld r ''actor''))
    \<and> is_frozen l \<and> \<not> is_frozen l' \<and> int_field l' ''fencingToken'' = int_field l ''fencingToken'' + 1
    \<and> fld r ''fencingToken'' = JInt (int_field l ''fencingToken'' + 1)
    \<and> (\<forall>m'. unfreezeLedger h m r \<noteq> Inr m')
    \<and> (\<forall>seen. js_int (fld seen ''fencingToken'') \<in> Some ` {..int_field l ''fencingToken''} \<and> truthy seen
        \<and> truthy m \<and> js_int (fld m ''fencingToken'') \<noteq> None \<longrightarrow> token_errors m seen \<noteq> [])"
proof -
  let ?t = "\<lambda>l. int_field l ''fencingToken''"
  note u = unfreezeLedger_Inr [OF assms(1)]
  then have pos: "1 \<le> ?t l'" using resolution_token [of h r "?t l'"] by simp
  then have mono: "?t l' \<le> ?t m" using ledger_steps_token [OF assms(2)] assms(3) by simp
  with u pos assms(3) succ_num_safe [of "?t l"] have l': "?t l' = ?t l + 1" "0 \<le> ?t l" "fld r ''fencingToken'' = JInt (?t l + 1)" by auto
  have once: "unfreezeLedger h m r \<noteq> Inr m'" for m'
  proof
    assume "unfreezeLedger h m r = Inr m'"
    from unfreezeLedger_Inr [OF this] l'(3) have "succ_num (?t m) = ?t l + 1" by simp
    moreover have "succ_num (?t m) = ?t m + 1" using assms(3) mono l' by (intro succ_num_exact) simp
    ultimately show False using mono l'(1) by simp
  qed
  have fence: "token_errors m seen \<noteq> []"
    if "js_int (fld seen ''fencingToken'') = Some k" "k \<le> ?t l" "truthy seen" "truthy m"
      "js_int (fld m ''fencingToken'') = Some n" for seen k n
    using that l' mono by (simp add: token_errors_def int_field_def)
  show ?thesis using resolution_authority u l' once fence by fast
qed

text \<open>At 2 ^ 53 the token no longer moves: a resolution of that epoch fits the ledger it left behind.\<close>

lemma unfreeze_stuck:
  assumes "unfreezeLedger h l r = Inr l'" and "int_field l ''fencingToken'' = 2 ^ 53"
  shows "int_field l' ''fencingToken'' = 2 ^ 53 \<and> js_eq (fld r ''fencingToken'') (JInt (succ_num (int_field l' ''fencingToken'')))"
  using unfreezeLedger_Inr [OF assms(1)] assms(2) succ_num_stuck by simp

definition sample_resolution :: js where
  "sample_resolution = JObj [(''version'', JNat 1), (''type'', JStr ''unfreeze-resolution''), (''digest'', sample_hex),
     (''resolution'', JStr ''re-scope''), (''actor'', JStr ''steer.lead''), (''rationale'', JStr ''smaller''), (''fencingToken'', JInt 6)]"

lemma sample_unfreeze:
  "\<exists>l'. unfreezeLedger const_host (JObj [(''frozen'', JBool True), (''fencingToken'', JInt 5)]) sample_resolution = Inr l'"
proof -
  have "js_trim ''steer.lead'' = ''steer.lead''" by (simp add: js_trim_def is_space_def)
  then have a: "actor_errors (JStr ''steer.lead'') = []"
    by (simp add: actor_errors_def is_text_def isInRigSeat_def isAuthorizedUnfreezeActor_def AUTHORIZED_UNFREEZE_ACTORS_def
        js_lower_def lower_char_def rig_member_def Let_def)
  have "is_hex64 (replicate 64 (CHR ''a''))" by (simp add: is_hex64_def list_all_iff is_hex_def)
  then have s: "validateSealed const_host sample_resolution ''unfreeze-resolution'' = []"
    by (simp add: validateSealed_def hasCurrentDigest_def sample_resolution_def fld_own recordDigest_def const_host_def sample_hex_def)
  have t: "is_text (JStr ''smaller'')" by (simp add: is_text_def js_trim_def is_space_def)
  have "validateUnfreezeResolution const_host sample_resolution = []"
    unfolding validateUnfreezeResolution_def s
    by (simp add: sample_resolution_def fld_own one_of_def UNFREEZE_RESOLUTIONS_def a t js_int_def)
  then show ?thesis
    by (simp add: unfreezeLedger_def is_frozen_def int_field_def fld_own js_int_def structured_clone_def sample_resolution_def succ_num_exact)
qed

text \<open>The unfrozen ledger is frozen again at its token, and the resolution is offered a second time.\<close>

theorem unfreeze_fenced_witness:
  "let again = JObj [(''frozen'', JBool True), (''fencingToken'', JInt 6)] in
   \<exists>l'. unfreezeLedger const_host (JObj [(''frozen'', JBool True), (''fencingToken'', JInt 5)]) sample_resolution = Inr l'
     \<and> is_frozen again \<and> (ledger_step const_host)\<^sup>*\<^sup>* l' again
     \<and> (\<forall>m'. unfreezeLedger const_host again sample_resolution \<noteq> Inr m')
     \<and> token_errors again (JObj [(''fencingToken'', JInt 5)]) \<noteq> []"
proof -
  let ?again = "JObj [(''frozen'', JBool True), (''fencingToken'', JInt 6)]"
  obtain l' where l: "unfreezeLedger const_host (JObj [(''frozen'', JBool True), (''fencingToken'', JInt 5)]) sample_resolution = Inr l'"
    using sample_unfreeze by blast
  have t: "int_field (JObj [(''frozen'', JBool True), (''fencingToken'', JInt n)]) ''fencingToken'' = n"
    "js_int (fld (JObj [(''frozen'', JBool True), (''fencingToken'', JInt n)]) ''fencingToken'') = Some n"
    "js_int (fld (JObj [(''fencingToken'', JInt n)]) ''fencingToken'') = Some n" for n
    by (simp_all add: int_field_def fld_own js_int_def)
  have "ledger_step const_host l' ?again"
    by (rule ledger_step.edit) (use unfreezeLedger_Inr [OF l] t(1) [of 5] t(1) [of 6] succ_num_exact [of 5] in simp)
  then have r: "(ledger_step const_host)\<^sup>*\<^sup>* l' ?again" by blast
  moreover have "is_frozen ?again" by (simp add: is_frozen_def fld_own)
  ultimately show ?thesis
    using unfreeze_fenced [OF l r] t(1) [of 5] t(1) [of 6] t(2) [of 6] t(3) [of 5] l unfolding Let_def by auto
qed

section \<open>Entering the developer role\<close>

lemma pinOracleDigest_Inr: "pinOracleDigest h d n = Inr p \<Longrightarrow> fld p ''oracleDigest'' = d \<and> digest_test h d"
  by (auto simp: pinOracleDigest_def fld_own split: if_splits)

lemma verifyOraclePin_Nil:
  assumes "verifyOraclePin h pin seat expected = []" and "one_of BUILDER_SEATS seat" and "expected \<noteq> JUndef"
  shows "expected \<noteq> JNull \<and> js_eq (fld pin ''oracleDigest'') expected \<and> digest_test h (fld pin ''oracleDigest'')"
  using assms by (auto simp: verifyOraclePin_def split: if_splits)

lemma entered_pinned:
  assumes "oracle_errors h cd options sources = Inr []" and "entering_developer options sources"
    and "fld options ''expectedDigest'' = JUndef" and "nullish (fld options ''seat'') \<or> truthy (fld options ''seat'')"
  shows "\<exists>bound expected pin. contract_oracle_digest sources = Inr bound \<and> cd (fld options ''packageRoot'') = Inr expected
    \<and> resolved_pin h options bound = Inr pin
    \<and> (expected \<noteq> JUndef \<longrightarrow> expected \<noteq> JNull \<and> js_eq (fld pin ''oracleDigest'') expected \<and> digest_test h (fld pin ''oracleDigest'')
        \<and> (truthy bound \<longrightarrow> fld pin ''oracleDigest'' = bound))"
proof -
  let ?seat = "fld options ''seat''"
  let ?target = "coal ?seat (JStr ''dev.build'')"
  from assms(1,2) obtain bound where b: "contract_oracle_digest sources = Inr bound" "binding_errors h options True bound = []"
    "builder_pin_errors h cd options True (pin_of options (resolved_pin h options bound)) = Inr []"
    by (auto simp: oracle_errors_def Let_def)
  let ?pin = "pin_of options (resolved_pin h options bound)"
  have "truthy ?seat \<Longrightarrow> one_of BUILDER_SEATS ?seat"
    and same: "truthy (given_pin options) \<Longrightarrow> truthy bound \<Longrightarrow> js_eq (fld (given_pin options) ''oracleDigest'') bound"
    and found: "\<exists>p. resolved_pin h options bound = Inr p"
    using b(2) by (auto simp: binding_errors_def Let_def split: if_splits sum.splits)
  then have target: "truthy ?target" "one_of BUILDER_SEATS ?target"
    using assms(4) by (auto simp: coal_def truthy_nullish BUILDER_SEATS_def one_of_def)
  from b(3) target assms(3) obtain expected where e: "cd (fld options ''packageRoot'') = Inr expected"
    "verifyOraclePin h ?pin ?target expected = []"
    by (auto simp: builder_pin_errors_def Let_def)
  have "fld ?pin ''oracleDigest'' = bound" if "truthy bound"
  proof (cases "truthy (given_pin options)")
    case True
    then have "?pin = given_pin options" by (simp add: pin_of_def resolved_pin_def)
    with same [OF True that] show ?thesis by (simp add: js_eq_imp_eq)
  next
    case False
    have "coal bound (coal (fld options ''oracleDigest'') JNull) = bound" using that by (simp add: coal_def truthy_nullish)
    with False that have "resolved_pin h options bound = pinOracleDigest h bound (JNat 3)" by (simp add: resolved_pin_def)
    with found pinOracleDigest_Inr show ?thesis by (auto simp: pin_of_def)
  qed
  moreover from found have "resolved_pin h options bound = Inr ?pin" by (auto simp: pin_of_def)
  ultimately show ?thesis using b(1) e(1) verifyOraclePin_Nil [OF e(2) target(2)] by blast
qed

text \<open>
  C14. The developer role is entered under pinned oracles, provided the caller hands in no expected
  digest of its own and names no empty seat. When the check then lets work enter that role, a pin is
  in force (the one handed in, or one made of the digest bound by the contract or else by the
  caller), the package has an oracle directory with files, and the digest of the pin is the digest of
  exactly these files, which is also the one the contract names, if it names one.
\<close>

theorem builder_entry_pinned:
  assumes "verifyRoleAdvance h (\<lambda>root. bnd (package_dir root) (computeOracleDigest sha)) (JObj fs) = Inr ([], rep)"
    and "entering_developer (js_default (fld (JObj fs) ''options'') (JObj [])) (advance_sources (JObj fs))"
    and "fld (fld (JObj fs) ''options'') ''expectedDigest'' = JUndef"
    and "nullish (fld (fld (JObj fs) ''options'') ''seat'') \<or> truthy (fld (fld (JObj fs) ''options'') ''seat'')"
  shows "\<exists>es files d bound pin. package_dir (fld (fld (JObj fs) ''options'') ''packageRoot'') = Inr (Some (Dir es)) \<and> walk [] es = Inr files
    \<and> files \<noteq> [] \<and> d = sha (oracle_text files) \<and> is_hex64 d
    \<and> contract_oracle_digest (advance_sources (JObj fs)) = Inr bound
    \<and> resolved_pin h (js_default (fld (JObj fs) ''options'') (JObj [])) bound = Inr pin \<and> fld pin ''oracleDigest'' = JStr d
    \<and> (truthy bound \<longrightarrow> bound = JStr d)"
proof -
  let ?o = "js_default (fld (JObj fs) ''options'') (JObj [])"
  have opt: "fld ?o k = fld (fld (JObj fs) ''options'') k" if "k \<notin> set proto_names" for k
    using that by (simp add: js_default_def fld_own)
  have o: "fld ?o ''expectedDigest'' = JUndef" "nullish (fld ?o ''seat'') \<or> truthy (fld ?o ''seat'')"
    "fld ?o ''packageRoot'' = fld (fld (JObj fs) ''options'') ''packageRoot''"
    using assms(3,4) opt by (simp_all add: proto_names_def)
  note errs = verifyRoleAdvance_Nil(9) [OF assms(1)]
  from entered_pinned [OF errs assms(2) o(1,2)] obtain bound expected pin
    where b: "contract_oracle_digest (advance_sources (JObj fs)) = Inr bound" "resolved_pin h ?o bound = Inr pin"
      "bnd (package_dir (fld ?o ''packageRoot'')) (computeOracleDigest sha) = Inr expected"
      "expected \<noteq> JUndef \<longrightarrow> expected \<noteq> JNull \<and> js_eq (fld pin ''oracleDigest'') expected \<and> digest_test h (fld pin ''oracleDigest'')
        \<and> (truthy bound \<longrightarrow> fld pin ''oracleDigest'' = bound)" by blast
  have shape: "expected = JNull \<or> (\<exists>es files. package_dir (fld ?o ''packageRoot'') = Inr (Some (Dir es)) \<and> walk [] es = Inr files
      \<and> files \<noteq> [] \<and> expected = JStr (sha (oracle_text files)))"
    using b(3) computeOracleDigest_Inr unfolding bnd_Inr by metis
  with b(4) obtain es files where f: "package_dir (fld ?o ''packageRoot'') = Inr (Some (Dir es))" "walk [] es = Inr files" "files \<noteq> []"
    "expected = JStr (sha (oracle_text files))" by blast
  with b(4) have v: "fld pin ''oracleDigest'' = JStr (sha (oracle_text files))" "is_hex64 (sha (oracle_text files))"
      "truthy bound \<longrightarrow> bound = JStr (sha (oracle_text files))" by auto
  show ?thesis
    by (rule exI [of _ es], rule exI [of _ files], rule exI [of _ "sha (oracle_text files)"], rule exI [of _ bound], rule exI [of _ pin])
      (use f(1-3) v b(1,2) o(3) in simp)
qed

definition entry_options :: "(string \<times> js) list" where
  "entry_options = [(''isEnteringDeveloper'', JBool True), (''oracleDigest'', sample_hex)]"

lemma sample_entry:
  "oracle_errors const_host (\<lambda>root. bnd (Inr (Some (Dir [(''a'', Plain ''x'')]))) (computeOracleDigest (\<lambda>_. replicate 64 (CHR ''a''))))
     (JObj entry_options) (JObj sample_sources) = Inr []"
proof -
  have o: "fld (JObj entry_options) ''isEnteringDeveloper'' = JBool True" "fld (JObj entry_options) ''oracleDigest'' = sample_hex"
    "fld (JObj entry_options) ''seat'' = JUndef" "fld (JObj entry_options) ''pin'' = JUndef" "fld (JObj entry_options) ''oraclePin'' = JUndef"
    "fld (JObj entry_options) ''expectedDigest'' = JUndef"
    by (simp_all add: entry_options_def fld_own proto_names_def)
  have hex: "is_hex64 (replicate 64 (CHR ''a''))" "truthy sample_hex" by (simp_all add: is_hex64_def list_all_iff is_hex_def sample_hex_def)
  have entering: "entering_developer (JObj entry_options) (JObj sample_sources)"
    by (simp add: entering_developer_def o)
  have p: "resolved_pin const_host (JObj entry_options) JNull = Inr (JObj [(''type'', JStr ''oracle-pin''), (''phase'', JNat 3),
      (''oracleDigest'', sample_hex), (''pinnedBefore'', JStr ''dev.build'')])"
    using hex by (simp add: resolved_pin_def given_pin_def o coal_text sample_flds pinOracleDigest_def Let_def)
      (simp add: sample_hex_def)
  have d: "computeOracleDigest (\<lambda>_. replicate 64 (CHR ''a'')) (Some (Dir [(''a'', Plain ''x'')])) = Inr sample_hex"
    by (simp add: computeOracleDigest_def sample_hex_def)
  have v: "verifyOraclePin const_host (JObj [(''type'', JStr ''oracle-pin''), (''phase'', JNat 3), (''oracleDigest'', sample_hex),
      (''pinnedBefore'', JStr ''dev.build'')]) (JStr ''dev.build'') sample_hex = []"
    unfolding verifyOraclePin_def using hex(1) by (simp add: fld_own sample_hex_def)
  have "binding_errors const_host (JObj entry_options) True JNull = []"
    by (simp add: binding_errors_def o p given_pin_def coal_text)
  moreover have "builder_pin_errors const_host (\<lambda>root. bnd (Inr (Some (Dir [(''a'', Plain ''x'')]))) (computeOracleDigest (\<lambda>_. replicate 64 (CHR ''a''))))
      (JObj entry_options) True (pin_of (JObj entry_options) (resolved_pin const_host (JObj entry_options) JNull)) = Inr []"
    unfolding p pin_of_def sum.case builder_pin_errors_def o coal_text bnd_simps d Let_def using v by simp
  ultimately show ?thesis by (simp add: oracle_errors_def sample_oracle_digest entering)
qed

theorem builder_entry_pinned_witness:
  "\<exists>rep. verifyRoleAdvance const_host
      (\<lambda>root. bnd (Inr (Some (Dir [(''a'', Plain ''x'')]))) (computeOracleDigest (\<lambda>_. replicate 64 (CHR ''a''))))
      (JObj (sample_advance (JObj entry_options) rep)) = Inr ([], rep)
    \<and> (\<exists>pin. resolved_pin const_host (js_default (JObj entry_options) (JObj [])) JNull = Inr pin
        \<and> fld pin ''oracleDigest'' = JStr (replicate 64 (CHR ''a'')))"
proof -
  obtain rep where rep: "seal const_host ''delivery-verification'' sample_report_body = Inr rep"
    using seal_plain [OF sample_body_plain] by metis
  note adv = sample_advanced [OF rep sample_entry]
  have a: "fld (JObj (sample_advance (JObj entry_options) rep)) ''options'' = JObj entry_options"
    "advance_sources (JObj (sample_advance (JObj entry_options) rep)) = JObj sample_sources"
    by (simp_all add: sample_advance_def sample_sources_def fld_own advance_sources_def own_props_def ADVANCE_NAMES_def)
  have e: "fld (JObj entry_options) ''expectedDigest'' = JUndef" "fld (JObj entry_options) ''seat'' = JUndef"
    "entering_developer (js_default (JObj entry_options) (JObj [])) (JObj sample_sources)"
    by (simp_all add: entering_developer_def entry_options_def fld_own proto_names_def js_default_def)
  from builder_entry_pinned [OF adv, unfolded a, OF e(3) e(1)] e(2) adv show ?thesis by (auto simp: sample_oracle_digest)
qed

text \<open>
  The empty text is no seat: a caller that names it passes the seat check and skips the check of the
  pin, so the developer role is entered with no oracle pinned at all.
\<close>

lemma empty_seat_skips_pin:
  "oracle_errors const_host cd (JObj [(''isEnteringDeveloper'', JBool True), (''seat'', JStr [])]) (JObj sample_sources) = Inr []"
  by (simp add: oracle_errors_def sample_oracle_digest entering_developer_def binding_errors_def builder_pin_errors_def given_pin_def
      resolved_pin_def fld_own proto_names_def coal_text Let_def del: bnd_Inr)

end
