(* ===== verification/RuntimeHandoff.thy ===== *)
theory RuntimeHandoff
  imports Artifacts "HOL-Library.Product_Lexorder"
begin

text \<open>
  The runtime handoff of onboarding (src/lib/core/onboarding-state.mjs,
  src/lib/onboarding/runtime-handoff.mjs): the request AgentFlow hands to an agent runtime, and the
  assessment of the evidence the runtime returns. AgentFlow installs nothing itself, so the
  assessment decides from reported values only. Components of the evidence are JavaScript values;
  a normalised component is a record, whose optional fields are the ones the code sets on some
  paths. The two accumulators the code shares between its functions, \<open>errors\<close> and
  \<open>unknowns\<close>, are passed and returned.
\<close>

section \<open>Vocabulary\<close>

definition MAX_STRING_LENGTH :: nat where "MAX_STRING_LENGTH = 2048"

definition MAX_ARRAY_ITEMS :: nat where "MAX_ARRAY_ITEMS = 100"

definition CAPABILITY_CLI :: string where "CAPABILITY_CLI = ''agentflow-cli''"

definition CAPABILITY_SKILLS :: string where "CAPABILITY_SKILLS = ''agentflow-skills''"

definition REQUIRED_CAPABILITIES :: "string list" where
  "REQUIRED_CAPABILITIES = [CAPABILITY_CLI, CAPABILITY_SKILLS]"

definition PRESENCE_VALUES :: "string list" where
  "PRESENCE_VALUES = [''available'', ''missing'', ''unknown'']"

definition COMPATIBILITY_VALUES :: "string list" where
  "COMPATIBILITY_VALUES = [''compatible'', ''incompatible'', ''unknown'']"

definition OPERATION_OUTCOME_VALUES :: "string list" where
  "OPERATION_OUTCOME_VALUES = [''succeeded'', ''failed'', ''unknown'', ''not-requested'']"

definition UPDATE_DISPOSITION_VALUES :: "string list" where
  "UPDATE_DISPOSITION_VALUES = [''available'', ''current'', ''deferred'', ''unknown'']"

definition EVIDENCE_TYPE_VALUES :: "string list" where
  "EVIDENCE_TYPE_VALUES = [''declared'', ''observed'', ''unavailable'', ''unknown'']"

definition isBoundedString :: "js \<Rightarrow> bool" where
  "isBoundedString v = (case v of JStr s \<Rightarrow> js_trim s \<noteq> [] \<and> length s \<le> MAX_STRING_LENGTH | _ \<Rightarrow> False)"

lemma isBoundedString_iff: "isBoundedString v \<longleftrightarrow> (\<exists>s. v = JStr s \<and> js_trim s \<noteq> [] \<and> length s \<le> MAX_STRING_LENGTH)"
  by (cases v) (simp_all add: isBoundedString_def)

section \<open>Components\<close>

record component =
  c_id :: string
  c_presence :: string
  c_compatibility :: string
  c_outcome :: string
  c_disposition :: string
  c_evidence :: string
  c_version :: "string option"
  c_provenance :: "string option"
  c_host :: "bool option"
  c_up_evidence :: "string option"
  c_up_provenance :: "string option"
  c_available :: "string option"

record unknown_note =
  u_component :: string
  u_field :: string
  u_reason :: string

definition note_of :: "string \<Rightarrow> string \<Rightarrow> string \<Rightarrow> unknown_note" where
  "note_of c f r = \<lparr>u_component = c, u_field = f, u_reason = r\<rparr>"

text \<open>\<open>assessComponentReuse\<close>: the reasons against reuse. A normalised component has no
  \<open>kind\<close> property, so of the last test only the comparison of the id can hold.\<close>

definition reuse_reasons :: "component \<Rightarrow> string list" where
  "reuse_reasons c =
     (if c_presence c \<noteq> ''available'' then [''Presence is \"'' @ c_presence c @ ''\", expected \"available\"''] else [])
     @ (if c_compatibility c \<noteq> ''compatible''
        then [''Compatibility is \"'' @ c_compatibility c @ ''\", expected \"compatible\"''] else [])
     @ (if c_evidence c \<noteq> ''observed'' then [''Evidence type is \"'' @ c_evidence c @ ''\", expected \"observed\"''] else [])
     @ (if \<not> (case c_provenance c of None \<Rightarrow> False | Some p \<Rightarrow> isBoundedString (JStr p))
        then [''Observed evidence lacks valid bounded string provenance''] else [])
     @ (if c_outcome c \<noteq> ''succeeded'' \<and> c_outcome c \<noteq> ''not-requested''
        then [''Operation outcome is \"'' @ c_outcome c @ ''\", expected succeeded or not-requested''] else [])
     @ (if c_id c = CAPABILITY_SKILLS \<and> c_host c \<noteq> Some True
        then [''Skills host discovery is false or unverified''] else [])"

definition assessComponentReuse :: "component \<Rightarrow> bool \<times> string list" where
  "assessComponentReuse c = (reuse_reasons c = [], reuse_reasons c)"

text \<open>\<open>VALUES.includes(v) ? v : 'unknown'\<close>, and the note an unlisted value leaves.\<close>

definition listed_or_unknown :: "string list \<Rightarrow> js \<Rightarrow> string" where
  "listed_or_unknown vals v = (if one_of vals v then str_of v else ''unknown'')"

definition unlisted_note :: "host \<Rightarrow> string \<Rightarrow> string \<Rightarrow> string list \<Rightarrow> js \<Rightarrow> unknown_note list" where
  "unlisted_note h i f vals v =
     (if v \<noteq> JUndef \<and> \<not> one_of vals v
      then [note_of i f (''Invalid '' @ f @ '' \"'' @ js_string h v @ ''\"'')] else [])"

definition bounded_or_none :: "js \<Rightarrow> string option" where
  "bounded_or_none v = (if isBoundedString v then Some (str_of v) else None)"

text \<open>The id with its error.\<close>

definition normalize_id :: "js \<Rightarrow> nat \<Rightarrow> string \<times> string list" where
  "normalize_id raw index =
     (let i = (case fld raw ''id'' of JStr s \<Rightarrow> js_trim s | _ \<Rightarrow> []) in
      if i = [] \<or> MAX_STRING_LENGTH < length i
      then (if i \<noteq> [] then take MAX_STRING_LENGTH i else ''unknown-'' @ nat_str index,
            [''Component at index '' @ nat_str index @ '' has missing or out-of-bounds id''])
      else (i, []))"

text \<open>The update fields: the disposition with the notes it leaves. A claim of \<open>available\<close> or
  \<open>current\<close> that no observed release evidence backs is normalised away.\<close>

definition normalize_disposition :: "host \<Rightarrow> string \<Rightarrow> js \<Rightarrow> string \<times> unknown_note list" where
  "normalize_disposition h i raw =
     (let d = listed_or_unknown UPDATE_DISPOSITION_VALUES (fld raw ''updateDisposition'');
          notes = unlisted_note h i ''updateDisposition'' UPDATE_DISPOSITION_VALUES (fld raw ''updateDisposition'');
          verified = (fld raw ''updateEvidence'' = JStr ''observed'' \<and> bounded_or_none (fld raw ''updateProvenance'') \<noteq> None)
      in if d = ''available'' \<and> (\<not> verified \<or> bounded_or_none (fld raw ''availableVersion'') = None)
         then (''unknown'', notes @ [note_of i ''updateDisposition''
           ''Unverified \"available\" updateDisposition requires updateEvidence=\"observed\", updateProvenance, and availableVersion; normalized to \"unknown\"''])
         else if d = ''current'' \<and> \<not> verified
         then (''unknown'', notes @ [note_of i ''updateDisposition''
           ''Unverified \"current\" updateDisposition requires updateEvidence=\"observed\" and updateProvenance; normalized to \"unknown\"''])
         else (d, notes))"

definition normalize_host :: "string \<Rightarrow> js \<Rightarrow> bool option \<times> unknown_note list" where
  "normalize_host i raw =
     (let d = (if fld raw ''hostDiscovered'' \<noteq> JUndef then Some (fld raw ''hostDiscovered'' = JBool True) else None) in
      if (i = CAPABILITY_SKILLS \<or> fld raw ''kind'' = JStr ''skills'') \<and> d \<noteq> Some True
      then (Some False, [note_of i ''hostDiscovered'' ''Skills host discovery is false or unverified''])
      else (d, []))"

definition normalize_provenance :: "string \<Rightarrow> js \<Rightarrow> string option \<times> string list" where
  "normalize_provenance i raw =
     (bounded_or_none (fld raw ''provenance''),
      (if fld raw ''provenance'' \<noteq> JUndef \<and> \<not> isBoundedString (fld raw ''provenance'')
       then [''Component \"'' @ i @ ''\" provenance must be a bounded non-empty string''] else [])
      @ (if listed_or_unknown EVIDENCE_TYPE_VALUES (fld raw ''evidence'') = ''observed''
            \<and> bounded_or_none (fld raw ''provenance'') = None
         then [''Component \"'' @ i @ ''\" has observed evidence but lacks valid provenance''] else []))"

definition normalized_component :: "host \<Rightarrow> js \<Rightarrow> nat \<Rightarrow> component" where
  "normalized_component h raw index =
     (let i = fst (normalize_id raw index) in
      \<lparr>c_id = i,
       c_presence = listed_or_unknown PRESENCE_VALUES (fld raw ''presence''),
       c_compatibility = listed_or_unknown COMPATIBILITY_VALUES (fld raw ''compatibility''),
       c_outcome = listed_or_unknown OPERATION_OUTCOME_VALUES (fld raw ''operationOutcome''),
       c_disposition = fst (normalize_disposition h i raw),
       c_evidence = listed_or_unknown EVIDENCE_TYPE_VALUES (fld raw ''evidence''),
       c_version = bounded_or_none (fld raw ''version''),
       c_provenance = fst (normalize_provenance i raw),
       c_host = fst (normalize_host i raw),
       c_up_evidence = (if one_of EVIDENCE_TYPE_VALUES (fld raw ''updateEvidence'') then Some (str_of (fld raw ''updateEvidence'')) else None),
       c_up_provenance = bounded_or_none (fld raw ''updateProvenance''),
       c_available = bounded_or_none (fld raw ''availableVersion'')\<rparr>)"

definition component_notes :: "host \<Rightarrow> js \<Rightarrow> nat \<Rightarrow> unknown_note list" where
  "component_notes h raw index =
     (let i = fst (normalize_id raw index) in
      unlisted_note h i ''presence'' PRESENCE_VALUES (fld raw ''presence'')
      @ unlisted_note h i ''compatibility'' COMPATIBILITY_VALUES (fld raw ''compatibility'')
      @ unlisted_note h i ''operationOutcome'' OPERATION_OUTCOME_VALUES (fld raw ''operationOutcome'')
      @ unlisted_note h i ''evidence'' EVIDENCE_TYPE_VALUES (fld raw ''evidence'')
      @ snd (normalize_disposition h i raw)
      @ snd (normalize_host i raw))"

definition normalizeComponent ::
  "host \<Rightarrow> js \<Rightarrow> nat \<Rightarrow> string list \<Rightarrow> unknown_note list \<Rightarrow> component option \<times> string list \<times> unknown_note list" where
  "normalizeComponent h raw index errors unknowns =
     (if \<not> truthy raw \<or> \<not> typeof_object raw
      then (None, errors @ [''Component at index '' @ nat_str index @ '' must be an object''], unknowns)
      else (Some (normalized_component h raw index),
            errors @ snd (normalize_id raw index) @ snd (normalize_provenance (fst (normalize_id raw index)) raw),
            unknowns @ component_notes h raw index))"

section \<open>The runtime policy\<close>

record proposal =
  p_type :: string
  p_component :: string
  p_runtime :: js
  p_shared :: "bool option"
  p_description :: string

definition proposal_of :: "string \<Rightarrow> component \<Rightarrow> js \<Rightarrow> bool option \<Rightarrow> string \<Rightarrow> proposal" where
  "proposal_of t c request sh d = \<lparr>p_type = t, p_component = c_id c, p_runtime = fld request ''runtimeId'', p_shared = sh, p_description = d\<rparr>"

definition unknown_component :: "string \<Rightarrow> component" where
  "unknown_component cap = \<lparr>c_id = cap, c_presence = ''unknown'', c_compatibility = ''unknown'', c_outcome = ''not-requested'',
     c_disposition = ''unknown'', c_evidence = ''unknown'', c_version = None, c_provenance = None, c_host = None,
     c_up_evidence = None, c_up_provenance = None, c_available = None\<rparr>"

text \<open>The loop over the required capabilities: one unknown component for each that was not reported.\<close>

definition missing_capabilities :: "component list \<Rightarrow> string list" where
  "missing_capabilities cs = filter (\<lambda>cap. cap \<notin> c_id ` set cs) REQUIRED_CAPABILITIES"

definition missing_note :: "string \<Rightarrow> unknown_note" where
  "missing_note cap = note_of cap ''presence''
     (''Required capability \"'' @ cap @ ''\" was missing from runtime evidence (status unknown)'')"

definition assessed_components :: "component list \<Rightarrow> component list" where
  "assessed_components cs = cs @ map unknown_component (missing_capabilities cs)"

record policy_state =
  ps_reusable :: bool
  ps_unknown :: bool
  ps_install :: bool
  ps_upgrade :: bool
  ps_proposals :: "proposal list"
  ps_unknowns :: "unknown_note list"

definition propose_for :: "js \<Rightarrow> component \<Rightarrow> policy_state \<Rightarrow> policy_state" where
  "propose_for request c st =
     (let add = (\<lambda>p st'. st'\<lparr>ps_proposals := ps_proposals st' @ [p]\<rparr>) in
      if c_presence c = ''missing'' \<and> c_evidence c = ''observed''
      then add (proposal_of ''install'' c request None
             (''Install missing capability \"'' @ c_id c @ ''\" via runtime-managed installation'')) (st\<lparr>ps_install := True\<rparr>)
      else if c_compatibility c = ''incompatible'' \<and> c_evidence c = ''observed''
      then add (proposal_of ''upgrade'' c request None
             (''Incompatible version detected for \"'' @ c_id c @ ''\"; upgrade required'')) (st\<lparr>ps_upgrade := True\<rparr>)
      else if c_disposition c = ''available''
      then add (proposal_of ''update'' c request (Some (truthy (fld request ''sharedUpdate'')))
             (''Verified newer release available for \"'' @ c_id c @ ''\"'')) st
      else if c_disposition c = ''deferred''
      then add (proposal_of ''deferred-update'' c request None
             (''Compatible version retained for \"'' @ c_id c @ ''\"; update deferred'')) st
      else st)"

definition policy_step :: "js \<Rightarrow> policy_state \<Rightarrow> component \<Rightarrow> policy_state" where
  "policy_step request st c =
     (let st1 = (if c_id c \<in> set REQUIRED_CAPABILITIES \<and> \<not> fst (assessComponentReuse c)
                 then st\<lparr>ps_reusable := False\<rparr> else st) in
      if c_outcome c = ''unknown''
      then st1\<lparr>ps_unknown := True,
               ps_unknowns := ps_unknowns st1 @ [note_of (c_id c) ''operationOutcome''
                 (''Ambiguous external outcome for component \"'' @ c_id c @ ''\" requires reconciliation before retry'')]\<rparr>
      else propose_for request c st1)"

text \<open>The first note of every key \<open>componentId:field:reason\<close>.\<close>

definition note_key :: "unknown_note \<Rightarrow> string" where
  "note_key u = u_component u @ '':'' @ u_field u @ '':'' @ u_reason u"

fun unique_notes :: "string set \<Rightarrow> unknown_note list \<Rightarrow> unknown_note list" where
  "unique_notes seen [] = []"
| "unique_notes seen (u # us) =
     (if note_key u \<in> seen then unique_notes seen us else u # unique_notes (insert (note_key u) seen) us)"

record evaluation =
  e_ready :: bool
  e_action :: string
  e_components :: "component list"
  e_proposals :: "proposal list"
  e_unknowns :: "unknown_note list"
  e_errors :: "string list"

definition policy_action :: "string list \<Rightarrow> policy_state \<Rightarrow> bool \<Rightarrow> string" where
  "policy_action errors st ready =
     (if errors \<noteq> [] \<or> ps_unknown st then ''reconcile''
      else if \<not> ready then (if ps_install st then ''install'' else if ps_upgrade st then ''upgrade'' else ''reconcile'')
      else ''ready'')"

definition evaluateRuntimePolicy ::
  "js \<Rightarrow> component list \<Rightarrow> string list \<Rightarrow> unknown_note list \<Rightarrow> evaluation" where
  "evaluateRuntimePolicy request cs errors unknowns =
     (let st = foldl (policy_step request)
             \<lparr>ps_reusable = True, ps_unknown = False, ps_install = False, ps_upgrade = False, ps_proposals = [],
              ps_unknowns = unknowns @ map missing_note (missing_capabilities cs)\<rparr> (assessed_components cs);
          ready = (errors = [] \<and> ps_reusable st \<and> \<not> ps_unknown st)
      in \<lparr>e_ready = ready,
          e_action = policy_action errors st ready,
          e_components = filter (\<lambda>c. c_id c \<in> set REQUIRED_CAPABILITIES) (assessed_components cs),
          e_proposals = (if errors \<noteq> [] then []
             else map (\<lambda>p. p\<lparr>p_description := take MAX_STRING_LENGTH (p_description p)\<rparr>) (take MAX_ARRAY_ITEMS (ps_proposals st))),
          e_unknowns = map (\<lambda>u. u\<lparr>u_reason := take MAX_STRING_LENGTH (u_reason u)\<rparr>)
             (take MAX_ARRAY_ITEMS (unique_notes {} (ps_unknowns st))),
          e_errors = take MAX_ARRAY_ITEMS errors\<rparr>)"

section \<open>The request\<close>

definition required_capabilities_js :: js where
  "required_capabilities_js = JArr
     [JObj [(''id'', JStr CAPABILITY_CLI), (''kind'', JStr ''cli''),
            (''description'', JStr ''AgentFlow CLI executable and core command interface'')],
      JObj [(''id'', JStr CAPABILITY_SKILLS), (''kind'', JStr ''skills''),
            (''description'', JStr ''AgentFlow skills guidance and runtime catalog'')]]"

definition trimmed :: "js \<Rightarrow> js" where
  "trimmed v = JStr (js_trim (str_of v))"

definition runtime_request :: "js \<Rightarrow> js \<Rightarrow> js list \<Rightarrow> js \<Rightarrow> js" where
  "runtime_request reqid runtimeId additional shared =
     JObj [(''schemaVersion'', JNat 1), (''requestId'', reqid), (''runtimeId'', trimmed runtimeId),
       (''additionalRuntimes'', JArr (map trimmed additional)), (''sharedUpdate'', shared), (''assessUpdates'', JBool True),
       (''requiredCapabilities'', required_capabilities_js),
       (''instructions'', JObj [(''installationAuthority'', JStr ''runtime''), (''updateAssessmentRequired'', JBool True),
          (''policy'', JStr ''Runtime controls installation methods, paths, and host discovery. AgentFlow does not execute host installation.'')])]"

text \<open>The properties of the destructured argument; \<open>uuid\<close> is what \<open>randomUUID()\<close> returns. A
  \<open>RangeError\<close> is an \<open>Error\<close>.\<close>

definition buildRuntimeRequest :: "string \<Rightarrow> js \<Rightarrow> js \<Rightarrow> js \<Rightarrow> js \<Rightarrow> js res" where
  "buildRuntimeRequest uuid runtimeId additionalRuntimes0 sharedUpdate0 requestId =
     (let additional = js_default additionalRuntimes0 (JArr []); shared = js_default sharedUpdate0 (JBool False) in
      if \<not> isBoundedString runtimeId then Inl (TypeError ''runtimeId is required and must be a bounded non-empty string'')
      else if \<not> is_array additional then Inl (TypeError ''additionalRuntimes must be an array'')
      else if MAX_ARRAY_ITEMS < length (elems additional)
      then fail ''additionalRuntimes exceeds maximum array bound of 100''
      else if \<not> list_all isBoundedString (elems additional)
      then Inl (TypeError ''Each additionalRuntime must be a bounded non-empty string'')
      else if \<not> is_bool shared then Inl (TypeError ''sharedUpdate must be a boolean'')
      else if \<not> nullish requestId \<and> \<not> isBoundedString requestId
      then Inl (TypeError ''requestId must be a bounded non-empty string'')
      else Inr (runtime_request (if nullish requestId then JStr uuid else requestId) runtimeId (elems additional) shared))"

section \<open>The assessment\<close>

text \<open>\<open>xs.sort()\<close>: by the string of each value, \<open>undefined\<close> last, stable.\<close>

definition sorted_values :: "host \<Rightarrow> js list \<Rightarrow> js list" where
  "sorted_values h xs = sort_key (\<lambda>v. (v = JUndef, js_string h v)) xs"

definition capability_ids :: "host \<Rightarrow> js list \<Rightarrow> js list" where
  "capability_ids h caps = sorted_values h (map (\<lambda>c. if truthy c then fld c ''id'' else c) caps)"

definition expected_ids :: "host \<Rightarrow> js list" where
  "expected_ids h = sorted_values h (map JStr REQUIRED_CAPABILITIES)"

definition checkRequest :: "host \<Rightarrow> js \<Rightarrow> unit res" where
  "checkRequest h request =
     (let rf = fld request; stop = (\<lambda>m. Inl (TypeError m)) in
      if \<not> truthy request \<or> \<not> typeof_object request then stop ''request must be an object''
      else if \<not> js_eq (rf ''schemaVersion'') (JNat 1) then stop ''request.schemaVersion must be 1''
      else if rf ''assessUpdates'' \<noteq> JBool True then stop ''request.assessUpdates must be true''
      else if \<not> isBoundedString (rf ''runtimeId'') then stop ''request.runtimeId must be a bounded non-empty string''
      else if \<not> isBoundedString (rf ''requestId'') then stop ''request.requestId must be a bounded non-empty string''
      else if \<not> is_bool (rf ''sharedUpdate'') then stop ''request.sharedUpdate must be a boolean''
      else if \<not> is_array (rf ''additionalRuntimes'') \<or> MAX_ARRAY_ITEMS < length (elems (rf ''additionalRuntimes''))
      then fail ''request.additionalRuntimes must be an array <= 100 items''
      else if \<not> list_all isBoundedString (elems (rf ''additionalRuntimes'')) then stop ''Invalid additional runtime identifiers''
      else if \<not> is_array (rf ''requiredCapabilities'') \<or> length (elems (rf ''requiredCapabilities'')) \<noteq> length REQUIRED_CAPABILITIES
      then stop ''request.requiredCapabilities is invalid or altered''
      else if \<not> list_all2 js_eq (capability_ids h (elems (rf ''requiredCapabilities''))) (expected_ids h)
      then stop ''request.requiredCapabilities cannot be altered''
      else Inr ())"

definition header_errors :: "host \<Rightarrow> js \<Rightarrow> js \<Rightarrow> string list" where
  "header_errors h request evidence =
     (let rf = fld request; ef = fld evidence in
      (if \<not> js_eq (ef ''schemaVersion'') (JNat 1)
       then [''Evidence schemaVersion must be 1; received '' @ js_string h (ef ''schemaVersion'')] else [])
      @ (if \<not> js_eq (ef ''requestId'') (rf ''requestId'')
         then [''Evidence requestId \"'' @ js_string h (ef ''requestId'') @ ''\" does not match request requestId \"''
               @ js_string h (rf ''requestId'') @ ''\"''] else [])
      @ (if \<not> js_eq (ef ''runtimeId'') (rf ''runtimeId'')
         then [''Evidence runtimeId \"'' @ js_string h (ef ''runtimeId'') @ ''\" does not match request runtimeId \"''
               @ js_string h (rf ''runtimeId'') @ ''\"''] else []))"

text \<open>The loop that looks for duplicate ids (entries without a string id are skipped).\<close>

fun duplicate_errors :: "string set \<Rightarrow> js list \<Rightarrow> string list" where
  "duplicate_errors seen [] = []"
| "duplicate_errors seen (raw # raws) =
     (case (if truthy raw then fld raw ''id'' else JUndef) of
        JStr s \<Rightarrow> (if js_trim s \<in> seen then [''Duplicate capability id \"'' @ js_trim s @ ''\" is invalid''] else [])
                  @ duplicate_errors (insert (js_trim s) seen) raws
      | _ \<Rightarrow> duplicate_errors seen raws)"

text \<open>\<open>components.map((c, idx) => normalizeComponent(c, idx, errors, unknowns)).filter(Boolean)\<close>\<close>

fun normalize_all :: "host \<Rightarrow> nat \<Rightarrow> js list \<Rightarrow> string list \<Rightarrow> unknown_note list \<Rightarrow> component list \<times> string list \<times> unknown_note list" where
  "normalize_all h i [] errors unknowns = ([], errors, unknowns)"
| "normalize_all h i (raw # raws) errors unknowns =
     (case normalizeComponent h raw i errors unknowns of (c, errors1, unknowns1) \<Rightarrow>
      case normalize_all h (Suc i) raws errors1 unknowns1 of (cs, errors2, unknowns2) \<Rightarrow>
        ((case c of None \<Rightarrow> cs | Some c' \<Rightarrow> c' # cs), errors2, unknowns2))"

definition reported_components :: "host \<Rightarrow> js \<Rightarrow> string list \<Rightarrow> component list \<times> string list \<times> unknown_note list" where
  "reported_components h v errors =
     (case v of
        JArr raws \<Rightarrow>
          if MAX_ARRAY_ITEMS < length raws then ([], errors @ [''Evidence components length exceeds 100''], [])
          else normalize_all h 0 raws (errors @ duplicate_errors {} raws) []
      | _ \<Rightarrow> ([], errors @ [''Evidence components must be an array''], []))"

record runtime_report =
  rr_request :: js
  rr_runtime :: js
  rr_ready :: bool
  rr_action :: string
  rr_components :: "component list"
  rr_proposals :: "proposal list"
  rr_unknowns :: "unknown_note list"
  rr_additional :: js
  rr_shared :: bool
  rr_errors :: "string list"

definition report_of :: "js \<Rightarrow> evaluation \<Rightarrow> runtime_report" where
  "report_of request e =
     \<lparr>rr_request = fld request ''requestId'', rr_runtime = fld request ''runtimeId'', rr_ready = e_ready e, rr_action = e_action e,
      rr_components = e_components e, rr_proposals = e_proposals e, rr_unknowns = e_unknowns e,
      rr_additional = (if truthy (fld request ''additionalRuntimes'') then fld request ''additionalRuntimes'' else JArr []),
      rr_shared = truthy (fld request ''sharedUpdate''), rr_errors = e_errors e\<rparr>"

definition no_evidence :: evaluation where
  "no_evidence = \<lparr>e_ready = False, e_action = ''reconcile'', e_components = [], e_proposals = [],
     e_unknowns = [note_of ''all'' ''evidence'' ''Evidence is missing or not an object''],
     e_errors = [''Evidence must be a non-null object'']\<rparr>"

definition assess_evidence :: "host \<Rightarrow> js \<Rightarrow> js \<Rightarrow> evaluation" where
  "assess_evidence h request evidence =
     (case reported_components h (fld evidence ''components'') (header_errors h request evidence) of
        (cs, errors, unknowns) \<Rightarrow> evaluateRuntimePolicy request cs errors unknowns)"

definition assessRuntimeEvidence :: "host \<Rightarrow> js \<Rightarrow> js \<Rightarrow> runtime_report res" where
  "assessRuntimeEvidence h request evidence = bnd (checkRequest h request) (\<lambda>_.
     Inr (report_of request
       (if \<not> truthy evidence \<or> \<not> typeof_object evidence then no_evidence else assess_evidence h request evidence)))"


section \<open>Accumulated errors\<close>

text \<open>What an entry of the evidence must be for the normaliser to add no error.\<close>

definition well_formed_entry :: "js \<Rightarrow> bool" where
  "well_formed_entry raw =
     (truthy raw \<and> typeof_object raw
      \<and> is_string (fld raw ''id'') \<and> js_trim (str_of (fld raw ''id'')) \<noteq> []
      \<and> length (js_trim (str_of (fld raw ''id''))) \<le> MAX_STRING_LENGTH
      \<and> (fld raw ''provenance'' = JUndef \<or> isBoundedString (fld raw ''provenance''))
      \<and> (fld raw ''evidence'' = JStr ''observed'' \<longrightarrow> isBoundedString (fld raw ''provenance'')))"

definition entry_id :: "js \<Rightarrow> string" where
  "entry_id raw = js_trim (str_of (fld raw ''id''))"

lemma one_of_str_of: "one_of vals v \<Longrightarrow> v = JStr (str_of v)"
  by (auto simp: one_of_iff)

lemma listed_or_unknown_eq:
  "s \<noteq> ''unknown'' \<Longrightarrow> listed_or_unknown vals v = s \<longleftrightarrow> v = JStr s \<and> s \<in> set vals"
  by (auto simp: listed_or_unknown_def one_of_iff)

lemma bounded_or_none_simps [simp]:
  "bounded_or_none v = None \<longleftrightarrow> \<not> isBoundedString v"
  "bounded_or_none v = Some s \<longleftrightarrow> v = JStr s \<and> isBoundedString v"
  by (auto simp: bounded_or_none_def isBoundedString_iff)

lemma normalize_id_errors:
  "snd (normalize_id raw i) = [] \<longleftrightarrow>
     is_string (fld raw ''id'') \<and> entry_id raw \<noteq> [] \<and> length (entry_id raw) \<le> MAX_STRING_LENGTH"
  by (cases "fld raw ''id''") (simp_all add: normalize_id_def entry_id_def Let_def)

lemma normalize_id_ok: "snd (normalize_id raw i) = [] \<Longrightarrow> fst (normalize_id raw i) = entry_id raw"
  by (cases "fld raw ''id''") (simp_all add: normalize_id_def entry_id_def Let_def split: if_splits)

lemma normalize_provenance_errors:
  "snd (normalize_provenance i raw) = [] \<longleftrightarrow>
     (fld raw ''provenance'' = JUndef \<or> isBoundedString (fld raw ''provenance''))
     \<and> (fld raw ''evidence'' = JStr ''observed'' \<longrightarrow> isBoundedString (fld raw ''provenance''))"
  by (auto simp: normalize_provenance_def listed_or_unknown_eq EVIDENCE_TYPE_VALUES_def)

lemma normalizeComponent_errors:
  "normalizeComponent h raw i errors us = (c, [], us') \<longleftrightarrow>
     well_formed_entry raw \<and> errors = [] \<and> c = Some (normalized_component h raw i) \<and> us' = us @ component_notes h raw i"
  by (auto simp: normalizeComponent_def well_formed_entry_def normalize_id_errors normalize_provenance_errors entry_id_def)

lemma normalized_id: "well_formed_entry raw \<Longrightarrow> c_id (normalized_component h raw i) = entry_id raw"
  by (simp add: normalized_component_def well_formed_entry_def normalize_id_errors normalize_id_ok entry_id_def Let_def)

lemma normalize_all_errors:
  "(\<exists>cs us'. normalize_all h i raws errors us = (cs, [], us')) \<longleftrightarrow> errors = [] \<and> list_all well_formed_entry raws"
proof (induction raws arbitrary: i errors us)
  case Nil
  show ?case by simp
next
  case (Cons raw raws)
  obtain c e1 u1 where one: "normalizeComponent h raw i errors us = (c, e1, u1)" by (metis prod_cases3)
  have "(\<exists>cs us'. normalize_all h i (raw # raws) errors us = (cs, [], us'))
    \<longleftrightarrow> (\<exists>cs us'. normalize_all h (Suc i) raws e1 u1 = (cs, [], us'))"
    by (simp add: one split: prod.splits)
  also have "\<dots> \<longleftrightarrow> e1 = [] \<and> list_all well_formed_entry raws" by (rule Cons.IH)
  also have "\<dots> \<longleftrightarrow> errors = [] \<and> list_all well_formed_entry (raw # raws)"
    using one normalizeComponent_errors [of h raw i errors us c u1]
    by (auto simp: normalizeComponent_def well_formed_entry_def normalize_id_errors normalize_provenance_errors entry_id_def
        split: if_splits)
  finally show ?case .
qed

lemma normalize_all_components:
  assumes "list_all well_formed_entry raws"
  shows "fst (normalize_all h i raws errors us) = map (\<lambda>(k, raw). normalized_component h raw k) (enumerate i raws)"
  using assms
proof (induction raws arbitrary: i errors us)
  case (Cons raw raws)
  then have "fst (normalizeComponent h raw i errors us) = Some (normalized_component h raw i)"
    by (simp add: normalizeComponent_def well_formed_entry_def)
  with Cons show ?case by (simp add: case_prod_beta)
qed simp

lemma duplicate_errors_iff:
  assumes "list_all well_formed_entry raws"
  shows "duplicate_errors seen raws = [] \<longleftrightarrow> distinct (map entry_id raws) \<and> entry_id ` set raws \<inter> seen = {}"
  using assms
proof (induction raws arbitrary: seen)
  case (Cons raw raws)
  from Cons.prems obtain s where s: "fld raw ''id'' = JStr s" and t: "truthy raw"
    by (cases "fld raw ''id''") (auto simp: well_formed_entry_def)
  with Cons show ?case by (auto simp: entry_id_def)
qed simp

section \<open>The policy as a fold\<close>

lemma policy_step_flags:
  "ps_reusable (policy_step r st c) \<longleftrightarrow> ps_reusable st \<and> (c_id c \<in> set REQUIRED_CAPABILITIES \<longrightarrow> reuse_reasons c = [])"
  "ps_unknown (policy_step r st c) \<longleftrightarrow> ps_unknown st \<or> c_outcome c = ''unknown''"
  by (auto simp: policy_step_def propose_for_def assessComponentReuse_def Let_def)

lemma policy_fold_flags:
  "ps_reusable (foldl (policy_step r) st cs) \<longleftrightarrow>
     ps_reusable st \<and> (\<forall>c\<in>set cs. c_id c \<in> set REQUIRED_CAPABILITIES \<longrightarrow> reuse_reasons c = [])"
  "ps_unknown (foldl (policy_step r) st cs) \<longleftrightarrow> ps_unknown st \<or> (\<exists>c\<in>set cs. c_outcome c = ''unknown'')"
  by (induction cs arbitrary: st) (auto simp: policy_step_flags)

text \<open>The grounds of a proposal in the component it is for.\<close>

definition grounded :: "js \<Rightarrow> component \<Rightarrow> proposal \<Rightarrow> bool" where
  "grounded r c p =
     (p_component p = c_id c \<and> p_runtime p = fld r ''runtimeId'' \<and> c_outcome c \<noteq> ''unknown''
      \<and> ((p_type p = ''install'' \<and> c_presence c = ''missing'' \<and> c_evidence c = ''observed'')
         \<or> (p_type p = ''upgrade'' \<and> c_compatibility c = ''incompatible'' \<and> c_evidence c = ''observed'')
         \<or> (p_type p = ''update'' \<and> c_disposition c = ''available'')
         \<or> (p_type p = ''deferred-update'' \<and> c_disposition c = ''deferred'')))"

lemma policy_step_proposals:
  "ps_proposals (policy_step r st c) = ps_proposals st \<or> (\<exists>p. ps_proposals (policy_step r st c) = ps_proposals st @ [p] \<and> grounded r c p)"
  by (simp add: policy_step_def propose_for_def proposal_of_def grounded_def Let_def)

lemma policy_fold_proposals:
  "p \<in> set (ps_proposals (foldl (policy_step r) st cs)) \<Longrightarrow> p \<in> set (ps_proposals st) \<or> (\<exists>c\<in>set cs. grounded r c p)"
proof (induction cs arbitrary: st)
  case (Cons c cs)
  from Cons.IH [of "policy_step r st c"] Cons.prems policy_step_proposals [of r st c] show ?case by auto
qed simp

lemma unknown_component_idle:
  "c_id (unknown_component cap) = cap" "c_outcome (unknown_component cap) = ''not-requested''"
  "\<not> grounded r (unknown_component cap) p" "reuse_reasons (unknown_component cap) \<noteq> []"
  by (simp_all add: grounded_def unknown_component_def reuse_reasons_def)

lemma assessed_set: "set (assessed_components cs) = set cs \<union> unknown_component ` (set REQUIRED_CAPABILITIES - c_id ` set cs)"
  by (auto simp: assessed_components_def missing_capabilities_def)

lemma e_ready_iff:
  "e_ready (evaluateRuntimePolicy r cs errors us) \<longleftrightarrow>
     errors = [] \<and> set REQUIRED_CAPABILITIES \<subseteq> c_id ` set cs
     \<and> (\<forall>c\<in>set cs. c_outcome c \<noteq> ''unknown'' \<and> (c_id c \<in> set REQUIRED_CAPABILITIES \<longrightarrow> reuse_reasons c = []))"
  by (auto simp: evaluateRuntimePolicy_def Let_def policy_fold_flags assessed_set unknown_component_idle ball_Un)

lemma e_action_cases:
  "e_action (evaluateRuntimePolicy r cs errors us) = ''ready'' \<longleftrightarrow> e_ready (evaluateRuntimePolicy r cs errors us)"
  "errors \<noteq> [] \<Longrightarrow> e_action (evaluateRuntimePolicy r cs errors us) = ''reconcile''"
  by (auto simp: evaluateRuntimePolicy_def policy_action_def Let_def)

lemma e_proposals_grounded:
  assumes "p \<in> set (e_proposals (evaluateRuntimePolicy r cs errors us))"
  shows "errors = [] \<and> (\<exists>c\<in>set cs. grounded r c p)"
proof -
  from assms have e: "errors = []" by (auto simp: evaluateRuntimePolicy_def Let_def split: if_splits)
  with assms obtain q st where q: "q \<in> set (ps_proposals (foldl (policy_step r) st (assessed_components cs)))"
      "ps_proposals st = []" "p = q\<lparr>p_description := take MAX_STRING_LENGTH (p_description q)\<rparr>"
    by (auto simp: evaluateRuntimePolicy_def Let_def dest!: in_set_takeD)
  from policy_fold_proposals [OF q(1)] q(2) obtain c where "c \<in> set (assessed_components cs)" "grounded r c q" by auto
  with q(3) e unknown_component_idle show ?thesis by (auto simp: assessed_set grounded_def)
qed

lemma evaluation_bounds:
  "length (e_proposals (evaluateRuntimePolicy r cs errors us)) \<le> MAX_ARRAY_ITEMS"
  "length (e_unknowns (evaluateRuntimePolicy r cs errors us)) \<le> MAX_ARRAY_ITEMS"
  "length (e_errors (evaluateRuntimePolicy r cs errors us)) \<le> MAX_ARRAY_ITEMS"
  "list_all (\<lambda>p. length (p_description p) \<le> MAX_STRING_LENGTH) (e_proposals (evaluateRuntimePolicy r cs errors us))"
  "list_all (\<lambda>u. length (u_reason u) \<le> MAX_STRING_LENGTH) (e_unknowns (evaluateRuntimePolicy r cs errors us))"
  by (auto simp: evaluateRuntimePolicy_def Let_def list_all_iff)


section \<open>What the verdict means\<close>

text \<open>An entry that vouches for its capability.\<close>

definition vouching :: "js \<Rightarrow> bool" where
  "vouching raw =
     (fld raw ''presence'' = JStr ''available'' \<and> fld raw ''compatibility'' = JStr ''compatible''
      \<and> fld raw ''evidence'' = JStr ''observed'' \<and> isBoundedString (fld raw ''provenance'')
      \<and> one_of [''succeeded'', ''not-requested''] (fld raw ''operationOutcome'')
      \<and> (entry_id raw = CAPABILITY_SKILLS \<longrightarrow> fld raw ''hostDiscovered'' = JBool True))"

text \<open>The contract of a ready runtime, over the evidence alone.\<close>

definition runtime_vouched :: "js \<Rightarrow> js \<Rightarrow> bool" where
  "runtime_vouched request evidence =
     (truthy evidence \<and> typeof_object evidence
      \<and> fld evidence ''schemaVersion'' = JNat 1
      \<and> js_eq (fld evidence ''requestId'') (fld request ''requestId'')
      \<and> js_eq (fld evidence ''runtimeId'') (fld request ''runtimeId'')
      \<and> (case fld evidence ''components'' of
          JArr raws \<Rightarrow> length raws \<le> MAX_ARRAY_ITEMS \<and> list_all well_formed_entry raws \<and> distinct (map entry_id raws)
            \<and> list_all (\<lambda>raw. one_of [''succeeded'', ''failed'', ''not-requested''] (fld raw ''operationOutcome'')) raws
            \<and> list_all (\<lambda>cap. list_ex (\<lambda>raw. entry_id raw = cap \<and> vouching raw) raws) REQUIRED_CAPABILITIES
        | _ \<Rightarrow> False))"

lemma reuse_reasons_normalized:
  assumes "well_formed_entry raw"
  shows "reuse_reasons (normalized_component h raw k) = [] \<longleftrightarrow> vouching raw"
proof -
  have i: "fst (normalize_id raw k) = entry_id raw"
    using assms by (simp add: well_formed_entry_def normalize_id_errors normalize_id_ok entry_id_def)
  have p: "(case bounded_or_none v of None \<Rightarrow> False | Some q \<Rightarrow> isBoundedString (JStr q)) \<longleftrightarrow> isBoundedString v" for v
    by (auto simp: bounded_or_none_def isBoundedString_iff)
  have o: "listed_or_unknown OPERATION_OUTCOME_VALUES v = ''succeeded'' \<or> listed_or_unknown OPERATION_OUTCOME_VALUES v = ''not-requested''
      \<longleftrightarrow> one_of [''succeeded'', ''not-requested''] v" for v
    by (auto simp: listed_or_unknown_eq OPERATION_OUTCOME_VALUES_def one_of_iff)
  have u: "fst (normalize_host CAPABILITY_SKILLS raw) = Some True \<longleftrightarrow> fld raw ''hostDiscovered'' = JBool True"
    by (auto simp: normalize_host_def Let_def)
  show ?thesis
    using o [of "fld raw ''operationOutcome''"]
    by (auto simp: reuse_reasons_def normalized_component_def Let_def i p u vouching_def listed_or_unknown_eq
        normalize_provenance_def PRESENCE_VALUES_def COMPATIBILITY_VALUES_def EVIDENCE_TYPE_VALUES_def)
qed

lemma outcome_normalized:
  "c_outcome (normalized_component h raw k) \<noteq> ''unknown''
     \<longleftrightarrow> one_of [''succeeded'', ''failed'', ''not-requested''] (fld raw ''operationOutcome'')"
  by (auto simp: normalized_component_def Let_def listed_or_unknown_def one_of_iff OPERATION_OUTCOME_VALUES_def)

lemma normalized_set:
  "set (map (\<lambda>(k, raw). normalized_component h raw k) (enumerate 0 raws)) =
     (\<lambda>k. normalized_component h (raws ! k) k) ` {..<length raws}"
proof -
  have "set (enumerate 0 raws) = (\<lambda>k. (k, raws ! k)) ` {..<length raws}"
    by (auto simp: in_set_enumerate_eq image_iff)
  then show ?thesis by (simp add: image_image)
qed

text \<open>The errors of the evidence.\<close>

lemma header_errors_iff:
  "header_errors h request evidence = [] \<longleftrightarrow> fld evidence ''schemaVersion'' = JNat 1
     \<and> js_eq (fld evidence ''requestId'') (fld request ''requestId'') \<and> js_eq (fld evidence ''runtimeId'') (fld request ''runtimeId'')"
  by (simp add: header_errors_def Let_def)

lemma reported_errors:
  assumes "reported_components h v errors = (cs, [], us)"
  shows "\<exists>raws. v = JArr raws \<and> errors = [] \<and> length raws \<le> MAX_ARRAY_ITEMS \<and> list_all well_formed_entry raws
    \<and> distinct (map entry_id raws) \<and> cs = map (\<lambda>(k, raw). normalized_component h raw k) (enumerate 0 raws)"
proof -
  from assms obtain raws where v: "v = JArr raws" "length raws \<le> MAX_ARRAY_ITEMS"
      and n: "normalize_all h 0 raws (errors @ duplicate_errors {} raws) [] = (cs, [], us)"
    by (auto simp: reported_components_def split: js.splits if_splits)
  then have e: "errors @ duplicate_errors {} raws = []" "list_all well_formed_entry raws"
    using normalize_all_errors [of h 0 raws "errors @ duplicate_errors {} raws" "[]"] by auto
  with n v show ?thesis
    using normalize_all_components [of raws h 0 "[]" "[]"] duplicate_errors_iff [of raws "{}"] by auto
qed

lemma reported_no_errors:
  assumes "length raws \<le> MAX_ARRAY_ITEMS" "list_all well_formed_entry raws" "distinct (map entry_id raws)"
  shows "\<exists>us. reported_components h (JArr raws) [] = (map (\<lambda>(k, raw). normalized_component h raw k) (enumerate 0 raws), [], us)"
proof -
  have d: "duplicate_errors {} raws = []" using assms duplicate_errors_iff by auto
  obtain cs us where "normalize_all h 0 raws [] [] = (cs, [], us)"
    using normalize_all_errors [of h 0 raws "[]" "[]"] assms(2) by auto
  moreover have "cs = map (\<lambda>(k, raw). normalized_component h raw k) (enumerate 0 raws)"
    using normalize_all_components [OF assms(2), of h 0 "[]" "[]"] calculation by simp
  ultimately show ?thesis using assms(1) d by (simp add: reported_components_def)
qed

lemma well_formed_facts:
  assumes "list_all well_formed_entry raws" "k < length raws"
  shows "c_id (normalized_component h (raws ! k) k) = entry_id (raws ! k)"
    and "reuse_reasons (normalized_component h (raws ! k) k) = [] \<longleftrightarrow> vouching (raws ! k)"
  using assms by (auto simp: list_all_length normalized_id reuse_reasons_normalized)

text \<open>With distinct ids, every capability reported and every report of one vouching is one vouching
  report per capability.\<close>

lemma ready_components:
  assumes wf: "list_all well_formed_entry raws" and d: "distinct (map entry_id raws)"
    and cs: "cs = map (\<lambda>(k, raw). normalized_component h raw k) (enumerate 0 raws)"
  shows "(set caps \<subseteq> c_id ` set cs \<and> (\<forall>c\<in>set cs. c_outcome c \<noteq> ''unknown'' \<and> (c_id c \<in> set caps \<longrightarrow> reuse_reasons c = [])))
    \<longleftrightarrow> list_all (\<lambda>raw. one_of [''succeeded'', ''failed'', ''not-requested''] (fld raw ''operationOutcome'')) raws
        \<and> list_all (\<lambda>cap. list_ex (\<lambda>raw. entry_id raw = cap \<and> vouching raw) raws) caps"
    (is "?l \<longleftrightarrow> ?o \<and> ?v")
proof -
  have ids: "c_id ` set cs = entry_id ` set raws"
  proof -
    have r: "set raws = (\<lambda>k. raws ! k) ` {..<length raws}" by (auto simp: set_conv_nth)
    show ?thesis unfolding cs normalized_set r image_image by (intro image_cong) (auto simp: well_formed_facts [OF wf])
  qed
  have all: "(\<forall>c\<in>set cs. P c) \<longleftrightarrow> (\<forall>k<length raws. P (normalized_component h (raws ! k) k))" for P
    unfolding cs normalized_set by auto
  have "?l \<longleftrightarrow> ?o \<and> set caps \<subseteq> entry_id ` set raws \<and> (\<forall>raw\<in>set raws. entry_id raw \<in> set caps \<longrightarrow> vouching raw)"
    unfolding ids all by (simp add: well_formed_facts [OF wf] outcome_normalized list_all_iff all_set_conv_all_nth ball_conj_distrib) blast
  also have "\<dots> \<longleftrightarrow> ?o \<and> ?v"
  proof -
    have "raw = raw'" if "raw \<in> set raws" "raw' \<in> set raws" "entry_id raw = entry_id raw'" for raw raw'
      using d that by (auto simp: distinct_map inj_on_def)
    then show ?thesis by (auto simp: list_all_iff list_ex_iff subset_iff image_iff) metis+
  qed
  finally show ?thesis .
qed

lemma e_ready_vouched:
  assumes "truthy evidence" "typeof_object evidence"
  shows "e_ready (assess_evidence h request evidence) \<longleftrightarrow> runtime_vouched request evidence"
proof -
  obtain cs errors us where r: "reported_components h (fld evidence ''components'') (header_errors h request evidence) = (cs, errors, us)"
    by (metis prod_cases3)
  have e: "e_ready (assess_evidence h request evidence) \<longleftrightarrow> e_ready (evaluateRuntimePolicy request cs errors us)"
    by (simp add: assess_evidence_def r)
  show ?thesis
  proof (cases "errors = []")
    case True
    with reported_errors r obtain raws where *: "fld evidence ''components'' = JArr raws" "header_errors h request evidence = []"
        "length raws \<le> MAX_ARRAY_ITEMS" "list_all well_formed_entry raws" "distinct (map entry_id raws)"
        "cs = map (\<lambda>(k, raw). normalized_component h raw k) (enumerate 0 raws)" by blast
    then show ?thesis
      using True assms ready_components [OF *(4,5,6), of REQUIRED_CAPABILITIES]
      unfolding e e_ready_iff runtime_vouched_def by (simp add: header_errors_iff)
  next
    case False
    have "\<not> runtime_vouched request evidence"
    proof
      assume v: "runtime_vouched request evidence"
      then obtain raws where *: "fld evidence ''components'' = JArr raws" "length raws \<le> MAX_ARRAY_ITEMS"
          "list_all well_formed_entry raws" "distinct (map entry_id raws)"
        by (auto simp: runtime_vouched_def split: js.splits)
      from v have "header_errors h request evidence = []" by (simp add: header_errors_iff runtime_vouched_def)
      with r * reported_no_errors [OF *(2,3,4), of h] False show False by auto
    qed
    with False show ?thesis by (simp add: e e_ready_iff)
  qed
qed


lemma disposition_available:
  "fst (normalize_disposition h i raw) = ''available'' \<Longrightarrow>
     fld raw ''updateDisposition'' = JStr ''available'' \<and> fld raw ''updateEvidence'' = JStr ''observed''
     \<and> isBoundedString (fld raw ''updateProvenance'') \<and> isBoundedString (fld raw ''availableVersion'')"
  by (auto simp: normalize_disposition_def Let_def listed_or_unknown_eq split: if_splits)

lemma disposition_deferred:
  "fst (normalize_disposition h i raw) = ''deferred'' \<Longrightarrow> fld raw ''updateDisposition'' = JStr ''deferred''"
  by (auto simp: normalize_disposition_def Let_def listed_or_unknown_eq split: if_splits)

text \<open>The grounds of a proposal in the entry of the evidence it is for.\<close>

definition proposal_grounds :: "js \<Rightarrow> proposal \<Rightarrow> bool" where
  "proposal_grounds raw p =
     (entry_id raw = p_component p
      \<and> one_of [''succeeded'', ''failed'', ''not-requested''] (fld raw ''operationOutcome'')
      \<and> ((p_type p = ''install'' \<and> fld raw ''presence'' = JStr ''missing'' \<and> fld raw ''evidence'' = JStr ''observed'')
         \<or> (p_type p = ''upgrade'' \<and> fld raw ''compatibility'' = JStr ''incompatible'' \<and> fld raw ''evidence'' = JStr ''observed'')
         \<or> (p_type p = ''update'' \<and> fld raw ''updateDisposition'' = JStr ''available'' \<and> fld raw ''updateEvidence'' = JStr ''observed''
            \<and> isBoundedString (fld raw ''updateProvenance'') \<and> isBoundedString (fld raw ''availableVersion''))
         \<or> (p_type p = ''deferred-update'' \<and> fld raw ''updateDisposition'' = JStr ''deferred'')))"

lemma grounded_entry:
  assumes "well_formed_entry raw" "grounded request (normalized_component h raw k) p"
  shows "p_runtime p = fld request ''runtimeId'' \<and> proposal_grounds raw p"
proof -
  let ?c = "normalized_component h raw k"
  have fields: "c_presence ?c = listed_or_unknown PRESENCE_VALUES (fld raw ''presence'')"
    "c_compatibility ?c = listed_or_unknown COMPATIBILITY_VALUES (fld raw ''compatibility'')"
    "c_evidence ?c = listed_or_unknown EVIDENCE_TYPE_VALUES (fld raw ''evidence'')"
    "c_disposition ?c = fst (normalize_disposition h (c_id ?c) raw)"
    by (simp_all add: normalized_component_def Let_def)
  from assms(2) show ?thesis
    unfolding grounded_def proposal_grounds_def fields outcome_normalized normalized_id [OF assms(1)]
    by (auto simp: listed_or_unknown_eq dest: disposition_available disposition_deferred)
qed

section \<open>Properties\<close>

text \<open>
  C20. A runtime is reported ready exactly when its evidence vouches for it: the evidence
  answers this very request and runtime, lists at most 100 well-formed components with distinct ids
  and no unknown outcome, and has for each required capability an available, compatible, observed
  entry with provenance whose operation did not fail (and, for the skills, that the host discovered).
  Anything missing, malformed, duplicated or merely declared leaves it not ready.
\<close>

theorem runtime_ready_exact:
  assumes "assessRuntimeEvidence h request evidence = Inr r"
  shows "rr_ready r \<longleftrightarrow> runtime_vouched request evidence"
proof (cases "truthy evidence \<and> typeof_object evidence")
  case True
  with assms show ?thesis by (auto simp: assessRuntimeEvidence_def report_of_def e_ready_vouched)
next
  case False
  with assms show ?thesis by (auto simp: assessRuntimeEvidence_def report_of_def no_evidence_def runtime_vouched_def)
qed

definition sample_component :: "string \<Rightarrow> js" where
  "sample_component i = JObj [(''id'', JStr i), (''presence'', JStr ''available''), (''compatibility'', JStr ''compatible''),
     (''evidence'', JStr ''observed''), (''provenance'', JStr ''probe''), (''operationOutcome'', JStr ''succeeded''),
     (''hostDiscovered'', JBool True)]"

definition handoff_request :: js where
  "handoff_request = runtime_request (JStr ''r1'') (JStr ''claude'') [] (JBool False)"

definition sample_evidence :: js where
  "sample_evidence = JObj [(''schemaVersion'', JNat 1), (''requestId'', JStr ''r1''), (''runtimeId'', JStr ''claude''),
     (''components'', JArr [sample_component CAPABILITY_CLI, sample_component CAPABILITY_SKILLS])]"

lemmas runtime_eval = js_eval isBoundedString_def MAX_STRING_LENGTH_def MAX_ARRAY_ITEMS_def CAPABILITY_CLI_def
  CAPABILITY_SKILLS_def REQUIRED_CAPABILITIES_def js_trim_def is_space_def

lemma sorted_values_two:
  "sorted_values h [JStr a, JStr b] = (if a \<le> b then [JStr a, JStr b] else [JStr b, JStr a])"
  by (simp add: sorted_values_def)

lemma required_order: "CAPABILITY_CLI \<le> CAPABILITY_SKILLS" "expected_ids h = [JStr CAPABILITY_CLI, JStr CAPABILITY_SKILLS]"
  "capability_ids h (elems required_capabilities_js) = [JStr CAPABILITY_CLI, JStr CAPABILITY_SKILLS]"
proof -
  show le: "CAPABILITY_CLI \<le> CAPABILITY_SKILLS"
    by code_simp
  then show "expected_ids h = [JStr CAPABILITY_CLI, JStr CAPABILITY_SKILLS]"
    by (simp add: expected_ids_def REQUIRED_CAPABILITIES_def sorted_values_two)
  from le show "capability_ids h (elems required_capabilities_js) = [JStr CAPABILITY_CLI, JStr CAPABILITY_SKILLS]"
    by (simp add: capability_ids_def required_capabilities_js_def fld_own sorted_values_two)
qed

lemma checkRequest_sample: "checkRequest h handoff_request = Inr ()"
proof -
  have "capability_ids h (elems (fld handoff_request ''requiredCapabilities'')) = expected_ids h"
    unfolding handoff_request_def runtime_request_def by (simp add: fld_own required_order(2,3))
  then show ?thesis
    unfolding checkRequest_def Let_def handoff_request_def runtime_request_def trimmed_def
    by (simp add: fld_own isBoundedString_def js_trim_def is_space_def MAX_STRING_LENGTH_def REQUIRED_CAPABILITIES_def
      required_capabilities_js_def required_order list.rel_eq)
qed


lemma sample_vouched: "runtime_vouched handoff_request sample_evidence"
  unfolding runtime_vouched_def handoff_request_def runtime_request_def trimmed_def sample_evidence_def sample_component_def
  by (simp add: fld_own js_trim_def is_space_def MAX_STRING_LENGTH_def MAX_ARRAY_ITEMS_def REQUIRED_CAPABILITIES_def
      CAPABILITY_CLI_def CAPABILITY_SKILLS_def well_formed_entry_def vouching_def entry_id_def isBoundedString_def one_of_def)

theorem runtime_ready_exact_witness:
  "\<exists>r. assessRuntimeEvidence const_host handoff_request sample_evidence = Inr r \<and> rr_ready r"
proof -
  obtain r where r: "assessRuntimeEvidence const_host handoff_request sample_evidence = Inr r"
    by (simp add: assessRuntimeEvidence_def checkRequest_sample)
  with runtime_ready_exact [OF r] sample_vouched show ?thesis by blast
qed

text \<open>
  Every assessment is bounded and acts only on evidence: the recommended action is
  \<open>ready\<close> exactly for a ready runtime, any error forces reconciliation and withdraws every
  proposal, the lists hold at most 100 entries with at most 2048 characters of text, and each
  proposal names the requested runtime and a reported entry with a known outcome: an installation
  one observed missing, an upgrade one observed incompatible, an update one with an observed,
  provenanced release and its version.
\<close>

theorem proposals_grounded:
  assumes "assessRuntimeEvidence h request evidence = Inr r"
  shows "(rr_action r = ''ready'' \<longleftrightarrow> rr_ready r)
    \<and> (rr_errors r \<noteq> [] \<longrightarrow> rr_action r = ''reconcile'' \<and> rr_proposals r = [])
    \<and> length (rr_proposals r) \<le> 100 \<and> length (rr_unknowns r) \<le> 100 \<and> length (rr_errors r) \<le> 100
    \<and> (\<forall>p\<in>set (rr_proposals r). length (p_description p) \<le> 2048) \<and> (\<forall>u\<in>set (rr_unknowns r). length (u_reason u) \<le> 2048)
    \<and> (\<forall>p\<in>set (rr_proposals r). p_runtime p = fld request ''runtimeId''
        \<and> (\<exists>raw\<in>set (elems (fld evidence ''components'')). proposal_grounds raw p))"
proof (cases "truthy evidence \<and> typeof_object evidence")
  case False
  with assms have "r = report_of request no_evidence" by (auto simp: assessRuntimeEvidence_def)
  then show ?thesis by (simp add: report_of_def no_evidence_def note_of_def)
next
  case True
  obtain cs errors us where c: "reported_components h (fld evidence ''components'') (header_errors h request evidence) = (cs, errors, us)"
    by (metis prod_cases3)
  let ?e = "evaluateRuntimePolicy request cs errors us"
  from True assms c have r: "r = report_of request ?e"
    by (auto simp: assessRuntimeEvidence_def assess_evidence_def)
  have e: "e_errors ?e \<noteq> [] \<longleftrightarrow> errors \<noteq> []" by (simp add: evaluateRuntimePolicy_def Let_def MAX_ARRAY_ITEMS_def)
  have none: "e_proposals ?e = []" if "errors \<noteq> []" using that by (simp add: evaluateRuntimePolicy_def Let_def)
  have p: "p_runtime p = fld request ''runtimeId'' \<and> (\<exists>raw\<in>set (elems (fld evidence ''components'')). proposal_grounds raw p)"
    if "p \<in> set (e_proposals ?e)" for p
  proof -
    from e_proposals_grounded [OF that] obtain d where d: "errors = []" "d \<in> set cs" "grounded request d p" by auto
    with reported_errors c obtain raws where *: "fld evidence ''components'' = JArr raws" "list_all well_formed_entry raws"
        "cs = map (\<lambda>(k, raw). normalized_component h raw k) (enumerate 0 raws)" by blast
    from d(2) [unfolded *(3) normalized_set] obtain k where "k < length raws" "d = normalized_component h (raws ! k) k" by auto
    with d *(2) grounded_entry [of "raws ! k" request h k p]
    have "p_runtime p = fld request ''runtimeId'' \<and> proposal_grounds (raws ! k) p" by (simp add: list_all_length)
    with \<open>k < length raws\<close> *(1) show ?thesis by auto
  qed
  show ?thesis
    using evaluation_bounds [of request cs errors us] e_action_cases(1) [of request cs errors us] e_action_cases(2) [of errors request cs us]
      e none p
    unfolding r by (simp add: report_of_def MAX_ARRAY_ITEMS_def MAX_STRING_LENGTH_def list_all_iff)
qed


theorem proposals_grounded_witness:
  "\<exists>r. assessRuntimeEvidence const_host handoff_request (JObj []) = Inr r \<and> rr_action r \<noteq> ''ready''"
proof -
  obtain r where r: "assessRuntimeEvidence const_host handoff_request (JObj []) = Inr r"
    by (simp add: assessRuntimeEvidence_def checkRequest_sample)
  moreover have "\<not> rr_ready r"
    using r by (auto simp: assessRuntimeEvidence_def checkRequest_sample report_of_def e_ready_vouched runtime_vouched_def fld_own proto_names_def)
  ultimately show ?thesis using proposals_grounded [OF r] by blast
qed

lemma js_trim_bounds: "length (js_trim s) \<le> length s" "js_trim s \<noteq> [] \<Longrightarrow> js_trim (js_trim s) \<noteq> []"
proof -
  have "length (dropWhile is_space (rev (dropWhile is_space s))) \<le> length (rev (dropWhile is_space s))"
    by (rule length_dropWhile_le)
  with length_dropWhile_le [of is_space s] show "length (js_trim s) \<le> length s" by (simp add: js_trim_def)
next
  assume n: "js_trim s \<noteq> []"
  let ?d = "dropWhile is_space (rev (dropWhile is_space s))"
  from n have d: "?d \<noteq> []" by (simp add: js_trim_def)
  then have "\<not> is_space (hd ?d)" by (rule hd_dropWhile)
  moreover from d have "hd ?d \<in> set (js_trim s)" by (simp add: js_trim_def)
  ultimately show "js_trim (js_trim s) \<noteq> []" by (auto simp: js_trim_empty)
qed

lemma isBoundedString_trimmed: "isBoundedString v \<Longrightarrow> isBoundedString (trimmed v)"
  using js_trim_bounds by (auto simp: isBoundedString_iff trimmed_def intro: le_trans [OF js_trim_bounds(1)])

text \<open>
  The request the handoff builds is one the assessment accepts: for every evidence the
  runtime returns, malformed ones included, assessing it against a built request ends in a report
  for that request and the trimmed runtime, never in an error. The identifier \<open>randomUUID\<close>
  returns is assumed to be a bounded string.
\<close>

theorem built_request_accepted:
  assumes "buildRuntimeRequest uuid runtimeId additional shared requestId = Inr request"
    and "isBoundedString (JStr uuid)"
  shows "\<exists>r. assessRuntimeEvidence h request evidence = Inr r \<and> rr_runtime r = trimmed runtimeId
    \<and> rr_request r = (if nullish requestId then JStr uuid else requestId)"
proof -
  let ?reqid = "if nullish requestId then JStr uuid else requestId"
  define xs where "xs = elems (js_default additional (JArr []))"
  define sh where "sh = js_default shared (JBool False)"
  from assms have b: "isBoundedString runtimeId" "isBoundedString ?reqid" "list_all isBoundedString xs" "length xs \<le> MAX_ARRAY_ITEMS"
      "is_bool sh" and request: "request = runtime_request ?reqid runtimeId xs sh"
    by (simp_all add: buildRuntimeRequest_def Let_def xs_def sh_def split: if_splits)
  have f: "fld request ''schemaVersion'' = JNat 1" "fld request ''assessUpdates'' = JBool True"
      "fld request ''runtimeId'' = trimmed runtimeId" "fld request ''requestId'' = ?reqid" "fld request ''sharedUpdate'' = sh"
      "fld request ''additionalRuntimes'' = JArr (map trimmed xs)" "fld request ''requiredCapabilities'' = required_capabilities_js"
      "truthy request" "typeof_object request"
    by (simp_all add: request runtime_request_def fld_own)
  have "list_all isBoundedString (map trimmed xs)"
    using b(3) isBoundedString_trimmed by (auto simp: list_all_iff)
  moreover have "is_array required_capabilities_js" "length (elems required_capabilities_js) = length REQUIRED_CAPABILITIES"
    by (simp_all add: required_capabilities_js_def REQUIRED_CAPABILITIES_def)
  ultimately have "checkRequest h request = Inr ()"
    using b f isBoundedString_trimmed [OF b(1)]
    by (simp add: checkRequest_def Let_def required_order)
  with f show ?thesis by (simp add: assessRuntimeEvidence_def report_of_def)
qed

theorem built_request_accepted_witness:
  "\<exists>request r. buildRuntimeRequest ''u1'' (JStr ''claude'') JUndef JUndef JNull = Inr request
    \<and> assessRuntimeEvidence const_host request JNull = Inr r \<and> rr_request r = JStr ''u1''"
proof -
  obtain request where b: "buildRuntimeRequest ''u1'' (JStr ''claude'') JUndef JUndef JNull = Inr request"
    by (simp add: buildRuntimeRequest_def js_default_def isBoundedString_def js_trim_def is_space_def MAX_STRING_LENGTH_def)
  have "isBoundedString (JStr ''u1'')" by (simp add: isBoundedString_def js_trim_def is_space_def MAX_STRING_LENGTH_def)
  from built_request_accepted [OF b this, of const_host JNull] b show ?thesis by auto
qed

end
