(* ===== verification/OnboardingPlan.thy ===== *)
theory OnboardingPlan
  imports RuntimeHandoff RunTypes
begin

text \<open>
  The onboarding plan (src/lib/core/onboarding-plan.mjs): from an inventory of the project, the
  assessment of its runtime, the project transaction that was planned and the choices of the human,
  the plan that is shown, confirmed by its digest and applied. What the inventory and the project
  transaction hold is read from the file system elsewhere; here they are JavaScript values. The
  report a caller may attach is a function parameter. The arguments are those of the destructured
  object, after its defaults.
\<close>

section \<open>The arguments and the choices\<close>

record onboarding_args =
  pa_inventory :: js
  pa_runtime :: js
  pa_project :: js
  pa_choices :: js
  pa_request :: js
  pa_root :: js
  pa_journey :: js
  pa_report :: "(js \<Rightarrow> js res) option"

definition require_flag :: "js \<Rightarrow> string \<Rightarrow> unit res" where
  "require_flag choices k =
     (if fld choices k \<noteq> JUndef \<and> \<not> is_bool (fld choices k) then Inl (TypeError (k @ '' must be a boolean'')) else Inr ())"

definition spread_or_empty :: "js \<Rightarrow> js" where
  "spread_or_empty v = JObj (if truthy v then obj_spread [] (own_props v) else [])"

definition plan_options :: "js \<Rightarrow> js" where
  "plan_options choices = JObj
     ([(''resolutions'', spread_or_empty (fld choices ''resolutions'')), (''config'', spread_or_empty (fld choices ''config'')),
       (''migrateLegacy'', JBool (truthy (fld choices ''migrateLegacy''))),
       (''recoverUnknown'', JBool (truthy (fld choices ''recoverUnknown'')))]
      @ (if fld choices ''harness'' = JBool False then [(''harness'', JBool False)] else [])
      @ (if truthy (fld choices ''deferUpdate'') then [(''deferUpdate'', JBool True)] else []))"

section \<open>What stands in the way\<close>

text \<open>\<open>new Set()\<close> with its \<open>add\<close>, in insertion order.\<close>

definition js_set_add :: "js list \<Rightarrow> js \<Rightarrow> js list" where
  "js_set_add xs v = (if js_includes xs v then xs else xs @ [v])"

definition js_set :: "js list \<Rightarrow> js list" where
  "js_set xs = foldl js_set_add [] xs"

definition WRITES :: "string list" where
  "WRITES = [''create'', ''update'', ''seed'']"

definition action_is :: "string list \<Rightarrow> js \<Rightarrow> bool" where
  "action_is names a = one_of names (fld a ''action'')"

definition conflict_targets :: "js \<Rightarrow> js list \<Rightarrow> js list" where
  "conflict_targets project acts = js_set
     ((if is_array (fld project ''conflicts'') then elems (fld project ''conflicts'') else [])
      @ map (\<lambda>a. fld a ''target'') (filter (action_is [''conflict'']) acts))"

definition resolution_of :: "host \<Rightarrow> js \<Rightarrow> js \<Rightarrow> js" where
  "resolution_of h opts target = fld (fld opts ''resolutions'') (js_string h target)"

definition unresolved_conflicts :: "host \<Rightarrow> js \<Rightarrow> js \<Rightarrow> js list \<Rightarrow> string list" where
  "unresolved_conflicts h opts project acts = map (js_string h)
     (filter (\<lambda>t. \<not> one_of [''preserve'', ''replace''] (resolution_of h opts t)) (conflict_targets project acts))"

definition lock_unknown :: "js \<Rightarrow> bool" where
  "lock_unknown inventory = (fld (fld inventory ''lock'') ''format'' = JStr ''unknown'')"

definition missing_choices :: "host \<Rightarrow> js \<Rightarrow> js \<Rightarrow> js \<Rightarrow> js list \<Rightarrow> string list" where
  "missing_choices h inventory opts project acts =
     (if lock_unknown inventory \<and> \<not> truthy (fld opts ''recoverUnknown'') then [''recoverUnknown''] else [])
     @ (if fld inventory ''classification'' = JStr ''legacy'' \<and> \<not> truthy (fld opts ''migrateLegacy'') then [''migrateLegacy''] else [])
     @ map (\<lambda>t. ''resolution:'' @ t) (unresolved_conflicts h opts project acts)"

definition state_blockers :: "js \<Rightarrow> js \<Rightarrow> js \<Rightarrow> string list" where
  "state_blockers inventory opts project =
     (if \<not> truthy project then [''Project transaction could not be planned; inspect diagnostics''] else [])
     @ (if truthy (fld inventory ''pendingJournal'') then [''Pending journal requires recovery before onboarding''] else [])
     @ (if fld (fld inventory ''config'') ''status'' = JStr ''invalid'' then [''Config file is invalid or malformed''] else [])
     @ (if lock_unknown inventory \<and> (\<not> truthy (fld opts ''recoverUnknown'') \<or> \<not> truthy project)
        then [''Lockfile format is unknown or malformed''] else [])
     @ (if fld inventory ''classification'' = JStr ''legacy'' \<and> \<not> truthy (fld opts ''migrateLegacy'')
        then [''Legacy lockfile requires explicit migrateLegacy choice''] else [])"

definition config_write :: "js \<Rightarrow> bool" where
  "config_write a = (fld a ''target'' = JStr ''agent-workflow.config.json'' \<and> fld a ''ownership'' = JStr ''seed-once'')"

definition refinement_blockers :: "js \<Rightarrow> js \<Rightarrow> js list \<Rightarrow> string list" where
  "refinement_blockers inventory opts writes =
     (let other = filter (\<lambda>a. \<not> config_write a) writes in
      (if own_props (fld opts ''config'') = [] then [''Refinement needs at least one setting to change''] else [])
      @ (if fld (fld inventory ''lock'') ''format'' \<noteq> JStr ''v2'' \<or> fld (fld inventory ''config'') ''status'' \<noteq> JStr ''valid''
         then [''Refinement needs an adopted project with a valid configuration''] else [])
      @ (if other \<noteq> [] then [''Refinement changes only the configuration; '' @ nat_str (length other)
           @ '' framework file(s) need the adoption journey first''] else []))"

text \<open>The blockers in the order they are found; \<open>found\<close> is what the first tests pushed.\<close>

definition classification_blockers :: "js \<Rightarrow> js \<Rightarrow> js \<Rightarrow> string list \<Rightarrow> string list" where
  "classification_blockers inventory opts project found =
     (if fld inventory ''classification'' = JStr ''unknown''
        \<and> \<not> list_ex (\<lambda>b. str_includes b ''Lockfile'') found \<and> \<not> list_ex (\<lambda>b. str_includes b ''Config'') found
        \<and> \<not> (truthy (fld opts ''recoverUnknown'') \<and> truthy project \<and> lock_unknown inventory)
      then [''Project inventory classification is unknown''] else [])"

definition plan_blockers :: "host \<Rightarrow> js \<Rightarrow> js \<Rightarrow> js \<Rightarrow> js \<Rightarrow> js list \<Rightarrow> string list" where
  "plan_blockers h inventory opts project journey acts =
     (let found = state_blockers inventory opts project
            @ map (\<lambda>t. ''Unresolved project conflict for '' @ t) (unresolved_conflicts h opts project acts);
          writes = filter (action_is WRITES) acts in
      found @ classification_blockers inventory opts project found
      @ (if truthy (fld opts ''deferUpdate'') \<and> list_ex (\<lambda>a. fld a ''ownership'' = JStr ''managed'') writes
         then [''Framework update deferred by choice; nothing is written until it is taken''] else [])
      @ (if journey = JStr ''refinement'' then refinement_blockers inventory opts writes else []))"

section \<open>The preview\<close>

record preview =
  pv_create :: "js list"
  pv_change :: "js list"
  pv_remove :: "js list"
  pv_untouched :: "js list"

definition targets :: "(js \<Rightarrow> bool) \<Rightarrow> js list \<Rightarrow> js list" where
  "targets P acts = map (\<lambda>a. fld a ''target'') (filter P acts)"

text \<open>The four lists of the loop over the actions.\<close>

definition action_preview :: "js list \<Rightarrow> preview" where
  "action_preview acts =
     \<lparr>pv_create = targets (\<lambda>a. action_is WRITES a \<and> fld a ''beforeHash'' = JNull) acts,
      pv_change = targets (\<lambda>a. action_is WRITES a \<and> fld a ''beforeHash'' \<noteq> JNull) acts,
      pv_remove = targets (action_is [''remove'']) acts,
      pv_untouched = targets (action_is [''identical'', ''preserve'']) acts\<rparr>"

definition push_path :: "bool \<Rightarrow> string \<Rightarrow> preview \<Rightarrow> preview" where
  "push_path changed p v =
     (if changed then v\<lparr>pv_change := pv_change v @ [JStr p]\<rparr> else v\<lparr>pv_create := pv_create v @ [JStr p]\<rparr>)"

definition storage_preview :: "js \<Rightarrow> preview \<Rightarrow> preview" where
  "storage_preview storage v =
     (if fld storage ''mode'' = JStr ''project''
      then (let v1 = (if fld storage ''ignoreContentBase64'' \<noteq> JNull
                      then push_path (truthy (fld storage ''ignoreBeforeHash'')) ''.gitignore'' v else v);
                v2 = (if \<not> truthy (fld storage ''transactionsIgnorePresent'')
                      then push_path False ''.agentflow/transactions/.gitignore'' v1 else v1)
            in push_path False ''.agentflow/transactions/<transaction-id>/receipt.json''
                 (push_path False ''.agentflow/transactions/<transaction-id>/manifest.json'' v2))
      else v)"

definition previewOf :: "host \<Rightarrow> js list \<Rightarrow> js \<Rightarrow> js" where
  "previewOf h acts project =
     (let v0 = action_preview acts;
          v = (if pv_create v0 \<noteq> [] \<or> pv_change v0 \<noteq> []
               then storage_preview (fld project ''storage'')
                      (push_path (truthy (fld project ''priorLockHash'')) ''agent-framework-lock.json'' v0)
               else v0);
          out = (\<lambda>xs. JArr (sorted_values h (js_set xs)))
      in JObj [(''create'', out (pv_create v)), (''change'', out (pv_change v)), (''remove'', out (pv_remove v)),
               (''untouched'', out (pv_untouched v))])"

section \<open>The plan\<close>

definition digest_or_null :: "host \<Rightarrow> js \<Rightarrow> js" where
  "digest_or_null h v = (if truthy v then JStr (recordDigest h v) else JNull)"

definition effective_request :: "js \<Rightarrow> js \<Rightarrow> js" where
  "effective_request request runtime =
     coal request (coal (fld runtime ''request'')
       (if truthy (fld runtime ''requestId'')
        then JObj [(''requestId'', fld runtime ''requestId''), (''runtimeId'', fld runtime ''runtimeId'')] else JNull))"

definition project_actions :: "js \<Rightarrow> js list res" where
  "project_actions project =
     bnd (if truthy (fld project ''actions'') then js_iter (fld project ''actions'') else Inr []) (\<lambda>acts.
     bnd (for_each (\<lambda>a. dot a ''action'') acts) (\<lambda>_. Inr acts))"

definition ready_to_apply :: "js \<Rightarrow> string list \<Rightarrow> string list \<Rightarrow> bool" where
  "ready_to_apply project blockers missing = (blockers = [] \<and> missing = [] \<and> truthy project \<and> \<not> truthy (fld project ''blocked''))"

definition texts :: "string list \<Rightarrow> js" where
  "texts xs = JArr (map JStr xs)"

definition plan_payload :: "host \<Rightarrow> onboarding_args \<Rightarrow> js \<Rightarrow> js list \<Rightarrow> (string \<times> js) list" where
  "plan_payload h a opts acts =
     (let inventory = pa_inventory a; runtime = pa_runtime a; project = pa_project a;
          missing = sort (missing_choices h inventory opts project acts);
          blockers = sort (plan_blockers h inventory opts project (pa_journey a) acts);
          ready = ready_to_apply project blockers missing
      in [(''schemaVersion'', JNat 1), (''operation'', JStr ''onboarding''), (''journey'', pa_journey a),
          (''target'', coal (fld inventory ''target'') (coal (fld project ''target'') JNull)),
          (''rootIdentity'', coal (fld inventory ''rootIdentity'') JNull),
          (''inventoryDigest'', digest_or_null h inventory), (''runtimeDigest'', digest_or_null h runtime),
          (''options'', opts), (''runtimeRequest'', effective_request (pa_request a) runtime), (''changes'', JArr acts),
          (''sharedRequests'', JArr (if is_array (fld runtime ''proposals'') then elems (fld runtime ''proposals'') else [])),
          (''missingChoices'', texts missing), (''blockers'', texts blockers),
          (''diagnostics'', coal (fld inventory ''diagnostics'') (JArr [])), (''readyToApply'', JBool ready),
          (''readiness'', JObj [(''runtime'', JBool (truthy (fld runtime ''runtimeReady''))),
             (''project'', JBool (ready \<and> \<not> list_ex (action_is WRITES) acts)), (''governedChange'', JBool False)]),
          (''governedChangeExplanation'', JStr ''Needs issue contract and actual verification''),
          (''projectPlan'', coal project JNull), (''packageRoot'', coal (pa_root a) JNull),
          (''preview'', previewOf h acts project)])"

definition attach_report :: "onboarding_args \<Rightarrow> js \<Rightarrow> (string \<times> js) list \<Rightarrow> (string \<times> js) list res" where
  "attach_report a opts payload =
     (case pa_report a of
        None \<Rightarrow> Inr payload
      | Some report \<Rightarrow>
          bnd (report (JObj (payload @ [(''inventory'', pa_inventory a), (''runtime'', pa_runtime a), (''choices'', opts)]))) (\<lambda>r.
          Inr (payload @ [(''report'', r)])))"

definition buildOnboardingPlan :: "host \<Rightarrow> onboarding_args \<Rightarrow> js res" where
  "buildOnboardingPlan h a =
     bnd (require_flag (pa_choices a) ''recoverUnknown'') (\<lambda>_.
     bnd (require_flag (pa_choices a) ''migrateLegacy'') (\<lambda>_.
     bnd (project_actions (pa_project a)) (\<lambda>acts.
     let opts = plan_options (pa_choices a) in
     bnd (attach_report a opts (plan_payload h a opts acts)) (\<lambda>payload.
     Inr (JObj (payload @ [(''digest'', JStr (recordDigest h (JObj payload)))]))))))"

section \<open>Facts\<close>

lemma buildOnboardingPlan_Inr:
  assumes "buildOnboardingPlan h a = Inr plan"
  obtains acts payload more where "project_actions (pa_project a) = Inr acts"
    and "require_flag (pa_choices a) ''recoverUnknown'' = Inr ()" and "require_flag (pa_choices a) ''migrateLegacy'' = Inr ()"
    and "attach_report a (plan_options (pa_choices a)) (plan_payload h a (plan_options (pa_choices a)) acts) = Inr payload"
    and "payload = plan_payload h a (plan_options (pa_choices a)) acts @ more" and "fst ` set more \<subseteq> {''report''}"
    and "plan = JObj (payload @ [(''digest'', JStr (recordDigest h (JObj payload)))])"
proof -
  from assms obtain acts payload where *: "project_actions (pa_project a) = Inr acts"
    "require_flag (pa_choices a) ''recoverUnknown'' = Inr ()" "require_flag (pa_choices a) ''migrateLegacy'' = Inr ()"
    and r: "attach_report a (plan_options (pa_choices a)) (plan_payload h a (plan_options (pa_choices a)) acts) = Inr payload"
    and p: "plan = JObj (payload @ [(''digest'', JStr (recordDigest h (JObj payload)))])"
    by (auto simp: buildOnboardingPlan_def Let_def)
  from r obtain more where "payload = plan_payload h a (plan_options (pa_choices a)) acts @ more" "fst ` set more \<subseteq> {''report''}"
    by (auto simp: attach_report_def split: option.splits)
  from * r this p show ?thesis by (rule that)
qed

lemma plan_payload_keys: "map fst (plan_payload h a opts acts) =
   [''schemaVersion'', ''operation'', ''journey'', ''target'', ''rootIdentity'', ''inventoryDigest'', ''runtimeDigest'', ''options'',
    ''runtimeRequest'', ''changes'', ''sharedRequests'', ''missingChoices'', ''blockers'', ''diagnostics'', ''readyToApply'',
    ''readiness'', ''governedChangeExplanation'', ''projectPlan'', ''packageRoot'', ''preview'']"
  by (simp add: plan_payload_def Let_def)

text \<open>A field of the plan is the field of the payload.\<close>

lemma map_of_payload: "k \<in> set (map fst fs) \<Longrightarrow> map_of (fs @ gs) k = map_of fs k"
  by (induction fs) auto

lemma plan_fld:
  assumes "buildOnboardingPlan h a = Inr plan"
  obtains acts where "project_actions (pa_project a) = Inr acts"
    and "\<And>k. k \<in> set (map fst (plan_payload h a (plan_options (pa_choices a)) acts)) \<Longrightarrow>
           fld plan k = the (map_of (plan_payload h a (plan_options (pa_choices a)) acts) k)"
proof -
  from assms obtain acts payload more where *: "project_actions (pa_project a) = Inr acts"
    and p: "payload = plan_payload h a (plan_options (pa_choices a)) acts @ more"
    and d: "plan = JObj (payload @ [(''digest'', JStr (recordDigest h (JObj payload)))])"
    by (rule buildOnboardingPlan_Inr)
  have "fld plan k = the (map_of (plan_payload h a (plan_options (pa_choices a)) acts) k)"
    if "k \<in> set (map fst (plan_payload h a (plan_options (pa_choices a)) acts))" for k
  proof -
    from that obtain v where "map_of (plan_payload h a (plan_options (pa_choices a)) acts) k = Some v"
      by (metis list.set_map map_of_eq_None_iff not_Some_eq)
    with that show ?thesis by (simp add: d p fld_own map_of_payload del: list.set_map)
  qed
  with * show ?thesis by (rule that)
qed


section \<open>What a plan that may be applied means\<close>

text \<open>The conditions, over the inventory, the project transaction and the choices of the human.\<close>

definition conflicts_resolved :: "host \<Rightarrow> onboarding_args \<Rightarrow> js list \<Rightarrow> bool" where
  "conflicts_resolved h a acts =
     list_all (\<lambda>t. one_of [''preserve'', ''replace''] (resolution_of h (plan_options (pa_choices a)) t)) (conflict_targets (pa_project a) acts)"

definition refinement_allowed :: "onboarding_args \<Rightarrow> js list \<Rightarrow> bool" where
  "refinement_allowed a acts =
     (own_props (spread_or_empty (fld (pa_choices a) ''config'')) \<noteq> []
      \<and> fld (fld (pa_inventory a) ''lock'') ''format'' = JStr ''v2'' \<and> fld (fld (pa_inventory a) ''config'') ''status'' = JStr ''valid''
      \<and> list_all config_write (filter (action_is WRITES) acts))"

definition plan_cleared :: "host \<Rightarrow> onboarding_args \<Rightarrow> js list \<Rightarrow> bool" where
  "plan_cleared h a acts =
     (truthy (pa_project a) \<and> \<not> truthy (fld (pa_project a) ''blocked'')
      \<and> \<not> truthy (fld (pa_inventory a) ''pendingJournal'')
      \<and> fld (fld (pa_inventory a) ''config'') ''status'' \<noteq> JStr ''invalid''
      \<and> (lock_unknown (pa_inventory a) \<longrightarrow> fld (pa_choices a) ''recoverUnknown'' = JBool True)
      \<and> (fld (pa_inventory a) ''classification'' = JStr ''legacy'' \<longrightarrow> fld (pa_choices a) ''migrateLegacy'' = JBool True)
      \<and> (fld (pa_inventory a) ''classification'' = JStr ''unknown'' \<longrightarrow> lock_unknown (pa_inventory a))
      \<and> conflicts_resolved h a acts
      \<and> (truthy (fld (pa_choices a) ''deferUpdate'')
           \<longrightarrow> list_all (\<lambda>w. fld w ''ownership'' \<noteq> JStr ''managed'') (filter (action_is WRITES) acts))
      \<and> (pa_journey a = JStr ''refinement'' \<longrightarrow> refinement_allowed a acts))"

lemma plan_options_fld [simp]:
  "fld (plan_options c) ''recoverUnknown'' = JBool (truthy (fld c ''recoverUnknown''))"
  "fld (plan_options c) ''migrateLegacy'' = JBool (truthy (fld c ''migrateLegacy''))"
  "fld (plan_options c) ''config'' = spread_or_empty (fld c ''config'')"
  "truthy (fld (plan_options c) ''deferUpdate'') = truthy (fld c ''deferUpdate'')"
  by (simp_all add: plan_options_def fld_own proto_names_def)

lemma require_flag_Inr: "require_flag c k = Inr () \<Longrightarrow> truthy (fld c k) \<longleftrightarrow> fld c k = JBool True"
  by (cases "fld c k") (auto simp: require_flag_def split: if_splits)

lemma sort_Nil_iff: "sort xs = [] \<longleftrightarrow> xs = []"
  by (metis length_0_conv length_sort)

lemma state_blockers_Nil:
  "state_blockers inventory opts project = [] \<longleftrightarrow>
     truthy project \<and> \<not> truthy (fld inventory ''pendingJournal'') \<and> fld (fld inventory ''config'') ''status'' \<noteq> JStr ''invalid''
     \<and> (lock_unknown inventory \<longrightarrow> truthy (fld opts ''recoverUnknown''))
     \<and> (fld inventory ''classification'' = JStr ''legacy'' \<longrightarrow> truthy (fld opts ''migrateLegacy''))"
  by (auto simp: state_blockers_def)

lemma unresolved_Nil:
  "unresolved_conflicts h (plan_options (pa_choices a)) (pa_project a) acts = [] \<longleftrightarrow> conflicts_resolved h a acts"
  by (simp add: unresolved_conflicts_def conflicts_resolved_def filter_empty_conv list_all_iff)

lemma refinement_blockers_Nil:
  "refinement_blockers (pa_inventory a) (plan_options (pa_choices a)) (filter (action_is WRITES) acts) = []
     \<longleftrightarrow> refinement_allowed a acts"
  by (auto simp: refinement_blockers_def refinement_allowed_def Let_def filter_empty_conv list_all_iff)

lemma plan_blockers_Nil_iff:
  "plan_blockers h inventory opts project journey acts = [] \<longleftrightarrow>
     state_blockers inventory opts project = [] \<and> unresolved_conflicts h opts project acts = []
     \<and> (fld inventory ''classification'' = JStr ''unknown'' \<longrightarrow> truthy (fld opts ''recoverUnknown'') \<and> lock_unknown inventory)
     \<and> (truthy (fld opts ''deferUpdate'') \<longrightarrow> \<not> list_ex (\<lambda>a. fld a ''ownership'' = JStr ''managed'') (filter (action_is WRITES) acts))
     \<and> (journey = JStr ''refinement'' \<longrightarrow> refinement_blockers inventory opts (filter (action_is WRITES) acts) = [])"
proof -
  have c: "classification_blockers inventory opts project [] = [] \<longleftrightarrow>
      (fld inventory ''classification'' = JStr ''unknown'' \<longrightarrow> truthy (fld opts ''recoverUnknown'') \<and> truthy project \<and> lock_unknown inventory)"
    by (simp add: classification_blockers_def)
  show ?thesis
  proof (cases "state_blockers inventory opts project = [] \<and> unresolved_conflicts h opts project acts = []")
    case True
    then have "truthy project" by (simp add: state_blockers_Nil)
    with True show ?thesis by (simp add: plan_blockers_def Let_def c)
  next
    case False
    then show ?thesis by (auto simp: plan_blockers_def Let_def)
  qed
qed

lemma plan_blockers_Nil:
  assumes "require_flag (pa_choices a) ''recoverUnknown'' = Inr ()" "require_flag (pa_choices a) ''migrateLegacy'' = Inr ()"
  shows "plan_blockers h (pa_inventory a) (plan_options (pa_choices a)) (pa_project a) (pa_journey a) acts = []
      \<and> \<not> truthy (fld (pa_project a) ''blocked'')
    \<longleftrightarrow> plan_cleared h a acts"
proof -
  have m: "\<not> list_ex (\<lambda>w. fld w ''ownership'' = JStr ''managed'') ws \<longleftrightarrow> list_all (\<lambda>w. fld w ''ownership'' \<noteq> JStr ''managed'') ws" for ws
    by (induction ws) simp_all
  show ?thesis
    using require_flag_Inr [OF assms(1)] require_flag_Inr [OF assms(2)]
    unfolding plan_blockers_Nil_iff state_blockers_Nil unresolved_Nil refinement_blockers_Nil plan_cleared_def plan_options_fld m truthy.simps
    by blast
qed

lemma missing_choices_blocked:
  "plan_blockers h inventory opts project journey acts = [] \<Longrightarrow> missing_choices h inventory opts project acts = []"
  by (simp add: plan_blockers_Nil_iff missing_choices_def state_blockers_Nil)

lemma plan_fields:
  assumes "buildOnboardingPlan h a = Inr plan"
  obtains acts where "project_actions (pa_project a) = Inr acts"
    and "fld plan ''readyToApply'' = JBool (plan_cleared h a acts)"
    and "fld plan ''blockers'' = texts (sort (plan_blockers h (pa_inventory a) (plan_options (pa_choices a)) (pa_project a) (pa_journey a) acts))"
    and "fld plan ''missingChoices'' = texts (sort (missing_choices h (pa_inventory a) (plan_options (pa_choices a)) (pa_project a) acts))"
    and "fld plan ''changes'' = JArr acts" and "fld plan ''projectPlan'' = coal (pa_project a) JNull"
    and "fld plan ''readiness'' = JObj [(''runtime'', JBool (truthy (fld (pa_runtime a) ''runtimeReady''))),
       (''project'', JBool (plan_cleared h a acts \<and> \<not> list_ex (action_is WRITES) acts)), (''governedChange'', JBool False)]"
    and "fld plan ''blockers'' = JArr [] \<and> \<not> truthy (fld (pa_project a) ''blocked'') \<longleftrightarrow> plan_cleared h a acts"
    and "fld plan ''blockers'' = JArr [] \<longrightarrow> fld plan ''missingChoices'' = JArr [] \<and> truthy (pa_project a)"
proof -
  let ?opts = "plan_options (pa_choices a)"
  obtain acts where acts: "project_actions (pa_project a) = Inr acts"
    and f: "\<And>k. k \<in> set (map fst (plan_payload h a ?opts acts)) \<Longrightarrow> fld plan k = the (map_of (plan_payload h a ?opts acts) k)"
    using plan_fld [OF assms] by blast
  let ?b = "plan_blockers h (pa_inventory a) ?opts (pa_project a) (pa_journey a) acts"
  let ?m = "missing_choices h (pa_inventory a) ?opts (pa_project a) acts"
  from assms have flags: "require_flag (pa_choices a) ''recoverUnknown'' = Inr ()" "require_flag (pa_choices a) ''migrateLegacy'' = Inr ()"
    by (auto simp: buildOnboardingPlan_def)
  have m: "?b = [] \<Longrightarrow> ?m = []" by (rule missing_choices_blocked)
  have p: "?b = [] \<Longrightarrow> truthy (pa_project a)" by (simp add: plan_blockers_Nil_iff state_blockers_Nil)
  have r: "ready_to_apply (pa_project a) (sort ?b) (sort ?m) \<longleftrightarrow> plan_cleared h a acts"
    using plan_blockers_Nil [OF flags, of h acts] m p by (auto simp: ready_to_apply_def sort_Nil_iff)
  have t: "texts (sort xs) = JArr [] \<longleftrightarrow> xs = []" for xs by (simp add: texts_def sort_Nil_iff)
  show ?thesis
  proof (rule that [OF acts])
    show "fld plan ''blockers'' = texts (sort ?b)" "fld plan ''missingChoices'' = texts (sort ?m)"
      using f unfolding plan_payload_keys by (simp_all add: plan_payload_def Let_def)
    then show "fld plan ''blockers'' = JArr [] \<and> \<not> truthy (fld (pa_project a) ''blocked'') \<longleftrightarrow> plan_cleared h a acts"
      "fld plan ''blockers'' = JArr [] \<longrightarrow> fld plan ''missingChoices'' = JArr [] \<and> truthy (pa_project a)"
      using plan_blockers_Nil [OF flags, of h acts] m p by (simp_all add: texts_def sort_Nil_iff)
  qed (use f in \<open>unfold plan_payload_keys, simp_all add: plan_payload_def Let_def r\<close>)
qed

text \<open>
  C19. A plan may be applied exactly when nothing stands in its way: the transaction was planned
  and is not blocked, no interrupted apply is pending, the configuration file is not malformed, an
  unknown lock or a legacy project was explicitly accepted by the human, every conflicting target has
  a choice of preserve or replace, a deferred update writes no managed file, and a refinement changes
  a setting of an adopted, valid project and writes nothing but the configuration. A plan that may be
  applied names no blocker and no missing choice, and no plan ever claims readiness for a governed change.
\<close>

theorem plan_ready_exact:
  assumes "buildOnboardingPlan h a = Inr plan"
  shows "\<exists>acts. project_actions (pa_project a) = Inr acts
    \<and> fld plan ''readyToApply'' = JBool (plan_cleared h a acts)
    \<and> (fld plan ''blockers'' = JArr [] \<longrightarrow> fld plan ''missingChoices'' = JArr [])
    \<and> (plan_cleared h a acts \<longrightarrow> fld plan ''blockers'' = JArr [] \<and> fld plan ''missingChoices'' = JArr [])
    \<and> fld (fld plan ''readiness'') ''project'' = JBool (plan_cleared h a acts \<and> \<not> list_ex (action_is WRITES) acts)
    \<and> fld (fld plan ''readiness'') ''governedChange'' = JBool False
    \<and> fld plan ''changes'' = JArr acts"
proof -
  obtain acts where "project_actions (pa_project a) = Inr acts" "fld plan ''readyToApply'' = JBool (plan_cleared h a acts)"
      "fld plan ''changes'' = JArr acts"
      "fld plan ''readiness'' = JObj [(''runtime'', JBool (truthy (fld (pa_runtime a) ''runtimeReady''))),
         (''project'', JBool (plan_cleared h a acts \<and> \<not> list_ex (action_is WRITES) acts)), (''governedChange'', JBool False)]"
      "fld plan ''blockers'' = JArr [] \<and> \<not> truthy (fld (pa_project a) ''blocked'') \<longleftrightarrow> plan_cleared h a acts"
      "fld plan ''blockers'' = JArr [] \<longrightarrow> fld plan ''missingChoices'' = JArr [] \<and> truthy (pa_project a)"
    by (rule plan_fields [OF assms])
  then show ?thesis by (intro exI [of _ acts]) (auto simp: fld_own)
qed

definition sample_args :: onboarding_args where
  "sample_args = \<lparr>pa_inventory = JObj [(''classification'', JStr ''absent'')], pa_runtime = JNull, pa_project = JObj [(''blocked'', JBool False)],
     pa_choices = JObj [], pa_request = JUndef, pa_root = JStr ''/pkg'', pa_journey = JStr ''adoption'', pa_report = None\<rparr>"

theorem plan_ready_exact_witness:
  "\<exists>plan. buildOnboardingPlan const_host sample_args = Inr plan \<and> fld plan ''readyToApply'' = JBool True"
proof -
  have acts: "project_actions (pa_project sample_args) = Inr []"
    by (simp add: project_actions_def sample_args_def fld_own proto_names_def)
  then obtain plan where b: "buildOnboardingPlan const_host sample_args = Inr plan"
    by (simp add: buildOnboardingPlan_def require_flag_def attach_report_def sample_args_def fld_own proto_names_def Let_def)
  have "plan_cleared const_host sample_args []"
    by (simp add: plan_cleared_def sample_args_def fld_own proto_names_def lock_unknown_def conflicts_resolved_def
        conflict_targets_def js_set_def)
  with plan_ready_exact [OF b] acts b show ?thesis by auto
qed


section \<open>What the preview shows\<close>

lemma set_js_set: "set (js_set xs) = set xs"
proof -
  have "set (foldl js_set_add acc xs) = set acc \<union> set xs" for acc
    by (induction xs arbitrary: acc) (auto simp: js_set_add_def dest: js_includes_in_set)
  then show ?thesis by (simp add: js_set_def)
qed

definition shown :: "js \<Rightarrow> string \<Rightarrow> js set" where
  "shown plan k = set (elems (fld (fld plan ''preview'') k))"

definition framework_paths :: "js set" where
  "framework_paths = {JStr ''agent-framework-lock.json'', JStr ''.gitignore'', JStr ''.agentflow/transactions/.gitignore'',
     JStr ''.agentflow/transactions/<transaction-id>/manifest.json'', JStr ''.agentflow/transactions/<transaction-id>/receipt.json''}"

definition framework_only :: "preview \<Rightarrow> preview \<Rightarrow> bool" where
  "framework_only v v' \<longleftrightarrow>
     set (pv_create v) \<union> set (pv_change v) \<subseteq> set (pv_create v') \<union> set (pv_change v')
     \<and> set (pv_create v') \<union> set (pv_change v') \<subseteq> set (pv_create v) \<union> set (pv_change v) \<union> framework_paths
     \<and> pv_remove v' = pv_remove v \<and> pv_untouched v' = pv_untouched v"

lemma framework_only_push: "framework_only v v' \<Longrightarrow> JStr p \<in> framework_paths \<Longrightarrow> framework_only v (push_path c p v')"
  by (auto simp: framework_only_def push_path_def)

lemma framework_only_refl: "framework_only v v"
  by (simp add: framework_only_def)

lemma storage_preview_sets: "framework_only v v' \<Longrightarrow> framework_only v (storage_preview s v')"
  by (simp add: storage_preview_def Let_def framework_only_push framework_paths_def)

text \<open>
  The preview of a plan shows what the plan writes: the paths under create and change are
  the targets of the actions that write and, only when there is one, files of the framework itself;
  the removed paths are the targets of the removals, and the untouched ones those of the actions that
  leave a file as it is.
\<close>

theorem preview_shows_writes:
  assumes "buildOnboardingPlan h a = Inr plan"
  shows "\<exists>acts. fld plan ''changes'' = JArr acts
    \<and> set (targets (action_is WRITES) acts) \<subseteq> shown plan ''create'' \<union> shown plan ''change''
    \<and> shown plan ''create'' \<union> shown plan ''change'' \<subseteq> set (targets (action_is WRITES) acts) \<union> framework_paths
    \<and> (\<not> list_ex (action_is WRITES) acts \<longrightarrow> shown plan ''create'' = {} \<and> shown plan ''change'' = {})
    \<and> shown plan ''remove'' = set (targets (action_is [''remove'']) acts)
    \<and> shown plan ''untouched'' = set (targets (action_is [''identical'', ''preserve'']) acts)"
proof -
  obtain acts where f: "\<And>k. k \<in> set (map fst (plan_payload h a (plan_options (pa_choices a)) acts)) \<Longrightarrow>
      fld plan k = the (map_of (plan_payload h a (plan_options (pa_choices a)) acts) k)"
    using plan_fld [OF assms] by blast
  have c: "fld plan ''changes'' = JArr acts" and p: "fld plan ''preview'' = previewOf h acts (pa_project a)"
    using f unfolding plan_payload_keys by (simp_all add: plan_payload_def Let_def)
  let ?v0 = "action_preview acts"
  define v where "v = (if pv_create ?v0 \<noteq> [] \<or> pv_change ?v0 \<noteq> []
     then storage_preview (fld (pa_project a) ''storage'')
            (push_path (truthy (fld (pa_project a) ''priorLockHash'')) ''agent-framework-lock.json'' ?v0) else ?v0)"
  have s: "shown plan ''create'' = set (pv_create v)" "shown plan ''change'' = set (pv_change v)"
    "shown plan ''remove'' = set (pv_remove v)" "shown plan ''untouched'' = set (pv_untouched v)"
    unfolding shown_def p previewOf_def Let_def v_def [symmetric] by (simp_all add: fld_own sorted_values_def set_js_set)
  have w: "set (pv_create ?v0) \<union> set (pv_change ?v0) = set (targets (action_is WRITES) acts)"
    by (auto simp: action_preview_def targets_def)
  have n: "\<not> list_ex (action_is WRITES) acts \<Longrightarrow> pv_create ?v0 = [] \<and> pv_change ?v0 = []"
    by (auto simp: action_preview_def targets_def filter_empty_conv list_ex_iff)
  have "JStr ''agent-framework-lock.json'' \<in> framework_paths" by (simp add: framework_paths_def)
  then have "framework_only ?v0 v"
    unfolding v_def by (simp add: storage_preview_sets framework_only_push framework_only_refl)
  moreover have "\<not> list_ex (action_is WRITES) acts \<Longrightarrow> v = ?v0" using n by (simp add: v_def)
  ultimately show ?thesis
    using c s w n by (intro exI [of _ acts]) (auto simp: action_preview_def framework_only_def)
qed

theorem preview_shows_writes_witness:
  "\<exists>plan. buildOnboardingPlan const_host sample_args = Inr plan \<and> shown plan ''create'' = {} \<and> shown plan ''change'' = {}"
proof -
  have acts: "project_actions (pa_project sample_args) = Inr []"
    by (simp add: project_actions_def sample_args_def fld_own proto_names_def)
  then obtain plan where b: "buildOnboardingPlan const_host sample_args = Inr plan"
    by (simp add: buildOnboardingPlan_def require_flag_def attach_report_def sample_args_def fld_own proto_names_def Let_def)
  obtain acts' where "project_actions (pa_project sample_args) = Inr acts'" "fld plan ''changes'' = JArr acts'"
    by (rule plan_fields [OF b])
  with preview_shows_writes [OF b] acts b show ?thesis by auto
qed

end
