(* ===== verification/OnboardingService.thy ===== *)
theory OnboardingService
  imports OnboardingPlan Binding
begin

text \<open>
  The onboarding service (src/lib/application/onboarding-service.mjs). Its ports reach the file
  system, so they are parameters that read and change the state of the world; the operations of the
  service pass that state along. \<open>plan\<close> shows what would be written, \<open>apply\<close> repeats the
  planning and hands the transaction over only if the repetition gives the confirmed plan again.
\<close>

section \<open>Operations on the world\<close>

type_synonym ('w, 'a) io = "'w \<Rightarrow> 'w \<times> 'a res"

definition io_bind :: "('w, 'a) io \<Rightarrow> ('a \<Rightarrow> ('w, 'b) io) \<Rightarrow> ('w, 'b) io" where
  "io_bind m f = (\<lambda>w. case m w of (v, Inl e) \<Rightarrow> (v, Inl e) | (v, Inr x) \<Rightarrow> f x v)"

definition io_res :: "'a res \<Rightarrow> ('w, 'a) io" where
  "io_res r = (\<lambda>w. (w, r))"

text \<open>\<open>try { x = m } catch (err) { ... }\<close>: the error becomes a value.\<close>

definition io_caught :: "('w, 'a) io \<Rightarrow> ('w, 'a res) io" where
  "io_caught m = (\<lambda>w. case m w of (v, r) \<Rightarrow> (v, Inr r))"

text \<open>\<open>if (b) throw new Error(message)\<close>\<close>

definition refuse_if :: "bool \<Rightarrow> string \<Rightarrow> unit res" where
  "refuse_if b m = (if b then fail m else Inr ())"

text \<open>The ports the service is created with. The report reads the world it is asked in.\<close>

record 'w ports =
  inspect_port :: "js \<Rightarrow> js \<Rightarrow> js \<Rightarrow> ('w, js) io"
  plan_port :: "js \<Rightarrow> js \<Rightarrow> js \<Rightarrow> ('w, js) io"
  apply_port :: "js \<Rightarrow> js \<Rightarrow> js \<Rightarrow> js \<Rightarrow> ('w, js) io"
  recover_port :: "js \<Rightarrow> js \<Rightarrow> ('w, js) io"
  assess_port :: "js \<Rightarrow> js \<Rightarrow> ('w, js) io"
  report_port :: "('w \<Rightarrow> js \<Rightarrow> js res) option"

section \<open>Shared steps\<close>

fun error_message :: "jserr \<Rightarrow> string" where
  "error_message (Error m) = m"
| "error_message (TypeError m) = m"

definition reportFor :: "'w ports \<Rightarrow> 'w \<Rightarrow> string \<Rightarrow> (string \<times> js) list \<Rightarrow> (js \<Rightarrow> js res) option" where
  "reportFor P w stage base = map_option (\<lambda>report p. report w (JObj (obj_spread [(''stage'', JStr stage)] (base
     @ [(''inventory'', fld p ''inventory''), (''runtime'', fld p ''runtime''), (''projectPlan'', fld p ''projectPlan''),
        (''choices'', fld p ''choices''), (''planBlockers'', fld p ''blockers'')])))) (report_port P)"

definition seed_values :: "js \<Rightarrow> js" where
  "seed_values config = (if truthy config \<and> own_props config \<noteq> [] then JObj [(''agent-workflow.config.json'', config)] else JUndef)"

definition project_options :: "js \<Rightarrow> js \<Rightarrow> js \<Rightarrow> js \<Rightarrow> js \<Rightarrow> bool \<Rightarrow> js" where
  "project_options prof resolutions seeds migrate recover harness =
     JObj [(''profile'', prof), (''resolutions'', resolutions), (''seedValues'', seeds), (''migrateLegacy'', migrate),
       (''recoverUnknown'', recover), (''harness'', JBool harness)]"

definition assess_if :: "'w ports \<Rightarrow> js \<Rightarrow> js \<Rightarrow> ('w, js) io" where
  "assess_if P request evidence =
     (if truthy request \<and> truthy evidence then assess_port P request evidence else io_res (Inr JNull))"

definition input_or :: "js \<Rightarrow> string \<Rightarrow> js \<Rightarrow> js" where
  "input_or input k d = js_default (fld input k) d"

definition with_diagnostics :: "js \<Rightarrow> js list \<Rightarrow> js" where
  "with_diagnostics inventory diagnostics =
     JObj (if truthy inventory then obj_spread (obj_spread [] (own_props inventory)) [(''diagnostics'', JArr diagnostics)]
           else [(''diagnostics'', JArr diagnostics)])"

definition refining :: "js \<Rightarrow> js \<Rightarrow> js" where
  "refining journey choices =
     (if journey = JStr ''refinement'' then JObj (obj_spread (obj_spread [] (own_props choices)) [(''harness'', JBool False)]) else choices)"

section \<open>Inspect and plan\<close>

definition inspect_project :: "'w ports \<Rightarrow> js \<Rightarrow> ('w, js) io" where
  "inspect_project P input =
     inspect_port P (fld input ''packageRoot'') (fld input ''targetDir'')
       (JObj [(''profile'', input_or input ''profile'' (JStr ''standard''))])"

definition service_inspect :: "'w ports \<Rightarrow> js \<Rightarrow> ('w, js) io" where
  "service_inspect P input =
     io_bind (inspect_project P input) (\<lambda>inventory.
     io_bind (assess_if P (fld input ''runtimeRequest'') (fld input ''runtimeEvidence'')) (\<lambda>runtime.
     io_res (Inr (JObj [(''inventory'', inventory), (''runtime'', runtime)]))))"

definition diagnostics_of :: "js \<Rightarrow> js list res" where
  "diagnostics_of inventory = (if truthy (fld inventory ''diagnostics'') then js_iter (fld inventory ''diagnostics'') else Inr [])"

definition planned_options :: "js \<Rightarrow> js \<Rightarrow> js \<Rightarrow> js" where
  "planned_options prof journey choices =
     project_options prof (coal (fld choices ''resolutions'') (JObj [])) (seed_values (fld choices ''config''))
       (JBool (truthy (fld choices ''migrateLegacy''))) (JBool (truthy (fld choices ''recoverUnknown'')))
       (journey \<noteq> JStr ''refinement'' \<and> fld choices ''harness'' \<noteq> JBool False)"

definition service_plan :: "host \<Rightarrow> 'w ports \<Rightarrow> js \<Rightarrow> ('w, js) io" where
  "service_plan h P input =
     (let choices = input_or input ''choices'' (JObj []); journey = input_or input ''journey'' (JStr ''adoption'');
          pkg = fld input ''packageRoot''; target = fld input ''targetDir'' in
      io_bind (io_res (require_flag choices ''recoverUnknown'')) (\<lambda>_.
      io_bind (io_res (require_flag choices ''migrateLegacy'')) (\<lambda>_.
      io_bind (inspect_project P input) (\<lambda>inventory.
      io_bind (assess_if P (fld input ''runtimeRequest'') (fld input ''runtimeEvidence'')) (\<lambda>runtime.
      io_bind (io_res (diagnostics_of inventory)) (\<lambda>diagnostics.
      io_bind (io_caught (plan_port P pkg target (planned_options (input_or input ''profile'' (JStr ''standard'')) journey choices)))
        (\<lambda>planned w. (w, buildOnboardingPlan h
           \<lparr>pa_inventory = with_diagnostics inventory
              (diagnostics @ (case planned of Inl e \<Rightarrow> [JStr (error_message e)] | Inr _ \<Rightarrow> [])),
            pa_runtime = runtime, pa_project = (case planned of Inl _ \<Rightarrow> JNull | Inr p \<Rightarrow> p),
            pa_choices = refining journey choices, pa_request = fld input ''runtimeRequest'', pa_root = pkg, pa_journey = journey,
            pa_report = reportFor P w ''plan'' [(''journey'', journey), (''targetDir'', target)]\<rparr>))))))))"

section \<open>Apply\<close>

text \<open>\<open>v && v.length > 0\<close> and \<open>v.join('; ')\<close>\<close>

definition has_entries :: "host \<Rightarrow> js \<Rightarrow> bool" where
  "has_entries h v = (truthy v \<and> num_less (Fin 0) (to_number h (fld v ''length'')))"

definition joined :: "host \<Rightarrow> js \<Rightarrow> string" where
  "joined h v = js_join ''; '' (map (\<lambda>x. if nullish x then [] else js_string h x) (elems v))"

definition refuse_entries :: "host \<Rightarrow> js \<Rightarrow> string \<Rightarrow> unit res" where
  "refuse_entries h v m =
     (if has_entries h v then (if is_array v then fail (m @ joined h v) else Inl (TypeError ''join is not a function'')) else Inr ())"

definition check_confirmation :: "host \<Rightarrow> js \<Rightarrow> js \<Rightarrow> unit res" where
  "check_confirmation h plan confirm =
     bnd (refuse_if (\<not> truthy plan \<or> \<not> hasCurrentDigest h plan) ''Invalid or corrupted plan: digest check failed'') (\<lambda>_.
     bnd (refuse_if (\<not> js_eq confirm (fld plan ''digest''))
       (''Confirmation token mismatch: expected '' @ js_string h (fld plan ''digest'') @ '', received '' @ js_string h confirm)) (\<lambda>_.
     bnd (refuse_entries h (fld plan ''blockers'') ''Cannot apply plan with blockers: '') (\<lambda>_.
     bnd (refuse_entries h (fld plan ''missingChoices'') ''Cannot apply plan with missing choices: '') (\<lambda>_.
     refuse_if (truthy (fld (fld plan ''projectPlan'') ''blocked'')) ''Cannot apply blocked project plan''))))"

definition root_drifted :: "js \<Rightarrow> js \<Rightarrow> bool" where
  "root_drifted before now =
     (truthy before \<and> truthy now
      \<and> (\<not> js_eq (fld before ''dev'') (fld now ''dev'') \<or> \<not> js_eq (fld before ''ino'') (fld now ''ino'')))"

definition check_inventory :: "host \<Rightarrow> js \<Rightarrow> js \<Rightarrow> unit res" where
  "check_inventory h plan inventory =
     bnd (refuse_if (root_drifted (fld plan ''rootIdentity'') (fld inventory ''rootIdentity''))
       ''Target root identity drifted; replan required'') (\<lambda>_.
     refuse_if (truthy (fld plan ''inventoryDigest'') \<and> \<not> js_eq (digest_or_null h inventory) (fld plan ''inventoryDigest''))
       ''Project inventory drifted since plan creation; replan required'')"

definition fresh_runtime :: "host \<Rightarrow> 'w ports \<Rightarrow> js \<Rightarrow> js \<Rightarrow> ('w, js) io" where
  "fresh_runtime h P plan evidence =
     (if truthy (fld plan ''runtimeRequest'') \<and> truthy evidence
      then io_bind (assess_port P (fld plan ''runtimeRequest'') evidence) (\<lambda>runtime.
           io_bind (io_res (refuse_if (truthy (fld plan ''runtimeDigest'') \<and> \<not> js_eq (digest_or_null h runtime) (fld plan ''runtimeDigest''))
             ''Runtime evidence drifted since plan creation; replan required'')) (\<lambda>_. io_res (Inr runtime)))
      else if truthy (fld plan ''runtimeDigest'')
      then io_res (fail ''Runtime evidence is missing or drifted; replan required'')
      else io_res (Inr JNull))"

definition confirmed_options :: "js \<Rightarrow> js \<Rightarrow> js" where
  "confirmed_options prof plan =
     (let opts = fld plan ''options'' in
      project_options prof (fld opts ''resolutions'') (seed_values (fld opts ''config'')) (fld opts ''migrateLegacy'')
        (fld opts ''recoverUnknown'') (fld opts ''harness'' \<noteq> JBool False))"

definition rest_options :: "js \<Rightarrow> js" where
  "rest_options applyOptions = JObj (obj_del (obj_del (obj_spread [] (own_props applyOptions)) ''confirm'') ''runtimeEvidence'')"

text \<open>The last part of \<open>apply\<close>: plan again, compare, hand over.\<close>

definition replan_args :: "'w ports \<Rightarrow> 'w \<Rightarrow> js \<Rightarrow> js \<Rightarrow> js \<Rightarrow> js \<Rightarrow> js \<Rightarrow> js \<Rightarrow> onboarding_args" where
  "replan_args P w plan inventory runtime project pkg target =
     (let journey = coal (fld plan ''journey'') (JStr ''adoption'') in
      \<lparr>pa_inventory = inventory, pa_runtime = runtime, pa_project = project, pa_choices = js_default (fld plan ''options'') (JObj []),
       pa_request = fld plan ''runtimeRequest'', pa_root = pkg, pa_journey = journey,
       pa_report = (if truthy (fld plan ''report'') then reportFor P w ''plan'' [(''journey'', journey), (''targetDir'', target)] else None)\<rparr>)"

definition hand_over :: "host \<Rightarrow> 'w ports \<Rightarrow> js \<Rightarrow> js \<Rightarrow> js \<Rightarrow> js \<Rightarrow> js \<Rightarrow> js \<Rightarrow> js \<Rightarrow> js \<Rightarrow> ('w, js) io" where
  "hand_over h P plan confirm rest inventory runtime prof pkg target =
     io_bind (plan_port P pkg target (confirmed_options prof plan)) (\<lambda>project w.
     io_bind (io_res (bnd (buildOnboardingPlan h (replan_args P w plan inventory runtime project pkg target)) (\<lambda>fresh.
        refuse_if (\<not> js_eq (fld fresh ''digest'') (fld plan ''digest''))
          ''Onboarding plan content drifted from fresh recomputation; replan required''))) (\<lambda>_.
     apply_port P pkg target (fld plan ''projectPlan'')
       (JObj (obj_spread [(''confirm'', coal (fld (fld plan ''projectPlan'') ''token'') confirm)] (own_props rest)))) w)"

definition check_application :: "host \<Rightarrow> js \<Rightarrow> js \<Rightarrow> js \<Rightarrow> js \<Rightarrow> unit res" where
  "check_application h plan applyOptions target pkg =
     bnd (dot applyOptions ''confirm'') (\<lambda>confirm.
     bnd (check_confirmation h plan confirm) (\<lambda>_.
     bnd (refuse_if (\<not> truthy target) ''targetDir is required to apply onboarding plan'') (\<lambda>_.
     refuse_if (\<not> truthy pkg) ''packageRoot is required to apply onboarding plan'')))"

text \<open>The inventory must be the planned one before the runtime is assessed again.\<close>

definition fresh_state :: "host \<Rightarrow> 'w ports \<Rightarrow> js \<Rightarrow> js \<Rightarrow> js \<Rightarrow> ('w, js) io" where
  "fresh_state h P plan inventory evidence =
     io_bind (io_res (check_inventory h plan inventory)) (\<lambda>_. fresh_runtime h P plan evidence)"

definition service_apply :: "host \<Rightarrow> 'w ports \<Rightarrow> js \<Rightarrow> js \<Rightarrow> ('w, js) io" where
  "service_apply h P plan applyOptions0 =
     (let applyOptions = js_default applyOptions0 (JObj []); rest = rest_options applyOptions;
          target = coal (fld rest ''targetDir'') (fld plan ''target''); pkg = coal (fld rest ''packageRoot'') (fld plan ''packageRoot'');
          prof = coal (fld (fld plan ''projectPlan'') ''profile'') (coal (fld rest ''profile'') (JStr ''standard'')) in
      io_bind (io_res (check_application h plan applyOptions target pkg)) (\<lambda>_.
      io_bind (inspect_port P pkg target (JObj [(''profile'', prof)])) (\<lambda>inventory.
      io_bind (fresh_state h P plan inventory (coal (fld applyOptions ''runtimeEvidence'') (fld rest ''runtimeEvidence''))) (\<lambda>runtime.
      hand_over h P plan (fld applyOptions ''confirm'') rest inventory runtime prof pkg target))))"

section \<open>Verify and recover\<close>

text \<open>A write the project still waits for.\<close>

definition pending_mutation :: "js \<Rightarrow> bool" where
  "pending_mutation a = (action_is WRITES a \<and> (fld a ''ownership'' \<noteq> JStr ''project'' \<or> action_is [''create'', ''update''] a))"

definition has_conflicts :: "host \<Rightarrow> js \<Rightarrow> bool" where
  "has_conflicts h project = (truthy (fld project ''blocked'')
     \<or> (truthy (fld project ''conflicts'') \<and> num_less (Fin 0) (to_number h (fld (fld project ''conflicts'') ''length''))))"

text \<open>\<open>actions.some(...)\<close>; what is not an array has no \<open>some\<close>.\<close>

definition pending_mutations :: "js \<Rightarrow> bool res" where
  "pending_mutations project =
     (case fld project ''actions'' of
        JArr acts \<Rightarrow> some_res (\<lambda>a. bnd (dot a ''action'') (\<lambda>_. Inr (pending_mutation a))) acts
      | v \<Rightarrow> if truthy v then Inl (TypeError ''actions.some is not a function'') else Inr True)"

definition project_ready :: "host \<Rightarrow> js \<Rightarrow> js res \<Rightarrow> bool \<Rightarrow> bool" where
  "project_ready h inventory planned pending =
     (fld (fld inventory ''lock'') ''format'' = JStr ''v2'' \<and> \<not> truthy (fld inventory ''pendingJournal'')
      \<and> (case planned of Inl _ \<Rightarrow> False | Inr project \<Rightarrow> truthy project \<and> \<not> has_conflicts h project)
      \<and> \<not> pending \<and> \<not> one_of [''conflicting'', ''unknown''] (fld inventory ''classification''))"

definition verify_result :: "host \<Rightarrow> js \<Rightarrow> js \<Rightarrow> js res \<Rightarrow> bool \<Rightarrow> js list \<Rightarrow> (string \<times> js) list" where
  "verify_result h inventory runtime planned pending diagnostics =
     [(''projectReady'', JBool (project_ready h inventory planned pending)),
      (''runtimeReady'', JBool (truthy (fld runtime ''runtimeReady''))), (''governedChangeReady'', JBool False),
      (''explanation'', JStr ''Needs issue contract and actual verification''),
      (''inventory'', with_diagnostics inventory (diagnostics @ (case planned of Inl e \<Rightarrow> [JStr (error_message e)] | Inr _ \<Rightarrow> []))),
      (''runtime'', runtime), (''projectPlan'', case planned of Inl _ \<Rightarrow> JNull | Inr p \<Rightarrow> p),
      (''planError'', case planned of Inl e \<Rightarrow> JStr (error_message e) | Inr _ \<Rightarrow> JNull)]"

definition verify_report :: "'w ports \<Rightarrow> js \<Rightarrow> js \<Rightarrow> js \<Rightarrow> js res \<Rightarrow> 'w \<Rightarrow> (string \<times> js) list res" where
  "verify_report P input inventory runtime planned w =
     (case report_port P of
        None \<Rightarrow> Inr []
      | Some report \<Rightarrow> bnd (report w (JObj
          [(''stage'', input_or input ''stage'' (JStr ''verify'')), (''journey'', input_or input ''journey'' (JStr ''adoption'')),
           (''targetDir'', fld input ''targetDir''), (''inventory'', inventory), (''runtime'', runtime),
           (''projectPlan'', case planned of Inl _ \<Rightarrow> JNull | Inr p \<Rightarrow> p), (''choices'', input_or input ''choices'' (JObj [])),
           (''planBlockers'', JArr (case planned of Inl e \<Rightarrow> [JStr (error_message e)] | Inr _ \<Rightarrow> [])),
           (''stop'', input_or input ''stop'' JNull), (''confirmed'', input_or input ''confirmed'' JNull),
           (''receipt'', input_or input ''receipt'' JNull)])) (\<lambda>r. Inr [(''report'', r)]))"

definition verified_options :: "js \<Rightarrow> js \<Rightarrow> js \<Rightarrow> js" where
  "verified_options prof journey choices =
     project_options prof (fld choices ''resolutions'')
       (if truthy (fld choices ''config'') then JObj [(''agent-workflow.config.json'', fld choices ''config'')] else JUndef)
       (JBool (truthy (fld choices ''migrateLegacy''))) (JBool (truthy (fld choices ''recoverUnknown'')))
       (journey \<noteq> JStr ''refinement'' \<and> fld choices ''harness'' \<noteq> JBool False)"

definition service_verify :: "host \<Rightarrow> 'w ports \<Rightarrow> js \<Rightarrow> ('w, js) io" where
  "service_verify h P input =
     (let choices = input_or input ''choices'' (JObj []); journey = input_or input ''journey'' (JStr ''adoption'') in
      io_bind (io_res (require_flag choices ''recoverUnknown'')) (\<lambda>_.
      io_bind (io_res (require_flag choices ''migrateLegacy'')) (\<lambda>_.
      io_bind (inspect_project P input) (\<lambda>inventory.
      io_bind (assess_if P (fld input ''runtimeRequest'') (fld input ''runtimeEvidence'')) (\<lambda>runtime.
      io_bind (io_caught (plan_port P (fld input ''packageRoot'') (fld input ''targetDir'')
        (verified_options (input_or input ''profile'' (JStr ''standard'')) journey choices))) (\<lambda>planned.
      io_bind (io_res (diagnostics_of inventory)) (\<lambda>diagnostics.
      io_bind (io_res (pending_mutations (case planned of Inl _ \<Rightarrow> JNull | Inr p \<Rightarrow> p))) (\<lambda>pending w.
        (w, bnd (verify_report P input inventory runtime planned w) (\<lambda>more.
            Inr (JObj (verify_result h inventory runtime planned pending diagnostics @ more))))))))))))"

definition service_recover :: "host \<Rightarrow> 'w ports \<Rightarrow> js \<Rightarrow> js \<Rightarrow> ('w, js) io" where
  "service_recover h P input options0 =
     (let opts = js_default options0 (JObj []) in
      io_bind (io_res (refuse_if (\<not> truthy (fld input ''targetDir'')) ''targetDir is required for recovery'')) (\<lambda>_.
      io_bind (recover_port P (fld input ''targetDir'') (JObj [(''confirm'', fld opts ''confirm'')])) (\<lambda>recovery.
      io_bind (service_plan h P input) (\<lambda>plan.
      io_res (Inr (JObj [(''recovery'', recovery), (''plan'', plan)]))))))"


section \<open>Facts\<close>

lemma io_bind_cases:
  assumes "io_bind m f w = (w', r)"
  obtains e where "m w = (w', Inl e)" "r = Inl e" | x v where "m w = (v, Inr x)" "f x v = (w', r)"
proof (cases "m w")
  case (Pair v s)
  with assms show ?thesis by (cases s) (auto simp: io_bind_def intro: that)
qed

lemma io_bind_simps [simp]:
  "m w = (v, Inr x) \<Longrightarrow> io_bind m f w = f x v" "m w = (v, Inl e) \<Longrightarrow> io_bind m f w = (v, Inl e)"
  "io_res q w = (w, q)"
  by (simp_all add: io_bind_def io_res_def)

lemma refuse_if_Inr: "refuse_if b m = Inr u \<longleftrightarrow> \<not> b"
  by (simp add: refuse_if_def)

text \<open>An operation that keeps a property of the world.\<close>

definition keeps :: "('w \<Rightarrow> bool) \<Rightarrow> ('w, 'a) io \<Rightarrow> bool" where
  "keeps Q m \<longleftrightarrow> (\<forall>w. Q w \<longrightarrow> Q (fst (m w)))"

text \<open>The ports that only read keep it.\<close>

definition reads_only :: "('w \<Rightarrow> bool) \<Rightarrow> 'w ports \<Rightarrow> bool" where
  "reads_only Q P \<longleftrightarrow> (\<forall>a b c. keeps Q (inspect_port P a b c)) \<and> (\<forall>a b c. keeps Q (plan_port P a b c))
     \<and> (\<forall>a b. keeps Q (assess_port P a b))"

lemma keeps_bind: "keeps Q m \<Longrightarrow> (\<And>x. keeps Q (f x)) \<Longrightarrow> keeps Q (io_bind m f)"
  by (fastforce simp: keeps_def io_bind_def split: prod.splits sum.splits)

lemma keeps_res [simp]: "keeps Q (io_res r)"
  by (simp add: keeps_def io_res_def)

lemma keepsD: "keeps Q m \<Longrightarrow> m w = (v, r) \<Longrightarrow> Q w \<Longrightarrow> Q v"
  by (metis fst_conv keeps_def)

lemma reads_only_keep:
  "reads_only Q P \<Longrightarrow> inspect_port P a b c w = (v, x) \<Longrightarrow> Q w \<Longrightarrow> Q v"
  "reads_only Q P \<Longrightarrow> plan_port P a b c w = (v, x) \<Longrightarrow> Q w \<Longrightarrow> Q v"
  unfolding reads_only_def by (meson keepsD)+

lemma keeps_fresh_runtime: "reads_only Q P \<Longrightarrow> keeps Q (fresh_runtime h P plan ev)"
  by (auto simp: fresh_runtime_def reads_only_def intro!: keeps_bind)

text \<open>The plan that was confirmed and the plan made again.\<close>

definition plan_text :: "host \<Rightarrow> js \<Rightarrow> string" where
  "plan_text h p = stable_text h (JObj (digest_payload p))"

definition collision_free :: "host \<Rightarrow> js \<Rightarrow> js \<Rightarrow> bool" where
  "collision_free h p q = (sha256 h (plan_text h p) = sha256 h (plan_text h q) \<longrightarrow> plan_text h p = plan_text h q)"

lemma built_digest:
  assumes "buildOnboardingPlan h a = Inr fresh"
  shows "fld fresh ''digest'' = JStr (recordDigest h fresh)" and "\<exists>fs. fresh = JObj fs"
proof -
  from assms obtain acts payload more where m: "payload = plan_payload h a (plan_options (pa_choices a)) acts @ more"
      "fst ` set more \<subseteq> {''report''}" "fresh = JObj (payload @ [(''digest'', JStr (recordDigest h (JObj payload)))])"
    by (rule buildOnboardingPlan_Inr)
  have "fst ` set (plan_payload h a (plan_options (pa_choices a)) acts) = set (map fst (plan_payload h a (plan_options (pa_choices a)) acts))"
    by simp
  then have k: "''digest'' \<notin> fst ` set payload" using m(1,2) unfolding plan_payload_keys by (auto simp: image_Un)
  then have n: "map_of payload ''digest'' = None" by (simp add: map_of_eq_None_iff)
  have f: "filter (\<lambda>(k', _). k' \<noteq> ''digest'') payload = payload" using k by (intro filter_True) (auto simp: image_iff)
  have "obj_del (payload @ xs) ''digest'' = payload @ obj_del xs ''digest''" for xs
    using f by (simp add: obj_del_def)
  moreover have "obj_del payload ''digest'' = payload" using f by (simp add: obj_del_def)
  ultimately have d: "digest_payload (JObj payload) = payload" "digest_payload fresh = payload"
    by (simp_all add: m(3) digest_payload_def own_props_def coal_def obj_del_def)
  then have "recordDigest h fresh = recordDigest h (JObj payload)" by (simp add: recordDigest_def)
  with n show "fld fresh ''digest'' = JStr (recordDigest h fresh)" by (simp add: m(3) fld_own map_add_def)
  show "\<exists>fs. fresh = JObj fs" by (simp add: m(3))
qed

lemma current_object: "hasCurrentDigest h p \<Longrightarrow> \<exists>fs. p = JObj fs"
  by (cases p) (auto simp: hasCurrentDigest_def fld_def obj_get_def proto_names_def split: if_splits)

lemma same_digest_same_fields:
  assumes "hasCurrentDigest h plan" "buildOnboardingPlan h a = Inr fresh" "fld fresh ''digest'' = fld plan ''digest''"
    and "plain plan" "plain fresh" "collision_free h plan fresh" "k \<noteq> ''digest''"
  shows "canon (fld plan k) = canon (fld fresh k)"
proof -
  obtain fs where fresh: "fresh = JObj fs" using built_digest(2) assms(2) by blast
  from assms(1) have d: "fld plan ''digest'' = JStr (recordDigest h plan)" by (simp add: hasCurrentDigest_def)
  obtain gs where plan: "plan = JObj gs" using current_object assms(1) by blast
  have "plan_text h plan = plan_text h fresh"
  proof -
    have "recordDigest h p = sha256 h (plan_text h p)" for p by (simp only: recordDigest_def plan_text_def)
    moreover have "recordDigest h fresh = recordDigest h plan" using assms(3) d built_digest(1) [OF assms(2)] by (metis js.inject(3))
    ultimately show ?thesis using assms(6) unfolding collision_free_def by metis
  qed
  moreover have p: "plain (JObj (digest_payload (JObj gs)))" "plain (JObj (digest_payload (JObj fs)))"
    using plain_payload assms(4,5) unfolding plan fresh by blast+
  ultimately have "canon (JObj (digest_payload (JObj gs))) = canon (JObj (digest_payload (JObj fs)))"
    by (simp only: plan fresh plan_text_def stable_text_canon [OF p])
  then show ?thesis unfolding plan fresh by (rule canon_payload_fld [OF _ p assms(7)])
qed


section \<open>What is handed over\<close>

text \<open>
  Planning again: from the world \<open>w\<close> the package and the target are inspected, the evidence checked
  and the transaction planned with the confirmed options, which ends in the world \<open>w1\<close>; \<open>a\<close> is what
  the plan is then built from. The call that may write is the one after it.
\<close>

definition apply_profile :: "js \<Rightarrow> js \<Rightarrow> js" where
  "apply_profile plan rest = coal (fld (fld plan ''projectPlan'') ''profile'') (coal (fld rest ''profile'') (JStr ''standard''))"

definition replanned :: "host \<Rightarrow> 'w ports \<Rightarrow> js \<Rightarrow> js \<Rightarrow> js \<Rightarrow> js \<Rightarrow> 'w \<Rightarrow> onboarding_args \<Rightarrow> 'w \<Rightarrow> bool" where
  "replanned h P plan applyOptions pkg target w a w1 \<longleftrightarrow>
     (\<exists>w0 inventory w2 runtime project.
        inspect_port P pkg target (JObj [(''profile'', apply_profile plan (rest_options applyOptions))]) w = (w0, Inr inventory)
        \<and> fresh_state h P plan inventory (coal (fld applyOptions ''runtimeEvidence'') (fld (rest_options applyOptions) ''runtimeEvidence'')) w0
            = (w2, Inr runtime)
        \<and> plan_port P pkg target (confirmed_options (apply_profile plan (rest_options applyOptions)) plan) w2 = (w1, Inr project)
        \<and> a = replan_args P w1 plan inventory runtime project pkg target)"

definition write_call :: "'w ports \<Rightarrow> js \<Rightarrow> js \<Rightarrow> js \<Rightarrow> js \<Rightarrow> ('w, js) io" where
  "write_call P plan applyOptions pkg target = apply_port P pkg target (fld plan ''projectPlan'')
     (JObj (obj_spread [(''confirm'', coal (fld (fld plan ''projectPlan'') ''token'') (fld applyOptions ''confirm''))]
       (own_props (rest_options applyOptions))))"

lemma hand_over_cases:
  assumes "hand_over h P plan confirm rest inventory runtime prof pkg target w2 = (w', r)"
  shows "(\<exists>e w1 q. plan_port P pkg target (confirmed_options prof plan) w2 = (w1, q) \<and> w' = w1 \<and> r = Inl e)
    \<or> (\<exists>project w1 fresh. plan_port P pkg target (confirmed_options prof plan) w2 = (w1, Inr project)
        \<and> buildOnboardingPlan h (replan_args P w1 plan inventory runtime project pkg target) = Inr fresh
        \<and> js_eq (fld fresh ''digest'') (fld plan ''digest'')
        \<and> apply_port P pkg target (fld plan ''projectPlan'')
            (JObj (obj_spread [(''confirm'', coal (fld (fld plan ''projectPlan'') ''token'') confirm)] (own_props rest))) w1 = (w', r))"
  using assms unfolding hand_over_def
proof (cases rule: io_bind_cases)
  case (2 project w1)
  let ?a = "replan_args P w1 plan inventory runtime project pkg target"
  from 2(2) show ?thesis
  proof (cases rule: io_bind_cases)
    case (1 e)
    with 2(1) show ?thesis by auto
  next
    case i: (2 x v)
    have "v = w1" and b: "bnd (buildOnboardingPlan h ?a) (\<lambda>fresh. refuse_if (\<not> js_eq (fld fresh ''digest'') (fld plan ''digest''))
        ''Onboarding plan content drifted from fresh recomputation; replan required'') = Inr x"
      using i(1) unfolding io_bind_simps(3) prod.inject by blast+
    from b obtain fresh where "buildOnboardingPlan h ?a = Inr fresh" "js_eq (fld fresh ''digest'') (fld plan ''digest'')"
      unfolding bnd_Inr refuse_if_Inr by blast
    with i(2) \<open>v = w1\<close> 2(1) show ?thesis by (intro disjI2 exI conjI) simp_all
  qed
qed blast

lemma check_confirmation_Inr:
  assumes "check_confirmation h plan confirm = Inr u"
  shows "hasCurrentDigest h plan" and "js_eq confirm (fld plan ''digest'')"
    and "\<not> has_entries h (fld plan ''blockers'')" and "\<not> has_entries h (fld plan ''missingChoices'')"
    and "\<not> truthy (fld (fld plan ''projectPlan'') ''blocked'')"
  using assms by (auto simp: check_confirmation_def refuse_if_Inr refuse_entries_def split: if_splits)

lemma dot_fld: "fld (js_default v (JObj [])) k = (if v = JUndef then fld (JObj []) k else fld v k)"
  by (simp add: js_default_def)

lemma keeps_fresh_state: "reads_only Q P \<Longrightarrow> keeps Q (fresh_state h P plan inventory ev)"
  unfolding fresh_state_def by (rule keeps_bind) (simp_all add: keeps_fresh_runtime)

lemma service_apply_cases:
  assumes "service_apply h P plan opts w = (w', r)" "Q w" "reads_only Q P"
  shows "(Q w' \<and> (\<exists>e. r = Inl e)) \<or> ((\<exists>u. check_confirmation h plan (fld (js_default opts (JObj [])) ''confirm'') = Inr u)
    \<and> (\<exists>ao pkg target a w1 fresh. ao = js_default opts (JObj [])
        \<and> target = coal (fld (rest_options ao) ''targetDir'') (fld plan ''target'')
        \<and> pkg = coal (fld (rest_options ao) ''packageRoot'') (fld plan ''packageRoot'')
        \<and> Q w1 \<and> replanned h P plan ao pkg target w a w1 \<and> buildOnboardingPlan h a = Inr fresh
        \<and> js_eq (fld fresh ''digest'') (fld plan ''digest'') \<and> write_call P plan ao pkg target w1 = (w', r)))"
  using assms(1) [unfolded service_apply_def Let_def apply_profile_def [symmetric]]
proof (cases rule: io_bind_cases)
  case (1 e)
  with assms(2) show ?thesis by simp
next
  case (2 x v)
  then have v: "v = w" by simp
  let ?ao = "js_default opts (JObj [])"
  let ?pkg = "coal (fld (rest_options ?ao) ''packageRoot'') (fld plan ''packageRoot'')"
  let ?target = "coal (fld (rest_options ?ao) ''targetDir'') (fld plan ''target'')"
  from 2(1) have c: "\<exists>u. check_confirmation h plan (fld ?ao ''confirm'') = Inr u"
    by (auto simp: check_application_def dot_Inr)
  from 2(2) show ?thesis
  proof (cases rule: io_bind_cases)
    case (1 e)
    have "Q w'" by (rule reads_only_keep(1) [OF assms(3) 1(1)]) (simp add: v assms(2))
    with 1(2) show ?thesis by simp
  next
    case i: (2 inventory v1)
    have q1: "Q v1" by (rule reads_only_keep(1) [OF assms(3) i(1)]) (simp add: v assms(2))
    from i(2) show ?thesis
    proof (cases rule: io_bind_cases)
      case (1 e)
      with keepsD [OF keeps_fresh_state [OF assms(3)] 1(1) q1] show ?thesis by simp
    next
      case f: (2 runtime v2)
      have q2: "Q v2" by (rule keepsD [OF keeps_fresh_state [OF assms(3)] f(1) q1])
      from hand_over_cases [OF f(2)] show ?thesis
      proof (elim disjE exE conjE)
        fix e w1 q assume "plan_port P ?pkg ?target (confirmed_options (apply_profile plan (rest_options ?ao)) plan) v2 = (w1, q)"
          and "w' = w1" "r = Inl e"
        with reads_only_keep(2) [OF assms(3) _ q2] show ?thesis by simp
      next
        fix project w1 fresh
        assume p: "plan_port P ?pkg ?target (confirmed_options (apply_profile plan (rest_options ?ao)) plan) v2 = (w1, Inr project)"
          and fresh: "buildOnboardingPlan h (replan_args P w1 plan inventory runtime project ?pkg ?target) = Inr fresh"
            "js_eq (fld fresh ''digest'') (fld plan ''digest'')"
          and wr: "apply_port P ?pkg ?target (fld plan ''projectPlan'') (JObj (obj_spread [(''confirm'',
            coal (fld (fld plan ''projectPlan'') ''token'') (fld ?ao ''confirm''))] (own_props (rest_options ?ao)))) w1 = (w', r)"
        have "replanned h P plan ?ao ?pkg ?target w (replan_args P w1 plan inventory runtime project ?pkg ?target) w1"
          unfolding replanned_def using i(1) f(1) p v by blast
        with fresh wr reads_only_keep(2) [OF assms(3) p q2] show ?thesis unfolding write_call_def
          by (intro disjI2 conjI [OF c] exI conjI) (rule refl | assumption)+
      qed
    qed
  qed
qed

lemma truthy_canon: "truthy (canon v) = truthy v"
  by (cases v) auto

lemma canon_fld:
  assumes "canon v = canon w" "plain v" "plain w"
  shows "canon (fld v k) = canon (fld w k)"
proof (cases v)
  case (JObj fs)
  with assms(1) obtain gs where w: "w = JObj gs" by (cases w) auto
  have "map_option canon (map_of fs k) = map_option canon (map_of gs k)"
    using assms JObj w by (intro canon_map_of) auto
  then show ?thesis unfolding JObj w by (cases "map_of fs k"; cases "map_of gs k") (simp_all add: fld_own)
next
  case (JArr xs)
  with assms(1) obtain ys where w: "w = JArr ys" "map canon ys = map canon xs" by (cases w) auto
  then have "length ys = length xs" by (metis length_map)
  then show ?thesis by (simp add: JArr w(1) fld_def)
qed (use assms(1) in \<open>cases w; simp\<close>)+

lemma plain_obj_fld:
  "plain (JObj fs) \<Longrightarrow> k \<notin> set proto_names \<Longrightarrow> fld (JObj fs) k \<noteq> JUndef \<Longrightarrow> plain (fld (JObj fs) k)"
  by (auto simp: fld_own split: option.splits dest: map_of_SomeD)

lemma has_entries_array: "has_entries h (JArr xs) \<longleftrightarrow> xs \<noteq> []"
  by (simp add: has_entries_def fld_def to_number_def)

lemma confirmed_cleared:
  assumes "check_confirmation h plan c = Inr u" "buildOnboardingPlan h a = Inr fresh"
    and "js_eq (fld fresh ''digest'') (fld plan ''digest'')" "plain plan" "plain fresh" "collision_free h plan fresh"
  shows "\<exists>acts. project_actions (pa_project a) = Inr acts \<and> plan_cleared h a acts
    \<and> canon (fld plan ''projectPlan'') = canon (coal (pa_project a) JNull) \<and> canon (fld plan ''changes'') = canon (JArr acts)"
proof -
  note chk = check_confirmation_Inr [OF assms(1)]
  have eq: "canon (fld plan k) = canon (fld fresh k)" if "k \<noteq> ''digest''" for k
    by (rule same_digest_same_fields [OF chk(1) assms(2) js_eq_imp_eq [OF assms(3)] assms(4-6) that])
  obtain acts where f: "project_actions (pa_project a) = Inr acts" "fld fresh ''changes'' = JArr acts"
      "fld fresh ''projectPlan'' = coal (pa_project a) JNull"
      "fld fresh ''blockers'' = texts (sort (plan_blockers h (pa_inventory a) (plan_options (pa_choices a)) (pa_project a) (pa_journey a) acts))"
      "fld fresh ''blockers'' = JArr [] \<and> \<not> truthy (fld (pa_project a) ''blocked'') \<longleftrightarrow> plan_cleared h a acts"
      "fld fresh ''blockers'' = JArr [] \<longrightarrow> fld fresh ''missingChoices'' = JArr [] \<and> truthy (pa_project a)"
    by (rule plan_fields [OF assms(2)])
  obtain xs where xs: "fld fresh ''blockers'' = JArr xs" using f(4) by (simp add: texts_def)
  with canon_array [of "fld plan ''blockers''" xs] eq [of "''blockers''"] obtain ys
    where ys: "fld plan ''blockers'' = JArr ys" "map canon ys = map canon xs" by auto
  from chk(3) have "ys = []" by (simp add: ys(1) has_entries_array)
  with ys(2) xs have b: "fld fresh ''blockers'' = JArr []" by simp
  with f(6) have t: "truthy (pa_project a)" by simp
  then have c: "coal (pa_project a) JNull = pa_project a" by (simp add: coal_def truthy_nullish)
  with eq [of "''projectPlan''"] f(3) have pp: "canon (fld plan ''projectPlan'') = canon (pa_project a)" by simp
  have "plain (fld plan ''projectPlan'')" "plain (pa_project a)"
  proof -
    obtain fs gs where o: "plan = JObj fs" "fresh = JObj gs" using current_object [OF chk(1)] built_digest(2) [OF assms(2)] by blast
    have n: "''projectPlan'' \<notin> set proto_names" by (simp add: proto_names_def)
    have "fld fresh ''projectPlan'' \<noteq> JUndef" using t f(3) c by auto
    with plain_obj_fld [OF assms(5) [unfolded o] n] f(3) c show "plain (pa_project a)" by (simp add: o)
    then have "fld plan ''projectPlan'' \<noteq> JUndef" using pp t by (metis canon.simps(3) truthy.simps(1) truthy_canon)
    with plain_obj_fld [OF assms(4) [unfolded o] n] show "plain (fld plan ''projectPlan'')" by (simp add: o)
  qed
  with pp have "canon (fld (fld plan ''projectPlan'') ''blocked'') = canon (fld (pa_project a) ''blocked'')" by (rule canon_fld)
  then have "\<not> truthy (fld (pa_project a) ''blocked'')" using chk(5) truthy_canon by metis
  with b f(5) have "plan_cleared h a acts" by simp
  with f(1,2) pp c eq [of "''changes''"] show ?thesis by auto
qed


section \<open>Properties\<close>

text \<open>
  C17. Apply hands a transaction to the port that writes only as confirmed. Either it
  throws, having called nothing but the reading ports (any property of the world they keep still
  holds); or the plan it was given carries its own digest, that digest was the confirmation, the plan
  names no blocker, no missing choice and no blocked transaction, and the transaction in it was given
  to the apply port for one package and target: those the caller named, or else the plan's. In that
  case the same package and target were just inspected and planned again from the present world, which
  gave a plan with the same digest. If that plan holds JSON values and does not collide with the
  confirmed one under the digest, then the transaction handed over is the one planned again, with its
  present actions, and no condition of a plan that may be applied fails.
\<close>

theorem apply_only_confirmed:
  assumes "service_apply h P plan opts w = (w', r)" and "Q w" and "reads_only Q P"
  shows "(Q w' \<and> (\<exists>e. r = Inl e))
    \<or> (hasCurrentDigest h plan \<and> js_eq (fld (js_default opts (JObj [])) ''confirm'') (fld plan ''digest'')
       \<and> \<not> has_entries h (fld plan ''blockers'') \<and> \<not> has_entries h (fld plan ''missingChoices'')
       \<and> \<not> truthy (fld (fld plan ''projectPlan'') ''blocked'')
       \<and> (\<exists>ao pkg target a w1 fresh. ao = js_default opts (JObj [])
          \<and> target = coal (fld (rest_options ao) ''targetDir'') (fld plan ''target'')
          \<and> pkg = coal (fld (rest_options ao) ''packageRoot'') (fld plan ''packageRoot'')
          \<and> Q w1 \<and> replanned h P plan ao pkg target w a w1 \<and> buildOnboardingPlan h a = Inr fresh
          \<and> js_eq (fld fresh ''digest'') (fld plan ''digest'') \<and> write_call P plan ao pkg target w1 = (w', r)
          \<and> (plain plan \<and> plain fresh \<and> collision_free h plan fresh \<longrightarrow>
              (\<exists>acts. project_actions (pa_project a) = Inr acts \<and> plan_cleared h a acts
                \<and> canon (fld plan ''projectPlan'') = canon (coal (pa_project a) JNull)
                \<and> canon (fld plan ''changes'') = canon (JArr acts)))))"
  using service_apply_cases [OF assms]
proof (elim disjE conjE exE)
  fix e assume "Q w'" "r = Inl e"
  then show ?thesis by blast
next
  fix u ao pkg target a w1 fresh
  assume c: "check_confirmation h plan (fld (js_default opts (JObj [])) ''confirm'') = Inr u"
    and o: "ao = js_default opts (JObj [])" "target = coal (fld (rest_options ao) ''targetDir'') (fld plan ''target'')"
      "pkg = coal (fld (rest_options ao) ''packageRoot'') (fld plan ''packageRoot'')" "Q w1" "replanned h P plan ao pkg target w a w1"
      "buildOnboardingPlan h a = Inr fresh" "js_eq (fld fresh ''digest'') (fld plan ''digest'')" "write_call P plan ao pkg target w1 = (w', r)"
  have "plain plan \<and> plain fresh \<and> collision_free h plan fresh \<longrightarrow> (\<exists>acts. project_actions (pa_project a) = Inr acts
      \<and> plan_cleared h a acts \<and> canon (fld plan ''projectPlan'') = canon (coal (pa_project a) JNull)
      \<and> canon (fld plan ''changes'') = canon (JArr acts))"
    using confirmed_cleared [OF c o(6,7)] by blast
  with o check_confirmation_Inr [OF c] show ?thesis by blast
qed

definition sample_ports :: "nat ports" where
  "sample_ports = \<lparr>inspect_port = (\<lambda>_ _ _ w. (w, Inr (JObj [(''classification'', JStr ''absent''), (''diagnostics'', JArr [])]))),
     plan_port = (\<lambda>_ _ _ w. (w, Inr (JObj [(''profile'', JStr ''standard''), (''token'', JStr ''t1'')]))),
     apply_port = (\<lambda>_ _ _ _ w. (Suc w, Inr (JStr ''applied''))), recover_port = (\<lambda>_ _ w. (Suc w, Inr JNull)),
     assess_port = (\<lambda>_ _ w. (w, Inr JNull)), report_port = None\<rparr>"

lemma sample_reads: "reads_only Q sample_ports"
  by (simp add: reads_only_def keeps_def sample_ports_def)

section \<open>A plan that is confirmed at once\<close>

lemma distinct_fold_set: "distinct (map fst b) \<Longrightarrow> distinct (map fst (fold (\<lambda>(k, _) fs. obj_set fs k (m k)) c b))"
proof (induction c arbitrary: b)
  case (Cons p c)
  obtain k v where "p = (k, v)" by (cases p)
  with Cons.IH [OF distinct_obj_set [OF Cons.prems]] show ?case by simp
qed simp

lemma distinct_spread: "distinct (map fst (obj_spread [] xs))"
  unfolding obj_spread_def by (rule distinct_fold_set) simp

lemma obj_spread_small: "obj_spread a [] = a" "obj_spread a [(k, v)] = obj_set a k v"
  by (simp_all add: obj_spread_def)

lemma obj_spread_self: "distinct (map fst fs) \<Longrightarrow> obj_spread [] fs = fs"
  using obj_spread_new [of "[]" fs] by simp

lemma spread_or_empty_idem [simp]: "spread_or_empty (spread_or_empty v) = spread_or_empty v"
  by (simp add: spread_or_empty_def own_props_def obj_spread_self [OF distinct_spread] obj_spread_small)

lemma plan_options_idem: "plan_options (plan_options c) = plan_options c"
proof -
  let ?o = "plan_options c"
  have "fld ?o ''resolutions'' = spread_or_empty (fld c ''resolutions'')" "fld ?o ''harness'' = JBool False \<longleftrightarrow> fld c ''harness'' = JBool False"
    by (simp_all add: plan_options_def fld_own proto_names_def)
  then show ?thesis unfolding plan_options_def [of ?o] plan_options_fld by (simp add: plan_options_def)
qed

lemma effective_request_idem: "effective_request (effective_request request runtime) runtime = effective_request request runtime"
  by (simp add: effective_request_def coal_def)

lemma obj_set_kept: "map_of fs k = Some v \<Longrightarrow> obj_set fs k v = fs"
  by (induction fs) auto

lemma with_diagnostics_same:
  assumes "inventory = JObj fs" "distinct (map fst fs)" "fld inventory ''diagnostics'' = JArr ds"
  shows "with_diagnostics inventory ds = inventory" "diagnostics_of inventory = Inr ds"
proof -
  have "map_of fs ''diagnostics'' = Some (JArr ds)"
    using assms(1,3) by (auto simp: fld_own proto_names_def split: option.splits)
  then show "with_diagnostics inventory ds = inventory"
    by (simp add: assms(1) with_diagnostics_def own_props_def obj_spread_self [OF assms(2)] obj_spread_small obj_set_kept)
  show "diagnostics_of inventory = Inr ds" by (simp add: diagnostics_of_def assms(3) js_iter_def)
qed

lemma refining_fld:
  assumes "distinct (map fst cs)" "k \<noteq> ''harness''"
  shows "fld (refining journey (JObj cs)) k = fld (JObj cs) k"
  using assms by (simp add: refining_def own_props_def obj_spread_self obj_spread_small fld_own)

lemma refining_harness:
  assumes "distinct (map fst cs)"
  shows "fld (refining journey (JObj cs)) ''harness'' = JBool False \<longleftrightarrow> journey = JStr ''refinement'' \<or> fld (JObj cs) ''harness'' = JBool False"
  using assms by (simp add: refining_def own_props_def obj_spread_self obj_spread_small fld_own)

text \<open>The options the transaction is planned with again are those it was planned with.\<close>

definition object_or_absent :: "js \<Rightarrow> bool" where
  "object_or_absent v \<longleftrightarrow> v = JUndef \<or> (\<exists>fs. v = JObj fs \<and> distinct (map fst fs))"

lemma spread_object_or_absent: "object_or_absent v \<Longrightarrow> spread_or_empty v = coal v (JObj [])"
  by (auto simp: object_or_absent_def spread_or_empty_def coal_def own_props_def obj_spread_self obj_spread_small)

lemma confirmed_planned:
  assumes "distinct (map fst cs)" "object_or_absent (fld (JObj cs) ''resolutions'')" "object_or_absent (fld (JObj cs) ''config'')"
    and "fld plan ''options'' = plan_options (refining journey (JObj cs))"
  shows "confirmed_options prof plan = planned_options prof journey (JObj cs)"
proof -
  note f = refining_fld [OF assms(1)]
  let ?o = "plan_options (refining journey (JObj cs))"
  have o: "fld ?o ''resolutions'' = coal (fld (JObj cs) ''resolutions'') (JObj [])" "fld ?o ''config'' = coal (fld (JObj cs) ''config'') (JObj [])"
    "fld ?o ''harness'' = JBool False \<longleftrightarrow> journey = JStr ''refinement'' \<or> fld (JObj cs) ''harness'' = JBool False"
    "fld ?o ''migrateLegacy'' = JBool (truthy (fld (JObj cs) ''migrateLegacy''))"
    "fld ?o ''recoverUnknown'' = JBool (truthy (fld (JObj cs) ''recoverUnknown''))"
    using spread_object_or_absent [OF assms(2)] spread_object_or_absent [OF assms(3)] refining_harness [OF assms(1), of journey]
    by (simp_all add: f) (simp_all add: plan_options_def fld_own proto_names_def f [unfolded fld_own])
  have "seed_values (coal v (JObj [])) = seed_values v" if "object_or_absent v" for v
    using that by (auto simp: seed_values_def object_or_absent_def coal_def own_props_def)
  with assms(3) show ?thesis unfolding confirmed_options_def planned_options_def assms(4) Let_def o by auto
qed


text \<open>Ports that answer in this world, without changing it, and values of the shapes the reader gives.\<close>

definition settled :: "'w ports \<Rightarrow> js \<Rightarrow> 'w \<Rightarrow> js \<Rightarrow> js \<Rightarrow> js \<Rightarrow> bool" where
  "settled P input w inventory rt project \<longleftrightarrow>
     inspect_project P input w = (w, Inr inventory)
     \<and> assess_port P (fld input ''runtimeRequest'') (fld input ''runtimeEvidence'') w = (w, Inr rt)
     \<and> plan_port P (fld input ''packageRoot'') (fld input ''targetDir'')
         (planned_options (input_or input ''profile'' (JStr ''standard'')) (input_or input ''journey'' (JStr ''adoption''))
            (input_or input ''choices'' (JObj []))) w = (w, Inr project)
     \<and> fld project ''profile'' = input_or input ''profile'' (JStr ''standard'')
     \<and> (truthy (fld inventory ''rootIdentity'') \<longrightarrow> \<not> root_drifted (fld inventory ''rootIdentity'') (fld inventory ''rootIdentity''))
     \<and> (\<exists>fs ds. inventory = JObj fs \<and> distinct (map fst fs) \<and> fld inventory ''diagnostics'' = JArr ds)
     \<and> (\<forall>f v x. report_port P = Some f \<longrightarrow> f w v = Inr x \<longrightarrow> truthy x)"

definition input_shaped :: "js \<Rightarrow> bool" where
  "input_shaped input \<longleftrightarrow>
     truthy (fld input ''packageRoot'') \<and> truthy (fld input ''targetDir'')
     \<and> \<not> nullish (input_or input ''profile'' (JStr ''standard'')) \<and> \<not> nullish (input_or input ''journey'' (JStr ''adoption''))
     \<and> (\<exists>cs. input_or input ''choices'' (JObj []) = JObj cs \<and> distinct (map fst cs)
          \<and> object_or_absent (fld (JObj cs) ''resolutions'') \<and> object_or_absent (fld (JObj cs) ''config''))"

definition runtime_of :: "js \<Rightarrow> js \<Rightarrow> js" where
  "runtime_of input rt = (if truthy (fld input ''runtimeRequest'') \<and> truthy (fld input ''runtimeEvidence'') then rt else JNull)"

definition settled_args :: "'w ports \<Rightarrow> js \<Rightarrow> 'w \<Rightarrow> js \<Rightarrow> js \<Rightarrow> js \<Rightarrow> onboarding_args" where
  "settled_args P input w inventory rt project =
     \<lparr>pa_inventory = inventory, pa_runtime = runtime_of input rt, pa_project = project,
      pa_choices = refining (input_or input ''journey'' (JStr ''adoption'')) (input_or input ''choices'' (JObj [])),
      pa_request = fld input ''runtimeRequest'', pa_root = fld input ''packageRoot'', pa_journey = input_or input ''journey'' (JStr ''adoption''),
      pa_report = reportFor P w ''plan''
        [(''journey'', input_or input ''journey'' (JStr ''adoption'')), (''targetDir'', fld input ''targetDir'')]\<rparr>"

lemma assess_if_settled: "settled P input w inventory rt project \<Longrightarrow>
   assess_if P (fld input ''runtimeRequest'') (fld input ''runtimeEvidence'') w = (w, Inr (runtime_of input rt))"
  by (simp add: settled_def assess_if_def runtime_of_def io_res_def)

lemma service_plan_is:
  assumes "settled P input w inventory rt project"
    and "require_flag (input_or input ''choices'' (JObj [])) ''recoverUnknown'' = Inr u"
    and "require_flag (input_or input ''choices'' (JObj [])) ''migrateLegacy'' = Inr u'"
  shows "service_plan h P input w = (w, buildOnboardingPlan h (settled_args P input w inventory rt project))"
proof -
  from assms(1) obtain fs ds where i: "inventory = JObj fs" "distinct (map fst fs)" "fld inventory ''diagnostics'' = JArr ds"
    unfolding settled_def by blast
  show ?thesis
    using assms(1) [unfolded settled_def] assms(2,3) with_diagnostics_same [OF i] assess_if_settled [OF assms(1)]
    by (simp add: service_plan_def Let_def io_bind_def io_res_def io_caught_def settled_args_def)
qed

lemma service_plan_settled:
  assumes "settled P input w inventory rt project" "service_plan h P input w = (w, Inr plan)"
  shows "buildOnboardingPlan h (settled_args P input w inventory rt project) = Inr plan"
proof -
  obtain u where f1: "require_flag (input_or input ''choices'' (JObj [])) ''recoverUnknown'' = Inr u"
    using assms(2) by (cases "require_flag (input_or input ''choices'' (JObj [])) ''recoverUnknown''")
      (simp_all add: service_plan_def Let_def io_bind_def io_res_def)
  obtain u' where f2: "require_flag (input_or input ''choices'' (JObj [])) ''migrateLegacy'' = Inr u'"
    using assms(2) f1 by (cases "require_flag (input_or input ''choices'' (JObj [])) ''migrateLegacy''")
      (simp_all add: service_plan_def Let_def io_bind_def io_res_def)
  from service_plan_is [OF assms(1) f1 f2] assms(2) show ?thesis by (metis prod.inject)
qed

lemma rebuilt:
  assumes "buildOnboardingPlan h a = Inr plan" "\<And>f v x. pa_report a = Some f \<Longrightarrow> f v = Inr x \<Longrightarrow> truthy x"
    and "b = a\<lparr>pa_choices := plan_options (pa_choices a), pa_request := effective_request (pa_request a) (pa_runtime a),
               pa_report := (if truthy (fld plan ''report'') then pa_report a else None)\<rparr>"
  shows "buildOnboardingPlan h b = Inr plan"
proof -
  let ?opts = "plan_options (pa_choices a)"
  obtain acts payload more where p: "project_actions (pa_project a) = Inr acts"
      "require_flag (pa_choices a) ''recoverUnknown'' = Inr ()" "require_flag (pa_choices a) ''migrateLegacy'' = Inr ()"
      "attach_report a ?opts (plan_payload h a ?opts acts) = Inr payload"
      "payload = plan_payload h a ?opts acts @ more" "fst ` set more \<subseteq> {''report''}"
      "plan = JObj (payload @ [(''digest'', JStr (recordDigest h (JObj payload)))])"
    by (rule buildOnboardingPlan_Inr [OF assms(1)])
  have n: "map_of (plan_payload h a ?opts acts) ''report'' = None"
    unfolding map_of_eq_None_iff set_map [symmetric] plan_payload_keys by simp
  have "pa_report b = pa_report a"
  proof (cases "pa_report a")
    case None
    then show ?thesis by (simp add: assms(3))
  next
    case (Some f)
    then obtain v x where x: "f v = Inr x" "payload = plan_payload h a ?opts acts @ [(''report'', x)]"
      using p(4) by (auto simp: attach_report_def)
    then have "fld plan ''report'' = x" using n by (simp add: p(7) fld_own map_add_def)
    with assms(2) [OF Some x(1)] show ?thesis by (simp add: assms(3))
  qed
  moreover have "pa_inventory b = pa_inventory a" "pa_runtime b = pa_runtime a" by (simp_all add: assms(3))
  ultimately have "attach_report b ?opts (plan_payload h a ?opts acts) = attach_report a ?opts (plan_payload h a ?opts acts)"
    by (simp only: attach_report_def)
  moreover have "plan_payload h b ?opts acts = plan_payload h a ?opts acts"
    by (simp add: plan_payload_def assms(3) effective_request_idem)
  moreover have "require_flag ?opts ''recoverUnknown'' = Inr ()" "require_flag ?opts ''migrateLegacy'' = Inr ()"
    by (simp_all add: require_flag_def)
  moreover have "pa_choices b = ?opts" "pa_project b = pa_project a" by (simp_all add: assms(3))
  ultimately show ?thesis using p(1,4,7) by (simp add: buildOnboardingPlan_def plan_options_idem Let_def)
qed


text \<open>What the confirmed plan records of its making.\<close>

lemma plan_record:
  assumes "buildOnboardingPlan h a = Inr plan"
  shows "fld plan ''options'' = plan_options (pa_choices a)" "fld plan ''journey'' = pa_journey a"
    "fld plan ''runtimeRequest'' = effective_request (pa_request a) (pa_runtime a)"
    "fld plan ''inventoryDigest'' = digest_or_null h (pa_inventory a)" "fld plan ''runtimeDigest'' = digest_or_null h (pa_runtime a)"
    "fld plan ''rootIdentity'' = coal (fld (pa_inventory a) ''rootIdentity'') JNull" "fld plan ''projectPlan'' = coal (pa_project a) JNull"
proof -
  obtain acts where f: "\<And>k. k \<in> set (map fst (plan_payload h a (plan_options (pa_choices a)) acts)) \<Longrightarrow>
      fld plan k = the (map_of (plan_payload h a (plan_options (pa_choices a)) acts) k)"
    using plan_fld [OF assms] by blast
  show "fld plan ''options'' = plan_options (pa_choices a)" "fld plan ''journey'' = pa_journey a"
    "fld plan ''runtimeRequest'' = effective_request (pa_request a) (pa_runtime a)"
    "fld plan ''inventoryDigest'' = digest_or_null h (pa_inventory a)" "fld plan ''runtimeDigest'' = digest_or_null h (pa_runtime a)"
    "fld plan ''rootIdentity'' = coal (fld (pa_inventory a) ''rootIdentity'') JNull" "fld plan ''projectPlan'' = coal (pa_project a) JNull"
    using f unfolding plan_payload_keys by (simp_all add: plan_payload_def Let_def)
qed

definition confirmation :: "js \<Rightarrow> js \<Rightarrow> js" where
  "confirmation input plan = JObj [(''confirm'', fld plan ''digest''), (''runtimeEvidence'', fld input ''runtimeEvidence''),
     (''targetDir'', fld input ''targetDir''), (''packageRoot'', fld input ''packageRoot'')]"

lemma confirmation_fields:
  "fld (confirmation input plan) ''confirm'' = fld plan ''digest''"
  "fld (confirmation input plan) ''runtimeEvidence'' = fld input ''runtimeEvidence''"
  "rest_options (confirmation input plan) = JObj [(''targetDir'', fld input ''targetDir''), (''packageRoot'', fld input ''packageRoot'')]"
  by (simp_all add: confirmation_def rest_options_def fld_own own_props_def obj_spread_self obj_del_def)

lemma js_eq_digest_or_null [simp]: "js_eq (digest_or_null h v) (digest_or_null h v)"
  by (simp add: digest_or_null_def)

lemma fresh_runtime_settled:
  assumes "settled P input w inventory rt project"
    and "fld plan ''runtimeRequest'' = effective_request (fld input ''runtimeRequest'') (runtime_of input rt)"
    and "fld plan ''runtimeDigest'' = digest_or_null h (runtime_of input rt)"
  shows "fresh_runtime h P plan (coal (fld input ''runtimeEvidence'') JUndef) w = (w, Inr (runtime_of input rt))"
proof -
  let ?q = "fld input ''runtimeRequest''" and ?e = "fld input ''runtimeEvidence''"
  have e: "truthy (coal ?e JUndef) = truthy ?e" by (cases ?e) (simp_all add: coal_def)
  show ?thesis
  proof (cases "truthy ?q \<and> truthy ?e")
    case True
    then have "fld plan ''runtimeRequest'' = ?q" "coal ?e JUndef = ?e" "runtime_of input rt = rt"
      using assms(2) by (simp_all add: effective_request_def coal_def truthy_nullish runtime_of_def)
    with True assms(1,3) show ?thesis
      by (simp add: fresh_runtime_def settled_def io_bind_def io_res_def refuse_if_def)
  next
    case False
    then have r: "runtime_of input rt = JNull" by (auto simp: runtime_of_def)
    then have "truthy (fld plan ''runtimeRequest'') = truthy ?q"
      using assms(2) by (cases ?q) (simp_all add: effective_request_def coal_def)
    with False r e assms(3) show ?thesis by (auto simp: fresh_runtime_def digest_or_null_def)
  qed
qed


lemma settled_plan_applies:
  assumes "settled P input w inventory rt project" and "input_shaped input" and "\<And>s. is_hex64 (sha256 h s)"
    and b: "buildOnboardingPlan h (settled_args P input w inventory rt project) = Inr plan"
    and "fld plan ''readyToApply'' = JBool True"
  shows "service_apply h P plan (confirmation input plan) w =
    apply_port P (fld input ''packageRoot'') (fld input ''targetDir'') project
      (JObj [(''confirm'', coal (fld project ''token'') (fld plan ''digest'')), (''targetDir'', fld input ''targetDir''),
             (''packageRoot'', fld input ''packageRoot'')]) w"
proof -
  let ?a = "settled_args P input w inventory rt project"
  let ?prof = "input_or input ''profile'' (JStr ''standard'')" and ?journey = "input_or input ''journey'' (JStr ''adoption'')"
  let ?pkg = "fld input ''packageRoot''" and ?target = "fld input ''targetDir''"
  note s = assms(1) [unfolded settled_def] and i = assms(2) [unfolded input_shaped_def]
  note rec = plan_record [OF b, unfolded settled_args_def, simplified]
  obtain cs where cs: "input_or input ''choices'' (JObj []) = JObj cs" "distinct (map fst cs)"
      "object_or_absent (fld (JObj cs) ''resolutions'')" "object_or_absent (fld (JObj cs) ''config'')" using i by blast
  obtain acts where c: "fld plan ''readyToApply'' = JBool (plan_cleared h ?a acts)" "fld plan ''blockers'' = JArr [] \<and> \<not> truthy (fld (pa_project ?a) ''blocked'') \<longleftrightarrow> plan_cleared h ?a acts"
      "fld plan ''blockers'' = JArr [] \<longrightarrow> fld plan ''missingChoices'' = JArr [] \<and> truthy (pa_project ?a)"
    by (rule plan_fields [OF b])
  then have ready: "fld plan ''blockers'' = JArr []" "fld plan ''missingChoices'' = JArr []" "truthy project" "\<not> truthy (fld project ''blocked'')"
    using assms(5) by (auto simp: settled_args_def)
  have pp: "fld plan ''projectPlan'' = project" using rec(7) ready(3) by (simp add: coal_def truthy_nullish)
  have d: "fld plan ''digest'' = JStr (recordDigest h plan)" "hasCurrentDigest h plan" "truthy plan"
    using built_digest [OF b] assms(3) by (auto simp: hasCurrentDigest_def recordDigest_def)
  have app: "check_application h plan (confirmation input plan) ?target ?pkg = Inr ()"
    using i ready d by (simp add: check_application_def confirmation_fields dot_Inr check_confirmation_def refuse_if_def
        refuse_entries_def has_entries_array pp) (simp add: confirmation_def)
  have inv: "check_inventory h plan inventory = Inr ()"
    using s rec by (auto simp: check_inventory_def refuse_if_def root_drifted_def coal_def split: if_splits)
  have opts: "confirmed_options ?prof plan = planned_options ?prof ?journey (JObj cs)"
    by (rule confirmed_planned [OF cs(2-4)]) (use rec(1) cs(1) in simp)
  have re: "buildOnboardingPlan h (replan_args P w plan inventory (runtime_of input rt) project ?pkg ?target) = Inr plan"
  proof (rule rebuilt [OF b])
    show "truthy x" if "pa_report ?a = Some f" "f v = Inr x" for f v x
      using that s by (auto simp: settled_args_def reportFor_def)
    have "coal ?journey (JStr ''adoption'') = ?journey" using i by (simp add: coal_def)
    then show "replan_args P w plan inventory (runtime_of input rt) project ?pkg ?target = ?a\<lparr>pa_choices := plan_options (pa_choices ?a),
        pa_request := effective_request (pa_request ?a) (pa_runtime ?a), pa_report := (if truthy (fld plan ''report'') then pa_report ?a else None)\<rparr>"
      by (simp add: replan_args_def settled_args_def Let_def rec js_default_def plan_options_def)
  qed
  have insp: "inspect_port P ?pkg ?target (JObj [(''profile'', ?prof)]) w = (w, Inr inventory)"
    using s by (simp add: inspect_project_def)
  have hand: "hand_over h P plan (fld plan ''digest'') (JObj [(''targetDir'', ?target), (''packageRoot'', ?pkg)]) inventory
      (runtime_of input rt) ?prof ?pkg ?target w =
    apply_port P ?pkg ?target project (JObj [(''confirm'', coal (fld project ''token'') (fld plan ''digest'')), (''targetDir'', ?target),
      (''packageRoot'', ?pkg)]) w"
    using s re opts cs(1) d(1)
    by (simp add: hand_over_def io_bind_def io_res_def refuse_if_def pp own_props_def obj_spread_def)
  have st: "fresh_state h P plan inventory (coal (fld input ''runtimeEvidence'') JUndef) w = (w, Inr (runtime_of input rt))"
    using inv fresh_runtime_settled [OF assms(1) rec(3) rec(5)] by (simp add: fresh_state_def io_bind_def io_res_def)
  have r: "fld (JObj [(''targetDir'', ?target), (''packageRoot'', ?pkg)]) ''runtimeEvidence'' = JUndef"
    "fld (JObj [(''targetDir'', ?target), (''packageRoot'', ?pkg)]) ''targetDir'' = ?target"
    "fld (JObj [(''targetDir'', ?target), (''packageRoot'', ?pkg)]) ''packageRoot'' = ?pkg"
    by (simp_all add: fld_own proto_names_def)
  have "coal ?target v = ?target" "coal ?pkg v = ?pkg" "coal ?prof v = ?prof" "js_default (confirmation input plan) v = confirmation input plan" for v
    using i by (simp_all add: coal_def truthy_nullish confirmation_def js_default_def)
  then show ?thesis
    using app insp st hand s
    by (simp add: service_apply_def Let_def confirmation_fields r pp io_bind_def io_res_def)
qed


text \<open>
  C18. What was shown and confirmed can be applied. When the reading ports still answer as they
  did while planning, a plan that was ready, confirmed with its own digest and applied to the same
  project with the same runtime evidence, passes every check of \<open>apply\<close>: the apply port is called
  with the planned transaction and its confirmation token. The digests are assumed to have the shape
  of SHA-256 digests, and the choices to be an object as the command line reads it.
\<close>

theorem confirmed_plan_applies:
  assumes "settled P input w inventory rt project" and "input_shaped input" and "\<And>s. is_hex64 (sha256 h s)"
    and "service_plan h P input w = (w, Inr plan)" and "fld plan ''readyToApply'' = JBool True"
  shows "service_apply h P plan (confirmation input plan) w =
    apply_port P (fld input ''packageRoot'') (fld input ''targetDir'') project
      (JObj [(''confirm'', coal (fld project ''token'') (fld plan ''digest'')), (''targetDir'', fld input ''targetDir''),
             (''packageRoot'', fld input ''packageRoot'')]) w"
  by (rule settled_plan_applies [OF assms(1-3) service_plan_settled [OF assms(1,4)] assms(5)])

definition sample_input :: js where
  "sample_input = JObj [(''packageRoot'', JStr ''/pkg''), (''targetDir'', JStr ''/project'')]"

lemma sample_input_fields:
  "fld sample_input ''packageRoot'' = JStr ''/pkg''" "fld sample_input ''targetDir'' = JStr ''/project''"
  "fld sample_input ''runtimeRequest'' = JUndef" "fld sample_input ''runtimeEvidence'' = JUndef"
  "input_or sample_input ''profile'' v = v" "input_or sample_input ''journey'' v = v" "input_or sample_input ''choices'' v = v"
  by (simp_all add: sample_input_def fld_own proto_names_def input_or_def js_default_def)

lemma sample_settled:
  "settled sample_ports sample_input 0 (JObj [(''classification'', JStr ''absent''), (''diagnostics'', JArr [])]) JNull
     (JObj [(''profile'', JStr ''standard''), (''token'', JStr ''t1'')])"
  by (simp add: settled_def inspect_project_def sample_ports_def sample_input_fields fld_own proto_names_def)

lemma sample_shaped: "input_shaped sample_input"
  by (simp add: input_shaped_def sample_input_fields object_or_absent_def fld_own proto_names_def)

lemma sample_plan_applies:
  "\<exists>plan. service_plan const_host sample_ports sample_input 0 = (0, Inr plan)
     \<and> buildOnboardingPlan const_host (settled_args sample_ports sample_input 0
         (JObj [(''classification'', JStr ''absent''), (''diagnostics'', JArr [])]) JNull
         (JObj [(''profile'', JStr ''standard''), (''token'', JStr ''t1'')])) = Inr plan
     \<and> fld plan ''readyToApply'' = JBool True"
proof -
  let ?project = "JObj [(''profile'', JStr ''standard''), (''token'', JStr ''t1'')]"
  let ?a = "settled_args sample_ports sample_input 0 (JObj [(''classification'', JStr ''absent''), (''diagnostics'', JArr [])]) JNull ?project"
  have acts: "project_actions (pa_project ?a) = Inr []"
    by (simp add: project_actions_def settled_args_def fld_own proto_names_def)
  then obtain plan where b: "buildOnboardingPlan const_host ?a = Inr plan"
    by (simp add: buildOnboardingPlan_def require_flag_def attach_report_def settled_args_def sample_ports_def sample_input_fields
        reportFor_def refining_def fld_own proto_names_def Let_def)
  have "require_flag (input_or sample_input ''choices'' (JObj [])) k = Inr ()" if "k \<notin> set proto_names" for k
    using that by (simp add: sample_input_fields require_flag_def fld_own)
  then have s: "service_plan const_host sample_ports sample_input 0 = (0, Inr plan)"
    using service_plan_is [OF sample_settled] b by (simp add: proto_names_def)
  have "plan_cleared const_host ?a []"
    by (simp add: plan_cleared_def settled_args_def sample_input_fields refining_def fld_own proto_names_def lock_unknown_def
        conflicts_resolved_def conflict_targets_def js_set_def)
  moreover obtain acts' where "project_actions (pa_project ?a) = Inr acts'" "fld plan ''readyToApply'' = JBool (plan_cleared const_host ?a acts')"
    by (rule plan_fields [OF b])
  ultimately have "fld plan ''readyToApply'' = JBool True" using acts by simp
  with s b show ?thesis by blast
qed

theorem confirmed_plan_applies_witness:
  "\<exists>plan. service_plan const_host sample_ports sample_input 0 = (0, Inr plan)
     \<and> service_apply const_host sample_ports plan (confirmation sample_input plan) 0 = (1, Inr (JStr ''applied''))"
proof -
  obtain plan where s: "service_plan const_host sample_ports sample_input 0 = (0, Inr plan)" "fld plan ''readyToApply'' = JBool True"
    using sample_plan_applies by blast
  from confirmed_plan_applies [OF sample_settled sample_shaped const_host_hex s] s
  show ?thesis by (auto simp: sample_ports_def)
qed

text \<open>The confirmed plan of the sample is written, for the package and target that were planned again.\<close>

theorem apply_only_confirmed_witness:
  "\<exists>plan a. service_apply const_host sample_ports plan (confirmation sample_input plan) 0 = (1, Inr (JStr ''applied''))
     \<and> hasCurrentDigest const_host plan
     \<and> replanned const_host sample_ports plan (confirmation sample_input plan) (JStr ''/pkg'') (JStr ''/project'') 0 a 0
     \<and> write_call sample_ports plan (confirmation sample_input plan) (JStr ''/pkg'') (JStr ''/project'') 0 = (1, Inr (JStr ''applied''))"
proof -
  obtain plan where b: "buildOnboardingPlan const_host (settled_args sample_ports sample_input 0
         (JObj [(''classification'', JStr ''absent''), (''diagnostics'', JArr [])]) JNull
         (JObj [(''profile'', JStr ''standard''), (''token'', JStr ''t1'')])) = Inr plan" "fld plan ''readyToApply'' = JBool True"
    using sample_plan_applies by blast
  from settled_plan_applies [OF sample_settled sample_shaped const_host_hex b]
  have r: "service_apply const_host sample_ports plan (confirmation sample_input plan) 0 = (1, Inr (JStr ''applied''))"
    by (simp add: sample_ports_def)
  have t: "fld (rest_options (confirmation sample_input plan)) ''targetDir'' = JStr ''/project''"
    "fld (rest_options (confirmation sample_input plan)) ''packageRoot'' = JStr ''/pkg''"
    "js_default (confirmation sample_input plan) v = confirmation sample_input plan" for v
    by (simp_all add: confirmation_fields sample_input_fields fld_own) (simp add: confirmation_def js_default_def)
  from apply_only_confirmed [OF r, of "\<lambda>w. w = 0"] sample_reads t
  show ?thesis using r by (auto simp: coal_def)
qed

end
