(* ===== verification/Distribution.thy ===== *)
theory Distribution
  imports OnboardingPlan Clone
begin

text \<open>
  The execution distribution (src/lib/config/execution-distribution.mjs): which model each seat runs
  on, with two fallbacks per role, and the choice of an eligible route among them. The installed
  profile is a JSON file of the package; it is the parameter \<open>PROFILE\<close>.
\<close>

section \<open>Route options\<close>

fun plain_object :: "js \<Rightarrow> bool" where
  "plain_object (JObj _) = True"
| "plain_object (JBuiltin k) = (k = ''__proto__'')"
| "plain_object _ = False"

definition route_fields :: "string list" where
  "route_fields = [''runtime'', ''executionTarget'', ''providerRoute'', ''providerFamily'', ''client'']"

definition ROUTES :: "(string \<times> string list) list" where
  "ROUTES =
     [(''openai'', [''codex'', ''codex-cli'', ''openai-codex'', ''openai'', ''codex'']),
      (''gemini'', [''pi'', ''pi-session'', ''antigravity'', ''google'', ''pi'']),
      (''grok'', [''pi'', ''pi-session'', ''grok'', ''xai'', ''pi'']),
      (''claude'', [''claude-code'', ''claude-cli'', ''anthropic'', ''anthropic'', ''claude''])]"

definition model_prefixes :: "(string \<times> string) list" where
  "model_prefixes = [(''openai'', ''gpt-''), (''gemini'', ''gemini-''), (''grok'', ''grok-''), (''claude'', ''claude-'')]"

text \<open>\<open>keys\<close>: an object with no other keys than the allowed ones.\<close>

definition check_keys :: "js \<Rightarrow> string list \<Rightarrow> string \<Rightarrow> unit res" where
  "check_keys v allowed label =
     (if \<not> plain_object v then fail (label @ '' must be an object'')
      else case find (\<lambda>k. k \<notin> set allowed) (map fst (own_props v)) of
        Some k \<Rightarrow> fail (''Unknown '' @ label @ '' field '' @ k)
      | None \<Rightarrow> Inr ())"

text \<open>\<open>/^[a-z0-9][a-z0-9._-]{0,63}$/\<close>\<close>

definition model_char :: "char \<Rightarrow> bool" where
  "model_char c = (is_lower c \<or> is_digit c)"

definition model_name :: "string \<Rightarrow> bool" where
  "model_name s = (case s of [] \<Rightarrow> False
     | c # r \<Rightarrow> model_char c \<and> length r \<le> 63 \<and> list_all (\<lambda>d. model_char d \<or> d \<in> set ''._-'') r)"

definition route_key :: "host \<Rightarrow> js \<Rightarrow> string" where
  "route_key h option = js_string h (fld option ''subscription'') @ '':'' @ js_string h (fld option ''model'')"

text \<open>The models of every role of the installed profile.\<close>

definition approved_models :: "host \<Rightarrow> js \<Rightarrow> string list" where
  "approved_models h PROFILE =
     concat (map (\<lambda>(_, role). map (route_key h) (elems (fld role ''options''))) (own_props (fld PROFILE ''roles'')))"

definition efforts :: "js \<Rightarrow> string list" where
  "efforts scope = (if scope = JStr ''bounded-clean-context'' then [''low'', ''medium'', ''high''] else [''low'', ''medium''])"

definition declared_route :: "host \<Rightarrow> js \<Rightarrow> bool" where
  "declared_route h option =
     (case map_of ROUTES (js_string h (fld option ''subscription'')) of
        None \<Rightarrow> False
      | Some tuple \<Rightarrow> map (fld option) route_fields = map JStr tuple)"

definition canonical_model :: "host \<Rightarrow> js \<Rightarrow> bool" where
  "canonical_model h option =
     (case fld option ''model'' of
        JStr s \<Rightarrow> starts_with s (the (map_of model_prefixes (js_string h (fld option ''subscription'')))) \<and> model_name s
      | _ \<Rightarrow> False)"

definition check_option :: "host \<Rightarrow> js \<Rightarrow> js \<Rightarrow> string list \<Rightarrow> js \<Rightarrow> string list res" where
  "check_option h PROFILE scope seen option =
     bnd (check_keys option (route_fields @ [''subscription'', ''model'', ''effort'']) ''route option'') (\<lambda>_.
     if \<not> declared_route h option then fail ''Route must use the declared subscription client and provider''
     else if \<not> canonical_model h option then fail ''Canonical model does not match subscription route''
     else if \<not> one_of (efforts scope) (fld option ''effort'') then fail ''Persistent role effort must be low or medium''
     else if route_key h option \<notin> set (approved_models h PROFILE)
     then fail ''Model is outside the approved distribution catalog; define an explicit profile version''
     else if route_key h option \<in> set seen then fail ''Duplicate fallback model''
     else Inr (route_key h option # seen))"

definition validateOptions :: "host \<Rightarrow> js \<Rightarrow> js \<Rightarrow> js \<Rightarrow> unit res" where
  "validateOptions h PROFILE options scope =
     (case options of
        JArr xs \<Rightarrow>
          if length xs \<noteq> 3 then fail ''Each role requires one default and exactly two fallbacks''
          else bnd (for_fold (check_option h PROFILE scope) [] xs) (\<lambda>_.
            if length (js_set (map (\<lambda>option. fld option ''subscription'') xs)) < 2
            then fail ''Fallbacks require distinct subscription budgets'' else Inr ())
      | _ \<Rightarrow> fail ''Each role requires one default and exactly two fallbacks'')"

section \<open>The resolved distribution\<close>

definition defaultDistributionSelection :: "host \<Rightarrow> js \<Rightarrow> js" where
  "defaultDistributionSelection h PROFILE =
     JObj [(''profile'', fld PROFILE ''id''), (''profileDigest'', JStr (recordDigest h PROFILE)), (''overrides'', JObj [])]"

type_synonym roles = "(string \<times> js) list"

definition apply_override :: "host \<Rightarrow> js \<Rightarrow> roles \<Rightarrow> string \<times> js \<Rightarrow> roles res" where
  "apply_override h PROFILE roles p =
     (let seat = fst p; override = snd p; role = fld (JObj roles) seat in
      if \<not> has_own roles seat then fail (''Unknown distribution role '' @ seat)
      else bnd (check_keys override [''reason'', ''options''] ''override'') (\<lambda>_.
        case fld override ''reason'' of
          JStr reason_text \<Rightarrow>
            if js_trim reason_text = [] then fail ''Project override requires a reason''
            else bnd (validateOptions h PROFILE (fld override ''options'') (fld role ''scope'')) (\<lambda>_.
                 bnd (structured_clone (fld override ''options'')) (\<lambda>options.
                 Inr (obj_set roles seat
                   (JObj (obj_set (obj_set (own_props role) ''options'' options) ''overrideReason'' (JStr reason_text))))))
        | _ \<Rightarrow> fail ''Project override requires a reason''))"

definition check_role :: "host \<Rightarrow> js \<Rightarrow> string \<times> js \<Rightarrow> unit res" where
  "check_role h PROFILE p = bnd (dot (snd p) ''options'') (\<lambda>options. validateOptions h PROFILE options (fld (snd p) ''scope''))"

definition check_selection :: "host \<Rightarrow> js \<Rightarrow> js \<Rightarrow> unit res" where
  "check_selection h PROFILE selection =
     bnd (check_keys selection [''profile'', ''profileDigest'', ''overrides''] ''distribution selection'') (\<lambda>_.
     if \<not> js_eq (fld selection ''profile'') (fld PROFILE ''id'')
     then fail ''Unknown distribution profile; retain the installed version or explicitly migrate''
     else if \<not> js_eq (fld selection ''profileDigest'') (JStr (recordDigest h PROFILE))
     then fail ''Distribution profile digest mismatch; explicit policy migration required''
     else Inr ())"

definition resolved_roles :: "host \<Rightarrow> js \<Rightarrow> js \<Rightarrow> js \<Rightarrow> roles res" where
  "resolved_roles h PROFILE installed overrides =
     bnd (for_each (check_role h PROFILE) (own_props (fld installed ''roles''))) (\<lambda>_.
     if \<not> plain_object overrides then fail ''Distribution overrides must be an object''
     else for_fold (apply_override h PROFILE) (own_props (fld installed ''roles'')) (own_props overrides))"

definition resolveDistribution :: "host \<Rightarrow> js \<Rightarrow> js \<Rightarrow> js res" where
  "resolveDistribution h PROFILE selection =
     bnd (check_selection h PROFILE selection) (\<lambda>_.
     bnd (structured_clone PROFILE) (\<lambda>installed.
     bnd (resolved_roles h PROFILE installed (coal (fld selection ''overrides'') (JObj []))) (\<lambda>roles.
     Inr (JObj (obj_spread (obj_set (own_props installed) ''roles'' (JObj roles))
       [(''profileDigest'', fld selection ''profileDigest''), (''selectionDigest'', JStr (recordDigest h selection))])))))"

definition distributionRole :: "host \<Rightarrow> js \<Rightarrow> js \<Rightarrow> js res" where
  "distributionRole h profile_js role =
     (let aliases = own_props (fld profile_js ''roleAliases''); roles = own_props (fld profile_js ''roles'');
          seat = (if has_own aliases (js_string h role) then fld (fld profile_js ''roleAliases'') (js_string h role) else role) in
      if \<not> has_own roles (js_string h seat) then fail (''Unknown distribution role '' @ js_string h role)
      else Inr (JObj (obj_spread [(''seat'', seat)] (own_props (fld (fld profile_js ''roles'') (js_string h seat))))))"

section \<open>Choosing a route\<close>

text \<open>Arithmetic on finite numbers; \<open>NaN\<close> when a side is not one.\<close>

fun num_op :: "(rat \<Rightarrow> rat \<Rightarrow> rat) \<Rightarrow> jsnum \<Rightarrow> jsnum \<Rightarrow> jsnum" where
  "num_op f (Fin a) (Fin b) = Fin (f a b)"
| "num_op f _ _ = NaN"

definition route_max_age :: "js \<Rightarrow> rat" where
  "route_max_age v = (case js_int v of Some n \<Rightarrow> if 10000 \<le> n \<and> n \<le> 86400000 then of_int n else 300000 | None \<Rightarrow> 300000)"

definition fresh_record :: "js \<Rightarrow> rat \<Rightarrow> rat \<Rightarrow> bool" where
  "fresh_record a now max_age =
     (case (fld a ''observedAt'', fld a ''expiresAt'') of
        (JNum (Fin seen), JNum (Fin ends)) \<Rightarrow>
          truthy a \<and> seen \<le> now \<and> now < ends \<and> now - seen \<le> max_age \<and> ends - seen \<le> max_age
      | _ \<Rightarrow> False)"

text \<open>The one record of the option's subscription, if there is exactly one.\<close>

definition record_for :: "js list \<Rightarrow> js \<Rightarrow> js" where
  "record_for availability option =
     (case filter (\<lambda>a. js_eq (fld a ''subscription'') (fld option ''subscription'')) availability of [a] \<Rightarrow> a | _ \<Rightarrow> JNull)"

record route =
  rt_status :: string
  rt_seat :: js
  rt_selected :: js
  rt_index :: "nat option"
  rt_digest :: js
  rt_reasons :: "(nat \<times> string) list"

fun route_loop :: "js \<Rightarrow> js \<Rightarrow> js list \<Rightarrow> js list \<Rightarrow> rat \<Rightarrow> rat \<Rightarrow> nat \<Rightarrow> (nat \<times> string) list \<Rightarrow> js list \<Rightarrow> route" where
  "route_loop seat digest availability excluded now max_age i reasons [] =
     \<lparr>rt_status = ''held'', rt_seat = seat, rt_selected = JNull, rt_index = None, rt_digest = JUndef, rt_reasons = reasons\<rparr>"
| "route_loop seat digest availability excluded now max_age i reasons (option # options) =
     (let a = record_for availability option; fresh = fresh_record a now max_age;
          skip = (\<lambda>r. route_loop seat digest availability excluded now max_age (Suc i) (reasons @ [(i, r)]) options) in
      if js_includes excluded (fld option ''providerFamily'') then skip ''independence-boundary''
      else if \<not> fresh \<or> fld a ''status'' \<noteq> JStr ''healthy''
      then skip (if fresh \<and> fld a ''status'' = JStr ''unavailable'' then ''subscription-unavailable'' else ''availability-unknown'')
      else \<lparr>rt_status = ''eligible-proposal'', rt_seat = seat, rt_selected = option, rt_index = Some i, rt_digest = digest,
             rt_reasons = reasons\<rparr>)"

text \<open>\<open>now\<close> is a finite number, as \<open>Date.now()\<close> gives; \<open>availability\<close> and \<open>excluded\<close> may be anything.\<close>

definition selectDistributionRoute :: "host \<Rightarrow> js \<Rightarrow> js \<Rightarrow> js \<Rightarrow> js \<Rightarrow> js \<Rightarrow> rat \<Rightarrow> js \<Rightarrow> route res" where
  "selectDistributionRoute h PROFILE selection role availability excluded now max_age =
     bnd (resolveDistribution h PROFILE selection) (\<lambda>profile_js.
     bnd (distributionRole h profile_js role) (\<lambda>resolved.
     if \<not> is_array availability \<or> \<not> is_array excluded then fail ''Invalid availability inputs''
     else bnd (js_iter (fld resolved ''options'')) (\<lambda>options.
       Inr (route_loop (fld resolved ''seat'') (fld profile_js ''selectionDigest'') (elems availability) (elems excluded)
         now (route_max_age max_age) 0 [] options))))"

section \<open>Drift of an installed roster\<close>

record drift =
  dr_seat :: string
  dr_field :: string
  dr_expected :: js
  dr_installed :: js

definition expected_model :: "host \<Rightarrow> js \<Rightarrow> js" where
  "expected_model h expected =
     (let prefix = (if fld expected ''providerRoute'' = JStr ''grok'' then ''grok-cli'' else js_string h (fld expected ''providerRoute'')) in
      if fld expected ''runtime'' = JStr ''pi'' then JStr (prefix @ ''/'' @ js_string h (fld expected ''model'')) else fld expected ''model'')"

definition entry_differences :: "host \<Rightarrow> string \<Rightarrow> js \<Rightarrow> js \<Rightarrow> drift list" where
  "entry_differences h seat expected entry =
     map (\<lambda>(field, want). \<lparr>dr_seat = seat, dr_field = field, dr_expected = want, dr_installed = coal (fld entry field) JNull\<rparr>)
       (filter (\<lambda>(field, want). \<not> js_eq (fld entry field) want)
         [(''runtime'', fld expected ''runtime''), (''model'', expected_model h expected), (''effort'', fld expected ''effort'')])"

definition drift_step :: "host \<Rightarrow> js \<Rightarrow> drift list \<times> string list \<Rightarrow> js \<Rightarrow> (drift list \<times> string list) res" where
  "drift_step h profile_js st entry =
     (case st of (differences, seen) \<Rightarrow>
      case (if truthy entry then fld entry ''seat'' else JUndef) of
        JStr seat \<Rightarrow>
          bnd (distributionRole h profile_js (JStr seat)) (\<lambda>role.
          if \<not> js_eq (fld role ''seat'') (JStr seat) then fail ''Installed roster requires canonical seat IDs''
          else if seat \<in> set seen then fail ''Duplicate installed seat''
          else case elems (fld role ''options'') of
              [] \<Rightarrow> Inl (TypeError ''Cannot read properties of undefined'')
            | expected # _ \<Rightarrow> Inr (differences @ entry_differences h seat expected entry, seen @ [seat]))
      | _ \<Rightarrow> fail ''Installed roster requires seat tuples'')"

record drift_report =
  dp_ok :: bool
  dp_digest :: js
  dp_differences :: "drift list"
  dp_seats :: "string list"

definition distributionDrift :: "host \<Rightarrow> js \<Rightarrow> js \<Rightarrow> js \<Rightarrow> drift_report res" where
  "distributionDrift h PROFILE selection installed =
     bnd (resolveDistribution h PROFILE selection) (\<lambda>profile_js.
     if \<not> is_array installed \<or> elems installed = [] then fail ''Installed roster must be a non-empty array''
     else bnd (for_fold (drift_step h profile_js) ([], []) (elems installed)) (\<lambda>(differences, seen).
       Inr \<lparr>dp_ok = (differences = []), dp_digest = fld profile_js ''selectionDigest'', dp_differences = differences, dp_seats = seen\<rparr>))"


section \<open>Facts\<close>

text \<open>What \<open>validateOptions\<close> establishes.\<close>

definition valid_option :: "host \<Rightarrow> js \<Rightarrow> js \<Rightarrow> js \<Rightarrow> bool" where
  "valid_option h PROFILE scope option \<longleftrightarrow>
     plain_object option \<and> declared_route h option \<and> canonical_model h option \<and> one_of (efforts scope) (fld option ''effort'')
     \<and> route_key h option \<in> set (approved_models h PROFILE)"

definition valid_options :: "host \<Rightarrow> js \<Rightarrow> js \<Rightarrow> js \<Rightarrow> bool" where
  "valid_options h PROFILE scope options \<longleftrightarrow>
     (\<exists>xs. options = JArr xs \<and> length xs = 3 \<and> (\<forall>option\<in>set xs. valid_option h PROFILE scope option)
        \<and> distinct (map (route_key h) xs)
        \<and> ((\<forall>option\<in>set xs. is_string (fld option ''subscription'')) \<longrightarrow>
             2 \<le> card (set (map (\<lambda>option. fld option ''subscription'') xs))))"

lemma check_keys_Inr: "check_keys v allowed label = Inr u \<longleftrightarrow> plain_object v \<and> set (map fst (own_props v)) \<subseteq> set allowed"
proof (cases "find (\<lambda>k. k \<notin> set allowed) (map fst (own_props v))")
  case None
  then show ?thesis unfolding find_None_iff by (auto simp: check_keys_def None)
next
  case (Some k)
  have "\<not> set (map fst (own_props v)) \<subseteq> set allowed" using find_SomeD [OF Some] by blast
  with Some show ?thesis by (simp add: check_keys_def)
qed

lemma check_option_Inr:
  "check_option h PROFILE scope seen option = Inr seen' \<Longrightarrow>
     valid_option h PROFILE scope option \<and> route_key h option \<notin> set seen \<and> seen' = route_key h option # seen"
  by (auto simp: check_option_def check_keys_Inr valid_option_def split: if_splits)

lemma check_options_Inr:
  "for_fold (check_option h PROFILE scope) seen xs = Inr seen' \<Longrightarrow>
     (\<forall>option\<in>set xs. valid_option h PROFILE scope option) \<and> distinct (map (route_key h) xs) \<and> route_key h ` set xs \<inter> set seen = {}"
proof (induction xs arbitrary: seen)
  case (Cons x xs)
  then obtain s where s: "check_option h PROFILE scope seen x = Inr s" "for_fold (check_option h PROFILE scope) s xs = Inr seen'"
    by auto
  from check_option_Inr [OF s(1)] Cons.IH [OF s(2)] show ?case by auto
qed simp

text \<open>On values that are equal to themselves the set of the code has no repetitions.\<close>

lemma js_set_card:
  assumes "\<forall>x\<in>set xs. same_zero x x"
  shows "length (js_set xs) = card (set xs)"
proof -
  have "distinct acc \<Longrightarrow> \<forall>x\<in>set acc. same_zero x x \<Longrightarrow> \<forall>x\<in>set ys. same_zero x x \<Longrightarrow> distinct (foldl js_set_add acc ys)" for acc ys
  proof (induction ys arbitrary: acc)
    case (Cons y ys)
    have "js_includes acc y \<longleftrightarrow> y \<in> set acc"
      using Cons.prems(3) by (auto simp: js_includes_def list_ex_iff same_zero_def dest: js_eq_imp_eq)
    with Cons show ?case by (auto simp: js_set_add_def)
  qed simp
  from this [of "[]" xs] assms have "distinct (js_set xs)" by (simp add: js_set_def)
  then show ?thesis by (metis distinct_card set_js_set)
qed

lemma validateOptions_Inr:
  assumes "validateOptions h PROFILE options scope = Inr u"
  shows "valid_options h PROFILE scope options"
proof -
  from assms(1) obtain xs seen where xs: "options = JArr xs" "length xs = 3" "for_fold (check_option h PROFILE scope) [] xs = Inr seen"
      "2 \<le> length (js_set (map (\<lambda>option. fld option ''subscription'') xs))"
    by (auto simp: validateOptions_def split: js.splits if_splits)
  have "length (js_set (map (\<lambda>option. fld option ''subscription'') xs)) = card (set (map (\<lambda>option. fld option ''subscription'') xs))"
    if "\<forall>option\<in>set xs. is_string (fld option ''subscription'')"
  proof (rule js_set_card, rule ballI)
    fix v assume "v \<in> set (map (\<lambda>option. fld option ''subscription'') xs)"
    with that have "is_string v" by auto
    then show "same_zero v v" by (cases v) auto
  qed
  with xs check_options_Inr [OF xs(3)] show ?thesis by (auto simp: valid_options_def)
qed


text \<open>The roles after each override.\<close>

definition valid_roles :: "host \<Rightarrow> js \<Rightarrow> roles \<Rightarrow> bool" where
  "valid_roles h PROFILE roles \<longleftrightarrow>
     distinct (map fst roles) \<and> (\<forall>p\<in>set roles. valid_options h PROFILE (fld (snd p) ''scope'') (fld (snd p) ''options'') \<and> plain (snd p))"

lemma obj_set_entry: "(k', v') \<in> set (obj_set fs k v) \<Longrightarrow> distinct (map fst fs) \<Longrightarrow> (k' = k \<and> v' = v) \<or> (k' \<noteq> k \<and> (k', v') \<in> set fs)"
proof (induction fs)
  case (Cons p fs)
  obtain a b where "p = (a, b)" by (cases p)
  with Cons show ?case by (auto split: if_splits intro: rev_image_eqI)
qed simp

lemma plain_role_object:
  assumes "plain role" "valid_options h PROFILE scope (fld role ''options'')"
  shows "\<exists>fs. role = JObj fs \<and> distinct (map fst fs)"
  using assms by (cases role) (auto simp: fld_def obj_get_def proto_names_def valid_options_def split: if_splits)

lemma apply_override_valid:
  assumes "apply_override h PROFILE roles p = Inr roles'" "valid_roles h PROFILE roles" "plain (snd p)"
  shows "valid_roles h PROFILE roles'"
proof -
  let ?seat = "fst p"
  let ?role = "fld (JObj roles) ?seat"
  from assms(1) have own: "has_own roles ?seat" by (auto simp: apply_override_def Let_def split: if_splits)
  from assms(1) obtain t opts where o: "plain_object (snd p)" "fld (snd p) ''reason'' = JStr t"
      "validateOptions h PROFILE (fld (snd p) ''options'') (fld ?role ''scope'') = Inr ()" "structured_clone (fld (snd p) ''options'') = Inr opts"
      "roles' = obj_set roles ?seat (JObj (obj_set (obj_set (own_props ?role) ''options'' opts) ''overrideReason'' (JStr t)))"
    by (auto simp: apply_override_def Let_def check_keys_Inr split: if_splits js.splits)
  from validateOptions_Inr [OF o(3)] have v: "valid_options h PROFILE (fld ?role ''scope'') (fld (snd p) ''options'')" .
  obtain fs where fs: "snd p = JObj fs" using o(1,2) by (cases "snd p") (auto simp: fld_def obj_get_def proto_names_def split: if_splits)
  have po: "plain (fld (snd p) ''options'')"
  proof -
    from v obtain xs where "fld (JObj fs) ''options'' = JArr xs" by (auto simp: valid_options_def fs)
    then have "(''options'', JArr xs) \<in> set fs" by (auto simp: fld_own proto_names_def split: option.splits dest: map_of_SomeD)
    with assms(3) \<open>fld (JObj fs) ''options'' = JArr xs\<close> show ?thesis unfolding fs by fastforce
  qed
  then have opts: "opts = fld (snd p) ''options''" using o(4) plain_clone by auto
  from own obtain rv where rv: "map_of roles ?seat = Some rv" by (auto simp: has_own_def)
  then have role: "?role = rv" by (simp add: fld_own)
  from rv have "(?seat, rv) \<in> set roles" by (rule map_of_SomeD)
  with assms(2) have r: "valid_options h PROFILE (fld rv ''scope'') (fld rv ''options'')" "plain rv" by (auto simp: valid_roles_def)
  from plain_role_object [OF r(2,1)] obtain gs where gs: "rv = JObj gs" "distinct (map fst gs)" by blast
  let ?new = "JObj (obj_set (obj_set gs ''options'' opts) ''overrideReason'' (JStr t))"
  have new: "fld ?new ''options'' = opts" "fld ?new ''scope'' = fld rv ''scope''"
    by (simp_all add: gs fld_own)
  have "plain v'" if "(k', v') \<in> set (obj_set (obj_set gs ''options'' opts) ''overrideReason'' (JStr t))" for k' v'
    using obj_set_entry [OF that distinct_obj_set [OF gs(2)]] obj_set_entry [of k' v' gs "''options''" opts] gs(2) r(2) po opts
    by (force simp: gs(1))
  then have pn: "plain ?new" using gs(2) by (auto intro!: distinct_obj_set simp del: distinct_map)
  have roles': "roles' = obj_set roles ?seat ?new" by (simp add: o(5) role gs own_props_def)
  have vn: "valid_options h PROFILE (fld ?new ''scope'') (fld ?new ''options'') \<and> plain ?new"
    unfolding new using v pn by (simp only: role opts)
  have d: "distinct (map fst roles)" and old: "\<forall>q\<in>set roles. valid_options h PROFILE (fld (snd q) ''scope'') (fld (snd q) ''options'') \<and> plain (snd q)"
    using assms(2) unfolding valid_roles_def by blast+
  have "valid_options h PROFILE (fld (snd q) ''scope'') (fld (snd q) ''options'') \<and> plain (snd q)" if "q \<in> set roles'" for q
    using obj_set_entry [of "fst q" "snd q" roles ?seat ?new] that d old vn unfolding roles' by (metis prod.collapse)
  with distinct_obj_set [OF d] show ?thesis unfolding valid_roles_def roles' by blast
qed


lemma resolved_roles_valid:
  assumes "resolved_roles h PROFILE PROFILE overrides = Inr roles" "plain PROFILE" "plain overrides" "fld PROFILE ''roles'' = JObj rs"
  shows "valid_roles h PROFILE roles"
proof -
  from assms(1,4) have c: "\<forall>p\<in>set rs. \<exists>u. check_role h PROFILE p = Inr u"
    and f: "for_fold (apply_override h PROFILE) rs (own_props overrides) = Inr roles" and o: "plain_object overrides"
    by (auto simp: resolved_roles_def for_each_Inr own_props_def split: if_splits)
  have po: "plain (snd p)" if "p \<in> set (own_props overrides)" for p
    using that o assms(3) by (cases overrides) (auto simp: own_props_def)
  obtain fs where fs: "PROFILE = JObj fs" using assms(2,4) by (cases PROFILE) (auto simp: fld_def obj_get_def proto_names_def split: if_splits)
  have "(''roles'', JObj rs) \<in> set fs"
    using assms(4) by (auto simp: fs fld_own proto_names_def split: option.splits dest: map_of_SomeD)
  with assms(2) have "plain (JObj rs)" unfolding fs by fastforce
  moreover have "valid_options h PROFILE (fld (snd p) ''scope'') (fld (snd p) ''options'')" if "p \<in> set rs" for p
    using c that validateOptions_Inr by (fastforce simp: check_role_def dot_Inr)
  ultimately have "valid_roles h PROFILE rs" by (auto simp: valid_roles_def)
  then show ?thesis
    by (rule for_fold_invariant [OF f]) (use apply_override_valid po in blast)
qed

lemma plain_spread_JObj: "plain v \<Longrightarrow> coal v w = v \<or> v = JNull"
  by (cases v) (auto simp: coal_def)

section \<open>Properties\<close>

text \<open>
  C23. In a resolved distribution every role runs on exactly three options, which are different
  models of the approved catalogue, each routed through the client and provider its subscription
  declares, with an effort its scope allows; when their subscriptions are given as texts, at least two
  different ones carry the budget. This holds for the installed roles and for every override of the
  project. The profile and the selection are JSON values.
\<close>

theorem resolved_distribution_valid:
  assumes "resolveDistribution h PROFILE selection = Inr d" and "plain PROFILE" and "fld PROFILE ''roles'' = JObj rs"
    and "plain (coal (fld selection ''overrides'') (JObj []))"
  shows "\<exists>roles. fld d ''roles'' = JObj roles \<and> distinct (map fst roles)
    \<and> (\<forall>(seat, role)\<in>set roles. valid_options h PROFILE (fld role ''scope'') (fld role ''options''))"
proof -
  obtain fs where fs: "PROFILE = JObj fs" using assms(2,3) by (cases PROFILE) (auto simp: fld_def obj_get_def proto_names_def split: if_splits)
  from assms(1) plain_clone [OF assms(2)] obtain roles
    where r: "resolved_roles h PROFILE PROFILE (coal (fld selection ''overrides'') (JObj [])) = Inr roles"
      and d: "d = JObj (obj_spread (obj_set (own_props PROFILE) ''roles'' (JObj roles))
         [(''profileDigest'', fld selection ''profileDigest''), (''selectionDigest'', JStr (recordDigest h selection))])"
    by (auto simp: resolveDistribution_def)
  have "fld d ''roles'' = JObj roles" by (simp add: d fld_own map_of_obj_spread)
  moreover have "valid_roles h PROFILE roles" by (rule resolved_roles_valid [OF r assms(2,4,3)])
  ultimately show ?thesis by (fastforce simp: valid_roles_def)
qed

lemma route_loop_found:
  assumes "route_loop seat digest availability excluded now max_age i reasons options = r" "rt_status r = ''eligible-proposal''"
  shows "rt_selected r \<in> set options \<and> \<not> js_includes excluded (fld (rt_selected r) ''providerFamily'')
    \<and> fresh_record (record_for availability (rt_selected r)) now max_age
    \<and> fld (record_for availability (rt_selected r)) ''status'' = JStr ''healthy''
    \<and> (\<exists>k. rt_index r = Some (i + k) \<and> k < length options \<and> options ! k = rt_selected r
        \<and> (\<forall>j<k. js_includes excluded (fld (options ! j) ''providerFamily'')
              \<or> \<not> fresh_record (record_for availability (options ! j)) now max_age
              \<or> fld (record_for availability (options ! j)) ''status'' \<noteq> JStr ''healthy''))"
  using assms
proof (induction options arbitrary: i reasons)
  case (Cons option options)
  let ?a = "record_for availability option"
  show ?case
  proof (cases "js_includes excluded (fld option ''providerFamily'') \<or> \<not> fresh_record ?a now max_age \<or> fld ?a ''status'' \<noteq> JStr ''healthy''")
    case True
    then obtain rs where "route_loop seat digest availability excluded now max_age (Suc i) rs options = r"
      using Cons.prems(1) by (auto simp: Let_def split: if_splits)
    from Cons.IH [OF this Cons.prems(2)] obtain k where k: "rt_selected r \<in> set options \<and> \<not> js_includes excluded (fld (rt_selected r) ''providerFamily'')
      \<and> fresh_record (record_for availability (rt_selected r)) now max_age
      \<and> fld (record_for availability (rt_selected r)) ''status'' = JStr ''healthy''"
      "rt_index r = Some (Suc i + k)" "k < length options" "options ! k = rt_selected r"
      "\<forall>j<k. js_includes excluded (fld (options ! j) ''providerFamily'')
              \<or> \<not> fresh_record (record_for availability (options ! j)) now max_age
              \<or> fld (record_for availability (options ! j)) ''status'' \<noteq> JStr ''healthy''" by blast
    then show ?thesis using True by (auto intro!: exI [of _ "Suc k"] simp: less_Suc_eq_0_disj)
  next
    case False
    with Cons.prems(1) have "r = \<lparr>rt_status = ''eligible-proposal'', rt_seat = seat, rt_selected = option, rt_index = Some i,
      rt_digest = digest, rt_reasons = reasons\<rparr>" by (auto simp: Let_def)
    with False show ?thesis by (auto intro!: exI [of _ 0])
  qed
qed auto

text \<open>One role on three subscriptions.\<close>

definition sample_route :: "string \<Rightarrow> string \<Rightarrow> js" where
  "sample_route sub model =
     JObj (zip route_fields (map JStr (the (map_of ROUTES sub)))
       @ [(''subscription'', JStr sub), (''model'', JStr model), (''effort'', JStr ''low'')])"

definition sample_routes :: "js list" where
  "sample_routes = [sample_route ''openai'' ''gpt-5'', sample_route ''claude'' ''claude-4'', sample_route ''grok'' ''grok-4'']"

definition sample_distribution :: js where
  "sample_distribution =
     JObj [(''id'', JStr ''balanced''), (''roleAliases'', JObj []),
       (''roles'', JObj [(''dev.build'', JObj [(''scope'', JStr ''work-item''), (''options'', JArr sample_routes)])])]"

definition sample_distribution_choice :: js where
  "sample_distribution_choice =
     JObj [(''profile'', JStr ''balanced''), (''profileDigest'', JStr (recordDigest const_host sample_distribution)), (''overrides'', JObj [])]"

definition resolved_sample :: js where
  "resolved_sample = JObj (obj_spread (own_props sample_distribution)
     [(''profileDigest'', JStr (recordDigest const_host sample_distribution)),
      (''selectionDigest'', JStr (recordDigest const_host sample_distribution_choice))])"

lemma sample_distribution_plain: "plain sample_distribution"
  by (simp add: sample_distribution_def sample_routes_def sample_route_def route_fields_def ROUTES_def)

lemma sample_routes_valid: "validateOptions const_host sample_distribution (JArr sample_routes) (JStr ''work-item'') = Inr ()"
  by code_simp

lemma sample_choice_fields:
  "coal (fld sample_distribution_choice ''overrides'') (JObj []) = JObj []"
  "fld sample_distribution_choice ''profileDigest'' = JStr (recordDigest const_host sample_distribution)"
  by (simp_all add: sample_distribution_choice_def fld_own coal_def)

lemma sample_distribution_props:
  "obj_set (own_props sample_distribution) ''roles'' (JObj (own_props (fld sample_distribution ''roles''))) = own_props sample_distribution"
  by (simp add: sample_distribution_def fld_own own_props_def)

lemma sample_distribution_resolved: "resolveDistribution const_host sample_distribution sample_distribution_choice = Inr resolved_sample"
proof -
  have "check_selection const_host sample_distribution sample_distribution_choice = Inr ()"
    by (simp add: check_selection_def check_keys_def sample_distribution_choice_def fld_own own_props_def)
       (simp add: sample_distribution_def fld_own)
  moreover have "resolved_roles const_host sample_distribution sample_distribution (JObj []) = Inr (own_props (fld sample_distribution ''roles''))"
    by (simp add: resolved_roles_def check_role_def own_props_def fld_own sample_distribution_def)
       (simp add: sample_routes_valid [unfolded sample_distribution_def])
  ultimately show ?thesis using plain_clone [OF sample_distribution_plain] unfolding resolveDistribution_def sample_choice_fields
    by (simp add: resolved_sample_def sample_distribution_props)
qed

lemma resolved_distribution_valid_witness:
  "\<exists>roles. fld resolved_sample ''roles'' = JObj roles \<and> distinct (map fst roles)
    \<and> (\<forall>(seat, role)\<in>set roles. valid_options const_host sample_distribution (fld role ''scope'') (fld role ''options''))"
proof -
  have "plain (coal (fld sample_distribution_choice ''overrides'') (JObj []))"
    by (simp add: sample_choice_fields)
  moreover have "fld sample_distribution ''roles'' = JObj (own_props (fld sample_distribution ''roles''))"
    by (simp add: sample_distribution_def fld_own own_props_def)
  ultimately show ?thesis
    by (intro resolved_distribution_valid [OF sample_distribution_resolved sample_distribution_plain])
qed

section \<open>One budget taken for two\<close>

text \<open>
  A subscription given as a one-element list names the same route as its text, but counts as another
  budget: three models of one subscription pass the check.
\<close>

definition listed_route :: "string \<Rightarrow> js \<Rightarrow> js" where
  "listed_route model sub =
     JObj (zip route_fields (map JStr (the (map_of ROUTES ''openai'')))
       @ [(''subscription'', sub), (''model'', JStr model), (''effort'', JStr ''low'')])"

definition one_budget_profile :: js where
  "one_budget_profile = JObj [(''roles'', JObj [(''dev.build'', JObj [(''options'', JArr
     (map (\<lambda>m. sample_route ''openai'' m) [''gpt-6-astra'', ''gpt-6-luna'', ''gpt-6.1-sol'']))])])]"

lemma listed_subscription_accepted:
  "validateOptions const_host one_budget_profile (JArr [listed_route ''gpt-6-astra'' (JStr ''openai''),
     listed_route ''gpt-6-luna'' (JStr ''openai''), listed_route ''gpt-6.1-sol'' (JArr [JStr ''openai''])]) (JStr ''work-item'') = Inr ()"
  by code_simp

end
