(* ===== verification/Quota.thy ===== *)
theory Quota
  imports Distribution Binding
begin

text \<open>
  Quota control (src/lib/config/quota-policy.mjs): the checked policy, the classification of single
  observations of a subscription, the health of a subscription over its configured windows, and what
  a seat does when the subscription it runs on gets short. Times are finite numbers, as
  \<open>Date.now()\<close> gives them; an absent optional field of an observation is \<open>None\<close>. The
  configuration files are read elsewhere: \<open>load\<close> gives the workflow object of a directory.
\<close>

section \<open>The policy\<close>

definition ALLOWED_QUOTA_WINDOWS :: "string list" where
  "ALLOWED_QUOTA_WINDOWS = [''weekly'', ''five-hour'']"

definition ALLOWED_OBSERVATION_SOURCES :: "string list" where
  "ALLOWED_OBSERVATION_SOURCES = [''provider-status-api'', ''provider-rate-limit-headers'', ''subscription-dashboard-snapshot'',
     ''cli-usage-probe'', ''operator-reported-snapshot'']"

definition ALLOWED_OBSERVATION_MODES :: "string list" where
  "ALLOWED_OBSERVATION_MODES = [''supported'', ''approximate'', ''unavailable'']"

definition ALLOWED_CHECKPOINT_CADENCES :: "string list" where
  "ALLOWED_CHECKPOINT_CADENCES = [''phase-boundary'', ''slice-boundary'', ''turn-boundary'']"

definition quota_policy_keys :: "string list" where
  "quota_policy_keys = [''version'', ''enabled'', ''windows'', ''thresholdRemainingPct'', ''windowThresholds'', ''checkpointCadence'',
     ''maxObservationAgeMs'', ''minSwitchCooldownMs'', ''maxSwitchesPerIncident'', ''fallbackAction'', ''simultaneousWindowRule'']"

definition defaultQuotaControlPolicy :: "(string \<times> js) list" where
  "defaultQuotaControlPolicy =
     [(''version'', JNat 1), (''enabled'', JBool False), (''windows'', JArr [JStr ''weekly'']), (''thresholdRemainingPct'', JNat 25),
      (''checkpointCadence'', JStr ''phase-boundary''), (''maxObservationAgeMs'', JNat 300000), (''minSwitchCooldownMs'', JNat 300000),
      (''maxSwitchesPerIncident'', JNat 2), (''fallbackAction'', JStr ''approved-fallback-or-park''),
      (''simultaneousWindowRule'', JStr ''most-restrictive'')]"

definition percentage_inside :: "js \<Rightarrow> bool" where
  "percentage_inside v = (case v of JNum (Fin r) \<Rightarrow> 0 < r \<and> r < 100 | _ \<Rightarrow> False)"

definition int_between :: "js \<Rightarrow> int \<Rightarrow> int option \<Rightarrow> bool" where
  "int_between v lo hi = (case js_int v of Some n \<Rightarrow> lo \<le> n \<and> (case hi of None \<Rightarrow> True | Some m \<Rightarrow> n \<le> m) | None \<Rightarrow> False)"

definition windows_ok :: "js \<Rightarrow> bool" where
  "windows_ok v = (case v of JArr xs \<Rightarrow> xs \<noteq> [] \<and> list_all (one_of ALLOWED_QUOTA_WINDOWS) xs \<and> length (js_set xs) = length xs | _ \<Rightarrow> False)"

definition threshold_errors :: "js \<Rightarrow> string list" where
  "threshold_errors v =
     (if \<not> plain_object v then [''quotaControl.windowThresholds must be an object'']
      else concat (map (\<lambda>(win, val).
        if win \<notin> set ALLOWED_QUOTA_WINDOWS then [''quotaControl.windowThresholds.'' @ win @ '' is not a supported window'']
        else if \<not> percentage_inside val then [''quotaControl.windowThresholds.'' @ win @ '' must be a number between 0 and 100'']
        else []) (own_props v)))"

definition error_unless :: "bool \<Rightarrow> string \<Rightarrow> string list" where
  "error_unless good m = (if good then [] else [m])"

text \<open>\<open>policy.k !== undefined && !valid(policy.k)\<close>\<close>

definition set_and :: "js \<Rightarrow> string \<Rightarrow> (js \<Rightarrow> bool) \<Rightarrow> string \<Rightarrow> string list" where
  "set_and policy k good m = error_unless (fld policy k = JUndef \<or> good (fld policy k)) m"

definition quota_policy_errors :: "js \<Rightarrow> string list" where
  "quota_policy_errors policy =
     map (\<lambda>k. ''quotaControl.'' @ k @ '' is unknown'') (filter (\<lambda>k. k \<notin> set quota_policy_keys) (map fst (own_props policy)))
     @ set_and policy ''version'' (\<lambda>v. js_eq v (JNat 1)) ''quotaControl.version must be 1''
     @ set_and policy ''enabled'' is_bool ''quotaControl.enabled must be a boolean''
     @ set_and policy ''windows'' windows_ok ''quotaControl.windows must be a non-empty unique array of: weekly, five-hour''
     @ set_and policy ''thresholdRemainingPct'' percentage_inside
         ''quotaControl.thresholdRemainingPct must be a number between 0 and 100 (exclusive)''
     @ (if fld policy ''windowThresholds'' \<noteq> JUndef then threshold_errors (fld policy ''windowThresholds'') else [])
     @ set_and policy ''checkpointCadence'' (one_of ALLOWED_CHECKPOINT_CADENCES)
         ''quotaControl.checkpointCadence must be one of: phase-boundary, slice-boundary, turn-boundary''
     @ set_and policy ''maxObservationAgeMs'' (\<lambda>v. int_between v 10000 (Some 86400000))
         ''quotaControl.maxObservationAgeMs must be an integer between 10000 and 86400000''
     @ set_and policy ''minSwitchCooldownMs'' (\<lambda>v. int_between v 0 None) ''quotaControl.minSwitchCooldownMs must be a non-negative integer''
     @ set_and policy ''maxSwitchesPerIncident'' (\<lambda>v. int_between v 1 (Some 10))
         ''quotaControl.maxSwitchesPerIncident must be an integer between 1 and 10''
     @ set_and policy ''fallbackAction'' (one_of [''approved-fallback-or-park'', ''park-only''])
         ''quotaControl.fallbackAction must be approved-fallback-or-park or park-only''
     @ set_and policy ''simultaneousWindowRule'' (\<lambda>v. v = JStr ''most-restrictive'')
         ''quotaControl.simultaneousWindowRule must be most-restrictive''"

definition validateQuotaControlPolicyShape :: "js \<Rightarrow> string list" where
  "validateQuotaControlPolicyShape policy =
     (if \<not> plain_object policy then [''quotaControl must be an object''] else quota_policy_errors policy)"

text \<open>The workflow object is read from a directory or given.\<close>

definition workflow_of :: "(string \<Rightarrow> js res) \<Rightarrow> js \<Rightarrow> js res" where
  "workflow_of load source =
     (case source of JStr root_dir \<Rightarrow> load root_dir | _ \<Rightarrow> Inr (if plain_object source then source else JObj []))"

definition object_or_empty :: "js \<Rightarrow> (string \<times> js) list" where
  "object_or_empty v = (if plain_object v then own_props v else [])"

definition merged_policy :: "js \<Rightarrow> js \<Rightarrow> (string \<times> js) list" where
  "merged_policy workflow overrides =
     (let park = (if fld (JObj (object_or_empty (fld (fld workflow ''steering'') ''quotaPolicy''))) ''mode'' = JStr ''park-and-checkpoint''
                  then [(''fallbackAction'', JStr ''park-only'')] else [])
      in obj_spread (obj_spread (obj_spread defaultQuotaControlPolicy park) (object_or_empty (fld workflow ''quotaControl''))) (own_props overrides))"

definition resolveQuotaControlPolicy :: "host \<Rightarrow> (string \<Rightarrow> js res) \<Rightarrow> js \<Rightarrow> js \<Rightarrow> js res" where
  "resolveQuotaControlPolicy h load source overrides =
     bnd (workflow_of load source) (\<lambda>workflow.
     let merged = merged_policy workflow overrides; errors = validateQuotaControlPolicyShape (JObj merged) in
     if errors \<noteq> [] then fail (''Invalid quota control policy: '' @ js_join ''; '' errors)
     else Inr (JObj (obj_set merged ''policyDigest'' (JStr (recordDigest h (JObj merged))))))"

section \<open>One observation\<close>

record quota_obs =
  q_valid :: bool
  q_subscription :: "string option"
  q_window :: "string option"
  q_source :: "string option"
  q_observed :: "rat option"
  q_age :: "rat option"
  q_remaining :: js
  q_threshold :: "js"
  q_exhausted :: bool
  q_reset :: "rat option"
  q_class :: string
  q_health :: string
  q_reason :: string

definition refused_obs :: "string \<Rightarrow> quota_obs" where
  "refused_obs why = \<lparr>q_valid = False, q_subscription = None, q_window = None, q_source = None, q_observed = None, q_age = None,
     q_remaining = JUndef, q_threshold = JUndef, q_exhausted = False, q_reset = None, q_class = ''unavailable'', q_health = ''unknown'',
     q_reason = why\<rparr>"

definition trimmed_text :: "js \<Rightarrow> string" where
  "trimmed_text v = (case v of JStr s \<Rightarrow> js_trim s | _ \<Rightarrow> [])"

definition text_option :: "string \<Rightarrow> string option" where
  "text_option s = (if s = [] then None else Some s)"

definition finite_option :: "jsnum \<Rightarrow> rat option" where
  "finite_option n = (case n of Fin r \<Rightarrow> Some r | _ \<Rightarrow> None)"

text \<open>A time given as a number or as a date text.\<close>

definition time_of :: "host \<Rightarrow> js \<Rightarrow> rat option" where
  "time_of h v = (case v of JNum n \<Rightarrow> finite_option n | JStr s \<Rightarrow> finite_option (date_parse h v) | _ \<Rightarrow> None)"

record quota_limits =
  ql_max_age :: jsnum
  ql_threshold :: js
  ql_windows :: js

definition not_a_quota :: "js \<Rightarrow> bool" where
  "not_a_quota obs = (one_of [''context-tokens'', ''transcript-text''] (fld obs ''kind'') \<or> one_of [''transcript'', ''context-window''] (fld obs ''source''))"

text \<open>The reading of a fresh observation: unavailable, without a usable percentage, or measured.\<close>

definition effective_threshold :: "quota_limits \<Rightarrow> string \<Rightarrow> js" where
  "effective_threshold lims win = (if js_finite (fld (ql_windows lims) win) then fld (ql_windows lims) win else ql_threshold lims)"

definition measured_obs :: "quota_limits \<Rightarrow> string \<Rightarrow> js \<Rightarrow> rat \<Rightarrow> quota_obs \<Rightarrow> quota_obs" where
  "measured_obs lims win mode pct o1 =
     (let thr = effective_threshold lims win; crossed = num_less (Fin pct) (num_of thr); exhausted = (pct \<le> 0) in
      o1\<lparr>q_valid := True, q_remaining := JNum (Fin pct), q_threshold := thr, q_exhausted := exhausted,
         q_class := (if mode = JStr ''approximate'' then ''approximate'' else ''supported''),
         q_health := (if crossed then ''threshold-crossed'' else ''healthy''),
         q_reason := (if exhausted then ''quota-exhausted'' else if crossed then ''below-remaining-threshold'' else ''within-quota-budget'')\<rparr>)"

definition fresh_obs :: "host \<Rightarrow> quota_limits \<Rightarrow> rat \<Rightarrow> js \<Rightarrow> js \<Rightarrow> string \<Rightarrow> quota_obs \<Rightarrow> quota_obs" where
  "fresh_obs h lims now obs mode win o1 =
     (let reset = (case time_of h (fld obs ''resetAt'') of Some r \<Rightarrow> if now < r then Some r else None | None \<Rightarrow> None);
          o2 = o1\<lparr>q_reset := reset\<rparr>; pct = fld obs ''remainingPct'' in
      if mode = JStr ''unavailable'' \<or> fld obs ''status'' = JStr ''unavailable''
      then o2\<lparr>q_valid := True, q_remaining := (if js_finite pct then pct else JNull), q_health := ''unavailable'',
              q_reason := ''provider-reported-unavailable''\<rparr>
      else case pct of
        JNum (Fin r) \<Rightarrow> if 0 \<le> r \<and> r \<le> 100 then measured_obs lims win mode r o2
                        else o1\<lparr>q_reason := ''invalid-or-missing-remaining-percentage''\<rparr>
      | _ \<Rightarrow> o1\<lparr>q_reason := ''invalid-or-missing-remaining-percentage''\<rparr>)"

definition dated_obs :: "host \<Rightarrow> quota_limits \<Rightarrow> rat \<Rightarrow> js \<Rightarrow> js \<Rightarrow> string \<Rightarrow> quota_obs \<Rightarrow> quota_obs" where
  "dated_obs h lims now obs mode win o0 =
     (case time_of h (fld obs ''observedAt'') of
        None \<Rightarrow> o0\<lparr>q_reason := ''missing-or-future-timestamp''\<rparr>
      | Some t \<Rightarrow>
          if now < t then o0\<lparr>q_reason := ''missing-or-future-timestamp''\<rparr>
          else let o1 = o0\<lparr>q_observed := Some t, q_age := Some (now - t)\<rparr> in
            if num_less (ql_max_age lims) (Fin (now - t))
            then o1\<lparr>q_valid := True, q_class := ''stale'', q_reason := ''observation-exceeds-max-age''\<rparr>
            else fresh_obs h lims now obs mode win o1)"

definition classifyQuotaObservation :: "host \<Rightarrow> quota_limits \<Rightarrow> rat \<Rightarrow> js \<Rightarrow> quota_obs" where
  "classifyQuotaObservation h lims now obs0 =
     (let obs = js_default obs0 (JObj []); sub = trimmed_text (fld obs ''subscription''); win = trimmed_text (fld obs ''window'');
          src = trimmed_text (fld obs ''source''); mode = coal (fld obs ''mode'') (JStr ''supported'') in
      if \<not> plain_object obs then refused_obs ''malformed-observation''
      else if not_a_quota obs then refused_obs ''context-or-transcript-usage-is-not-provider-quota''
      else if sub = [] \<or> win \<notin> set ALLOWED_QUOTA_WINDOWS
      then (refused_obs ''missing-subscription-or-unsupported-window'')\<lparr>q_subscription := text_option sub, q_window := text_option win\<rparr>
      else if src \<notin> set ALLOWED_OBSERVATION_SOURCES \<or> \<not> one_of ALLOWED_OBSERVATION_MODES mode
      then (refused_obs ''unsupported-observation-source-or-mode'')\<lparr>q_subscription := Some sub, q_window := Some win\<rparr>
      else dated_obs h lims now obs mode win
             ((refused_obs [])\<lparr>q_subscription := Some sub, q_window := Some win, q_source := Some src\<rparr>))"

section \<open>The pool of a subscription\<close>

record quota_pool =
  qp_subscription :: string
  qp_status :: string
  qp_reason :: string
  qp_windows :: "(string \<times> quota_obs) list"
  qp_missing :: "string list"
  qp_lowest :: "rat option"
  qp_reset :: "rat option"
  qp_observed :: "rat option"

definition unknown_pool :: "string \<Rightarrow> string \<Rightarrow> quota_pool" where
  "unknown_pool sub why = \<lparr>qp_subscription = sub, qp_status = ''unknown'', qp_reason = why, qp_windows = [], qp_missing = [], qp_lowest = None,
     qp_reset = None, qp_observed = None\<rparr>"

definition seen_at :: "quota_obs \<Rightarrow> rat" where
  "seen_at q = (case q_observed q of Some t \<Rightarrow> t | None \<Rightarrow> 0)"

text \<open>The observations of a window, newest first (stable).\<close>

definition window_items :: "quota_obs list \<Rightarrow> string \<Rightarrow> quota_obs list" where
  "window_items items win = sort_key (\<lambda>q. - seen_at q) (filter (\<lambda>q. q_window q = Some win) items)"

definition window_conflict :: "quota_obs list \<Rightarrow> bool" where
  "window_conflict qs =
     (case qs of a # b # _ \<Rightarrow> q_observed a = q_observed b \<and> \<not> js_eq (q_remaining a) (q_remaining b) | _ \<Rightarrow> False)"

definition pool_status :: "quota_obs list \<Rightarrow> string list \<Rightarrow> string list \<Rightarrow> string \<times> string" where
  "pool_status qs missing windows =
     (if list_ex (\<lambda>q. q_health q = ''threshold-crossed'') qs then (''threshold-crossed'', ''configured-window-below-threshold'')
      else if list_ex (\<lambda>q. q_health q = ''unavailable'') qs then (''unavailable'', ''configured-window-unavailable'')
      else if list_ex (\<lambda>q. \<not> q_valid q) qs then (''unknown'', ''configured-window-invalid-or-unverified'')
      else if list_ex (\<lambda>q. q_class q = ''stale'') qs then (''stale'', ''configured-window-stale-or-unverified'')
      else if missing \<noteq> [] then (''unknown'', ''missing-observation-for-configured-window'')
      else if length qs = length windows
           \<and> list_all (\<lambda>q. q_valid q \<and> q_class q \<in> {''supported'', ''approximate''} \<and> q_health q = ''healthy'') qs
      then (''healthy'', ''all-observed-windows-healthy'')
      else (''unknown'', ''observation-incomplete''))"

definition lowest :: "rat list \<Rightarrow> rat option" where
  "lowest xs = (case xs of [] \<Rightarrow> None | y # ys \<Rightarrow> Some (fold min ys y))"

definition highest :: "rat list \<Rightarrow> rat option" where
  "highest xs = (case xs of [] \<Rightarrow> None | y # ys \<Rightarrow> Some (fold max ys y))"

definition judged_pool :: "string \<Rightarrow> rat \<Rightarrow> (string \<times> quota_obs) list \<Rightarrow> string list \<Rightarrow> string list \<Rightarrow> quota_pool" where
  "judged_pool sub now wmap missing windows =
     (let qs = map snd wmap; s = pool_status qs missing windows in
      \<lparr>qp_subscription = sub, qp_status = fst s, qp_reason = snd s, qp_windows = wmap, qp_missing = missing,
       qp_lowest = lowest (List.map_filter (\<lambda>q. finite_option (num_of (q_remaining q))) qs),
       qp_reset = highest (List.map_filter q_reset qs),
       qp_observed = lowest (map (\<lambda>q. case q_observed q of Some t \<Rightarrow> t | None \<Rightarrow> now) qs)\<rparr>)"

definition pool_of :: "string list \<Rightarrow> rat \<Rightarrow> string \<Rightarrow> quota_obs list \<Rightarrow> quota_pool" where
  "pool_of windows now sub items =
     (let relevant = filter (\<lambda>q. case q_window q of Some w \<Rightarrow> w \<in> set windows | None \<Rightarrow> False) items;
          found = filter (\<lambda>w. window_items relevant w \<noteq> []) windows;
          missing = filter (\<lambda>w. window_items relevant w = []) windows;
          wmap = map (\<lambda>w. (w, hd (window_items relevant w))) found in
      if relevant = [] then unknown_pool sub ''no-observation-for-configured-windows''
      else if list_ex (\<lambda>w. window_conflict (window_items relevant w)) windows
      then (unknown_pool sub ''conflicting-simultaneous-window-observations'')\<lparr>qp_windows := wmap, qp_missing := missing\<rparr>
      else judged_pool sub now wmap missing windows)"

definition quota_limits_of :: "js \<Rightarrow> quota_limits" where
  "quota_limits_of policy =
     \<lparr>ql_max_age = num_of (js_default (fld policy ''maxObservationAgeMs'') (JNat 300000)),
      ql_threshold = js_default (fld policy ''thresholdRemainingPct'') (JNat 25),
      ql_windows = js_default (fld policy ''windowThresholds'') (JObj [])\<rparr>"

definition policy_windows :: "js \<Rightarrow> string list" where
  "policy_windows policy = map str_of (elems (fld policy ''windows''))"

text \<open>The subscriptions in the order of their first classified observation.\<close>

definition subscriptions_of :: "quota_obs list \<Rightarrow> string list" where
  "subscriptions_of qs = foldl (\<lambda>acc s. if s \<in> set acc then acc else acc @ [s]) [] (List.map_filter q_subscription qs)"

type_synonym pools = "(string \<times> quota_pool) list"

definition evaluateSubscriptionQuotaPools :: "host \<Rightarrow> js \<Rightarrow> js \<Rightarrow> rat \<Rightarrow> quota_obs list \<times> pools" where
  "evaluateSubscriptionQuotaPools h observed_list policy now =
     (let classified = (if is_array observed_list
            then map (classifyQuotaObservation h (quota_limits_of policy) now) (elems observed_list) else []) in
      (classified, map (\<lambda>s. (s, pool_of (policy_windows policy) now s (filter (\<lambda>q. q_subscription q = Some s) classified)))
                     (subscriptions_of classified)))"


section \<open>The decision for a seat\<close>

text \<open>
  A decision leaves out the fields that are the same in every answer (the disclosure, the empty
  effects), those that only repeat the policy or the observations given, and the flags that follow
  from the status.
\<close>

record seat_args =
  sa_seat :: js
  sa_current :: js
  sa_policy :: js
  sa_selection :: js
  sa_observations :: js
  sa_checkpoint :: js
  sa_excluded :: js
  sa_history :: js
  sa_preserve :: js
  sa_now :: rat

record kept_state =
  kp_seat :: js
  kp_owner :: js
  kp_task :: js
  kp_worktree :: js
  kp_custody :: js
  kp_artifacts :: js
  kp_excluded :: "js list option"

record quota_duty =
  od_owner :: js
  od_action :: string
  od_next :: jsnum
  od_reset :: js

record quota_decision =
  qd_ok :: bool
  qd_enabled :: bool
  qd_intervention :: string
  qd_status :: string
  qd_reason :: "string option"
  qd_seat :: js
  qd_current :: js
  qd_selected :: js
  qd_pool :: "quota_pool option"
  qd_target :: "quota_pool option"
  qd_kept :: "kept_state option"
  qd_duty :: "quota_duty option"
  qd_index :: "nat option"
  qd_digest :: js
  qd_reasons :: "(nat \<times> string) list"

text \<open>\<open>/^[a-zA-Z0-9][a-zA-Z0-9_.:/@#-]{0,159}$/\<close> on the trimmed text\<close>

definition safeId :: "js \<Rightarrow> bool" where
  "safeId v = (case v of
       JStr s \<Rightarrow> (case js_trim s of [] \<Rightarrow> False
          | c # r \<Rightarrow> is_alnum c \<and> length r \<le> 159 \<and> list_all (\<lambda>d. is_alnum d \<or> d \<in> set ''_.:/@#-'') r)
     | _ \<Rightarrow> False)"

definition normalizeWorktreePath :: "js \<Rightarrow> js" where
  "normalizeWorktreePath v =
     (if trimmed_text v \<noteq> [] then JStr (map (\<lambda>c. if c = CHR 0x5C then CHR ''/'' else c) (trimmed_text v)) else JNull)"

definition kept_of :: "js \<Rightarrow> js \<Rightarrow> js list option \<Rightarrow> kept_state" where
  "kept_of seat p excluded =
     \<lparr>kp_seat = seat, kp_owner = coal (fld p ''owner'') seat, kp_task = coal (fld p ''taskId'') JNull,
      kp_worktree = normalizeWorktreePath (fld p ''worktree''), kp_custody = coal (fld p ''oracleCustodyDigest'') JNull,
      kp_artifacts = coal (fld p ''artifactDigests'') JNull, kp_excluded = excluded\<rparr>"

definition owner_or :: "js \<Rightarrow> js \<Rightarrow> js" where
  "owner_or p d = (if safeId (fld p ''owner'') then fld p ''owner'' else d)"

text \<open>What every decision of a call shares.\<close>

definition decision :: "bool \<Rightarrow> bool \<Rightarrow> string \<Rightarrow> string \<Rightarrow> js \<Rightarrow> js \<Rightarrow> js \<Rightarrow> quota_pool option \<Rightarrow> quota_decision" where
  "decision fine enabled intervention st seat current selected pool =
     \<lparr>qd_ok = fine, qd_enabled = enabled, qd_intervention = intervention, qd_status = st, qd_reason = None, qd_seat = seat,
      qd_current = current, qd_selected = selected, qd_pool = pool, qd_target = None, qd_kept = None, qd_duty = None, qd_index = None,
      qd_digest = JUndef, qd_reasons = []\<rparr>"

definition seat_policy :: "js \<Rightarrow> js res" where
  "seat_policy raw =
     (let input = obj_del (object_or_empty raw) ''policyDigest''; errors = validateQuotaControlPolicyShape (JObj input) in
      if errors \<noteq> [] then fail (''Invalid quotaControl policy: '' @ js_join ''; '' errors)
      else Inr (JObj (obj_spread defaultQuotaControlPolicy input)))"

text \<open>The pool of the active subscription, which a missing pool names by its text; a subscription is presumed
  not to be the name of a member every object inherits.\<close>

definition current_pool :: "host \<Rightarrow> pools \<Rightarrow> js \<Rightarrow> quota_pool" where
  "current_pool h pools sub =
     (case map_of pools (js_string h sub) of Some p \<Rightarrow> p
      | None \<Rightarrow> unknown_pool (js_string h sub) ''no-observation-for-active-subscription'')"

definition hold_unverified :: "js \<Rightarrow> seat_args \<Rightarrow> js \<Rightarrow> js \<Rightarrow> quota_pool \<Rightarrow> quota_decision" where
  "hold_unverified policy a seat current pool =
     (decision False True ''hold-unverified-quota''
        (if qp_status pool = ''stale'' then ''QUOTA_OBSERVATION_STALE'' else ''QUOTA_OBSERVATION_UNAVAILABLE'') seat current JNull (Some pool))
     \<lparr>qd_kept := Some (kept_of seat (sa_preserve a) None),
      qd_duty := Some \<lparr>od_owner = owner_or (sa_preserve a) seat, od_action = ''refresh-supported-quota-observation-or-park'',
        od_next = num_op (+) (Fin (sa_now a)) (num_op min (num_of (fld policy ''maxObservationAgeMs'')) (Fin 300000)), od_reset = JUndef\<rparr>\<rparr>"

definition reset_or_null :: "quota_pool \<Rightarrow> js" where
  "reset_or_null pool = (case qp_reset pool of Some t \<Rightarrow> JNum (Fin t) | None \<Rightarrow> JNull)"

definition parked :: "seat_args \<Rightarrow> js \<Rightarrow> js \<Rightarrow> quota_pool \<Rightarrow> string \<Rightarrow> string \<Rightarrow> string \<Rightarrow> rat \<Rightarrow> js \<Rightarrow> quota_decision" where
  "parked a seat current pool st why todo wait reset =
     (decision False True ''park-and-checkpoint'' st seat current JNull (Some pool))
     \<lparr>qd_reason := Some why, qd_kept := Some (kept_of seat (sa_preserve a) None),
      qd_duty := Some \<lparr>od_owner = owner_or (sa_preserve a) (JStr ''steer.lead''), od_action = todo,
        od_next = Fin (case qp_reset pool of Some t \<Rightarrow> t | None \<Rightarrow> sa_now a + wait), od_reset = reset\<rparr>\<rparr>"

definition wrap_up :: string where
  "wrap_up = ''wrap-up-update-records-and-park-until-reset-or-decision''"

definition switch_count :: "js \<Rightarrow> int" where
  "switch_count past = (case js_int (fld past ''switchCount'') of Some n \<Rightarrow> n | None \<Rightarrow> 0)"

definition in_cooldown :: "js \<Rightarrow> js \<Rightarrow> rat \<Rightarrow> bool" where
  "in_cooldown policy past now =
     (case fld past ''lastSwitchAt'' of
        JNum (Fin t) \<Rightarrow> 0 \<le> now - t \<and> num_less (Fin (now - t)) (num_of (fld policy ''minSwitchCooldownMs''))
      | _ \<Rightarrow> False)"

definition park_only :: "js \<Rightarrow> bool" where
  "park_only policy = (fld policy ''fallbackAction'' = JStr ''park-only'')"

definition switches_used_up :: "js \<Rightarrow> js \<Rightarrow> bool" where
  "switches_used_up policy past = num_le (num_of (fld policy ''maxSwitchesPerIncident'')) (Fin (of_int (switch_count past)))"

definition park_instead :: "js \<Rightarrow> seat_args \<Rightarrow> js \<Rightarrow> js \<Rightarrow> quota_pool \<Rightarrow> quota_decision" where
  "park_instead policy a seat current pool =
     (let cool = in_cooldown policy (sa_history a) (sa_now a) in
      parked a seat current pool
        (if park_only policy then ''QUOTA_PARKED_AT_CHECKPOINT'' else if cool then ''QUOTA_SWITCH_COOLDOWN_HOLD'' else ''QUOTA_MAX_SWITCHES_EXCEEDED_PARK'')
        (if park_only policy then ''policy-configured-for-park-only'' else if cool then ''switch-cooldown-active-avoiding-retry-storm''
         else ''max-switches-per-incident-exhausted'') wrap_up 900000 (reset_or_null pool))"

text \<open>The availability of each subscription; the active one counts as unavailable, whatever its models.\<close>

definition availability_of :: "js \<Rightarrow> rat \<Rightarrow> js \<Rightarrow> quota_pool \<Rightarrow> js" where
  "availability_of current_sub now max_age pool =
     (let seen = (case qp_observed pool of Some t \<Rightarrow> t | None \<Rightarrow> now) in
      JObj [(''subscription'', JStr (qp_subscription pool)),
        (''status'', JStr (if js_eq (JStr (qp_subscription pool)) current_sub then ''unavailable''
                          else if qp_status pool = ''healthy'' then ''healthy'' else ''unavailable'')),
        (''observedAt'', JNum (Fin seen)),
        (''expiresAt'', JNum (num_op max (Fin (now + 1)) (num_op (+) (Fin seen) (num_of max_age))))])"

definition fallback_or_park :: "host \<Rightarrow> js \<Rightarrow> js \<Rightarrow> seat_args \<Rightarrow> js \<Rightarrow> js \<Rightarrow> js \<Rightarrow> pools \<Rightarrow> quota_pool \<Rightarrow> quota_decision res" where
  "fallback_or_park h PROFILE policy a seat current current_sub pools pool =
     (let max_age = fld policy ''maxObservationAgeMs'' in
      bnd (selectDistributionRoute h PROFILE (sa_selection a) seat (JArr (map (availability_of current_sub (sa_now a) max_age \<circ> snd) pools))
             (sa_excluded a) (sa_now a) max_age) (\<lambda>r.
      let kept = kept_of seat (sa_preserve a) (Some (elems (sa_excluded a))) in
      if rt_status r = ''eligible-proposal'' \<and> truthy (rt_selected r) \<and> \<not> js_eq (fld (rt_selected r) ''subscription'') current_sub
      then Inr ((decision True True ''checkpoint-and-fallback'' ''QUOTA_FALLBACK_PROPOSED'' seat current (rt_selected r) (Some pool))
             \<lparr>qd_target := map_of pools (js_string h (fld (rt_selected r) ''subscription'')), qd_kept := Some kept,
              qd_index := rt_index r, qd_digest := rt_digest r\<rparr>)
      else Inr ((parked a seat current pool ''QUOTA_PARKED_NO_ELIGIBLE_FALLBACK'' ''no-eligible-fallback-on-distinct-healthy-subscription''
                  wrap_up 900000 (reset_or_null pool))\<lparr>qd_kept := Some kept, qd_reasons := rt_reasons r\<rparr>)))"

text \<open>The tests after the role is known, in the order of the code.\<close>

definition decide_enabled :: "host \<Rightarrow> js \<Rightarrow> js \<Rightarrow> seat_args \<Rightarrow> js \<Rightarrow> js \<Rightarrow> js \<Rightarrow> quota_decision res" where
  "decide_enabled h PROFILE policy a seat current current_sub =
     (let pools = snd (evaluateSubscriptionQuotaPools h (sa_observations a) policy (sa_now a)); pool = current_pool h pools current_sub in
      if qp_status pool = ''healthy''
      then Inr (decision True True ''none'' ''QUOTA_HEALTHY_CONTINUE'' seat current current (Some pool))
      else if qp_status pool = ''unknown'' \<or> qp_status pool = ''stale'' then Inr (hold_unverified policy a seat current pool)
      else if \<not> truthy (sa_checkpoint a)
      then Inr ((decision False True ''reach-safe-checkpoint'' ''QUOTA_THRESHOLD_REACH_CHECKPOINT'' seat current JNull (Some pool))
             \<lparr>qd_kept := Some (kept_of seat (sa_preserve a) None)\<rparr>)
      else if fld (sa_history a) ''activeWriterRunning'' = JBool True
      then Inr ((parked a seat current pool ''QUOTA_CONCURRENT_WRITER_HOLD'' ''prior-writer-still-active-cannot-switch''
                  ''fence-prior-writer-before-quota-fallback'' 300000 JUndef))
      else if park_only policy \<or> switches_used_up policy (sa_history a) \<or> in_cooldown policy (sa_history a) (sa_now a)
      then Inr (park_instead policy a seat current pool)
      else fallback_or_park h PROFILE policy a seat current current_sub pools pool)"

definition evaluateSeatQuotaControl :: "host \<Rightarrow> js \<Rightarrow> seat_args \<Rightarrow> quota_decision res" where
  "evaluateSeatQuotaControl h PROFILE a =
     bnd (seat_policy (sa_policy a)) (\<lambda>policy.
     bnd (resolveDistribution h PROFILE (sa_selection a)) (\<lambda>profile_js.
     bnd (distributionRole h profile_js (sa_seat a)) (\<lambda>role.
     let seat = fld role ''seat'';
         current = coal (sa_current a) (case elems (fld role ''options'') of [] \<Rightarrow> JUndef | option # _ \<Rightarrow> option) in
     if fld policy ''enabled'' \<noteq> JBool True
     then Inr (decision True False ''none'' ''QUOTA_CONTROL_DISABLED'' seat current current None)
     else bnd (dot current ''subscription'') (\<lambda>current_sub.
       decide_enabled h PROFILE policy a seat current current_sub))))"


section \<open>Facts\<close>

text \<open>What a healthy reading says about the observation it was made from.\<close>

definition healthy_reading :: "host \<Rightarrow> quota_limits \<Rightarrow> rat \<Rightarrow> js \<Rightarrow> string \<Rightarrow> string \<Rightarrow> bool" where
  "healthy_reading h lims now obs sub win \<longleftrightarrow>
     \<not> not_a_quota obs \<and> trimmed_text (fld obs ''subscription'') = sub \<and> trimmed_text (fld obs ''window'') = win
     \<and> trimmed_text (fld obs ''source'') \<in> set ALLOWED_OBSERVATION_SOURCES
     \<and> one_of [''supported'', ''approximate''] (coal (fld obs ''mode'') (JStr ''supported'')) \<and> fld obs ''status'' \<noteq> JStr ''unavailable''
     \<and> (\<exists>t r. time_of h (fld obs ''observedAt'') = Some t \<and> t \<le> now \<and> \<not> num_less (ql_max_age lims) (Fin (now - t))
          \<and> fld obs ''remainingPct'' = JNum (Fin r) \<and> 0 \<le> r \<and> r \<le> 100
          \<and> \<not> num_less (Fin r) (num_of (effective_threshold lims win)))"

lemma fresh_obs_healthy:
  assumes "q_health (fresh_obs h lims now obs mode win o1) = ''healthy''" "q_health o1 = ''unknown''"
  shows "mode \<noteq> JStr ''unavailable'' \<and> fld obs ''status'' \<noteq> JStr ''unavailable''
    \<and> (\<exists>r. fld obs ''remainingPct'' = JNum (Fin r) \<and> 0 \<le> r \<and> r \<le> 100 \<and> \<not> num_less (Fin r) (num_of (effective_threshold lims win)))"
  using assms by (auto simp: fresh_obs_def measured_obs_def Let_def split: if_splits js.splits jsnum.splits)

lemma dated_obs_healthy:
  assumes "q_health (dated_obs h lims now obs mode win o0) = ''healthy''" "q_health o0 = ''unknown''"
  shows "\<exists>t. time_of h (fld obs ''observedAt'') = Some t \<and> t \<le> now \<and> \<not> num_less (ql_max_age lims) (Fin (now - t))
    \<and> q_health (fresh_obs h lims now obs mode win (o0\<lparr>q_observed := Some t, q_age := Some (now - t)\<rparr>)) = ''healthy''"
  using assms by (auto simp: dated_obs_def Let_def split: if_splits option.splits)

lemma dated_obs_ids:
  "q_subscription (dated_obs h lims now obs mode win o0) = q_subscription o0" "q_window (dated_obs h lims now obs mode win o0) = q_window o0"
  by (simp_all add: dated_obs_def fresh_obs_def measured_obs_def Let_def split: option.splits js.splits jsnum.splits)

lemma refused_obs_fields:
  "q_health (refused_obs why) = ''unknown''" "q_subscription (refused_obs why) = None" "q_window (refused_obs why) = None"
  by (simp_all add: refused_obs_def)

lemma classify_healthy:
  assumes "q_health (classifyQuotaObservation h lims now obs0) = ''healthy''"
    and "q_subscription (classifyQuotaObservation h lims now obs0) = Some sub" "q_window (classifyQuotaObservation h lims now obs0) = Some win"
  shows "healthy_reading h lims now (js_default obs0 (JObj [])) sub win"
proof -
  let ?obs = "js_default obs0 (JObj [])"
  let ?sub = "trimmed_text (fld ?obs ''subscription'')" and ?win = "trimmed_text (fld ?obs ''window'')" and ?src = "trimmed_text (fld ?obs ''source'')"
  let ?mode = "coal (fld ?obs ''mode'') (JStr ''supported'')"
  let ?o0 = "(refused_obs [])\<lparr>q_subscription := Some ?sub, q_window := Some ?win, q_source := Some ?src\<rparr>"
  have c: "\<not> not_a_quota ?obs" "?src \<in> set ALLOWED_OBSERVATION_SOURCES" "one_of ALLOWED_OBSERVATION_MODES ?mode"
    and e: "classifyQuotaObservation h lims now obs0 = dated_obs h lims now ?obs ?mode ?win ?o0"
    using assms(1) by (auto simp: classifyQuotaObservation_def Let_def refused_obs_fields split: if_splits)
  have u: "q_health ?o0 = ''unknown''" by (simp add: refused_obs_fields)
  have ids: "?sub = sub" "?win = win" using assms(2,3) by (simp_all add: e dated_obs_ids)
  from dated_obs_healthy [OF assms(1) [unfolded e] u] obtain t where t: "time_of h (fld ?obs ''observedAt'') = Some t" "t \<le> now"
      "\<not> num_less (ql_max_age lims) (Fin (now - t))"
      and f: "q_health (fresh_obs h lims now ?obs ?mode ?win (?o0\<lparr>q_observed := Some t, q_age := Some (now - t)\<rparr>)) = ''healthy''" by blast
  have "q_health (?o0\<lparr>q_observed := Some t, q_age := Some (now - t)\<rparr>) = ''unknown''" by (simp add: refused_obs_fields)
  from fresh_obs_healthy [OF f this] have m: "?mode \<noteq> JStr ''unavailable''" "fld ?obs ''status'' \<noteq> JStr ''unavailable''"
      "\<exists>r. fld ?obs ''remainingPct'' = JNum (Fin r) \<and> 0 \<le> r \<and> r \<le> 100 \<and> \<not> num_less (Fin r) (num_of (effective_threshold lims win))"
    unfolding ids by blast+
  from c(3) m(1) have "one_of [''supported'', ''approximate''] ?mode" by (auto simp: one_of_iff ALLOWED_OBSERVATION_MODES_def)
  with c(1,2) ids t m(2,3) show ?thesis unfolding healthy_reading_def by blast
qed

text \<open>A healthy pool.\<close>

lemma window_items_set: "set (window_items items w) = {q \<in> set items. q_window q = Some w}"
  by (auto simp: window_items_def)

lemma window_items_newest:
  assumes "window_items items w \<noteq> []" "q \<in> set items" "q_window q = Some w"
  shows "seen_at q \<le> seen_at (hd (window_items items w))"
proof -
  let ?s = "window_items items w"
  have "sorted (map (\<lambda>q. - seen_at q) ?s)" by (simp add: window_items_def)
  moreover have "q \<in> set ?s" using assms(2,3) by (simp add: window_items_set)
  ultimately show ?thesis using assms(1) by (cases ?s) auto
qed

lemma pool_status_healthy:
  assumes "fst (pool_status qs missing windows) = ''healthy''"
  shows "missing = [] \<and> length qs = length windows
    \<and> list_all (\<lambda>q. q_valid q \<and> q_class q \<in> {''supported'', ''approximate''} \<and> q_health q = ''healthy'') qs"
  using assms by (simp add: pool_status_def split: if_splits)

lemma pool_of_healthy:
  assumes "qp_status (pool_of windows now sub items) = ''healthy''" "w \<in> set windows"
  shows "\<exists>q\<in>set items. q_window q = Some w \<and> q_valid q \<and> q_health q = ''healthy''
    \<and> (\<forall>q'\<in>set items. q_window q' = Some w \<longrightarrow> seen_at q' \<le> seen_at q)"
proof -
  let ?rel = "filter (\<lambda>q. case q_window q of Some w \<Rightarrow> w \<in> set windows | None \<Rightarrow> False) items"
  let ?found = "filter (\<lambda>w. window_items ?rel w \<noteq> []) windows" and ?missing = "filter (\<lambda>w. window_items ?rel w = []) windows"
  have "qp_status (judged_pool sub now (map (\<lambda>w. (w, hd (window_items ?rel w))) ?found) ?missing windows) = ''healthy''"
    using assms(1) by (simp add: pool_of_def Let_def unknown_pool_def split: if_splits)
  then have h: "?missing = []" "list_all (\<lambda>q. q_valid q \<and> q_class q \<in> {''supported'', ''approximate''} \<and> q_health q = ''healthy'')
      (map snd (map (\<lambda>w. (w, hd (window_items ?rel w))) ?found))"
    unfolding judged_pool_def Let_def by (auto dest: pool_status_healthy)
  from h(1) assms(2) have n: "window_items ?rel w \<noteq> []" by (auto simp: filter_empty_conv)
  let ?q = "hd (window_items ?rel w)"
  have "?q \<in> set (window_items ?rel w)" using n by simp
  then have q: "?q \<in> set items" "q_window ?q = Some w" by (simp_all add: window_items_set)
  have "q_valid ?q \<and> q_health ?q = ''healthy''" using h(2) n assms(2) by (auto simp: list_all_iff)
  moreover have "seen_at q' \<le> seen_at ?q" if "q' \<in> set items" "q_window q' = Some w" for q'
    by (rule window_items_newest [OF n]) (use that assms(2) in simp_all)
  ultimately show ?thesis using q by blast
qed

lemma pools_entry:
  assumes "map_of (snd (evaluateSubscriptionQuotaPools h obs policy now)) sub = Some p"
  shows "p = pool_of (policy_windows policy) now sub
    (filter (\<lambda>q. q_subscription q = Some sub) (fst (evaluateSubscriptionQuotaPools h obs policy now)))"
  using assms by (auto simp: evaluateSubscriptionQuotaPools_def Let_def dest!: map_of_SomeD)

lemma classified_set:
  "set (fst (evaluateSubscriptionQuotaPools h obs policy now)) = classifyQuotaObservation h (quota_limits_of policy) now ` set (elems obs)"
  by (cases obs) (simp_all add: evaluateSubscriptionQuotaPools_def Let_def)

text \<open>Who is proposed as a fallback.\<close>

lemma availability_of_fields:
  "fld (availability_of current_sub now max_age pool) ''subscription'' = JStr (qp_subscription pool)"
  "fld (availability_of current_sub now max_age pool) ''status'' = JStr ''healthy'' \<longleftrightarrow>
     \<not> js_eq (JStr (qp_subscription pool)) current_sub \<and> qp_status pool = ''healthy''"
  by (simp_all add: availability_of_def Let_def fld_own)

lemma record_for_healthy:
  assumes "fld (record_for (map (availability_of current_sub now max_age \<circ> snd) pools) option) ''status'' = JStr ''healthy''"
  shows "\<exists>p\<in>set pools. fld option ''subscription'' = JStr (qp_subscription (snd p)) \<and> qp_status (snd p) = ''healthy''
    \<and> \<not> js_eq (JStr (qp_subscription (snd p))) current_sub"
proof -
  let ?av = "map (availability_of current_sub now max_age \<circ> snd) pools"
  let ?f = "filter (\<lambda>a. js_eq (fld a ''subscription'') (fld option ''subscription'')) ?av"
  obtain a where a: "?f = [a]" "record_for ?av option = a"
    using assms by (cases ?f rule: remdups_adj.cases) (auto simp: record_for_def)
  have "a \<in> set ?f" by (simp only: a(1) list.set_intros)
  then obtain p where p: "p \<in> set pools" "a = availability_of current_sub now max_age (snd p)"
      "js_eq (JStr (qp_subscription (snd p))) (fld option ''subscription'')"
    by (auto simp: availability_of_fields)
  from js_eq_imp_eq [OF p(3)] have e: "fld option ''subscription'' = JStr (qp_subscription (snd p))" by simp
  have "\<not> js_eq (JStr (qp_subscription (snd p))) current_sub \<and> qp_status (snd p) = ''healthy''"
    using assms unfolding a(2) p(2) availability_of_fields .
  with p(1) e show ?thesis by blast
qed

lemma pool_of_subscription: "qp_subscription (pool_of windows now sub items) = sub"
  by (simp add: pool_of_def judged_pool_def unknown_pool_def Let_def)

lemma subscriptions_distinct: "distinct (subscriptions_of qs)"
proof -
  have "distinct acc \<Longrightarrow> distinct (foldl (\<lambda>acc s. if s \<in> set acc then acc else acc @ [s]) acc ys)" for acc ys
    by (induction ys arbitrary: acc) auto
  from this [of "[]"] show ?thesis by (simp add: subscriptions_of_def)
qed

lemma pools_member:
  assumes "p \<in> set (snd (evaluateSubscriptionQuotaPools h obs policy now))"
  shows "map_of (snd (evaluateSubscriptionQuotaPools h obs policy now)) (qp_subscription (snd p)) = Some (snd p)"
proof -
  let ?pools = "snd (evaluateSubscriptionQuotaPools h obs policy now)"
  have "distinct (map fst ?pools)" by (simp add: evaluateSubscriptionQuotaPools_def Let_def comp_def subscriptions_distinct)
  moreover have "qp_subscription (snd p) = fst p"
    using assms by (auto simp: evaluateSubscriptionQuotaPools_def Let_def pool_of_subscription)
  ultimately show ?thesis using assms by (simp add: map_of_eq_Some_iff)
qed

text \<open>The one decision that proposes a fallback.\<close>

lemma other_interventions:
  "qd_intervention (hold_unverified policy a seat current pool) = ''hold-unverified-quota''"
  "qd_intervention (parked a seat current pool st why todo wait reset) = ''park-and-checkpoint''"
  "qd_intervention (park_instead policy a seat current pool) = ''park-and-checkpoint''"
  by (simp_all add: hold_unverified_def parked_def park_instead_def decision_def Let_def)

definition may_switch :: "js \<Rightarrow> seat_args \<Rightarrow> bool" where
  "may_switch policy a \<longleftrightarrow> truthy (sa_checkpoint a) \<and> fld (sa_history a) ''activeWriterRunning'' \<noteq> JBool True
     \<and> \<not> park_only policy \<and> \<not> switches_used_up policy (sa_history a) \<and> \<not> in_cooldown policy (sa_history a) (sa_now a)"

lemma decide_fallback:
  assumes "decide_enabled h PROFILE policy a seat current current_sub = Inr d" "qd_intervention d = ''checkpoint-and-fallback''"
    and "pools = snd (evaluateSubscriptionQuotaPools h (sa_observations a) policy (sa_now a))"
  shows "may_switch policy a \<and> qp_status (current_pool h pools current_sub) \<notin> {''healthy'', ''unknown'', ''stale''}
    \<and> fallback_or_park h PROFILE policy a seat current current_sub pools (current_pool h pools current_sub) = Inr d"
  using assms(1,2)
  by (auto simp: decide_enabled_def Let_def other_interventions decision_def may_switch_def assms(3) split: if_splits)

lemma fallback_selected:
  assumes "fallback_or_park h PROFILE policy a seat current current_sub pools pool = Inr d"
    and "qd_intervention d = ''checkpoint-and-fallback''"
  shows "\<exists>r. selectDistributionRoute h PROFILE (sa_selection a) seat
        (JArr (map (availability_of current_sub (sa_now a) (fld policy ''maxObservationAgeMs'') \<circ> snd) pools))
        (sa_excluded a) (sa_now a) (fld policy ''maxObservationAgeMs'') = Inr r
    \<and> rt_status r = ''eligible-proposal'' \<and> qd_selected d = rt_selected r \<and> qd_pool d = Some pool
    \<and> qd_target d = map_of pools (js_string h (fld (rt_selected r) ''subscription''))"
  using assms by (auto simp: fallback_or_park_def Let_def other_interventions decision_def split: if_splits)

lemma selected_route:
  assumes "selectDistributionRoute h PROFILE selection role availability excluded now max_age = Inr r"
    and "rt_status r = ''eligible-proposal''"
  shows "\<exists>profile_js resolved options. resolveDistribution h PROFILE selection = Inr profile_js
    \<and> distributionRole h profile_js role = Inr resolved \<and> js_iter (fld resolved ''options'') = Inr options
    \<and> rt_selected r \<in> set options \<and> \<not> js_includes (elems excluded) (fld (rt_selected r) ''providerFamily'')
    \<and> fld (record_for (elems availability) (rt_selected r)) ''status'' = JStr ''healthy''"
proof -
  from assms(1) obtain profile_js resolved options
    where p: "resolveDistribution h PROFILE selection = Inr profile_js" "distributionRole h profile_js role = Inr resolved"
        "js_iter (fld resolved ''options'') = Inr options"
      and l: "route_loop (fld resolved ''seat'') (fld profile_js ''selectionDigest'') (elems availability) (elems excluded)
         now (route_max_age max_age) 0 [] options = r"
    by (auto simp: selectDistributionRoute_def split: if_splits)
  from route_loop_found [OF l assms(2)] p show ?thesis by blast
qed

section \<open>Properties\<close>

text \<open>
  C22. A subscription counts as healthy only on evidence. For every configured window there is an
  observation of that subscription, from an allowed source and not about tokens of a context or a
  transcript, neither in the future nor older than the limit, whose remaining percentage lies between
  0 and 100 and is not below the threshold of the window; and no observation of that window is newer.
\<close>

theorem healthy_pool_observed:
  assumes "map_of (snd (evaluateSubscriptionQuotaPools h obs policy now)) sub = Some p" and "qp_status p = ''healthy''"
    and "w \<in> set (policy_windows policy)"
  shows "\<exists>o1\<in>set (elems obs). healthy_reading h (quota_limits_of policy) now (js_default o1 (JObj [])) sub w
    \<and> (\<forall>o2\<in>set (elems obs). let q = classifyQuotaObservation h (quota_limits_of policy) now o2 in
        q_subscription q = Some sub \<and> q_window q = Some w
          \<longrightarrow> seen_at q \<le> seen_at (classifyQuotaObservation h (quota_limits_of policy) now o1))"
proof -
  let ?c = "classifyQuotaObservation h (quota_limits_of policy) now"
  let ?items = "filter (\<lambda>q. q_subscription q = Some sub) (fst (evaluateSubscriptionQuotaPools h obs policy now))"
  from pool_of_healthy [OF assms(2) [unfolded pools_entry [OF assms(1)]] assms(3)] obtain q
    where q: "q \<in> set ?items" "q_window q = Some w" "q_health q = ''healthy''"
      and newest: "\<forall>q'\<in>set ?items. q_window q' = Some w \<longrightarrow> seen_at q' \<le> seen_at q" by blast
  from q(1) obtain o1 where o1: "o1 \<in> set (elems obs)" "q = ?c o1" "q_subscription q = Some sub" by (auto simp: classified_set)
  have "healthy_reading h (quota_limits_of policy) now (js_default o1 (JObj [])) sub w"
    by (rule classify_healthy) (use q o1 in simp_all)
  with o1 newest show ?thesis by (intro bexI [OF _ o1(1)]) (auto simp: classified_set Let_def)
qed


text \<open>
  C21. A switch to another subscription is proposed only by an enabled policy, at a safe
  checkpoint, with no writer running, outside the cooldown and within the allowed number of switches,
  when the current subscription is known to be short or unavailable. The proposed route is an option
  of the role in the resolved distribution, outside the excluded families, on a subscription other
  than the current one whose pool is healthy.
\<close>

theorem fallback_sound:
  assumes "evaluateSeatQuotaControl h PROFILE a = Inr d" and "qd_intervention d = ''checkpoint-and-fallback''"
  shows "\<exists>policy profile_js role resolved options pool sub target.
    seat_policy (sa_policy a) = Inr policy \<and> fld policy ''enabled'' = JBool True \<and> may_switch policy a
    \<and> qd_pool d = Some pool \<and> qp_status pool \<notin> {''healthy'', ''unknown'', ''stale''}
    \<and> resolveDistribution h PROFILE (sa_selection a) = Inr profile_js \<and> distributionRole h profile_js (sa_seat a) = Inr role
    \<and> distributionRole h profile_js (fld role ''seat'') = Inr resolved \<and> js_iter (fld resolved ''options'') = Inr options
    \<and> qd_selected d \<in> set options \<and> \<not> js_includes (elems (sa_excluded a)) (fld (qd_selected d) ''providerFamily'')
    \<and> fld (qd_selected d) ''subscription'' = JStr sub \<and> fld (qd_current d) ''subscription'' \<noteq> JStr sub
    \<and> map_of (snd (evaluateSubscriptionQuotaPools h (sa_observations a) policy (sa_now a))) sub = Some target
    \<and> qd_target d = Some target \<and> qp_status target = ''healthy''"
proof -
  obtain policy profile_js role current current_sub where e: "seat_policy (sa_policy a) = Inr policy" "fld policy ''enabled'' = JBool True"
      "resolveDistribution h PROFILE (sa_selection a) = Inr profile_js" "distributionRole h profile_js (sa_seat a) = Inr role"
      "fld current ''subscription'' = current_sub"
      "decide_enabled h PROFILE policy a (fld role ''seat'') current current_sub = Inr d"
    using assms unfolding evaluateSeatQuotaControl_def bnd_Inr Let_def
    by (auto simp: decision_def dot_Inr split: if_splits)
  let ?pools = "snd (evaluateSubscriptionQuotaPools h (sa_observations a) policy (sa_now a))"
  note d = decide_fallback [OF e(6) assms(2) refl]
  from d have f: "fallback_or_park h PROFILE policy a (fld role ''seat'') current current_sub ?pools (current_pool h ?pools current_sub) = Inr d" by blast
  have cur: "qd_current d = current"
    using f by (auto simp: fallback_or_park_def Let_def parked_def decision_def split: if_splits)
  from fallback_selected [OF f assms(2)] obtain r where r: "selectDistributionRoute h PROFILE (sa_selection a) (fld role ''seat'')
        (JArr (map (availability_of current_sub (sa_now a) (fld policy ''maxObservationAgeMs'') \<circ> snd) ?pools))
        (sa_excluded a) (sa_now a) (fld policy ''maxObservationAgeMs'') = Inr r"
      "rt_status r = ''eligible-proposal''" "qd_selected d = rt_selected r" "qd_pool d = Some (current_pool h ?pools current_sub)"
      "qd_target d = map_of ?pools (js_string h (fld (rt_selected r) ''subscription''))" by blast
  from selected_route [OF r(1,2)] e(3) obtain resolved options
    where s: "distributionRole h profile_js (fld role ''seat'') = Inr resolved" "js_iter (fld resolved ''options'') = Inr options"
        "rt_selected r \<in> set options" "\<not> js_includes (elems (sa_excluded a)) (fld (rt_selected r) ''providerFamily'')"
        "fld (record_for (map (availability_of current_sub (sa_now a) (fld policy ''maxObservationAgeMs'') \<circ> snd) ?pools) (rt_selected r))
           ''status'' = JStr ''healthy''" by auto
  from record_for_healthy [OF s(5)] obtain p where p: "p \<in> set ?pools" "fld (rt_selected r) ''subscription'' = JStr (qp_subscription (snd p))"
      "qp_status (snd p) = ''healthy''" "\<not> js_eq (JStr (qp_subscription (snd p))) current_sub" by blast
  from p(4) have "fld current ''subscription'' \<noteq> JStr (qp_subscription (snd p))" by (auto simp: e(5))
  with e(1-4) d r(3-5) s(1-4) p(2,3) pools_member [OF p(1)] cur show ?thesis
    by (intro exI conjI) (assumption | simp)+
qed

text \<open>The first subscription is short, the second is healthy.\<close>

definition sample_quota_policy :: js where
  "sample_quota_policy = JObj [(''enabled'', JBool True)]"

definition sample_quota_observation :: "string \<Rightarrow> nat \<Rightarrow> js" where
  "sample_quota_observation sub pct =
     JObj [(''subscription'', JStr sub), (''window'', JStr ''weekly''), (''source'', JStr ''provider-status-api''),
       (''observedAt'', JNat 1000), (''remainingPct'', JNat pct)]"

definition sample_quota_args :: seat_args where
  "sample_quota_args =
     \<lparr>sa_seat = JStr ''dev.build'', sa_current = JNull, sa_policy = sample_quota_policy, sa_selection = sample_distribution_choice,
      sa_observations = JArr [sample_quota_observation ''openai'' 10, sample_quota_observation ''claude'' 80], sa_checkpoint = JBool True,
      sa_excluded = JArr [], sa_history = JObj [], sa_preserve = JObj [], sa_now = 2000\<rparr>"

definition sample_full_policy :: js where
  "sample_full_policy = JObj (obj_spread defaultQuotaControlPolicy [(''enabled'', JBool True)])"

lemma sample_full_policy_fields:
  "fld sample_full_policy ''maxObservationAgeMs'' = JNat 300000" "fld sample_full_policy ''thresholdRemainingPct'' = JNat 25"
  "fld sample_full_policy ''windowThresholds'' = JUndef" "fld sample_full_policy ''windows'' = JArr [JStr ''weekly'']"
  "fld sample_full_policy ''enabled'' = JBool True" "fld sample_full_policy ''fallbackAction'' = JStr ''approved-fallback-or-park''"
  "fld sample_full_policy ''maxSwitchesPerIncident'' = JNat 2" "fld sample_full_policy ''minSwitchCooldownMs'' = JNat 300000"
  by (simp_all add: sample_full_policy_def defaultQuotaControlPolicy_def fld_own proto_names_def obj_spread_def)

lemma sample_seat_policy: "seat_policy sample_quota_policy = Inr sample_full_policy"
  by (simp add: seat_policy_def sample_quota_policy_def object_or_empty_def own_props_def validateQuotaControlPolicyShape_def
      quota_policy_errors_def set_and_def error_unless_def fld_own proto_names_def quota_policy_keys_def sample_full_policy_def obj_del_def Let_def)

definition sample_quota_reading :: "string \<Rightarrow> nat \<Rightarrow> quota_obs" where
  "sample_quota_reading sub pct =
     \<lparr>q_valid = True, q_subscription = Some sub, q_window = Some ''weekly'', q_source = Some ''provider-status-api'', q_observed = Some 1000,
      q_age = Some 1000, q_remaining = JNat pct, q_threshold = JNat 25, q_exhausted = (pct = 0), q_reset = None, q_class = ''supported'',
      q_health = (if pct < 25 then ''threshold-crossed'' else ''healthy''),
      q_reason = (if pct = 0 then ''quota-exhausted'' else if pct < 25 then ''below-remaining-threshold'' else ''within-quota-budget'')\<rparr>"

lemma sample_observation_fields:
  "fld (sample_quota_observation sub pct) ''subscription'' = JStr sub" "fld (sample_quota_observation sub pct) ''window'' = JStr ''weekly''"
  "fld (sample_quota_observation sub pct) ''source'' = JStr ''provider-status-api''" "fld (sample_quota_observation sub pct) ''observedAt'' = JNat 1000"
  "fld (sample_quota_observation sub pct) ''remainingPct'' = JNat pct" "fld (sample_quota_observation sub pct) ''kind'' = JUndef"
  "fld (sample_quota_observation sub pct) ''mode'' = JUndef" "fld (sample_quota_observation sub pct) ''status'' = JUndef"
  "fld (sample_quota_observation sub pct) ''resetAt'' = JUndef" "js_default (sample_quota_observation sub pct) d = sample_quota_observation sub pct"
  "plain_object (sample_quota_observation sub pct)"
  by (simp_all add: sample_quota_observation_def fld_own proto_names_def js_default_def)

lemma sample_dated:
  assumes "pct \<le> 100" "o0 = (refused_obs [])\<lparr>q_subscription := Some sub, q_window := Some ''weekly'', q_source := Some ''provider-status-api''\<rparr>"
  shows "dated_obs h (quota_limits_of sample_full_policy) 2000 (sample_quota_observation sub pct) (JStr ''supported'') ''weekly'' o0
    = sample_quota_reading sub pct"
  using assms
  by (simp add: dated_obs_def time_of_def sample_observation_fields finite_option_def quota_limits_of_def sample_full_policy_fields
      fresh_obs_def measured_obs_def effective_threshold_def refused_obs_def sample_quota_reading_def js_default_def fld_own proto_names_def js_finite_def Let_def)

lemma sample_classified:
  assumes "js_trim sub = sub" "sub \<noteq> []" "pct \<le> 100"
  shows "classifyQuotaObservation h (quota_limits_of sample_full_policy) 2000 (sample_quota_observation sub pct) = sample_quota_reading sub pct"
proof -
  have "js_trim ''weekly'' = ''weekly''" "js_trim ''provider-status-api'' = ''provider-status-api''" by code_simp+
  then show ?thesis using assms(1,2) sample_dated [OF assms(3) refl]
    by (simp add: classifyQuotaObservation_def sample_observation_fields trimmed_text_def not_a_quota_def one_of_def
      ALLOWED_QUOTA_WINDOWS_def ALLOWED_OBSERVATION_SOURCES_def ALLOWED_OBSERVATION_MODES_def coal_def Let_def)
qed

lemma sample_readings:
  "map (classifyQuotaObservation h (quota_limits_of sample_full_policy) 2000) (elems (sa_observations sample_quota_args))
     = [sample_quota_reading ''openai'' 10, sample_quota_reading ''claude'' 80]"
proof -
  have "js_trim ''openai'' = ''openai''" "js_trim ''claude'' = ''claude''" by code_simp+
  then show ?thesis by (simp add: sample_quota_args_def sample_classified)
qed

lemma sample_pools:
  "snd (evaluateSubscriptionQuotaPools h (sa_observations sample_quota_args) sample_full_policy 2000) =
     [(''openai'', pool_of [''weekly''] 2000 ''openai'' [sample_quota_reading ''openai'' 10]),
      (''claude'', pool_of [''weekly''] 2000 ''claude'' [sample_quota_reading ''claude'' 80])]"
proof -
  have "is_array (sa_observations sample_quota_args)" by (simp add: sample_quota_args_def)
  then show ?thesis unfolding evaluateSubscriptionQuotaPools_def
    by (simp add: Let_def sample_readings subscriptions_of_def policy_windows_def sample_full_policy_fields List.map_filter_def)
       (simp add: sample_quota_reading_def)
qed

lemma sample_pool_statuses:
  "qp_status (pool_of [''weekly''] 2000 ''openai'' [sample_quota_reading ''openai'' 10]) = ''threshold-crossed''"
  "qp_status (pool_of [''weekly''] 2000 ''claude'' [sample_quota_reading ''claude'' 80]) = ''healthy''"
  "qp_observed (pool_of [''weekly''] 2000 sub [sample_quota_reading sub n]) = Some 1000"
  by (simp_all add: pool_of_def judged_pool_def pool_status_def window_items_def sample_quota_reading_def window_conflict_def lowest_def Let_def)

lemma healthy_pool_observed_witness:
  "\<exists>o1\<in>set (elems (sa_observations sample_quota_args)).
     healthy_reading const_host (quota_limits_of sample_full_policy) 2000 (js_default o1 (JObj [])) ''claude'' ''weekly''"
proof -
  have "map_of (snd (evaluateSubscriptionQuotaPools const_host (sa_observations sample_quota_args) sample_full_policy 2000)) ''claude''
      = Some (pool_of [''weekly''] 2000 ''claude'' [sample_quota_reading ''claude'' 80])" by (simp add: sample_pools)
  moreover have "''weekly'' \<in> set (policy_windows sample_full_policy)" by (simp add: policy_windows_def sample_full_policy_fields)
  ultimately show ?thesis using healthy_pool_observed sample_pool_statuses(2) by blast
qed

definition sample_role :: js where
  "sample_role = JObj [(''seat'', JStr ''dev.build''), (''scope'', JStr ''work-item''), (''options'', JArr sample_routes)]"

lemma sample_role_found: "distributionRole const_host resolved_sample (JStr ''dev.build'') = Inr sample_role"
  by (simp add: distributionRole_def resolved_sample_def sample_distribution_def sample_role_def fld_own own_props_def map_of_obj_spread
      has_own_def obj_spread_new Let_def)

lemma sample_role_fields: "fld sample_role ''seat'' = JStr ''dev.build''" "fld sample_role ''options'' = JArr sample_routes"
  by (simp_all add: sample_role_def fld_own)

lemma sample_route_fields:
  assumes "sub \<in> {''openai'', ''claude'', ''grok''}"
  shows "fld (sample_route sub model) ''subscription'' = JStr sub" "truthy (sample_route sub model)"
  using assms by (auto simp: sample_route_def fld_own route_fields_def ROUTES_def)

lemma sample_available:
  assumes "sub \<in> {''openai'', ''claude'', ''grok''}"
  shows "record_for (map (availability_of (JStr ''openai'') 2000 (JNum (Fin 300000)) \<circ> snd)
       [(''openai'', pool_of [''weekly''] 2000 ''openai'' [sample_quota_reading ''openai'' 10]),
        (''claude'', pool_of [''weekly''] 2000 ''claude'' [sample_quota_reading ''claude'' 80])]) (sample_route sub model) =
    (if sub = ''openai'' then availability_of (JStr ''openai'') 2000 (JNum (Fin 300000)) (pool_of [''weekly''] 2000 ''openai'' [sample_quota_reading ''openai'' 10])
     else if sub = ''claude'' then availability_of (JStr ''openai'') 2000 (JNum (Fin 300000)) (pool_of [''weekly''] 2000 ''claude'' [sample_quota_reading ''claude'' 80])
     else JNull)"
  using assms by (auto simp: record_for_def availability_of_fields pool_of_subscription sample_route_fields)

lemma sample_fresh:
  "fresh_record (availability_of (JStr ''openai'') 2000 (JNum (Fin 300000)) (pool_of [''weekly''] 2000 sub [sample_quota_reading sub n])) 2000 300000"
  by (simp add: fresh_record_def availability_of_def sample_pool_statuses fld_own Let_def)

lemma sample_route_chosen:
  "selectDistributionRoute const_host sample_distribution sample_distribution_choice (JStr ''dev.build'')
     (JArr (map (availability_of (JStr ''openai'') 2000 (JNum (Fin 300000)) \<circ> snd)
       [(''openai'', pool_of [''weekly''] 2000 ''openai'' [sample_quota_reading ''openai'' 10]),
        (''claude'', pool_of [''weekly''] 2000 ''claude'' [sample_quota_reading ''claude'' 80])])) (JArr []) 2000 (JNum (Fin 300000)) =
   Inr \<lparr>rt_status = ''eligible-proposal'', rt_seat = JStr ''dev.build'', rt_selected = sample_route ''claude'' ''claude-4'', rt_index = Some 1,
     rt_digest = fld resolved_sample ''selectionDigest'', rt_reasons = [(0, ''subscription-unavailable'')]\<rparr>"
proof -
  have "route_max_age (JNum (Fin 300000)) = 300000" by (simp add: route_max_age_def js_int_def)
  moreover have "fld (availability_of (JStr ''openai'') 2000 (JNum (Fin 300000)) (pool_of [''weekly''] 2000 ''openai'' [r])) ''status'' = JStr ''unavailable''" for r
    by (simp add: availability_of_def pool_of_subscription fld_own Let_def)
  ultimately show ?thesis
    by (simp add: selectDistributionRoute_def sample_distribution_resolved sample_role_found sample_role_fields sample_routes_def js_iter_def sample_available
        sample_fresh js_includes_def availability_of_fields pool_of_subscription sample_pool_statuses Let_def del: map_map list.map)
qed

lemma fallback_proposed:
  assumes "selectDistributionRoute h PROFILE (sa_selection a) seat
        (JArr (map (availability_of current_sub (sa_now a) (fld policy ''maxObservationAgeMs'') \<circ> snd) pools))
        (sa_excluded a) (sa_now a) (fld policy ''maxObservationAgeMs'') = Inr r"
    and "rt_status r = ''eligible-proposal''" "truthy (rt_selected r)" "\<not> js_eq (fld (rt_selected r) ''subscription'') current_sub"
  shows "\<exists>d. fallback_or_park h PROFILE policy a seat current current_sub pools pool = Inr d \<and> qd_intervention d = ''checkpoint-and-fallback''"
  unfolding fallback_or_park_def Let_def assms(1) using assms(2-4) by (simp add: decision_def)

lemma sample_may_switch: "may_switch sample_full_policy sample_quota_args"
  by (simp add: may_switch_def sample_quota_args_def park_only_def switches_used_up_def in_cooldown_def switch_count_def
      sample_full_policy_fields fld_own proto_names_def js_int_def num_le_def)

lemma sample_fallback:
  "\<exists>d. evaluateSeatQuotaControl const_host sample_distribution sample_quota_args = Inr d \<and> qd_intervention d = ''checkpoint-and-fallback''"
proof -
  let ?pools = "snd (evaluateSubscriptionQuotaPools const_host (sa_observations sample_quota_args) sample_full_policy 2000)"
  let ?pool = "pool_of [''weekly''] 2000 ''openai'' [sample_quota_reading ''openai'' 10]"
  let ?current = "sample_route ''openai'' ''gpt-5''"
  have args: "sa_policy sample_quota_args = sample_quota_policy" "sa_selection sample_quota_args = sample_distribution_choice"
      "sa_seat sample_quota_args = JStr ''dev.build''" "sa_current sample_quota_args = JNull" "sa_now sample_quota_args = 2000"
      "sa_excluded sample_quota_args = JArr []"
    by (simp_all add: sample_quota_args_def)
  have pool: "current_pool const_host ?pools (JStr ''openai'') = ?pool" by (simp add: sample_pools current_pool_def)
  have cur: "(case elems (fld sample_role ''options'') of [] \<Rightarrow> JUndef | option # _ \<Rightarrow> option) = ?current"
    by (simp add: sample_role_fields sample_routes_def)
  have sub: "dot ?current ''subscription'' = Inr (JStr ''openai'')"
    by (simp add: dot_Inr sample_route_fields) (simp add: sample_route_def)
  have route: "selectDistributionRoute const_host sample_distribution (sa_selection sample_quota_args) (JStr ''dev.build'')
        (JArr (map (availability_of (JStr ''openai'') (sa_now sample_quota_args) (fld sample_full_policy ''maxObservationAgeMs'') \<circ> snd) ?pools))
        (sa_excluded sample_quota_args) (sa_now sample_quota_args) (fld sample_full_policy ''maxObservationAgeMs'')
      = Inr \<lparr>rt_status = ''eligible-proposal'', rt_seat = JStr ''dev.build'', rt_selected = sample_route ''claude'' ''claude-4'',
          rt_index = Some 1, rt_digest = fld resolved_sample ''selectionDigest'', rt_reasons = [(0, ''subscription-unavailable'')]\<rparr>"
    using sample_route_chosen by (simp add: args sample_pools sample_full_policy_fields del: list.map)
  have "\<exists>d. fallback_or_park const_host sample_distribution sample_full_policy sample_quota_args (JStr ''dev.build'') ?current (JStr ''openai'')
      ?pools ?pool = Inr d \<and> qd_intervention d = ''checkpoint-and-fallback''"
    by (rule fallback_proposed [OF route]) (simp_all add: sample_route_fields)
  then obtain d where d: "fallback_or_park const_host sample_distribution sample_full_policy sample_quota_args (JStr ''dev.build'') ?current
      (JStr ''openai'') ?pools ?pool = Inr d" "qd_intervention d = ''checkpoint-and-fallback''" by blast
  have "decide_enabled const_host sample_distribution sample_full_policy sample_quota_args (JStr ''dev.build'') ?current (JStr ''openai'') = Inr d"
    using d(1) sample_may_switch unfolding decide_enabled_def pool Let_def args sample_pool_statuses by (simp add: may_switch_def args)
  then show ?thesis using d(2) sample_seat_policy sample_distribution_resolved sample_role_found cur sub
    by (simp add: evaluateSeatQuotaControl_def args sample_full_policy_fields sample_role_fields(1) coal_def Let_def)
qed

lemma fallback_sound_witness:
  "\<exists>d policy sub target. evaluateSeatQuotaControl const_host sample_distribution sample_quota_args = Inr d \<and> may_switch policy sample_quota_args
    \<and> fld (qd_selected d) ''subscription'' = JStr sub \<and> qd_target d = Some target \<and> qp_status target = ''healthy''"
proof -
  obtain d where d: "evaluateSeatQuotaControl const_host sample_distribution sample_quota_args = Inr d"
      "qd_intervention d = ''checkpoint-and-fallback''" using sample_fallback by blast
  from fallback_sound [OF d] d(1) show ?thesis by blast
qed

section \<open>A conflict that is missed\<close>

text \<open>
  Three observations of one window at the same time, of which the third contradicts the first two: only
  the first two are compared, so the subscription counts as healthy; in another order it does not.
\<close>

lemma third_conflict_missed:
  "qp_status (pool_of [''weekly''] 2000 sub [sample_quota_reading sub 50, sample_quota_reading sub 50, sample_quota_reading sub 10]) = ''healthy''"
  "qp_status (pool_of [''weekly''] 2000 sub [sample_quota_reading sub 10, sample_quota_reading sub 50, sample_quota_reading sub 50]) = ''unknown''"
  by (simp_all add: pool_of_def judged_pool_def unknown_pool_def pool_status_def window_items_def sample_quota_reading_def window_conflict_def seen_at_def Let_def)

end
