(* ===== verification/Spec2Isabelle.thy ===== *)
theory Spec2Isabelle
  imports Altitude ProcessState Observation RunProps Policy Merge Dispatch SourceAdapter Collaboration GitHubSource RoleAdvance OnboardingService Quota
begin

text \<open>
  \<^bold>\<open>A verification library for the AgentFlow delivery core\<close>

  The program (src/lib, JavaScript modules) governs how coding agents deliver a change. A piece of
  work is opened at an altitude, walks through nine phases, is executed under an explicit authority
  and ends in a sealed, replayable log. The parts and how they interact:

  \<^item> every record that crosses a boundary is \<^emph>\<open>sealed\<close>: it carries the SHA-256 digest of
    its canonical JSON text (record-digest.mjs, delivery-record.mjs). All other parts check seals
    before they read a field;
  \<^item> a \<^emph>\<open>run\<close> is a fold of sealed events (run-state.mjs). Its handlers call the validators of
    delegation grants, oracle packages, host consent and observations, and its state is read by the
    status projection, the oracle requests and the delegation resolver;
  \<^item> \<^emph>\<open>authority\<close> comes from humans (gate.mjs, posture.mjs, work-altitude.mjs,
    intent-consent.mjs, review-attestation.mjs), is delegated by grants inside a run
    (delegation-grant.mjs) and is limited by budgets and policies (delivery-policy.mjs);
  \<^item> \<^emph>\<open>work\<close> is described by collaboration and execution intents (collaboration-intent.mjs,
    execution-intent.mjs), bound to a provider (provider-binding.mjs) and reported in receipts
    (execution-receipt.mjs);
  \<^item> \<^emph>\<open>seats\<close> are leased and claimed by sessions (seat-lease.mjs, seat-claim.mjs), hand work to
    each other by envelopes (dispatch.mjs), write transitions into the phase log (phase-graph.mjs)
    whose visible state is the board (process-state.mjs), and change outside systems through
    confirmed mutation plans (source-adapter.mjs);
  \<^item> \<^emph>\<open>roles\<close> hand over work under acceptance contracts; a delivery is held against its
    contract, accepted by its owner and advanced, with bounded rework and a circuit breaker
    (role-collaboration.mjs);
  \<^item> \<^emph>\<open>stores\<close> keep the events of a run behind a compare-and-append contract: in memory, in
    one file per run (run-store.mjs), or on a branch of a remote repository
    (github-run-store.mjs);
  \<^item> a project is brought under the framework by \<^emph>\<open>onboarding\<close>: the evidence of its agent
    runtime is assessed (onboarding-state.mjs, runtime-handoff.mjs), a plan is computed and shown
    (onboarding-plan.mjs), and the confirmed plan is applied (onboarding-service.mjs);
  \<^item> each seat runs on a route of the \<^emph>\<open>execution distribution\<close>
    (execution-distribution.mjs), and \<^emph>\<open>quota control\<close> (quota-policy.mjs) decides from
    observations of the subscriptions whether a seat goes on, waits, parks or changes its route.

  \<^bold>\<open>How the sources are modelled\<close>

  The prelude \<open>Js\<close> holds the JavaScript values (\<open>js\<close>), the operators and library
  functions the sources use, the error monad (\<open>res\<close>: \<open>Inl\<close> is a throw) and the loop
  combinators. A function of the source is one definition of the same name wherever HOL allows it;
  parts of a long function are definitions of their own, mapped to their lines. State that the code
  keeps in variables, files or directories is passed explicitly. Conventions:

  \<^item> strings are sequences of code units below 256; numbers are exact rationals plus the three
    non-finite values, so rounding of doubles is not modelled, except in the increments of the rework ledger
    (\<open>succ_num\<close>), where it decides whether a fencing token moves; decimal text is read exactly;
  \<^item> objects are association lists in insertion order; two objects or arrays are never strictly
    equal, which is what identity gives on values that were parsed or cloned;
  \<^item> a read of a property finds the inherited members of \<open>Object.prototype\<close>
    (\<open>JBuiltin\<close>); functions stored in objects (the operations of a provider, of an adapter) are
    also \<open>JBuiltin\<close> values; an object's own \<open>toString\<close> or \<open>valueOf\<close> is not called;
  \<^item> the sources' own errors carry their message; the message of an engine \<open>TypeError\<close> is
    approximate and a \<open>RangeError\<close> is an \<open>Error\<close>;
  \<^item> a file is its parsed content (\<open>None\<close> when it is not JSON) under its path; writing JSON
    stores what \<open>JSON.parse\<close> reads back (\<open>stored\<close>). The run stores keep the text itself, read
    by the parser of \<open>JsonParse\<close>. Failures of the file system (other than the faults
    \<open>RunStore\<close> injects), symbolic links and case-insensitive names are not modelled;
  \<^item> the host is a parameter (\<open>host\<close>): SHA-256, the implementation-defined part of
    \<open>Date.parse\<close> and the printing of non-integral numbers. So are the clock, the environment,
    the \<open>inspect\<close> member of a provider and the rig program. Where a property needs the hash to be
    hexadecimal or free of a collision, it says so as a hypothesis.

  \<^bold>\<open>Theories\<close>

  \<^item> \<open>Js\<close>: prelude. \<open>Digest\<close>: canonical text, digests, sealing and its readers; the text
    determines the record (\<open>digest_binds_payload\<close>) and sealing is accepted by its reader.
    \<open>Json\<close>: \<open>JSON.stringify\<close> and what is read back. \<open>JsonParse\<close>: the reader \<open>JSON.parse\<close>
    on text, the indented writer, and that reading what was written gives the value back; both
    model the engine's functions, so they are lemmas for the stores and not claims about the program.
    \<open>Dates\<close>: \<open>toISOString\<close> and its
    round trip through \<open>Date.parse\<close>.
  \<^item> \<open>Vocabulary\<close>, \<open>Artifacts\<close>: roles, boundaries, profiles, platforms, artifact references,
    unit identities, model families and attestations.
  \<^item> \<open>Gate\<close>: gates, refreezes, crossings and postures: what opens a gate, when a refreeze is
    narrowing, and that the effective gating is the stricter of its sources. \<open>Altitude\<close>: opening
    goals, capabilities and specs.
  \<^item> \<open>PhaseGraph\<close>: the phase machine; the inductive predicate \<open>phase_log\<close> is the set of logs
    that grow through \<open>validateTransition\<close>, with its invariants and its progress.
    \<open>ProcessState\<close>: the board as a filter.
  \<^item> \<open>RunTypes\<close>, \<open>Oracle\<close>, \<open>Observation\<close>, \<open>Delegation\<close>, \<open>RunState\<close>: the state of a
    run, the records it checks and the reducer with a handler per event kind.
  \<^item> \<open>EventLog\<close>: the interfaces of an event-sourced component as locales (an invariant of a
    step, an order its states grow in, redelivery of known events). \<open>Grants\<close> (budgets),
    \<open>Scopes\<close> (authority), \<open>Runs\<close> (the abstract control machine \<open>control_step\<close> and the
    simulation by every handler) and \<open>RunSafety\<close> prove the laws for the reducer and interpret
    the locales on it; \<open>SampleRun\<close> is the concrete run of the witnesses; \<open>RunProps\<close> states
    the properties of every accepted log.
  \<^item> \<open>Policy\<close>: delivery policy, contracts, coverage, usage counters (an interpretation of the
    redelivery locale), budget admission and lifecycle evidence.
  \<^item> \<open>Execution\<close>, \<open>Collaboration\<close>, \<open>Binding\<close>: intents, receipts and four eyes, the floors
    of a collaboration intent, and the choice of a provider.
  \<^item> \<open>RoleCollaboration\<close>, \<open>RoleAdvance\<close>: contracts, receipts, councils and the deterministic
    report; decisions, the rework ledger as a step relation (trips, unfreezings and edits that leave
    the token alone) with its fencing token, and what an advance to the next phase rests on. \<open>OracleDir\<close>: the digest of the oracle directory.
  \<^item> \<open>Seats\<close>, \<open>Dispatch\<close>, \<open>SourceAdapter\<close>, \<open>Merge\<close>: leases and claims, envelopes and
    inboxes, confirmed mutations, and the merge of settings. A claim and a release of a lease are
    each a check and a write, as in the code, which takes no lock: the inductive relation
    \<open>others_step\<close> interleaves the halves of calls of other sessions, and \<open>claim_race\<close> and
    \<open>nameless_release_deletes\<close> show what the exclusion of leases does not cover.
  \<^item> \<open>Clone\<close>: \<open>structuredClone\<close>. \<open>RunStore\<close>: the contract of a store as the locale \<open>run_store\<close>, its interpretation on
    the memory store and on the file store, and the interleavings of several appenders, with
    faults of the file system between any two steps. \<open>GitHubStore\<close>: planning and appending on
    a remote branch, as a monad over the traffic with the service; the service is a parameter.
    \<open>GitHubSource\<close>: sessions of that store over a recorded traffic. What a read or an append
    returns is computed from answers of the service, and so is what the cache holds, which is an
    invariant of the session and not assumed.

  \<^item> \<open>RuntimeHandoff\<close>: the request to a runtime, the normalisation of its evidence and the
    verdict, which holds exactly when the evidence vouches for every required capability.
    \<open>OnboardingPlan\<close>: what blocks a plan, its preview and its seal. \<open>OnboardingService\<close>: the
    operations over ports that read and change the world (a state passed along): what \<open>apply\<close>
    hands over was confirmed and is planned again first, and a confirmed plan of an unchanged
    project passes.

  \<^item> \<open>Distribution\<close>: the check of a selection against the installed profile, overrides, the
    choice of a route and the drift of a roster; every resolved role has three valid options.
    \<open>Quota\<close>: the policy, single observations, the pool of a subscription and the decision for a
    seat; a pool is healthy only on evidence and a fallback is proposed only where it is allowed.
    The remaining fields of a decision, which are constant or repeat the input, are left out.

  \<^bold>\<open>Termination\<close>

  All definitions are total. The JSON reader has fuel, twice the length of its text plus two; the
  lemma \<open>read_value_fuel\<close> shows that more fuel never changes its result. Loops over arrays are structural. The walk up the
  ancestors of a grant (\<open>ancestors_loop\<close>) terminates because the source refuses an identifier it has
  seen: the measure is the number of grants not yet seen. \<open>bindProvider\<close> calls itself at most once
  more, for the manual provider, and has a termination proof on that.

  \<^bold>\<open>Not modelled\<close>

  Command line programs and services that only compose asynchronous input and output
  (run-service.mjs, run-delivery.mjs, provider processes, the doctor and world builder), the file
  system transaction of adoption and the terminal dialogue of onboarding, the readers of configuration files,
  telemetry export, and the Rust crates. The manifest of components lists each of them.
\<close>

end
